(* ===== verification/Prelude.thy ===== *)
theory Prelude
  imports Main "HOL-Library.Word" "HOL-Library.Sublist" "HOL-Library.AList"
begin

text \<open>
  Shared vocabulary of the development: the machine integers of the C and Go sources as
  words, bytes, results with errors, the collections of rewrite rules the component theories extend, and generic
  lemmas on divisibility, powers of two and association lists.
\<close>

type_synonym u8 = "8 word"
type_synonym u16 = "16 word"
type_synonym u32 = "32 word"
type_synonym u64 = "64 word"
type_synonym byte = "8 word"
type_synonym bytes = "byte list"

named_theorems ctype_layout \<open>computed size and alignment of the C types of the sources\<close>
named_theorems layout_rules \<open>rewrite rules that evaluate the C layout algorithm\<close>

subsection \<open>Results\<close>

text \<open>An early return of an error, which is on the left of a sum.\<close>

fun andThen :: "'e + 'a \<Rightarrow> ('a \<Rightarrow> 'e + 'b) \<Rightarrow> 'e + 'b" where
  "andThen (Inl e) f = Inl e"
| "andThen (Inr x) f = f x"

lemma andThen_Inl: "andThen r f = Inl e \<longleftrightarrow> r = Inl e \<or> (\<exists>x. r = Inr x \<and> f x = Inl e)"
  by (cases r) auto

lemma andThen_Inr: "andThen r f = Inr y \<longleftrightarrow> (\<exists>x. r = Inr x \<and> f x = Inr y)"
  by (cases r) auto

subsection \<open>Alignment arithmetic\<close>

definition align_up :: "nat \<Rightarrow> nat \<Rightarrow> nat" where
  "align_up a n = (n + (a - 1)) div a * a"

lemma align_up_ge: "0 < a \<Longrightarrow> n \<le> align_up a n"
proof -
  assume a: "0 < a"
  have "n + (a - 1) = align_up a n + (n + (a - 1)) mod a"
    unfolding align_up_def by (rule div_mult_mod_eq [symmetric])
  moreover have "(n + (a - 1)) mod a \<le> a - 1"
    using mod_less_divisor [OF a, of "n + (a - 1)"] by linarith
  ultimately show ?thesis by linarith
qed

lemma align_up_dvd [simp]: "a dvd align_up a n"
  by (simp add: align_up_def)

lemma align_up_less: "0 < a \<Longrightarrow> align_up a n < n + a"
proof -
  assume a: "0 < a"
  have "align_up a n \<le> n + (a - 1)"
    by (simp add: align_up_def)
  with a show ?thesis by linarith
qed

lemma align_up_least: "0 < a \<Longrightarrow> a dvd m \<Longrightarrow> n \<le> m \<Longrightarrow> align_up a n \<le> m"
proof (rule ccontr)
  assume a: "0 < a" "a dvd m" "n \<le> m" and "\<not> align_up a n \<le> m"
  then have "m < align_up a n" by simp
  moreover have "a dvd align_up a n" by simp
  ultimately have "m + a \<le> align_up a n"
    using a(2) by (metis dvd_add_right_iff dvd_imp_le le_add_diff_inverse less_imp_le zero_less_diff nat_add_left_cancel_le)
  with align_up_less [OF a(1), of n] a(3) show False by linarith
qed

lemma align_up_id [simp]: "0 < a \<Longrightarrow> a dvd n \<Longrightarrow> align_up a n = n"
  by (rule antisym) (simp_all add: align_up_ge align_up_least)

lemma align_up_mult: "0 < k \<Longrightarrow> 0 < a \<Longrightarrow> align_up (k * a) (k * n) = k * align_up a n"
proof (rule antisym)
  assume k: "0 < k" and a: "0 < a"
  show "align_up (k * a) (k * n) \<le> k * align_up a n"
    using k a by (intro align_up_least) (auto simp: align_up_ge mult_dvd_mono)
  have "k dvd align_up (k * a) (k * n)"
    by (meson align_up_dvd dvd_mult_left)
  then obtain m where m: "align_up (k * a) (k * n) = k * m" by blast
  have "k * a dvd k * m" by (metis m align_up_dvd)
  then have "a dvd m" using k by (simp add: dvd_mult_cancel1)
  moreover have "k * n \<le> k * m"
    using align_up_ge [of "k * a" "k * n"] k a m by simp
  then have "n \<le> m" using k by simp
  ultimately show "k * align_up a n \<le> align_up (k * a) (k * n)"
    using a m by (simp add: align_up_least)
qed

subsection \<open>Powers of two\<close>

definition pow2 :: "nat \<Rightarrow> bool" where
  "pow2 n \<longleftrightarrow> n \<in> {1, 2, 4, 8, 16}"

lemma pow2_pos: "pow2 n \<Longrightarrow> 0 < n"
  by (auto simp: pow2_def)

lemma pow2_dvd_max: "pow2 a \<Longrightarrow> pow2 b \<Longrightarrow> a dvd max a b \<and> b dvd max a b"
  by (auto simp: pow2_def max_def)

lemma pow2_max: "pow2 a \<Longrightarrow> pow2 b \<Longrightarrow> pow2 (max a b)"
  by (simp add: max_def)

lemma pow2_values [simp]: "pow2 1" "pow2 (Suc 0)" "pow2 2" "pow2 4" "pow2 8" "pow2 16"
  by (simp_all add: pow2_def)

subsection \<open>Association lists\<close>

lemma length_update: "length (AList.update k v xs) = (if k \<in> fst ` set xs then length xs else Suc (length xs))"
  by (induction xs) auto

lemma update_fresh: "k \<notin> fst ` set xs \<Longrightarrow> AList.update k v xs = xs @ [(k, v)]"
  by (induction xs) auto

lemma set_update_subset: "set (AList.update k v xs) \<subseteq> insert (k, v) (set xs)"
  by (induction xs) auto

lemma set_delete_subset: "set (AList.delete k xs) \<subseteq> set xs"
  by (auto simp: AList.delete_eq)

end
