(* ===== verification/C_Layout.thy ===== *)
theory C_Layout
  imports Prelude
begin

text \<open>
  The layout rules of C types on the 64-bit ABIs the agent is built for (LP64, natural
  alignment, bit-fields allocated in units of their declared type). A type of the sources is
  a value of type \<open>ctype\<close>; \<open>layout\<close> computes its size and alignment, \<open>offset_of\<close> the byte
  offset a member access path denotes (C's \<^verbatim>\<open>offsetof\<close>, anonymous members included).
  The general theorems say that every access path of a well-formed type stays inside the
  object, is aligned, and that two members of a struct never share a bit.
\<close>

subsection \<open>Types and members\<close>

datatype signedness = Signed | Unsigned

datatype ctype =
    CInt signedness nat
  | CEnum "(string \<times> int) list"
  | CPtr string
  | CArray ctype nat
  | CStruct "cfield list"
  | CUnion "cfield list"
and cfield =
    Member string ctype
  | BitField string ctype nat

text \<open>The integer types of C, by size in bytes.\<close>

abbreviation c_bool :: ctype where "c_bool \<equiv> CInt Unsigned 1"
abbreviation c_char :: ctype where "c_char \<equiv> CInt Signed 1"
abbreviation c_signed_char :: ctype where "c_signed_char \<equiv> CInt Signed 1"
abbreviation c_unsigned_char :: ctype where "c_unsigned_char \<equiv> CInt Unsigned 1"
abbreviation c_short :: ctype where "c_short \<equiv> CInt Signed 2"
abbreviation c_unsigned_short :: ctype where "c_unsigned_short \<equiv> CInt Unsigned 2"
abbreviation c_int :: ctype where "c_int \<equiv> CInt Signed 4"
abbreviation c_unsigned_int :: ctype where "c_unsigned_int \<equiv> CInt Unsigned 4"
abbreviation c_long :: ctype where "c_long \<equiv> CInt Signed 8"
abbreviation c_unsigned_long :: ctype where "c_unsigned_long \<equiv> CInt Unsigned 8"
abbreviation c_long_long :: ctype where "c_long_long \<equiv> CInt Signed 8"
abbreviation c_unsigned_long_long :: ctype where "c_unsigned_long_long \<equiv> CInt Unsigned 8"
abbreviation c_unsigned_int128 :: ctype where "c_unsigned_int128 \<equiv> CInt Unsigned 16"

text \<open>What the layout algorithm needs of a member (the slot it asks for): its size and alignment in bytes and, for a
  bit-field, its width and whether it is named.\<close>

datatype slot = Whole nat nat | Bits bool nat nat nat

definition enum_size :: "(string \<times> int) list \<Rightarrow> nat" where
  "enum_size es = (if list_all (\<lambda>(_, v). - (2 ^ 31) \<le> v \<and> v < 2 ^ 32) es then 4 else 8)"

text \<open>\<open>place p m\<close> is the pair of the bit position at which a member is stored when the
  positions below \<open>p\<close> are taken, and the first position after it. A bit-field that fits in the
  rest of its allocation unit is packed there; one that does not, or has width 0, starts
  the next unit.\<close>

fun place :: "nat \<Rightarrow> slot \<Rightarrow> nat \<times> nat" where
  "place p (Whole s a) = (align_up (8 * a) p, align_up (8 * a) p + 8 * s)"
| "place p (Bits named s a w) =
     (if w = 0 \<or> 8 * s < p mod (8 * s) + w
      then (align_up (8 * a) p, align_up (8 * a) p + w)
      else (p, p + w))"

fun member_align :: "slot \<Rightarrow> nat" where
  "member_align (Whole s a) = a"
| "member_align (Bits named s a w) = (if named then a else 1)"

fun struct_end :: "nat \<Rightarrow> slot list \<Rightarrow> nat" where
  "struct_end p [] = p"
| "struct_end p (m # ms) = struct_end (snd (place p m)) ms"

fun union_end :: "slot list \<Rightarrow> nat" where
  "union_end [] = 0"
| "union_end (m # ms) = max (snd (place 0 m)) (union_end ms)"

fun members_align :: "slot list \<Rightarrow> nat" where
  "members_align [] = 1"
| "members_align (m # ms) = max (member_align m) (members_align ms)"

definition bytes_of_bits :: "nat \<Rightarrow> nat" where
  "bytes_of_bits n = (n + 7) div 8"

definition record_layout :: "nat \<Rightarrow> nat \<Rightarrow> nat \<times> nat" where
  "record_layout e a = (align_up a (bytes_of_bits e), a)"

text \<open>Size and alignment of a type, in bytes.\<close>

primrec layout :: "ctype \<Rightarrow> nat \<times> nat" and member_of :: "cfield \<Rightarrow> slot" where
  "layout (CInt _ n) = (n, n)"
| "layout (CEnum es) = (enum_size es, enum_size es)"
| "layout (CPtr _) = (8, 8)"
| "layout (CArray t n) = (n * fst (layout t), snd (layout t))"
| "layout (CStruct fs) =
     record_layout (struct_end 0 (map member_of fs)) (members_align (map member_of fs))"
| "layout (CUnion fs) =
     record_layout (union_end (map member_of fs)) (members_align (map member_of fs))"
| "member_of (Member _ t) = Whole (fst (layout t)) (snd (layout t))"
| "member_of (BitField n t w) = Bits (n \<noteq> []) (fst (layout t)) (snd (layout t)) w"

abbreviation sizeof :: "ctype \<Rightarrow> nat" where
  "sizeof t \<equiv> fst (layout t)"

abbreviation alignof :: "ctype \<Rightarrow> nat" where
  "alignof t \<equiv> snd (layout t)"

text \<open>\<open>find_field t n\<close> is the byte offset and the type of member \<open>n\<close> of a struct or union;
  members of an anonymous member are members of the enclosing type. A bit-field has no
  offset. The first argument of \<open>find_in\<close> says whether members overlap (a union).\<close>

fun find_field :: "ctype \<Rightarrow> string \<Rightarrow> (nat \<times> ctype) option"
  and find_in :: "bool \<Rightarrow> nat \<Rightarrow> cfield list \<Rightarrow> string \<Rightarrow> (nat \<times> ctype) option"
  and find_anon :: "cfield \<Rightarrow> string \<Rightarrow> (nat \<times> ctype) option" where
  "find_field (CStruct fs) n = find_in False 0 fs n"
| "find_field (CUnion fs) n = find_in True 0 fs n"
| "find_field (CInt _ _) n = None"
| "find_field (CEnum _) n = None"
| "find_field (CPtr _) n = None"
| "find_field (CArray _ _) n = None"
| "find_in u p [] n = None"
| "find_in u p (f # fs) n =
     (let (s, e) = place p (member_of f) in
      case find_anon f n of
        Some (k, t) \<Rightarrow> Some (s div 8 + k, t)
      | None \<Rightarrow> find_in u (if u then 0 else e) fs n)"
| "find_anon (Member m t) n =
     (if m = n then Some (0, t) else if m = [] then find_field t n else None)"
| "find_anon (BitField m t w) n = None"

fun offset_of :: "ctype \<Rightarrow> string list \<Rightarrow> (nat \<times> ctype) option" where
  "offset_of t [] = Some (0, t)"
| "offset_of t (n # ns) =
     (case find_field t n of
        None \<Rightarrow> None
      | Some (k, t') \<Rightarrow>
          (case offset_of t' ns of
             None \<Rightarrow> None
           | Some (k', t'') \<Rightarrow> Some (k + k', t'')))"

text \<open>Well-formed types: scalar sizes are powers of two, a bit-field fits its declared type.\<close>

primrec wf_ctype :: "ctype \<Rightarrow> bool" and wf_field :: "cfield \<Rightarrow> bool" where
  "wf_ctype (CInt _ n) = pow2 n"
| "wf_ctype (CEnum es) = True"
| "wf_ctype (CPtr _) = True"
| "wf_ctype (CArray t n) = wf_ctype t"
| "wf_ctype (CStruct fs) = list_all id (map wf_field fs)"
| "wf_ctype (CUnion fs) = list_all id (map wf_field fs)"
| "wf_field (Member _ t) = wf_ctype t"
| "wf_field (BitField _ t w) =
     (wf_ctype t \<and> fst (layout t) = snd (layout t) \<and> w \<le> 8 * fst (layout t))"

lemmas [layout_rules] = record_layout_def bytes_of_bits_def align_up_def enum_size_def

text \<open>Long runs of padding members are written with \<open>replicate\<close>.\<close>

lemma struct_end_append [layout_rules]:
  "struct_end p (xs @ ys) = struct_end (struct_end p xs) ys"
  by (induction xs arbitrary: p) auto

lemma members_align_ge_1: "1 \<le> members_align ms"
  by (induction ms) (auto simp: le_max_iff_disj)

lemma members_align_append [layout_rules]:
  "members_align (xs @ ys) = max (members_align xs) (members_align ys)"
  using members_align_ge_1 [of ys] by (induction xs) (auto simp: max_def)

lemma members_align_pads [layout_rules]: "members_align (replicate n (Bits False s a w)) = 1"
  by (induction n) auto

lemma struct_end_pads_aligned:
  "64 dvd p \<Longrightarrow> struct_end p (replicate n (Bits False 8 8 64)) = p + 64 * n"
  by (induction n arbitrary: p) auto

lemma struct_end_pads [layout_rules]:
  "0 < n \<Longrightarrow> struct_end p (replicate n (Bits False 8 8 64)) = align_up 64 p + 64 * n"
proof (induction n)
  case (Suc n)
  have "snd (place p (Bits False 8 8 64)) = align_up 64 p + 64"
    by (cases "p mod 64 = 0") (auto simp: mod_eq_0_iff_dvd)
  then show ?case
    by (simp add: struct_end_pads_aligned del: place.simps)
qed simp

lemma find_in_append [layout_rules]:
  "find_in False p (xs @ ys) n =
     (case find_in False p xs n of
        Some r \<Rightarrow> Some r
      | None \<Rightarrow> find_in False (struct_end p (map member_of xs)) ys n)"
  by (induction xs arbitrary: p) (auto split: option.splits prod.splits)

lemma find_in_pads [layout_rules]: "find_in False p (replicate k (BitField m t w)) n = None"
  by (induction k arbitrary: p) (auto split: prod.splits)

lemma list_all_replicate [layout_rules]: "list_all P (replicate n x) \<longleftrightarrow> n = 0 \<or> P x"
  by (induction n) auto

subsection \<open>Placement\<close>

fun wf_member :: "slot \<Rightarrow> bool" where
  "wf_member (Whole s a) = (pow2 a \<and> a dvd s)"
| "wf_member (Bits named s a w) = (pow2 a \<and> s = a \<and> w \<le> 8 * s)"

fun placements :: "nat \<Rightarrow> slot list \<Rightarrow> (nat \<times> nat) list" where
  "placements p [] = []"
| "placements p (m # ms) = place p m # placements (snd (place p m)) ms"

lemma place_order:
  assumes "wf_member m"
  shows "p \<le> fst (place p m)" "fst (place p m) \<le> snd (place p m)"
  using assms by (cases m; auto simp: pow2_pos align_up_ge)+

lemma struct_end_ge: "list_all wf_member ms \<Longrightarrow> p \<le> struct_end p ms"
proof (induction ms arbitrary: p)
  case (Cons m ms)
  then have "p \<le> snd (place p m)"
    using place_order [of m p] by auto
  with Cons show ?case by (auto intro: order_trans)
qed simp

lemma placements_bounds:
  "list_all wf_member ms \<Longrightarrow> r \<in> set (placements p ms) \<Longrightarrow>
   p \<le> fst r \<and> fst r \<le> snd r \<and> snd r \<le> struct_end p ms"
proof (induction ms arbitrary: p)
  case (Cons m ms)
  note pl = place_order [of m p]
  show ?case
  proof (cases "r = place p m")
    case True
    with Cons.prems pl show ?thesis by (auto intro: struct_end_ge)
  next
    case False
    with Cons have "snd (place p m) \<le> fst r \<and> fst r \<le> snd r \<and> snd r \<le> struct_end p (m # ms)"
      by simp
    with Cons.prems pl show ?thesis by auto
  qed
qed simp

text \<open>Members are stored one after the other: no two of them share a bit.\<close>

lemma placements_disjoint:
  "list_all wf_member ms \<Longrightarrow> sorted_wrt (\<lambda>x y. snd x \<le> fst y) (placements p ms)"
  by (induction ms arbitrary: p) (auto dest: placements_bounds)

lemma members_align_pow2: "list_all wf_member ms \<Longrightarrow> pow2 (members_align ms)"
proof (induction ms)
  case (Cons m ms)
  have "pow2 (member_align m)" using Cons.prems by (cases m) auto
  with Cons show ?case by (simp add: pow2_max)
qed simp

lemma members_align_dvd:
  "list_all wf_member ms \<Longrightarrow> Whole s a \<in> set ms \<Longrightarrow> a dvd members_align ms"
proof (induction ms)
  case (Cons m ms)
  have m: "pow2 (member_align m)" using Cons.prems by (cases m) auto
  have ms: "pow2 (members_align ms)" using Cons.prems by (simp add: members_align_pow2)
  from pow2_dvd_max [OF m ms] Cons show ?case
    by (auto intro: dvd_trans)
qed simp

lemma union_end_ge: "m \<in> set ms \<Longrightarrow> snd (place 0 m) \<le> union_end ms"
  by (induction ms) auto

subsection \<open>Well-formed types\<close>

lemma wf_members:
  "wf_ctype (CStruct fs) \<longleftrightarrow> list_all wf_field fs" "wf_ctype (CUnion fs) \<longleftrightarrow> list_all wf_field fs"
  by (simp_all add: list_all_iff)

lemma enum_size_pow2: "pow2 (enum_size es)"
  by (simp add: enum_size_def pow2_def)

lemma record_layout_wf: "pow2 a \<Longrightarrow> pow2 (snd (record_layout e a)) \<and> snd (record_layout e a) dvd fst (record_layout e a)"
  by (simp add: record_layout_def)

lemma layout_wf:
  "wf_ctype t \<Longrightarrow> pow2 (alignof t) \<and> alignof t dvd sizeof t"
  and member_of_wf: "wf_field f \<Longrightarrow> wf_member (member_of f)"
proof (induction t and f)
  case (CStruct fs)
  then have "list_all wf_member (map member_of fs)"
    by (auto simp: list_all_iff)
  then show ?case by (simp add: record_layout_wf members_align_pow2)
next
  case (CUnion fs)
  then have "list_all wf_member (map member_of fs)"
    by (auto simp: list_all_iff)
  then show ?case by (simp add: record_layout_wf members_align_pow2)
qed (auto simp: enum_size_pow2)

lemma wf_fields_members: "list_all wf_field fs \<Longrightarrow> list_all wf_member (map member_of fs)"
  by (auto simp: list_all_iff member_of_wf)

lemma bits_le_bytes: "8 * n \<le> e \<Longrightarrow> 0 < a \<Longrightarrow> n \<le> align_up a (bytes_of_bits e)"
proof -
  assume "8 * n \<le> e" "0 < a"
  then have "n \<le> bytes_of_bits e" by (simp add: bytes_of_bits_def)
  also have "\<dots> \<le> align_up a (bytes_of_bits e)" using \<open>0 < a\<close> by (rule align_up_ge)
  finally show ?thesis .
qed

subsection \<open>Access paths\<close>

text \<open>What a member access promises: the accessed object is well-formed, aligned relative to
  its container and inside it.\<close>

definition inside :: "ctype \<Rightarrow> nat \<Rightarrow> ctype \<Rightarrow> bool" where
  "inside t k t' \<longleftrightarrow> wf_ctype t' \<and> alignof t' dvd alignof t \<and> alignof t' dvd k \<and> k + sizeof t' \<le> sizeof t"

lemma inside_refl: "wf_ctype t \<Longrightarrow> inside t 0 t"
  by (simp add: inside_def)

lemma inside_trans:
  assumes "inside t k t'" and "inside t' k' t''"
  shows "inside t (k + k') t''"
proof -
  have d: "alignof t'' dvd alignof t'" using assms(2) by (simp add: inside_def)
  have "alignof t'' dvd alignof t" "alignof t'' dvd k"
    using assms(1) by (auto simp: inside_def intro: dvd_trans [OF d])
  with assms show ?thesis by (simp add: inside_def)
qed

text \<open>The anonymous-member case of the search is an access of the member itself, followed by an
  access inside it.\<close>

lemma find_anon_field: "find_anon f n = Some r \<Longrightarrow> \<exists>m t. f = Member m t"
  by (cases f) auto

lemma place_field_inside:
  fixes p :: nat
  assumes wf: "wf_field (Member m t)" and k: "inside t k t'"
  defines "s \<equiv> fst (place p (member_of (Member m t)))"
  shows "alignof t' dvd s div 8 + k" "8 * (s div 8 + k + sizeof t') \<le> snd (place p (member_of (Member m t)))"
proof -
  have s: "8 * alignof t dvd s" by (simp add: s_def)
  then have "8 dvd s" by (rule dvd_mult_left)
  then have e: "8 * (s div 8) = s" by simp
  with s have "8 * alignof t dvd 8 * (s div 8)" by simp
  then have "alignof t dvd s div 8" by (subst (asm) nat_mult_dvd_cancel_disj) simp
  moreover from k have "alignof t' dvd alignof t" "alignof t' dvd k"
    by (simp_all add: inside_def)
  ultimately show "alignof t' dvd s div 8 + k"
    by (metis dvd_add dvd_trans)
  from k have "k + sizeof t' \<le> sizeof t" by (simp add: inside_def)
  then show "8 * (s div 8 + k + sizeof t') \<le> snd (place p (member_of (Member m t)))"
    using e by (simp add: s_def algebra_simps)
qed

definition in_members :: "bool \<Rightarrow> nat \<Rightarrow> cfield list \<Rightarrow> nat \<Rightarrow> ctype \<Rightarrow> bool" where
  "in_members u p fs k t \<longleftrightarrow> wf_ctype t \<and> alignof t dvd k \<and>
     alignof t dvd members_align (map member_of fs) \<and>
     8 * (k + sizeof t) \<le> (if u then union_end (map member_of fs) else struct_end p (map member_of fs))"

lemma in_members_here:
  assumes wf: "list_all wf_field (f # fs)" and f: "f = Member m t" and k: "inside t k t'"
    and u: "u \<longrightarrow> p = 0"
  shows "in_members u p (f # fs) (fst (place p (member_of f)) div 8 + k) t'"
proof -
  have wff: "wf_field (Member m t)" using wf f by simp
  note here = place_field_inside [OF wff k, of p]
  have ms: "list_all wf_member (map member_of (f # fs))" using wf by (rule wf_fields_members)
  have "alignof t dvd members_align (map member_of (f # fs))"
    using ms f by (intro members_align_dvd [of _ "sizeof t"]) auto
  moreover have "alignof t' dvd alignof t" using k by (simp add: inside_def)
  ultimately have "alignof t' dvd members_align (map member_of (f # fs))"
    by (metis dvd_trans)
  moreover have "snd (place p (member_of f)) \<le>
      (if u then union_end (map member_of (f # fs)) else struct_end p (map member_of (f # fs)))"
    using ms u by (auto intro: struct_end_ge)
  ultimately show ?thesis
    unfolding in_members_def using here f k by (auto simp: inside_def simp del: place.simps intro: order_trans)
qed

lemma in_members_there:
  assumes wf: "list_all wf_field (f # fs)"
    and r: "in_members u (if u then 0 else snd (place p (member_of f))) fs k t"
  shows "in_members u p (f # fs) k t"
proof -
  have ms: "list_all wf_member (map member_of (f # fs))" using wf by (rule wf_fields_members)
  then have "pow2 (member_align (member_of f))" "pow2 (members_align (map member_of fs))"
    by (cases "member_of f"; auto simp: members_align_pow2)+
  then have "members_align (map member_of fs) dvd members_align (map member_of (f # fs))"
    by (simp add: pow2_dvd_max)
  with r show ?thesis
    by (auto simp: in_members_def intro: dvd_trans split: if_splits)
qed

lemma find_inside:
  shows find_field_inside: "wf_ctype t \<Longrightarrow> find_field t n = Some (k, t') \<Longrightarrow> inside t k t'"
    and find_in_inside: "list_all wf_field fs \<Longrightarrow> (u \<longrightarrow> p = 0) \<Longrightarrow>
      find_in u p fs n = Some (k, t') \<Longrightarrow> in_members u p fs k t'"
    and find_anon_inside: "wf_field f \<Longrightarrow> find_anon f n = Some (k, t') \<Longrightarrow>
      \<exists>m t. f = Member m t \<and> inside t k t'"
proof (induction t n and u p fs n and f n arbitrary: k t' and k t' and k t'
    rule: find_field_find_in_find_anon.induct)
  case (1 fs n)
  then have fs: "list_all wf_field fs" by (simp only: wf_members)
  with 1 have r: "in_members False 0 fs k t'" by simp
  have "pow2 (members_align (map member_of fs))"
    using fs by (intro members_align_pow2 wf_fields_members)
  then show ?case using r
    by (auto simp: in_members_def inside_def record_layout_def intro!: bits_le_bytes pow2_pos)
next
  case (2 fs n)
  then have fs: "list_all wf_field fs" by (simp only: wf_members)
  with 2 have r: "in_members True 0 fs k t'" by simp
  have "pow2 (members_align (map member_of fs))"
    using fs by (intro members_align_pow2 wf_fields_members)
  then show ?case using r
    by (auto simp: in_members_def inside_def record_layout_def intro!: bits_le_bytes pow2_pos)
next
  case (8 u p f fs n)
  obtain s e where pl: "place p (member_of f) = (s, e)" by fastforce
  show ?case
  proof (cases "find_anon f n")
    case None
    then have "find_in u (if u then 0 else e) fs n = Some (k, t')"
      using "8.prems" pl by simp
    then have "in_members u (if u then 0 else snd (place p (member_of f))) fs k t'"
      using "8.IH"(2) [OF pl [symmetric] refl None] "8.prems" pl by auto
    with "8.prems" show ?thesis by (intro in_members_there) auto
  next
    case (Some r)
    then obtain k' where r: "r = (k', t')" and k: "k = s div 8 + k'"
      using "8.prems" pl by (cases r) auto
    from "8.IH"(1) [OF pl [symmetric] refl, of k' t'] "8.prems" Some r
    obtain m t where "f = Member m t" "inside t k' t'" by auto
    with "8.prems" pl k show ?thesis
      using in_members_here [of f fs m t k' t' u p] by simp
  qed
next
  case (9 m t n)
  then show ?case by (auto simp: inside_refl split: if_splits)
qed auto

theorem offset_of_inside: "wf_ctype t \<Longrightarrow> offset_of t ns = Some (k, t') \<Longrightarrow> inside t k t'"
proof (induction ns arbitrary: t k)
  case Nil
  then show ?case by (simp add: inside_refl)
next
  case (Cons n ns)
  then obtain k1 t1 k2 where f: "find_field t n = Some (k1, t1)"
    and o: "offset_of t1 ns = Some (k2, t')" and k: "k = k1 + k2"
    by (auto split: option.splits)
  have 1: "inside t k1 t1" using Cons.prems(1) f by (rule find_field_inside)
  then have "wf_ctype t1" by (simp add: inside_def)
  then have "inside t1 k2 t'" using o by (rule Cons.IH)
  with 1 show ?case unfolding k by (rule inside_trans)
qed

subsection \<open>Evaluating access paths\<close>

lemma find_in_hit [layout_rules]:
  "find_in u p (Member n t # fs) n = Some (fst (place p (member_of (Member n t))) div 8, t)"
  by (simp split: prod.splits)

lemma find_in_skip [layout_rules]:
  "m \<noteq> n \<Longrightarrow> m \<noteq> [] \<Longrightarrow> find_in u p (Member m t # fs) n =
     find_in u (if u then 0 else snd (place p (member_of (Member m t)))) fs n"
  by (simp split: prod.splits)

lemma find_in_anonymous [layout_rules]:
  "n \<noteq> [] \<Longrightarrow> find_in u p (Member [] t # fs) n =
     (case find_field t n of
        Some (k, t') \<Rightarrow> Some (fst (place p (member_of (Member [] t))) div 8 + k, t')
      | None \<Rightarrow> find_in u (if u then 0 else snd (place p (member_of (Member [] t)))) fs n)"
  by (auto split: prod.splits option.splits)

lemma find_in_bits [layout_rules]:
  "find_in u p (BitField m t w # fs) n =
     find_in u (if u then 0 else snd (place p (member_of (BitField m t w)))) fs n"
  by (simp split: prod.splits)

declare find_in.simps(2) [simp del]

end
