(* ===== verification/Kernel_Sock.thy ===== *)
theory Kernel_Sock
  imports C_Layout
begin

text \<open>
  The socket objects the probes of \<^verbatim>\<open>socket_flow.bpf.c\<close> receive, as declared in
  \<^verbatim>\<open>vmlinux.h\<close>: \<^verbatim>\<open>struct sock\<close> with everything it embeds, the message header passed to
  \<^verbatim>\<open>sendmsg\<close> and the register file a kprobe sees. One definition per declaration, in
  dependency order, member for member; a function or object pointer keeps the C text of
  the type it points to. The layout lemmas give each type's size and alignment.
\<close>

subsection \<open>Declarations\<close>

definition td___u64 :: ctype where
  "td___u64 =
    c_unsigned_long_long"

definition td___addrpair :: ctype where
  "td___addrpair =
    td___u64"

definition td___u32 :: ctype where
  "td___u32 =
    c_unsigned_int"

definition td___be32 :: ctype where
  "td___be32 =
    td___u32"

definition td___u16 :: ctype where
  "td___u16 =
    c_unsigned_short"

definition td___portpair :: ctype where
  "td___portpair =
    td___u32"

definition td___be16 :: ctype where
  "td___be16 =
    td___u16"

definition struct_hlist_node :: ctype where
  "struct_hlist_node =
    CStruct [Member ''next'' (CPtr ''struct hlist_node''),
       Member ''pprev'' (CPtr ''struct hlist_node *'')]"

definition td_possible_net_t :: ctype where
  "td_possible_net_t =
    CStruct [Member ''net'' (CPtr ''struct net'')]"

definition td___u8 :: ctype where
  "td___u8 =
    c_unsigned_char"

definition struct_in6_addr :: ctype where
  "struct_in6_addr =
    CStruct [Member ''in6_u'' (CUnion [Member ''u6_addr8'' (CArray td___u8 16),
          Member ''u6_addr16'' (CArray td___be16 8),
          Member ''u6_addr32'' (CArray td___be32 4)])]"

definition td___s64 :: ctype where
  "td___s64 =
    c_long_long"

definition td_s64 :: ctype where
  "td_s64 =
    td___s64"

definition td_atomic64_t :: ctype where
  "td_atomic64_t =
    CStruct [Member ''counter'' td_s64]"

definition struct_hlist_nulls_node :: ctype where
  "struct_hlist_nulls_node =
    CStruct [Member ''next'' (CPtr ''struct hlist_nulls_node''),
       Member ''pprev'' (CPtr ''struct hlist_nulls_node *'')]"

definition td_u32 :: ctype where
  "td_u32 =
    td___u32"

definition td_atomic_t :: ctype where
  "td_atomic_t =
    CStruct [Member ''counter'' c_int]"

definition struct_refcount_struct :: ctype where
  "struct_refcount_struct =
    CStruct [Member ''refs'' td_atomic_t]"

definition td_refcount_t :: ctype where
  "td_refcount_t =
    struct_refcount_struct"

definition struct_sock_common :: ctype where
  "struct_sock_common =
    CStruct [Member '''' (CUnion [Member ''skc_addrpair'' td___addrpair,
          Member '''' (CStruct [Member ''skc_daddr'' td___be32,
             Member ''skc_rcv_saddr'' td___be32])]),
       Member '''' (CUnion [Member ''skc_hash'' c_unsigned_int,
          Member ''skc_u16hashes'' (CArray td___u16 2)]),
       Member '''' (CUnion [Member ''skc_portpair'' td___portpair,
          Member '''' (CStruct [Member ''skc_dport'' td___be16,
             Member ''skc_num'' td___u16])]),
       Member ''skc_family'' c_unsigned_short,
       Member ''skc_state'' c_unsigned_char,
       BitField ''skc_reuse'' c_unsigned_char 4,
       BitField ''skc_reuseport'' c_unsigned_char 1,
       BitField ''skc_ipv6only'' c_unsigned_char 1,
       BitField ''skc_net_refcnt'' c_unsigned_char 1,
       Member ''skc_bound_dev_if'' c_int,
       Member '''' (CUnion [Member ''skc_bind_node'' struct_hlist_node,
          Member ''skc_portaddr_node'' struct_hlist_node]),
       Member ''skc_prot'' (CPtr ''struct proto''),
       Member ''skc_net'' td_possible_net_t,
       Member ''skc_v6_daddr'' struct_in6_addr,
       Member ''skc_v6_rcv_saddr'' struct_in6_addr,
       Member ''skc_cookie'' td_atomic64_t,
       Member '''' (CUnion [Member ''skc_flags'' c_unsigned_long,
          Member ''skc_listener'' (CPtr ''struct sock''),
          Member ''skc_tw_dr'' (CPtr ''struct inet_timewait_death_row'')]),
       Member ''skc_dontcopy_begin'' (CArray c_int 0),
       Member '''' (CUnion [Member ''skc_node'' struct_hlist_node,
          Member ''skc_nulls_node'' struct_hlist_nulls_node]),
       Member ''skc_tx_queue_mapping'' c_unsigned_short,
       Member ''skc_rx_queue_mapping'' c_unsigned_short,
       Member '''' (CUnion [Member ''skc_incoming_cpu'' c_int,
          Member ''skc_rcv_wnd'' td_u32,
          Member ''skc_tw_rcv_nxt'' td_u32]),
       Member ''skc_refcnt'' td_refcount_t,
       Member ''skc_dontcopy_end'' (CArray c_int 0),
       Member '''' (CUnion [Member ''skc_rxhash'' td_u32,
          Member ''skc_window_clamp'' td_u32,
          Member ''skc_tw_snd_nxt'' td_u32])]"

definition td_u8 :: ctype where
  "td_u8 =
    td___u8"

definition td_u16 :: ctype where
  "td_u16 =
    td___u16"

definition struct_qspinlock :: ctype where
  "struct_qspinlock =
    CStruct [Member '''' (CUnion [Member ''val'' td_atomic_t,
          Member '''' (CStruct [Member ''locked'' td_u8,
             Member ''pending'' td_u8]),
          Member '''' (CStruct [Member ''locked_pending'' td_u16,
             Member ''tail'' td_u16])])]"

definition td_arch_spinlock_t :: ctype where
  "td_arch_spinlock_t =
    struct_qspinlock"

definition struct_raw_spinlock :: ctype where
  "struct_raw_spinlock =
    CStruct [Member ''raw_lock'' td_arch_spinlock_t]"

definition struct_spinlock :: ctype where
  "struct_spinlock =
    CStruct [Member '''' (CUnion [Member ''rlock'' struct_raw_spinlock])]"

definition td_spinlock_t :: ctype where
  "td_spinlock_t =
    struct_spinlock"

definition struct_list_head :: ctype where
  "struct_list_head =
    CStruct [Member ''next'' (CPtr ''struct list_head''),
       Member ''prev'' (CPtr ''struct list_head'')]"

definition struct_wait_queue_head :: ctype where
  "struct_wait_queue_head =
    CStruct [Member ''lock'' td_spinlock_t,
       Member ''head'' struct_list_head]"

definition td_wait_queue_head_t :: ctype where
  "td_wait_queue_head_t =
    struct_wait_queue_head"

definition td_socket_lock_t :: ctype where
  "td_socket_lock_t =
    CStruct [Member ''slock'' td_spinlock_t,
       Member ''owned'' c_int,
       Member ''wq'' td_wait_queue_head_t]"

definition struct_sk_buff_list :: ctype where
  "struct_sk_buff_list =
    CStruct [Member ''next'' (CPtr ''struct sk_buff''),
       Member ''prev'' (CPtr ''struct sk_buff'')]"

definition struct_sk_buff_head :: ctype where
  "struct_sk_buff_head =
    CStruct [Member '''' (CUnion [Member '''' (CStruct [Member ''next'' (CPtr ''struct sk_buff''),
             Member ''prev'' (CPtr ''struct sk_buff'')]),
          Member ''list'' struct_sk_buff_list]),
       Member ''qlen'' td___u32,
       Member ''lock'' td_spinlock_t]"

definition struct_rb_root :: ctype where
  "struct_rb_root =
    CStruct [Member ''rb_node'' (CPtr ''struct rb_node'')]"

definition td___s32 :: ctype where
  "td___s32 =
    c_int"

definition struct_timer_list :: ctype where
  "struct_timer_list =
    CStruct [Member ''entry'' struct_hlist_node,
       Member ''expires'' c_unsigned_long,
       Member ''function'' (CPtr ''void (struct timer_list *)''),
       Member ''flags'' td_u32]"

definition struct_page_frag :: ctype where
  "struct_page_frag =
    CStruct [Member ''page'' (CPtr ''struct page''),
       Member ''offset'' td___u32,
       Member ''size'' td___u32]"

definition td_u64 :: ctype where
  "td_u64 =
    td___u64"

definition td_netdev_features_t :: ctype where
  "td_netdev_features_t =
    td_u64"

definition td_gfp_t :: ctype where
  "td_gfp_t =
    c_unsigned_int"

definition struct_qrwlock :: ctype where
  "struct_qrwlock =
    CStruct [Member '''' (CUnion [Member ''cnts'' td_atomic_t,
          Member '''' (CStruct [Member ''wlocked'' td_u8,
             Member ''__lstate'' (CArray td_u8 3)])]),
       Member ''wait_lock'' td_arch_spinlock_t]"

definition td_arch_rwlock_t :: ctype where
  "td_arch_rwlock_t =
    struct_qrwlock"

definition td_rwlock_t :: ctype where
  "td_rwlock_t =
    CStruct [Member ''raw_lock'' td_arch_rwlock_t]"

definition td___kernel_uid32_t :: ctype where
  "td___kernel_uid32_t =
    c_unsigned_int"

definition td_uid_t :: ctype where
  "td_uid_t =
    td___kernel_uid32_t"

definition td_kuid_t :: ctype where
  "td_kuid_t =
    CStruct [Member ''val'' td_uid_t]"

definition td_ktime_t :: ctype where
  "td_ktime_t =
    td_s64"

definition struct_sock_cgroup_data :: ctype where
  "struct_sock_cgroup_data =
    CStruct [Member ''cgroup'' (CPtr ''struct cgroup''),
       Member ''classid'' td_u32,
       Member ''prioidx'' td_u16]"

definition struct_callback_head :: ctype where
  "struct_callback_head =
    CStruct [Member ''next'' (CPtr ''struct callback_head''),
       Member ''func'' (CPtr ''void (struct callback_head *)'')]"

definition td_netns_tracker :: ctype where
  "td_netns_tracker =
    CStruct []"

definition struct_sock :: ctype where
  "struct_sock =
    CStruct [Member ''__sk_common'' struct_sock_common,
       Member ''sk_rx_dst'' (CPtr ''struct dst_entry''),
       Member ''sk_rx_dst_ifindex'' c_int,
       Member ''sk_rx_dst_cookie'' td_u32,
       Member ''sk_lock'' td_socket_lock_t,
       Member ''sk_drops'' td_atomic_t,
       Member ''sk_rcvlowat'' c_int,
       Member ''sk_error_queue'' struct_sk_buff_head,
       Member ''sk_receive_queue'' struct_sk_buff_head,
       Member ''sk_backlog'' (CStruct [Member ''rmem_alloc'' td_atomic_t,
          Member ''len'' c_int,
          Member ''head'' (CPtr ''struct sk_buff''),
          Member ''tail'' (CPtr ''struct sk_buff'')]),
       Member ''sk_forward_alloc'' c_int,
       Member ''sk_reserved_mem'' td_u32,
       Member ''sk_ll_usec'' c_unsigned_int,
       Member ''sk_napi_id'' c_unsigned_int,
       Member ''sk_rcvbuf'' c_int,
       Member ''sk_disconnects'' c_int,
       Member ''sk_filter'' (CPtr ''struct sk_filter''),
       Member '''' (CUnion [Member ''sk_wq'' (CPtr ''struct socket_wq''),
          Member ''sk_wq_raw'' (CPtr ''struct socket_wq'')]),
       Member ''sk_policy'' (CArray (CPtr ''struct xfrm_policy'') 2),
       Member ''sk_dst_cache'' (CPtr ''struct dst_entry''),
       Member ''sk_omem_alloc'' td_atomic_t,
       Member ''sk_sndbuf'' c_int,
       Member ''sk_wmem_queued'' c_int,
       Member ''sk_wmem_alloc'' td_refcount_t,
       Member ''sk_tsq_flags'' c_unsigned_long,
       Member '''' (CUnion [Member ''sk_send_head'' (CPtr ''struct sk_buff''),
          Member ''tcp_rtx_queue'' struct_rb_root]),
       Member ''sk_write_queue'' struct_sk_buff_head,
       Member ''sk_peek_off'' td___s32,
       Member ''sk_write_pending'' c_int,
       Member ''sk_dst_pending_confirm'' td___u32,
       Member ''sk_pacing_status'' td_u32,
       Member ''sk_sndtimeo'' c_long,
       Member ''sk_timer'' struct_timer_list,
       Member ''sk_priority'' td___u32,
       Member ''sk_mark'' td___u32,
       Member ''sk_pacing_rate'' c_unsigned_long,
       Member ''sk_max_pacing_rate'' c_unsigned_long,
       Member ''sk_frag'' struct_page_frag,
       Member ''sk_route_caps'' td_netdev_features_t,
       Member ''sk_gso_type'' c_int,
       Member ''sk_gso_max_size'' c_unsigned_int,
       Member ''sk_allocation'' td_gfp_t,
       Member ''sk_txhash'' td___u32,
       BitField ''sk_gso_disabled'' td_u8 1,
       BitField ''sk_kern_sock'' td_u8 1,
       BitField ''sk_no_check_tx'' td_u8 1,
       BitField ''sk_no_check_rx'' td_u8 1,
       BitField ''sk_userlocks'' td_u8 4,
       Member ''sk_pacing_shift'' td_u8,
       Member ''sk_type'' td_u16,
       Member ''sk_protocol'' td_u16,
       Member ''sk_gso_max_segs'' td_u16,
       Member ''sk_lingertime'' c_unsigned_long,
       Member ''sk_prot_creator'' (CPtr ''struct proto''),
       Member ''sk_callback_lock'' td_rwlock_t,
       Member ''sk_err'' c_int,
       Member ''sk_err_soft'' c_int,
       Member ''sk_ack_backlog'' td_u32,
       Member ''sk_max_ack_backlog'' td_u32,
       Member ''sk_uid'' td_kuid_t,
       Member ''sk_txrehash'' td_u8,
       Member ''sk_prefer_busy_poll'' td_u8,
       Member ''sk_busy_poll_budget'' td_u16,
       Member ''sk_peer_lock'' td_spinlock_t,
       Member ''sk_bind_phc'' c_int,
       Member ''sk_peer_pid'' (CPtr ''struct pid''),
       Member ''sk_peer_cred'' (CPtr ''struct cred''),
       Member ''sk_rcvtimeo'' c_long,
       Member ''sk_stamp'' td_ktime_t,
       Member ''sk_tsflags'' td_u16,
       Member ''sk_shutdown'' td_u8,
       Member ''sk_tskey'' td_atomic_t,
       Member ''sk_zckey'' td_atomic_t,
       Member ''sk_clockid'' td_u8,
       BitField ''sk_txtime_deadline_mode'' td_u8 1,
       BitField ''sk_txtime_report_errors'' td_u8 1,
       BitField ''sk_txtime_unused'' td_u8 6,
       Member ''sk_socket'' (CPtr ''struct socket''),
       Member ''sk_user_data'' (CPtr ''void''),
       Member ''sk_security'' (CPtr ''void''),
       Member ''sk_cgrp_data'' struct_sock_cgroup_data,
       Member ''sk_memcg'' (CPtr ''struct mem_cgroup''),
       Member ''sk_state_change'' (CPtr ''void (struct sock *)''),
       Member ''sk_data_ready'' (CPtr ''void (struct sock *)''),
       Member ''sk_write_space'' (CPtr ''void (struct sock *)''),
       Member ''sk_error_report'' (CPtr ''void (struct sock *)''),
       Member ''sk_backlog_rcv'' (CPtr ''int (struct sock *, struct sk_buff *)''),
       Member ''sk_validate_xmit_skb'' (CPtr ''struct sk_buff * (struct sock *, struct net_device *, struct sk_buff *)''),
       Member ''sk_destruct'' (CPtr ''void (struct sock *)''),
       Member ''sk_reuseport_cb'' (CPtr ''struct sock_reuseport''),
       Member ''sk_bpf_storage'' (CPtr ''struct bpf_local_storage''),
       Member ''sk_rcu'' struct_callback_head,
       Member ''ns_tracker'' td_netns_tracker,
       Member ''sk_bind2_node'' struct_hlist_node]"

definition td_bool :: ctype where
  "td_bool =
    c_bool"

definition td___kernel_ulong_t :: ctype where
  "td___kernel_ulong_t =
    c_unsigned_long"

definition td___kernel_size_t :: ctype where
  "td___kernel_size_t =
    td___kernel_ulong_t"

definition td_size_t :: ctype where
  "td_size_t =
    td___kernel_size_t"

definition td___kernel_loff_t :: ctype where
  "td___kernel_loff_t =
    c_long_long"

definition td_loff_t :: ctype where
  "td_loff_t =
    td___kernel_loff_t"

definition struct_iov_iter :: ctype where
  "struct_iov_iter =
    CStruct [Member ''iter_type'' td_u8,
       Member ''nofault'' td_bool,
       Member ''data_source'' td_bool,
       Member ''user_backed'' td_bool,
       Member '''' (CUnion [Member ''iov_offset'' td_size_t,
          Member ''last_offset'' c_int]),
       Member ''count'' td_size_t,
       Member '''' (CUnion [Member ''iov'' (CPtr ''struct iovec''),
          Member ''kvec'' (CPtr ''struct kvec''),
          Member ''bvec'' (CPtr ''struct bio_vec''),
          Member ''xarray'' (CPtr ''struct xarray''),
          Member ''pipe'' (CPtr ''struct pipe_inode_info''),
          Member ''ubuf'' (CPtr ''void'')]),
       Member '''' (CUnion [Member ''nr_segs'' c_unsigned_long,
          Member '''' (CStruct [Member ''head'' c_unsigned_int,
             Member ''start_head'' c_unsigned_int]),
          Member ''xarray_start'' td_loff_t])]"

definition struct_msghdr :: ctype where
  "struct_msghdr =
    CStruct [Member ''msg_name'' (CPtr ''void''),
       Member ''msg_namelen'' c_int,
       Member ''msg_inq'' c_int,
       Member ''msg_iter'' struct_iov_iter,
       Member '''' (CUnion [Member ''msg_control'' (CPtr ''void''),
          Member ''msg_control_user'' (CPtr ''void'')]),
       BitField ''msg_control_is_user'' td_bool 1,
       BitField ''msg_get_inq'' td_bool 1,
       Member ''msg_flags'' c_unsigned_int,
       Member ''msg_controllen'' td___kernel_size_t,
       Member ''msg_iocb'' (CPtr ''struct kiocb''),
       Member ''msg_ubuf'' (CPtr ''struct ubuf_info''),
       Member ''sg_from_iter'' (CPtr ''int (struct sock *, struct sk_buff *, struct iov_iter *, size_t)'')]"

definition struct_user_pt_regs :: ctype where
  "struct_user_pt_regs =
    CStruct [Member ''regs'' (CArray td___u64 31),
       Member ''sp'' td___u64,
       Member ''pc'' td___u64,
       Member ''pstate'' td___u64]"

definition td_s32 :: ctype where
  "td_s32 =
    td___s32"

definition struct_pt_regs :: ctype where
  "struct_pt_regs =
    CStruct [Member '''' (CUnion [Member ''user_regs'' struct_user_pt_regs,
          Member '''' (CStruct [Member ''regs'' (CArray td_u64 31),
             Member ''sp'' td_u64,
             Member ''pc'' td_u64,
             Member ''pstate'' td_u64])]),
       Member ''orig_x0'' td_u64,
       Member ''syscallno'' td_s32,
       Member ''unused2'' td_u32,
       Member ''sdei_ttbr1'' td_u64,
       Member ''pmr_save'' td_u64,
       Member ''stackframe'' (CArray td_u64 2),
       Member ''lockdep_hardirqs'' td_u64,
       Member ''exit_rcu'' td_u64]"

subsection \<open>Sizes and alignments\<close>

lemma td___u64_layout [ctype_layout]:
  "layout td___u64 = (8, 8)" "wf_ctype td___u64"
  by (simp_all add: td___u64_def layout_rules ctype_layout del: One_nat_def)

lemma td___addrpair_layout [ctype_layout]:
  "layout td___addrpair = (8, 8)" "wf_ctype td___addrpair"
  by (simp_all add: td___addrpair_def layout_rules ctype_layout del: One_nat_def)

lemma td___u32_layout [ctype_layout]:
  "layout td___u32 = (4, 4)" "wf_ctype td___u32"
  by (simp_all add: td___u32_def layout_rules ctype_layout del: One_nat_def)

lemma td___be32_layout [ctype_layout]:
  "layout td___be32 = (4, 4)" "wf_ctype td___be32"
  by (simp_all add: td___be32_def layout_rules ctype_layout del: One_nat_def)

lemma td___u16_layout [ctype_layout]:
  "layout td___u16 = (2, 2)" "wf_ctype td___u16"
  by (simp_all add: td___u16_def layout_rules ctype_layout del: One_nat_def)

lemma td___portpair_layout [ctype_layout]:
  "layout td___portpair = (4, 4)" "wf_ctype td___portpair"
  by (simp_all add: td___portpair_def layout_rules ctype_layout del: One_nat_def)

lemma td___be16_layout [ctype_layout]:
  "layout td___be16 = (2, 2)" "wf_ctype td___be16"
  by (simp_all add: td___be16_def layout_rules ctype_layout del: One_nat_def)

lemma struct_hlist_node_layout [ctype_layout]:
  "layout struct_hlist_node = (16, 8)" "wf_ctype struct_hlist_node"
  by (simp_all add: struct_hlist_node_def layout_rules ctype_layout del: One_nat_def)

lemma td_possible_net_t_layout [ctype_layout]:
  "layout td_possible_net_t = (8, 8)" "wf_ctype td_possible_net_t"
  by (simp_all add: td_possible_net_t_def layout_rules ctype_layout del: One_nat_def)

lemma td___u8_layout [ctype_layout]:
  "layout td___u8 = (1, 1)" "wf_ctype td___u8"
  by (simp_all add: td___u8_def layout_rules ctype_layout del: One_nat_def)

lemma struct_in6_addr_layout [ctype_layout]:
  "layout struct_in6_addr = (16, 4)" "wf_ctype struct_in6_addr"
  by (simp_all add: struct_in6_addr_def layout_rules ctype_layout del: One_nat_def)

lemma td___s64_layout [ctype_layout]:
  "layout td___s64 = (8, 8)" "wf_ctype td___s64"
  by (simp_all add: td___s64_def layout_rules ctype_layout del: One_nat_def)

lemma td_s64_layout [ctype_layout]:
  "layout td_s64 = (8, 8)" "wf_ctype td_s64"
  by (simp_all add: td_s64_def layout_rules ctype_layout del: One_nat_def)

lemma td_atomic64_t_layout [ctype_layout]:
  "layout td_atomic64_t = (8, 8)" "wf_ctype td_atomic64_t"
  by (simp_all add: td_atomic64_t_def layout_rules ctype_layout del: One_nat_def)

lemma struct_hlist_nulls_node_layout [ctype_layout]:
  "layout struct_hlist_nulls_node = (16, 8)" "wf_ctype struct_hlist_nulls_node"
  by (simp_all add: struct_hlist_nulls_node_def layout_rules ctype_layout del: One_nat_def)

lemma td_u32_layout [ctype_layout]:
  "layout td_u32 = (4, 4)" "wf_ctype td_u32"
  by (simp_all add: td_u32_def layout_rules ctype_layout del: One_nat_def)

lemma td_atomic_t_layout [ctype_layout]:
  "layout td_atomic_t = (4, 4)" "wf_ctype td_atomic_t"
  by (simp_all add: td_atomic_t_def layout_rules ctype_layout del: One_nat_def)

lemma struct_refcount_struct_layout [ctype_layout]:
  "layout struct_refcount_struct = (4, 4)" "wf_ctype struct_refcount_struct"
  by (simp_all add: struct_refcount_struct_def layout_rules ctype_layout del: One_nat_def)

lemma td_refcount_t_layout [ctype_layout]:
  "layout td_refcount_t = (4, 4)" "wf_ctype td_refcount_t"
  by (simp_all add: td_refcount_t_def layout_rules ctype_layout del: One_nat_def)

lemma struct_sock_common_layout [ctype_layout]:
  "layout struct_sock_common = (136, 8)" "wf_ctype struct_sock_common"
  by (simp_all add: struct_sock_common_def layout_rules ctype_layout del: One_nat_def)

lemma td_u8_layout [ctype_layout]:
  "layout td_u8 = (1, 1)" "wf_ctype td_u8"
  by (simp_all add: td_u8_def layout_rules ctype_layout del: One_nat_def)

lemma td_u16_layout [ctype_layout]:
  "layout td_u16 = (2, 2)" "wf_ctype td_u16"
  by (simp_all add: td_u16_def layout_rules ctype_layout del: One_nat_def)

lemma struct_qspinlock_layout [ctype_layout]:
  "layout struct_qspinlock = (4, 4)" "wf_ctype struct_qspinlock"
  by (simp_all add: struct_qspinlock_def layout_rules ctype_layout del: One_nat_def)

lemma td_arch_spinlock_t_layout [ctype_layout]:
  "layout td_arch_spinlock_t = (4, 4)" "wf_ctype td_arch_spinlock_t"
  by (simp_all add: td_arch_spinlock_t_def layout_rules ctype_layout del: One_nat_def)

lemma struct_raw_spinlock_layout [ctype_layout]:
  "layout struct_raw_spinlock = (4, 4)" "wf_ctype struct_raw_spinlock"
  by (simp_all add: struct_raw_spinlock_def layout_rules ctype_layout del: One_nat_def)

lemma struct_spinlock_layout [ctype_layout]:
  "layout struct_spinlock = (4, 4)" "wf_ctype struct_spinlock"
  by (simp_all add: struct_spinlock_def layout_rules ctype_layout del: One_nat_def)

lemma td_spinlock_t_layout [ctype_layout]:
  "layout td_spinlock_t = (4, 4)" "wf_ctype td_spinlock_t"
  by (simp_all add: td_spinlock_t_def layout_rules ctype_layout del: One_nat_def)

lemma struct_list_head_layout [ctype_layout]:
  "layout struct_list_head = (16, 8)" "wf_ctype struct_list_head"
  by (simp_all add: struct_list_head_def layout_rules ctype_layout del: One_nat_def)

lemma struct_wait_queue_head_layout [ctype_layout]:
  "layout struct_wait_queue_head = (24, 8)" "wf_ctype struct_wait_queue_head"
  by (simp_all add: struct_wait_queue_head_def layout_rules ctype_layout del: One_nat_def)

lemma td_wait_queue_head_t_layout [ctype_layout]:
  "layout td_wait_queue_head_t = (24, 8)" "wf_ctype td_wait_queue_head_t"
  by (simp_all add: td_wait_queue_head_t_def layout_rules ctype_layout del: One_nat_def)

lemma td_socket_lock_t_layout [ctype_layout]:
  "layout td_socket_lock_t = (32, 8)" "wf_ctype td_socket_lock_t"
  by (simp_all add: td_socket_lock_t_def layout_rules ctype_layout del: One_nat_def)

lemma struct_sk_buff_list_layout [ctype_layout]:
  "layout struct_sk_buff_list = (16, 8)" "wf_ctype struct_sk_buff_list"
  by (simp_all add: struct_sk_buff_list_def layout_rules ctype_layout del: One_nat_def)

lemma struct_sk_buff_head_layout [ctype_layout]:
  "layout struct_sk_buff_head = (24, 8)" "wf_ctype struct_sk_buff_head"
  by (simp_all add: struct_sk_buff_head_def layout_rules ctype_layout del: One_nat_def)

lemma struct_rb_root_layout [ctype_layout]:
  "layout struct_rb_root = (8, 8)" "wf_ctype struct_rb_root"
  by (simp_all add: struct_rb_root_def layout_rules ctype_layout del: One_nat_def)

lemma td___s32_layout [ctype_layout]:
  "layout td___s32 = (4, 4)" "wf_ctype td___s32"
  by (simp_all add: td___s32_def layout_rules ctype_layout del: One_nat_def)

lemma struct_timer_list_layout [ctype_layout]:
  "layout struct_timer_list = (40, 8)" "wf_ctype struct_timer_list"
  by (simp_all add: struct_timer_list_def layout_rules ctype_layout del: One_nat_def)

lemma struct_page_frag_layout [ctype_layout]:
  "layout struct_page_frag = (16, 8)" "wf_ctype struct_page_frag"
  by (simp_all add: struct_page_frag_def layout_rules ctype_layout del: One_nat_def)

lemma td_u64_layout [ctype_layout]:
  "layout td_u64 = (8, 8)" "wf_ctype td_u64"
  by (simp_all add: td_u64_def layout_rules ctype_layout del: One_nat_def)

lemma td_netdev_features_t_layout [ctype_layout]:
  "layout td_netdev_features_t = (8, 8)" "wf_ctype td_netdev_features_t"
  by (simp_all add: td_netdev_features_t_def layout_rules ctype_layout del: One_nat_def)

lemma td_gfp_t_layout [ctype_layout]:
  "layout td_gfp_t = (4, 4)" "wf_ctype td_gfp_t"
  by (simp_all add: td_gfp_t_def layout_rules ctype_layout del: One_nat_def)

lemma struct_qrwlock_layout [ctype_layout]:
  "layout struct_qrwlock = (8, 4)" "wf_ctype struct_qrwlock"
  by (simp_all add: struct_qrwlock_def layout_rules ctype_layout del: One_nat_def)

lemma td_arch_rwlock_t_layout [ctype_layout]:
  "layout td_arch_rwlock_t = (8, 4)" "wf_ctype td_arch_rwlock_t"
  by (simp_all add: td_arch_rwlock_t_def layout_rules ctype_layout del: One_nat_def)

lemma td_rwlock_t_layout [ctype_layout]:
  "layout td_rwlock_t = (8, 4)" "wf_ctype td_rwlock_t"
  by (simp_all add: td_rwlock_t_def layout_rules ctype_layout del: One_nat_def)

lemma td___kernel_uid32_t_layout [ctype_layout]:
  "layout td___kernel_uid32_t = (4, 4)" "wf_ctype td___kernel_uid32_t"
  by (simp_all add: td___kernel_uid32_t_def layout_rules ctype_layout del: One_nat_def)

lemma td_uid_t_layout [ctype_layout]:
  "layout td_uid_t = (4, 4)" "wf_ctype td_uid_t"
  by (simp_all add: td_uid_t_def layout_rules ctype_layout del: One_nat_def)

lemma td_kuid_t_layout [ctype_layout]:
  "layout td_kuid_t = (4, 4)" "wf_ctype td_kuid_t"
  by (simp_all add: td_kuid_t_def layout_rules ctype_layout del: One_nat_def)

lemma td_ktime_t_layout [ctype_layout]:
  "layout td_ktime_t = (8, 8)" "wf_ctype td_ktime_t"
  by (simp_all add: td_ktime_t_def layout_rules ctype_layout del: One_nat_def)

lemma struct_sock_cgroup_data_layout [ctype_layout]:
  "layout struct_sock_cgroup_data = (16, 8)" "wf_ctype struct_sock_cgroup_data"
  by (simp_all add: struct_sock_cgroup_data_def layout_rules ctype_layout del: One_nat_def)

lemma struct_callback_head_layout [ctype_layout]:
  "layout struct_callback_head = (16, 8)" "wf_ctype struct_callback_head"
  by (simp_all add: struct_callback_head_def layout_rules ctype_layout del: One_nat_def)

lemma td_netns_tracker_layout [ctype_layout]:
  "layout td_netns_tracker = (0, 1)" "wf_ctype td_netns_tracker"
  by (simp_all add: td_netns_tracker_def layout_rules ctype_layout del: One_nat_def)

lemma struct_sock_layout [ctype_layout]:
  "layout struct_sock = (776, 8)" "wf_ctype struct_sock"
  by (simp_all add: struct_sock_def layout_rules ctype_layout del: One_nat_def)

lemma td_bool_layout [ctype_layout]:
  "layout td_bool = (1, 1)" "wf_ctype td_bool"
  by (simp_all add: td_bool_def layout_rules ctype_layout del: One_nat_def)

lemma td___kernel_ulong_t_layout [ctype_layout]:
  "layout td___kernel_ulong_t = (8, 8)" "wf_ctype td___kernel_ulong_t"
  by (simp_all add: td___kernel_ulong_t_def layout_rules ctype_layout del: One_nat_def)

lemma td___kernel_size_t_layout [ctype_layout]:
  "layout td___kernel_size_t = (8, 8)" "wf_ctype td___kernel_size_t"
  by (simp_all add: td___kernel_size_t_def layout_rules ctype_layout del: One_nat_def)

lemma td_size_t_layout [ctype_layout]:
  "layout td_size_t = (8, 8)" "wf_ctype td_size_t"
  by (simp_all add: td_size_t_def layout_rules ctype_layout del: One_nat_def)

lemma td___kernel_loff_t_layout [ctype_layout]:
  "layout td___kernel_loff_t = (8, 8)" "wf_ctype td___kernel_loff_t"
  by (simp_all add: td___kernel_loff_t_def layout_rules ctype_layout del: One_nat_def)

lemma td_loff_t_layout [ctype_layout]:
  "layout td_loff_t = (8, 8)" "wf_ctype td_loff_t"
  by (simp_all add: td_loff_t_def layout_rules ctype_layout del: One_nat_def)

lemma struct_iov_iter_layout [ctype_layout]:
  "layout struct_iov_iter = (40, 8)" "wf_ctype struct_iov_iter"
  by (simp_all add: struct_iov_iter_def layout_rules ctype_layout del: One_nat_def)

lemma struct_msghdr_layout [ctype_layout]:
  "layout struct_msghdr = (104, 8)" "wf_ctype struct_msghdr"
  by (simp_all add: struct_msghdr_def layout_rules ctype_layout del: One_nat_def)

lemma struct_user_pt_regs_layout [ctype_layout]:
  "layout struct_user_pt_regs = (272, 8)" "wf_ctype struct_user_pt_regs"
  by (simp_all add: struct_user_pt_regs_def layout_rules ctype_layout del: One_nat_def)

lemma td_s32_layout [ctype_layout]:
  "layout td_s32 = (4, 4)" "wf_ctype td_s32"
  by (simp_all add: td_s32_def layout_rules ctype_layout del: One_nat_def)

lemma struct_pt_regs_layout [ctype_layout]:
  "layout struct_pt_regs = (336, 8)" "wf_ctype struct_pt_regs"
  by (simp_all add: struct_pt_regs_def layout_rules ctype_layout del: One_nat_def)

end
