(* ===== verification/Kernel_Inet.thy ===== *)
theory Kernel_Inet
  imports Kernel_Sock
begin

text \<open>
  The protocol sockets behind a \<^verbatim>\<open>struct sock *\<close>: the TCP and UDP sockets of both address
  families, with the objects they embed, the protocol table, the file-side socket and the
  packet buffer, as declared in \<^verbatim>\<open>vmlinux.h\<close>.
\<close>

subsection \<open>Declarations\<close>

definition td___s16 :: ctype where
  "td___s16 =
    c_short"

definition struct_inet_cork :: ctype where
  "struct_inet_cork =
    CStruct [Member ''flags'' c_unsigned_int,
       Member ''addr'' td___be32,
       Member ''opt'' (CPtr ''struct ip_options''),
       Member ''fragsize'' c_unsigned_int,
       Member ''length'' c_int,
       Member ''dst'' (CPtr ''struct dst_entry''),
       Member ''tx_flags'' td_u8,
       Member ''ttl'' td___u8,
       Member ''tos'' td___s16,
       Member ''priority'' c_char,
       Member ''gso_size'' td___u16,
       Member ''transmit_time'' td_u64,
       Member ''mark'' td_u32]"

definition td___be64 :: ctype where
  "td___be64 =
    td___u64"

definition struct_flowi_tunnel :: ctype where
  "struct_flowi_tunnel =
    CStruct [Member ''tun_id'' td___be64]"

definition struct_flowi_common :: ctype where
  "struct_flowi_common =
    CStruct [Member ''flowic_oif'' c_int,
       Member ''flowic_iif'' c_int,
       Member ''flowic_l3mdev'' c_int,
       Member ''flowic_mark'' td___u32,
       Member ''flowic_tos'' td___u8,
       Member ''flowic_scope'' td___u8,
       Member ''flowic_proto'' td___u8,
       Member ''flowic_flags'' td___u8,
       Member ''flowic_secid'' td___u32,
       Member ''flowic_uid'' td_kuid_t,
       Member ''flowic_multipath_hash'' td___u32,
       Member ''flowic_tun_key'' struct_flowi_tunnel]"

definition union_flowi_uli :: ctype where
  "union_flowi_uli =
    CUnion [Member ''ports'' (CStruct [Member ''dport'' td___be16,
          Member ''sport'' td___be16]),
       Member ''icmpt'' (CStruct [Member ''type'' td___u8,
          Member ''code'' td___u8]),
       Member ''gre_key'' td___be32,
       Member ''mht'' (CStruct [Member ''type'' td___u8])]"

definition struct_flowi4 :: ctype where
  "struct_flowi4 =
    CStruct [Member ''__fl_common'' struct_flowi_common,
       Member ''saddr'' td___be32,
       Member ''daddr'' td___be32,
       Member ''uli'' union_flowi_uli]"

definition struct_flowi6 :: ctype where
  "struct_flowi6 =
    CStruct [Member ''__fl_common'' struct_flowi_common,
       Member ''daddr'' struct_in6_addr,
       Member ''saddr'' struct_in6_addr,
       Member ''flowlabel'' td___be32,
       Member ''uli'' union_flowi_uli,
       Member ''mp_hash'' td___u32]"

definition struct_flowi :: ctype where
  "struct_flowi =
    CStruct [Member ''u'' (CUnion [Member ''__fl_common'' struct_flowi_common,
          Member ''ip4'' struct_flowi4,
          Member ''ip6'' struct_flowi6])]"

definition struct_inet_cork_full :: ctype where
  "struct_inet_cork_full =
    CStruct [Member ''base'' struct_inet_cork,
       Member ''fl'' struct_flowi]"

definition struct_inet_sock :: ctype where
  "struct_inet_sock =
    CStruct [Member ''sk'' struct_sock,
       Member ''pinet6'' (CPtr ''struct ipv6_pinfo''),
       Member ''inet_saddr'' td___be32,
       Member ''uc_ttl'' td___s16,
       Member ''cmsg_flags'' td___u16,
       Member ''inet_opt'' (CPtr ''struct ip_options_rcu''),
       Member ''inet_id'' td_atomic_t,
       Member ''inet_sport'' td___be16,
       Member ''tos'' td___u8,
       Member ''min_ttl'' td___u8,
       Member ''mc_ttl'' td___u8,
       Member ''pmtudisc'' td___u8,
       BitField ''recverr'' td___u8 1,
       BitField ''is_icsk'' td___u8 1,
       BitField ''freebind'' td___u8 1,
       BitField ''hdrincl'' td___u8 1,
       BitField ''mc_loop'' td___u8 1,
       BitField ''transparent'' td___u8 1,
       BitField ''mc_all'' td___u8 1,
       BitField ''nodefrag'' td___u8 1,
       BitField ''bind_address_no_port'' td___u8 1,
       BitField ''recverr_rfc4884'' td___u8 1,
       BitField ''defer_connect'' td___u8 1,
       Member ''rcv_tos'' td___u8,
       Member ''convert_csum'' td___u8,
       Member ''uc_index'' c_int,
       Member ''mc_index'' c_int,
       Member ''mc_addr'' td___be32,
       Member ''mc_list'' (CPtr ''struct ip_mc_socklist''),
       Member ''cork'' struct_inet_cork_full,
       Member ''local_port_range'' (CStruct [Member ''lo'' td___u16,
          Member ''hi'' td___u16])]"

definition struct_fastopen_queue :: ctype where
  "struct_fastopen_queue =
    CStruct [Member ''rskq_rst_head'' (CPtr ''struct request_sock''),
       Member ''rskq_rst_tail'' (CPtr ''struct request_sock''),
       Member ''lock'' td_spinlock_t,
       Member ''qlen'' c_int,
       Member ''max_qlen'' c_int,
       Member ''ctx'' (CPtr ''struct tcp_fastopen_context'')]"

definition struct_request_sock_queue :: ctype where
  "struct_request_sock_queue =
    CStruct [Member ''rskq_lock'' td_spinlock_t,
       Member ''rskq_defer_accept'' td_u8,
       Member ''synflood_warned'' td_u32,
       Member ''qlen'' td_atomic_t,
       Member ''young'' td_atomic_t,
       Member ''rskq_accept_head'' (CPtr ''struct request_sock''),
       Member ''rskq_accept_tail'' (CPtr ''struct request_sock''),
       Member ''fastopenq'' struct_fastopen_queue]"

definition struct_inet_connection_sock :: ctype where
  "struct_inet_connection_sock =
    CStruct [Member ''icsk_inet'' struct_inet_sock,
       Member ''icsk_accept_queue'' struct_request_sock_queue,
       Member ''icsk_bind_hash'' (CPtr ''struct inet_bind_bucket''),
       Member ''icsk_bind2_hash'' (CPtr ''struct inet_bind2_bucket''),
       Member ''icsk_timeout'' c_unsigned_long,
       Member ''icsk_retransmit_timer'' struct_timer_list,
       Member ''icsk_delack_timer'' struct_timer_list,
       Member ''icsk_rto'' td___u32,
       Member ''icsk_rto_min'' td___u32,
       Member ''icsk_delack_max'' td___u32,
       Member ''icsk_pmtu_cookie'' td___u32,
       Member ''icsk_ca_ops'' (CPtr ''struct tcp_congestion_ops''),
       Member ''icsk_af_ops'' (CPtr ''struct inet_connection_sock_af_ops''),
       Member ''icsk_ulp_ops'' (CPtr ''struct tcp_ulp_ops''),
       Member ''icsk_ulp_data'' (CPtr ''void''),
       Member ''icsk_clean_acked'' (CPtr ''void (struct sock *, u32)''),
       Member ''icsk_sync_mss'' (CPtr ''unsigned int (struct sock *, u32)''),
       BitField ''icsk_ca_state'' td___u8 5,
       BitField ''icsk_ca_initialized'' td___u8 1,
       BitField ''icsk_ca_setsockopt'' td___u8 1,
       BitField ''icsk_ca_dst_locked'' td___u8 1,
       Member ''icsk_retransmits'' td___u8,
       Member ''icsk_pending'' td___u8,
       Member ''icsk_backoff'' td___u8,
       Member ''icsk_syn_retries'' td___u8,
       Member ''icsk_probes_out'' td___u8,
       Member ''icsk_ext_hdr_len'' td___u16,
       Member ''icsk_ack'' (CStruct [Member ''pending'' td___u8,
          Member ''quick'' td___u8,
          Member ''pingpong'' td___u8,
          Member ''retry'' td___u8,
          Member ''ato'' td___u32,
          Member ''timeout'' c_unsigned_long,
          Member ''lrcvtime'' td___u32,
          Member ''last_seg_size'' td___u16,
          Member ''rcv_mss'' td___u16]),
       Member ''icsk_mtup'' (CStruct [Member ''search_high'' c_int,
          Member ''search_low'' c_int,
          BitField ''probe_size'' td_u32 31,
          BitField ''enabled'' td_u32 1,
          Member ''probe_timestamp'' td_u32]),
       Member ''icsk_probes_tstamp'' td_u32,
       Member ''icsk_user_timeout'' td_u32,
       Member ''icsk_ca_priv'' (CArray td_u64 13)]"

definition struct_tcp_rack :: ctype where
  "struct_tcp_rack =
    CStruct [Member ''mstamp'' td_u64,
       Member ''rtt_us'' td_u32,
       Member ''end_seq'' td_u32,
       Member ''last_delivered'' td_u32,
       Member ''reo_wnd_steps'' td_u8,
       BitField ''reo_wnd_persist'' td_u8 5,
       BitField ''dsack_seen'' td_u8 1,
       BitField ''advanced'' td_u8 1]"

definition struct_minmax_sample :: ctype where
  "struct_minmax_sample =
    CStruct [Member ''t'' td_u32,
       Member ''v'' td_u32]"

definition struct_minmax :: ctype where
  "struct_minmax =
    CStruct [Member ''s'' (CArray struct_minmax_sample 3)]"

definition struct_tcp_options_received :: ctype where
  "struct_tcp_options_received =
    CStruct [Member ''ts_recent_stamp'' c_int,
       Member ''ts_recent'' td_u32,
       Member ''rcv_tsval'' td_u32,
       Member ''rcv_tsecr'' td_u32,
       BitField ''saw_tstamp'' td_u16 1,
       BitField ''tstamp_ok'' td_u16 1,
       BitField ''dsack'' td_u16 1,
       BitField ''wscale_ok'' td_u16 1,
       BitField ''sack_ok'' td_u16 3,
       BitField ''smc_ok'' td_u16 1,
       BitField ''snd_wscale'' td_u16 4,
       BitField ''rcv_wscale'' td_u16 4,
       BitField ''saw_unknown'' td_u8 1,
       BitField ''unused'' td_u8 7,
       Member ''num_sacks'' td_u8,
       Member ''user_mss'' td_u16,
       Member ''mss_clamp'' td_u16]"

definition struct_rb_node :: ctype where
  "struct_rb_node =
    CStruct [Member ''__rb_parent_color'' c_unsigned_long,
       Member ''rb_right'' (CPtr ''struct rb_node''),
       Member ''rb_left'' (CPtr ''struct rb_node'')]"

definition struct_timerqueue_node :: ctype where
  "struct_timerqueue_node =
    CStruct [Member ''node'' struct_rb_node,
       Member ''expires'' td_ktime_t]"

definition struct_hrtimer :: ctype where
  "struct_hrtimer =
    CStruct [Member ''node'' struct_timerqueue_node,
       Member ''_softexpires'' td_ktime_t,
       Member ''function'' (CPtr ''enum hrtimer_restart (struct hrtimer *)''),
       Member ''base'' (CPtr ''struct hrtimer_clock_base''),
       Member ''state'' td_u8,
       Member ''is_rel'' td_u8,
       Member ''is_soft'' td_u8,
       Member ''is_hard'' td_u8]"

definition struct_tcp_sack_block :: ctype where
  "struct_tcp_sack_block =
    CStruct [Member ''start_seq'' td_u32,
       Member ''end_seq'' td_u32]"

definition struct_tcp_sock :: ctype where
  "struct_tcp_sock =
    CStruct [Member ''inet_conn'' struct_inet_connection_sock,
       Member ''tcp_header_len'' td_u16,
       Member ''gso_segs'' td_u16,
       Member ''pred_flags'' td___be32,
       Member ''bytes_received'' td_u64,
       Member ''segs_in'' td_u32,
       Member ''data_segs_in'' td_u32,
       Member ''rcv_nxt'' td_u32,
       Member ''copied_seq'' td_u32,
       Member ''rcv_wup'' td_u32,
       Member ''snd_nxt'' td_u32,
       Member ''segs_out'' td_u32,
       Member ''data_segs_out'' td_u32,
       Member ''bytes_sent'' td_u64,
       Member ''bytes_acked'' td_u64,
       Member ''dsack_dups'' td_u32,
       Member ''snd_una'' td_u32,
       Member ''snd_sml'' td_u32,
       Member ''rcv_tstamp'' td_u32,
       Member ''lsndtime'' td_u32,
       Member ''last_oow_ack_time'' td_u32,
       Member ''compressed_ack_rcv_nxt'' td_u32,
       Member ''tsoffset'' td_u32,
       Member ''tsq_node'' struct_list_head,
       Member ''tsorted_sent_queue'' struct_list_head,
       Member ''snd_wl1'' td_u32,
       Member ''snd_wnd'' td_u32,
       Member ''max_window'' td_u32,
       Member ''mss_cache'' td_u32,
       Member ''window_clamp'' td_u32,
       Member ''rcv_ssthresh'' td_u32,
       Member ''rack'' struct_tcp_rack,
       Member ''advmss'' td_u16,
       Member ''compressed_ack'' td_u8,
       BitField ''dup_ack_counter'' td_u8 2,
       BitField ''tlp_retrans'' td_u8 1,
       BitField ''unused'' td_u8 5,
       Member ''chrono_start'' td_u32,
       Member ''chrono_stat'' (CArray td_u32 3),
       BitField ''chrono_type'' td_u8 2,
       BitField ''rate_app_limited'' td_u8 1,
       BitField ''fastopen_connect'' td_u8 1,
       BitField ''fastopen_no_cookie'' td_u8 1,
       BitField ''is_sack_reneg'' td_u8 1,
       BitField ''fastopen_client_fail'' td_u8 2,
       BitField ''nonagle'' td_u8 4,
       BitField ''thin_lto'' td_u8 1,
       BitField ''recvmsg_inq'' td_u8 1,
       BitField ''repair'' td_u8 1,
       BitField ''frto'' td_u8 1,
       Member ''repair_queue'' td_u8,
       BitField ''save_syn'' td_u8 2,
       BitField ''syn_data'' td_u8 1,
       BitField ''syn_fastopen'' td_u8 1,
       BitField ''syn_fastopen_exp'' td_u8 1,
       BitField ''syn_fastopen_ch'' td_u8 1,
       BitField ''syn_data_acked'' td_u8 1,
       BitField ''is_cwnd_limited'' td_u8 1,
       Member ''tlp_high_seq'' td_u32,
       Member ''tcp_tx_delay'' td_u32,
       Member ''tcp_wstamp_ns'' td_u64,
       Member ''tcp_clock_cache'' td_u64,
       Member ''tcp_mstamp'' td_u64,
       Member ''srtt_us'' td_u32,
       Member ''mdev_us'' td_u32,
       Member ''mdev_max_us'' td_u32,
       Member ''rttvar_us'' td_u32,
       Member ''rtt_seq'' td_u32,
       Member ''rtt_min'' struct_minmax,
       Member ''packets_out'' td_u32,
       Member ''retrans_out'' td_u32,
       Member ''max_packets_out'' td_u32,
       Member ''cwnd_usage_seq'' td_u32,
       Member ''urg_data'' td_u16,
       Member ''ecn_flags'' td_u8,
       Member ''keepalive_probes'' td_u8,
       Member ''reordering'' td_u32,
       Member ''reord_seen'' td_u32,
       Member ''snd_up'' td_u32,
       Member ''rx_opt'' struct_tcp_options_received,
       Member ''snd_ssthresh'' td_u32,
       Member ''snd_cwnd'' td_u32,
       Member ''snd_cwnd_cnt'' td_u32,
       Member ''snd_cwnd_clamp'' td_u32,
       Member ''snd_cwnd_used'' td_u32,
       Member ''snd_cwnd_stamp'' td_u32,
       Member ''prior_cwnd'' td_u32,
       Member ''prr_delivered'' td_u32,
       Member ''prr_out'' td_u32,
       Member ''delivered'' td_u32,
       Member ''delivered_ce'' td_u32,
       Member ''lost'' td_u32,
       Member ''app_limited'' td_u32,
       Member ''first_tx_mstamp'' td_u64,
       Member ''delivered_mstamp'' td_u64,
       Member ''rate_delivered'' td_u32,
       Member ''rate_interval_us'' td_u32,
       Member ''rcv_wnd'' td_u32,
       Member ''write_seq'' td_u32,
       Member ''notsent_lowat'' td_u32,
       Member ''pushed_seq'' td_u32,
       Member ''lost_out'' td_u32,
       Member ''sacked_out'' td_u32,
       Member ''pacing_timer'' struct_hrtimer,
       Member ''compressed_ack_timer'' struct_hrtimer,
       Member ''lost_skb_hint'' (CPtr ''struct sk_buff''),
       Member ''retransmit_skb_hint'' (CPtr ''struct sk_buff''),
       Member ''out_of_order_queue'' struct_rb_root,
       Member ''ooo_last_skb'' (CPtr ''struct sk_buff''),
       Member ''duplicate_sack'' (CArray struct_tcp_sack_block 1),
       Member ''selective_acks'' (CArray struct_tcp_sack_block 4),
       Member ''recv_sack_cache'' (CArray struct_tcp_sack_block 4),
       Member ''highest_sack'' (CPtr ''struct sk_buff''),
       Member ''lost_cnt_hint'' c_int,
       Member ''prior_ssthresh'' td_u32,
       Member ''high_seq'' td_u32,
       Member ''retrans_stamp'' td_u32,
       Member ''undo_marker'' td_u32,
       Member ''undo_retrans'' c_int,
       Member ''bytes_retrans'' td_u64,
       Member ''total_retrans'' td_u32,
       Member ''urg_seq'' td_u32,
       Member ''keepalive_time'' c_unsigned_int,
       Member ''keepalive_intvl'' c_unsigned_int,
       Member ''linger2'' c_int,
       Member ''bpf_sock_ops_cb_flags'' td_u8,
       BitField ''bpf_chg_cc_inprogress'' td_u8 1,
       Member ''timeout_rehash'' td_u16,
       Member ''rcv_ooopack'' td_u32,
       Member ''rcv_rtt_last_tsecr'' td_u32,
       Member ''rcv_rtt_est'' (CStruct [Member ''rtt_us'' td_u32,
          Member ''seq'' td_u32,
          Member ''time'' td_u64]),
       Member ''rcvq_space'' (CStruct [Member ''space'' td_u32,
          Member ''seq'' td_u32,
          Member ''time'' td_u64]),
       Member ''mtu_probe'' (CStruct [Member ''probe_seq_start'' td_u32,
          Member ''probe_seq_end'' td_u32]),
       Member ''mtu_info'' td_u32,
       Member ''is_mptcp'' td_bool,
       Member ''smc_hs_congested'' (CPtr ''bool (const struct sock *)''),
       Member ''syn_smc'' td_bool,
       Member ''af_specific'' (CPtr ''struct tcp_sock_af_ops''),
       Member ''md5sig_info'' (CPtr ''struct tcp_md5sig_info''),
       Member ''fastopen_req'' (CPtr ''struct tcp_fastopen_request''),
       Member ''fastopen_rsk'' (CPtr ''struct request_sock''),
       Member ''saved_syn'' (CPtr ''struct saved_syn'')]"

definition struct_in6_pktinfo :: ctype where
  "struct_in6_pktinfo =
    CStruct [Member ''ipi6_addr'' struct_in6_addr,
       Member ''ipi6_ifindex'' c_int]"

definition struct_inet6_cork :: ctype where
  "struct_inet6_cork =
    CStruct [Member ''opt'' (CPtr ''struct ipv6_txoptions''),
       Member ''hop_limit'' td_u8,
       Member ''tclass'' td_u8]"

definition struct_ipv6_pinfo :: ctype where
  "struct_ipv6_pinfo =
    CStruct [Member ''saddr'' struct_in6_addr,
       Member ''sticky_pktinfo'' struct_in6_pktinfo,
       Member ''daddr_cache'' (CPtr ''struct in6_addr''),
       Member ''saddr_cache'' (CPtr ''struct in6_addr''),
       Member ''flow_label'' td___be32,
       Member ''frag_size'' td___u32,
       BitField ''__unused_1'' td___u16 7,
       BitField ''hop_limit'' td___s16 9,
       BitField ''mc_loop'' td___u16 1,
       BitField ''__unused_2'' td___u16 6,
       BitField ''mcast_hops'' td___s16 9,
       Member ''ucast_oif'' c_int,
       Member ''mcast_oif'' c_int,
       Member ''rxopt'' (CUnion [Member ''bits'' (CStruct [BitField ''srcrt'' td___u16 1,
             BitField ''osrcrt'' td___u16 1,
             BitField ''rxinfo'' td___u16 1,
             BitField ''rxoinfo'' td___u16 1,
             BitField ''rxhlim'' td___u16 1,
             BitField ''rxohlim'' td___u16 1,
             BitField ''hopopts'' td___u16 1,
             BitField ''ohopopts'' td___u16 1,
             BitField ''dstopts'' td___u16 1,
             BitField ''odstopts'' td___u16 1,
             BitField ''rxflow'' td___u16 1,
             BitField ''rxtclass'' td___u16 1,
             BitField ''rxpmtu'' td___u16 1,
             BitField ''rxorigdstaddr'' td___u16 1,
             BitField ''recvfragsize'' td___u16 1]),
          Member ''all'' td___u16]),
       BitField ''recverr'' td___u16 1,
       BitField ''sndflow'' td___u16 1,
       BitField ''repflow'' td___u16 1,
       BitField ''pmtudisc'' td___u16 3,
       BitField ''padding'' td___u16 1,
       BitField ''srcprefs'' td___u16 3,
       BitField ''dontfrag'' td___u16 1,
       BitField ''autoflowlabel'' td___u16 1,
       BitField ''autoflowlabel_set'' td___u16 1,
       BitField ''mc_all'' td___u16 1,
       BitField ''recverr_rfc4884'' td___u16 1,
       BitField ''rtalert_isolate'' td___u16 1,
       Member ''min_hopcount'' td___u8,
       Member ''tclass'' td___u8,
       Member ''rcv_flowinfo'' td___be32,
       Member ''dst_cookie'' td___u32,
       Member ''ipv6_mc_list'' (CPtr ''struct ipv6_mc_socklist''),
       Member ''ipv6_ac_list'' (CPtr ''struct ipv6_ac_socklist''),
       Member ''ipv6_fl_list'' (CPtr ''struct ipv6_fl_socklist''),
       Member ''opt'' (CPtr ''struct ipv6_txoptions''),
       Member ''pktoptions'' (CPtr ''struct sk_buff''),
       Member ''rxpmtu'' (CPtr ''struct sk_buff''),
       Member ''cork'' struct_inet6_cork]"

definition struct_tcp6_sock :: ctype where
  "struct_tcp6_sock =
    CStruct [Member ''tcp'' struct_tcp_sock,
       Member ''inet6'' struct_ipv6_pinfo]"

definition struct_udp_sock :: ctype where
  "struct_udp_sock =
    CStruct [Member ''inet'' struct_inet_sock,
       Member ''udp_flags'' c_unsigned_long,
       Member ''pending'' c_int,
       Member ''encap_type'' td___u8,
       Member ''pcflag'' td___u8,
       Member ''len'' td___u16,
       Member ''gso_size'' td___u16,
       Member ''pcslen'' td___u16,
       Member ''pcrlen'' td___u16,
       Member ''encap_rcv'' (CPtr ''int (struct sock *, struct sk_buff *)''),
       Member ''encap_err_rcv'' (CPtr ''void (struct sock *, struct sk_buff *, unsigned int)''),
       Member ''encap_err_lookup'' (CPtr ''int (struct sock *, struct sk_buff *)''),
       Member ''encap_destroy'' (CPtr ''void (struct sock *)''),
       Member ''gro_receive'' (CPtr ''struct sk_buff * (struct sock *, struct list_head *, struct sk_buff *)''),
       Member ''gro_complete'' (CPtr ''int (struct sock *, struct sk_buff *, int)''),
       BitField '''' c_long 64,
       BitField '''' c_long 64,
       BitField '''' c_long 64,
       Member ''reader_queue'' struct_sk_buff_head,
       Member ''forward_deficit'' c_int,
       BitField '''' c_long 64,
       BitField '''' c_long 64,
       BitField '''' c_long 64,
       BitField '''' c_long 64]"

definition struct_udp6_sock :: ctype where
  "struct_udp6_sock =
    CStruct [Member ''udp'' struct_udp_sock,
       Member ''inet6'' struct_ipv6_pinfo,
       BitField '''' c_long 64,
       BitField '''' c_long 64,
       BitField '''' c_long 64,
       BitField '''' c_long 64]"

definition td_slab_flags_t :: ctype where
  "td_slab_flags_t =
    c_unsigned_int"

definition struct_proto :: ctype where
  "struct_proto =
    CStruct [Member ''close'' (CPtr ''void (struct sock *, long int)''),
       Member ''pre_connect'' (CPtr ''int (struct sock *, struct sockaddr *, int)''),
       Member ''connect'' (CPtr ''int (struct sock *, struct sockaddr *, int)''),
       Member ''disconnect'' (CPtr ''int (struct sock *, int)''),
       Member ''accept'' (CPtr ''struct sock * (struct sock *, int, int *, bool)''),
       Member ''ioctl'' (CPtr ''int (struct sock *, int, long unsigned int)''),
       Member ''init'' (CPtr ''int (struct sock *)''),
       Member ''destroy'' (CPtr ''void (struct sock *)''),
       Member ''shutdown'' (CPtr ''void (struct sock *, int)''),
       Member ''setsockopt'' (CPtr ''int (struct sock *, int, int, sockptr_t, unsigned int)''),
       Member ''getsockopt'' (CPtr ''int (struct sock *, int, int, char *, int *)''),
       Member ''keepalive'' (CPtr ''void (struct sock *, int)''),
       Member ''compat_ioctl'' (CPtr ''int (struct sock *, unsigned int, long unsigned int)''),
       Member ''sendmsg'' (CPtr ''int (struct sock *, struct msghdr *, size_t)''),
       Member ''recvmsg'' (CPtr ''int (struct sock *, struct msghdr *, size_t, int, int *)''),
       Member ''sendpage'' (CPtr ''int (struct sock *, struct page *, int, size_t, int)''),
       Member ''splice_eof'' (CPtr ''void (struct socket *)''),
       Member ''bind'' (CPtr ''int (struct sock *, struct sockaddr *, int)''),
       Member ''bind_add'' (CPtr ''int (struct sock *, struct sockaddr *, int)''),
       Member ''backlog_rcv'' (CPtr ''int (struct sock *, struct sk_buff *)''),
       Member ''bpf_bypass_getsockopt'' (CPtr ''bool (int, int)''),
       Member ''release_cb'' (CPtr ''void (struct sock *)''),
       Member ''hash'' (CPtr ''int (struct sock *)''),
       Member ''unhash'' (CPtr ''void (struct sock *)''),
       Member ''rehash'' (CPtr ''void (struct sock *)''),
       Member ''get_port'' (CPtr ''int (struct sock *, short unsigned int)''),
       Member ''put_port'' (CPtr ''void (struct sock *)''),
       Member ''psock_update_sk_prot'' (CPtr ''int (struct sock *, struct sk_psock *, bool)''),
       Member ''inuse_idx'' c_unsigned_int,
       Member ''forward_alloc_get'' (CPtr ''int (const struct sock *)''),
       Member ''stream_memory_free'' (CPtr ''bool (const struct sock *, int)''),
       Member ''sock_is_readable'' (CPtr ''bool (struct sock *)''),
       Member ''enter_memory_pressure'' (CPtr ''void (struct sock *)''),
       Member ''leave_memory_pressure'' (CPtr ''void (struct sock *)''),
       Member ''memory_allocated'' (CPtr ''atomic_long_t''),
       Member ''per_cpu_fw_alloc'' (CPtr ''int''),
       Member ''sockets_allocated'' (CPtr ''struct percpu_counter''),
       Member ''memory_pressure'' (CPtr ''long unsigned int''),
       Member ''sysctl_mem'' (CPtr ''long int''),
       Member ''sysctl_wmem'' (CPtr ''int''),
       Member ''sysctl_rmem'' (CPtr ''int''),
       Member ''sysctl_wmem_offset'' td_u32,
       Member ''sysctl_rmem_offset'' td_u32,
       Member ''max_header'' c_int,
       Member ''no_autobind'' td_bool,
       Member ''slab'' (CPtr ''struct kmem_cache''),
       Member ''obj_size'' c_unsigned_int,
       Member ''slab_flags'' td_slab_flags_t,
       Member ''useroffset'' c_unsigned_int,
       Member ''usersize'' c_unsigned_int,
       Member ''orphan_count'' (CPtr ''unsigned int''),
       Member ''rsk_prot'' (CPtr ''struct request_sock_ops''),
       Member ''twsk_prot'' (CPtr ''struct timewait_sock_ops''),
       Member ''h'' (CUnion [Member ''hashinfo'' (CPtr ''struct inet_hashinfo''),
          Member ''udp_table'' (CPtr ''struct udp_table''),
          Member ''raw_hash'' (CPtr ''struct raw_hashinfo''),
          Member ''smc_hash'' (CPtr ''struct smc_hashinfo'')]),
       Member ''owner'' (CPtr ''struct module''),
       Member ''name'' (CArray c_char 32),
       Member ''node'' struct_list_head,
       Member ''diag_destroy'' (CPtr ''int (struct sock *, int)'')]"

definition td_socket_state :: ctype where
  "td_socket_state =
    CEnum [(''SS_FREE'', 0),
      (''SS_UNCONNECTED'', 1),
      (''SS_CONNECTING'', 2),
      (''SS_CONNECTED'', 3),
      (''SS_DISCONNECTING'', 4)]"

definition struct_socket_wq :: ctype where
  "struct_socket_wq =
    CStruct [Member ''wait'' td_wait_queue_head_t,
       Member ''fasync_list'' (CPtr ''struct fasync_struct''),
       Member ''flags'' c_unsigned_long,
       Member ''rcu'' struct_callback_head,
       BitField '''' c_long 64]"

definition struct_socket :: ctype where
  "struct_socket =
    CStruct [Member ''state'' td_socket_state,
       Member ''type'' c_short,
       Member ''flags'' c_unsigned_long,
       Member ''file'' (CPtr ''struct file''),
       Member ''sk'' (CPtr ''struct sock''),
       Member ''ops'' (CPtr ''struct proto_ops''),
       BitField '''' c_long 64,
       BitField '''' c_long 64,
       BitField '''' c_long 64,
       Member ''wq'' struct_socket_wq]"

definition struct_llist_node :: ctype where
  "struct_llist_node =
    CStruct [Member ''next'' (CPtr ''struct llist_node'')]"

definition td___wsum :: ctype where
  "td___wsum =
    td___u32"

definition td_sk_buff_data_t :: ctype where
  "td_sk_buff_data_t =
    c_unsigned_int"

definition struct_sk_buff :: ctype where
  "struct_sk_buff =
    CStruct [Member '''' (CUnion [Member '''' (CStruct [Member ''next'' (CPtr ''struct sk_buff''),
             Member ''prev'' (CPtr ''struct sk_buff''),
             Member '''' (CUnion [Member ''dev'' (CPtr ''struct net_device''),
                Member ''dev_scratch'' c_unsigned_long])]),
          Member ''rbnode'' struct_rb_node,
          Member ''list'' struct_list_head,
          Member ''ll_node'' struct_llist_node]),
       Member ''sk'' (CPtr ''struct sock''),
       Member '''' (CUnion [Member ''tstamp'' td_ktime_t,
          Member ''skb_mstamp_ns'' td_u64]),
       Member ''cb'' (CArray c_char 48),
       Member '''' (CUnion [Member '''' (CStruct [Member ''_skb_refdst'' c_unsigned_long,
             Member ''destructor'' (CPtr ''void (struct sk_buff *)'')]),
          Member ''tcp_tsorted_anchor'' struct_list_head,
          Member ''_sk_redir'' c_unsigned_long]),
       Member ''_nfct'' c_unsigned_long,
       Member ''len'' c_unsigned_int,
       Member ''data_len'' c_unsigned_int,
       Member ''mac_len'' td___u16,
       Member ''hdr_len'' td___u16,
       Member ''queue_mapping'' td___u16,
       Member ''__cloned_offset'' (CArray td___u8 0),
       BitField ''cloned'' td___u8 1,
       BitField ''nohdr'' td___u8 1,
       BitField ''fclone'' td___u8 2,
       BitField ''peeked'' td___u8 1,
       BitField ''head_frag'' td___u8 1,
       BitField ''pfmemalloc'' td___u8 1,
       BitField ''pp_recycle'' td___u8 1,
       Member ''active_extensions'' td___u8,
       Member '''' (CUnion [Member '''' (CStruct [Member ''__pkt_type_offset'' (CArray td___u8 0),
             BitField ''pkt_type'' td___u8 3,
             BitField ''ignore_df'' td___u8 1,
             BitField ''nf_trace'' td___u8 1,
             BitField ''ip_summed'' td___u8 2,
             BitField ''ooo_okay'' td___u8 1,
             BitField ''l4_hash'' td___u8 1,
             BitField ''sw_hash'' td___u8 1,
             BitField ''wifi_acked_valid'' td___u8 1,
             BitField ''wifi_acked'' td___u8 1,
             BitField ''no_fcs'' td___u8 1,
             BitField ''encapsulation'' td___u8 1,
             BitField ''encap_hdr_csum'' td___u8 1,
             BitField ''csum_valid'' td___u8 1,
             Member ''__pkt_vlan_present_offset'' (CArray td___u8 0),
             BitField ''vlan_present'' td___u8 1,
             BitField ''csum_complete_sw'' td___u8 1,
             BitField ''csum_level'' td___u8 2,
             BitField ''dst_pending_confirm'' td___u8 1,
             BitField ''mono_delivery_time'' td___u8 1,
             BitField ''tc_skip_classify'' td___u8 1,
             BitField ''tc_at_ingress'' td___u8 1,
             BitField ''ndisc_nodetype'' td___u8 2,
             BitField ''ipvs_property'' td___u8 1,
             BitField ''inner_protocol_type'' td___u8 1,
             BitField ''remcsum_offload'' td___u8 1,
             BitField ''offload_fwd_mark'' td___u8 1,
             BitField ''offload_l3_fwd_mark'' td___u8 1,
             BitField ''redirected'' td___u8 1,
             BitField ''from_ingress'' td___u8 1,
             BitField ''nf_skip_egress'' td___u8 1,
             BitField ''decrypted'' td___u8 1,
             BitField ''slow_gro'' td___u8 1,
             BitField ''csum_not_inet'' td___u8 1,
             BitField ''scm_io_uring'' td___u8 1,
             Member ''tc_index'' td___u16,
             Member '''' (CUnion [Member ''csum'' td___wsum,
                Member '''' (CStruct [Member ''csum_start'' td___u16,
                   Member ''csum_offset'' td___u16])]),
             Member ''priority'' td___u32,
             Member ''skb_iif'' c_int,
             Member ''hash'' td___u32,
             Member ''vlan_proto'' td___be16,
             Member ''vlan_tci'' td___u16,
             Member '''' (CUnion [Member ''napi_id'' c_unsigned_int,
                Member ''sender_cpu'' c_unsigned_int]),
             Member ''alloc_cpu'' td_u16,
             Member ''secmark'' td___u32,
             Member '''' (CUnion [Member ''mark'' td___u32,
                Member ''reserved_tailroom'' td___u32]),
             Member '''' (CUnion [Member ''inner_protocol'' td___be16,
                Member ''inner_ipproto'' td___u8]),
             Member ''inner_transport_header'' td___u16,
             Member ''inner_network_header'' td___u16,
             Member ''inner_mac_header'' td___u16,
             Member ''protocol'' td___be16,
             Member ''transport_header'' td___u16,
             Member ''network_header'' td___u16,
             Member ''mac_header'' td___u16]),
          Member ''headers'' (CStruct [Member ''__pkt_type_offset'' (CArray td___u8 0),
             BitField ''pkt_type'' td___u8 3,
             BitField ''ignore_df'' td___u8 1,
             BitField ''nf_trace'' td___u8 1,
             BitField ''ip_summed'' td___u8 2,
             BitField ''ooo_okay'' td___u8 1,
             BitField ''l4_hash'' td___u8 1,
             BitField ''sw_hash'' td___u8 1,
             BitField ''wifi_acked_valid'' td___u8 1,
             BitField ''wifi_acked'' td___u8 1,
             BitField ''no_fcs'' td___u8 1,
             BitField ''encapsulation'' td___u8 1,
             BitField ''encap_hdr_csum'' td___u8 1,
             BitField ''csum_valid'' td___u8 1,
             Member ''__pkt_vlan_present_offset'' (CArray td___u8 0),
             BitField ''vlan_present'' td___u8 1,
             BitField ''csum_complete_sw'' td___u8 1,
             BitField ''csum_level'' td___u8 2,
             BitField ''dst_pending_confirm'' td___u8 1,
             BitField ''mono_delivery_time'' td___u8 1,
             BitField ''tc_skip_classify'' td___u8 1,
             BitField ''tc_at_ingress'' td___u8 1,
             BitField ''ndisc_nodetype'' td___u8 2,
             BitField ''ipvs_property'' td___u8 1,
             BitField ''inner_protocol_type'' td___u8 1,
             BitField ''remcsum_offload'' td___u8 1,
             BitField ''offload_fwd_mark'' td___u8 1,
             BitField ''offload_l3_fwd_mark'' td___u8 1,
             BitField ''redirected'' td___u8 1,
             BitField ''from_ingress'' td___u8 1,
             BitField ''nf_skip_egress'' td___u8 1,
             BitField ''decrypted'' td___u8 1,
             BitField ''slow_gro'' td___u8 1,
             BitField ''csum_not_inet'' td___u8 1,
             BitField ''scm_io_uring'' td___u8 1,
             Member ''tc_index'' td___u16,
             Member '''' (CUnion [Member ''csum'' td___wsum,
                Member '''' (CStruct [Member ''csum_start'' td___u16,
                   Member ''csum_offset'' td___u16])]),
             Member ''priority'' td___u32,
             Member ''skb_iif'' c_int,
             Member ''hash'' td___u32,
             Member ''vlan_proto'' td___be16,
             Member ''vlan_tci'' td___u16,
             Member '''' (CUnion [Member ''napi_id'' c_unsigned_int,
                Member ''sender_cpu'' c_unsigned_int]),
             Member ''alloc_cpu'' td_u16,
             Member ''secmark'' td___u32,
             Member '''' (CUnion [Member ''mark'' td___u32,
                Member ''reserved_tailroom'' td___u32]),
             Member '''' (CUnion [Member ''inner_protocol'' td___be16,
                Member ''inner_ipproto'' td___u8]),
             Member ''inner_transport_header'' td___u16,
             Member ''inner_network_header'' td___u16,
             Member ''inner_mac_header'' td___u16,
             Member ''protocol'' td___be16,
             Member ''transport_header'' td___u16,
             Member ''network_header'' td___u16,
             Member ''mac_header'' td___u16])]),
       Member ''tail'' td_sk_buff_data_t,
       Member ''end'' td_sk_buff_data_t,
       Member ''head'' (CPtr ''unsigned char''),
       Member ''data'' (CPtr ''unsigned char''),
       Member ''truesize'' c_unsigned_int,
       Member ''users'' td_refcount_t,
       Member ''extensions'' (CPtr ''struct skb_ext'')]"

subsection \<open>Sizes and alignments\<close>

lemma td___s16_layout [ctype_layout]:
  "layout td___s16 = (2, 2)" "wf_ctype td___s16"
  by (simp_all add: td___s16_def layout_rules ctype_layout del: One_nat_def)

lemma struct_inet_cork_layout [ctype_layout]:
  "layout struct_inet_cork = (56, 8)" "wf_ctype struct_inet_cork"
  by (simp_all add: struct_inet_cork_def layout_rules ctype_layout del: One_nat_def)

lemma td___be64_layout [ctype_layout]:
  "layout td___be64 = (8, 8)" "wf_ctype td___be64"
  by (simp_all add: td___be64_def layout_rules ctype_layout del: One_nat_def)

lemma struct_flowi_tunnel_layout [ctype_layout]:
  "layout struct_flowi_tunnel = (8, 8)" "wf_ctype struct_flowi_tunnel"
  by (simp_all add: struct_flowi_tunnel_def layout_rules ctype_layout del: One_nat_def)

lemma struct_flowi_common_layout [ctype_layout]:
  "layout struct_flowi_common = (40, 8)" "wf_ctype struct_flowi_common"
  by (simp_all add: struct_flowi_common_def layout_rules ctype_layout del: One_nat_def)

lemma union_flowi_uli_layout [ctype_layout]:
  "layout union_flowi_uli = (4, 4)" "wf_ctype union_flowi_uli"
  by (simp_all add: union_flowi_uli_def layout_rules ctype_layout del: One_nat_def)

lemma struct_flowi4_layout [ctype_layout]:
  "layout struct_flowi4 = (56, 8)" "wf_ctype struct_flowi4"
  by (simp_all add: struct_flowi4_def layout_rules ctype_layout del: One_nat_def)

lemma struct_flowi6_layout [ctype_layout]:
  "layout struct_flowi6 = (88, 8)" "wf_ctype struct_flowi6"
  by (simp_all add: struct_flowi6_def layout_rules ctype_layout del: One_nat_def)

lemma struct_flowi_layout [ctype_layout]:
  "layout struct_flowi = (88, 8)" "wf_ctype struct_flowi"
  by (simp_all add: struct_flowi_def layout_rules ctype_layout del: One_nat_def)

lemma struct_inet_cork_full_layout [ctype_layout]:
  "layout struct_inet_cork_full = (144, 8)" "wf_ctype struct_inet_cork_full"
  by (simp_all add: struct_inet_cork_full_def layout_rules ctype_layout del: One_nat_def)

lemma struct_inet_sock_layout [ctype_layout]:
  "layout struct_inet_sock = (992, 8)" "wf_ctype struct_inet_sock"
  by (simp_all add: struct_inet_sock_def layout_rules ctype_layout del: One_nat_def)

lemma struct_fastopen_queue_layout [ctype_layout]:
  "layout struct_fastopen_queue = (40, 8)" "wf_ctype struct_fastopen_queue"
  by (simp_all add: struct_fastopen_queue_def layout_rules ctype_layout del: One_nat_def)

lemma struct_request_sock_queue_layout [ctype_layout]:
  "layout struct_request_sock_queue = (80, 8)" "wf_ctype struct_request_sock_queue"
  by (simp_all add: struct_request_sock_queue_def layout_rules ctype_layout del: One_nat_def)

lemma struct_inet_connection_sock_layout [ctype_layout]:
  "layout struct_inet_connection_sock = (1400, 8)" "wf_ctype struct_inet_connection_sock"
  by (simp_all add: struct_inet_connection_sock_def layout_rules ctype_layout del: One_nat_def)

lemma struct_tcp_rack_layout [ctype_layout]:
  "layout struct_tcp_rack = (24, 8)" "wf_ctype struct_tcp_rack"
  by (simp_all add: struct_tcp_rack_def layout_rules ctype_layout del: One_nat_def)

lemma struct_minmax_sample_layout [ctype_layout]:
  "layout struct_minmax_sample = (8, 4)" "wf_ctype struct_minmax_sample"
  by (simp_all add: struct_minmax_sample_def layout_rules ctype_layout del: One_nat_def)

lemma struct_minmax_layout [ctype_layout]:
  "layout struct_minmax = (24, 4)" "wf_ctype struct_minmax"
  by (simp_all add: struct_minmax_def layout_rules ctype_layout del: One_nat_def)

lemma struct_tcp_options_received_layout [ctype_layout]:
  "layout struct_tcp_options_received = (24, 4)" "wf_ctype struct_tcp_options_received"
  by (simp_all add: struct_tcp_options_received_def layout_rules ctype_layout del: One_nat_def)

lemma struct_rb_node_layout [ctype_layout]:
  "layout struct_rb_node = (24, 8)" "wf_ctype struct_rb_node"
  by (simp_all add: struct_rb_node_def layout_rules ctype_layout del: One_nat_def)

lemma struct_timerqueue_node_layout [ctype_layout]:
  "layout struct_timerqueue_node = (32, 8)" "wf_ctype struct_timerqueue_node"
  by (simp_all add: struct_timerqueue_node_def layout_rules ctype_layout del: One_nat_def)

lemma struct_hrtimer_layout [ctype_layout]:
  "layout struct_hrtimer = (64, 8)" "wf_ctype struct_hrtimer"
  by (simp_all add: struct_hrtimer_def layout_rules ctype_layout del: One_nat_def)

lemma struct_tcp_sack_block_layout [ctype_layout]:
  "layout struct_tcp_sack_block = (8, 4)" "wf_ctype struct_tcp_sack_block"
  by (simp_all add: struct_tcp_sack_block_def layout_rules ctype_layout del: One_nat_def)

lemma struct_tcp_sock_layout [ctype_layout]:
  "layout struct_tcp_sock = (2240, 8)" "wf_ctype struct_tcp_sock"
  by (simp_all add: struct_tcp_sock_def layout_rules ctype_layout del: One_nat_def)

lemma struct_in6_pktinfo_layout [ctype_layout]:
  "layout struct_in6_pktinfo = (20, 4)" "wf_ctype struct_in6_pktinfo"
  by (simp_all add: struct_in6_pktinfo_def layout_rules ctype_layout del: One_nat_def)

lemma struct_inet6_cork_layout [ctype_layout]:
  "layout struct_inet6_cork = (16, 8)" "wf_ctype struct_inet6_cork"
  by (simp_all add: struct_inet6_cork_def layout_rules ctype_layout del: One_nat_def)

lemma struct_ipv6_pinfo_layout [ctype_layout]:
  "layout struct_ipv6_pinfo = (160, 8)" "wf_ctype struct_ipv6_pinfo"
  by (simp_all add: struct_ipv6_pinfo_def layout_rules ctype_layout del: One_nat_def)

lemma struct_tcp6_sock_layout [ctype_layout]:
  "layout struct_tcp6_sock = (2400, 8)" "wf_ctype struct_tcp6_sock"
  by (simp_all add: struct_tcp6_sock_def layout_rules ctype_layout del: One_nat_def)

lemma struct_udp_sock_layout [ctype_layout]:
  "layout struct_udp_sock = (1152, 8)" "wf_ctype struct_udp_sock"
  by (simp_all add: struct_udp_sock_def layout_rules ctype_layout del: One_nat_def)

lemma struct_udp6_sock_layout [ctype_layout]:
  "layout struct_udp6_sock = (1344, 8)" "wf_ctype struct_udp6_sock"
  by (simp_all add: struct_udp6_sock_def layout_rules ctype_layout del: One_nat_def)

lemma td_slab_flags_t_layout [ctype_layout]:
  "layout td_slab_flags_t = (4, 4)" "wf_ctype td_slab_flags_t"
  by (simp_all add: td_slab_flags_t_def layout_rules ctype_layout del: One_nat_def)

lemma struct_proto_layout [ctype_layout]:
  "layout struct_proto = (464, 8)" "wf_ctype struct_proto"
  by (simp_all add: struct_proto_def layout_rules ctype_layout del: One_nat_def)

lemma td_socket_state_layout [ctype_layout]:
  "layout td_socket_state = (4, 4)" "wf_ctype td_socket_state"
  by (simp_all add: td_socket_state_def layout_rules ctype_layout del: One_nat_def)

lemma struct_socket_wq_layout [ctype_layout]:
  "layout struct_socket_wq = (64, 8)" "wf_ctype struct_socket_wq"
  by (simp_all add: struct_socket_wq_def layout_rules ctype_layout del: One_nat_def)

lemma struct_socket_layout [ctype_layout]:
  "layout struct_socket = (128, 8)" "wf_ctype struct_socket"
  by (simp_all add: struct_socket_def layout_rules ctype_layout del: One_nat_def)

lemma struct_llist_node_layout [ctype_layout]:
  "layout struct_llist_node = (8, 8)" "wf_ctype struct_llist_node"
  by (simp_all add: struct_llist_node_def layout_rules ctype_layout del: One_nat_def)

lemma td___wsum_layout [ctype_layout]:
  "layout td___wsum = (4, 4)" "wf_ctype td___wsum"
  by (simp_all add: td___wsum_def layout_rules ctype_layout del: One_nat_def)

lemma td_sk_buff_data_t_layout [ctype_layout]:
  "layout td_sk_buff_data_t = (4, 4)" "wf_ctype td_sk_buff_data_t"
  by (simp_all add: td_sk_buff_data_t_def layout_rules ctype_layout del: One_nat_def)

lemma struct_sk_buff_layout [ctype_layout]:
  "layout struct_sk_buff = (232, 8)" "wf_ctype struct_sk_buff"
  by (simp_all add: struct_sk_buff_def layout_rules ctype_layout del: One_nat_def)

end
