(* ===== verification/Kernel_Task.thy ===== *)
theory Kernel_Task
  imports Kernel_Inet
begin

text \<open>
  The identity of the traced thread as the kernel keeps it: \<^verbatim>\<open>struct task_struct\<close>, its
  credentials, signal state and cgroup membership, as declared in \<^verbatim>\<open>vmlinux.h\<close>.
\<close>

subsection \<open>Declarations\<close>

definition struct_thread_info :: ctype where
  "struct_thread_info =
    CStruct [Member ''flags'' c_unsigned_long,
       Member '''' (CUnion [Member ''preempt_count'' td_u64,
          Member ''preempt'' (CStruct [Member ''count'' td_u32,
             Member ''need_resched'' td_u32])]),
       Member ''cpu'' td_u32]"

definition struct___call_single_node :: ctype where
  "struct___call_single_node =
    CStruct [Member ''llist'' struct_llist_node,
       Member '''' (CUnion [Member ''u_flags'' c_unsigned_int,
          Member ''a_flags'' td_atomic_t]),
       Member ''src'' td_u16,
       Member ''dst'' td_u16]"

definition struct_load_weight :: ctype where
  "struct_load_weight =
    CStruct [Member ''weight'' c_unsigned_long,
       Member ''inv_weight'' td_u32]"

definition struct_util_est :: ctype where
  "struct_util_est =
    CStruct [Member ''enqueued'' c_unsigned_int,
       Member ''ewma'' c_unsigned_int]"

definition struct_sched_avg :: ctype where
  "struct_sched_avg =
    CStruct [Member ''last_update_time'' td_u64,
       Member ''load_sum'' td_u64,
       Member ''runnable_sum'' td_u64,
       Member ''util_sum'' td_u32,
       Member ''period_contrib'' td_u32,
       Member ''load_avg'' c_unsigned_long,
       Member ''runnable_avg'' c_unsigned_long,
       Member ''util_avg'' c_unsigned_long,
       Member ''util_est'' struct_util_est]"

definition struct_sched_entity :: ctype where
  "struct_sched_entity =
    CStruct [Member ''load'' struct_load_weight,
       Member ''run_node'' struct_rb_node,
       Member ''group_node'' struct_list_head,
       Member ''on_rq'' c_unsigned_int,
       Member ''exec_start'' td_u64,
       Member ''sum_exec_runtime'' td_u64,
       Member ''vruntime'' td_u64,
       Member ''prev_sum_exec_runtime'' td_u64,
       Member ''nr_migrations'' td_u64,
       Member ''depth'' c_int,
       Member ''parent'' (CPtr ''struct sched_entity''),
       Member ''cfs_rq'' (CPtr ''struct cfs_rq''),
       Member ''my_q'' (CPtr ''struct cfs_rq''),
       Member ''runnable_weight'' c_unsigned_long,
       BitField '''' c_long 64,
       BitField '''' c_long 64,
       BitField '''' c_long 64,
       BitField '''' c_long 64,
       BitField '''' c_long 64,
       BitField '''' c_long 64,
       Member ''avg'' struct_sched_avg]"

definition struct_sched_rt_entity :: ctype where
  "struct_sched_rt_entity =
    CStruct [Member ''run_list'' struct_list_head,
       Member ''timeout'' c_unsigned_long,
       Member ''watchdog_stamp'' c_unsigned_long,
       Member ''time_slice'' c_unsigned_int,
       Member ''on_rq'' c_unsigned_short,
       Member ''on_list'' c_unsigned_short,
       Member ''back'' (CPtr ''struct sched_rt_entity'')]"

definition struct_sched_dl_entity :: ctype where
  "struct_sched_dl_entity =
    CStruct [Member ''rb_node'' struct_rb_node,
       Member ''dl_runtime'' td_u64,
       Member ''dl_deadline'' td_u64,
       Member ''dl_period'' td_u64,
       Member ''dl_bw'' td_u64,
       Member ''dl_density'' td_u64,
       Member ''runtime'' td_s64,
       Member ''deadline'' td_u64,
       Member ''flags'' c_unsigned_int,
       BitField ''dl_throttled'' c_unsigned_int 1,
       BitField ''dl_yielded'' c_unsigned_int 1,
       BitField ''dl_non_contending'' c_unsigned_int 1,
       BitField ''dl_overrun'' c_unsigned_int 1,
       Member ''dl_timer'' struct_hrtimer,
       Member ''inactive_timer'' struct_hrtimer,
       Member ''pi_se'' (CPtr ''struct sched_dl_entity'')]"

definition struct_sched_statistics :: ctype where
  "struct_sched_statistics =
    CStruct [Member ''wait_start'' td_u64,
       Member ''wait_max'' td_u64,
       Member ''wait_count'' td_u64,
       Member ''wait_sum'' td_u64,
       Member ''iowait_count'' td_u64,
       Member ''iowait_sum'' td_u64,
       Member ''sleep_start'' td_u64,
       Member ''sleep_max'' td_u64,
       Member ''sum_sleep_runtime'' td_s64,
       Member ''block_start'' td_u64,
       Member ''block_max'' td_u64,
       Member ''sum_block_runtime'' td_s64,
       Member ''exec_max'' td_u64,
       Member ''slice_max'' td_u64,
       Member ''nr_migrations_cold'' td_u64,
       Member ''nr_failed_migrations_affine'' td_u64,
       Member ''nr_failed_migrations_running'' td_u64,
       Member ''nr_failed_migrations_hot'' td_u64,
       Member ''nr_forced_migrations'' td_u64,
       Member ''nr_wakeups'' td_u64,
       Member ''nr_wakeups_sync'' td_u64,
       Member ''nr_wakeups_migrate'' td_u64,
       Member ''nr_wakeups_local'' td_u64,
       Member ''nr_wakeups_remote'' td_u64,
       Member ''nr_wakeups_affine'' td_u64,
       Member ''nr_wakeups_affine_attempts'' td_u64,
       Member ''nr_wakeups_passive'' td_u64,
       Member ''nr_wakeups_idle'' td_u64,
       BitField '''' c_long 64,
       BitField '''' c_long 64,
       BitField '''' c_long 64,
       BitField '''' c_long 64]"

definition struct_hlist_head :: ctype where
  "struct_hlist_head =
    CStruct [Member ''first'' (CPtr ''struct hlist_node'')]"

definition struct_cpumask :: ctype where
  "struct_cpumask =
    CStruct [Member ''bits'' (CArray c_unsigned_long 4)]"

definition td_cpumask_t :: ctype where
  "td_cpumask_t =
    struct_cpumask"

definition union_rcu_special :: ctype where
  "union_rcu_special =
    CUnion [Member ''b'' (CStruct [Member ''blocked'' td_u8,
          Member ''need_qs'' td_u8,
          Member ''exp_hint'' td_u8,
          Member ''need_mb'' td_u8]),
       Member ''s'' td_u32]"

definition struct_sched_info :: ctype where
  "struct_sched_info =
    CStruct [Member ''pcount'' c_unsigned_long,
       Member ''run_delay'' c_unsigned_long_long,
       Member ''last_arrival'' c_unsigned_long_long,
       Member ''last_queued'' c_unsigned_long_long]"

definition struct_plist_node :: ctype where
  "struct_plist_node =
    CStruct [Member ''prio'' c_int,
       Member ''prio_list'' struct_list_head,
       Member ''node_list'' struct_list_head]"

definition struct_task_rss_stat :: ctype where
  "struct_task_rss_stat =
    CStruct [Member ''events'' c_int,
       Member ''count'' (CArray c_int 4)]"

definition td___kernel_clockid_t :: ctype where
  "td___kernel_clockid_t =
    c_int"

definition td_clockid_t :: ctype where
  "td_clockid_t =
    td___kernel_clockid_t"

definition enum_timespec_type :: ctype where
  "enum_timespec_type =
    CEnum [(''TT_NONE'', 0),
      (''TT_NATIVE'', 1),
      (''TT_COMPAT'', 2)]"

definition struct_restart_block :: ctype where
  "struct_restart_block =
    CStruct [Member ''arch_data'' c_unsigned_long,
       Member ''fn'' (CPtr ''long int (struct restart_block *)''),
       Member '''' (CUnion [Member ''futex'' (CStruct [Member ''uaddr'' (CPtr ''u32''),
             Member ''val'' td_u32,
             Member ''flags'' td_u32,
             Member ''bitset'' td_u32,
             Member ''time'' td_u64,
             Member ''uaddr2'' (CPtr ''u32'')]),
          Member ''nanosleep'' (CStruct [Member ''clockid'' td_clockid_t,
             Member ''type'' enum_timespec_type,
             Member '''' (CUnion [Member ''rmtp'' (CPtr ''struct __kernel_timespec''),
                Member ''compat_rmtp'' (CPtr ''struct old_timespec32'')]),
             Member ''expires'' td_u64]),
          Member ''poll'' (CStruct [Member ''ufds'' (CPtr ''struct pollfd''),
             Member ''nfds'' c_int,
             Member ''has_timeout'' c_int,
             Member ''tv_sec'' c_unsigned_long,
             Member ''tv_nsec'' c_unsigned_long])])]"

definition td___kernel_pid_t :: ctype where
  "td___kernel_pid_t =
    c_int"

definition td_pid_t :: ctype where
  "td_pid_t =
    td___kernel_pid_t"

definition td_raw_spinlock_t :: ctype where
  "td_raw_spinlock_t =
    struct_raw_spinlock"

definition struct_prev_cputime :: ctype where
  "struct_prev_cputime =
    CStruct [Member ''utime'' td_u64,
       Member ''stime'' td_u64,
       Member ''lock'' td_raw_spinlock_t]"

definition struct_seqcount :: ctype where
  "struct_seqcount =
    CStruct [Member ''sequence'' c_unsigned_int]"

definition td_seqcount_t :: ctype where
  "td_seqcount_t =
    struct_seqcount"

definition enum_vtime_state :: ctype where
  "enum_vtime_state =
    CEnum [(''VTIME_INACTIVE'', 0),
      (''VTIME_IDLE'', 1),
      (''VTIME_SYS'', 2),
      (''VTIME_USER'', 3),
      (''VTIME_GUEST'', 4)]"

definition struct_vtime :: ctype where
  "struct_vtime =
    CStruct [Member ''seqcount'' td_seqcount_t,
       Member ''starttime'' c_unsigned_long_long,
       Member ''state'' enum_vtime_state,
       Member ''cpu'' c_unsigned_int,
       Member ''utime'' td_u64,
       Member ''stime'' td_u64,
       Member ''gtime'' td_u64]"

definition struct_rb_root_cached :: ctype where
  "struct_rb_root_cached =
    CStruct [Member ''rb_root'' struct_rb_root,
       Member ''rb_leftmost'' (CPtr ''struct rb_node'')]"

definition struct_timerqueue_head :: ctype where
  "struct_timerqueue_head =
    CStruct [Member ''rb_root'' struct_rb_root_cached]"

definition struct_posix_cputimer_base :: ctype where
  "struct_posix_cputimer_base =
    CStruct [Member ''nextevt'' td_u64,
       Member ''tqhead'' struct_timerqueue_head]"

definition struct_posix_cputimers :: ctype where
  "struct_posix_cputimers =
    CStruct [Member ''bases'' (CArray struct_posix_cputimer_base 3),
       Member ''timers_active'' c_unsigned_int,
       Member ''expiry_active'' c_unsigned_int]"

definition td_atomic_long_t :: ctype where
  "td_atomic_long_t =
    td_atomic64_t"

definition struct_optimistic_spin_queue :: ctype where
  "struct_optimistic_spin_queue =
    CStruct [Member ''tail'' td_atomic_t]"

definition struct_mutex :: ctype where
  "struct_mutex =
    CStruct [Member ''owner'' td_atomic_long_t,
       Member ''wait_lock'' td_raw_spinlock_t,
       Member ''osq'' struct_optimistic_spin_queue,
       Member ''wait_list'' struct_list_head]"

definition struct_posix_cputimers_work :: ctype where
  "struct_posix_cputimers_work =
    CStruct [Member ''work'' struct_callback_head,
       Member ''mutex'' struct_mutex,
       Member ''scheduled'' c_unsigned_int]"

definition struct_sysv_sem :: ctype where
  "struct_sysv_sem =
    CStruct [Member ''undo_list'' (CPtr ''struct sem_undo_list'')]"

definition struct_sysv_shm :: ctype where
  "struct_sysv_shm =
    CStruct [Member ''shm_clist'' struct_list_head]"

definition td_sigset_t :: ctype where
  "td_sigset_t =
    CStruct [Member ''sig'' (CArray c_unsigned_long 1)]"

definition struct_sigpending :: ctype where
  "struct_sigpending =
    CStruct [Member ''list'' struct_list_head,
       Member ''signal'' td_sigset_t]"

definition struct_seccomp :: ctype where
  "struct_seccomp =
    CStruct [Member ''mode'' c_int,
       Member ''filter_count'' td_atomic_t,
       Member ''filter'' (CPtr ''struct seccomp_filter'')]"

definition struct_syscall_user_dispatch :: ctype where
  "struct_syscall_user_dispatch =
    CStruct []"

definition struct_wake_q_node :: ctype where
  "struct_wake_q_node =
    CStruct [Member ''next'' (CPtr ''struct wake_q_node'')]"

definition struct_task_io_accounting :: ctype where
  "struct_task_io_accounting =
    CStruct [Member ''rchar'' td_u64,
       Member ''wchar'' td_u64,
       Member ''syscr'' td_u64,
       Member ''syscw'' td_u64,
       Member ''read_bytes'' td_u64,
       Member ''write_bytes'' td_u64,
       Member ''cancelled_write_bytes'' td_u64]"

definition td_nodemask_t :: ctype where
  "td_nodemask_t =
    CStruct [Member ''bits'' (CArray c_unsigned_long 1)]"

definition struct_seqcount_spinlock :: ctype where
  "struct_seqcount_spinlock =
    CStruct [Member ''seqcount'' td_seqcount_t]"

definition td_seqcount_spinlock_t :: ctype where
  "td_seqcount_spinlock_t =
    struct_seqcount_spinlock"

definition struct_tlbflush_unmap_batch :: ctype where
  "struct_tlbflush_unmap_batch =
    CStruct []"

definition struct_kmap_ctrl :: ctype where
  "struct_kmap_ctrl =
    CStruct []"

definition struct_llist_head :: ctype where
  "struct_llist_head =
    CStruct [Member ''first'' (CPtr ''struct llist_node'')]"

definition struct_cpu_context :: ctype where
  "struct_cpu_context =
    CStruct [Member ''x19'' c_unsigned_long,
       Member ''x20'' c_unsigned_long,
       Member ''x21'' c_unsigned_long,
       Member ''x22'' c_unsigned_long,
       Member ''x23'' c_unsigned_long,
       Member ''x24'' c_unsigned_long,
       Member ''x25'' c_unsigned_long,
       Member ''x26'' c_unsigned_long,
       Member ''x27'' c_unsigned_long,
       Member ''x28'' c_unsigned_long,
       Member ''fp'' c_unsigned_long,
       Member ''sp'' c_unsigned_long,
       Member ''pc'' c_unsigned_long]"

definition struct_user_fpsimd_state :: ctype where
  "struct_user_fpsimd_state =
    CStruct [Member ''vregs'' (CArray c_unsigned_int128 32),
       Member ''fpsr'' td___u32,
       Member ''fpcr'' td___u32,
       Member ''__reserved'' (CArray td___u32 2)]"

definition enum_fp_type :: ctype where
  "enum_fp_type =
    CEnum [(''FP_STATE_CURRENT'', 0),
      (''FP_STATE_FPSIMD'', 1),
      (''FP_STATE_SVE'', 2)]"

definition struct_debug_info :: ctype where
  "struct_debug_info =
    CStruct [Member ''suspended_step'' c_int,
       Member ''bps_disabled'' c_int,
       Member ''wps_disabled'' c_int,
       Member ''hbp_break'' (CArray (CPtr ''struct perf_event'') 16),
       Member ''hbp_watch'' (CArray (CPtr ''struct perf_event'') 16)]"

definition struct_ptrauth_key :: ctype where
  "struct_ptrauth_key =
    CStruct [Member ''lo'' c_unsigned_long,
       Member ''hi'' c_unsigned_long]"

definition struct_ptrauth_keys_user :: ctype where
  "struct_ptrauth_keys_user =
    CStruct [Member ''apia'' struct_ptrauth_key,
       Member ''apib'' struct_ptrauth_key,
       Member ''apda'' struct_ptrauth_key,
       Member ''apdb'' struct_ptrauth_key,
       Member ''apga'' struct_ptrauth_key]"

definition struct_ptrauth_keys_kernel :: ctype where
  "struct_ptrauth_keys_kernel =
    CStruct [Member ''apia'' struct_ptrauth_key]"

definition struct_thread_struct :: ctype where
  "struct_thread_struct =
    CStruct [Member ''cpu_context'' struct_cpu_context,
       BitField '''' c_long 64,
       Member ''uw'' (CStruct [Member ''tp_value'' c_unsigned_long,
          Member ''tp2_value'' c_unsigned_long,
          Member ''fpsimd_state'' struct_user_fpsimd_state]),
       Member ''fp_type'' enum_fp_type,
       Member ''fpsimd_cpu'' c_unsigned_int,
       Member ''sve_state'' (CPtr ''void''),
       Member ''za_state'' (CPtr ''void''),
       Member ''vl'' (CArray c_unsigned_int 2),
       Member ''vl_onexec'' (CArray c_unsigned_int 2),
       Member ''fault_address'' c_unsigned_long,
       Member ''fault_code'' c_unsigned_long,
       Member ''debug'' struct_debug_info,
       Member ''keys_user'' struct_ptrauth_keys_user,
       Member ''keys_kernel'' struct_ptrauth_keys_kernel,
       Member ''mte_ctrl'' td_u64,
       Member ''sctlr_user'' td_u64,
       Member ''svcr'' td_u64,
       Member ''tpidr2_el0'' td_u64,
       BitField '''' c_long 64]"

definition struct_task_struct :: ctype where
  "struct_task_struct =
    CStruct [Member ''thread_info'' struct_thread_info,
       Member ''__state'' c_unsigned_int,
       Member ''stack'' (CPtr ''void''),
       Member ''usage'' td_refcount_t,
       Member ''flags'' c_unsigned_int,
       Member ''ptrace'' c_unsigned_int,
       Member ''on_cpu'' c_int,
       Member ''wake_entry'' struct___call_single_node,
       Member ''wakee_flips'' c_unsigned_int,
       Member ''wakee_flip_decay_ts'' c_unsigned_long,
       Member ''last_wakee'' (CPtr ''struct task_struct''),
       Member ''recent_used_cpu'' c_int,
       Member ''wake_cpu'' c_int,
       Member ''on_rq'' c_int,
       Member ''prio'' c_int,
       Member ''static_prio'' c_int,
       Member ''normal_prio'' c_int,
       Member ''rt_priority'' c_unsigned_int,
       Member ''se'' struct_sched_entity,
       Member ''rt'' struct_sched_rt_entity,
       Member ''dl'' struct_sched_dl_entity,
       Member ''sched_class'' (CPtr ''struct sched_class''),
       Member ''sched_task_group'' (CPtr ''struct task_group''),
       BitField '''' c_long 64,
       BitField '''' c_long 64,
       BitField '''' c_long 64,
       BitField '''' c_long 64,
       Member ''stats'' struct_sched_statistics,
       Member ''preempt_notifiers'' struct_hlist_head,
       Member ''btrace_seq'' c_unsigned_int,
       Member ''policy'' c_unsigned_int,
       Member ''nr_cpus_allowed'' c_int,
       Member ''cpus_ptr'' (CPtr ''cpumask_t''),
       Member ''user_cpus_ptr'' (CPtr ''cpumask_t''),
       Member ''cpus_mask'' td_cpumask_t,
       Member ''migration_pending'' (CPtr ''void''),
       Member ''migration_disabled'' c_unsigned_short,
       Member ''migration_flags'' c_unsigned_short,
       Member ''trc_reader_nesting'' c_int,
       Member ''trc_ipi_to_cpu'' c_int,
       Member ''trc_reader_special'' union_rcu_special,
       Member ''trc_holdout_list'' struct_list_head,
       Member ''trc_blkd_node'' struct_list_head,
       Member ''trc_blkd_cpu'' c_int,
       Member ''sched_info'' struct_sched_info,
       Member ''tasks'' struct_list_head,
       Member ''pushable_tasks'' struct_plist_node,
       Member ''pushable_dl_tasks'' struct_rb_node,
       Member ''mm'' (CPtr ''struct mm_struct''),
       Member ''active_mm'' (CPtr ''struct mm_struct''),
       Member ''rss_stat'' struct_task_rss_stat,
       Member ''exit_state'' c_int,
       Member ''exit_code'' c_int,
       Member ''exit_signal'' c_int,
       Member ''pdeath_signal'' c_int,
       Member ''jobctl'' c_unsigned_long,
       Member ''personality'' c_unsigned_int,
       BitField ''sched_reset_on_fork'' c_unsigned_int 1,
       BitField ''sched_contributes_to_load'' c_unsigned_int 1,
       BitField ''sched_migrated'' c_unsigned_int 1,
       BitField ''sched_task_hot'' c_unsigned_int 1,
       BitField '''' c_long 28,
       BitField ''sched_remote_wakeup'' c_unsigned_int 1,
       BitField ''in_execve'' c_unsigned_int 1,
       BitField ''in_iowait'' c_unsigned_int 1,
       BitField ''in_user_fault'' c_unsigned_int 1,
       BitField ''in_lru_fault'' c_unsigned_int 1,
       BitField ''no_cgroup_migration'' c_unsigned_int 1,
       BitField ''frozen'' c_unsigned_int 1,
       BitField ''use_memdelay'' c_unsigned_int 1,
       BitField ''in_memstall'' c_unsigned_int 1,
       BitField ''in_eventfd'' c_unsigned_int 1,
       BitField ''in_thrashing'' c_unsigned_int 1,
       Member ''atomic_flags'' c_unsigned_long,
       Member ''restart_block'' struct_restart_block,
       Member ''pid'' td_pid_t,
       Member ''tgid'' td_pid_t,
       Member ''stack_canary'' c_unsigned_long,
       Member ''real_parent'' (CPtr ''struct task_struct''),
       Member ''parent'' (CPtr ''struct task_struct''),
       Member ''children'' struct_list_head,
       Member ''sibling'' struct_list_head,
       Member ''group_leader'' (CPtr ''struct task_struct''),
       Member ''ptraced'' struct_list_head,
       Member ''ptrace_entry'' struct_list_head,
       Member ''thread_pid'' (CPtr ''struct pid''),
       Member ''pid_links'' (CArray struct_hlist_node 4),
       Member ''thread_group'' struct_list_head,
       Member ''thread_node'' struct_list_head,
       Member ''vfork_done'' (CPtr ''struct completion''),
       Member ''set_child_tid'' (CPtr ''int''),
       Member ''clear_child_tid'' (CPtr ''int''),
       Member ''worker_private'' (CPtr ''void''),
       Member ''utime'' td_u64,
       Member ''stime'' td_u64,
       Member ''gtime'' td_u64,
       Member ''prev_cputime'' struct_prev_cputime,
       Member ''vtime'' struct_vtime,
       Member ''tick_dep_mask'' td_atomic_t,
       Member ''nvcsw'' c_unsigned_long,
       Member ''nivcsw'' c_unsigned_long,
       Member ''start_time'' td_u64,
       Member ''start_boottime'' td_u64,
       Member ''min_flt'' c_unsigned_long,
       Member ''maj_flt'' c_unsigned_long,
       Member ''posix_cputimers'' struct_posix_cputimers,
       Member ''posix_cputimers_work'' struct_posix_cputimers_work,
       Member ''ptracer_cred'' (CPtr ''struct cred''),
       Member ''real_cred'' (CPtr ''struct cred''),
       Member ''cred'' (CPtr ''struct cred''),
       Member ''cached_requested_key'' (CPtr ''struct key''),
       Member ''comm'' (CArray c_char 16),
       Member ''nameidata'' (CPtr ''struct nameidata''),
       Member ''sysvsem'' struct_sysv_sem,
       Member ''sysvshm'' struct_sysv_shm,
       Member ''last_switch_count'' c_unsigned_long,
       Member ''last_switch_time'' c_unsigned_long,
       Member ''fs'' (CPtr ''struct fs_struct''),
       Member ''files'' (CPtr ''struct files_struct''),
       Member ''io_uring'' (CPtr ''struct io_uring_task''),
       Member ''nsproxy'' (CPtr ''struct nsproxy''),
       Member ''signal'' (CPtr ''struct signal_struct''),
       Member ''sighand'' (CPtr ''struct sighand_struct''),
       Member ''blocked'' td_sigset_t,
       Member ''real_blocked'' td_sigset_t,
       Member ''saved_sigmask'' td_sigset_t,
       Member ''pending'' struct_sigpending,
       Member ''sas_ss_sp'' c_unsigned_long,
       Member ''sas_ss_size'' td_size_t,
       Member ''sas_ss_flags'' c_unsigned_int,
       Member ''task_works'' (CPtr ''struct callback_head''),
       Member ''audit_context'' (CPtr ''struct audit_context''),
       Member ''loginuid'' td_kuid_t,
       Member ''sessionid'' c_unsigned_int,
       Member ''seccomp'' struct_seccomp,
       Member ''syscall_dispatch'' struct_syscall_user_dispatch,
       Member ''parent_exec_id'' td_u64,
       Member ''self_exec_id'' td_u64,
       Member ''alloc_lock'' td_spinlock_t,
       Member ''pi_lock'' td_raw_spinlock_t,
       Member ''wake_q'' struct_wake_q_node,
       Member ''pi_waiters'' struct_rb_root_cached,
       Member ''pi_top_task'' (CPtr ''struct task_struct''),
       Member ''pi_blocked_on'' (CPtr ''struct rt_mutex_waiter''),
       Member ''journal_info'' (CPtr ''void''),
       Member ''bio_list'' (CPtr ''struct bio_list''),
       Member ''plug'' (CPtr ''struct blk_plug''),
       Member ''reclaim_state'' (CPtr ''struct reclaim_state''),
       Member ''backing_dev_info'' (CPtr ''struct backing_dev_info''),
       Member ''io_context'' (CPtr ''struct io_context''),
       Member ''capture_control'' (CPtr ''struct capture_control''),
       Member ''ptrace_message'' c_unsigned_long,
       Member ''last_siginfo'' (CPtr ''kernel_siginfo_t''),
       Member ''ioac'' struct_task_io_accounting,
       Member ''psi_flags'' c_unsigned_int,
       Member ''acct_rss_mem1'' td_u64,
       Member ''acct_vm_mem1'' td_u64,
       Member ''acct_timexpd'' td_u64,
       Member ''mems_allowed'' td_nodemask_t,
       Member ''mems_allowed_seq'' td_seqcount_spinlock_t,
       Member ''cpuset_mem_spread_rotor'' c_int,
       Member ''cpuset_slab_spread_rotor'' c_int,
       Member ''cgroups'' (CPtr ''struct css_set''),
       Member ''cg_list'' struct_list_head,
       Member ''robust_list'' (CPtr ''struct robust_list_head''),
       Member ''compat_robust_list'' (CPtr ''struct compat_robust_list_head''),
       Member ''pi_state_list'' struct_list_head,
       Member ''pi_state_cache'' (CPtr ''struct futex_pi_state''),
       Member ''futex_exit_mutex'' struct_mutex,
       Member ''futex_state'' c_unsigned_int,
       Member ''perf_event_ctxp'' (CArray (CPtr ''struct perf_event_context'') 2),
       Member ''perf_event_mutex'' struct_mutex,
       Member ''perf_event_list'' struct_list_head,
       Member ''mempolicy'' (CPtr ''struct mempolicy''),
       Member ''il_prev'' c_short,
       Member ''pref_node_fork'' c_short,
       Member ''numa_scan_seq'' c_int,
       Member ''numa_scan_period'' c_unsigned_int,
       Member ''numa_scan_period_max'' c_unsigned_int,
       Member ''numa_preferred_nid'' c_int,
       Member ''numa_migrate_retry'' c_unsigned_long,
       Member ''node_stamp'' td_u64,
       Member ''last_task_numa_placement'' td_u64,
       Member ''last_sum_exec_runtime'' td_u64,
       Member ''numa_work'' struct_callback_head,
       Member ''numa_group'' (CPtr ''struct numa_group''),
       Member ''numa_faults'' (CPtr ''long unsigned int''),
       Member ''total_numa_faults'' c_unsigned_long,
       Member ''numa_faults_locality'' (CArray c_unsigned_long 3),
       Member ''numa_pages_migrated'' c_unsigned_long,
       Member ''rseq'' (CPtr ''struct rseq''),
       Member ''rseq_sig'' td_u32,
       Member ''rseq_event_mask'' c_unsigned_long,
       Member ''tlb_ubc'' struct_tlbflush_unmap_batch,
       Member '''' (CUnion [Member ''rcu_users'' td_refcount_t,
          Member ''rcu'' struct_callback_head]),
       Member ''splice_pipe'' (CPtr ''struct pipe_inode_info''),
       Member ''task_frag'' struct_page_frag,
       Member ''delays'' (CPtr ''struct task_delay_info''),
       Member ''nr_dirtied'' c_int,
       Member ''nr_dirtied_pause'' c_int,
       Member ''dirty_paused_when'' c_unsigned_long,
       Member ''timer_slack_ns'' td_u64,
       Member ''default_timer_slack_ns'' td_u64,
       Member ''curr_ret_stack'' c_int,
       Member ''curr_ret_depth'' c_int,
       Member ''ret_stack'' (CPtr ''struct ftrace_ret_stack''),
       Member ''ftrace_timestamp'' c_unsigned_long_long,
       Member ''trace_overrun'' td_atomic_t,
       Member ''tracing_graph_pause'' td_atomic_t,
       Member ''trace_recursion'' c_unsigned_long,
       Member ''memcg_in_oom'' (CPtr ''struct mem_cgroup''),
       Member ''memcg_oom_gfp_mask'' td_gfp_t,
       Member ''memcg_oom_order'' c_int,
       Member ''memcg_nr_pages_over_high'' c_unsigned_int,
       Member ''active_memcg'' (CPtr ''struct mem_cgroup''),
       Member ''throttle_queue'' (CPtr ''struct request_queue''),
       Member ''utask'' (CPtr ''struct uprobe_task''),
       Member ''sequential_io'' c_unsigned_int,
       Member ''sequential_io_avg'' c_unsigned_int,
       Member ''kmap_ctrl'' struct_kmap_ctrl,
       Member ''pagefault_disabled'' c_int,
       Member ''oom_reaper_list'' (CPtr ''struct task_struct''),
       Member ''oom_reaper_timer'' struct_timer_list,
       Member ''stack_vm_area'' (CPtr ''struct vm_struct''),
       Member ''stack_refcount'' td_refcount_t,
       Member ''security'' (CPtr ''void''),
       Member ''bpf_storage'' (CPtr ''struct bpf_local_storage''),
       Member ''bpf_ctx'' (CPtr ''struct bpf_run_ctx''),
       Member ''kretprobe_instances'' struct_llist_head,
       Member ''thread'' struct_thread_struct,
       BitField '''' c_long 64,
       BitField '''' c_long 64,
       BitField '''' c_long 64,
       BitField '''' c_long 64,
       BitField '''' c_long 64,
       BitField '''' c_long 64]"

definition td___kernel_gid32_t :: ctype where
  "td___kernel_gid32_t =
    c_unsigned_int"

definition td_gid_t :: ctype where
  "td_gid_t =
    td___kernel_gid32_t"

definition td_kgid_t :: ctype where
  "td_kgid_t =
    CStruct [Member ''val'' td_gid_t]"

definition struct_kernel_cap_struct :: ctype where
  "struct_kernel_cap_struct =
    CStruct [Member ''cap'' (CArray td___u32 2)]"

definition td_kernel_cap_t :: ctype where
  "td_kernel_cap_t =
    struct_kernel_cap_struct"

definition struct_cred :: ctype where
  "struct_cred =
    CStruct [Member ''usage'' td_atomic_long_t,
       Member ''uid'' td_kuid_t,
       Member ''gid'' td_kgid_t,
       Member ''suid'' td_kuid_t,
       Member ''sgid'' td_kgid_t,
       Member ''euid'' td_kuid_t,
       Member ''egid'' td_kgid_t,
       Member ''fsuid'' td_kuid_t,
       Member ''fsgid'' td_kgid_t,
       Member ''securebits'' c_unsigned_int,
       Member ''cap_inheritable'' td_kernel_cap_t,
       Member ''cap_permitted'' td_kernel_cap_t,
       Member ''cap_effective'' td_kernel_cap_t,
       Member ''cap_bset'' td_kernel_cap_t,
       Member ''cap_ambient'' td_kernel_cap_t,
       Member ''jit_keyring'' c_unsigned_char,
       Member ''session_keyring'' (CPtr ''struct key''),
       Member ''process_keyring'' (CPtr ''struct key''),
       Member ''thread_keyring'' (CPtr ''struct key''),
       Member ''request_key_auth'' (CPtr ''struct key''),
       Member ''security'' (CPtr ''void''),
       Member ''user'' (CPtr ''struct user_struct''),
       Member ''user_ns'' (CPtr ''struct user_namespace''),
       Member ''ucounts'' (CPtr ''struct ucounts''),
       Member ''group_info'' (CPtr ''struct group_info''),
       Member '''' (CUnion [Member ''non_rcu'' c_int,
          Member ''rcu'' struct_callback_head])]"

definition struct_upid :: ctype where
  "struct_upid =
    CStruct [Member ''nr'' c_int,
       Member ''ns'' (CPtr ''struct pid_namespace'')]"

definition struct_pid :: ctype where
  "struct_pid =
    CStruct [Member ''count'' td_refcount_t,
       Member ''level'' c_unsigned_int,
       Member ''lock'' td_spinlock_t,
       Member ''tasks'' (CArray struct_hlist_head 4),
       Member ''inodes'' struct_hlist_head,
       Member ''wait_pidfd'' td_wait_queue_head_t,
       Member ''rcu'' struct_callback_head,
       Member ''numbers'' (CArray struct_upid 0)]"

definition struct_cpu_itimer :: ctype where
  "struct_cpu_itimer =
    CStruct [Member ''expires'' td_u64,
       Member ''incr'' td_u64]"

definition struct_task_cputime_atomic :: ctype where
  "struct_task_cputime_atomic =
    CStruct [Member ''utime'' td_atomic64_t,
       Member ''stime'' td_atomic64_t,
       Member ''sum_exec_runtime'' td_atomic64_t]"

definition struct_thread_group_cputimer :: ctype where
  "struct_thread_group_cputimer =
    CStruct [Member ''cputime_atomic'' struct_task_cputime_atomic]"

definition td_seqlock_t :: ctype where
  "td_seqlock_t =
    CStruct [Member ''seqcount'' td_seqcount_spinlock_t,
       Member ''lock'' td_spinlock_t]"

definition struct_rlimit :: ctype where
  "struct_rlimit =
    CStruct [Member ''rlim_cur'' td___kernel_ulong_t,
       Member ''rlim_max'' td___kernel_ulong_t]"

definition struct_pacct_struct :: ctype where
  "struct_pacct_struct =
    CStruct [Member ''ac_flag'' c_int,
       Member ''ac_exitcode'' c_long,
       Member ''ac_mem'' c_unsigned_long,
       Member ''ac_utime'' td_u64,
       Member ''ac_stime'' td_u64,
       Member ''ac_minflt'' c_unsigned_long,
       Member ''ac_majflt'' c_unsigned_long]"

definition struct_rw_semaphore :: ctype where
  "struct_rw_semaphore =
    CStruct [Member ''count'' td_atomic_long_t,
       Member ''owner'' td_atomic_long_t,
       Member ''osq'' struct_optimistic_spin_queue,
       Member ''wait_lock'' td_raw_spinlock_t,
       Member ''wait_list'' struct_list_head]"

definition struct_signal_struct :: ctype where
  "struct_signal_struct =
    CStruct [Member ''sigcnt'' td_refcount_t,
       Member ''live'' td_atomic_t,
       Member ''nr_threads'' c_int,
       Member ''quick_threads'' c_int,
       Member ''thread_head'' struct_list_head,
       Member ''wait_chldexit'' td_wait_queue_head_t,
       Member ''curr_target'' (CPtr ''struct task_struct''),
       Member ''shared_pending'' struct_sigpending,
       Member ''multiprocess'' struct_hlist_head,
       Member ''group_exit_code'' c_int,
       Member ''notify_count'' c_int,
       Member ''group_exec_task'' (CPtr ''struct task_struct''),
       Member ''group_stop_count'' c_int,
       Member ''flags'' c_unsigned_int,
       Member ''core_state'' (CPtr ''struct core_state''),
       BitField ''is_child_subreaper'' c_unsigned_int 1,
       BitField ''has_child_subreaper'' c_unsigned_int 1,
       Member ''next_posix_timer_id'' c_unsigned_int,
       Member ''posix_timers'' struct_list_head,
       Member ''real_timer'' struct_hrtimer,
       Member ''it_real_incr'' td_ktime_t,
       Member ''it'' (CArray struct_cpu_itimer 2),
       Member ''cputimer'' struct_thread_group_cputimer,
       Member ''posix_cputimers'' struct_posix_cputimers,
       Member ''pids'' (CArray (CPtr ''struct pid'') 4),
       Member ''tick_dep_mask'' td_atomic_t,
       Member ''tty_old_pgrp'' (CPtr ''struct pid''),
       Member ''leader'' c_int,
       Member ''tty'' (CPtr ''struct tty_struct''),
       Member ''autogroup'' (CPtr ''struct autogroup''),
       Member ''stats_lock'' td_seqlock_t,
       Member ''utime'' td_u64,
       Member ''stime'' td_u64,
       Member ''cutime'' td_u64,
       Member ''cstime'' td_u64,
       Member ''gtime'' td_u64,
       Member ''cgtime'' td_u64,
       Member ''prev_cputime'' struct_prev_cputime,
       Member ''nvcsw'' c_unsigned_long,
       Member ''nivcsw'' c_unsigned_long,
       Member ''cnvcsw'' c_unsigned_long,
       Member ''cnivcsw'' c_unsigned_long,
       Member ''min_flt'' c_unsigned_long,
       Member ''maj_flt'' c_unsigned_long,
       Member ''cmin_flt'' c_unsigned_long,
       Member ''cmaj_flt'' c_unsigned_long,
       Member ''inblock'' c_unsigned_long,
       Member ''oublock'' c_unsigned_long,
       Member ''cinblock'' c_unsigned_long,
       Member ''coublock'' c_unsigned_long,
       Member ''maxrss'' c_unsigned_long,
       Member ''cmaxrss'' c_unsigned_long,
       Member ''ioac'' struct_task_io_accounting,
       Member ''sum_sched_runtime'' c_unsigned_long_long,
       Member ''rlim'' (CArray struct_rlimit 16),
       Member ''pacct'' struct_pacct_struct,
       Member ''stats'' (CPtr ''struct taskstats''),
       Member ''audit_tty'' c_unsigned_int,
       Member ''tty_audit_buf'' (CPtr ''struct tty_audit_buf''),
       Member ''oom_flag_origin'' td_bool,
       Member ''oom_score_adj'' c_short,
       Member ''oom_score_adj_min'' c_short,
       Member ''oom_mm'' (CPtr ''struct mm_struct''),
       Member ''cred_guard_mutex'' struct_mutex,
       Member ''exec_update_lock'' struct_rw_semaphore]"

definition struct_percpu_ref :: ctype where
  "struct_percpu_ref =
    CStruct [Member ''percpu_count_ptr'' c_unsigned_long,
       Member ''data'' (CPtr ''struct percpu_ref_data'')]"

definition td_work_func_t :: ctype where
  "td_work_func_t =
    CPtr ''void (struct work_struct *)''"

definition struct_work_struct :: ctype where
  "struct_work_struct =
    CStruct [Member ''data'' td_atomic_long_t,
       Member ''entry'' struct_list_head,
       Member ''func'' td_work_func_t]"

definition struct_rcu_work :: ctype where
  "struct_rcu_work =
    CStruct [Member ''work'' struct_work_struct,
       Member ''rcu'' struct_callback_head,
       Member ''wq'' (CPtr ''struct workqueue_struct'')]"

definition struct_cgroup_subsys_state :: ctype where
  "struct_cgroup_subsys_state =
    CStruct [Member ''cgroup'' (CPtr ''struct cgroup''),
       Member ''ss'' (CPtr ''struct cgroup_subsys''),
       Member ''refcnt'' struct_percpu_ref,
       Member ''sibling'' struct_list_head,
       Member ''children'' struct_list_head,
       Member ''rstat_css_node'' struct_list_head,
       Member ''id'' c_int,
       Member ''flags'' c_unsigned_int,
       Member ''serial_nr'' td_u64,
       Member ''online_cnt'' td_atomic_t,
       Member ''destroy_work'' struct_work_struct,
       Member ''destroy_rwork'' struct_rcu_work,
       Member ''parent'' (CPtr ''struct cgroup_subsys_state'')]"

definition struct_cgroup_file :: ctype where
  "struct_cgroup_file =
    CStruct [Member ''kn'' (CPtr ''struct kernfs_node''),
       Member ''notified_at'' c_unsigned_long,
       Member ''notify_timer'' struct_timer_list]"

definition struct_task_cputime :: ctype where
  "struct_task_cputime =
    CStruct [Member ''stime'' td_u64,
       Member ''utime'' td_u64,
       Member ''sum_exec_runtime'' c_unsigned_long_long]"

definition struct_cgroup_base_stat :: ctype where
  "struct_cgroup_base_stat =
    CStruct [Member ''cputime'' struct_task_cputime]"

definition struct_cgroup_bpf :: ctype where
  "struct_cgroup_bpf =
    CStruct [Member ''effective'' (CArray (CPtr ''struct bpf_prog_array'') 33),
       Member ''progs'' (CArray struct_hlist_head 33),
       Member ''flags'' (CArray td_u8 33),
       Member ''storages'' struct_list_head,
       Member ''inactive'' (CPtr ''struct bpf_prog_array''),
       Member ''refcnt'' struct_percpu_ref,
       Member ''release_work'' struct_work_struct]"

definition struct_cgroup_freezer_state :: ctype where
  "struct_cgroup_freezer_state =
    CStruct [Member ''freeze'' td_bool,
       Member ''e_freeze'' c_int,
       Member ''nr_frozen_descendants'' c_int,
       Member ''nr_frozen_tasks'' c_int]"

definition struct_cgroup :: ctype where
  "struct_cgroup =
    CStruct [Member ''self'' struct_cgroup_subsys_state,
       Member ''flags'' c_unsigned_long,
       Member ''level'' c_int,
       Member ''max_depth'' c_int,
       Member ''nr_descendants'' c_int,
       Member ''nr_dying_descendants'' c_int,
       Member ''max_descendants'' c_int,
       Member ''nr_populated_csets'' c_int,
       Member ''nr_populated_domain_children'' c_int,
       Member ''nr_populated_threaded_children'' c_int,
       Member ''nr_threaded_children'' c_int,
       Member ''kill_seq'' c_unsigned_int,
       Member ''kn'' (CPtr ''struct kernfs_node''),
       Member ''procs_file'' struct_cgroup_file,
       Member ''events_file'' struct_cgroup_file,
       Member ''psi_files'' (CArray struct_cgroup_file 3),
       Member ''subtree_control'' td_u16,
       Member ''subtree_ss_mask'' td_u16,
       Member ''old_subtree_control'' td_u16,
       Member ''old_subtree_ss_mask'' td_u16,
       Member ''subsys'' (CArray (CPtr ''struct cgroup_subsys_state'') 14),
       Member ''root'' (CPtr ''struct cgroup_root''),
       Member ''cset_links'' struct_list_head,
       Member ''e_csets'' (CArray struct_list_head 14),
       Member ''dom_cgrp'' (CPtr ''struct cgroup''),
       Member ''old_dom_cgrp'' (CPtr ''struct cgroup''),
       Member ''rstat_cpu'' (CPtr ''struct cgroup_rstat_cpu''),
       Member ''rstat_css_list'' struct_list_head,
       Member ''last_bstat'' struct_cgroup_base_stat,
       Member ''bstat'' struct_cgroup_base_stat,
       Member ''prev_cputime'' struct_prev_cputime,
       Member ''pidlists'' struct_list_head,
       Member ''pidlist_mutex'' struct_mutex,
       Member ''offline_waitq'' td_wait_queue_head_t,
       Member ''release_agent_work'' struct_work_struct,
       Member ''psi'' (CPtr ''struct psi_group''),
       Member ''bpf'' struct_cgroup_bpf,
       Member ''congestion_count'' td_atomic_t,
       Member ''freezer'' struct_cgroup_freezer_state,
       Member ''ancestors'' (CArray (CPtr ''struct cgroup'') 0)]"

definition struct_css_set :: ctype where
  "struct_css_set =
    CStruct [Member ''subsys'' (CArray (CPtr ''struct cgroup_subsys_state'') 14),
       Member ''refcount'' td_refcount_t,
       Member ''dom_cset'' (CPtr ''struct css_set''),
       Member ''dfl_cgrp'' (CPtr ''struct cgroup''),
       Member ''nr_tasks'' c_int,
       Member ''tasks'' struct_list_head,
       Member ''mg_tasks'' struct_list_head,
       Member ''dying_tasks'' struct_list_head,
       Member ''task_iters'' struct_list_head,
       Member ''e_cset_node'' (CArray struct_list_head 14),
       Member ''threaded_csets'' struct_list_head,
       Member ''threaded_csets_node'' struct_list_head,
       Member ''hlist'' struct_hlist_node,
       Member ''cgrp_links'' struct_list_head,
       Member ''mg_src_preload_node'' struct_list_head,
       Member ''mg_dst_preload_node'' struct_list_head,
       Member ''mg_node'' struct_list_head,
       Member ''mg_src_cgrp'' (CPtr ''struct cgroup''),
       Member ''mg_dst_cgrp'' (CPtr ''struct cgroup''),
       Member ''mg_dst_cset'' (CPtr ''struct css_set''),
       Member ''dead'' td_bool,
       Member ''callback_head'' struct_callback_head]"

subsection \<open>Sizes and alignments\<close>

lemma struct_thread_info_layout [ctype_layout]:
  "layout struct_thread_info = (24, 8)" "wf_ctype struct_thread_info"
  by (simp_all add: struct_thread_info_def layout_rules ctype_layout del: One_nat_def)

lemma struct___call_single_node_layout [ctype_layout]:
  "layout struct___call_single_node = (16, 8)" "wf_ctype struct___call_single_node"
  by (simp_all add: struct___call_single_node_def layout_rules ctype_layout del: One_nat_def)

lemma struct_load_weight_layout [ctype_layout]:
  "layout struct_load_weight = (16, 8)" "wf_ctype struct_load_weight"
  by (simp_all add: struct_load_weight_def layout_rules ctype_layout del: One_nat_def)

lemma struct_util_est_layout [ctype_layout]:
  "layout struct_util_est = (8, 4)" "wf_ctype struct_util_est"
  by (simp_all add: struct_util_est_def layout_rules ctype_layout del: One_nat_def)

lemma struct_sched_avg_layout [ctype_layout]:
  "layout struct_sched_avg = (64, 8)" "wf_ctype struct_sched_avg"
  by (simp_all add: struct_sched_avg_def layout_rules ctype_layout del: One_nat_def)

lemma struct_sched_entity_layout [ctype_layout]:
  "layout struct_sched_entity = (256, 8)" "wf_ctype struct_sched_entity"
  by (simp_all add: struct_sched_entity_def layout_rules ctype_layout del: One_nat_def)

lemma struct_sched_rt_entity_layout [ctype_layout]:
  "layout struct_sched_rt_entity = (48, 8)" "wf_ctype struct_sched_rt_entity"
  by (simp_all add: struct_sched_rt_entity_def layout_rules ctype_layout del: One_nat_def)

lemma struct_sched_dl_entity_layout [ctype_layout]:
  "layout struct_sched_dl_entity = (224, 8)" "wf_ctype struct_sched_dl_entity"
  by (simp_all add: struct_sched_dl_entity_def layout_rules ctype_layout del: One_nat_def)

lemma struct_sched_statistics_layout [ctype_layout]:
  "layout struct_sched_statistics = (256, 8)" "wf_ctype struct_sched_statistics"
  by (simp_all add: struct_sched_statistics_def layout_rules ctype_layout del: One_nat_def)

lemma struct_hlist_head_layout [ctype_layout]:
  "layout struct_hlist_head = (8, 8)" "wf_ctype struct_hlist_head"
  by (simp_all add: struct_hlist_head_def layout_rules ctype_layout del: One_nat_def)

lemma struct_cpumask_layout [ctype_layout]:
  "layout struct_cpumask = (32, 8)" "wf_ctype struct_cpumask"
  by (simp_all add: struct_cpumask_def layout_rules ctype_layout del: One_nat_def)

lemma td_cpumask_t_layout [ctype_layout]:
  "layout td_cpumask_t = (32, 8)" "wf_ctype td_cpumask_t"
  by (simp_all add: td_cpumask_t_def layout_rules ctype_layout del: One_nat_def)

lemma union_rcu_special_layout [ctype_layout]:
  "layout union_rcu_special = (4, 4)" "wf_ctype union_rcu_special"
  by (simp_all add: union_rcu_special_def layout_rules ctype_layout del: One_nat_def)

lemma struct_sched_info_layout [ctype_layout]:
  "layout struct_sched_info = (32, 8)" "wf_ctype struct_sched_info"
  by (simp_all add: struct_sched_info_def layout_rules ctype_layout del: One_nat_def)

lemma struct_plist_node_layout [ctype_layout]:
  "layout struct_plist_node = (40, 8)" "wf_ctype struct_plist_node"
  by (simp_all add: struct_plist_node_def layout_rules ctype_layout del: One_nat_def)

lemma struct_task_rss_stat_layout [ctype_layout]:
  "layout struct_task_rss_stat = (20, 4)" "wf_ctype struct_task_rss_stat"
  by (simp_all add: struct_task_rss_stat_def layout_rules ctype_layout del: One_nat_def)

lemma td___kernel_clockid_t_layout [ctype_layout]:
  "layout td___kernel_clockid_t = (4, 4)" "wf_ctype td___kernel_clockid_t"
  by (simp_all add: td___kernel_clockid_t_def layout_rules ctype_layout del: One_nat_def)

lemma td_clockid_t_layout [ctype_layout]:
  "layout td_clockid_t = (4, 4)" "wf_ctype td_clockid_t"
  by (simp_all add: td_clockid_t_def layout_rules ctype_layout del: One_nat_def)

lemma enum_timespec_type_layout [ctype_layout]:
  "layout enum_timespec_type = (4, 4)" "wf_ctype enum_timespec_type"
  by (simp_all add: enum_timespec_type_def layout_rules ctype_layout del: One_nat_def)

lemma struct_restart_block_layout [ctype_layout]:
  "layout struct_restart_block = (56, 8)" "wf_ctype struct_restart_block"
  by (simp_all add: struct_restart_block_def layout_rules ctype_layout del: One_nat_def)

lemma td___kernel_pid_t_layout [ctype_layout]:
  "layout td___kernel_pid_t = (4, 4)" "wf_ctype td___kernel_pid_t"
  by (simp_all add: td___kernel_pid_t_def layout_rules ctype_layout del: One_nat_def)

lemma td_pid_t_layout [ctype_layout]:
  "layout td_pid_t = (4, 4)" "wf_ctype td_pid_t"
  by (simp_all add: td_pid_t_def layout_rules ctype_layout del: One_nat_def)

lemma td_raw_spinlock_t_layout [ctype_layout]:
  "layout td_raw_spinlock_t = (4, 4)" "wf_ctype td_raw_spinlock_t"
  by (simp_all add: td_raw_spinlock_t_def layout_rules ctype_layout del: One_nat_def)

lemma struct_prev_cputime_layout [ctype_layout]:
  "layout struct_prev_cputime = (24, 8)" "wf_ctype struct_prev_cputime"
  by (simp_all add: struct_prev_cputime_def layout_rules ctype_layout del: One_nat_def)

lemma struct_seqcount_layout [ctype_layout]:
  "layout struct_seqcount = (4, 4)" "wf_ctype struct_seqcount"
  by (simp_all add: struct_seqcount_def layout_rules ctype_layout del: One_nat_def)

lemma td_seqcount_t_layout [ctype_layout]:
  "layout td_seqcount_t = (4, 4)" "wf_ctype td_seqcount_t"
  by (simp_all add: td_seqcount_t_def layout_rules ctype_layout del: One_nat_def)

lemma enum_vtime_state_layout [ctype_layout]:
  "layout enum_vtime_state = (4, 4)" "wf_ctype enum_vtime_state"
  by (simp_all add: enum_vtime_state_def layout_rules ctype_layout del: One_nat_def)

lemma struct_vtime_layout [ctype_layout]:
  "layout struct_vtime = (48, 8)" "wf_ctype struct_vtime"
  by (simp_all add: struct_vtime_def layout_rules ctype_layout del: One_nat_def)

lemma struct_rb_root_cached_layout [ctype_layout]:
  "layout struct_rb_root_cached = (16, 8)" "wf_ctype struct_rb_root_cached"
  by (simp_all add: struct_rb_root_cached_def layout_rules ctype_layout del: One_nat_def)

lemma struct_timerqueue_head_layout [ctype_layout]:
  "layout struct_timerqueue_head = (16, 8)" "wf_ctype struct_timerqueue_head"
  by (simp_all add: struct_timerqueue_head_def layout_rules ctype_layout del: One_nat_def)

lemma struct_posix_cputimer_base_layout [ctype_layout]:
  "layout struct_posix_cputimer_base = (24, 8)" "wf_ctype struct_posix_cputimer_base"
  by (simp_all add: struct_posix_cputimer_base_def layout_rules ctype_layout del: One_nat_def)

lemma struct_posix_cputimers_layout [ctype_layout]:
  "layout struct_posix_cputimers = (80, 8)" "wf_ctype struct_posix_cputimers"
  by (simp_all add: struct_posix_cputimers_def layout_rules ctype_layout del: One_nat_def)

lemma td_atomic_long_t_layout [ctype_layout]:
  "layout td_atomic_long_t = (8, 8)" "wf_ctype td_atomic_long_t"
  by (simp_all add: td_atomic_long_t_def layout_rules ctype_layout del: One_nat_def)

lemma struct_optimistic_spin_queue_layout [ctype_layout]:
  "layout struct_optimistic_spin_queue = (4, 4)" "wf_ctype struct_optimistic_spin_queue"
  by (simp_all add: struct_optimistic_spin_queue_def layout_rules ctype_layout del: One_nat_def)

lemma struct_mutex_layout [ctype_layout]:
  "layout struct_mutex = (32, 8)" "wf_ctype struct_mutex"
  by (simp_all add: struct_mutex_def layout_rules ctype_layout del: One_nat_def)

lemma struct_posix_cputimers_work_layout [ctype_layout]:
  "layout struct_posix_cputimers_work = (56, 8)" "wf_ctype struct_posix_cputimers_work"
  by (simp_all add: struct_posix_cputimers_work_def layout_rules ctype_layout del: One_nat_def)

lemma struct_sysv_sem_layout [ctype_layout]:
  "layout struct_sysv_sem = (8, 8)" "wf_ctype struct_sysv_sem"
  by (simp_all add: struct_sysv_sem_def layout_rules ctype_layout del: One_nat_def)

lemma struct_sysv_shm_layout [ctype_layout]:
  "layout struct_sysv_shm = (16, 8)" "wf_ctype struct_sysv_shm"
  by (simp_all add: struct_sysv_shm_def layout_rules ctype_layout del: One_nat_def)

lemma td_sigset_t_layout [ctype_layout]:
  "layout td_sigset_t = (8, 8)" "wf_ctype td_sigset_t"
  by (simp_all add: td_sigset_t_def layout_rules ctype_layout del: One_nat_def)

lemma struct_sigpending_layout [ctype_layout]:
  "layout struct_sigpending = (24, 8)" "wf_ctype struct_sigpending"
  by (simp_all add: struct_sigpending_def layout_rules ctype_layout del: One_nat_def)

lemma struct_seccomp_layout [ctype_layout]:
  "layout struct_seccomp = (16, 8)" "wf_ctype struct_seccomp"
  by (simp_all add: struct_seccomp_def layout_rules ctype_layout del: One_nat_def)

lemma struct_syscall_user_dispatch_layout [ctype_layout]:
  "layout struct_syscall_user_dispatch = (0, 1)" "wf_ctype struct_syscall_user_dispatch"
  by (simp_all add: struct_syscall_user_dispatch_def layout_rules ctype_layout del: One_nat_def)

lemma struct_wake_q_node_layout [ctype_layout]:
  "layout struct_wake_q_node = (8, 8)" "wf_ctype struct_wake_q_node"
  by (simp_all add: struct_wake_q_node_def layout_rules ctype_layout del: One_nat_def)

lemma struct_task_io_accounting_layout [ctype_layout]:
  "layout struct_task_io_accounting = (56, 8)" "wf_ctype struct_task_io_accounting"
  by (simp_all add: struct_task_io_accounting_def layout_rules ctype_layout del: One_nat_def)

lemma td_nodemask_t_layout [ctype_layout]:
  "layout td_nodemask_t = (8, 8)" "wf_ctype td_nodemask_t"
  by (simp_all add: td_nodemask_t_def layout_rules ctype_layout del: One_nat_def)

lemma struct_seqcount_spinlock_layout [ctype_layout]:
  "layout struct_seqcount_spinlock = (4, 4)" "wf_ctype struct_seqcount_spinlock"
  by (simp_all add: struct_seqcount_spinlock_def layout_rules ctype_layout del: One_nat_def)

lemma td_seqcount_spinlock_t_layout [ctype_layout]:
  "layout td_seqcount_spinlock_t = (4, 4)" "wf_ctype td_seqcount_spinlock_t"
  by (simp_all add: td_seqcount_spinlock_t_def layout_rules ctype_layout del: One_nat_def)

lemma struct_tlbflush_unmap_batch_layout [ctype_layout]:
  "layout struct_tlbflush_unmap_batch = (0, 1)" "wf_ctype struct_tlbflush_unmap_batch"
  by (simp_all add: struct_tlbflush_unmap_batch_def layout_rules ctype_layout del: One_nat_def)

lemma struct_kmap_ctrl_layout [ctype_layout]:
  "layout struct_kmap_ctrl = (0, 1)" "wf_ctype struct_kmap_ctrl"
  by (simp_all add: struct_kmap_ctrl_def layout_rules ctype_layout del: One_nat_def)

lemma struct_llist_head_layout [ctype_layout]:
  "layout struct_llist_head = (8, 8)" "wf_ctype struct_llist_head"
  by (simp_all add: struct_llist_head_def layout_rules ctype_layout del: One_nat_def)

lemma struct_cpu_context_layout [ctype_layout]:
  "layout struct_cpu_context = (104, 8)" "wf_ctype struct_cpu_context"
  by (simp_all add: struct_cpu_context_def layout_rules ctype_layout del: One_nat_def)

lemma struct_user_fpsimd_state_layout [ctype_layout]:
  "layout struct_user_fpsimd_state = (528, 16)" "wf_ctype struct_user_fpsimd_state"
  by (simp_all add: struct_user_fpsimd_state_def layout_rules ctype_layout del: One_nat_def)

lemma enum_fp_type_layout [ctype_layout]:
  "layout enum_fp_type = (4, 4)" "wf_ctype enum_fp_type"
  by (simp_all add: enum_fp_type_def layout_rules ctype_layout del: One_nat_def)

lemma struct_debug_info_layout [ctype_layout]:
  "layout struct_debug_info = (272, 8)" "wf_ctype struct_debug_info"
  by (simp_all add: struct_debug_info_def layout_rules ctype_layout del: One_nat_def)

lemma struct_ptrauth_key_layout [ctype_layout]:
  "layout struct_ptrauth_key = (16, 8)" "wf_ctype struct_ptrauth_key"
  by (simp_all add: struct_ptrauth_key_def layout_rules ctype_layout del: One_nat_def)

lemma struct_ptrauth_keys_user_layout [ctype_layout]:
  "layout struct_ptrauth_keys_user = (80, 8)" "wf_ctype struct_ptrauth_keys_user"
  by (simp_all add: struct_ptrauth_keys_user_def layout_rules ctype_layout del: One_nat_def)

lemma struct_ptrauth_keys_kernel_layout [ctype_layout]:
  "layout struct_ptrauth_keys_kernel = (16, 8)" "wf_ctype struct_ptrauth_keys_kernel"
  by (simp_all add: struct_ptrauth_keys_kernel_def layout_rules ctype_layout del: One_nat_def)

lemma struct_thread_struct_layout [ctype_layout]:
  "layout struct_thread_struct = (1120, 16)" "wf_ctype struct_thread_struct"
  by (simp_all add: struct_thread_struct_def layout_rules ctype_layout del: One_nat_def)

lemma struct_task_struct_layout [ctype_layout]:
  "layout struct_task_struct = (4160, 16)" "wf_ctype struct_task_struct"
  by (simp_all add: struct_task_struct_def layout_rules ctype_layout del: One_nat_def)

lemma td___kernel_gid32_t_layout [ctype_layout]:
  "layout td___kernel_gid32_t = (4, 4)" "wf_ctype td___kernel_gid32_t"
  by (simp_all add: td___kernel_gid32_t_def layout_rules ctype_layout del: One_nat_def)

lemma td_gid_t_layout [ctype_layout]:
  "layout td_gid_t = (4, 4)" "wf_ctype td_gid_t"
  by (simp_all add: td_gid_t_def layout_rules ctype_layout del: One_nat_def)

lemma td_kgid_t_layout [ctype_layout]:
  "layout td_kgid_t = (4, 4)" "wf_ctype td_kgid_t"
  by (simp_all add: td_kgid_t_def layout_rules ctype_layout del: One_nat_def)

lemma struct_kernel_cap_struct_layout [ctype_layout]:
  "layout struct_kernel_cap_struct = (8, 4)" "wf_ctype struct_kernel_cap_struct"
  by (simp_all add: struct_kernel_cap_struct_def layout_rules ctype_layout del: One_nat_def)

lemma td_kernel_cap_t_layout [ctype_layout]:
  "layout td_kernel_cap_t = (8, 4)" "wf_ctype td_kernel_cap_t"
  by (simp_all add: td_kernel_cap_t_def layout_rules ctype_layout del: One_nat_def)

lemma struct_cred_layout [ctype_layout]:
  "layout struct_cred = (176, 8)" "wf_ctype struct_cred"
  by (simp_all add: struct_cred_def layout_rules ctype_layout del: One_nat_def)

lemma struct_upid_layout [ctype_layout]:
  "layout struct_upid = (16, 8)" "wf_ctype struct_upid"
  by (simp_all add: struct_upid_def layout_rules ctype_layout del: One_nat_def)

lemma struct_pid_layout [ctype_layout]:
  "layout struct_pid = (96, 8)" "wf_ctype struct_pid"
  by (simp_all add: struct_pid_def layout_rules ctype_layout del: One_nat_def)

lemma struct_cpu_itimer_layout [ctype_layout]:
  "layout struct_cpu_itimer = (16, 8)" "wf_ctype struct_cpu_itimer"
  by (simp_all add: struct_cpu_itimer_def layout_rules ctype_layout del: One_nat_def)

lemma struct_task_cputime_atomic_layout [ctype_layout]:
  "layout struct_task_cputime_atomic = (24, 8)" "wf_ctype struct_task_cputime_atomic"
  by (simp_all add: struct_task_cputime_atomic_def layout_rules ctype_layout del: One_nat_def)

lemma struct_thread_group_cputimer_layout [ctype_layout]:
  "layout struct_thread_group_cputimer = (24, 8)" "wf_ctype struct_thread_group_cputimer"
  by (simp_all add: struct_thread_group_cputimer_def layout_rules ctype_layout del: One_nat_def)

lemma td_seqlock_t_layout [ctype_layout]:
  "layout td_seqlock_t = (8, 4)" "wf_ctype td_seqlock_t"
  by (simp_all add: td_seqlock_t_def layout_rules ctype_layout del: One_nat_def)

lemma struct_rlimit_layout [ctype_layout]:
  "layout struct_rlimit = (16, 8)" "wf_ctype struct_rlimit"
  by (simp_all add: struct_rlimit_def layout_rules ctype_layout del: One_nat_def)

lemma struct_pacct_struct_layout [ctype_layout]:
  "layout struct_pacct_struct = (56, 8)" "wf_ctype struct_pacct_struct"
  by (simp_all add: struct_pacct_struct_def layout_rules ctype_layout del: One_nat_def)

lemma struct_rw_semaphore_layout [ctype_layout]:
  "layout struct_rw_semaphore = (40, 8)" "wf_ctype struct_rw_semaphore"
  by (simp_all add: struct_rw_semaphore_def layout_rules ctype_layout del: One_nat_def)

lemma struct_signal_struct_layout [ctype_layout]:
  "layout struct_signal_struct = (1112, 8)" "wf_ctype struct_signal_struct"
  by (simp_all add: struct_signal_struct_def layout_rules ctype_layout del: One_nat_def)

lemma struct_percpu_ref_layout [ctype_layout]:
  "layout struct_percpu_ref = (16, 8)" "wf_ctype struct_percpu_ref"
  by (simp_all add: struct_percpu_ref_def layout_rules ctype_layout del: One_nat_def)

lemma td_work_func_t_layout [ctype_layout]:
  "layout td_work_func_t = (8, 8)" "wf_ctype td_work_func_t"
  by (simp_all add: td_work_func_t_def layout_rules ctype_layout del: One_nat_def)

lemma struct_work_struct_layout [ctype_layout]:
  "layout struct_work_struct = (32, 8)" "wf_ctype struct_work_struct"
  by (simp_all add: struct_work_struct_def layout_rules ctype_layout del: One_nat_def)

lemma struct_rcu_work_layout [ctype_layout]:
  "layout struct_rcu_work = (56, 8)" "wf_ctype struct_rcu_work"
  by (simp_all add: struct_rcu_work_def layout_rules ctype_layout del: One_nat_def)

lemma struct_cgroup_subsys_state_layout [ctype_layout]:
  "layout struct_cgroup_subsys_state = (200, 8)" "wf_ctype struct_cgroup_subsys_state"
  by (simp_all add: struct_cgroup_subsys_state_def layout_rules ctype_layout del: One_nat_def)

lemma struct_cgroup_file_layout [ctype_layout]:
  "layout struct_cgroup_file = (56, 8)" "wf_ctype struct_cgroup_file"
  by (simp_all add: struct_cgroup_file_def layout_rules ctype_layout del: One_nat_def)

lemma struct_task_cputime_layout [ctype_layout]:
  "layout struct_task_cputime = (24, 8)" "wf_ctype struct_task_cputime"
  by (simp_all add: struct_task_cputime_def layout_rules ctype_layout del: One_nat_def)

lemma struct_cgroup_base_stat_layout [ctype_layout]:
  "layout struct_cgroup_base_stat = (24, 8)" "wf_ctype struct_cgroup_base_stat"
  by (simp_all add: struct_cgroup_base_stat_def layout_rules ctype_layout del: One_nat_def)

lemma struct_cgroup_bpf_layout [ctype_layout]:
  "layout struct_cgroup_bpf = (640, 8)" "wf_ctype struct_cgroup_bpf"
  by (simp_all add: struct_cgroup_bpf_def layout_rules ctype_layout del: One_nat_def)

lemma struct_cgroup_freezer_state_layout [ctype_layout]:
  "layout struct_cgroup_freezer_state = (16, 4)" "wf_ctype struct_cgroup_freezer_state"
  by (simp_all add: struct_cgroup_freezer_state_def layout_rules ctype_layout del: One_nat_def)

lemma struct_cgroup_layout [ctype_layout]:
  "layout struct_cgroup = (1792, 8)" "wf_ctype struct_cgroup"
  by (simp_all add: struct_cgroup_def layout_rules ctype_layout del: One_nat_def)

lemma struct_css_set_layout [ctype_layout]:
  "layout struct_css_set = (592, 8)" "wf_ctype struct_css_set"
  by (simp_all add: struct_css_set_def layout_rules ctype_layout del: One_nat_def)

end
