(* ===== verification/Kernel_Bpf.thy ===== *)
theory Kernel_Bpf
  imports Kernel_Task
begin

text \<open>
  The kernel side of the BPF objects the program declares: the ring buffer, the hash map with
  its LRU nodes, the program and probe descriptors, and the enumerations that name map
  types, helpers and commands, as declared in \<^verbatim>\<open>vmlinux.h\<close>.
\<close>

subsection \<open>Declarations\<close>

definition struct_rcuwait :: ctype where
  "struct_rcuwait =
    CStruct [Member ''task'' (CPtr ''struct task_struct'')]"

definition struct_irq_work :: ctype where
  "struct_irq_work =
    CStruct [Member ''node'' struct___call_single_node,
       Member ''func'' (CPtr ''void (struct irq_work *)''),
       Member ''irqwait'' struct_rcuwait]"

definition struct_bpf_ringbuf :: ctype where
  "struct_bpf_ringbuf =
    CStruct (
      [Member ''waitq'' td_wait_queue_head_t,
       Member ''work'' struct_irq_work,
       Member ''mask'' td_u64,
       Member ''pages'' (CPtr ''struct page *''),
       Member ''nr_pages'' c_int,
       BitField '''' c_long 64,
       BitField '''' c_long 64,
       BitField '''' c_long 64,
       BitField '''' c_long 64,
       BitField '''' c_long 64,
       BitField '''' c_long 64,
       Member ''spinlock'' td_raw_spinlock_t,
       BitField '''' c_long 64,
       BitField '''' c_long 64,
       BitField '''' c_long 64,
       BitField '''' c_long 64,
       BitField '''' c_long 64,
       BitField '''' c_long 64,
       BitField '''' c_long 64,
       Member ''busy'' td_atomic_t] @
      replicate 487 (BitField '''' c_long 64) @
      [Member ''consumer_pos'' c_unsigned_long] @
      replicate 511 (BitField '''' c_long 64) @
      [Member ''producer_pos'' c_unsigned_long,
       Member ''pending_pos'' c_unsigned_long] @
      replicate 510 (BitField '''' c_long 64) @
      [Member ''data'' (CArray c_char 0)])"

definition enum_bpf_map_type :: ctype where
  "enum_bpf_map_type =
    CEnum [(''BPF_MAP_TYPE_UNSPEC'', 0),
      (''BPF_MAP_TYPE_HASH'', 1),
      (''BPF_MAP_TYPE_ARRAY'', 2),
      (''BPF_MAP_TYPE_PROG_ARRAY'', 3),
      (''BPF_MAP_TYPE_PERF_EVENT_ARRAY'', 4),
      (''BPF_MAP_TYPE_PERCPU_HASH'', 5),
      (''BPF_MAP_TYPE_PERCPU_ARRAY'', 6),
      (''BPF_MAP_TYPE_STACK_TRACE'', 7),
      (''BPF_MAP_TYPE_CGROUP_ARRAY'', 8),
      (''BPF_MAP_TYPE_LRU_HASH'', 9),
      (''BPF_MAP_TYPE_LRU_PERCPU_HASH'', 10),
      (''BPF_MAP_TYPE_LPM_TRIE'', 11),
      (''BPF_MAP_TYPE_ARRAY_OF_MAPS'', 12),
      (''BPF_MAP_TYPE_HASH_OF_MAPS'', 13),
      (''BPF_MAP_TYPE_DEVMAP'', 14),
      (''BPF_MAP_TYPE_SOCKMAP'', 15),
      (''BPF_MAP_TYPE_CPUMAP'', 16),
      (''BPF_MAP_TYPE_XSKMAP'', 17),
      (''BPF_MAP_TYPE_SOCKHASH'', 18),
      (''BPF_MAP_TYPE_CGROUP_STORAGE'', 19),
      (''BPF_MAP_TYPE_REUSEPORT_SOCKARRAY'', 20),
      (''BPF_MAP_TYPE_PERCPU_CGROUP_STORAGE'', 21),
      (''BPF_MAP_TYPE_QUEUE'', 22),
      (''BPF_MAP_TYPE_STACK'', 23),
      (''BPF_MAP_TYPE_SK_STORAGE'', 24),
      (''BPF_MAP_TYPE_DEVMAP_HASH'', 25),
      (''BPF_MAP_TYPE_STRUCT_OPS'', 26),
      (''BPF_MAP_TYPE_RINGBUF'', 27),
      (''BPF_MAP_TYPE_INODE_STORAGE'', 28),
      (''BPF_MAP_TYPE_TASK_STORAGE'', 29),
      (''BPF_MAP_TYPE_BLOOM_FILTER'', 30),
      (''BPF_MAP_TYPE_USER_RINGBUF'', 31)]"

definition struct_bpf_map :: ctype where
  "struct_bpf_map =
    CStruct [Member ''ops'' (CPtr ''struct bpf_map_ops''),
       Member ''inner_map_meta'' (CPtr ''struct bpf_map''),
       Member ''security'' (CPtr ''void''),
       Member ''map_type'' enum_bpf_map_type,
       Member ''key_size'' td_u32,
       Member ''value_size'' td_u32,
       Member ''max_entries'' td_u32,
       Member ''map_extra'' td_u64,
       Member ''map_flags'' td_u32,
       Member ''spin_lock_off'' c_int,
       Member ''kptr_off_tab'' (CPtr ''struct bpf_map_value_off''),
       Member ''timer_off'' c_int,
       Member ''id'' td_u32,
       Member ''numa_node'' c_int,
       Member ''btf_key_type_id'' td_u32,
       Member ''btf_value_type_id'' td_u32,
       Member ''btf_vmlinux_value_type_id'' td_u32,
       Member ''btf'' (CPtr ''struct btf''),
       Member ''objcg'' (CPtr ''struct obj_cgroup''),
       Member ''name'' (CArray c_char 16),
       Member ''off_arr'' (CPtr ''struct bpf_map_off_arr''),
       Member ''refcnt'' td_atomic64_t,
       Member ''usercnt'' td_atomic64_t,
       Member '''' (CUnion [Member ''work'' struct_work_struct,
          Member ''rcu'' struct_callback_head]),
       Member ''freeze_mutex'' struct_mutex,
       Member ''writecnt'' td_atomic64_t,
       Member ''owner_lock'' td_spinlock_t,
       Member ''owner'' (CPtr ''struct bpf_map_owner''),
       Member ''bypass_spec_v1'' td_bool,
       Member ''frozen'' td_bool,
       Member ''free_after_mult_rcu_gp'' td_bool,
       Member ''elem_count'' (CPtr ''s64''),
       Member ''cookie'' td_u64]"

definition struct_bpf_ringbuf_map :: ctype where
  "struct_bpf_ringbuf_map =
    CStruct [Member ''map'' struct_bpf_map,
       Member ''rb'' (CPtr ''struct bpf_ringbuf''),
       BitField '''' c_long 64,
       BitField '''' c_long 64,
       BitField '''' c_long 64,
       BitField '''' c_long 64,
       BitField '''' c_long 64,
       BitField '''' c_long 64,
       BitField '''' c_long 64]"

definition struct_bpf_mem_alloc :: ctype where
  "struct_bpf_mem_alloc =
    CStruct [Member ''caches'' (CPtr ''struct bpf_mem_caches''),
       Member ''cache'' (CPtr ''struct bpf_mem_cache''),
       Member ''work'' struct_work_struct]"

definition struct_pcpu_freelist_head :: ctype where
  "struct_pcpu_freelist_head =
    CStruct [Member ''first'' (CPtr ''struct pcpu_freelist_node''),
       Member ''lock'' td_raw_spinlock_t]"

definition struct_pcpu_freelist :: ctype where
  "struct_pcpu_freelist =
    CStruct [Member ''freelist'' (CPtr ''struct pcpu_freelist_head''),
       Member ''extralist'' struct_pcpu_freelist_head]"

definition struct_bpf_lru_list :: ctype where
  "struct_bpf_lru_list =
    CStruct [Member ''lists'' (CArray struct_list_head 3),
       Member ''counts'' (CArray c_unsigned_int 2),
       Member ''next_inactive_rotation'' (CPtr ''struct list_head''),
       Member ''lock'' td_raw_spinlock_t,
       BitField '''' c_long 64,
       BitField '''' c_long 64,
       BitField '''' c_long 64,
       BitField '''' c_long 64,
       BitField '''' c_long 64,
       BitField '''' c_long 64,
       BitField '''' c_long 64]"

definition struct_bpf_common_lru :: ctype where
  "struct_bpf_common_lru =
    CStruct [Member ''lru_list'' struct_bpf_lru_list,
       Member ''local_list'' (CPtr ''struct bpf_lru_locallist''),
       BitField '''' c_long 64,
       BitField '''' c_long 64,
       BitField '''' c_long 64,
       BitField '''' c_long 64,
       BitField '''' c_long 64,
       BitField '''' c_long 64,
       BitField '''' c_long 64]"

definition td_del_from_htab_func :: ctype where
  "td_del_from_htab_func =
    CPtr ''bool (void *, struct bpf_lru_node *)''"

definition struct_bpf_lru :: ctype where
  "struct_bpf_lru =
    CStruct [Member '''' (CUnion [Member ''common_lru'' struct_bpf_common_lru,
          Member ''percpu_lru'' (CPtr ''struct bpf_lru_list'')]),
       Member ''del_from_htab'' td_del_from_htab_func,
       Member ''del_arg'' (CPtr ''void''),
       Member ''hash_offset'' c_unsigned_int,
       Member ''nr_scans'' c_unsigned_int,
       Member ''percpu'' td_bool,
       BitField '''' c_long 64,
       BitField '''' c_long 64,
       BitField '''' c_long 64,
       BitField '''' c_long 64]"

definition struct_percpu_counter :: ctype where
  "struct_percpu_counter =
    CStruct [Member ''lock'' td_raw_spinlock_t,
       Member ''count'' td_s64,
       Member ''list'' struct_list_head,
       Member ''counters'' (CPtr ''s32'')]"

definition struct_lock_class_key :: ctype where
  "struct_lock_class_key =
    CStruct []"

definition struct_bpf_htab :: ctype where
  "struct_bpf_htab =
    CStruct [Member ''map'' struct_bpf_map,
       Member ''ma'' struct_bpf_mem_alloc,
       Member ''pcpu_ma'' struct_bpf_mem_alloc,
       Member ''buckets'' (CPtr ''struct bucket''),
       Member ''elems'' (CPtr ''void''),
       BitField '''' c_long 64,
       BitField '''' c_long 64,
       Member '''' (CUnion [Member ''freelist'' struct_pcpu_freelist,
          Member ''lru'' struct_bpf_lru]),
       Member ''extra_elems'' (CPtr ''struct htab_elem *''),
       Member ''pcount'' struct_percpu_counter,
       Member ''count'' td_atomic_t,
       Member ''use_percpu_counter'' td_bool,
       Member ''n_buckets'' td_u32,
       Member ''elem_size'' td_u32,
       Member ''hashrnd'' td_u32,
       Member ''lockdep_key'' struct_lock_class_key,
       Member ''map_locked'' (CArray (CPtr ''int'') 8),
       BitField '''' c_long 64,
       BitField '''' c_long 64,
       BitField '''' c_long 64,
       BitField '''' c_long 64,
       BitField '''' c_long 64,
       BitField '''' c_long 64,
       BitField '''' c_long 64]"

definition struct_bpf_lru_node :: ctype where
  "struct_bpf_lru_node =
    CStruct [Member ''list'' struct_list_head,
       Member ''cpu'' td_u16,
       Member ''type'' td_u8,
       Member ''ref'' td_u8]"

definition enum_bpf_prog_type :: ctype where
  "enum_bpf_prog_type =
    CEnum [(''BPF_PROG_TYPE_UNSPEC'', 0),
      (''BPF_PROG_TYPE_SOCKET_FILTER'', 1),
      (''BPF_PROG_TYPE_KPROBE'', 2),
      (''BPF_PROG_TYPE_SCHED_CLS'', 3),
      (''BPF_PROG_TYPE_SCHED_ACT'', 4),
      (''BPF_PROG_TYPE_TRACEPOINT'', 5),
      (''BPF_PROG_TYPE_XDP'', 6),
      (''BPF_PROG_TYPE_PERF_EVENT'', 7),
      (''BPF_PROG_TYPE_CGROUP_SKB'', 8),
      (''BPF_PROG_TYPE_CGROUP_SOCK'', 9),
      (''BPF_PROG_TYPE_LWT_IN'', 10),
      (''BPF_PROG_TYPE_LWT_OUT'', 11),
      (''BPF_PROG_TYPE_LWT_XMIT'', 12),
      (''BPF_PROG_TYPE_SOCK_OPS'', 13),
      (''BPF_PROG_TYPE_SK_SKB'', 14),
      (''BPF_PROG_TYPE_CGROUP_DEVICE'', 15),
      (''BPF_PROG_TYPE_SK_MSG'', 16),
      (''BPF_PROG_TYPE_RAW_TRACEPOINT'', 17),
      (''BPF_PROG_TYPE_CGROUP_SOCK_ADDR'', 18),
      (''BPF_PROG_TYPE_LWT_SEG6LOCAL'', 19),
      (''BPF_PROG_TYPE_LIRC_MODE2'', 20),
      (''BPF_PROG_TYPE_SK_REUSEPORT'', 21),
      (''BPF_PROG_TYPE_FLOW_DISSECTOR'', 22),
      (''BPF_PROG_TYPE_CGROUP_SYSCTL'', 23),
      (''BPF_PROG_TYPE_RAW_TRACEPOINT_WRITABLE'', 24),
      (''BPF_PROG_TYPE_CGROUP_SOCKOPT'', 25),
      (''BPF_PROG_TYPE_TRACING'', 26),
      (''BPF_PROG_TYPE_STRUCT_OPS'', 27),
      (''BPF_PROG_TYPE_EXT'', 28),
      (''BPF_PROG_TYPE_LSM'', 29),
      (''BPF_PROG_TYPE_SK_LOOKUP'', 30),
      (''BPF_PROG_TYPE_SYSCALL'', 31)]"

definition enum_bpf_attach_type :: ctype where
  "enum_bpf_attach_type =
    CEnum [(''BPF_CGROUP_INET_INGRESS'', 0),
      (''BPF_CGROUP_INET_EGRESS'', 1),
      (''BPF_CGROUP_INET_SOCK_CREATE'', 2),
      (''BPF_CGROUP_SOCK_OPS'', 3),
      (''BPF_SK_SKB_STREAM_PARSER'', 4),
      (''BPF_SK_SKB_STREAM_VERDICT'', 5),
      (''BPF_CGROUP_DEVICE'', 6),
      (''BPF_SK_MSG_VERDICT'', 7),
      (''BPF_CGROUP_INET4_BIND'', 8),
      (''BPF_CGROUP_INET6_BIND'', 9),
      (''BPF_CGROUP_INET4_CONNECT'', 10),
      (''BPF_CGROUP_INET6_CONNECT'', 11),
      (''BPF_CGROUP_INET4_POST_BIND'', 12),
      (''BPF_CGROUP_INET6_POST_BIND'', 13),
      (''BPF_CGROUP_UDP4_SENDMSG'', 14),
      (''BPF_CGROUP_UDP6_SENDMSG'', 15),
      (''BPF_LIRC_MODE2'', 16),
      (''BPF_FLOW_DISSECTOR'', 17),
      (''BPF_CGROUP_SYSCTL'', 18),
      (''BPF_CGROUP_UDP4_RECVMSG'', 19),
      (''BPF_CGROUP_UDP6_RECVMSG'', 20),
      (''BPF_CGROUP_GETSOCKOPT'', 21),
      (''BPF_CGROUP_SETSOCKOPT'', 22),
      (''BPF_TRACE_RAW_TP'', 23),
      (''BPF_TRACE_FENTRY'', 24),
      (''BPF_TRACE_FEXIT'', 25),
      (''BPF_MODIFY_RETURN'', 26),
      (''BPF_LSM_MAC'', 27),
      (''BPF_TRACE_ITER'', 28),
      (''BPF_CGROUP_INET4_GETPEERNAME'', 29),
      (''BPF_CGROUP_INET6_GETPEERNAME'', 30),
      (''BPF_CGROUP_INET4_GETSOCKNAME'', 31),
      (''BPF_CGROUP_INET6_GETSOCKNAME'', 32),
      (''BPF_XDP_DEVMAP'', 33),
      (''BPF_CGROUP_INET_SOCK_RELEASE'', 34),
      (''BPF_XDP_CPUMAP'', 35),
      (''BPF_SK_LOOKUP'', 36),
      (''BPF_XDP'', 37),
      (''BPF_SK_SKB_VERDICT'', 38),
      (''BPF_SK_REUSEPORT_SELECT'', 39),
      (''BPF_SK_REUSEPORT_SELECT_OR_MIGRATE'', 40),
      (''BPF_PERF_EVENT'', 41),
      (''BPF_TRACE_KPROBE_MULTI'', 42),
      (''BPF_LSM_CGROUP'', 43),
      (''__MAX_BPF_ATTACH_TYPE'', 44)]"

definition struct_sock_filter :: ctype where
  "struct_sock_filter =
    CStruct [Member ''code'' td___u16,
       Member ''jt'' td___u8,
       Member ''jf'' td___u8,
       Member ''k'' td___u32]"

definition struct_bpf_insn :: ctype where
  "struct_bpf_insn =
    CStruct [Member ''code'' td___u8,
       BitField ''dst_reg'' td___u8 4,
       BitField ''src_reg'' td___u8 4,
       Member ''off'' td___s16,
       Member ''imm'' td___s32]"

definition struct_bpf_prog :: ctype where
  "struct_bpf_prog =
    CStruct [Member ''pages'' td_u16,
       BitField ''jited'' td_u16 1,
       BitField ''jit_requested'' td_u16 1,
       BitField ''gpl_compatible'' td_u16 1,
       BitField ''cb_access'' td_u16 1,
       BitField ''dst_needed'' td_u16 1,
       BitField ''blinding_requested'' td_u16 1,
       BitField ''blinded'' td_u16 1,
       BitField ''is_func'' td_u16 1,
       BitField ''kprobe_override'' td_u16 1,
       BitField ''has_callchain_buf'' td_u16 1,
       BitField ''enforce_expected_attach_type'' td_u16 1,
       BitField ''call_get_stack'' td_u16 1,
       BitField ''call_get_func_ip'' td_u16 1,
       BitField ''tstamp_type_access'' td_u16 1,
       Member ''type'' enum_bpf_prog_type,
       Member ''expected_attach_type'' enum_bpf_attach_type,
       Member ''len'' td_u32,
       Member ''jited_len'' td_u32,
       Member ''tag'' (CArray td_u8 8),
       Member ''stats'' (CPtr ''struct bpf_prog_stats''),
       Member ''active'' (CPtr ''int''),
       Member ''bpf_func'' (CPtr ''unsigned int (const void *, const struct bpf_insn *)''),
       Member ''aux'' (CPtr ''struct bpf_prog_aux''),
       Member ''orig_prog'' (CPtr ''struct sock_fprog_kern''),
       Member '''' (CUnion [Member '''' (CStruct [Member ''__empty_insns'' (CStruct []),
             Member ''insns'' (CArray struct_sock_filter 0)]),
          Member '''' (CStruct [Member ''__empty_insnsi'' (CStruct []),
             Member ''insnsi'' (CArray struct_bpf_insn 0)])])]"

definition struct_latch_tree_node :: ctype where
  "struct_latch_tree_node =
    CStruct [Member ''node'' (CArray struct_rb_node 2)]"

definition struct_bpf_ksym :: ctype where
  "struct_bpf_ksym =
    CStruct [Member ''start'' c_unsigned_long,
       Member ''end'' c_unsigned_long,
       Member ''name'' (CArray c_char 512),
       Member ''lnode'' struct_list_head,
       Member ''tnode'' struct_latch_tree_node,
       Member ''prog'' td_bool]"

definition struct_bpf_prog_aux :: ctype where
  "struct_bpf_prog_aux =
    CStruct [Member ''refcnt'' td_atomic64_t,
       Member ''used_map_cnt'' td_u32,
       Member ''used_btf_cnt'' td_u32,
       Member ''max_ctx_offset'' td_u32,
       Member ''max_pkt_offset'' td_u32,
       Member ''max_tp_access'' td_u32,
       Member ''stack_depth'' td_u32,
       Member ''id'' td_u32,
       Member ''func_cnt'' td_u32,
       Member ''func_idx'' td_u32,
       Member ''attach_btf_id'' td_u32,
       Member ''ctx_arg_info_size'' td_u32,
       Member ''max_rdonly_access'' td_u32,
       Member ''max_rdwr_access'' td_u32,
       Member ''attach_btf'' (CPtr ''struct btf''),
       Member ''ctx_arg_info'' (CPtr ''struct bpf_ctx_arg_aux''),
       Member ''dst_mutex'' struct_mutex,
       Member ''dst_prog'' (CPtr ''struct bpf_prog''),
       Member ''dst_trampoline'' (CPtr ''struct bpf_trampoline''),
       Member ''saved_dst_prog_type'' enum_bpf_prog_type,
       Member ''saved_dst_attach_type'' enum_bpf_attach_type,
       Member ''verifier_zext'' td_bool,
       Member ''offload_requested'' td_bool,
       Member ''attach_btf_trace'' td_bool,
       Member ''func_proto_unreliable'' td_bool,
       Member ''sleepable'' td_bool,
       Member ''tail_call_reachable'' td_bool,
       Member ''xdp_has_frags'' td_bool,
       Member ''attach_func_proto'' (CPtr ''struct btf_type''),
       Member ''attach_func_name'' (CPtr ''char''),
       Member ''func'' (CPtr ''struct bpf_prog *''),
       Member ''jit_data'' (CPtr ''void''),
       Member ''poke_tab'' (CPtr ''struct bpf_jit_poke_descriptor''),
       Member ''kfunc_tab'' (CPtr ''struct bpf_kfunc_desc_tab''),
       Member ''kfunc_btf_tab'' (CPtr ''struct bpf_kfunc_btf_tab''),
       Member ''size_poke_tab'' td_u32,
       Member ''ksym'' struct_bpf_ksym,
       Member ''ops'' (CPtr ''struct bpf_prog_ops''),
       Member ''used_maps'' (CPtr ''struct bpf_map *''),
       Member ''used_maps_mutex'' struct_mutex,
       Member ''used_btfs'' (CPtr ''struct btf_mod_pair''),
       Member ''prog'' (CPtr ''struct bpf_prog''),
       Member ''user'' (CPtr ''struct user_struct''),
       Member ''load_time'' td_u64,
       Member ''verified_insns'' td_u32,
       Member ''cgroup_atype'' c_int,
       Member ''cgroup_storage'' (CArray (CPtr ''struct bpf_map'') 2),
       Member ''name'' (CArray c_char 16),
       Member ''security'' (CPtr ''void''),
       Member ''offload'' (CPtr ''struct bpf_prog_offload''),
       Member ''btf'' (CPtr ''struct btf''),
       Member ''func_info'' (CPtr ''struct bpf_func_info''),
       Member ''func_info_aux'' (CPtr ''struct bpf_func_info_aux''),
       Member ''linfo'' (CPtr ''struct bpf_line_info''),
       Member ''jited_linfo'' (CPtr ''void *''),
       Member ''func_info_cnt'' td_u32,
       Member ''nr_linfo'' td_u32,
       Member ''linfo_idx'' td_u32,
       Member ''num_exentries'' td_u32,
       Member ''extable'' (CPtr ''struct exception_table_entry''),
       Member '''' (CUnion [Member ''work'' struct_work_struct,
          Member ''rcu'' struct_callback_head])]"

definition td_kprobe_pre_handler_t :: ctype where
  "td_kprobe_pre_handler_t =
    CPtr ''int (struct kprobe *, struct pt_regs *)''"

definition td_kprobe_post_handler_t :: ctype where
  "td_kprobe_post_handler_t =
    CPtr ''void (struct kprobe *, struct pt_regs *, long unsigned int)''"

definition td_kprobe_opcode_t :: ctype where
  "td_kprobe_opcode_t =
    td_u32"

definition struct_arch_probe_insn :: ctype where
  "struct_arch_probe_insn =
    CStruct [Member ''insn'' (CPtr ''probe_opcode_t''),
       Member ''pstate_cc'' (CPtr ''pstate_check_t''),
       Member ''handler'' (CPtr ''probes_handler_t''),
       Member ''restore'' c_unsigned_long]"

definition struct_arch_specific_insn :: ctype where
  "struct_arch_specific_insn =
    CStruct [Member ''api'' struct_arch_probe_insn]"

definition struct_kprobe :: ctype where
  "struct_kprobe =
    CStruct [Member ''hlist'' struct_hlist_node,
       Member ''list'' struct_list_head,
       Member ''nmissed'' c_unsigned_long,
       Member ''addr'' (CPtr ''kprobe_opcode_t''),
       Member ''symbol_name'' (CPtr ''char''),
       Member ''offset'' c_unsigned_int,
       Member ''pre_handler'' td_kprobe_pre_handler_t,
       Member ''post_handler'' td_kprobe_post_handler_t,
       Member ''opcode'' td_kprobe_opcode_t,
       Member ''ainsn'' struct_arch_specific_insn,
       Member ''flags'' td_u32]"

definition td_kretprobe_handler_t :: ctype where
  "td_kretprobe_handler_t =
    CPtr ''int (struct kretprobe_instance *, struct pt_regs *)''"

definition struct_freelist_head :: ctype where
  "struct_freelist_head =
    CStruct [Member ''head'' (CPtr ''struct freelist_node'')]"

definition struct_kretprobe :: ctype where
  "struct_kretprobe =
    CStruct [Member ''kp'' struct_kprobe,
       Member ''handler'' td_kretprobe_handler_t,
       Member ''entry_handler'' td_kretprobe_handler_t,
       Member ''maxactive'' c_int,
       Member ''nmissed'' c_int,
       Member ''data_size'' td_size_t,
       Member ''freelist'' struct_freelist_head,
       Member ''rph'' (CPtr ''struct kretprobe_holder'')]"

definition enum_bpf_func_id :: ctype where
  "enum_bpf_func_id =
    CEnum [(''BPF_FUNC_unspec'', 0),
      (''BPF_FUNC_map_lookup_elem'', 1),
      (''BPF_FUNC_map_update_elem'', 2),
      (''BPF_FUNC_map_delete_elem'', 3),
      (''BPF_FUNC_probe_read'', 4),
      (''BPF_FUNC_ktime_get_ns'', 5),
      (''BPF_FUNC_trace_printk'', 6),
      (''BPF_FUNC_get_prandom_u32'', 7),
      (''BPF_FUNC_get_smp_processor_id'', 8),
      (''BPF_FUNC_skb_store_bytes'', 9),
      (''BPF_FUNC_l3_csum_replace'', 10),
      (''BPF_FUNC_l4_csum_replace'', 11),
      (''BPF_FUNC_tail_call'', 12),
      (''BPF_FUNC_clone_redirect'', 13),
      (''BPF_FUNC_get_current_pid_tgid'', 14),
      (''BPF_FUNC_get_current_uid_gid'', 15),
      (''BPF_FUNC_get_current_comm'', 16),
      (''BPF_FUNC_get_cgroup_classid'', 17),
      (''BPF_FUNC_skb_vlan_push'', 18),
      (''BPF_FUNC_skb_vlan_pop'', 19),
      (''BPF_FUNC_skb_get_tunnel_key'', 20),
      (''BPF_FUNC_skb_set_tunnel_key'', 21),
      (''BPF_FUNC_perf_event_read'', 22),
      (''BPF_FUNC_redirect'', 23),
      (''BPF_FUNC_get_route_realm'', 24),
      (''BPF_FUNC_perf_event_output'', 25),
      (''BPF_FUNC_skb_load_bytes'', 26),
      (''BPF_FUNC_get_stackid'', 27),
      (''BPF_FUNC_csum_diff'', 28),
      (''BPF_FUNC_skb_get_tunnel_opt'', 29),
      (''BPF_FUNC_skb_set_tunnel_opt'', 30),
      (''BPF_FUNC_skb_change_proto'', 31),
      (''BPF_FUNC_skb_change_type'', 32),
      (''BPF_FUNC_skb_under_cgroup'', 33),
      (''BPF_FUNC_get_hash_recalc'', 34),
      (''BPF_FUNC_get_current_task'', 35),
      (''BPF_FUNC_probe_write_user'', 36),
      (''BPF_FUNC_current_task_under_cgroup'', 37),
      (''BPF_FUNC_skb_change_tail'', 38),
      (''BPF_FUNC_skb_pull_data'', 39),
      (''BPF_FUNC_csum_update'', 40),
      (''BPF_FUNC_set_hash_invalid'', 41),
      (''BPF_FUNC_get_numa_node_id'', 42),
      (''BPF_FUNC_skb_change_head'', 43),
      (''BPF_FUNC_xdp_adjust_head'', 44),
      (''BPF_FUNC_probe_read_str'', 45),
      (''BPF_FUNC_get_socket_cookie'', 46),
      (''BPF_FUNC_get_socket_uid'', 47),
      (''BPF_FUNC_set_hash'', 48),
      (''BPF_FUNC_setsockopt'', 49),
      (''BPF_FUNC_skb_adjust_room'', 50),
      (''BPF_FUNC_redirect_map'', 51),
      (''BPF_FUNC_sk_redirect_map'', 52),
      (''BPF_FUNC_sock_map_update'', 53),
      (''BPF_FUNC_xdp_adjust_meta'', 54),
      (''BPF_FUNC_perf_event_read_value'', 55),
      (''BPF_FUNC_perf_prog_read_value'', 56),
      (''BPF_FUNC_getsockopt'', 57),
      (''BPF_FUNC_override_return'', 58),
      (''BPF_FUNC_sock_ops_cb_flags_set'', 59),
      (''BPF_FUNC_msg_redirect_map'', 60),
      (''BPF_FUNC_msg_apply_bytes'', 61),
      (''BPF_FUNC_msg_cork_bytes'', 62),
      (''BPF_FUNC_msg_pull_data'', 63),
      (''BPF_FUNC_bind'', 64),
      (''BPF_FUNC_xdp_adjust_tail'', 65),
      (''BPF_FUNC_skb_get_xfrm_state'', 66),
      (''BPF_FUNC_get_stack'', 67),
      (''BPF_FUNC_skb_load_bytes_relative'', 68),
      (''BPF_FUNC_fib_lookup'', 69),
      (''BPF_FUNC_sock_hash_update'', 70),
      (''BPF_FUNC_msg_redirect_hash'', 71),
      (''BPF_FUNC_sk_redirect_hash'', 72),
      (''BPF_FUNC_lwt_push_encap'', 73),
      (''BPF_FUNC_lwt_seg6_store_bytes'', 74),
      (''BPF_FUNC_lwt_seg6_adjust_srh'', 75),
      (''BPF_FUNC_lwt_seg6_action'', 76),
      (''BPF_FUNC_rc_repeat'', 77),
      (''BPF_FUNC_rc_keydown'', 78),
      (''BPF_FUNC_skb_cgroup_id'', 79),
      (''BPF_FUNC_get_current_cgroup_id'', 80),
      (''BPF_FUNC_get_local_storage'', 81),
      (''BPF_FUNC_sk_select_reuseport'', 82),
      (''BPF_FUNC_skb_ancestor_cgroup_id'', 83),
      (''BPF_FUNC_sk_lookup_tcp'', 84),
      (''BPF_FUNC_sk_lookup_udp'', 85),
      (''BPF_FUNC_sk_release'', 86),
      (''BPF_FUNC_map_push_elem'', 87),
      (''BPF_FUNC_map_pop_elem'', 88),
      (''BPF_FUNC_map_peek_elem'', 89),
      (''BPF_FUNC_msg_push_data'', 90),
      (''BPF_FUNC_msg_pop_data'', 91),
      (''BPF_FUNC_rc_pointer_rel'', 92),
      (''BPF_FUNC_spin_lock'', 93),
      (''BPF_FUNC_spin_unlock'', 94),
      (''BPF_FUNC_sk_fullsock'', 95),
      (''BPF_FUNC_tcp_sock'', 96),
      (''BPF_FUNC_skb_ecn_set_ce'', 97),
      (''BPF_FUNC_get_listener_sock'', 98),
      (''BPF_FUNC_skc_lookup_tcp'', 99),
      (''BPF_FUNC_tcp_check_syncookie'', 100),
      (''BPF_FUNC_sysctl_get_name'', 101),
      (''BPF_FUNC_sysctl_get_current_value'', 102),
      (''BPF_FUNC_sysctl_get_new_value'', 103),
      (''BPF_FUNC_sysctl_set_new_value'', 104),
      (''BPF_FUNC_strtol'', 105),
      (''BPF_FUNC_strtoul'', 106),
      (''BPF_FUNC_sk_storage_get'', 107),
      (''BPF_FUNC_sk_storage_delete'', 108),
      (''BPF_FUNC_send_signal'', 109),
      (''BPF_FUNC_tcp_gen_syncookie'', 110),
      (''BPF_FUNC_skb_output'', 111),
      (''BPF_FUNC_probe_read_user'', 112),
      (''BPF_FUNC_probe_read_kernel'', 113),
      (''BPF_FUNC_probe_read_user_str'', 114),
      (''BPF_FUNC_probe_read_kernel_str'', 115),
      (''BPF_FUNC_tcp_send_ack'', 116),
      (''BPF_FUNC_send_signal_thread'', 117),
      (''BPF_FUNC_jiffies64'', 118),
      (''BPF_FUNC_read_branch_records'', 119),
      (''BPF_FUNC_get_ns_current_pid_tgid'', 120),
      (''BPF_FUNC_xdp_output'', 121),
      (''BPF_FUNC_get_netns_cookie'', 122),
      (''BPF_FUNC_get_current_ancestor_cgroup_id'', 123),
      (''BPF_FUNC_sk_assign'', 124),
      (''BPF_FUNC_ktime_get_boot_ns'', 125),
      (''BPF_FUNC_seq_printf'', 126),
      (''BPF_FUNC_seq_write'', 127),
      (''BPF_FUNC_sk_cgroup_id'', 128),
      (''BPF_FUNC_sk_ancestor_cgroup_id'', 129),
      (''BPF_FUNC_ringbuf_output'', 130),
      (''BPF_FUNC_ringbuf_reserve'', 131),
      (''BPF_FUNC_ringbuf_submit'', 132),
      (''BPF_FUNC_ringbuf_discard'', 133),
      (''BPF_FUNC_ringbuf_query'', 134),
      (''BPF_FUNC_csum_level'', 135),
      (''BPF_FUNC_skc_to_tcp6_sock'', 136),
      (''BPF_FUNC_skc_to_tcp_sock'', 137),
      (''BPF_FUNC_skc_to_tcp_timewait_sock'', 138),
      (''BPF_FUNC_skc_to_tcp_request_sock'', 139),
      (''BPF_FUNC_skc_to_udp6_sock'', 140),
      (''BPF_FUNC_get_task_stack'', 141),
      (''BPF_FUNC_load_hdr_opt'', 142),
      (''BPF_FUNC_store_hdr_opt'', 143),
      (''BPF_FUNC_reserve_hdr_opt'', 144),
      (''BPF_FUNC_inode_storage_get'', 145),
      (''BPF_FUNC_inode_storage_delete'', 146),
      (''BPF_FUNC_d_path'', 147),
      (''BPF_FUNC_copy_from_user'', 148),
      (''BPF_FUNC_snprintf_btf'', 149),
      (''BPF_FUNC_seq_printf_btf'', 150),
      (''BPF_FUNC_skb_cgroup_classid'', 151),
      (''BPF_FUNC_redirect_neigh'', 152),
      (''BPF_FUNC_per_cpu_ptr'', 153),
      (''BPF_FUNC_this_cpu_ptr'', 154),
      (''BPF_FUNC_redirect_peer'', 155),
      (''BPF_FUNC_task_storage_get'', 156),
      (''BPF_FUNC_task_storage_delete'', 157),
      (''BPF_FUNC_get_current_task_btf'', 158),
      (''BPF_FUNC_bprm_opts_set'', 159),
      (''BPF_FUNC_ktime_get_coarse_ns'', 160),
      (''BPF_FUNC_ima_inode_hash'', 161),
      (''BPF_FUNC_sock_from_file'', 162),
      (''BPF_FUNC_check_mtu'', 163),
      (''BPF_FUNC_for_each_map_elem'', 164),
      (''BPF_FUNC_snprintf'', 165),
      (''BPF_FUNC_sys_bpf'', 166),
      (''BPF_FUNC_btf_find_by_name_kind'', 167),
      (''BPF_FUNC_sys_close'', 168),
      (''BPF_FUNC_timer_init'', 169),
      (''BPF_FUNC_timer_set_callback'', 170),
      (''BPF_FUNC_timer_start'', 171),
      (''BPF_FUNC_timer_cancel'', 172),
      (''BPF_FUNC_get_func_ip'', 173),
      (''BPF_FUNC_get_attach_cookie'', 174),
      (''BPF_FUNC_task_pt_regs'', 175),
      (''BPF_FUNC_get_branch_snapshot'', 176),
      (''BPF_FUNC_trace_vprintk'', 177),
      (''BPF_FUNC_skc_to_unix_sock'', 178),
      (''BPF_FUNC_kallsyms_lookup_name'', 179),
      (''BPF_FUNC_find_vma'', 180),
      (''BPF_FUNC_loop'', 181),
      (''BPF_FUNC_strncmp'', 182),
      (''BPF_FUNC_get_func_arg'', 183),
      (''BPF_FUNC_get_func_ret'', 184),
      (''BPF_FUNC_get_func_arg_cnt'', 185),
      (''BPF_FUNC_get_retval'', 186),
      (''BPF_FUNC_set_retval'', 187),
      (''BPF_FUNC_xdp_get_buff_len'', 188),
      (''BPF_FUNC_xdp_load_bytes'', 189),
      (''BPF_FUNC_xdp_store_bytes'', 190),
      (''BPF_FUNC_copy_from_user_task'', 191),
      (''BPF_FUNC_skb_set_tstamp'', 192),
      (''BPF_FUNC_ima_file_hash'', 193),
      (''BPF_FUNC_kptr_xchg'', 194),
      (''BPF_FUNC_map_lookup_percpu_elem'', 195),
      (''BPF_FUNC_skc_to_mptcp_sock'', 196),
      (''BPF_FUNC_dynptr_from_mem'', 197),
      (''BPF_FUNC_ringbuf_reserve_dynptr'', 198),
      (''BPF_FUNC_ringbuf_submit_dynptr'', 199),
      (''BPF_FUNC_ringbuf_discard_dynptr'', 200),
      (''BPF_FUNC_dynptr_read'', 201),
      (''BPF_FUNC_dynptr_write'', 202),
      (''BPF_FUNC_dynptr_data'', 203),
      (''BPF_FUNC_tcp_raw_gen_syncookie_ipv4'', 204),
      (''BPF_FUNC_tcp_raw_gen_syncookie_ipv6'', 205),
      (''BPF_FUNC_tcp_raw_check_syncookie_ipv4'', 206),
      (''BPF_FUNC_tcp_raw_check_syncookie_ipv6'', 207),
      (''BPF_FUNC_ktime_get_tai_ns'', 208),
      (''BPF_FUNC_user_ringbuf_drain'', 209),
      (''__BPF_FUNC_MAX_ID'', 210)]"

definition enum_bpf_cmd :: ctype where
  "enum_bpf_cmd =
    CEnum [(''BPF_MAP_CREATE'', 0),
      (''BPF_MAP_LOOKUP_ELEM'', 1),
      (''BPF_MAP_UPDATE_ELEM'', 2),
      (''BPF_MAP_DELETE_ELEM'', 3),
      (''BPF_MAP_GET_NEXT_KEY'', 4),
      (''BPF_PROG_LOAD'', 5),
      (''BPF_OBJ_PIN'', 6),
      (''BPF_OBJ_GET'', 7),
      (''BPF_PROG_ATTACH'', 8),
      (''BPF_PROG_DETACH'', 9),
      (''BPF_PROG_TEST_RUN'', 10),
      (''BPF_PROG_RUN'', 10),
      (''BPF_PROG_GET_NEXT_ID'', 11),
      (''BPF_MAP_GET_NEXT_ID'', 12),
      (''BPF_PROG_GET_FD_BY_ID'', 13),
      (''BPF_MAP_GET_FD_BY_ID'', 14),
      (''BPF_OBJ_GET_INFO_BY_FD'', 15),
      (''BPF_PROG_QUERY'', 16),
      (''BPF_RAW_TRACEPOINT_OPEN'', 17),
      (''BPF_BTF_LOAD'', 18),
      (''BPF_BTF_GET_FD_BY_ID'', 19),
      (''BPF_TASK_FD_QUERY'', 20),
      (''BPF_MAP_LOOKUP_AND_DELETE_ELEM'', 21),
      (''BPF_MAP_FREEZE'', 22),
      (''BPF_BTF_GET_NEXT_ID'', 23),
      (''BPF_MAP_LOOKUP_BATCH'', 24),
      (''BPF_MAP_LOOKUP_AND_DELETE_BATCH'', 25),
      (''BPF_MAP_UPDATE_BATCH'', 26),
      (''BPF_MAP_DELETE_BATCH'', 27),
      (''BPF_LINK_CREATE'', 28),
      (''BPF_LINK_UPDATE'', 29),
      (''BPF_LINK_GET_FD_BY_ID'', 30),
      (''BPF_LINK_GET_NEXT_ID'', 31),
      (''BPF_ENABLE_STATS'', 32),
      (''BPF_ITER_CREATE'', 33),
      (''BPF_LINK_DETACH'', 34),
      (''BPF_PROG_BIND_MAP'', 35)]"

definition enum_tcp_states :: ctype where
  "enum_tcp_states =
    CEnum [(''TCP_ESTABLISHED'', 1),
      (''TCP_SYN_SENT'', 2),
      (''TCP_SYN_RECV'', 3),
      (''TCP_FIN_WAIT1'', 4),
      (''TCP_FIN_WAIT2'', 5),
      (''TCP_TIME_WAIT'', 6),
      (''TCP_CLOSE'', 7),
      (''TCP_CLOSE_WAIT'', 8),
      (''TCP_LAST_ACK'', 9),
      (''TCP_LISTEN'', 10),
      (''TCP_CLOSING'', 11),
      (''TCP_NEW_SYN_RECV'', 12),
      (''TCP_MAX_STATES'', 13)]"

definition enum_map_update_flags :: ctype where
  "enum_map_update_flags =
    CEnum [(''BPF_ANY'', 0),
      (''BPF_NOEXIST'', 1),
      (''BPF_EXIST'', 2),
      (''BPF_F_LOCK'', 4)]"

definition enum_map_create_flags :: ctype where
  "enum_map_create_flags =
    CEnum [(''BPF_F_NO_PREALLOC'', 1),
      (''BPF_F_NO_COMMON_LRU'', 2),
      (''BPF_F_NUMA_NODE'', 4),
      (''BPF_F_RDONLY'', 8),
      (''BPF_F_WRONLY'', 16),
      (''BPF_F_STACK_BUILD_ID'', 32),
      (''BPF_F_ZERO_SEED'', 64),
      (''BPF_F_RDONLY_PROG'', 128),
      (''BPF_F_WRONLY_PROG'', 256),
      (''BPF_F_CLONE'', 512),
      (''BPF_F_MMAPABLE'', 1024),
      (''BPF_F_PRESERVE_ELEMS'', 2048),
      (''BPF_F_INNER_MAP'', 4096)]"

definition enum_ipproto :: ctype where
  "enum_ipproto =
    CEnum [(''IPPROTO_IP'', 0),
      (''IPPROTO_ICMP'', 1),
      (''IPPROTO_IGMP'', 2),
      (''IPPROTO_IPIP'', 4),
      (''IPPROTO_TCP'', 6),
      (''IPPROTO_EGP'', 8),
      (''IPPROTO_PUP'', 12),
      (''IPPROTO_UDP'', 17),
      (''IPPROTO_IDP'', 22),
      (''IPPROTO_TP'', 29),
      (''IPPROTO_DCCP'', 33),
      (''IPPROTO_IPV6'', 41),
      (''IPPROTO_RSVP'', 46),
      (''IPPROTO_GRE'', 47),
      (''IPPROTO_ESP'', 50),
      (''IPPROTO_AH'', 51),
      (''IPPROTO_MTP'', 92),
      (''IPPROTO_BEETPH'', 94),
      (''IPPROTO_ENCAP'', 98),
      (''IPPROTO_PIM'', 103),
      (''IPPROTO_COMP'', 108),
      (''IPPROTO_L2TP'', 115),
      (''IPPROTO_SCTP'', 132),
      (''IPPROTO_UDPLITE'', 136),
      (''IPPROTO_MPLS'', 137),
      (''IPPROTO_ETHERNET'', 143),
      (''IPPROTO_RAW'', 255),
      (''IPPROTO_MPTCP'', 262),
      (''IPPROTO_MAX'', 263)]"

subsection \<open>Sizes and alignments\<close>

lemma struct_rcuwait_layout [ctype_layout]:
  "layout struct_rcuwait = (8, 8)" "wf_ctype struct_rcuwait"
  by (simp_all add: struct_rcuwait_def layout_rules ctype_layout del: One_nat_def)

lemma struct_irq_work_layout [ctype_layout]:
  "layout struct_irq_work = (32, 8)" "wf_ctype struct_irq_work"
  by (simp_all add: struct_irq_work_def layout_rules ctype_layout del: One_nat_def)

lemma struct_bpf_ringbuf_layout [ctype_layout]:
  "layout struct_bpf_ringbuf = (12288, 8)" "wf_ctype struct_bpf_ringbuf"
  by (simp_all add: struct_bpf_ringbuf_def layout_rules ctype_layout del: One_nat_def)

lemma enum_bpf_map_type_layout [ctype_layout]:
  "layout enum_bpf_map_type = (4, 4)" "wf_ctype enum_bpf_map_type"
  by (simp_all add: enum_bpf_map_type_def layout_rules ctype_layout del: One_nat_def)

lemma struct_bpf_map_layout [ctype_layout]:
  "layout struct_bpf_map = (256, 8)" "wf_ctype struct_bpf_map"
  by (simp_all add: struct_bpf_map_def layout_rules ctype_layout del: One_nat_def)

lemma struct_bpf_ringbuf_map_layout [ctype_layout]:
  "layout struct_bpf_ringbuf_map = (320, 8)" "wf_ctype struct_bpf_ringbuf_map"
  by (simp_all add: struct_bpf_ringbuf_map_def layout_rules ctype_layout del: One_nat_def)

lemma struct_bpf_mem_alloc_layout [ctype_layout]:
  "layout struct_bpf_mem_alloc = (48, 8)" "wf_ctype struct_bpf_mem_alloc"
  by (simp_all add: struct_bpf_mem_alloc_def layout_rules ctype_layout del: One_nat_def)

lemma struct_pcpu_freelist_head_layout [ctype_layout]:
  "layout struct_pcpu_freelist_head = (16, 8)" "wf_ctype struct_pcpu_freelist_head"
  by (simp_all add: struct_pcpu_freelist_head_def layout_rules ctype_layout del: One_nat_def)

lemma struct_pcpu_freelist_layout [ctype_layout]:
  "layout struct_pcpu_freelist = (24, 8)" "wf_ctype struct_pcpu_freelist"
  by (simp_all add: struct_pcpu_freelist_def layout_rules ctype_layout del: One_nat_def)

lemma struct_bpf_lru_list_layout [ctype_layout]:
  "layout struct_bpf_lru_list = (128, 8)" "wf_ctype struct_bpf_lru_list"
  by (simp_all add: struct_bpf_lru_list_def layout_rules ctype_layout del: One_nat_def)

lemma struct_bpf_common_lru_layout [ctype_layout]:
  "layout struct_bpf_common_lru = (192, 8)" "wf_ctype struct_bpf_common_lru"
  by (simp_all add: struct_bpf_common_lru_def layout_rules ctype_layout del: One_nat_def)

lemma td_del_from_htab_func_layout [ctype_layout]:
  "layout td_del_from_htab_func = (8, 8)" "wf_ctype td_del_from_htab_func"
  by (simp_all add: td_del_from_htab_func_def layout_rules ctype_layout del: One_nat_def)

lemma struct_bpf_lru_layout [ctype_layout]:
  "layout struct_bpf_lru = (256, 8)" "wf_ctype struct_bpf_lru"
  by (simp_all add: struct_bpf_lru_def layout_rules ctype_layout del: One_nat_def)

lemma struct_percpu_counter_layout [ctype_layout]:
  "layout struct_percpu_counter = (40, 8)" "wf_ctype struct_percpu_counter"
  by (simp_all add: struct_percpu_counter_def layout_rules ctype_layout del: One_nat_def)

lemma struct_lock_class_key_layout [ctype_layout]:
  "layout struct_lock_class_key = (0, 1)" "wf_ctype struct_lock_class_key"
  by (simp_all add: struct_lock_class_key_def layout_rules ctype_layout del: One_nat_def)

lemma struct_bpf_htab_layout [ctype_layout]:
  "layout struct_bpf_htab = (832, 8)" "wf_ctype struct_bpf_htab"
  by (simp_all add: struct_bpf_htab_def layout_rules ctype_layout del: One_nat_def)

lemma struct_bpf_lru_node_layout [ctype_layout]:
  "layout struct_bpf_lru_node = (24, 8)" "wf_ctype struct_bpf_lru_node"
  by (simp_all add: struct_bpf_lru_node_def layout_rules ctype_layout del: One_nat_def)

lemma enum_bpf_prog_type_layout [ctype_layout]:
  "layout enum_bpf_prog_type = (4, 4)" "wf_ctype enum_bpf_prog_type"
  by (simp_all add: enum_bpf_prog_type_def layout_rules ctype_layout del: One_nat_def)

lemma enum_bpf_attach_type_layout [ctype_layout]:
  "layout enum_bpf_attach_type = (4, 4)" "wf_ctype enum_bpf_attach_type"
  by (simp_all add: enum_bpf_attach_type_def layout_rules ctype_layout del: One_nat_def)

lemma struct_sock_filter_layout [ctype_layout]:
  "layout struct_sock_filter = (8, 4)" "wf_ctype struct_sock_filter"
  by (simp_all add: struct_sock_filter_def layout_rules ctype_layout del: One_nat_def)

lemma struct_bpf_insn_layout [ctype_layout]:
  "layout struct_bpf_insn = (8, 4)" "wf_ctype struct_bpf_insn"
  by (simp_all add: struct_bpf_insn_def layout_rules ctype_layout del: One_nat_def)

lemma struct_bpf_prog_layout [ctype_layout]:
  "layout struct_bpf_prog = (72, 8)" "wf_ctype struct_bpf_prog"
  by (simp_all add: struct_bpf_prog_def layout_rules ctype_layout del: One_nat_def)

lemma struct_latch_tree_node_layout [ctype_layout]:
  "layout struct_latch_tree_node = (48, 8)" "wf_ctype struct_latch_tree_node"
  by (simp_all add: struct_latch_tree_node_def layout_rules ctype_layout del: One_nat_def)

lemma struct_bpf_ksym_layout [ctype_layout]:
  "layout struct_bpf_ksym = (600, 8)" "wf_ctype struct_bpf_ksym"
  by (simp_all add: struct_bpf_ksym_def layout_rules ctype_layout del: One_nat_def)

lemma struct_bpf_prog_aux_layout [ctype_layout]:
  "layout struct_bpf_prog_aux = (1040, 8)" "wf_ctype struct_bpf_prog_aux"
  by (simp_all add: struct_bpf_prog_aux_def layout_rules ctype_layout del: One_nat_def)

lemma td_kprobe_pre_handler_t_layout [ctype_layout]:
  "layout td_kprobe_pre_handler_t = (8, 8)" "wf_ctype td_kprobe_pre_handler_t"
  by (simp_all add: td_kprobe_pre_handler_t_def layout_rules ctype_layout del: One_nat_def)

lemma td_kprobe_post_handler_t_layout [ctype_layout]:
  "layout td_kprobe_post_handler_t = (8, 8)" "wf_ctype td_kprobe_post_handler_t"
  by (simp_all add: td_kprobe_post_handler_t_def layout_rules ctype_layout del: One_nat_def)

lemma td_kprobe_opcode_t_layout [ctype_layout]:
  "layout td_kprobe_opcode_t = (4, 4)" "wf_ctype td_kprobe_opcode_t"
  by (simp_all add: td_kprobe_opcode_t_def layout_rules ctype_layout del: One_nat_def)

lemma struct_arch_probe_insn_layout [ctype_layout]:
  "layout struct_arch_probe_insn = (32, 8)" "wf_ctype struct_arch_probe_insn"
  by (simp_all add: struct_arch_probe_insn_def layout_rules ctype_layout del: One_nat_def)

lemma struct_arch_specific_insn_layout [ctype_layout]:
  "layout struct_arch_specific_insn = (32, 8)" "wf_ctype struct_arch_specific_insn"
  by (simp_all add: struct_arch_specific_insn_def layout_rules ctype_layout del: One_nat_def)

lemma struct_kprobe_layout [ctype_layout]:
  "layout struct_kprobe = (128, 8)" "wf_ctype struct_kprobe"
  by (simp_all add: struct_kprobe_def layout_rules ctype_layout del: One_nat_def)

lemma td_kretprobe_handler_t_layout [ctype_layout]:
  "layout td_kretprobe_handler_t = (8, 8)" "wf_ctype td_kretprobe_handler_t"
  by (simp_all add: td_kretprobe_handler_t_def layout_rules ctype_layout del: One_nat_def)

lemma struct_freelist_head_layout [ctype_layout]:
  "layout struct_freelist_head = (8, 8)" "wf_ctype struct_freelist_head"
  by (simp_all add: struct_freelist_head_def layout_rules ctype_layout del: One_nat_def)

lemma struct_kretprobe_layout [ctype_layout]:
  "layout struct_kretprobe = (176, 8)" "wf_ctype struct_kretprobe"
  by (simp_all add: struct_kretprobe_def layout_rules ctype_layout del: One_nat_def)

lemma enum_bpf_func_id_layout [ctype_layout]:
  "layout enum_bpf_func_id = (4, 4)" "wf_ctype enum_bpf_func_id"
  by (simp_all add: enum_bpf_func_id_def layout_rules ctype_layout del: One_nat_def)

lemma enum_bpf_cmd_layout [ctype_layout]:
  "layout enum_bpf_cmd = (4, 4)" "wf_ctype enum_bpf_cmd"
  by (simp_all add: enum_bpf_cmd_def layout_rules ctype_layout del: One_nat_def)

lemma enum_tcp_states_layout [ctype_layout]:
  "layout enum_tcp_states = (4, 4)" "wf_ctype enum_tcp_states"
  by (simp_all add: enum_tcp_states_def layout_rules ctype_layout del: One_nat_def)

lemma enum_map_update_flags_layout [ctype_layout]:
  "layout enum_map_update_flags = (4, 4)" "wf_ctype enum_map_update_flags"
  by (simp_all add: enum_map_update_flags_def layout_rules ctype_layout del: One_nat_def)

lemma enum_map_create_flags_layout [ctype_layout]:
  "layout enum_map_create_flags = (4, 4)" "wf_ctype enum_map_create_flags"
  by (simp_all add: enum_map_create_flags_def layout_rules ctype_layout del: One_nat_def)

lemma enum_ipproto_layout [ctype_layout]:
  "layout enum_ipproto = (4, 4)" "wf_ctype enum_ipproto"
  by (simp_all add: enum_ipproto_def layout_rules ctype_layout del: One_nat_def)

end
