(* ===== verification/Kernel_Net.thy ===== *)
theory Kernel_Net
  imports Kernel_Bpf
begin

text \<open>
  The network namespace a socket belongs to (\<^verbatim>\<open>struct net\<close>, reached through
  \<^verbatim>\<open>skc_net\<close>) with the per-protocol state it embeds, as declared in \<^verbatim>\<open>vmlinux.h\<close>.
\<close>

subsection \<open>Declarations\<close>

definition struct_xarray :: ctype where
  "struct_xarray =
    CStruct [Member ''xa_lock'' td_spinlock_t,
       Member ''xa_flags'' td_gfp_t,
       Member ''xa_head'' (CPtr ''void'')]"

definition struct_idr :: ctype where
  "struct_idr =
    CStruct [Member ''idr_rt'' struct_xarray,
       Member ''idr_base'' c_unsigned_int,
       Member ''idr_next'' c_unsigned_int]"

definition struct_ns_common :: ctype where
  "struct_ns_common =
    CStruct [Member ''stashed'' td_atomic_long_t,
       Member ''ops'' (CPtr ''struct proc_ns_operations''),
       Member ''inum'' c_unsigned_int,
       Member ''count'' td_refcount_t]"

definition struct_ref_tracker_dir :: ctype where
  "struct_ref_tracker_dir =
    CStruct []"

definition struct_ctl_table_header :: ctype where
  "struct_ctl_table_header =
    CStruct [Member '''' (CUnion [Member '''' (CStruct [Member ''ctl_table'' (CPtr ''struct ctl_table''),
             Member ''used'' c_int,
             Member ''count'' c_int,
             Member ''nreg'' c_int]),
          Member ''rcu'' struct_callback_head]),
       Member ''unregistering'' (CPtr ''struct completion''),
       Member ''ctl_table_arg'' (CPtr ''struct ctl_table''),
       Member ''root'' (CPtr ''struct ctl_table_root''),
       Member ''set'' (CPtr ''struct ctl_table_set''),
       Member ''parent'' (CPtr ''struct ctl_dir''),
       Member ''node'' (CPtr ''struct ctl_node''),
       Member ''inodes'' struct_hlist_head]"

definition struct_ctl_dir :: ctype where
  "struct_ctl_dir =
    CStruct [Member ''header'' struct_ctl_table_header,
       Member ''root'' struct_rb_root]"

definition struct_ctl_table_set :: ctype where
  "struct_ctl_table_set =
    CStruct [Member ''is_seen'' (CPtr ''int (struct ctl_table_set *)''),
       Member ''dir'' struct_ctl_dir]"

definition struct_raw_notifier_head :: ctype where
  "struct_raw_notifier_head =
    CStruct [Member ''head'' (CPtr ''struct notifier_block'')]"

definition struct_netns_core :: ctype where
  "struct_netns_core =
    CStruct [Member ''sysctl_hdr'' (CPtr ''struct ctl_table_header''),
       Member ''sysctl_somaxconn'' c_int,
       Member ''sysctl_txrehash'' td_u8,
       Member ''prot_inuse'' (CPtr ''struct prot_inuse'')]"

definition struct_netns_mib :: ctype where
  "struct_netns_mib =
    CStruct [Member ''ip_statistics'' (CPtr ''struct ipstats_mib''),
       Member ''ipv6_statistics'' (CPtr ''struct ipstats_mib''),
       Member ''tcp_statistics'' (CPtr ''struct tcp_mib''),
       Member ''net_statistics'' (CPtr ''struct linux_mib''),
       Member ''udp_statistics'' (CPtr ''struct udp_mib''),
       Member ''udp_stats_in6'' (CPtr ''struct udp_mib''),
       Member ''xfrm_statistics'' (CPtr ''struct linux_xfrm_mib''),
       Member ''tls_statistics'' (CPtr ''struct linux_tls_mib''),
       Member ''mptcp_statistics'' (CPtr ''struct mptcp_mib''),
       Member ''udplite_statistics'' (CPtr ''struct udp_mib''),
       Member ''udplite_stats_in6'' (CPtr ''struct udp_mib''),
       Member ''icmp_statistics'' (CPtr ''struct icmp_mib''),
       Member ''icmpmsg_statistics'' (CPtr ''struct icmpmsg_mib''),
       Member ''icmpv6_statistics'' (CPtr ''struct icmpv6_mib''),
       Member ''icmpv6msg_statistics'' (CPtr ''struct icmpv6msg_mib''),
       Member ''proc_net_devsnmp6'' (CPtr ''struct proc_dir_entry'')]"

definition struct_netns_packet :: ctype where
  "struct_netns_packet =
    CStruct [Member ''sklist_lock'' struct_mutex,
       Member ''sklist'' struct_hlist_head]"

definition struct_unix_table :: ctype where
  "struct_unix_table =
    CStruct [Member ''locks'' (CPtr ''spinlock_t''),
       Member ''buckets'' (CPtr ''struct hlist_head'')]"

definition struct_netns_unix :: ctype where
  "struct_netns_unix =
    CStruct [Member ''table'' struct_unix_table,
       Member ''sysctl_max_dgram_qlen'' c_int,
       Member ''ctl'' (CPtr ''struct ctl_table_header'')]"

definition struct_blocking_notifier_head :: ctype where
  "struct_blocking_notifier_head =
    CStruct [Member ''rwsem'' struct_rw_semaphore,
       Member ''head'' (CPtr ''struct notifier_block'')]"

definition struct_netns_nexthop :: ctype where
  "struct_netns_nexthop =
    CStruct [Member ''rb_root'' struct_rb_root,
       Member ''devhash'' (CPtr ''struct hlist_head''),
       Member ''seq'' c_unsigned_int,
       Member ''last_id_allocated'' td_u32,
       Member ''notifier_chain'' struct_blocking_notifier_head]"

definition struct_inet_timewait_death_row :: ctype where
  "struct_inet_timewait_death_row =
    CStruct [Member ''tw_refcount'' td_refcount_t,
       BitField '''' c_long 64,
       BitField '''' c_long 64,
       BitField '''' c_long 64,
       BitField '''' c_long 64,
       BitField '''' c_long 64,
       BitField '''' c_long 64,
       BitField '''' c_long 64,
       Member ''hashinfo'' (CPtr ''struct inet_hashinfo''),
       Member ''sysctl_max_tw_buckets'' c_int,
       BitField '''' c_long 64,
       BitField '''' c_long 64,
       BitField '''' c_long 64,
       BitField '''' c_long 64,
       BitField '''' c_long 64,
       BitField '''' c_long 64]"

definition struct_local_ports :: ctype where
  "struct_local_ports =
    CStruct [Member ''lock'' td_seqlock_t,
       Member ''range'' (CArray c_int 2),
       Member ''warned'' td_bool]"

definition struct_ping_group_range :: ctype where
  "struct_ping_group_range =
    CStruct [Member ''lock'' td_seqlock_t,
       Member ''range'' (CArray td_kgid_t 2)]"

definition td_siphash_key_t :: ctype where
  "td_siphash_key_t =
    CStruct [Member ''key'' (CArray td_u64 2)]"

definition struct_netns_ipv4 :: ctype where
  "struct_netns_ipv4 =
    CStruct [Member ''tcp_death_row'' struct_inet_timewait_death_row,
       Member ''forw_hdr'' (CPtr ''struct ctl_table_header''),
       Member ''frags_hdr'' (CPtr ''struct ctl_table_header''),
       Member ''ipv4_hdr'' (CPtr ''struct ctl_table_header''),
       Member ''route_hdr'' (CPtr ''struct ctl_table_header''),
       Member ''xfrm4_hdr'' (CPtr ''struct ctl_table_header''),
       Member ''devconf_all'' (CPtr ''struct ipv4_devconf''),
       Member ''devconf_dflt'' (CPtr ''struct ipv4_devconf''),
       Member ''ra_chain'' (CPtr ''struct ip_ra_chain''),
       Member ''ra_mutex'' struct_mutex,
       Member ''rules_ops'' (CPtr ''struct fib_rules_ops''),
       Member ''fib_main'' (CPtr ''struct fib_table''),
       Member ''fib_default'' (CPtr ''struct fib_table''),
       Member ''fib_rules_require_fldissect'' c_unsigned_int,
       Member ''fib_has_custom_rules'' td_bool,
       Member ''fib_has_custom_local_routes'' td_bool,
       Member ''fib_offload_disabled'' td_bool,
       Member ''sysctl_tcp_shrink_window'' td_u8,
       Member ''fib_num_tclassid_users'' td_atomic_t,
       Member ''fib_table_hash'' (CPtr ''struct hlist_head''),
       Member ''fibnl'' (CPtr ''struct sock''),
       Member ''mc_autojoin_sk'' (CPtr ''struct sock''),
       Member ''peers'' (CPtr ''struct inet_peer_base''),
       Member ''fqdir'' (CPtr ''struct fqdir''),
       Member ''sysctl_icmp_echo_ignore_all'' td_u8,
       Member ''sysctl_icmp_echo_enable_probe'' td_u8,
       Member ''sysctl_icmp_echo_ignore_broadcasts'' td_u8,
       Member ''sysctl_icmp_ignore_bogus_error_responses'' td_u8,
       Member ''sysctl_icmp_errors_use_inbound_ifaddr'' td_u8,
       Member ''sysctl_icmp_ratelimit'' c_int,
       Member ''sysctl_icmp_ratemask'' c_int,
       Member ''ip_rt_min_pmtu'' td_u32,
       Member ''ip_rt_mtu_expires'' c_int,
       Member ''ip_rt_min_advmss'' c_int,
       Member ''ip_local_ports'' struct_local_ports,
       Member ''sysctl_tcp_ecn'' td_u8,
       Member ''sysctl_tcp_ecn_fallback'' td_u8,
       Member ''sysctl_ip_default_ttl'' td_u8,
       Member ''sysctl_ip_no_pmtu_disc'' td_u8,
       Member ''sysctl_ip_fwd_use_pmtu'' td_u8,
       Member ''sysctl_ip_fwd_update_priority'' td_u8,
       Member ''sysctl_ip_nonlocal_bind'' td_u8,
       Member ''sysctl_ip_autobind_reuse'' td_u8,
       Member ''sysctl_ip_dynaddr'' td_u8,
       Member ''sysctl_ip_early_demux'' td_u8,
       Member ''sysctl_raw_l3mdev_accept'' td_u8,
       Member ''sysctl_tcp_early_demux'' td_u8,
       Member ''sysctl_udp_early_demux'' td_u8,
       Member ''sysctl_nexthop_compat_mode'' td_u8,
       Member ''sysctl_fwmark_reflect'' td_u8,
       Member ''sysctl_tcp_fwmark_accept'' td_u8,
       Member ''sysctl_tcp_l3mdev_accept'' td_u8,
       Member ''sysctl_tcp_mtu_probing'' td_u8,
       Member ''sysctl_tcp_mtu_probe_floor'' c_int,
       Member ''sysctl_tcp_base_mss'' c_int,
       Member ''sysctl_tcp_min_snd_mss'' c_int,
       Member ''sysctl_tcp_probe_threshold'' c_int,
       Member ''sysctl_tcp_probe_interval'' td_u32,
       Member ''sysctl_tcp_keepalive_time'' c_int,
       Member ''sysctl_tcp_keepalive_intvl'' c_int,
       Member ''sysctl_tcp_keepalive_probes'' td_u8,
       Member ''sysctl_tcp_syn_retries'' td_u8,
       Member ''sysctl_tcp_synack_retries'' td_u8,
       Member ''sysctl_tcp_syncookies'' td_u8,
       Member ''sysctl_tcp_migrate_req'' td_u8,
       Member ''sysctl_tcp_comp_sack_nr'' td_u8,
       Member ''sysctl_tcp_reordering'' c_int,
       Member ''sysctl_tcp_retries1'' td_u8,
       Member ''sysctl_tcp_retries2'' td_u8,
       Member ''sysctl_tcp_orphan_retries'' td_u8,
       Member ''sysctl_tcp_tw_reuse'' td_u8,
       Member ''sysctl_tcp_fin_timeout'' c_int,
       Member ''sysctl_tcp_notsent_lowat'' c_unsigned_int,
       Member ''sysctl_tcp_sack'' td_u8,
       Member ''sysctl_tcp_window_scaling'' td_u8,
       Member ''sysctl_tcp_timestamps'' td_u8,
       Member ''sysctl_tcp_early_retrans'' td_u8,
       Member ''sysctl_tcp_recovery'' td_u8,
       Member ''sysctl_tcp_thin_linear_timeouts'' td_u8,
       Member ''sysctl_tcp_slow_start_after_idle'' td_u8,
       Member ''sysctl_tcp_retrans_collapse'' td_u8,
       Member ''sysctl_tcp_stdurg'' td_u8,
       Member ''sysctl_tcp_rfc1337'' td_u8,
       Member ''sysctl_tcp_abort_on_overflow'' td_u8,
       Member ''sysctl_tcp_fack'' td_u8,
       Member ''sysctl_tcp_max_reordering'' c_int,
       Member ''sysctl_tcp_adv_win_scale'' c_int,
       Member ''sysctl_tcp_dsack'' td_u8,
       Member ''sysctl_tcp_app_win'' td_u8,
       Member ''sysctl_tcp_frto'' td_u8,
       Member ''sysctl_tcp_nometrics_save'' td_u8,
       Member ''sysctl_tcp_no_ssthresh_metrics_save'' td_u8,
       Member ''sysctl_tcp_moderate_rcvbuf'' td_u8,
       Member ''sysctl_tcp_tso_win_divisor'' td_u8,
       Member ''sysctl_tcp_workaround_signed_windows'' td_u8,
       Member ''sysctl_tcp_limit_output_bytes'' c_int,
       Member ''sysctl_tcp_challenge_ack_limit'' c_int,
       Member ''sysctl_tcp_min_rtt_wlen'' c_int,
       Member ''sysctl_tcp_min_tso_segs'' td_u8,
       Member ''sysctl_tcp_tso_rtt_log'' td_u8,
       Member ''sysctl_tcp_autocorking'' td_u8,
       Member ''sysctl_tcp_reflect_tos'' td_u8,
       Member ''sysctl_tcp_invalid_ratelimit'' c_int,
       Member ''sysctl_tcp_pacing_ss_ratio'' c_int,
       Member ''sysctl_tcp_pacing_ca_ratio'' c_int,
       Member ''sysctl_tcp_wmem'' (CArray c_int 3),
       Member ''sysctl_tcp_rmem'' (CArray c_int 3),
       Member ''sysctl_tcp_child_ehash_entries'' c_unsigned_int,
       Member ''sysctl_tcp_comp_sack_delay_ns'' c_unsigned_long,
       Member ''sysctl_tcp_comp_sack_slack_ns'' c_unsigned_long,
       Member ''sysctl_max_syn_backlog'' c_int,
       Member ''sysctl_tcp_fastopen'' c_int,
       Member ''tcp_congestion_control'' (CPtr ''struct tcp_congestion_ops''),
       Member ''tcp_fastopen_ctx'' (CPtr ''struct tcp_fastopen_context''),
       Member ''sysctl_tcp_fastopen_blackhole_timeout'' c_unsigned_int,
       Member ''tfo_active_disable_times'' td_atomic_t,
       Member ''tfo_active_disable_stamp'' c_unsigned_long,
       Member ''tcp_challenge_timestamp'' td_u32,
       Member ''tcp_challenge_count'' td_u32,
       Member ''sysctl_udp_wmem_min'' c_int,
       Member ''sysctl_udp_rmem_min'' c_int,
       Member ''sysctl_fib_notify_on_flag_change'' td_u8,
       Member ''sysctl_udp_l3mdev_accept'' td_u8,
       Member ''sysctl_igmp_llm_reports'' td_u8,
       Member ''sysctl_igmp_max_memberships'' c_int,
       Member ''sysctl_igmp_max_msf'' c_int,
       Member ''sysctl_igmp_qrv'' c_int,
       Member ''ping_group_range'' struct_ping_group_range,
       Member ''dev_addr_genid'' td_atomic_t,
       Member ''sysctl_local_reserved_ports'' (CPtr ''long unsigned int''),
       Member ''sysctl_ip_prot_sock'' c_int,
       Member ''mr_tables'' struct_list_head,
       Member ''mr_rules_ops'' (CPtr ''struct fib_rules_ops''),
       Member ''sysctl_fib_multipath_hash_fields'' td_u32,
       Member ''sysctl_fib_multipath_use_neigh'' td_u8,
       Member ''sysctl_fib_multipath_hash_policy'' td_u8,
       Member ''notifier_ops'' (CPtr ''struct fib_notifier_ops''),
       Member ''fib_seq'' c_unsigned_int,
       Member ''ipmr_notifier_ops'' (CPtr ''struct fib_notifier_ops''),
       Member ''ipmr_seq'' c_unsigned_int,
       Member ''rt_genid'' td_atomic_t,
       Member ''ip_id_key'' td_siphash_key_t,
       BitField '''' c_long 64,
       BitField '''' c_long 64,
       BitField '''' c_long 64,
       BitField '''' c_long 64,
       BitField '''' c_long 64,
       BitField '''' c_long 64]"

definition struct_dst_ops :: ctype where
  "struct_dst_ops =
    CStruct [Member ''family'' c_unsigned_short,
       Member ''gc_thresh'' c_unsigned_int,
       Member ''gc'' (CPtr ''void (struct dst_ops *)''),
       Member ''check'' (CPtr ''struct dst_entry * (struct dst_entry *, __u32)''),
       Member ''default_advmss'' (CPtr ''unsigned int (const struct dst_entry *)''),
       Member ''mtu'' (CPtr ''unsigned int (const struct dst_entry *)''),
       Member ''cow_metrics'' (CPtr ''u32 * (struct dst_entry *, long unsigned int)''),
       Member ''destroy'' (CPtr ''void (struct dst_entry *)''),
       Member ''ifdown'' (CPtr ''void (struct dst_entry *, struct net_device *, int)''),
       Member ''negative_advice'' (CPtr ''void (struct sock *, struct dst_entry *)''),
       Member ''link_failure'' (CPtr ''void (struct sk_buff *)''),
       Member ''update_pmtu'' (CPtr ''void (struct dst_entry *, struct sock *, struct sk_buff *, u32, bool)''),
       Member ''redirect'' (CPtr ''void (struct dst_entry *, struct sock *, struct sk_buff *)''),
       Member ''local_out'' (CPtr ''int (struct net *, struct sock *, struct sk_buff *)''),
       Member ''neigh_lookup'' (CPtr ''struct neighbour * (const struct dst_entry *, struct sk_buff *, const void *)''),
       Member ''confirm_neigh'' (CPtr ''void (const struct dst_entry *, const void *)''),
       Member ''kmem_cachep'' (CPtr ''struct kmem_cache''),
       Member ''pcpuc_entries'' struct_percpu_counter,
       BitField '''' c_long 64,
       BitField '''' c_long 64,
       BitField '''' c_long 64]"

definition struct_netns_sysctl_ipv6 :: ctype where
  "struct_netns_sysctl_ipv6 =
    CStruct [Member ''hdr'' (CPtr ''struct ctl_table_header''),
       Member ''route_hdr'' (CPtr ''struct ctl_table_header''),
       Member ''icmp_hdr'' (CPtr ''struct ctl_table_header''),
       Member ''frags_hdr'' (CPtr ''struct ctl_table_header''),
       Member ''xfrm6_hdr'' (CPtr ''struct ctl_table_header''),
       Member ''flush_delay'' c_int,
       Member ''ip6_rt_max_size'' c_int,
       Member ''ip6_rt_gc_min_interval'' c_int,
       Member ''ip6_rt_gc_timeout'' c_int,
       Member ''ip6_rt_gc_interval'' c_int,
       Member ''ip6_rt_gc_elasticity'' c_int,
       Member ''ip6_rt_mtu_expires'' c_int,
       Member ''ip6_rt_min_advmss'' c_int,
       Member ''multipath_hash_fields'' td_u32,
       Member ''multipath_hash_policy'' td_u8,
       Member ''bindv6only'' td_u8,
       Member ''flowlabel_consistency'' td_u8,
       Member ''auto_flowlabels'' td_u8,
       Member ''icmpv6_time'' c_int,
       Member ''icmpv6_echo_ignore_all'' td_u8,
       Member ''icmpv6_echo_ignore_multicast'' td_u8,
       Member ''icmpv6_echo_ignore_anycast'' td_u8,
       Member ''icmpv6_ratemask'' (CArray c_unsigned_long 4),
       Member ''icmpv6_ratemask_ptr'' (CPtr ''long unsigned int''),
       Member ''anycast_src_echo_reply'' td_u8,
       Member ''ip_nonlocal_bind'' td_u8,
       Member ''fwmark_reflect'' td_u8,
       Member ''flowlabel_state_ranges'' td_u8,
       Member ''idgen_retries'' c_int,
       Member ''idgen_delay'' c_int,
       Member ''flowlabel_reflect'' c_int,
       Member ''max_dst_opts_cnt'' c_int,
       Member ''max_hbh_opts_cnt'' c_int,
       Member ''max_dst_opts_len'' c_int,
       Member ''max_hbh_opts_len'' c_int,
       Member ''seg6_flowlabel'' c_int,
       Member ''ioam6_id'' td_u32,
       Member ''ioam6_id_wide'' td_u64,
       Member ''skip_notify_on_dev_down'' c_int,
       Member ''fib_notify_on_flag_change'' td_u8]"

definition struct_delayed_work :: ctype where
  "struct_delayed_work =
    CStruct [Member ''work'' struct_work_struct,
       Member ''timer'' struct_timer_list,
       Member ''wq'' (CPtr ''struct workqueue_struct''),
       Member ''cpu'' c_int]"

definition struct_netns_ipv6 :: ctype where
  "struct_netns_ipv6 =
    CStruct [Member ''ip6_dst_ops'' struct_dst_ops,
       Member ''sysctl'' struct_netns_sysctl_ipv6,
       Member ''devconf_all'' (CPtr ''struct ipv6_devconf''),
       Member ''devconf_dflt'' (CPtr ''struct ipv6_devconf''),
       Member ''peers'' (CPtr ''struct inet_peer_base''),
       Member ''fqdir'' (CPtr ''struct fqdir''),
       Member ''fib6_null_entry'' (CPtr ''struct fib6_info''),
       Member ''ip6_null_entry'' (CPtr ''struct rt6_info''),
       Member ''rt6_stats'' (CPtr ''struct rt6_statistics''),
       Member ''ip6_fib_timer'' struct_timer_list,
       Member ''fib_table_hash'' (CPtr ''struct hlist_head''),
       Member ''fib6_main_tbl'' (CPtr ''struct fib6_table''),
       Member ''fib6_walkers'' struct_list_head,
       Member ''fib6_walker_lock'' td_rwlock_t,
       Member ''fib6_gc_lock'' td_spinlock_t,
       Member ''ip6_rt_gc_expire'' td_atomic_t,
       Member ''ip6_rt_last_gc'' c_unsigned_long,
       Member ''flowlabel_has_excl'' c_unsigned_char,
       Member ''fib6_has_custom_rules'' td_bool,
       Member ''fib6_rules_require_fldissect'' c_unsigned_int,
       Member ''fib6_routes_require_src'' c_unsigned_int,
       Member ''ip6_prohibit_entry'' (CPtr ''struct rt6_info''),
       Member ''ip6_blk_hole_entry'' (CPtr ''struct rt6_info''),
       Member ''fib6_local_tbl'' (CPtr ''struct fib6_table''),
       Member ''fib6_rules_ops'' (CPtr ''struct fib_rules_ops''),
       Member ''ndisc_sk'' (CPtr ''struct sock''),
       Member ''tcp_sk'' (CPtr ''struct sock''),
       Member ''igmp_sk'' (CPtr ''struct sock''),
       Member ''mc_autojoin_sk'' (CPtr ''struct sock''),
       Member ''inet6_addr_lst'' (CPtr ''struct hlist_head''),
       Member ''addrconf_hash_lock'' td_spinlock_t,
       Member ''addr_chk_work'' struct_delayed_work,
       Member ''mr6_tables'' struct_list_head,
       Member ''mr6_rules_ops'' (CPtr ''struct fib_rules_ops''),
       Member ''dev_addr_genid'' td_atomic_t,
       Member ''fib6_sernum'' td_atomic_t,
       Member ''seg6_data'' (CPtr ''struct seg6_pernet_data''),
       Member ''notifier_ops'' (CPtr ''struct fib_notifier_ops''),
       Member ''ip6mr_notifier_ops'' (CPtr ''struct fib_notifier_ops''),
       Member ''ipmr_seq'' c_unsigned_int,
       Member ''ip6addrlbl_table'' (CStruct [Member ''head'' struct_hlist_head,
          Member ''lock'' td_spinlock_t,
          Member ''seq'' td_u32]),
       Member ''ioam6_data'' (CPtr ''struct ioam6_pernet_data''),
       BitField '''' c_long 64,
       BitField '''' c_long 64,
       BitField '''' c_long 64,
       BitField '''' c_long 64]"

definition struct_netns_sysctl_lowpan :: ctype where
  "struct_netns_sysctl_lowpan =
    CStruct [Member ''frags_hdr'' (CPtr ''struct ctl_table_header'')]"

definition struct_netns_ieee802154_lowpan :: ctype where
  "struct_netns_ieee802154_lowpan =
    CStruct [Member ''sysctl'' struct_netns_sysctl_lowpan,
       Member ''fqdir'' (CPtr ''struct fqdir'')]"

definition struct_netns_sctp :: ctype where
  "struct_netns_sctp =
    CStruct [Member ''sctp_statistics'' (CPtr ''struct sctp_mib''),
       Member ''proc_net_sctp'' (CPtr ''struct proc_dir_entry''),
       Member ''sysctl_header'' (CPtr ''struct ctl_table_header''),
       Member ''ctl_sock'' (CPtr ''struct sock''),
       Member ''udp4_sock'' (CPtr ''struct sock''),
       Member ''udp6_sock'' (CPtr ''struct sock''),
       Member ''udp_port'' c_int,
       Member ''encap_port'' c_int,
       Member ''local_addr_list'' struct_list_head,
       Member ''addr_waitq'' struct_list_head,
       Member ''addr_wq_timer'' struct_timer_list,
       Member ''auto_asconf_splist'' struct_list_head,
       Member ''addr_wq_lock'' td_spinlock_t,
       Member ''local_addr_lock'' td_spinlock_t,
       Member ''rto_initial'' c_unsigned_int,
       Member ''rto_min'' c_unsigned_int,
       Member ''rto_max'' c_unsigned_int,
       Member ''rto_alpha'' c_int,
       Member ''rto_beta'' c_int,
       Member ''max_burst'' c_int,
       Member ''cookie_preserve_enable'' c_int,
       Member ''sctp_hmac_alg'' (CPtr ''char''),
       Member ''valid_cookie_life'' c_unsigned_int,
       Member ''sack_timeout'' c_unsigned_int,
       Member ''hb_interval'' c_unsigned_int,
       Member ''probe_interval'' c_unsigned_int,
       Member ''max_retrans_association'' c_int,
       Member ''max_retrans_path'' c_int,
       Member ''max_retrans_init'' c_int,
       Member ''pf_retrans'' c_int,
       Member ''ps_retrans'' c_int,
       Member ''pf_enable'' c_int,
       Member ''pf_expose'' c_int,
       Member ''sndbuf_policy'' c_int,
       Member ''rcvbuf_policy'' c_int,
       Member ''default_auto_asconf'' c_int,
       Member ''addip_enable'' c_int,
       Member ''addip_noauth'' c_int,
       Member ''prsctp_enable'' c_int,
       Member ''reconf_enable'' c_int,
       Member ''auth_enable'' c_int,
       Member ''intl_enable'' c_int,
       Member ''ecn_enable'' c_int,
       Member ''scope_policy'' c_int,
       Member ''rwnd_upd_shift'' c_int,
       Member ''max_autoclose'' c_unsigned_long]"

definition struct_netns_nf :: ctype where
  "struct_netns_nf =
    CStruct [Member ''proc_netfilter'' (CPtr ''struct proc_dir_entry''),
       Member ''nf_loggers'' (CArray (CPtr ''struct nf_logger'') 11),
       Member ''nf_log_dir_header'' (CPtr ''struct ctl_table_header''),
       Member ''hooks_ipv4'' (CArray (CPtr ''struct nf_hook_entries'') 5),
       Member ''hooks_ipv6'' (CArray (CPtr ''struct nf_hook_entries'') 5),
       Member ''hooks_arp'' (CArray (CPtr ''struct nf_hook_entries'') 3),
       Member ''hooks_bridge'' (CArray (CPtr ''struct nf_hook_entries'') 5),
       Member ''defrag_ipv4_users'' c_unsigned_int,
       Member ''defrag_ipv6_users'' c_unsigned_int]"

definition struct_nf_generic_net :: ctype where
  "struct_nf_generic_net =
    CStruct [Member ''timeout'' c_unsigned_int]"

definition struct_nf_tcp_net :: ctype where
  "struct_nf_tcp_net =
    CStruct [Member ''timeouts'' (CArray c_unsigned_int 14),
       Member ''tcp_loose'' td_u8,
       Member ''tcp_be_liberal'' td_u8,
       Member ''tcp_max_retrans'' td_u8,
       Member ''tcp_ignore_invalid_rst'' td_u8,
       Member ''offload_timeout'' c_unsigned_int]"

definition struct_nf_udp_net :: ctype where
  "struct_nf_udp_net =
    CStruct [Member ''timeouts'' (CArray c_unsigned_int 2),
       Member ''offload_timeout'' c_unsigned_int]"

definition struct_nf_icmp_net :: ctype where
  "struct_nf_icmp_net =
    CStruct [Member ''timeout'' c_unsigned_int]"

definition struct_nf_dccp_net :: ctype where
  "struct_nf_dccp_net =
    CStruct [Member ''dccp_loose'' td_u8,
       Member ''dccp_timeout'' (CArray c_unsigned_int 10)]"

definition struct_nf_sctp_net :: ctype where
  "struct_nf_sctp_net =
    CStruct [Member ''timeouts'' (CArray c_unsigned_int 10)]"

definition struct_nf_gre_net :: ctype where
  "struct_nf_gre_net =
    CStruct [Member ''keymap_list'' struct_list_head,
       Member ''timeouts'' (CArray c_unsigned_int 2)]"

definition struct_nf_ip_net :: ctype where
  "struct_nf_ip_net =
    CStruct [Member ''generic'' struct_nf_generic_net,
       Member ''tcp'' struct_nf_tcp_net,
       Member ''udp'' struct_nf_udp_net,
       Member ''icmp'' struct_nf_icmp_net,
       Member ''icmpv6'' struct_nf_icmp_net,
       Member ''dccp'' struct_nf_dccp_net,
       Member ''sctp'' struct_nf_sctp_net,
       Member ''gre'' struct_nf_gre_net]"

definition struct_netns_ct :: ctype where
  "struct_netns_ct =
    CStruct [Member ''ecache_dwork_pending'' td_bool,
       Member ''sysctl_log_invalid'' td_u8,
       Member ''sysctl_events'' td_u8,
       Member ''sysctl_acct'' td_u8,
       Member ''sysctl_tstamp'' td_u8,
       Member ''sysctl_checksum'' td_u8,
       Member ''stat'' (CPtr ''struct ip_conntrack_stat''),
       Member ''nf_conntrack_event_cb'' (CPtr ''struct nf_ct_event_notifier''),
       Member ''nf_ct_proto'' struct_nf_ip_net,
       Member ''labels_used'' c_unsigned_int]"

definition struct_netns_nftables :: ctype where
  "struct_netns_nftables =
    CStruct [Member ''gencursor'' td_u8]"

definition struct_netns_ft :: ctype where
  "struct_netns_ft =
    CStruct [Member ''stat'' (CPtr ''struct nf_flow_table_stat'')]"

definition struct_netns_bpf :: ctype where
  "struct_netns_bpf =
    CStruct [Member ''run_array'' (CArray (CPtr ''struct bpf_prog_array'') 2),
       Member ''progs'' (CArray (CPtr ''struct bpf_prog'') 2),
       Member ''links'' (CArray struct_list_head 2)]"

definition struct_xfrm_policy_hash :: ctype where
  "struct_xfrm_policy_hash =
    CStruct [Member ''table'' (CPtr ''struct hlist_head''),
       Member ''hmask'' c_unsigned_int,
       Member ''dbits4'' td_u8,
       Member ''sbits4'' td_u8,
       Member ''dbits6'' td_u8,
       Member ''sbits6'' td_u8]"

definition struct_xfrm_policy_hthresh :: ctype where
  "struct_xfrm_policy_hthresh =
    CStruct [Member ''work'' struct_work_struct,
       Member ''lock'' td_seqlock_t,
       Member ''lbits4'' td_u8,
       Member ''rbits4'' td_u8,
       Member ''lbits6'' td_u8,
       Member ''rbits6'' td_u8]"

definition struct_netns_xfrm :: ctype where
  "struct_netns_xfrm =
    CStruct [Member ''state_all'' struct_list_head,
       Member ''state_bydst'' (CPtr ''struct hlist_head''),
       Member ''state_bysrc'' (CPtr ''struct hlist_head''),
       Member ''state_byspi'' (CPtr ''struct hlist_head''),
       Member ''state_byseq'' (CPtr ''struct hlist_head''),
       Member ''state_hmask'' c_unsigned_int,
       Member ''state_num'' c_unsigned_int,
       Member ''state_hash_work'' struct_work_struct,
       Member ''policy_all'' struct_list_head,
       Member ''policy_byidx'' (CPtr ''struct hlist_head''),
       Member ''policy_idx_hmask'' c_unsigned_int,
       Member ''idx_generator'' c_unsigned_int,
       Member ''policy_inexact'' (CArray struct_hlist_head 3),
       Member ''policy_bydst'' (CArray struct_xfrm_policy_hash 3),
       Member ''policy_count'' (CArray c_unsigned_int 6),
       Member ''policy_hash_work'' struct_work_struct,
       Member ''policy_hthresh'' struct_xfrm_policy_hthresh,
       Member ''inexact_bins'' struct_list_head,
       Member ''nlsk'' (CPtr ''struct sock''),
       Member ''nlsk_stash'' (CPtr ''struct sock''),
       Member ''sysctl_aevent_etime'' td_u32,
       Member ''sysctl_aevent_rseqth'' td_u32,
       Member ''sysctl_larval_drop'' c_int,
       Member ''sysctl_acq_expires'' td_u32,
       Member ''policy_default'' (CArray td_u8 3),
       Member ''sysctl_hdr'' (CPtr ''struct ctl_table_header''),
       BitField '''' c_long 64,
       BitField '''' c_long 64,
       BitField '''' c_long 64,
       Member ''xfrm4_dst_ops'' struct_dst_ops,
       Member ''xfrm6_dst_ops'' struct_dst_ops,
       Member ''xfrm_state_lock'' td_spinlock_t,
       Member ''xfrm_state_hash_generation'' td_seqcount_spinlock_t,
       Member ''xfrm_policy_hash_generation'' td_seqcount_spinlock_t,
       Member ''xfrm_policy_lock'' td_spinlock_t,
       Member ''xfrm_cfg_mutex'' struct_mutex,
       BitField '''' c_long 64,
       BitField '''' c_long 64]"

definition struct_netns_mpls :: ctype where
  "struct_netns_mpls =
    CStruct [Member ''ip_ttl_propagate'' c_int,
       Member ''default_ttl'' c_int,
       Member ''platform_labels'' td_size_t,
       Member ''platform_label'' (CPtr ''struct mpls_route *''),
       Member ''ctl'' (CPtr ''struct ctl_table_header'')]"

definition struct_netns_can :: ctype where
  "struct_netns_can =
    CStruct [Member ''proc_dir'' (CPtr ''struct proc_dir_entry''),
       Member ''pde_stats'' (CPtr ''struct proc_dir_entry''),
       Member ''pde_reset_stats'' (CPtr ''struct proc_dir_entry''),
       Member ''pde_rcvlist_all'' (CPtr ''struct proc_dir_entry''),
       Member ''pde_rcvlist_fil'' (CPtr ''struct proc_dir_entry''),
       Member ''pde_rcvlist_inv'' (CPtr ''struct proc_dir_entry''),
       Member ''pde_rcvlist_sff'' (CPtr ''struct proc_dir_entry''),
       Member ''pde_rcvlist_eff'' (CPtr ''struct proc_dir_entry''),
       Member ''pde_rcvlist_err'' (CPtr ''struct proc_dir_entry''),
       Member ''bcmproc_dir'' (CPtr ''struct proc_dir_entry''),
       Member ''rx_alldev_list'' (CPtr ''struct can_dev_rcv_lists''),
       Member ''rcvlists_lock'' td_spinlock_t,
       Member ''stattimer'' struct_timer_list,
       Member ''pkg_stats'' (CPtr ''struct can_pkg_stats''),
       Member ''rcv_lists_stats'' (CPtr ''struct can_rcv_lists_stats''),
       Member ''cgw_list'' struct_hlist_head]"

definition struct_netns_xdp :: ctype where
  "struct_netns_xdp =
    CStruct [Member ''lock'' struct_mutex,
       Member ''list'' struct_hlist_head]"

definition struct_netns_smc :: ctype where
  "struct_netns_smc =
    CStruct [Member ''smc_stats'' (CPtr ''struct smc_stats''),
       Member ''mutex_fback_rsn'' struct_mutex,
       Member ''fback_rsn'' (CPtr ''struct smc_stats_rsn''),
       Member ''limit_smc_hs'' td_bool,
       Member ''smc_hdr'' (CPtr ''struct ctl_table_header''),
       Member ''sysctl_autocorking_size'' c_unsigned_int,
       Member ''sysctl_smcr_buf_type'' c_unsigned_int,
       Member ''sysctl_smcr_testlink_time'' c_int,
       Member ''sysctl_wmem'' c_int,
       Member ''sysctl_rmem'' c_int]"

definition struct_net :: ctype where
  "struct_net =
    CStruct [Member ''passive'' td_refcount_t,
       Member ''rules_mod_lock'' td_spinlock_t,
       Member ''dev_unreg_count'' td_atomic_t,
       Member ''dev_base_seq'' c_unsigned_int,
       Member ''ifindex'' c_int,
       Member ''nsid_lock'' td_spinlock_t,
       Member ''fnhe_genid'' td_atomic_t,
       Member ''list'' struct_list_head,
       Member ''exit_list'' struct_list_head,
       Member ''defer_free_list'' struct_llist_node,
       Member ''cleanup_list'' struct_llist_node,
       Member ''key_domain'' (CPtr ''struct key_tag''),
       Member ''user_ns'' (CPtr ''struct user_namespace''),
       Member ''ucounts'' (CPtr ''struct ucounts''),
       Member ''netns_ids'' struct_idr,
       Member ''ns'' struct_ns_common,
       Member ''refcnt_tracker'' struct_ref_tracker_dir,
       Member ''dev_base_head'' struct_list_head,
       Member ''proc_net'' (CPtr ''struct proc_dir_entry''),
       Member ''proc_net_stat'' (CPtr ''struct proc_dir_entry''),
       Member ''sysctls'' struct_ctl_table_set,
       Member ''rtnl'' (CPtr ''struct sock''),
       Member ''genl_sock'' (CPtr ''struct sock''),
       Member ''uevent_sock'' (CPtr ''struct uevent_sock''),
       Member ''dev_name_head'' (CPtr ''struct hlist_head''),
       Member ''dev_index_head'' (CPtr ''struct hlist_head''),
       Member ''netdev_chain'' struct_raw_notifier_head,
       Member ''hash_mix'' td_u32,
       Member ''loopback_dev'' (CPtr ''struct net_device''),
       Member ''rules_ops'' struct_list_head,
       Member ''core'' struct_netns_core,
       Member ''mib'' struct_netns_mib,
       Member ''packet'' struct_netns_packet,
       Member ''unx'' struct_netns_unix,
       Member ''nexthop'' struct_netns_nexthop,
       BitField '''' c_long 64,
       BitField '''' c_long 64,
       BitField '''' c_long 64,
       BitField '''' c_long 64,
       BitField '''' c_long 64,
       BitField '''' c_long 64,
       Member ''ipv4'' struct_netns_ipv4,
       Member ''ipv6'' struct_netns_ipv6,
       Member ''ieee802154_lowpan'' struct_netns_ieee802154_lowpan,
       Member ''sctp'' struct_netns_sctp,
       Member ''nf'' struct_netns_nf,
       Member ''ct'' struct_netns_ct,
       Member ''nft'' struct_netns_nftables,
       Member ''ft'' struct_netns_ft,
       Member ''wext_nlevents'' struct_sk_buff_head,
       Member ''gen'' (CPtr ''struct net_generic''),
       Member ''bpf'' struct_netns_bpf,
       BitField '''' c_long 64,
       BitField '''' c_long 64,
       BitField '''' c_long 64,
       BitField '''' c_long 64,
       BitField '''' c_long 64,
       BitField '''' c_long 64,
       Member ''xfrm'' struct_netns_xfrm,
       Member ''net_cookie'' td_u64,
       Member ''ipvs'' (CPtr ''struct netns_ipvs''),
       Member ''mpls'' struct_netns_mpls,
       Member ''can'' struct_netns_can,
       Member ''xdp'' struct_netns_xdp,
       Member ''crypto_nlsk'' (CPtr ''struct sock''),
       Member ''diag_nlsk'' (CPtr ''struct sock''),
       Member ''smc'' struct_netns_smc,
       BitField '''' c_long 64,
       BitField '''' c_long 64,
       BitField '''' c_long 64,
       BitField '''' c_long 64]"

subsection \<open>Sizes and alignments\<close>

lemma struct_xarray_layout [ctype_layout]:
  "layout struct_xarray = (16, 8)" "wf_ctype struct_xarray"
  by (simp_all add: struct_xarray_def layout_rules ctype_layout del: One_nat_def)

lemma struct_idr_layout [ctype_layout]:
  "layout struct_idr = (24, 8)" "wf_ctype struct_idr"
  by (simp_all add: struct_idr_def layout_rules ctype_layout del: One_nat_def)

lemma struct_ns_common_layout [ctype_layout]:
  "layout struct_ns_common = (24, 8)" "wf_ctype struct_ns_common"
  by (simp_all add: struct_ns_common_def layout_rules ctype_layout del: One_nat_def)

lemma struct_ref_tracker_dir_layout [ctype_layout]:
  "layout struct_ref_tracker_dir = (0, 1)" "wf_ctype struct_ref_tracker_dir"
  by (simp_all add: struct_ref_tracker_dir_def layout_rules ctype_layout del: One_nat_def)

lemma struct_ctl_table_header_layout [ctype_layout]:
  "layout struct_ctl_table_header = (80, 8)" "wf_ctype struct_ctl_table_header"
  by (simp_all add: struct_ctl_table_header_def layout_rules ctype_layout del: One_nat_def)

lemma struct_ctl_dir_layout [ctype_layout]:
  "layout struct_ctl_dir = (88, 8)" "wf_ctype struct_ctl_dir"
  by (simp_all add: struct_ctl_dir_def layout_rules ctype_layout del: One_nat_def)

lemma struct_ctl_table_set_layout [ctype_layout]:
  "layout struct_ctl_table_set = (96, 8)" "wf_ctype struct_ctl_table_set"
  by (simp_all add: struct_ctl_table_set_def layout_rules ctype_layout del: One_nat_def)

lemma struct_raw_notifier_head_layout [ctype_layout]:
  "layout struct_raw_notifier_head = (8, 8)" "wf_ctype struct_raw_notifier_head"
  by (simp_all add: struct_raw_notifier_head_def layout_rules ctype_layout del: One_nat_def)

lemma struct_netns_core_layout [ctype_layout]:
  "layout struct_netns_core = (24, 8)" "wf_ctype struct_netns_core"
  by (simp_all add: struct_netns_core_def layout_rules ctype_layout del: One_nat_def)

lemma struct_netns_mib_layout [ctype_layout]:
  "layout struct_netns_mib = (128, 8)" "wf_ctype struct_netns_mib"
  by (simp_all add: struct_netns_mib_def layout_rules ctype_layout del: One_nat_def)

lemma struct_netns_packet_layout [ctype_layout]:
  "layout struct_netns_packet = (40, 8)" "wf_ctype struct_netns_packet"
  by (simp_all add: struct_netns_packet_def layout_rules ctype_layout del: One_nat_def)

lemma struct_unix_table_layout [ctype_layout]:
  "layout struct_unix_table = (16, 8)" "wf_ctype struct_unix_table"
  by (simp_all add: struct_unix_table_def layout_rules ctype_layout del: One_nat_def)

lemma struct_netns_unix_layout [ctype_layout]:
  "layout struct_netns_unix = (32, 8)" "wf_ctype struct_netns_unix"
  by (simp_all add: struct_netns_unix_def layout_rules ctype_layout del: One_nat_def)

lemma struct_blocking_notifier_head_layout [ctype_layout]:
  "layout struct_blocking_notifier_head = (48, 8)" "wf_ctype struct_blocking_notifier_head"
  by (simp_all add: struct_blocking_notifier_head_def layout_rules ctype_layout del: One_nat_def)

lemma struct_netns_nexthop_layout [ctype_layout]:
  "layout struct_netns_nexthop = (72, 8)" "wf_ctype struct_netns_nexthop"
  by (simp_all add: struct_netns_nexthop_def layout_rules ctype_layout del: One_nat_def)

lemma struct_inet_timewait_death_row_layout [ctype_layout]:
  "layout struct_inet_timewait_death_row = (128, 8)" "wf_ctype struct_inet_timewait_death_row"
  by (simp_all add: struct_inet_timewait_death_row_def layout_rules ctype_layout del: One_nat_def)

lemma struct_local_ports_layout [ctype_layout]:
  "layout struct_local_ports = (20, 4)" "wf_ctype struct_local_ports"
  by (simp_all add: struct_local_ports_def layout_rules ctype_layout del: One_nat_def)

lemma struct_ping_group_range_layout [ctype_layout]:
  "layout struct_ping_group_range = (16, 4)" "wf_ctype struct_ping_group_range"
  by (simp_all add: struct_ping_group_range_def layout_rules ctype_layout del: One_nat_def)

lemma td_siphash_key_t_layout [ctype_layout]:
  "layout td_siphash_key_t = (16, 8)" "wf_ctype td_siphash_key_t"
  by (simp_all add: td_siphash_key_t_def layout_rules ctype_layout del: One_nat_def)

lemma struct_netns_ipv4_layout [ctype_layout]:
  "layout struct_netns_ipv4 = (768, 8)" "wf_ctype struct_netns_ipv4"
  by (simp_all add: struct_netns_ipv4_def layout_rules ctype_layout del: One_nat_def)

lemma struct_dst_ops_layout [ctype_layout]:
  "layout struct_dst_ops = (192, 8)" "wf_ctype struct_dst_ops"
  by (simp_all add: struct_dst_ops_def layout_rules ctype_layout del: One_nat_def)

lemma struct_netns_sysctl_ipv6_layout [ctype_layout]:
  "layout struct_netns_sysctl_ipv6 = (184, 8)" "wf_ctype struct_netns_sysctl_ipv6"
  by (simp_all add: struct_netns_sysctl_ipv6_def layout_rules ctype_layout del: One_nat_def)

lemma struct_delayed_work_layout [ctype_layout]:
  "layout struct_delayed_work = (88, 8)" "wf_ctype struct_delayed_work"
  by (simp_all add: struct_delayed_work_def layout_rules ctype_layout del: One_nat_def)

lemma struct_netns_ipv6_layout [ctype_layout]:
  "layout struct_netns_ipv6 = (832, 8)" "wf_ctype struct_netns_ipv6"
  by (simp_all add: struct_netns_ipv6_def layout_rules ctype_layout del: One_nat_def)

lemma struct_netns_sysctl_lowpan_layout [ctype_layout]:
  "layout struct_netns_sysctl_lowpan = (8, 8)" "wf_ctype struct_netns_sysctl_lowpan"
  by (simp_all add: struct_netns_sysctl_lowpan_def layout_rules ctype_layout del: One_nat_def)

lemma struct_netns_ieee802154_lowpan_layout [ctype_layout]:
  "layout struct_netns_ieee802154_lowpan = (16, 8)" "wf_ctype struct_netns_ieee802154_lowpan"
  by (simp_all add: struct_netns_ieee802154_lowpan_def layout_rules ctype_layout del: One_nat_def)

lemma struct_netns_sctp_layout [ctype_layout]:
  "layout struct_netns_sctp = (296, 8)" "wf_ctype struct_netns_sctp"
  by (simp_all add: struct_netns_sctp_def layout_rules ctype_layout del: One_nat_def)

lemma struct_netns_nf_layout [ctype_layout]:
  "layout struct_netns_nf = (256, 8)" "wf_ctype struct_netns_nf"
  by (simp_all add: struct_netns_nf_def layout_rules ctype_layout del: One_nat_def)

lemma struct_nf_generic_net_layout [ctype_layout]:
  "layout struct_nf_generic_net = (4, 4)" "wf_ctype struct_nf_generic_net"
  by (simp_all add: struct_nf_generic_net_def layout_rules ctype_layout del: One_nat_def)

lemma struct_nf_tcp_net_layout [ctype_layout]:
  "layout struct_nf_tcp_net = (64, 4)" "wf_ctype struct_nf_tcp_net"
  by (simp_all add: struct_nf_tcp_net_def layout_rules ctype_layout del: One_nat_def)

lemma struct_nf_udp_net_layout [ctype_layout]:
  "layout struct_nf_udp_net = (12, 4)" "wf_ctype struct_nf_udp_net"
  by (simp_all add: struct_nf_udp_net_def layout_rules ctype_layout del: One_nat_def)

lemma struct_nf_icmp_net_layout [ctype_layout]:
  "layout struct_nf_icmp_net = (4, 4)" "wf_ctype struct_nf_icmp_net"
  by (simp_all add: struct_nf_icmp_net_def layout_rules ctype_layout del: One_nat_def)

lemma struct_nf_dccp_net_layout [ctype_layout]:
  "layout struct_nf_dccp_net = (44, 4)" "wf_ctype struct_nf_dccp_net"
  by (simp_all add: struct_nf_dccp_net_def layout_rules ctype_layout del: One_nat_def)

lemma struct_nf_sctp_net_layout [ctype_layout]:
  "layout struct_nf_sctp_net = (40, 4)" "wf_ctype struct_nf_sctp_net"
  by (simp_all add: struct_nf_sctp_net_def layout_rules ctype_layout del: One_nat_def)

lemma struct_nf_gre_net_layout [ctype_layout]:
  "layout struct_nf_gre_net = (24, 8)" "wf_ctype struct_nf_gre_net"
  by (simp_all add: struct_nf_gre_net_def layout_rules ctype_layout del: One_nat_def)

lemma struct_nf_ip_net_layout [ctype_layout]:
  "layout struct_nf_ip_net = (200, 8)" "wf_ctype struct_nf_ip_net"
  by (simp_all add: struct_nf_ip_net_def layout_rules ctype_layout del: One_nat_def)

lemma struct_netns_ct_layout [ctype_layout]:
  "layout struct_netns_ct = (232, 8)" "wf_ctype struct_netns_ct"
  by (simp_all add: struct_netns_ct_def layout_rules ctype_layout del: One_nat_def)

lemma struct_netns_nftables_layout [ctype_layout]:
  "layout struct_netns_nftables = (1, 1)" "wf_ctype struct_netns_nftables"
  by (simp_all add: struct_netns_nftables_def layout_rules ctype_layout del: One_nat_def)

lemma struct_netns_ft_layout [ctype_layout]:
  "layout struct_netns_ft = (8, 8)" "wf_ctype struct_netns_ft"
  by (simp_all add: struct_netns_ft_def layout_rules ctype_layout del: One_nat_def)

lemma struct_netns_bpf_layout [ctype_layout]:
  "layout struct_netns_bpf = (64, 8)" "wf_ctype struct_netns_bpf"
  by (simp_all add: struct_netns_bpf_def layout_rules ctype_layout del: One_nat_def)

lemma struct_xfrm_policy_hash_layout [ctype_layout]:
  "layout struct_xfrm_policy_hash = (16, 8)" "wf_ctype struct_xfrm_policy_hash"
  by (simp_all add: struct_xfrm_policy_hash_def layout_rules ctype_layout del: One_nat_def)

lemma struct_xfrm_policy_hthresh_layout [ctype_layout]:
  "layout struct_xfrm_policy_hthresh = (48, 8)" "wf_ctype struct_xfrm_policy_hthresh"
  by (simp_all add: struct_xfrm_policy_hthresh_def layout_rules ctype_layout del: One_nat_def)

lemma struct_netns_xfrm_layout [ctype_layout]:
  "layout struct_netns_xfrm = (832, 8)" "wf_ctype struct_netns_xfrm"
  by (simp_all add: struct_netns_xfrm_def layout_rules ctype_layout del: One_nat_def)

lemma struct_netns_mpls_layout [ctype_layout]:
  "layout struct_netns_mpls = (32, 8)" "wf_ctype struct_netns_mpls"
  by (simp_all add: struct_netns_mpls_def layout_rules ctype_layout del: One_nat_def)

lemma struct_netns_can_layout [ctype_layout]:
  "layout struct_netns_can = (160, 8)" "wf_ctype struct_netns_can"
  by (simp_all add: struct_netns_can_def layout_rules ctype_layout del: One_nat_def)

lemma struct_netns_xdp_layout [ctype_layout]:
  "layout struct_netns_xdp = (40, 8)" "wf_ctype struct_netns_xdp"
  by (simp_all add: struct_netns_xdp_def layout_rules ctype_layout del: One_nat_def)

lemma struct_netns_smc_layout [ctype_layout]:
  "layout struct_netns_smc = (88, 8)" "wf_ctype struct_netns_smc"
  by (simp_all add: struct_netns_smc_def layout_rules ctype_layout del: One_nat_def)

lemma struct_net_layout [ctype_layout]:
  "layout struct_net = (4480, 8)" "wf_ctype struct_net"
  by (simp_all add: struct_net_def layout_rules ctype_layout del: One_nat_def)

end
