(* ===== verification/Bytes.thy ===== *)
theory Bytes
  imports Prelude
begin

text \<open>
  Memory representation of integers: little- and big-endian byte strings, reading them back,
  C's \<^verbatim>\<open>memcpy\<close> into a fixed buffer and Go's slice expressions on byte strings.
\<close>

datatype endian = LittleEndian | BigEndian

definition le_bytes :: "nat \<Rightarrow> 'a::len word \<Rightarrow> bytes" where
  "le_bytes n w = map (\<lambda>i. ucast (drop_bit (8 * i) w)) [0..<n]"

primrec of_le :: "bytes \<Rightarrow> 'a::len word" where
  "of_le [] = 0"
| "of_le (b # bs) = or (ucast b) (push_bit 8 (of_le bs))"

fun mem_bytes :: "endian \<Rightarrow> nat \<Rightarrow> 'a::len word \<Rightarrow> bytes" where
  "mem_bytes LittleEndian n w = le_bytes n w"
| "mem_bytes BigEndian n w = rev (le_bytes n w)"

fun of_mem :: "endian \<Rightarrow> bytes \<Rightarrow> 'a::len word" where
  "of_mem LittleEndian bs = of_le bs"
| "of_mem BigEndian bs = of_le (rev bs)"

definition memcpy :: "bytes \<Rightarrow> bytes \<Rightarrow> bytes" where
  "memcpy dst src = src @ drop (length src) dst"

definition go_slice :: "nat \<Rightarrow> nat \<Rightarrow> 'a list \<Rightarrow> 'a list" where
  "go_slice i j xs = take (j - i) (drop i xs)"

subsection \<open>Lengths\<close>

lemma length_le_bytes [simp]: "length (le_bytes n w) = n"
  by (simp add: le_bytes_def)

lemma length_mem_bytes [simp]: "length (mem_bytes e n w) = n"
  by (cases e) simp_all

lemma length_memcpy [simp]: "length src \<le> length dst \<Longrightarrow> length (memcpy dst src) = length dst"
  by (simp add: memcpy_def)

lemma length_go_slice [simp]: "j \<le> length xs \<Longrightarrow> length (go_slice i j xs) = j - i"
  by (simp add: go_slice_def)

lemma go_slice_append_left: "j \<le> length xs \<Longrightarrow> go_slice i j (xs @ ys) = go_slice i j xs"
  by (auto simp: go_slice_def)

lemma go_slice_append_right:
  "length xs \<le> i \<Longrightarrow> go_slice i j (xs @ ys) = go_slice (i - length xs) (j - length xs) ys"
  by (simp add: go_slice_def)

lemma go_slice_Cons: "0 < i \<Longrightarrow> go_slice i j (x # xs) = go_slice (i - 1) (j - 1) xs"
  by (cases i) (auto simp: go_slice_def)

lemma go_slice_all: "length xs = n \<Longrightarrow> go_slice 0 n xs = xs"
  by (simp add: go_slice_def)

subsection \<open>Reading back what was stored\<close>

lemma bit_of_le:
  "bit (of_le bs :: 'a::len word) i \<longleftrightarrow> i < LENGTH('a) \<and> i div 8 < length bs \<and> bit (bs ! (i div 8)) (i mod 8)"
proof (induction bs arbitrary: i)
  case Nil
  then show ?case by simp
next
  case (Cons b bs)
  show ?case
  proof (cases "i < 8")
    case True
    then show ?thesis by (simp add: bit_simps)
  next
    case False
    then obtain j where i: "i = j + 8" by (metis add.commute le_Suc_ex not_less)
    have b: "\<not> bit b i" using False bit_imp_le_length [of b i] by auto
    have d: "(j + 8) div 8 = Suc (j div 8)" by simp
    have "bit (of_le (b # bs) :: 'a word) i \<longleftrightarrow> i < LENGTH('a) \<and> bit (of_le bs :: 'a word) j"
      using b by (auto simp: bit_simps i)
    also have "\<dots> \<longleftrightarrow> i < LENGTH('a) \<and> i div 8 < length (b # bs) \<and> bit ((b # bs) ! (i div 8)) (i mod 8)"
      by (auto simp: Cons.IH i d)
    finally show ?thesis .
  qed
qed

lemma of_le_bytes: "LENGTH('a::len) \<le> 8 * n \<Longrightarrow> of_le (le_bytes n (w :: 'a word)) = w"
proof (rule bit_word_eqI)
  fix i assume n: "LENGTH('a) \<le> 8 * n" and i: "i < LENGTH('a)"
  then have k: "i div 8 < n" by (simp add: less_mult_imp_div_less mult.commute)
  have "8 * (i div 8) + i mod 8 = i" by simp
  then show "bit (of_le (le_bytes n w) :: 'a word) i = bit w i"
    using i k by (simp add: bit_of_le le_bytes_def bit_simps)
qed

theorem of_mem_bytes: "LENGTH('a::len) \<le> 8 * n \<Longrightarrow> of_mem e (mem_bytes e n (w :: 'a word)) = w"
  by (cases e) (simp_all add: of_le_bytes)

lemma le_bytes_of_le:
  "8 * length bs \<le> LENGTH('a::len) \<Longrightarrow> le_bytes (length bs) (of_le bs :: 'a word) = bs"
proof (rule nth_equalityI)
  fix i assume n: "8 * length bs \<le> LENGTH('a)"
    and i: "i < length (le_bytes (length bs) (of_le bs :: 'a word))"
  show "le_bytes (length bs) (of_le bs :: 'a word) ! i = bs ! i"
  proof (rule bit_word_eqI)
    fix j assume j: "j < LENGTH(8)"
    then have "(8 * i + j) div 8 = i" "(8 * i + j) mod 8 = j" "8 * i + j < LENGTH('a)"
      using n i by auto
    then show "bit (le_bytes (length bs) (of_le bs :: 'a word) ! i) j = bit (bs ! i) j"
      using i j by (simp add: le_bytes_def bit_simps bit_of_le)
  qed
qed simp

theorem mem_bytes_of_mem:
  "8 * n \<le> LENGTH('a::len) \<Longrightarrow> length bs = n \<Longrightarrow> mem_bytes e n (of_mem e bs :: 'a word) = bs"
  using le_bytes_of_le [of bs, where 'a = 'a] le_bytes_of_le [of "rev bs", where 'a = 'a]
  by (cases e) auto

subsection \<open>Evaluation on numerals\<close>

lemma le_bytes_0: "le_bytes 0 w = []"
  by (simp add: le_bytes_def)

lemma le_bytes_Suc: "le_bytes (Suc n) w = ucast w # le_bytes n (drop_bit 8 w)"
  by (simp add: le_bytes_def upt_conv_Cons map_Suc_upt [symmetric] o_def drop_bit_drop_bit add.commute del: upt_Suc)

lemma le_bytes_numeral: "le_bytes (numeral k) w = ucast w # le_bytes (pred_numeral k) (drop_bit 8 w)"
  by (simp add: numeral_eq_Suc le_bytes_Suc)

lemma of_le_zeros: "of_le (replicate n 0) = 0"
  by (induction n) auto

lemmas byte_eval = le_bytes_0 le_bytes_Suc le_bytes_numeral of_le_zeros

end
