(* ===== verification/Socket_Flow.thy ===== *)
theory Socket_Flow
  imports Bytes Kernel_Sock
begin

text \<open>
  The eBPF program \<^verbatim>\<open>internal/agent/ebpf/socket_flow.bpf.c\<close>: its event structure, its maps and
  its seven probe handlers, statement by statement.

  Code outside the repository enters as parameters. \<open>kernel_view\<close> is what a handler reads
  through CO-RE accesses: the byte order of the target, the field offsets the loader patches in
  (relocated from the running kernel's type information) and \<^verbatim>\<open>bpf_probe_read_kernel\<close>, as the
  content of the destination buffer after the call. \<open>bpf_ctx\<close> holds the values of the clock,
  cgroup and thread helpers during one handler run. \<open>bpf_helpers\<close> holds the map and
  ring-buffer helpers, over abstract map and ring states; what the program relies on is the
  locale \<open>bpf_kernel\<close>.
\<close>

subsection \<open>Constants and the event structure\<close>

definition AF_INET :: u8 where "AF_INET = 2"
definition AF_INET6 :: u8 where "AF_INET6 = 10"
definition IPPROTO_TCP :: u8 where "IPPROTO_TCP = 6"
definition IPPROTO_UDP :: u8 where "IPPROTO_UDP = 17"

record flow_event =
  monotonic_ns :: u64
  cgroup_id :: u64
  pid :: u32
  family :: u8
  protocol :: u8
  state :: u8
  pad1 :: u8
  local_port :: u16
  remote_port :: u16
  local_addr :: bytes
  remote_addr :: bytes
  pad2 :: u32
  sent :: u64
  received :: u64

text \<open>The same declaration as a C type, for its layout.\<close>

definition struct_flow_event :: ctype where
  "struct_flow_event = CStruct [
     Member ''monotonic_ns'' td___u64,
     Member ''cgroup_id'' td___u64,
     Member ''pid'' td___u32,
     Member ''family'' td___u8,
     Member ''protocol'' td___u8,
     Member ''state'' td___u8,
     Member ''pad1'' td___u8,
     Member ''local_port'' td___be16,
     Member ''remote_port'' td___be16,
     Member ''local_addr'' (CArray td___u8 16),
     Member ''remote_addr'' (CArray td___u8 16),
     Member ''pad2'' td___u32,
     Member ''sent'' td___u64,
     Member ''received'' td___u64]"

definition events_max_entries :: nat where "events_max_entries = 2 ^ 24"
definition udp_receives_max_entries :: nat where "udp_receives_max_entries = 16384"
definition pending_sends_max_entries :: nat where "pending_sends_max_entries = 16384"

subsection \<open>The kernel as the program sees it\<close>

record kernel_view =
  target_endian :: endian
  core_offset :: "string list \<Rightarrow> nat"
  probe_read_kernel :: "u64 \<Rightarrow> nat \<Rightarrow> bytes"

record bpf_ctx =
  ktime_ns :: u64
  current_cgroup_id :: u64
  current_pid_tgid :: u64

record ('m, 'r) bpf_helpers =
  map_lookup_elem :: "'m \<Rightarrow> u64 \<Rightarrow> flow_event option \<times> 'm"
  map_update_elem :: "'m \<Rightarrow> u64 \<Rightarrow> flow_event \<Rightarrow> 'm"
  map_delete_elem :: "'m \<Rightarrow> u64 \<Rightarrow> 'm"
  ringbuf_reserve :: "'r \<Rightarrow> nat \<Rightarrow> 'r option"
  ringbuf_submit :: "'r \<Rightarrow> flow_event \<Rightarrow> 'r"
  ringbuf_discard :: "'r \<Rightarrow> 'r"

record ('m, 'r) bpf_state =
  events :: 'r
  udp_receives :: 'm
  pending_sends :: 'm

text \<open>\<^verbatim>\<open>bpf_htons\<close> of a value on the target, and a CO-RE read of a field of \<^verbatim>\<open>sk->__sk_common\<close>.\<close>

definition bpf_htons :: "endian \<Rightarrow> u16 \<Rightarrow> u16" where
  "bpf_htons e x = (case e of LittleEndian \<Rightarrow> of_le (rev (le_bytes 2 x)) | BigEndian \<Rightarrow> x)"

definition core_read :: "kernel_view \<Rightarrow> u64 \<Rightarrow> string list \<Rightarrow> nat \<Rightarrow> bytes" where
  "core_read M sk path n = probe_read_kernel M (sk + of_nat (core_offset M path)) n"

definition core_read_int :: "kernel_view \<Rightarrow> u64 \<Rightarrow> string list \<Rightarrow> nat \<Rightarrow> 'a::len word" where
  "core_read_int M sk path n = of_mem (target_endian M) (core_read M sk path n)"

definition zero_event :: flow_event where
  "zero_event = \<lparr>monotonic_ns = 0, cgroup_id = 0, pid = 0, family = 0, protocol = 0, state = 0,
     pad1 = 0, local_port = 0, remote_port = 0, local_addr = replicate 16 0,
     remote_addr = replicate 16 0, pad2 = 0, sent = 0, received = 0\<rparr>"

subsection \<open>Operations\<close>

text \<open>\<^verbatim>\<open>fill_event\<close> returns the C return value and the event it has written. The 16-bit family of
  the socket is stored in an 8-bit field.\<close>

definition fill_event :: "kernel_view \<Rightarrow> bpf_ctx \<Rightarrow> u64 \<Rightarrow> u8 \<Rightarrow> nat \<times> flow_event" where
  "fill_event M c sk proto =
     (let event = zero_event
        \<lparr>monotonic_ns := ktime_ns c,
         cgroup_id := current_cgroup_id c,
         pid := ucast (drop_bit 32 (current_pid_tgid c)),
         family := ucast (core_read_int M sk [''__sk_common'', ''skc_family''] 2 :: u16),
         protocol := proto,
         state := core_read_int M sk [''__sk_common'', ''skc_state''] 1,
         local_port := bpf_htons (target_endian M) (core_read_int M sk [''__sk_common'', ''skc_num''] 2),
         remote_port := core_read_int M sk [''__sk_common'', ''skc_dport''] 2\<rparr>
      in if family event = AF_INET then
           let local_v4 = core_read_int M sk [''__sk_common'', ''skc_rcv_saddr''] 4 :: u32;
               remote_v4 = core_read_int M sk [''__sk_common'', ''skc_daddr''] 4 :: u32
           in (1, event
             \<lparr>local_addr := memcpy (local_addr event) (mem_bytes (target_endian M) 4 local_v4),
              remote_addr := memcpy (remote_addr event) (mem_bytes (target_endian M) 4 remote_v4)\<rparr>)
         else if family event = AF_INET6 then
           (1, event
             \<lparr>local_addr := core_read M sk
                [''__sk_common'', ''skc_v6_rcv_saddr'', ''in6_u'', ''u6_addr8''] 16,
              remote_addr := core_read M sk
                [''__sk_common'', ''skc_v6_daddr'', ''in6_u'', ''u6_addr8''] 16\<rparr>)
         else (0, event))"

definition emit :: "('m, 'r) bpf_helpers \<Rightarrow> kernel_view \<Rightarrow> bpf_ctx \<Rightarrow> ('m, 'r) bpf_state \<Rightarrow>
    u64 \<Rightarrow> u8 \<Rightarrow> u64 \<Rightarrow> u64 \<Rightarrow> ('m, 'r) bpf_state" where
  "emit H M c s sk proto snt rcvd =
     (case ringbuf_reserve H (events s) (sizeof struct_flow_event) of
        None \<Rightarrow> s
      | Some r \<Rightarrow>
          (case fill_event M c sk proto of (ret, event) \<Rightarrow>
             if ret = 0 then s\<lparr>events := ringbuf_discard H r\<rparr>
             else s\<lparr>events := ringbuf_submit H r (event\<lparr>sent := snt, received := rcvd\<rparr>)\<rparr>))"

definition save_send :: "('m, 'r) bpf_helpers \<Rightarrow> kernel_view \<Rightarrow> bpf_ctx \<Rightarrow> ('m, 'r) bpf_state \<Rightarrow>
    u64 \<Rightarrow> u8 \<Rightarrow> ('m, 'r) bpf_state" where
  "save_send H M c s sk proto =
     (case fill_event M c sk proto of (ret, event) \<Rightarrow>
        if ret = 0 then s
        else s\<lparr>pending_sends := map_update_elem H (pending_sends s) (current_pid_tgid c) event\<rparr>)"

text \<open>The C \<^verbatim>\<open>int copied\<close> is a 32-bit word read as signed; storing it in a 64-bit field extends
  its sign.\<close>

definition emit_send :: "('m, 'r) bpf_helpers \<Rightarrow> bpf_ctx \<Rightarrow> ('m, 'r) bpf_state \<Rightarrow> 32 word \<Rightarrow>
    ('m, 'r) bpf_state" where
  "emit_send H c s copied =
     (case map_lookup_elem H (pending_sends s) (current_pid_tgid c) of
        (None, m) \<Rightarrow> s\<lparr>pending_sends := m\<rparr>
      | (Some saved, m) \<Rightarrow>
          (let s1 = s\<lparr>pending_sends := m\<rparr>;
               s2 = (if 0 <s copied then
                       case ringbuf_reserve H (events s1) (sizeof struct_flow_event) of
                         None \<Rightarrow> s1
                       | Some r \<Rightarrow> s1\<lparr>events := ringbuf_submit H r (saved\<lparr>sent := scast copied\<rparr>)\<rparr>
                     else s1)
           in s2\<lparr>pending_sends := map_delete_elem H (pending_sends s2) (current_pid_tgid c)\<rparr>))"

definition trace_tcp_sendmsg where
  "trace_tcp_sendmsg H M c s sk = save_send H M c s sk IPPROTO_TCP"

definition trace_tcp_sendmsg_return where
  "trace_tcp_sendmsg_return H c s copied = emit_send H c s copied"

definition trace_tcp_cleanup_rbuf :: "('m, 'r) bpf_helpers \<Rightarrow> kernel_view \<Rightarrow> bpf_ctx \<Rightarrow>
    ('m, 'r) bpf_state \<Rightarrow> u64 \<Rightarrow> 32 word \<Rightarrow> ('m, 'r) bpf_state" where
  "trace_tcp_cleanup_rbuf H M c s sk copied =
     (if 0 <s copied then emit H M c s sk IPPROTO_TCP 0 (scast copied) else s)"

definition trace_udp_sendmsg where
  "trace_udp_sendmsg H M c s sk = save_send H M c s sk IPPROTO_UDP"

definition trace_udp_sendmsg_return where
  "trace_udp_sendmsg_return H c s copied = emit_send H c s copied"

definition trace_udp_recvmsg :: "('m, 'r) bpf_helpers \<Rightarrow> kernel_view \<Rightarrow> bpf_ctx \<Rightarrow>
    ('m, 'r) bpf_state \<Rightarrow> u64 \<Rightarrow> ('m, 'r) bpf_state" where
  "trace_udp_recvmsg H M c s sk =
     (case fill_event M c sk IPPROTO_UDP of (ret, event) \<Rightarrow>
        if ret = 0 then s
        else s\<lparr>udp_receives := map_update_elem H (udp_receives s) (current_pid_tgid c) event\<rparr>)"

definition trace_udp_recvmsg_return :: "('m, 'r) bpf_helpers \<Rightarrow> bpf_ctx \<Rightarrow>
    ('m, 'r) bpf_state \<Rightarrow> 32 word \<Rightarrow> ('m, 'r) bpf_state" where
  "trace_udp_recvmsg_return H c s copied =
     (case map_lookup_elem H (udp_receives s) (current_pid_tgid c) of
        (None, m) \<Rightarrow> s\<lparr>udp_receives := m\<rparr>
      | (Some saved, m) \<Rightarrow>
          (let s1 = s\<lparr>udp_receives := m\<rparr> in
           if copied \<le>s 0 then
             s1\<lparr>udp_receives := map_delete_elem H (udp_receives s1) (current_pid_tgid c)\<rparr>
           else
             (let s2 = (case ringbuf_reserve H (events s1) (sizeof struct_flow_event) of
                          None \<Rightarrow> s1
                        | Some r \<Rightarrow> s1\<lparr>events := ringbuf_submit H r (saved\<lparr>received := scast copied\<rparr>)\<rparr>)
              in s2\<lparr>udp_receives := map_delete_elem H (udp_receives s2) (current_pid_tgid c)\<rparr>)))"

subsection \<open>Firings of the probes\<close>

text \<open>One firing is a probe with its arguments, the helper values of that run and the kernel
  memory it sees. Handlers run to completion; firings of all threads and CPUs interleave as one
  sequence.\<close>

datatype probe =
    Tcp_sendmsg u64
  | Tcp_sendmsg_return "32 word"
  | Tcp_cleanup_rbuf u64 "32 word"
  | Udp_sendmsg u64
  | Udp_sendmsg_return "32 word"
  | Udp_recvmsg u64
  | Udp_recvmsg_return "32 word"

type_synonym firing = "bpf_ctx \<times> kernel_view \<times> probe"

fun fire :: "('m, 'r) bpf_helpers \<Rightarrow> firing \<Rightarrow> ('m, 'r) bpf_state \<Rightarrow> ('m, 'r) bpf_state" where
  "fire H (c, M, Tcp_sendmsg sk) s = trace_tcp_sendmsg H M c s sk"
| "fire H (c, M, Tcp_sendmsg_return n) s = trace_tcp_sendmsg_return H c s n"
| "fire H (c, M, Tcp_cleanup_rbuf sk n) s = trace_tcp_cleanup_rbuf H M c s sk n"
| "fire H (c, M, Udp_sendmsg sk) s = trace_udp_sendmsg H M c s sk"
| "fire H (c, M, Udp_sendmsg_return n) s = trace_udp_sendmsg_return H c s n"
| "fire H (c, M, Udp_recvmsg sk) s = trace_udp_recvmsg H M c s sk"
| "fire H (c, M, Udp_recvmsg_return n) s = trace_udp_recvmsg_return H c s n"

definition run_probes :: "('m, 'r) bpf_helpers \<Rightarrow> firing list \<Rightarrow> ('m, 'r) bpf_state \<Rightarrow> ('m, 'r) bpf_state" where
  "run_probes H fs s = fold (fire H) fs s"

subsection \<open>Layout of the event\<close>

lemma struct_flow_event_layout [ctype_layout]:
  "layout struct_flow_event = (80, 8)" "wf_ctype struct_flow_event"
  by (simp_all add: struct_flow_event_def layout_rules ctype_layout del: One_nat_def)

end
