(* ===== verification/Kernel_Access.thy ===== *)
theory Kernel_Access
  imports Kernel_Net Socket_Flow
begin

text \<open>
  The declarations of \<^verbatim>\<open>vmlinux.h\<close> as one table, and what the layout theorems give for them:
  every member access stays inside its object. Then the accesses of \<^verbatim>\<open>fill_event\<close>: the offsets
  its paths denote, that they read only the common prefix of a socket, and where that prefix
  lies inside the protocol sockets.
\<close>

subsection \<open>The declarations\<close>

definition sock_types :: "(string \<times> ctype) list" where
  "sock_types =
     [(''typedef __u64'', td___u64),
      (''typedef __addrpair'', td___addrpair),
      (''typedef __u32'', td___u32),
      (''typedef __be32'', td___be32),
      (''typedef __u16'', td___u16),
      (''typedef __portpair'', td___portpair),
      (''typedef __be16'', td___be16),
      (''struct hlist_node'', struct_hlist_node),
      (''typedef possible_net_t'', td_possible_net_t),
      (''typedef __u8'', td___u8),
      (''struct in6_addr'', struct_in6_addr),
      (''typedef __s64'', td___s64),
      (''typedef s64'', td_s64),
      (''typedef atomic64_t'', td_atomic64_t),
      (''struct hlist_nulls_node'', struct_hlist_nulls_node),
      (''typedef u32'', td_u32),
      (''typedef atomic_t'', td_atomic_t),
      (''struct refcount_struct'', struct_refcount_struct),
      (''typedef refcount_t'', td_refcount_t),
      (''struct sock_common'', struct_sock_common),
      (''typedef u8'', td_u8),
      (''typedef u16'', td_u16),
      (''struct qspinlock'', struct_qspinlock),
      (''typedef arch_spinlock_t'', td_arch_spinlock_t),
      (''struct raw_spinlock'', struct_raw_spinlock),
      (''struct spinlock'', struct_spinlock),
      (''typedef spinlock_t'', td_spinlock_t),
      (''struct list_head'', struct_list_head),
      (''struct wait_queue_head'', struct_wait_queue_head),
      (''typedef wait_queue_head_t'', td_wait_queue_head_t),
      (''typedef socket_lock_t'', td_socket_lock_t),
      (''struct sk_buff_list'', struct_sk_buff_list),
      (''struct sk_buff_head'', struct_sk_buff_head),
      (''struct rb_root'', struct_rb_root),
      (''typedef __s32'', td___s32),
      (''struct timer_list'', struct_timer_list),
      (''struct page_frag'', struct_page_frag),
      (''typedef u64'', td_u64),
      (''typedef netdev_features_t'', td_netdev_features_t),
      (''typedef gfp_t'', td_gfp_t),
      (''struct qrwlock'', struct_qrwlock),
      (''typedef arch_rwlock_t'', td_arch_rwlock_t),
      (''typedef rwlock_t'', td_rwlock_t),
      (''typedef __kernel_uid32_t'', td___kernel_uid32_t),
      (''typedef uid_t'', td_uid_t),
      (''typedef kuid_t'', td_kuid_t),
      (''typedef ktime_t'', td_ktime_t),
      (''struct sock_cgroup_data'', struct_sock_cgroup_data),
      (''struct callback_head'', struct_callback_head),
      (''typedef netns_tracker'', td_netns_tracker),
      (''struct sock'', struct_sock),
      (''typedef bool'', td_bool),
      (''typedef __kernel_ulong_t'', td___kernel_ulong_t),
      (''typedef __kernel_size_t'', td___kernel_size_t),
      (''typedef size_t'', td_size_t),
      (''typedef __kernel_loff_t'', td___kernel_loff_t),
      (''typedef loff_t'', td_loff_t),
      (''struct iov_iter'', struct_iov_iter),
      (''struct msghdr'', struct_msghdr),
      (''struct user_pt_regs'', struct_user_pt_regs),
      (''typedef s32'', td_s32),
      (''struct pt_regs'', struct_pt_regs)]"

definition inet_types :: "(string \<times> ctype) list" where
  "inet_types =
     [(''typedef __s16'', td___s16),
      (''struct inet_cork'', struct_inet_cork),
      (''typedef __be64'', td___be64),
      (''struct flowi_tunnel'', struct_flowi_tunnel),
      (''struct flowi_common'', struct_flowi_common),
      (''union flowi_uli'', union_flowi_uli),
      (''struct flowi4'', struct_flowi4),
      (''struct flowi6'', struct_flowi6),
      (''struct flowi'', struct_flowi),
      (''struct inet_cork_full'', struct_inet_cork_full),
      (''struct inet_sock'', struct_inet_sock),
      (''struct fastopen_queue'', struct_fastopen_queue),
      (''struct request_sock_queue'', struct_request_sock_queue),
      (''struct inet_connection_sock'', struct_inet_connection_sock),
      (''struct tcp_rack'', struct_tcp_rack),
      (''struct minmax_sample'', struct_minmax_sample),
      (''struct minmax'', struct_minmax),
      (''struct tcp_options_received'', struct_tcp_options_received),
      (''struct rb_node'', struct_rb_node),
      (''struct timerqueue_node'', struct_timerqueue_node),
      (''struct hrtimer'', struct_hrtimer),
      (''struct tcp_sack_block'', struct_tcp_sack_block),
      (''struct tcp_sock'', struct_tcp_sock),
      (''struct in6_pktinfo'', struct_in6_pktinfo),
      (''struct inet6_cork'', struct_inet6_cork),
      (''struct ipv6_pinfo'', struct_ipv6_pinfo),
      (''struct tcp6_sock'', struct_tcp6_sock),
      (''struct udp_sock'', struct_udp_sock),
      (''struct udp6_sock'', struct_udp6_sock),
      (''typedef slab_flags_t'', td_slab_flags_t),
      (''struct proto'', struct_proto),
      (''typedef socket_state'', td_socket_state),
      (''struct socket_wq'', struct_socket_wq),
      (''struct socket'', struct_socket),
      (''struct llist_node'', struct_llist_node),
      (''typedef __wsum'', td___wsum),
      (''typedef sk_buff_data_t'', td_sk_buff_data_t),
      (''struct sk_buff'', struct_sk_buff)]"

definition task_types :: "(string \<times> ctype) list" where
  "task_types =
     [(''struct thread_info'', struct_thread_info),
      (''struct __call_single_node'', struct___call_single_node),
      (''struct load_weight'', struct_load_weight),
      (''struct util_est'', struct_util_est),
      (''struct sched_avg'', struct_sched_avg),
      (''struct sched_entity'', struct_sched_entity),
      (''struct sched_rt_entity'', struct_sched_rt_entity),
      (''struct sched_dl_entity'', struct_sched_dl_entity),
      (''struct sched_statistics'', struct_sched_statistics),
      (''struct hlist_head'', struct_hlist_head),
      (''struct cpumask'', struct_cpumask),
      (''typedef cpumask_t'', td_cpumask_t),
      (''union rcu_special'', union_rcu_special),
      (''struct sched_info'', struct_sched_info),
      (''struct plist_node'', struct_plist_node),
      (''struct task_rss_stat'', struct_task_rss_stat),
      (''typedef __kernel_clockid_t'', td___kernel_clockid_t),
      (''typedef clockid_t'', td_clockid_t),
      (''enum timespec_type'', enum_timespec_type),
      (''struct restart_block'', struct_restart_block),
      (''typedef __kernel_pid_t'', td___kernel_pid_t),
      (''typedef pid_t'', td_pid_t),
      (''typedef raw_spinlock_t'', td_raw_spinlock_t),
      (''struct prev_cputime'', struct_prev_cputime),
      (''struct seqcount'', struct_seqcount),
      (''typedef seqcount_t'', td_seqcount_t),
      (''enum vtime_state'', enum_vtime_state),
      (''struct vtime'', struct_vtime),
      (''struct rb_root_cached'', struct_rb_root_cached),
      (''struct timerqueue_head'', struct_timerqueue_head),
      (''struct posix_cputimer_base'', struct_posix_cputimer_base),
      (''struct posix_cputimers'', struct_posix_cputimers),
      (''typedef atomic_long_t'', td_atomic_long_t),
      (''struct optimistic_spin_queue'', struct_optimistic_spin_queue),
      (''struct mutex'', struct_mutex),
      (''struct posix_cputimers_work'', struct_posix_cputimers_work),
      (''struct sysv_sem'', struct_sysv_sem),
      (''struct sysv_shm'', struct_sysv_shm),
      (''typedef sigset_t'', td_sigset_t),
      (''struct sigpending'', struct_sigpending),
      (''struct seccomp'', struct_seccomp),
      (''struct syscall_user_dispatch'', struct_syscall_user_dispatch),
      (''struct wake_q_node'', struct_wake_q_node),
      (''struct task_io_accounting'', struct_task_io_accounting),
      (''typedef nodemask_t'', td_nodemask_t),
      (''struct seqcount_spinlock'', struct_seqcount_spinlock),
      (''typedef seqcount_spinlock_t'', td_seqcount_spinlock_t),
      (''struct tlbflush_unmap_batch'', struct_tlbflush_unmap_batch),
      (''struct kmap_ctrl'', struct_kmap_ctrl),
      (''struct llist_head'', struct_llist_head),
      (''struct cpu_context'', struct_cpu_context),
      (''struct user_fpsimd_state'', struct_user_fpsimd_state),
      (''enum fp_type'', enum_fp_type),
      (''struct debug_info'', struct_debug_info),
      (''struct ptrauth_key'', struct_ptrauth_key),
      (''struct ptrauth_keys_user'', struct_ptrauth_keys_user),
      (''struct ptrauth_keys_kernel'', struct_ptrauth_keys_kernel),
      (''struct thread_struct'', struct_thread_struct),
      (''struct task_struct'', struct_task_struct),
      (''typedef __kernel_gid32_t'', td___kernel_gid32_t),
      (''typedef gid_t'', td_gid_t),
      (''typedef kgid_t'', td_kgid_t),
      (''struct kernel_cap_struct'', struct_kernel_cap_struct),
      (''typedef kernel_cap_t'', td_kernel_cap_t),
      (''struct cred'', struct_cred),
      (''struct upid'', struct_upid),
      (''struct pid'', struct_pid),
      (''struct cpu_itimer'', struct_cpu_itimer),
      (''struct task_cputime_atomic'', struct_task_cputime_atomic),
      (''struct thread_group_cputimer'', struct_thread_group_cputimer),
      (''typedef seqlock_t'', td_seqlock_t),
      (''struct rlimit'', struct_rlimit),
      (''struct pacct_struct'', struct_pacct_struct),
      (''struct rw_semaphore'', struct_rw_semaphore),
      (''struct signal_struct'', struct_signal_struct),
      (''struct percpu_ref'', struct_percpu_ref),
      (''typedef work_func_t'', td_work_func_t),
      (''struct work_struct'', struct_work_struct),
      (''struct rcu_work'', struct_rcu_work),
      (''struct cgroup_subsys_state'', struct_cgroup_subsys_state),
      (''struct cgroup_file'', struct_cgroup_file),
      (''struct task_cputime'', struct_task_cputime),
      (''struct cgroup_base_stat'', struct_cgroup_base_stat),
      (''struct cgroup_bpf'', struct_cgroup_bpf),
      (''struct cgroup_freezer_state'', struct_cgroup_freezer_state),
      (''struct cgroup'', struct_cgroup),
      (''struct css_set'', struct_css_set)]"

definition bpf_types :: "(string \<times> ctype) list" where
  "bpf_types =
     [(''struct rcuwait'', struct_rcuwait),
      (''struct irq_work'', struct_irq_work),
      (''struct bpf_ringbuf'', struct_bpf_ringbuf),
      (''enum bpf_map_type'', enum_bpf_map_type),
      (''struct bpf_map'', struct_bpf_map),
      (''struct bpf_ringbuf_map'', struct_bpf_ringbuf_map),
      (''struct bpf_mem_alloc'', struct_bpf_mem_alloc),
      (''struct pcpu_freelist_head'', struct_pcpu_freelist_head),
      (''struct pcpu_freelist'', struct_pcpu_freelist),
      (''struct bpf_lru_list'', struct_bpf_lru_list),
      (''struct bpf_common_lru'', struct_bpf_common_lru),
      (''typedef del_from_htab_func'', td_del_from_htab_func),
      (''struct bpf_lru'', struct_bpf_lru),
      (''struct percpu_counter'', struct_percpu_counter),
      (''struct lock_class_key'', struct_lock_class_key),
      (''struct bpf_htab'', struct_bpf_htab),
      (''struct bpf_lru_node'', struct_bpf_lru_node),
      (''enum bpf_prog_type'', enum_bpf_prog_type),
      (''enum bpf_attach_type'', enum_bpf_attach_type),
      (''struct sock_filter'', struct_sock_filter),
      (''struct bpf_insn'', struct_bpf_insn),
      (''struct bpf_prog'', struct_bpf_prog),
      (''struct latch_tree_node'', struct_latch_tree_node),
      (''struct bpf_ksym'', struct_bpf_ksym),
      (''struct bpf_prog_aux'', struct_bpf_prog_aux),
      (''typedef kprobe_pre_handler_t'', td_kprobe_pre_handler_t),
      (''typedef kprobe_post_handler_t'', td_kprobe_post_handler_t),
      (''typedef kprobe_opcode_t'', td_kprobe_opcode_t),
      (''struct arch_probe_insn'', struct_arch_probe_insn),
      (''struct arch_specific_insn'', struct_arch_specific_insn),
      (''struct kprobe'', struct_kprobe),
      (''typedef kretprobe_handler_t'', td_kretprobe_handler_t),
      (''struct freelist_head'', struct_freelist_head),
      (''struct kretprobe'', struct_kretprobe),
      (''enum bpf_func_id'', enum_bpf_func_id),
      (''enum bpf_cmd'', enum_bpf_cmd),
      (''enum (TCP_ESTABLISHED ...)'', enum_tcp_states),
      (''enum (BPF_ANY ...)'', enum_map_update_flags),
      (''enum (BPF_F_NO_PREALLOC ...)'', enum_map_create_flags),
      (''enum (IPPROTO_IP ...)'', enum_ipproto)]"

definition net_types :: "(string \<times> ctype) list" where
  "net_types =
     [(''struct xarray'', struct_xarray),
      (''struct idr'', struct_idr),
      (''struct ns_common'', struct_ns_common),
      (''struct ref_tracker_dir'', struct_ref_tracker_dir),
      (''struct ctl_table_header'', struct_ctl_table_header),
      (''struct ctl_dir'', struct_ctl_dir),
      (''struct ctl_table_set'', struct_ctl_table_set),
      (''struct raw_notifier_head'', struct_raw_notifier_head),
      (''struct netns_core'', struct_netns_core),
      (''struct netns_mib'', struct_netns_mib),
      (''struct netns_packet'', struct_netns_packet),
      (''struct unix_table'', struct_unix_table),
      (''struct netns_unix'', struct_netns_unix),
      (''struct blocking_notifier_head'', struct_blocking_notifier_head),
      (''struct netns_nexthop'', struct_netns_nexthop),
      (''struct inet_timewait_death_row'', struct_inet_timewait_death_row),
      (''struct local_ports'', struct_local_ports),
      (''struct ping_group_range'', struct_ping_group_range),
      (''typedef siphash_key_t'', td_siphash_key_t),
      (''struct netns_ipv4'', struct_netns_ipv4),
      (''struct dst_ops'', struct_dst_ops),
      (''struct netns_sysctl_ipv6'', struct_netns_sysctl_ipv6),
      (''struct delayed_work'', struct_delayed_work),
      (''struct netns_ipv6'', struct_netns_ipv6),
      (''struct netns_sysctl_lowpan'', struct_netns_sysctl_lowpan),
      (''struct netns_ieee802154_lowpan'', struct_netns_ieee802154_lowpan),
      (''struct netns_sctp'', struct_netns_sctp),
      (''struct netns_nf'', struct_netns_nf),
      (''struct nf_generic_net'', struct_nf_generic_net),
      (''struct nf_tcp_net'', struct_nf_tcp_net),
      (''struct nf_udp_net'', struct_nf_udp_net),
      (''struct nf_icmp_net'', struct_nf_icmp_net),
      (''struct nf_dccp_net'', struct_nf_dccp_net),
      (''struct nf_sctp_net'', struct_nf_sctp_net),
      (''struct nf_gre_net'', struct_nf_gre_net),
      (''struct nf_ip_net'', struct_nf_ip_net),
      (''struct netns_ct'', struct_netns_ct),
      (''struct netns_nftables'', struct_netns_nftables),
      (''struct netns_ft'', struct_netns_ft),
      (''struct netns_bpf'', struct_netns_bpf),
      (''struct xfrm_policy_hash'', struct_xfrm_policy_hash),
      (''struct xfrm_policy_hthresh'', struct_xfrm_policy_hthresh),
      (''struct netns_xfrm'', struct_netns_xfrm),
      (''struct netns_mpls'', struct_netns_mpls),
      (''struct netns_can'', struct_netns_can),
      (''struct netns_xdp'', struct_netns_xdp),
      (''struct netns_smc'', struct_netns_smc),
      (''struct net'', struct_net)]"

definition kernel_types :: "(string \<times> ctype) list" where
  "kernel_types = sock_types @ inet_types @ task_types @ bpf_types @ net_types"

lemma types_wf:
  "list_all (\<lambda>(_, t). wf_ctype t) sock_types" "list_all (\<lambda>(_, t). wf_ctype t) inet_types"
  "list_all (\<lambda>(_, t). wf_ctype t) task_types" "list_all (\<lambda>(_, t). wf_ctype t) bpf_types"
  "list_all (\<lambda>(_, t). wf_ctype t) net_types"
  by (simp_all only: sock_types_def inet_types_def task_types_def bpf_types_def net_types_def
      list.pred_inject ctype_layout split simp_thms)

lemma kernel_types_wf: "list_all (\<lambda>(_, t). wf_ctype t) kernel_types"
  by (simp add: kernel_types_def types_wf)

lemma sock_types_members:
  "(''struct sock'', struct_sock) \<in> set kernel_types" "(''struct hlist_node'', struct_hlist_node) \<in> set kernel_types"
  by (simp_all add: kernel_types_def sock_types_def)

subsection \<open>The accesses of the program\<close>

lemmas access_simps = layout_rules ctype_layout

lemma common_offsets:
  "offset_of struct_sock_common [''skc_daddr''] = Some (0, td___be32)"
  "offset_of struct_sock_common [''skc_rcv_saddr''] = Some (4, td___be32)"
  "offset_of struct_sock_common [''skc_dport''] = Some (12, td___be16)"
  "offset_of struct_sock_common [''skc_num''] = Some (14, td___u16)"
  "offset_of struct_sock_common [''skc_family''] = Some (16, c_unsigned_short)"
  "offset_of struct_sock_common [''skc_state''] = Some (18, c_unsigned_char)"
  "offset_of struct_sock_common [''skc_v6_daddr'', ''in6_u'', ''u6_addr8''] = Some (56, CArray td___u8 16)"
  "offset_of struct_sock_common [''skc_v6_rcv_saddr'', ''in6_u'', ''u6_addr8''] = Some (72, CArray td___u8 16)"
  by (simp_all add: struct_sock_common_def struct_in6_addr_def access_simps del: One_nat_def)

lemma sock_common_first: "offset_of struct_sock (''__sk_common'' # p) = offset_of struct_sock_common p"
  by (simp add: struct_sock_def access_simps split: option.splits del: One_nat_def)

text \<open>The loader has relocated the accesses to the layout of the header.\<close>

definition header_offsets :: "kernel_view \<Rightarrow> bool" where
  "header_offsets M \<longleftrightarrow> (\<forall>p k t. offset_of struct_sock p = Some (k, t) \<longrightarrow> core_offset M p = k)"

lemma header_offsets_common:
  assumes "header_offsets M"
  shows "core_offset M [''__sk_common'', ''skc_daddr''] = 0"
    "core_offset M [''__sk_common'', ''skc_rcv_saddr''] = 4"
    "core_offset M [''__sk_common'', ''skc_dport''] = 12"
    "core_offset M [''__sk_common'', ''skc_num''] = 14"
    "core_offset M [''__sk_common'', ''skc_family''] = 16"
    "core_offset M [''__sk_common'', ''skc_state''] = 18"
    "core_offset M [''__sk_common'', ''skc_v6_daddr'', ''in6_u'', ''u6_addr8''] = 56"
    "core_offset M [''__sk_common'', ''skc_v6_rcv_saddr'', ''in6_u'', ''u6_addr8''] = 72"
  using assms common_offsets unfolding header_offsets_def sock_common_first [symmetric] by blast+

lemma fill_event_cong:
  assumes "\<And>k n. k + n \<le> 136 \<Longrightarrow>
      probe_read_kernel M (sk + of_nat k) n = probe_read_kernel M' (sk + of_nat k) n"
    and "header_offsets M" "header_offsets M'" "target_endian M = target_endian M'"
  shows "fill_event M c sk proto = fill_event M' c sk proto"
  using assms(4) assms(1) [of 0 4] assms(1) [of 4 4] assms(1) [of 12 2] assms(1) [of 14 2] assms(1) [of 16 2]
    assms(1) [of 18 1] assms(1) [of 56 16] assms(1) [of 72 16]
  by (simp add: fill_event_def core_read_int_def core_read_def header_offsets_common [OF assms(2)]
      header_offsets_common [OF assms(3)] Let_def)

subsection \<open>Where the common prefix lies\<close>

lemma protocol_sockets:
  "offset_of struct_tcp6_sock [''tcp'', ''inet_conn'', ''icsk_inet'', ''sk''] = Some (0, struct_sock)"
  "offset_of struct_udp6_sock [''udp'', ''inet'', ''sk''] = Some (0, struct_sock)"
  by (simp_all add: struct_tcp6_sock_def struct_tcp_sock_def struct_inet_connection_sock_def struct_inet_sock_def
      struct_udp6_sock_def struct_udp_sock_def access_simps del: One_nat_def)

lemma ringbuf_pages:
  "offset_of struct_bpf_ringbuf [''consumer_pos''] = Some (4096, c_unsigned_long)"
  "offset_of struct_bpf_ringbuf [''producer_pos''] = Some (8192, c_unsigned_long)"
  "offset_of struct_bpf_ringbuf [''data''] = Some (12288, CArray c_char 0)"
  by (simp_all add: struct_bpf_ringbuf_def access_simps del: One_nat_def)

lemma probe_registers:
  "offset_of struct_pt_regs [''user_regs'', ''regs''] = Some (0, CArray td___u64 31)"
  by (simp add: struct_pt_regs_def struct_user_pt_regs_def access_simps del: One_nat_def)

subsection \<open>Properties\<close>

text \<open>A view with the offsets of the header, for the witnesses.\<close>

definition header_view :: kernel_view where
  "header_view = \<lparr>target_endian = LittleEndian,
     core_offset = (\<lambda>p. case offset_of struct_sock p of Some (k, _) \<Rightarrow> k | None \<Rightarrow> 0),
     probe_read_kernel = (\<lambda>a n. take n (2 # replicate n 0))\<rparr>"

lemma header_view_offsets: "header_offsets header_view"
  by (simp add: header_offsets_def header_view_def)

text \<open>C20. Memory safety of the socket reads: with the offsets of the header, the event a probe fills in
  depends on no byte outside the 136 bytes of \<^verbatim>\<open>struct sock_common\<close> at the socket pointer, the
  prefix all kernel sockets share. Two kernels that agree on these bytes give the same event.\<close>

theorem fill_event_reads_common:
  assumes "header_offsets M" "header_offsets M'" "target_endian M = target_endian M'"
    and "\<forall>k n. k + n \<le> sizeof struct_sock_common \<longrightarrow>
      probe_read_kernel M (sk + of_nat k) n = probe_read_kernel M' (sk + of_nat k) n"
  shows "fill_event M c sk proto = fill_event M' c sk proto"
  using assms by (intro fill_event_cong) (simp_all add: struct_sock_common_layout)

theorem fill_event_reads_common_witness:
  "fill_event header_view \<lparr>ktime_ns = 1, current_cgroup_id = 2, current_pid_tgid = 3\<rparr> 0 IPPROTO_TCP =
   fill_event (header_view\<lparr>probe_read_kernel := \<lambda>a n. if a < 136 then take n (2 # replicate n 0) else replicate n 1\<rparr>)
     \<lparr>ktime_ns = 1, current_cgroup_id = 2, current_pid_tgid = 3\<rparr> 0 IPPROTO_TCP"
proof (rule fill_event_reads_common)
  let ?M' = "header_view\<lparr>probe_read_kernel := \<lambda>a n. if a < 136 then take n (2 # replicate n 0) else replicate n 1\<rparr>"
  show "header_offsets header_view" by (rule header_view_offsets)
  then show "header_offsets ?M'" by (simp add: header_offsets_def)
  show "target_endian header_view = target_endian ?M'" by simp
  have "(of_nat k :: u64) < 136 \<or> n = 0" if "k + n \<le> 136" for k n
  proof (cases "n = 0")
    case False
    with that have "k < 136" by simp
    then show ?thesis by (simp add: word_less_nat_alt unat_of_nat)
  qed simp
  then show "\<forall>k n. k + n \<le> sizeof struct_sock_common \<longrightarrow>
      probe_read_kernel header_view (0 + of_nat k) n = probe_read_kernel ?M' (0 + of_nat k) n"
    by (fastforce simp: struct_sock_common_layout header_view_def)
qed

text \<open>The layout of the header puts the fields the program reads at the offsets of the kernel ABI: the
  address and port pairs first, the 16-bit family and the 8-bit state at 16 and 18, the IPv6
  addresses at 56 and 72; each path names an object of exactly the size the program reads.\<close>

theorem sock_field_offsets:
  "offset_of struct_sock [''__sk_common'', ''skc_daddr''] = Some (0, td___be32) \<and> sizeof td___be32 = 4 \<and>
   offset_of struct_sock [''__sk_common'', ''skc_rcv_saddr''] = Some (4, td___be32) \<and>
   offset_of struct_sock [''__sk_common'', ''skc_dport''] = Some (12, td___be16) \<and> sizeof td___be16 = 2 \<and>
   offset_of struct_sock [''__sk_common'', ''skc_num''] = Some (14, td___u16) \<and> sizeof td___u16 = 2 \<and>
   offset_of struct_sock [''__sk_common'', ''skc_family''] = Some (16, c_unsigned_short) \<and>
   offset_of struct_sock [''__sk_common'', ''skc_state''] = Some (18, c_unsigned_char) \<and>
   offset_of struct_sock [''__sk_common'', ''skc_v6_daddr'', ''in6_u'', ''u6_addr8''] = Some (56, CArray td___u8 16) \<and>
   offset_of struct_sock [''__sk_common'', ''skc_v6_rcv_saddr'', ''in6_u'', ''u6_addr8''] = Some (72, CArray td___u8 16) \<and>
   sizeof (CArray td___u8 16) = 16"
  by (simp add: sock_common_first common_offsets ctype_layout del: offset_of.simps)

text \<open>A socket pointer handed to a TCP or UDP probe points to the start of the protocol socket: in the
  IPv6 TCP and UDP sockets (which extend the IPv4 ones) the generic socket, and in it the
  common prefix, is at offset 0, and the common prefix lies within the object.\<close>

theorem sock_is_prefix_of_protocol_sockets:
  "offset_of struct_tcp6_sock [''tcp'', ''inet_conn'', ''icsk_inet'', ''sk''] = Some (0, struct_sock) \<and>
   offset_of struct_udp6_sock [''udp'', ''inet'', ''sk''] = Some (0, struct_sock) \<and>
   offset_of struct_sock [''__sk_common''] = Some (0, struct_sock_common) \<and>
   sizeof struct_sock_common \<le> sizeof struct_sock \<and> sizeof struct_sock \<le> sizeof struct_tcp6_sock \<and>
   sizeof struct_sock \<le> sizeof struct_udp6_sock"
  by (simp add: protocol_sockets sock_common_first ctype_layout del: offset_of.simps(2))

text \<open>Every member access path of every declaration modelled from the header denotes an object that is
  well-formed, lies inside the accessed object and is aligned in it; and sizes are multiples
  of alignments, so this also holds for the elements of arrays.\<close>

theorem kernel_access_in_bounds:
  assumes "(name, t) \<in> set kernel_types" and "offset_of t path = Some (k, t')"
  shows "k + sizeof t' \<le> sizeof t \<and> alignof t' dvd k \<and> alignof t dvd sizeof t \<and> wf_ctype t'"
proof -
  have "wf_ctype t" using kernel_types_wf assms(1) by (auto simp: list_all_iff)
  with assms(2) show ?thesis
    using offset_of_inside [of t path k t'] layout_wf [of t] by (simp add: inside_def)
qed

theorem kernel_access_in_bounds_witness:
  "(''struct sock'', struct_sock) \<in> set kernel_types \<and>
   16 + sizeof c_unsigned_short \<le> sizeof struct_sock \<and> alignof c_unsigned_short dvd 16"
proof -
  note m = sock_types_members(1)
  have o: "offset_of struct_sock [''__sk_common'', ''skc_family''] = Some (16, c_unsigned_short)"
    by (simp only: sock_common_first common_offsets)
  from kernel_access_in_bounds [OF m o] m show ?thesis by blast
qed

text \<open>No two members of a struct of the header share a bit: members are placed one after the other.\<close>

theorem kernel_members_disjoint:
  assumes "(name, t) \<in> set kernel_types" and "t = CStruct fs"
  shows "sorted_wrt (\<lambda>x y. snd x \<le> fst y) (placements 0 (map member_of fs))"
proof -
  have "wf_ctype (CStruct fs)" using kernel_types_wf assms by (auto simp: list_all_iff)
  then show ?thesis by (intro placements_disjoint wf_fields_members) (simp only: wf_members)
qed

theorem kernel_members_disjoint_witness:
  "sorted_wrt (\<lambda>x y. snd x \<le> fst y) (placements 0 (map member_of
     [Member ''next'' (CPtr ''struct hlist_node''), Member ''pprev'' (CPtr ''struct hlist_node *'')]))"
  using kernel_members_disjoint [OF sock_types_members(2) struct_hlist_node_def] .

text \<open>The ring buffer's consumer position, producer position and data area start on separate 4 KiB
  pages, so that the reader can map the first writable and the others read-only; one event
  with its 8-byte record header fits the ring the program declares.\<close>

theorem ringbuf_page_layout:
  "offset_of struct_bpf_ringbuf [''consumer_pos''] = Some (4096, c_unsigned_long) \<and>
   offset_of struct_bpf_ringbuf [''producer_pos''] = Some (8192, c_unsigned_long) \<and>
   offset_of struct_bpf_ringbuf [''data''] = Some (12288, CArray c_char 0) \<and>
   sizeof struct_bpf_ringbuf = 12288 \<and> sizeof struct_flow_event + 8 \<le> events_max_entries"
  by (simp add: ringbuf_pages ctype_layout events_max_entries_def del: offset_of.simps)

end
