(* ===== verification/Flow_Trace.thy ===== *)
theory Flow_Trace
  imports Socket_Flow
begin

text \<open>
  What the eBPF program guarantees over sequences of probe firings. The locale \<open>bpf_kernel\<close> is
  the contract of the map and ring-buffer helpers, as weak as the kernel documents it: an
  update may fail and leave the key as it was, storing a key may evict any other key (LRU), a
  reservation may be refused. Inside it: the invariant on stored and submitted events,
  independence of threads, and the refinement of a loss-free specification. The locale is
  interpreted on a loss-free kernel and on a kernel with the capacities of the source.
\<close>

subsection \<open>Predicates on events\<close>

definition good_view :: "kernel_view \<Rightarrow> bool" where
  "good_view M \<longleftrightarrow> (\<forall>a n. length (probe_read_kernel M a n) = n)"

definition well_formed :: "flow_event \<Rightarrow> bool" where
  "well_formed e \<longleftrightarrow> family e \<in> {AF_INET, AF_INET6} \<and> protocol e \<in> {IPPROTO_TCP, IPPROTO_UDP} \<and>
     pad1 e = 0 \<and> pad2 e = 0 \<and> length (local_addr e) = 16 \<and> length (remote_addr e) = 16"

text \<open>An event saved at a call's entry has no byte counts yet and belongs to the thread whose
  identifier is its key.\<close>

definition saved_event :: "u64 \<Rightarrow> flow_event \<Rightarrow> bool" where
  "saved_event k e \<longleftrightarrow> well_formed e \<and> sent e = 0 \<and> received e = 0 \<and> pid e = ucast (drop_bit 32 k)"

text \<open>A submitted event counts bytes in exactly one direction, and no more than a C \<^verbatim>\<open>int\<close> can
  say.\<close>

definition one_direction :: "flow_event \<Rightarrow> bool" where
  "one_direction e \<longleftrightarrow>
     (received e = 0 \<and> 0 < uint (sent e) \<and> uint (sent e) < 2 ^ 31) \<or>
     (sent e = 0 \<and> 0 < uint (received e) \<and> uint (received e) < 2 ^ 31)"

definition submitted_event :: "flow_event \<Rightarrow> bool" where
  "submitted_event e \<longleftrightarrow> well_formed e \<and> one_direction e"

text \<open>The invariant of the program state, over the observable contents of maps and ring.\<close>

definition flow_inv :: "('m \<Rightarrow> u64 \<Rightarrow> flow_event option) \<Rightarrow> ('r \<Rightarrow> flow_event list) \<Rightarrow>
    ('m, 'r) bpf_state \<Rightarrow> bool" where
  "flow_inv contents records s \<longleftrightarrow>
     (\<forall>k e. contents (pending_sends s) k = Some e \<longrightarrow> saved_event k e) \<and>
     (\<forall>k e. contents (udp_receives s) k = Some e \<longrightarrow> saved_event k e) \<and>
     (\<forall>e \<in> set (records (events s)). submitted_event e)"

subsection \<open>The C integer conversions\<close>

lemma scast_pos:
  assumes "0 <s (n :: 32 word)"
  shows "uint (scast n :: 64 word) = sint n" "0 < sint n" "sint n < 2 ^ 31"
proof -
  show p: "0 < sint n" using assms by (simp add: word_sless_alt)
  show u: "sint n < 2 ^ 31" using sint_lt [of n] by simp
  have "uint (scast n :: 64 word) = take_bit 64 (sint n)"
    unfolding scast_eq uint_word_of_int_eq by simp
  also have "\<dots> = sint n"
    using p u by (simp add: take_bit_int_eq_self)
  finally show "uint (scast n :: 64 word) = sint n" .
qed

lemma sle_not_sless: "(n :: 32 word) \<le>s 0 \<longleftrightarrow> \<not> 0 <s n"
  by (simp add: word_sle_eq word_sless_alt not_less)

subsection \<open>The event written at entry\<close>

lemmas fill_defs = fill_event_def zero_event_def core_read_def Let_def

lemma fill_event_saved:
  assumes "fill_event M c sk proto = (ret, e)" "ret \<noteq> 0" "good_view M"
    "proto \<in> {IPPROTO_TCP, IPPROTO_UDP}"
  shows "saved_event (current_pid_tgid c) e" "protocol e = proto"
  using assms
  by (auto simp: fill_defs saved_event_def well_formed_def good_view_def split: if_splits)

lemma fill_event_code: "fst (fill_event M c sk proto) \<in> {0, 1}"
  by (simp add: fill_defs)

subsection \<open>The loss-free specification\<close>

text \<open>A kernel that never fails: maps without a capacity, a ring that always has room.\<close>

definition ideal_helpers :: "(u64 \<Rightarrow> flow_event option, flow_event list) bpf_helpers" where
  "ideal_helpers =
     \<lparr>map_lookup_elem = \<lambda>m k. (m k, m),
      map_update_elem = \<lambda>m k v. m(k \<mapsto> v),
      map_delete_elem = \<lambda>m k. m(k := None),
      ringbuf_reserve = \<lambda>r n. Some r,
      ringbuf_submit = \<lambda>r e. r @ [e],
      ringbuf_discard = \<lambda>r. r\<rparr>"

type_synonym ideal_state = "(u64 \<Rightarrow> flow_event option, flow_event list) bpf_state"

definition ideal_init :: ideal_state where
  "ideal_init = \<lparr>events = [], udp_receives = (\<lambda>_. None), pending_sends = (\<lambda>_. None)\<rparr>"

text \<open>The same, without state: which event each firing has to produce, from the history of
  firings before it (newest first). A send or receive that returns is matched with the last
  entry of the same thread that has not returned since.\<close>

definition entry_event :: "bpf_ctx \<Rightarrow> kernel_view \<Rightarrow> u64 \<Rightarrow> u8 \<Rightarrow> (u64 \<times> flow_event) option" where
  "entry_event c M sk proto =
     (case fill_event M c sk proto of (ret, e) \<Rightarrow> if ret = 0 then None else Some (current_pid_tgid c, e))"

fun send_saved :: "firing \<Rightarrow> (u64 \<times> flow_event) option" where
  "send_saved (c, M, Tcp_sendmsg sk) = entry_event c M sk IPPROTO_TCP"
| "send_saved (c, M, Udp_sendmsg sk) = entry_event c M sk IPPROTO_UDP"
| "send_saved _ = None"

fun send_done :: "firing \<Rightarrow> (u64 \<times> 32 word) option" where
  "send_done (c, M, Tcp_sendmsg_return n) = Some (current_pid_tgid c, n)"
| "send_done (c, M, Udp_sendmsg_return n) = Some (current_pid_tgid c, n)"
| "send_done _ = None"

fun recv_saved :: "firing \<Rightarrow> (u64 \<times> flow_event) option" where
  "recv_saved (c, M, Udp_recvmsg sk) = entry_event c M sk IPPROTO_UDP"
| "recv_saved _ = None"

fun recv_done :: "firing \<Rightarrow> (u64 \<times> 32 word) option" where
  "recv_done (c, M, Udp_recvmsg_return n) = Some (current_pid_tgid c, n)"
| "recv_done _ = None"

fun last_saved :: "(firing \<Rightarrow> (u64 \<times> flow_event) option) \<Rightarrow> (firing \<Rightarrow> (u64 \<times> 32 word) option) \<Rightarrow>
    u64 \<Rightarrow> firing list \<Rightarrow> flow_event option" where
  "last_saved sv dn k [] = None"
| "last_saved sv dn k (f # h) =
     (case dn f of
        Some (k', _) \<Rightarrow> if k' = k then None else last_saved sv dn k h
      | None \<Rightarrow>
          (case sv f of
             Some (k', e) \<Rightarrow> if k' = k then Some e else last_saved sv dn k h
           | None \<Rightarrow> last_saved sv dn k h))"

abbreviation saved_send :: "u64 \<Rightarrow> firing list \<Rightarrow> flow_event option" where
  "saved_send \<equiv> last_saved send_saved send_done"

abbreviation saved_recv :: "u64 \<Rightarrow> firing list \<Rightarrow> flow_event option" where
  "saved_recv \<equiv> last_saved recv_saved recv_done"

fun emitted :: "firing \<Rightarrow> firing list \<Rightarrow> flow_event list" where
  "emitted (c, M, Tcp_cleanup_rbuf sk n) h =
     (case entry_event c M sk IPPROTO_TCP of
        Some (_, e) \<Rightarrow> if 0 <s n then [e\<lparr>sent := 0, received := scast n\<rparr>] else []
      | None \<Rightarrow> [])"
| "emitted f h =
     (case send_done f of
        Some (k, n) \<Rightarrow>
          (case saved_send k h of
             Some e \<Rightarrow> if 0 <s n then [e\<lparr>sent := scast n\<rparr>] else []
           | None \<Rightarrow> [])
      | None \<Rightarrow>
          (case recv_done f of
             Some (k, n) \<Rightarrow>
               (case saved_recv k h of
                  Some e \<Rightarrow> if 0 <s n then [e\<lparr>received := scast n\<rparr>] else []
                | None \<Rightarrow> [])
           | None \<Rightarrow> []))"

fun expected_events :: "firing list \<Rightarrow> flow_event list" where
  "expected_events [] = []"
| "expected_events (f # h) = expected_events h @ emitted f h"

text \<open>A sequence of firings nests no call: a thread enters a send (a receive) only when its previous
  one has returned.\<close>

fun vacant :: "firing \<Rightarrow> firing list \<Rightarrow> bool" where
  "vacant (c, M, Tcp_sendmsg sk) h = (saved_send (current_pid_tgid c) h = None)"
| "vacant (c, M, Udp_sendmsg sk) h = (saved_send (current_pid_tgid c) h = None)"
| "vacant (c, M, Udp_recvmsg sk) h = (saved_recv (current_pid_tgid c) h = None)"
| "vacant _ h = True"

fun unnested :: "firing list \<Rightarrow> bool" where
  "unnested [] = True"
| "unnested (f # h) = (vacant f h \<and> unnested h)"

subsection \<open>The contract of the helpers\<close>

locale bpf_kernel =
  fixes H :: "('m, 'r) bpf_helpers"
    and contents :: "'m \<Rightarrow> u64 \<Rightarrow> flow_event option"
    and records :: "'r \<Rightarrow> flow_event list"
  assumes lookup_result: "fst (map_lookup_elem H m k) = contents m k"
    and lookup_keeps: "contents (snd (map_lookup_elem H m k)) j = contents m j"
    and update_key: "contents (map_update_elem H m k v) k \<in> {Some v, contents m k}"
    and update_other: "j \<noteq> k \<Longrightarrow> contents (map_update_elem H m k v) j \<in> {contents m j, None}"
    and delete_key: "contents (map_delete_elem H m k) k = None"
    and delete_other: "j \<noteq> k \<Longrightarrow> contents (map_delete_elem H m k) j = contents m j"
    and reserve_records: "ringbuf_reserve H r n = Some r' \<Longrightarrow> records r' = records r"
    and submit_records: "records (ringbuf_submit H r e) = records r @ [e]"
    and discard_records: "records (ringbuf_discard H r) = records r"
begin

text \<open>The four ways a handler touches the state: store in one map, read and delete in one map,
  submit, nothing. Their effect on the observable contents, whatever the kernel decides.\<close>

lemma update_cases:
  "contents (map_update_elem H m k v) j = Some e \<Longrightarrow>
     (j = k \<and> e = v) \<or> contents m j = Some e"
  using update_key [of m k v] update_other [of j k m v] by (cases "j = k") auto

lemma delete_cases:
  "contents (map_delete_elem H m k) j = (if j = k then None else contents m j)"
  by (simp add: delete_key delete_other)

abbreviation inv :: "('m, 'r) bpf_state \<Rightarrow> bool" where
  "inv s \<equiv> flow_inv contents records s"

lemmas inv_def = flow_inv_def

lemma submitted_sent:
  "saved_event k e \<Longrightarrow> 0 <s (n :: 32 word) \<Longrightarrow> submitted_event (e\<lparr>sent := scast n\<rparr>)"
  using scast_pos [of n]
  by (simp add: saved_event_def submitted_event_def well_formed_def one_direction_def)

lemma submitted_received:
  "saved_event k e \<Longrightarrow> 0 <s (n :: 32 word) \<Longrightarrow> submitted_event (e\<lparr>received := scast n\<rparr>)"
  using scast_pos [of n]
  by (simp add: saved_event_def submitted_event_def well_formed_def one_direction_def)

lemma submitted_emit:
  "saved_event k e \<Longrightarrow> 0 <s (n :: 32 word) \<Longrightarrow> submitted_event (e\<lparr>sent := 0, received := scast n\<rparr>)"
  using scast_pos [of n]
  by (simp add: saved_event_def submitted_event_def well_formed_def one_direction_def)

text \<open>The effect of each operation on the observable contents.\<close>

abbreviation accepts :: "('m, 'r) bpf_state \<Rightarrow> bool" where
  "accepts s \<equiv> ringbuf_reserve H (events s) (sizeof struct_flow_event) \<noteq> None"

lemma emit_send_effect:
  defines "e \<equiv> \<lambda>c s. contents (pending_sends s) (current_pid_tgid c)"
  shows emit_send_pending: "contents (pending_sends (emit_send H c s n)) j =
      (if j = current_pid_tgid c then None else contents (pending_sends s) j)"
    and emit_send_udp: "udp_receives (emit_send H c s n) = udp_receives s"
    and emit_send_records: "records (events (emit_send H c s n)) = records (events s) @
      (case e c s of Some saved \<Rightarrow> if 0 <s n \<and> accepts s then [saved\<lparr>sent := scast n\<rparr>] else []
       | None \<Rightarrow> [])"
proof -
  obtain r m where lk: "map_lookup_elem H (pending_sends s) (current_pid_tgid c) = (r, m)"
    by fastforce
  have r: "contents (pending_sends s) (current_pid_tgid c) = r" and m: "contents m = contents (pending_sends s)"
    using lookup_result [of "pending_sends s" "current_pid_tgid c"]
      lookup_keeps [of "pending_sends s" "current_pid_tgid c"] lk by auto
  show "contents (pending_sends (emit_send H c s n)) j =
      (if j = current_pid_tgid c then None else contents (pending_sends s) j)"
    using r by (auto simp: emit_send_def lk m delete_cases Let_def split: option.splits)
  show "udp_receives (emit_send H c s n) = udp_receives s"
    by (auto simp: emit_send_def lk Let_def split: option.splits)
  show "records (events (emit_send H c s n)) = records (events s) @
      (case e c s of Some saved \<Rightarrow> if 0 <s n \<and> accepts s then [saved\<lparr>sent := scast n\<rparr>] else []
       | None \<Rightarrow> [])"
    using r by (auto simp: e_def emit_send_def lk Let_def submit_records reserve_records
        split: option.splits)
qed

lemma recvmsg_return_effect:
  defines "e \<equiv> \<lambda>c s. contents (udp_receives s) (current_pid_tgid c)"
  shows recvmsg_return_udp: "contents (udp_receives (trace_udp_recvmsg_return H c s n)) j =
      (if j = current_pid_tgid c then None else contents (udp_receives s) j)"
    and recvmsg_return_pending: "pending_sends (trace_udp_recvmsg_return H c s n) = pending_sends s"
    and recvmsg_return_records: "records (events (trace_udp_recvmsg_return H c s n)) = records (events s) @
      (case e c s of Some saved \<Rightarrow> if 0 <s n \<and> accepts s then [saved\<lparr>received := scast n\<rparr>] else []
       | None \<Rightarrow> [])"
proof -
  obtain r m where lk: "map_lookup_elem H (udp_receives s) (current_pid_tgid c) = (r, m)"
    by fastforce
  have r: "contents (udp_receives s) (current_pid_tgid c) = r" and m: "contents m = contents (udp_receives s)"
    using lookup_result [of "udp_receives s" "current_pid_tgid c"]
      lookup_keeps [of "udp_receives s" "current_pid_tgid c"] lk by auto
  show "contents (udp_receives (trace_udp_recvmsg_return H c s n)) j =
      (if j = current_pid_tgid c then None else contents (udp_receives s) j)"
    using r by (auto simp: trace_udp_recvmsg_return_def lk m delete_cases Let_def split: option.splits)
  show "pending_sends (trace_udp_recvmsg_return H c s n) = pending_sends s"
    by (auto simp: trace_udp_recvmsg_return_def lk Let_def split: option.splits)
  show "records (events (trace_udp_recvmsg_return H c s n)) = records (events s) @
      (case e c s of Some saved \<Rightarrow> if 0 <s n \<and> accepts s then [saved\<lparr>received := scast n\<rparr>] else []
       | None \<Rightarrow> [])"
    using r by (auto simp: e_def trace_udp_recvmsg_return_def lk Let_def sle_not_sless submit_records
        reserve_records split: option.splits)
qed

lemma cleanup_rbuf_effect:
  shows cleanup_rbuf_maps: "pending_sends (trace_tcp_cleanup_rbuf H M c s sk n) = pending_sends s"
      "udp_receives (trace_tcp_cleanup_rbuf H M c s sk n) = udp_receives s"
    and cleanup_rbuf_records: "records (events (trace_tcp_cleanup_rbuf H M c s sk n)) = records (events s) @
      (case fill_event M c sk IPPROTO_TCP of (ret, e) \<Rightarrow>
         if 0 <s n \<and> accepts s \<and> ret \<noteq> 0 then [e\<lparr>sent := 0, received := scast n\<rparr>] else [])"
  by (auto simp: trace_tcp_cleanup_rbuf_def emit_def submit_records discard_records reserve_records
      split: option.splits prod.splits)

lemma save_send_effect:
  shows save_send_frame: "udp_receives (save_send H M c s sk proto) = udp_receives s"
      "events (save_send H M c s sk proto) = events s"
    and save_send_pending: "pending_sends (save_send H M c s sk proto) =
      (case fill_event M c sk proto of (ret, e) \<Rightarrow> if ret = 0 then pending_sends s
       else map_update_elem H (pending_sends s) (current_pid_tgid c) e)"
  by (auto simp: save_send_def split: prod.splits)

lemma udp_recvmsg_effect:
  shows udp_recvmsg_frame: "pending_sends (trace_udp_recvmsg H M c s sk) = pending_sends s"
      "events (trace_udp_recvmsg H M c s sk) = events s"
    and udp_recvmsg_udp: "udp_receives (trace_udp_recvmsg H M c s sk) =
      (case fill_event M c sk IPPROTO_UDP of (ret, e) \<Rightarrow> if ret = 0 then udp_receives s
       else map_update_elem H (udp_receives s) (current_pid_tgid c) e)"
  by (auto simp: trace_udp_recvmsg_def split: prod.splits)

lemmas effects = emit_send_pending emit_send_udp emit_send_records recvmsg_return_udp
  recvmsg_return_pending recvmsg_return_records cleanup_rbuf_maps cleanup_rbuf_records
  save_send_frame save_send_pending udp_recvmsg_frame udp_recvmsg_udp

text \<open>Every operation keeps the invariant.\<close>

lemma inv_save_send:
  assumes "inv s" "good_view M" "proto \<in> {IPPROTO_TCP, IPPROTO_UDP}"
  shows "inv (save_send H M c s sk proto)"
  using assms
  by (auto simp: inv_def effects dest!: update_cases fill_event_saved(1) split: prod.splits if_splits)

lemma inv_udp_recvmsg:
  assumes "inv s" "good_view M"
  shows "inv (trace_udp_recvmsg H M c s sk)"
  using assms
  by (auto simp: inv_def effects dest!: update_cases fill_event_saved(1) split: prod.splits if_splits)

lemma inv_cleanup_rbuf:
  assumes "inv s" "good_view M"
  shows "inv (trace_tcp_cleanup_rbuf H M c s sk n)"
proof (cases "fill_event M c sk IPPROTO_TCP")
  case (Pair ret e)
  then have "ret \<noteq> 0 \<Longrightarrow> saved_event (current_pid_tgid c) e"
    using assms(2) by (auto dest: fill_event_saved(1))
  with Pair assms(1) show ?thesis
    by (auto simp: inv_def effects intro: submitted_emit)
qed

lemma inv_emit_send:
  assumes "inv s"
  shows "inv (emit_send H c s n)"
proof -
  have "submitted_event (e\<lparr>sent := scast n\<rparr>)"
    if "contents (pending_sends s) (current_pid_tgid c) = Some e" "0 <s n" for e
    using assms that by (auto simp: inv_def intro: submitted_sent)
  with assms show ?thesis by (auto simp: inv_def effects split: option.splits if_splits)
qed

lemma inv_udp_recvmsg_return:
  assumes "inv s"
  shows "inv (trace_udp_recvmsg_return H c s n)"
proof -
  have "submitted_event (e\<lparr>received := scast n\<rparr>)"
    if "contents (udp_receives s) (current_pid_tgid c) = Some e" "0 <s n" for e
    using assms that submitted_received [of "current_pid_tgid c" e n] by (auto simp: inv_def)
  with assms show ?thesis by (auto simp: inv_def effects split: option.splits if_splits)
qed

lemmas handler_defs = trace_tcp_sendmsg_def trace_tcp_sendmsg_return_def trace_udp_sendmsg_def
  trace_udp_sendmsg_return_def

lemma inv_fire: "inv s \<Longrightarrow> good_view (fst (snd f)) \<Longrightarrow> inv (fire H f s)"
  by (cases "(H, f, s)" rule: fire.cases)
    (auto simp: handler_defs inv_save_send inv_emit_send inv_udp_recvmsg inv_udp_recvmsg_return
      inv_cleanup_rbuf)

lemma inv_run: "inv s \<Longrightarrow> \<forall>f \<in> set fs. good_view (fst (snd f)) \<Longrightarrow> inv (run_probes H fs s)"
  by (induction fs arbitrary: s) (auto simp: run_probes_def inv_fire)

text \<open>Threads do not interfere: what another thread does leaves a thread's saved event as it is, or
  evicts it.\<close>

lemma fire_other_pending:
  "current_pid_tgid (fst f) \<noteq> k \<Longrightarrow>
     contents (pending_sends (fire H f s)) k \<in> {contents (pending_sends s) k, None}"
  using update_other [of k "current_pid_tgid (fst f)"]
  by (cases "(H, f, s)" rule: fire.cases) (auto simp: handler_defs effects split: prod.splits)

lemma fire_other_udp:
  "current_pid_tgid (fst f) \<noteq> k \<Longrightarrow>
     contents (udp_receives (fire H f s)) k \<in> {contents (udp_receives s) k, None}"
  using update_other [of k "current_pid_tgid (fst f)"]
  by (cases "(H, f, s)" rule: fire.cases) (auto simp: handler_defs effects split: prod.splits)

lemma run_other:
  "\<forall>f \<in> set fs. current_pid_tgid (fst f) \<noteq> k \<Longrightarrow>
     contents (pending_sends (run_probes H fs s)) k \<in> {contents (pending_sends s) k, None} \<and>
     contents (udp_receives (run_probes H fs s)) k \<in> {contents (udp_receives s) k, None}"
proof (induction fs arbitrary: s)
  case Nil
  then show ?case by (simp add: run_probes_def)
next
  case (Cons f fs)
  have "run_probes H (f # fs) s = run_probes H fs (fire H f s)" by (simp add: run_probes_def)
  moreover have "contents (pending_sends (fire H f s)) k \<in> {contents (pending_sends s) k, None}"
    "contents (udp_receives (fire H f s)) k \<in> {contents (udp_receives s) k, None}"
    using Cons.prems fire_other_pending [of f k s] fire_other_udp [of f k s] by simp_all
  ultimately show ?case using Cons.IH [of "fire H f s"] Cons.prems by auto
qed

text \<open>A send that is entered, not evicted and returns \<open>n > 0\<close> bytes produces exactly one record:
  the event of its entry with \<open>n\<close> bytes sent, whatever other threads do meanwhile.\<close>

lemma send_accounted:
  assumes fill: "fill_event M c sk proto = (1, e)"
    and stored: "contents (pending_sends (save_send H M c s sk proto)) (current_pid_tgid c) = Some e"
    and others: "\<forall>f \<in> set fs. current_pid_tgid (fst f) \<noteq> current_pid_tgid c"
    and s': "s' = run_probes H fs (save_send H M c s sk proto)"
    and kept: "contents (pending_sends s') (current_pid_tgid c) \<noteq> None"
    and same: "current_pid_tgid c' = current_pid_tgid c"
    and n: "0 <s n" and room: "accepts s'"
  shows "records (events (emit_send H c' s' n)) = records (events s') @ [e\<lparr>sent := scast n\<rparr>]"
    and "contents (pending_sends (emit_send H c' s' n)) (current_pid_tgid c) = None"
proof -
  have "contents (pending_sends s') (current_pid_tgid c) = Some e"
    using run_other [OF others, of "save_send H M c s sk proto"] stored kept s' by auto
  then show "records (events (emit_send H c' s' n)) = records (events s') @ [e\<lparr>sent := scast n\<rparr>]"
    using n room same by (simp add: emit_send_records)
  show "contents (pending_sends (emit_send H c' s' n)) (current_pid_tgid c) = None"
    using same by (simp add: emit_send_pending)
qed

text \<open>Refinement: a lossy kernel delivers a subsequence of the expected events.\<close>

definition refines :: "('m, 'r) bpf_state \<Rightarrow> firing list \<Rightarrow> bool" where
  "refines s h \<longleftrightarrow>
     (\<forall>k e. contents (pending_sends s) k = Some e \<longrightarrow> saved_send k h = Some e) \<and>
     (\<forall>k e. contents (udp_receives s) k = Some e \<longrightarrow> saved_recv k h = Some e) \<and>
     subseq (records (events s)) (expected_events h)"

lemma refines_fire:
  assumes "refines s h" "vacant f h"
  shows "refines (fire H f s) (f # h)"
proof -
  have p: "\<And>k e. contents (pending_sends s) k = Some e \<Longrightarrow> saved_send k h = Some e"
    and u: "\<And>k e. contents (udp_receives s) k = Some e \<Longrightarrow> saved_recv k h = Some e"
    and r: "subseq (records (events s)) (expected_events h)"
    using assms(1) by (auto simp: refines_def)
  note r' = list_emb_prefix [OF r] list_emb_append_mono [OF r]
  show ?thesis
    using assms(2)
    by (cases "(H, f, s)" rule: fire.cases)
      (auto simp: refines_def handler_defs effects entry_event_def p u r r'
        dest!: p u update_cases split: prod.splits option.splits if_splits)
qed

lemma run_probes_snoc: "run_probes H (fs @ [f]) s = fire H f (run_probes H fs s)"
  by (simp add: run_probes_def)

lemma refines_run: "refines s [] \<Longrightarrow> unnested (rev fs) \<Longrightarrow> refines (run_probes H fs s) (rev fs)"
proof (induction fs rule: rev_induct)
  case Nil
  then show ?case by (simp add: run_probes_def)
next
  case (snoc f fs)
  then show ?case by (simp add: run_probes_snoc refines_fire)
qed

lemma delivered_subseq:
  assumes "\<And>k. contents (pending_sends s) k = None" "\<And>k. contents (udp_receives s) k = None"
    "records (events s) = []" "unnested (rev fs)"
  shows "subseq (records (events (run_probes H fs s))) (expected_events (rev fs))"
proof -
  have "refines s []" using assms(1-3) by (simp add: refines_def)
  then have "refines (run_probes H fs s) (rev fs)" using assms(4) by (rule refines_run)
  then show ?thesis by (simp add: refines_def)
qed

end

subsection \<open>A kernel without loss\<close>

interpretation ideal: bpf_kernel ideal_helpers "\<lambda>m. m" "\<lambda>r. r"
  by unfold_locales (auto simp: ideal_helpers_def)

lemma ideal_accepts: "ringbuf_reserve ideal_helpers r n = Some r"
  by (simp add: ideal_helpers_def)

lemma ideal_update: "map_update_elem ideal_helpers m k v = m(k \<mapsto> v)"
  by (simp add: ideal_helpers_def)

lemma ideal_fire:
  assumes "pending_sends s = (\<lambda>k. saved_send k h)" "udp_receives s = (\<lambda>k. saved_recv k h)"
    "events s = expected_events h"
  shows "pending_sends (fire ideal_helpers f s) = (\<lambda>k. saved_send k (f # h)) \<and>
    udp_receives (fire ideal_helpers f s) = (\<lambda>k. saved_recv k (f # h)) \<and>
    events (fire ideal_helpers f s) = expected_events (f # h)"
  using assms
  by (cases "(ideal_helpers, f, s)" rule: fire.cases)
    (auto simp: ideal.handler_defs ideal.effects ideal_accepts ideal_update entry_event_def fun_eq_iff
      split: prod.splits option.splits if_splits)

lemma ideal_run:
  "pending_sends (run_probes ideal_helpers fs ideal_init) = (\<lambda>k. saved_send k (rev fs)) \<and>
   udp_receives (run_probes ideal_helpers fs ideal_init) = (\<lambda>k. saved_recv k (rev fs)) \<and>
   events (run_probes ideal_helpers fs ideal_init) = expected_events (rev fs)"
proof (induction fs rule: rev_induct)
  case Nil
  then show ?case by (simp add: run_probes_def ideal_init_def)
next
  case (snoc f fs)
  then show ?case by (simp add: ideal.run_probes_snoc ideal_fire)
qed

subsection \<open>A kernel with the capacities of the source\<close>

text \<open>Hash maps that keep the \<^verbatim>\<open>max_entries\<close> most recently stored keys, and a ring of
  \<^verbatim>\<open>max_entries\<close> bytes in which a record of \<open>n\<close> bytes takes \<open>n + 8\<close> and which nobody reads.\<close>

type_synonym lru_map = "(u64 \<times> flow_event) list"
type_synonym bounded_ring = "flow_event list \<times> nat"

definition lru_update :: "lru_map \<Rightarrow> u64 \<Rightarrow> flow_event \<Rightarrow> lru_map" where
  "lru_update m k v = take pending_sends_max_entries ((k, v) # filter (\<lambda>p. fst p \<noteq> k) m)"

definition ring_reserve :: "bounded_ring \<Rightarrow> nat \<Rightarrow> bounded_ring option" where
  "ring_reserve r n = (if snd r + n + 8 \<le> events_max_entries then Some (fst r, snd r + n + 8) else None)"

definition bounded_helpers :: "(lru_map, bounded_ring) bpf_helpers" where
  "bounded_helpers =
     \<lparr>map_lookup_elem = \<lambda>m k. (map_of m k, m),
      map_update_elem = lru_update,
      map_delete_elem = \<lambda>m k. filter (\<lambda>p. fst p \<noteq> k) m,
      ringbuf_reserve = ring_reserve,
      ringbuf_submit = \<lambda>r e. (fst r @ [e], snd r),
      ringbuf_discard = \<lambda>r. r\<rparr>"

definition bounded_init :: "(lru_map, bounded_ring) bpf_state" where
  "bounded_init = \<lparr>events = ([], 0), udp_receives = [], pending_sends = []\<rparr>"

lemma map_of_filter_other: "j \<noteq> k \<Longrightarrow> map_of (filter (\<lambda>p. fst p \<noteq> k) m) j = map_of m j"
  by (induction m) auto

lemma map_of_filter_same: "map_of (filter (\<lambda>p. fst p \<noteq> k) m) k = None"
  by (induction m) auto

lemma map_of_take: "map_of (take n m) j \<in> {map_of m j, None}"
proof (induction m arbitrary: n)
  case (Cons p m)
  then show ?case by (cases n) auto
qed simp

interpretation bounded: bpf_kernel bounded_helpers map_of fst
proof unfold_locales
  fix m :: lru_map and k j :: u64 and v :: flow_event
  show "map_of (map_update_elem bounded_helpers m k v) k \<in> {Some v, map_of m k}"
    by (simp add: bounded_helpers_def lru_update_def pending_sends_max_entries_def)
  show "map_of (map_update_elem bounded_helpers m k v) j \<in> {map_of m j, None}" if "j \<noteq> k"
    using that map_of_take [of pending_sends_max_entries "(k, v) # filter (\<lambda>p. fst p \<noteq> k) m" j]
    by (simp add: bounded_helpers_def lru_update_def map_of_filter_other)
qed (auto simp: bounded_helpers_def ring_reserve_def map_of_filter_other map_of_filter_same
    split: if_splits)

subsection \<open>A concrete run\<close>

text \<open>A socket whose memory reads as an IPv4 socket, one thread that sends 100 bytes over TCP, and
  another that receives 7 bytes over UDP in between.\<close>

definition demo_view :: kernel_view where
  "demo_view = \<lparr>target_endian = LittleEndian, core_offset = (\<lambda>p. length p),
     probe_read_kernel = (\<lambda>a n. take n (2 # replicate n 0))\<rparr>"

definition demo_ctx :: "u64 \<Rightarrow> bpf_ctx" where
  "demo_ctx k = \<lparr>ktime_ns = 5, current_cgroup_id = 9, current_pid_tgid = k\<rparr>"

definition demo_firings :: "firing list" where
  "demo_firings =
     [(demo_ctx 1, demo_view, Tcp_sendmsg 64), (demo_ctx 2, demo_view, Udp_recvmsg 128),
      (demo_ctx 2, demo_view, Udp_recvmsg_return 7), (demo_ctx 1, demo_view, Tcp_sendmsg_return 100)]"

lemma demo_view_good: "good_view demo_view"
  by (simp add: good_view_def demo_view_def)

lemma demo_firings_good: "\<forall>f \<in> set demo_firings. good_view (fst (snd f))"
  by (simp add: demo_firings_def demo_view_good)

lemmas demo_defs = demo_firings_def demo_ctx_def demo_view_def fill_event_def core_read_int_def
  core_read_def Let_def zero_event_def AF_INET_def AF_INET6_def bpf_htons_def IPPROTO_TCP_def
  IPPROTO_UDP_def

lemma demo_fill:
  "fill_event demo_view (demo_ctx k) sk proto =
     (1, zero_event\<lparr>monotonic_ns := 5, cgroup_id := 9, pid := ucast (drop_bit 32 k), family := 2,
        protocol := proto, state := 2, local_port := 512, remote_port := 2,
        local_addr := [2, 0, 0, 0] @ replicate 12 0, remote_addr := [2, 0, 0, 0] @ replicate 12 0\<rparr>)"
  by (simp add: demo_defs memcpy_def byte_eval)

lemma demo_ctx_key: "current_pid_tgid (demo_ctx k) = k"
  by (simp add: demo_ctx_def)

lemma demo_records:
  "map (\<lambda>e. (protocol e, sent e, received e)) (fst (events (run_probes bounded_helpers demo_firings bounded_init))) =
     [(17, 0, 7), (6, 100, 0)]"
  by (simp add: run_probes_def demo_firings_def bounded.handler_defs save_send_def emit_send_def trace_udp_recvmsg_def
      trace_udp_recvmsg_return_def demo_fill IPPROTO_TCP_def IPPROTO_UDP_def bounded_helpers_def bounded_init_def
      lru_update_def ring_reserve_def pending_sends_max_entries_def events_max_entries_def
      demo_ctx_key struct_flow_event_layout zero_event_def word_sle_eq word_sless_alt Let_def)

lemma bounded_init_empty:
  "map_of (pending_sends bounded_init) k = None" "map_of (udp_receives bounded_init) k = None"
  "fst (events bounded_init) = []"
  by (simp_all add: bounded_init_def)

subsection \<open>Properties\<close>

text \<open>C2. Whatever the kernel decides about capacity and eviction, and however the probes of all
  threads interleave: every event the program keeps for a pending call carries no byte count
  and the process identifier of the thread it is filed under, and every event it submits is a
  well-formed IPv4 or IPv6, TCP or UDP event that counts between 1 and \<open>2 ^ 31 - 1\<close> bytes in
  exactly one direction.\<close>

theorem flow_inv_reachable:
  assumes kernel: "bpf_kernel H contents records" and init: "flow_inv contents records s"
    and views: "\<forall>f \<in> set fs. good_view (fst (snd f))"
  shows "flow_inv contents records (run_probes H fs s)"
  using bpf_kernel.inv_run [OF kernel init views] .

theorem flow_inv_reachable_witness:
  "flow_inv map_of fst (run_probes bounded_helpers demo_firings bounded_init) \<and>
   length (fst (events (run_probes bounded_helpers demo_firings bounded_init))) = 2"
proof
  have "flow_inv map_of fst bounded_init" by (simp add: flow_inv_def bounded_init_empty)
  then show "flow_inv map_of fst (run_probes bounded_helpers demo_firings bounded_init)"
    using flow_inv_reachable [OF bounded.bpf_kernel_axioms _ demo_firings_good] by blast
  show "length (fst (events (run_probes bounded_helpers demo_firings bounded_init))) = 2"
    using arg_cong [OF demo_records, of length] by simp
qed

text \<open>C1. Refinement: if no thread nests calls, a kernel that may lose entries and records delivers a
  subsequence of the events the loss-free specification requires, in the same order: nothing is
  duplicated, reordered, invented or attributed to another call.\<close>

theorem delivered_is_subsequence:
  assumes kernel: "bpf_kernel H contents records"
    and empty: "\<forall>k. contents (pending_sends s) k = None" "\<forall>k. contents (udp_receives s) k = None"
      "records (events s) = []"
    and nesting: "unnested (rev fs)"
  shows "subseq (records (events (run_probes H fs s))) (expected_events (rev fs))"
  using bpf_kernel.delivered_subseq [OF kernel] empty nesting by blast

theorem delivered_is_subsequence_witness:
  "subseq (fst (events (run_probes bounded_helpers demo_firings bounded_init))) (expected_events (rev demo_firings)) \<and>
   unnested (rev demo_firings)"
proof -
  have "unnested (rev demo_firings)"
    by (simp add: demo_firings_def entry_event_def demo_fill demo_ctx_key)
  then show ?thesis
    using delivered_is_subsequence [OF bounded.bpf_kernel_axioms, of bounded_init demo_firings]
    by (simp add: bounded_init_empty)
qed

text \<open>C12. With a kernel that never fails, the state the handlers keep implements the stateless
  specification exactly: the submitted events are those determined by the history of firings.\<close>

theorem ideal_run_expected:
  "events (run_probes ideal_helpers fs ideal_init) = expected_events (rev fs)"
  by (simp add: ideal_run)

text \<open>A send is accounted exactly once: if the entry event was stored and not evicted, then after
  any activity of other threads the return of \<open>n > 0\<close> bytes submits exactly the event recorded
  at the entry, with \<open>n\<close> bytes sent, and forgets the call.\<close>

theorem send_accounted_once:
  assumes kernel: "bpf_kernel H contents records"
    and fill: "fill_event M c sk proto = (1, e)"
    and stored: "contents (pending_sends (save_send H M c s sk proto)) (current_pid_tgid c) = Some e"
    and others: "\<forall>f \<in> set fs. current_pid_tgid (fst f) \<noteq> current_pid_tgid c"
    and s': "s' = run_probes H fs (save_send H M c s sk proto)"
    and kept: "contents (pending_sends s') (current_pid_tgid c) \<noteq> None"
    and same: "current_pid_tgid c' = current_pid_tgid c"
    and n: "0 <s n" and room: "ringbuf_reserve H (events s') (sizeof struct_flow_event) \<noteq> None"
  shows "records (events (emit_send H c' s' n)) = records (events s') @ [e\<lparr>sent := scast n\<rparr>] \<and>
    contents (pending_sends (emit_send H c' s' n)) (current_pid_tgid c) = None"
  using bpf_kernel.send_accounted [OF kernel fill stored others s' kept same n room] by blast

theorem send_accounted_once_witness:
  "let s' = run_probes bounded_helpers [(demo_ctx 2, demo_view, Udp_recvmsg 128)]
         (save_send bounded_helpers demo_view (demo_ctx 1) bounded_init 64 IPPROTO_TCP)
   in fst (events (emit_send bounded_helpers (demo_ctx 1) s' 100)) =
        fst (events s') @ [(snd (fill_event demo_view (demo_ctx 1) 64 IPPROTO_TCP))\<lparr>sent := scast (100 :: 32 word)\<rparr>]"
proof -
  let ?s = "save_send bounded_helpers demo_view (demo_ctx 1) bounded_init 64 IPPROTO_TCP"
  let ?s' = "run_probes bounded_helpers [(demo_ctx 2, demo_view, Udp_recvmsg 128)] ?s"
  let ?e = "snd (fill_event demo_view (demo_ctx 1) 64 IPPROTO_TCP)"
  have f: "fill_event demo_view (demo_ctx 1) 64 IPPROTO_TCP = (1, ?e)" by (simp add: demo_fill)
  have p: "map_of (pending_sends ?s) (current_pid_tgid (demo_ctx 1)) = Some ?e"
    by (simp add: save_send_def demo_fill bounded_helpers_def lru_update_def pending_sends_max_entries_def demo_ctx_key)
  have k: "map_of (pending_sends ?s') (current_pid_tgid (demo_ctx 1)) \<noteq> None"
    using p by (simp add: run_probes_def trace_udp_recvmsg_def demo_fill)
  have r: "ringbuf_reserve bounded_helpers (events ?s') (sizeof struct_flow_event) \<noteq> None"
    by (simp add: run_probes_def trace_udp_recvmsg_def save_send_def demo_fill bounded_helpers_def
        bounded_init_def ring_reserve_def events_max_entries_def struct_flow_event_layout)
  show ?thesis
    using send_accounted_once [OF bounded.bpf_kernel_axioms f p _ refl k refl _ r, of 100]
    by (simp add: demo_ctx_key word_sless_alt Let_def)
qed

text \<open>Threads are isolated: no sequence of firings of other threads can change the event a thread
  has pending, in either map, other than by eviction.\<close>

theorem threads_isolated:
  assumes kernel: "bpf_kernel H contents records"
    and others: "\<forall>f \<in> set fs. current_pid_tgid (fst f) \<noteq> k"
  shows "contents (pending_sends (run_probes H fs s)) k \<in> {contents (pending_sends s) k, None} \<and>
    contents (udp_receives (run_probes H fs s)) k \<in> {contents (udp_receives s) k, None}"
  using bpf_kernel.run_other [OF kernel others] .

theorem threads_isolated_witness:
  "map_of (pending_sends (run_probes bounded_helpers demo_firings bounded_init)) 3 = None"
  using threads_isolated [OF bounded.bpf_kernel_axioms, of demo_firings 3 bounded_init]
  by (simp add: demo_firings_def demo_ctx_key bounded_init_empty)

text \<open>Nested sends of one thread share one slot: when a thread enters a second send before the first
  has returned, only the inner call is reported and the bytes of the outer call are lost.\<close>

theorem nested_send_loses_outer:
  assumes same: "current_pid_tgid c1 = k" "current_pid_tgid c2 = k" "current_pid_tgid c3 = k" "current_pid_tgid c4 = k"
    and outer: "fill_event M1 c1 sk1 IPPROTO_TCP = (1, e1)" and inner: "fill_event M2 c2 sk2 IPPROTO_UDP = (1, e2)"
    and n: "0 <s n1" "0 <s n2"
  shows "events (run_probes ideal_helpers
      [(c1, M1, Tcp_sendmsg sk1), (c2, M2, Udp_sendmsg sk2), (c3, M3, Udp_sendmsg_return n2),
       (c4, M4, Tcp_sendmsg_return n1)] ideal_init) = [e2\<lparr>sent := scast n2\<rparr>]"
  using same outer inner n by (simp add: ideal_run entry_event_def)

theorem nested_send_loses_outer_witness:
  "map sent (events (run_probes ideal_helpers
      [(demo_ctx 1, demo_view, Tcp_sendmsg 64), (demo_ctx 1, demo_view, Udp_sendmsg 128),
       (demo_ctx 1, demo_view, Udp_sendmsg_return 30), (demo_ctx 1, demo_view, Tcp_sendmsg_return 100)]
      ideal_init)) = [30]"
  using nested_send_loses_outer [of "demo_ctx 1" 1 "demo_ctx 1" "demo_ctx 1" "demo_ctx 1" demo_view 64 _ demo_view 128
      _ 100 30 demo_view demo_view]
  by (simp add: demo_ctx_key demo_fill word_sless_alt)

end
