(* ===== verification/Netip.thy ===== *)
theory Netip
  imports Prelude
begin

text \<open>
  What the sources use of Go's \<^verbatim>\<open>net/netip\<close> and \<^verbatim>\<open>strconv\<close>: addresses, their text form
  (\<^verbatim>\<open>Addr.String\<close>) and its parser (\<^verbatim>\<open>netip.ParseAddr\<close>), decimal numerals. The round trip
  theorem says that the parser accepts the text form of every address and returns the address.
\<close>

subsection \<open>Addresses\<close>

text \<open>\<^verbatim>\<open>netip.Addr\<close>: the zero value, an IPv4 or an IPv6 address (IPv4-mapped addresses stay
  16 bytes long), or an IPv6 address with a zone.\<close>

datatype addr = NoAddr | Addr4 bytes | Addr16 bytes | AddrZone bytes string

fun IsValid :: "addr \<Rightarrow> bool" where
  "IsValid NoAddr = False"
| "IsValid _ = True"

fun proper_addr :: "addr \<Rightarrow> bool" where
  "proper_addr (Addr4 bs) = (length bs = 4)"
| "proper_addr (Addr16 bs) = (length bs = 16)"
| "proper_addr _ = False"

subsection \<open>Numerals\<close>

text \<open>\<^verbatim>\<open>strconv.Itoa\<close> on a non-negative number.\<close>

fun itoa :: "nat \<Rightarrow> string" where
  "itoa n = (if n < 10 then [char_of (48 + n)] else itoa (n div 10) @ [char_of (48 + n mod 10)])"

declare itoa.simps [simp del]

lemma itoa_nonempty: "itoa n \<noteq> []"
  by (subst itoa.simps) simp

definition hex_digit :: "nat \<Rightarrow> char" where
  "hex_digit d = char_of (if d < 10 then 48 + d else 87 + d)"

fun hex :: "nat \<Rightarrow> string" where
  "hex n = (if n < 16 then [hex_digit n] else hex (n div 16) @ [hex_digit (n mod 16)])"

declare hex.simps [simp del]

subsection \<open>Text form\<close>

fun join_with :: "string \<Rightarrow> string list \<Rightarrow> string" where
  "join_with sep [] = []"
| "join_with sep [x] = x"
| "join_with sep (x # y # xs) = x @ sep @ join_with sep (y # xs)"

definition dotted :: "bytes \<Rightarrow> string" where
  "dotted bs = join_with ''.'' (map (\<lambda>b. itoa (unat b)) bs)"

fun groups :: "bytes \<Rightarrow> nat list" where
  "groups (a # b # bs) = (256 * unat a + unat b) # groups bs"
| "groups _ = []"

definition zero_run :: "nat list \<Rightarrow> nat \<Rightarrow> nat" where
  "zero_run gs i = length (takeWhile (\<lambda>g. g = 0) (drop i gs))"

text \<open>Start and length of the run that is compressed: later runs win only if they are longer.\<close>

definition best_run :: "nat list \<Rightarrow> (nat \<times> nat) option" where
  "best_run gs = fold (\<lambda>i best.
     (let l = zero_run gs i in
      if 2 \<le> l \<and> (case best of None \<Rightarrow> True | Some (_, l') \<Rightarrow> l' < l) then Some (i, l) else best))
     [0..<length gs] None"

definition string6 :: "nat list \<Rightarrow> string" where
  "string6 gs =
     (case best_run gs of
        None \<Rightarrow> join_with '':'' (map hex gs)
      | Some (i, l) \<Rightarrow>
          join_with '':'' (map hex (take i gs)) @ ''::'' @ join_with '':'' (map hex (drop (i + l) gs)))"

definition string16 :: "bytes \<Rightarrow> string" where
  "string16 bs =
     (if take 12 bs = replicate 10 0 @ [255, 255] then ''::ffff:'' @ dotted (drop 12 bs)
      else string6 (groups bs))"

fun addr_string :: "addr \<Rightarrow> string" where
  "addr_string NoAddr = ''invalid IP''"
| "addr_string (Addr4 bs) = dotted bs"
| "addr_string (Addr16 bs) = string16 bs"
| "addr_string (AddrZone bs zone) = string16 bs @ ''%'' @ zone"

subsection \<open>Parser\<close>

definition is_digit :: "char \<Rightarrow> bool" where
  "is_digit c \<longleftrightarrow> 48 \<le> (of_char c :: nat) \<and> (of_char c :: nat) \<le> 57"

definition digit_value :: "char \<Rightarrow> nat" where
  "digit_value c = of_char c - 48"

text \<open>\<^verbatim>\<open>parseIPv4Fields\<close>: the fields read so far and the value of the current one, if it has a
  digit yet.\<close>

fun parse4 :: "string \<Rightarrow> nat list \<Rightarrow> nat option \<Rightarrow> nat list option" where
  "parse4 [] fs cur =
     (case cur of Some v \<Rightarrow> if length fs = 3 then Some (fs @ [v]) else None | None \<Rightarrow> None)"
| "parse4 (c # cs) fs cur =
     (if is_digit c then
        (case cur of
           None \<Rightarrow> parse4 cs fs (Some (digit_value c))
         | Some v \<Rightarrow>
             (if v = 0 then None
              else if 255 < 10 * v + digit_value c then None
              else parse4 cs fs (Some (10 * v + digit_value c))))
      else if c = CHR ''.'' then
        (case cur of
           None \<Rightarrow> None
         | Some v \<Rightarrow> if cs = [] \<or> length fs = 3 then None else parse4 cs (fs @ [v]) None)
      else None)"

definition hex_value :: "char \<Rightarrow> nat option" where
  "hex_value c =
     (let v = of_char c :: nat in
      if 48 \<le> v \<and> v \<le> 57 then Some (v - 48)
      else if 97 \<le> v \<and> v \<le> 102 then Some (v - 87)
      else if 65 \<le> v \<and> v \<le> 70 then Some (v - 55)
      else None)"

text \<open>The inner loop of \<^verbatim>\<open>parseIPv6\<close>: number of digits, value and rest; a fifth digit fails.\<close>

fun scan_hex :: "string \<Rightarrow> nat \<Rightarrow> nat \<Rightarrow> (nat \<times> nat \<times> string) option" where
  "scan_hex [] n acc = Some (n, acc, [])"
| "scan_hex (c # cs) n acc =
     (case hex_value c of
        None \<Rightarrow> Some (n, acc, c # cs)
      | Some d \<Rightarrow> if 3 < n then None else scan_hex cs (Suc n) (16 * acc + d))"

text \<open>The outer loop, at most eight groups: the rest of the string, the bytes read and the position
  of the ellipsis.\<close>

fun parse6_loop :: "nat \<Rightarrow> string \<Rightarrow> bytes \<Rightarrow> nat option \<Rightarrow> (string \<times> bytes \<times> nat option) option" where
  "parse6_loop 0 s acc ell = Some (s, acc, ell)"
| "parse6_loop (Suc n) s acc ell =
     (case scan_hex s 0 0 of
        None \<Rightarrow> None
      | Some (digits, v, rest) \<Rightarrow>
          (if digits = 0 then None
           else if take 1 rest = ''.'' then
             (if ell = None \<and> length acc \<noteq> 12 then None
              else if 16 < length acc + 4 then None
              else (case parse4 s [] None of
                      None \<Rightarrow> None
                    | Some fs \<Rightarrow> Some ([], acc @ map of_nat fs, ell)))
           else
             (let acc' = acc @ [of_nat (v div 256), of_nat (v mod 256)] in
              case rest of
                [] \<Rightarrow> Some ([], acc', ell)
              | [_] \<Rightarrow> None
              | c # d # rest' \<Rightarrow>
                  (if c \<noteq> CHR '':'' then None
                   else if d = CHR '':'' then
                     (if ell \<noteq> None then None
                      else if rest' = [] then Some ([], acc', Some (length acc'))
                      else parse6_loop n rest' acc' (Some (length acc')))
                   else parse6_loop n (d # rest') acc' ell))))"

definition parse6 :: "string \<Rightarrow> addr option" where
  "parse6 text =
     (let s = takeWhile (\<lambda>c. c \<noteq> CHR ''%'') text;
          zone = drop (Suc (length s)) text;
          mk = (\<lambda>bs. if zone = [] then Addr16 bs else AddrZone bs zone)
      in if length s < length text \<and> zone = [] then None
         else if s = ''::'' then Some (mk (replicate 16 0))
         else
           (case (if take 2 s = ''::'' then parse6_loop 8 (drop 2 s) [] (Some 0) else parse6_loop 8 s [] None) of
              None \<Rightarrow> None
            | Some (rest, acc, ell) \<Rightarrow>
                (if rest \<noteq> [] then None
                 else if length acc < 16 then
                   (case ell of
                      None \<Rightarrow> None
                    | Some e \<Rightarrow> Some (mk (take e acc @ replicate (16 - length acc) 0 @ drop e acc)))
                 else if ell \<noteq> None then None
                 else Some (mk acc))))"

definition ParseAddr :: "string \<Rightarrow> addr option" where
  "ParseAddr s =
     (case dropWhile (\<lambda>c. c \<notin> {CHR ''.'', CHR '':'', CHR ''%''}) s of
        [] \<Rightarrow> None
      | c # _ \<Rightarrow>
          (if c = CHR ''.'' then map_option (\<lambda>fs. Addr4 (map of_nat fs)) (parse4 s [] None)
           else if c = CHR '':'' then parse6 s
           else None))"

subsection \<open>Reading numerals back\<close>

lemma char_of_digit: "d < 10 \<Longrightarrow> is_digit (char_of (48 + d))" "d < 10 \<Longrightarrow> digit_value (char_of (48 + d)) = d"
  by (simp_all add: is_digit_def digit_value_def)

lemma itoa_digits: "c \<in> set (itoa n) \<Longrightarrow> is_digit c"
proof (induction n rule: itoa.induct)
  case (1 n)
  then show ?case by (cases "n < 10") (auto simp: itoa.simps [of n] is_digit_def)
qed

lemma itoa_cases:
  assumes "n < 256"
  shows "(n < 10 \<and> itoa n = [char_of (48 + n)]) \<or>
    (10 \<le> n \<and> n < 100 \<and> itoa n = [char_of (48 + n div 10), char_of (48 + n mod 10)]) \<or>
    (100 \<le> n \<and> itoa n = [char_of (48 + n div 100), char_of (48 + n div 10 mod 10), char_of (48 + n mod 10)])"
proof -
  have "n div 10 div 10 = n div 100" by (simp add: div_mult2_eq [symmetric])
  moreover have "n div 100 < 10" using assms by (simp add: less_mult_imp_div_less)
  ultimately show ?thesis
    by (cases "n < 10"; cases "n < 100")
      (simp_all add: itoa.simps [of n] itoa.simps [of "n div 10"] itoa.simps [of "n div 100"] not_less
        less_mult_imp_div_less div_less_iff_less_mult)
qed

lemma parse4_itoa:
  assumes "n < 256"
  shows "parse4 (itoa n @ cs) fs None = parse4 cs fs (Some n)"
proof -
  consider "n < 10" "itoa n = [char_of (48 + n)]"
    | "10 \<le> n" "n < 100" "itoa n = [char_of (48 + n div 10), char_of (48 + n mod 10)]"
    | "100 \<le> n" "itoa n = [char_of (48 + n div 100), char_of (48 + n div 10 mod 10), char_of (48 + n mod 10)]"
    using itoa_cases [OF assms] by blast
  then show ?thesis
  proof cases
    case 1
    then show ?thesis by (simp add: char_of_digit)
  next
    case 2
    have "10 * (n div 10) + n mod 10 = n" "0 < n div 10" using 2 by (simp_all add: div_greater_zero_iff)
    with 2 assms show ?thesis by (simp add: char_of_digit less_mult_imp_div_less)
  next
    case 3
    have "n div 100 < 10" "0 < n div 100" using 3 assms by (auto simp: less_mult_imp_div_less div_greater_zero_iff)
    moreover have "10 * (n div 10 div 10) + n div 10 mod 10 = n div 10" by (rule mult_div_mod_eq)
    then have "10 * (n div 100) + n div 10 mod 10 = n div 10" by (simp add: div_mult2_eq [symmetric])
    moreover have "10 * (n div 10) + n mod 10 = n" by simp
    moreover have "n div 10 \<le> 25" "0 < n div 10" using 3 assms by (auto simp: div_greater_zero_iff)
    ultimately show ?thesis using 3 assms by (simp add: char_of_digit)
  qed
qed

lemma parse4_dotted:
  assumes "length bs = 4"
  shows "parse4 (dotted bs) [] None = Some (map unat bs)"
proof -
  obtain a b c d where bs: "bs = [a, b, c, d]"
    using assms by (auto simp: numeral_eq_Suc length_Suc_conv)
  have u: "unat x < 256" for x :: byte using unsigned_less [of x] by simp
  have dot: "parse4 (CHR ''.'' # itoa n @ cs) fs (Some v) = parse4 cs (fs @ [v]) (Some n)"
    if "n < 256" "length fs < 3" for n cs fs v
    using that by (simp add: parse4_itoa itoa_nonempty is_digit_def)
  show ?thesis
    by (simp add: bs dotted_def parse4_itoa dot u dot [where cs = "[]", unfolded append_Nil2] del: parse4.simps(2))
qed

lemma hex_value_digit: "d < 16 \<Longrightarrow> hex_value (hex_digit d) = Some d"
  by (simp add: hex_value_def hex_digit_def Let_def)

lemma hex_cases:
  assumes "n < 65536"
  shows "\<exists>ds. hex n = map hex_digit ds \<and> ds \<noteq> [] \<and> length ds \<le> 4 \<and> (\<forall>d \<in> set ds. d < 16) \<and>
    foldl (\<lambda>v d. 16 * v + d) 0 ds = n"
proof -
  have step: "\<exists>ds. hex n = map hex_digit ds \<and> ds \<noteq> [] \<and> length ds \<le> Suc k \<and> (\<forall>d \<in> set ds. d < 16) \<and>
      foldl (\<lambda>v d. 16 * v + d) 0 ds = n"
    if "n < 16 ^ Suc k" for n k
    using that
  proof (induction k arbitrary: n)
    case 0
    then show ?case by (intro exI [of _ "[n]"]) (simp add: hex.simps)
  next
    case (Suc k)
    show ?case
    proof (cases "n < 16")
      case True
      then show ?thesis by (intro exI [of _ "[n]"]) (simp add: hex.simps)
    next
      case False
      have "n div 16 < 16 ^ Suc k" using Suc.prems by (simp add: less_mult_imp_div_less mult.commute)
      from Suc.IH [OF this] obtain ds where "hex (n div 16) = map hex_digit ds" "ds \<noteq> []" "length ds \<le> Suc k"
        "\<forall>d \<in> set ds. d < 16" "foldl (\<lambda>v d. 16 * v + d) 0 ds = n div 16" by blast
      then show ?thesis
        using False by (intro exI [of _ "ds @ [n mod 16]"]) (simp add: hex.simps [of n])
    qed
  qed
  show ?thesis using step [of n 3] assms by simp
qed

lemma scan_hex_digits:
  "(\<forall>d \<in> set ds. d < 16) \<Longrightarrow> k + length ds \<le> 4 \<Longrightarrow> rest = [] \<or> hex_value (hd rest) = None \<Longrightarrow>
   scan_hex (map hex_digit ds @ rest) k acc = Some (k + length ds, foldl (\<lambda>v d. 16 * v + d) acc ds, rest)"
proof (induction ds arbitrary: k acc)
  case Nil
  then show ?case by (cases rest) auto
qed (simp add: hex_value_digit)

lemma scan_hex_hex:
  assumes "g < 65536" "rest = [] \<or> hex_value (hd rest) = None"
  shows "\<exists>k. scan_hex (hex g @ rest) 0 0 = Some (Suc k, g, rest)"
proof -
  obtain ds where "hex g = map hex_digit ds" "ds \<noteq> []" "length ds \<le> 4" "\<forall>d \<in> set ds. d < 16"
    "foldl (\<lambda>v d. 16 * v + d) 0 ds = g" using hex_cases [OF assms(1)] by blast
  then show ?thesis
    using scan_hex_digits [of ds 0 rest 0] assms(2) by (cases ds) auto
qed

lemma hex_chars: "g < 65536 \<Longrightarrow> c \<in> set (hex g) \<Longrightarrow> hex_value c \<noteq> None"
  using hex_cases [of g] by (auto simp: hex_value_digit)

lemma hex_nonempty: "hex g \<noteq> []"
  by (subst hex.simps) simp

lemma not_hex [simp]: "hex_value CHR '':'' = None" "hex_value CHR ''.'' = None" "hex_value CHR ''%'' = None"
  by (simp_all add: hex_value_def)

subsection \<open>Groups of an IPv6 address\<close>

definition group_bytes :: "nat \<Rightarrow> bytes" where
  "group_bytes g = [of_nat (g div 256), of_nat (g mod 256)]"

definition gbytes :: "nat list \<Rightarrow> bytes" where
  "gbytes gs = concat (map group_bytes gs)"

lemma gbytes_simps [simp]:
  "gbytes [] = []" "gbytes (g # gs) = group_bytes g @ gbytes gs" "gbytes (xs @ ys) = gbytes xs @ gbytes ys"
  by (simp_all add: gbytes_def)

lemma length_gbytes [simp]: "length (gbytes gs) = 2 * length gs"
  by (induction gs) (simp_all add: group_bytes_def)

lemma gbytes_zero: "gbytes (replicate n 0) = replicate (2 * n) 0"
  by (induction n) (simp_all add: group_bytes_def)

lemma groups_bytes: "even (length bs) \<Longrightarrow> gbytes (groups bs) = bs \<and> (\<forall>g \<in> set (groups bs). g < 65536)"
proof (induction bs rule: groups.induct)
  case (1 a b bs)
  have u: "unat x < 256" for x :: byte using unsigned_less [of x] by simp
  then have "256 * unat a + unat b < 65536" using u [of a] u [of b] by linarith
  moreover have "(256 * unat a + unat b) div 256 = unat a" "(256 * unat a + unat b) mod 256 = unat b"
    using u [of b] by simp_all
  ultimately show ?case using 1 by (simp add: group_bytes_def)
qed simp_all

lemma length_groups: "length (groups bs) = length bs div 2"
  by (induction bs rule: groups.induct) auto

lemma best_run_fold:
  assumes "case best of None \<Rightarrow> True | Some (i, l) \<Rightarrow> 2 \<le> l \<and> l = zero_run gs i"
  shows "case fold (\<lambda>i best. (let l = zero_run gs i in
      if 2 \<le> l \<and> (case best of None \<Rightarrow> True | Some (_, l') \<Rightarrow> l' < l) then Some (i, l) else best)) ks best of
    None \<Rightarrow> True | Some (i, l) \<Rightarrow> 2 \<le> l \<and> l = zero_run gs i"
  using assms by (induction ks arbitrary: best) (auto simp: Let_def)

lemma best_run_split:
  assumes "best_run gs = Some (i, l)"
  shows "gs = take i gs @ replicate l 0 @ drop (i + l) gs" "2 \<le> l" "i + l \<le> length gs"
proof -
  have l: "2 \<le> l" "l = zero_run gs i"
    using best_run_fold [where best = None and gs = gs and ks = "[0..<length gs]"] assms by (auto simp: best_run_def)
  have "l \<le> length (drop i gs)"
    unfolding l(2) zero_run_def by (rule length_takeWhile_le)
  with l(1) show "i + l \<le> length gs" by simp
  have "take l (drop i gs) = takeWhile (\<lambda>g. g = 0) (drop i gs)"
    unfolding l(2) zero_run_def by (rule takeWhile_eq_take [symmetric])
  also have "\<dots> = replicate l 0"
    unfolding l(2) zero_run_def by (metis (mono_tags, lifting) replicate_length_same set_takeWhileD)
  finally show "gs = take i gs @ replicate l 0 @ drop (i + l) gs"
    by (metis append_take_drop_id drop_drop add.commute)
  show "2 \<le> l" by fact
qed

subsection \<open>Parsing groups\<close>

abbreviation colons :: "nat list \<Rightarrow> string" where
  "colons gs \<equiv> join_with '':'' (map hex gs)"

lemma loop_last:
  "g < 65536 \<Longrightarrow> parse6_loop (Suc n) (hex g) acc ell = Some ([], acc @ group_bytes g, ell)"
  using scan_hex_hex [of g "[]"] by (auto simp: group_bytes_def Let_def)

lemma loop_colon:
  assumes "g < 65536" "d \<noteq> CHR '':''"
  shows "parse6_loop (Suc n) (hex g @ CHR '':'' # d # s) acc ell = parse6_loop n (d # s) (acc @ group_bytes g) ell"
  using scan_hex_hex [OF assms(1), of "CHR '':'' # d # s"] assms(2) by (auto simp: group_bytes_def Let_def)

lemma loop_ellipsis:
  assumes "g < 65536"
  shows "parse6_loop (Suc n) (hex g @ CHR '':'' # CHR '':'' # s) acc None =
    (let acc' = acc @ group_bytes g in
     if s = [] then Some ([], acc', Some (length acc')) else parse6_loop n s acc' (Some (length acc')))"
  using scan_hex_hex [OF assms, of "CHR '':'' # CHR '':'' # s"] by (auto simp: group_bytes_def Let_def)

declare parse6_loop.simps(2) [simp del]

lemma hex_Cons:
  assumes "g < 65536"
  obtains d s where "hex g = d # s" "d \<noteq> CHR '':''" "d \<noteq> CHR ''.''" "d \<noteq> CHR ''%''"
proof -
  obtain d s where h: "hex g = d # s" using hex_nonempty [of g] by (cases "hex g") auto
  then have "hex_value d \<noteq> None" using hex_chars [OF assms, of d] by simp
  then have "d \<noteq> CHR '':''" "d \<noteq> CHR ''.''" "d \<noteq> CHR ''%''" by (auto simp del: not_hex simp: hex_value_def)
  with h show ?thesis using that by blast
qed

lemma loop_groups:
  "gs \<noteq> [] \<Longrightarrow> \<forall>g \<in> set gs. g < 65536 \<Longrightarrow> length gs \<le> n \<Longrightarrow>
   parse6_loop n (colons gs) acc ell = Some ([], acc @ gbytes gs, ell)"
proof (induction gs arbitrary: n acc)
  case (Cons g gs)
  then obtain n' where n: "n = Suc n'" by (cases n) auto
  show ?case
  proof (cases gs)
    case Nil
    then show ?thesis using Cons.prems by (simp add: n loop_last)
  next
    case (Cons h hs)
    have "h < 65536" using Cons.prems Cons by simp
    then obtain d s where h: "hex h = d # s" "d \<noteq> CHR '':''" by (rule hex_Cons)
    have "colons gs = d # (s @ (if hs = [] then [] else CHR '':'' # colons hs))"
      using Cons h by (cases hs) simp_all
    moreover have "colons (g # gs) = hex g @ CHR '':'' # colons gs" using Cons by simp
    ultimately show ?thesis
      using Cons.IH [of n' "acc @ group_bytes g"] Cons.prems Cons n h(2) by (simp add: loop_colon)
  qed
qed simp

lemma loop_groups_ellipsis:
  "gs \<noteq> [] \<Longrightarrow> \<forall>g \<in> set gs. g < 65536 \<Longrightarrow> length gs \<le> n \<Longrightarrow>
   parse6_loop n (colons gs @ CHR '':'' # CHR '':'' # s) acc None =
     (let acc' = acc @ gbytes gs in
      if s = [] then Some ([], acc', Some (length acc')) else parse6_loop (n - length gs) s acc' (Some (length acc')))"
proof (induction gs arbitrary: n acc)
  case (Cons g gs)
  then obtain n' where n: "n = Suc n'" by (cases n) auto
  show ?case
  proof (cases gs)
    case Nil
    then show ?thesis using Cons.prems by (simp add: n loop_ellipsis Let_def)
  next
    case (Cons h hs)
    have "h < 65536" using Cons.prems Cons by simp
    then obtain d t where h: "hex h = d # t" "d \<noteq> CHR '':''" by (rule hex_Cons)
    have "colons gs = d # (t @ (if hs = [] then [] else CHR '':'' # colons hs))"
      using Cons h by (cases hs) simp_all
    moreover have "colons (g # gs) = hex g @ CHR '':'' # colons gs" using Cons by simp
    ultimately show ?thesis
      using Cons.IH [of n' "acc @ group_bytes g"] Cons.prems Cons n h(2) by (simp add: loop_colon Let_def)
  qed
qed simp

lemma colons_chars: "\<forall>g \<in> set gs. g < 65536 \<Longrightarrow> c \<in> set (colons gs) \<Longrightarrow> c = CHR '':'' \<or> hex_value c \<noteq> None"
proof (induction gs)
  case (Cons g gs)
  then show ?case by (cases gs) (auto dest: hex_chars)
qed simp

lemma colons_Nil: "colons gs = [] \<longleftrightarrow> gs = []"
proof (cases gs)
  case (Cons g hs)
  then show ?thesis by (cases hs) (simp_all add: hex_nonempty)
qed simp

text \<open>Text without a zone that has a colon before any dot goes to the IPv6 parser as a whole.\<close>

lemma parse6_plain:
  assumes "\<forall>c \<in> set s. c \<noteq> CHR ''%''" "s \<noteq> ''::''"
  shows "parse6 s =
    (case (if take 2 s = ''::'' then parse6_loop 8 (drop 2 s) [] (Some 0) else parse6_loop 8 s [] None) of
       None \<Rightarrow> None
     | Some (rest, acc, ell) \<Rightarrow>
         (if rest \<noteq> [] then None
          else if length acc < 16 then
            (case ell of None \<Rightarrow> None | Some e \<Rightarrow> Some (Addr16 (take e acc @ replicate (16 - length acc) 0 @ drop e acc)))
          else if ell \<noteq> None then None else Some (Addr16 acc)))"
proof -
  have s: "takeWhile (\<lambda>c. c \<noteq> CHR ''%'') s = s" using assms(1) by (simp add: takeWhile_eq_all_conv)
  have z: "drop (Suc (length s)) s = []" by simp
  show ?thesis unfolding parse6_def Let_def s z using assms(2) by (simp split: option.split)
qed

lemma ParseAddr_colon:
  assumes "s = p @ CHR '':'' # q" "\<forall>c \<in> set p. hex_value c \<noteq> None"
  shows "ParseAddr s = parse6 s"
proof -
  have "\<forall>c \<in> set p. c \<notin> {CHR ''.'', CHR '':'', CHR ''%''}"
    using assms(2) not_hex by (metis insertE singletonD)
  then have "dropWhile (\<lambda>c. c \<notin> {CHR ''.'', CHR '':'', CHR ''%''}) s = CHR '':'' # q"
    unfolding assms(1) by (subst dropWhile_append2) auto
  then show ?thesis by (simp add: ParseAddr_def)
qed

lemma ParseAddr_dotted:
  assumes "length bs = 4"
  shows "ParseAddr (dotted bs) = Some (Addr4 bs)"
proof -
  obtain a b c d where bs: "bs = [a, b, c, d]"
    using assms by (auto simp: numeral_eq_Suc length_Suc_conv)
  have u: "unat x < 256" for x :: byte using unsigned_less [of x] by simp
  have "\<forall>c \<in> set (itoa (unat a)). c \<notin> {CHR ''.'', CHR '':'', CHR ''%''}"
    using itoa_digits by (fastforce simp: is_digit_def)
  then have "dropWhile (\<lambda>c. c \<notin> {CHR ''.'', CHR '':'', CHR ''%''}) (dotted bs) =
      CHR ''.'' # itoa (unat b) @ CHR ''.'' # itoa (unat c) @ CHR ''.'' # itoa (unat d)"
    unfolding bs dotted_def by (simp add: dropWhile_append2)
  then show ?thesis by (simp add: ParseAddr_def parse4_dotted [OF assms] comp_def)
qed

lemma colons_no_zone: "\<forall>g \<in> set gs. g < 65536 \<Longrightarrow> CHR ''%'' \<notin> set (colons gs)"
  using colons_chars [of gs "CHR ''%''"] by auto

lemma colons_Cons:
  "colons (g # gs) = hex g @ (if gs = [] then [] else CHR '':'' # colons gs)"
  by (cases gs) simp_all

lemma colons_head:
  assumes "\<forall>g \<in> set gs. g < 65536" "gs \<noteq> []"
  obtains d t where "colons gs = d # t" "d \<noteq> CHR '':''"
proof -
  obtain g hs where gs: "gs = g # hs" using assms(2) by (cases gs) auto
  then have "g < 65536" using assms(1) by simp
  then obtain d t where h: "hex g = d # t" "d \<noteq> CHR '':''" by (rule hex_Cons)
  have "colons gs = d # t @ (if hs = [] then [] else CHR '':'' # colons hs)"
    unfolding gs colons_Cons using h by simp
  with h(2) show ?thesis using that by blast
qed

lemma parse_plain_groups:
  assumes "length gs = 8" "\<forall>g \<in> set gs. g < 65536"
  shows "ParseAddr (colons gs) = Some (Addr16 (gbytes gs))"
proof -
  obtain g h hs where gs: "gs = g # h # hs" using assms(1) by (auto simp: numeral_eq_Suc length_Suc_conv)
  have "gs \<noteq> []" using gs by simp
  from colons_head [OF assms(2) this] obtain d t where d: "colons gs = d # t" "d \<noteq> CHR '':''" .
  have "ParseAddr (colons gs) = parse6 (colons gs)"
    using assms(2) gs hex_chars by (intro ParseAddr_colon [of _ "hex g" "colons (h # hs)"]) auto
  moreover have "take 2 (colons gs) \<noteq> ''::''" "colons gs \<noteq> ''::''" using d by (simp_all add: numeral_2_eq_2)
  moreover have "parse6_loop 8 (colons gs) [] None = Some ([], gbytes gs, None)"
    using loop_groups [of gs 8 "[]" None] assms gs by simp
  moreover have "\<forall>c \<in> set (colons gs). c \<noteq> CHR ''%''" using colons_no_zone [OF assms(2)] by blast
  ultimately show ?thesis using assms(1) by (simp add: parse6_plain)
qed

lemma loop_compressed:
  assumes "\<forall>g \<in> set p. g < 65536" "\<forall>g \<in> set q. g < 65536" "p \<noteq> []" "length p + length q \<le> 8"
  shows "parse6_loop 8 (colons p @ CHR '':'' # CHR '':'' # colons q) [] None =
    Some ([], gbytes p @ gbytes q, Some (2 * length p))"
proof (cases "q = []")
  case True
  then show ?thesis
    using loop_groups_ellipsis [OF assms(3,1), of 8 "[]" "[]"] assms(4) by (simp add: Let_def)
next
  case False
  then show ?thesis
    using loop_groups_ellipsis [OF assms(3,1), of 8 "colons q" "[]"] assms(4)
      loop_groups [OF False assms(2), of "8 - length p" "gbytes p"]
    by (simp add: Let_def colons_Nil)
qed

lemma parse_compressed:
  assumes "\<forall>g \<in> set p. g < 65536" "\<forall>g \<in> set q. g < 65536" "length p + l + length q = 8" "0 < l"
  shows "ParseAddr (colons p @ CHR '':'' # CHR '':'' # colons q) =
    Some (Addr16 (gbytes p @ replicate (2 * l) 0 @ gbytes q))"
proof -
  let ?s = "colons p @ CHR '':'' # CHR '':'' # colons q"
  have no: "\<forall>c \<in> set ?s. c \<noteq> CHR ''%''"
    using colons_no_zone [OF assms(1)] colons_no_zone [OF assms(2)] by auto
  have l: "16 - (2 * length p + 2 * length q) = 2 * l" "2 * length p + 2 * length q < 16"
    using assms(3,4) by simp_all
  show ?thesis
  proof (cases "p = []")
    case True
    have "ParseAddr ?s = parse6 ?s" using True by (intro ParseAddr_colon [of _ "[]" "CHR '':'' # colons q"]) simp_all
    moreover have "parse6 ?s = Some (Addr16 (gbytes p @ replicate (2 * l) 0 @ gbytes q))"
    proof (cases "q = []")
      case q: True
      then have "l = 8" using True assms(3) by simp
      then show ?thesis using True q by (simp add: parse6_def Let_def)
    next
      case q: False
      then have "parse6_loop 8 (colons q) [] (Some 0) = Some ([], gbytes q, Some 0)" "?s \<noteq> ''::''"
        using loop_groups [OF q assms(2), of 8 "[]" "Some 0"] assms(3) True by (simp_all add: colons_Nil)
      then show ?thesis using True l no by (simp add: parse6_plain)
    qed
    ultimately show ?thesis by simp
  next
    case False
    from colons_head [OF assms(1) False] obtain d t where d: "colons p = d # t" "d \<noteq> CHR '':''" .
    obtain g gs where p: "p = g # gs" using False by (cases p) auto
    have "?s = hex g @ CHR '':'' # (if gs = [] then CHR '':'' # colons q else colons gs @ CHR '':'' # CHR '':'' # colons q)"
      unfolding p colons_Cons by simp
    then have "ParseAddr ?s = parse6 ?s" using assms(1) p hex_chars [of g] by (intro ParseAddr_colon) auto
    moreover have "take 2 ?s \<noteq> ''::''" "?s \<noteq> ''::''" using d by (simp_all add: numeral_2_eq_2)
    moreover have "parse6_loop 8 ?s [] None = Some ([], gbytes p @ gbytes q, Some (2 * length p))"
      using loop_compressed [OF assms(1,2) False] assms(3) by simp
    ultimately show ?thesis using l by (simp add: parse6_plain [OF no])
  qed
qed

lemma string6_roundtrip:
  assumes "length gs = 8" "\<forall>g \<in> set gs. g < 65536"
  shows "ParseAddr (string6 gs) = Some (Addr16 (gbytes gs))"
proof (cases "best_run gs")
  case None
  then show ?thesis using parse_plain_groups [OF assms] by (simp add: string6_def)
next
  case (Some r)
  then obtain i l where best: "best_run gs = Some (i, l)" by (cases r) auto
  note split = best_run_split [OF best]
  have "ParseAddr (colons (take i gs) @ CHR '':'' # CHR '':'' # colons (drop (i + l) gs)) =
      Some (Addr16 (gbytes (take i gs) @ replicate (2 * l) 0 @ gbytes (drop (i + l) gs)))"
    using assms split by (intro parse_compressed) (auto dest: in_set_takeD in_set_dropD)
  moreover have "gbytes gs = gbytes (take i gs) @ replicate (2 * l) 0 @ gbytes (drop (i + l) gs)"
    using arg_cong [OF split(1), of gbytes] by (simp add: gbytes_zero)
  ultimately show ?thesis by (simp add: string6_def best)
qed

lemma itoa_hex_digits:
  assumes "n < 256"
  shows "\<exists>ds. itoa n = map hex_digit ds \<and> ds \<noteq> [] \<and> length ds \<le> 4 \<and> (\<forall>d \<in> set ds. d < 16)"
proof -
  have d: "k < 10 \<Longrightarrow> char_of (48 + k) = hex_digit k" for k by (simp add: hex_digit_def)
  have m: "k mod 10 < 16" for k :: nat by (rule less_trans [OF mod_less_divisor]) simp_all
  have "n div 100 < 10" using assms by (simp add: less_mult_imp_div_less)
  with itoa_cases [OF assms] show ?thesis
  proof (elim disjE conjE)
    assume "n < 10" "itoa n = [char_of (48 + n)]"
    then show ?thesis by (intro exI [of _ "[n]"]) (simp add: d)
  next
    assume "n < 100" "itoa n = [char_of (48 + n div 10), char_of (48 + n mod 10)]"
    then show ?thesis by (intro exI [of _ "[n div 10, n mod 10]"]) (simp add: d less_mult_imp_div_less)
  next
    assume "n div 100 < 10" "itoa n = [char_of (48 + n div 100), char_of (48 + n div 10 mod 10), char_of (48 + n mod 10)]"
    then show ?thesis by (intro exI [of _ "[n div 100, n div 10 mod 10, n mod 10]"]) (simp add: d m)
  qed
qed

lemma loop_dotted:
  assumes "length bs = 4" "length acc + 4 \<le> 16"
  shows "parse6_loop (Suc n) (dotted bs) acc (Some e) = Some ([], acc @ bs, Some e)"
proof -
  obtain a b c d where bs: "bs = [a, b, c, d]"
    using assms(1) by (auto simp: numeral_eq_Suc length_Suc_conv)
  let ?rest = "CHR ''.'' # itoa (unat b) @ CHR ''.'' # itoa (unat c) @ CHR ''.'' # itoa (unat d)"
  have "unat a < 256" using unsigned_less [of a] by simp
  from itoa_hex_digits [OF this] obtain ds where ds: "itoa (unat a) = map hex_digit ds" "ds \<noteq> []" "length ds \<le> 4"
    "\<forall>d \<in> set ds. d < 16" by blast
  have dot: "dotted bs = map hex_digit ds @ ?rest" by (simp add: bs dotted_def ds(1))
  have "scan_hex (dotted bs) 0 0 = Some (length ds, foldl (\<lambda>v d. 16 * v + d) 0 ds, ?rest)"
    using scan_hex_digits [of ds 0 ?rest 0] ds(3,4) by (simp add: dot)
  then show ?thesis
    using assms(2) ds(2) parse4_dotted [OF assms(1)] by (simp add: parse6_loop.simps(2) comp_def)
qed

lemma dotted_chars: "c \<in> set (dotted bs) \<Longrightarrow> c = CHR ''.'' \<or> is_digit c"
proof -
  have "\<forall>c \<in> set (join_with ''.'' xs). c = CHR ''.'' \<or> is_digit c" if "\<forall>x \<in> set xs. \<forall>c \<in> set x. is_digit c" for xs
    using that by (induction "''.''" xs rule: join_with.induct) auto
  from this [of "map (\<lambda>b. itoa (unat b)) bs"] show "c \<in> set (dotted bs) \<Longrightarrow> c = CHR ''.'' \<or> is_digit c"
    using itoa_digits unfolding dotted_def by auto
qed

lemma parse_mapped:
  assumes "length bs = 4"
  shows "ParseAddr (''::ffff:'' @ dotted bs) = Some (Addr16 (replicate 10 0 @ [255, 255] @ bs))"
proof -
  let ?s = "''::ffff:'' @ dotted bs"
  have h: "hex 65535 = ''ffff''" by (simp add: hex.simps hex_digit_def char_of_eq_iff)
  obtain d t where d: "dotted bs = d # t" "is_digit d"
  proof -
    obtain b cs where "bs = b # cs" using assms by (cases bs) auto
    then show ?thesis
      using that itoa_nonempty [of "unat b"] itoa_digits [of _ "unat b"]
      by (cases "itoa (unat b)"; cases cs) (auto simp: dotted_def)
  qed
  then have "d \<noteq> CHR '':''" by (auto simp: is_digit_def)
  then have "parse6_loop 8 (''ffff:'' @ dotted bs) [] (Some 0) = parse6_loop 7 (dotted bs) (group_bytes 65535) (Some 0)"
    using loop_colon [of 65535 d 7 t "[]" "Some 0"] d(1) h by simp
  also have "\<dots> = Some ([], [255, 255] @ bs, Some 0)"
    using loop_dotted [OF assms, of "group_bytes 65535" 6 0] by (simp add: group_bytes_def)
  finally have loop: "parse6_loop 8 (''ffff:'' @ dotted bs) [] (Some 0) = Some ([], [255, 255] @ bs, Some 0)" .
  have "\<forall>c \<in> set (dotted bs). c \<noteq> CHR ''%''" using dotted_chars [of _ bs] by (fastforce simp: is_digit_def)
  then have "\<forall>c \<in> set ?s. c \<noteq> CHR ''%''" by simp
  then have "parse6 ?s = Some (Addr16 (replicate 10 0 @ [255, 255] @ bs))"
    using loop assms by (simp add: parse6_plain)
  moreover have "ParseAddr ?s = parse6 ?s"
    by (rule ParseAddr_colon [of _ "[]" "'':ffff:'' @ dotted bs"]) simp_all
  ultimately show ?thesis by simp
qed

text \<open>Parsing the text form of an IPv4 or IPv6 address gives back the address,
  whether or not the form is compressed or in the dotted notation of IPv4-mapped addresses.\<close>

lemma parse_addr_string:
  assumes "proper_addr a"
  shows "ParseAddr (addr_string a) = Some a"
proof (cases a)
  case (Addr4 bs)
  then show ?thesis using assms by (simp add: ParseAddr_dotted)
next
  case (Addr16 bs)
  then have len: "length bs = 16" using assms by simp
  show ?thesis
  proof (cases "take 12 bs = replicate 10 0 @ [255, 255]")
    case True
    have "bs = take 12 bs @ drop 12 bs" by simp
    then have "bs = replicate 10 0 @ [255, 255] @ drop 12 bs" using True by (metis append.assoc)
    then show ?thesis using parse_mapped [of "drop 12 bs"] True len Addr16 by (simp add: string16_def)
  next
    case False
    then show ?thesis
      using string6_roundtrip [of "groups bs"] groups_bytes [of bs] length_groups [of bs] len Addr16
      by (simp add: string16_def)
  qed
qed (use assms in auto)

end
