(* ===== verification/Decode.thy ===== *)
theory Decode
  imports Flow_Trace Netip
begin

text \<open>
  The user-space side of the event format: \<^verbatim>\<open>internal/agent/ebpf/types.go\<close> and
  \<^verbatim>\<open>decode_linux.go\<close>, and the memory image of the C structure as the reader receives it from
  the ring buffer. The decoder reads fixed positions of an 80-byte record; the theorems compare
  them with the layout of \<^verbatim>\<open>struct flow_event\<close> and show that decoding an image gives back the
  event.
\<close>

subsection \<open>Observations\<close>

record Observation =
  MonotonicNS :: u64
  CgroupID :: u64
  PID :: u32
  Protocol :: u8
  LocalIP :: addr
  RemoteIP :: addr
  LocalPort :: u16
  RemotePort :: u16
  Sent :: u64
  Received :: u64
  State :: u8

datatype decode_error = RecordSize nat | UnsupportedFamily u8

definition rawEventSize :: nat where "rawEventSize = 80"

definition decodeAddresses :: "u8 \<Rightarrow> bytes \<Rightarrow> bytes \<Rightarrow> decode_error + addr \<times> addr" where
  "decodeAddresses fam loc rem =
     (if fam = 2 then Inr (Addr4 (take 4 loc), Addr4 (take 4 rem))
      else if fam = 10 then Inr (Addr16 loc, Addr16 rem)
      else Inl (UnsupportedFamily fam))"

definition decodeRecord :: "bytes \<Rightarrow> decode_error + Observation" where
  "decodeRecord record =
     (if length record \<noteq> rawEventSize then Inl (RecordSize (length record))
      else
        (case decodeAddresses (record ! 20) (go_slice 28 44 record) (go_slice 44 60 record) of
           Inl err \<Rightarrow> Inl err
         | Inr (loc, rem) \<Rightarrow> Inr
             \<lparr>MonotonicNS = of_mem LittleEndian (go_slice 0 8 record),
              CgroupID = of_mem LittleEndian (go_slice 8 16 record),
              PID = of_mem LittleEndian (go_slice 16 20 record),
              Protocol = record ! 21,
              LocalIP = loc,
              RemoteIP = rem,
              LocalPort = of_mem BigEndian (go_slice 24 26 record),
              RemotePort = of_mem BigEndian (go_slice 26 28 record),
              Sent = of_mem LittleEndian (go_slice 64 72 record),
              Received = of_mem LittleEndian (go_slice 72 80 record),
              State = record ! 22\<rparr>))"

subsection \<open>The memory image of an event\<close>

definition event_bytes :: "endian \<Rightarrow> flow_event \<Rightarrow> bytes" where
  "event_bytes E e =
     mem_bytes E 8 (monotonic_ns e) @ mem_bytes E 8 (cgroup_id e) @ mem_bytes E 4 (pid e) @
     [family e, protocol e, state e, pad1 e] @
     mem_bytes E 2 (local_port e) @ mem_bytes E 2 (remote_port e) @
     local_addr e @ remote_addr e @ mem_bytes E 4 (pad2 e) @
     mem_bytes E 8 (sent e) @ mem_bytes E 8 (received e)"

lemmas image_simps = event_bytes_def go_slice_append_left go_slice_append_right go_slice_Cons go_slice_all

lemma length_event_bytes: "well_formed e \<Longrightarrow> length (event_bytes E e) = sizeof struct_flow_event"
  by (simp add: event_bytes_def well_formed_def struct_flow_event_layout)

text \<open>Where each member of the image is: at the offset the layout of the structure gives it.\<close>

lemma event_bytes_fields:
  assumes "well_formed e"
  shows "go_slice 0 8 (event_bytes E e) = mem_bytes E 8 (monotonic_ns e)"
    "go_slice 8 16 (event_bytes E e) = mem_bytes E 8 (cgroup_id e)"
    "go_slice 16 20 (event_bytes E e) = mem_bytes E 4 (pid e)"
    "go_slice 24 26 (event_bytes E e) = mem_bytes E 2 (local_port e)"
    "go_slice 26 28 (event_bytes E e) = mem_bytes E 2 (remote_port e)"
    "go_slice 28 44 (event_bytes E e) = local_addr e"
    "go_slice 44 60 (event_bytes E e) = remote_addr e"
    "go_slice 64 72 (event_bytes E e) = mem_bytes E 8 (sent e)"
    "go_slice 72 80 (event_bytes E e) = mem_bytes E 8 (received e)"
  using assms by (simp_all add: image_simps well_formed_def)

lemma event_bytes_bytes:
  "event_bytes E e ! 20 = family e" "event_bytes E e ! 21 = protocol e" "event_bytes E e ! 22 = state e"
  by (simp_all add: event_bytes_def nth_append)

subsection \<open>What an event means\<close>

text \<open>Ports are big-endian in memory on every target; an IPv4 address occupies the first four
  bytes of its array.\<close>

definition net_order :: "endian \<Rightarrow> u16 \<Rightarrow> u16" where
  "net_order E p = of_mem BigEndian (mem_bytes E 2 p)"

definition event_addr :: "u8 \<Rightarrow> bytes \<Rightarrow> addr" where
  "event_addr fam a = (if fam = AF_INET then Addr4 (take 4 a) else Addr16 a)"

definition observation_of :: "flow_event \<Rightarrow> Observation" where
  "observation_of e =
     \<lparr>MonotonicNS = monotonic_ns e, CgroupID = cgroup_id e, PID = pid e, Protocol = protocol e,
      LocalIP = event_addr (family e) (local_addr e), RemoteIP = event_addr (family e) (remote_addr e),
      LocalPort = net_order LittleEndian (local_port e), RemotePort = net_order LittleEndian (remote_port e),
      Sent = sent e, Received = received e, State = state e\<rparr>"

lemma decode_image:
  assumes "well_formed e"
  shows "decodeRecord (event_bytes LittleEndian e) = Inr (observation_of e)"
proof -
  note f = event_bytes_fields [OF assms, of LittleEndian] event_bytes_bytes [of LittleEndian e]
  have "length (event_bytes LittleEndian e) = rawEventSize"
    using length_event_bytes [OF assms] by (simp add: rawEventSize_def struct_flow_event_layout)
  then show ?thesis
    using assms
    by (auto simp: decodeRecord_def decodeAddresses_def observation_of_def event_addr_def f
        net_order_def of_le_bytes well_formed_def AF_INET_def AF_INET6_def)
qed

text \<open>A port stored with \<^verbatim>\<open>bpf_htons\<close> is read back as the host value on every target.\<close>

lemma net_order_htons: "net_order E (bpf_htons E p) = p"
proof (cases E)
  case LittleEndian
  have "le_bytes 2 (of_le (rev (le_bytes 2 p)) :: u16) = rev (le_bytes 2 p)"
    using le_bytes_of_le [of "rev (le_bytes 2 p)", where 'a = 16] by simp
  then show ?thesis
    by (simp add: LittleEndian net_order_def bpf_htons_def of_le_bytes)
next
  case BigEndian
  then show ?thesis by (simp add: net_order_def bpf_htons_def of_le_bytes)
qed

lemma decode_success_iff:
  "(\<exists>obs. decodeRecord r = Inr obs) \<longleftrightarrow> length r = rawEventSize \<and> r ! 20 \<in> {2, 10}"
  by (auto simp: decodeRecord_def decodeAddresses_def)

subsection \<open>The structure as the decoder sees it\<close>

text \<open>The bytes of a member of a C structure in the structure's memory image.\<close>

definition member_bytes :: "ctype \<Rightarrow> string \<Rightarrow> bytes \<Rightarrow> bytes" where
  "member_bytes t n raw =
     (case offset_of t [n] of Some (k, t') \<Rightarrow> go_slice k (k + sizeof t') raw | None \<Rightarrow> [])"

lemma flow_event_offsets:
  "offset_of struct_flow_event [''monotonic_ns''] = Some (0, td___u64)"
  "offset_of struct_flow_event [''cgroup_id''] = Some (8, td___u64)"
  "offset_of struct_flow_event [''pid''] = Some (16, td___u32)"
  "offset_of struct_flow_event [''family''] = Some (20, td___u8)"
  "offset_of struct_flow_event [''protocol''] = Some (21, td___u8)"
  "offset_of struct_flow_event [''state''] = Some (22, td___u8)"
  "offset_of struct_flow_event [''local_port''] = Some (24, td___be16)"
  "offset_of struct_flow_event [''remote_port''] = Some (26, td___be16)"
  "offset_of struct_flow_event [''local_addr''] = Some (28, CArray td___u8 16)"
  "offset_of struct_flow_event [''remote_addr''] = Some (44, CArray td___u8 16)"
  "offset_of struct_flow_event [''sent''] = Some (64, td___u64)"
  "offset_of struct_flow_event [''received''] = Some (72, td___u64)"
  by (simp_all add: struct_flow_event_def layout_rules ctype_layout del: One_nat_def)

lemma go_slice_single: "i < length xs \<Longrightarrow> go_slice i (i + 1) xs = [xs ! i]"
  by (simp add: go_slice_def Cons_nth_drop_Suc [symmetric])

subsection \<open>Properties\<close>

text \<open>A concrete event for the witnesses: 10.0.0.1:8080 to 93.184.216.34:443, 1500 bytes sent.\<close>

definition demo_event :: flow_event where
  "demo_event = \<lparr>monotonic_ns = 5, cgroup_id = 9, pid = 42, family = 2, protocol = 6, state = 1, pad1 = 0,
     local_port = 0x901F, remote_port = 0xBB01, local_addr = [10, 0, 0, 1] @ replicate 12 0,
     remote_addr = [93, 184, 216, 34] @ replicate 12 0, pad2 = 0, sent = 1500, received = 0\<rparr>"

lemma demo_event_well_formed: "well_formed demo_event"
  by (simp add: demo_event_def well_formed_def AF_INET_def IPPROTO_TCP_def)

text \<open>C9. Round trip across the kernel boundary: decoding the little-endian memory image of a well-formed event
  yields exactly the event: clock, cgroup, process, protocol, state and byte counters
  unchanged, ports in host order, addresses of the right family.\<close>

theorem decode_roundtrip:
  assumes "well_formed e"
  shows "decodeRecord (event_bytes LittleEndian e) = Inr (observation_of e)"
  using assms by (rule decode_image)

theorem decode_roundtrip_witness:
  "decodeRecord (event_bytes LittleEndian demo_event) = Inr
     \<lparr>MonotonicNS = 5, CgroupID = 9, PID = 42, Protocol = 6, LocalIP = Addr4 [10, 0, 0, 1],
      RemoteIP = Addr4 [93, 184, 216, 34], LocalPort = 8080, RemotePort = 443, Sent = 1500, Received = 0,
      State = 1\<rparr>"
proof -
  have "observation_of demo_event =
      \<lparr>MonotonicNS = 5, CgroupID = 9, PID = 42, Protocol = 6, LocalIP = Addr4 [10, 0, 0, 1],
       RemoteIP = Addr4 [93, 184, 216, 34], LocalPort = 8080, RemotePort = 443, Sent = 1500, Received = 0,
       State = 1\<rparr>"
    by (simp add: observation_of_def demo_event_def event_addr_def AF_INET_def net_order_def byte_eval)
  then show ?thesis using decode_roundtrip [OF demo_event_well_formed] by simp
qed

text \<open>The positions the Go decoder hard-codes are the offsets of the C structure: every field of an
  observation is read from the bytes of the member of \<^verbatim>\<open>struct flow_event\<close> it stands for, and the
  accepted record size is the size of the structure.\<close>

theorem decoder_matches_struct:
  assumes "decodeRecord raw = Inr obs"
  shows "length raw = sizeof struct_flow_event \<and>
    MonotonicNS obs = of_mem LittleEndian (member_bytes struct_flow_event ''monotonic_ns'' raw) \<and>
    CgroupID obs = of_mem LittleEndian (member_bytes struct_flow_event ''cgroup_id'' raw) \<and>
    PID obs = of_mem LittleEndian (member_bytes struct_flow_event ''pid'' raw) \<and>
    [Protocol obs] = member_bytes struct_flow_event ''protocol'' raw \<and>
    [State obs] = member_bytes struct_flow_event ''state'' raw \<and>
    LocalPort obs = of_mem BigEndian (member_bytes struct_flow_event ''local_port'' raw) \<and>
    RemotePort obs = of_mem BigEndian (member_bytes struct_flow_event ''remote_port'' raw) \<and>
    Inr (LocalIP obs, RemoteIP obs) = decodeAddresses (hd (member_bytes struct_flow_event ''family'' raw))
      (member_bytes struct_flow_event ''local_addr'' raw) (member_bytes struct_flow_event ''remote_addr'' raw) \<and>
    Sent obs = of_mem LittleEndian (member_bytes struct_flow_event ''sent'' raw) \<and>
    Received obs = of_mem LittleEndian (member_bytes struct_flow_event ''received'' raw)"
proof -
  have len: "length raw = 80"
    using assms by (simp add: decodeRecord_def rawEventSize_def split: if_splits)
  have b: "go_slice 20 21 raw = [raw ! 20]" "go_slice 21 22 raw = [raw ! 21]" "go_slice 22 23 raw = [raw ! 22]"
    using len go_slice_single [of 20 raw] go_slice_single [of 21 raw] go_slice_single [of 22 raw] by simp_all
  show ?thesis
    using assms len b
    by (auto simp: member_bytes_def flow_event_offsets ctype_layout decodeRecord_def rawEventSize_def
        simp del: offset_of.simps split: sum.splits)
qed

theorem decoder_matches_struct_witness:
  "1500 = (of_mem LittleEndian (member_bytes struct_flow_event ''sent'' (event_bytes LittleEndian demo_event)) :: u64)"
proof -
  have "Sent (observation_of demo_event) = 1500" by (simp add: observation_of_def demo_event_def)
  then show ?thesis
    using decoder_matches_struct [OF decode_image [OF demo_event_well_formed]] by metis
qed

text \<open>The decoder is total and its errors are exact: a record is accepted if and only if it has 80 bytes and
  an IPv4 or IPv6 family; a wrong size is reported with the size found, and otherwise the
  family is reported.\<close>

theorem decode_errors_exact:
  "(\<exists>obs. decodeRecord r = Inr obs) = (length r = rawEventSize \<and> r ! 20 \<in> {2, 10}) \<and>
   (decodeRecord r = Inl (RecordSize n)) = (length r \<noteq> rawEventSize \<and> n = length r) \<and>
   (decodeRecord r = Inl (UnsupportedFamily f)) = (length r = rawEventSize \<and> f = r ! 20 \<and> f \<notin> {2, 10})"
  by (auto simp: decodeRecord_def decodeAddresses_def)

text \<open>On a big-endian target the decoder misreads the counters: the repository builds the program for
  big-endian machines too, where the kernel stores integers most significant byte first, but
  the decoder always reads them least significant byte first. An event that reports 1500
  sent bytes arrives as the byte-reversed number.\<close>

theorem big_endian_counters_reversed:
  "(case decodeRecord (event_bytes BigEndian demo_event) of
      Inr obs \<Rightarrow> Sent obs = of_mem LittleEndian (rev (le_bytes 8 (sent demo_event))) \<and> Sent obs \<noteq> sent demo_event
    | Inl _ \<Rightarrow> False)"
proof -
  note f = event_bytes_fields [OF demo_event_well_formed, of BigEndian] event_bytes_bytes [of BigEndian demo_event]
  have "length (event_bytes BigEndian demo_event) = rawEventSize"
    using length_event_bytes [OF demo_event_well_formed] by (simp add: rawEventSize_def struct_flow_event_layout)
  then show ?thesis
    by (simp add: decodeRecord_def decodeAddresses_def f) (simp add: demo_event_def byte_eval)
qed

end
