(* ===== verification/Tracer.thy ===== *)
theory Tracer
  imports Decode
begin

text \<open>
  The lifecycle of the tracer, \<^verbatim>\<open>internal/agent/ebpf/tracer_linux.go\<close>: loading the objects,
  attaching the seven programs, reading the ring and closing everything once. The loader, the
  link and the ring-buffer packages are not part of the repository: \<open>tracer_env\<close> gives the
  error, if any, each of their calls returns, and \<open>iteration\<close> what one turn of the read loop
  observes.
\<close>

subsection \<open>Programs and attachments\<close>

datatype hook = Kprobe | Kretprobe

text \<open>The \<^verbatim>\<open>SEC\<close> annotations of \<^verbatim>\<open>socket_flow.bpf.c\<close>, in the order of the file.\<close>

definition program_sections :: "(string \<times> hook \<times> string) list" where
  "program_sections =
     [(''tcp_sendmsg'', Kprobe, ''trace_tcp_sendmsg''),
      (''tcp_sendmsg'', Kretprobe, ''trace_tcp_sendmsg_return''),
      (''tcp_cleanup_rbuf'', Kprobe, ''trace_tcp_cleanup_rbuf''),
      (''udp_sendmsg'', Kprobe, ''trace_udp_sendmsg''),
      (''udp_sendmsg'', Kretprobe, ''trace_udp_sendmsg_return''),
      (''udp_recvmsg'', Kprobe, ''trace_udp_recvmsg''),
      (''udp_recvmsg'', Kretprobe, ''trace_udp_recvmsg_return'')]"

text \<open>The attachments of \<^verbatim>\<open>NewTracer\<close>; programs by their C name.\<close>

definition attachments :: "(string \<times> hook \<times> string) list" where
  "attachments =
     [(''tcp_sendmsg'', Kprobe, ''trace_tcp_sendmsg''),
      (''tcp_sendmsg'', Kretprobe, ''trace_tcp_sendmsg_return''),
      (''tcp_cleanup_rbuf'', Kprobe, ''trace_tcp_cleanup_rbuf''),
      (''udp_sendmsg'', Kprobe, ''trace_udp_sendmsg''),
      (''udp_sendmsg'', Kretprobe, ''trace_udp_sendmsg_return''),
      (''udp_recvmsg'', Kprobe, ''trace_udp_recvmsg''),
      (''udp_recvmsg'', Kretprobe, ''trace_udp_recvmsg_return'')]"

subsection \<open>Opening and closing\<close>

datatype resource = Objects | Link nat | Reader

record tracer_env =
  memlock_err :: "string option"
  load_err :: "string option"
  attach_err :: "nat \<Rightarrow> string option"
  reader_err :: "string option"
  close_err :: "resource \<Rightarrow> string option"

text \<open>\<open>opened\<close> and \<open>closed\<close> record the calls made on the underlying objects, in order.\<close>

record socketTracer =
  links :: "nat list"
  reader :: bool
  closeOnce :: bool
  closeErr :: "string list"
  opened :: "resource list"
  closed :: "resource list"

datatype tracer_error =
    RemoveMemlock string
  | LoadObjects string
  | Attach string string
  | OpenRingBuffer string

definition Close :: "tracer_env \<Rightarrow> socketTracer \<Rightarrow> socketTracer \<times> string list" where
  "Close env t =
     (if closeOnce t then (t, closeErr t)
      else
        (let order = (if reader t then [Reader] else []) @ map Link (rev (links t)) @ [Objects];
             errs = List.map_filter (close_err env) order
         in (t\<lparr>closeOnce := True, closeErr := errs, closed := closed t @ order\<rparr>, errs)))"

fun attach_all :: "tracer_env \<Rightarrow> socketTracer \<Rightarrow> nat \<Rightarrow> (string \<times> hook \<times> string) list \<Rightarrow>
    socketTracer \<times> (tracer_error + unit)" where
  "attach_all env t i [] = (t, Inr ())"
| "attach_all env t i ((symbol, _, _) # rest) =
     (case attach_err env i of
        Some err \<Rightarrow> (fst (Close env t), Inl (Attach symbol err))
      | None \<Rightarrow> attach_all env (t\<lparr>links := links t @ [i], opened := opened t @ [Link i]\<rparr>) (Suc i) rest)"

definition empty_tracer :: socketTracer where
  "empty_tracer = \<lparr>links = [], reader = False, closeOnce = False, closeErr = [], opened = [], closed = []\<rparr>"

definition NewTracer :: "tracer_env \<Rightarrow> socketTracer \<times> (tracer_error + unit)" where
  "NewTracer env =
     (case memlock_err env of
        Some err \<Rightarrow> (empty_tracer, Inl (RemoveMemlock err))
      | None \<Rightarrow>
          (case load_err env of
             Some err \<Rightarrow> (empty_tracer, Inl (LoadObjects err))
           | None \<Rightarrow>
               (case attach_all env (empty_tracer\<lparr>opened := [Objects]\<rparr>) 0 attachments of
                  (t, Inl err) \<Rightarrow> (t, Inl err)
                | (t, Inr _) \<Rightarrow>
                    (case reader_err env of
                       Some err \<Rightarrow> (fst (Close env t), Inl (OpenRingBuffer err))
                     | None \<Rightarrow> (t\<lparr>reader := True, opened := opened t @ [Reader]\<rparr>, Inr ())))))"

subsection \<open>The read loop\<close>

datatype read_outcome = Sample bytes | DeadlineExceeded | ReaderClosed | ReadError string

text \<open>One turn: whether the context is done before the read, what the read returns, whether the
  context is done by then, and whether the select on the output channel finds it done.\<close>

record iteration =
  ctx_done :: bool
  read_result :: read_outcome
  ctx_done_after_read :: bool
  ctx_done_on_send :: bool

datatype run_error = ReadFailed string | DecodeFailed decode_error

datatype run_result = Running | Stopped | Failed run_error

fun Run :: "iteration list \<Rightarrow> Observation list \<times> run_result" where
  "Run [] = ([], Running)"
| "Run (it # rest) =
     (if ctx_done it then ([], Stopped)
      else
        (case read_result it of
           DeadlineExceeded \<Rightarrow> Run rest
         | ReaderClosed \<Rightarrow> ([], Stopped)
         | ReadError err \<Rightarrow>
             (if ctx_done_after_read it then ([], Stopped) else ([], Failed (ReadFailed err)))
         | Sample raw \<Rightarrow>
             (case decodeRecord raw of
                Inl err \<Rightarrow> ([], Failed (DecodeFailed err))
              | Inr obs \<Rightarrow>
                  (if ctx_done_on_send it then ([], Stopped)
                   else (case Run rest of (out, res) \<Rightarrow> (obs # out, res))))))"

subsection \<open>Lifecycle lemmas\<close>

lemma Close_twice: "Close env (fst (Close env' t)) = (fst (Close env' t), snd (Close env' t))"
  by (auto simp: Close_def Let_def)

definition tracks :: "socketTracer \<Rightarrow> bool" where
  "tracks t \<longleftrightarrow> opened t = Objects # map Link (links t) @ (if reader t then [Reader] else []) \<and>
     \<not> closeOnce t \<and> closed t = []"

lemma Close_tracks: "tracks t \<Longrightarrow> closed (fst (Close env t)) = rev (opened t)"
  by (auto simp: tracks_def Close_def Let_def rev_map)

lemma Close_opened: "opened (fst (Close env t)) = opened t"
  by (auto simp: Close_def Let_def)

lemma attach_all_outcome:
  assumes "attach_all env t i as = (t', r)" "tracks t" "\<not> reader t"
  shows "case r of
      Inl _ \<Rightarrow> closed t' = rev (opened t')
    | Inr _ \<Rightarrow> tracks t' \<and> \<not> reader t' \<and> links t' = links t @ [i..<i + length as]"
  using assms
proof (induction env t i as rule: attach_all.induct)
  case (1 env t i)
  then show ?case by auto
next
  case (2 env t i symbol h p rest)
  show ?case
  proof (cases "attach_err env i")
    case None
    let ?t = "t\<lparr>links := links t @ [i], opened := opened t @ [Link i]\<rparr>"
    have "tracks ?t" "\<not> reader ?t" using "2.prems" by (auto simp: tracks_def)
    moreover have "attach_all env ?t (Suc i) rest = (t', r)" using "2.prems" None by simp
    moreover have "[i..<i + Suc (length rest)] = i # [Suc i..<Suc i + length rest]"
      by (simp add: upt_conv_Cons del: upt_Suc)
    ultimately show ?thesis using "2.IH" [OF None] by (cases r) (simp_all del: upt_Suc)
  next
    case (Some err)
    then show ?thesis using "2.prems" Close_tracks [of t env] Close_opened [of env t] by auto
  qed
qed

definition sample_of :: "iteration \<Rightarrow> Observation option" where
  "sample_of it = (case read_result it of
     Sample raw \<Rightarrow> (case decodeRecord raw of Inr obs \<Rightarrow> Some obs | Inl _ \<Rightarrow> None) | _ \<Rightarrow> None)"

definition decoded_samples :: "iteration list \<Rightarrow> Observation list" where
  "decoded_samples its = List.map_filter sample_of its"

lemma decoded_samples_simps [simp]:
  "decoded_samples [] = []"
  "decoded_samples (it # its) =
     (case sample_of it of Some obs \<Rightarrow> obs # decoded_samples its | None \<Rightarrow> decoded_samples its)"
  by (simp_all add: decoded_samples_def map_filter_simps split: option.split)

lemma Run_prefix: "prefix (fst (Run its)) (decoded_samples its)"
  by (induction its rule: Run.induct)
    (auto simp: sample_of_def split: read_outcome.splits sum.splits prod.splits)

text \<open>A turn in which the loop goes on.\<close>

definition goes_on :: "iteration \<Rightarrow> bool" where
  "goes_on it \<longleftrightarrow> \<not> ctx_done it \<and>
     (read_result it = DeadlineExceeded \<or> (sample_of it \<noteq> None \<and> \<not> ctx_done_on_send it))"

lemma Run_goes_on: "list_all goes_on its \<Longrightarrow> Run its = (decoded_samples its, Running)"
  by (induction its)
    (auto simp: goes_on_def sample_of_def split: read_outcome.splits sum.splits prod.splits option.splits)

definition event_sample :: "iteration \<Rightarrow> bool" where
  "event_sample it \<longleftrightarrow> (\<forall>raw. read_result it = Sample raw \<longrightarrow> raw \<in> event_bytes LittleEndian ` {e. well_formed e})"

lemma event_sample_decodes: "event_sample it \<Longrightarrow> read_result it = Sample raw \<Longrightarrow> \<exists>obs. decodeRecord raw = Inr obs"
  by (auto simp: event_sample_def decode_image)

lemma Run_no_decode_error: "list_all event_sample its \<Longrightarrow> snd (Run its) \<noteq> Failed (DecodeFailed err)"
proof (induction its)
  case (Cons it its)
  then show ?case
    using event_sample_decodes [of it]
    by (cases "read_result it") (auto split: sum.splits prod.splits)
qed simp

subsection \<open>Properties\<close>

definition demo_env :: "nat option \<Rightarrow> tracer_env" where
  "demo_env broken = \<lparr>memlock_err = None, load_err = None,
     attach_err = (\<lambda>i. if Some i = broken then Some ''no such symbol'' else None), reader_err = None,
     close_err = (\<lambda>_. None)\<rparr>"

text \<open>No resource leaks when start-up fails: whatever step of \<^verbatim>\<open>NewTracer\<close> returns the error, everything
  opened before it has been closed, exactly once and in reverse order.\<close>

theorem new_tracer_failure_releases:
  assumes "NewTracer env = (t, Inl err)"
  shows "closed t = rev (opened t)"
proof -
  let ?t0 = "empty_tracer\<lparr>opened := [Objects]\<rparr>"
  have t0: "tracks ?t0" "\<not> reader ?t0" by (simp_all add: tracks_def empty_tracer_def)
  obtain t1 r where a: "attach_all env ?t0 0 attachments = (t1, r)" by fastforce
  have "tracks t1 \<Longrightarrow> closed (fst (Close env t1)) = rev (opened (fst (Close env t1)))"
    by (simp add: Close_tracks Close_opened)
  with assms a attach_all_outcome [OF a t0] show ?thesis
    by (auto simp: NewTracer_def empty_tracer_def split: option.splits sum.splits)
qed

theorem new_tracer_failure_releases_witness:
  "closed (fst (NewTracer (demo_env (Some 2)))) = [Link 1, Link 0, Objects]"
proof -
  have n: "NewTracer (demo_env (Some 2)) =
      (fst (NewTracer (demo_env (Some 2))), Inl (Attach ''tcp_cleanup_rbuf'' ''no such symbol''))"
    by (simp add: NewTracer_def demo_env_def attachments_def Close_def Let_def numeral_2_eq_2)
  have "opened (fst (NewTracer (demo_env (Some 2)))) = [Objects, Link 0, Link 1]"
    by (simp add: NewTracer_def demo_env_def attachments_def Close_def Let_def empty_tracer_def numeral_2_eq_2)
  with new_tracer_failure_releases [OF n] show ?thesis by simp
qed

text \<open>A tracer that starts holds exactly the seven attachments, in the order of the program's sections, and
  the ring reader; closing it closes the reader, the links in reverse order and the objects,
  and closing it again does nothing and returns the same errors.\<close>

theorem new_tracer_success_lifecycle:
  assumes "NewTracer env = (t, Inr ())"
  shows "links t = [0..<length program_sections] \<and> attachments = program_sections \<and> reader t \<and> closed t = [] \<and>
    closed (fst (Close env' t)) = rev (opened t) \<and>
    opened t = Objects # map Link [0..<length program_sections] @ [Reader] \<and>
    Close env'' (fst (Close env' t)) = (fst (Close env' t), snd (Close env' t))"
proof -
  let ?t0 = "empty_tracer\<lparr>opened := [Objects]\<rparr>"
  have t0: "tracks ?t0" "\<not> reader ?t0" by (simp_all add: tracks_def empty_tracer_def)
  have same: "attachments = program_sections" by (simp add: attachments_def program_sections_def)
  obtain t1 r where a: "attach_all env ?t0 0 attachments = (t1, r)" by fastforce
  from assms a have r: "r = Inr ()" and t: "t = t1\<lparr>reader := True, opened := opened t1 @ [Reader]\<rparr>"
    by (auto simp: NewTracer_def split: option.splits sum.splits)
  have t1: "tracks t1" "\<not> reader t1" "links t1 = [0..<length program_sections]"
    using attach_all_outcome [OF a t0] r same by (simp_all add: empty_tracer_def)
  then have "tracks t" by (simp add: t tracks_def)
  with t1 show ?thesis
    using Close_tracks [of t env'] Close_twice [of env'' env' t] same by (simp add: t tracks_def)
qed

theorem new_tracer_success_lifecycle_witness:
  "links (fst (NewTracer (demo_env None))) = [0..<7] \<and>
   closed (fst (Close (demo_env None) (fst (NewTracer (demo_env None))))) =
     [Reader, Link 6, Link 5, Link 4, Link 3, Link 2, Link 1, Link 0, Objects]"
proof -
  have n: "NewTracer (demo_env None) = (fst (NewTracer (demo_env None)), Inr ())"
    by (simp add: NewTracer_def demo_env_def attachments_def)
  have "[0..<7] = [0, 1, 2, 3, 4, 5, 6 :: nat]" by (simp add: upt_rec)
  with new_tracer_success_lifecycle [OF n, of "demo_env None"] show ?thesis
    by (simp add: program_sections_def)
qed

text \<open>The read loop forwards observations faithfully: what it sends is always a prefix of the decodings of the
  samples read, in order; while no read fails and the context is not cancelled it forwards all
  of them and keeps running.\<close>

theorem run_forwards_in_order:
  "prefix (fst (Run its)) (decoded_samples its) \<and>
   (list_all goes_on its \<longrightarrow> Run its = (decoded_samples its, Running))"
  using Run_prefix [of its] Run_goes_on [of its] by blast

definition demo_turn :: iteration where
  "demo_turn = \<lparr>ctx_done = False, read_result = Sample (event_bytes LittleEndian demo_event),
     ctx_done_after_read = False, ctx_done_on_send = False\<rparr>"

lemma demo_turn_sample: "sample_of demo_turn = Some (observation_of demo_event)"
  by (simp add: sample_of_def demo_turn_def decode_image demo_event_well_formed)

theorem run_forwards_in_order_witness:
  "Run [demo_turn, demo_turn] = ([observation_of demo_event, observation_of demo_event], Running)"
  using run_forwards_in_order [of "[demo_turn, demo_turn]"]
  by (simp add: goes_on_def demo_turn_sample) (simp add: demo_turn_def)

text \<open>Records written by the eBPF program cannot stop the agent's tracer: if every sample is the image of a
  well-formed event, the loop never ends with a decoding error.\<close>

theorem run_survives_program_events:
  assumes "list_all event_sample its"
  shows "snd (Run its) \<noteq> Failed (DecodeFailed err)"
  using assms by (rule Run_no_decode_error)

theorem run_survives_program_events_witness:
  "snd (Run [demo_turn]) \<noteq> Failed (DecodeFailed (UnsupportedFamily 2))"
proof (rule run_survives_program_events)
  show "list_all event_sample [demo_turn]"
    using demo_event_well_formed by (auto simp: event_sample_def demo_turn_def)
qed

end
