(* ===== verification/Model.thy ===== *)
theory Model
  imports Complex_Main Netip
begin

text \<open>
  The data model shared by agent and server, \<^verbatim>\<open>internal/model/event.go\<close> and \<^verbatim>\<open>traffic.go\<close>: events
  with their payloads, batches, and the validation both sides run. Go's \<^verbatim>\<open>int64\<close> is a 64-bit word
  read as signed, \<^verbatim>\<open>time.Time\<close> the number of nanoseconds since its zero value, \<^verbatim>\<open>float64\<close> a
  rational or one of the special values. The theorem \<open>batch_validate_exact\<close> relates \<^verbatim>\<open>Validate\<close> to a
  declarative description of valid batches.
\<close>

type_synonym int64 = "64 word"
type_synonym go_time = int

definition IsZero :: "go_time \<Rightarrow> bool" where "IsZero t \<longleftrightarrow> t = 0"

datatype float64 = NaN | NegInf | PosInf | Fin rat

text \<open>Comparison of floating-point numbers: false when either side is not a number.\<close>

fun float_less :: "float64 \<Rightarrow> float64 \<Rightarrow> bool" where
  "float_less NaN _ = False"
| "float_less _ NaN = False"
| "float_less (Fin x) (Fin y) = (x < y)"
| "float_less NegInf y = (y \<noteq> NegInf)"
| "float_less PosInf _ = False"
| "float_less (Fin _) y = (y = PosInf)"

definition float_le :: "float64 \<Rightarrow> float64 \<Rightarrow> bool" where
  "float_le x y \<longleftrightarrow> float_less x y \<or> (x = y \<and> x \<noteq> NaN)"

subsection \<open>Constants\<close>

definition OwnerHost :: string where "OwnerHost = ''host''"
definition OwnerProcess :: string where "OwnerProcess = ''process''"
definition OwnerContainer :: string where "OwnerContainer = ''container''"

definition ConfidenceConfirmed :: string where "ConfidenceConfirmed = ''confirmed''"
definition ConfidenceInferred :: string where "ConfidenceInferred = ''inferred''"
definition ConfidenceIPOnly :: string where "ConfidenceIPOnly = ''ip_only''"

definition EventInterfaceDelta :: string where "EventInterfaceDelta = ''interface_delta''"
definition EventHealth :: string where "EventHealth = ''health''"
definition EventConnection :: string where "EventConnection = ''connection_delta''"
definition EventProxyRequest :: string where "EventProxyRequest = ''proxy_request''"
definition EventNameEvidence :: string where "EventNameEvidence = ''name_evidence''"
definition EventOwnerInventory :: string where "EventOwnerInventory = ''owner_inventory''"

definition DirectionInbound :: string where "DirectionInbound = ''inbound''"
definition DirectionOutbound :: string where "DirectionOutbound = ''outbound''"
definition DirectionInternal :: string where "DirectionInternal = ''internal''"
definition DirectionContainer :: string where "DirectionContainer = ''container_to_container''"

lemmas kind_defs = EventInterfaceDelta_def EventHealth_def EventConnection_def EventProxyRequest_def
  EventNameEvidence_def EventOwnerInventory_def

lemmas owner_kind_defs = OwnerHost_def OwnerProcess_def OwnerContainer_def

subsection \<open>Records\<close>

record OwnerRef =
  own_Kind :: string
  own_PID :: int
  own_Process :: string
  own_ContainerID :: string
  own_ContainerName :: string

record OwnerInventory =
  oi_Owner :: OwnerRef
  oi_CgroupID :: u64
  oi_Addresses :: "string list"
  oi_Ports :: "u16 list"
  oi_Running :: bool

record Endpoint =
  ep_IP :: string
  ep_Port :: u16
  ep_Domain :: string
  ep_Confidence :: string

record ConnectionDelta =
  cd_Protocol :: string
  cd_Local :: Endpoint
  cd_Remote :: Endpoint
  cd_Owner :: OwnerRef
  cd_BytesSent :: int64
  cd_BytesReceived :: int64
  cd_State :: string

record ProxyRequest =
  pr_Host :: string
  pr_SourceIP :: string
  pr_Method :: string
  pr_Status :: int
  pr_BytesSent :: int64
  pr_Upstream :: string
  pr_DurationMS :: int64

record NameEvidence =
  ne_IP :: string
  ne_Name :: string
  ne_Source :: string
  ne_ValidFrom :: go_time
  ne_ValidUntil :: go_time

record HealthEvent =
  he_Collector :: string
  he_Status :: string
  he_Code :: string
  he_DroppedEvents :: int64
  he_UsagePercent :: float64
  he_Message :: string

record Event =
  ev_ID :: string
  ev_ObservedAt :: go_time
  ev_Kind :: string
  ev_Direction :: string
  ev_Bytes :: int64
  ev_Packets :: int64
  ev_Interface :: string
  ev_Health :: "HealthEvent option"
  ev_Connection :: "ConnectionDelta option"
  ev_ProxyRequest :: "ProxyRequest option"
  ev_NameEvidence :: "NameEvidence option"
  ev_OwnerInventory :: "OwnerInventory option"

record Batch =
  ba_SchemaVersion :: int
  ba_BatchID :: string
  ba_NodeID :: string
  ba_SentAt :: go_time
  ba_Events :: "Event list"
  ba_CompactedBatchIDs :: "string list"

text \<open>The zero value of the event, which every constructor of events starts from.\<close>

definition zero_Event :: Event where
  "zero_Event = \<lparr>ev_ID = [], ev_ObservedAt = 0, ev_Kind = [], ev_Direction = [], ev_Bytes = 0, ev_Packets = 0,
     ev_Interface = [], ev_Health = None, ev_Connection = None, ev_ProxyRequest = None, ev_NameEvidence = None,
     ev_OwnerInventory = None\<rparr>"

subsection \<open>Validation of payloads\<close>

datatype validation_error =
    ProtocolRequired
  | IPInvalid string
  | PortRequired string
  | ConfidenceInvalid string
  | ProcessPIDRequired
  | ContainerIDRequired
  | OwnerKindInvalid
  | BytesSentNegative
  | BytesReceivedNegative
  | ProxyFieldsRequired
  | ProxySourceInvalid
  | ProxyCountersInvalid
  | EvidenceIPInvalid
  | EvidenceInvalid
  | InventoryAddressInvalid
  | InventoryPortRequired

definition parses :: "string \<Rightarrow> bool" where
  "parses s \<longleftrightarrow> ParseAddr s \<noteq> None"

definition owner_validate :: "OwnerRef \<Rightarrow> validation_error option" where
  "owner_validate owner =
     (if own_Kind owner = OwnerHost then None
      else if own_Kind owner = OwnerProcess then
        (if own_PID owner \<le> 0 then Some ProcessPIDRequired else None)
      else if own_Kind owner = OwnerContainer then
        (if own_ContainerID owner = [] then Some ContainerIDRequired else None)
      else Some OwnerKindInvalid)"

definition confidence_valid :: "string \<Rightarrow> bool" where
  "confidence_valid c \<longleftrightarrow> c = ConfidenceConfirmed \<or> c = ConfidenceInferred \<or> c = ConfidenceIPOnly"

definition endpoint_validate :: "Endpoint \<Rightarrow> string \<Rightarrow> validation_error option" where
  "endpoint_validate ep label =
     (if \<not> parses (ep_IP ep) then Some (IPInvalid label)
      else if ep_Port ep = 0 then Some (PortRequired label)
      else if \<not> confidence_valid (ep_Confidence ep) then Some (ConfidenceInvalid label)
      else None)"

definition connection_validate :: "ConnectionDelta \<Rightarrow> validation_error option" where
  "connection_validate cd =
     (if cd_Protocol cd = [] then Some ProtocolRequired
      else case endpoint_validate (cd_Local cd) ''local'' of Some e \<Rightarrow> Some e
      | None \<Rightarrow> (case endpoint_validate (cd_Remote cd) ''remote'' of Some e \<Rightarrow> Some e
      | None \<Rightarrow> (case owner_validate (cd_Owner cd) of Some e \<Rightarrow> Some e
      | None \<Rightarrow> if cd_BytesSent cd <s 0 then Some BytesSentNegative
                else if cd_BytesReceived cd <s 0 then Some BytesReceivedNegative
                else None)))"

definition proxy_validate :: "ProxyRequest \<Rightarrow> validation_error option" where
  "proxy_validate r =
     (if pr_Host r = [] \<or> pr_Method r = [] \<or> pr_Upstream r = [] then Some ProxyFieldsRequired
      else if \<not> parses (pr_SourceIP r) then Some ProxySourceInvalid
      else if pr_Status r < 100 \<or> 599 < pr_Status r \<or> pr_BytesSent r <s 0 \<or> pr_DurationMS r <s 0
      then Some ProxyCountersInvalid
      else None)"

definition evidence_validate :: "NameEvidence \<Rightarrow> validation_error option" where
  "evidence_validate e =
     (if \<not> parses (ne_IP e) then Some EvidenceIPInvalid
      else if ne_Name e = [] \<or> ne_Source e = [] \<or> IsZero (ne_ValidFrom e) \<or> \<not> ne_ValidFrom e < ne_ValidUntil e
      then Some EvidenceInvalid
      else None)"

definition inventory_validate :: "OwnerInventory \<Rightarrow> validation_error option" where
  "inventory_validate oi =
     (case owner_validate (oi_Owner oi) of Some e \<Rightarrow> Some e
      | None \<Rightarrow>
          (if \<not> list_all parses (oi_Addresses oi) then Some InventoryAddressInvalid
           else if \<not> list_all (\<lambda>p. p \<noteq> 0) (oi_Ports oi) then Some InventoryPortRequired
           else None))"

subsection \<open>Validation of events and batches\<close>

datatype event_error =
    EventIDLength
  | ObservedAtRequired
  | BytesNegative
  | PacketsNegative
  | PayloadMismatch
  | DirectionInvalid
  | InterfaceRequired
  | HealthInvalid
  | PayloadInvalid validation_error
  | KindUnsupported

definition id_ok :: "string \<Rightarrow> bool" where
  "id_ok s \<longleftrightarrow> s \<noteq> [] \<and> length s \<le> 128"

definition trafficPayloadCount :: "Event \<Rightarrow> nat" where
  "trafficPayloadCount ev =
     length (filter (\<lambda>present. present)
       [ev_Connection ev \<noteq> None, ev_ProxyRequest ev \<noteq> None, ev_NameEvidence ev \<noteq> None, ev_OwnerInventory ev \<noteq> None])"

definition nonHealthPayloadCount :: "Event \<Rightarrow> nat" where
  "nonHealthPayloadCount ev = trafficPayloadCount ev + (if ev_Health ev \<noteq> None then 1 else 0)"

definition direction_valid :: "string \<Rightarrow> bool" where
  "direction_valid d \<longleftrightarrow> d = DirectionInbound \<or> d = DirectionOutbound \<or> d = DirectionInternal \<or> d = DirectionContainer"

definition health_ok :: "HealthEvent \<Rightarrow> bool" where
  "health_ok h \<longleftrightarrow> he_Collector h \<noteq> [] \<and> he_Status h \<noteq> [] \<and> he_Code h \<noteq> [] \<and> \<not> he_DroppedEvents h <s 0 \<and>
     \<not> float_less (he_UsagePercent h) (Fin 0) \<and> \<not> float_less (Fin 100) (he_UsagePercent h)"

text \<open>A payload that must be the only one and valid.\<close>

definition only_payload :: "Event \<Rightarrow> 'a option \<Rightarrow> ('a \<Rightarrow> validation_error option) \<Rightarrow> event_error option" where
  "only_payload ev payload check =
     (case payload of
        None \<Rightarrow> Some PayloadMismatch
      | Some p \<Rightarrow>
          (if nonHealthPayloadCount ev \<noteq> 1 then Some PayloadMismatch
           else map_option PayloadInvalid (check p)))"

text \<open>The switch on the kind of an event, and the whole check of one event.\<close>

definition kind_validate :: "Event \<Rightarrow> event_error option" where
  "kind_validate ev =
     (if ev_Kind ev = EventInterfaceDelta then
        (if nonHealthPayloadCount ev \<noteq> 0 then Some PayloadMismatch
         else if \<not> direction_valid (ev_Direction ev) then Some DirectionInvalid
         else if ev_Interface ev = [] then Some InterfaceRequired
         else None)
      else if ev_Kind ev = EventHealth then
        (case ev_Health ev of
           None \<Rightarrow> Some HealthInvalid
         | Some h \<Rightarrow>
             (if \<not> health_ok h then Some HealthInvalid
              else if trafficPayloadCount ev \<noteq> 0 then Some PayloadMismatch
              else None))
      else if ev_Kind ev = EventConnection then only_payload ev (ev_Connection ev) connection_validate
      else if ev_Kind ev = EventProxyRequest then only_payload ev (ev_ProxyRequest ev) proxy_validate
      else if ev_Kind ev = EventNameEvidence then only_payload ev (ev_NameEvidence ev) evidence_validate
      else if ev_Kind ev = EventOwnerInventory then only_payload ev (ev_OwnerInventory ev) inventory_validate
      else Some KindUnsupported)"

definition event_validate :: "Event \<Rightarrow> event_error option" where
  "event_validate ev =
     (if \<not> id_ok (ev_ID ev) then Some EventIDLength
      else if IsZero (ev_ObservedAt ev) then Some ObservedAtRequired
      else if ev_Bytes ev <s 0 then Some BytesNegative
      else if ev_Packets ev <s 0 then Some PacketsNegative
      else kind_validate ev)"

datatype batch_error =
    SchemaVersionInvalid
  | BatchIDLength
  | NodeIDLength
  | SentAtRequired
  | EventCount
  | CompactedCount
  | CompactedIDLength
  | CompactedDuplicate
  | EventInvalid nat event_error

fun compacted_validate :: "string list \<Rightarrow> string list \<Rightarrow> batch_error option" where
  "compacted_validate [] seen = None"
| "compacted_validate (i # ids) seen =
     (if \<not> id_ok i then Some CompactedIDLength
      else if i \<in> set seen then Some CompactedDuplicate
      else compacted_validate ids (i # seen))"

fun events_validate :: "nat \<Rightarrow> Event list \<Rightarrow> batch_error option" where
  "events_validate i [] = None"
| "events_validate i (ev # evs) =
     (case event_validate ev of Some e \<Rightarrow> Some (EventInvalid i e) | None \<Rightarrow> events_validate (Suc i) evs)"

definition Validate :: "Batch \<Rightarrow> batch_error option" where
  "Validate b =
     (if ba_SchemaVersion b \<noteq> 1 then Some SchemaVersionInvalid
      else if \<not> id_ok (ba_BatchID b) then Some BatchIDLength
      else if \<not> id_ok (ba_NodeID b) then Some NodeIDLength
      else if IsZero (ba_SentAt b) then Some SentAtRequired
      else if ba_Events b = [] \<or> 5000 < length (ba_Events b) then Some EventCount
      else if 5000 < length (ba_CompactedBatchIDs b) then Some CompactedCount
      else case compacted_validate (ba_CompactedBatchIDs b) [] of Some e \<Rightarrow> Some e
      | None \<Rightarrow> events_validate 0 (ba_Events b))"

subsection \<open>Saturating counters\<close>

definition MaxInt64 :: int64 where "MaxInt64 = 0x7FFFFFFFFFFFFFFF"

definition clampUint64 :: "u64 \<Rightarrow> int64" where
  "clampUint64 v = (if MaxInt64 < v then MaxInt64 else v)"

definition saturatingAdd :: "int64 \<Rightarrow> int64 \<Rightarrow> int64" where
  "saturatingAdd l r = (if MaxInt64 - l <s r then MaxInt64 else l + r)"

abbreviation max_int :: int where "max_int \<equiv> 2 ^ 63 - 1"

lemma sint_small: "uint (w :: int64) \<le> max_int \<Longrightarrow> sint w = uint w"
  by (simp add: sint_uint signed_take_bit_eq_if_positive bit_iff_odd take_bit_int_eq_self)

lemma clampUint64_value: "sint (clampUint64 v) = min max_int (uint v)"
proof -
  have m: "uint MaxInt64 = max_int" "sint MaxInt64 = max_int" by (simp_all add: MaxInt64_def)
  show ?thesis
  proof (cases "MaxInt64 < v")
    case True
    then have "max_int < uint v" by (simp add: word_less_def m)
    with True show ?thesis by (simp add: clampUint64_def m)
  next
    case False
    then have "uint v \<le> max_int" by (simp add: word_less_def m)
    with False show ?thesis by (simp add: clampUint64_def sint_small)
  qed
qed

lemma saturatingAdd_value:
  assumes "0 \<le> sint l" "0 \<le> sint r"
  shows "sint (saturatingAdd l r) = min max_int (sint l + sint r)"
proof -
  have b: "sint l \<le> max_int" "sint r \<le> max_int" using sint_lt [of l] sint_lt [of r] by simp_all
  have m: "sint MaxInt64 = max_int" by (simp add: MaxInt64_def)
  have d: "sint (MaxInt64 - l) = max_int - sint l"
    unfolding sint_word_ariths m using assms b by (simp add: signed_take_bit_int_eq_self)
  show ?thesis
  proof (cases "sint l + sint r \<le> max_int")
    case True
    then have "sint (l + r) = sint l + sint r"
      unfolding sint_word_ariths using assms by (simp add: signed_take_bit_int_eq_self)
    moreover have "\<not> MaxInt64 - l <s r" using True d by (simp add: word_sless_alt)
    ultimately show ?thesis using True by (simp add: saturatingAdd_def)
  next
    case False
    then have "MaxInt64 - l <s r" using d by (simp add: word_sless_alt)
    with False show ?thesis by (simp add: saturatingAdd_def m)
  qed
qed

lemma nonneg_word: "w <s 0 \<longleftrightarrow> \<not> 0 \<le> sint w" for w :: int64
  by (simp add: word_sless_alt not_le)

subsection \<open>Valid batches, declaratively\<close>

text \<open>Which payload fields of an event are set, as the list of their kinds.\<close>

definition payload_kinds :: "Event \<Rightarrow> string list" where
  "payload_kinds ev =
     (if ev_Health ev \<noteq> None then [EventHealth] else []) @
     (if ev_Connection ev \<noteq> None then [EventConnection] else []) @
     (if ev_ProxyRequest ev \<noteq> None then [EventProxyRequest] else []) @
     (if ev_NameEvidence ev \<noteq> None then [EventNameEvidence] else []) @
     (if ev_OwnerInventory ev \<noteq> None then [EventOwnerInventory] else [])"

definition valid_owner :: "OwnerRef \<Rightarrow> bool" where
  "valid_owner owner \<longleftrightarrow>
     own_Kind owner = OwnerHost \<or> (own_Kind owner = OwnerProcess \<and> 0 < own_PID owner) \<or>
     (own_Kind owner = OwnerContainer \<and> own_ContainerID owner \<noteq> [])"

definition valid_endpoint :: "Endpoint \<Rightarrow> bool" where
  "valid_endpoint ep \<longleftrightarrow> (\<exists>a. ParseAddr (ep_IP ep) = Some a) \<and> ep_Port ep \<noteq> 0 \<and>
     ep_Confidence ep \<in> {ConfidenceConfirmed, ConfidenceInferred, ConfidenceIPOnly}"

definition valid_connection :: "ConnectionDelta \<Rightarrow> bool" where
  "valid_connection cd \<longleftrightarrow> cd_Protocol cd \<noteq> [] \<and> valid_endpoint (cd_Local cd) \<and> valid_endpoint (cd_Remote cd) \<and>
     valid_owner (cd_Owner cd) \<and> 0 \<le> sint (cd_BytesSent cd) \<and> 0 \<le> sint (cd_BytesReceived cd)"

definition valid_proxy :: "ProxyRequest \<Rightarrow> bool" where
  "valid_proxy r \<longleftrightarrow> [] \<notin> {pr_Host r, pr_Method r, pr_Upstream r} \<and> (\<exists>a. ParseAddr (pr_SourceIP r) = Some a) \<and>
     pr_Status r \<in> {100..599} \<and> 0 \<le> sint (pr_BytesSent r) \<and> 0 \<le> sint (pr_DurationMS r)"

definition valid_evidence :: "NameEvidence \<Rightarrow> bool" where
  "valid_evidence e \<longleftrightarrow> (\<exists>a. ParseAddr (ne_IP e) = Some a) \<and> [] \<notin> {ne_Name e, ne_Source e} \<and>
     ne_ValidFrom e \<noteq> 0 \<and> ne_ValidFrom e < ne_ValidUntil e"

definition valid_inventory :: "OwnerInventory \<Rightarrow> bool" where
  "valid_inventory oi \<longleftrightarrow> valid_owner (oi_Owner oi) \<and>
     (\<forall>s \<in> set (oi_Addresses oi). \<exists>a. ParseAddr s = Some a) \<and> 0 \<notin> set (oi_Ports oi)"

definition valid_payload :: "Event \<Rightarrow> bool" where
  "valid_payload ev \<longleftrightarrow>
     (\<forall>cd. ev_Connection ev = Some cd \<longrightarrow> valid_connection cd) \<and>
     (\<forall>r. ev_ProxyRequest ev = Some r \<longrightarrow> valid_proxy r) \<and>
     (\<forall>e. ev_NameEvidence ev = Some e \<longrightarrow> valid_evidence e) \<and>
     (\<forall>i. ev_OwnerInventory ev = Some i \<longrightarrow> valid_inventory i) \<and>
     (\<forall>h. ev_Health ev = Some h \<longrightarrow> health_ok h)"

definition valid_event :: "Event \<Rightarrow> bool" where
  "valid_event ev \<longleftrightarrow> id_ok (ev_ID ev) \<and> ev_ObservedAt ev \<noteq> 0 \<and> 0 \<le> sint (ev_Bytes ev) \<and> 0 \<le> sint (ev_Packets ev) \<and>
     valid_payload ev \<and>
     (if ev_Kind ev = EventInterfaceDelta
      then payload_kinds ev = [] \<and> ev_Interface ev \<noteq> [] \<and>
        ev_Direction ev \<in> {DirectionInbound, DirectionOutbound, DirectionInternal, DirectionContainer}
      else payload_kinds ev = [ev_Kind ev])"

definition valid_batch :: "Batch \<Rightarrow> bool" where
  "valid_batch b \<longleftrightarrow> ba_SchemaVersion b = 1 \<and> id_ok (ba_BatchID b) \<and> id_ok (ba_NodeID b) \<and> ba_SentAt b \<noteq> 0 \<and>
     length (ba_Events b) \<in> {1..5000} \<and> length (ba_CompactedBatchIDs b) \<le> 5000 \<and>
     distinct (ba_CompactedBatchIDs b) \<and> list_all id_ok (ba_CompactedBatchIDs b) \<and> list_all valid_event (ba_Events b)"

lemma owner_validate_iff: "owner_validate owner = None \<longleftrightarrow> valid_owner owner"
  by (auto simp: owner_validate_def valid_owner_def owner_kind_defs)

lemma endpoint_validate_iff: "endpoint_validate ep label = None \<longleftrightarrow> valid_endpoint ep"
  by (auto simp: endpoint_validate_def valid_endpoint_def parses_def confidence_valid_def)

lemma connection_validate_iff: "connection_validate cd = None \<longleftrightarrow> valid_connection cd"
  using owner_validate_iff [of "cd_Owner cd"] endpoint_validate_iff [of "cd_Local cd" "''local''"]
    endpoint_validate_iff [of "cd_Remote cd" "''remote''"]
  by (auto simp: connection_validate_def valid_connection_def nonneg_word split: option.splits)

lemma proxy_validate_iff: "proxy_validate r = None \<longleftrightarrow> valid_proxy r"
  by (auto simp: proxy_validate_def valid_proxy_def parses_def nonneg_word)

lemma evidence_validate_iff: "evidence_validate e = None \<longleftrightarrow> valid_evidence e"
  by (auto simp: evidence_validate_def valid_evidence_def parses_def IsZero_def)

lemma inventory_validate_iff: "inventory_validate i = None \<longleftrightarrow> valid_inventory i"
  using owner_validate_iff [of "oi_Owner i"]
  by (auto simp: inventory_validate_def valid_inventory_def parses_def list_all_iff split: option.splits)

lemmas payload_validate_iff = connection_validate_iff proxy_validate_iff evidence_validate_iff inventory_validate_iff

text \<open>Counting payloads is the same as listing them; a list with one kind says which payload is set.\<close>

lemma payload_count: "nonHealthPayloadCount ev = length (payload_kinds ev)"
  by (simp add: nonHealthPayloadCount_def trafficPayloadCount_def payload_kinds_def)

lemma payload_none:
  "payload_kinds ev = [] \<longleftrightarrow> ev_Health ev = None \<and> ev_Connection ev = None \<and> ev_ProxyRequest ev = None \<and>
     ev_NameEvidence ev = None \<and> ev_OwnerInventory ev = None"
  by (simp add: payload_kinds_def)

lemma payload_one:
  "length (payload_kinds ev) = 1 \<and> ev_Connection ev \<noteq> None \<longleftrightarrow> payload_kinds ev = [EventConnection]"
  "length (payload_kinds ev) = 1 \<and> ev_ProxyRequest ev \<noteq> None \<longleftrightarrow> payload_kinds ev = [EventProxyRequest]"
  "length (payload_kinds ev) = 1 \<and> ev_NameEvidence ev \<noteq> None \<longleftrightarrow> payload_kinds ev = [EventNameEvidence]"
  "length (payload_kinds ev) = 1 \<and> ev_OwnerInventory ev \<noteq> None \<longleftrightarrow> payload_kinds ev = [EventOwnerInventory]"
  "trafficPayloadCount ev = 0 \<and> ev_Health ev \<noteq> None \<longleftrightarrow> payload_kinds ev = [EventHealth]"
  by (simp_all add: payload_kinds_def trafficPayloadCount_def kind_defs)

lemma payload_kinds_set:
  "set (payload_kinds ev) \<subseteq> {EventHealth, EventConnection, EventProxyRequest, EventNameEvidence, EventOwnerInventory}"
  by (auto simp: payload_kinds_def)

lemma payload_single:
  "payload_kinds ev = [EventConnection] \<Longrightarrow> valid_payload ev \<longleftrightarrow> (\<exists>x. ev_Connection ev = Some x \<and> valid_connection x)"
  "payload_kinds ev = [EventProxyRequest] \<Longrightarrow> valid_payload ev \<longleftrightarrow> (\<exists>x. ev_ProxyRequest ev = Some x \<and> valid_proxy x)"
  "payload_kinds ev = [EventNameEvidence] \<Longrightarrow> valid_payload ev \<longleftrightarrow> (\<exists>x. ev_NameEvidence ev = Some x \<and> valid_evidence x)"
  "payload_kinds ev = [EventOwnerInventory] \<Longrightarrow> valid_payload ev \<longleftrightarrow> (\<exists>x. ev_OwnerInventory ev = Some x \<and> valid_inventory x)"
  "payload_kinds ev = [EventHealth] \<Longrightarrow> valid_payload ev \<longleftrightarrow> (\<exists>x. ev_Health ev = Some x \<and> health_ok x)"
  by (auto simp: payload_kinds_def valid_payload_def kind_defs split: if_splits)

lemma only_payload_iff:
  "only_payload ev p check = None \<longleftrightarrow> (length (payload_kinds ev) = 1 \<and> p \<noteq> None) \<and> (\<exists>x. p = Some x \<and> check x = None)"
  by (auto simp: only_payload_def payload_count split: option.splits)

text \<open>Each kind of event accepts exactly its own payload.\<close>

lemma kind_payload_iff:
  "only_payload ev (ev_Connection ev) connection_validate = None \<longleftrightarrow> payload_kinds ev = [EventConnection] \<and> valid_payload ev"
  "only_payload ev (ev_ProxyRequest ev) proxy_validate = None \<longleftrightarrow> payload_kinds ev = [EventProxyRequest] \<and> valid_payload ev"
  "only_payload ev (ev_NameEvidence ev) evidence_validate = None \<longleftrightarrow> payload_kinds ev = [EventNameEvidence] \<and> valid_payload ev"
  "only_payload ev (ev_OwnerInventory ev) inventory_validate = None \<longleftrightarrow> payload_kinds ev = [EventOwnerInventory] \<and> valid_payload ev"
  unfolding only_payload_iff payload_one payload_validate_iff using payload_single by blast+

lemma health_payload_iff:
  "(case ev_Health ev of None \<Rightarrow> Some HealthInvalid
    | Some h \<Rightarrow> if \<not> health_ok h then Some HealthInvalid
        else if trafficPayloadCount ev \<noteq> 0 then Some PayloadMismatch else None) = None \<longleftrightarrow>
   payload_kinds ev = [EventHealth] \<and> valid_payload ev"
proof -
  have "payload_kinds ev = [EventHealth] \<and> valid_payload ev \<longleftrightarrow>
      (trafficPayloadCount ev = 0 \<and> ev_Health ev \<noteq> None) \<and> (\<exists>x. ev_Health ev = Some x \<and> health_ok x)"
    unfolding payload_one using payload_single(5) by blast
  then show ?thesis by (auto split: option.splits)
qed

lemma interface_payload_iff:
  "(if nonHealthPayloadCount ev \<noteq> 0 then Some PayloadMismatch
    else if \<not> direction_valid (ev_Direction ev) then Some DirectionInvalid
    else if ev_Interface ev = [] then Some InterfaceRequired else None) = None \<longleftrightarrow>
   payload_kinds ev = [] \<and> valid_payload ev \<and> ev_Interface ev \<noteq> [] \<and>
     ev_Direction ev \<in> {DirectionInbound, DirectionOutbound, DirectionInternal, DirectionContainer}"
  by (auto simp: payload_count direction_valid_def payload_none valid_payload_def)

lemma kind_validate_iff:
  "kind_validate ev = None \<longleftrightarrow> valid_payload ev \<and>
     (if ev_Kind ev = EventInterfaceDelta
      then payload_kinds ev = [] \<and> ev_Interface ev \<noteq> [] \<and>
        ev_Direction ev \<in> {DirectionInbound, DirectionOutbound, DirectionInternal, DirectionContainer}
      else payload_kinds ev = [ev_Kind ev])"
proof -
  consider "ev_Kind ev = EventInterfaceDelta" | "ev_Kind ev = EventHealth" | "ev_Kind ev = EventConnection"
    | "ev_Kind ev = EventProxyRequest" | "ev_Kind ev = EventNameEvidence" | "ev_Kind ev = EventOwnerInventory"
    | "ev_Kind ev \<notin> {EventInterfaceDelta, EventHealth, EventConnection, EventProxyRequest, EventNameEvidence, EventOwnerInventory}"
    by blast
  then show ?thesis
  proof cases
    case 1
    then have "kind_validate ev = (if nonHealthPayloadCount ev \<noteq> 0 then Some PayloadMismatch
        else if \<not> direction_valid (ev_Direction ev) then Some DirectionInvalid
        else if ev_Interface ev = [] then Some InterfaceRequired else None)"
      by (simp add: kind_validate_def)
    with 1 show ?thesis using interface_payload_iff [of ev] by auto
  next
    case 2
    then show ?thesis
      using health_payload_iff [of ev] by (simp add: kind_validate_def) (auto simp: kind_defs)
  next
    case 7
    then have "payload_kinds ev \<noteq> [ev_Kind ev]" using payload_kinds_set [of ev] by auto
    with 7 show ?thesis by (simp add: kind_validate_def)
  qed (auto simp: kind_validate_def kind_payload_iff kind_defs)
qed

lemma event_validate_iff: "event_validate ev = None \<longleftrightarrow> valid_event ev"
  using kind_validate_iff [of ev] by (auto simp: event_validate_def valid_event_def IsZero_def nonneg_word)

lemma compacted_validate_iff:
  "compacted_validate ids seen = None \<longleftrightarrow> list_all id_ok ids \<and> distinct ids \<and> set ids \<inter> set seen = {}"
  by (induction ids seen rule: compacted_validate.induct) auto

lemma events_validate_iff: "events_validate i evs = None \<longleftrightarrow> list_all valid_event evs"
  by (induction i evs rule: events_validate.induct) (auto simp: event_validate_iff [symmetric] split: option.splits)

lemma events_validate_first:
  "events_validate i evs = Some (EventInvalid j e) \<Longrightarrow>
     \<exists>k < length evs. j = i + k \<and> event_validate (evs ! k) = Some e \<and> (\<forall>m < k. valid_event (evs ! m))"
proof (induction i evs rule: events_validate.induct)
  case (2 i ev evs)
  show ?case
  proof (cases "event_validate ev")
    case None
    then obtain k where "k < length evs" "j = Suc i + k" "event_validate (evs ! k) = Some e" "\<forall>m < k. valid_event (evs ! m)"
      using 2 by auto
    then show ?thesis
      using None by (intro exI [of _ "Suc k"]) (auto simp: nth_Cons event_validate_iff [symmetric] split: nat.splits)
  next
    case (Some e')
    then show ?thesis using 2 by (intro exI [of _ 0]) simp
  qed
qed simp

lemma Validate_iff: "Validate b = None \<longleftrightarrow> valid_batch b"
  using compacted_validate_iff [of "ba_CompactedBatchIDs b" "[]"]
  by (auto simp: Validate_def valid_batch_def IsZero_def events_validate_iff Suc_le_eq split: option.splits)

subsection \<open>Properties\<close>

definition demo_delta :: "int64 \<Rightarrow> Event" where
  "demo_delta n = zero_Event\<lparr>ev_ID := ''e'', ev_ObservedAt := 5, ev_Kind := EventInterfaceDelta,
     ev_Direction := DirectionInbound, ev_Bytes := n, ev_Interface := ''eth0''\<rparr>"

definition demo_batch :: Batch where
  "demo_batch = \<lparr>ba_SchemaVersion = 1, ba_BatchID = ''b'', ba_NodeID = ''n'', ba_SentAt = 7,
     ba_Events = [demo_delta 10, demo_delta (- 1)], ba_CompactedBatchIDs = [''x'', ''y'']\<rparr>"

text \<open>Validation of batches is exact: a batch passes if and only if it satisfies the declarative description:
  version 1, identifiers of 1 to 128 bytes, 1 to 5000 events, distinct compacted identifiers, and
  each event non-negative with exactly the payload its kind names, valid in every part. When an
  event is reported, it is the first invalid one.\<close>

theorem batch_validate_exact:
  "(Validate b = None \<longleftrightarrow> valid_batch b) \<and>
   (\<forall>i e. Validate b = Some (EventInvalid i e) \<longrightarrow> i < length (ba_Events b) \<and>
      event_validate (ba_Events b ! i) = Some e \<and> \<not> valid_event (ba_Events b ! i) \<and>
      (\<forall>m < i. valid_event (ba_Events b ! m)))"
proof (intro conjI allI impI)
  show "Validate b = None \<longleftrightarrow> valid_batch b" by (rule Validate_iff)
  fix i e
  assume v: "Validate b = Some (EventInvalid i e)"
  have "compacted_validate ids seen \<noteq> Some (EventInvalid i e)" for ids seen
    by (induction ids seen rule: compacted_validate.induct) auto
  with v have "events_validate 0 (ba_Events b) = Some (EventInvalid i e)"
    by (auto simp: Validate_def split: if_splits option.splits)
  from events_validate_first [OF this]
  show "i < length (ba_Events b)" "event_validate (ba_Events b ! i) = Some e" "\<And>m. m < i \<Longrightarrow> valid_event (ba_Events b ! m)"
    by auto
  then show "\<not> valid_event (ba_Events b ! i)" by (simp add: event_validate_iff [symmetric])
qed

theorem batch_validate_exact_witness:
  "Validate demo_batch = Some (EventInvalid 1 BytesNegative) \<and> valid_event (demo_delta 10) \<and>
   \<not> valid_event (demo_delta (- 1))"
proof -
  have "Validate demo_batch = Some (EventInvalid 1 BytesNegative)"
    by (simp add: Validate_def demo_batch_def demo_delta_def zero_Event_def id_ok_def IsZero_def event_validate_def
        kind_validate_def nonHealthPayloadCount_def trafficPayloadCount_def direction_valid_def word_sless_alt)
  with batch_validate_exact [of demo_batch] show ?thesis by (auto simp: demo_batch_def)
qed

end
