(* ===== verification/Batch_Queue.thy ===== *)
theory Batch_Queue
  imports Model
begin

text \<open>
  The interface between the agent loop and its disk queue (\<^verbatim>\<open>Queue\<close> in \<^verbatim>\<open>internal/agent/app/app.go\<close>) as a locale, and
  the loop of \<^verbatim>\<open>App.drain\<close> over it: peek at the oldest batch, send it, acknowledge it. The loop
  has no bound in the source, so the model returns \<^const>\<open>None\<close> if it does not end; inside the locale it is shown to
  end, with the batches sent in order and exactly those removed.
\<close>

datatype ('e, 'f) drain_error = ReadQueued 'e | DeliverQueued 'f | AckQueued 'e

partial_function (option) drain :: "('q \<Rightarrow> 'e + 'i option) \<Rightarrow> ('q \<Rightarrow> 'i \<Rightarrow> 'q \<times> 'e option) \<Rightarrow> ('i \<Rightarrow> Batch) \<Rightarrow>
    ('s \<Rightarrow> Batch \<Rightarrow> 's \<times> 'f option) \<Rightarrow> 'q \<Rightarrow> 's \<Rightarrow> ('q \<times> 's \<times> ('e, 'f) drain_error option) option" where
  "drain peek ack batch_of send q s =
     (case peek q of
        Inl e \<Rightarrow> Some (q, s, Some (ReadQueued e))
      | Inr None \<Rightarrow> Some (q, s, None)
      | Inr (Some item) \<Rightarrow>
          (case send s (batch_of item) of
             (s', Some f) \<Rightarrow> Some (q, s', Some (DeliverQueued f))
           | (s', None) \<Rightarrow>
               (case ack q item of
                  (q', Some e) \<Rightarrow> Some (q', s', Some (AckQueued e))
                | (q', None) \<Rightarrow> drain peek ack batch_of send q' s')))"

text \<open>Sending a list of batches in order up to the first failure: the sender's state, how many were delivered, and the
  failure.\<close>

fun send_all :: "('s \<Rightarrow> Batch \<Rightarrow> 's \<times> 'f option) \<Rightarrow> 's \<Rightarrow> Batch list \<Rightarrow> 's \<times> nat \<times> 'f option" where
  "send_all send s [] = (s, 0, None)"
| "send_all send s (b # bs) =
     (case send s b of
        (s', Some f) \<Rightarrow> (s', 0, Some f)
      | (s', None) \<Rightarrow> (case send_all send s' bs of (s'', n, r) \<Rightarrow> (s'', Suc n, r)))"

locale batch_queue =
  fixes peek :: "'q \<Rightarrow> 'e + 'i option"
    and ack :: "'q \<Rightarrow> 'i \<Rightarrow> 'q \<times> 'e option"
    and batch_of :: "'i \<Rightarrow> Batch"
    and contents :: "'q \<Rightarrow> Batch list"
    and inv :: "'q \<Rightarrow> bool"
  assumes peek_empty: "inv q \<Longrightarrow> contents q = [] \<Longrightarrow> peek q = Inr None"
    and peek_oldest: "inv q \<Longrightarrow> contents q = b # bs \<Longrightarrow> \<exists>item. peek q = Inr (Some item) \<and> batch_of item = b \<and>
      (\<exists>q'. ack q item = (q', None) \<and> inv q' \<and> contents q' = bs)"
begin

lemma drain_spec:
  assumes "inv q" "send_all send s (contents q) = (s', n, r)"
  shows "\<exists>q'. drain peek ack batch_of send q s = Some (q', s', map_option DeliverQueued r) \<and> inv q' \<and> contents q' = drop n (contents q)"
  using assms
proof (induction "contents q" arbitrary: q s n)
  case Nil
  then show ?case by (auto simp: drain.simps [of _ _ _ _ q] peek_empty)
next
  case (Cons b bs)
  from peek_oldest [OF Cons.prems(1) Cons.hyps(2) [symmetric]] obtain item q' where
    q: "peek q = Inr (Some item)" "batch_of item = b" "ack q item = (q', None)" "inv q'" "contents q' = bs"
    by blast
  obtain s1 f where send: "send s b = (s1, f)" by fastforce
  show ?case
  proof (cases f)
    case None
    obtain s2 m r' where rest: "send_all send s1 bs = (s2, m, r')" by (metis prod_cases3)
    with send None Cons.prems(2) have result: "s' = s2" "n = Suc m" "r = r'" by (auto simp: Cons.hyps(2) [symmetric])
    obtain q2 where "drain peek ack batch_of send q' s1 = Some (q2, s2, map_option DeliverQueued r')" "inv q2"
      "contents q2 = drop m bs"
      using Cons.hyps(1) [OF q(5) [symmetric] q(4)] rest q(5) result by blast
    with q send None result show ?thesis
      by (simp add: drain.simps [of _ _ _ _ q] Cons.hyps(2) [symmetric])
  next
    case (Some e)
    with q send Cons.prems show ?thesis
      by (auto simp: drain.simps [of _ _ _ _ q] Cons.hyps(2) [symmetric])
  qed
qed

end

lemma send_all_success: "(\<And>s b. snd (send s b) = None) \<Longrightarrow> \<exists>s'. send_all send s bs = (s', length bs, None)"
proof (induction bs arbitrary: s)
  case (Cons b bs)
  obtain s' where "send s b = (s', None)" using Cons.prems by (metis prod.collapse)
  with Cons.IH [OF Cons.prems, of s'] show ?case by auto
qed simp

lemma send_all_count: "send_all send s bs = (s', n, r) \<Longrightarrow> n \<le> length bs \<and> (r = None \<longleftrightarrow> n = length bs)"
  by (induction bs arbitrary: s n) (auto split: prod.splits option.splits)

end
