(* ===== verification/Go_Text.thy ===== *)
theory Go_Text
  imports Netip
begin

text \<open>
  What the sources use of Go's \<^verbatim>\<open>strings\<close>, \<^verbatim>\<open>bufio\<close>, \<^verbatim>\<open>strconv\<close>, \<^verbatim>\<open>net\<close> and \<^verbatim>\<open>time\<close> packages on text: trimming and
  splitting at white space (UTF-8 encodings of all Unicode spaces included), cutting at a separator,
  the lines a scanner delivers, decimal numerals, host and port, and the clock in nanoseconds.
\<close>

subsection \<open>White space\<close>

text \<open>The encodings of the runes for which \<^verbatim>\<open>unicode.IsSpace\<close> holds. None is empty, and each starts with an
  ASCII or a leading byte, so that matching them byte by byte agrees with decoding runes.\<close>

definition space_codes :: "nat list list" where
  "space_codes = [[32], [9], [10], [11], [12], [13], [0xC2, 0x85], [0xC2, 0xA0], [0xE1, 0x9A, 0x80],
     [0xE2, 0x80, 0x80], [0xE2, 0x80, 0x81], [0xE2, 0x80, 0x82], [0xE2, 0x80, 0x83], [0xE2, 0x80, 0x84],
     [0xE2, 0x80, 0x85], [0xE2, 0x80, 0x86], [0xE2, 0x80, 0x87], [0xE2, 0x80, 0x88], [0xE2, 0x80, 0x89],
     [0xE2, 0x80, 0x8A], [0xE2, 0x80, 0xA8], [0xE2, 0x80, 0xA9], [0xE2, 0x80, 0xAF], [0xE2, 0x81, 0x9F],
     [0xE3, 0x80, 0x80]]"

definition space_strings :: "string list" where
  "space_strings = map (map char_of) space_codes"

definition skip_one :: "string list \<Rightarrow> string \<Rightarrow> string option" where
  "skip_one spaces s = map_option (\<lambda>q. drop (length q) s) (find (\<lambda>q. q \<noteq> [] \<and> prefix q s) spaces)"

lemma skip_one_shorter: "skip_one spaces s = Some t \<Longrightarrow> length t < length s"
  by (auto simp: skip_one_def find_Some_iff prefix_def)

function trim_left :: "string list \<Rightarrow> string \<Rightarrow> string" where
  "trim_left spaces s = (case skip_one spaces s of None \<Rightarrow> s | Some t \<Rightarrow> trim_left spaces t)"
  by pat_completeness auto
termination
  by (relation "measure (length \<circ> snd)") (auto dest: skip_one_shorter)

declare trim_left.simps [simp del]

definition TrimSpace :: "string \<Rightarrow> string" where
  "TrimSpace s = rev (trim_left (map rev space_strings) (rev (trim_left space_strings s)))"

text \<open>\<^verbatim>\<open>strings.Fields\<close>: the current field is kept in order.\<close>

function fields_from :: "string \<Rightarrow> string \<Rightarrow> string list" where
  "fields_from cur s =
     (let field = (if cur = [] then [] else [cur]) in
      case skip_one space_strings s of
        Some t \<Rightarrow> field @ fields_from [] t
      | None \<Rightarrow> (case s of [] \<Rightarrow> field | c # cs \<Rightarrow> fields_from (cur @ [c]) cs))"
  by pat_completeness auto
termination
  by (relation "measure (length \<circ> snd)") (auto dest: skip_one_shorter)

declare fields_from.simps [simp del]

definition Fields :: "string \<Rightarrow> string list" where
  "Fields s = fields_from [] s"

subsection \<open>Lines and separators\<close>

text \<open>\<^verbatim>\<open>strings.Cut\<close> at a single byte.\<close>

fun cut_at :: "char \<Rightarrow> string \<Rightarrow> (string \<times> string) option" where
  "cut_at c [] = None"
| "cut_at c (x # xs) = (if x = c then Some ([], xs) else map_option (apfst (Cons x)) (cut_at c xs))"

text \<open>The lines of \<^verbatim>\<open>bufio.ScanLines\<close>: a final line feed ends the last line, one carriage return before a line
  feed belongs to it.\<close>

definition drop_cr :: "string \<Rightarrow> string" where
  "drop_cr s = (if s \<noteq> [] \<and> last s = CHR 0x0D then butlast s else s)"

fun lines_from :: "string \<Rightarrow> string \<Rightarrow> string list" where
  "lines_from cur [] = (if cur = [] then [] else [drop_cr cur])"
| "lines_from cur (c # cs) = (if c = CHR 0x0A then drop_cr cur # lines_from [] cs else lines_from (cur @ [c]) cs)"

definition scan_lines :: "string \<Rightarrow> string list" where
  "scan_lines s = lines_from [] s"

subsection \<open>Numerals and time\<close>

definition decimal_value :: "string \<Rightarrow> nat" where
  "decimal_value s = foldl (\<lambda>v c. 10 * v + digit_value c) 0 s"

text \<open>\<^verbatim>\<open>strconv.ParseUint(s, 10, 64)\<close>.\<close>

definition ParseUint :: "string \<Rightarrow> u64 option" where
  "ParseUint s =
     (if s = [] \<or> \<not> list_all is_digit s \<or> 2 ^ 64 \<le> decimal_value s then None else Some (of_nat (decimal_value s)))"

text \<open>\<^verbatim>\<open>strconv.Atoi\<close> on a machine with 64-bit integers, and \<^verbatim>\<open>strconv.ParseInt(s, 10, 64)\<close>.\<close>

definition Atoi :: "string \<Rightarrow> int option" where
  "Atoi s =
     (let negative = take 1 s = ''-''; digits = (if take 1 s \<in> {''-'', ''+''} then drop 1 s else s);
          v = (if negative then - int (decimal_value digits) else int (decimal_value digits)) in
      if digits = [] \<or> \<not> list_all is_digit digits \<or> v < - (2 ^ 63) \<or> 2 ^ 63 \<le> v then None else Some v)"

definition format_int :: "int \<Rightarrow> string" where
  "format_int n = (if n < 0 then CHR ''-'' # itoa (nat (- n)) else itoa (nat n))"

text \<open>\<^verbatim>\<open>net.JoinHostPort\<close>.\<close>

definition JoinHostPort :: "string \<Rightarrow> string \<Rightarrow> string" where
  "JoinHostPort host port = (if CHR '':'' \<in> set host then ''['' @ host @ '']:'' @ port else host @ '':'' @ port)"

text \<open>\<^verbatim>\<open>net.SplitHostPort\<close>: the port is behind the last colon; a host with colons stands in brackets.\<close>

definition SplitHostPort :: "string \<Rightarrow> (string \<times> string) option" where
  "SplitHostPort s =
     (if CHR '':'' \<notin> set s then None
      else
        (let port = rev (takeWhile (\<lambda>c. c \<noteq> CHR '':'') (rev s)); i = length s - length port - 1 in
         if hd s = CHR ''['' then
           (let inner = takeWhile (\<lambda>c. c \<noteq> CHR '']'') (tl s); e = length inner + 1 in
            if CHR '']'' \<notin> set s \<or> e + 1 \<noteq> i then None
            else if CHR ''['' \<in> set (drop 1 s) \<or> CHR '']'' \<in> set (drop (e + 1) s) then None
            else Some (inner, port))
         else if CHR '':'' \<in> set (take i s) then None
         else if CHR ''['' \<in> set s \<or> CHR '']'' \<in> set s then None
         else Some (take i s, port)))"

text \<open>\<^verbatim>\<open>time.Time.UnixNano\<close>: nanoseconds since 1970, in 64 bits, from nanoseconds since the zero time.\<close>

definition UnixNano :: "int \<Rightarrow> int" where
  "UnixNano t = sint (word_of_int (t - 62135596800 * 1000000000) :: 64 word)"

subsection \<open>Lemmas\<close>

lemma decimal_value_snoc: "decimal_value (s @ [c]) = 10 * decimal_value s + digit_value c"
  by (simp add: decimal_value_def)

lemma decimal_itoa: "decimal_value (itoa n) = n"
proof (induction n rule: itoa.induct)
  case (1 n)
  show ?case
  proof (cases "n < 10")
    case True
    then show ?thesis by (simp add: itoa.simps [of n] decimal_value_def digit_value_def)
  next
    case False
    with 1 have "decimal_value (itoa (n div 10)) = n div 10" by simp
    moreover have "itoa n = itoa (n div 10) @ [char_of (48 + n mod 10)]"
      using False by (simp add: itoa.simps [of n])
    moreover have "n mod 10 < 10" by simp
    ultimately show ?thesis by (simp add: decimal_value_snoc digit_value_def)
  qed
qed

lemma ParseUint_itoa: "ParseUint (itoa (unat w)) = Some w"
  using unsigned_less [of w, where ?'a = nat] itoa_digits
  by (auto simp: ParseUint_def decimal_itoa itoa_nonempty list_all_iff)

lemma length_itoa: "n < 10 ^ k \<Longrightarrow> 0 < k \<Longrightarrow> length (itoa n) \<le> k"
proof (induction k arbitrary: n)
  case (Suc k)
  show ?case
  proof (cases "n < 10")
    case False
    with Suc.prems have "n div 10 < 10 ^ k" "0 < k" by (auto simp: div_less_iff_less_mult intro: gr0I)
    with Suc.IH have "length (itoa (n div 10)) \<le> k" by blast
    with False show ?thesis by (simp add: itoa.simps [of n])
  qed (simp add: itoa.simps [of n])
qed simp

lemma length_format_UnixNano: "length (format_int (UnixNano t)) \<le> 20"
proof -
  let ?w = "word_of_int (t - 62135596800 * 1000000000) :: 64 word"
  have "- (2 ^ 63) \<le> sint ?w" "sint ?w < 2 ^ 63" using sint_ge [of ?w] sint_lt [of ?w] by simp_all
  then have "nat (- sint ?w) < 10 ^ 19" "nat (sint ?w) < 10 ^ 19" by simp_all
  then show ?thesis
    using length_itoa [of "nat (- sint ?w)" 19] length_itoa [of "nat (sint ?w)" 19]
    by (simp add: UnixNano_def format_int_def)
qed

subsection \<open>Splitting printed text\<close>

text \<open>Visible ASCII characters are not space and do not start one.\<close>

definition visible :: "char \<Rightarrow> bool" where
  "visible c \<longleftrightarrow> 33 \<le> (of_char c :: nat) \<and> (of_char c :: nat) \<le> 126"

lemma skip_visible: "visible c \<Longrightarrow> skip_one space_strings (c # cs) = None"
  by (auto simp: skip_one_def find_None_iff space_strings_def space_codes_def char_of_eq_iff visible_def)

lemma skip_rev_visible: "visible c \<Longrightarrow> skip_one (map rev space_strings) (c # cs) = None"
  by (auto simp: skip_one_def find_None_iff space_strings_def space_codes_def char_of_eq_iff visible_def)

lemma skip_blank: "skip_one space_strings (CHR '' '' # cs) = Some cs"
  by (simp add: skip_one_def space_strings_def space_codes_def char_of_eq_iff)

lemma skip_empty: "skip_one spaces [] = None"
  by (auto simp: skip_one_def find_None_iff)

lemma trim_left_visible: "s = [] \<or> visible (hd s) \<Longrightarrow> trim_left space_strings (replicate n (CHR '' '') @ s) = s"
  by (induction n; subst trim_left.simps; cases s) (auto simp: skip_blank skip_visible skip_empty)

lemma trim_right_visible: "s = [] \<or> visible (last s) \<Longrightarrow> trim_left (map rev space_strings) (rev s) = rev s"
  by (subst trim_left.simps; cases "rev s") (auto simp: skip_empty skip_rev_visible last_rev hd_rev [symmetric])

lemma TrimSpace_padded:
  "s = [] \<or> visible (hd s) \<and> visible (last s) \<Longrightarrow> TrimSpace (replicate n (CHR '' '') @ s) = s"
  using trim_right_visible [of s] trim_left_visible [of s n] by (auto simp: TrimSpace_def)

lemma fields_blank: "fields_from [] (replicate n (CHR '' '') @ s) = fields_from [] s"
  by (induction n) (simp_all add: fields_from.simps [of _ "CHR '' '' # _"] skip_blank)

lemma fields_word:
  "list_all visible w \<Longrightarrow> fields_from cur (w @ s) = fields_from (cur @ w) s"
  by (induction w arbitrary: cur) (simp_all add: fields_from.simps [of _ "_ # _"] skip_visible)

text \<open>Words, each behind at least one blank.\<close>

fun padded :: "(nat \<times> string) list \<Rightarrow> string" where
  "padded [] = []"
| "padded ((n, w) # ws) = CHR '' '' # replicate n (CHR '' '') @ w @ padded ws"

lemma fields_padded:
  "\<forall>(n, w) \<in> set ws. w \<noteq> [] \<and> list_all visible w \<Longrightarrow>
   fields_from cur (padded ws) = (if cur = [] then [] else [cur]) @ map snd ws"
proof (induction ws arbitrary: cur rule: padded.induct)
  case 1
  then show ?case by (simp add: fields_from.simps [of cur "[]"] skip_empty)
next
  case (2 n w ws)
  have "fields_from cur (CHR '' '' # replicate n (CHR '' '') @ w @ padded ws) =
      (if cur = [] then [] else [cur]) @ fields_from w (padded ws)"
    using 2 fields_word [of w "[]" "padded ws"]
    by (subst fields_from.simps) (simp add: skip_blank fields_blank)
  with 2 show ?case by simp
qed

lemma Fields_padded: "\<forall>(n, w) \<in> set ws. w \<noteq> [] \<and> list_all visible w \<Longrightarrow> Fields (padded ws) = map snd ws"
  using fields_padded [of ws "[]"] by (simp add: Fields_def)

lemma itoa_visible: "list_all visible (itoa n)"
  using itoa_digits by (fastforce simp: list_all_iff visible_def is_digit_def)

lemma cut_at_append: "c \<notin> set s \<Longrightarrow> cut_at c (s @ c # t) = Some (s, t)"
  by (induction s) auto

end
