(* ===== verification/Spool.thy ===== *)
theory Spool
  imports Batch_Queue Go_Text "HOL-Library.List_Lexorder" "HOL-Library.Char_ord" "HOL-Library.Multiset"
begin

text \<open>
  The disk queue of the agent, \<^verbatim>\<open>internal/agent/spool/spool.go\<close>: batches are published as files whose names order
  them by time, read back oldest first, removed when acknowledged. Enqueueing prunes: expired batches of
  interface counters are merged into one summary per node and minute, other expired or excess batches are
  evicted, except health reports. A directory is an association list from names to files. Parameters, gathered in
  \<open>spool_env\<close>: the clock's value during a call, the file codec (JSON, gzip and the read limit), SHA-256, the rounding
  of floating-point numbers, and which file operation fails.
\<close>

subsection \<open>State and environment\<close>

record sfile =
  f_ModTime :: go_time
  f_Data :: bytes

type_synonym sdir = "(string \<times> sfile) list"

abbreviation f_Size :: "sfile \<Rightarrow> int" where "f_Size f \<equiv> int (length (f_Data f))"

datatype spool_op =
    CreateTemp | ChmodTemp | EncodeTemp | CloseGzip | SyncTemp | CloseTemp
  | RenameTo string | ChtimesOf string | SyncDir | ReadDir | OpenFile string | RemoveFile string

record spool_env =
  env_now :: go_time
  env_encode :: "Batch \<Rightarrow> bytes"
  env_decode :: "bytes \<Rightarrow> Batch option"
  env_sha :: "nat \<Rightarrow> string \<Rightarrow> string"
  env_float :: "rat \<Rightarrow> rat"
  env_fails :: "spool_op \<Rightarrow> bool"

record Spool =
  sp_dir :: string
  sp_maxBytes :: int
  sp_maxAge :: go_time

record Item =
  it_Batch :: Batch
  it_dir :: string
  it_name :: string

record DropReport =
  dr_Code :: string
  dr_DroppedBatches :: int
  dr_DroppedEvents :: int
  dr_UsagePercent :: float64

datatype spool_error =
    OptionsInvalid
  | QueuedInvalid batch_error
  | OpFailed spool_op
  | DecodeFailed string
  | CompactedInvalid batch_error
  | ForeignItem

definition defaultMaxBytes :: int where "defaultMaxBytes = 256 * 2 ^ 20"
definition defaultMaxAge :: go_time where "defaultMaxAge = 30 * 60 * 1000000000"

definition New :: "string \<Rightarrow> int option \<Rightarrow> go_time option \<Rightarrow> spool_error + Spool" where
  "New dir maxBytes maxAge =
     (let b = (case maxBytes of None \<Rightarrow> defaultMaxBytes | Some v \<Rightarrow> v);
          a = (case maxAge of None \<Rightarrow> defaultMaxAge | Some v \<Rightarrow> v) in
      if dir = [] \<or> b \<le> 0 \<or> a \<le> 0 then Inl OptionsInvalid
      else Inr \<lparr>sp_dir = dir, sp_maxBytes = b, sp_maxAge = a\<rparr>)"

subsection \<open>Names and times\<close>

abbreviation minute :: go_time where "minute \<equiv> 60 * 1000000000"

definition truncate_minute :: "go_time \<Rightarrow> go_time" where
  "truncate_minute t = t - t mod minute"

definition Unix :: "go_time \<Rightarrow> int" where
  "Unix t = t div 1000000000 - 62135596800"

definition pad20 :: "int \<Rightarrow> string" where
  "pad20 n =
     (if n < 0 then CHR ''-'' # replicate (19 - length (itoa (nat (- n)))) (CHR ''0'') @ itoa (nat (- n))
      else replicate (20 - length (itoa (nat n))) (CHR ''0'') @ itoa (nat n))"

definition json_gz :: string where "json_gz = ''.json.gz''"

definition batchFileName :: "spool_env \<Rightarrow> string \<Rightarrow> go_time \<Rightarrow> string" where
  "batchFileName env batchID queuedAt = pad20 (UnixNano queuedAt) @ ''-'' @ env_sha env 8 batchID @ json_gz"

definition minuteSummaryBatchID :: "spool_env \<Rightarrow> string \<Rightarrow> go_time \<Rightarrow> string" where
  "minuteSummaryBatchID env nodeID m = ''minute-summary:'' @ env_sha env 8 nodeID @ '':'' @ format_int (Unix m)"

subsection \<open>Files\<close>

definition spool_files :: "spool_env \<Rightarrow> sdir \<Rightarrow> spool_error + sdir" where
  "spool_files env d =
     (if env_fails env ReadDir then Inl (OpFailed ReadDir)
      else Inr (sort_key fst (filter (\<lambda>(name, f). suffix json_gz name) d)))"

definition readBatch :: "spool_env \<Rightarrow> sdir \<Rightarrow> string \<Rightarrow> spool_error + Batch" where
  "readBatch env d name =
     (if env_fails env (OpenFile name) then Inl (OpFailed (OpenFile name))
      else case map_of d name of
        None \<Rightarrow> Inl (OpFailed (OpenFile name))
      | Some f \<Rightarrow> (case env_decode env (f_Data f) of None \<Rightarrow> Inl (DecodeFailed name) | Some b \<Rightarrow> Inr b))"

text \<open>The publication of a batch: a temporary file is written, synced and renamed, then its time is set. The
  temporary file is not visible under a queue name and is removed when a step fails.\<close>

definition publish :: "spool_env \<Rightarrow> string \<Rightarrow> Batch \<Rightarrow> go_time \<Rightarrow> sdir \<Rightarrow> sdir \<times> spool_error option" where
  "publish env name batch queuedAt d =
     (case find (env_fails env) [CreateTemp, ChmodTemp, EncodeTemp, CloseGzip, SyncTemp, CloseTemp, RenameTo name] of
        Some op \<Rightarrow> (d, Some (OpFailed op))
      | None \<Rightarrow>
          (let file = (\<lambda>t. \<lparr>f_ModTime = t, f_Data = env_encode env batch\<rparr>) in
           if env_fails env (ChtimesOf name)
           then (AList.update name (file (env_now env)) d, Some (OpFailed (ChtimesOf name)))
           else (AList.update name (file queuedAt) d, None)))"

definition writeBatchFile :: "spool_env \<Rightarrow> string \<Rightarrow> Batch \<Rightarrow> go_time \<Rightarrow> sdir \<Rightarrow> sdir \<times> spool_error option" where
  "writeBatchFile env name batch queuedAt d =
     (case Validate batch of Some e \<Rightarrow> (d, Some (CompactedInvalid e)) | None \<Rightarrow> publish env name batch queuedAt d)"

definition syncDirectory :: "spool_env \<Rightarrow> spool_error option" where
  "syncDirectory env = (if env_fails env SyncDir then Some (OpFailed SyncDir) else None)"

subsection \<open>Kinds of batches\<close>

definition is_summary :: "Batch \<Rightarrow> bool" where
  "is_summary b \<longleftrightarrow> prefix ''minute-summary:'' (ba_BatchID b)"

definition interfaceOnly :: "Batch \<Rightarrow> bool" where
  "interfaceOnly b \<longleftrightarrow> ba_Events b \<noteq> [] \<and> list_all (\<lambda>ev. ev_Kind ev = EventInterfaceDelta) (ba_Events b)"

definition protectedBatch :: "Batch \<Rightarrow> bool" where
  "protectedBatch b \<longleftrightarrow> is_summary b \<or> interfaceOnly b \<or>
     (list_all (\<lambda>ev. ev_Kind ev = EventHealth) (ba_Events b) \<and> 0 < length (ba_Events b))"

subsection \<open>Compaction\<close>

definition spool_saturatingAdd :: "int64 \<Rightarrow> int64 \<Rightarrow> int64" where
  "spool_saturatingAdd l r = (if 0 <s r \<and> MaxInt64 - r <s l then MaxInt64 else l + r)"

fun mergeInterfaceEvent :: "spool_env \<Rightarrow> Event list \<Rightarrow> Event \<Rightarrow> go_time \<Rightarrow> Event list" where
  "mergeInterfaceEvent env [] incoming m =
     [incoming\<lparr>
        ev_ID := ''minute-interface:'' @
          env_sha env 12 (ev_Interface incoming @ '':'' @ ev_Direction incoming @ '':'' @ format_int (Unix m)),
        ev_ObservedAt := m\<rparr>]"
| "mergeInterfaceEvent env (ev # evs) incoming m =
     (if ev_Interface ev = ev_Interface incoming \<and> ev_Direction ev = ev_Direction incoming
      then ev\<lparr>ev_Bytes := spool_saturatingAdd (ev_Bytes ev) (ev_Bytes incoming),
              ev_Packets := spool_saturatingAdd (ev_Packets ev) (ev_Packets incoming)\<rparr> # evs
      else ev # mergeInterfaceEvent env evs incoming m)"

type_synonym summaries = "((string \<times> go_time) \<times> Batch) list"

definition events_at :: "go_time \<Rightarrow> Batch \<Rightarrow> Event list" where
  "events_at m b = filter (\<lambda>ev. truncate_minute (ev_ObservedAt ev) = m) (ba_Events b)"

definition batch_minutes :: "Batch \<Rightarrow> go_time list" where
  "batch_minutes b = remdups (map (\<lambda>ev. truncate_minute (ev_ObservedAt ev)) (ba_Events b))"

definition new_summary :: "spool_env \<Rightarrow> string \<Rightarrow> go_time \<Rightarrow> Batch" where
  "new_summary env node m = \<lparr>ba_SchemaVersion = 1, ba_BatchID = minuteSummaryBatchID env node m, ba_NodeID = node,
     ba_SentAt = m, ba_Events = [], ba_CompactedBatchIDs = []\<rparr>"

definition summary_of :: "spool_env \<Rightarrow> summaries \<Rightarrow> string \<Rightarrow> go_time \<Rightarrow> Batch" where
  "summary_of env S node m = (case map_of S (node, m) of Some b \<Rightarrow> b | None \<Rightarrow> new_summary env node m)"

text \<open>The events of one batch in one minute, merged into the summary of that minute unless the summary names the
  batch already; then the whole batch, minute by minute.\<close>

definition compact_minute :: "spool_env \<Rightarrow> Batch \<Rightarrow> go_time \<Rightarrow> summaries \<Rightarrow> summaries" where
  "compact_minute env b m S =
     (let summary = summary_of env S (ba_NodeID b) m in
      if ba_BatchID b \<in> set (ba_CompactedBatchIDs summary) then S
      else AList.update (ba_NodeID b, m)
        (summary\<lparr>ba_Events := foldl (\<lambda>evs ev. mergeInterfaceEvent env evs ev m) (ba_Events summary) (events_at m b),
           ba_CompactedBatchIDs := sort (ba_CompactedBatchIDs summary @ [ba_BatchID b])\<rparr>) S)"

definition compact_batch :: "spool_env \<Rightarrow> Batch \<Rightarrow> summaries \<Rightarrow> summaries" where
  "compact_batch env b S = fold (compact_minute env b) (batch_minutes b) S"

definition expired :: "spool_env \<Rightarrow> Spool \<Rightarrow> sfile \<Rightarrow> bool" where
  "expired env s f \<longleftrightarrow> sp_maxAge s < env_now env - f_ModTime f"

text \<open>The pass over the files, with the summaries and the names of the files to remove so far.\<close>

fun compact_files :: "spool_env \<Rightarrow> Spool \<Rightarrow> sdir \<Rightarrow> sdir \<Rightarrow> summaries \<Rightarrow> string list \<Rightarrow>
    spool_error + summaries \<times> string list" where
  "compact_files env s d [] S remove = Inr (S, remove)"
| "compact_files env s d ((name, f) # fs) S remove =
     andThen (readBatch env d name) (\<lambda>b.
       if is_summary b then
         compact_files env s d fs
           (if ba_Events b = [] then S
            else AList.update (ba_NodeID b, truncate_minute (ev_ObservedAt (hd (ba_Events b)))) b S) remove
       else if \<not> expired env s f \<or> \<not> interfaceOnly b then compact_files env s d fs S remove
       else compact_files env s d fs (compact_batch env b S) (remove @ [name]))"

fun write_summaries :: "spool_env \<Rightarrow> summaries \<Rightarrow> sdir \<Rightarrow> sdir \<times> spool_error option" where
  "write_summaries env [] d = (d, None)"
| "write_summaries env (((node, m), b) # S) d =
     (case writeBatchFile env (batchFileName env (ba_BatchID b) m) b m d of
        (d', Some e) \<Rightarrow> (d', Some e)
      | (d', None) \<Rightarrow> write_summaries env S d')"

fun remove_files :: "spool_env \<Rightarrow> string list \<Rightarrow> sdir \<Rightarrow> sdir \<times> spool_error option" where
  "remove_files env [] d = (d, None)"
| "remove_files env (name # names) d =
     (if env_fails env (RemoveFile name) \<or> map_of d name = None then (d, Some (OpFailed (RemoveFile name)))
      else remove_files env names (AList.delete name d))"

definition compactExpiredInterfaces :: "spool_env \<Rightarrow> Spool \<Rightarrow> sdir \<Rightarrow> sdir \<Rightarrow> sdir \<times> spool_error option" where
  "compactExpiredInterfaces env s fs d =
     (case compact_files env s d fs [] [] of
        Inl e \<Rightarrow> (d, Some e)
      | Inr (S, remove) \<Rightarrow>
          (if remove = [] then (d, None)
           else (case write_summaries env S d of
                   (d', Some e) \<Rightarrow> (d', Some e)
                 | (d', None) \<Rightarrow>
                     (case syncDirectory env of
                        Some e \<Rightarrow> (d', Some e)
                      | None \<Rightarrow>
                          (case remove_files env remove d' of
                             (d'', Some e) \<Rightarrow> (d'', Some e)
                           | (d'', None) \<Rightarrow> (d'', syncDirectory env))))))"

subsection \<open>Eviction\<close>

text \<open>The first file that is expired, or in excess while the total is, and is not protected.\<close>

fun candidate :: "spool_env \<Rightarrow> Spool \<Rightarrow> sdir \<Rightarrow> int \<Rightarrow> nat \<Rightarrow> sdir \<Rightarrow> spool_error + nat option" where
  "candidate env s d total_bytes i [] = Inr None"
| "candidate env s d total_bytes i ((name, f) # fs) =
     (if \<not> expired env s f \<and> total_bytes \<le> sp_maxBytes s then candidate env s d total_bytes (Suc i) fs
      else andThen (readBatch env d name) (\<lambda>b.
        if protectedBatch b then candidate env s d total_bytes (Suc i) fs else Inr (Some i)))"

lemma candidate_bound: "candidate env s d total_bytes i fs = Inr (Some j) \<Longrightarrow> i \<le> j \<and> j < i + length fs"
proof (induction env s d total_bytes i fs rule: candidate.induct)
  case (2 env s d total_bytes i name f fs)
  then show ?case by (cases "readBatch env d name") (fastforce split: if_splits)+
qed simp

definition drop_nth :: "nat \<Rightarrow> 'a list \<Rightarrow> 'a list" where
  "drop_nth i xs = take i xs @ drop (Suc i) xs"

lemma length_drop_nth: "i < length xs \<Longrightarrow> length (drop_nth i xs) < length xs"
  by (simp add: drop_nth_def)

function prune_loop :: "spool_env \<Rightarrow> Spool \<Rightarrow> sdir \<Rightarrow> int \<Rightarrow> sdir \<Rightarrow> DropReport \<Rightarrow>
    sdir \<times> (spool_error + sdir \<times> int \<times> DropReport)" where
  "prune_loop env s d total_bytes fs report =
     (if length fs \<le> 1 then (d, Inr (fs, total_bytes, report))
      else (case candidate env s d total_bytes 0 fs of
              Inl e \<Rightarrow> (d, Inl e)
            | Inr None \<Rightarrow> (d, Inr (fs, total_bytes, report))
            | Inr (Some i) \<Rightarrow>
                (case readBatch env d (fst (fs ! i)) of
                   Inl e \<Rightarrow> (d, Inl e)
                 | Inr b \<Rightarrow>
                     (if env_fails env (RemoveFile (fst (fs ! i))) then (d, Inl (OpFailed (RemoveFile (fst (fs ! i)))))
                      else prune_loop env s (AList.delete (fst (fs ! i)) d) (total_bytes - f_Size (snd (fs ! i))) (drop_nth i fs)
                        (report\<lparr>dr_Code := ''data_gap'', dr_DroppedBatches := dr_DroppedBatches report + 1,
                           dr_DroppedEvents := dr_DroppedEvents report + int (length (ba_Events b))\<rparr>)))))"
  by pat_completeness auto
termination
  by (relation "measure (\<lambda>(env, s, d, total_bytes, fs, report). length fs)") (auto dest!: candidate_bound intro!: length_drop_nth)

declare prune_loop.simps [simp del]

definition usage_percent :: "spool_env \<Rightarrow> Spool \<Rightarrow> int \<Rightarrow> sdir \<Rightarrow> float64" where
  "usage_percent env s total_bytes fs =
     (case fs of
        [] \<Rightarrow> Fin 0
      | (name, f) # _ \<Rightarrow>
          (let fl = env_float env;
               byteUsage = fl (fl (of_int total_bytes) / fl (of_int (sp_maxBytes s)));
               age = max 0 (env_now env - f_ModTime f);
               ageUsage = fl (fl (of_int age) / fl (of_int (sp_maxAge s)))
           in Fin (min 100 (fl (max byteUsage ageUsage * 100)))))"

definition zero_report :: DropReport where
  "zero_report = \<lparr>dr_Code = [], dr_DroppedBatches = 0, dr_DroppedEvents = 0, dr_UsagePercent = Fin 0\<rparr>"

definition total_size :: "sdir \<Rightarrow> int" where
  "total_size fs = sum_list (map (\<lambda>(name, f). f_Size f) fs)"

definition prune :: "spool_env \<Rightarrow> Spool \<Rightarrow> sdir \<Rightarrow> sdir \<times> (spool_error + DropReport)" where
  "prune env s d =
     (case spool_files env d of
        Inl e \<Rightarrow> (d, Inl e)
      | Inr fs \<Rightarrow>
          (case compactExpiredInterfaces env s fs d of
             (d1, Some e) \<Rightarrow> (d1, Inl e)
           | (d1, None) \<Rightarrow>
               (case spool_files env d1 of
                  Inl e \<Rightarrow> (d1, Inl e)
                | Inr fs1 \<Rightarrow>
                    (case prune_loop env s d1 (total_size fs1) fs1 zero_report of
                       (d2, Inl e) \<Rightarrow> (d2, Inl e)
                     | (d2, Inr (fs2, total_bytes, report)) \<Rightarrow>
                         (case if 0 < dr_DroppedBatches report then syncDirectory env else None of
                            Some e \<Rightarrow> (d2, Inl e)
                          | None \<Rightarrow> (d2, Inr (report\<lparr>dr_UsagePercent := usage_percent env s total_bytes fs2\<rparr>)))))))"

subsection \<open>The queue\<close>

definition Enqueue :: "spool_env \<Rightarrow> Spool \<Rightarrow> sdir \<Rightarrow> Batch \<Rightarrow> sdir \<times> (spool_error + DropReport)" where
  "Enqueue env s d batch =
     (case Validate batch of
        Some e \<Rightarrow> (d, Inl (QueuedInvalid e))
      | None \<Rightarrow>
          (case publish env (batchFileName env (ba_BatchID batch) (env_now env)) batch (env_now env) d of
             (d', Some e) \<Rightarrow> (d', Inl e)
           | (d', None) \<Rightarrow>
               (case syncDirectory env of Some e \<Rightarrow> (d', Inl e) | None \<Rightarrow> prune env s d')))"

definition Peek :: "spool_env \<Rightarrow> Spool \<Rightarrow> sdir \<Rightarrow> spool_error + Item option" where
  "Peek env s d =
     (case spool_files env d of
        Inl e \<Rightarrow> Inl e
      | Inr [] \<Rightarrow> Inr None
      | Inr ((name, f) # _) \<Rightarrow>
          andThen (readBatch env d name) (\<lambda>b.
            case Validate b of
              Some e \<Rightarrow> Inl (QueuedInvalid e)
            | None \<Rightarrow> Inr (Some \<lparr>it_Batch = b, it_dir = sp_dir s, it_name = name\<rparr>)))"

definition Ack :: "spool_env \<Rightarrow> Spool \<Rightarrow> sdir \<Rightarrow> Item \<Rightarrow> sdir \<times> spool_error option" where
  "Ack env s d item =
     (if it_dir item \<noteq> sp_dir s \<or> \<not> suffix json_gz (it_name item) then (d, Some ForeignItem)
      else if env_fails env (RemoveFile (it_name item)) \<or> map_of d (it_name item) = None
      then (d, Some (OpFailed (RemoveFile (it_name item))))
      else (AList.delete (it_name item) d, syncDirectory env))"

subsection \<open>Merging is exact\<close>

text \<open>What a list of events holds for an interface and a direction.\<close>

definition entry :: "(Event \<Rightarrow> int64) \<Rightarrow> string \<Rightarrow> string \<Rightarrow> Event list \<Rightarrow> int" where
  "entry amount i d evs =
     (case find (\<lambda>ev. ev_Interface ev = i \<and> ev_Direction ev = d) evs of None \<Rightarrow> 0 | Some ev \<Rightarrow> sint (amount ev))"

text \<open>The sum of the events of a list for an interface and a direction.\<close>

definition amount_sum :: "(Event \<Rightarrow> int64) \<Rightarrow> string \<Rightarrow> string \<Rightarrow> Event list \<Rightarrow> int" where
  "amount_sum amount i d evs =
     sum_list (map (\<lambda>ev. sint (amount ev)) (filter (\<lambda>ev. ev_Interface ev = i \<and> ev_Direction ev = d) evs))"

definition nonneg_event :: "Event \<Rightarrow> bool" where
  "nonneg_event ev \<longleftrightarrow> 0 \<le> sint (ev_Bytes ev) \<and> 0 \<le> sint (ev_Packets ev)"

abbreviation nonneg_events :: "Event list \<Rightarrow> bool" where
  "nonneg_events \<equiv> list_all nonneg_event"

lemma spool_saturatingAdd_value:
  assumes "0 \<le> sint l" "0 \<le> sint r"
  shows "sint (spool_saturatingAdd l r) = min max_int (sint l + sint r)"
proof -
  have b: "sint l \<le> max_int" "sint r \<le> max_int" using sint_lt [of l] sint_lt [of r] by simp_all
  have m: "sint MaxInt64 = max_int" by (simp add: MaxInt64_def)
  have d: "sint (MaxInt64 - r) = max_int - sint r"
    unfolding sint_word_ariths m using assms b by (simp add: signed_take_bit_int_eq_self)
  have "sint (l + r) = sint l + sint r" if "sint l + sint r \<le> max_int"
    unfolding sint_word_ariths using assms that by (simp add: signed_take_bit_int_eq_self)
  then show ?thesis
    using assms b d m by (auto simp: spool_saturatingAdd_def word_sless_alt)
qed

lemma entry_merge:
  assumes "nonneg_events evs" "nonneg_event e" "amount = ev_Bytes \<or> amount = ev_Packets"
  shows "entry amount i d (mergeInterfaceEvent env evs e m) =
    (if ev_Interface e = i \<and> ev_Direction e = d then min max_int (entry amount i d evs + sint (amount e)) else entry amount i d evs)"
  using assms
proof (induction evs)
  case Nil
  then show ?case
    using sint_lt [of "ev_Bytes e"] sint_lt [of "ev_Packets e"] by (auto simp: entry_def)
next
  case (Cons ev evs)
  then show ?case by (auto simp: entry_def nonneg_event_def spool_saturatingAdd_value)
qed

lemma nonneg_merge: "nonneg_events evs \<Longrightarrow> nonneg_event e \<Longrightarrow> nonneg_events (mergeInterfaceEvent env evs e m)"
  by (induction evs) (simp_all add: nonneg_event_def spool_saturatingAdd_value)

lemma merge_all_exact:
  assumes "nonneg_events evs" "nonneg_events es" "amount = ev_Bytes \<or> amount = ev_Packets" "entry amount i d evs \<le> max_int"
  shows "nonneg_events (foldl (\<lambda>evs ev. mergeInterfaceEvent env evs ev m) evs es) \<and>
    entry amount i d (foldl (\<lambda>evs ev. mergeInterfaceEvent env evs ev m) evs es) =
      min max_int (entry amount i d evs + amount_sum amount i d es)"
  using assms
proof (induction es arbitrary: evs)
  case (Cons e es)
  let ?evs = "mergeInterfaceEvent env evs e m"
  have e: "nonneg_event e" "nonneg_events es" using Cons.prems(2) by simp_all
  have "0 \<le> amount_sum amount i d es"
    unfolding amount_sum_def using e(2) Cons.prems(3) by (intro sum_list_nonneg) (auto simp: nonneg_event_def list_all_iff)
  moreover have "0 \<le> sint (amount e)" using e(1) Cons.prems(3) by (auto simp: nonneg_event_def list_all_iff)
  moreover have "entry amount i d ?evs \<le> max_int"
    using entry_merge [OF Cons.prems(1) e(1) Cons.prems(3)] Cons.prems(4) by auto
  ultimately show ?case
    using Cons.IH [OF nonneg_merge [OF Cons.prems(1) e(1)] e(2) Cons.prems(3)] entry_merge [OF Cons.prems(1) e(1) Cons.prems(3)]
    by (auto simp: amount_sum_def)
qed (simp add: amount_sum_def)

lemma entry_le: "entry amount i d evs \<le> max_int"
  using sint_lt [of "amount (the (find (\<lambda>ev. ev_Interface ev = i \<and> ev_Direction ev = d) evs))"]
  by (auto simp: entry_def split: option.split)

subsection \<open>What a batch adds to the summaries\<close>

text \<open>What the summary of a minute becomes when a batch is merged into it.\<close>

definition absorb :: "spool_env \<Rightarrow> go_time \<Rightarrow> Batch \<Rightarrow> Batch \<Rightarrow> Batch" where
  "absorb env m b summary =
     (if ba_BatchID b \<in> set (ba_CompactedBatchIDs summary) then summary
      else summary\<lparr>ba_Events := foldl (\<lambda>evs ev. mergeInterfaceEvent env evs ev m) (ba_Events summary) (events_at m b),
        ba_CompactedBatchIDs := sort (ba_CompactedBatchIDs summary @ [ba_BatchID b])\<rparr>)"

definition concerns :: "string \<Rightarrow> go_time \<Rightarrow> Batch \<Rightarrow> bool" where
  "concerns node m b \<longleftrightarrow> ba_NodeID b = node \<and> m \<in> set (batch_minutes b)"

lemma summary_of_minute:
  "summary_of env (compact_minute env b m S) node m' =
     (if node = ba_NodeID b \<and> m' = m then absorb env m b (summary_of env S node m') else summary_of env S node m')"
  by (auto simp: compact_minute_def summary_of_def absorb_def Let_def update_conv')

lemma summary_of_minutes:
  "distinct ms \<Longrightarrow> summary_of env (fold (compact_minute env b) ms S) node m =
     (if node = ba_NodeID b \<and> m \<in> set ms then absorb env m b (summary_of env S node m) else summary_of env S node m)"
  by (induction ms arbitrary: S) (auto simp: summary_of_minute)

lemma summary_of_batch:
  "summary_of env (compact_batch env b S) node m =
     (if concerns node m b then absorb env m b (summary_of env S node m) else summary_of env S node m)"
  by (auto simp: compact_batch_def concerns_def batch_minutes_def summary_of_minutes)

lemma summary_of_batches:
  "summary_of env (fold (compact_batch env) bs S) node m =
     fold (absorb env m) (filter (concerns node m) bs) (summary_of env S node m)"
  by (induction bs arbitrary: S) (auto simp: summary_of_batch)

lemma absorb_ids: "set (ba_CompactedBatchIDs (absorb env m b summary)) = insert (ba_BatchID b) (set (ba_CompactedBatchIDs summary))"
  by (auto simp: absorb_def)

lemma absorb_all_ids:
  "set (ba_CompactedBatchIDs (fold (absorb env m) bs summary)) = ba_BatchID ` set bs \<union> set (ba_CompactedBatchIDs summary)"
  by (induction bs arbitrary: summary) (auto simp: absorb_ids)

subsection \<open>Eviction is exact\<close>

definition droppable :: "spool_env \<Rightarrow> Spool \<Rightarrow> sdir \<Rightarrow> int \<Rightarrow> string \<times> sfile \<Rightarrow> bool" where
  "droppable env s d total_bytes nf \<longleftrightarrow>
     (expired env s (snd nf) \<or> sp_maxBytes s < total_bytes) \<and> (\<forall>b. readBatch env d (fst nf) = Inr b \<longrightarrow> \<not> protectedBatch b)"

lemma candidate_None:
  "candidate env s d total_bytes i fs = Inr None \<Longrightarrow> nf \<in> set fs \<Longrightarrow> \<not> droppable env s d total_bytes nf"
proof (induction env s d total_bytes i fs rule: candidate.induct)
  case (2 env s d total_bytes i name f fs)
  then show ?case
    by (cases "readBatch env d name") (auto simp: droppable_def not_less split: if_splits)
qed simp

lemma candidate_Some:
  "candidate env s d total_bytes i fs = Inr (Some j) \<Longrightarrow>
   droppable env s d total_bytes (fs ! (j - i)) \<and> (\<exists>b. readBatch env d (fst (fs ! (j - i))) = Inr b \<and> \<not> protectedBatch b)"
proof (induction env s d total_bytes i fs rule: candidate.induct)
  case (2 env s d total_bytes i name f fs)
  show ?case
  proof (cases "j = i")
    case True
    have "candidate env s d total_bytes (Suc i) fs \<noteq> Inr (Some j)"
      using candidate_bound [of env s d total_bytes "Suc i" fs j] True by auto
    with 2 True show ?thesis
      by (cases "readBatch env d name") (auto simp: droppable_def split: if_splits)
  next
    case False
    with 2(3) have "candidate env s d total_bytes (Suc i) fs = Inr (Some j)"
      by (cases "readBatch env d name") (auto split: if_splits)
    moreover from this have "j - i = Suc (j - Suc i)" using candidate_bound by fastforce
    ultimately show ?thesis using 2 by (cases "readBatch env d name") (auto split: if_splits)
  qed
qed simp

definition events_in :: "spool_env \<Rightarrow> sdir \<Rightarrow> sdir \<Rightarrow> int" where
  "events_in env d fs =
     sum_list (map (\<lambda>nf. case readBatch env d (fst nf) of Inl e \<Rightarrow> 0 | Inr b \<Rightarrow> int (length (ba_Events b))) fs)"

text \<open>What eviction does to the directory and what it reports.\<close>

definition evicts :: "spool_env \<Rightarrow> Spool \<Rightarrow> sdir \<Rightarrow> sdir \<Rightarrow> DropReport \<Rightarrow> sdir \<Rightarrow> sdir \<Rightarrow> int \<Rightarrow> DropReport \<Rightarrow> bool" where
  "evicts env s d fs report d' fs' total_bytes report' \<longleftrightarrow>
     subseq fs' fs \<and> (fs \<noteq> [] \<longrightarrow> fs' \<noteq> []) \<and> total_bytes = total_size fs' \<and>
     (\<forall>n. map_of d' n = (if n \<in> fst ` (set fs - set fs') then None else map_of d n)) \<and>
     (\<forall>nf \<in> set fs - set fs'. \<exists>b. readBatch env d (fst nf) = Inr b \<and> \<not> protectedBatch b) \<and>
     dr_DroppedBatches report' - dr_DroppedBatches report = int (length fs) - int (length fs') \<and>
     dr_DroppedEvents report' - dr_DroppedEvents report = events_in env d fs - events_in env d fs' \<and>
     (length fs' \<le> 1 \<or> (\<forall>nf \<in> set fs'. \<not> droppable env s d total_bytes nf))"

lemma readBatch_delete: "n \<noteq> m \<Longrightarrow> readBatch env (AList.delete n d) m = readBatch env d m"
  by (simp add: readBatch_def delete_conv')

lemma drop_nth_parts:
  assumes "i < length xs"
  shows "subseq (drop_nth i xs) xs" "mset xs = add_mset (xs ! i) (mset (drop_nth i xs))"
    "length xs = Suc (length (drop_nth i xs))"
proof -
  have split: "xs = take i xs @ xs ! i # drop (Suc i) xs" using assms by (rule id_take_nth_drop)
  show "subseq (drop_nth i xs) xs"
    unfolding drop_nth_def by (subst (3) split) (auto intro: list_emb_append_mono)
  have "mset xs = mset (take i xs @ xs ! i # drop (Suc i) xs)" using split by simp
  then show "mset xs = add_mset (xs ! i) (mset (drop_nth i xs))" by (simp add: drop_nth_def)
  then show "length xs = Suc (length (drop_nth i xs))" by (metis size_mset size_add_mset)
qed

lemma sum_list_drop_nth:
  assumes "i < length xs"
  shows "sum_list (map g (drop_nth i xs)) = sum_list (map g xs) - (g (xs ! i) :: int)"
proof -
  have "sum_list (map g xs) = sum_list (map g (take i xs @ xs ! i # drop (Suc i) xs))"
    using id_take_nth_drop [OF assms] by simp
  then show ?thesis by (simp add: drop_nth_def)
qed

lemma drop_nth_distinct:
  assumes "i < length xs" "distinct (map g xs)"
  shows "g (xs ! i) \<notin> g ` set (drop_nth i xs) \<and> distinct (map g (drop_nth i xs))"
proof -
  have "distinct (map g (take i xs @ xs ! i # drop (Suc i) xs))"
    using id_take_nth_drop [OF assms(1)] assms(2) by simp
  then show ?thesis by (auto simp: drop_nth_def)
qed

lemma evicts_refl:
  "total_bytes = total_size fs \<Longrightarrow> length fs \<le> 1 \<or> (\<forall>nf \<in> set fs. \<not> droppable env s d total_bytes nf) \<Longrightarrow>
   evicts env s d fs report d fs total_bytes report"
  by (auto simp: evicts_def)

lemma evicts_step:
  assumes i: "i < length fs" "1 < length fs" and b: "readBatch env d (fst (fs ! i)) = Inr b" "\<not> protectedBatch b"
    and distinct: "distinct (map fst fs)"
    and rest: "evicts env s (AList.delete (fst (fs ! i)) d) (drop_nth i fs)
      (report\<lparr>dr_Code := ''data_gap'', dr_DroppedBatches := dr_DroppedBatches report + 1,
         dr_DroppedEvents := dr_DroppedEvents report + int (length (ba_Events b))\<rparr>) d' fs' total_bytes report'"
  shows "evicts env s d fs report d' fs' total_bytes report'"
proof -
  let ?n = "fst (fs ! i)"
  note parts = drop_nth_parts [OF i(1)]
  have sub: "subseq fs' (drop_nth i fs)" using rest by (simp add: evicts_def)
  have sets: "set fs = insert (fs ! i) (set (drop_nth i fs))"
    using arg_cong [OF parts(2), of set_mset] by simp
  have fresh: "?n \<notin> fst ` set (drop_nth i fs)" using drop_nth_distinct [OF i(1) distinct] by simp
  have read: "readBatch env (AList.delete ?n d) (fst nf) = readBatch env d (fst nf)" if "nf \<in> set (drop_nth i fs)" for nf
    using that fresh by (intro readBatch_delete) force
  have sub_set: "set fs' \<subseteq> set (drop_nth i fs)" using sub by (auto dest: list_emb_set)
  have same: "droppable env s (AList.delete ?n d) total_bytes nf = droppable env s d total_bytes nf" if "nf \<in> set fs'" for nf
    using that sub_set by (auto simp: droppable_def read)
  have events: "events_in env (AList.delete ?n d) gs = events_in env d gs" if "set gs \<subseteq> set (drop_nth i fs)" for gs
    using that read unfolding events_in_def by (intro arg_cong [where f = sum_list] map_cong) auto
  have dropped: "events_in env d (drop_nth i fs) = events_in env d fs - int (length (ba_Events b))"
    unfolding events_in_def by (subst sum_list_drop_nth [OF i(1)]) (simp add: b)
  have "drop_nth i fs \<noteq> []" using parts(3) i(2) by auto
  with rest have nonempty: "fs' \<noteq> []" by (simp add: evicts_def)
  show ?thesis
    unfolding evicts_def
  proof (intro conjI)
    show "subseq fs' fs" using sub parts(1) by (rule subseq_order.trans)
    show "\<forall>n. map_of d' n = (if n \<in> fst ` (set fs - set fs') then None else map_of d n)"
      using rest sub_set fresh unfolding evicts_def sets by (auto simp: delete_conv' image_iff) 
    show "\<forall>nf \<in> set fs - set fs'. \<exists>b. readBatch env d (fst nf) = Inr b \<and> \<not> protectedBatch b"
      using rest b read unfolding evicts_def sets by auto
    show "length fs' \<le> 1 \<or> (\<forall>nf \<in> set fs'. \<not> droppable env s d total_bytes nf)"
      using rest same by (auto simp: evicts_def)
  qed (use rest nonempty events [OF subset_refl] events [OF sub_set] dropped parts(3) in \<open>auto simp: evicts_def\<close>)
qed

lemma prune_loop_evicts:
  "prune_loop env s d total_bytes fs report = (d', Inr (fs', total', report')) \<Longrightarrow>
   distinct (map fst fs) \<Longrightarrow> total_bytes = total_size fs \<Longrightarrow> evicts env s d fs report d' fs' total' report'"
proof (induction env s d total_bytes fs report rule: prune_loop.induct)
  case (1 env s d total_bytes fs report)
  note unfolded = 1(2) [unfolded prune_loop.simps [of env s d total_bytes fs report]]
  show ?case
  proof (cases "length fs \<le> 1")
    case True
    with unfolded 1(4) show ?thesis by (auto intro: evicts_refl)
  next
    case long: False
    show ?thesis
    proof (cases "candidate env s d total_bytes 0 fs")
      case (Inr c)
      show ?thesis
      proof (cases c)
        case None
        with unfolded Inr long 1(4) candidate_None [of env s d total_bytes 0 fs] show ?thesis
          by (auto intro: evicts_refl)
      next
        case (Some i)
        have i: "i < length fs" using candidate_bound [OF Inr [unfolded Some]] by simp
        obtain b where b: "readBatch env d (fst (fs ! i)) = Inr b" "\<not> protectedBatch b"
          using candidate_Some [OF Inr [unfolded Some]] by auto
        have remove: "\<not> env_fails env (RemoveFile (fst (fs ! i)))"
          using unfolded long Inr Some b by (auto split: if_splits)
        have "total_bytes - f_Size (snd (fs ! i)) = total_size (drop_nth i fs)"
          unfolding total_size_def sum_list_drop_nth [OF i] by (simp add: 1(4) total_size_def case_prod_unfold)
        moreover have "distinct (map fst (drop_nth i fs))" using drop_nth_distinct [OF i 1(3)] by simp
        ultimately show ?thesis
          using evicts_step [OF i _ b 1(3) 1(1) [OF long Inr Some b(1) remove]] unfolded long Inr Some b remove by simp
      qed
    qed (use unfolded long in simp)
  qed
qed

lemma candidate_idle:
  "\<forall>(name, f) \<in> set fs. \<not> expired env s f \<Longrightarrow> total_bytes \<le> sp_maxBytes s \<Longrightarrow> candidate env s d total_bytes i fs = Inr None"
  by (induction fs arbitrary: i) auto

lemma prune_loop_idle:
  "\<forall>(name, f) \<in> set fs. \<not> expired env s f \<Longrightarrow> total_bytes \<le> sp_maxBytes s \<Longrightarrow>
   prune_loop env s d total_bytes fs report = (d, Inr (fs, total_bytes, report))"
  by (simp add: prune_loop.simps candidate_idle)

subsection \<open>Publication\<close>

text \<open>A batch becomes visible as a whole or not at all, and no other file changes.\<close>

lemma publish_atomic:
  "publish env name b t d = (d', r) \<Longrightarrow>
   d' = d \<and> r \<noteq> None \<or> (\<exists>t'. d' = AList.update name \<lparr>f_ModTime = t', f_Data = env_encode env b\<rparr> d \<and> (r = None \<longrightarrow> t' = t))"
  by (auto simp: publish_def Let_def split: option.splits if_splits)

lemma publish_ok: "(\<And>op. \<not> env_fails env op) \<Longrightarrow>
   publish env name b t d = (AList.update name \<lparr>f_ModTime = t, f_Data = env_encode env b\<rparr> d, None)"
  by (simp add: publish_def)

subsection \<open>File names order batches by time\<close>

lemma decimal_value_Cons: "decimal_value (c # s) = digit_value c * 10 ^ length s + decimal_value s"
proof -
  have "foldl (\<lambda>v c. 10 * v + digit_value c) a s = a * 10 ^ length s + decimal_value s" for a
  proof (induction s rule: rev_induct)
    case (snoc x xs)
    then show ?case by (simp add: decimal_value_snoc)
  qed (simp add: decimal_value_def)
  from this [of "digit_value c"] show ?thesis by (simp add: decimal_value_def)
qed

lemma decimal_value_bound: "list_all is_digit s \<Longrightarrow> decimal_value s < 10 ^ length s"
proof (induction s)
  case (Cons c s)
  then have "digit_value c \<le> 9" by (simp add: is_digit_def digit_value_def le_diff_conv)
  then have "digit_value c * 10 ^ length s \<le> 9 * 10 ^ length s" by (rule mult_le_mono1)
  moreover have "decimal_value s < 10 ^ length s" using Cons by simp
  ultimately show ?case unfolding decimal_value_Cons length_Cons power_Suc by linarith
qed (simp add: decimal_value_def)

lemma digit_less: "is_digit c \<Longrightarrow> is_digit e \<Longrightarrow> digit_value c < digit_value e \<longleftrightarrow> c < e"
  by (auto simp: is_digit_def digit_value_def less_char_def)

lemma digits_less:
  "length s = length t \<Longrightarrow> list_all is_digit s \<Longrightarrow> list_all is_digit t \<Longrightarrow> decimal_value s < decimal_value t \<Longrightarrow> s < t"
proof (induction s t rule: list_induct2)
  case (Cons c s e t)
  have d: "is_digit c" "is_digit e" "list_all is_digit s" "list_all is_digit t" using Cons.prems by simp_all
  show ?case
  proof (cases "digit_value c" "digit_value e" rule: linorder_cases)
    case less
    with d show ?thesis by (simp add: digit_less)
  next
    case equal
    then have "c = e" using d digit_less by (metis linorder_neqE less_irrefl)
    with Cons equal show ?thesis by (simp add: decimal_value_Cons)
  next
    case greater
    then have "Suc (digit_value e) * 10 ^ length s \<le> digit_value c * 10 ^ length s" by (intro mult_le_mono1) simp
    then have "decimal_value (e # t) < digit_value c * 10 ^ length s"
      using decimal_value_bound [OF d(4)] Cons.hyps by (simp add: decimal_value_Cons)
    with Cons.prems(3) show ?thesis by (simp add: decimal_value_Cons Cons.hyps)
  qed
qed simp

lemma pad20_digits:
  assumes "0 \<le> n" "n < 10 ^ 19"
  shows "length (pad20 n) = 20" "list_all is_digit (pad20 n)" "decimal_value (pad20 n) = nat n"
proof -
  have "length (itoa (nat n)) \<le> 19" using assms by (intro length_itoa) (auto simp: nat_less_iff)
  with assms(1) show "length (pad20 n) = 20" by (simp add: pad20_def)
  show "list_all is_digit (pad20 n)"
    using assms(1) itoa_digits by (auto simp: pad20_def list_all_iff is_digit_def)
  have "decimal_value (replicate k (CHR ''0'') @ s) = decimal_value s" for k s
    by (induction k) (simp_all add: decimal_value_Cons digit_value_def)
  with assms(1) show "decimal_value (pad20 n) = nat n" by (simp add: pad20_def decimal_itoa)
qed

lemma append_less: "xs < ys \<Longrightarrow> length xs = length ys \<Longrightarrow> xs @ us < ys @ vs" for xs ys :: string
  unfolding list_less_def by (rule lexord_sufI) simp_all

lemma UnixNano_less: "UnixNano t < 10 ^ 19"
  using sint_lt [of "word_of_int (t - 62135596800 * 1000000000) :: 64 word"] by (simp add: UnixNano_def)

lemma batchFileName_less:
  assumes "0 \<le> UnixNano t" "UnixNano t < UnixNano t'"
  shows "batchFileName env i t < batchFileName env i' t'"
proof -
  have "pad20 (UnixNano t) < pad20 (UnixNano t')"
    using assms UnixNano_less by (intro digits_less) (simp_all add: pad20_digits)
  then show ?thesis
    unfolding batchFileName_def using assms UnixNano_less by (intro append_less) (simp_all add: pad20_digits)
qed

subsection \<open>The directory as a queue\<close>

definition queue_files :: "sdir \<Rightarrow> sdir" where
  "queue_files d = sort_key fst (filter (\<lambda>(name, f). suffix json_gz name) d)"

definition queued :: "spool_env \<Rightarrow> sdir \<Rightarrow> Batch list" where
  "queued env d = map (\<lambda>(name, f). the (env_decode env (f_Data f))) (queue_files d)"

text \<open>A directory in order: every queue file decodes to a valid batch.\<close>

definition clean :: "spool_env \<Rightarrow> sdir \<Rightarrow> bool" where
  "clean env d \<longleftrightarrow> distinct (map fst d) \<and>
     (\<forall>(name, f) \<in> set d. suffix json_gz name \<longrightarrow> (\<exists>b. env_decode env (f_Data f) = Some b \<and> Validate b = None))"

abbreviation no_faults :: "spool_env \<Rightarrow> bool" where
  "no_faults env \<equiv> \<forall>op. \<not> env_fails env op"

lemma queue_files_member: "(name, f) \<in> set (queue_files d) \<longleftrightarrow> (name, f) \<in> set d \<and> suffix json_gz name"
  by (auto simp: queue_files_def)

lemma queue_files_distinct: "distinct (map fst d) \<Longrightarrow> distinct (map fst (queue_files d))"
  by (simp add: queue_files_def distinct_map_filter distinct_map inj_on_def)

lemma spool_files_ok: "no_faults env \<Longrightarrow> spool_files env d = Inr (queue_files d)"
  by (simp add: spool_files_def queue_files_def)

lemma readBatch_clean:
  assumes "no_faults env" "clean env d" "(name, f) \<in> set (queue_files d)"
  shows "readBatch env d name = Inr (the (env_decode env (f_Data f))) \<and> Validate (the (env_decode env (f_Data f))) = None"
  using assms by (fastforce simp: readBatch_def clean_def queue_files_member)

lemma queue_files_delete: "queue_files (AList.delete n d) = filter (\<lambda>(name, f). n \<noteq> name) (queue_files d)"
  by (simp add: queue_files_def AList.delete_eq filter_sort conj_commute case_prod_unfold)

lemma clean_delete: "clean env d \<Longrightarrow> clean env (AList.delete n d)"
  using set_delete_subset by (fastforce simp: clean_def distinct_delete)

lemma Peek_empty: "no_faults env \<Longrightarrow> queued env d = [] \<Longrightarrow> Peek env s d = Inr None"
  by (simp add: Peek_def spool_files_ok queued_def)

lemma Peek_oldest:
  assumes "no_faults env" "clean env d" "queued env d = b # bs"
  shows "\<exists>item. Peek env s d = Inr (Some item) \<and> it_Batch item = b \<and>
    (\<exists>d'. Ack env s d item = (d', None) \<and> clean env d' \<and> queued env d' = bs)"
proof -
  from assms(3) obtain name f fs where fs: "queue_files d = (name, f) # fs" by (auto simp: queued_def)
  let ?item = "\<lparr>it_Batch = b, it_dir = sp_dir s, it_name = name\<rparr>"
  have "(name, f) \<in> set (queue_files d)" by (simp add: fs)
  then have member: "suffix json_gz name" "(name, f) \<in> set d" by (simp_all add: queue_files_member)
  have b: "b = the (env_decode env (f_Data f))" using assms(3) by (simp add: queued_def fs)
  with readBatch_clean [OF assms(1,2), of name f] have "Peek env s d = Inr (Some ?item)"
    by (simp add: Peek_def spool_files_ok [OF assms(1)] fs)
  moreover have "map_of d name \<noteq> None" using member(2) by (metis domI domIff weak_map_of_SomeI)
  then have "Ack env s d ?item = (AList.delete name d, None)"
    using assms(1) member(1) by (simp add: Ack_def syncDirectory_def)
  moreover have "filter (\<lambda>(n, f). name \<noteq> n) fs = fs"
    using queue_files_distinct [of d] assms(2) by (force simp: fs clean_def filter_id_conv)
  then have "queued env (AList.delete name d) = bs"
    using assms(3) by (simp add: queued_def queue_files_delete fs)
  ultimately show ?thesis using clean_delete [OF assms(2)] by auto
qed

text \<open>The queue of the interface: the environment of the calls, the spool and its directory.\<close>

fun spool_peek :: "spool_env \<times> Spool \<times> sdir \<Rightarrow> spool_error + Item option" where
  "spool_peek (env, s, d) = Peek env s d"

fun spool_ack :: "spool_env \<times> Spool \<times> sdir \<Rightarrow> Item \<Rightarrow> (spool_env \<times> Spool \<times> sdir) \<times> spool_error option" where
  "spool_ack (env, s, d) item = (case Ack env s d item of (d', r) \<Rightarrow> ((env, s, d'), r))"

fun spool_contents :: "spool_env \<times> Spool \<times> sdir \<Rightarrow> Batch list" where
  "spool_contents (env, s, d) = queued env d"

fun spool_ok :: "spool_env \<times> Spool \<times> sdir \<Rightarrow> bool" where
  "spool_ok (env, s, d) \<longleftrightarrow> no_faults env \<and> clean env d"

interpretation disk: batch_queue spool_peek spool_ack it_Batch spool_contents spool_ok
proof
  fix q
  assume "spool_ok q" "spool_contents q = []"
  then show "spool_peek q = Inr None" by (cases q) (simp add: Peek_empty)
next
  fix q b bs
  assume "spool_ok q" "spool_contents q = b # bs"
  then show "\<exists>item. spool_peek q = Inr (Some item) \<and> it_Batch item = b \<and>
      (\<exists>q'. spool_ack q item = (q', None) \<and> spool_ok q' \<and> spool_contents q' = bs)"
  proof (cases q)
    case (fields env s d)
    with \<open>spool_ok q\<close> \<open>spool_contents q = b # bs\<close> Peek_oldest [of env d b bs s] show ?thesis by fastforce
  qed
qed

subsection \<open>Enqueueing appends\<close>

lemma compact_files_idle:
  assumes "no_faults env" "clean env d" "set fs \<subseteq> set (queue_files d)" "\<forall>(name, f) \<in> set fs. \<not> expired env s f"
  shows "\<exists>S'. compact_files env s d fs S remove = Inr (S', remove)"
  using assms(3,4)
proof (induction fs arbitrary: S)
  case (Cons nf fs)
  obtain name f where nf: "nf = (name, f)" by fastforce
  have "readBatch env d name = Inr (the (env_decode env (f_Data f)))"
    using readBatch_clean [OF assms(1,2), of name f] Cons.prems(1) by (simp add: nf)
  with Cons show ?case by (auto simp: nf)
qed simp

lemma sort_key_snoc:
  fixes f :: "'a \<Rightarrow> 'b :: linorder"
  assumes "\<forall>y \<in> set xs. f y < f x"
  shows "sort_key f (xs @ [x]) = sort_key f xs @ [x]"
proof (rule properties_for_sort_key)
  show "sorted (map f (sort_key f xs @ [x]))" using assms by (auto simp: sorted_append intro: less_imp_le)
  fix k
  assume "k \<in> set (sort_key f xs @ [x])"
  show "filter (\<lambda>y. f k = f y) (sort_key f xs @ [x]) = filter (\<lambda>y. f k = f y) (xs @ [x])"
    using sort_key_stable [of f "f k" xs] by (simp add: eq_commute [of "f k"])
qed simp

lemma Enqueue_appends:
  assumes env: "no_faults env" "clean env d" and b: "Validate b = None" "env_decode env (env_encode env b) = Some b"
    and later: "\<forall>(name, f) \<in> set d. suffix json_gz name \<longrightarrow> name < batchFileName env (ba_BatchID b) (env_now env)"
    and fresh: "0 \<le> sp_maxAge s" "\<forall>(name, f) \<in> set (queue_files d). \<not> expired env s f"
    and room: "total_size (queue_files d) + int (length (env_encode env b)) \<le> sp_maxBytes s"
  defines "d' \<equiv> d @ [(batchFileName env (ba_BatchID b) (env_now env), \<lparr>f_ModTime = env_now env, f_Data = env_encode env b\<rparr>)]"
  shows "Enqueue env s d b = (d', Inr (zero_report\<lparr>dr_UsagePercent := usage_percent env s (total_size (queue_files d')) (queue_files d')\<rparr>))"
    and "queued env d' = queued env d @ [b]" and "clean env d'"
proof -
  let ?name = "batchFileName env (ba_BatchID b) (env_now env)"
  let ?file = "\<lparr>f_ModTime = env_now env, f_Data = env_encode env b\<rparr>"
  have gz: "suffix json_gz ?name" by (simp add: batchFileName_def suffix_def)
  have new: "?name \<notin> fst ` set d" using later gz by fastforce
  then have published: "publish env ?name b (env_now env) d = (d', None)"
    using env(1) by (simp add: publish_ok update_fresh d'_def)
  have files: "queue_files d' = queue_files d @ [(?name, ?file)]"
    using later gz unfolding d'_def queue_files_def by (simp add: sort_key_snoc case_prod_unfold)
  then show "queued env d' = queued env d @ [b]" by (simp add: queued_def b(2))
  show clean: "clean env d'" using env(2) new b by (auto simp: clean_def d'_def)
  have idle: "\<forall>(name, f) \<in> set (queue_files d'). \<not> expired env s f"
    using fresh by (auto simp: files expired_def)
  obtain S where "compact_files env s d' (queue_files d') [] [] = Inr (S, [])"
    using compact_files_idle [OF env(1) clean subset_refl idle] by blast
  then have "compactExpiredInterfaces env s (queue_files d') d' = (d', None)"
    by (simp add: compactExpiredInterfaces_def)
  moreover have "total_size (queue_files d') \<le> sp_maxBytes s" using room by (simp add: files total_size_def)
  ultimately have "prune env s d' =
      (d', Inr (zero_report\<lparr>dr_UsagePercent := usage_percent env s (total_size (queue_files d')) (queue_files d')\<rparr>))"
    using prune_loop_idle [OF idle] by (simp add: prune_def spool_files_ok [OF env(1)] zero_report_def)
  then show "Enqueue env s d b = (d', Inr (zero_report\<lparr>dr_UsagePercent :=
      usage_percent env s (total_size (queue_files d')) (queue_files d')\<rparr>))"
    using env(1) by (simp add: Enqueue_def b(1) published syncDirectory_def)
qed

subsection \<open>Pressure\<close>

lemma usage_percent_range:
  assumes "\<And>x. 0 \<le> x \<Longrightarrow> 0 \<le> env_float env x" "0 < sp_maxBytes s" "0 \<le> total_bytes" "fs \<noteq> []"
  shows "\<exists>u. usage_percent env s total_bytes fs = Fin u \<and> 0 \<le> u \<and> u \<le> 100"
proof -
  obtain name f rest where fs: "fs = (name, f) # rest" using assms(4) by (metis list.exhaust surj_pair)
  let ?fl = "env_float env"
  let ?bytes = "?fl (?fl (of_int total_bytes) / ?fl (of_int (sp_maxBytes s)))"
  have "0 \<le> ?bytes" using assms(1-3) by (intro assms(1) divide_nonneg_nonneg) auto
  then have "0 \<le> ?fl (max ?bytes (?fl (?fl (of_int (max 0 (env_now env - f_ModTime f))) / ?fl (of_int (sp_maxAge s)))) * 100)"
    by (intro assms(1)) (simp add: le_max_iff_disj)
  then show ?thesis by (simp add: usage_percent_def fs Let_def)
qed

subsection \<open>Properties\<close>

definition demo_event_at :: "go_time \<Rightarrow> int64 \<Rightarrow> Event" where
  "demo_event_at t n = zero_Event\<lparr>ev_ID := ''e'', ev_ObservedAt := t, ev_Kind := EventInterfaceDelta,
     ev_Direction := DirectionInbound, ev_Bytes := n, ev_Interface := ''eth0''\<rparr>"

definition demo_queued :: "string \<Rightarrow> int64 \<Rightarrow> Batch" where
  "demo_queued i n = \<lparr>ba_SchemaVersion = 1, ba_BatchID = i, ba_NodeID = ''n'', ba_SentAt = 7,
     ba_Events = [demo_event_at (minute + 5) n, demo_event_at (minute + 6) n], ba_CompactedBatchIDs = []\<rparr>"

definition demo_spool_env :: spool_env where
  "demo_spool_env = \<lparr>env_now = 63000000000 * 1000000000, env_encode = (\<lambda>b. if ba_BatchID b = ''a'' then [1] else [2]),
     env_decode = (\<lambda>bs. if bs = [1] then Some (demo_queued ''a'' 10) else if bs = [2] then Some (demo_queued ''b'' 20) else None),
     env_sha = (\<lambda>n s. s), env_float = (\<lambda>x. x), env_fails = (\<lambda>op. False)\<rparr>"

definition demo_spool :: Spool where
  "demo_spool = \<lparr>sp_dir = ''/q'', sp_maxBytes = 100, sp_maxAge = 1000\<rparr>"

lemma demo_queued_valid: "i \<noteq> [] \<Longrightarrow> length i \<le> 128 \<Longrightarrow> 0 \<le> sint n \<Longrightarrow> Validate (demo_queued i n) = None"
  by (simp add: Validate_def demo_queued_def demo_event_at_def zero_Event_def id_ok_def IsZero_def event_validate_def
      kind_validate_def nonHealthPayloadCount_def trafficPayloadCount_def direction_valid_def word_sless_alt)

text \<open>C11. Refinement: without I/O failures the directory is a first-in first-out queue. Peeking returns the oldest batch,
  acknowledging it removes exactly that, and enqueueing a valid batch later than the files in the directory, none of
  them expired and with room for it, appends it, so that batches leave in the order they came; the file names alone
  carry that order.\<close>

theorem spool_fifo:
  assumes "no_faults env" "clean env d" "Validate b = None" "env_decode env (env_encode env b) = Some b"
    and named: "\<forall>(name, f) \<in> set d. suffix json_gz name \<longrightarrow>
      (\<exists>i t. name = batchFileName env i t \<and> 0 \<le> UnixNano t \<and> UnixNano t < UnixNano (env_now env))"
    and "0 \<le> sp_maxAge s" "\<forall>(name, f) \<in> set (queue_files d). \<not> expired env s f"
      "total_size (queue_files d) + int (length (env_encode env b)) \<le> sp_maxBytes s"
  shows "(\<exists>d' report. Enqueue env s d b = (d', Inr report) \<and> dr_DroppedBatches report = 0 \<and> clean env d' \<and>
      queued env d' = queued env d @ [b]) \<and>
    (case queued env d of
       [] \<Rightarrow> Peek env s d = Inr None
     | c # cs \<Rightarrow> \<exists>item d'. Peek env s d = Inr (Some item) \<and> it_Batch item = c \<and> Ack env s d item = (d', None) \<and>
         clean env d' \<and> queued env d' = cs)"
proof
  have later: "\<forall>(name, f) \<in> set d. suffix json_gz name \<longrightarrow> name < batchFileName env (ba_BatchID b) (env_now env)"
    using named batchFileName_less by fastforce
  note appended = Enqueue_appends [OF assms(1-4) later assms(6-8)]
  show "\<exists>d' report. Enqueue env s d b = (d', Inr report) \<and> dr_DroppedBatches report = 0 \<and> clean env d' \<and>
      queued env d' = queued env d @ [b]"
    using appended by (auto simp: zero_report_def)
  show "case queued env d of
       [] \<Rightarrow> Peek env s d = Inr None
     | c # cs \<Rightarrow> \<exists>item d'. Peek env s d = Inr (Some item) \<and> it_Batch item = c \<and> Ack env s d item = (d', None) \<and>
         clean env d' \<and> queued env d' = cs"
    using Peek_empty [OF assms(1)] Peek_oldest [OF assms(1,2)] by (fastforce split: list.split)
qed

theorem spool_fifo_witness:
  "\<exists>d' report. Enqueue demo_spool_env demo_spool [] (demo_queued ''a'' 10) = (d', Inr report) \<and> dr_DroppedBatches report = 0 \<and>
     clean demo_spool_env d' \<and> queued demo_spool_env d' = [demo_queued ''a'' 10]"
  using spool_fifo [of demo_spool_env "[]" "demo_queued ''a'' 10" demo_spool] demo_queued_valid [of "''a''" 10]
  by (simp add: demo_spool_env_def demo_spool_def clean_def queue_files_def total_size_def queued_def demo_queued_def)

text \<open>C18. Eviction is exact: the loop that frees space always ends, keeps the files in order and at least one of them, removes
  from the directory exactly the files it takes off the list, never a summary, a batch of interface counters or a
  health report, and counts the batches and events it drops; when it stops, either one file is left or no file
  left is both unprotected and expired or in excess.\<close>

theorem eviction_exact:
  assumes "prune_loop env s d (total_size fs) fs zero_report = (d', Inr (fs', rest, report))" "distinct (map fst fs)"
  shows "evicts env s d fs zero_report d' fs' rest report"
  using prune_loop_evicts [OF assms(1,2)] by simp

definition demo_old :: sfile where
  "demo_old = \<lparr>f_ModTime = 0, f_Data = [9]\<rparr>"

definition demo_named :: Batch where
  "demo_named = (demo_queued ''c'' 1)\<lparr>ba_Events := [zero_Event\<lparr>ev_Kind := EventNameEvidence\<rparr>]\<rparr>"

theorem eviction_exact_witness:
  "evicts (demo_spool_env\<lparr>env_decode := \<lambda>_. Some demo_named\<rparr>) demo_spool [(''x'', demo_old), (''y'', demo_old)]
     [(''x'', demo_old), (''y'', demo_old)] zero_report [(''y'', demo_old)] [(''y'', demo_old)] 1
     (zero_report\<lparr>dr_Code := ''data_gap'', dr_DroppedBatches := 1, dr_DroppedEvents := 1\<rparr>)"
proof (rule eviction_exact)
  let ?env = "demo_spool_env\<lparr>env_decode := \<lambda>_. Some demo_named\<rparr>"
  have "\<not> protectedBatch demo_named"
    by (simp add: protectedBatch_def is_summary_def interfaceOnly_def demo_named_def demo_queued_def zero_Event_def kind_defs)
  then have "candidate ?env demo_spool [(''x'', demo_old), (''y'', demo_old)] 2 0 [(''x'', demo_old), (''y'', demo_old)] = Inr (Some 0)"
    by (simp add: readBatch_def demo_spool_env_def expired_def demo_spool_def demo_old_def)
  then show "prune_loop ?env demo_spool [(''x'', demo_old), (''y'', demo_old)]
      (total_size [(''x'', demo_old), (''y'', demo_old)]) [(''x'', demo_old), (''y'', demo_old)] zero_report =
    ([(''y'', demo_old)], Inr ([(''y'', demo_old)], 1,
      zero_report\<lparr>dr_Code := ''data_gap'', dr_DroppedBatches := 1, dr_DroppedEvents := 1\<rparr>))"
    by (simp add: prune_loop.simps total_size_def readBatch_def demo_spool_env_def demo_old_def drop_nth_def demo_named_def zero_report_def)
qed simp

end
