(* ===== verification/Compaction.thy ===== *)
theory Compaction
  imports Spool
begin

text \<open>
  What the compaction pass of the spool keeps. The traffic that a directory accounts for a node and a minute is what
  the summary file of that minute holds plus what the other batches hold that the summary does not name. A pass may
  stop after any of its file operations, and the next pass reads the files that are there: the accounted traffic
  stays what it was. The operations are those of the theory \<open>Spool\<close>.
\<close>

subsection \<open>The traffic of a directory\<close>

definition summary_name :: "spool_env \<Rightarrow> string \<times> go_time \<Rightarrow> string" where
  "summary_name env k = batchFileName env (minuteSummaryBatchID env (fst k) (snd k)) (snd k)"

definition file_batch :: "spool_env \<Rightarrow> sdir \<Rightarrow> string \<Rightarrow> Batch option" where
  "file_batch env d name = (case map_of d name of None \<Rightarrow> None | Some f \<Rightarrow> env_decode env (f_Data f))"

definition stored_summary :: "spool_env \<Rightarrow> sdir \<Rightarrow> string \<times> go_time \<Rightarrow> Batch" where
  "stored_summary env d k =
     (case file_batch env d (summary_name env k) of Some b \<Rightarrow> b | None \<Rightarrow> new_summary env (fst k) (snd k))"

definition raw_batches :: "spool_env \<Rightarrow> sdir \<Rightarrow> Batch set" where
  "raw_batches env d = {b. \<not> is_summary b \<and> (\<exists>name. suffix json_gz name \<and> file_batch env d name = Some b)}"

abbreviation about_key :: "string \<times> go_time \<Rightarrow> Batch \<Rightarrow> bool" where
  "about_key k \<equiv> concerns (fst k) (snd k)"

text \<open>The bytes or packets of an interface and a direction that the summary of a node and minute holds, plus those of
  the batches the summary does not name, each counted once, capped at the largest signed number.\<close>

definition accounted :: "spool_env \<Rightarrow> sdir \<Rightarrow> string \<times> go_time \<Rightarrow> (Event \<Rightarrow> int64) \<Rightarrow> string \<Rightarrow> string \<Rightarrow> int" where
  "accounted env d k amount i dir =
     min max_int (entry amount i dir (ba_Events (stored_summary env d k)) +
       (\<Sum>b \<in> {b \<in> raw_batches env d. about_key k b \<and> ba_BatchID b \<notin> set (ba_CompactedBatchIDs (stored_summary env d k))}.
          amount_sum amount i dir (events_at (snd k) b)))"

text \<open>A directory as the agent leaves it, for a set of nodes and minutes whose summary files have different names:
  a summary is stored under its own name and holds events of its minute only; any other batch is stored under a name
  that comes after those of the summaries of its minutes (it was queued after the events were observed); batches of the
  same identifier are copies; no counter is negative.\<close>

definition batch_keys :: "Batch \<Rightarrow> (string \<times> go_time) set" where
  "batch_keys b = (\<lambda>ev. (ba_NodeID b, truncate_minute (ev_ObservedAt ev))) ` set (ba_Events b)"

definition summary_for :: "spool_env \<Rightarrow> string \<times> go_time \<Rightarrow> Batch \<Rightarrow> bool" where
  "summary_for env k b \<longleftrightarrow> ba_BatchID b = minuteSummaryBatchID env (fst k) (snd k) \<and> ba_Events b \<noteq> [] \<and> batch_keys b = {k}"

definition stored_well :: "spool_env \<Rightarrow> (string \<times> go_time) set \<Rightarrow> string \<Rightarrow> Batch \<Rightarrow> bool" where
  "stored_well env K name b \<longleftrightarrow> nonneg_events (ba_Events b) \<and> batch_keys b \<subseteq> K \<and>
     (if is_summary b then \<exists>k \<in> K. summary_for env k b \<and> name = summary_name env k
      else (\<forall>k \<in> K. name \<noteq> summary_name env k) \<and> (\<forall>k \<in> batch_keys b. summary_name env k < name))"

definition spool_wf :: "spool_env \<Rightarrow> (string \<times> go_time) set \<Rightarrow> sdir \<Rightarrow> bool" where
  "spool_wf env K d \<longleftrightarrow> distinct (map fst d) \<and> inj_on (summary_name env) K \<and> inj_on ba_BatchID (raw_batches env d) \<and>
     (\<forall>name b. suffix json_gz name \<longrightarrow> file_batch env d name = Some b \<longrightarrow> stored_well env K name b)"

text \<open>The summaries that a pass writes, and the directories that passes lead to: each pass has its own time and its
  own failing operations, so that it may stop anywhere, and what it writes can be read back.\<close>

definition pass_summaries :: "spool_env \<Rightarrow> Spool \<Rightarrow> sdir \<Rightarrow> sdir \<Rightarrow> summaries" where
  "pass_summaries env s fs d = (case compact_files env s d fs [] [] of Inl e \<Rightarrow> [] | Inr (S, remove) \<Rightarrow> S)"

inductive compacts :: "spool_env \<Rightarrow> Spool \<Rightarrow> sdir \<Rightarrow> sdir \<Rightarrow> bool" for env s d where
  compacts_none: "compacts env s d d"
| compacts_pass: "compacts env s d d1 \<Longrightarrow> env' = env\<lparr>env_now := now, env_fails := fails\<rparr> \<Longrightarrow>
    spool_files env' d1 = Inr fs \<Longrightarrow> compactExpiredInterfaces env' s fs d1 = (d2, r) \<Longrightarrow>
    \<forall>(k, b) \<in> set (pass_summaries env' s fs d1). env_decode env (env_encode env b) = Some b \<Longrightarrow> compacts env s d d2"

subsection \<open>The pass over the files\<close>

definition mergeable :: "spool_env \<Rightarrow> Spool \<Rightarrow> sdir \<Rightarrow> sdir \<Rightarrow> (string \<times> Batch) list" where
  "mergeable env s d fs =
     List.map_filter (\<lambda>(name, f). case readBatch env d name of
        Inl e \<Rightarrow> None | Inr b \<Rightarrow> if \<not> is_summary b \<and> expired env s f \<and> interfaceOnly b then Some (name, b) else None) fs"

lemma mergeable_simps [simp]:
  "mergeable env s d [] = []"
  "mergeable env s d ((name, f) # fs) = (case readBatch env d name of Inl e \<Rightarrow> mergeable env s d fs
     | Inr b \<Rightarrow> if \<not> is_summary b \<and> expired env s f \<and> interfaceOnly b then (name, b) # mergeable env s d fs else mergeable env s d fs)"
  by (simp_all add: mergeable_def map_filter_simps split: sum.split)

lemma mergeable_append: "mergeable env s d (xs @ ys) = mergeable env s d xs @ mergeable env s d ys"
proof (induction xs)
  case (Cons nf xs)
  then show ?case by (cases nf) (simp split: sum.split)
qed simp

lemma mergeable_mem:
  "(name, b) \<in> set (mergeable env s d fs) \<Longrightarrow> name \<in> fst ` set fs \<and> readBatch env d name = Inr b \<and> \<not> is_summary b"
  by (induction fs) (auto split: sum.splits if_splits)

lemma readBatch_file: "readBatch env d name = Inr b \<Longrightarrow> file_batch env d name = Some b"
  by (auto simp: readBatch_def file_batch_def split: if_splits option.splits)

lemma compact_files_append:
  "compact_files env s d (xs @ ys) S r = andThen (compact_files env s d xs S r) (\<lambda>(S1, r1). compact_files env s d ys S1 r1)"
proof (induction env s d xs S r rule: compact_files.induct)
  case (2 env s d name f fs S remove)
  then show ?case by (cases "readBatch env d name") auto
qed simp

lemma compact_files_removed:
  "compact_files env s d fs S r = Inr (S', r') \<Longrightarrow> r' = r @ map fst (mergeable env s d fs)"
proof (induction env s d fs S r rule: compact_files.induct)
  case (2 env s d name f fs S remove)
  then show ?case by (cases "readBatch env d name") (auto split: if_splits)
qed simp

lemma compact_files_read: "compact_files env s d fs S r = Inr (S', r') \<Longrightarrow> nf \<in> set fs \<Longrightarrow> \<exists>b. readBatch env d (fst nf) = Inr b"
proof (induction env s d fs S r rule: compact_files.induct)
  case (2 env s d name f fs S remove)
  then show ?case by (cases "readBatch env d name") (auto split: if_splits)
qed simp

text \<open>While no summary of a key is read, its summary takes up the batches that concern it.\<close>

definition no_summary :: "spool_env \<Rightarrow> sdir \<Rightarrow> string \<times> go_time \<Rightarrow> string \<Rightarrow> bool" where
  "no_summary env d k name \<longleftrightarrow> (\<forall>b. readBatch env d name = Inr b \<longrightarrow> is_summary b \<longrightarrow> ba_Events b \<noteq> [] \<longrightarrow> k \<notin> batch_keys b)"

lemma first_key: "ba_Events b \<noteq> [] \<Longrightarrow> (ba_NodeID b, truncate_minute (ev_ObservedAt (hd (ba_Events b)))) \<in> batch_keys b"
  by (auto simp: batch_keys_def)

lemma pass_absorbs:
  "compact_files env s d fs S r = Inr (S', r') \<Longrightarrow> \<forall>nf \<in> set fs. no_summary env d k (fst nf) \<Longrightarrow>
   summary_of env S' (fst k) (snd k) =
     fold (absorb env (snd k)) (filter (about_key k) (map snd (mergeable env s d fs))) (summary_of env S (fst k) (snd k))"
proof (induction env s d fs S r rule: compact_files.induct)
  case (2 env s d name f fs S remove)
  then obtain b where b: "readBatch env d name = Inr b" by (cases "readBatch env d name") auto
  let ?k = "(ba_NodeID b, truncate_minute (ev_ObservedAt (hd (ba_Events b))))"
  have other: "is_summary b \<Longrightarrow> ba_Events b \<noteq> [] \<Longrightarrow> ?k \<noteq> (fst k, snd k)"
    using 2(5) b first_key [of b] by (fastforce simp: no_summary_def)
  then have keep: "summary_of env (if ba_Events b = [] then S else AList.update ?k b S) (fst k) (snd k) = summary_of env S (fst k) (snd k)"
    if "is_summary b"
    using that by (auto simp: summary_of_def update_conv')
  show ?case
  proof (cases "is_summary b")
    case True
    then show ?thesis using 2(1) [of b] 2(4,5) b keep by simp
  next
    case False
    then show ?thesis
      using 2(2,3) [of b] 2(4,5) b by (cases "expired env s f \<and> interfaceOnly b") (auto simp: summary_of_batch)
  qed
qed simp

text \<open>What every summary of the pass satisfies: it has its name and its minute, and no negative counter.\<close>

definition summaries_ok :: "spool_env \<Rightarrow> (string \<times> go_time) set \<Rightarrow> summaries \<Rightarrow> bool" where
  "summaries_ok env K S \<longleftrightarrow> distinct (map fst S) \<and>
     (\<forall>k b. map_of S k = Some b \<longrightarrow> k \<in> K \<and> summary_for env k b \<and> nonneg_events (ba_Events b))"

lemma summaries_ok_update:
  "summaries_ok env K S \<Longrightarrow> k \<in> K \<Longrightarrow> summary_for env k b \<Longrightarrow> nonneg_events (ba_Events b) \<Longrightarrow> summaries_ok env K (AList.update k b S)"
  by (simp add: summaries_ok_def update_conv' distinct_update)

lemma truncate_minute_idem [simp]: "truncate_minute (truncate_minute t) = truncate_minute t"
  by (simp add: truncate_minute_def minus_mod_eq_mult_div)

lemma merge_keys:
  "truncate_minute m = m \<Longrightarrow> (\<lambda>ev. truncate_minute (ev_ObservedAt ev)) ` set (mergeInterfaceEvent env evs e m) \<subseteq>
     insert m ((\<lambda>ev. truncate_minute (ev_ObservedAt ev)) ` set evs) \<and> mergeInterfaceEvent env evs e m \<noteq> []"
  by (induction evs) auto

lemma merge_all_keys:
  assumes "truncate_minute m = m"
  shows "(\<lambda>ev. truncate_minute (ev_ObservedAt ev)) ` set (foldl (\<lambda>evs ev. mergeInterfaceEvent env evs ev m) evs es) \<subseteq>
     insert m ((\<lambda>ev. truncate_minute (ev_ObservedAt ev)) ` set evs) \<and>
   (evs \<noteq> [] \<or> es \<noteq> [] \<longrightarrow> foldl (\<lambda>evs ev. mergeInterfaceEvent env evs ev m) evs es \<noteq> [])"
proof (induction es arbitrary: evs)
  case (Cons e es)
  let ?evs = "mergeInterfaceEvent env evs e m" let ?minutes = "\<lambda>evs. (\<lambda>ev. truncate_minute (ev_ObservedAt ev)) ` set evs"
  have "?minutes ?evs \<subseteq> insert m (?minutes evs)" "?evs \<noteq> []" using merge_keys [OF assms] by blast+
  moreover have "?minutes (foldl (\<lambda>evs ev. mergeInterfaceEvent env evs ev m) ?evs es) \<subseteq> insert m (?minutes ?evs)"
    "?evs \<noteq> [] \<longrightarrow> foldl (\<lambda>evs ev. mergeInterfaceEvent env evs ev m) ?evs es \<noteq> []"
    using Cons [of ?evs] by blast+
  ultimately show ?case unfolding foldl_Cons by blast
qed auto

lemma summary_for_keys:
  "summary_for env k b \<longleftrightarrow> ba_BatchID b = minuteSummaryBatchID env (fst k) (snd k) \<and> ba_Events b \<noteq> [] \<and> ba_NodeID b = fst k \<and>
     (\<lambda>ev. truncate_minute (ev_ObservedAt ev)) ` set (ba_Events b) \<subseteq> {snd k}"
proof -
  have "batch_keys b = {k} \<longleftrightarrow> ba_NodeID b = fst k \<and> (\<lambda>ev. truncate_minute (ev_ObservedAt ev)) ` set (ba_Events b) \<subseteq> {snd k}"
    if ne: "ba_Events b \<noteq> []"
  proof -
    obtain e es where "ba_Events b = e # es" using ne by (cases "ba_Events b") auto
    then show ?thesis by (cases k) (auto simp: batch_keys_def)
  qed
  then show ?thesis by (auto simp: summary_for_def)
qed

lemma nonneg_merge_all:
  "nonneg_events evs \<Longrightarrow> nonneg_events es \<Longrightarrow> nonneg_events (foldl (\<lambda>evs ev. mergeInterfaceEvent env evs ev m) evs es)"
  by (induction es arbitrary: evs) (simp_all add: nonneg_merge)

lemma summaries_ok_minute:
  assumes "summaries_ok env K S" "nonneg_events (ba_Events b)" "m \<in> set (batch_minutes b)" "(ba_NodeID b, m) \<in> K"
  shows "summaries_ok env K (compact_minute env b m S)"
proof -
  let ?s = "summary_of env S (ba_NodeID b) m"
  have m: "truncate_minute m = m" "events_at m b \<noteq> []"
    using assms(3) by (auto simp: batch_minutes_def events_at_def filter_empty_conv)
  have nonneg: "nonneg_events (events_at m b)" using assms(2) by (auto simp: events_at_def list_all_iff)
  have s: "ba_BatchID ?s = minuteSummaryBatchID env (ba_NodeID b) m \<and> ba_NodeID ?s = ba_NodeID b \<and> nonneg_events (ba_Events ?s) \<and>
      (\<lambda>ev. truncate_minute (ev_ObservedAt ev)) ` set (ba_Events ?s) \<subseteq> {m}"
    using assms(1) by (auto simp: summary_of_def summaries_ok_def summary_for_keys new_summary_def split: option.split)
  have "summary_for env (ba_NodeID b, m) (?s\<lparr>ba_Events := foldl (\<lambda>evs ev. mergeInterfaceEvent env evs ev m) (ba_Events ?s) (events_at m b),
      ba_CompactedBatchIDs := sort (ba_CompactedBatchIDs ?s @ [ba_BatchID b])\<rparr>)"
    using s m(2) merge_all_keys [OF m(1), of env "ba_Events ?s" "events_at m b"] by (auto simp: summary_for_keys)
  then show ?thesis
    using assms(1,4) s nonneg nonneg_merge_all by (auto simp: compact_minute_def Let_def intro!: summaries_ok_update)
qed

lemma summaries_ok_batch:
  assumes "summaries_ok env K S" "nonneg_events (ba_Events b)" "batch_keys b \<subseteq> K"
  shows "summaries_ok env K (compact_batch env b S)"
proof -
  have "summaries_ok env K (fold (compact_minute env b) ms S)" if "set ms \<subseteq> set (batch_minutes b)" for ms
    using that assms(1)
  proof (induction ms arbitrary: S)
    case (Cons m ms)
    then have "(ba_NodeID b, m) \<in> batch_keys b" by (auto simp: batch_minutes_def batch_keys_def)
    then show ?case using Cons assms(2,3) by (auto intro!: Cons.IH summaries_ok_minute)
  qed simp
  then show ?thesis by (simp add: compact_batch_def)
qed

lemma summary_key:
  "stored_well env K name b \<Longrightarrow> is_summary b \<Longrightarrow> ba_Events b \<noteq> [] \<Longrightarrow>
   summary_for env (ba_NodeID b, truncate_minute (ev_ObservedAt (hd (ba_Events b)))) b"
  using first_key [of b] by (auto simp: stored_well_def summary_for_def)

lemma summaries_ok_pass:
  "compact_files env s d fs S r = Inr (S', r') \<Longrightarrow> summaries_ok env K S \<Longrightarrow>
   \<forall>nf \<in> set fs. \<forall>b. readBatch env d (fst nf) = Inr b \<longrightarrow> stored_well env K (fst nf) b \<Longrightarrow> summaries_ok env K S'"
proof (induction env s d fs S r rule: compact_files.induct)
  case (2 env s d name f fs S remove)
  then obtain b where b: "readBatch env d name = Inr b" by (cases "readBatch env d name") auto
  let ?k = "(ba_NodeID b, truncate_minute (ev_ObservedAt (hd (ba_Events b))))"
  have well: "nonneg_events (ba_Events b)" "batch_keys b \<subseteq> K" "stored_well env K name b" using 2(6) b by (auto simp: stored_well_def)
  have read: "summaries_ok env K (if ba_Events b = [] then S else AList.update ?k b S)" if "is_summary b"
    using that 2(5) well first_key [of b] summary_key [OF well(3)] by (auto intro: summaries_ok_update)
  show ?case
  proof (cases "is_summary b")
    case True
    then show ?thesis using 2(1) [of b] 2(4,6) b read by simp
  next
    case False
    then show ?thesis
      using 2(2,3) [of b] 2(4-6) b summaries_ok_batch [OF _ well(1,2)]
      by (cases "expired env s f \<and> interfaceOnly b") auto
  qed
qed simp

text \<open>The summary the pass ends with: the stored one, with the mergeable batches taken up.\<close>

lemma about_key_iff: "about_key k b \<longleftrightarrow> k \<in> batch_keys b"
  by (cases k) (auto simp: concerns_def batch_minutes_def batch_keys_def)

lemma summary_for_is_summary: "summary_for env k b \<Longrightarrow> is_summary b"
  by (simp add: summary_for_def is_summary_def minuteSummaryBatchID_def)

lemma wf_stored: "spool_wf env K d \<Longrightarrow> suffix json_gz name \<Longrightarrow> file_batch env d name = Some b \<Longrightarrow> stored_well env K name b"
  by (simp add: spool_wf_def)

lemma summary_name_suffix [simp]: "suffix json_gz (summary_name env k)"
  by (simp add: summary_name_def batchFileName_def suffix_def)

lemma wf_summary:
  assumes "spool_wf env K d" "k \<in> K" "file_batch env d (summary_name env k) = Some b"
  shows "summary_for env k b"
proof -
  have well: "stored_well env K (summary_name env k) b" using wf_stored [OF assms(1) _ assms(3)] by simp
  then have "is_summary b" using assms(2) by (auto simp: stored_well_def split: if_splits)
  then obtain k' where k': "k' \<in> K" "summary_for env k' b" "summary_name env k = summary_name env k'"
    using well by (auto simp: stored_well_def)
  moreover have "k = k'" using assms(1,2) k' by (auto simp: spool_wf_def dest: inj_onD)
  ultimately show ?thesis by simp
qed

lemma wf_no_summary:
  assumes "spool_wf env K d" "suffix json_gz name" "name \<noteq> summary_name env k \<or> file_batch env d name = None"
  shows "no_summary env d k name"
  unfolding no_summary_def
proof (intro allI impI notI)
  fix b
  assume b: "readBatch env d name = Inr b" "is_summary b" "k \<in> batch_keys b"
  note got = readBatch_file [OF b(1)]
  then obtain k' where "summary_for env k' b" "name = summary_name env k'"
    using wf_stored [OF assms(1,2) got] b(2) by (auto simp: stored_well_def)
  then show False using b(3) assms(3) got by (auto simp: summary_for_def)
qed

lemma spool_files_list:
  assumes "spool_files env d = Inr fs" "spool_wf env K d"
  shows "sorted (map fst fs) \<and> distinct (map fst fs) \<and> set fs = {nf \<in> set d. suffix json_gz (fst nf)}"
proof -
  have fs: "fs = sort_key fst (filter (\<lambda>nf. suffix json_gz (fst nf)) d)"
    using assms(1) by (auto simp: spool_files_def case_prod_unfold split: if_splits)
  have "distinct d" "inj_on fst (set d)" using assms(2) by (simp_all add: spool_wf_def distinct_map)
  then have "distinct (map fst fs)" by (auto simp: fs distinct_map intro: inj_on_subset)
  then show ?thesis by (auto simp: fs)
qed

lemma pass_summary:
  assumes wf: "spool_wf env K d" and k: "k \<in> K" and fs: "spool_files env d = Inr fs" and pass: "compact_files env s d fs [] [] = Inr (S, r)"
  shows "summary_of env S (fst k) (snd k) =
    fold (absorb env (snd k)) (filter (about_key k) (map snd (mergeable env s d fs))) (stored_summary env d k)"
proof (cases "file_batch env d (summary_name env k)")
  case None
  have "\<forall>nf \<in> set fs. no_summary env d k (fst nf)"
    using spool_files_list [OF fs wf] None by (auto intro!: wf_no_summary [OF wf])
  then show ?thesis using pass_absorbs [OF pass] None by (simp add: stored_summary_def summary_of_def)
next
  case (Some b)
  let ?n = "summary_name env k"
  note list = spool_files_list [OF fs wf]
  obtain f where "map_of d ?n = Some f" using Some by (auto simp: file_batch_def split: option.splits)
  then have mem: "(?n, f) \<in> set fs" using list map_of_SomeD by force
  then obtain pre post where split: "fs = pre @ (?n, f) # post" by (meson split_list)
  have read: "readBatch env d ?n = Inr b"
    using compact_files_read [OF pass mem] readBatch_file Some by fastforce
  have sum: "summary_for env k b" by (rule wf_summary [OF wf k Some])
  have key: "(ba_NodeID b, truncate_minute (ev_ObservedAt (hd (ba_Events b)))) = k"
    using first_key [of b] sum by (simp add: summary_for_def)
  obtain S1 r1 where pre: "compact_files env s d pre [] [] = Inr (S1, r1)"
      and post: "compact_files env s d post (AList.update k b S1) r1 = Inr (S, r)"
    using pass sum summary_for_is_summary [OF sum]
    by (cases "compact_files env s d pre [] []") (auto simp: split compact_files_append read key summary_for_def)
  have before: "filter (about_key k) (map snd (mergeable env s d pre)) = []"
  proof (auto simp: filter_empty_conv about_key_iff)
    fix name b'
    assume m: "(name, b') \<in> set (mergeable env s d pre)" "k \<in> batch_keys b'"
    then have "name \<in> fst ` set pre" "file_batch env d name = Some b'" "\<not> is_summary b'"
      using mergeable_mem readBatch_file by blast+
    moreover have "suffix json_gz name" using calculation(1) list by (auto simp: split)
    moreover have "name \<le> ?n" using calculation(1) list by (auto simp: split sorted_append)
    ultimately show False using wf_stored [OF wf, of name b'] m(2) by (auto simp: stored_well_def)
  qed
  have "\<forall>nf \<in> set post. no_summary env d k (fst nf)"
  proof
    fix nf assume nf: "nf \<in> set post"
    have "?n \<notin> fst ` set post" using list by (simp add: split)
    then have "fst nf \<noteq> ?n" using nf by (metis imageI)
    moreover have "suffix json_gz (fst nf)" using nf list by (auto simp: split)
    ultimately show "no_summary env d k (fst nf)" by (auto intro!: wf_no_summary [OF wf])
  qed
  from pass_absorbs [OF post this] show ?thesis
    using Some before summary_for_is_summary [OF sum]
    by (simp add: stored_summary_def summary_of_def update_conv' split mergeable_append read)
qed

subsection \<open>The file operations of a pass\<close>

lemma file_batch_update [simp]:
  "file_batch env (AList.update name f d) = (file_batch env d)(name := env_decode env (f_Data f))"
  by (simp add: file_batch_def update_conv' fun_eq_iff)

lemma file_batch_delete [simp]: "file_batch env (AList.delete name d) = (file_batch env d)(name := None)"
  by (simp add: file_batch_def delete_conv' fun_eq_iff)

lemma publish_file:
  assumes "publish env name b t d = (d', r)" "distinct (map fst d)" "env_decode env (env_encode env b) = Some b"
  shows "distinct (map fst d') \<and> (\<forall>name'. name' \<noteq> name \<longrightarrow> file_batch env d' name' = file_batch env d name') \<and>
    (file_batch env d' name = file_batch env d name \<or> file_batch env d' name = Some b) \<and> (r = None \<longrightarrow> file_batch env d' name = Some b)"
  using assms
  by (auto simp: publish_def Let_def distinct_update split: option.splits if_splits)

lemma write_file:
  assumes "writeBatchFile env name b t d = (d', r)" "distinct (map fst d)" "env_decode env (env_encode env b) = Some b"
  shows "distinct (map fst d') \<and> (\<forall>name'. name' \<noteq> name \<longrightarrow> file_batch env d' name' = file_batch env d name') \<and>
    (file_batch env d' name = file_batch env d name \<or> file_batch env d' name = Some b) \<and> (r = None \<longrightarrow> file_batch env d' name = Some b)"
  using assms publish_file [OF _ assms(2,3)] by (auto simp: writeBatchFile_def split: option.splits)

lemma write_summaries_files:
  assumes "write_summaries env S d = (d', r)" "distinct (map fst d)" "distinct (map fst S)"
    and "\<And>k b. (k, b) \<in> set S \<Longrightarrow> env_decode env (env_encode env b) = Some b \<and> summary_for env k b \<and> k \<in> K" "inj_on (summary_name env) K"
  shows "distinct (map fst d') \<and>
    (\<forall>name. file_batch env d' name = file_batch env d name \<or>
       (\<exists>k b. (k, b) \<in> set S \<and> name = summary_name env k \<and> file_batch env d' name = Some b)) \<and>
    (r = None \<longrightarrow> (\<forall>k b. (k, b) \<in> set S \<longrightarrow> file_batch env d' (summary_name env k) = Some b))"
  using assms
proof (induction env S d arbitrary: d' r rule: write_summaries.induct)
  case (2 env node m b S d)
  let ?k = "(node, m)" let ?n = "summary_name env (node, m)"
  have b: "env_decode env (env_encode env b) = Some b" "batchFileName env (ba_BatchID b) m = ?n" "?k \<in> K"
    using 2(5) [of ?k b] by (auto simp: summary_for_def summary_name_def)
  obtain d1 r1 where w: "writeBatchFile env ?n b m d = (d1, r1)" by fastforce
  note one = write_file [OF w 2(3) b(1)]
  show ?case
  proof (cases r1)
    case (Some e)
    then have "d' = d1" "r = Some e" using 2(2) w b(2) by simp_all
    then show ?thesis using one by (simp, metis)
  next
    case None
    have rest: "write_summaries env S d1 = (d', r)" using 2(2) w b(2) None by simp
    have other: "?n \<noteq> summary_name env k'" if "(k', b') \<in> set S" for k' b'
    proof
      assume "?n = summary_name env k'"
      then have "?k = k'" using 2(5) [of k' b'] that b(3) inj_onD [OF 2(6)] by auto
      then show False using 2(4) that by force
    qed
    have ih: "distinct (map fst d') \<and>
      (\<forall>name. file_batch env d' name = file_batch env d1 name \<or>
         (\<exists>k b. (k, b) \<in> set S \<and> name = summary_name env k \<and> file_batch env d' name = Some b)) \<and>
      (r = None \<longrightarrow> (\<forall>k b. (k, b) \<in> set S \<longrightarrow> file_batch env d' (summary_name env k) = Some b))"
    proof (rule 2(1) [OF _ _ rest])
      show "(d1, None) = writeBatchFile env (batchFileName env (ba_BatchID b) m) b m d" using w b(2) None by simp
    qed (use one 2(4-6) in auto)
    have "file_batch env d' ?n = Some b" using ih one None other by metis
    then show ?thesis using ih one by (simp, metis)
  qed
qed simp

lemma remove_files_files:
  "remove_files env names d = (d', r) \<Longrightarrow> distinct (map fst d) \<Longrightarrow>
   distinct (map fst d') \<and> (\<forall>name. file_batch env d' name = file_batch env d name \<or> name \<in> set names \<and> file_batch env d' name = None)"
proof (induction env names d rule: remove_files.induct)
  case (2 env name names d)
  then show ?case by (auto simp: distinct_delete split: if_splits)
qed simp

subsection \<open>The accounted traffic stays\<close>

lemma amount_sum_nonneg:
  "nonneg_events (ba_Events b) \<Longrightarrow> amount \<in> {ev_Bytes, ev_Packets} \<Longrightarrow> 0 \<le> amount_sum amount i d (events_at m b)"
  by (auto simp: amount_sum_def events_at_def list_all_iff nonneg_event_def intro!: sum_list_nonneg)

lemma absorb_nonneg:
  "nonneg_events (ba_Events summary) \<Longrightarrow> \<forall>b \<in> set bs. nonneg_events (ba_Events b) \<Longrightarrow>
   nonneg_events (ba_Events (fold (absorb env m) bs summary))"
proof (induction bs arbitrary: summary)
  case (Cons b bs)
  have "nonneg_events (events_at m b)" using Cons.prems(2) by (auto simp: events_at_def list_all_iff)
  then have "nonneg_events (ba_Events (absorb env m b summary))"
    using Cons.prems(1) nonneg_merge_all by (simp add: absorb_def)
  then show ?case using Cons by simp
qed simp

text \<open>Copies of a batch are taken up once.\<close>

lemma absorb_set_exact:
  assumes "inj_on ba_BatchID (set bs)" "nonneg_events (ba_Events summary)" "\<forall>b \<in> set bs. nonneg_events (ba_Events b)"
    "amount \<in> {ev_Bytes, ev_Packets}"
  shows "entry amount i d (ba_Events (fold (absorb env m) bs summary)) =
      min max_int (entry amount i d (ba_Events summary) +
        (\<Sum>b \<in> {b \<in> set bs. ba_BatchID b \<notin> set (ba_CompactedBatchIDs summary)}. amount_sum amount i d (events_at m b)))"
  using assms
proof (induction bs arbitrary: summary)
  case Nil
  then show ?case using entry_le [of amount i d "ba_Events summary"] by simp
next
  case (Cons b bs)
  let ?s = "absorb env m b summary" let ?C = "set (ba_CompactedBatchIDs summary)"
  let ?sum = "\<lambda>A. \<Sum>b \<in> A. amount_sum amount i d (events_at m b)"
  have ih: "entry amount i d (ba_Events (fold (absorb env m) bs ?s)) = min max_int (entry amount i d (ba_Events ?s) +
      ?sum {b' \<in> set bs. ba_BatchID b' \<notin> set (ba_CompactedBatchIDs ?s)})"
    using Cons absorb_nonneg [of summary "[b]" env m] by (intro Cons.IH) auto
  show ?case
  proof (cases "ba_BatchID b \<in> ?C")
    case True
    then have "{b' \<in> set (b # bs). ba_BatchID b' \<notin> ?C} = {b' \<in> set bs. ba_BatchID b' \<notin> ?C}" "?s = summary"
      by (auto simp: absorb_def)
    then show ?thesis using ih by simp
  next
    case False
    let ?R = "{b' \<in> set bs. ba_BatchID b' \<notin> insert (ba_BatchID b) ?C}"
    have nonneg: "nonneg_events (events_at m b)" using Cons.prems(3) by (auto simp: events_at_def list_all_iff)
    have am: "amount = ev_Bytes \<or> amount = ev_Packets" using Cons.prems(4) by simp
    have events: "ba_Events ?s = foldl (\<lambda>evs ev. mergeInterfaceEvent env evs ev m) (ba_Events summary) (events_at m b)"
      using False by (simp add: absorb_def)
    have "entry amount i d (ba_Events ?s) = min max_int (entry amount i d (ba_Events summary) + amount_sum amount i d (events_at m b))"
      using merge_all_exact [OF Cons.prems(2) nonneg am entry_le, where env = env and m = m, folded events] by blast
    moreover have "{b' \<in> set (b # bs). ba_BatchID b' \<notin> ?C} = insert b ?R" "b \<notin> ?R"
      using Cons.prems(1) False by (auto simp: inj_on_def)
    moreover have "0 \<le> ?sum ?R" using Cons.prems(3,4) by (intro sum_nonneg) (auto intro: amount_sum_nonneg)
    ultimately show ?thesis using ih absorb_ids [of env m b summary] by (simp del: fold.simps) (simp add: min_def)
  qed
qed

lemma finite_raw [simp]: "finite (raw_batches env d)"
proof (rule finite_subset)
  show "raw_batches env d \<subseteq> (\<lambda>(name, f). the (env_decode env (f_Data f))) ` set d"
    by (force simp: raw_batches_def file_batch_def split: option.splits dest: map_of_SomeD)
qed simp

text \<open>What a pass may do to the files, whenever it stops: a summary is the old or the new one, and a batch is gone only
  when the summaries of all its minutes are the new ones.\<close>

definition taken_up :: "spool_env \<Rightarrow> (string \<times> Batch) list \<Rightarrow> sdir \<Rightarrow> string \<times> go_time \<Rightarrow> Batch" where
  "taken_up env M d k = fold (absorb env (snd k)) (filter (about_key k) (map snd M)) (stored_summary env d k)"

definition pass_effect :: "spool_env \<Rightarrow> (string \<times> go_time) set \<Rightarrow> (string \<times> Batch) list \<Rightarrow> sdir \<Rightarrow> sdir \<Rightarrow> bool" where
  "pass_effect env K M d d' \<longleftrightarrow> distinct (map fst d') \<and>
     (\<forall>name. file_batch env d' name = file_batch env d name \<or>
        (\<exists>k \<in> K. name = summary_name env k \<and> file_batch env d' name = Some (taken_up env M d k) \<and> summary_for env k (taken_up env M d k)) \<or>
        (\<exists>b. (name, b) \<in> set M \<and> file_batch env d' name = None \<and>
           (\<forall>k \<in> batch_keys b. file_batch env d' (summary_name env k) = Some (taken_up env M d k))))"

definition merges_raw :: "spool_env \<Rightarrow> sdir \<Rightarrow> (string \<times> Batch) list \<Rightarrow> bool" where
  "merges_raw env d M \<longleftrightarrow> (\<forall>(name, b) \<in> set M. suffix json_gz name \<and> file_batch env d name = Some b \<and> \<not> is_summary b)"

lemma merges_raw_set: "merges_raw env d M \<Longrightarrow> snd ` set M \<subseteq> raw_batches env d"
  by (fastforce simp: merges_raw_def raw_batches_def)

lemma wf_raw: "spool_wf env K d \<Longrightarrow> b \<in> raw_batches env d \<Longrightarrow> nonneg_events (ba_Events b) \<and> batch_keys b \<subseteq> K"
  using wf_stored by (fastforce simp: raw_batches_def stored_well_def)

lemma stored_nonneg: "spool_wf env K d \<Longrightarrow> nonneg_events (ba_Events (stored_summary env d k))"
  using wf_stored [of env K d "summary_name env k"]
  by (auto simp: stored_summary_def new_summary_def stored_well_def split: option.split)

lemma effect_raw_subset:
  assumes "pass_effect env K M d d'"
  shows "raw_batches env d' \<subseteq> raw_batches env d"
proof
  fix b
  assume "b \<in> raw_batches env d'"
  then obtain name where name: "\<not> is_summary b" "suffix json_gz name" "file_batch env d' name = Some b"
    by (auto simp: raw_batches_def)
  have "file_batch env d name = Some b"
    using assms name summary_for_is_summary unfolding pass_effect_def by (metis option.distinct(1) option.inject)
  then show "b \<in> raw_batches env d" using name by (auto simp: raw_batches_def)
qed

lemma effect_gone:
  assumes "pass_effect env K M d d'" "merges_raw env d M" "b \<in> raw_batches env d" "b \<notin> raw_batches env d'" "spool_wf env K d"
  shows "b \<in> snd ` set M \<and> (\<forall>k \<in> batch_keys b. file_batch env d' (summary_name env k) = Some (taken_up env M d k))"
proof -
  obtain name where name: "\<not> is_summary b" "suffix json_gz name" "file_batch env d name = Some b"
    using assms(3) by (auto simp: raw_batches_def)
  have "name \<noteq> summary_name env k" if "k \<in> K" for k
    using wf_stored [OF assms(5) name(2,3)] name(1) that by (auto simp: stored_well_def)
  moreover have "file_batch env d' name \<noteq> Some b" using assms(4) name by (auto simp: raw_batches_def)
  ultimately obtain b' where "(name, b') \<in> set M"
      "\<forall>k \<in> batch_keys b'. file_batch env d' (summary_name env k) = Some (taken_up env M d k)"
    using assms(1) name(3) unfolding pass_effect_def by metis
  moreover have "b' = b" using assms(2) name(3) calculation(1) by (auto simp: merges_raw_def)
  ultimately show ?thesis by force
qed

lemma taken_up_nonneg:
  assumes "spool_wf env K d" "merges_raw env d M"
  shows "nonneg_events (ba_Events (taken_up env M d k))"
  unfolding taken_up_def
  using stored_nonneg [OF assms(1)] wf_raw [OF assms(1)] merges_raw_set [OF assms(2)] by (intro absorb_nonneg) auto

lemma effect_wf:
  assumes wf: "spool_wf env K d" and raw: "merges_raw env d M" and eff: "pass_effect env K M d d'"
  shows "spool_wf env K d'"
  unfolding spool_wf_def
proof (intro conjI allI impI)
  show "distinct (map fst d')" using eff by (simp add: pass_effect_def)
  show "inj_on (summary_name env) K" using wf by (simp add: spool_wf_def)
  show "inj_on ba_BatchID (raw_batches env d')"
    using wf effect_raw_subset [OF eff] by (auto simp: spool_wf_def intro: inj_on_subset)
  fix name b
  assume b: "suffix json_gz name" "file_batch env d' name = Some b"
  have "file_batch env d name = Some b \<or> (\<exists>k \<in> K. name = summary_name env k \<and> b = taken_up env M d k \<and> summary_for env k b)"
    using eff b(2) unfolding pass_effect_def by (metis option.distinct(1) option.inject)
  then show "stored_well env K name b"
  proof
    assume "file_batch env d name = Some b"
    then show ?thesis using wf_stored [OF wf b(1)] by simp
  next
    assume "\<exists>k \<in> K. name = summary_name env k \<and> b = taken_up env M d k \<and> summary_for env k b"
    then obtain k where k: "k \<in> K" "name = summary_name env k" "b = taken_up env M d k" "summary_for env k b" by blast
    then show ?thesis
      using taken_up_nonneg [OF wf raw, of k] summary_for_is_summary [OF k(4)]
      by (auto simp: stored_well_def summary_for_def)
  qed
qed

lemma effect_accounted:
  assumes wf: "spool_wf env K d" and raw: "merges_raw env d M" and eff: "pass_effect env K M d d'" and k: "k \<in> K"
    and am: "amount \<in> {ev_Bytes, ev_Packets}"
  shows "accounted env d' k amount i dir = accounted env d k amount i dir"
proof (cases "file_batch env d' (summary_name env k) = Some (taken_up env M d k)")
  case True
  let ?X = "stored_summary env d k" let ?bs = "filter (about_key k) (map snd M)" let ?C = "set (ba_CompactedBatchIDs ?X)"
  let ?sum = "\<lambda>A. \<Sum>b \<in> A. amount_sum amount i dir (events_at (snd k) b)"
  let ?taken = "{b \<in> set ?bs. ba_BatchID b \<notin> ?C}"
  let ?rest = "{b \<in> raw_batches env d. about_key k b \<and> ba_BatchID b \<notin> ba_BatchID ` set ?bs \<union> ?C}"
  have sub: "set ?bs \<subseteq> raw_batches env d" using merges_raw_set [OF raw] by auto
  have inj: "inj_on ba_BatchID (raw_batches env d)" using wf by (simp add: spool_wf_def)
  have stored: "stored_summary env d' k = taken_up env M d k" using True by (simp add: stored_summary_def)
  have ids: "set (ba_CompactedBatchIDs (taken_up env M d k)) = ba_BatchID ` set ?bs \<union> ?C"
    by (simp add: taken_up_def absorb_all_ids)
  have ent: "entry amount i dir (ba_Events (taken_up env M d k)) = min max_int (entry amount i dir (ba_Events ?X) + ?sum ?taken)"
    unfolding taken_up_def
    using stored_nonneg [OF wf] wf_raw [OF wf] sub am
    by (intro absorb_set_exact inj_on_subset [OF inj sub]) auto
  have "{b \<in> raw_batches env d'. about_key k b \<and> ba_BatchID b \<notin> ba_BatchID ` set ?bs \<union> ?C} = ?rest"
    using effect_raw_subset [OF eff] effect_gone [OF eff raw _ _ wf] by (fastforce simp: about_key_iff)
  moreover have "{b \<in> raw_batches env d. about_key k b \<and> ba_BatchID b \<notin> ?C} = ?taken \<union> ?rest"
    using sub inj by (auto simp: inj_on_def)
  moreover have "?sum (?taken \<union> ?rest) = ?sum ?taken + ?sum ?rest"
    using sub by (intro sum.union_disjoint) (auto intro: finite_subset)
  moreover have "0 \<le> ?sum ?rest" using wf_raw [OF wf] am by (intro sum_nonneg amount_sum_nonneg) auto
  ultimately show ?thesis by (simp add: accounted_def stored ids ent)
next
  case False
  have "file_batch env d' (summary_name env k) = file_batch env d (summary_name env k)"
  proof -
    have "\<not> (summary_name env k, b) \<in> set M" for b
      using raw wf_stored [OF wf] k by (fastforce simp: merges_raw_def stored_well_def)
    moreover have "summary_name env k = summary_name env k' \<Longrightarrow> k' \<in> K \<Longrightarrow> k' = k" for k'
      using wf k by (auto simp: spool_wf_def dest: inj_onD)
    ultimately show ?thesis using eff False unfolding pass_effect_def by metis
  qed
  then have "stored_summary env d' k = stored_summary env d k" by (simp add: stored_summary_def)
  moreover have "{b \<in> raw_batches env d'. about_key k b} = {b \<in> raw_batches env d. about_key k b}"
    using effect_raw_subset [OF eff] effect_gone [OF eff raw _ _ wf] False by (auto simp: about_key_iff)
  then have "{b \<in> raw_batches env d'. about_key k b \<and> Q b} = {b \<in> raw_batches env d. about_key k b \<and> Q b}" for Q
    by auto
  ultimately show ?thesis by (simp add: accounted_def)
qed

lemma pass_entries:
  assumes wf: "spool_wf env K d" and fs: "spool_files env d = Inr fs" and pass: "compact_files env s d fs [] [] = Inr (S, r)"
    and mem: "map_of S k = Some b"
  shows "k \<in> K \<and> b = taken_up env (mergeable env s d fs) d k \<and> summary_for env k b"
proof -
  have "\<forall>nf \<in> set fs. \<forall>b. readBatch env d (fst nf) = Inr b \<longrightarrow> stored_well env K (fst nf) b"
    using spool_files_list [OF fs wf] wf_stored [OF wf] readBatch_file by auto
  then have "summaries_ok env K S"
    by (rule summaries_ok_pass [OF pass, rotated]) (simp add: summaries_ok_def)
  then have "k \<in> K" "summary_for env k b" using mem unfolding summaries_ok_def by blast+
  moreover have "b = summary_of env S (fst k) (snd k)" using mem by (simp add: summary_of_def)
  ultimately show ?thesis using pass_summary [OF wf _ fs pass, of k] by (simp add: taken_up_def)
qed

lemma pass_distinct:
  assumes wf: "spool_wf env K d" and fs: "spool_files env d = Inr fs" and pass: "compact_files env s d fs [] [] = Inr (S, r)"
  shows "distinct (map fst S)"
proof -
  have "\<forall>nf \<in> set fs. \<forall>b. readBatch env d (fst nf) = Inr b \<longrightarrow> stored_well env K (fst nf) b"
    using spool_files_list [OF fs wf] wf_stored [OF wf] readBatch_file by auto
  then have "summaries_ok env K S"
    by (rule summaries_ok_pass [OF pass, rotated]) (simp add: summaries_ok_def)
  then show ?thesis by (simp add: summaries_ok_def)
qed

text \<open>Every minute of a merged batch has a summary in the pass: the summary names the batch, a new one names none.\<close>

lemma pass_covers:
  assumes wf: "spool_wf env K d" and fs: "spool_files env d = Inr fs" and pass: "compact_files env s d fs [] [] = Inr (S, r)"
    and mem: "(name, b) \<in> set (mergeable env s d fs)" "k \<in> batch_keys b" "k \<in> K"
  shows "map_of S k = Some (taken_up env (mergeable env s d fs) d k)"
proof -
  have "b \<in> set (filter (about_key k) (map snd (mergeable env s d fs)))" using mem by (force simp: about_key_iff)
  then have "ba_BatchID b \<in> set (ba_CompactedBatchIDs (summary_of env S (fst k) (snd k)))"
    unfolding pass_summary [OF wf mem(3) fs pass] absorb_all_ids by blast
  then obtain b' where "map_of S k = Some b'" by (auto simp: summary_of_def new_summary_def split: option.splits)
  then show ?thesis using pass_entries [OF wf fs pass] by blast
qed

lemma mergeable_raw:
  assumes "spool_wf env K d" "spool_files env d = Inr fs"
  shows "merges_raw env d (mergeable env s d fs)"
  using spool_files_list [OF assms(2,1)] mergeable_mem readBatch_file by (fastforce simp: merges_raw_def)

lemma pass_written:
  assumes wf: "spool_wf env K d" and fs: "spool_files env d = Inr fs" and pass: "compact_files env s d fs [] [] = Inr (S, r)"
    and codec: "\<forall>(k, b) \<in> set S. env_decode env (env_encode env b) = Some b" and w: "write_summaries env S d = (d1, r1)"
  shows "pass_effect env K (mergeable env s d fs) d d1 \<and>
    (r1 = None \<longrightarrow> (\<forall>k b. (k, b) \<in> set S \<longrightarrow> file_batch env d1 (summary_name env k) = Some b))"
proof -
  let ?M = "mergeable env s d fs"
  note S_distinct = pass_distinct [OF wf fs pass]
  have entries: "k \<in> K \<and> b = taken_up env ?M d k \<and> summary_for env k b \<and> env_decode env (env_encode env b) = Some b"
    if "(k, b) \<in> set S" for k b
    using pass_entries [OF wf fs pass] that S_distinct codec by auto
  have "distinct (map fst d1) \<and>
    (\<forall>name. file_batch env d1 name = file_batch env d name \<or>
       (\<exists>k b. (k, b) \<in> set S \<and> name = summary_name env k \<and> file_batch env d1 name = Some b)) \<and>
    (r1 = None \<longrightarrow> (\<forall>k b. (k, b) \<in> set S \<longrightarrow> file_batch env d1 (summary_name env k) = Some b))"
    by (rule write_summaries_files [OF w _ S_distinct, where K = K]) (use entries wf in \<open>auto simp: spool_wf_def\<close>)
  then show ?thesis unfolding pass_effect_def using entries by metis
qed

lemma pass_kept:
  assumes wf: "spool_wf env K d" and fs: "spool_files env d = Inr fs" and pass: "compact_files env s d fs [] [] = Inr (S, r)"
    and w: "\<forall>k b. (k, b) \<in> set S \<longrightarrow> file_batch env d1 (summary_name env k) = Some b" "distinct (map fst d1)"
    and rm: "remove_files env (map fst (mergeable env s d fs)) d1 = (d2, r2)"
    and mem: "(name, b) \<in> set (mergeable env s d fs)" "k \<in> batch_keys b"
  shows "file_batch env d2 (summary_name env k) = Some (taken_up env (mergeable env s d fs) d k)"
proof -
  let ?M = "mergeable env s d fs"
  have raw: "merges_raw env d ?M" by (rule mergeable_raw [OF wf fs])
  have k: "k \<in> K" using wf_raw [OF wf] merges_raw_set [OF raw] mem by force
  have "summary_name env k \<notin> set (map fst ?M)"
    using raw wf_stored [OF wf] k by (fastforce simp: merges_raw_def stored_well_def)
  then show ?thesis
    using remove_files_files [OF rm w(2)] w(1) map_of_SomeD [OF pass_covers [OF wf fs pass mem k]] by metis
qed

lemma compaction_effect:
  assumes wf: "spool_wf env K d" and fs: "spool_files env d = Inr fs" and pass: "compactExpiredInterfaces env s fs d = (d', r)"
    and codec: "\<forall>(k, b) \<in> set (pass_summaries env s fs d). env_decode env (env_encode env b) = Some b"
  shows "pass_effect env K (mergeable env s d fs) d d'"
proof (cases "compact_files env s d fs [] []")
  case (Inl e)
  then have "d' = d" using pass by (simp add: compactExpiredInterfaces_def)
  then show ?thesis using wf by (simp add: pass_effect_def spool_wf_def)
next
  case (Inr Sr)
  let ?M = "mergeable env s d fs"
  obtain S where S: "compact_files env s d fs [] [] = Inr (S, map fst ?M)"
    using Inr compact_files_removed by (cases Sr) fastforce
  obtain d1 r1 where w: "write_summaries env S d = (d1, r1)" by fastforce
  have written: "pass_effect env K ?M d d1" "r1 = None \<longrightarrow> (\<forall>k b. (k, b) \<in> set S \<longrightarrow> file_batch env d1 (summary_name env k) = Some b)"
    using pass_written [OF wf fs S _ w] codec by (simp_all add: pass_summaries_def S)
  show ?thesis
  proof (cases "?M = [] \<or> r1 \<noteq> None \<or> syncDirectory env \<noteq> None")
    case True
    then have "d' = d \<or> d' = d1" using pass w by (auto simp: compactExpiredInterfaces_def S split: if_splits option.splits)
    then show ?thesis using written wf by (auto simp: pass_effect_def spool_wf_def)
  next
    case False
    obtain d2 r2 where rm: "remove_files env (map fst ?M) d1 = (d2, r2)" by fastforce
    have d1: "distinct (map fst d1)" using written by (simp add: pass_effect_def)
    have "d' = d2" using pass w rm False by (auto simp: compactExpiredInterfaces_def S split: option.splits)
    moreover have "distinct (map fst d2) \<and>
      (\<forall>name. file_batch env d2 name = file_batch env d1 name \<or> name \<in> fst ` set ?M \<and> file_batch env d2 name = None)"
      using remove_files_files [OF rm d1] by simp
    moreover have "file_batch env d2 (summary_name env k) = Some (taken_up env ?M d k)"
      if "(name, b) \<in> set ?M" "k \<in> batch_keys b" for name b k
      using pass_kept [OF wf fs S _ d1 rm that] written(2) False by blast
    ultimately show ?thesis
      unfolding pass_effect_def using written(1) [unfolded pass_effect_def] by (smt (verit) image_iff prod.collapse)
  qed
qed

text \<open>The clock and the failing operations do not matter for what is stored.\<close>

lemma stored_env [simp]:
  "spool_wf (env\<lparr>env_now := now, env_fails := fails\<rparr>) K d = spool_wf env K d"
  "accounted (env\<lparr>env_now := now, env_fails := fails\<rparr>) d k amount i dir = accounted env d k amount i dir"
proof -
  let ?env = "env\<lparr>env_now := now, env_fails := fails\<rparr>"
  have files: "file_batch ?env = file_batch env" by (auto simp: file_batch_def fun_eq_iff split: option.split)
  have ids: "minuteSummaryBatchID ?env = minuteSummaryBatchID env" by (simp add: minuteSummaryBatchID_def fun_eq_iff)
  have names: "summary_name ?env = summary_name env" by (simp add: summary_name_def batchFileName_def ids fun_eq_iff)
  have "raw_batches ?env d = raw_batches env d" "stored_well ?env = stored_well env" "stored_summary ?env d k = stored_summary env d k"
    by (simp_all add: raw_batches_def stored_well_def summary_for_def stored_summary_def new_summary_def files ids names fun_eq_iff
        split: option.split)
  then show "spool_wf ?env K d = spool_wf env K d" "accounted ?env d k amount i dir = accounted env d k amount i dir"
    by (simp_all add: spool_wf_def accounted_def files names)
qed

lemma compacts_keeps:
  "compacts env s d d' \<Longrightarrow> spool_wf env K d \<Longrightarrow> k \<in> K \<Longrightarrow> amount \<in> {ev_Bytes, ev_Packets} \<Longrightarrow>
   spool_wf env K d' \<and> accounted env d' k amount i dir = accounted env d k amount i dir"
proof (induction rule: compacts.induct)
  case (compacts_pass d1 env' now fails fs d2 r)
  have wf: "spool_wf env' K d1" using compacts_pass by simp
  have "pass_effect env' K (mergeable env' s d1 fs) d1 d2"
    using compacts_pass by (intro compaction_effect [OF wf]) auto
  from effect_wf [OF wf _ this] effect_accounted [OF wf _ this] mergeable_raw [OF wf] show ?case
    using compacts_pass by auto
qed simp

lemma remove_files_all:
  "remove_files env names d = (d', None) \<Longrightarrow> name \<in> set names \<or> map_of d name = None \<Longrightarrow> map_of d' name = None"
proof (induction env names d rule: remove_files.induct)
  case (2 env name' names d)
  then show ?case by (auto simp: delete_conv' split: if_splits)
qed simp

lemma mergeable_intro:
  "(name, f) \<in> set fs \<Longrightarrow> readBatch env d name = Inr b \<Longrightarrow> \<not> is_summary b \<Longrightarrow> expired env s f \<Longrightarrow> interfaceOnly b \<Longrightarrow>
   (name, b) \<in> set (mergeable env s d fs)"
  by (induction fs) (auto split: sum.split)

subsection \<open>Witness data\<close>

text \<open>A summary of 7 bytes, a batch of 20 more, and the summary of both.\<close>

definition demo_key :: "string \<times> go_time" where "demo_key = (''n'', minute)"

definition demo_minute :: "int64 \<Rightarrow> string list \<Rightarrow> Batch" where
  "demo_minute n ids = (new_summary demo_spool_env ''n'' minute)\<lparr>ba_Events := [demo_event_at minute n], ba_CompactedBatchIDs := ids\<rparr>"

definition demo_store_env :: spool_env where
  "demo_store_env = demo_spool_env\<lparr>
     env_encode := \<lambda>b. if ba_CompactedBatchIDs b = [''z''] then [2] else [3],
     env_decode := \<lambda>bs. if bs = [1] then Some (demo_queued ''a'' 10) else if bs = [2] then Some (demo_minute 7 [''z''])
       else if bs = [3] then Some (demo_minute 27 [''a'', ''z'']) else None\<rparr>"

definition demo_raw_name :: string where "demo_raw_name = ''x'' @ json_gz"

definition demo_summary_name :: string where "demo_summary_name = summary_name demo_spool_env demo_key"

definition demo_stored :: "bytes \<Rightarrow> go_time \<Rightarrow> sdir" where
  "demo_stored data t = [(demo_summary_name, \<lparr>f_ModTime = t, f_Data = data\<rparr>)]"

definition demo_batch_file :: sdir where "demo_batch_file = [(demo_raw_name, \<lparr>f_ModTime = 0, f_Data = [1]\<rparr>)]"

lemma demo_names: "demo_summary_name < demo_raw_name" "suffix json_gz demo_summary_name" "suffix json_gz demo_raw_name"
proof -
  have digit: "\<forall>c \<in> set (itoa n). of_char c < (120 :: nat)" for n
    by (auto simp: is_digit_def dest: itoa_digits)
  then have digits: "list_all (\<lambda>c. of_char c < (120 :: nat)) (pad20 n) \<and> pad20 n \<noteq> []" for n
    by (auto simp: pad20_def list_all_iff itoa_nonempty)
  obtain c cs where c: "pad20 (UnixNano 60000000000) = c # cs" "of_char c < (120 :: nat)"
    using digits [of "UnixNano 60000000000"] by (cases "pad20 (UnixNano 60000000000)") auto
  then have "c < CHR ''x''" by (simp add: less_char_def)
  then show "demo_summary_name < demo_raw_name"
    by (simp add: demo_summary_name_def demo_raw_name_def summary_name_def batchFileName_def demo_key_def c)
  show "suffix json_gz demo_summary_name" "suffix json_gz demo_raw_name"
    unfolding demo_summary_name_def demo_raw_name_def by (simp, simp add: suffix_ConsI)
qed

lemma demo_minute_of: "truncate_minute 60000000000 = 60000000000" "truncate_minute 60000000005 = 60000000000"
  "truncate_minute 60000000006 = 60000000000"
  by (simp_all add: truncate_minute_def)

lemma demo_kinds:
  "\<not> is_summary (demo_queued ''a'' 10)" "interfaceOnly (demo_queued ''a'' 10)" "is_summary (demo_minute n ids)"
  "batch_minutes (demo_queued ''a'' 10) = [minute]" "batch_keys (demo_queued ''a'' 10) = {demo_key}"
  "batch_keys (demo_minute n ids) = {demo_key}" "summary_for demo_store_env demo_key (demo_minute n ids)"
  by (auto simp: is_summary_def interfaceOnly_def demo_queued_def demo_event_at_def zero_Event_def demo_minute_def new_summary_def
      minuteSummaryBatchID_def batch_minutes_def batch_keys_def demo_key_def demo_minute_of summary_for_def demo_store_env_def demo_spool_env_def)

lemma demo_name [simp]: "summary_name demo_store_env demo_key = demo_summary_name"
  by (simp add: demo_summary_name_def summary_name_def batchFileName_def minuteSummaryBatchID_def demo_store_env_def)

lemma demo_nonneg: "nonneg_events (ba_Events (demo_queued ''a'' 10))" "nonneg_events (ba_Events (demo_minute 7 ids))"
  "nonneg_events (ba_Events (demo_minute 27 ids))"
  by (simp_all add: nonneg_event_def demo_queued_def demo_event_at_def zero_Event_def demo_minute_def)

lemma demo_different: "demo_summary_name \<noteq> demo_raw_name" using demo_names(1) by auto

lemma demo_files:
  "file_batch demo_store_env (demo_stored [2] t @ demo_batch_file) name =
     (if name = demo_summary_name then Some (demo_minute 7 [''z'']) else if name = demo_raw_name then Some (demo_queued ''a'' 10) else None)"
  by (simp add: file_batch_def demo_stored_def demo_batch_file_def demo_store_env_def)

lemma demo_wf: "spool_wf demo_store_env {demo_key} (demo_stored [2] t @ demo_batch_file)"
  unfolding spool_wf_def
proof (intro conjI allI impI)
  show "distinct (map fst (demo_stored [2] t @ demo_batch_file))"
    using demo_different by (simp add: demo_stored_def demo_batch_file_def)
  show "inj_on ba_BatchID (raw_batches demo_store_env (demo_stored [2] t @ demo_batch_file))"
    using demo_kinds(3) by (auto simp: inj_on_def raw_batches_def demo_files split: if_splits)
  fix name b
  assume "file_batch demo_store_env (demo_stored [2] t @ demo_batch_file) name = Some b"
  then show "stored_well demo_store_env {demo_key} name b"
    using demo_kinds demo_nonneg demo_names demo_different by (auto simp: demo_files stored_well_def split: if_splits)
qed simp

lemma demo_accounted: "accounted demo_store_env (demo_stored [2] t @ demo_batch_file) demo_key ev_Bytes ''eth0'' DirectionInbound = 27"
proof -
  have "raw_batches demo_store_env (demo_stored [2] t @ demo_batch_file) = {demo_queued ''a'' 10}"
    using demo_kinds(1,3) demo_names(3) demo_different by (auto simp: raw_batches_def demo_files split: if_splits)
  moreover have "about_key demo_key (demo_queued ''a'' 10)" by (simp add: about_key_iff demo_kinds)
  moreover have "stored_summary demo_store_env (demo_stored [2] t @ demo_batch_file) demo_key = demo_minute 7 [''z'']"
    by (simp add: stored_summary_def demo_files)
  moreover have "ba_BatchID (demo_queued ''a'' 10) \<notin> set (ba_CompactedBatchIDs (demo_minute 7 [''z'']))"
    by (simp add: demo_queued_def demo_minute_def)
  moreover have "amount_sum ev_Bytes ''eth0'' DirectionInbound (events_at (snd demo_key) (demo_queued ''a'' 10)) = 20"
    by (simp add: amount_sum_def events_at_def demo_key_def demo_queued_def demo_event_at_def zero_Event_def demo_minute_of)
  moreover have "entry ev_Bytes ''eth0'' DirectionInbound (ba_Events (demo_minute 7 [''z''])) = 7"
    by (simp add: entry_def demo_minute_def demo_event_at_def)
  ultimately show ?thesis by (simp add: accounted_def cong: conj_cong)
qed

text \<open>A pass over the two files that cannot remove the batch, and the next one, which can.\<close>

abbreviation demo_pass_env :: "(spool_op \<Rightarrow> bool) \<Rightarrow> spool_env" where
  "demo_pass_env fails \<equiv> demo_store_env\<lparr>env_now := 63000000000000000000, env_fails := fails\<rparr>"

lemma demo_listed:
  "spool_files (demo_pass_env (\<lambda>op. op = RemoveFile x)) (demo_stored data t @ demo_batch_file) = Inr (demo_stored data t @ demo_batch_file)"
  using demo_names by (auto simp: spool_files_def demo_stored_def demo_batch_file_def)

lemma demo_taken: "compact_batch (demo_pass_env fails) (demo_queued ''a'' 10) [(demo_key, demo_minute 7 [''z''])] = [(demo_key, demo_minute 27 [''a'', ''z''])]"
proof -
  have "spool_saturatingAdd (spool_saturatingAdd 7 10) 10 = 27" "spool_saturatingAdd (spool_saturatingAdd 0 0) 0 = 0"
    by (simp_all add: spool_saturatingAdd_def word_sless_alt MaxInt64_def)
  moreover have "sort [''z'', ''a''] = [''a'', ''z'']" by (simp add: insort_key.simps)
  moreover have "events_at minute (demo_queued ''a'' 10) = [demo_event_at (minute + 5) 10, demo_event_at (minute + 6) 10]"
    by (simp add: events_at_def demo_queued_def demo_event_at_def demo_minute_of)
  moreover have "ba_NodeID (demo_queued ''a'' 10) = ''n''" "ba_BatchID (demo_queued ''a'' 10) = ''a''" by (simp_all add: demo_queued_def)
  ultimately show ?thesis
    by (simp add: compact_batch_def demo_kinds compact_minute_def summary_of_def demo_key_def demo_minute_def Let_def
        demo_event_at_def zero_Event_def)
qed

lemma demo_valid: "Validate (demo_minute 27 [''a'', ''z'']) = None"
proof -
  have "length (format_int (Unix minute)) \<le> 12" using length_itoa [of 62135596740 11] by (simp add: format_int_def Unix_def)
  then show ?thesis
    by (auto simp: Validate_def id_ok_def IsZero_def event_validate_def minuteSummaryBatchID_def demo_spool_env_def demo_minute_def
        new_summary_def kind_validate_def nonHealthPayloadCount_def trafficPayloadCount_def direction_valid_def word_sless_alt
        demo_event_at_def zero_Event_def DirectionInbound_def)
qed

lemma demo_read:
  "readBatch (demo_pass_env (\<lambda>op. op = RemoveFile x)) (demo_stored data t @ demo_batch_file) demo_summary_name =
     (case env_decode demo_store_env data of None \<Rightarrow> Inl (DecodeFailed demo_summary_name) | Some b \<Rightarrow> Inr b)"
  "readBatch (demo_pass_env (\<lambda>op. op = RemoveFile x)) (demo_stored data t @ demo_batch_file) demo_raw_name = Inr (demo_queued ''a'' 10)"
  using demo_different by (simp_all add: readBatch_def demo_stored_def demo_batch_file_def) (simp add: demo_store_env_def)

lemma demo_summaries:
  "data \<in> {[2], [3]} \<Longrightarrow>
   compact_files (demo_pass_env (\<lambda>op. op = RemoveFile x)) demo_spool (demo_stored data t @ demo_batch_file) (demo_stored data t @ demo_batch_file) [] [] =
     Inr ([(demo_key, demo_minute 27 [''a'', ''z''])], [demo_raw_name])"
proof -
  assume data: "data \<in> {[2], [3]}"
  let ?env = "demo_pass_env (\<lambda>op. op = RemoveFile x)" let ?d = "demo_stored data t @ demo_batch_file"
  have decoded: "env_decode demo_store_env [2] = Some (demo_minute 7 [''z''])" "env_decode demo_store_env [3] = Some (demo_minute 27 [''a'', ''z''])"
    by (simp_all add: demo_store_env_def)
  have old: "expired ?env demo_spool \<lparr>f_ModTime = 0, f_Data = [1]\<rparr>" by (simp add: expired_def demo_spool_def)
  have key: "(ba_NodeID (demo_minute n ids), truncate_minute (ev_ObservedAt (hd (ba_Events (demo_minute n ids))))) = demo_key"
      "ba_Events (demo_minute n ids) \<noteq> []" for n ids
    by (simp_all add: demo_minute_def new_summary_def demo_event_at_def demo_key_def demo_minute_of)
  have known: "compact_batch ?env (demo_queued ''a'' 10) [(demo_key, demo_minute 27 [''a'', ''z''])] = [(demo_key, demo_minute 27 [''a'', ''z''])]"
  proof -
    have "ba_NodeID (demo_queued ''a'' 10) = ''n''" "ba_BatchID (demo_queued ''a'' 10) = ''a''" by (simp_all add: demo_queued_def)
    then show ?thesis by (simp add: compact_batch_def demo_kinds compact_minute_def summary_of_def demo_key_def demo_minute_def)
  qed
  have "compact_files ?env demo_spool ?d ((demo_summary_name, \<lparr>f_ModTime = t, f_Data = data\<rparr>) # demo_batch_file) [] [] =
      compact_files ?env demo_spool ?d demo_batch_file
        [(demo_key, if data = [2] then demo_minute 7 [''z''] else demo_minute 27 [''a'', ''z''])] []"
    using data decoded by (auto simp: demo_read demo_kinds key)
  also have "\<dots> = Inr ([(demo_key, demo_minute 27 [''a'', ''z''])], [demo_raw_name])"
    by (simp add: demo_batch_file_def demo_read(2) [unfolded demo_batch_file_def] demo_kinds old demo_taken known)
  finally show ?thesis by (simp add: demo_stored_def)
qed

lemma demo_write:
  "write_summaries (demo_pass_env (\<lambda>op. op = RemoveFile x)) [(demo_key, demo_minute 27 [''a'', ''z''])] (demo_stored data t @ demo_batch_file) =
     (demo_stored [3] minute @ demo_batch_file, None)"
proof -
  have "batchFileName (demo_pass_env (\<lambda>op. op = RemoveFile x)) (ba_BatchID (demo_minute 27 [''a'', ''z''])) minute = demo_summary_name"
    by (simp add: demo_summary_name_def summary_name_def batchFileName_def demo_minute_def new_summary_def demo_key_def demo_store_env_def)
  moreover have "env_encode demo_store_env (demo_minute 27 [''a'', ''z'']) = [3]"
    by (simp add: demo_store_env_def demo_minute_def)
  ultimately show ?thesis
    by (simp add: demo_key_def writeBatchFile_def demo_valid publish_def Let_def demo_stored_def)
qed

lemma demo_pass:
  assumes "data \<in> {[2], [3]}"
  shows "compactExpiredInterfaces (demo_pass_env (\<lambda>op. op = RemoveFile x)) demo_spool (demo_stored data t @ demo_batch_file)
      (demo_stored data t @ demo_batch_file) =
    (if x = demo_raw_name then (demo_stored [3] minute @ demo_batch_file, Some (OpFailed (RemoveFile demo_raw_name)))
     else (demo_stored [3] minute, None))"
  using demo_different
  by (simp add: compactExpiredInterfaces_def demo_summaries [OF assms] demo_write syncDirectory_def)
    (auto simp: demo_stored_def demo_batch_file_def)

lemma demo_codec:
  "data \<in> {[2], [3]} \<Longrightarrow> \<forall>(k, b) \<in> set (pass_summaries (demo_pass_env (\<lambda>op. op = RemoveFile x)) demo_spool (demo_stored data t @ demo_batch_file)
      (demo_stored data t @ demo_batch_file)). env_decode demo_store_env (env_encode demo_store_env b) = Some b"
  by (simp add: pass_summaries_def demo_summaries) (simp add: demo_store_env_def demo_minute_def)

lemma demo_compacts: "compacts demo_store_env demo_spool (demo_stored [2] 0 @ demo_batch_file) (demo_stored [3] minute)"
proof -
  have "compacts demo_store_env demo_spool (demo_stored [2] 0 @ demo_batch_file) (demo_stored [3] minute @ demo_batch_file)"
    by (rule compacts_pass [OF compacts_none refl demo_listed [where x = demo_raw_name] _ demo_codec]) (simp_all add: demo_pass)
  then show ?thesis
    by (rule compacts_pass [OF _ refl demo_listed [where x = "[]"] _ demo_codec]) (simp_all add: demo_pass demo_raw_name_def)
qed

subsection \<open>Properties\<close>

text \<open>C16. Compaction loses nothing and counts nothing twice, even when it stops half-way: start from a directory as the
  agent leaves it and run any number of passes, each at any time and with any file operation failing (the next pass
  reads what is then on disk). For every node and minute and every interface and direction, the bytes and packets that
  the summary file holds, together with those of the batches it does not name, are what they were (capped at the
  largest signed number). Earlier summaries are taken up and a batch named by its summary is not counted again. The
  directory must have its form: a summary under its own name, other batches under names that come after those of the
  summaries of their minutes (queued after the events), copies only under one identifier, no two summaries of the
  nodes and minutes at hand under one name, no negative counter; and what a pass writes can be read back.\<close>

theorem compaction_exact:
  assumes "spool_wf env K d" "compacts env s d d'" "k \<in> K" "amount \<in> {ev_Bytes, ev_Packets}"
  shows "accounted env d' k amount i dir = accounted env d k amount i dir"
  using compacts_keeps [OF assms(2,1,3,4)] by simp

theorem compaction_exact_witness:
  "compacts demo_store_env demo_spool (demo_stored [2] 0 @ demo_batch_file) (demo_stored [3] minute) \<and>
   accounted demo_store_env (demo_stored [3] minute) demo_key ev_Bytes ''eth0'' DirectionInbound = 27"
  using compaction_exact [OF demo_wf demo_compacts, of demo_key ev_Bytes "''eth0''" DirectionInbound] demo_compacts demo_accounted [of 0]
  by simp

text \<open>C17. A pass of the compaction that returns no error has removed every expired batch of interface counters, and the
  summary file of each minute of such a batch names it. (That nothing is lost by this is the theorem above; the
  directory has the form stated there, and what the pass writes can be read back.)\<close>

theorem compaction_completes:
  assumes wf: "spool_wf env K d" and pass: "spool_files env d = Inr fs" "compactExpiredInterfaces env s fs d = (d', None)"
    and codec: "\<forall>(k, b) \<in> set (pass_summaries env s fs d). env_decode env (env_encode env b) = Some b"
    and batch: "map_of d name = Some f" "suffix json_gz name" "env_decode env (f_Data f) = Some b" "\<not> is_summary b" "expired env s f"
      "interfaceOnly b"
  shows "map_of d' name = None \<and>
    (\<forall>k \<in> batch_keys b. \<exists>summary. file_batch env d' (summary_name env k) = Some summary \<and> ba_BatchID b \<in> set (ba_CompactedBatchIDs summary))"
proof -
  let ?M = "mergeable env s d fs"
  obtain S where S: "compact_files env s d fs [] [] = Inr (S, map fst ?M)"
    using pass(2) compact_files_removed by (cases "compact_files env s d fs [] []") (fastforce simp: compactExpiredInterfaces_def)+
  have mem: "(name, f) \<in> set fs" using spool_files_list [OF pass(1) wf] batch(1,2) map_of_SomeD by force
  then have "readBatch env d name = Inr b"
    using compact_files_read [OF S mem] readBatch_file [of env d name] batch(1,3) by (auto simp: file_batch_def)
  then have M: "(name, b) \<in> set ?M" using mergeable_intro [OF mem] batch by blast
  then have "?M \<noteq> []" by auto
  then obtain d1 where w: "write_summaries env S d = (d1, None)" and rm: "remove_files env (map fst ?M) d1 = (d', None)"
    using pass(2) by (auto simp: compactExpiredInterfaces_def S split: prod.splits option.splits)
  note written = pass_written [OF wf pass(1) S _ w]
  have stored: "\<forall>k b. (k, b) \<in> set S \<longrightarrow> file_batch env d1 (summary_name env k) = Some b" "distinct (map fst d1)"
    using written codec by (simp_all add: pass_summaries_def S pass_effect_def)
  have "file_batch env d' (summary_name env k) = Some (taken_up env ?M d k) \<and>
      ba_BatchID b \<in> set (ba_CompactedBatchIDs (taken_up env ?M d k))" if "k \<in> batch_keys b" for k
    using pass_kept [OF wf pass(1) S stored rm M that] M that
    by (force simp: taken_up_def absorb_all_ids about_key_iff)
  moreover have "map_of d' name = None" using remove_files_all [OF rm] M by force
  ultimately show ?thesis by blast
qed

theorem compaction_completes_witness:
  "map_of (demo_stored [3] minute) demo_raw_name = None \<and>
   (\<exists>summary. file_batch demo_store_env (demo_stored [3] minute) demo_summary_name = Some summary \<and> ''a'' \<in> set (ba_CompactedBatchIDs summary))"
proof -
  let ?env = "demo_pass_env (\<lambda>op. op = RemoveFile [])" let ?d = "demo_stored [2] 0 @ demo_batch_file"
  let ?f = "\<lparr>f_ModTime = 0, f_Data = [1]\<rparr> :: sfile"
  have "compactExpiredInterfaces ?env demo_spool ?d ?d = (demo_stored [3] minute, None)" by (simp add: demo_pass demo_raw_name_def)
  moreover have "spool_wf ?env {demo_key} ?d" by (simp add: demo_wf)
  moreover have "map_of ?d demo_raw_name = Some ?f" using demo_different by (simp add: demo_stored_def demo_batch_file_def)
  moreover have "env_decode ?env (f_Data ?f) = Some (demo_queued ''a'' 10)" by (simp add: demo_store_env_def)
  moreover have "expired ?env demo_spool ?f" by (simp add: expired_def demo_spool_def)
  moreover have "summary_name ?env demo_key = demo_summary_name" "ba_BatchID (demo_queued ''a'' 10) = ''a''"
    using demo_name by (simp_all add: summary_name_def batchFileName_def minuteSummaryBatchID_def demo_queued_def)
  moreover have "file_batch ?env (demo_stored [3] minute) = file_batch demo_store_env (demo_stored [3] minute)"
    by (auto simp: file_batch_def fun_eq_iff split: option.split)
  ultimately show ?thesis
    using compaction_completes [OF _ demo_listed [where x = "[]" and data = "[2]" and t = 0], of "{demo_key}" demo_spool "demo_stored [3] minute"
        demo_raw_name ?f "demo_queued ''a'' 10"] demo_codec [where x = "[]" and data = "[2]" and t = 0] demo_names(3) demo_kinds
    by simp
qed

end
