(* ===== verification/Ownership.thy ===== *)
theory Ownership
  imports Decode Model "HOL-Library.AList" "HOL-Library.List_Lexorder" "HOL-Library.Char_ord" "HOL-Library.Multiset"
begin

text \<open>
  The aggregation of observations into connection deltas,
  \<^verbatim>\<open>internal/agent/ownership/collector.go\<close>: attribution of an observation to a container, a
  process or the host, the bounded table of active connections and its draining. The process
  table of the host is the parameter \<open>lookup\<close> (the interface \<^verbatim>\<open>ProcessLookup\<close>), the digest in
  an event identifier the parameter \<open>digest\<close>. Go's map of connections is an association list
  with one entry per key; draining lists the entries in the order of the list, one of the
  orders Go may choose.
\<close>

subsection \<open>Attribution\<close>

record Process =
  proc_PID :: u32
  proc_Name :: string
  proc_CgroupPath :: string
  proc_StartTime :: u64

record Container =
  cont_ID :: string
  cont_Name :: string
  cont_CgroupID :: u64
  cont_Addresses :: "string list"
  cont_Ports :: "u16 list"
  cont_Running :: bool

record Attributor =
  processes :: "u32 \<Rightarrow> Process option"
  byCgroup :: "u64 \<Rightarrow> Container option"

definition SetSnapshot :: "Attributor \<Rightarrow> (u64 \<Rightarrow> Container option) \<Rightarrow> Attributor" where
  "SetSnapshot a snapshot = a\<lparr>byCgroup := snapshot\<rparr>"

definition protocolName :: "u8 \<Rightarrow> string" where
  "protocolName p = (if p = 6 then ''tcp'' else if p = 17 then ''udp'' else itoa (unat p))"

definition stateName :: "u8 \<Rightarrow> string" where
  "stateName st =
     (if st = 1 then ''established'' else if st = 7 then ''closed'' else if st = 10 then ''listening''
      else itoa (unat st))"

definition attribute_owner :: "Attributor \<Rightarrow> Observation \<Rightarrow> OwnerRef" where
  "attribute_owner a obs =
     (case byCgroup a (CgroupID obs) of
        Some container \<Rightarrow>
          \<lparr>own_Kind = OwnerContainer, own_PID = 0, own_Process = '''',
           own_ContainerID = cont_ID container, own_ContainerName = cont_Name container\<rparr>
      | None \<Rightarrow>
          (case processes a (PID obs) of
             Some process \<Rightarrow>
               \<lparr>own_Kind = OwnerProcess, own_PID = uint (proc_PID process), own_Process = proc_Name process,
                own_ContainerID = '''', own_ContainerName = ''''\<rparr>
           | None \<Rightarrow>
               \<lparr>own_Kind = OwnerHost, own_PID = 0, own_Process = '''', own_ContainerID = '''',
                own_ContainerName = ''''\<rparr>))"

definition Attribute :: "Attributor \<Rightarrow> Observation \<Rightarrow> ConnectionDelta" where
  "Attribute a obs =
     \<lparr>cd_Protocol = protocolName (Protocol obs),
      cd_Local = \<lparr>ep_IP = addr_string (LocalIP obs), ep_Port = LocalPort obs, ep_Domain = '''',
        ep_Confidence = ConfidenceIPOnly\<rparr>,
      cd_Remote = \<lparr>ep_IP = addr_string (RemoteIP obs), ep_Port = RemotePort obs, ep_Domain = '''',
        ep_Confidence = ConfidenceIPOnly\<rparr>,
      cd_Owner = attribute_owner a obs,
      cd_BytesSent = clampUint64 (Sent obs),
      cd_BytesReceived = clampUint64 (Received obs),
      cd_State = stateName (State obs)\<rparr>"

subsection \<open>The collector\<close>

definition maxActiveConnections :: nat where "maxActiveConnections = 4096"

record connectionKey =
  key_Protocol :: string
  key_Local :: Endpoint
  key_Remote :: Endpoint
  key_Owner :: OwnerRef
  key_State :: string

record Collector =
  attributor :: Attributor
  vals :: "(connectionKey \<times> ConnectionDelta) list"
  dropped :: u64

definition NewCollector :: "Attributor \<Rightarrow> Collector" where
  "NewCollector a = \<lparr>attributor = a, vals = [], dropped = 0\<rparr>"

definition connection_key :: "ConnectionDelta \<Rightarrow> connectionKey" where
  "connection_key cd = \<lparr>key_Protocol = cd_Protocol cd, key_Local = cd_Local cd, key_Remote = cd_Remote cd,
     key_Owner = cd_Owner cd, key_State = cd_State cd\<rparr>"

definition zero_delta :: ConnectionDelta where
  "zero_delta =
     (let ep = \<lparr>ep_IP = '''', ep_Port = 0, ep_Domain = '''', ep_Confidence = ''''\<rparr> in
      \<lparr>cd_Protocol = '''', cd_Local = ep, cd_Remote = ep,
       cd_Owner = \<lparr>own_Kind = '''', own_PID = 0, own_Process = '''', own_ContainerID = '''',
         own_ContainerName = ''''\<rparr>,
       cd_BytesSent = 0, cd_BytesReceived = 0, cd_State = ''''\<rparr>)"

definition Observe :: "Collector \<Rightarrow> Observation \<Rightarrow> Collector" where
  "Observe col obs =
     (if LocalPort obs = 0 \<or> RemotePort obs = 0 \<or> \<not> IsValid (LocalIP obs) \<or> \<not> IsValid (RemoteIP obs)
      then col\<lparr>dropped := dropped col + 1\<rparr>
      else
        (let connection = Attribute (attributor col) obs;
             key = connection_key connection;
             found = map_of (vals col) key;
             current = (case found of Some cd \<Rightarrow> cd | None \<Rightarrow> zero_delta)
         in if found = None \<and> maxActiveConnections \<le> length (vals col)
            then col\<lparr>dropped := dropped col + 1\<rparr>
            else col\<lparr>vals := AList.update key (connection
              \<lparr>cd_BytesSent := saturatingAdd (cd_BytesSent current) (cd_BytesSent connection),
               cd_BytesReceived := saturatingAdd (cd_BytesReceived current) (cd_BytesReceived connection)\<rparr>)
              (vals col)\<rparr>))"

text \<open>The event of one drained connection; \<open>digest\<close> stands for the hexadecimal SHA-256 prefix.\<close>

definition connection_event :: "(connectionKey \<Rightarrow> int \<Rightarrow> string) \<Rightarrow> int \<Rightarrow> connectionKey \<times> ConnectionDelta \<Rightarrow> Event" where
  "connection_event digest observedAt entry =
     zero_Event\<lparr>ev_ID := ''connection:'' @ digest (fst entry) observedAt, ev_ObservedAt := observedAt,
       ev_Kind := EventConnection, ev_Connection := Some (snd entry)\<rparr>"

definition Drain :: "(connectionKey \<Rightarrow> int \<Rightarrow> string) \<Rightarrow> Collector \<Rightarrow> int \<Rightarrow> Collector \<times> Event list" where
  "Drain digest col observedAt = (col\<lparr>vals := []\<rparr>, map (connection_event digest observedAt) (vals col))"

subsection \<open>Container inventories\<close>

definition zero_Container :: Container where
  "zero_Container = \<lparr>cont_ID = [], cont_Name = [], cont_CgroupID = 0, cont_Addresses = [], cont_Ports = [],
     cont_Running = False\<rparr>"

definition inventory_event :: "(string \<Rightarrow> int \<Rightarrow> string) \<Rightarrow> int \<Rightarrow> string \<Rightarrow> Container \<Rightarrow> Event" where
  "inventory_event digest observedAt i container =
     zero_Event\<lparr>ev_ID := ''owner:'' @ digest i observedAt, ev_ObservedAt := observedAt,
       ev_Kind := EventOwnerInventory,
       ev_OwnerInventory := Some
         \<lparr>oi_Owner = \<lparr>own_Kind = OwnerContainer, own_PID = 0, own_Process = [], own_ContainerID = cont_ID container,
            own_ContainerName = cont_Name container\<rparr>,
          oi_CgroupID = cont_CgroupID container, oi_Addresses = cont_Addresses container,
          oi_Ports = cont_Ports container, oi_Running = cont_Running container\<rparr>\<rparr>"

definition InventoryEvents :: "(string \<Rightarrow> int \<Rightarrow> string) \<Rightarrow> (string \<times> Container) list \<Rightarrow> int \<Rightarrow> Event list" where
  "InventoryEvents digest byID observedAt =
     map (\<lambda>i. inventory_event digest observedAt i (case map_of byID i of Some c \<Rightarrow> c | None \<Rightarrow> zero_Container))
       (sort (map fst byID))"

subsection \<open>The connection table\<close>

definition usable :: "Observation \<Rightarrow> bool" where
  "usable obs \<longleftrightarrow> LocalPort obs \<noteq> 0 \<and> RemotePort obs \<noteq> 0 \<and> IsValid (LocalIP obs) \<and> IsValid (RemoteIP obs)"

definition obs_key :: "Attributor \<Rightarrow> Observation \<Rightarrow> connectionKey" where
  "obs_key a obs = connection_key (Attribute a obs)"

definition table_inv :: "Collector \<Rightarrow> bool" where
  "table_inv col \<longleftrightarrow> distinct (map fst (vals col)) \<and> length (vals col) \<le> maxActiveConnections \<and>
     (\<forall>(k, cd) \<in> set (vals col). connection_key cd = k \<and> 0 \<le> sint (cd_BytesSent cd) \<and>
        0 \<le> sint (cd_BytesReceived cd) \<and> ep_Port (cd_Local cd) \<noteq> 0 \<and> ep_Port (cd_Remote cd) \<noteq> 0)"

text \<open>The entry \<^verbatim>\<open>Observe\<close> writes for an observation, given the entry it finds.\<close>

definition merged :: "Attributor \<Rightarrow> ConnectionDelta option \<Rightarrow> Observation \<Rightarrow> ConnectionDelta" where
  "merged a found obs =
     (let current = (case found of Some cd \<Rightarrow> cd | None \<Rightarrow> zero_delta); cd = Attribute a obs in
      cd\<lparr>cd_BytesSent := saturatingAdd (cd_BytesSent current) (cd_BytesSent cd),
         cd_BytesReceived := saturatingAdd (cd_BytesReceived current) (cd_BytesReceived cd)\<rparr>)"

definition full_for :: "Collector \<Rightarrow> Observation \<Rightarrow> bool" where
  "full_for col obs \<longleftrightarrow> map_of (vals col) (obs_key (attributor col) obs) = None \<and>
     maxActiveConnections \<le> length (vals col)"

lemma Observe_cases:
  "Observe col obs =
     (if \<not> usable obs \<or> full_for col obs then col\<lparr>dropped := dropped col + 1\<rparr>
      else col\<lparr>vals := AList.update (obs_key (attributor col) obs)
        (merged (attributor col) (map_of (vals col) (obs_key (attributor col) obs)) obs) (vals col)\<rparr>)"
  by (auto simp: Observe_def usable_def full_for_def merged_def obs_key_def Let_def)

lemma Observe_attributor [simp]: "attributor (Observe col obs) = attributor col"
  by (simp add: Observe_cases)

lemma merged_key: "connection_key (merged a found obs) = obs_key a obs"
  by (simp add: merged_def obs_key_def connection_key_def Let_def)

lemma merged_ports:
  "ep_Port (cd_Local (merged a found obs)) = LocalPort obs" "ep_Port (cd_Remote (merged a found obs)) = RemotePort obs"
  by (simp_all add: merged_def Attribute_def Let_def)

lemma merged_bytes:
  assumes "case found of Some cd \<Rightarrow> 0 \<le> sint (cd_BytesSent cd) \<and> 0 \<le> sint (cd_BytesReceived cd) | None \<Rightarrow> True"
  shows "sint (cd_BytesSent (merged a found obs)) = min max_int
      ((case found of Some cd \<Rightarrow> sint (cd_BytesSent cd) | None \<Rightarrow> 0) + min max_int (uint (Sent obs)))"
    "sint (cd_BytesReceived (merged a found obs)) = min max_int
      ((case found of Some cd \<Rightarrow> sint (cd_BytesReceived cd) | None \<Rightarrow> 0) + min max_int (uint (Received obs)))"
  using assms
  by (auto simp: merged_def Attribute_def zero_delta_def Let_def saturatingAdd_value clampUint64_value
      split: option.splits)

lemma table_inv_lookup:
  "table_inv col \<Longrightarrow> map_of (vals col) k = Some cd \<Longrightarrow> 0 \<le> sint (cd_BytesSent cd) \<and> 0 \<le> sint (cd_BytesReceived cd)"
  by (auto simp: table_inv_def dest!: map_of_SomeD)

lemma table_inv_Observe:
  assumes "table_inv col"
  shows "table_inv (Observe col obs)"
proof (cases "\<not> usable obs \<or> full_for col obs")
  case True
  then show ?thesis using assms by (auto simp: Observe_cases table_inv_def)
next
  case False
  let ?k = "obs_key (attributor col) obs"
  let ?v = "merged (attributor col) (map_of (vals col) ?k) obs"
  have u: "usable obs" and room: "map_of (vals col) ?k \<noteq> None \<or> length (vals col) < maxActiveConnections"
    using False by (auto simp: full_for_def)
  have v: "connection_key ?v = ?k" "ep_Port (cd_Local ?v) \<noteq> 0" "ep_Port (cd_Remote ?v) \<noteq> 0"
    using u by (simp_all add: merged_key merged_ports usable_def)
  have "0 \<le> sint (cd_BytesSent ?v)" "0 \<le> sint (cd_BytesReceived ?v)"
    using table_inv_lookup [OF assms, of ?k] by (subst merged_bytes; auto split: option.splits)+
  moreover have "length (AList.update ?k ?v (vals col)) \<le> maxActiveConnections"
    using assms room by (auto simp: length_update table_inv_def map_of_eq_None_iff)
  moreover have "distinct (map fst (AList.update ?k ?v (vals col)))"
    using assms by (simp add: table_inv_def distinct_update)
  ultimately show ?thesis
    using assms v set_update_subset [of ?k ?v "vals col"]
    by (fastforce simp: Observe_cases False table_inv_def)
qed

lemma table_inv_New: "table_inv (NewCollector a)"
  by (simp add: NewCollector_def table_inv_def)

lemma table_inv_run: "table_inv col \<Longrightarrow> table_inv (foldl Observe col os)"
  by (induction os arbitrary: col) (auto simp: table_inv_Observe)

lemma attributor_run [simp]: "attributor (foldl Observe col os) = attributor col"
  by (induction os arbitrary: col) auto

subsection \<open>Totals\<close>

definition matching :: "Attributor \<Rightarrow> connectionKey \<Rightarrow> Observation list \<Rightarrow> Observation list" where
  "matching a k os = filter (\<lambda>obs. usable obs \<and> obs_key a obs = k) os"

definition total_sent :: "Attributor \<Rightarrow> connectionKey \<Rightarrow> Observation list \<Rightarrow> int" where
  "total_sent a k os = (\<Sum>obs\<leftarrow>matching a k os. min max_int (uint (Sent obs)))"

definition total_received :: "Attributor \<Rightarrow> connectionKey \<Rightarrow> Observation list \<Rightarrow> int" where
  "total_received a k os = (\<Sum>obs\<leftarrow>matching a k os. min max_int (uint (Received obs)))"

definition active_keys :: "Attributor \<Rightarrow> Observation list \<Rightarrow> connectionKey set" where
  "active_keys a os = obs_key a ` {obs \<in> set os. usable obs}"

lemma totals_nonneg: "0 \<le> total_sent a k os" "0 \<le> total_received a k os"
  by (auto simp: total_sent_def total_received_def intro!: sum_list_nonneg)

lemma totals_snoc:
  "total_sent a k (os @ [obs]) = total_sent a k os + (if usable obs \<and> obs_key a obs = k then min max_int (uint (Sent obs)) else 0)"
  "total_received a k (os @ [obs]) = total_received a k os + (if usable obs \<and> obs_key a obs = k then min max_int (uint (Received obs)) else 0)"
  by (simp_all add: total_sent_def total_received_def matching_def)

lemma matching_Nil: "matching a k os = [] \<longleftrightarrow> k \<notin> active_keys a os"
  by (auto simp: matching_def active_keys_def filter_empty_conv)

lemma min_sum_assoc: "0 \<le> b \<Longrightarrow> min m (min m a + b) = min m (a + b)" for a b m :: int
  by (auto simp: min_def)

lemma totals_zero: "k \<notin> active_keys a os \<Longrightarrow> total_sent a k os = 0 \<and> total_received a k os = 0"
  using matching_Nil [of a k os] by (simp add: total_sent_def total_received_def)

text \<open>As long as no more connections are active than the table holds, every entry is the
  saturated sum of the observations of its connection.\<close>

definition tallies :: "Attributor \<Rightarrow> Observation list \<Rightarrow> Collector \<Rightarrow> bool" where
  "tallies a os col \<longleftrightarrow> attributor col = a \<and> table_inv col \<and> fst ` set (vals col) = active_keys a os \<and>
     (\<forall>k cd. map_of (vals col) k = Some cd \<longrightarrow>
        sint (cd_BytesSent cd) = min max_int (total_sent a k os) \<and>
        sint (cd_BytesReceived cd) = min max_int (total_received a k os)) \<and>
     dropped col = of_nat (length (filter (\<lambda>obs. \<not> usable obs) os))"

lemma tallies_skip:
  "\<not> usable obs \<Longrightarrow> tallies a os col \<Longrightarrow> tallies a (os @ [obs]) (Observe col obs)"
  using table_inv_Observe [of col obs]
  by (auto simp: tallies_def Observe_cases totals_snoc active_keys_def)

lemma tallies_merge:
  assumes t: "tallies a os col" and u: "usable obs" and room: "card (active_keys a (os @ [obs])) \<le> maxActiveConnections"
  shows "tallies a (os @ [obs]) (Observe col obs)"
proof -
  let ?k = "obs_key a obs" and ?vs = "vals col"
  let ?v = "merged a (map_of ?vs ?k) obs"
  have a: "attributor col = a" and inv: "table_inv col" and ks: "fst ` set ?vs = active_keys a os"
    and tot: "\<And>k cd. map_of ?vs k = Some cd \<Longrightarrow> sint (cd_BytesSent cd) = min max_int (total_sent a k os) \<and>
        sint (cd_BytesReceived cd) = min max_int (total_received a k os)"
    and dr: "dropped col = of_nat (length (filter (\<lambda>obs. \<not> usable obs) os))"
    using t by (auto simp: tallies_def)
  have keys: "active_keys a (os @ [obs]) = insert ?k (active_keys a os)"
    using u by (auto simp: active_keys_def)
  have len: "length ?vs = card (active_keys a os)"
    using inv ks by (metis table_inv_def distinct_card length_map list.set_map)
  have fin: "finite (active_keys a os)" by (simp add: active_keys_def)
  have notfull: "\<not> full_for col obs"
    using room fin by (auto simp: full_for_def a keys len map_of_eq_None_iff ks)
  then have step: "Observe col obs = col\<lparr>vals := AList.update ?k ?v ?vs\<rparr>"
    using u by (simp add: Observe_cases a)
  have v: "sint (cd_BytesSent ?v) = min max_int (total_sent a ?k (os @ [obs])) \<and>
      sint (cd_BytesReceived ?v) = min max_int (total_received a ?k (os @ [obs]))"
  proof (cases "map_of ?vs ?k")
    case None
    then have "?k \<notin> active_keys a os" using ks by (simp add: map_of_eq_None_iff)
    with None u show ?thesis using totals_zero [of ?k a os] by (simp add: merged_bytes totals_snoc)
  next
    case (Some cd)
    then show ?thesis
      using u tot [OF Some] table_inv_lookup [OF inv Some]
      by (simp add: merged_bytes totals_snoc min_sum_assoc)
  qed
  have "fst ` set (AList.update ?k ?v ?vs) = insert ?k (fst ` set ?vs)"
    by (simp add: dom_update)
  with inv step show ?thesis
    using table_inv_Observe [OF inv, of obs] v tot u
    by (auto simp: tallies_def a ks keys dr update_conv totals_snoc split: if_splits)
qed

lemma tallies_run:
  "card (active_keys a os) \<le> maxActiveConnections \<Longrightarrow> tallies a os (foldl Observe (NewCollector a) os)"
proof (induction os rule: rev_induct)
  case Nil
  then show ?case
    using table_inv_New [of a] by (simp add: tallies_def NewCollector_def active_keys_def)
next
  case (snoc obs os)
  have "active_keys a os \<subseteq> active_keys a (os @ [obs])" by (auto simp: active_keys_def)
  moreover have "finite (active_keys a (os @ [obs]))" by (simp add: active_keys_def)
  ultimately have "card (active_keys a os) \<le> maxActiveConnections"
    using snoc.prems by (meson card_mono le_trans)
  then have "tallies a os (foldl Observe (NewCollector a) os)" by (rule snoc.IH)
  with snoc.prems show ?case by (cases "usable obs") (simp_all add: tallies_skip tallies_merge)
qed


text \<open>With more connections than that, an entry can only fall short of its sum.\<close>

lemma entry_le_total:
  "map_of (vals (foldl Observe (NewCollector a) os)) k = Some cd \<Longrightarrow>
     sint (cd_BytesSent cd) \<le> total_sent a k os \<and> sint (cd_BytesReceived cd) \<le> total_received a k os"
proof (induction os arbitrary: cd rule: rev_induct)
  case Nil
  then show ?case by (simp add: NewCollector_def)
next
  case (snoc obs os)
  let ?col = "foldl Observe (NewCollector a) os"
  have inv: "table_inv ?col" by (simp add: table_inv_run table_inv_New)
  have a: "attributor (NewCollector a) = a" by (simp add: NewCollector_def)
  let ?k = "obs_key a obs"
  show ?case
  proof (cases "usable obs \<and> \<not> full_for ?col obs \<and> ?k = k")
    case True
    then have cd: "cd = merged a (map_of (vals ?col) k) obs"
      using snoc.prems by (auto simp: Observe_cases [of ?col obs] a update_conv)
    have "case map_of (vals ?col) k of Some cd \<Rightarrow> 0 \<le> sint (cd_BytesSent cd) \<and> 0 \<le> sint (cd_BytesReceived cd) | None \<Rightarrow> True"
      using table_inv_lookup [OF inv, of k] by (simp split: option.splits)
    from merged_bytes [OF this, of a obs] show ?thesis
      using True snoc.IH totals_nonneg [of a k os]
      by (auto simp: cd totals_snoc min_le_iff_disj split: option.splits)
  next
    case False
    then have "map_of (vals ?col) k = Some cd"
      using snoc.prems by (auto simp: Observe_cases [of ?col obs] a update_conv split: if_splits)
    from snoc.IH [OF this] show ?thesis by (auto simp: totals_snoc intro: add_increasing2)
  qed
qed

subsection \<open>Sequences of collector operations\<close>

text \<open>The three goroutines that use a collector call it in some interleaving: observations from
  the tracer, drains from the sampling loop, inventory snapshots from Docker.\<close>

datatype collector_op =
    OpObserve Observation
  | OpDrain int
  | OpSnapshot "u64 \<Rightarrow> Container option"

fun collector_step :: "(connectionKey \<Rightarrow> int \<Rightarrow> string) \<Rightarrow> collector_op \<Rightarrow>
    Collector \<times> Event list \<Rightarrow> Collector \<times> Event list" where
  "collector_step digest (OpObserve obs) (col, evs) = (Observe col obs, evs)"
| "collector_step digest (OpDrain t) (col, evs) = (case Drain digest col t of (col', out) \<Rightarrow> (col', evs @ out))"
| "collector_step digest (OpSnapshot m) (col, evs) = (col\<lparr>attributor := SetSnapshot (attributor col) m\<rparr>, evs)"

definition run_collector :: "(connectionKey \<Rightarrow> int \<Rightarrow> string) \<Rightarrow> collector_op list \<Rightarrow> Collector \<Rightarrow>
    Collector \<times> Event list" where
  "run_collector digest ops col = fold (collector_step digest) ops (col, [])"

text \<open>The observations of a sequence that \<^verbatim>\<open>Observe\<close> counts, and the number it drops.\<close>

definition counts :: "Collector \<Rightarrow> Observation \<Rightarrow> bool" where
  "counts col obs \<longleftrightarrow> usable obs \<and> \<not> full_for col obs"

fun counted :: "(connectionKey \<Rightarrow> int \<Rightarrow> string) \<Rightarrow> Collector \<Rightarrow> collector_op list \<Rightarrow> Observation list" where
  "counted digest col [] = []"
| "counted digest col (op # ops) =
     (case op of OpObserve obs \<Rightarrow> if counts col obs then [obs] else [] | _ \<Rightarrow> []) @
     counted digest (fst (collector_step digest op (col, []))) ops"

fun refused :: "(connectionKey \<Rightarrow> int \<Rightarrow> string) \<Rightarrow> Collector \<Rightarrow> collector_op list \<Rightarrow> Observation list" where
  "refused digest col [] = []"
| "refused digest col (op # ops) =
     (case op of OpObserve obs \<Rightarrow> if counts col obs then [] else [obs] | _ \<Rightarrow> []) @
     refused digest (fst (collector_step digest op (col, []))) ops"

definition bytes_in :: "(ConnectionDelta \<Rightarrow> int64) \<Rightarrow> ConnectionDelta list \<Rightarrow> int" where
  "bytes_in get cds = (\<Sum>cd\<leftarrow>cds. sint (get cd))"

text \<open>The connection payloads of a list of events.\<close>

definition event_deltas :: "Event list \<Rightarrow> ConnectionDelta list" where
  "event_deltas evs = List.map_filter ev_Connection evs"

lemma event_deltas_simps [simp]:
  "event_deltas [] = []" "event_deltas (xs @ ys) = event_deltas xs @ event_deltas ys"
  "event_deltas (map (connection_event digest t) kvs) = map snd kvs"
proof -
  show "event_deltas (xs @ ys) = event_deltas xs @ event_deltas ys"
    by (induction xs) (simp_all add: event_deltas_def split: option.split)
  show "event_deltas (map (connection_event digest t) kvs) = map snd kvs"
    by (induction kvs) (simp_all add: event_deltas_def connection_event_def zero_Event_def)
qed (simp add: event_deltas_def)

text \<open>Bytes held by a collector and the events drained from it, in the direction \<open>get\<close>.\<close>

definition held :: "(ConnectionDelta \<Rightarrow> int64) \<Rightarrow> Collector \<times> Event list \<Rightarrow> int" where
  "held get st = bytes_in get (map snd (vals (fst st))) + bytes_in get (event_deltas (snd st))"

lemma bytes_in_simps [simp]:
  "bytes_in get [] = 0" "bytes_in get (cd # cds) = sint (get cd) + bytes_in get cds"
  "bytes_in get (xs @ ys) = bytes_in get xs + bytes_in get ys"
  by (simp_all add: bytes_in_def)

lemma bytes_in_update:
  assumes "distinct (map fst xs)"
  shows "bytes_in get (map snd (AList.update k v xs)) = bytes_in get (map snd xs) + sint (get v) -
    (case map_of xs k of Some cd \<Rightarrow> sint (get cd) | None \<Rightarrow> 0)"
  using assms
proof (induction xs)
  case (Cons x xs)
  then show ?case
    by (cases x) (auto split: option.splits simp: map_of_eq_None_iff)
qed simp

lemma bytes_in_member:
  "list_all (\<lambda>cd. 0 \<le> sint (get cd)) cds \<Longrightarrow> cd \<in> set cds \<Longrightarrow> sint (get cd) \<le> bytes_in get cds"
  "list_all (\<lambda>cd. 0 \<le> sint (get cd)) cds \<Longrightarrow> 0 \<le> bytes_in get cds"
  by (induction cds) auto

lemma collector_step_fst: "fst (collector_step digest op (col, evs)) = fst (collector_step digest op (col, []))"
  by (cases op) (simp_all add: Drain_def)

lemma table_inv_step: "table_inv (fst st) \<Longrightarrow> table_inv (fst (collector_step digest op st))"
  by (cases st; cases op) (simp_all add: Drain_def table_inv_Observe, simp_all add: table_inv_def)

lemma dropped_run:
  "dropped (fst (fold (collector_step digest) ops st)) =
     dropped (fst st) + of_nat (length (refused digest (fst st) ops))"
proof (induction ops arbitrary: st)
  case (Cons op ops)
  obtain col evs where st: "st = (col, evs)" by (cases st)
  have "dropped (fst (collector_step digest op st)) = dropped col +
      of_nat (length (case op of OpObserve obs \<Rightarrow> if counts col obs then [] else [obs] | _ \<Rightarrow> []))"
    by (cases op) (simp_all add: st Drain_def Observe_cases counts_def)
  then show ?case
    by (simp add: Cons.IH st collector_step_fst [of digest op col evs])
qed simp

text \<open>What a direction of traffic promises: the merge adds up to saturation, and no entry is negative.\<close>

locale byte_direction =
  fixes get :: "ConnectionDelta \<Rightarrow> int64" and src :: "Observation \<Rightarrow> u64"
  assumes get_merged: "(\<And>cd. found = Some cd \<Longrightarrow> 0 \<le> sint (get cd)) \<Longrightarrow>
      sint (get (merged a found obs)) = min max_int
        ((case found of Some cd \<Rightarrow> sint (get cd) | None \<Rightarrow> 0) + min max_int (uint (src obs)))"
    and get_nonneg: "table_inv col \<Longrightarrow> cd \<in> snd ` set (vals col) \<Longrightarrow> 0 \<le> sint (get cd)"
begin

abbreviation fed :: "Observation list \<Rightarrow> int" where
  "fed os \<equiv> (\<Sum>obs\<leftarrow>os. uint (src obs))"

abbreviation solid :: "Collector \<times> Event list \<Rightarrow> bool" where
  "solid st \<equiv> table_inv (fst st) \<and> list_all (\<lambda>cd. 0 \<le> sint (get cd)) (event_deltas (snd st))"

lemma table_nonneg: "table_inv col \<Longrightarrow> list_all (\<lambda>cd. 0 \<le> sint (get cd)) (map snd (vals col))"
  using get_nonneg by (simp add: list_all_iff)

lemma solid_step: "solid st \<Longrightarrow> solid (collector_step digest op st)"
  using table_inv_step [of st digest op] table_nonneg [of "fst st"]
  by (cases st; cases op) (auto simp: Drain_def list_all_iff)

lemma held_observe:
  assumes st: "solid (col, evs)" and c: "counts col obs" and room: "held get (col, evs) + uint (src obs) \<le> max_int"
  shows "held get (Observe col obs, evs) = held get (col, evs) + uint (src obs)"
proof -
  let ?k = "obs_key (attributor col) obs"
  let ?found = "map_of (vals col) ?k"
  let ?old = "case ?found of Some cd \<Rightarrow> sint (get cd) | None \<Rightarrow> 0"
  have inv: "table_inv col" using st by simp
  have nonneg: "\<And>cd. ?found = Some cd \<Longrightarrow> 0 \<le> sint (get cd)"
    using get_nonneg [OF inv] by (force dest: map_of_SomeD)
  have old: "?old \<le> bytes_in get (map snd (vals col))"
    using bytes_in_member [OF table_nonneg [OF inv]]
    by (force split: option.splits dest: map_of_SomeD)
  have "0 \<le> bytes_in get (event_deltas evs)"
    using bytes_in_member(2) [of get "event_deltas evs"] st by simp
  moreover have "0 \<le> ?old" using nonneg by (simp split: option.splits)
  ultimately have "?old + uint (src obs) \<le> max_int" "uint (src obs) \<le> max_int"
    using room old by (simp_all add: held_def)
  then have "sint (get (merged (attributor col) ?found obs)) = ?old + uint (src obs)"
    using get_merged [of ?found, OF nonneg] by simp
  moreover have "distinct (map fst (vals col))" using inv by (simp add: table_inv_def)
  ultimately show ?thesis
    using c by (simp add: Observe_cases counts_def held_def bytes_in_update)
qed

lemma held_step:
  assumes "solid st" "held get st + fed (counted digest (fst st) [op]) \<le> max_int"
  shows "held get (collector_step digest op st) = held get st + fed (counted digest (fst st) [op])"
proof (cases st)
  case (Pair col evs)
  then show ?thesis
    using assms held_observe [of col evs]
    by (cases op) (auto simp: held_def Drain_def comp_def case_prod_beta Observe_cases counts_def)
qed

lemma fed_nonneg: "0 \<le> fed os"
  by (rule sum_list_nonneg) auto

lemma held_run:
  "solid st \<Longrightarrow> held get st + fed (counted digest (fst st) ops) \<le> max_int \<Longrightarrow>
   held get (fold (collector_step digest) ops st) = held get st + fed (counted digest (fst st) ops)"
proof (induction ops arbitrary: st)
  case (Cons op ops)
  let ?st = "collector_step digest op st"
  have f: "fst ?st = fst (collector_step digest op (fst st, []))"
    using collector_step_fst [of digest op "fst st" "snd st"] by simp
  have split: "fed (counted digest (fst st) (op # ops)) = fed (counted digest (fst st) [op]) + fed (counted digest (fst ?st) ops)"
    by (simp add: f)
  have step: "held get ?st = held get st + fed (counted digest (fst st) [op])"
    using Cons.prems fed_nonneg [of "counted digest (fst ?st) ops"] unfolding split
    by (intro held_step) (simp_all add: comp_def)
  with Cons.IH [OF solid_step [OF Cons.prems(1)], of digest op] Cons.prems(2) show ?case
    unfolding split by simp
qed simp

lemma conserved:
  assumes "fed (counted digest (NewCollector a) ops) \<le> max_int"
  shows "held get (run_collector digest ops (NewCollector a)) = fed (counted digest (NewCollector a) ops)"
  using held_run [of "(NewCollector a, [])" digest ops] assms table_inv_New [of a]
  by (simp add: run_collector_def held_def NewCollector_def)

end

interpretation sent: byte_direction cd_BytesSent Sent
  by unfold_locales
    (auto simp: merged_def Attribute_def zero_delta_def Let_def saturatingAdd_value clampUint64_value table_inv_def
      split: option.splits)

interpretation received: byte_direction cd_BytesReceived Received
  by unfold_locales
    (auto simp: merged_def Attribute_def zero_delta_def Let_def saturatingAdd_value clampUint64_value table_inv_def
      split: option.splits)

subsection \<open>Validity of what the collector reports\<close>

text \<open>What the process table and the container inventory promise: a process that exists has a non-zero
  identifier, a container has an identifier.\<close>

definition snapshot_ok :: "(u64 \<Rightarrow> Container option) \<Rightarrow> bool" where
  "snapshot_ok m \<longleftrightarrow> (\<forall>g c. m g = Some c \<longrightarrow> cont_ID c \<noteq> [])"

definition attributor_ok :: "Attributor \<Rightarrow> bool" where
  "attributor_ok a \<longleftrightarrow> snapshot_ok (byCgroup a) \<and> (\<forall>p q. processes a p = Some q \<longrightarrow> proc_PID q \<noteq> 0)"

fun op_ok :: "collector_op \<Rightarrow> bool" where
  "op_ok (OpObserve obs) = (usable obs \<longrightarrow> proper_addr (LocalIP obs) \<and> proper_addr (RemoteIP obs))"
| "op_ok (OpDrain t) = (t \<noteq> 0)"
| "op_ok (OpSnapshot m) = snapshot_ok m"

lemma protocolName_nonempty: "protocolName p \<noteq> []"
  by (simp add: protocolName_def itoa_nonempty)

lemma attribute_owner_valid: "attributor_ok a \<Longrightarrow> valid_owner (attribute_owner a obs)"
  by (auto simp: attributor_ok_def snapshot_ok_def attribute_owner_def valid_owner_def owner_kind_defs word_neq_0_conv
      word_less_def split: option.splits)

lemma merged_valid:
  assumes "attributor_ok a" "usable obs" "proper_addr (LocalIP obs)" "proper_addr (RemoteIP obs)"
    and "0 \<le> sint (cd_BytesSent (merged a found obs))" "0 \<le> sint (cd_BytesReceived (merged a found obs))"
  shows "valid_connection (merged a found obs)"
  using assms attribute_owner_valid [OF assms(1)] protocolName_nonempty
  by (simp add: merged_def Attribute_def valid_connection_def valid_endpoint_def usable_def parse_addr_string Let_def
      ConfidenceIPOnly_def)

definition table_valid :: "Collector \<Rightarrow> bool" where
  "table_valid col \<longleftrightarrow> attributor_ok (attributor col) \<and> (\<forall>cd \<in> snd ` set (vals col). valid_connection cd)"

lemma table_valid_observe:
  assumes "table_inv col" "table_valid col" "op_ok (OpObserve obs)"
  shows "table_valid (Observe col obs)"
proof (cases "counts col obs")
  case True
  let ?k = "obs_key (attributor col) obs"
  let ?v = "merged (attributor col) (map_of (vals col) ?k) obs"
  have "(?k, ?v) \<in> set (vals (Observe col obs))"
    using True by (auto simp: Observe_cases counts_def update_conv' intro!: map_of_SomeD)
  with table_inv_Observe [OF assms(1), of obs]
  have "0 \<le> sint (cd_BytesSent ?v)" "0 \<le> sint (cd_BytesReceived ?v)" by (auto simp: table_inv_def)
  then have "valid_connection ?v"
    using assms True by (intro merged_valid) (auto simp: table_valid_def counts_def)
  with assms(2) True show ?thesis
    using set_update_subset [of ?k ?v "vals col"] by (fastforce simp: Observe_cases counts_def table_valid_def)
next
  case False
  then show ?thesis using assms(2) by (simp add: Observe_cases counts_def table_valid_def)
qed

lemma connection_event_valid:
  assumes "valid_connection cd" "t \<noteq> 0" "length (digest k t) = 24"
  shows "valid_event (connection_event digest t (k, cd))"
  using assms
  by (simp add: valid_event_def connection_event_def zero_Event_def id_ok_def valid_payload_def payload_kinds_def kind_defs)

lemma drain_valid:
  assumes "table_valid col" "t \<noteq> 0" "\<forall>k t. length (digest k t) = 24"
  shows "list_all valid_event (snd (Drain digest col t))"
  using assms connection_event_valid [of _ t digest] by (auto simp: Drain_def table_valid_def list_all_iff)

lemma valid_step:
  assumes "table_inv (fst st)" "table_valid (fst st)" "list_all valid_event (snd st)" "op_ok op"
    "\<forall>k t. length (digest k t) = 24"
  shows "table_valid (fst (collector_step digest op st)) \<and> list_all valid_event (snd (collector_step digest op st))"
proof (cases st)
  case (Pair col evs)
  show ?thesis
  proof (cases op)
    case (OpObserve obs)
    then show ?thesis using assms Pair table_valid_observe [of col obs] by simp
  next
    case (OpDrain t)
    then show ?thesis
      using assms Pair drain_valid [of col t digest] by (auto simp: Drain_def table_valid_def)
  next
    case (OpSnapshot m)
    then show ?thesis
      using assms Pair by (auto simp: table_valid_def SetSnapshot_def attributor_ok_def)
  qed
qed

lemma valid_run:
  assumes "\<forall>k t. length (digest k t) = 24"
  shows "table_inv (fst st) \<Longrightarrow> table_valid (fst st) \<Longrightarrow> list_all valid_event (snd st) \<Longrightarrow> list_all op_ok ops \<Longrightarrow>
    table_inv (fst (fold (collector_step digest) ops st)) \<and>
    table_valid (fst (fold (collector_step digest) ops st)) \<and> list_all valid_event (snd (fold (collector_step digest) ops st))"
  using assms by (induction ops arbitrary: st) (simp_all add: valid_step table_inv_step)

lemma drained_batch_valid:
  assumes "table_inv col" "table_valid col" "\<forall>k t. length (digest k t) = 24"
    and batch: "ba_SchemaVersion b = 1" "id_ok (ba_BatchID b)" "id_ok (ba_NodeID b)" "ba_SentAt b \<noteq> 0"
      "ba_CompactedBatchIDs b = []" "ba_Events b = snd (Drain digest col t)" "vals col \<noteq> []" "t \<noteq> 0"
  shows "Validate b = None"
proof -
  have "length (ba_Events b) \<in> {1..5000}"
    using assms(1) batch(6,7) by (simp add: Drain_def table_inv_def maxActiveConnections_def Suc_le_eq)
  moreover have "list_all valid_event (ba_Events b)" using drain_valid [OF assms(2) batch(8) assms(3)] batch(6) by simp
  ultimately have "valid_batch b" using batch(1-5) by (simp add: valid_batch_def)
  then show ?thesis by (simp add: Validate_iff)
qed

subsection \<open>Properties\<close>

definition demo_attributor :: Attributor where
  "demo_attributor = \<lparr>processes = (\<lambda>p. if p = 42 then
       Some \<lparr>proc_PID = 42, proc_Name = ''curl'', proc_CgroupPath = ''/'', proc_StartTime = 7\<rparr> else None),
     byCgroup = (\<lambda>_. None)\<rparr>"

definition demo_obs :: "u64 \<Rightarrow> Observation" where
  "demo_obs n = (observation_of demo_event)\<lparr>Sent := n\<rparr>"

lemma demo_obs_usable: "usable (demo_obs n)"
  by (simp add: usable_def demo_obs_def observation_of_def demo_event_def event_addr_def AF_INET_def
      net_order_def byte_eval)

lemma demo_obs_key: "obs_key a (demo_obs n) = obs_key a (demo_obs 0)"
  by (simp add: obs_key_def demo_obs_def Attribute_def connection_key_def attribute_owner_def split: option.split)

text \<open>Memory of the collector is bounded whatever it is fed: after any interleaving of observations, drains
  and inventory changes the table has at most 4096 entries, one per key, filed under its own
  key, with non-negative byte counts and non-zero ports.\<close>

theorem collector_table_bounded: "table_inv (fst (run_collector digest ops (NewCollector a)))"
proof -
  have "table_inv (fst st) \<Longrightarrow> table_inv (fst (fold (collector_step digest) ops st))" for st
    by (induction ops arbitrary: st) (simp_all add: table_inv_step)
  then show ?thesis by (simp add: run_collector_def table_inv_New)
qed

text \<open>C7. Conservation of bytes: over any interleaving of observations, drains and inventory changes, the bytes
  in the drained events plus the bytes still in the table are exactly the bytes of the
  observations counted, in each direction, as long as they fit a signed 64-bit number; every
  other observation is counted as dropped.\<close>

theorem collector_conserves_bytes:
  assumes "(\<Sum>obs\<leftarrow>counted digest (NewCollector a) ops. uint (Sent obs)) \<le> max_int"
    and "(\<Sum>obs\<leftarrow>counted digest (NewCollector a) ops. uint (Received obs)) \<le> max_int"
  shows "held cd_BytesSent (run_collector digest ops (NewCollector a)) =
      (\<Sum>obs\<leftarrow>counted digest (NewCollector a) ops. uint (Sent obs)) \<and>
    held cd_BytesReceived (run_collector digest ops (NewCollector a)) =
      (\<Sum>obs\<leftarrow>counted digest (NewCollector a) ops. uint (Received obs)) \<and>
    dropped (fst (run_collector digest ops (NewCollector a))) =
      of_nat (length (refused digest (NewCollector a) ops))"
  using sent.conserved [OF assms(1)] received.conserved [OF assms(2)]
    dropped_run [of digest ops "(NewCollector a, [])"]
  by (simp add: run_collector_def NewCollector_def)

definition demo_ops :: "collector_op list" where
  "demo_ops = [OpObserve (demo_obs 100), OpDrain 1, OpObserve (demo_obs 30), OpSnapshot (\<lambda>_. None),
     OpObserve ((demo_obs 5)\<lparr>RemotePort := 0\<rparr>)]"

lemma demo_counted:
  "counted digest (NewCollector demo_attributor) demo_ops = [demo_obs 100, demo_obs 30]"
proof -
  have "\<not> usable ((demo_obs 5)\<lparr>RemotePort := 0\<rparr>)" by (simp add: usable_def)
  then show ?thesis
    by (simp add: demo_ops_def counts_def demo_obs_usable full_for_def NewCollector_def Drain_def Observe_cases
      maxActiveConnections_def demo_attributor_def SetSnapshot_def)
qed

theorem collector_conserves_bytes_witness:
  "held cd_BytesSent (run_collector (\<lambda>_ _. ''d'') demo_ops (NewCollector demo_attributor)) = 130"
  using collector_conserves_bytes [of "\<lambda>_ _. ''d''" demo_attributor demo_ops]
  by (simp add: demo_counted) (simp add: demo_obs_def observation_of_def demo_event_def)

text \<open>Totals per connection: while no more connections are active than the table holds, the table has one
  entry for each connection observed; its byte counts are the sums of the observations of that
  connection, saturated at the largest signed 64-bit number; only unusable observations are
  dropped.\<close>

theorem collector_totals:
  assumes "card (active_keys a os) \<le> maxActiveConnections"
  shows "fst ` set (vals (foldl Observe (NewCollector a) os)) = active_keys a os \<and>
    (\<forall>k \<in> active_keys a os. \<exists>cd. map_of (vals (foldl Observe (NewCollector a) os)) k = Some cd \<and>
      sint (cd_BytesSent cd) = min max_int (total_sent a k os) \<and>
      sint (cd_BytesReceived cd) = min max_int (total_received a k os)) \<and>
    dropped (foldl Observe (NewCollector a) os) = of_nat (length (filter (\<lambda>obs. \<not> usable obs) os))"
proof -
  let ?col = "foldl Observe (NewCollector a) os"
  have t: "tallies a os ?col" using assms by (rule tallies_run)
  have "\<exists>cd. map_of (vals ?col) k = Some cd" if "k \<in> active_keys a os" for k
    using that t by (metis tallies_def map_of_eq_None_iff not_None_eq)
  with t show ?thesis unfolding tallies_def by blast
qed

theorem collector_totals_witness:
  "\<exists>cd. map_of (vals (foldl Observe (NewCollector demo_attributor) [demo_obs 100, demo_obs 30]))
     (obs_key demo_attributor (demo_obs 0)) = Some cd \<and> sint (cd_BytesSent cd) = 130"
proof -
  let ?a = demo_attributor and ?os = "[demo_obs 100, demo_obs 30]"
  have "{obs \<in> set ?os. usable obs} = {demo_obs 100, demo_obs 30}" by (auto simp: demo_obs_usable)
  then have keys: "active_keys ?a ?os = {obs_key ?a (demo_obs 0)}"
    using demo_obs_key [of ?a 100] demo_obs_key [of ?a 30]
    by (simp add: active_keys_def del: list.set)
  have "total_sent ?a (obs_key ?a (demo_obs 0)) ?os = 130"
    using demo_obs_key [of ?a 100] demo_obs_key [of ?a 30]
    by (simp add: total_sent_def matching_def demo_obs_usable) (simp add: demo_obs_def)
  with collector_totals [of ?a ?os] show ?thesis by (auto simp: keys maxActiveConnections_def)
qed

definition old_bytes :: "(ConnectionDelta \<Rightarrow> int64) \<Rightarrow> Collector \<Rightarrow> connectionKey \<Rightarrow> int" where
  "old_bytes get col k = (case map_of (vals col) k of Some cd \<Rightarrow> sint (get cd) | None \<Rightarrow> 0)"

text \<open>One observation, exactly: it is dropped, and nothing else changes, if and only if a port is zero, an
  address is missing, or its connection is new and the table is full; otherwise the entry of
  its own connection alone is replaced, with both counts added up to saturation.\<close>

theorem observe_exact:
  assumes "table_inv col" and "k = connection_key (Attribute (attributor col) obs)"
  shows "if LocalPort obs = 0 \<or> RemotePort obs = 0 \<or> LocalIP obs = NoAddr \<or> RemoteIP obs = NoAddr \<or>
         (k \<notin> dom (map_of (vals col)) \<and> maxActiveConnections \<le> length (vals col))
      then Observe col obs = col\<lparr>dropped := dropped col + 1\<rparr>
      else attributor (Observe col obs) = attributor col \<and> dropped (Observe col obs) = dropped col \<and>
        (\<exists>cd. map_of (vals (Observe col obs)) = (map_of (vals col))(k \<mapsto> cd) \<and> connection_key cd = k \<and>
           sint (cd_BytesSent cd) = min max_int (old_bytes cd_BytesSent col k + min max_int (uint (Sent obs))) \<and>
           sint (cd_BytesReceived cd) =
             min max_int (old_bytes cd_BytesReceived col k + min max_int (uint (Received obs))))"
proof -
  have valid: "IsValid x \<longleftrightarrow> x \<noteq> NoAddr" for x by (cases x) auto
  have k: "obs_key (attributor col) obs = k" using assms(2) by (simp add: obs_key_def)
  have "case map_of (vals col) k of
      Some cd \<Rightarrow> 0 \<le> sint (cd_BytesSent cd) \<and> 0 \<le> sint (cd_BytesReceived cd) | None \<Rightarrow> True"
    using table_inv_lookup [OF assms(1), of k] by (simp split: option.splits)
  note m = merged_bytes [OF this, of "attributor col" obs]
  show ?thesis
    by (auto simp: Observe_cases usable_def full_for_def k valid map_of_eq_None_iff update_conv'
        old_bytes_def m merged_key dom_map_of_conv_image_fst
        intro!: exI [where x = "merged (attributor col) (map_of (vals col) k) obs"])
qed

theorem observe_exact_witness:
  "Observe (NewCollector demo_attributor) ((demo_obs 5)\<lparr>RemotePort := 0\<rparr>) =
     (NewCollector demo_attributor)\<lparr>dropped := 1\<rparr>"
  using observe_exact [OF table_inv_New [of demo_attributor] refl, of "(demo_obs 5)\<lparr>RemotePort := 0\<rparr>"]
  by (simp add: NewCollector_def)

text \<open>Everything the collector reports passes the server's validation: over any interleaving of operations,
  with processes and containers that have identifiers and observations with real addresses,
  every drained event is valid, and the events of a final drain of a non-empty table form a batch
  that \<^verbatim>\<open>Validate\<close> accepts.\<close>

theorem collector_events_valid:
  assumes "attributor_ok a" "list_all op_ok ops" "\<forall>k t. length (digest k t) = 24"
    and run: "run_collector digest ops (NewCollector a) = (col, evs)"
    and batch: "ba_SchemaVersion b = 1" "id_ok (ba_BatchID b)" "id_ok (ba_NodeID b)" "ba_SentAt b \<noteq> 0"
      "ba_CompactedBatchIDs b = []" "ba_Events b = snd (Drain digest col t)" "vals col \<noteq> []" "t \<noteq> 0"
  shows "list_all valid_event evs \<and> Validate b = None"
proof -
  have "table_inv (fst (NewCollector a, []))" "table_valid (fst (NewCollector a, []))"
    using table_inv_New assms(1) by (simp_all add: table_valid_def NewCollector_def)
  from valid_run [OF assms(3) this _ assms(2)] run
  have v: "table_inv col" "table_valid col" "list_all valid_event evs" by (simp_all add: run_collector_def)
  from drained_batch_valid [OF v(1,2) assms(3) batch] v(3) show ?thesis by simp
qed

theorem collector_events_valid_witness:
  "Validate \<lparr>ba_SchemaVersion = 1, ba_BatchID = ''b'', ba_NodeID = ''n'', ba_SentAt = 9,
     ba_Events = snd (Drain (\<lambda>_ _. replicate 24 CHR ''0'') (fst (run_collector (\<lambda>_ _. replicate 24 CHR ''0'')
       [OpObserve (demo_obs 100)] (NewCollector demo_attributor))) 8), ba_CompactedBatchIDs = []\<rparr> = None"
proof -
  let ?d = "\<lambda>(_ :: connectionKey) (_ :: int). replicate 24 CHR ''0''"
  let ?r = "run_collector ?d [OpObserve (demo_obs 100)] (NewCollector demo_attributor)"
  have r: "?r = (fst ?r, snd ?r)" by simp
  have "attributor_ok demo_attributor" by (simp add: attributor_ok_def snapshot_ok_def demo_attributor_def)
  moreover have "list_all op_ok [OpObserve (demo_obs 100)]"
    by (simp add: demo_obs_def observation_of_def demo_event_def event_addr_def AF_INET_def)
  moreover have "vals (fst ?r) \<noteq> []"
    by (simp add: run_collector_def Observe_cases demo_obs_usable full_for_def NewCollector_def maxActiveConnections_def)
  ultimately show ?thesis
    using collector_events_valid [OF _ _ _ r, where t = 8] by (simp add: id_ok_def)
qed

text \<open>The inventory report lists every container of the snapshot exactly once, in increasing order of
  identifiers, with its own data; it is valid if the containers have identifiers, parsable
  addresses and non-zero ports.\<close>

theorem inventory_events_complete:
  assumes "distinct (map fst byID)" "t \<noteq> 0" "\<forall>i t. length (digest i t) = 24"
    and "\<forall>c \<in> snd ` set byID. cont_ID c \<noteq> [] \<and> list_all parses (cont_Addresses c) \<and> 0 \<notin> set (cont_Ports c)"
  shows "\<exists>cs. mset cs = mset byID \<and> sorted (map fst cs) \<and>
      InventoryEvents digest byID t = map (\<lambda>(i, c). inventory_event digest t i c) cs \<and>
      list_all valid_event (InventoryEvents digest byID t)"
proof -
  let ?get = "\<lambda>i. case map_of byID i of Some c \<Rightarrow> c | None \<Rightarrow> zero_Container"
  let ?cs = "map (\<lambda>i. (i, ?get i)) (sort (map fst byID))"
  have get: "?get (fst x) = snd x" if "x \<in> set byID" for x
    using assms(1) that by (cases x) simp
  have "map (\<lambda>i. (i, ?get i)) (map fst byID) = byID"
    using get by (simp add: comp_def map_idI)
  then have m: "mset ?cs = mset byID"
    by (metis mset_map mset_sort)
  have e: "InventoryEvents digest byID t = map (\<lambda>(i, c). inventory_event digest t i c) ?cs"
    by (simp add: InventoryEvents_def comp_def)
  have "valid_event (inventory_event digest t i c)" if "(i, c) \<in> set byID" for i c
    using assms(2-4) that
    by (force simp: valid_event_def inventory_event_def zero_Event_def id_ok_def valid_payload_def payload_kinds_def
        kind_defs valid_inventory_def valid_owner_def list_all_iff parses_def)
  moreover have "set ?cs = set byID" using arg_cong [OF m, of set_mset] by (simp only: set_mset_mset)
  ultimately have "list_all valid_event (map (\<lambda>(i, c). inventory_event digest t i c) ?cs)"
    unfolding list_all_iff set_map [of "\<lambda>(i, c). inventory_event digest t i c" ?cs] by auto
  then have "list_all valid_event (InventoryEvents digest byID t)" unfolding e .
  with m e show ?thesis by (intro exI [of _ ?cs]) (simp add: comp_def)
qed

theorem inventory_events_complete_witness:
  "list_all valid_event (InventoryEvents (\<lambda>_ _. replicate 24 CHR ''0'')
     [(''b'', zero_Container\<lparr>cont_ID := ''b''\<rparr>), (''a'', zero_Container\<lparr>cont_ID := ''a''\<rparr>)] 8)"
  using inventory_events_complete
    [of "[(''b'', zero_Container\<lparr>cont_ID := ''b''\<rparr>), (''a'', zero_Container\<lparr>cont_ID := ''a''\<rparr>)]" 8
      "\<lambda>_ _. replicate 24 CHR ''0''"]
  by (auto simp: zero_Container_def)

end
