(* ===== verification/Pg_Text.thy ===== *)
theory Pg_Text
  imports Go_Text
begin

text \<open>
  Texts on their way to the database: Go's \<^verbatim>\<open>strings.ToValidUTF8\<close> and what a \<^verbatim>\<open>text\<close> column of PostgreSQL accepts, which is
  well-formed UTF-8 without a zero byte.
\<close>

subsection \<open>UTF-8\<close>

text \<open>The width of the well-formed UTF-8 sequence at the front, 0 if there is none.\<close>

fun rune_width :: "string \<Rightarrow> nat" where
  "rune_width [] = 0"
| "rune_width (c # cs) =
     (let b = of_char c :: nat;
          cont = (\<lambda>lo hi i. i < length cs \<and> lo \<le> (of_char (cs ! i) :: nat) \<and> (of_char (cs ! i) :: nat) \<le> hi) in
      if b < 128 then 1
      else if 194 \<le> b \<and> b \<le> 223 then (if cont 128 191 0 then 2 else 0)
      else if 224 \<le> b \<and> b \<le> 239 then
        (if cont (if b = 224 then 160 else 128) (if b = 237 then 159 else 191) 0 \<and> cont 128 191 1 then 3 else 0)
      else if 240 \<le> b \<and> b \<le> 244 then
        (if cont (if b = 240 then 144 else 128) (if b = 244 then 143 else 191) 0 \<and> cont 128 191 1 \<and> cont 128 191 2 then 4 else 0)
      else 0)"

definition replacement :: string where
  "replacement = map char_of [239, 191, 189 :: nat]"

text \<open>\<^verbatim>\<open>strings.ToValidUTF8\<close> with the replacement character: one for every run of bytes that are not part of a sequence.\<close>

function to_valid :: "bool \<Rightarrow> string \<Rightarrow> string" where
  "to_valid invalid [] = []"
| "to_valid invalid (c # cs) =
     (if rune_width (c # cs) = 0 then (if invalid then [] else replacement) @ to_valid True cs
      else take (rune_width (c # cs)) (c # cs) @ to_valid False (drop (rune_width (c # cs)) (c # cs)))"
  by pat_completeness auto
termination by (relation "measure (\<lambda>(invalid, s). length s)") auto

definition ToValidUTF8 :: "string \<Rightarrow> string" where
  "ToValidUTF8 s = to_valid False s"

text \<open>What PostgreSQL stores in a \<^verbatim>\<open>text\<close> column.\<close>

definition pg_text :: "string \<Rightarrow> bool" where
  "pg_text s \<longleftrightarrow> CHR 0x00 \<notin> set s"

definition pg_string :: "string \<Rightarrow> bool" where
  "pg_string s \<longleftrightarrow> pg_text s \<and> ToValidUTF8 s = s"

subsection \<open>Lemmas\<close>

lemma to_valid_keeps_zero: "CHR 0x00 \<in> set s \<Longrightarrow> CHR 0x00 \<in> set (to_valid invalid s)"
proof (induction invalid s rule: to_valid.induct)
  case (2 invalid c cs)
  show ?case
  proof (cases "rune_width (c # cs) = 0")
    case True
    then have "c \<noteq> CHR 0x00" by (auto simp: Let_def)
    then show ?thesis using 2 True by (simp del: rune_width.simps)
  next
    case False
    have "set (c # cs) = set (take (rune_width (c # cs)) (c # cs)) \<union> set (drop (rune_width (c # cs)) (c # cs))"
      by (metis append_take_drop_id set_append)
    then show ?thesis using 2 False by (auto simp del: rune_width.simps)
  qed
qed simp

lemma to_valid_length: "length (to_valid invalid s) \<le> 3 * length s"
proof (induction invalid s rule: to_valid.induct)
  case (2 invalid c cs)
  then show ?case by (cases "rune_width (c # cs) = 0") (auto simp: replacement_def simp del: rune_width.simps)
qed simp

definition plain :: "string \<Rightarrow> bool" where
  "plain s \<longleftrightarrow> list_all (\<lambda>c. (of_char c :: nat) < 128 \<and> c \<noteq> CHR 0x00) s"

lemma to_valid_plain: "plain s \<Longrightarrow> to_valid invalid s = s"
proof (induction s arbitrary: invalid)
  case (Cons c cs)
  then have "rune_width (c # cs) = 1" by (simp add: plain_def)
  then show ?case using Cons by (simp add: plain_def del: rune_width.simps)
qed simp

lemma plain_take: "plain s \<Longrightarrow> plain (take n s)"
  by (auto simp: plain_def list_all_iff dest: in_set_takeD)

lemma plain_pg_string: "plain s \<Longrightarrow> pg_string s"
  by (auto simp: pg_string_def pg_text_def ToValidUTF8_def to_valid_plain plain_def list_all_iff)

end
