(* ===== verification/Passwords.thy ===== *)
theory Passwords
  imports Pg_Text
begin

text \<open>
  Password hashes, \<^verbatim>\<open>internal/server/auth/password.go\<close>, with what they use of Go's standard library: base64 without padding and
  \<^verbatim>\<open>fmt.Sscanf\<close>. The derivation of a key, \<^verbatim>\<open>argon2.IDKey\<close>, is a parameter; the random bytes of a salt are an argument, or their error.
\<close>

subsection \<open>Base64\<close>

definition std_alphabet :: string where
  "std_alphabet = ''ABCDEFGHIJKLMNOPQRSTUVWXYZabcdefghijklmnopqrstuvwxyz0123456789+/''"

definition url_alphabet :: string where
  "url_alphabet = ''ABCDEFGHIJKLMNOPQRSTUVWXYZabcdefghijklmnopqrstuvwxyz0123456789-_''"

fun EncodeToString :: "string \<Rightarrow> string \<Rightarrow> string" where
  "EncodeToString alphabet [] = []"
| "EncodeToString alphabet [a] = [alphabet ! (of_char a div 4), alphabet ! (of_char a mod 4 * 16)]"
| "EncodeToString alphabet [a, b] =
     [alphabet ! (of_char a div 4), alphabet ! (of_char a mod 4 * 16 + of_char b div 16), alphabet ! (of_char b mod 16 * 4)]"
| "EncodeToString alphabet (a # b # c # rest) =
     alphabet ! (of_char a div 4) # alphabet ! (of_char a mod 4 * 16 + of_char b div 16) # alphabet ! (of_char b mod 16 * 4 + of_char c div 64) #
     alphabet ! (of_char c mod 64) # EncodeToString alphabet rest"

definition digit64 :: "string \<Rightarrow> char \<Rightarrow> nat option" where
  "digit64 alphabet c = find (\<lambda>i. alphabet ! i = c) [0..<64]"

text \<open>The strict decoder: the bits that are left over must be zero.\<close>

fun decode_digits :: "nat list \<Rightarrow> string option" where
  "decode_digits [] = Some []"
| "decode_digits [p] = None"
| "decode_digits [p, q] = (if q mod 16 = 0 then Some [char_of (p * 4 + q div 16)] else None)"
| "decode_digits [p, q, r] = (if r mod 4 = 0 then Some [char_of (p * 4 + q div 16), char_of (q mod 16 * 16 + r div 4)] else None)"
| "decode_digits (p # q # r # t # rest) =
     map_option (\<lambda>s. char_of (p * 4 + q div 16) # char_of (q mod 16 * 16 + r div 4) # char_of (r mod 4 * 64 + t) # s) (decode_digits rest)"

fun all_some :: "'a option list \<Rightarrow> 'a list option" where
  "all_some [] = Some []"
| "all_some (None # xs) = None"
| "all_some (Some x # xs) = map_option ((#) x) (all_some xs)"

text \<open>Line breaks are ignored by the decoder.\<close>

definition DecodeString :: "string \<Rightarrow> string \<Rightarrow> string option" where
  "DecodeString alphabet s =
     Option.bind (all_some (map (digit64 alphabet) (filter (\<lambda>c. c \<noteq> CHR 0x0A \<and> c \<noteq> CHR 0x0D) s))) decode_digits"

subsection \<open>Scanning numbers\<close>

text \<open>\<^verbatim>\<open>%d\<close> of \<^verbatim>\<open>fmt.Sscanf\<close> skips space before the number but refuses a line break there.\<close>

function skip_space :: "string \<Rightarrow> string option" where
  "skip_space s =
     (if take 1 s = [CHR 0x0A] then None
      else case skip_one space_strings s of None \<Rightarrow> Some s | Some t \<Rightarrow> skip_space t)"
  by pat_completeness auto
termination by (relation "measure length") (auto dest: skip_one_shorter)

declare skip_space.simps [simp del]

definition scan_digits :: "string \<Rightarrow> (nat \<times> string) option" where
  "scan_digits s =
     (let ds = takeWhile is_digit s in if ds = [] then None else Some (decimal_value ds, dropWhile is_digit s))"

definition scan_uint :: "nat \<Rightarrow> string \<Rightarrow> (nat \<times> string) option" where
  "scan_uint w s =
     Option.bind (skip_space s) (\<lambda>s. Option.bind (scan_digits s) (\<lambda>(n, rest). if n < 2 ^ w then Some (n, rest) else None))"

definition scan_int :: "string \<Rightarrow> (int \<times> string) option" where
  "scan_int s =
     Option.bind (skip_space s) (\<lambda>s.
       let negative = take 1 s = ''-''; t = (if take 1 s \<in> {''-'', ''+''} then drop 1 s else s) in
       Option.bind (scan_digits t) (\<lambda>(n, rest).
         let v = (if negative then - int n else int n) in if - (2 ^ 63) \<le> v \<and> v < 2 ^ 63 then Some (v, rest) else None))"

definition scan_text :: "string \<Rightarrow> string \<Rightarrow> string option" where
  "scan_text lit s = (if take (length lit) s = lit then Some (drop (length lit) s) else None)"

subsection \<open>Hashes\<close>

record Params =
  Memory :: u32
  Iterations :: u32
  Parallelism :: u8
  SaltLength :: u32
  KeyLength :: u32

definition DefaultParams :: Params where
  "DefaultParams = \<lparr>Memory = 64 * 1024, Iterations = 3, Parallelism = 2, SaltLength = 16, KeyLength = 32\<rparr>"

definition validateParams :: "Params \<Rightarrow> bool" where
  "validateParams p \<longleftrightarrow> \<not> (Memory p < 8 * 1024 \<or> 1024 * 1024 < Memory p \<or> Iterations p < 1 \<or> 10 < Iterations p \<or> Parallelism p < 1 \<or> 32 < Parallelism p \<or>
     SaltLength p < 8 \<or> 64 < SaltLength p \<or> KeyLength p < 16 \<or> 64 < KeyLength p)"

text \<open>Password, salt, iterations, memory, parallelism and the length of the key.\<close>

type_synonym argon2 = "string \<Rightarrow> string \<Rightarrow> u32 \<Rightarrow> u32 \<Rightarrow> u8 \<Rightarrow> u32 \<Rightarrow> string"

datatype hash_error = PasswordLength | BadParams | NoSalt

abbreviation argon2_version :: int where "argon2_version \<equiv> 19"

definition hash_text :: "Params \<Rightarrow> string \<Rightarrow> string \<Rightarrow> string" where
  "hash_text p salt key =
     ''$argon2id$v=19$m='' @ itoa (unat (Memory p)) @ '',t='' @ itoa (unat (Iterations p)) @ '',p='' @ itoa (unat (Parallelism p)) @ ''$'' @
     EncodeToString std_alphabet salt @ ''$'' @ EncodeToString std_alphabet key"

text \<open>\<open>random\<close>: what \<^verbatim>\<open>rand.Read\<close> gives for a length, or its error.\<close>

definition Hash :: "argon2 \<Rightarrow> (nat \<Rightarrow> string option) \<Rightarrow> string \<Rightarrow> Params \<Rightarrow> hash_error + string" where
  "Hash IDKey random password p =
     (if length password < 12 \<or> 256 < length password then Inl PasswordLength
      else if \<not> validateParams p then Inl BadParams
      else case random (unat (SaltLength p)) of
          None \<Rightarrow> Inl NoSalt
        | Some salt \<Rightarrow> Inr (hash_text p salt (IDKey password salt (Iterations p) (Memory p) (Parallelism p) (KeyLength p))))"

fun split_on :: "char \<Rightarrow> string \<Rightarrow> string list" where
  "split_on c [] = [[]]"
| "split_on c (d # s) = (if d = c then [] # split_on c s else (case split_on c s of w # ws \<Rightarrow> (d # w) # ws | [] \<Rightarrow> [[d]]))"

definition scan_params :: "string \<Rightarrow> (nat \<times> nat \<times> nat) option" where
  "scan_params s =
     Option.bind (scan_text ''m='' s) (\<lambda>s. Option.bind (scan_uint 32 s) (\<lambda>(m, s).
     Option.bind (scan_text '',t='' s) (\<lambda>s. Option.bind (scan_uint 32 s) (\<lambda>(t, s).
     Option.bind (scan_text '',p='' s) (\<lambda>s. Option.bind (scan_uint 8 s) (\<lambda>(p, s). Some (m, t, p)))))))"

definition parseHash :: "string \<Rightarrow> (Params \<times> string \<times> string) option" where
  "parseHash encoded =
     (let parts = split_on CHR ''$'' encoded in
      if length parts \<noteq> 6 \<or> parts ! 0 \<noteq> [] \<or> parts ! 1 \<noteq> ''argon2id'' then None
      else if map_option fst (Option.bind (scan_text ''v='' (parts ! 2)) scan_int) \<noteq> Some argon2_version then None
      else
        Option.bind (scan_params (parts ! 3)) (\<lambda>(m, t, p).
        Option.bind (DecodeString std_alphabet (parts ! 4)) (\<lambda>salt.
        Option.bind (DecodeString std_alphabet (parts ! 5)) (\<lambda>expected.
          let params = \<lparr>Memory = of_nat m, Iterations = of_nat t, Parallelism = of_nat p, SaltLength = of_nat (length salt), KeyLength = of_nat (length expected)\<rparr> in
          if validateParams params then Some (params, salt, expected) else None))))"

text \<open>Whether the password matches and whether the hash should be made again.\<close>

definition Verify :: "argon2 \<Rightarrow> string \<Rightarrow> string \<Rightarrow> Params \<Rightarrow> bool \<times> bool" where
  "Verify IDKey password encoded target =
     (case parseHash encoded of
        None \<Rightarrow> (False, False)
      | Some (params, salt, expected) \<Rightarrow>
          if IDKey password salt (Iterations params) (Memory params) (Parallelism params) (of_nat (length expected)) = expected
          then (True, params \<noteq> target) else (False, False))"

subsection \<open>Lemmas\<close>

lemma alphabets: "distinct std_alphabet" "length std_alphabet = 64" "distinct url_alphabet" "length url_alphabet = 64"
  by code_simp+

lemma digit64_nth: "distinct alphabet \<Longrightarrow> length alphabet = 64 \<Longrightarrow> n < 64 \<Longrightarrow> digit64 alphabet (alphabet ! n) = Some n"
  unfolding digit64_def find_Some_iff by (intro exI [of _ n]) (auto simp: nth_eq_iff_index_eq)

lemma of_char_bound: "(of_char c :: nat) < 256"
  by (rule nat_of_char_less_256)

fun encode_digits :: "nat list \<Rightarrow> nat list" where
  "encode_digits [] = []"
| "encode_digits [a] = [a div 4, a mod 4 * 16]"
| "encode_digits [a, b] = [a div 4, a mod 4 * 16 + b div 16, b mod 16 * 4]"
| "encode_digits (a # b # c # rest) = a div 4 # (a mod 4 * 16 + b div 16) # (b mod 16 * 4 + c div 64) # c mod 64 # encode_digits rest"

lemma EncodeToString_digits: "EncodeToString alphabet s = map ((!) alphabet) (encode_digits (map of_char s))"
  by (induction alphabet s rule: EncodeToString.induct) simp_all

lemma join_digits:
  assumes "b < 256" "c < (256 :: nat)"
  shows "(a mod 4 * 16 + b div 16) div 16 = a mod 4" "(a mod 4 * 16 + b div 16) mod 16 = b div 16"
    "(b mod 16 * 4 + c div 64) div 4 = b mod 16" "(b mod 16 * 4 + c div 64) mod 4 = c div 64"
    "a mod 4 * 16 + b div 16 < 64" "b mod 16 * 4 + c div 64 < 64"
proof -
  have d: "b div 16 < 16" "c div 64 < 4" using assms by (simp_all add: div_less_iff_less_mult)
  show "(a mod 4 * 16 + b div 16) div 16 = a mod 4" "(a mod 4 * 16 + b div 16) mod 16 = b div 16" using d(1) by simp_all
  show "(b mod 16 * 4 + c div 64) div 4 = b mod 16" "(b mod 16 * 4 + c div 64) mod 4 = c div 64" using d(2) by simp_all
  have "a mod 4 \<le> 3" "b mod 16 \<le> 15" by simp_all
  then show "a mod 4 * 16 + b div 16 < 64" "b mod 16 * 4 + c div 64 < 64" using d by linarith+
qed

lemma encode_digits_bound: "\<forall>n \<in> set ns. n < 256 \<Longrightarrow> \<forall>d \<in> set (encode_digits ns). d < 64"
proof (induction ns rule: encode_digits.induct)
  case (4 a b c rest)
  then show ?case using join_digits(5) [of b c a] join_digits(6) [of b c] by (auto simp: div_less_iff_less_mult)
next
  case (3 a b)
  have "b mod 16 * 4 < 64" using mod_less_divisor [of 16 b] by linarith
  then show ?case using 3 join_digits(5) [of b 0 a] by (auto simp: div_less_iff_less_mult)
next
  case (2 a)
  have "a mod 4 * 16 < 64" using mod_less_divisor [of 4 a] by linarith
  then show ?case using 2 by (auto simp: div_less_iff_less_mult)
qed simp

lemma decode_encode_digits: "\<forall>n \<in> set ns. n < 256 \<Longrightarrow> decode_digits (encode_digits ns) = Some (map char_of ns)"
proof (induction ns rule: encode_digits.induct)
  case (4 a b c rest)
  have "a div 4 * 4 + a mod 4 = a" "b mod 16 + b div 16 * 16 = b" "c div 64 * 64 + c mod 64 = c" by simp_all
  then show ?case using 4 join_digits(1,2) [where a = a and b = b and c = c] join_digits(3,4) [where b = b and c = c] by (simp add: add.commute)
next
  case (3 a b)
  have "b mod 16 * 4 div 4 = b mod 16" "b mod 16 * 4 mod 4 = 0" "a div 4 * 4 + a mod 4 = a" "b div 16 * 16 + b mod 16 = b" by simp_all
  then show ?case using 3 join_digits(1,2) [of b 0 a] by simp
qed simp_all

lemma all_some_map: "all_some (map Some xs) = Some xs"
  by (induction xs) simp_all

text \<open>Base64 is decoded to what was encoded.\<close>

lemma DecodeString_EncodeToString:
  assumes "distinct alphabet" "length alphabet = 64" "CHR 0x0A \<notin> set alphabet" "CHR 0x0D \<notin> set alphabet"
  shows "DecodeString alphabet (EncodeToString alphabet s) = Some s"
proof -
  let ?ds = "encode_digits (map of_char s)"
  have ds: "\<forall>d \<in> set ?ds. d < 64" using of_char_bound by (intro encode_digits_bound) auto
  have "set (EncodeToString alphabet s) \<subseteq> set alphabet" using ds assms(2) by (auto simp: EncodeToString_digits)
  then have "filter (\<lambda>c. c \<noteq> CHR 0x0A \<and> c \<noteq> CHR 0x0D) (EncodeToString alphabet s) = EncodeToString alphabet s"
    using assms(3,4) by (auto intro!: filter_True)
  moreover have "map (digit64 alphabet) (EncodeToString alphabet s) = map Some ?ds"
    using ds digit64_nth [OF assms(1,2)] by (simp add: EncodeToString_digits)
  moreover have "decode_digits ?ds = Some s" using decode_encode_digits [of "map of_char s"] of_char_bound by (simp add: comp_def)
  ultimately show ?thesis by (simp add: DecodeString_def all_some_map)
qed

lemma std_round_trip [simp]: "DecodeString std_alphabet (EncodeToString std_alphabet s) = Some s"
  by (rule DecodeString_EncodeToString) (simp_all add: alphabets std_alphabet_def)

lemma EncodeToString_set:
  assumes "length alphabet = 64"
  shows "set (EncodeToString alphabet s) \<subseteq> set alphabet"
proof -
  have "\<forall>d \<in> set (encode_digits (map of_char s)). d < 64" using of_char_bound by (intro encode_digits_bound) auto
  then show ?thesis using assms by (auto simp: EncodeToString_digits)
qed

lemma EncodeToString_length: "length (EncodeToString alphabet s) = (4 * length s + 2) div 3"
  by (induction alphabet s rule: EncodeToString.induct) simp_all

lemma EncodeToString_plain: "length alphabet = 64 \<Longrightarrow> plain alphabet \<Longrightarrow> plain (EncodeToString alphabet s)"
  using EncodeToString_set [of alphabet s] by (auto simp: plain_def list_all_iff)

lemma plain_alphabets: "plain std_alphabet" "plain url_alphabet"
  by (simp_all add: plain_def std_alphabet_def url_alphabet_def)

lemma std_dollar: "CHR ''$'' \<notin> set (EncodeToString std_alphabet s)"
  using EncodeToString_set [OF alphabets(2), of s] by (auto simp: std_alphabet_def)

subsection \<open>Reading a hash back\<close>

lemma split_on_none: "c \<notin> set s \<Longrightarrow> split_on c s = [s]"
  by (induction s) auto

lemma split_on_append: "c \<notin> set s \<Longrightarrow> split_on c (s @ c # t) = s # split_on c t"
  by (induction s) auto

lemma scan_digits_itoa: "rest = [] \<or> \<not> is_digit (hd rest) \<Longrightarrow> scan_digits (itoa n @ rest) = Some (n, rest)"
proof -
  assume rest: "rest = [] \<or> \<not> is_digit (hd rest)"
  have ds: "\<forall>c \<in> set (itoa n). is_digit c" using itoa_digits by blast
  have "takeWhile is_digit rest = []" "dropWhile is_digit rest = rest" using rest by (cases rest; simp)+
  then have "takeWhile is_digit (itoa n @ rest) = itoa n" "dropWhile is_digit (itoa n @ rest) = rest" using ds by simp_all
  then show ?thesis by (simp add: scan_digits_def decimal_itoa itoa_nonempty)
qed

lemma skip_space_digits: "skip_space (itoa n @ rest) = Some (itoa n @ rest)"
proof -
  obtain c cs where c: "itoa n = c # cs" using itoa_nonempty by (cases "itoa n") auto
  then have "visible c" using itoa_visible [of n] by simp
  then have "skip_one space_strings (itoa n @ rest) = None" "c \<noteq> CHR 0x0A" by (auto simp: c skip_visible visible_def)
  then show ?thesis by (simp add: skip_space.simps c)
qed

lemma scan_uint_itoa: "n < 2 ^ w \<Longrightarrow> rest = [] \<or> \<not> is_digit (hd rest) \<Longrightarrow> scan_uint w (itoa n @ rest) = Some (n, rest)"
  by (simp add: scan_uint_def skip_space_digits scan_digits_itoa)

lemma scan_params_text:
  "scan_params (''m='' @ itoa (unat m) @ '',t='' @ itoa (unat t) @ '',p='' @ itoa (unat p)) = Some (unat m, unat t, unat p)"
  for m t :: u32 and p :: u8
proof -
  have "unat m < 2 ^ 32" "unat t < 2 ^ 32" "unat p < 2 ^ 8" using unsigned_less [of m] unsigned_less [of t] unsigned_less [of p] by simp_all
  then show ?thesis
    using scan_uint_itoa [of "unat m" 32 "'',t='' @ itoa (unat t) @ '',p='' @ itoa (unat p)"] scan_uint_itoa [of "unat t" 32 "'',p='' @ itoa (unat p)"]
      scan_uint_itoa [of "unat p" 8 "[]"]
    by (simp add: scan_params_def scan_text_def is_digit_def)
qed

lemma itoa_plain: "plain (itoa n)"
  using itoa_visible [of n] by (auto simp: plain_def visible_def list_all_iff)

lemma hash_text_plain: "plain (hash_text p salt key)"
  using EncodeToString_plain [OF alphabets(2) plain_alphabets(1)] itoa_plain
  by (simp add: hash_text_def plain_def)

lemma hash_text_parts:
  "split_on CHR ''$'' (hash_text p salt key) =
     [[], ''argon2id'', ''v=19'', ''m='' @ itoa (unat (Memory p)) @ '',t='' @ itoa (unat (Iterations p)) @ '',p='' @ itoa (unat (Parallelism p)),
      EncodeToString std_alphabet salt, EncodeToString std_alphabet key]"
proof -
  have d: "CHR ''$'' \<notin> set (itoa n)" for n using itoa_digits by (fastforce simp: is_digit_def)
  define ps where "ps = ''m='' @ itoa (unat (Memory p)) @ '',t='' @ itoa (unat (Iterations p)) @ '',p='' @ itoa (unat (Parallelism p))"
  have "hash_text p salt key = ''$argon2id$v=19$'' @ ps @ CHR ''$'' # EncodeToString std_alphabet salt @ CHR ''$'' # EncodeToString std_alphabet key"
    by (simp add: hash_text_def ps_def)
  moreover have "CHR ''$'' \<notin> set ps" using d by (simp add: ps_def)
  ultimately show ?thesis
    unfolding ps_def [symmetric] using std_dollar [of salt] std_dollar [of key] by (simp add: split_on_append split_on_none)
qed

lemma scan_version: "map_option fst (Option.bind (scan_text ''v='' ''v=19'') scan_int) = Some 19"
proof -
  have "skip_space ''19'' = Some ''19''" by (subst skip_space.simps) (simp add: skip_visible visible_def)
  then show ?thesis by (simp add: scan_text_def scan_int_def scan_digits_def is_digit_def decimal_value_def digit_value_def Let_def)
qed

lemma parseHash_text:
  assumes "validateParams p" "unat (SaltLength p) = length salt" "unat (KeyLength p) = length key"
  shows "parseHash (hash_text p salt key) = Some (p, salt, key)"
proof -
  have "of_nat (length salt) = SaltLength p" "of_nat (length key) = KeyLength p" using assms(2,3) by (simp_all flip: assms(2,3))
  then show ?thesis using assms(1) scan_version
    by (cases p) (simp add: parseHash_def hash_text_parts scan_params_text [simplified])
qed

lemma Hash_Verify_other:
  assumes "Hash IDKey random password p = Inr h" "\<And>pw s t m par n. length (IDKey pw s t m par n) = unat n" "\<And>n s. random n = Some s \<Longrightarrow> length s = n"
  shows "\<exists>salt. random (unat (SaltLength p)) = Some salt \<and>
    (let key = (\<lambda>pw. IDKey pw salt (Iterations p) (Memory p) (Parallelism p) (KeyLength p)) in
     \<forall>other target. Verify IDKey other h target = (key other = key password, key other = key password \<and> p \<noteq> target))"
proof -
  obtain salt where salt: "random (unat (SaltLength p)) = Some salt" "validateParams p"
    "h = hash_text p salt (IDKey password salt (Iterations p) (Memory p) (Parallelism p) (KeyLength p))"
    using assms(1) by (auto simp: Hash_def split: if_splits option.splits)
  have "parseHash h = Some (p, salt, IDKey password salt (Iterations p) (Memory p) (Parallelism p) (KeyLength p))"
    using salt assms(2) assms(3) [OF salt(1)] by (simp add: parseHash_text)
  then show ?thesis using salt(1) by (simp add: Verify_def assms(2) Let_def)
qed

lemma Hash_Verify:
  assumes "Hash IDKey random password p = Inr h" "\<And>pw s t m par n. length (IDKey pw s t m par n) = unat n" "\<And>n s. random n = Some s \<Longrightarrow> length s = n"
  shows "Verify IDKey password h p = (True, False)"
  using Hash_Verify_other [OF assms] by (auto simp: Let_def)

subsection \<open>Properties\<close>

text \<open>C40. A stored hash knows its password: with a derivation that gives keys of the length asked for, a hash that was made is read back, the password it was made of
  matches and needs no new hash, and another matches exactly when it derives the same key with the same salt; a new hash is asked for when the
  parameters have changed since.\<close>

theorem password_round_trip:
  assumes "Hash IDKey random password p = Inr h" "\<And>pw s t m par n. length (IDKey pw s t m par n) = unat n" "\<And>n s. random n = Some s \<Longrightarrow> length s = n"
  shows "Verify IDKey password h p = (True, False) \<and>
    (\<exists>salt. random (unat (SaltLength p)) = Some salt \<and>
      (let key = (\<lambda>pw. IDKey pw salt (Iterations p) (Memory p) (Parallelism p) (KeyLength p)) in
       Verify IDKey other h target = (key other = key password, key other = key password \<and> p \<noteq> target)))"
  using Hash_Verify [OF assms] Hash_Verify_other [OF assms] by (auto simp: Let_def)

text \<open>A derivation for examples: the password and the salt, cut or filled to the length.\<close>

definition plain_key :: argon2 where
  "plain_key pw salt t m par n = take (unat n) (pw @ salt @ replicate (unat n) CHR ''x'')"

definition zero_salt :: "nat \<Rightarrow> string option" where
  "zero_salt n = Some (replicate n CHR ''s'')"

definition sample_hash :: string where
  "sample_hash = hash_text DefaultParams (replicate 16 CHR ''s'') (plain_key ''correct horse'' (replicate 16 CHR ''s'') 3 65536 2 32)"

lemma sample_Hash: "Hash plain_key zero_salt ''correct horse'' DefaultParams = Inr sample_hash"
  by (simp add: Hash_def sample_hash_def zero_salt_def validateParams_def DefaultParams_def)

theorem password_round_trip_witness:
  "Hash plain_key zero_salt ''correct horse'' DefaultParams = Inr sample_hash \<and> Verify plain_key ''correct horse'' sample_hash DefaultParams = (True, False) \<and>
   Verify plain_key ''battery staple'' sample_hash DefaultParams = (False, False)"
proof -
  have "plain_key ''battery staple'' (replicate 16 CHR ''s'') 3 65536 2 32 \<noteq> plain_key ''correct horse'' (replicate 16 CHR ''s'') 3 65536 2 32"
    by (simp add: plain_key_def)
  then show ?thesis
    using sample_Hash password_round_trip [OF sample_Hash, of "''battery staple''" DefaultParams]
    by (simp add: plain_key_def zero_salt_def Let_def DefaultParams_def)
qed

end
