(* ===== verification/Inventory.thy ===== *)
theory Inventory
  imports Ownership Passwords
begin

text \<open>
  Who owns a socket, \<^verbatim>\<open>internal/agent/process/lookup.go\<close> and \<^verbatim>\<open>internal/agent/docker/inventory.go\<close>: the cache of processes read from \<^verbatim>\<open>/proc\<close>,
  the snapshot of the running containers, and both composed with the collector of connections as
  \<^verbatim>\<open>cmd/flowlens-agent/main.go\<close> does it. Parameters are what each read of a file gives, the answers of the Docker service and
  the inode of a control group; maps of the service are lists in the order of the iteration.
\<close>

subsection \<open>Processes\<close>

record proc_files =
  pf_stat :: "string option"
  pf_comm :: "string option"
  pf_cgroup :: "string option"

text \<open>The twentieth field behind the last parenthesis is the start time.\<close>

definition readStartTime :: "string option \<Rightarrow> u64 option" where
  "readStartTime contents =
     (case contents of
        None \<Rightarrow> None
      | Some s \<Rightarrow>
          if CHR '')'' \<notin> set s then None
          else (let fs = Fields (rev (takeWhile (\<lambda>c. c \<noteq> CHR '')'') (rev s))) in if length fs \<le> 19 then None else ParseUint (fs ! 19)))"

text \<open>The third of three parts of a line, if it is not empty.\<close>

definition cgroup_part :: "string \<Rightarrow> string option" where
  "cgroup_part line =
     (case cut_at CHR '':'' line of
        None \<Rightarrow> None
      | Some (number, rest) \<Rightarrow>
          (case cut_at CHR '':'' rest of None \<Rightarrow> None | Some (controllers, path) \<Rightarrow> if path = [] then None else Some path))"

definition parseCgroup :: "string \<Rightarrow> string" where
  "parseCgroup contents = (case List.map_filter cgroup_part (split_on CHR 0x0A contents) of [] \<Rightarrow> [] | path # _ \<Rightarrow> path)"

text \<open>\<^verbatim>\<open>filepath.Base\<close>.\<close>

definition Base :: "string \<Rightarrow> string" where
  "Base path =
     (if path = [] then ''.''
      else (let name = rev (takeWhile (\<lambda>c. c \<noteq> CHR ''/'') (dropWhile (\<lambda>c. c = CHR ''/'') (rev path))) in if name = [] then ''/'' else name))"

text \<open>\<^verbatim>\<open>unicode.IsControl\<close> on the UTF-8 form of a character.\<close>

definition is_control :: "string \<Rightarrow> bool" where
  "is_control r =
     (case map of_char r :: nat list of [b] \<Rightarrow> b < 32 \<or> b = 127 | [b, c] \<Rightarrow> b = 0xC2 \<and> c < 0xA0 | _ \<Rightarrow> False)"

text \<open>\<^verbatim>\<open>strings.Map\<close> with the function that puts a question mark for every control character; a byte that is not part of a
  character becomes the replacement character.\<close>

function map_control :: "string \<Rightarrow> string" where
  "map_control [] = []"
| "map_control (c # cs) =
     (if rune_width (c # cs) = 0 then replacement @ map_control cs
      else (if is_control (take (rune_width (c # cs)) (c # cs)) then ''?'' else take (rune_width (c # cs)) (c # cs)) @
        map_control (drop (rune_width (c # cs)) (c # cs)))"
  by pat_completeness auto
termination by (relation "measure length") auto

declare map_control.simps(2) [simp del]

definition sanitizeName :: "string \<Rightarrow> string" where
  "sanitizeName s = take 128 (map_control (Base (TrimSpace s)))"

record cacheEntry =
  ce_process :: Process
  ce_expiresAt :: go_time

type_synonym process_cache = "u32 \<rightharpoonup> cacheEntry"

definition cacheLifetime :: go_time where "cacheLifetime = 5 * 1000000000"

text \<open>The clock is read before the entry is used and again when a new one is stored.\<close>

definition read_process :: "proc_files \<Rightarrow> go_time \<Rightarrow> u32 \<Rightarrow> u64 \<Rightarrow> process_cache \<Rightarrow> Process option \<times> process_cache" where
  "read_process pf later p startTime C =
     (case pf_comm pf of
        None \<Rightarrow> (None, C(p := None))
      | Some comm \<Rightarrow>
          (case pf_cgroup pf of
             None \<Rightarrow> (None, C(p := None))
           | Some cgroup \<Rightarrow>
               (let result = \<lparr>proc_PID = p, proc_Name = sanitizeName comm, proc_CgroupPath = parseCgroup cgroup, proc_StartTime = startTime\<rparr> in
                if proc_Name result = [] then (None, C)
                else (Some result, C(p \<mapsto> \<lparr>ce_process = result, ce_expiresAt = later + cacheLifetime\<rparr>)))))"

definition Lookup :: "proc_files \<Rightarrow> go_time \<Rightarrow> go_time \<Rightarrow> u32 \<Rightarrow> process_cache \<Rightarrow> Process option \<times> process_cache" where
  "Lookup pf now later p C =
     (case readStartTime (pf_stat pf) of
        None \<Rightarrow> (None, C(p := None))
      | Some startTime \<Rightarrow>
          (case C p of
             Some entry \<Rightarrow>
               if proc_StartTime (ce_process entry) = startTime \<and> now < ce_expiresAt entry then (Some (ce_process entry), C)
               else read_process pf later p startTime C
           | None \<Rightarrow> read_process pf later p startTime C))"

subsection \<open>Containers\<close>

definition lower_hex :: "char \<Rightarrow> bool" where
  "lower_hex c \<longleftrightarrow> is_digit c \<or> (97 \<le> (of_char c :: nat) \<and> (of_char c :: nat) \<le> 102)"

text \<open>The expression \<^verbatim>\<open>(?:docker/|docker-)([0-9a-f]{64})(?:\.scope)?(?:$|/)\<close> at the front of a text, and its first match.\<close>

definition match_here :: "string \<Rightarrow> string option" where
  "match_here s =
     (let name = take 64 (drop 7 s); rest = drop 71 s; tail = (if take 6 rest = ''.scope'' then drop 6 rest else rest) in
      if take 7 s \<in> {''docker/'', ''docker-''} \<and> length name = 64 \<and> list_all lower_hex name \<and> (tail = [] \<or> hd tail = CHR ''/'') then Some name else None)"

fun ContainerIDFromCgroupPath :: "string \<Rightarrow> string option" where
  "ContainerIDFromCgroupPath [] = None"
| "ContainerIDFromCgroupPath (c # cs) = (case match_here (c # cs) of Some i \<Rightarrow> Some i | None \<Rightarrow> ContainerIDFromCgroupPath cs)"

record Cgroup =
  cg_ID :: u64
  cg_Path :: string

definition ResolveHostCgroup :: "(int \<Rightarrow> string option) \<Rightarrow> (string \<Rightarrow> u64 option) \<Rightarrow> int \<Rightarrow> Cgroup option" where
  "ResolveHostCgroup read_cgroup inode p =
     Option.bind (read_cgroup p) (\<lambda>contents.
       let path = parseCgroup contents in
       if path = [] then None
       else map_option (\<lambda>i. \<lparr>cg_ID = i, cg_Path = path\<rparr>) (inode (if take 1 path = ''/'' then drop 1 path else path)))"

record container_summary =
  sm_ID :: string
  sm_State :: string

text \<open>What the inspection of a container gives: running and process, the two addresses in each network and the exposed ports; each part
  may be missing.\<close>

record inspected =
  ins_ID :: string
  ins_Name :: string
  ins_State :: "(bool \<times> int) option"
  ins_Networks :: "(addr \<times> addr) option list option"
  ins_Ports :: "u16 list option"

definition containerAddresses :: "inspected \<Rightarrow> string list" where
  "containerAddresses v =
     sort (case ins_Networks v of
        None \<Rightarrow> []
      | Some networks \<Rightarrow>
          concat (map (\<lambda>n. case n of None \<Rightarrow> [] | Some (ip, ip6) \<Rightarrow> map addr_string (filter IsValid [ip, ip6])) networks))"

definition containerPorts :: "inspected \<Rightarrow> u16 list" where
  "containerPorts v = sort (case ins_Ports v of None \<Rightarrow> [] | Some ports \<Rightarrow> ports)"

record Snapshot =
  ByCgroup :: "u64 \<rightharpoonup> Container"
  ByID :: "(string \<times> Container) list"
  ByEndpoint :: "string \<rightharpoonup> Container"

datatype refresh_error = ListFailed | InspectFailed string | ResolveFailed string | CgroupOfOther string string

definition owner_of :: "inspected \<Rightarrow> Cgroup \<Rightarrow> Container" where
  "owner_of v cg =
     \<lparr>cont_ID = ins_ID v, cont_Name = (if take 1 (ins_Name v) = ''/'' then drop 1 (ins_Name v) else ins_Name v), cont_CgroupID = cg_ID cg,
      cont_Addresses = containerAddresses v, cont_Ports = containerPorts v, cont_Running = True\<rparr>"

definition endpoints :: "Container \<Rightarrow> string list" where
  "endpoints c = concat (map (\<lambda>a. map (\<lambda>p. JoinHostPort a (itoa (unat p))) (cont_Ports c)) (cont_Addresses c))"

definition add_owner :: "Container \<Rightarrow> Snapshot \<Rightarrow> Snapshot" where
  "add_owner c S =
     S\<lparr>ByID := AList.update (cont_ID c) c (ByID S), ByCgroup := (ByCgroup S)(cont_CgroupID c \<mapsto> c),
       ByEndpoint := fold (\<lambda>e m. m(e \<mapsto> c)) (endpoints c) (ByEndpoint S)\<rparr>"

fun refresh_items :: "(string \<Rightarrow> inspected option) \<Rightarrow> (int \<Rightarrow> Cgroup option) \<Rightarrow> container_summary list \<Rightarrow> Snapshot \<Rightarrow> refresh_error + Snapshot" where
  "refresh_items inspect resolve [] S = Inr S"
| "refresh_items inspect resolve (summary # rest) S =
     (if sm_State summary \<noteq> ''running'' then refresh_items inspect resolve rest S
      else case inspect (sm_ID summary) of
          None \<Rightarrow> Inl (InspectFailed (sm_ID summary))
        | Some v \<Rightarrow>
            (case ins_State v of
               None \<Rightarrow> refresh_items inspect resolve rest S
             | Some (running, p) \<Rightarrow>
                 if \<not> running \<or> p \<le> 0 then refresh_items inspect resolve rest S
                 else (case resolve p of
                     None \<Rightarrow> Inl (ResolveFailed (sm_ID summary))
                   | Some cg \<Rightarrow>
                       (case ContainerIDFromCgroupPath (cg_Path cg) of
                          Some other \<Rightarrow>
                            if other \<noteq> ins_ID v then Inl (CgroupOfOther (ins_ID v) other)
                            else refresh_items inspect resolve rest (add_owner (owner_of v cg) S)
                        | None \<Rightarrow> refresh_items inspect resolve rest (add_owner (owner_of v cg) S)))))"

definition Refresh :: "container_summary list option \<Rightarrow> (string \<Rightarrow> inspected option) \<Rightarrow> (int \<Rightarrow> Cgroup option) \<Rightarrow> refresh_error + Snapshot" where
  "Refresh listed inspect resolve =
     (case listed of
        None \<Rightarrow> Inl ListFailed
      | Some items \<Rightarrow> refresh_items inspect resolve items \<lparr>ByCgroup = Map.empty, ByID = [], ByEndpoint = Map.empty\<rparr>)"

subsection \<open>With the collector\<close>

text \<open>What the loop of the agent does with the collector. An observation that is usable and not of a known container asks for its process; a
  refresh that fails leaves the snapshot as it is.\<close>

datatype 'f live_op =
    LiveObserve 'f Observation
  | LiveDrain int
  | LiveRefresh "container_summary list option" "string \<Rightarrow> inspected option" "int \<Rightarrow> Cgroup option"

fun live_step :: "('f \<Rightarrow> u32 \<Rightarrow> 'c \<Rightarrow> Process option \<times> 'c) \<Rightarrow> (connectionKey \<Rightarrow> int \<Rightarrow> string) \<Rightarrow> 'f live_op \<Rightarrow>
    (Collector \<times> 'c) \<times> Event list \<Rightarrow> (Collector \<times> 'c) \<times> Event list" where
  "live_step look digest (LiveObserve f obs) ((col, C), evs) =
     (let asked = usable obs \<and> byCgroup (attributor col) (CgroupID obs) = None;
          found = (if asked then look f (PID obs) C else (None, C)) in
      ((Observe (col\<lparr>attributor := (attributor col)\<lparr>processes := \<lambda>_. fst found\<rparr>\<rparr>) obs, snd found), evs))"
| "live_step look digest (LiveDrain t) ((col, C), evs) = (case Drain digest col t of (col', out) \<Rightarrow> ((col', C), evs @ out))"
| "live_step look digest (LiveRefresh listed inspect resolve) ((col, C), evs) =
     (case Refresh listed inspect resolve of
        Inl e \<Rightarrow> ((col, C), evs)
      | Inr S \<Rightarrow> ((col\<lparr>attributor := SetSnapshot (attributor col) (ByCgroup S)\<rparr>, C), evs))"

definition look_up :: "proc_files \<times> go_time \<times> go_time \<Rightarrow> u32 \<Rightarrow> process_cache \<Rightarrow> Process option \<times> process_cache" where
  "look_up f p C = (case f of (pf, now, later) \<Rightarrow> Lookup pf now later p C)"

subsection \<open>Names\<close>

lemma Base_nonempty: "Base s \<noteq> []"
  by (simp add: Base_def Let_def)

lemma map_control_nonempty: "s \<noteq> [] \<Longrightarrow> map_control s \<noteq> []"
  by (cases s) (auto simp: map_control.simps(2) replacement_def simp del: rune_width.simps)

lemma rune_single: "rune_width (c # cs) = 1 \<Longrightarrow> (of_char c :: nat) < 128"
  by (auto simp: Let_def split: if_splits)

text \<open>The bytes of a longer sequence: the first is at least 194, from three bytes on at least 224, the others are between 128 and 191.\<close>

lemma rune_shape:
  assumes "2 \<le> rune_width (c # cs)"
  defines "h \<equiv> \<lambda>j. j < length cs \<and> 128 \<le> (of_char (cs ! j) :: nat) \<and> (of_char (cs ! j) :: nat) \<le> 191"
  shows "rune_width (c # cs) = 2 \<and> 194 \<le> (of_char c :: nat) \<and> h 0 \<or> rune_width (c # cs) = 3 \<and> 224 \<le> (of_char c :: nat) \<and> h 0 \<and> h 1 \<or>
    rune_width (c # cs) = 4 \<and> 224 \<le> (of_char c :: nat) \<and> h 0 \<and> h 1 \<and> h 2"
proof -
  let ?b = "of_char c :: nat"
  have lo: "128 \<le> (if ?b = x then y else (128 :: nat))" if "128 \<le> y" for x y using that by simp
  have hi: "(if ?b = x then y else (191 :: nat)) \<le> 191" if "y \<le> 191" for x y using that by simp
  consider "?b < 128" | "\<not> ?b < 128" "\<not> 194 \<le> ?b" "\<not> 224 \<le> ?b" "\<not> 240 \<le> ?b" | "\<not> ?b < 128" "\<not> ?b \<le> 223" "\<not> ?b \<le> 239" "\<not> ?b \<le> 244" |
    "\<not> ?b < 128" "194 \<le> ?b" "?b \<le> 223" | "\<not> ?b < 128" "\<not> ?b \<le> 223" "224 \<le> ?b" "?b \<le> 239" | "\<not> ?b < 128" "\<not> ?b \<le> 223" "\<not> ?b \<le> 239" "240 \<le> ?b" "?b \<le> 244"
    by linarith
  then show ?thesis
  proof cases
    case 5
    then show ?thesis unfolding h_def using assms(1) lo [of 160 224] hi [of 159 237] by (simp add: Let_def split: if_split_asm del: One_nat_def)
  next
    case 6
    then show ?thesis unfolding h_def using assms(1) lo [of 144 240] hi [of 143 244] by (simp add: Let_def split: if_split_asm del: One_nat_def)
  qed (use assms(1) in \<open>simp_all add: h_def Let_def split: if_split_asm\<close>)
qed

text \<open>No control character: no byte below 32 and no byte 127, and no two bytes that encode a character from U+0080 to U+009F.\<close>

definition quiet_char :: "char \<Rightarrow> bool" where
  "quiet_char c \<longleftrightarrow> 32 \<le> (of_char c :: nat) \<and> (of_char c :: nat) \<noteq> 127"

definition quiet_pair :: "char \<Rightarrow> char \<Rightarrow> bool" where
  "quiet_pair c d \<longleftrightarrow> \<not> ((of_char c :: nat) = 0xC2 \<and> 0x80 \<le> (of_char d :: nat) \<and> (of_char d :: nat) \<le> 0x9F)"

definition control_free :: "string \<Rightarrow> bool" where
  "control_free s \<longleftrightarrow> list_all quiet_char s \<and> successively quiet_pair s"

lemma high_quiet: "128 \<le> (of_char c :: nat) \<Longrightarrow> quiet_char c"
  by (simp add: quiet_char_def)

lemma control_free_append:
  "control_free xs \<Longrightarrow> control_free ys \<Longrightarrow> xs \<noteq> [] \<Longrightarrow> (of_char (last xs) :: nat) \<noteq> 0xC2 \<Longrightarrow> control_free (xs @ ys)"
  by (simp add: control_free_def successively_append_iff quiet_pair_def)

lemma control_free_take: "control_free s \<Longrightarrow> control_free (take n s)"
proof -
  assume "control_free s"
  then have "control_free (take n s @ drop n s)" by simp
  then show ?thesis unfolding control_free_def list_all_append successively_append_iff by blast
qed

lemma rune_quiet:
  assumes "rune_width (c # cs) \<noteq> 0" "\<not> is_control (take (rune_width (c # cs)) (c # cs))"
  shows "control_free (take (rune_width (c # cs)) (c # cs)) \<and> (of_char (last (take (rune_width (c # cs)) (c # cs))) :: nat) \<noteq> 0xC2"
proof (cases "rune_width (c # cs) = 1")
  case True
  then show ?thesis
    using assms(2) rune_single [OF True] by (simp add: is_control_def control_free_def quiet_char_def del: rune_width.simps)
next
  case False
  then have "2 \<le> rune_width (c # cs)" using assms(1) by linarith
  note shape = rune_shape [OF this]
  then consider d rest where "rune_width (c # cs) = 2" "cs = d # rest" |
      d e rest where "rune_width (c # cs) = 3" "cs = d # e # rest" | d e f rest where "rune_width (c # cs) = 4" "cs = d # e # f # rest"
    by (metis One_nat_def Suc_1 length_Suc_conv less_Suc_eq_0_disj less_imp_Suc_add list.exhaust list.size(3) not_less0 nth_Cons_Suc numeral_2_eq_2 Suc_less_eq length_Cons)
  then show ?thesis
  proof cases
    case 1
    then show ?thesis
      using shape assms(2) by (auto simp: is_control_def control_free_def quiet_pair_def quiet_char_def simp del: rune_width.simps)
  next
    case 2
    then show ?thesis
      using shape by (auto simp: control_free_def quiet_pair_def quiet_char_def numeral_eq_Suc simp del: rune_width.simps)
  next
    case 3
    then show ?thesis
      using shape by (auto simp: control_free_def quiet_pair_def quiet_char_def numeral_eq_Suc simp del: rune_width.simps)
  qed
qed

lemma map_control_quiet: "control_free (map_control s)"
proof (induction s rule: map_control.induct)
  case (2 c cs)
  show ?case
  proof (cases "rune_width (c # cs) = 0")
    case True
    have "control_free replacement" "replacement \<noteq> []" "(of_char (last replacement) :: nat) \<noteq> 0xC2"
      by (simp_all add: replacement_def control_free_def quiet_char_def quiet_pair_def)
    then show ?thesis
      using 2(1) True by (simp add: map_control.simps(2) control_free_append del: rune_width.simps)
  next
    case False
    have "control_free (''?'' @ xs)" if "control_free xs" for xs
      using that by (intro control_free_append) (simp_all add: control_free_def quiet_char_def)
    moreover have "take (rune_width (c # cs)) (c # cs) \<noteq> []" using False by (simp del: rune_width.simps)
    ultimately show ?thesis
      using 2(2) False rune_quiet [OF False] control_free_append
      by (cases "is_control (take (rune_width (c # cs)) (c # cs))") (simp_all add: map_control.simps(2) del: rune_width.simps)
  qed
qed (simp add: control_free_def)

definition clean_name :: "string \<Rightarrow> bool" where
  "clean_name s \<longleftrightarrow> s \<noteq> [] \<and> length s \<le> 128 \<and> control_free s"

lemma sanitizeName_clean: "clean_name (sanitizeName s)"
  using map_control_quiet [of "Base (TrimSpace s)"] map_control_nonempty [OF Base_nonempty]
  by (auto simp: clean_name_def sanitizeName_def control_free_take)

text \<open>The start time is found behind any name of the command, with blanks and parentheses.\<close>

lemma readStartTime_stat:
  assumes "\<forall>(n, w) \<in> set ws. w \<noteq> [] \<and> list_all visible w" "19 < length ws" "CHR '')'' \<notin> set (padded ws)"
  shows "readStartTime (Some (s @ CHR '')'' # padded ws)) = ParseUint (snd (ws ! 19))"
proof -
  have "rev (takeWhile (\<lambda>c. c \<noteq> CHR '')'') (rev (s @ CHR '')'' # padded ws))) = padded ws"
    using assms(3) by (subst rev_append) (auto simp: takeWhile_append)
  then show ?thesis using Fields_padded [OF assms(1)] assms(2) by (simp add: readStartTime_def)
qed

subsection \<open>The cache\<close>

text \<open>A process as one reading of its files gives it.\<close>

definition taken :: "proc_files \<Rightarrow> u32 \<Rightarrow> Process \<Rightarrow> bool" where
  "taken pf p q \<longleftrightarrow> (\<exists>comm cgroup. pf_comm pf = Some comm \<and> pf_cgroup pf = Some cgroup \<and> readStartTime (pf_stat pf) = Some (proc_StartTime q) \<and>
     proc_PID q = p \<and> proc_Name q = sanitizeName comm \<and> proc_CgroupPath q = parseCgroup cgroup)"

lemma taken_PID: "taken pf p q \<Longrightarrow> proc_PID q = p"
  by (auto simp: taken_def)

type_synonym lookup_call = "proc_files \<times> go_time \<times> go_time \<times> u32"

definition cache_from :: "lookup_call set \<Rightarrow> process_cache \<Rightarrow> bool" where
  "cache_from calls C \<longleftrightarrow>
     (\<forall>p e. C p = Some e \<longrightarrow> (\<exists>pf now later. (pf, now, later, p) \<in> calls \<and> taken pf p (ce_process e) \<and> ce_expiresAt e = later + cacheLifetime))"

lemma cache_from_mono: "cache_from calls C \<Longrightarrow> calls \<subseteq> calls' \<Longrightarrow> cache_from calls' C"
  unfolding cache_from_def by blast

lemma cache_from_removed: "cache_from calls C \<Longrightarrow> cache_from calls (C(p := None))"
  by (simp add: cache_from_def)

lemma cache_from_stored:
  "cache_from calls C \<Longrightarrow> (pf, now, later, p) \<in> calls \<Longrightarrow> taken pf p q \<Longrightarrow> cache_from calls (C(p \<mapsto> \<lparr>ce_process = q, ce_expiresAt = later + cacheLifetime\<rparr>))"
  unfolding cache_from_def by (metis cacheEntry.select_convs fun_upd_apply option.inject)

lemma read_process_taken:
  assumes "readStartTime (pf_stat pf) = Some st"
  shows "fst (read_process pf later p st C) = Some q \<Longrightarrow> taken pf p q"
    "cache_from calls C \<Longrightarrow> (pf, now, later, p) \<in> calls \<Longrightarrow> cache_from calls (snd (read_process pf later p st C))"
proof -
  show "fst (read_process pf later p st C) = Some q \<Longrightarrow> taken pf p q"
    using assms by (auto simp: read_process_def taken_def Let_def split: option.splits if_splits)
  assume "cache_from calls C" "(pf, now, later, p) \<in> calls"
  then show "cache_from calls (snd (read_process pf later p st C))"
    using assms by (auto simp: read_process_def taken_def Let_def cache_from_removed intro!: cache_from_stored split: option.splits)
qed

lemma Lookup_taken:
  assumes "cache_from calls C" "fst (Lookup pf now later p C) = Some q"
  shows "readStartTime (pf_stat pf) = Some (proc_StartTime q) \<and>
    (taken pf p q \<or> (\<exists>pf' now' later'. (pf', now', later', p) \<in> calls \<and> taken pf' p q \<and> now < later' + cacheLifetime))"
proof -
  obtain st where st: "readStartTime (pf_stat pf) = Some st" using assms(2) by (auto simp: Lookup_def split: option.splits)
  show ?thesis
  proof (cases "fst (read_process pf later p st C) = Some q")
    case True
    then show ?thesis using read_process_taken(1) [OF st] st by (auto simp: taken_def)
  next
    case False
    then obtain e where "C p = Some e" "q = ce_process e" "proc_StartTime (ce_process e) = st" "now < ce_expiresAt e"
      using assms(2) st by (auto simp: Lookup_def split: option.splits if_splits)
    then show ?thesis using assms(1) st unfolding cache_from_def by fastforce
  qed
qed

lemma Lookup_cache:
  assumes "cache_from calls C"
  shows "cache_from (insert (pf, now, later, p) calls) (snd (Lookup pf now later p C))"
proof -
  have "cache_from (insert (pf, now, later, p) calls) C" using assms by (rule cache_from_mono) blast
  then show ?thesis
    using read_process_taken(2) [of pf _ "insert (pf, now, later, p) calls" C now later p]
    by (auto simp: Lookup_def cache_from_removed split: option.splits)
qed

definition cache_after :: "lookup_call list \<Rightarrow> process_cache" where
  "cache_after calls = fold (\<lambda>(pf, now, later, p) C. snd (Lookup pf now later p C)) calls Map.empty"

lemma cache_after_from: "cache_from (set calls) (cache_after calls)"
proof (induction calls rule: rev_induct)
  case (snoc call calls)
  then show ?case using Lookup_cache by (cases call) (simp add: cache_after_def)
qed (simp add: cache_after_def cache_from_def)

subsection \<open>Snapshots\<close>

text \<open>The owners a refresh comes to, in the order of the list.\<close>

definition owner_found :: "(string \<Rightarrow> inspected option) \<Rightarrow> (int \<Rightarrow> Cgroup option) \<Rightarrow> container_summary \<Rightarrow> Container option" where
  "owner_found inspect resolve summary =
     (if sm_State summary \<noteq> ''running'' then None
      else Option.bind (inspect (sm_ID summary)) (\<lambda>v. Option.bind (ins_State v) (\<lambda>(running, p).
        if \<not> running \<or> p \<le> 0 then None else map_option (owner_of v) (resolve p))))"

lemma refresh_items_owners:
  "refresh_items inspect resolve items S = Inr S' \<Longrightarrow> S' = fold add_owner (List.map_filter (owner_found inspect resolve) items) S"
proof (induction items arbitrary: S)
  case (Cons summary items)
  then show ?case
    by (auto simp: owner_found_def split: if_splits option.splits)
qed simp

lemma fold_endpoints: "fold (\<lambda>e m. m(e \<mapsto> c)) es m x = (if x \<in> set es then Some c else m x)"
  by (induction es arbitrary: m) auto

lemma add_owner_parts:
  "ByCgroup (add_owner c S) = (ByCgroup S)(cont_CgroupID c \<mapsto> c)" "ByID (add_owner c S) = AList.update (cont_ID c) c (ByID S)"
  "ByEndpoint (add_owner c S) e = (if e \<in> set (endpoints c) then Some c else ByEndpoint S e)"
  by (simp_all add: add_owner_def fold_endpoints)

lemma add_owners_ByCgroup:
  "distinct (map cont_CgroupID cs) \<Longrightarrow> ByCgroup (fold add_owner cs S) g =
     (case find (\<lambda>c. cont_CgroupID c = g) cs of Some c \<Rightarrow> Some c | None \<Rightarrow> ByCgroup S g)"
proof (induction cs arbitrary: S)
  case (Cons c cs)
  have "find (\<lambda>c. cont_CgroupID c = g) cs = None" if "cont_CgroupID c = g"
    using Cons.prems that by (force simp: find_None_iff image_iff)
  then show ?case using Cons by (auto simp: add_owner_parts split: option.splits)
qed simp

lemma update_new: "k \<notin> fst ` set kvs \<Longrightarrow> AList.update k v kvs = kvs @ [(k, v)]"
  by (induction kvs) auto

lemma add_owners_ByID:
  "distinct (map cont_ID cs) \<Longrightarrow> cont_ID ` set cs \<inter> fst ` set (ByID S) = {} \<Longrightarrow> ByID (fold add_owner cs S) = ByID S @ map (\<lambda>c. (cont_ID c, c)) cs"
proof (induction cs arbitrary: S)
  case (Cons c cs)
  have "AList.update (cont_ID c) c (ByID S) = ByID S @ [(cont_ID c, c)]"
    using Cons.prems(2) by (intro update_new) auto
  then show ?case using Cons by (auto simp: add_owner_parts)
qed simp

lemma add_owners_ByEndpoint:
  "ByEndpoint (fold add_owner cs S) e = Some c \<Longrightarrow> (c \<in> set cs \<and> e \<in> set (endpoints c)) \<or> ByEndpoint S e = Some c"
proof (induction cs arbitrary: S)
  case (Cons d cs)
  then have "(c \<in> set cs \<and> e \<in> set (endpoints c)) \<or> ByEndpoint (add_owner d S) e = Some c" by simp
  then show ?case by (auto simp: add_owner_parts split: if_splits)
qed simp

lemma add_owners_in: "ByCgroup (fold add_owner cs S) g = Some c \<Longrightarrow> c \<in> set cs \<or> ByCgroup S g = Some c"
proof (induction cs arbitrary: S)
  case (Cons d cs)
  then have "c \<in> set cs \<or> ByCgroup (add_owner d S) g = Some c" by simp
  then show ?case by (auto simp: add_owner_parts split: if_splits)
qed simp

lemma Refresh_owners:
  assumes "Refresh listed inspect resolve = Inr S"
  obtains items where "listed = Some items"
    "S = fold add_owner (List.map_filter (owner_found inspect resolve) items) \<lparr>ByCgroup = Map.empty, ByID = [], ByEndpoint = Map.empty\<rparr>"
  using assms refresh_items_owners by (auto simp: Refresh_def split: option.splits)

text \<open>What the Docker service promises: a container has an identifier, and a valid address has the right length.\<close>

definition docker_ok :: "(string \<Rightarrow> inspected option) \<Rightarrow> bool" where
  "docker_ok inspect \<longleftrightarrow> (\<forall>i v. inspect i = Some v \<longrightarrow> ins_ID v \<noteq> [] \<and>
     (\<forall>networks ip ip6. ins_Networks v = Some networks \<longrightarrow> Some (ip, ip6) \<in> set networks \<longrightarrow>
        (IsValid ip \<longrightarrow> proper_addr ip) \<and> (IsValid ip6 \<longrightarrow> proper_addr ip6)) \<and>
     (\<forall>ports. ins_Ports v = Some ports \<longrightarrow> 0 \<notin> set ports))"

lemma owner_found_ok:
  assumes "docker_ok inspect" "owner_found inspect resolve summary = Some c"
  shows "cont_ID c \<noteq> [] \<and> list_all parses (cont_Addresses c) \<and> 0 \<notin> set (cont_Ports c)"
proof -
  obtain v cg where v: "inspect (sm_ID summary) = Some v" "c = owner_of v cg"
    using assms(2) by (auto simp: owner_found_def bind_eq_Some_conv split: if_splits)
  have "parses a" if a: "a \<in> set (containerAddresses v)" for a
  proof -
    obtain networks n where n: "ins_Networks v = Some networks" "n \<in> set networks"
      "a \<in> set (case n of None \<Rightarrow> [] | Some (ip, ip6) \<Rightarrow> map addr_string (filter IsValid [ip, ip6]))"
      using a by (cases "ins_Networks v") (auto simp: containerAddresses_def)
    obtain ip ip6 where "n = Some (ip, ip6)" using n(3) by (cases n) auto
    with n obtain x where x: "Some (ip, ip6) \<in> set networks" "x \<in> {ip, ip6}" "IsValid x" "a = addr_string x"
      by (auto split: if_splits)
    then have "proper_addr x" using n(1) assms(1) v(1) unfolding docker_ok_def by blast
    then show ?thesis using x(4) by (simp add: parses_def parse_addr_string)
  qed
  then show ?thesis
    using assms(1) v unfolding docker_ok_def
    by (auto simp: owner_of_def containerPorts_def list_all_iff split: option.splits)
qed

lemma map_filter_found: "x \<in> set (List.map_filter f xs) \<Longrightarrow> \<exists>y \<in> set xs. f y = Some x"
  by (induction xs) (auto split: option.splits)

lemma Refresh_snapshot_ok:
  assumes "docker_ok inspect" "Refresh listed inspect resolve = Inr S"
  shows "snapshot_ok (ByCgroup S)"
proof -
  obtain items where S: "S = fold add_owner (List.map_filter (owner_found inspect resolve) items) \<lparr>ByCgroup = Map.empty, ByID = [], ByEndpoint = Map.empty\<rparr>"
    using assms(2) by (rule Refresh_owners)
  then show ?thesis
    using add_owners_in [of "List.map_filter (owner_found inspect resolve) items"] owner_found_ok [OF assms(1)]
    by (fastforce simp: snapshot_ok_def dest: map_filter_found)
qed

subsection \<open>The interface of process lookup\<close>

text \<open>The owner of a connection is named: a process has an identifier and a clean name.\<close>

definition owner_named :: "OwnerRef \<Rightarrow> bool" where
  "owner_named owner \<longleftrightarrow> own_Kind owner = OwnerProcess \<longrightarrow> 0 < own_PID owner \<and> clean_name (own_Process owner)"

definition table_named :: "Collector \<Rightarrow> bool" where
  "table_named col \<longleftrightarrow> (\<forall>cd \<in> snd ` set (vals col). owner_named (cd_Owner cd))"

lemma table_named_observe:
  assumes "table_named col" "owner_named (attribute_owner (attributor col) obs)"
  shows "table_named (Observe col obs)"
proof -
  have "cd_Owner (merged a found obs) = attribute_owner a obs" for a found by (simp add: merged_def Attribute_def Let_def)
  then show ?thesis
    using assms set_update_subset [of "obs_key (attributor col) obs" _ "vals col"]
    by (fastforce simp: Observe_cases table_named_def)
qed

text \<open>What the operations give: real addresses, no files for process 0, a time, and a Docker service that keeps its promises.\<close>

fun live_ok :: "('f \<Rightarrow> bool) \<Rightarrow> 'f live_op \<Rightarrow> bool" where
  "live_ok present (LiveObserve f obs) \<longleftrightarrow> (usable obs \<longrightarrow> proper_addr (LocalIP obs) \<and> proper_addr (RemoteIP obs)) \<and> (PID obs = 0 \<longrightarrow> \<not> present f)"
| "live_ok present (LiveDrain t) \<longleftrightarrow> t \<noteq> 0"
| "live_ok present (LiveRefresh listed inspect resolve) \<longleftrightarrow> docker_ok inspect"

definition live_inv :: "('c \<Rightarrow> bool) \<Rightarrow> (Collector \<times> 'c) \<times> Event list \<Rightarrow> bool" where
  "live_inv holds st \<longleftrightarrow> table_inv (fst (fst st)) \<and> table_valid (fst (fst st)) \<and> table_named (fst (fst st)) \<and> holds (snd (fst st)) \<and>
     list_all valid_event (snd st) \<and> list_all (\<lambda>cd. owner_named (cd_Owner cd)) (event_deltas (snd st))"

text \<open>What the collector relies on: the process found has the identifier that was asked for and a clean name, and it is present.\<close>

locale process_lookup =
  fixes look :: "'f \<Rightarrow> u32 \<Rightarrow> 'c \<Rightarrow> Process option \<times> 'c" and holds :: "'c \<Rightarrow> bool" and present :: "'f \<Rightarrow> bool"
  assumes look_keeps: "holds c \<Longrightarrow> holds (snd (look f p c))"
    and look_names: "holds c \<Longrightarrow> fst (look f p c) = Some q \<Longrightarrow> proc_PID q = p \<and> clean_name (proc_Name q) \<and> present f"
begin

lemma live_step_inv:
  assumes "live_inv holds st" "live_ok present op" "\<forall>k t. length (digest k t) = 24"
  shows "live_inv holds (live_step look digest op st)"
proof -
  obtain col C evs where st: "st = ((col, C), evs)" by (metis prod.collapse)
  have inv: "table_inv col" "table_valid col" "table_named col" "holds C" "list_all valid_event evs" "list_all (\<lambda>cd. owner_named (cd_Owner cd)) (event_deltas evs)"
    using assms(1) by (simp_all add: live_inv_def st)
  show ?thesis
  proof (cases op)
    case (LiveObserve f obs)
    define found where "found = (if usable obs \<and> byCgroup (attributor col) (CgroupID obs) = None then look f (PID obs) C else (None, C))"
    let ?col = "col\<lparr>attributor := (attributor col)\<lparr>processes := \<lambda>_. fst found\<rparr>\<rparr>"
    have named: "proc_PID q \<noteq> 0 \<and> clean_name (proc_Name q)" if "fst found = Some q" for q
      using that look_names [OF inv(4), of f "PID obs" q] assms(2) LiveObserve by (auto simp: found_def split: if_splits)
    have "table_inv ?col" "table_named ?col" using inv(1,3) by (simp_all add: table_inv_def table_named_def)
    moreover have "table_valid ?col" using inv(2) named by (simp add: table_valid_def attributor_ok_def)
    moreover have "owner_named (attribute_owner (attributor ?col) obs)"
      using named by (auto simp: attribute_owner_def owner_named_def owner_kind_defs word_neq_0_conv word_less_def split: option.splits)
    moreover have "holds (snd found)" using look_keeps inv(4) by (simp add: found_def)
    ultimately have "live_inv holds ((Observe ?col obs, snd found), evs)"
      using inv(5,6) assms(2) LiveObserve table_inv_Observe table_valid_observe [of ?col obs] table_named_observe [of ?col obs] by (simp add: live_inv_def)
    then show ?thesis by (simp add: st LiveObserve found_def Let_def)
  next
    case (LiveDrain t)
    then show ?thesis
      using inv assms(2,3) drain_valid [of col t digest]
      by (auto simp: st live_inv_def Drain_def table_inv_def table_valid_def table_named_def list_all_iff)
  next
    case (LiveRefresh listed inspect resolve)
    then show ?thesis
      using inv assms(2) Refresh_snapshot_ok [of inspect listed resolve]
      by (auto simp: st live_inv_def table_inv_def table_valid_def table_named_def SetSnapshot_def attributor_ok_def split: sum.splits)
  qed
qed

lemma live_run_inv:
  "live_inv holds st \<Longrightarrow> list_all (live_ok present) ops \<Longrightarrow> \<forall>k t. length (digest k t) = 24 \<Longrightarrow> live_inv holds (fold (live_step look digest) ops st)"
  by (induction ops arbitrary: st) (simp_all add: live_step_inv)

end

lemma look_up_names:
  assumes "\<exists>calls. cache_from calls c" "fst (look_up f p c) = Some q"
  shows "proc_PID q = p \<and> clean_name (proc_Name q) \<and> pf_stat (fst f) \<noteq> None"
proof -
  obtain pf now later where f: "f = (pf, now, later)" by (metis prod_cases3)
  have found: "fst (Lookup pf now later p c) = Some q" using assms(2) by (simp add: look_up_def f)
  obtain calls where "cache_from calls c" using assms(1) ..
  from Lookup_taken [OF this found] obtain pf' where "taken pf' p q" "readStartTime (pf_stat pf) = Some (proc_StartTime q)" by blast
  then show ?thesis using sanitizeName_clean by (auto simp: f taken_def readStartTime_def split: option.splits)
qed

interpretation proc: process_lookup look_up "\<lambda>c. \<exists>calls. cache_from calls c" "\<lambda>f. pf_stat (fst f) \<noteq> None"
proof unfold_locales
  fix c f p
  assume "\<exists>calls. cache_from calls c"
  then show "\<exists>calls. cache_from calls (snd (look_up f p c))"
    by (cases f) (auto simp: look_up_def dest: Lookup_cache)
next
  fix c f p q
  assume "\<exists>calls. cache_from calls c" "fst (look_up f p c) = Some q"
  then show "proc_PID q = p \<and> clean_name (proc_Name q) \<and> pf_stat (fst f) \<noteq> None" by (rule look_up_names)
qed

subsection \<open>Properties\<close>

definition sample_words :: "(nat \<times> string) list" where
  "sample_words = map (Pair 0) [''S'', ''1'', ''1'', ''1'', ''0'', ''1'', ''1'', ''1'', ''1'', ''1'', ''1'', ''1'', ''1'', ''1'', ''1'', ''20'', ''0'', ''1'', ''0'', ''777'', ''0'']"

definition sample_proc :: proc_files where
  "sample_proc = \<lparr>pf_stat = Some (''42 (a) b'' @ CHR '')'' # padded sample_words), pf_comm = Some ''curl'', pf_cgroup = Some ''0::/a''\<rparr>"

definition sample_process :: Process where
  "sample_process = \<lparr>proc_PID = 42, proc_Name = ''curl'', proc_CgroupPath = ''/a'', proc_StartTime = 777\<rparr>"

lemma sample_read:
  "readStartTime (pf_stat sample_proc) = Some 777" "sanitizeName ''curl'' = ''curl''" "parseCgroup ''0::/a'' = ''/a''"
proof -
  have "readStartTime (pf_stat sample_proc) = ParseUint ''777''"
    unfolding sample_proc_def proc_files.select_convs by (subst readStartTime_stat) (simp_all add: sample_words_def visible_def)
  then show "readStartTime (pf_stat sample_proc) = Some 777" by (simp add: ParseUint_def is_digit_def decimal_value_def digit_value_def)
  have "TrimSpace ''curl'' = ''curl''" using TrimSpace_padded [of "''curl''" 0] by (simp add: visible_def)
  then show "sanitizeName ''curl'' = ''curl''" by (simp add: sanitizeName_def Base_def map_control.simps(2) is_control_def Let_def)
  show "parseCgroup ''0::/a'' = ''/a''" by (simp add: parseCgroup_def cgroup_part_def List.map_filter_def)
qed

lemma sample_lookup: "Lookup sample_proc now later 42 Map.empty = (Some sample_process, [42 \<mapsto> \<lparr>ce_process = sample_process, ce_expiresAt = later + cacheLifetime\<rparr>])"
  using sample_read by (simp add: Lookup_def read_process_def sample_process_def Let_def) (simp add: sample_proc_def Let_def)

text \<open>C13. A cached process is never another one: over any lookups, the process found has the identifier that was asked for and the start time
  that its files show now, so that an identifier used again is not taken for the old process; its name and control group were read together with
  that start time, by this call or less than five seconds before.\<close>

theorem process_fresh:
  assumes "fst (Lookup pf now later p (cache_after calls)) = Some q"
  shows "proc_PID q = p \<and> readStartTime (pf_stat pf) = Some (proc_StartTime q) \<and>
    (taken pf p q \<or> (\<exists>pf' now' later'. (pf', now', later', p) \<in> set calls \<and> taken pf' p q \<and> now < later' + cacheLifetime))"
  using Lookup_taken [OF cache_after_from assms] taken_PID by metis

theorem process_fresh_witness:
  "fst (Lookup (sample_proc\<lparr>pf_comm := None\<rparr>) 3 3 42 (cache_after [(sample_proc, 0, 0, 42)])) = Some sample_process \<and>
   proc_StartTime sample_process = 777 \<and> taken sample_proc 42 sample_process"
proof -
  have "fst (Lookup (sample_proc\<lparr>pf_comm := None\<rparr>) 3 3 42 (cache_after [(sample_proc, 0, 0, 42)])) = Some sample_process"
    using sample_read(1) by (simp add: cache_after_def sample_lookup) (simp add: Lookup_def cacheLifetime_def sample_process_def)
  with process_fresh [OF this] show ?thesis by (auto simp: taken_def sample_process_def)
qed

text \<open>A snapshot has exactly the running containers: after a refresh without an error, containers with identifiers and control groups of their own are
  found by both, in the order of the list, nothing else is, and an endpoint leads only to a container that has it.\<close>

theorem refresh_exact:
  assumes "Refresh (Some items) inspect resolve = Inr S" "cs = List.map_filter (owner_found inspect resolve) items"
    "distinct (map cont_ID cs)" "distinct (map cont_CgroupID cs)"
  shows "ByID S = map (\<lambda>c. (cont_ID c, c)) cs \<and> (ByCgroup S g = Some c \<longleftrightarrow> c \<in> set cs \<and> cont_CgroupID c = g) \<and>
    (ByEndpoint S e = Some d \<longrightarrow> d \<in> set cs \<and> e \<in> set (endpoints d))"
proof -
  have S: "S = fold add_owner cs \<lparr>ByCgroup = Map.empty, ByID = [], ByEndpoint = Map.empty\<rparr>"
    using assms(1,2) by (elim Refresh_owners) simp
  have "find (\<lambda>c. cont_CgroupID c = g) cs = Some c \<longleftrightarrow> c \<in> set cs \<and> cont_CgroupID c = g"
    using assms(4) by (auto simp: find_Some_iff in_set_conv_nth distinct_conv_nth)
  then have "ByCgroup S g = Some c \<longleftrightarrow> c \<in> set cs \<and> cont_CgroupID c = g"
    unfolding S add_owners_ByCgroup [OF assms(4)] by (auto split: option.splits)
  moreover have "ByID S = map (\<lambda>c. (cont_ID c, c)) cs" unfolding S by (subst add_owners_ByID [OF assms(3)]) simp_all
  moreover have "ByEndpoint S e = Some d \<longrightarrow> d \<in> set cs \<and> e \<in> set (endpoints d)"
    unfolding S using add_owners_ByEndpoint [of cs "\<lparr>ByCgroup = Map.empty, ByID = [], ByEndpoint = Map.empty\<rparr>" e d] by simp
  ultimately show ?thesis by blast
qed

definition sample_inspected :: inspected where
  "sample_inspected = \<lparr>ins_ID = ''c1'', ins_Name = ''/web'', ins_State = Some (True, 9), ins_Networks = Some [None, Some (Addr4 [172, 17, 0, 2], NoAddr)],
     ins_Ports = Some [443, 80]\<rparr>"

definition sample_summaries :: "container_summary list" where
  "sample_summaries = [\<lparr>sm_ID = ''c0'', sm_State = ''exited''\<rparr>, \<lparr>sm_ID = ''c1'', sm_State = ''running''\<rparr>]"

theorem refresh_exact_witness:
  "\<exists>S. Refresh (Some sample_summaries) (\<lambda>i. Some sample_inspected) (\<lambda>p. Some \<lparr>cg_ID = 5, cg_Path = ''/a''\<rparr>) = Inr S \<and>
     ByCgroup S 5 = Some (owner_of sample_inspected \<lparr>cg_ID = 5, cg_Path = ''/a''\<rparr>) \<and>
     ByID S = [(''c1'', owner_of sample_inspected \<lparr>cg_ID = 5, cg_Path = ''/a''\<rparr>)]"
proof -
  let ?inspect = "\<lambda>i :: string. Some sample_inspected" and ?resolve = "\<lambda>p :: int. Some \<lparr>cg_ID = 5, cg_Path = ''/a''\<rparr>"
  let ?c = "owner_of sample_inspected \<lparr>cg_ID = 5, cg_Path = ''/a''\<rparr>"
  have "ContainerIDFromCgroupPath ''/a'' = None" by (simp add: match_here_def)
  then obtain S where S: "Refresh (Some sample_summaries) ?inspect ?resolve = Inr S"
    by (simp add: Refresh_def sample_summaries_def sample_inspected_def)
  have "[?c] = List.map_filter (owner_found ?inspect ?resolve) sample_summaries"
    by (simp add: sample_summaries_def owner_found_def) (simp add: sample_inspected_def)
  from refresh_exact [OF S this, of 5 ?c] S show ?thesis by (auto simp: owner_of_def sample_inspected_def)
qed

text \<open>C21. Whatever the agent observes, drains and refreshes, in any order, with any contents of the files under \<^verbatim>\<open>/proc\<close> and any failing refresh: every
  event is valid, and a connection of a process has its identifier and a name that is not empty, at most 128 bytes long and without control
  characters (no byte below 32, no 127, no U+0080 to U+009F); what is drained next from a table that is not empty forms a batch that
  \<^verbatim>\<open>Validate\<close> accepts. Assumed are addresses that are addresses in the observations that count, no files for process 0, times of draining
  that are not zero, a Docker service that gives containers an identifier, real addresses and no port 0, and digests of 24 characters.\<close>

theorem live_events_valid:
  assumes "list_all (live_ok (\<lambda>f. pf_stat (fst f) \<noteq> None)) ops" "\<forall>k t. length (digest k t) = 24"
    "fold (live_step look_up digest) ops ((NewCollector \<lparr>processes = \<lambda>_. None, byCgroup = \<lambda>_. None\<rparr>, Map.empty), []) = ((col, C), evs)"
    and batch: "ba_SchemaVersion b = 1" "id_ok (ba_BatchID b)" "id_ok (ba_NodeID b)" "ba_SentAt b \<noteq> 0"
      "ba_CompactedBatchIDs b = []" "ba_Events b = snd (Drain digest col t)" "vals col \<noteq> []" "t \<noteq> 0"
  shows "list_all valid_event evs \<and> list_all (\<lambda>cd. owner_named (cd_Owner cd)) (event_deltas evs) \<and> Validate b = None"
proof -
  have "live_inv (\<lambda>c. \<exists>calls. cache_from calls c) ((NewCollector \<lparr>processes = \<lambda>_. None, byCgroup = \<lambda>_. None\<rparr>, Map.empty), [])"
    by (simp add: live_inv_def table_inv_New table_valid_def table_named_def attributor_ok_def snapshot_ok_def cache_from_def) (simp add: NewCollector_def attributor_ok_def snapshot_ok_def)
  from proc.live_run_inv [OF this assms(1,2)]
  have inv: "table_inv col" "table_valid col" "list_all valid_event evs" "list_all (\<lambda>cd. owner_named (cd_Owner cd)) (event_deltas evs)"
    unfolding assms(3) by (simp_all add: live_inv_def)
  then show ?thesis using drained_batch_valid [OF inv(1,2) assms(2) batch] by simp
qed

abbreviation no_owners :: Attributor where
  "no_owners \<equiv> \<lparr>processes = \<lambda>_. None, byCgroup = \<lambda>_. None\<rparr>"

abbreviation sample_ops :: "(proc_files \<times> go_time \<times> go_time) live_op list" where
  "sample_ops \<equiv> [LiveRefresh None (\<lambda>i. None) (\<lambda>p. None), LiveObserve (sample_proc, 0, 0) (demo_obs 100)]"

theorem live_events_valid_witness:
  "case fold (live_step look_up (\<lambda>_ _. replicate 24 CHR ''0'')) sample_ops ((NewCollector no_owners, Map.empty), []) of
     ((col, C), evs) \<Rightarrow> map (\<lambda>e. own_Process (cd_Owner (snd e))) (vals col) = [''curl''] \<and>
       Validate \<lparr>ba_SchemaVersion = 1, ba_BatchID = ''b'', ba_NodeID = ''n'', ba_SentAt = 9,
         ba_Events = snd (Drain (\<lambda>_ _. replicate 24 CHR ''0'') col 8), ba_CompactedBatchIDs = []\<rparr> = None"
proof -
  let ?run = "fold (live_step look_up (\<lambda>_ _. replicate 24 CHR ''0'')) sample_ops ((NewCollector no_owners, Map.empty), [])"
  have ok: "list_all (live_ok (\<lambda>f. pf_stat (fst f) \<noteq> None)) sample_ops"
    by (simp add: docker_ok_def demo_obs_def observation_of_def demo_event_def event_addr_def AF_INET_def)
  have pid: "PID (demo_obs 100) = 42" by (simp add: demo_obs_def observation_of_def demo_event_def)
  obtain col C evs where run: "?run = ((col, C), evs)" by (metis prod.collapse)
  have col: "col = Observe (NewCollector (no_owners\<lparr>processes := \<lambda>_. Some sample_process\<rparr>)) (demo_obs 100)"
    using run by (simp add: Refresh_def pid look_up_def sample_lookup demo_obs_usable NewCollector_def)
  then have one: "map (\<lambda>e. own_Process (cd_Owner (snd e))) (vals col) = [''curl'']"
    by (simp add: Observe_cases demo_obs_usable full_for_def NewCollector_def maxActiveConnections_def merged_def Attribute_def attribute_owner_def
        sample_process_def Let_def)
  then have "vals col \<noteq> []" by auto
  then show ?thesis using live_events_valid [OF ok _ run, where t = 8] one unfolding run by (simp add: id_ok_def)
qed

end
