(* ===== verification/Tls.thy ===== *)
theory Tls
  imports Bytes Netip
begin

text \<open>
  The server name in a TLS ClientHello, \<^verbatim>\<open>internal/agent/namecapture/tls.go\<close>. Slices and indices
  are checked: an access outside its slice, which panics in Go, is the error \<open>OutOfRange\<close>, and
  a theorem shows that it cannot happen. The slow path of \<^verbatim>\<open>strings.ToLower\<close>, taken for names that
  are not ASCII, depends on the Unicode tables and is the parameter \<open>lower_unicode\<close>.
\<close>

datatype sni_error =
    HelloTooLarge
  | TruncatedRecordHeader
  | TruncatedRecordBody
  | MissingHandshakeHeader
  | TruncatedClientHello
  | TruncatedRandom
  | TruncatedSession
  | InvalidCipherSuites
  | TruncatedCompression
  | TruncatedExtensions
  | TruncatedExtensionHeader
  | TruncatedExtensionBody
  | TruncatedServerNameList
  | InvalidServerNameListLength
  | TruncatedServerName
  | TruncatedServerNameValue
  | InvalidServerName
  | OutOfRange

type_synonym sni_result = "sni_error + string option"

subsection \<open>Checked accesses\<close>

definition byte_at :: "bytes \<Rightarrow> nat \<Rightarrow> sni_error + nat" where
  "byte_at bs i = (if i < length bs then Inr (unat (bs ! i)) else Inl OutOfRange)"

definition slice_of :: "bytes \<Rightarrow> nat \<Rightarrow> nat \<Rightarrow> sni_error + bytes" where
  "slice_of bs i j = (if i \<le> j \<and> j \<le> length bs then Inr (go_slice i j bs) else Inl OutOfRange)"

text \<open>\<^verbatim>\<open>binary.BigEndian.Uint16\<close> of a two-byte slice.\<close>

definition be16 :: "bytes \<Rightarrow> nat \<Rightarrow> sni_error + nat" where
  "be16 bs i = andThen (byte_at bs i) (\<lambda>h. andThen (byte_at bs (i + 1)) (\<lambda>l. Inr (256 * h + l)))"

subsection \<open>Server names\<close>

definition string_of :: "bytes \<Rightarrow> string" where
  "string_of bs = map (\<lambda>b. char_of (unat b)) bs"

definition trimDot :: "string \<Rightarrow> string" where
  "trimDot s = (if s \<noteq> [] \<and> last s = CHR ''.'' then butlast s else s)"

definition ascii_lower :: "char \<Rightarrow> char" where
  "ascii_lower c = (if 65 \<le> (of_char c :: nat) \<and> (of_char c :: nat) \<le> 90 then char_of (of_char c + 32 :: nat) else c)"

definition toLower :: "(string \<Rightarrow> string) \<Rightarrow> string \<Rightarrow> string" where
  "toLower lower_unicode s = (if list_all (\<lambda>c. (of_char c :: nat) < 128) s then map ascii_lower s else lower_unicode s)"

text \<open>\<^verbatim>\<open>strings.Split\<close> at dots.\<close>

fun split_dots :: "string \<Rightarrow> string list" where
  "split_dots [] = [[]]"
| "split_dots (c # cs) =
     (if c = CHR ''.'' then [] # split_dots cs
      else (case split_dots cs of [] \<Rightarrow> [[c]] | l # ls \<Rightarrow> (c # l) # ls))"

definition label_char :: "char \<Rightarrow> bool" where
  "label_char c \<longleftrightarrow> (97 \<le> (of_char c :: nat) \<and> (of_char c :: nat) \<le> 122) \<or>
     (48 \<le> (of_char c :: nat) \<and> (of_char c :: nat) \<le> 57) \<or> c = CHR ''-''"

definition char_at :: "string \<Rightarrow> nat \<Rightarrow> sni_error + char" where
  "char_at s i = (if i < length s then Inr (s ! i) else Inl OutOfRange)"

definition label_ok :: "string \<Rightarrow> sni_error + bool" where
  "label_ok l =
     (if l = [] \<or> 63 < length l then Inr False
      else andThen (char_at l 0) (\<lambda>first.
        if first = CHR ''-'' then Inr False
        else andThen (char_at l (length l - 1)) (\<lambda>final.
          if final = CHR ''-'' then Inr False else Inr (list_all label_char l))))"

fun labels_ok :: "string list \<Rightarrow> sni_error + bool" where
  "labels_ok [] = Inr True"
| "labels_ok (l # ls) = andThen (label_ok l) (\<lambda>ok. if ok then labels_ok ls else Inr False)"

definition validServerName :: "string \<Rightarrow> sni_error + bool" where
  "validServerName name =
     (if name = [] \<or> 253 < length name \<or>
        list_ex (\<lambda>c. c \<in> {CHR '' '', CHR 0x09, CHR 0x0D, CHR 0x0A, CHR 0x00}) name then Inr False
      else labels_ok (split_dots name))"

subsection \<open>The parser\<close>

definition maxClientHelloBytes :: nat where "maxClientHelloBytes = 64 * 1024"

function server_name_loop :: "(string \<Rightarrow> string) \<Rightarrow> bytes \<Rightarrow> nat \<Rightarrow> sni_result" where
  "server_name_loop lu ext offset =
     (if offset < length ext then
        (if length ext - offset < 3 then Inl TruncatedServerName
         else andThen (byte_at ext offset) (\<lambda>nameType.
           andThen (be16 ext (offset + 1)) (\<lambda>nameLength.
             (if length ext - (offset + 3) < nameLength then Inl TruncatedServerNameValue
              else if nameType = 0 then
                andThen (slice_of ext (offset + 3) (offset + 3 + nameLength)) (\<lambda>raw.
                  (let name = toLower lu (trimDot (string_of raw)) in
                   andThen (validServerName name) (\<lambda>valid. if valid then Inr (Some name) else Inl InvalidServerName)))
              else server_name_loop lu ext (offset + 3 + nameLength)))))
      else Inr None)"
  by pat_completeness auto
termination by (relation "measure (\<lambda>(lu, ext, offset). length ext - offset)") auto

declare server_name_loop.simps [simp del]

definition parseServerName :: "(string \<Rightarrow> string) \<Rightarrow> bytes \<Rightarrow> sni_result" where
  "parseServerName lu ext =
     (if length ext < 2 then Inl TruncatedServerNameList
      else andThen (be16 ext 0) (\<lambda>listLength.
        (if listLength \<noteq> length ext - 2 then Inl InvalidServerNameListLength
         else server_name_loop lu ext 2)))"

function extension_loop :: "(string \<Rightarrow> string) \<Rightarrow> bytes \<Rightarrow> nat \<Rightarrow> nat \<Rightarrow> sni_result" where
  "extension_loop lu body stop offset =
     (if offset < stop then
        (if stop - offset < 4 then Inl TruncatedExtensionHeader
         else andThen (be16 body offset) (\<lambda>extensionType.
           andThen (be16 body (offset + 2)) (\<lambda>extensionLength.
             (if stop - (offset + 4) < extensionLength then Inl TruncatedExtensionBody
              else if extensionType = 0 then
                andThen (slice_of body (offset + 4) (offset + 4 + extensionLength)) (parseServerName lu)
              else extension_loop lu body stop (offset + 4 + extensionLength)))))
      else Inr None)"
  by pat_completeness auto
termination by (relation "measure (\<lambda>(lu, body, stop, offset). stop - offset)") auto

declare extension_loop.simps [simp del]

definition parseExtensions :: "(string \<Rightarrow> string) \<Rightarrow> bytes \<Rightarrow> nat \<Rightarrow> sni_result" where
  "parseExtensions lu body offset =
     (if offset = length body then Inr None
      else if length body < offset + 2 then Inl TruncatedExtensions
      else andThen (be16 body offset) (\<lambda>extensionsLength.
        (if length body - (offset + 2) < extensionsLength then Inl TruncatedExtensions
         else extension_loop lu body (offset + 2 + extensionsLength) (offset + 2))))"

definition parseClientHello :: "(string \<Rightarrow> string) \<Rightarrow> bytes \<Rightarrow> sni_result" where
  "parseClientHello lu body =
     (if length body < 34 + 1 then Inl TruncatedRandom
      else andThen (byte_at body 34) (\<lambda>sessionLength.
        (if length body < 35 + sessionLength + 2 then Inl TruncatedSession
         else (let offset = 35 + sessionLength in
           andThen (be16 body offset) (\<lambda>cipherLength.
             (if cipherLength = 0 \<or> cipherLength mod 2 \<noteq> 0 \<or> length body < offset + 2 + cipherLength + 1
              then Inl InvalidCipherSuites
              else (let offset = offset + 2 + cipherLength in
                andThen (byte_at body offset) (\<lambda>compressionLength.
                  (if length body < offset + 1 + compressionLength then Inl TruncatedCompression
                   else parseExtensions lu body (offset + 1 + compressionLength))))))))))"

function tls_records :: "bytes \<Rightarrow> nat \<Rightarrow> bytes \<Rightarrow> sni_error + bytes" where
  "tls_records payload offset handshake =
     (if offset < length payload then
        (if length payload - offset < 5 then Inl TruncatedRecordHeader
         else andThen (be16 payload (offset + 3)) (\<lambda>len.
           (if length payload - (offset + 5) < len then Inl TruncatedRecordBody
            else andThen (byte_at payload offset) (\<lambda>contentType.
              (if contentType = 22 then
                 andThen (slice_of payload (offset + 5) (offset + 5 + len)) (\<lambda>fragment.
                   (if maxClientHelloBytes < length (handshake @ fragment) then Inl HelloTooLarge
                    else tls_records payload (offset + 5 + len) (handshake @ fragment)))
               else tls_records payload (offset + 5 + len) handshake)))))
      else Inr handshake)"
  by pat_completeness auto
termination by (relation "measure (\<lambda>(payload, offset, handshake). length payload - offset)") auto

declare tls_records.simps [simp del]

definition ExtractSNI :: "(string \<Rightarrow> string) \<Rightarrow> bytes \<Rightarrow> sni_result" where
  "ExtractSNI lu payload =
     (if maxClientHelloBytes < length payload then Inl HelloTooLarge
      else andThen (tls_records payload 0 []) (\<lambda>handshake.
        (if length handshake < 4 then Inl MissingHandshakeHeader
         else andThen (byte_at handshake 0) (\<lambda>kind.
           (if kind \<noteq> 1 then Inr None
            else andThen (byte_at handshake 1) (\<lambda>a. andThen (byte_at handshake 2) (\<lambda>b. andThen (byte_at handshake 3) (\<lambda>c.
              (let handshakeLength = 65536 * a + 256 * b + c in
               if maxClientHelloBytes - 4 < handshakeLength then Inl HelloTooLarge
               else if length handshake < 4 + handshakeLength then Inl TruncatedClientHello
               else andThen (slice_of handshake 4 (4 + handshakeLength)) (parseClientHello lu)))))))))) "

subsection \<open>No access is out of range\<close>

lemma byte_at_range: "byte_at bs i = Inl e \<longleftrightarrow> length bs \<le> i \<and> e = OutOfRange"
  by (auto simp: byte_at_def)

lemma be16_range: "be16 bs i = Inl e \<longleftrightarrow> length bs \<le> i + 1 \<and> e = OutOfRange"
  by (auto simp: be16_def andThen_Inl byte_at_range byte_at_def)

lemma slice_of_range: "slice_of bs i j = Inl e \<longleftrightarrow> \<not> (i \<le> j \<and> j \<le> length bs) \<and> e = OutOfRange"
  by (auto simp: slice_of_def)

lemmas range_simps = andThen_Inl byte_at_range be16_range slice_of_range

lemma label_ok_range: "label_ok l \<noteq> Inl e"
  by (auto simp: label_ok_def char_at_def andThen_Inl)

lemma labels_ok_range: "labels_ok ls \<noteq> Inl e"
  by (induction ls) (auto simp: andThen_Inl label_ok_range)

lemma validServerName_range: "validServerName name \<noteq> Inl e"
  by (simp add: validServerName_def labels_ok_range)

lemma server_name_loop_range: "server_name_loop lu ext offset \<noteq> Inl OutOfRange"
proof (induction lu ext offset rule: server_name_loop.induct)
  case (1 lu ext offset)
  then show ?case
    by (subst server_name_loop.simps) (auto simp: range_simps validServerName_range Let_def split: if_splits)
qed

lemma parseServerName_range: "parseServerName lu ext \<noteq> Inl OutOfRange"
  by (auto simp: parseServerName_def range_simps server_name_loop_range split: if_splits)

lemma extension_loop_range: "stop \<le> length body \<Longrightarrow> extension_loop lu body stop offset \<noteq> Inl OutOfRange"
proof (induction lu body stop offset rule: extension_loop.induct)
  case (1 lu body stop offset)
  then show ?case
    by (subst extension_loop.simps) (auto simp: range_simps parseServerName_range split: if_splits)
qed

lemma parseExtensions_range: "parseExtensions lu body offset \<noteq> Inl OutOfRange"
  by (auto simp: parseExtensions_def range_simps extension_loop_range split: if_splits)

lemma parseClientHello_range: "parseClientHello lu body \<noteq> Inl OutOfRange"
  by (auto simp: parseClientHello_def range_simps parseExtensions_range Let_def split: if_splits)

lemma tls_records_range: "tls_records payload offset handshake \<noteq> Inl OutOfRange"
proof (induction payload offset handshake rule: tls_records.induct)
  case (1 payload offset handshake)
  then show ?case
    by (subst tls_records.simps) (auto simp: range_simps split: if_splits)
qed

lemma ExtractSNI_range: "ExtractSNI lu payload \<noteq> Inl OutOfRange"
  by (auto simp: ExtractSNI_def range_simps tls_records_range parseClientHello_range Let_def split: if_splits)

subsection \<open>Names that are returned\<close>

lemma split_dots_nonempty: "split_dots s \<noteq> []"
  by (induction s) (auto split: list.splits)

lemma split_dots_join: "join_with ''.'' (split_dots s) = s"
proof (induction s)
  case (Cons c cs)
  obtain l ls where "split_dots cs = l # ls" using split_dots_nonempty [of cs] by (cases "split_dots cs") auto
  with Cons show ?case by (cases ls) auto
qed simp

lemma split_dots_label: "CHR ''.'' \<notin> set l \<Longrightarrow> split_dots l = [l]"
  by (induction l) auto

lemma split_dots_append: "CHR ''.'' \<notin> set l \<Longrightarrow> split_dots (l @ CHR ''.'' # s) = l # split_dots s"
  by (induction l) auto

lemma split_dots_join_with:
  "ls \<noteq> [] \<Longrightarrow> \<forall>l \<in> set ls. CHR ''.'' \<notin> set l \<Longrightarrow> split_dots (join_with ''.'' ls) = ls"
  by (induction "''.''" ls rule: join_with.induct) (auto simp: split_dots_label split_dots_append)

text \<open>A host name in the sense of DNS: labels of letters, digits and inner hyphens.\<close>

definition dns_label :: "string \<Rightarrow> bool" where
  "dns_label l \<longleftrightarrow> l \<noteq> [] \<and> length l \<le> 63 \<and> hd l \<noteq> CHR ''-'' \<and> last l \<noteq> CHR ''-'' \<and> list_all label_char l"

definition dns_name :: "string \<Rightarrow> bool" where
  "dns_name name \<longleftrightarrow> length name \<le> 253 \<and>
     (\<exists>labels. labels \<noteq> [] \<and> name = join_with ''.'' labels \<and> list_all dns_label labels)"

lemma label_char_plain: "label_char c \<Longrightarrow> c \<notin> {CHR '' '', CHR 0x09, CHR 0x0D, CHR 0x0A, CHR 0x00, CHR ''.''}"
  by (auto simp: label_char_def)

lemma join_chars: "c \<in> set (join_with ''.'' ls) \<Longrightarrow> c = CHR ''.'' \<or> (\<exists>l \<in> set ls. c \<in> set l)"
  by (induction "''.''" ls rule: join_with.induct) auto

lemma labels_ok_value: "labels_ok ls = Inr (list_all dns_label ls)"
proof (induction ls)
  case (Cons l ls)
  have "label_ok l = Inr (dns_label l)"
    by (auto simp: label_ok_def dns_label_def char_at_def hd_conv_nth last_conv_nth)
  with Cons show ?case by simp
qed simp

lemma dns_name_split:
  "dns_name name \<longleftrightarrow> name \<noteq> [] \<and> length name \<le> 253 \<and>
     list_all (\<lambda>c. c \<notin> {CHR '' '', CHR 0x09, CHR 0x0D, CHR 0x0A, CHR 0x00}) name \<and> list_all dns_label (split_dots name)"
    (is "_ \<longleftrightarrow> ?parts")
proof
  assume ?parts
  then show "dns_name name"
    using split_dots_join [of name] split_dots_nonempty [of name]
    by (auto simp: dns_name_def intro!: exI [of _ "split_dots name"])
next
  assume "dns_name name"
  then obtain ls where ls: "ls \<noteq> []" "name = join_with ''.'' ls" "list_all dns_label ls" "length name \<le> 253"
    by (auto simp: dns_name_def)
  have plain: "\<forall>l \<in> set ls. \<forall>c \<in> set l. label_char c" using ls(3) by (auto simp: list_all_iff dns_label_def)
  then have "\<forall>l \<in> set ls. CHR ''.'' \<notin> set l" using label_char_plain by blast
  from split_dots_join_with [OF ls(1) this] have s: "split_dots name = ls" by (simp add: ls(2))
  have "\<forall>c \<in> set name. c \<notin> {CHR '' '', CHR 0x09, CHR 0x0D, CHR 0x0A, CHR 0x00}"
    using join_chars [of _ ls] plain label_char_plain unfolding ls(2) by fastforce
  moreover have "name \<noteq> []" using s ls(3) by (auto simp: dns_label_def)
  ultimately show ?parts using ls s by (simp add: list_all_iff)
qed

lemma validServerName_value [simp]: "validServerName name = Inr (dns_name name)"
  unfolding dns_name_split validServerName_def labels_ok_value by (auto simp: list_ex_iff list_all_iff)

lemma server_name_loop_valid: "server_name_loop lu ext offset = Inr (Some name) \<Longrightarrow> dns_name name"
proof (induction lu ext offset rule: server_name_loop.induct)
  case (1 lu ext offset)
  then show ?case
    by (subst (asm) server_name_loop.simps) (auto simp: andThen_Inr Let_def split: if_splits)
qed

lemma parseServerName_valid: "parseServerName lu ext = Inr (Some name) \<Longrightarrow> dns_name name"
  by (auto simp: parseServerName_def andThen_Inr dest: server_name_loop_valid split: if_splits)

lemma extension_loop_valid: "extension_loop lu body stop offset = Inr (Some name) \<Longrightarrow> dns_name name"
proof (induction lu body stop offset rule: extension_loop.induct)
  case (1 lu body stop offset)
  then show ?case
    by (subst (asm) extension_loop.simps) (auto simp: andThen_Inr dest: parseServerName_valid split: if_splits)
qed

lemma ExtractSNI_valid: "ExtractSNI lu payload = Inr (Some name) \<Longrightarrow> dns_name name"
  by (auto simp: ExtractSNI_def parseClientHello_def parseExtensions_def andThen_Inr Let_def
      dest: extension_loop_valid split: if_splits)

subsection \<open>Encoding a ClientHello\<close>

definition enc16 :: "nat \<Rightarrow> bytes" where
  "enc16 n = [of_nat (n div 256), of_nat (n mod 256)]"

definition enc24 :: "nat \<Rightarrow> bytes" where
  "enc24 n = [of_nat (n div 65536), of_nat (n div 256 mod 256), of_nat (n mod 256)]"

text \<open>An extension; the server name extension with one host name; the message; its records, for any
  fragmentation.\<close>

definition enc_ext :: "nat \<times> bytes \<Rightarrow> bytes" where
  "enc_ext ext = enc16 (fst ext) @ enc16 (length (snd ext)) @ snd ext"

definition sni_ext :: "bytes \<Rightarrow> nat \<times> bytes" where
  "sni_ext host = (0, enc16 (length host + 3) @ [0] @ enc16 (length host) @ host)"

record client_hello =
  ch_preamble :: bytes
  ch_session :: bytes
  ch_ciphers :: bytes
  ch_compression :: bytes
  ch_before :: "(nat \<times> bytes) list"
  ch_host :: bytes
  ch_after :: "(nat \<times> bytes) list"

definition hello_exts :: "client_hello \<Rightarrow> bytes" where
  "hello_exts ch = concat (map enc_ext (ch_before ch @ [sni_ext (ch_host ch)] @ ch_after ch))"

definition hello_body :: "client_hello \<Rightarrow> bytes" where
  "hello_body ch = ch_preamble ch @ [of_nat (length (ch_session ch))] @ ch_session ch @
     enc16 (length (ch_ciphers ch)) @ ch_ciphers ch @ [of_nat (length (ch_compression ch))] @ ch_compression ch @
     enc16 (length (hello_exts ch)) @ hello_exts ch"

definition hello_message :: "client_hello \<Rightarrow> bytes" where
  "hello_message ch = [1] @ enc24 (length (hello_body ch)) @ hello_body ch"

definition enc_record :: "bytes \<Rightarrow> bytes" where
  "enc_record fragment = [22, 3, 1] @ enc16 (length fragment) @ fragment"

definition enc_records :: "bytes list \<Rightarrow> bytes" where
  "enc_records fragments = concat (map enc_record fragments)"

text \<open>The sizes the format can express, and the limit of the parser.\<close>

definition proper_hello :: "client_hello \<Rightarrow> bool" where
  "proper_hello ch \<longleftrightarrow> length (ch_preamble ch) = 34 \<and> length (ch_session ch) < 256 \<and>
     ch_ciphers ch \<noteq> [] \<and> even (length (ch_ciphers ch)) \<and> length (ch_ciphers ch) < 65536 \<and>
     length (ch_compression ch) < 256 \<and> length (hello_exts ch) < 65536 \<and>
     (\<forall>(t, d) \<in> set (ch_before ch). t \<noteq> 0 \<and> t < 65536)"

definition fragments_of :: "bytes \<Rightarrow> bytes list \<Rightarrow> bool" where
  "fragments_of msg frs \<longleftrightarrow> concat frs = msg \<and> [] \<notin> set frs \<and> length (enc_records frs) \<le> maxClientHelloBytes"

subsection \<open>Reading back what was encoded\<close>

lemma unat_byte: "n < 256 \<Longrightarrow> unat (of_nat n :: byte) = n"
  by (simp add: unat_of_nat)

lemma length_enc [simp]: "length (enc16 n) = 2" "length (enc24 n) = 3"
  by (simp_all add: enc16_def enc24_def)

lemma byte_at_append: "i = length xs \<Longrightarrow> byte_at (xs @ b # ys) i = Inr (unat b)"
  by (simp add: byte_at_def)

lemma be16_append: "i = length xs \<Longrightarrow> n < 65536 \<Longrightarrow> be16 (xs @ enc16 n @ ys) i = Inr n"
  by (simp add: be16_def byte_at_def enc16_def nth_append unat_byte less_mult_imp_div_less)

lemma slice_of_append: "i = length xs \<Longrightarrow> j = i + length ms \<Longrightarrow> slice_of (xs @ ms @ ys) i j = Inr ms"
  by (simp add: slice_of_def go_slice_def)

definition host_name :: "(string \<Rightarrow> string) \<Rightarrow> bytes \<Rightarrow> string" where
  "host_name lu host = toLower lu (trimDot (string_of host))"

lemma parseServerName_sni:
  assumes "length host + 3 < 65536" "dns_name (host_name lu host)"
  shows "parseServerName lu (snd (sni_ext host)) = Inr (Some (host_name lu host))"
proof -
  let ?ext = "enc16 (length host + 3) @ [0] @ enc16 (length host) @ host"
  have "be16 ?ext 0 = Inr (length host + 3)"
    using be16_append [of 0 "[]" "length host + 3" "[0] @ enc16 (length host) @ host"] assms(1) by simp
  moreover have "byte_at ?ext 2 = Inr 0"
    using byte_at_append [of 2 "enc16 (length host + 3)" 0 "enc16 (length host) @ host"] by simp
  moreover have "be16 ?ext 3 = Inr (length host)"
    using be16_append [of 3 "enc16 (length host + 3) @ [0]" "length host" host] assms(1) by simp
  moreover have "slice_of ?ext 5 (5 + length host) = Inr host"
    using slice_of_append [of 5 "enc16 (length host + 3) @ [0] @ enc16 (length host)" _ host "[]"] by simp
  ultimately show ?thesis
    using assms(2)
    by (simp add: parseServerName_def sni_ext_def server_name_loop.simps [of lu _ 2] host_name_def Let_def)
qed

lemma length_enc_ext: "length (enc_ext e) = 4 + length (snd e)"
  by (simp add: enc_ext_def)

lemma extension_loop_step:
  assumes "body = pre @ enc_ext (t, d) @ post" "t < 65536" "length d < 65536" "length pre + length (enc_ext (t, d)) \<le> stop"
  shows "extension_loop lu body stop (length pre) =
    (if t = 0 then parseServerName lu d else extension_loop lu body stop (length (pre @ enc_ext (t, d))))"
proof -
  have b: "body = pre @ enc16 t @ enc16 (length d) @ d @ post" by (simp add: assms(1) enc_ext_def)
  have "be16 body (length pre) = Inr t" using be16_append [OF refl assms(2)] by (simp add: b)
  moreover have "be16 body (length pre + 2) = Inr (length d)"
    using be16_append [of "length pre + 2" "pre @ enc16 t" "length d" "d @ post"] assms(3) by (simp add: b)
  moreover have "slice_of body (length pre + 4) (length pre + 4 + length d) = Inr d"
    using slice_of_append [of "length pre + 4" "pre @ enc16 t @ enc16 (length d)" _ d post] by (simp add: b)
  moreover have "length pre < stop" "\<not> stop - length pre < 4" "\<not> stop - (length pre + 4) < length d"
    using assms(4) by (simp_all add: length_enc_ext)
  ultimately show ?thesis
    by (simp add: extension_loop.simps [of lu body stop "length pre"] length_enc_ext add.assoc)
qed

lemma extension_loop_sni:
  assumes "\<forall>(t, d) \<in> set bef. t \<noteq> 0 \<and> t < 65536"
    and "length (concat (map enc_ext (bef @ [sni_ext host] @ aft))) < 65536"
    and "body = pre @ concat (map enc_ext (bef @ [sni_ext host] @ aft)) @ post"
    and "stop = length pre + length (concat (map enc_ext (bef @ [sni_ext host] @ aft)))"
    and "dns_name (host_name lu host)"
  shows "extension_loop lu body stop (length pre) = Inr (Some (host_name lu host))"
  using assms
proof (induction bef arbitrary: pre)
  case Nil
  have len: "length host + 3 < 65536" "length (snd (sni_ext host)) < 65536"
    using Nil.prems(2) by (simp_all add: length_enc_ext sni_ext_def)
  have "body = pre @ enc_ext (0, snd (sni_ext host)) @ concat (map enc_ext aft) @ post"
    using Nil.prems(3) by (simp add: sni_ext_def)
  from extension_loop_step [OF this _ len(2), of stop lu] Nil.prems(4) parseServerName_sni [OF len(1) Nil.prems(5)]
  show ?case by (simp add: sni_ext_def)
next
  case (Cons e bef)
  obtain t d where e: "e = (t, d)" by (cases e)
  let ?rest = "concat (map enc_ext (bef @ [sni_ext host] @ aft))"
  have "t \<noteq> 0" "t < 65536" "length d < 65536"
    using Cons.prems(1,2) by (auto simp: e length_enc_ext)
  moreover have b: "body = pre @ enc_ext (t, d) @ ?rest @ post" using Cons.prems(3) by (simp add: e)
  moreover have "length pre + length (enc_ext (t, d)) \<le> stop" using Cons.prems(4) by (simp add: e)
  ultimately have "extension_loop lu body stop (length pre) = extension_loop lu body stop (length (pre @ enc_ext (t, d)))"
    using extension_loop_step [of body pre t d "?rest @ post" stop lu] by simp
  also have "\<dots> = Inr (Some (host_name lu host))"
    using Cons.prems b by (intro Cons.IH) (auto simp: e)
  finally show ?case .
qed

lemma parseClientHello_hello:
  assumes "proper_hello ch" "dns_name (host_name lu (ch_host ch))"
  shows "parseClientHello lu (hello_body ch) = Inr (Some (host_name lu (ch_host ch)))"
proof -
  let ?s = "length (ch_session ch)" and ?c = "length (ch_ciphers ch)" and ?z = "length (ch_compression ch)"
  let ?x = "hello_exts ch" and ?b = "hello_body ch"
  let ?p1 = "ch_preamble ch" and ?p2 = "ch_preamble ch @ [of_nat ?s] @ ch_session ch"
  let ?p3 = "?p2 @ enc16 ?c @ ch_ciphers ch"
  let ?p4 = "?p3 @ [of_nat ?z] @ ch_compression ch"
  note p = assms(1) [unfolded proper_hello_def]
  have len: "length ?p1 = 34" "length ?p2 = 35 + ?s" "length ?p3 = 37 + ?s + ?c" "length ?p4 = 38 + ?s + ?c + ?z"
    "length ?b = 40 + ?s + ?c + ?z + length ?x"
    using p by (simp_all add: hello_body_def)
  have 1: "byte_at ?b 34 = Inr ?s"
    using byte_at_append [of 34 ?p1 "of_nat ?s"] len(1) p by (simp add: hello_body_def unat_byte)
  have 2: "be16 ?b (35 + ?s) = Inr ?c"
    using be16_append [of "35 + ?s" ?p2 ?c "ch_ciphers ch @ [of_nat ?z] @ ch_compression ch @ enc16 (length ?x) @ ?x"] len(2) p
    by (simp add: hello_body_def)
  have 3: "byte_at ?b (37 + ?s + ?c) = Inr ?z"
    using byte_at_append [of "37 + ?s + ?c" ?p3 "of_nat ?z" "ch_compression ch @ enc16 (length ?x) @ ?x"] len(3) p
    by (simp add: hello_body_def unat_byte)
  have 4: "be16 ?b (38 + ?s + ?c + ?z) = Inr (length ?x)"
    using be16_append [of "38 + ?s + ?c + ?z" ?p4 "length ?x" ?x] len(4) p by (simp add: hello_body_def)
  have "extension_loop lu ?b (length (?p4 @ enc16 (length ?x)) + length ?x) (length (?p4 @ enc16 (length ?x))) =
      Inr (Some (host_name lu (ch_host ch)))"
    using p assms(2)
    by (intro extension_loop_sni [where bef = "ch_before ch" and aft = "ch_after ch" and post = "[]"])
      (auto simp: hello_exts_def hello_body_def)
  then have 5: "extension_loop lu ?b (40 + ?s + ?c + ?z + length ?x) (40 + ?s + ?c + ?z) = Inr (Some (host_name lu (ch_host ch)))"
    using len(4) by (simp add: ac_simps)
  have "even ?c" "0 < ?c" using p by auto
  with 1 2 3 4 5 len(5) show ?thesis
    by (simp add: parseClientHello_def parseExtensions_def Let_def ac_simps even_iff_mod_2_eq_zero)
qed

subsection \<open>Records and truncation\<close>

lemma tls_records_end: "length payload \<le> offset \<Longrightarrow> tls_records payload offset h = Inr h"
  by (simp add: tls_records.simps)

lemma tls_records_step:
  assumes "payload = pre @ enc_record f @ post" "length f < 65536" "length (h @ f) \<le> maxClientHelloBytes"
  shows "tls_records payload (length pre) h = tls_records payload (length (pre @ enc_record f)) (h @ f)"
proof -
  have b: "payload = pre @ [22, 3, 1] @ enc16 (length f) @ f @ post" by (simp add: assms(1) enc_record_def)
  have "be16 payload (length pre + 3) = Inr (length f)"
    using be16_append [of "length pre + 3" "pre @ [22, 3, 1]" "length f" "f @ post"] assms(2) by (simp add: b)
  moreover have "byte_at payload (length pre) = Inr 22"
    using byte_at_append [of "length pre" pre 22] by (simp add: b)
  moreover have "slice_of payload (length pre + 5) (length pre + 5 + length f) = Inr f"
    using slice_of_append [of "length pre + 5" "pre @ [22, 3, 1] @ enc16 (length f)" _ f post] by (simp add: b)
  moreover have "length payload = length pre + 5 + length f + length post" "length (pre @ enc_record f) = length pre + 5 + length f"
    by (simp_all add: b enc_record_def)
  ultimately show ?thesis
    using assms(3) by (simp add: tls_records.simps [of payload "length pre"] add.assoc)
qed

lemma tls_records_fragments:
  assumes "payload = pre @ enc_records frs @ post" "length (h @ concat frs) \<le> maxClientHelloBytes"
    "\<forall>f \<in> set frs. length f < 65536"
  shows "tls_records payload (length pre) h = tls_records payload (length (pre @ enc_records frs)) (h @ concat frs)"
  using assms
proof (induction frs arbitrary: pre h)
  case Nil
  then show ?case by (simp add: enc_records_def)
next
  case (Cons f frs)
  have "tls_records payload (length pre) h = tls_records payload (length (pre @ enc_record f)) (h @ f)"
    using Cons.prems by (intro tls_records_step [where post = "enc_records frs @ post"]) (auto simp: enc_records_def)
  also have "\<dots> = tls_records payload (length ((pre @ enc_record f) @ enc_records frs)) ((h @ f) @ concat frs)"
    using Cons.prems by (intro Cons.IH) (auto simp: enc_records_def)
  finally show ?case by (simp add: enc_records_def)
qed

lemma enc_records_bounds:
  "length (concat frs) \<le> length (enc_records frs)" "f \<in> set frs \<Longrightarrow> length f + 5 \<le> length (enc_records frs)"
  by (induction frs) (auto simp: enc_records_def enc_record_def)

lemma fragments_small:
  assumes "fragments_of msg frs"
  shows "length msg \<le> maxClientHelloBytes" "\<forall>f \<in> set frs. length f < 65536"
  using assms enc_records_bounds(1) [of frs] enc_records_bounds(2) [of _ frs]
  by (fastforce simp: fragments_of_def maxClientHelloBytes_def)+

lemma tls_records_all:
  assumes "fragments_of msg frs"
  shows "tls_records (enc_records frs) 0 [] = Inr msg"
  using tls_records_fragments [where payload = "enc_records frs" and pre = "[]" and frs = frs and post = "[]" and h = "[]"]
    fragments_small [OF assms] assms
  by (simp add: fragments_of_def tls_records_end)

lemma hello_header:
  assumes "length msg \<le> maxClientHelloBytes" "msg = hello_message ch"
  shows "byte_at msg 0 = Inr 1" "byte_at msg 1 = Inr (length (hello_body ch) div 65536)"
    "byte_at msg 2 = Inr (length (hello_body ch) div 256 mod 256)" "byte_at msg 3 = Inr (length (hello_body ch) mod 256)"
    "65536 * (length (hello_body ch) div 65536) + 256 * (length (hello_body ch) div 256 mod 256) + length (hello_body ch) mod 256 =
      length (hello_body ch)" "length msg = 4 + length (hello_body ch)"
proof -
  let ?n = "length (hello_body ch)"
  show "length msg = 4 + ?n" using assms(2) by (simp add: hello_message_def)
  then have "?n < 65536" using assms(1) by (simp add: maxClientHelloBytes_def)
  then show "byte_at msg 1 = Inr (?n div 65536)"
    "65536 * (?n div 65536) + 256 * (?n div 256 mod 256) + ?n mod 256 = ?n"
    using less_mult_imp_div_less [of ?n 256 256]
    by (simp_all add: assms(2) hello_message_def enc24_def byte_at_def)
  show "byte_at msg 0 = Inr 1" "byte_at msg 2 = Inr (?n div 256 mod 256)" "byte_at msg 3 = Inr (?n mod 256)"
    by (simp_all add: assms(2) hello_message_def enc24_def byte_at_def unat_byte)
qed

lemma ExtractSNI_hello:
  assumes "proper_hello ch" "fragments_of (hello_message ch) frs" "dns_name (host_name lu (ch_host ch))"
  shows "ExtractSNI lu (enc_records frs) = Inr (Some (host_name lu (ch_host ch)))"
proof -
  let ?msg = "hello_message ch" and ?n = "length (hello_body ch)"
  note small = fragments_small(1) [OF assms(2)]
  note h = hello_header [OF small refl]
  have "slice_of ?msg 4 (4 + ?n) = Inr (hello_body ch)"
    using slice_of_append [of 4 "[1] @ enc24 ?n" _ "hello_body ch" "[]"] by (simp add: hello_message_def)
  moreover have "length (enc_records frs) \<le> maxClientHelloBytes" "?n \<le> maxClientHelloBytes - 4"
    using assms(2) small h(6) by (simp_all add: fragments_of_def)
  ultimately show ?thesis
    using parseClientHello_hello [OF assms(1,3)] h
    by (simp add: ExtractSNI_def tls_records_all [OF assms(2)] Let_def)
qed

text \<open>The errors after which the caller waits for more data.\<close>

definition waits :: "sni_error \<Rightarrow> bool" where
  "waits e \<longleftrightarrow> e \<in> {TruncatedRecordHeader, TruncatedRecordBody, MissingHandshakeHeader, TruncatedClientHello, TruncatedRandom,
     TruncatedSession, TruncatedCompression, TruncatedExtensions, TruncatedExtensionHeader, TruncatedExtensionBody,
     TruncatedServerNameList, TruncatedServerName, TruncatedServerNameValue}"

text \<open>A proper prefix of a sequence of records is some whole records and a proper part of the next.\<close>

lemma enc_records_prefix:
  "strict_prefix p (enc_records frs) \<Longrightarrow>
     \<exists>frs1 f frs2 q. frs = frs1 @ f # frs2 \<and> p = enc_records frs1 @ q \<and> strict_prefix q (enc_record f)"
proof (induction frs arbitrary: p)
  case Nil
  then show ?case by (simp add: enc_records_def)
next
  case (Cons f frs)
  show ?case
  proof (cases "strict_prefix p (enc_record f)")
    case True
    then show ?thesis by (intro exI [of _ "[]"] exI [of _ f] exI [of _ frs] exI [of _ p]) (simp add: enc_records_def)
  next
    case False
    have "prefix p (enc_record f @ enc_records frs)" "p \<noteq> enc_record f @ enc_records frs"
      using Cons.prems by (auto simp: enc_records_def strict_prefix_def)
    with False have "\<exists>p'. p = enc_record f @ p' \<and> strict_prefix p' (enc_records frs)"
      unfolding strict_prefix_def prefix_append by auto
    then obtain p' where p: "p = enc_record f @ p'" "strict_prefix p' (enc_records frs)" by blast
    from Cons.IH [OF p(2)] obtain frs1 g frs2 q where
      "frs = frs1 @ g # frs2" "p' = enc_records frs1 @ q" "strict_prefix q (enc_record g)" by blast
    then show ?thesis using p by (intro exI [of _ "f # frs1"] exI [of _ g] exI [of _ frs2] exI [of _ q]) (simp add: enc_records_def)
  qed
qed

lemma tls_records_partial:
  assumes "strict_prefix q (enc_record f)" "q \<noteq> []" "length f < 65536"
  shows "tls_records (pre @ q) (length pre) h \<in> {Inl TruncatedRecordHeader, Inl TruncatedRecordBody}"
proof (cases "length q < 5")
  case True
  then show ?thesis using assms(2) by (simp add: tls_records.simps)
next
  case False
  have len: "length q < 5 + length f" using prefix_length_less [OF assms(1)] by (simp add: enc_record_def)
  obtain r where "enc_record f = q @ r" using assms(1) by (auto simp: strict_prefix_def prefix_def)
  then have "take 5 q = take 5 (enc_record f)" using False by simp
  then have "take 5 q = [22, 3, 1] @ enc16 (length f)" by (simp add: enc_record_def enc16_def)
  then obtain t where q: "q = [22, 3, 1] @ enc16 (length f) @ t" by (metis append_take_drop_id append.assoc)
  have "be16 (pre @ q) (length pre + 3) = Inr (length f)"
    using be16_append [of "length pre + 3" "pre @ [22, 3, 1]" "length f" t] assms(3) by (simp add: q)
  moreover have "length t < length f" using len by (simp add: q)
  ultimately show ?thesis using False by (simp add: tls_records.simps [of "pre @ q"]) (simp add: q)
qed

lemma enc_records_append: "enc_records (xs @ ys) = enc_records xs @ enc_records ys"
  by (simp add: enc_records_def)

lemma ExtractSNI_prefix:
  assumes "fragments_of (hello_message ch) frs" "strict_prefix p (enc_records frs)"
  shows "\<exists>e. ExtractSNI lu p = Inl e \<and> waits e"
proof -
  let ?msg = "hello_message ch"
  note small = fragments_small [OF assms(1)]
  note h = hello_header [OF small(1) refl]
  obtain frs1 f frs2 q where p: "frs = frs1 @ f # frs2" "p = enc_records frs1 @ q" "strict_prefix q (enc_record f)"
    using enc_records_prefix [OF assms(2)] by blast
  have msg: "?msg = concat frs1 @ f @ concat frs2" "f \<noteq> []" using assms(1) by (auto simp: fragments_of_def p(1))
  have "length p \<le> maxClientHelloBytes"
    using prefix_length_less [OF assms(2)] assms(1) by (simp add: fragments_of_def)
  moreover have records: "tls_records p 0 [] = tls_records p (length (enc_records frs1)) (concat frs1)"
    using tls_records_fragments [where payload = p and pre = "[]" and frs = frs1 and post = q and h = "[]"] small msg(1) p
    by simp
  ultimately show ?thesis
  proof (cases "q = []")
    case True
    then have r: "tls_records p 0 [] = Inr (concat frs1)"
      using records p(2) by (simp add: tls_records_end)
    have lt: "length (concat frs1) < length ?msg" using msg by simp
    show ?thesis
    proof (cases "length (concat frs1) < 4")
      case True
      then show ?thesis using \<open>length p \<le> _\<close> r by (simp add: ExtractSNI_def waits_def)
    next
      case False
      have at: "byte_at (concat frs1) i = byte_at ?msg i" if "i < 4" for i
        using that False msg(1) by (simp add: byte_at_def nth_append)
      have "length (hello_body ch) \<le> maxClientHelloBytes - 4" using small(1) h(6) by simp
      then show ?thesis
        using \<open>length p \<le> _\<close> r False lt h
        by (simp add: ExtractSNI_def at Let_def waits_def)
    qed
  next
    case False
    have "length f < 65536" using small(2) p(1) by simp
    from tls_records_partial [OF p(3) False this, of "enc_records frs1" "concat frs1"] show ?thesis
      using \<open>length p \<le> _\<close> records p(2) by (auto simp: ExtractSNI_def waits_def)
  qed
qed

subsection \<open>Properties\<close>

text \<open>A ClientHello for \<^verbatim>\<open>Example.com\<close> with one other extension, in two records.\<close>

definition demo_hello :: client_hello where
  "demo_hello = \<lparr>ch_preamble = replicate 34 0, ch_session = [], ch_ciphers = [19, 1], ch_compression = [0],
     ch_before = [(10, [0, 2])], ch_host = [69, 120, 97, 109, 112, 108, 101, 46, 99, 111, 109], ch_after = []\<rparr>"

definition demo_fragments :: "bytes list" where
  "demo_fragments = [take 20 (hello_message demo_hello), drop 20 (hello_message demo_hello)]"

lemma demo_hello_facts:
  "proper_hello demo_hello" "fragments_of (hello_message demo_hello) demo_fragments"
  "host_name (\<lambda>s. s) (ch_host demo_hello) = ''example.com''"
proof -
  note sizes = hello_message_def hello_body_def hello_exts_def enc_ext_def sni_ext_def demo_hello_def
  show "proper_hello demo_hello" by (simp add: proper_hello_def sizes)
  have "length (hello_message demo_hello) = 73" by (simp add: sizes)
  then show "fragments_of (hello_message demo_hello) demo_fragments"
    by (auto simp: fragments_of_def demo_fragments_def enc_records_def enc_record_def maxClientHelloBytes_def)
  show "host_name (\<lambda>s. s) (ch_host demo_hello) = ''example.com''"
    by (simp add: demo_hello_def host_name_def string_of_def trimDot_def toLower_def ascii_lower_def char_of_eq_iff)
qed

lemma demo_name_valid: "dns_name ''example.com''"
  by (simp add: dns_name_split dns_label_def label_char_def)

text \<open>C22. The ClientHello parser is safe on every input: no index or slice is out of range, in the records, the handshake, the
  extensions and the server name list as in the first and last character of a label, whatever the packet claims about
  its own lengths and whatever name it holds.\<close>

theorem sni_never_out_of_range: "ExtractSNI lu payload \<noteq> Inl OutOfRange"
  by (rule ExtractSNI_range)

text \<open>A name is only reported if it is a well-formed host name: at most 253 characters, labels of 1 to 63
  lower-case letters, digits and hyphens that neither start nor end with a hyphen.\<close>

theorem sni_name_valid:
  assumes "ExtractSNI lu payload = Inr (Some name)"
  shows "dns_name name"
  using ExtractSNI_valid [OF assms] .

theorem sni_name_valid_witness:
  "ExtractSNI (\<lambda>s. s) (enc_records demo_fragments) = Inr (Some ''example.com'') \<and> dns_name ''example.com''"
proof -
  have "ExtractSNI (\<lambda>s. s) (enc_records demo_fragments) = Inr (Some ''example.com'')"
    using ExtractSNI_hello [OF demo_hello_facts(1,2)] demo_hello_facts(3) demo_name_valid by simp
  with sni_name_valid [OF this] show ?thesis by simp
qed

text \<open>Round trip of the ClientHello: for every message the format can express, with any session, cipher suites,
  compression methods and other extensions, cut into TLS records in any way, the parser returns
  the host name of its server name extension, in lower case and without a trailing dot.\<close>

theorem sni_roundtrip:
  assumes "proper_hello ch" "fragments_of (hello_message ch) frs" "dns_name (host_name lu (ch_host ch))"
  shows "ExtractSNI lu (enc_records frs) = Inr (Some (host_name lu (ch_host ch)))"
  using ExtractSNI_hello [OF assms(1,2)] assms(3) by simp

theorem sni_roundtrip_witness:
  "ExtractSNI (\<lambda>s. s) (enc_records demo_fragments) = Inr (Some ''example.com'')"
  using sni_roundtrip [OF demo_hello_facts(1,2), of "\<lambda>s. s"] demo_name_valid
  by (simp add: demo_hello_facts(3))

end
