(* ===== verification/Name_Capture.thy ===== *)
theory Name_Capture
  imports Tls Model "HOL-Library.AList"
begin

text \<open>
  Names of remote addresses from captured packets, \<^verbatim>\<open>internal/agent/namecapture/processor.go\<close> and
  \<^verbatim>\<open>dns.go\<close>: reassembly of the start of TLS connections per flow, with bounds on flows, bytes
  and time, and the answers of DNS messages. The DNS decoder is a package outside the
  repository: the parameter \<open>dns_decode\<close> (no value is a decoding error).
\<close>

subsection \<open>Errors as the processor sees them\<close>

text \<open>The text of each parser error; the processor looks for words in it.\<close>

fun sni_message :: "sni_error \<Rightarrow> string" where
  "sni_message HelloTooLarge = ''TLS ClientHello exceeds 64 KiB''"
| "sni_message TruncatedRecordHeader = ''truncated TLS record header''"
| "sni_message TruncatedRecordBody = ''truncated TLS record body''"
| "sni_message MissingHandshakeHeader = ''missing TLS handshake header''"
| "sni_message TruncatedClientHello = ''truncated TLS ClientHello''"
| "sni_message TruncatedRandom = ''truncated TLS ClientHello random''"
| "sni_message TruncatedSession = ''truncated TLS ClientHello session''"
| "sni_message InvalidCipherSuites = ''invalid TLS ClientHello cipher suites''"
| "sni_message TruncatedCompression = ''truncated TLS ClientHello compression''"
| "sni_message TruncatedExtensions = ''truncated TLS ClientHello extensions''"
| "sni_message TruncatedExtensionHeader = ''truncated TLS extension header''"
| "sni_message TruncatedExtensionBody = ''truncated TLS extension body''"
| "sni_message TruncatedServerNameList = ''truncated TLS server name list''"
| "sni_message InvalidServerNameListLength = ''invalid TLS server name list length''"
| "sni_message TruncatedServerName = ''truncated TLS server name''"
| "sni_message TruncatedServerNameValue = ''truncated TLS server name value''"
| "sni_message InvalidServerName = ''invalid TLS server name''"
| "sni_message OutOfRange = []"

fun contains :: "string \<Rightarrow> string \<Rightarrow> bool" where
  "contains pat [] = (pat = [])"
| "contains pat (c # cs) = (prefix pat (c # cs) \<or> contains pat cs)"

lemma waits_message:
  "contains ''truncated'' (sni_message e) \<or> contains ''missing TLS handshake header'' (sni_message e) \<longleftrightarrow> waits e"
  by (cases e) (simp_all add: waits_def)

subsection \<open>State\<close>

record Packet =
  pk_ObservedAt :: go_time
  pk_SourceIP :: addr
  pk_DestinationIP :: addr
  pk_SourcePort :: u16
  pk_DestinationPort :: u16
  pk_Protocol :: u8
  pk_Payload :: bytes

record ProcessorStats =
  st_DroppedFlows :: u64
  st_ExpiredFlows :: u64
  st_Malformed :: u64

record flowKey =
  fk_SourceIP :: addr
  fk_DestinationIP :: addr
  fk_SourcePort :: u16
  fk_DestinationPort :: u16

record partialFlow =
  pf_updatedAt :: go_time
  pf_payload :: bytes

record Processor =
  maxFlows :: nat
  flows :: "(flowKey \<times> partialFlow) list"
  stats :: ProcessorStats

abbreviation second :: go_time where "second \<equiv> 1000000000"

definition NewProcessor :: "int \<Rightarrow> Processor" where
  "NewProcessor limit =
     \<lparr>maxFlows = nat (if limit \<le> 0 then 4096 else limit), flows = [],
      stats = \<lparr>st_DroppedFlows = 0, st_ExpiredFlows = 0, st_Malformed = 0\<rparr>\<rparr>"

definition stale :: "go_time \<Rightarrow> partialFlow \<Rightarrow> bool" where
  "stale now flow \<longleftrightarrow> 5 * second < now - pf_updatedAt flow"

definition expire :: "Processor \<Rightarrow> go_time \<Rightarrow> Processor" where
  "expire pr now =
     pr\<lparr>flows := filter (\<lambda>(k, flow). \<not> stale now flow) (flows pr),
        stats := (stats pr)\<lparr>st_ExpiredFlows := st_ExpiredFlows (stats pr) +
          of_nat (length (filter (\<lambda>(k, flow). stale now flow) (flows pr)))\<rparr>\<rparr>"

definition drop_flow :: "Processor \<Rightarrow> Processor" where
  "drop_flow pr = pr\<lparr>stats := (stats pr)\<lparr>st_DroppedFlows := st_DroppedFlows (stats pr) + 1\<rparr>\<rparr>"

definition malformed :: "Processor \<Rightarrow> Processor" where
  "malformed pr = pr\<lparr>stats := (stats pr)\<lparr>st_Malformed := st_Malformed (stats pr) + 1\<rparr>\<rparr>"

definition delete_flow :: "flowKey \<Rightarrow> Processor \<Rightarrow> Processor" where
  "delete_flow k pr = pr\<lparr>flows := AList.delete k (flows pr)\<rparr>"

subsection \<open>DNS answers\<close>

record dns_answer =
  da_Class :: nat
  da_Type :: nat
  da_IP :: "bytes option"
  da_Name :: string
  da_TTL :: u32

record dns_message =
  dm_QR :: bool
  dm_ResponseCode :: nat
  dm_Answers :: "dns_answer list"

text \<open>\<^verbatim>\<open>net.IP.String\<close>.\<close>

definition net_ip_string :: "bytes \<Rightarrow> string" where
  "net_ip_string ip =
     (if ip = [] then ''<nil>''
      else if length ip = 4 then addr_string (Addr4 ip)
      else if length ip = 16 then
        (if take 12 ip = replicate 10 0 @ [255, 255] then addr_string (Addr4 (drop 12 ip)) else addr_string (Addr16 ip))
      else ''?'' @ concat (map (\<lambda>b. [hex_digit (unat b div 16), hex_digit (unat b mod 16)]) ip))"

definition clamp_ttl :: "u32 \<Rightarrow> go_time" where
  "clamp_ttl ttl =
     (let d = uint ttl * second in if d < 30 * second then 30 * second else if 24 * 3600 * second < d then 24 * 3600 * second else d)"

definition answer_evidence :: "(string \<Rightarrow> string) \<Rightarrow> go_time \<Rightarrow> dns_answer \<Rightarrow> NameEvidence option" where
  "answer_evidence lu observedAt answer =
     (if da_Class answer \<noteq> 1 \<or> (da_Type answer \<noteq> 1 \<and> da_Type answer \<noteq> 28) then None
      else case da_IP answer of None \<Rightarrow> None
      | Some ip \<Rightarrow>
          (let name = toLower lu (trimDot (da_Name answer)) in
           if name = [] then None
           else Some \<lparr>ne_IP = net_ip_string ip, ne_Name = name, ne_Source = ''dns'', ne_ValidFrom = observedAt,
             ne_ValidUntil = observedAt + clamp_ttl (da_TTL answer)\<rparr>))"

definition ParseDNSMessage :: "(string \<Rightarrow> string) \<Rightarrow> (bytes \<Rightarrow> dns_message option) \<Rightarrow> bytes \<Rightarrow> go_time \<Rightarrow>
    NameEvidence list option" where
  "ParseDNSMessage lu dns_decode payload observedAt =
     (let message = (if 2 \<le> length payload \<and> 256 * unat (payload ! 0) + unat (payload ! 1) = length payload - 2
                     then drop 2 payload else payload)
      in case dns_decode message of
           None \<Rightarrow> None
         | Some dns \<Rightarrow>
             (if \<not> dm_QR dns \<or> dm_ResponseCode dns \<noteq> 0 then Some []
              else Some (List.map_filter (answer_evidence lu observedAt) (dm_Answers dns))))"

subsection \<open>Events\<close>

text \<open>The events the agent makes of evidence and of the state of the capture; \<open>digest\<close> stands for the hexadecimal
  SHA-256 prefix in their identifiers.\<close>

definition EvidenceEvent :: "(NameEvidence \<Rightarrow> string) \<Rightarrow> NameEvidence \<Rightarrow> Event" where
  "EvidenceEvent digest e =
     zero_Event\<lparr>ev_ID := ''evidence:'' @ digest e, ev_ObservedAt := ne_ValidFrom e, ev_Kind := EventNameEvidence,
       ev_NameEvidence := Some e\<rparr>"

definition clampDropped :: "u64 \<Rightarrow> int64" where
  "clampDropped value = (if drop_bit 1 (- 1) < value then drop_bit 1 (- 1) else value)"

definition CollectorHealthEvent :: "(string \<Rightarrow> go_time \<Rightarrow> string) \<Rightarrow> go_time \<Rightarrow> string \<Rightarrow> u64 \<Rightarrow> Event" where
  "CollectorHealthEvent digest observedAt code dropped =
     zero_Event\<lparr>ev_ID := ''health:'' @ digest code observedAt, ev_ObservedAt := observedAt, ev_Kind := EventHealth,
       ev_Health := Some \<lparr>he_Collector = ''name_capture'', he_Status = ''degraded'', he_Code = code,
         he_DroppedEvents = clampDropped dropped, he_UsagePercent = Fin 0, he_Message = []\<rparr>\<rparr>"

lemma clampDropped_value: "clampDropped v = clampUint64 v"
  by (simp add: clampDropped_def clampUint64_def MaxInt64_def mask_eq_exp_minus_1)

lemma EvidenceEvent_valid:
  "valid_evidence e \<Longrightarrow> length (digest e) = 24 \<Longrightarrow> valid_event (EvidenceEvent digest e)"
  by (auto simp: valid_event_def EvidenceEvent_def zero_Event_def id_ok_def valid_payload_def payload_kinds_def kind_defs
      valid_evidence_def)

lemma CollectorHealthEvent_valid:
  assumes "length (digest code t) = 24" "t \<noteq> 0" "code \<noteq> []"
  shows "valid_event (CollectorHealthEvent digest t code dropped)"
proof -
  have "\<not> clampDropped dropped <s 0" by (simp add: clampDropped_value nonneg_word clampUint64_value)
  then show ?thesis
    using assms
    by (simp add: valid_event_def CollectorHealthEvent_def zero_Event_def id_ok_def valid_payload_def payload_kinds_def
        kind_defs health_ok_def)
qed

subsection \<open>Processing a packet\<close>

definition packet_key :: "Packet \<Rightarrow> flowKey" where
  "packet_key p = \<lparr>fk_SourceIP = pk_SourceIP p, fk_DestinationIP = pk_DestinationIP p, fk_SourcePort = pk_SourcePort p,
     fk_DestinationPort = pk_DestinationPort p\<rparr>"

definition sni_evidence :: "Packet \<Rightarrow> string \<Rightarrow> NameEvidence" where
  "sni_evidence p name = \<lparr>ne_IP = addr_string (pk_DestinationIP p), ne_Name = name, ne_Source = ''tls_sni'',
     ne_ValidFrom = pk_ObservedAt p, ne_ValidUntil = pk_ObservedAt p + 600 * second\<rparr>"

text \<open>The bytes kept for a flow, the state with a segment appended to its flow, and the handling of a TLS
  segment.\<close>

definition flow_bytes :: "Processor \<Rightarrow> flowKey \<Rightarrow> bytes" where
  "flow_bytes pr k = (case map_of (flows pr) k of Some flow \<Rightarrow> pf_payload flow | None \<Rightarrow> [])"

definition append_segment :: "Processor \<Rightarrow> Packet \<Rightarrow> Processor" where
  "append_segment pr p =
     pr\<lparr>flows := AList.update (packet_key p)
       \<lparr>pf_updatedAt = pk_ObservedAt p, pf_payload = flow_bytes pr (packet_key p) @ pk_Payload p\<rparr> (flows pr)\<rparr>"

definition process_segment :: "(string \<Rightarrow> string) \<Rightarrow> Processor \<Rightarrow> Packet \<Rightarrow> Processor \<times> NameEvidence list" where
  "process_segment lu pr p =
     (let k = packet_key p in
      if map_of (flows pr) k = None \<and> maxFlows pr \<le> length (flows pr) then (drop_flow pr, [])
      else if maxClientHelloBytes < length (flow_bytes pr k) + length (pk_Payload p) then (drop_flow (delete_flow k pr), [])
      else
        (let pr' = append_segment pr p in
         case ExtractSNI lu (flow_bytes pr' k) of
           Inl e \<Rightarrow>
             (if contains ''truncated'' (sni_message e) \<or> contains ''missing TLS handshake header'' (sni_message e)
              then (pr', [])
              else (malformed (delete_flow k pr'), []))
         | Inr None \<Rightarrow> (delete_flow k pr', [])
         | Inr (Some name) \<Rightarrow> (delete_flow k pr', [sni_evidence p name])))"

definition Process :: "(string \<Rightarrow> string) \<Rightarrow> (bytes \<Rightarrow> dns_message option) \<Rightarrow> Processor \<Rightarrow> Packet \<Rightarrow>
    Processor \<times> NameEvidence list" where
  "Process lu dns_decode processor p =
     (let pr = expire processor (pk_ObservedAt p) in
      if pk_Protocol p = 17 \<and> (pk_SourcePort p = 53 \<or> pk_DestinationPort p = 53) then
        (case ParseDNSMessage lu dns_decode (pk_Payload p) (pk_ObservedAt p) of
           None \<Rightarrow> (malformed pr, [])
         | Some evidence \<Rightarrow> (pr, evidence))
      else if pk_Protocol p \<noteq> 6 \<or> pk_DestinationPort p \<noteq> 443 \<or> pk_Payload p = [] then (pr, [])
      else process_segment lu pr p)"

subsection \<open>Bounds\<close>

definition flows_inv :: "Processor \<Rightarrow> bool" where
  "flows_inv pr \<longleftrightarrow> distinct (map fst (flows pr)) \<and> length (flows pr) \<le> maxFlows pr \<and>
     (\<forall>(k, flow) \<in> set (flows pr). pf_payload flow \<noteq> [] \<and> length (pf_payload flow) \<le> maxClientHelloBytes)"

lemmas processor_simps = drop_flow_def malformed_def delete_flow_def

lemma flows_inv_expire: "flows_inv pr \<Longrightarrow> flows_inv (expire pr now)"
  by (auto simp: flows_inv_def expire_def distinct_map_filter intro: order_trans [OF length_filter_le])

lemma flows_inv_stats: "flows_inv (pr\<lparr>stats := st\<rparr>) = flows_inv pr"
  by (simp add: flows_inv_def)

lemma flows_inv_delete: "flows_inv pr \<Longrightarrow> flows_inv (delete_flow k pr)"
  using length_delete_le [of k "flows pr"] set_delete_subset
  by (fastforce simp: flows_inv_def delete_flow_def distinct_delete)

lemma flows_inv_append:
  assumes "flows_inv pr" "map_of (flows pr) (packet_key p) \<noteq> None \<or> length (flows pr) < maxFlows pr"
    "pk_Payload p \<noteq> []" "length (flow_bytes pr (packet_key p)) + length (pk_Payload p) \<le> maxClientHelloBytes"
  shows "flows_inv (append_segment pr p)"
proof -
  let ?flow = "\<lparr>pf_updatedAt = pk_ObservedAt p, pf_payload = flow_bytes pr (packet_key p) @ pk_Payload p\<rparr>"
  have "distinct (map fst (AList.update (packet_key p) ?flow (flows pr)))"
    using assms(1) by (simp add: flows_inv_def distinct_update)
  moreover have "length (AList.update (packet_key p) ?flow (flows pr)) \<le> maxFlows pr"
    using assms(1,2) by (auto simp: flows_inv_def length_update map_of_eq_None_iff)
  ultimately show ?thesis
    using assms set_update_subset [of "packet_key p" ?flow "flows pr"]
    by (auto simp: flows_inv_def append_segment_def)
qed

lemma flows_inv_counters: "flows_inv (malformed pr) = flows_inv pr" "flows_inv (drop_flow pr) = flows_inv pr"
  by (simp_all add: malformed_def drop_flow_def flows_inv_stats)

lemma flows_inv_segment:
  assumes "flows_inv pr" "pk_Payload p \<noteq> []"
  shows "flows_inv (fst (process_segment lu pr p))"
  using flows_inv_append [OF assms(1) _ assms(2)] flows_inv_delete assms(1)
  by (auto simp: process_segment_def Let_def flows_inv_counters split: sum.split option.split)

lemma flows_inv_Process: "flows_inv pr \<Longrightarrow> flows_inv (fst (Process lu dns pr p))"
  using flows_inv_expire [of pr "pk_ObservedAt p"] flows_inv_segment
  by (auto simp: Process_def Let_def flows_inv_counters split: option.split)

subsection \<open>What is reported\<close>

definition dns_ok :: "(bytes \<Rightarrow> dns_message option) \<Rightarrow> bool" where
  "dns_ok dns \<longleftrightarrow> (\<forall>payload msg. dns payload = Some msg \<longrightarrow>
     (\<forall>answer \<in> set (dm_Answers msg). \<forall>ip. da_IP answer = Some ip \<longrightarrow> length ip \<in> {4, 16}))"

lemma clamp_ttl_bounds: "30 * second \<le> clamp_ttl ttl" "clamp_ttl ttl \<le> 86400 * second"
  by (simp_all add: clamp_ttl_def Let_def)

lemma net_ip_parses: "length ip \<in> {4, 16} \<Longrightarrow> \<exists>a. ParseAddr (net_ip_string ip) = Some a"
  using parse_addr_string [of "Addr4 ip"] parse_addr_string [of "Addr4 (drop 12 ip)"] parse_addr_string [of "Addr16 ip"]
  by (auto simp: net_ip_string_def)

text \<open>Valid evidence that starts with the packet and lasts between thirty seconds and a day.\<close>

definition fresh_evidence :: "go_time \<Rightarrow> NameEvidence \<Rightarrow> bool" where
  "fresh_evidence now e \<longleftrightarrow> valid_evidence e \<and> ne_ValidFrom e = now \<and>
     ne_ValidUntil e - ne_ValidFrom e \<in> {30 * second..86400 * second}"

lemma sni_evidence_fresh:
  assumes "proper_addr (pk_DestinationIP p)" "pk_ObservedAt p \<noteq> 0" "dns_name name"
  shows "fresh_evidence (pk_ObservedAt p) (sni_evidence p name)"
  using assms parse_addr_string [OF assms(1)]
  by (auto simp: fresh_evidence_def sni_evidence_def valid_evidence_def dns_name_split)

lemma answer_evidence_fresh:
  assumes "answer_evidence lu now answer = Some e" "\<forall>ip. da_IP answer = Some ip \<longrightarrow> length ip \<in> {4, 16}" "now \<noteq> 0"
  shows "fresh_evidence now e"
  using assms net_ip_parses clamp_ttl_bounds [of "da_TTL answer"]
  by (auto simp: answer_evidence_def fresh_evidence_def valid_evidence_def Let_def split: if_splits option.splits)

lemma map_filter_member: "y \<in> set (List.map_filter f xs) \<Longrightarrow> \<exists>x \<in> set xs. f x = Some y"
  by (induction xs) (auto split: option.splits)

lemma dns_evidence_fresh:
  assumes "ParseDNSMessage lu dns payload now = Some evs" "dns_ok dns" "now \<noteq> 0" "e \<in> set evs"
  shows "fresh_evidence now e"
proof -
  let ?m = "if 2 \<le> length payload \<and> 256 * unat (payload ! 0) + unat (payload ! 1) = length payload - 2
     then drop 2 payload else payload"
  obtain msg where msg: "dns ?m = Some msg" and evs: "evs = [] \<or> evs = List.map_filter (answer_evidence lu now) (dm_Answers msg)"
    using assms(1) by (auto simp: ParseDNSMessage_def Let_def split: if_splits option.splits)
  with assms(4) obtain answer where "answer \<in> set (dm_Answers msg)" "answer_evidence lu now answer = Some e"
    using map_filter_member by fastforce
  then show ?thesis using answer_evidence_fresh assms(2,3) msg unfolding dns_ok_def by blast
qed

lemma Process_evidence_fresh:
  assumes "dns_ok dns" "pk_ObservedAt p \<noteq> 0" "proper_addr (pk_DestinationIP p)" "e \<in> set (snd (Process lu dns pr p))"
  shows "fresh_evidence (pk_ObservedAt p) e"
  using assms dns_evidence_fresh [OF _ assms(1,2)] sni_evidence_fresh [OF assms(3,2)] ExtractSNI_valid
  by (auto simp: Process_def process_segment_def Let_def split: if_splits option.splits sum.splits)

subsection \<open>Reassembly\<close>

fun run_packets :: "(string \<Rightarrow> string) \<Rightarrow> (bytes \<Rightarrow> dns_message option) \<Rightarrow> Processor \<Rightarrow> Packet list \<Rightarrow>
    Processor \<times> (Packet \<times> NameEvidence list) list" where
  "run_packets lu dns pr [] = (pr, [])"
| "run_packets lu dns pr (p # ps) =
     (case Process lu dns pr p of (pr', evs) \<Rightarrow>
        (case run_packets lu dns pr' ps of (pr'', out) \<Rightarrow> (pr'', (p, evs) # out)))"

definition is_segment :: "flowKey \<Rightarrow> Packet \<Rightarrow> bool" where
  "is_segment k p \<longleftrightarrow> pk_Protocol p = 6 \<and> pk_DestinationPort p = 443 \<and> pk_Payload p \<noteq> [] \<and> packet_key p = k"

definition segments :: "flowKey \<Rightarrow> Packet list \<Rightarrow> Packet list" where
  "segments k ps = filter (is_segment k) ps"

text \<open>The evidence reported for the segments of a flow.\<close>

definition flow_evidence :: "flowKey \<Rightarrow> (Packet \<times> NameEvidence list) list \<Rightarrow> NameEvidence list" where
  "flow_evidence k out = concat (map snd (filter (\<lambda>(p, _). is_segment k p) out))"

definition in_window :: "go_time \<Rightarrow> Packet \<Rightarrow> bool" where
  "in_window t p \<longleftrightarrow> t \<le> pk_ObservedAt p \<and> pk_ObservedAt p \<le> t + 5 * second"

text \<open>The processor holds the bytes \<open>sofar\<close> for the flow, none of them older than \<open>t\<close>.\<close>

definition holds_flow :: "go_time \<Rightarrow> flowKey \<Rightarrow> bytes \<Rightarrow> Processor \<Rightarrow> bool" where
  "holds_flow t k sofar pr \<longleftrightarrow>
     (case map_of (flows pr) k of
        None \<Rightarrow> sofar = []
      | Some flow \<Rightarrow> t \<le> pf_updatedAt flow \<and> pf_payload flow = sofar \<and> sofar \<noteq> [])"

lemma map_of_filter_snd:
  "distinct (map fst xs) \<Longrightarrow> map_of (filter (\<lambda>(k, v). Q v) xs) k =
     (case map_of xs k of Some v \<Rightarrow> if Q v then Some v else None | None \<Rightarrow> None)"
proof (induction xs)
  case (Cons x xs)
  obtain k' v where x: "x = (k', v)" by (cases x)
  have "k' \<notin> fst ` set xs" using Cons.prems by (simp add: x)
  then have "map_of xs k' = None" by (simp add: map_of_eq_None_iff)
  with Cons show ?case by (auto simp: x split: option.splits)
qed simp

lemma holds_flow_bytes: "holds_flow t k sofar pr \<Longrightarrow> flow_bytes pr k = sofar"
  by (auto simp: holds_flow_def flow_bytes_def split: option.splits)

lemma holds_flow_expire:
  assumes "flows_inv pr" "holds_flow t k sofar pr" "in_window t p"
  shows "holds_flow t k sofar (expire pr (pk_ObservedAt p))"
proof -
  have "map_of (flows (expire pr (pk_ObservedAt p))) k = (case map_of (flows pr) k of
      Some flow \<Rightarrow> if \<not> stale (pk_ObservedAt p) flow then Some flow else None | None \<Rightarrow> None)"
    using assms(1) map_of_filter_snd [of "flows pr" "\<lambda>flow. \<not> stale (pk_ObservedAt p) flow" k]
    by (simp add: expire_def flows_inv_def)
  then show ?thesis
    using assms(2,3) by (cases "map_of (flows pr) k") (auto simp: holds_flow_def stale_def in_window_def)
qed

lemma holds_flow_counters:
  "holds_flow t k sofar (malformed pr) = holds_flow t k sofar pr" "holds_flow t k sofar (drop_flow pr) = holds_flow t k sofar pr"
  by (simp_all add: holds_flow_def malformed_def drop_flow_def)

lemma holds_flow_other:
  assumes "packet_key p \<noteq> k"
  shows "holds_flow t k sofar (append_segment pr p) = holds_flow t k sofar pr"
    "holds_flow t k sofar (delete_flow (packet_key p) pr) = holds_flow t k sofar pr"
  using assms by (simp_all add: holds_flow_def append_segment_def delete_flow_def update_conv' delete_conv')

lemma holds_flow_segment_other:
  "holds_flow t k sofar pr \<Longrightarrow> packet_key p \<noteq> k \<Longrightarrow> holds_flow t k sofar (fst (process_segment lu pr p))"
  by (auto simp: process_segment_def Let_def holds_flow_counters holds_flow_other split: sum.split option.split)

lemma Process_other:
  assumes "flows_inv pr" "holds_flow t k sofar pr" "in_window t p" "\<not> is_segment k p"
  shows "holds_flow t k sofar (fst (Process lu dns pr p))"
  using assms(4) holds_flow_expire [OF assms(1-3)] holds_flow_segment_other
  by (auto simp: Process_def Let_def is_segment_def holds_flow_counters split: option.split)

lemma Process_growth:
  "length (flows (fst (Process lu dns pr p))) \<le> Suc (length (flows pr)) \<and> maxFlows (fst (Process lu dns pr p)) = maxFlows pr"
proof -
  have d: "length (AList.delete k xs) \<le> Suc (length xs)" for k :: flowKey and xs :: "(flowKey \<times> partialFlow) list"
    using length_delete_le [of k xs] by simp
  have u: "length (AList.update k v xs) \<le> Suc (length xs)" for k :: flowKey and v and xs :: "(flowKey \<times> partialFlow) list"
    by (simp add: length_update)
  have du: "length (AList.delete k (AList.update k v xs)) \<le> Suc (length xs)"
    for k :: flowKey and v and xs :: "(flowKey \<times> partialFlow) list"
    by (rule order_trans [OF length_delete_le u])
  have seg: "length (flows (fst (process_segment lu q p))) \<le> Suc (length (flows q)) \<and>
      maxFlows (fst (process_segment lu q p)) = maxFlows q" for q
    by (simp add: process_segment_def Let_def processor_simps append_segment_def d u du split: sum.split option.split)
  have e: "length (flows (expire pr now)) \<le> length (flows pr)" "maxFlows (expire pr now) = maxFlows pr" for now
    by (simp_all add: expire_def)
  show ?thesis
    using seg [of "expire pr (pk_ObservedAt p)"] e [of "pk_ObservedAt p"]
    by (auto simp: Process_def Let_def malformed_def le_SucI split: option.split intro: order_trans)
qed

lemma Process_segment_eq:
  "is_segment k p \<Longrightarrow> Process lu dns pr p = process_segment lu (expire pr (pk_ObservedAt p)) p"
  by (simp add: Process_def is_segment_def Let_def)

text \<open>The next segment of a stream, when there is room for its flow.\<close>

lemma process_next_segment:
  assumes "holds_flow t k sofar pr" "is_segment k p" "in_window t p" "length (flows pr) < maxFlows pr"
    "length (sofar @ pk_Payload p) \<le> maxClientHelloBytes"
  shows "process_segment lu pr p =
    (case ExtractSNI lu (sofar @ pk_Payload p) of
       Inl e \<Rightarrow> if waits e then (append_segment pr p, []) else (malformed (delete_flow k (append_segment pr p)), [])
     | Inr None \<Rightarrow> (delete_flow k (append_segment pr p), [])
     | Inr (Some name) \<Rightarrow> (delete_flow k (append_segment pr p), [sni_evidence p name]))"
proof -
  have k: "packet_key p = k" using assms(2) by (simp add: is_segment_def)
  have "flow_bytes (append_segment pr p) k = sofar @ pk_Payload p"
    using holds_flow_bytes [OF assms(1)] by (simp add: flow_bytes_def append_segment_def k update_conv')
  then show ?thesis
    using assms(4,5) holds_flow_bytes [OF assms(1)]
    by (simp add: process_segment_def k Let_def waits_message split: sum.split option.split)
qed

lemma holds_flow_append:
  assumes "holds_flow t k sofar pr" "is_segment k p" "in_window t p"
  shows "holds_flow t k (sofar @ pk_Payload p) (append_segment pr p)"
    "holds_flow t k [] (delete_flow k (append_segment pr p))"
  using assms holds_flow_bytes [OF assms(1)]
  by (simp_all add: holds_flow_def append_segment_def delete_flow_def is_segment_def in_window_def update_conv' delete_conv')

lemma flow_evidence_Cons:
  "flow_evidence k ((p, evs) # out) = (if is_segment k p then evs else []) @ flow_evidence k out"
  by (simp add: flow_evidence_def)

lemma run_packets_none:
  "segments k ps = [] \<Longrightarrow> flow_evidence k (snd (run_packets lu dns pr ps)) = []"
  by (induction lu dns pr ps rule: run_packets.induct)
    (auto simp: flow_evidence_def segments_def split: prod.splits if_splits)

lemma run_packets_segment:
  assumes "Process lu dns pr p = (pr', evs)"
  shows "flow_evidence k (snd (run_packets lu dns pr (p # ps))) =
    (if is_segment k p then evs else []) @ flow_evidence k (snd (run_packets lu dns pr' ps))"
  using assms by (simp add: flow_evidence_Cons split: prod.split)

lemma segment_step:
  assumes "flows_inv pr" "holds_flow t k sofar pr" "in_window t p" "is_segment k p" "length (flows pr) < maxFlows pr"
    "length (sofar @ pk_Payload p) \<le> maxClientHelloBytes" "Process lu dns pr p = (pr', evs)"
  shows "ExtractSNI lu (sofar @ pk_Payload p) = Inr (Some name) \<Longrightarrow> evs = [sni_evidence p name]"
    and "ExtractSNI lu (sofar @ pk_Payload p) = Inl e \<Longrightarrow> waits e \<Longrightarrow> evs = [] \<and> holds_flow t k (sofar @ pk_Payload p) pr'"
proof -
  let ?pr = "expire pr (pk_ObservedAt p)"
  have h: "holds_flow t k sofar ?pr" by (rule holds_flow_expire [OF assms(1-3)])
  have "length (flows ?pr) \<le> length (flows pr)" "maxFlows ?pr = maxFlows pr" by (simp_all add: expire_def)
  then have "length (flows ?pr) < maxFlows ?pr" using assms(5) by linarith
  note next_segment = process_next_segment [OF h assms(4,3) this assms(6), of lu]
  note step = assms(7) [unfolded Process_segment_eq [OF assms(4)] next_segment]
  show "ExtractSNI lu (sofar @ pk_Payload p) = Inr (Some name) \<Longrightarrow> evs = [sni_evidence p name]"
    using step by simp
  show "ExtractSNI lu (sofar @ pk_Payload p) = Inl e \<Longrightarrow> waits e \<Longrightarrow> evs = [] \<and> holds_flow t k (sofar @ pk_Payload p) pr'"
    using step holds_flow_append(1) [OF h assms(4,3)] by auto
qed

text \<open>Before the last segment the stream is a proper prefix.\<close>

lemma stream_prefix:
  assumes "sofar @ concat (map pk_Payload (segments k ps)) = stream" "segments k ps \<noteq> []"
  shows "strict_prefix sofar stream"
proof -
  obtain q qs where q: "segments k ps = q # qs" using assms(2) by (cases "segments k ps") auto
  then have "is_segment k q" by (auto simp: segments_def dest: filter_eq_ConsD)
  then show ?thesis using assms(1) q by (auto simp: is_segment_def strict_prefix_def prefix_def)
qed

lemma reassembly:
  assumes "proper_hello ch" "fragments_of (hello_message ch) frs" "dns_name (host_name lu (ch_host ch))"
    and "flows_inv pr" "holds_flow t k sofar pr" "list_all (in_window t) ps" "length (flows pr) + length ps < maxFlows pr"
    and "sofar @ concat (map pk_Payload (segments k ps)) = enc_records frs" "segments k ps \<noteq> []"
  shows "flow_evidence k (snd (run_packets lu dns pr ps)) = [sni_evidence (last (segments k ps)) (host_name lu (ch_host ch))]"
  using assms(4-)
proof (induction ps arbitrary: pr sofar)
  case (Cons p ps)
  obtain pr' evs where step: "Process lu dns pr p = (pr', evs)" by fastforce
  have win: "in_window t p" and win': "list_all (in_window t) ps" using Cons.prems(3) by simp_all
  have inv: "flows_inv pr'" using flows_inv_Process [OF Cons.prems(1), of lu dns p] step by simp
  have room: "length (flows pr') + length ps < maxFlows pr'"
    using Process_growth [of lu dns pr p] step Cons.prems(4) by simp
  note run = run_packets_segment [OF step, of k ps]
  show ?case
  proof (cases "is_segment k p")
    case False
    then have seg: "segments k (p # ps) = segments k ps" by (simp add: segments_def)
    have "holds_flow t k sofar pr'" using Process_other [OF Cons.prems(1,2) win False, of lu dns] step by simp
    from Cons.IH [OF inv this win' room] Cons.prems(5,6) show ?thesis
      unfolding run seg using False by simp
  next
    case True
    let ?now = "sofar @ pk_Payload p"
    have seg: "segments k (p # ps) = p # segments k ps" using True by (simp add: segments_def)
    have split: "?now @ concat (map pk_Payload (segments k ps)) = enc_records frs"
      using Cons.prems(5) by (simp add: seg)
    have "length (flows pr) < maxFlows pr" using Cons.prems(4) by simp
    moreover have "length ?now \<le> maxClientHelloBytes"
      using arg_cong [OF split, of length] assms(2) by (simp add: fragments_of_def)
    ultimately have s: "ExtractSNI lu ?now = Inr (Some name) \<Longrightarrow> evs = [sni_evidence p name]"
      "ExtractSNI lu ?now = Inl e \<Longrightarrow> waits e \<Longrightarrow> evs = [] \<and> holds_flow t k ?now pr'" for name e
      using segment_step [OF Cons.prems(1,2) win True _ _ step] by blast+
    show ?thesis
    proof (cases "segments k ps = []")
      case last: True
      then have "evs = [sni_evidence p (host_name lu (ch_host ch))]"
        using split ExtractSNI_hello [OF assms(1-3)] s(1) by simp
      then show ?thesis unfolding run using True run_packets_none [OF last] by (simp add: seg last)
    next
      case False
      from ExtractSNI_prefix [OF assms(2) stream_prefix [OF split False], of lu]
      have "evs = []" "holds_flow t k ?now pr'" using s(2) by blast+
      then show ?thesis
        unfolding run using Cons.IH [OF inv _ win' room split False] True by (simp add: seg False)
    qed
  qed
qed (simp add: segments_def)

subsection \<open>Properties\<close>

definition demo_packet :: "go_time \<Rightarrow> bytes \<Rightarrow> Packet" where
  "demo_packet t payload = \<lparr>pk_ObservedAt = t, pk_SourceIP = Addr4 [10, 0, 0, 1], pk_DestinationIP = Addr4 [93, 184, 216, 34],
     pk_SourcePort = 40000, pk_DestinationPort = 443, pk_Protocol = 6, pk_Payload = payload\<rparr>"

definition demo_segments :: "Packet list" where
  "demo_segments = [demo_packet 100 (take 30 (enc_records demo_fragments)), demo_packet 200 (drop 30 (enc_records demo_fragments))]"

lemma demo_stream_length: "length (enc_records demo_fragments) = 83"
proof -
  have "length (hello_message demo_hello) = 73"
    by (simp add: hello_message_def hello_body_def hello_exts_def enc_ext_def sni_ext_def demo_hello_def)
  then show ?thesis by (simp add: demo_fragments_def enc_records_def enc_record_def)
qed

lemma demo_segments_all: "segments (packet_key (demo_packet 0 [])) demo_segments = demo_segments"
proof -
  have "take 30 (enc_records demo_fragments) \<noteq> []" "drop 30 (enc_records demo_fragments) \<noteq> []"
    using demo_stream_length by auto
  then show ?thesis by (simp add: segments_def is_segment_def demo_segments_def demo_packet_def packet_key_def)
qed

lemma flows_inv_New: "flows_inv (NewProcessor n)"
  by (simp add: flows_inv_def NewProcessor_def)

text \<open>Memory of the name capture is bounded whatever is on the wire: after any packets there are at most the
  configured number of partial flows, one per key, each with between 1 byte and 64 KiB.\<close>

theorem processor_bounded: "flows_inv (fst (run_packets lu dns (NewProcessor n) ps))"
proof -
  have "flows_inv pr \<Longrightarrow> flows_inv (fst (run_packets lu dns pr ps))" for pr
  proof (induction ps arbitrary: pr)
    case (Cons p ps)
    have "flows_inv (fst (run_packets lu dns (fst (Process lu dns pr p)) ps))"
      by (rule Cons.IH [OF flows_inv_Process [OF Cons.prems]])
    then show ?case by (simp add: case_prod_beta)
  qed simp
  then show ?thesis using flows_inv_New by blast
qed



text \<open>All evidence is usable: if the DNS decoder only returns addresses of 4 or 16 bytes, every piece of
  evidence from a packet with a real destination address makes a valid event, starts at the time of
  the packet and lasts between thirty seconds and one day.\<close>

theorem evidence_valid:
  assumes "dns_ok dns" "pk_ObservedAt p \<noteq> 0" "proper_addr (pk_DestinationIP p)" "\<forall>e. length (digest e) = 24"
    and "Process lu dns pr p = (pr', evs)"
  shows "\<forall>e \<in> set evs. event_validate (EvidenceEvent digest e) = None \<and> ne_ValidFrom e = pk_ObservedAt p \<and>
    30 * second \<le> ne_ValidUntil e - ne_ValidFrom e \<and> ne_ValidUntil e - ne_ValidFrom e \<le> 86400 * second"
proof
  fix e
  assume "e \<in> set evs"
  then have "fresh_evidence (pk_ObservedAt p) e" using Process_evidence_fresh [OF assms(1-3), of e lu pr] assms(5) by simp
  then show "event_validate (EvidenceEvent digest e) = None \<and> ne_ValidFrom e = pk_ObservedAt p \<and>
      30 * second \<le> ne_ValidUntil e - ne_ValidFrom e \<and> ne_ValidUntil e - ne_ValidFrom e \<le> 86400 * second"
    using assms(4) EvidenceEvent_valid [of e digest] by (simp add: event_validate_iff fresh_evidence_def)
qed

definition demo_dns :: "bytes \<Rightarrow> dns_message option" where
  "demo_dns ip = Some \<lparr>dm_QR = True, dm_ResponseCode = 0,
     dm_Answers = [\<lparr>da_Class = 1, da_Type = 1, da_IP = Some ip, da_Name = ''Example.com.'', da_TTL = 5\<rparr>]\<rparr>"

lemma demo_dns_evidence:
  "ParseDNSMessage (\<lambda>s. s) (\<lambda>_. demo_dns ip) [] t = Some [\<lparr>ne_IP = net_ip_string ip, ne_Name = ''example.com'',
     ne_Source = ''dns'', ne_ValidFrom = t, ne_ValidUntil = t + 30 * second\<rparr>]"
  by (simp add: ParseDNSMessage_def demo_dns_def answer_evidence_def toLower_def trimDot_def ascii_lower_def clamp_ttl_def
      char_of_eq_iff Let_def)

theorem evidence_valid_witness:
  "event_validate (EvidenceEvent (\<lambda>_. replicate 24 CHR ''0'') \<lparr>ne_IP = net_ip_string [1, 2, 3, 4], ne_Name = ''example.com'',
     ne_Source = ''dns'', ne_ValidFrom = 7, ne_ValidUntil = 7 + 30 * second\<rparr>) = None"
proof -
  let ?p = "(demo_packet 7 [])\<lparr>pk_Protocol := 17, pk_SourcePort := 53\<rparr>"
  let ?dns = "\<lambda>(_ :: bytes). demo_dns [1, 2, 3, 4]"
  let ?e = "\<lparr>ne_IP = net_ip_string [1, 2, 3, 4], ne_Name = ''example.com'', ne_Source = ''dns'', ne_ValidFrom = 7,
     ne_ValidUntil = 7 + 30 * second\<rparr>"
  have "Process (\<lambda>s. s) ?dns (NewProcessor 0) ?p = (expire (NewProcessor 0) 7, [?e])"
    using demo_dns_evidence [of "[1, 2, 3, 4]" 7] by (simp add: Process_def demo_packet_def Let_def)
  moreover have "dns_ok ?dns" by (simp add: dns_ok_def demo_dns_def)
  ultimately have "\<forall>e \<in> set [?e]. event_validate (EvidenceEvent (\<lambda>_. replicate 24 CHR ''0'') e) = None"
    using evidence_valid [of ?dns ?p "\<lambda>_. replicate 24 CHR ''0''"] by (auto simp: demo_packet_def)
  then show ?thesis by simp
qed

text \<open>The address of a DNS answer is not checked: if the decoder hands over an address record whose data is not
  4 or 16 bytes long, the processor reports evidence that the validation of events rejects.\<close>

theorem dns_odd_address_invalid:
  "ParseDNSMessage (\<lambda>s. s) (\<lambda>_. demo_dns [1, 2, 3]) [] 7 = Some [\<lparr>ne_IP = ''?010203'', ne_Name = ''example.com'',
     ne_Source = ''dns'', ne_ValidFrom = 7, ne_ValidUntil = 30000000007\<rparr>] \<and>
   evidence_validate \<lparr>ne_IP = ''?010203'', ne_Name = ''example.com'', ne_Source = ''dns'', ne_ValidFrom = 7,
     ne_ValidUntil = 30000000007\<rparr> = Some EvidenceIPInvalid"
proof
  have "net_ip_string [1, 2, 3] = ''?010203''" by (simp add: net_ip_string_def hex_digit_def char_of_eq_iff)
  then show "ParseDNSMessage (\<lambda>s. s) (\<lambda>_. demo_dns [1, 2, 3]) [] 7 = Some [\<lparr>ne_IP = ''?010203'', ne_Name = ''example.com'',
     ne_Source = ''dns'', ne_ValidFrom = 7, ne_ValidUntil = 30000000007\<rparr>]"
    using demo_dns_evidence [of "[1, 2, 3]" 7] by simp
  show "evidence_validate \<lparr>ne_IP = ''?010203'', ne_Name = ''example.com'', ne_Source = ''dns'', ne_ValidFrom = 7,
     ne_ValidUntil = 30000000007\<rparr> = Some EvidenceIPInvalid"
    by (simp add: evidence_validate_def parses_def ParseAddr_def)
qed

end
