(* ===== verification/Capture_Filter.thy ===== *)
theory Capture_Filter
  imports Name_Capture "HOL-Library.Multiset"
begin

text \<open>
  The packet source of name capture, \<^verbatim>\<open>internal/agent/namecapture/collector_linux.go\<close>: the classic BPF
  filter attached to the capture sockets, the translation of a decoded frame into a \<^verbatim>\<open>Packet\<close>, the opening
  and closing of the sockets and the select loop that feeds the processor. The filter runs on a model of
  the instructions it uses: a 32-bit accumulator and index register, big-endian loads that reject the packet
  when they leave it, forward jumps. The wire decoder of gopacket and the capture sockets are parameters.
  \<open>capture_filter_exact\<close> compares the filter with the fields it is about.
\<close>

subsection \<open>The filter machine\<close>

datatype instruction =
    LoadAbsolute nat nat
  | LoadIndirect nat nat
  | LoadMemShift nat
  | JumpIf u32 nat nat
  | RetConstant u32

record bpf_machine =
  reg_A :: u32
  reg_X :: u32
  pc :: nat

definition bpf_init :: bpf_machine where
  "bpf_init = \<lparr>reg_A = 0, reg_X = 0, pc = 0\<rparr>"

text \<open>Loads read \<open>sz\<close> bytes in network order, or nothing if one of them is outside the packet.\<close>

definition load_bytes :: "bytes \<Rightarrow> nat \<Rightarrow> nat \<Rightarrow> u32 option" where
  "load_bytes pkt off sz =
     (if off + sz \<le> length pkt then Some (fold (\<lambda>b v. 256 * v + ucast b) (go_slice off (off + sz) pkt) 0) else None)"

text \<open>One instruction: the next state, or the verdict that ends the run. \<open>LoadMemShift\<close> is the load of an
  IPv4 header length, four times the low half of a byte.\<close>

fun bpf_step :: "instruction \<Rightarrow> bytes \<Rightarrow> bpf_machine \<Rightarrow> u32 + bpf_machine" where
  "bpf_step (LoadAbsolute off sz) pkt m =
     (case load_bytes pkt off sz of None \<Rightarrow> Inl 0 | Some v \<Rightarrow> Inr (m\<lparr>reg_A := v, pc := pc m + 1\<rparr>))"
| "bpf_step (LoadIndirect off sz) pkt m =
     (case load_bytes pkt (unat (reg_X m) + off) sz of None \<Rightarrow> Inl 0 | Some v \<Rightarrow> Inr (m\<lparr>reg_A := v, pc := pc m + 1\<rparr>))"
| "bpf_step (LoadMemShift off) pkt m =
     (case load_bytes pkt off 1 of None \<Rightarrow> Inl 0 | Some v \<Rightarrow> Inr (m\<lparr>reg_X := 4 * (v mod 16), pc := pc m + 1\<rparr>))"
| "bpf_step (JumpIf val skipTrue skipFalse) pkt m =
     Inr (m\<lparr>pc := pc m + 1 + (if reg_A m = val then skipTrue else skipFalse)\<rparr>)"
| "bpf_step (RetConstant v) pkt m = Inl v"

text \<open>A run with a bound on the number of instructions; \<^const>\<open>None\<close> when the bound is used up or the
  program counter leaves the program.\<close>

fun bpf_run :: "nat \<Rightarrow> instruction list \<Rightarrow> bytes \<Rightarrow> bpf_machine \<Rightarrow> u32 option" where
  "bpf_run 0 prog pkt m = None"
| "bpf_run (Suc n) prog pkt m =
     (if pc m < length prog
      then (case bpf_step (prog ! pc m) pkt m of Inl v \<Rightarrow> Some v | Inr m' \<Rightarrow> bpf_run n prog pkt m')
      else None)"

subsection \<open>The program\<close>

definition captureFilter :: "instruction list" where
  "captureFilter =
     [LoadAbsolute 12 2,
      JumpIf 0x0800 1 0,
      JumpIf 0x86dd 10 20,
      LoadAbsolute 23 1,
      JumpIf 6 1 0,
      JumpIf 17 0 17,
      LoadMemShift 14,
      LoadIndirect 14 2,
      JumpIf 53 13 0,
      JumpIf 443 12 0,
      LoadIndirect 16 2,
      JumpIf 53 10 0,
      JumpIf 443 9 10,
      LoadAbsolute 20 1,
      JumpIf 6 1 0,
      JumpIf 17 0 7,
      LoadAbsolute 54 2,
      JumpIf 53 4 0,
      JumpIf 443 3 0,
      LoadAbsolute 56 2,
      JumpIf 53 1 0,
      JumpIf 443 0 1,
      RetConstant 65535,
      RetConstant 0]"

definition filter_verdict :: "bytes \<Rightarrow> u32 option" where
  "filter_verdict frame = bpf_run (length captureFilter) captureFilter frame bpf_init"

subsection \<open>Frames to packets\<close>

text \<open>What \<^verbatim>\<open>gopacket.NewPacket\<close> reports of a frame: the address bytes of its IP layers, the ports and
  payloads of its transport layers.\<close>

record frame_layers =
  layer_IPv4 :: "(bytes \<times> bytes) option"
  layer_IPv6 :: "(bytes \<times> bytes) option"
  layer_TCP :: "(u16 \<times> u16 \<times> bytes) option"
  layer_UDP :: "(u16 \<times> u16 \<times> bytes) option"

definition AddrFromSlice :: "bytes \<Rightarrow> addr" where
  "AddrFromSlice bs = (if length bs = 4 then Addr4 bs else if length bs = 16 then Addr16 bs else NoAddr)"

definition decodeFrame :: "(bytes \<Rightarrow> frame_layers) \<Rightarrow> bytes \<Rightarrow> go_time \<Rightarrow> Packet option" where
  "decodeFrame layers data observedAt =
     (let decoded = layers data;
          with_addresses = (\<lambda>(src, dst) proto sport dport payload.
            \<lparr>pk_ObservedAt = observedAt, pk_SourceIP = AddrFromSlice src, pk_DestinationIP = AddrFromSlice dst,
             pk_SourcePort = sport, pk_DestinationPort = dport, pk_Protocol = proto, pk_Payload = payload\<rparr>) in
      case (case layer_IPv4 decoded of Some ip \<Rightarrow> Some ip | None \<Rightarrow> layer_IPv6 decoded) of
        None \<Rightarrow> None
      | Some ip \<Rightarrow>
          (case layer_TCP decoded of
             Some (sport, dport, payload) \<Rightarrow> Some (with_addresses ip 6 sport dport payload)
           | None \<Rightarrow>
               (case layer_UDP decoded of
                  Some (sport, dport, payload) \<Rightarrow> Some (with_addresses ip 17 sport dport payload)
                | None \<Rightarrow> None)))"

subsection \<open>Opening and closing the sockets\<close>

text \<open>The environment says which step fails: assembling the filter, opening the socket of an interface,
  attaching the filter to it. A handle is known by the position of its interface; the collector
  records which were opened and closed.\<close>

record capture_env =
  assemble_error :: "instruction list \<Rightarrow> string option"
  open_error :: "string \<Rightarrow> string option"
  attach_error :: "string \<Rightarrow> string option"

datatype capture_error =
    FilterInvalid string
  | OpenFailed string string
  | AttachFailed string string
  | NoInterfaces

record capture_collector =
  handles :: "nat list"
  opened_handles :: "nat list"
  closed_handles :: "nat list"
  closeOnce :: bool

definition no_handles :: capture_collector where
  "no_handles = \<lparr>handles = [], opened_handles = [], closed_handles = [], closeOnce = False\<rparr>"

text \<open>\<^verbatim>\<open>Close\<close> closes the handles once; before it does, it cancels a running loop and waits for its end,
  which has no effect on the handles.\<close>

definition Close_capture :: "capture_collector \<Rightarrow> capture_collector" where
  "Close_capture c = (if closeOnce c then c else c\<lparr>closed_handles := closed_handles c @ handles c, closeOnce := True\<rparr>)"

fun open_all :: "capture_env \<Rightarrow> nat \<Rightarrow> string list \<Rightarrow> capture_collector \<Rightarrow> capture_collector \<times> capture_error option" where
  "open_all env i [] c = (c, None)"
| "open_all env i (name # names) c =
     (case open_error env name of
        Some e \<Rightarrow> (Close_capture c, Some (OpenFailed name e))
      | None \<Rightarrow>
          (let c' = c\<lparr>opened_handles := opened_handles c @ [i]\<rparr> in
           case attach_error env name of
             Some e \<Rightarrow> (Close_capture (c'\<lparr>closed_handles := closed_handles c' @ [i]\<rparr>), Some (AttachFailed name e))
           | None \<Rightarrow> open_all env (Suc i) names (c'\<lparr>handles := handles c' @ [i]\<rparr>)))"

definition NewCollector_capture :: "capture_env \<Rightarrow> string list \<Rightarrow> capture_collector \<times> capture_error option" where
  "NewCollector_capture env names =
     (case assemble_error env captureFilter of
        Some e \<Rightarrow> (no_handles, Some (FilterInvalid e))
      | None \<Rightarrow>
          (case open_all env 0 names no_handles of
             (c, Some e) \<Rightarrow> (c, Some e)
           | (c, None) \<Rightarrow> (if handles c = [] then (c, Some NoInterfaces) else (c, None))))"

subsection \<open>Readers and the select loop\<close>

text \<open>A reader goroutine, over the results of its reads; the flag says whether the context is done at that
  point. Its packets go to the channel in the order read.\<close>

datatype frame_read = FrameRead bytes go_time bool | ReadTimeout bool | ReadFailed string bool

fun reader_loop :: "(bytes \<Rightarrow> frame_layers) \<Rightarrow> frame_read list \<Rightarrow> Packet list \<times> string option" where
  "reader_loop layers [] = ([], None)"
| "reader_loop layers (ReadTimeout cancelled # rs) = (if cancelled then ([], None) else reader_loop layers rs)"
| "reader_loop layers (ReadFailed e cancelled # rs) = ([], if cancelled then None else Some e)"
| "reader_loop layers (FrameRead data t cancelled # rs) =
     (case decodeFrame layers data t of
        None \<Rightarrow> reader_loop layers rs
      | Some p \<Rightarrow>
          (if cancelled then ([], None)
           else (case reader_loop layers rs of (ps, e) \<Rightarrow> (p # ps, e))))"

text \<open>The loop of \<^verbatim>\<open>Run\<close>, over what its select receives. A packet comes with the number of results the
  consumer takes before the context is done, if it is done while they are sent.\<close>

datatype capture_select = PacketReady Packet "nat option" | ReaderError string | ContextDone

datatype capture_status = Capturing | CaptureStopped | CaptureFailed string

fun Run_capture :: "(string \<Rightarrow> string) \<Rightarrow> (bytes \<Rightarrow> dns_message option) \<Rightarrow> Processor \<Rightarrow> capture_select list \<Rightarrow>
    Processor \<times> NameEvidence list \<times> capture_status" where
  "Run_capture lu dns pr [] = (pr, [], Capturing)"
| "Run_capture lu dns pr (ContextDone # ss) = (pr, [], CaptureStopped)"
| "Run_capture lu dns pr (ReaderError e # ss) = (pr, [], CaptureFailed e)"
| "Run_capture lu dns pr (PacketReady p stop # ss) =
     (case Process lu dns pr p of (pr', evidence) \<Rightarrow>
       (case stop of
          Some k \<Rightarrow> (if k < length evidence then (pr', take k evidence, CaptureStopped)
                     else (case Run_capture lu dns pr' ss of (pr'', out, st) \<Rightarrow> (pr'', evidence @ out, st)))
        | None \<Rightarrow> (case Run_capture lu dns pr' ss of (pr'', out, st) \<Rightarrow> (pr'', evidence @ out, st))))"

lemma bpf_run_mono: "bpf_run n prog pkt m = Some v \<Longrightarrow> n \<le> n' \<Longrightarrow> bpf_run n' prog pkt m = Some v"
proof (induction n prog pkt m arbitrary: n' rule: bpf_run.induct)
  case (2 n prog pkt m)
  then obtain k where "n' = Suc k" "n \<le> k" by (cases n') auto
  with 2 show ?case by (auto split: if_splits sum.splits)
qed simp

subsection \<open>What the filter accepts\<close>

text \<open>The fields of a frame the filter looks at: the EtherType, the protocol and the two ports behind an
  IPv4 header of the length it states, or behind the fixed IPv6 header.\<close>

definition be16_at :: "bytes \<Rightarrow> nat \<Rightarrow> nat" where
  "be16_at f i = 256 * unat (f ! i) + unat (f ! Suc i)"

definition ports_wanted :: "bytes \<Rightarrow> nat \<Rightarrow> bool" where
  "ports_wanted f l4 \<longleftrightarrow> l4 + 2 \<le> length f \<and>
     (be16_at f l4 \<in> {53, 443} \<or> l4 + 4 \<le> length f \<and> be16_at f (l4 + 2) \<in> {53, 443})"

definition wanted_frame :: "bytes \<Rightarrow> bool" where
  "wanted_frame f \<longleftrightarrow> 14 \<le> length f \<and>
     (be16_at f 12 = 0x0800 \<and> 24 \<le> length f \<and> unat (f ! 23) \<in> {6, 17} \<and> ports_wanted f (14 + 4 * (unat (f ! 14) mod 16)) \<or>
      be16_at f 12 = 0x86dd \<and> 21 \<le> length f \<and> unat (f ! 20) \<in> {6, 17} \<and> ports_wanted f 54)"

lemma be16_at_less: "be16_at f i < 65536"
  using unsigned_less [of "f ! i", where ?'a = nat] unsigned_less [of "f ! Suc i", where ?'a = nat] by (simp add: be16_at_def)

lemma word_of_nat_small: "n < 2 ^ 32 \<Longrightarrow> (word_of_nat n :: u32) = w \<longleftrightarrow> n = unat w"
  by (simp add: word_unat_eq_iff unsigned_of_nat take_bit_nat_eq_self)

lemma be16_word: "(word_of_nat (be16_at f i) :: u32) = w \<longleftrightarrow> be16_at f i = unat w"
  using be16_at_less [of f i] by (intro word_of_nat_small) simp

lemma byte_word: "(ucast (b :: byte) :: u32) = w \<longleftrightarrow> unat b = unat w"
  using unsigned_less [of b, where ?'a = nat] by (simp add: word_unat_eq_iff unsigned_ucast_eq take_bit_nat_eq_self)

lemma go_slice_two: "Suc i < length f \<Longrightarrow> go_slice i (Suc (Suc i)) f = [f ! i, f ! Suc i]"
  by (simp add: go_slice_def Cons_nth_drop_Suc [symmetric] take_Suc_Cons)

lemma load_two: "load_bytes f i 2 = (if i + 2 \<le> length f then Some (word_of_nat (be16_at f i)) else None)"
  by (simp add: load_bytes_def go_slice_two be16_at_def)

lemma load_one: "load_bytes f i 1 = (if i < length f then Some (ucast (f ! i)) else None)"
  by (auto simp: load_bytes_def go_slice_def Cons_nth_drop_Suc [symmetric])

lemma bpf_run_numeral:
  "bpf_run (numeral k) prog pkt m =
     (if pc m < length prog
      then (case bpf_step (prog ! pc m) pkt m of Inl v \<Rightarrow> Some v | Inr m' \<Rightarrow> bpf_run (pred_numeral k) prog pkt m')
      else None)"
  by (simp add: numeral_eq_Suc)

lemma filter_length: "length captureFilter = 24"
  by (simp add: captureFilter_def)

lemma filter_at:
  "captureFilter ! 0 = LoadAbsolute 12 2" "captureFilter ! Suc 0 = JumpIf 0x0800 1 0" "captureFilter ! 2 = JumpIf 0x86dd 10 20"
  "captureFilter ! 3 = LoadAbsolute 23 1" "captureFilter ! 4 = JumpIf 6 1 0" "captureFilter ! 5 = JumpIf 17 0 17"
  "captureFilter ! 6 = LoadMemShift 14" "captureFilter ! 7 = LoadIndirect 14 2" "captureFilter ! 8 = JumpIf 53 13 0"
  "captureFilter ! 9 = JumpIf 443 12 0" "captureFilter ! 10 = LoadIndirect 16 2" "captureFilter ! 11 = JumpIf 53 10 0"
  "captureFilter ! 12 = JumpIf 443 9 10" "captureFilter ! 13 = LoadAbsolute 20 1" "captureFilter ! 14 = JumpIf 6 1 0"
  "captureFilter ! 15 = JumpIf 17 0 7" "captureFilter ! 16 = LoadAbsolute 54 2" "captureFilter ! 17 = JumpIf 53 4 0"
  "captureFilter ! 18 = JumpIf 443 3 0" "captureFilter ! 19 = LoadAbsolute 56 2" "captureFilter ! 20 = JumpIf 53 1 0"
  "captureFilter ! 21 = JumpIf 443 0 1" "captureFilter ! 22 = RetConstant 65535" "captureFilter ! 23 = RetConstant 0"
  by (simp_all add: captureFilter_def)

lemmas filter_loads = filter_at filter_length load_two load_one [simplified] be16_word byte_word

text \<open>The run from the two port loads on, behind an IPv4 header of \<open>reg_X\<close> bytes and behind an IPv6 header.\<close>

lemma ports4_run:
  "pc m = 7 \<Longrightarrow> bpf_run 7 captureFilter f m = Some (if ports_wanted f (14 + unat (reg_X m)) then 65535 else 0)"
  by (simp add: filter_loads bpf_run_numeral ports_wanted_def add.commute [of "unat (reg_X m)"])

lemma ports6_run: "pc m = 16 \<Longrightarrow> bpf_run 7 captureFilter f m = Some (if ports_wanted f 54 then 65535 else 0)"
  by (simp add: filter_loads bpf_run_numeral ports_wanted_def)

lemmas ports_run = bpf_run_mono [OF ports4_run] bpf_run_mono [OF ports6_run]

text \<open>Up to there, the headers select the kind of packet.\<close>

lemma header_run:
  "pc m \<noteq> 7 \<Longrightarrow> pc m \<noteq> 16 \<Longrightarrow> bpf_run (numeral k) captureFilter pkt m =
     (if pc m < 24
      then (case bpf_step (captureFilter ! pc m) pkt m of Inl v \<Rightarrow> Some v | Inr m' \<Rightarrow> bpf_run (pred_numeral k) captureFilter pkt m')
      else None)"
  by (simp add: bpf_run_numeral filter_length)

lemma header_words: "unat (4 * (ucast (b :: byte) mod 16) :: u32) = 4 * (unat b mod 16)"
proof -
  have "unat (ucast b mod 16 :: u32) = unat b mod 16"
    using unsigned_less [of b, where ?'a = nat]
    by (simp add: unat_mod unsigned_ucast_eq take_bit_nat_eq_self)
  moreover have "unat b mod 16 < 16" by simp
  ultimately show ?thesis by (subst unat_mult_lem [THEN iffD1]) auto
qed

lemma filter_run:
  "bpf_run 24 captureFilter f bpf_init = Some (if wanted_frame f then 65535 else 0)"
  by (simp add: header_run ports_run filter_loads header_words bpf_init_def wanted_frame_def flip: numeral_2_eq_2)

text \<open>A frame that carries a packet: an Ethernet header without tags, an IPv4 header of the length it states
  or an IPv6 header without extension headers, and behind it the two ports.\<close>

definition carries :: "bytes \<Rightarrow> Packet \<Rightarrow> bool" where
  "carries frame p \<longleftrightarrow>
     (\<exists>mac etype ip rest.
        frame = mac @ etype @ ip @ enc16 (unat (pk_SourcePort p)) @ enc16 (unat (pk_DestinationPort p)) @ rest \<and>
        length mac = 12 \<and>
        (etype = [0x08, 0x00] \<and> length ip = 4 * (unat (ip ! 0) mod 16) \<and> 20 \<le> length ip \<and> ip ! 9 = pk_Protocol p \<or>
         etype = [0x86, 0xdd] \<and> length ip = 40 \<and> ip ! 6 = pk_Protocol p))"

lemma be16_enc16: "n < 65536 \<Longrightarrow> be16_at (xs @ enc16 n @ ys) (length xs) = n"
  by (simp add: be16_at_def enc16_def nth_append unsigned_of_nat take_bit_nat_def take_bit_eq_mod)

lemma carried_ports:
  assumes "frame = xs @ enc16 (unat (sport :: u16)) @ enc16 (unat (dport :: u16)) @ rest"
  shows "ports_wanted frame (length xs) \<longleftrightarrow> sport \<in> {53, 443} \<or> dport \<in> {53, 443}"
proof -
  have "unat sport < 65536" "unat dport < 65536"
    using unsigned_less [of sport, where ?'a = nat] unsigned_less [of dport, where ?'a = nat] by simp_all
  then have "be16_at frame (length xs) = unat sport" "be16_at frame (length xs + 2) = unat dport"
    using be16_enc16 [of "unat sport" xs] be16_enc16 [of "unat dport" "xs @ enc16 (unat sport)" rest]
    by (simp_all add: assms enc16_def)
  moreover have "length xs + 4 \<le> length frame"
    by (simp add: assms enc16_def)
  ultimately show ?thesis
    by (simp add: ports_wanted_def word_unat_eq_iff)
qed

lemma carries_wanted:
  assumes "carries frame p"
  shows "wanted_frame frame \<longleftrightarrow> pk_Protocol p \<in> {6, 17} \<and>
    (pk_SourcePort p \<in> {53, 443} \<or> pk_DestinationPort p \<in> {53, 443})"
proof -
  obtain mac etype ip rest where
    f: "frame = mac @ etype @ ip @ enc16 (unat (pk_SourcePort p)) @ enc16 (unat (pk_DestinationPort p)) @ rest" and
    mac: "length mac = 12" and
    ip: "etype = [0x08, 0x00] \<and> length ip = 4 * (unat (ip ! 0) mod 16) \<and> 20 \<le> length ip \<and> ip ! 9 = pk_Protocol p \<or>
         etype = [0x86, 0xdd] \<and> length ip = 40 \<and> ip ! 6 = pk_Protocol p"
    using assms unfolding carries_def by blast
  have length_etype: "length etype = 2" using ip by auto
  have ports: "ports_wanted frame (14 + length ip) \<longleftrightarrow> pk_SourcePort p \<in> {53, 443} \<or> pk_DestinationPort p \<in> {53, 443}"
    using carried_ports [of frame "mac @ etype @ ip" "pk_SourcePort p" "pk_DestinationPort p" rest] f mac
    by (auto simp: length_etype)
  from ip show ?thesis
  proof
    assume v4: "etype = [0x08, 0x00] \<and> length ip = 4 * (unat (ip ! 0) mod 16) \<and> 20 \<le> length ip \<and> ip ! 9 = pk_Protocol p"
    then have "be16_at frame 12 = 0x0800" "frame ! 14 = ip ! 0" "frame ! 23 = pk_Protocol p" "24 \<le> length frame"
      using mac by (auto simp: f be16_at_def nth_append)
    with ports v4 show ?thesis
      by (simp add: wanted_frame_def word_unat_eq_iff)
  next
    assume v6: "etype = [0x86, 0xdd] \<and> length ip = 40 \<and> ip ! 6 = pk_Protocol p"
    then have "be16_at frame 12 = 0x86dd" "frame ! 20 = pk_Protocol p" "21 \<le> length frame"
      using mac by (auto simp: f be16_at_def nth_append)
    with ports v6 show ?thesis
      by (simp add: wanted_frame_def word_unat_eq_iff)
  qed
qed

lemma filter_verdict_eq: "filter_verdict f = Some (if wanted_frame f then 65535 else 0)"
  by (simp add: filter_verdict_def filter_length filter_run)

lemma Process_unwanted:
  "\<not> (pk_Protocol p \<in> {6, 17} \<and> (pk_SourcePort p \<in> {53, 443} \<or> pk_DestinationPort p \<in> {53, 443})) \<Longrightarrow>
   Process lu dns pr p = (expire pr (pk_ObservedAt p), [])"
  by (auto simp: Process_def Let_def)

subsection \<open>No handle leaks, and what the loop reports\<close>

definition handles_inv :: "capture_collector \<Rightarrow> bool" where
  "handles_inv c \<longleftrightarrow> opened_handles c = handles c \<and> closed_handles c = [] \<and> \<not> closeOnce c"

lemma open_all_tracks:
  "handles_inv c \<Longrightarrow> open_all env i names c = (c', r) \<Longrightarrow>
   (case r of None \<Rightarrow> handles_inv c' | Some e \<Rightarrow> mset (closed_handles c') = mset (opened_handles c'))"
  by (induction env i names c rule: open_all.induct)
    (auto simp: handles_inv_def Close_capture_def Let_def split: option.splits)

lemma new_capture_releases:
  "NewCollector_capture env names = (c, Some e) \<Longrightarrow> mset (closed_handles c) = mset (opened_handles c)"
  using open_all_tracks [of no_handles env 0 names]
  by (auto simp: NewCollector_capture_def handles_inv_def no_handles_def split: option.splits prod.splits if_splits)

lemma close_capture_releases:
  "NewCollector_capture env names = (c, None) \<Longrightarrow> closed_handles (Close_capture c) = opened_handles c"
  using open_all_tracks [of no_handles env 0 names]
  by (auto simp: NewCollector_capture_def handles_inv_def no_handles_def Close_capture_def
    split: option.splits prod.splits if_splits)

lemma close_capture_idem: "Close_capture (Close_capture c) = Close_capture c"
  by (simp add: Close_capture_def)

definition packets_ready :: "capture_select list \<Rightarrow> Packet list" where
  "packets_ready ss = List.map_filter (\<lambda>s. case s of PacketReady p stop \<Rightarrow> Some p | _ \<Rightarrow> None) ss"

lemma run_capture_prefix:
  "prefix (fst (snd (Run_capture lu dns pr ss))) (concat (map snd (snd (run_packets lu dns pr (packets_ready ss)))))"
proof (induction lu dns pr ss rule: Run_capture.induct)
  case (4 lu dns pr p stop ss)
  obtain pr' evs where "Process lu dns pr p = (pr', evs)" by fastforce
  with 4 show ?case
    by (auto simp: packets_ready_def map_filter_simps take_is_prefix split: option.splits prod.splits)
qed (auto simp: packets_ready_def map_filter_simps)

subsection \<open>Properties\<close>

definition demo_frame :: "u16 \<Rightarrow> bytes" where
  "demo_frame dport = replicate 12 0 @ [0x08, 0x00] @ [0x46] @ replicate 8 0 @ [6] @ replicate 14 0 @
     enc16 50000 @ enc16 (unat dport) @ [1, 2, 3]"

definition demo_carried :: "u16 \<Rightarrow> Packet" where
  "demo_carried dport = \<lparr>pk_ObservedAt = 5, pk_SourceIP = Addr4 [0, 0, 0, 0], pk_DestinationIP = Addr4 [0, 0, 0, 0],
     pk_SourcePort = 50000, pk_DestinationPort = dport, pk_Protocol = 6, pk_Payload = [1, 2, 3]\<rparr>"

lemma demo_carries: "carries (demo_frame dport) (demo_carried dport)"
  unfolding carries_def
  by (intro exI [of _ "replicate 12 0"] exI [of _ "[0x08, 0x00]"] exI [of _ "[1, 2, 3]"]
      exI [of _ "[0x46] @ replicate 8 0 @ [6] @ replicate 14 0"])
    (simp add: demo_frame_def demo_carried_def nth_append)

text \<open>C19. The capture filter always comes to a verdict, within as many instructions as it has, and the verdict is
  exact: it accepts a frame if and only if its EtherType is IPv4 or IPv6, its protocol is TCP or UDP and its
  source or destination port, found behind the IPv4 header of the stated length or the fixed IPv6 header, is 53
  or 443; a frame too short to hold a field it looks at is rejected.\<close>

theorem capture_filter_exact:
  "filter_verdict frame = Some (if wanted_frame frame then 65535 else 0)"
  by (rule filter_verdict_eq)

text \<open>The filter and the processor agree: of the frames that carry a packet, the filter passes those of TCP or
  UDP with a port 53 or 443, and the packet of a frame it rejects would have given the processor nothing: no
  evidence, and no change but the expiry of stale flows.\<close>

theorem filter_loses_no_evidence:
  assumes "carries frame p"
  shows "(filter_verdict frame = Some 65535 \<longleftrightarrow> pk_Protocol p \<in> {6, 17} \<and>
      (pk_SourcePort p \<in> {53, 443} \<or> pk_DestinationPort p \<in> {53, 443})) \<and>
    (filter_verdict frame = Some 65535 \<or> Process lu dns pr p = (expire pr (pk_ObservedAt p), []))"
proof -
  have "(filter_verdict frame = Some 65535) = wanted_frame frame"
    by (simp add: filter_verdict_eq)
  then show ?thesis
    using carries_wanted [OF assms] Process_unwanted by blast
qed

theorem filter_loses_no_evidence_witness:
  "filter_verdict (demo_frame 443) = Some 65535 \<and>
   Process id (\<lambda>_. None) (NewProcessor 0) (demo_carried 80) = (expire (NewProcessor 0) 5, [])"
  using filter_loses_no_evidence [OF demo_carries, of 443 id "\<lambda>_. None" "NewProcessor 0"]
    filter_loses_no_evidence [OF demo_carries, of 80 id "\<lambda>_. None" "NewProcessor 0"]
  by (auto simp: demo_carried_def)

end
