(* ===== verification/Npm.thy ===== *)
theory Npm
  imports Spool
begin

text \<open>
  The access logs of Nginx Proxy Manager, \<^verbatim>\<open>internal/agent/npm\<close>: the parser of a line (\<^verbatim>\<open>parser.go\<close>) and the tailer that follows log
  files through appends, rotation and truncation and keeps its cursors in a file (\<^verbatim>\<open>tailer.go\<close>). A path is a directory and a name;
  the files are those at the moment of a poll. Glob expansion, the time parser, lower-casing and SHA-256 are parameters, and every
  system call may fail.
\<close>

subsection \<open>The pattern of a line\<close>

definition expect :: "string \<Rightarrow> string \<Rightarrow> string option" where
  "expect p s = (if take (length p) s = p then Some (drop (length p) s) else None)"

text \<open>\<^verbatim>\<open>[^c]+\<close> and the \<open>c\<close> behind it.\<close>

definition field :: "char \<Rightarrow> string \<Rightarrow> (string \<times> string) option" where
  "field c s = (case cut_at c s of Some (a, b) \<Rightarrow> if a = [] then None else Some (a, b) | None \<Rightarrow> None)"

definition status3 :: "string \<Rightarrow> (string \<times> string) option" where
  "status3 s =
     (if take 1 s = ''-'' then Some (''-'', drop 1 s)
      else if length (take 3 s) = 3 \<and> list_all is_digit (take 3 s) then Some (take 3 s, drop 3 s)
      else None)"

definition is_upper :: "char \<Rightarrow> bool" where
  "is_upper c \<longleftrightarrow> 65 \<le> (of_char c :: nat) \<and> (of_char c :: nat) \<le> 90"

definition access_tail :: "string \<Rightarrow> (string \<times> string \<times> string) option" where
  "access_tail s =
     Option.bind (expect '' [Client '' s) (\<lambda>s.
     Option.bind (field CHR '']'' s) (\<lambda>(client, s).
     Option.bind (expect '' [Length '' s) (\<lambda>s.
     Option.bind (field CHR '']'' s) (\<lambda>(len, s).
     if \<not> list_all is_digit len then None else
     Option.bind (expect '' [Gzip '' s) (\<lambda>s.
     Option.bind (cut_at CHR '']'' s) (\<lambda>(gzip, s).
     Option.bind (expect '' [Sent-to '' s) (\<lambda>s.
     Option.bind (field CHR '']'' s) (\<lambda>(upstream, s). Some (client, len, upstream)))))))))"

text \<open>From behind the opening quote: the latest quote that can close the request line and has the rest of the pattern behind it. A
  quote after a backslash may be part of the request line, any other one closes it.\<close>

fun closing_quote :: "bool \<Rightarrow> string \<Rightarrow> (string \<times> string \<times> string) option" where
  "closing_quote escaped [] = None"
| "closing_quote escaped (c # cs) =
     (if c = CHR 0x22 then
        (if escaped then (case closing_quote False cs of Some m \<Rightarrow> Some m | None \<Rightarrow> access_tail cs) else access_tail cs)
      else closing_quote (c = CHR 0x5C) cs)"

record access_match =
  am_time :: string
  am_status :: "string list"
  am_method :: string
  am_host :: string
  am_client :: string
  am_length :: string
  am_upstream :: string

definition accessLine :: "string \<Rightarrow> access_match option" where
  "accessLine s =
     Option.bind (expect ''['' s) (\<lambda>s.
     Option.bind (field CHR '']'' s) (\<lambda>(time, s).
     Option.bind (expect '' - '' s) (\<lambda>s.
     Option.bind (status3 s) (\<lambda>(status1, s).
     Option.bind (expect '' '' s) (\<lambda>s.
     Option.bind (status3 s) (\<lambda>(status2, s).
     Option.bind (expect '' - '' s) (\<lambda>s.
     Option.bind (field CHR '' '' s) (\<lambda>(method, s).
     if \<not> list_all is_upper method then None else
     Option.bind (field CHR '' '' s) (\<lambda>(scheme, s).
     Option.bind (field CHR '' '' s) (\<lambda>(host, s).
     Option.bind (expect [CHR 0x22] s) (\<lambda>s.
     Option.bind (closing_quote False s) (\<lambda>(client, len, upstream).
     Some \<lparr>am_time = time, am_status = [status1, status2], am_method = method, am_host = host, am_client = client,
           am_length = len, am_upstream = upstream\<rparr>))))))))))))"

subsection \<open>Parsing a line\<close>

datatype line_error = InvalidLine | InvalidTime | InvalidStatus | InvalidClientIP | InvalidLength

record ParsedRequest =
  pq_ObservedAt :: go_time
  pq_Request :: ProxyRequest
  pq_SourceID :: string

definition first_status :: "string list \<Rightarrow> int option" where
  "first_status candidates =
     (case filter (\<lambda>c. c \<noteq> ''-'' \<and> Atoi c \<noteq> None) candidates of [] \<Rightarrow> None | c # _ \<Rightarrow> Atoi c)"

definition TrimSuffix :: "string \<Rightarrow> string \<Rightarrow> string" where
  "TrimSuffix s suf =
     (if length suf \<le> length s \<and> drop (length s - length suf) s = suf then take (length s - length suf) s else s)"

definition ParseLine :: "(string \<Rightarrow> go_time option) \<Rightarrow> (string \<Rightarrow> string) \<Rightarrow> string \<Rightarrow> line_error + ParsedRequest" where
  "ParseLine parseTime lower line =
     (case accessLine line of
        None \<Rightarrow> Inl InvalidLine
      | Some m \<Rightarrow>
          (case parseTime (am_time m) of
             None \<Rightarrow> Inl InvalidTime
           | Some observedAt \<Rightarrow>
               (case first_status (am_status m) of
                  None \<Rightarrow> Inl InvalidStatus
                | Some status \<Rightarrow>
                    (if ParseAddr (am_client m) = None then Inl InvalidClientIP
                     else case Atoi (am_length m) of
                       None \<Rightarrow> Inl InvalidLength
                     | Some bytesSent \<Rightarrow>
                         (if bytesSent < 0 then Inl InvalidLength
                          else Inr \<lparr>pq_ObservedAt = observedAt,
                            pq_Request = \<lparr>pr_Host = lower (TrimSuffix (am_host m) ''.''), pr_SourceIP = am_client m,
                              pr_Method = am_method m, pr_Status = status, pr_BytesSent = word_of_int bytesSent,
                              pr_Upstream = am_upstream m, pr_DurationMS = 0\<rparr>,
                            pq_SourceID = []\<rparr>)))))"

subsection \<open>Log files and cursors\<close>

type_synonym log_path = "string \<times> string"

record log_file =
  lf_Device :: u64
  lf_Inode :: u64
  lf_Data :: string

type_synonym log_files = "(log_path \<times> log_file) list"

record Cursor =
  cu_Device :: u64
  cu_Inode :: u64
  cu_Offset :: int

record PollResult =
  po_Requests :: "ParsedRequest list"
  po_Malformed :: nat
  po_Truncated :: bool

record Tailer =
  tl_allowed :: "(bool \<times> string list) list"
  tl_startAtEnd :: bool
  tl_loaded :: bool
  tl_cursors :: "log_path \<Rightarrow> Cursor option"

datatype cursor_file = NoCursors | BadCursors "log_path \<Rightarrow> Cursor option" | StoredCursors "log_path \<Rightarrow> Cursor option"

datatype persist_op = MakeDir | CreateTemp | ChmodTemp | EncodeTemp | SyncTemp | CloseTemp | RenameTemp

datatype npm_error =
    CursorsUnreadable | CursorsUndecodable | GlobForbidden | GlobFailed | StatFailed log_path | OpenFailed log_path
  | SeekFailed log_path | ReadFailed log_path | PersistFailed persist_op

record npm_env =
  nv_parseTime :: "string \<Rightarrow> go_time option"
  nv_lower :: "string \<Rightarrow> string"
  nv_glob :: "bool \<times> string list \<Rightarrow> log_files \<Rightarrow> log_path list option"
  nv_stat :: "log_path \<Rightarrow> bool"
  nv_open :: "log_path \<Rightarrow> bool"
  nv_read :: "log_path \<Rightarrow> bool"
  nv_listDir :: "string \<Rightarrow> bool"
  nv_readCursors :: bool
  nv_persist :: "persist_op \<Rightarrow> bool"

subsection \<open>Allowed paths\<close>

fun split_path :: "string \<Rightarrow> string \<Rightarrow> string list" where
  "split_path acc [] = [rev acc]"
| "split_path acc (c # cs) = (if c = CHR ''/'' then rev acc # split_path [] cs else split_path (c # acc) cs)"

fun clean_parts :: "bool \<Rightarrow> string list \<Rightarrow> string list \<Rightarrow> string list" where
  "clean_parts absolute acc [] = acc"
| "clean_parts absolute acc (p # ps) =
     (if p = [] \<or> p = ''.'' then clean_parts absolute acc ps
      else if p = ''..'' then
        (if acc \<noteq> [] \<and> last acc \<noteq> ''..'' then clean_parts absolute (butlast acc) ps
         else if absolute then clean_parts absolute acc ps
         else clean_parts absolute (acc @ [p]) ps)
      else clean_parts absolute (acc @ [p]) ps)"

text \<open>\<^verbatim>\<open>filepath.Clean\<close>, as whether the path is absolute and its elements.\<close>

definition Clean :: "string \<Rightarrow> bool \<times> string list" where
  "Clean s = (let absolute = take 1 s = ''/'' in (absolute, clean_parts absolute [] (split_path [] s)))"

text \<open>\<^verbatim>\<open>filepath.Rel\<close> succeeds and does not start with dot-dot.\<close>

definition below :: "bool \<times> string list \<Rightarrow> bool \<times> string list \<Rightarrow> bool" where
  "below dir path \<longleftrightarrow> fst dir = fst path \<and> take (length (snd dir)) (snd path) = snd dir \<and>
     (case drop (length (snd dir)) (snd path) of [] \<Rightarrow> True | p # _ \<Rightarrow> p \<noteq> ''..'')"

definition isAllowed :: "Tailer \<Rightarrow> bool \<times> string list \<Rightarrow> bool" where
  "isAllowed tailer path = list_ex (\<lambda>dir. below dir path) (tl_allowed tailer)"

definition NewTailer :: "string list \<Rightarrow> bool \<Rightarrow> Tailer" where
  "NewTailer roots startAtEnd =
     \<lparr>tl_allowed = map Clean roots, tl_startAtEnd = startAtEnd, tl_loaded = False, tl_cursors = (\<lambda>path. None)\<rparr>"

subsection \<open>Polling\<close>

text \<open>The lines that are complete.\<close>

fun full_lines :: "string \<Rightarrow> string \<Rightarrow> string list" where
  "full_lines acc [] = []"
| "full_lines acc (c # cs) = (if c = CHR 0x0A then rev acc # full_lines [] cs else full_lines (c # acc) cs)"

fun take_lines :: "npm_env \<Rightarrow> log_file \<Rightarrow> int \<Rightarrow> string list \<Rightarrow> PollResult \<Rightarrow> int \<times> PollResult" where
  "take_lines env f offset [] result = (offset, result)"
| "take_lines env f offset (line # rest) result =
     (let offset = offset + int (length line) + 1 in
      take_lines env f offset rest
        (case ParseLine (nv_parseTime env) (nv_lower env) line of
           Inl e \<Rightarrow> result\<lparr>po_Malformed := po_Malformed result + 1\<rparr>
         | Inr parsed \<Rightarrow> result\<lparr>po_Requests := po_Requests result @ [parsed\<lparr>pq_SourceID :=
             itoa (unat (lf_Device f)) @ '':'' @ itoa (unat (lf_Inode f)) @ '':'' @ format_int offset\<rparr>]\<rparr>))"

definition readRequests :: "npm_env \<Rightarrow> log_files \<Rightarrow> log_path \<Rightarrow> int \<Rightarrow> PollResult \<Rightarrow> npm_error + int \<times> PollResult" where
  "readRequests env fs path offset result =
     (case map_of fs path of
        None \<Rightarrow> Inl (OpenFailed path)
      | Some f \<Rightarrow>
          (if \<not> nv_open env path then Inl (OpenFailed path)
           else if offset < 0 then Inl (SeekFailed path)
           else if \<not> nv_read env path then Inl (ReadFailed path)
           else Inr (take_lines env f offset (full_lines [] (drop (nat offset) (lf_Data f))) result)))"

definition findInode :: "npm_env \<Rightarrow> log_files \<Rightarrow> string \<Rightarrow> u64 \<Rightarrow> u64 \<Rightarrow> log_path option" where
  "findInode env fs directory device inode =
     (if \<not> nv_listDir env directory then None
      else map_option fst (find (\<lambda>(path, f). fst path = directory \<and> lf_Device f = device \<and> lf_Inode f = inode) fs))"

definition pollPath :: "npm_env \<Rightarrow> log_files \<Rightarrow> log_path \<Rightarrow> Tailer \<times> PollResult \<Rightarrow> npm_error + Tailer \<times> PollResult" where
  "pollPath env fs path = (\<lambda>(tailer, result).
     (case map_of fs path of
        None \<Rightarrow> Inl (StatFailed path)
      | Some f \<Rightarrow>
          (if \<not> nv_stat env path then Inl (StatFailed path)
           else
             (let fresh = \<lparr>cu_Device = lf_Device f, cu_Inode = lf_Inode f, cu_Offset = 0\<rparr>;
                  store = (\<lambda>cursor. tailer\<lparr>tl_cursors := (tl_cursors tailer)(path \<mapsto> cursor)\<rparr>);
                  finish = (\<lambda>cursor result. andThen (readRequests env fs path (cu_Offset cursor) result)
                    (\<lambda>(offset, result). Inr (store (cursor\<lparr>cu_Offset := offset\<rparr>), result))) in
              if tl_cursors tailer path = None \<and> tl_startAtEnd tailer
              then Inr (store (fresh\<lparr>cu_Offset := int (length (lf_Data f))\<rparr>), result)
              else
                (let cursor = (case tl_cursors tailer path of Some c \<Rightarrow> c | None \<Rightarrow> fresh) in
                 if cu_Device cursor \<noteq> lf_Device f \<or> cu_Inode cursor \<noteq> lf_Inode f then
                   (case findInode env fs (fst path) (cu_Device cursor) (cu_Inode cursor) of
                      Some rotated \<Rightarrow> andThen (readRequests env fs rotated (cu_Offset cursor) result) (\<lambda>(offset, result). finish fresh result)
                    | None \<Rightarrow> finish fresh result)
                 else if int (length (lf_Data f)) < cu_Offset cursor then finish (cursor\<lparr>cu_Offset := 0\<rparr>) (result\<lparr>po_Truncated := True\<rparr>)
                 else finish cursor result)))))"

text \<open>A failing path ends the poll; what the paths before it did to the cursors stays.\<close>

fun poll_paths :: "npm_env \<Rightarrow> log_files \<Rightarrow> log_path list \<Rightarrow> Tailer \<times> PollResult \<Rightarrow> Tailer \<times> (npm_error + PollResult)" where
  "poll_paths env fs [] st = (fst st, Inr (snd st))"
| "poll_paths env fs (path # paths) st =
     (case pollPath env fs path st of Inl e \<Rightarrow> (fst st, Inl e) | Inr st' \<Rightarrow> poll_paths env fs paths st')"

fun poll_patterns :: "npm_env \<Rightarrow> log_files \<Rightarrow> string list \<Rightarrow> Tailer \<times> PollResult \<Rightarrow> Tailer \<times> (npm_error + PollResult)" where
  "poll_patterns env fs [] st = (fst st, Inr (snd st))"
| "poll_patterns env fs (pattern # patterns) st =
     (if \<not> isAllowed (fst st) (Clean pattern) then (fst st, Inl GlobForbidden)
      else case nv_glob env (Clean pattern) fs of
        None \<Rightarrow> (fst st, Inl GlobFailed)
      | Some paths \<Rightarrow>
          (case poll_paths env fs paths st of
             (tailer, Inl e) \<Rightarrow> (tailer, Inl e)
           | (tailer, Inr result) \<Rightarrow> poll_patterns env fs patterns (tailer, result)))"

definition load_cursors :: "npm_env \<Rightarrow> cursor_file \<Rightarrow> Tailer \<Rightarrow> Tailer \<times> npm_error option" where
  "load_cursors env disk tailer =
     (if tl_loaded tailer then (tailer, None)
      else
        (let tailer = tailer\<lparr>tl_loaded := True\<rparr> in
         case disk of
           NoCursors \<Rightarrow> (tailer, None)
         | BadCursors partial \<Rightarrow>
             (if \<not> nv_readCursors env then (tailer, Some CursorsUnreadable)
              else (tailer\<lparr>tl_cursors := partial\<rparr>, Some CursorsUndecodable))
         | StoredCursors cursors \<Rightarrow>
             (if \<not> nv_readCursors env then (tailer, Some CursorsUnreadable) else (tailer\<lparr>tl_cursors := cursors\<rparr>, None))))"

definition persist :: "npm_env \<Rightarrow> Tailer \<Rightarrow> cursor_file \<Rightarrow> cursor_file \<times> npm_error option" where
  "persist env tailer disk =
     (case find (\<lambda>op. \<not> nv_persist env op) [MakeDir, CreateTemp, ChmodTemp, EncodeTemp, SyncTemp, CloseTemp, RenameTemp] of
        Some op \<Rightarrow> (disk, Some (PersistFailed op))
      | None \<Rightarrow> (StoredCursors (tl_cursors tailer), None))"

definition no_result :: PollResult where
  "no_result = \<lparr>po_Requests = [], po_Malformed = 0, po_Truncated = False\<rparr>"

definition Poll :: "npm_env \<Rightarrow> log_files \<Rightarrow> string list \<Rightarrow> Tailer \<times> cursor_file \<Rightarrow> (Tailer \<times> cursor_file) \<times> (npm_error + PollResult)" where
  "Poll env fs patterns = (\<lambda>(tailer, disk).
     (case load_cursors env disk tailer of
        (tailer, Some e) \<Rightarrow> ((tailer, disk), Inl e)
      | (tailer, None) \<Rightarrow>
          (case poll_patterns env fs patterns (tailer, no_result) of
             (tailer, Inl e) \<Rightarrow> ((tailer, disk), Inl e)
           | (tailer, Inr result) \<Rightarrow>
               (case persist env tailer disk of
                  (disk, Some e) \<Rightarrow> ((tailer, disk), Inl e)
                | (disk, None) \<Rightarrow> ((tailer, disk), Inr result)))))"

subsection \<open>Events\<close>

definition npm_health :: "(string \<Rightarrow> string) \<Rightarrow> string \<Rightarrow> go_time \<Rightarrow> string \<Rightarrow> string \<Rightarrow> nat \<Rightarrow> string \<Rightarrow> Event" where
  "npm_health digest input observedAt status code dropped message =
     zero_Event\<lparr>ev_ID := ''health:'' @ digest input, ev_ObservedAt := observedAt, ev_Kind := EventHealth,
       ev_Health := Some \<lparr>he_Collector = ''npm_logs'', he_Status = status, he_Code = code, he_DroppedEvents = of_nat dropped,
         he_UsagePercent = Fin 0, he_Message = message\<rparr>\<rparr>"

definition CollectorUnavailableEvent :: "(string \<Rightarrow> string) \<Rightarrow> go_time \<Rightarrow> Event" where
  "CollectorUnavailableEvent digest observedAt =
     npm_health digest (''npm-unavailable:'' @ format_int (UnixNano observedAt)) observedAt ''unhealthy'' ''collector_unavailable'' 0
       ''NPM log collector could not read configured input''"

definition CollectorHealthyEvent :: "(string \<Rightarrow> string) \<Rightarrow> go_time \<Rightarrow> Event" where
  "CollectorHealthyEvent digest observedAt =
     npm_health digest (''npm-healthy:'' @ format_int (UnixNano observedAt)) observedAt ''healthy'' ''active'' 0 ''NPM log collector is active''"

definition proxy_event :: "(string \<Rightarrow> string) \<Rightarrow> (go_time \<Rightarrow> string) \<Rightarrow> ParsedRequest \<Rightarrow> Event" where
  "proxy_event digest rfc3339 parsed =
     (let r = pq_Request parsed in
      zero_Event\<lparr>ev_ID := ''proxy:'' @ digest (join_with '':'' [pq_SourceID parsed, rfc3339 (pq_ObservedAt parsed), pr_Host r, pr_SourceIP r,
          pr_Method r, format_int (pr_Status r), format_int (sint (pr_BytesSent r))]),
        ev_ObservedAt := pq_ObservedAt parsed, ev_Kind := EventProxyRequest, ev_ProxyRequest := Some r\<rparr>)"

definition npm_Events :: "(string \<Rightarrow> string) \<Rightarrow> (go_time \<Rightarrow> string) \<Rightarrow> PollResult \<Rightarrow> go_time \<Rightarrow> Event list" where
  "npm_Events digest rfc3339 result observedAt =
     map (proxy_event digest rfc3339) (po_Requests result) @
     (if 0 < po_Malformed result \<or> po_Truncated result
      then (let code = (if po_Truncated result then ''log_truncated'' else ''malformed_line'') in
        [npm_health digest (''npm-health:'' @ format_int (UnixNano observedAt) @ '':'' @ code) observedAt ''degraded'' code (po_Malformed result)
          ''NPM log input changed or contained malformed records''])
      else [])"

record RecoveryTracker =
  rt_reportedHealthy :: bool
  rt_needsRecovery :: bool

definition Observe_recovery :: "(string \<Rightarrow> string) \<Rightarrow> npm_error + PollResult \<Rightarrow> go_time \<Rightarrow> RecoveryTracker \<Rightarrow> RecoveryTracker \<times> Event option" where
  "Observe_recovery digest polled observedAt tracker =
     (if (case polled of Inl e \<Rightarrow> True | Inr result \<Rightarrow> 0 < po_Malformed result \<or> po_Truncated result)
      then (tracker\<lparr>rt_needsRecovery := True\<rparr>, None)
      else if rt_reportedHealthy tracker \<and> \<not> rt_needsRecovery tracker then (tracker, None)
      else (tracker\<lparr>rt_reportedHealthy := True, rt_needsRecovery := False\<rparr>, Some (CollectorHealthyEvent digest observedAt)))"

text \<open>One tick of the agent: the events it records and whether the last poll failed.\<close>

definition npm_tick :: "(string \<Rightarrow> string) \<Rightarrow> (go_time \<Rightarrow> string) \<Rightarrow> npm_error + PollResult \<Rightarrow> go_time \<Rightarrow> bool \<times> RecoveryTracker \<Rightarrow>
    (bool \<times> RecoveryTracker) \<times> Event list option" where
  "npm_tick digest rfc3339 polled observedAt = (\<lambda>(npmFailed, tracker).
     (case Observe_recovery digest polled observedAt tracker of
        (tracker, recovery) \<Rightarrow>
          (case polled of
             Inl e \<Rightarrow> ((True, tracker), if npmFailed then None else Some [CollectorUnavailableEvent digest observedAt])
           | Inr result \<Rightarrow>
               ((False, tracker), Some (npm_Events digest rfc3339 result observedAt @ (case recovery of Some e \<Rightarrow> [e] | None \<Rightarrow> []))))))"

subsection \<open>Lines and offsets\<close>

text \<open>What the lines of a file from an offset on are worth, and where they end.\<close>

definition line_end :: "int \<Rightarrow> string list \<Rightarrow> int" where
  "line_end offset ls = offset + sum_list (map (\<lambda>l. int (length l) + 1) ls)"

fun requests_at :: "npm_env \<Rightarrow> log_file \<Rightarrow> int \<Rightarrow> string list \<Rightarrow> ParsedRequest list" where
  "requests_at env f offset [] = []"
| "requests_at env f offset (l # ls) =
     (case ParseLine (nv_parseTime env) (nv_lower env) l of
        Inl e \<Rightarrow> []
      | Inr parsed \<Rightarrow> [parsed\<lparr>pq_SourceID :=
          itoa (unat (lf_Device f)) @ '':'' @ itoa (unat (lf_Inode f)) @ '':'' @ format_int (offset + int (length l) + 1)\<rparr>]) @
     requests_at env f (offset + int (length l) + 1) ls"

definition malformed_in :: "npm_env \<Rightarrow> string list \<Rightarrow> nat" where
  "malformed_in env ls = length (filter (\<lambda>l. isl (ParseLine (nv_parseTime env) (nv_lower env) l)) ls)"

lemma line_end_simps: "line_end o' [] = o'" "line_end o' (l # ls) = line_end (o' + int (length l) + 1) ls"
  by (simp_all add: line_end_def)

lemma line_end_append: "line_end o' (ls @ ms) = line_end (line_end o' ls) ms"
  by (simp add: line_end_def)

lemma requests_at_append: "requests_at env f o' (ls @ ms) = requests_at env f o' ls @ requests_at env f (line_end o' ls) ms"
  by (induction ls arbitrary: o') (simp_all add: line_end_simps)

lemma malformed_in_append: "malformed_in env (ls @ ms) = malformed_in env ls + malformed_in env ms"
  by (simp add: malformed_in_def)

lemma take_lines_result:
  "take_lines env f o' ls result =
     (line_end o' ls, result\<lparr>po_Requests := po_Requests result @ requests_at env f o' ls, po_Malformed := po_Malformed result + malformed_in env ls\<rparr>)"
proof (induction ls arbitrary: o' result)
  case Nil
  then show ?case by (simp add: line_end_simps malformed_in_def)
next
  case (Cons l ls)
  show ?case by (simp add: Cons Let_def line_end_simps malformed_in_def split: sum.split)
qed

text \<open>The part of a text up to its last line feed.\<close>

definition complete_len :: "string \<Rightarrow> nat" where
  "complete_len s = sum_list (map (\<lambda>l. length l + 1) (full_lines [] s))"

lemma line_end_complete: "line_end o' (full_lines [] s) = o' + int (complete_len s)"
proof -
  have "sum_list (map (\<lambda>l. int (length l) + 1) ls) = int (sum_list (map (\<lambda>l. length l + 1) ls))" for ls by (induction ls) auto
  then show ?thesis by (simp add: line_end_def complete_len_def)
qed

lemma full_lines_no_newline: "CHR 0x0A \<notin> set s \<Longrightarrow> full_lines acc s = []"
  by (induction s arbitrary: acc) auto

lemma full_lines_line: "CHR 0x0A \<notin> set l \<Longrightarrow> full_lines acc (l @ CHR 0x0A # s) = (rev acc @ l) # full_lines [] s"
  by (induction l arbitrary: acc) auto

lemma text_cases:
  obtains (rest) "CHR 0x0A \<notin> set s" | (line) l t where "s = l @ CHR 0x0A # t" "CHR 0x0A \<notin> set l"
  by (metis split_list_first)

lemma full_lines_append:
  "full_lines [] (s @ t) = full_lines [] s @ full_lines [] (drop (complete_len s) s @ t) \<and> complete_len s \<le> length s"
proof (induction "length s" arbitrary: s rule: less_induct)
  case less
  show ?case
  proof (cases s rule: text_cases)
    case rest
    then show ?thesis by (simp add: full_lines_no_newline complete_len_def)
  next
    case (line l u)
    have c: "complete_len s = Suc (length l) + complete_len u"
      unfolding complete_len_def line(1) using full_lines_line [OF line(2), of "[]" u]
      by simp
    have "full_lines [] (u @ t) = full_lines [] u @ full_lines [] (drop (complete_len u) u @ t) \<and> complete_len u \<le> length u"
      using less [of u] line(1) by simp
    then show ?thesis using full_lines_line [OF line(2), of "[]"] c line(1) by simp
  qed
qed

text \<open>Reading on from the last complete line reads the complete lines that were added.\<close>

lemma full_lines_grow:
  assumes "take (length s) s' = s"
  shows "full_lines [] s' = full_lines [] s @ full_lines [] (drop (complete_len s) s')" "complete_len s' = complete_len s + complete_len (drop (complete_len s) s')"
proof -
  obtain t where t: "s' = s @ t" using assms by (metis append_take_drop_id)
  have "drop (complete_len s) s' = drop (complete_len s) s @ t" using full_lines_append [of s t] by (simp add: t)
  then show "full_lines [] s' = full_lines [] s @ full_lines [] (drop (complete_len s) s')" using full_lines_append [of s t] by (simp add: t)
  then show "complete_len s' = complete_len s + complete_len (drop (complete_len s) s')" by (simp add: complete_len_def)
qed

subsection \<open>Following one log file\<close>

abbreviation reads_ok :: "npm_env \<Rightarrow> log_path \<Rightarrow> bool" where
  "reads_ok env path \<equiv> nv_stat env path \<and> nv_open env path \<and> nv_read env path"

abbreviation the_file :: "u64 \<Rightarrow> u64 \<Rightarrow> string \<Rightarrow> log_file" where
  "the_file dev ino contents \<equiv> \<lparr>lf_Device = dev, lf_Inode = ino, lf_Data = contents\<rparr>"

lemma poll_grown:
  assumes "reads_ok env path" "tl_cursors tailer path = Some \<lparr>cu_Device = dev, cu_Inode = ino, cu_Offset = int (complete_len s)\<rparr>" "take (length s) t = s"
    "map_of fs path = Some (the_file dev ino t)"
  shows "pollPath env fs path (tailer, result) =
    Inr (tailer\<lparr>tl_cursors := (tl_cursors tailer)(path \<mapsto> \<lparr>cu_Device = dev, cu_Inode = ino, cu_Offset = int (complete_len t)\<rparr>)\<rparr>,
      result\<lparr>po_Requests := po_Requests result @ requests_at env (the_file dev ino t) (int (complete_len s)) (full_lines [] (drop (complete_len s) t)),
        po_Malformed := po_Malformed result + malformed_in env (full_lines [] (drop (complete_len s) t))\<rparr>)"
proof -
  have "complete_len s \<le> length s" using full_lines_append [of s "[]"] by simp
  moreover have "length s \<le> length t" using assms(3) by (metis length_take min.cobounded1)
  ultimately have "\<not> int (length t) < int (complete_len s)" by simp
  then show ?thesis
    using assms full_lines_grow(2) [OF assms(3)]
    by (simp add: pollPath_def readRequests_def take_lines_result line_end_complete Let_def)
qed

lemma requests_grown:
  assumes "take (length s) t = s"
  shows "requests_at env f 0 (full_lines [] t) =
      requests_at env f 0 (full_lines [] s) @ requests_at env f (int (complete_len s)) (full_lines [] (drop (complete_len s) t))"
    "malformed_in env (full_lines [] t) = malformed_in env (full_lines [] s) + malformed_in env (full_lines [] (drop (complete_len s) t))"
  using full_lines_grow(1) [OF assms] by (simp_all add: requests_at_append malformed_in_append line_end_complete)

text \<open>The identity of a file, not its contents, goes into the identifiers of its requests.\<close>

lemma requests_at_file: "requests_at env (the_file dev ino s) o' ls = requests_at env (the_file dev ino t) o' ls"
  by (induction ls arbitrary: o') (simp_all split: sum.split)

lemma first_poll:
  assumes "reads_ok env path" "tl_cursors tailer path = None"
  shows "poll_paths env [(path, the_file dev ino s)] [path] (tailer, no_result) =
    (if tl_startAtEnd tailer
     then (tailer\<lparr>tl_cursors := (tl_cursors tailer)(path \<mapsto> \<lparr>cu_Device = dev, cu_Inode = ino, cu_Offset = int (length s)\<rparr>)\<rparr>, Inr no_result)
     else (tailer\<lparr>tl_cursors := (tl_cursors tailer)(path \<mapsto> \<lparr>cu_Device = dev, cu_Inode = ino, cu_Offset = int (complete_len s)\<rparr>)\<rparr>,
       Inr (no_result\<lparr>po_Requests := requests_at env (the_file dev ino s) 0 (full_lines [] s), po_Malformed := malformed_in env (full_lines [] s)\<rparr>)))"
  using assms by (simp add: pollPath_def readRequests_def take_lines_result line_end_complete no_result_def Let_def)

subsection \<open>Polls in turn\<close>

text \<open>A round: whether the agent was started anew since the last one, what works during the poll, and what the log file holds then. The rounds are
  polls of one pattern; the results are those of the polls that succeed.\<close>

type_synonym poll_round = "bool \<times> npm_env \<times> string"

fun tail_rounds :: "string list \<Rightarrow> bool \<Rightarrow> string \<Rightarrow> log_path \<Rightarrow> u64 \<Rightarrow> u64 \<Rightarrow> poll_round list \<Rightarrow> Tailer \<times> cursor_file \<Rightarrow>
    (Tailer \<times> cursor_file) \<times> PollResult list" where
  "tail_rounds roots atEnd pattern path dev ino [] st = (st, [])"
| "tail_rounds roots atEnd pattern path dev ino ((restarted, env, contents) # rounds) st =
     (case Poll env [(path, the_file dev ino contents)] [pattern] (if restarted then (NewTailer roots atEnd, snd st) else st) of
        (st', polled) \<Rightarrow>
          (case tail_rounds roots atEnd pattern path dev ino rounds st' of
             (st'', results) \<Rightarrow> (st'', (case polled of Inl e \<Rightarrow> [] | Inr result \<Rightarrow> [result]) @ results)))"

text \<open>The pattern finds the log file and the file can be read.\<close>

definition poll_works :: "string \<Rightarrow> log_path \<Rightarrow> u64 \<Rightarrow> u64 \<Rightarrow> poll_round \<Rightarrow> bool" where
  "poll_works pattern path dev ino = (\<lambda>(restarted, env, contents).
     nv_glob env (Clean pattern) [(path, the_file dev ino contents)] = Some [path] \<and> reads_ok env path)"

text \<open>What may go wrong in a round: the search for the file, its status, opening and reading it. The cursors can be read and written.\<close>

definition round_ok :: "npm_env \<Rightarrow> string \<Rightarrow> log_path \<Rightarrow> u64 \<Rightarrow> u64 \<Rightarrow> poll_round \<Rightarrow> bool" where
  "round_ok base pattern path dev ino = (\<lambda>(restarted, env, contents).
     nv_parseTime env = nv_parseTime base \<and> nv_lower env = nv_lower base \<and> nv_readCursors env \<and> nv_persist env = (\<lambda>op. True) \<and>
     nv_glob env (Clean pattern) [(path, the_file dev ino contents)] \<in> {None, Some [path]})"

text \<open>The contents at the last poll that worked.\<close>

fun last_read :: "string \<Rightarrow> log_path \<Rightarrow> u64 \<Rightarrow> u64 \<Rightarrow> string \<Rightarrow> poll_round list \<Rightarrow> string" where
  "last_read pattern path dev ino s [] = s"
| "last_read pattern path dev ino s (r # rounds) =
     last_read pattern path dev ino (if poll_works pattern path dev ino r then snd (snd r) else s) rounds"

text \<open>The file only grows from round to round.\<close>

fun growing :: "string \<Rightarrow> poll_round list \<Rightarrow> bool" where
  "growing s [] = True"
| "growing s (r # rounds) = (prefix s (snd (snd r)) \<and> growing (snd (snd r)) rounds)"

definition tailed :: "string list \<Rightarrow> bool \<Rightarrow> log_path \<Rightarrow> u64 \<Rightarrow> u64 \<Rightarrow> string \<Rightarrow> Tailer \<times> cursor_file \<Rightarrow> bool" where
  "tailed roots atEnd path dev ino s = (\<lambda>(tailer, disk).
     tl_allowed tailer = map Clean roots \<and> tl_startAtEnd tailer = atEnd \<and>
     (\<exists>m. disk = StoredCursors m \<and> m path = Some \<lparr>cu_Device = dev, cu_Inode = ino, cu_Offset = int (complete_len s)\<rparr> \<and>
        (tl_loaded tailer \<longrightarrow> tl_cursors tailer = m)))"

lemma requests_at_env:
  assumes "nv_parseTime env = nv_parseTime base" "nv_lower env = nv_lower base"
  shows "requests_at env f o' ls = requests_at base f o' ls" "malformed_in env ls = malformed_in base ls"
proof -
  show "requests_at env f o' ls = requests_at base f o' ls" using assms by (induction ls arbitrary: o') simp_all
  show "malformed_in env ls = malformed_in base ls" using assms by (simp add: malformed_in_def)
qed

lemma persist_ok: "nv_persist env = (\<lambda>op. True) \<Longrightarrow> persist env tailer disk = (StoredCursors (tl_cursors tailer), None)"
  by (simp add: persist_def)

lemma load_tailed:
  assumes "tailed roots atEnd path dev ino s (tailer, disk)" "nv_readCursors env"
  obtains tailer' where "load_cursors env disk tailer = (tailer', None)" "tailed roots atEnd path dev ino s (tailer', disk)" "tl_loaded tailer'"
  using assms by (cases "tl_loaded tailer") (fastforce simp: tailed_def load_cursors_def Let_def)+

lemma poll_round:
  assumes "tailed roots atEnd path dev ino s st" "round_ok base pattern path dev ino (restarted, env, t)" "prefix s t"
    "isAllowed (NewTailer roots atEnd) (Clean pattern)"
  obtains st' where "tailed roots atEnd path dev ino t st'" "poll_works pattern path dev ino (restarted, env, t)"
      "Poll env [(path, the_file dev ino t)] [pattern] st = (st', Inr (no_result
        \<lparr>po_Requests := requests_at base (the_file dev ino t) (int (complete_len s)) (full_lines [] (drop (complete_len s) t)),
         po_Malformed := malformed_in base (full_lines [] (drop (complete_len s) t))\<rparr>))"
    | st' e where "tailed roots atEnd path dev ino s st'" "\<not> poll_works pattern path dev ino (restarted, env, t)"
      "Poll env [(path, the_file dev ino t)] [pattern] st = (st', Inl e)"
proof -
  let ?fs = "[(path, the_file dev ino t)]"
  obtain tailer disk where st: "st = (tailer, disk)" by fastforce
  have ok: "nv_parseTime env = nv_parseTime base" "nv_lower env = nv_lower base" "nv_readCursors env" "nv_persist env = (\<lambda>op. True)"
    "nv_glob env (Clean pattern) ?fs \<in> {None, Some [path]}" using assms(2) by (simp_all add: round_ok_def)
  obtain tailer' where load: "load_cursors env disk tailer = (tailer', None)" "tailed roots atEnd path dev ino s (tailer', disk)" "tl_loaded tailer'"
    using load_tailed assms(1) ok(3) unfolding st by metis
  then have cursor: "tl_cursors tailer' path = Some \<lparr>cu_Device = dev, cu_Inode = ino, cu_Offset = int (complete_len s)\<rparr>"
    and allowed: "isAllowed tailer' (Clean pattern)"
    using assms(4) by (auto simp: tailed_def isAllowed_def NewTailer_def)
  have grows: "take (length s) t = s" using assms(3) by (auto simp: prefix_def)
  show thesis
  proof (cases "poll_works pattern path dev ino (restarted, env, t)")
    case True
    then have works: "nv_glob env (Clean pattern) ?fs = Some [path]" "reads_ok env path" by (simp_all add: poll_works_def)
    let ?tailer = "tailer'\<lparr>tl_cursors := (tl_cursors tailer')(path \<mapsto> \<lparr>cu_Device = dev, cu_Inode = ino, cu_Offset = int (complete_len t)\<rparr>)\<rparr>"
    have "tailed roots atEnd path dev ino t (?tailer, StoredCursors (tl_cursors ?tailer))" using load(2) by (simp add: tailed_def)
    moreover have "Poll env ?fs [pattern] st = ((?tailer, StoredCursors (tl_cursors ?tailer)), Inr (no_result
        \<lparr>po_Requests := requests_at base (the_file dev ino t) (int (complete_len s)) (full_lines [] (drop (complete_len s) t)),
         po_Malformed := malformed_in base (full_lines [] (drop (complete_len s) t))\<rparr>))"
      using poll_grown [OF works(2) cursor grows, of ?fs no_result]
      by (simp add: Poll_def st load(1) allowed works(1) persist_ok [OF ok(4)] requests_at_env [OF ok(1,2)] no_result_def)
    ultimately show thesis using that(1) True by blast
  next
    case False
    have "\<exists>e. poll_patterns env ?fs [pattern] (tailer', no_result) = (tailer', Inl e)"
    proof (cases "nv_glob env (Clean pattern) ?fs")
      case (Some paths)
      then have "\<not> reads_ok env path" "paths = [path]" using False ok(5) by (auto simp: poll_works_def)
      moreover have "complete_len s \<le> length t" using full_lines_append [of s "[]"] assms(3) prefix_length_le by fastforce
      ultimately have "\<exists>e. pollPath env ?fs path (tailer', no_result) = Inl e"
        using cursor by (auto simp: pollPath_def readRequests_def Let_def)
      then show ?thesis using allowed Some \<open>paths = [path]\<close> by auto
    qed (use allowed in simp)
    then have "\<exists>e. Poll env ?fs [pattern] st = ((tailer', disk), Inl e)" by (auto simp: Poll_def st load(1))
    then show thesis using that(2) False load(2) by blast
  qed
qed

lemma tailed_restart: "tailed roots atEnd path dev ino s st \<Longrightarrow> tailed roots atEnd path dev ino s (NewTailer roots atEnd, snd st)"
  by (cases st) (auto simp: tailed_def NewTailer_def)

lemma tail_rounds_exact:
  assumes "isAllowed (NewTailer roots atEnd) (Clean pattern)"
  shows "tailed roots atEnd path dev ino s st \<Longrightarrow> prefix s u \<Longrightarrow> growing u rounds \<Longrightarrow> list_all (round_ok base pattern path dev ino) rounds \<Longrightarrow>
    (case tail_rounds roots atEnd pattern path dev ino rounds st of (st', results) \<Rightarrow>
      requests_at base (the_file dev ino s) 0 (full_lines [] s) @ concat (map po_Requests results) =
        requests_at base (the_file dev ino s) 0 (full_lines [] (last_read pattern path dev ino s rounds)) \<and>
      malformed_in base (full_lines [] s) + sum_list (map po_Malformed results) =
        malformed_in base (full_lines [] (last_read pattern path dev ino s rounds)) \<and>
      (\<forall>r \<in> set results. \<not> po_Truncated r))"
proof (induction rounds arbitrary: s u st)
  case (Cons r rounds)
  obtain restarted env t where r: "r = (restarted, env, t)" by (metis prod_cases3)
  let ?st = "if restarted then (NewTailer roots atEnd, snd st) else st"
  have pre: "tailed roots atEnd path dev ino s ?st" "round_ok base pattern path dev ino (restarted, env, t)" "prefix s t" "growing t rounds"
    using Cons.prems tailed_restart by (auto simp: r intro: prefix_order.trans)
  show ?case
  proof (rule poll_round [OF pre(1-3) assms])
    fix st'
    assume st': "tailed roots atEnd path dev ino t st'" "poll_works pattern path dev ino (restarted, env, t)"
      "Poll env [(path, the_file dev ino t)] [pattern] ?st = (st', Inr (no_result
        \<lparr>po_Requests := requests_at base (the_file dev ino t) (int (complete_len s)) (full_lines [] (drop (complete_len s) t)),
         po_Malformed := malformed_in base (full_lines [] (drop (complete_len s) t))\<rparr>))"
    obtain st'' results where rest: "tail_rounds roots atEnd pattern path dev ino rounds st' = (st'', results)" by fastforce
    have grows: "take (length s) t = s" using pre(3) by (auto simp: prefix_def)
    show ?thesis
      using Cons.IH [OF st'(1) prefix_order.refl pre(4)] Cons.prems(4) rest st'(2,3) requests_at_file [where s = t and t = s]
        requests_grown(1) [OF grows, of base "the_file dev ino s"] requests_grown(2) [OF grows, of base]
      by (simp add: r no_result_def)
  next
    fix st' e
    assume st': "tailed roots atEnd path dev ino s st'" "\<not> poll_works pattern path dev ino (restarted, env, t)"
      "Poll env [(path, the_file dev ino t)] [pattern] ?st = (st', Inl e)"
    obtain st'' results where rest: "tail_rounds roots atEnd pattern path dev ino rounds st' = (st'', results)" by fastforce
    show ?thesis using Cons.IH [OF st'(1) pre(3,4)] Cons.prems(4) rest st'(2,3) by (simp add: r)
  qed
qed simp

lemma rotated_poll:
  assumes "reads_ok env path" "reads_ok env old" "nv_listDir env (fst path)" "fst old = fst path"
    "tl_cursors tailer path = Some \<lparr>cu_Device = dev, cu_Inode = ino, cu_Offset = int (complete_len s)\<rparr>" "take (length s) t = s"
    "map_of fs path = Some (the_file dev' ino' u)" "(dev', ino') \<noteq> (dev, ino)" "map_of fs old = Some (the_file dev ino t)"
    "\<forall>p f. (p, f) \<in> set fs \<longrightarrow> lf_Device f = dev \<longrightarrow> lf_Inode f = ino \<longrightarrow> p = old"
  shows "pollPath env fs path (tailer, result) =
    Inr (tailer\<lparr>tl_cursors := (tl_cursors tailer)(path \<mapsto> \<lparr>cu_Device = dev', cu_Inode = ino', cu_Offset = int (complete_len u)\<rparr>)\<rparr>,
      result\<lparr>po_Requests := po_Requests result @ requests_at env (the_file dev ino t) (int (complete_len s)) (full_lines [] (drop (complete_len s) t)) @
          requests_at env (the_file dev' ino' u) 0 (full_lines [] u),
        po_Malformed := po_Malformed result + malformed_in env (full_lines [] (drop (complete_len s) t)) + malformed_in env (full_lines [] u)\<rparr>)"
proof -
  have mem: "(old, the_file dev ino t) \<in> set fs" by (rule map_of_SomeD [OF assms(9)])
  let ?P = "\<lambda>(p, f). fst p = fst path \<and> lf_Device f = dev \<and> lf_Inode f = ino"
  have "?P (old, the_file dev ino t)" using assms(4) by simp
  then have "find ?P fs \<noteq> None" using mem by (metis (no_types, lifting) find_None_iff)
  then obtain p f where found: "find ?P fs = Some (p, f)" by auto
  then obtain i where "i < length fs" "fs ! i = (p, f)" "?P (p, f)" unfolding find_Some_iff by metis
  then have "(p, f) \<in> set fs" "lf_Device f = dev" "lf_Inode f = ino" using nth_mem [of i fs] by auto
  then have "p = old" using assms(10) by blast
  then have "findInode env fs (fst path) dev ino = Some old" using found assms(3) by (simp add: findInode_def)
  then show ?thesis
    using assms by (auto simp: pollPath_def readRequests_def take_lines_result line_end_complete Let_def)
qed

lemma truncated_poll:
  assumes "reads_ok env path" "tl_cursors tailer path = Some \<lparr>cu_Device = dev, cu_Inode = ino, cu_Offset = off\<rparr>"
    "map_of fs path = Some (the_file dev ino t)" "int (length t) < off"
  shows "pollPath env fs path (tailer, result) =
    Inr (tailer\<lparr>tl_cursors := (tl_cursors tailer)(path \<mapsto> \<lparr>cu_Device = dev, cu_Inode = ino, cu_Offset = int (complete_len t)\<rparr>)\<rparr>,
      result\<lparr>po_Requests := po_Requests result @ requests_at env (the_file dev ino t) 0 (full_lines [] t),
        po_Malformed := po_Malformed result + malformed_in env (full_lines [] t), po_Truncated := True\<rparr>)"
  using assms by (simp add: pollPath_def readRequests_def take_lines_result line_end_complete Let_def)

subsection \<open>Properties\<close>

text \<open>C31. Over any number of polls of a log file that only grows, each complete line is reported exactly once and in order, as a request or
  as malformed, no matter where the polls cut the file and however often the agent is started anew in between: what the successful polls report
  together are the complete lines of the file as it was at the last of them, less what was there at the first poll when the tailer
  starts at the end (if that ended with a complete line). A line that is not finished waits for its line feed, and a poll that cannot find,
  open or read the file loses nothing. Assumed are one pattern that is allowed and finds this file only, the same file throughout (no
  rotation), a first poll that works, and cursors that can be read and written; a poll that fails after it has moved a cursor, as it does
  when a second file or the cursor file fails, loses what it read.\<close>

theorem tail_exactly_once:
  assumes "isAllowed (NewTailer roots atEnd) (Clean pattern)" "list_all (round_ok env pattern path dev ino) ((True, env, s) # rounds)"
    "poll_works pattern path dev ino (True, env, s)" "growing s rounds" "atEnd \<longrightarrow> complete_len s = length s"
    "tail_rounds roots atEnd pattern path dev ino ((True, env, s) # rounds) (tailer, NoCursors) = (st, results)"
  shows "(let skipped = (if atEnd then s else []) in
       requests_at env (the_file dev ino s) 0 (full_lines [] skipped) @ concat (map po_Requests results) =
         requests_at env (the_file dev ino s) 0 (full_lines [] (last_read pattern path dev ino s rounds)) \<and>
       malformed_in env (full_lines [] skipped) + sum_list (map po_Malformed results) =
         malformed_in env (full_lines [] (last_read pattern path dev ino s rounds))) \<and>
      (\<forall>r \<in> set results. \<not> po_Truncated r)"
proof -
  let ?new = "NewTailer roots atEnd"
  let ?tailer = "?new\<lparr>tl_loaded := True, tl_cursors := [path \<mapsto> \<lparr>cu_Device = dev, cu_Inode = ino, cu_Offset = int (complete_len s)\<rparr>]\<rparr>"
  let ?all = "no_result\<lparr>po_Requests := requests_at env (the_file dev ino s) 0 (full_lines [] s), po_Malformed := malformed_in env (full_lines [] s)\<rparr>"
  let ?first = "if atEnd then no_result else ?all" let ?st = "(?tailer, StoredCursors (tl_cursors ?tailer))"
  have works: "nv_glob env (Clean pattern) [(path, the_file dev ino s)] = Some [path]" "reads_ok env path" "nv_persist env = (\<lambda>op. True)"
    using assms(2,3) by (simp_all add: poll_works_def round_ok_def)
  have "poll_paths env [(path, the_file dev ino s)] [path] (?new\<lparr>tl_loaded := True\<rparr>, no_result) = (?tailer, Inr ?first)"
    using first_poll [OF works(2), of "?new\<lparr>tl_loaded := True\<rparr>" dev ino s] assms(5) by (auto simp: NewTailer_def)
  then have first: "Poll env [(path, the_file dev ino s)] [pattern] (?new, NoCursors) = (?st, Inr ?first)"
    using assms(1) works(1) persist_ok [OF works(3)] by (simp add: Poll_def load_cursors_def NewTailer_def isAllowed_def Let_def del: poll_paths.simps)
  obtain st' rest where run: "tail_rounds roots atEnd pattern path dev ino rounds ?st = (st', rest)" by fastforce
  have results: "results = ?first # rest" using assms(6) first run by simp
  have "tailed roots atEnd path dev ino s ?st" by (simp add: tailed_def NewTailer_def)
  from tail_rounds_exact [OF assms(1) this prefix_order.refl assms(4), of env] assms(2) run
  have "requests_at env (the_file dev ino s) 0 (full_lines [] s) @ concat (map po_Requests rest) =
        requests_at env (the_file dev ino s) 0 (full_lines [] (last_read pattern path dev ino s rounds))"
    "malformed_in env (full_lines [] s) + sum_list (map po_Malformed rest) = malformed_in env (full_lines [] (last_read pattern path dev ino s rounds))"
    "\<forall>r \<in> set rest. \<not> po_Truncated r" by simp_all
  moreover have "malformed_in env [] = 0" by (simp add: malformed_in_def)
  ultimately show ?thesis unfolding results by (cases atEnd) (auto simp: no_result_def Let_def)
qed

definition sample_line :: string where
  "sample_line = ''[15/Jul/2026:09:00:00 +0000] - 200 200 - GET https app.example.test '' @ [CHR 0x22] @ ''/'' @ [CHR 0x22] @
     '' [Client 203.0.113.9] [Length 512] [Gzip -] [Sent-to 10.0.0.4]''"

definition plain_npm :: npm_env where
  "plain_npm = \<lparr>nv_parseTime = (\<lambda>s. Some 7), nv_lower = id, nv_glob = (\<lambda>p fs. Some (map fst fs)), nv_stat = (\<lambda>p. True),
     nv_open = (\<lambda>p. True), nv_read = (\<lambda>p. True), nv_listDir = (\<lambda>d. True), nv_readCursors = True, nv_persist = (\<lambda>op. True)\<rparr>"

text \<open>A line and a half, a poll that cannot read the file, a new start of the agent and both lines.\<close>

abbreviation sample_rounds :: "poll_round list" where
  "sample_rounds \<equiv> [(True, plain_npm, sample_line @ [CHR 0x0A] @ take 20 sample_line),
     (False, plain_npm\<lparr>nv_read := \<lambda>p. False\<rparr>, sample_line @ [CHR 0x0A] @ take 20 sample_line),
     (True, plain_npm, sample_line @ [CHR 0x0A] @ sample_line @ [CHR 0x0A])]"

theorem tail_exactly_once_witness:
  "length (concat (map po_Requests (snd (tail_rounds [''/d''] False ''/d/a'' (''d'', ''a'') 1 2 sample_rounds (NewTailer [''/d''] False, NoCursors))))) = 2"
proof -
  let ?run = "tail_rounds [''/d''] False ''/d/a'' (''d'', ''a'') 1 2 sample_rounds (NewTailer [''/d''] False, NoCursors)"
  have facts: "isAllowed (NewTailer [''/d''] False) (Clean ''/d/a'')" by code_simp
  have rounds: "list_all (round_ok plain_npm ''/d/a'' (''d'', ''a'') 1 2) sample_rounds" "poll_works ''/d/a'' (''d'', ''a'') 1 2 (hd sample_rounds)"
    by (simp_all add: round_ok_def poll_works_def plain_npm_def)
  have grow: "growing (sample_line @ [CHR 0x0A] @ take 20 sample_line) (tl sample_rounds)"
  proof -
    have "\<exists>zs. sample_line @ [CHR 0x0A] = take 20 sample_line @ zs" by (metis append.assoc append_take_drop_id)
    then show ?thesis by (simp add: prefix_def)
  qed
  have seen: "last_read ''/d/a'' (''d'', ''a'') 1 2 s (tl sample_rounds) = sample_line @ [CHR 0x0A] @ sample_line @ [CHR 0x0A]" for s
    by (simp add: poll_works_def plain_npm_def)
  have lines: "length (requests_at plain_npm (the_file 1 2 s) 0 (full_lines [] (sample_line @ [CHR 0x0A] @ sample_line @ [CHR 0x0A]))) = 2" for s
    by code_simp
  obtain st results where run: "?run = (st, results)" by fastforce
  have "concat (map po_Requests results) = requests_at plain_npm (the_file 1 2 (sample_line @ [CHR 0x0A] @ take 20 sample_line)) 0
      (full_lines [] (last_read ''/d/a'' (''d'', ''a'') 1 2 (sample_line @ [CHR 0x0A] @ take 20 sample_line) (tl sample_rounds)))"
    using tail_exactly_once [OF facts, of plain_npm "(''d'', ''a'')" 1 2 "sample_line @ [CHR 0x0A] @ take 20 sample_line" "tl sample_rounds"
        "NewTailer [''/d''] False" st results] rounds grow run
    unfolding list.sel by (simp add: Let_def del: tail_rounds.simps last_read.simps growing.simps)
  then show ?thesis unfolding run seen using lines by simp
qed

text \<open>When the log was rotated since the last poll, the rest of the old file is read under its new name first and then the new file from
  its start, so that no complete line is lost or repeated.\<close>

theorem rotation_continues:
  assumes "reads_ok env path" "reads_ok env old" "nv_listDir env (fst path)" "fst old = fst path"
    "tl_cursors tailer path = Some \<lparr>cu_Device = dev, cu_Inode = ino, cu_Offset = int (complete_len s)\<rparr>" "take (length s) t = s"
    "map_of fs path = Some (the_file dev' ino' u)" "(dev', ino') \<noteq> (dev, ino)" "map_of fs old = Some (the_file dev ino t)"
    "\<forall>p f. (p, f) \<in> set fs \<longrightarrow> lf_Device f = dev \<longrightarrow> lf_Inode f = ino \<longrightarrow> p = old"
  shows "\<exists>tailer' result. poll_paths env fs [path] (tailer, no_result) = (tailer', Inr result) \<and>
    requests_at env (the_file dev ino t) 0 (full_lines [] s) @ po_Requests result =
      requests_at env (the_file dev ino t) 0 (full_lines [] t) @ requests_at env (the_file dev' ino' u) 0 (full_lines [] u) \<and>
    malformed_in env (full_lines [] s) + po_Malformed result = malformed_in env (full_lines [] t) + malformed_in env (full_lines [] u) \<and>
    tl_cursors tailer' path = Some \<lparr>cu_Device = dev', cu_Inode = ino', cu_Offset = int (complete_len u)\<rparr>"
  using rotated_poll [OF assms, of no_result] requests_grown(1) [OF assms(6), of env "the_file dev ino t"] requests_grown(2) [OF assms(6), of env]
  by (simp add: no_result_def)

theorem rotation_continues_witness:
  "\<exists>tailer' result. poll_paths plain_npm
      [((''d'', ''a''), the_file 1 3 (sample_line @ [CHR 0x0A])), ((''d'', ''a.1''), the_file 1 2 (sample_line @ [CHR 0x0A] @ sample_line @ [CHR 0x0A]))]
      [(''d'', ''a'')] (NewTailer [''/d''] False\<lparr>tl_cursors := [(''d'', ''a'') \<mapsto> \<lparr>cu_Device = 1, cu_Inode = 2, cu_Offset = int (complete_len (sample_line @ [CHR 0x0A]))\<rparr>]\<rparr>,
        no_result) = (tailer', Inr result) \<and> length (po_Requests result) = 2"
proof -
  let ?l = "sample_line @ [CHR 0x0A]" let ?t = "sample_line @ [CHR 0x0A] @ sample_line @ [CHR 0x0A]"
  let ?fs = "[((''d'', ''a''), the_file 1 3 ?l), ((''d'', ''a.1''), the_file 1 2 ?t)]"
  let ?tailer = "NewTailer [''/d''] False\<lparr>tl_cursors := [(''d'', ''a'') \<mapsto> \<lparr>cu_Device = 1, cu_Inode = 2, cu_Offset = int (complete_len ?l)\<rparr>]\<rparr>"
  have ok: "reads_ok plain_npm (''d'', ''a'')" "reads_ok plain_npm (''d'', ''a.1'')" "nv_listDir plain_npm (fst (''d'', ''a''))" by (simp_all add: plain_npm_def)
  have "take (length ?l) ?t = ?l" by (metis append.assoc append_eq_conv_conj)
  note poll = rotation_continues [OF ok _ _ this, of ?tailer 1 2 ?fs 1 3 ?l]
  have "length (requests_at plain_npm (the_file 1 2 s) 0 (full_lines [] ?l)) = 1" "length (requests_at plain_npm (the_file 1 2 s) 0 (full_lines [] ?t)) = 2"
    "length (requests_at plain_npm (the_file 1 3 s) 0 (full_lines [] ?l)) = 1" for s by code_simp+
  moreover obtain tailer' result where "poll_paths plain_npm ?fs [(''d'', ''a'')] (?tailer, no_result) = (tailer', Inr result)"
    "requests_at plain_npm (the_file 1 2 ?t) 0 (full_lines [] ?l) @ po_Requests result =
      requests_at plain_npm (the_file 1 2 ?t) 0 (full_lines [] ?t) @ requests_at plain_npm (the_file 1 3 ?l) 0 (full_lines [] ?l)"
    using poll by (auto simp del: poll_paths.simps)
  moreover from this(2) have "length (requests_at plain_npm (the_file 1 2 ?t) 0 (full_lines [] ?l)) + length (po_Requests result) =
      length (requests_at plain_npm (the_file 1 2 ?t) 0 (full_lines [] ?t)) + length (requests_at plain_npm (the_file 1 3 ?l) 0 (full_lines [] ?l))"
    by (metis length_append)
  ultimately show ?thesis by auto
qed

text \<open>A poll that fails forgets what it had read: the cursors of the files before the failing one have moved on in memory, the requests
  are dropped with the error, and the next poll does not read those lines again.\<close>

theorem failed_poll_loses:
  assumes "pollPath env fs p (tailer, no_result) = Inr (tailer', result)" "\<not> nv_stat env q"
    "reads_ok env' p" "map_of fs p = Some f"
    "cu_Offset (the (tl_cursors tailer' p)) = int (complete_len (lf_Data f))" "cu_Device (the (tl_cursors tailer' p)) = lf_Device f"
    "cu_Inode (the (tl_cursors tailer' p)) = lf_Inode f" "tl_cursors tailer' p \<noteq> None"
  shows "poll_paths env fs [p, q] (tailer, no_result) = (tailer', Inl (StatFailed q)) \<and>
    poll_paths env' fs [p] (tailer', no_result) = (tailer', Inr no_result)"
proof -
  have "pollPath env fs q (tailer', result) = Inl (StatFailed q)" using assms(2) by (simp add: pollPath_def split: option.split)
  moreover have "full_lines [] (drop (complete_len (lf_Data f)) (lf_Data f)) = []"
    using full_lines_append [of "lf_Data f" "[]"] by simp
  then have "pollPath env' fs p (tailer', no_result) = Inr (tailer', no_result)"
    using assms(3-8) full_lines_append [of "lf_Data f" "[]"]
    by (cases "tl_cursors tailer' p") (auto simp: pollPath_def readRequests_def Let_def fun_upd_idem)
  ultimately show ?thesis using assms(1) by simp
qed

definition half_npm :: npm_env where
  "half_npm = plain_npm\<lparr>nv_stat := (\<lambda>p. p = (''d'', ''a''))\<rparr>"

theorem failed_poll_loses_witness:
  "\<exists>tailer' result. po_Requests result \<noteq> [] \<and>
     pollPath half_npm [((''d'', ''a''), the_file 1 2 (sample_line @ [CHR 0x0A]))] (''d'', ''a'') (NewTailer [''/d''] False, no_result) = Inr (tailer', result) \<and>
     poll_paths half_npm [((''d'', ''a''), the_file 1 2 (sample_line @ [CHR 0x0A]))] [(''d'', ''a''), (''d'', ''b'')]
       (NewTailer [''/d''] False, no_result) = (tailer', Inl (StatFailed (''d'', ''b''))) \<and>
     poll_paths plain_npm [((''d'', ''a''), the_file 1 2 (sample_line @ [CHR 0x0A]))] [(''d'', ''a'')] (tailer', no_result) = (tailer', Inr no_result)"
proof -
  let ?l = "sample_line @ [CHR 0x0A]" let ?fs = "[((''d'', ''a''), the_file 1 2 ?l)]"
  let ?tailer = "NewTailer [''/d''] False\<lparr>tl_cursors := [(''d'', ''a'') \<mapsto> \<lparr>cu_Device = 1, cu_Inode = 2, cu_Offset = int (complete_len ?l)\<rparr>]\<rparr>"
  let ?r = "no_result\<lparr>po_Requests := requests_at half_npm (the_file 1 2 ?l) 0 (full_lines [] ?l), po_Malformed := malformed_in half_npm (full_lines [] ?l)\<rparr>"
  have one: "poll_paths half_npm ?fs [(''d'', ''a'')] (NewTailer [''/d''] False, no_result) = (?tailer, Inr ?r)"
    using first_poll [of half_npm "(''d'', ''a'')" "NewTailer [''/d''] False" 1 2 ?l]
    by (simp add: half_npm_def plain_npm_def NewTailer_def del: poll_paths.simps)
  then have poll: "pollPath half_npm ?fs (''d'', ''a'') (NewTailer [''/d''] False, no_result) = Inr (?tailer, ?r)"
    by (auto split: sum.splits)
  have "requests_at half_npm (the_file 1 2 ?l) 0 (full_lines [] ?l) \<noteq> []" by code_simp
  then have some: "po_Requests ?r \<noteq> []" by simp
  have ok: "\<not> nv_stat half_npm (''d'', ''b'')" "reads_ok plain_npm (''d'', ''a'')" by (simp_all add: plain_npm_def half_npm_def)
  have found: "map_of ?fs (''d'', ''a'') = Some (the_file 1 2 ?l)"
    "cu_Offset (the (tl_cursors ?tailer (''d'', ''a''))) = int (complete_len (lf_Data (the_file 1 2 ?l)))"
    "cu_Device (the (tl_cursors ?tailer (''d'', ''a''))) = lf_Device (the_file 1 2 ?l)"
    "cu_Inode (the (tl_cursors ?tailer (''d'', ''a''))) = lf_Inode (the_file 1 2 ?l)" "tl_cursors ?tailer (''d'', ''a'') \<noteq> None" by simp_all
  show ?thesis using failed_poll_loses [OF poll ok found] poll some by blast
qed

subsection \<open>Lines and requests\<close>

text \<open>The parts of a line of the log.\<close>

record log_line =
  ll_time :: string
  ll_upstream_status :: string
  ll_status :: string
  ll_method :: string
  ll_scheme :: string
  ll_host :: string
  ll_request :: string
  ll_client :: string
  ll_len :: nat
  ll_gzip :: string
  ll_upstream :: string

definition format_line :: "log_line \<Rightarrow> string" where
  "format_line l =
     ''['' @ ll_time l @ ''] - '' @ ll_upstream_status l @ '' '' @ ll_status l @ '' - '' @ ll_method l @ '' '' @ ll_scheme l @ '' '' @ ll_host l @ '' '' @
     [CHR 0x22] @ ll_request l @ [CHR 0x22] @ '' [Client '' @ ll_client l @ ''] [Length '' @ itoa (ll_len l) @ ''] [Gzip '' @ ll_gzip l @ ''] [Sent-to '' @
     ll_upstream l @ '']''"

lemma field_append: "c \<notin> set a \<Longrightarrow> a \<noteq> [] \<Longrightarrow> field c (a @ c # b) = Some (a, b)"
  by (simp add: field_def cut_at_append)

lemma expect_append: "expect p (p @ s) = Some s"
  by (simp add: expect_def)

lemma closing_quote_append:
  "CHR 0x22 \<notin> set request \<Longrightarrow> request \<noteq> [] \<longrightarrow> last request \<noteq> CHR 0x5C \<Longrightarrow> \<not> (request = [] \<and> escaped) \<Longrightarrow>
    closing_quote escaped (request @ CHR 0x22 # s) = access_tail s"
proof (induction request arbitrary: escaped)
  case (Cons c cs)
  then show ?case by (cases cs) auto
qed simp

definition status_text :: "string \<Rightarrow> bool" where
  "status_text s \<longleftrightarrow> s = ''-'' \<or> length s = 3 \<and> list_all is_digit s"

lemma status3_append: "status_text s \<Longrightarrow> status3 (s @ t) = Some (s, t)"
proof -
  assume s: "status_text s"
  show ?thesis
  proof (cases "s = ''-''")
    case False
    then have "length s = 3" "list_all is_digit s" using s by (simp_all add: status_text_def)
    then show ?thesis by (cases s) (auto simp: status3_def is_digit_def)
  qed (simp add: status3_def)
qed

lemma Atoi_itoa: "int n < 2 ^ 63 \<Longrightarrow> Atoi (itoa n) = Some (int n)"
proof -
  assume n: "int n < 2 ^ 63"
  have "take 1 (itoa n) \<noteq> ''-''" "take 1 (itoa n) \<noteq> ''+''"
    using itoa_digits [of "CHR ''-''" n] itoa_digits [of "CHR ''+''" n] itoa_nonempty [of n] by (cases "itoa n"; auto simp: is_digit_def)+
  then show ?thesis using n itoa_digits by (auto simp: Atoi_def Let_def decimal_itoa itoa_nonempty list_all_iff)
qed

lemma digit_value_le: "is_digit c \<Longrightarrow> digit_value c \<le> 9"
  unfolding digit_value_def is_digit_def by linarith

lemma Atoi_status: "status_text s \<Longrightarrow> s \<noteq> ''-'' \<Longrightarrow> Atoi s = Some (int (decimal_value s))"
proof -
  assume "status_text s" "s \<noteq> ''-''"
  then obtain a b c where s: "s = [a, b, c]" "is_digit a" "is_digit b" "is_digit c" by (auto simp: status_text_def length_Suc_conv numeral_eq_Suc)
  then have "digit_value a \<le> 9" "digit_value b \<le> 9" "digit_value c \<le> 9" by (simp_all add: digit_value_le)
  then have "decimal_value s \<le> 999" by (simp add: decimal_value_def s(1))
  moreover have "take 1 s \<notin> {''-'', ''+''}" using s by (auto simp: is_digit_def)
  ultimately show ?thesis using s by (simp add: Atoi_def Let_def)
qed

lemma access_tail_format:
  assumes "CHR '']'' \<notin> set client" "client \<noteq> []" "CHR '']'' \<notin> set gzip" "CHR '']'' \<notin> set upstream" "upstream \<noteq> []"
  shows "access_tail ('' [Client '' @ client @ ''] [Length '' @ itoa len @ ''] [Gzip '' @ gzip @ ''] [Sent-to '' @ upstream @ '']'') =
    Some (client, itoa len, upstream)"
proof -
  have digits: "list_all is_digit (itoa len)" "CHR '']'' \<notin> set (itoa len)" using itoa_digits [of "CHR '']''" len] itoa_digits by (auto simp: list_all_iff is_digit_def)
  have eq: "'' [Client '' @ client @ ''] [Length '' @ itoa len @ ''] [Gzip '' @ gzip @ ''] [Sent-to '' @ upstream @ '']'' =
      '' [Client '' @ client @ CHR '']'' # '' [Length '' @ itoa len @ CHR '']'' # '' [Gzip '' @ gzip @ CHR '']'' # '' [Sent-to '' @ upstream @ CHR '']'' # []"
    by simp
  show ?thesis
    unfolding eq using assms digits itoa_nonempty [of len]
    by (simp add: access_tail_def expect_append field_append cut_at_append del: append.simps)
qed

text \<open>What the parts look like.\<close>

definition line_parts :: "log_line \<Rightarrow> bool" where
  "line_parts l \<longleftrightarrow>
     CHR '']'' \<notin> set (ll_time l) \<and> ll_time l \<noteq> [] \<and> status_text (ll_upstream_status l) \<and> status_text (ll_status l) \<and>
     list_all is_upper (ll_method l) \<and> ll_method l \<noteq> [] \<and> CHR '' '' \<notin> set (ll_scheme l) \<and> ll_scheme l \<noteq> [] \<and>
     CHR '' '' \<notin> set (ll_host l) \<and> ll_host l \<noteq> [] \<and> CHR 0x22 \<notin> set (ll_request l) \<and> (ll_request l \<noteq> [] \<longrightarrow> last (ll_request l) \<noteq> CHR 0x5C) \<and>
     CHR '']'' \<notin> set (ll_client l) \<and> ll_client l \<noteq> [] \<and> CHR '']'' \<notin> set (ll_gzip l) \<and> CHR '']'' \<notin> set (ll_upstream l) \<and> ll_upstream l \<noteq> []"

lemma accessLine_format:
  assumes "line_parts l"
  shows "accessLine (format_line l) = Some \<lparr>am_time = ll_time l, am_status = [ll_upstream_status l, ll_status l], am_method = ll_method l,
    am_host = ll_host l, am_client = ll_client l, am_length = itoa (ll_len l), am_upstream = ll_upstream l\<rparr>"
proof (cases l)
  case (fields time upstream_status status verb scheme host request client len gzip upstream)
  note parts = assms [unfolded line_parts_def fields log_line.simps]
  have spaceless: "CHR '' '' \<notin> set verb" using parts by (auto simp: list_all_iff is_upper_def)
  have quote: "closing_quote False (request @ CHR 0x22 # s) = access_tail s" for s using parts by (intro closing_quote_append) auto
  have tail: "access_tail ('' [Client '' @ client @ ''] [Length '' @ itoa len @ ''] [Gzip '' @ gzip @ ''] [Sent-to '' @ upstream @ '']'') =
      Some (client, itoa len, upstream)" using parts by (intro access_tail_format) auto
  let ?tail = "'' [Client '' @ client @ ''] [Length '' @ itoa len @ ''] [Gzip '' @ gzip @ ''] [Sent-to '' @ upstream @ '']''"
  define rest where "rest = ?tail"
  have "format_line l =
      ''['' @ time @ CHR '']'' # '' - '' @ upstream_status @ '' '' @ status @ '' - '' @ verb @ CHR '' '' # scheme @ CHR '' '' # host @ CHR '' '' #
        [CHR 0x22] @ request @ CHR 0x22 # rest" by (simp add: format_line_def rest_def fields)
  moreover have "access_tail rest = Some (client, itoa len, upstream)" using tail by (simp add: rest_def)
  ultimately show ?thesis
    unfolding accessLine_def
    using parts spaceless quote
    by (simp add: fields expect_append field_append status3_append del: append.simps)
qed

text \<open>A line as the proxy writes it is read back: the first of the two statuses that is not a dash, the time, host, method, client, length
  and upstream, whatever the scheme, the request line and the compression are.\<close>

theorem line_roundtrip:
  assumes "line_parts l" "parseTime (ll_time l) = Some t" "ParseAddr (ll_client l) = Some a" "ll_len l < 2 ^ 63"
    "(ll_upstream_status l, ll_status l) \<noteq> (''-'', ''-'')"
  shows "ParseLine parseTime lower (format_line l) =
    Inr \<lparr>pq_ObservedAt = t, pq_Request = \<lparr>pr_Host = lower (TrimSuffix (ll_host l) ''.''), pr_SourceIP = ll_client l, pr_Method = ll_method l,
        pr_Status = int (decimal_value (if ll_upstream_status l \<noteq> ''-'' then ll_upstream_status l else ll_status l)),
        pr_BytesSent = of_nat (ll_len l), pr_Upstream = ll_upstream l, pr_DurationMS = 0\<rparr>, pq_SourceID = []\<rparr>"
proof -
  have st: "status_text (ll_upstream_status l)" "status_text (ll_status l)" using assms(1) by (simp_all add: line_parts_def)
  have "Atoi (itoa (ll_len l)) = Some (int (ll_len l))" by (rule Atoi_itoa) (use assms(4) in simp)
  moreover have "first_status [ll_upstream_status l, ll_status l] =
      Some (int (decimal_value (if ll_upstream_status l \<noteq> ''-'' then ll_upstream_status l else ll_status l)))"
    using st assms(5) Atoi_status [of "ll_upstream_status l"] Atoi_status [of "ll_status l"] by (auto simp: first_status_def)
  ultimately show ?thesis using assms(2,3) by (simp add: ParseLine_def accessLine_format [OF assms(1)])
qed

definition sample_log :: "string \<Rightarrow> log_line" where
  "sample_log status = \<lparr>ll_time = ''now'', ll_upstream_status = ''-'', ll_status = status, ll_method = ''GET'', ll_scheme = ''https'',
     ll_host = ''app.example.test.'', ll_request = ''/x'', ll_client = ''203.0.113.9'', ll_len = 512, ll_gzip = ''-'', ll_upstream = ''10.0.0.4''\<rparr>"

lemma sample_log_parts: "status_text status \<Longrightarrow> line_parts (sample_log status)"
  by (simp add: line_parts_def sample_log_def status_text_def is_upper_def)

theorem line_roundtrip_witness:
  "ParseLine (\<lambda>s. Some 7) id (format_line (sample_log ''404'')) =
    Inr \<lparr>pq_ObservedAt = 7, pq_Request = \<lparr>pr_Host = ''app.example.test'', pr_SourceIP = ''203.0.113.9'', pr_Method = ''GET'', pr_Status = 404,
      pr_BytesSent = 512, pr_Upstream = ''10.0.0.4'', pr_DurationMS = 0\<rparr>, pq_SourceID = []\<rparr>"
proof -
  have addr: "ParseAddr ''203.0.113.9'' = Some (Addr4 [203, 0, 113, 9])" by code_simp
  have parts: "line_parts (sample_log ''404'')" by (rule sample_log_parts) (simp add: status_text_def is_digit_def)
  show ?thesis
    using line_roundtrip [OF parts, where parseTime = "\<lambda>s. Some 7" and t = 7 and lower = id] addr
    by (simp add: sample_log_def TrimSuffix_def decimal_value_def digit_value_def)
qed

subsection \<open>Requests the server refuses\<close>

lemma expect_Some: "expect p s = Some t \<Longrightarrow> s = p @ t"
  by (metis append_take_drop_id expect_def option.distinct(1) option.sel)

lemma field_nonempty: "field c s = Some (a, b) \<Longrightarrow> a \<noteq> []"
  by (auto simp: field_def split: option.splits if_splits)

lemma access_tail_nonempty: "access_tail s = Some (client, len, upstream) \<Longrightarrow> upstream \<noteq> []"
  by (auto simp: access_tail_def bind_eq_Some_conv dest: field_nonempty split: if_splits)

lemma closing_quote_nonempty: "closing_quote escaped s = Some (client, len, upstream) \<Longrightarrow> upstream \<noteq> []"
  by (induction escaped s rule: closing_quote.induct) (auto dest: access_tail_nonempty split: if_splits option.splits)

lemma accessLine_nonempty:
  assumes "accessLine s = Some m"
  shows "am_method m \<noteq> []" "am_host m \<noteq> []" "am_upstream m \<noteq> []"
  using assms by (auto simp: accessLine_def bind_eq_Some_conv dest: field_nonempty closing_quote_nonempty split: if_splits)

lemma Atoi_range: "Atoi s = Some v \<Longrightarrow> - (2 ^ 63) \<le> v \<and> v < 2 ^ 63"
  by (auto simp: Atoi_def Let_def split: if_splits)

lemma parsed_valid:
  assumes "ParseLine parseTime lower line = Inr p"
  shows "valid_proxy (pq_Request p) \<longleftrightarrow> pr_Status (pq_Request p) \<in> {100..599} \<and> pr_Host (pq_Request p) \<noteq> []"
proof -
  obtain m bytesSent where m: "accessLine line = Some m" "ParseAddr (am_client m) \<noteq> None" "Atoi (am_length m) = Some bytesSent" "0 \<le> bytesSent"
    "pr_SourceIP (pq_Request p) = am_client m" "pr_Method (pq_Request p) = am_method m" "pr_BytesSent (pq_Request p) = word_of_int bytesSent"
    "pr_Upstream (pq_Request p) = am_upstream m" "pr_DurationMS (pq_Request p) = 0"
    using assms by (auto simp: ParseLine_def split: option.splits if_splits)
  have "sint (word_of_int bytesSent :: 64 word) = bytesSent" using Atoi_range [OF m(3)] by (simp add: signed_of_int signed_take_bit_int_eq_self)
  then show ?thesis using m accessLine_nonempty [OF m(1)] by (auto simp: valid_proxy_def)
qed

text \<open>The parser lets through what the rest of the agent refuses: a request is valid exactly when its status is between 100 and 599 and
  its host is not just a dot, which the parser does not check; a batch with one invalid request is not queued at all, so one such
  line (a status 000, say) costs every other request of the same poll.\<close>

theorem invalid_request_poisons:
  assumes "ParseLine parseTime lower line = Inr p"
  shows "(valid_proxy (pq_Request p) \<longleftrightarrow> pr_Status (pq_Request p) \<in> {100..599} \<and> pr_Host (pq_Request p) \<noteq> []) \<and>
    (\<not> valid_proxy (pq_Request p) \<longrightarrow> proxy_event digest rfc3339 (p\<lparr>pq_SourceID := sid\<rparr>) \<in> set (ba_Events batch) \<longrightarrow>
      (\<exists>e. Enqueue env s d batch = (d, Inl (QueuedInvalid e))))"
proof -
  have "\<not> valid_event (proxy_event digest rfc3339 (p\<lparr>pq_SourceID := sid\<rparr>))" if "\<not> valid_proxy (pq_Request p)"
    using that by (simp add: valid_event_def valid_payload_def proxy_event_def Let_def)
  then have "Validate batch \<noteq> None" if "\<not> valid_proxy (pq_Request p)" "proxy_event digest rfc3339 (p\<lparr>pq_SourceID := sid\<rparr>) \<in> set (ba_Events batch)"
    using that by (auto simp: Validate_iff valid_batch_def list_all_iff)
  then show ?thesis using parsed_valid [OF assms] by (auto simp: Enqueue_def)
qed

definition sample_spool_env :: spool_env where
  "sample_spool_env = \<lparr>env_now = 9, env_encode = (\<lambda>b. []), env_decode = (\<lambda>bs. None), env_sha = (\<lambda>n s. s), env_float = id, env_fails = (\<lambda>op. False)\<rparr>"

theorem invalid_request_poisons_witness:
  "\<exists>p. ParseLine (\<lambda>s. Some 7) id (format_line (sample_log ''000'')) = Inr p \<and> pr_Status (pq_Request p) = 0 \<and>
     (\<forall>s d. \<exists>e. Enqueue sample_spool_env s d (\<lparr>ba_SchemaVersion = 1, ba_BatchID = ''b'', ba_NodeID = ''n'', ba_SentAt = 9,
         ba_Events = [proxy_event id (\<lambda>t. ''t'') (p\<lparr>pq_SourceID := ''1:2:3''\<rparr>)], ba_CompactedBatchIDs = []\<rparr>) = (d, Inl (QueuedInvalid e)))"
proof -
  have parts: "line_parts (sample_log ''000'')" by (rule sample_log_parts) (simp add: status_text_def is_digit_def)
  have "Option.is_none (ParseAddr ''203.0.113.9'') = False" by code_simp
  then obtain a where "ParseAddr ''203.0.113.9'' = Some a" by (cases "ParseAddr ''203.0.113.9''") auto
  moreover have "Atoi (itoa 512) = Some (int 512)" by (rule Atoi_itoa) simp
  ultimately obtain p where p: "ParseLine (\<lambda>s. Some 7) id (format_line (sample_log ''000'')) = Inr p" "pr_Status (pq_Request p) = 0"
    using Atoi_status [of "''000''"]
    by (simp add: ParseLine_def accessLine_format [OF parts, unfolded sample_log_def] sample_log_def first_status_def status_text_def is_digit_def
      decimal_value_def digit_value_def)
  have "\<not> valid_proxy (pq_Request p)" using p(2) by (simp add: valid_proxy_def)
  with invalid_request_poisons [OF p(1), of id "\<lambda>t. ''t''" "''1:2:3''"] p show ?thesis by force
qed

subsection \<open>Recovery\<close>

text \<open>The health reports over a sequence of polls: one when the collector is first seen well and one after every stretch of trouble.\<close>

abbreviation troubled :: "npm_error + PollResult \<Rightarrow> bool" where
  "troubled polled \<equiv> (case polled of Inl e \<Rightarrow> True | Inr result \<Rightarrow> 0 < po_Malformed result \<or> po_Truncated result)"

fun recoveries :: "(string \<Rightarrow> string) \<Rightarrow> RecoveryTracker \<Rightarrow> (npm_error + PollResult) list \<Rightarrow> go_time \<Rightarrow> bool list" where
  "recoveries digest tracker [] t = []"
| "recoveries digest tracker (p # ps) t =
     (case Observe_recovery digest p t tracker of (tracker, e) \<Rightarrow> (e \<noteq> None) # recoveries digest tracker ps t)"

text \<open>The agent reports the recovery of its proxy logs exactly once per recovery: at a clean poll that is the first one or follows one that
  failed, found malformed lines or a truncated file, and at no other.\<close>

theorem recovery_transitions:
  "recoveries digest \<lparr>rt_reportedHealthy = False, rt_needsRecovery = False\<rparr> (p # ps) t =
     (\<not> troubled p) # map2 (\<lambda>previous current. troubled previous \<and> \<not> troubled current) (p # ps) ps"
proof -
  have "recoveries digest \<lparr>rt_reportedHealthy = seen, rt_needsRecovery = bad\<rparr> (p # ps) t =
     (\<not> troubled p \<and> (\<not> seen \<or> bad)) # map2 (\<lambda>previous current. troubled previous \<and> \<not> troubled current) (p # ps) ps" for seen bad
  proof (induction ps arbitrary: p seen bad)
    case Nil
    then show ?case by (auto simp: Observe_recovery_def)
  next
    case (Cons q qs)
    let ?seen = "seen \<or> \<not> troubled p" let ?bad = "troubled p"
    have observe: "Observe_recovery digest p t \<lparr>rt_reportedHealthy = seen, rt_needsRecovery = bad\<rparr> =
        (\<lparr>rt_reportedHealthy = ?seen, rt_needsRecovery = ?bad\<rparr>, if \<not> troubled p \<and> (\<not> seen \<or> bad) then Some (CollectorHealthyEvent digest t) else None)"
      by (auto simp: Observe_recovery_def)
    have "recoveries digest \<lparr>rt_reportedHealthy = seen, rt_needsRecovery = bad\<rparr> (p # q # qs) t =
        (\<not> troubled p \<and> (\<not> seen \<or> bad)) # recoveries digest \<lparr>rt_reportedHealthy = ?seen, rt_needsRecovery = ?bad\<rparr> (q # qs) t"
      by (subst recoveries.simps) (simp only: observe prod.case, simp)
    also have "recoveries digest \<lparr>rt_reportedHealthy = ?seen, rt_needsRecovery = ?bad\<rparr> (q # qs) t =
        (\<not> troubled q \<and> (\<not> ?seen \<or> ?bad)) # map2 (\<lambda>previous current. troubled previous \<and> \<not> troubled current) (q # qs) qs"
      by (rule Cons)
    finally show ?case by (simp del: recoveries.simps) blast
  qed
  then show ?thesis by simp
qed

end
