(* ===== verification/Alerts.thy ===== *)
theory Alerts
  imports Model Go_Text
begin

text \<open>
  The alerts of the server, \<^verbatim>\<open>internal/server/alerts\<close>: the evaluation of a rule on an observation (\<^verbatim>\<open>evaluator.go\<close>, \<^verbatim>\<open>model.go\<close>), the
  life of an alert (\<^verbatim>\<open>store.go\<close>), its reconciliation with the database (\<^verbatim>\<open>repository.go\<close>) and the loop over rules and
  nodes (\<^verbatim>\<open>runner.go\<close>). The rows of alerts and webhook deliveries are lists with serial identifiers; any statement may
  fail, which ends the transaction without effect. SHA-256, the JSON encoder and the multiplication of floating-point
  numbers are parameters, as are the queries that produce observations.
\<close>

subsection \<open>Rules and observations\<close>

definition KindAbsoluteRate :: string where "KindAbsoluteRate = ''absolute_rate''"
definition KindOwnerBaseline :: string where "KindOwnerBaseline = ''owner_baseline''"
definition KindNewDestination :: string where "KindNewDestination = ''new_destination''"
definition KindDomainCoverage :: string where "KindDomainCoverage = ''domain_coverage''"
definition KindAgentStale :: string where "KindAgentStale = ''agent_stale''"
definition KindCollectorUnhealthy :: string where "KindCollectorUnhealthy = ''collector_unhealthy''"
definition KindBufferPressure :: string where "KindBufferPressure = ''buffer_pressure''"
definition KindDatabasePressure :: string where "KindDatabasePressure = ''database_pressure''"
definition KindWebhookFailures :: string where "KindWebhookFailures = ''webhook_failures''"

definition SeverityInfo :: string where "SeverityInfo = ''info''"
definition SeverityWarning :: string where "SeverityWarning = ''warning''"
definition SeverityCritical :: string where "SeverityCritical = ''critical''"

lemmas severity_defs = SeverityInfo_def SeverityWarning_def SeverityCritical_def

record Rule =
  ru_ID :: string
  ru_Kind :: string
  ru_Name :: string
  ru_Enabled :: bool
  ru_Severity :: string
  ru_Threshold :: float64
  ru_Multiplier :: float64
  ru_WindowSeconds :: int

record RuleObservation =
  ob_NodeID :: string
  ob_RateBPS :: float64
  ob_OwnerID :: string
  ob_OwnerBytes :: float64
  ob_OwnerBaselineBytes :: float64
  ob_Destination :: string
  ob_DestinationIsNew :: bool
  ob_DomainCoverage :: float64
  ob_AgentAgeSeconds :: float64
  ob_Collector :: string
  ob_CollectorHealthy :: bool
  ob_BufferUsagePercent :: float64
  ob_DatabaseUsagePercent :: float64
  ob_WebhookTerminalFailures :: float64

type_synonym evidence = "(string \<times> string) list"

record Finding =
  fd_RuleID :: string
  fd_Fingerprint :: string
  fd_Title :: string
  fd_Severity :: string
  fd_NodeID :: string
  fd_OwnerID :: "string option"
  fd_StartedAt :: go_time
  fd_ObservedValue :: float64
  fd_ComparisonValue :: "float64 option"
  fd_WindowSeconds :: int
  fd_Evidence :: evidence

subsection \<open>Evaluating a rule\<close>

definition boolNumber :: "bool \<Rightarrow> float64" where
  "boolNumber b = (if b then Fin 1 else Fin 0)"

definition rule_values :: "(float64 \<Rightarrow> float64 \<Rightarrow> float64) \<Rightarrow> Rule \<Rightarrow> RuleObservation \<Rightarrow> float64 \<times> float64 \<times> bool" where
  "rule_values mul rule ob =
     (let k = ru_Kind rule; limit = ru_Threshold rule in
      if k = KindAbsoluteRate then (ob_RateBPS ob, limit, float_less limit (ob_RateBPS ob))
      else if k = KindOwnerBaseline then
        (let comparison = mul (ob_OwnerBaselineBytes ob) (ru_Multiplier rule) in
         (ob_OwnerBytes ob, comparison, float_less (Fin 0) (ob_OwnerBaselineBytes ob) \<and> float_less comparison (ob_OwnerBytes ob)))
      else if k = KindNewDestination then (boolNumber (ob_DestinationIsNew ob), Fin 0, ob_DestinationIsNew ob)
      else if k = KindDomainCoverage then (ob_DomainCoverage ob, limit, float_less (ob_DomainCoverage ob) limit)
      else if k = KindAgentStale then (ob_AgentAgeSeconds ob, limit, float_less limit (ob_AgentAgeSeconds ob))
      else if k = KindCollectorUnhealthy then (boolNumber (\<not> ob_CollectorHealthy ob), Fin 0, \<not> ob_CollectorHealthy ob)
      else if k = KindBufferPressure then (ob_BufferUsagePercent ob, limit, float_less limit (ob_BufferUsagePercent ob))
      else if k = KindDatabasePressure then (ob_DatabaseUsagePercent ob, limit, float_less limit (ob_DatabaseUsagePercent ob))
      else if k = KindWebhookFailures then (ob_WebhookTerminalFailures ob, limit, float_le limit (ob_WebhookTerminalFailures ob))
      else (Fin 0, Fin 0, False))"

text \<open>What is hashed: every part behind its length, so that the parts can be told apart.\<close>

definition fingerprint_input :: "string list \<Rightarrow> string" where
  "fingerprint_input parts = concat (map (\<lambda>part. itoa (length part) @ '':'' @ part) parts)"

definition Fingerprint :: "(string \<Rightarrow> string) \<Rightarrow> string list \<Rightarrow> string" where
  "Fingerprint sha parts = sha (fingerprint_input parts)"

definition finding_evidence :: "Rule \<Rightarrow> RuleObservation \<Rightarrow> evidence" where
  "finding_evidence rule ob =
     [(''kind'', ru_Kind rule), (''node_id'', ob_NodeID ob)] @
     (if ob_OwnerID ob \<noteq> [] then [(''owner_id'', ob_OwnerID ob)] else []) @
     (if ob_Destination ob \<noteq> [] then [(''destination'', ob_Destination ob)] else []) @
     (if ob_Collector ob \<noteq> [] then [(''collector'', ob_Collector ob)] else [])"

definition EvaluateRule :: "(string \<Rightarrow> string) \<Rightarrow> (float64 \<Rightarrow> float64 \<Rightarrow> float64) \<Rightarrow> Rule \<Rightarrow> RuleObservation \<Rightarrow> go_time \<Rightarrow> Finding list" where
  "EvaluateRule sha mul rule ob now =
     (if \<not> ru_Enabled rule \<or> ob_NodeID ob = [] then []
      else case rule_values mul rule ob of
        (observed, comparison, triggered) \<Rightarrow>
          (if \<not> triggered then []
           else [\<lparr>fd_RuleID = ru_ID rule,
             fd_Fingerprint = Fingerprint sha [ru_ID rule, ob_NodeID ob, ob_OwnerID ob, ob_Destination ob, ob_Collector ob],
             fd_Title = ru_Name rule, fd_Severity = ru_Severity rule, fd_NodeID = ob_NodeID ob,
             fd_OwnerID = (if ob_OwnerID ob \<noteq> [] then Some (ob_OwnerID ob) else None), fd_StartedAt = now,
             fd_ObservedValue = observed, fd_ComparisonValue = Some comparison,
             fd_WindowSeconds = (if ru_WindowSeconds rule \<le> 0 then 300 else ru_WindowSeconds rule),
             fd_Evidence = finding_evidence rule ob\<rparr>]))"

subsection \<open>The life of an alert\<close>

definition StatusOpen :: string where "StatusOpen = ''open''"
definition StatusResolved :: string where "StatusResolved = ''resolved''"

lemmas status_defs = StatusOpen_def StatusResolved_def

record AlertState =
  as_Status :: string
  as_Severity :: string
  as_OccurrenceCount :: int
  as_MissingWindows :: int
  as_FirstSeenAt :: go_time
  as_LastSeenAt :: go_time
  as_ResolvedAt :: "go_time option"

definition severityRank :: "string \<Rightarrow> nat" where
  "severityRank s = (if s = SeverityCritical then 3 else if s = SeverityWarning then 2 else if s = SeverityInfo then 1 else 0)"

definition ApplyFinding :: "AlertState option \<Rightarrow> Finding \<Rightarrow> go_time \<Rightarrow> AlertState \<times> bool" where
  "ApplyFinding current finding now =
     (case current of
        Some st \<Rightarrow>
          (if as_Status st = StatusOpen then
             (let notify = severityRank (as_Severity st) < severityRank (fd_Severity finding) in
              (st\<lparr>as_Severity := if notify then fd_Severity finding else as_Severity st,
                  as_OccurrenceCount := as_OccurrenceCount st + 1, as_MissingWindows := 0, as_LastSeenAt := now,
                  as_ResolvedAt := None\<rparr>, notify))
           else (\<lparr>as_Status = StatusOpen, as_Severity = fd_Severity finding, as_OccurrenceCount = 1, as_MissingWindows = 0,
                  as_FirstSeenAt = now, as_LastSeenAt = now, as_ResolvedAt = None\<rparr>, True))
      | None \<Rightarrow> (\<lparr>as_Status = StatusOpen, as_Severity = fd_Severity finding, as_OccurrenceCount = 1, as_MissingWindows = 0,
                  as_FirstSeenAt = now, as_LastSeenAt = now, as_ResolvedAt = None\<rparr>, True))"

definition ApplyMissing :: "AlertState \<Rightarrow> go_time \<Rightarrow> AlertState \<times> bool" where
  "ApplyMissing st now =
     (if as_Status st \<noteq> StatusOpen then (st, False)
      else
        (let st' = st\<lparr>as_MissingWindows := as_MissingWindows st + 1\<rparr> in
         if as_MissingWindows st' < 2 then (st', False)
         else (st'\<lparr>as_Status := StatusResolved, as_ResolvedAt := Some now\<rparr>, True)))"

subsection \<open>The tables\<close>

record alert_row =
  al_id :: nat
  al_rule :: string
  al_fingerprint :: string
  al_node :: string
  al_owner :: "string option"
  al_title :: string
  al_evidence :: evidence
  al_observed :: float64
  al_comparison :: "float64 option"
  al_window :: int
  al_state :: AlertState

datatype delivery_status = Pending | Leased | Delivered | Terminal | Cancelled

record delivery_row =
  dv_id :: nat
  dv_alert :: "nat option"
  dv_event :: string
  dv_payload :: "string option"
  dv_status :: delivery_status
  dv_attempt :: nat
  dv_next :: go_time
  dv_owner :: "string option"
  dv_expires :: "go_time option"
  dv_response :: "int option"
  dv_excerpt :: string
  dv_error :: string
  dv_created :: go_time
  dv_delivered :: "go_time option"

record ops_db =
  alert_rules :: "(string \<times> Rule) list"
  alerts :: "alert_row list"
  next_alert :: nat
  deliveries :: "delivery_row list"
  next_delivery :: nat

subsection \<open>Reconciliation\<close>

datatype alert_op =
    BeginAlerts | UpsertRule | LockRule | LoadOpen string | OpenAlert string | UpdateAlert string | QueueDelivery string
  | LoadMissing | ResolveAlert nat | MarkMissing nat | CommitAlerts

datatype alert_error =
    StatementFailed alert_op
  | ForeignFinding
  | EvidenceKey
  | EvidenceSize

definition statement :: "(alert_op \<Rightarrow> bool) \<Rightarrow> alert_op \<Rightarrow> 'a \<Rightarrow> alert_error + 'a" where
  "statement fails op x = (if fails op then Inl (StatementFailed op) else Inr x)"

definition ValidateEvidence :: "(evidence \<Rightarrow> bytes) \<Rightarrow> evidence \<Rightarrow> alert_error option" where
  "ValidateEvidence encode evidence =
     (if \<not> list_all (\<lambda>(key, v). key \<in> {''kind'', ''node_id'', ''owner_id'', ''destination'', ''collector''}) evidence then Some EvidenceKey
      else if 16 * 2 ^ 10 < length (encode evidence) then Some EvidenceSize
      else None)"

definition insertDelivery :: "(alert_op \<Rightarrow> bool) \<Rightarrow> nat \<Rightarrow> string \<Rightarrow> go_time \<Rightarrow> ops_db \<Rightarrow> alert_error + ops_db" where
  "insertDelivery fails alertID eventType now db =
     statement fails (QueueDelivery eventType)
       (db\<lparr>deliveries := deliveries db @ [\<lparr>dv_id = next_delivery db, dv_alert = Some alertID, dv_event = eventType, dv_payload = None,
            dv_status = Pending, dv_attempt = 0, dv_next = now, dv_owner = None, dv_expires = None, dv_response = None,
            dv_excerpt = [], dv_error = [], dv_created = now, dv_delivered = None\<rparr>],
           next_delivery := Suc (next_delivery db)\<rparr>)"

abbreviation is_open :: "alert_row \<Rightarrow> bool" where
  "is_open row \<equiv> as_Status (al_state row) = StatusOpen"

definition open_alert :: "ops_db \<Rightarrow> string \<Rightarrow> alert_row option" where
  "open_alert db fingerprint = find (\<lambda>row. al_fingerprint row = fingerprint \<and> is_open row) (alerts db)"

definition update_row :: "nat \<Rightarrow> (alert_row \<Rightarrow> alert_row) \<Rightarrow> alert_row list \<Rightarrow> alert_row list" where
  "update_row i f rows = map (\<lambda>row. if al_id row = i then f row else row) rows"

definition new_alert :: "ops_db \<Rightarrow> Finding \<Rightarrow> go_time \<Rightarrow> alert_row" where
  "new_alert db fd now = \<lparr>al_id = next_alert db, al_rule = fd_RuleID fd, al_fingerprint = fd_Fingerprint fd, al_node = fd_NodeID fd,
     al_owner = fd_OwnerID fd, al_title = fd_Title fd, al_evidence = fd_Evidence fd, al_observed = fd_ObservedValue fd,
     al_comparison = fd_ComparisonValue fd, al_window = fd_WindowSeconds fd,
     al_state = \<lparr>as_Status = StatusOpen, as_Severity = fd_Severity fd, as_OccurrenceCount = 1, as_MissingWindows = 0,
       as_FirstSeenAt = now, as_LastSeenAt = now, as_ResolvedAt = None\<rparr>\<rparr>"

definition refresh_alert :: "Finding \<Rightarrow> AlertState \<Rightarrow> alert_row \<Rightarrow> alert_row" where
  "refresh_alert fd next_state row = row\<lparr>al_title := fd_Title fd, al_evidence := fd_Evidence fd, al_observed := fd_ObservedValue fd,
     al_comparison := fd_ComparisonValue fd, al_window := fd_WindowSeconds fd,
     al_state := (al_state row)\<lparr>as_Severity := as_Severity next_state, as_LastSeenAt := as_LastSeenAt next_state,
       as_OccurrenceCount := as_OccurrenceCount next_state, as_MissingWindows := 0\<rparr>\<rparr>"

definition apply_finding_row :: "(alert_op \<Rightarrow> bool) \<Rightarrow> Finding \<Rightarrow> go_time \<Rightarrow> ops_db \<Rightarrow> alert_error + ops_db" where
  "apply_finding_row fails fd now db =
     andThen (statement fails (LoadOpen (fd_Fingerprint fd)) (open_alert db (fd_Fingerprint fd))) (\<lambda>current.
       case current of
         None \<Rightarrow>
           andThen (statement fails (OpenAlert (fd_Fingerprint fd))
               (db\<lparr>alerts := alerts db @ [new_alert db fd now], next_alert := Suc (next_alert db)\<rparr>))
             (insertDelivery fails (next_alert db) ''opened'' now)
       | Some row \<Rightarrow>
           (case ApplyFinding (Some (al_state row)) fd now of
              (next_state, notify) \<Rightarrow>
                andThen (statement fails (UpdateAlert (fd_Fingerprint fd))
                    (db\<lparr>alerts := update_row (al_id row) (refresh_alert fd next_state) (alerts db)\<rparr>)) (\<lambda>db'.
                  if notify then insertDelivery fails (al_id row) ''severity_increased'' now db' else Inr db')))"

fun apply_findings :: "(alert_op \<Rightarrow> bool) \<Rightarrow> (evidence \<Rightarrow> bytes) \<Rightarrow> Rule \<Rightarrow> string \<Rightarrow> go_time \<Rightarrow> Finding list \<Rightarrow> ops_db \<Rightarrow>
    alert_error + ops_db" where
  "apply_findings fails encode rule node now [] db = Inr db"
| "apply_findings fails encode rule node now (fd # fds) db =
     (if fd_RuleID fd \<noteq> ru_ID rule \<or> fd_NodeID fd \<noteq> node then Inl ForeignFinding
      else case ValidateEvidence encode (fd_Evidence fd) of
        Some e \<Rightarrow> Inl e
      | None \<Rightarrow> andThen (apply_finding_row fails fd now db) (apply_findings fails encode rule node now fds))"

definition mark_missing :: "(alert_op \<Rightarrow> bool) \<Rightarrow> go_time \<Rightarrow> alert_row \<Rightarrow> ops_db \<Rightarrow> alert_error + ops_db" where
  "mark_missing fails now row db =
     (case ApplyMissing (al_state row) now of
        (next_state, resolved) \<Rightarrow>
          (if resolved
           then statement fails (ResolveAlert (al_id row)) (db\<lparr>alerts := update_row (al_id row)
             (\<lambda>r. r\<lparr>al_state := (al_state r)\<lparr>as_Status := StatusResolved, as_MissingWindows := as_MissingWindows next_state,
                as_ResolvedAt := Some now\<rparr>\<rparr>) (alerts db)\<rparr>)
           else statement fails (MarkMissing (al_id row)) (db\<lparr>alerts := update_row (al_id row)
             (\<lambda>r. r\<lparr>al_state := (al_state r)\<lparr>as_MissingWindows := as_MissingWindows next_state\<rparr>\<rparr>) (alerts db)\<rparr>)))"

fun mark_all :: "(alert_op \<Rightarrow> bool) \<Rightarrow> go_time \<Rightarrow> alert_row list \<Rightarrow> ops_db \<Rightarrow> alert_error + ops_db" where
  "mark_all fails now [] db = Inr db"
| "mark_all fails now (row # rows) db = andThen (mark_missing fails now row db) (mark_all fails now rows)"

definition missing_rows :: "string \<Rightarrow> string \<Rightarrow> string list \<Rightarrow> ops_db \<Rightarrow> alert_row list" where
  "missing_rows ruleID node seen db =
     filter (\<lambda>row. al_rule row = ruleID \<and> al_node row = node \<and> is_open row \<and> al_fingerprint row \<notin> set seen) (alerts db)"

definition applyMissing :: "(alert_op \<Rightarrow> bool) \<Rightarrow> string \<Rightarrow> string \<Rightarrow> string list \<Rightarrow> go_time \<Rightarrow> ops_db \<Rightarrow> alert_error + ops_db" where
  "applyMissing fails ruleID node seen now db =
     andThen (statement fails LoadMissing (missing_rows ruleID node seen db)) (\<lambda>rows. mark_all fails now rows db)"

definition reconcile_tx :: "(alert_op \<Rightarrow> bool) \<Rightarrow> (evidence \<Rightarrow> bytes) \<Rightarrow> Rule \<Rightarrow> string \<Rightarrow> Finding list \<Rightarrow> go_time \<Rightarrow> ops_db \<Rightarrow>
    alert_error + ops_db" where
  "reconcile_tx fails encode rule node findings now db =
     andThen (statement fails BeginAlerts db) (\<lambda>db.
     andThen (statement fails UpsertRule (db\<lparr>alert_rules := AList.update (ru_ID rule) rule (alert_rules db)\<rparr>)) (\<lambda>db.
     andThen (statement fails LockRule db) (\<lambda>db.
     andThen (apply_findings fails encode rule node now findings db) (\<lambda>db.
     andThen (applyMissing fails (ru_ID rule) node (map fd_Fingerprint findings) now db) (\<lambda>db.
       statement fails CommitAlerts db)))))"

text \<open>A failed transaction is rolled back.\<close>

definition Reconcile :: "(alert_op \<Rightarrow> bool) \<Rightarrow> (evidence \<Rightarrow> bytes) \<Rightarrow> Rule \<Rightarrow> string \<Rightarrow> Finding list \<Rightarrow> go_time \<Rightarrow> ops_db \<Rightarrow>
    ops_db \<times> alert_error option" where
  "Reconcile fails encode rule node findings now db =
     (case reconcile_tx fails encode rule node findings now db of Inl e \<Rightarrow> (db, Some e) | Inr db' \<Rightarrow> (db', None))"

subsection \<open>The runner\<close>

datatype 'e run_error = SourceFailed 'e | ReconcileFailed alert_error

definition rule_findings :: "(string \<Rightarrow> string) \<Rightarrow> (float64 \<Rightarrow> float64 \<Rightarrow> float64) \<Rightarrow> Rule \<Rightarrow> RuleObservation list \<Rightarrow> go_time \<Rightarrow> Finding list" where
  "rule_findings sha mul rule obs now = concat (map (\<lambda>ob. EvaluateRule sha mul rule ob now) obs)"

text \<open>The pairs of a rule and a node in the order of the loops; \<open>fails n\<close> are the statements that fail in the \<open>n\<close>-th reconciliation.\<close>

fun run_pairs :: "(nat \<Rightarrow> alert_op \<Rightarrow> bool) \<Rightarrow> (evidence \<Rightarrow> bytes) \<Rightarrow> (string \<Rightarrow> string) \<Rightarrow> (float64 \<Rightarrow> float64 \<Rightarrow> float64) \<Rightarrow>
    (ops_db \<Rightarrow> Rule \<Rightarrow> string \<Rightarrow> go_time \<Rightarrow> 'e + RuleObservation list) \<Rightarrow> go_time \<Rightarrow> nat \<Rightarrow> (Rule \<times> string) list \<Rightarrow> ops_db \<Rightarrow>
    ops_db \<times> 'e run_error option" where
  "run_pairs fails encode sha mul observations now n [] db = (db, None)"
| "run_pairs fails encode sha mul observations now n ((rule, node) # pairs) db =
     (case observations db rule node now of
        Inl e \<Rightarrow> (db, Some (SourceFailed e))
      | Inr obs \<Rightarrow>
          (case Reconcile (fails n) encode rule node (rule_findings sha mul rule obs now) now db of
             (db', Some e) \<Rightarrow> (db', Some (ReconcileFailed e))
           | (db', None) \<Rightarrow> run_pairs fails encode sha mul observations now (Suc n) pairs db'))"

definition Run_alerts :: "(nat \<Rightarrow> alert_op \<Rightarrow> bool) \<Rightarrow> (evidence \<Rightarrow> bytes) \<Rightarrow> (string \<Rightarrow> string) \<Rightarrow> (float64 \<Rightarrow> float64 \<Rightarrow> float64) \<Rightarrow>
    (ops_db \<Rightarrow> 'e + Rule list) \<Rightarrow> (ops_db \<Rightarrow> 'e + string list) \<Rightarrow> (ops_db \<Rightarrow> Rule \<Rightarrow> string \<Rightarrow> go_time \<Rightarrow> 'e + RuleObservation list) \<Rightarrow>
    go_time \<Rightarrow> ops_db \<Rightarrow> ops_db \<times> 'e run_error option" where
  "Run_alerts fails encode sha mul rules nodes observations now db =
     (case rules db of
        Inl e \<Rightarrow> (db, Some (SourceFailed e))
      | Inr rs \<Rightarrow>
          (case nodes db of
             Inl e \<Rightarrow> (db, Some (SourceFailed e))
           | Inr ns \<Rightarrow>
               run_pairs fails encode sha mul observations now 0 (concat (map (\<lambda>r. map (Pair r) ns) rs)) db))"

subsection \<open>Fingerprints\<close>

lemma itoa_no_colon: "CHR '':'' \<notin> set (itoa n)"
  using itoa_digits [of "CHR '':''" n] by (auto simp: is_digit_def)

lemma itoa_inject: "itoa m = itoa n \<longleftrightarrow> m = n"
  by (metis decimal_itoa)

lemma append_colon_cancel:
  "CHR '':'' \<notin> set xs \<Longrightarrow> CHR '':'' \<notin> set ys \<Longrightarrow> xs @ CHR '':'' # us = ys @ CHR '':'' # vs \<longleftrightarrow> xs = ys \<and> us = vs"
proof (induction xs arbitrary: ys)
  case Nil
  then show ?case by (cases ys) auto
next
  case (Cons x xs)
  then show ?case by (cases ys) auto
qed

lemma fingerprint_input_cancel: "fingerprint_input ps = fingerprint_input qs \<longleftrightarrow> ps = qs"
proof (induction ps arbitrary: qs)
  case Nil
  then show ?case by (cases qs) (simp_all add: fingerprint_input_def)
next
  case (Cons p ps)
  show ?case
  proof (cases qs)
    case (Cons q qs')
    have "fingerprint_input (p # ps) = fingerprint_input (q # qs') \<longleftrightarrow>
        itoa (length p) = itoa (length q) \<and> p @ fingerprint_input ps = q @ fingerprint_input qs'"
      using append_colon_cancel [OF itoa_no_colon itoa_no_colon] by (simp add: fingerprint_input_def)
    also have "\<dots> \<longleftrightarrow> length p = length q \<and> p @ fingerprint_input ps = q @ fingerprint_input qs'"
      by (simp add: itoa_inject)
    also have "\<dots> \<longleftrightarrow> p = q \<and> fingerprint_input ps = fingerprint_input qs'" by auto
    finally show ?thesis using Cons.IH [of qs'] Cons by simp
  qed (simp add: fingerprint_input_def)
qed

subsection \<open>The invariant of the alerts\<close>

definition row_ok :: "alert_row \<Rightarrow> bool" where
  "row_ok row \<longleftrightarrow> 1 \<le> as_OccurrenceCount (al_state row) \<and>
     (if is_open row then as_MissingWindows (al_state row) \<in> {0, 1} \<and> as_ResolvedAt (al_state row) = None
      else as_Status (al_state row) = StatusResolved \<and> as_MissingWindows (al_state row) = 2 \<and> as_ResolvedAt (al_state row) \<noteq> None)"

definition alerts_inv :: "ops_db \<Rightarrow> bool" where
  "alerts_inv db \<longleftrightarrow> distinct (map al_id (alerts db)) \<and> (\<forall>row \<in> set (alerts db). al_id row < next_alert db) \<and>
     inj_on al_fingerprint {row \<in> set (alerts db). is_open row} \<and> list_all row_ok (alerts db)"

abbreviation open_state :: "ops_db \<Rightarrow> string \<Rightarrow> AlertState option" where
  "open_state db f \<equiv> map_option al_state (open_alert db f)"

lemma status_distinct: "StatusOpen \<noteq> StatusResolved" "StatusResolved \<noteq> StatusOpen"
  by (simp_all add: status_defs)

lemma find_unique:
  assumes "inj_on f {x \<in> set xs. P x}"
  shows "find (\<lambda>x. f x = v \<and> P x) xs = Some x \<longleftrightarrow> x \<in> set xs \<and> f x = v \<and> P x"
proof
  assume "x \<in> set xs \<and> f x = v \<and> P x"
  moreover then obtain y where "find (\<lambda>x. f x = v \<and> P x) xs = Some y" by (cases "find (\<lambda>x. f x = v \<and> P x) xs") (auto simp: find_None_iff)
  ultimately show "find (\<lambda>x. f x = v \<and> P x) xs = Some x" using assms by (auto simp: find_Some_iff inj_on_def)
qed (auto simp: find_Some_iff)

lemma open_alert_iff:
  assumes "alerts_inv db"
  shows "open_alert db f = Some row \<longleftrightarrow> row \<in> set (alerts db) \<and> al_fingerprint row = f \<and> is_open row"
  using assms unfolding open_alert_def alerts_inv_def by (intro find_unique) blast

text \<open>Changing the state of one row.\<close>

definition keeps :: "(alert_row \<Rightarrow> alert_row) \<Rightarrow> bool" where
  "keeps g \<longleftrightarrow> (\<forall>row. al_id (g row) = al_id row \<and> al_fingerprint (g row) = al_fingerprint row \<and>
     al_rule (g row) = al_rule row \<and> al_node (g row) = al_node row \<and> (is_open (g row) \<longrightarrow> is_open row))"

lemma map_keeps_inv:
  assumes "alerts_inv db" "keeps g" "\<And>row. row \<in> set (alerts db) \<Longrightarrow> row_ok (g row)"
  shows "alerts_inv (db\<lparr>alerts := map g (alerts db)\<rparr>)"
proof -
  have "al_id \<circ> g = al_id" using assms(2) by (auto simp: keeps_def)
  moreover have "inj_on al_fingerprint {row \<in> g ` set (alerts db). is_open row}"
  proof (rule inj_onI; clarify)
    fix r1 r2
    assume r: "al_fingerprint (g r1) = al_fingerprint (g r2)" "r1 \<in> set (alerts db)" "r2 \<in> set (alerts db)" "is_open (g r1)" "is_open (g r2)"
    then have "al_fingerprint r1 = al_fingerprint r2" "is_open r1" "is_open r2" using assms(2) unfolding keeps_def by metis+
    then have "r1 = r2" using r(2,3) assms(1) unfolding alerts_inv_def inj_on_def by blast
    then show "g r1 = g r2" by simp
  qed
  ultimately show ?thesis
    using assms unfolding alerts_inv_def keeps_def by (simp add: list_all_iff)
qed

lemma open_rows_unique:
  assumes "alerts_inv db" "row \<in> set (alerts db)" "row' \<in> set (alerts db)"
  shows "al_id row = al_id row' \<Longrightarrow> row = row'"
    and "al_fingerprint row = al_fingerprint row' \<Longrightarrow> is_open row \<Longrightarrow> is_open row' \<Longrightarrow> row = row'"
  using assms unfolding alerts_inv_def distinct_map inj_on_def by blast+

lemma in_update_row: "r \<in> set (update_row i g rows) \<longleftrightarrow> (\<exists>x \<in> set rows. r = (if al_id x = i then g x else x))"
  unfolding update_row_def set_map by blast

lemma option_ext: "(\<And>x. a = Some x \<longleftrightarrow> b = Some x) \<Longrightarrow> a = b"
  by (cases a; cases b) auto

lemma update_open:
  assumes "alerts_inv db" "open_alert db f = Some row" "keeps g" "row_ok (g row)"
  shows "alerts_inv (db\<lparr>alerts := update_row (al_id row) g (alerts db)\<rparr>)"
    and "open_alert (db\<lparr>alerts := update_row (al_id row) g (alerts db)\<rparr>) h =
      (if h = f then (if is_open (g row) then Some (g row) else None) else open_alert db h)"
proof -
  let ?h = "\<lambda>r. if al_id r = al_id row then g r else r"
  let ?db = "db\<lparr>alerts := update_row (al_id row) g (alerts db)\<rparr>"
  have keeps: "keeps ?h" using assms(3) by (auto simp: keeps_def)
  have row: "row \<in> set (alerts db)" "al_fingerprint row = f" "is_open row" using assms(1,2) by (simp_all add: open_alert_iff)
  have only: "r = row" if "r \<in> set (alerts db)" "al_id r = al_id row" for r
    using open_rows_unique(1) [OF assms(1) that(1) row(1) that(2)] .
  have "row_ok (?h r)" if "r \<in> set (alerts db)" for r
    using that only assms(1,4) by (auto simp: alerts_inv_def list_all_iff)
  then show inv: "alerts_inv ?db"
    using map_keeps_inv [OF assms(1) keeps] by (simp add: update_row_def)
  have g: "al_fingerprint (g row) = f" using assms(3) row(2) by (simp add: keeps_def)
  have mem: "r \<in> set (alerts ?db) \<longleftrightarrow> r = g row \<or> (r \<in> set (alerts db) \<and> r \<noteq> row)" for r
  proof -
    have "r \<in> set (alerts ?db) \<longleftrightarrow> (\<exists>x \<in> set (alerts db). r = (if al_id x = al_id row then g x else x))"
      by (simp add: in_update_row)
    then show ?thesis using only row(1) by metis
  qed
  show "open_alert ?db h = (if h = f then (if is_open (g row) then Some (g row) else None) else open_alert db h)"
  proof (rule option_ext)
    fix r
    have "r \<in> set (alerts db) \<Longrightarrow> al_fingerprint r = f \<Longrightarrow> is_open r \<Longrightarrow> r = row"
      using open_rows_unique(2) [OF assms(1) _ row(1)] row by simp
    then show "open_alert ?db h = Some r \<longleftrightarrow> (if h = f then (if is_open (g row) then Some (g row) else None) else open_alert db h) = Some r"
      unfolding open_alert_iff [OF inv] mem using g row by (auto simp: open_alert_iff [OF assms(1)])
  qed
qed

lemma add_open:
  assumes "alerts_inv db" "open_alert db f = None" "al_id row = next_alert db" "al_fingerprint row = f" "is_open row" "row_ok row"
  shows "alerts_inv (db\<lparr>alerts := alerts db @ [row], next_alert := Suc (next_alert db)\<rparr>)"
    and "open_alert (db\<lparr>alerts := alerts db @ [row], next_alert := Suc (next_alert db)\<rparr>) h = (if h = f then Some row else open_alert db h)"
proof -
  let ?db = "db\<lparr>alerts := alerts db @ [row], next_alert := Suc (next_alert db)\<rparr>"
  have none: "\<not> is_open r" if "r \<in> set (alerts db)" "al_fingerprint r = f" for r
    using assms(2) that by (auto simp: open_alert_def find_None_iff)
  have "inj_on al_fingerprint {r \<in> set (alerts ?db). is_open r}"
    using assms(1,4) none by (auto simp: alerts_inv_def inj_on_def)
  moreover have "al_id row \<notin> al_id ` set (alerts db)" using assms(1,3) by (auto simp: alerts_inv_def)
  ultimately show inv: "alerts_inv ?db"
    using assms(1,3,6) by (auto simp: alerts_inv_def less_Suc_eq)
  show "open_alert ?db h = (if h = f then Some row else open_alert db h)"
  proof (rule option_ext)
    fix r
    show "open_alert ?db h = Some r \<longleftrightarrow> (if h = f then Some row else open_alert db h) = Some r"
      unfolding open_alert_iff [OF inv] using none assms(4,5) by (auto simp: open_alert_iff [OF assms(1)])
  qed
qed

subsection \<open>One finding\<close>

text \<open>A delivery that tells of an alert with a given fingerprint.\<close>

definition tells :: "ops_db \<Rightarrow> delivery_row \<Rightarrow> string \<times> string \<Rightarrow> bool" where
  "tells db d = (\<lambda>(f, event). dv_event d = event \<and> dv_status d = Pending \<and> dv_attempt d = 0 \<and>
     (\<exists>row \<in> set (alerts db). dv_alert d = Some (al_id row) \<and> al_fingerprint row = f))"

definition extends :: "ops_db \<Rightarrow> ops_db \<Rightarrow> bool" where
  "extends db db' \<longleftrightarrow> (\<lambda>row. (al_id row, al_fingerprint row)) ` set (alerts db) \<subseteq> (\<lambda>row. (al_id row, al_fingerprint row)) ` set (alerts db')"

lemma tells_extends: "tells db d fe \<Longrightarrow> extends db db' \<Longrightarrow> tells db' d fe"
  by (cases fe) (force simp: tells_def extends_def)

lemma extends_trans: "extends a b \<Longrightarrow> extends b c \<Longrightarrow> extends a c"
  by (auto simp: extends_def)

lemma extends_update: "keeps g \<Longrightarrow> extends db (db\<lparr>alerts := update_row i g (alerts db)\<rparr>)"
  unfolding extends_def keeps_def
  by (clarsimp simp: image_iff, rule_tac x = "if al_id row = i then g row else row" in bexI) (auto simp: in_update_row)

definition event_of :: "AlertState option \<Rightarrow> Finding \<Rightarrow> go_time \<Rightarrow> string list" where
  "event_of st fd now = (if snd (ApplyFinding st fd now) then [if st = None then ''opened'' else ''severity_increased''] else [])"

lemma statement_Inr: "statement fails op x = Inr y \<longleftrightarrow> \<not> fails op \<and> y = x"
  by (auto simp: statement_def)

lemma insertDelivery_Inr:
  assumes "insertDelivery fails i event now db = Inr db'" "row \<in> set (alerts db)" "al_id row = i" "al_fingerprint row = f"
  shows "alerts db' = alerts db" "next_alert db' = next_alert db"
    "\<exists>d. deliveries db' = deliveries db @ [d] \<and> tells db' d (f, event)"
  using assms by (auto simp: insertDelivery_def statement_Inr tells_def)

lemma alerts_only: "alerts db' = alerts db \<Longrightarrow> open_alert db' = open_alert db"
  "alerts db' = alerts db \<Longrightarrow> next_alert db' = next_alert db \<Longrightarrow> alerts_inv db' = alerts_inv db"
  "alerts db' = alerts db \<Longrightarrow> extends db db'"
  by (auto simp: open_alert_def alerts_inv_def extends_def fun_eq_iff)

lemma apply_finding_effect:
  assumes inv: "alerts_inv db" and ok: "apply_finding_row fails fd now db = Inr db'"
  shows "alerts_inv db' \<and> extends db db' \<and>
    open_state db' (fd_Fingerprint fd) = Some (fst (ApplyFinding (open_state db (fd_Fingerprint fd)) fd now)) \<and>
    (\<forall>h. h \<noteq> fd_Fingerprint fd \<longrightarrow> open_alert db' h = open_alert db h) \<and>
    (\<exists>new. deliveries db' = deliveries db @ new \<and>
      list_all2 (tells db') new (map (Pair (fd_Fingerprint fd)) (event_of (open_state db (fd_Fingerprint fd)) fd now)))"
proof (cases "open_alert db (fd_Fingerprint fd)")
  case None
  let ?row = "new_alert db fd now"
  let ?db = "db\<lparr>alerts := alerts db @ [?row], next_alert := Suc (next_alert db)\<rparr>"
  have row: "al_id ?row = next_alert db" "al_fingerprint ?row = fd_Fingerprint fd" "is_open ?row" "row_ok ?row"
    by (simp_all add: new_alert_def row_ok_def)
  have "insertDelivery fails (next_alert db) ''opened'' now ?db = Inr db'"
    using ok None by (auto simp: apply_finding_row_def andThen_Inr statement_Inr)
  from insertDelivery_Inr [OF this, of ?row "fd_Fingerprint fd"] row
  have db': "alerts db' = alerts ?db" "next_alert db' = next_alert ?db"
    "\<exists>d. deliveries db' = deliveries ?db @ [d] \<and> tells db' d (fd_Fingerprint fd, ''opened'')" by simp_all
  have "extends db ?db" by (auto simp: extends_def)
  then show ?thesis
    using db' add_open [OF inv None row] alerts_only [OF db'(1)] alerts_only(2) [OF db'(1,2)] None
    by (auto simp: event_of_def ApplyFinding_def new_alert_def extends_def)
next
  case (Some row)
  obtain next_state notify where app: "ApplyFinding (Some (al_state row)) fd now = (next_state, notify)" by fastforce
  let ?g = "refresh_alert fd next_state"
  let ?db = "db\<lparr>alerts := update_row (al_id row) ?g (alerts db)\<rparr>"
  have row: "row \<in> set (alerts db)" "al_fingerprint row = fd_Fingerprint fd" "is_open row" "row_ok row"
    using Some inv by (auto simp: open_alert_iff alerts_inv_def list_all_iff)
  have keeps: "keeps ?g" by (simp add: keeps_def refresh_alert_def)
  have state: "al_state (?g row) = next_state" "is_open (?g row)" "row_ok (?g row)"
    using app row(3,4) by (auto simp: ApplyFinding_def refresh_alert_def row_ok_def Let_def split: if_splits)
  note upd = update_open [OF inv Some keeps state(3)]
  have "?g row \<in> set (alerts ?db)" using row(1) by (auto simp: update_row_def)
  moreover have "al_id (?g row) = al_id row" "al_fingerprint (?g row) = fd_Fingerprint fd" using row(2) by (simp_all add: refresh_alert_def)
  moreover have "if notify then insertDelivery fails (al_id row) ''severity_increased'' now ?db = Inr db' else db' = ?db"
    using ok Some app by (auto simp: apply_finding_row_def andThen_Inr statement_Inr split: if_splits)
  ultimately have db': "alerts db' = alerts ?db" "next_alert db' = next_alert ?db"
    "\<exists>new. deliveries db' = deliveries db @ new \<and>
      list_all2 (tells db') new (map (Pair (fd_Fingerprint fd)) (if notify then [''severity_increased''] else []))"
    using insertDelivery_Inr [of fails "al_id row" "''severity_increased''" now ?db db' "?g row" "fd_Fingerprint fd"]
    by (auto split: if_splits)
  then show ?thesis
    using upd alerts_only [OF db'(1)] alerts_only(2) [OF db'(1,2)] state app Some extends_update [OF keeps, of db "al_id row"]
    by (auto simp: event_of_def intro: extends_trans)
qed

subsection \<open>All findings of a window\<close>

text \<open>The specification for one fingerprint: the state of its open alert after the findings of a window, with the notifications,
  and after a window without one.\<close>

fun seen_steps :: "go_time \<Rightarrow> AlertState option \<Rightarrow> Finding list \<Rightarrow> AlertState option \<times> string list" where
  "seen_steps now st [] = (st, [])"
| "seen_steps now st (fd # fds) =
     (case seen_steps now (Some (fst (ApplyFinding st fd now))) fds of (st', es) \<Rightarrow> (st', event_of st fd now @ es))"

definition missing_step :: "go_time \<Rightarrow> AlertState \<Rightarrow> AlertState option" where
  "missing_step now st = (case ApplyMissing st now of (st', resolved) \<Rightarrow> if resolved then None else Some st')"

definition window_step :: "string \<Rightarrow> string \<Rightarrow> go_time \<Rightarrow> Finding list \<Rightarrow> alert_row option \<Rightarrow> AlertState option" where
  "window_step ruleID node now fds current =
     (if fds \<noteq> [] then fst (seen_steps now (map_option al_state current) fds)
      else case current of
        None \<Rightarrow> None
      | Some row \<Rightarrow> if al_rule row = ruleID \<and> al_node row = node then missing_step now (al_state row) else Some (al_state row))"

abbreviation found :: "string \<Rightarrow> Finding list \<Rightarrow> Finding list" where
  "found f fds \<equiv> filter (\<lambda>fd. fd_Fingerprint fd = f) fds"

definition told :: "string \<Rightarrow> (string \<times> string) list \<Rightarrow> string list" where
  "told f lg = map snd (filter (\<lambda>(g, e). g = f) lg)"

lemma told_simps: "told f [] = []" "told f (xs @ ys) = told f xs @ told f ys" "told f (map (Pair g) es) = (if g = f then es else [])"
  by (auto simp: told_def filter_map comp_def)

lemma apply_findings_effect:
  assumes "alerts_inv db" "apply_findings fails encode rule node now fds db = Inr db'"
  shows "alerts_inv db' \<and> extends db db' \<and>
    (\<forall>f. open_state db' f = fst (seen_steps now (open_state db f) (found f fds))) \<and>
    (\<forall>f. found f fds = [] \<longrightarrow> open_alert db' f = open_alert db f) \<and>
    (\<exists>new lg. deliveries db' = deliveries db @ new \<and> list_all2 (tells db') new lg \<and>
      (\<forall>f. told f lg = snd (seen_steps now (open_state db f) (found f fds))))"
  using assms
proof (induction fds arbitrary: db)
  case Nil
  then show ?case by (auto simp: told_simps extends_def intro!: exI [of _ "[]"])
next
  case (Cons fd fds)
  let ?f = "fd_Fingerprint fd"
  obtain db1 where db1: "apply_finding_row fails fd now db = Inr db1" "apply_findings fails encode rule node now fds db1 = Inr db'"
    using Cons.prems(2) by (auto simp: andThen_Inr split: if_splits option.splits)
  note one = apply_finding_effect [OF Cons.prems(1) db1(1)]
  note rest = Cons.IH [OF conjunct1 [OF one] db1(2)]
  obtain new1 where new1: "deliveries db1 = deliveries db @ new1"
    "list_all2 (tells db1) new1 (map (Pair ?f) (event_of (open_state db ?f) fd now))" using one by blast
  obtain new lg where new: "deliveries db' = deliveries db1 @ new" "list_all2 (tells db') new lg"
    "\<forall>f. told f lg = snd (seen_steps now (open_state db1 f) (found f fds))" using rest by blast
  have "list_all2 (tells db') new1 (map (Pair ?f) (event_of (open_state db ?f) fd now))"
    using new1(2) rest by (auto elim!: list_all2_mono intro: tells_extends)
  then have lg: "deliveries db' = deliveries db @ (new1 @ new)"
    "list_all2 (tells db') (new1 @ new) (map (Pair ?f) (event_of (open_state db ?f) fd now) @ lg)"
    using new1(1) new by (simp_all add: list_all2_appendI)
  have here: "open_state db1 ?f = Some (fst (ApplyFinding (open_state db ?f) fd now))"
    and there: "\<And>h. h \<noteq> ?f \<Longrightarrow> open_alert db1 h = open_alert db h" using one by blast+
  have steps: "fst (seen_steps now (open_state db f) (found f (fd # fds))) = fst (seen_steps now (open_state db1 f) (found f fds))"
    "snd (seen_steps now (open_state db f) (found f (fd # fds))) =
      (if f = ?f then event_of (open_state db ?f) fd now else []) @ snd (seen_steps now (open_state db1 f) (found f fds))" for f
    by (cases "f = ?f"; simp add: here there split_beta del: map_option_eq_Some)+
  show ?case
  proof (intro conjI exI [of _ "new1 @ new"] exI [of _ "map (Pair ?f) (event_of (open_state db ?f) fd now) @ lg"])
    show "extends db db'" using one rest extends_trans by blast
    show "\<forall>f. open_state db' f = fst (seen_steps now (open_state db f) (found f (fd # fds)))"
      unfolding steps using rest by blast
    show "\<forall>f. found f (fd # fds) = [] \<longrightarrow> open_alert db' f = open_alert db f" using one rest by auto
    show "\<forall>f. told f (map (Pair ?f) (event_of (open_state db ?f) fd now) @ lg) = snd (seen_steps now (open_state db f) (found f (fd # fds)))"
      unfolding steps using new(3) by (auto simp: told_simps)
  qed (use rest lg in blast)+
qed

subsection \<open>Windows without a finding\<close>

definition missed :: "go_time \<Rightarrow> alert_row \<Rightarrow> alert_row option" where
  "missed now row = map_option (\<lambda>st. row\<lparr>al_state := st\<rparr>) (missing_step now (al_state row))"

lemma mark_missing_effect:
  assumes "alerts_inv db" "open_alert db f = Some row" "mark_missing fails now row db = Inr db'"
  shows "alerts_inv db' \<and> extends db db' \<and> deliveries db' = deliveries db \<and> open_alert db' f = missed now row \<and>
    (\<forall>h. h \<noteq> f \<longrightarrow> open_alert db' h = open_alert db h)"
proof -
  obtain st resolved where app: "ApplyMissing (al_state row) now = (st, resolved)" by fastforce
  have row: "is_open row" "row_ok row" using assms(1,2) by (auto simp: open_alert_iff alerts_inv_def list_all_iff)
  define g :: "alert_row \<Rightarrow> alert_row" where "g = (\<lambda>r. if resolved
      then r\<lparr>al_state := (al_state r)\<lparr>as_Status := StatusResolved, as_MissingWindows := as_MissingWindows st, as_ResolvedAt := Some now\<rparr>\<rparr>
      else r\<lparr>al_state := (al_state r)\<lparr>as_MissingWindows := as_MissingWindows st\<rparr>\<rparr>)"
  have db': "db' = db\<lparr>alerts := update_row (al_id row) g (alerts db)\<rparr>"
    using assms(3) app by (auto simp: mark_missing_def statement_Inr g_def split: if_splits)
  have keeps: "keeps g" by (simp add: keeps_def g_def status_distinct)
  have g: "row_ok (g row)" "is_open (g row) \<longleftrightarrow> \<not> resolved" "\<not> resolved \<Longrightarrow> g row = row\<lparr>al_state := st\<rparr>"
    using app row by (auto simp: g_def ApplyMissing_def row_ok_def status_distinct Let_def split: if_splits)
  show ?thesis
    using update_open [OF assms(1,2) keeps g(1)] extends_update [OF keeps] g app
    by (auto simp: db' missing_step_def missed_def)
qed

lemma mark_all_effect:
  assumes "alerts_inv db" "mark_all fails now rows db = Inr db'" "distinct (map al_fingerprint rows)"
    "\<forall>row \<in> set rows. open_alert db (al_fingerprint row) = Some row"
  shows "alerts_inv db' \<and> extends db db' \<and> deliveries db' = deliveries db \<and>
    (\<forall>row \<in> set rows. open_alert db' (al_fingerprint row) = missed now row) \<and>
    (\<forall>h. h \<notin> al_fingerprint ` set rows \<longrightarrow> open_alert db' h = open_alert db h)"
  using assms
proof (induction rows arbitrary: db)
  case (Cons row rows)
  obtain db1 where db1: "mark_missing fails now row db = Inr db1" "mark_all fails now rows db1 = Inr db'"
    using Cons.prems(2) by (auto simp: andThen_Inr)
  note one = mark_missing_effect [OF Cons.prems(1) _ db1(1), of "al_fingerprint row"]
  have "\<forall>r \<in> set rows. open_alert db1 (al_fingerprint r) = Some r"
    using one Cons.prems(3,4) by (metis (no_types, lifting) distinct.simps(2) image_eqI list.set_intros(1,2) list.simps(9) list.set_map)
  with one Cons.IH [OF _ db1(2)] Cons.prems(3,4) show ?case by (auto intro: extends_trans)
qed (auto simp: extends_def)

lemma missing_rows_open:
  assumes "alerts_inv db"
  shows "distinct (map al_fingerprint (missing_rows ruleID node seen db))"
    and "\<forall>row \<in> set (missing_rows ruleID node seen db). open_alert db (al_fingerprint row) = Some row"
    and "f \<in> al_fingerprint ` set (missing_rows ruleID node seen db) \<longleftrightarrow>
      f \<notin> set seen \<and> (\<exists>row. open_alert db f = Some row \<and> al_rule row = ruleID \<and> al_node row = node)"
proof -
  have "distinct (alerts db)" using assms by (auto simp: alerts_inv_def distinct_map)
  moreover have "inj_on al_fingerprint (set (missing_rows ruleID node seen db))"
    using assms by (auto simp: alerts_inv_def missing_rows_def inj_on_def)
  ultimately show "distinct (map al_fingerprint (missing_rows ruleID node seen db))"
    by (simp add: distinct_map missing_rows_def)
qed (auto simp: missing_rows_def open_alert_iff [OF assms])

lemma applyMissing_effect:
  assumes "alerts_inv db" "applyMissing fails ruleID node seen now db = Inr db'"
  shows "alerts_inv db'" "extends db db'" "deliveries db' = deliveries db"
    "open_alert db' f = (case open_alert db f of
       Some row \<Rightarrow> if f \<notin> set seen \<and> al_rule row = ruleID \<and> al_node row = node then missed now row else Some row
     | None \<Rightarrow> None)"
proof -
  have "mark_all fails now (missing_rows ruleID node seen db) db = Inr db'"
    using assms(2) by (auto simp: applyMissing_def andThen_Inr statement_Inr)
  note all = mark_all_effect [OF assms(1) this missing_rows_open(1,2) [OF assms(1)]]
  then show "alerts_inv db'" "extends db db'" "deliveries db' = deliveries db" by blast+
  have in_rows: "open_alert db' f = missed now row"
    if "row \<in> set (missing_rows ruleID node seen db)" "al_fingerprint row = f" for row using all that by blast
  have out: "open_alert db' f = open_alert db f" if "f \<notin> al_fingerprint ` set (missing_rows ruleID node seen db)" using all that by blast
  show "open_alert db' f = (case open_alert db f of
       Some row \<Rightarrow> if f \<notin> set seen \<and> al_rule row = ruleID \<and> al_node row = node then missed now row else Some row
     | None \<Rightarrow> None)"
  proof (cases "f \<in> al_fingerprint ` set (missing_rows ruleID node seen db)")
    case True
    then obtain row where row: "row \<in> set (missing_rows ruleID node seen db)" "al_fingerprint row = f" by blast
    with missing_rows_open(2) [OF assms(1)] have "open_alert db f = Some row" by blast
    then show ?thesis using row in_rows [OF row] by (auto simp: missing_rows_def)
  next
    case False
    then show ?thesis using out missing_rows_open(3) [OF assms(1), of f ruleID node seen] by (auto split: option.splits)
  qed
qed

subsection \<open>One reconciliation\<close>

lemma reconcile_effect:
  assumes inv: "alerts_inv db" and ok: "Reconcile fails encode rule node findings now db = (db', None)"
  shows "alerts_inv db'" "extends db db'"
    "open_state db' f = window_step (ru_ID rule) node now (found f findings) (open_alert db f)"
    "found f findings = [] \<Longrightarrow> open_alert db' f = (case open_alert db f of
       Some row \<Rightarrow> if al_rule row = ru_ID rule \<and> al_node row = node then missed now row else Some row | None \<Rightarrow> None)"
    "\<exists>new lg. deliveries db' = deliveries db @ new \<and> list_all2 (tells db') new lg \<and>
      (\<forall>f. told f lg = snd (seen_steps now (open_state db f) (found f findings)))"
proof -
  let ?db = "db\<lparr>alert_rules := AList.update (ru_ID rule) rule (alert_rules db)\<rparr>"
  obtain db1 where db1: "apply_findings fails encode rule node now findings ?db = Inr db1"
    "applyMissing fails (ru_ID rule) node (map fd_Fingerprint findings) now db1 = Inr db'"
    using ok by (auto simp: Reconcile_def reconcile_tx_def andThen_Inr statement_Inr split: sum.splits)
  have "alerts_inv ?db" using inv by (simp add: alerts_inv_def)
  note fs = apply_findings_effect [OF this db1(1)]
  note ms = applyMissing_effect [OF conjunct1 [OF fs] db1(2)]
  have same: "open_alert ?db = open_alert db" "extends db ?db" by (rule alerts_only(1), simp) (rule alerts_only(3), simp)
  show "alerts_inv db'" "extends db db'" using ms(1,2) fs same(2) extends_trans by blast+
  have seen: "f \<in> set (map fd_Fingerprint findings) \<longleftrightarrow> found f findings \<noteq> []" by (auto simp: filter_empty_conv)
  show none: "open_alert db' f = (case open_alert db f of
       Some row \<Rightarrow> if al_rule row = ru_ID rule \<and> al_node row = node then missed now row else Some row | None \<Rightarrow> None)"
    if "found f findings = []"
  proof -
    have "open_alert db1 f = open_alert db f" using fs same(1) that by metis
    then show ?thesis using ms(4) [of f] seen that by (simp split: option.splits)
  qed
  show "open_state db' f = window_step (ru_ID rule) node now (found f findings) (open_alert db f)"
  proof (cases "found f findings = []")
    case True
    then show ?thesis using none
      by (auto simp: window_step_def missed_def option.map_comp comp_def option.map_ident split: option.splits)
  next
    case False
    then have "open_alert db' f = open_alert db1 f" using ms(4) [of f] seen by (auto split: option.splits)
    moreover have "open_state db1 f = fst (seen_steps now (open_state db f) (found f findings))" using fs same(1) by metis
    ultimately show ?thesis using False by (simp add: window_step_def)
  qed
  obtain new lg where "deliveries db1 = deliveries db @ new" "list_all2 (tells db1) new lg"
    "\<forall>f. told f lg = snd (seen_steps now (open_state db f) (found f findings))" using fs unfolding same(1) by auto
  moreover from this(2) have "list_all2 (tells db') new lg" by (rule list_all2_mono) (rule tells_extends [OF _ ms(2)])
  ultimately show "\<exists>new lg. deliveries db' = deliveries db @ new \<and> list_all2 (tells db') new lg \<and>
      (\<forall>f. told f lg = snd (seen_steps now (open_state db f) (found f findings)))" using ms(3) by auto
qed

lemma seen_steps_open:
  "as_Status st = StatusOpen \<Longrightarrow> fds \<noteq> [] \<or> as_MissingWindows st = 0 \<Longrightarrow>
    \<exists>st'. fst (seen_steps now (Some st) fds) = Some st' \<and> as_MissingWindows st' = 0 \<and> as_FirstSeenAt st' = as_FirstSeenAt st"
proof (induction fds arbitrary: st)
  case (Cons fd fds)
  let ?st = "fst (ApplyFinding (Some st) fd now)"
  have "as_Status ?st = StatusOpen" "as_MissingWindows ?st = 0" "as_FirstSeenAt ?st = as_FirstSeenAt st"
    using Cons.prems(1) by (simp_all add: ApplyFinding_def Let_def)
  then show ?case using Cons.IH [of ?st] by (auto simp: split_beta)
qed simp

subsection \<open>A run over all rules and nodes\<close>

definition all_succeed :: "(alert_op \<Rightarrow> bool) \<Rightarrow> bool" where
  "all_succeed fails \<longleftrightarrow> (\<forall>op. \<not> fails op)"

lemma statement_ok: "all_succeed fails \<Longrightarrow> statement fails op x = Inr x"
  by (simp add: all_succeed_def statement_def)

lemma apply_finding_row_ok: "all_succeed fails \<Longrightarrow> \<exists>db'. apply_finding_row fails fd now db = Inr db'"
  by (auto simp: apply_finding_row_def insertDelivery_def statement_ok split: option.splits prod.splits)

lemma mark_all_ok: "all_succeed fails \<Longrightarrow> \<exists>db'. mark_all fails now rows db = Inr db'"
proof (induction rows arbitrary: db)
  case (Cons row rows)
  then show ?case by (cases "ApplyMissing (al_state row) now") (auto simp: mark_missing_def statement_ok)
qed simp

lemma evaluate_accepted:
  assumes "fd \<in> set (EvaluateRule sha mul rule ob now)" "length (encode (fd_Evidence fd)) \<le> 16384"
  shows "fd_RuleID fd = ru_ID rule" "fd_NodeID fd = ob_NodeID ob" "ValidateEvidence encode (fd_Evidence fd) = None"
  using assms by (auto simp: EvaluateRule_def ValidateEvidence_def finding_evidence_def split: if_splits)

lemma apply_findings_ok:
  assumes "all_succeed fails" "\<And>fd. fd \<in> set fds \<Longrightarrow> fd_RuleID fd = ru_ID rule \<and> fd_NodeID fd = node \<and> ValidateEvidence encode (fd_Evidence fd) = None"
  shows "\<exists>db'. apply_findings fails encode rule node now fds db = Inr db'"
  using assms(2)
proof (induction fds arbitrary: db)
  case (Cons fd fds)
  obtain db1 where "apply_finding_row fails fd now db = Inr db1" using apply_finding_row_ok [OF assms(1)] by blast
  then show ?case using Cons by simp
qed simp

lemma reconcile_accepted:
  assumes "all_succeed fails" "\<forall>e. length (encode e) \<le> 16384" "\<forall>ob \<in> set obs. ob_NodeID ob = node"
  shows "\<exists>db'. Reconcile fails encode rule node (rule_findings sha mul rule obs now) now db = (db', None)"
proof -
  have "fd_RuleID fd = ru_ID rule \<and> fd_NodeID fd = node \<and> ValidateEvidence encode (fd_Evidence fd) = None"
    if "fd \<in> set (rule_findings sha mul rule obs now)" for fd
    using that assms(2,3) evaluate_accepted [of fd sha mul rule _ now encode] by (auto simp: rule_findings_def)
  then have findings: "\<exists>db'. apply_findings fails encode rule node now (rule_findings sha mul rule obs now) db = Inr db'" for db
    by (rule apply_findings_ok [OF assms(1)])
  show ?thesis
    using findings [of "db\<lparr>alert_rules := AList.update (ru_ID rule) rule (alert_rules db)\<rparr>"] mark_all_ok [OF assms(1)]
    by (auto simp: Reconcile_def reconcile_tx_def applyMissing_def statement_ok [OF assms(1)] split: sum.splits)
      (metis andThen.simps(2) Inl_Inr_False)
qed

lemma run_pairs_accepted:
  assumes "alerts_inv db" "\<forall>n. all_succeed (fails n)" "\<forall>e. length (encode e) \<le> 16384"
    "\<forall>db rule node. \<exists>obs. observations db rule node now = Inr obs \<and> (\<forall>ob \<in> set obs. ob_NodeID ob = node)"
  shows "\<exists>db'. run_pairs fails encode sha mul observations now n pairs db = (db', None) \<and> alerts_inv db'"
  using assms(1)
proof (induction pairs arbitrary: n db)
  case (Cons pair pairs)
  obtain rule node where pair: "pair = (rule, node)" by (cases pair)
  obtain obs where obs: "observations db rule node now = Inr obs" "\<forall>ob \<in> set obs. ob_NodeID ob = node" using assms(4) by blast
  from reconcile_accepted [OF spec [OF assms(2), of n] assms(3) obs(2)]
  obtain db1 where db1: "Reconcile (fails n) encode rule node (rule_findings sha mul rule obs now) now db = (db1, None)" by blast
  with Cons.IH [OF reconcile_effect(1) [OF Cons.prems db1], of "Suc n"] obs(1) show ?case by (simp add: pair)
qed simp

subsection \<open>Properties\<close>

text \<open>What a finding is deduplicated by: under a collision-free hash two findings have the same fingerprint exactly when
  they are of the same rule, node, owner, destination and collector, whatever characters those contain.\<close>

theorem fingerprint_identifies:
  assumes "inj sha" "fd \<in> set (EvaluateRule sha mul rule ob now)" "fd' \<in> set (EvaluateRule sha mul rule' ob' now')"
  shows "fd_Fingerprint fd = fd_Fingerprint fd' \<longleftrightarrow>
    ru_ID rule = ru_ID rule' \<and> ob_NodeID ob = ob_NodeID ob' \<and> ob_OwnerID ob = ob_OwnerID ob' \<and>
    ob_Destination ob = ob_Destination ob' \<and> ob_Collector ob = ob_Collector ob'"
  using assms by (auto simp: EvaluateRule_def Fingerprint_def inj_eq fingerprint_input_cancel split: if_splits)

definition sample_rule :: "string \<Rightarrow> Rule" where
  "sample_rule name = \<lparr>ru_ID = name, ru_Kind = KindAgentStale, ru_Name = name, ru_Enabled = True, ru_Severity = SeverityWarning,
     ru_Threshold = Fin 120, ru_Multiplier = Fin 0, ru_WindowSeconds = 60\<rparr>"

definition sample_ob :: "string \<Rightarrow> string \<Rightarrow> RuleObservation" where
  "sample_ob node owner = \<lparr>ob_NodeID = node, ob_RateBPS = Fin 0, ob_OwnerID = owner, ob_OwnerBytes = Fin 0, ob_OwnerBaselineBytes = Fin 0,
     ob_Destination = [], ob_DestinationIsNew = False, ob_DomainCoverage = Fin 1, ob_AgentAgeSeconds = Fin 300, ob_Collector = [],
     ob_CollectorHealthy = True, ob_BufferUsagePercent = Fin 0, ob_DatabaseUsagePercent = Fin 0, ob_WebhookTerminalFailures = Fin 0\<rparr>"

definition sample_finding :: "string \<Rightarrow> string \<Rightarrow> string \<Rightarrow> Finding" where
  "sample_finding name node owner = hd (EvaluateRule id (\<lambda>x y. x) (sample_rule name) (sample_ob node owner) 7)"

lemma sample_evaluates:
  "node \<noteq> [] \<Longrightarrow> EvaluateRule id (\<lambda>x y. x) (sample_rule name) (sample_ob node owner) 7 = [sample_finding name node owner]"
  by (simp add: sample_finding_def EvaluateRule_def sample_rule_def sample_ob_def rule_values_def KindAbsoluteRate_def KindOwnerBaseline_def
    KindNewDestination_def KindDomainCoverage_def KindAgentStale_def)

theorem fingerprint_identifies_witness:
  "fd_Fingerprint (sample_finding ''ab'' ''c'' []) \<noteq> fd_Fingerprint (sample_finding ''a'' ''bc'' [])"
  using fingerprint_identifies [of id "sample_finding ''ab'' ''c'' []" "\<lambda>x y. x" "sample_rule ''ab''" "sample_ob ''c'' []" 7
    "sample_finding ''a'' ''bc'' []" "sample_rule ''a''" "sample_ob ''bc'' []" 7]
  by (simp add: sample_evaluates) (simp add: sample_rule_def)

text \<open>C25. A reconciliation is one step of the life of every alert: it keeps the invariant (at most one open alert of a fingerprint, every
  open one missing for at most one window), moves the alert of each fingerprint by its own findings or, without one, by a missing
  window of its rule and node, and queues exactly the notifications of those steps, in order. One that fails changes nothing.\<close>

theorem reconcile_refines:
  assumes "alerts_inv db"
  shows "case Reconcile fails encode rule node findings now db of
      (db', Some e) \<Rightarrow> db' = db
    | (db', None) \<Rightarrow>
        alerts_inv db' \<and>
        (\<forall>f. open_state db' f = window_step (ru_ID rule) node now (found f findings) (open_alert db f)) \<and>
        (\<exists>new lg. deliveries db' = deliveries db @ new \<and> list_all2 (tells db') new lg \<and>
          (\<forall>f. told f lg = snd (seen_steps now (open_state db f) (found f findings))))"
proof (cases "Reconcile fails encode rule node findings now db")
  case (Pair db' e)
  show ?thesis
  proof (cases e)
    case None
    then show ?thesis using reconcile_effect [OF assms, of fails encode rule node findings now db'] Pair by simp
  next
    case (Some err)
    then show ?thesis using Pair by (auto simp: Reconcile_def split: sum.splits)
  qed
qed

definition sample_db :: ops_db where
  "sample_db = fst (Reconcile (\<lambda>op. False) (\<lambda>e. []) (sample_rule ''r'') ''n'' [sample_finding ''r'' ''n'' []] 7
     \<lparr>alert_rules = [], alerts = [], next_alert = 1, deliveries = [], next_delivery = 1\<rparr>)"

lemma sample_db_inv: "alerts_inv sample_db"
  "(\<lambda>f. map_option as_MissingWindows (open_state sample_db f)) (fd_Fingerprint (sample_finding ''r'' ''n'' [])) = Some 0"
  by code_simp+

theorem reconcile_refines_witness:
  "alerts_inv sample_db \<and>
   (case Reconcile (\<lambda>op. False) (\<lambda>e. []) (sample_rule ''r'') ''n'' [] 8 sample_db of
      (db', Some e) \<Rightarrow> False
    | (db', None) \<Rightarrow> alerts_inv db' \<and>
       open_state db' (fd_Fingerprint (sample_finding ''r'' ''n'' [])) =
         window_step ''r'' ''n'' 8 [] (open_alert sample_db (fd_Fingerprint (sample_finding ''r'' ''n'' []))))"
proof -
  have "snd (Reconcile (\<lambda>op. False) (\<lambda>e. []) (sample_rule ''r'') ''n'' [] 8 sample_db) = None" by code_simp
  moreover have "ru_ID (sample_rule ''r'') = ''r''" by (simp add: sample_rule_def)
  ultimately show ?thesis
    using reconcile_refines [OF sample_db_inv(1), where fails = "\<lambda>op. False" and encode = "\<lambda>e. []"
      and rule = "sample_rule ''r''" and node = "''n''" and findings = "[]" and now = 8] sample_db_inv(1)
    by (auto simp: split_beta split: option.splits)
qed

text \<open>An alert survives one window without its finding and is resolved by the second in a row, without any notification; a finding
  in between leaves the alert open under the same number and counts from zero again.\<close>

theorem alert_debounced:
  assumes "alerts_inv db" "open_alert db f = Some row" "al_rule row = ru_ID rule" "al_node row = node" "as_MissingWindows (al_state row) = 0"
    and first: "Reconcile fails encode rule node findings now db = (db1, None)" "found f findings = []"
    and second: "Reconcile fails' encode rule node findings' now' db1 = (db2, None)"
  shows "open_alert db1 f = Some (row\<lparr>al_state := (al_state row)\<lparr>as_MissingWindows := 1\<rparr>\<rparr>) \<and>
    (found f findings' = [] \<longrightarrow> open_alert db2 f = None) \<and>
    (found f findings' \<noteq> [] \<longrightarrow> map_option as_MissingWindows (open_state db2 f) = Some 0 \<and>
       map_option as_FirstSeenAt (open_state db2 f) = Some (as_FirstSeenAt (al_state row)))"
proof -
  have open_row: "is_open row" using assms(1,2) by (simp add: open_alert_iff)
  let ?row = "row\<lparr>al_state := (al_state row)\<lparr>as_MissingWindows := 1\<rparr>\<rparr>"
  have one: "open_alert db1 f = Some ?row"
    using reconcile_effect(4) [OF assms(1) first] assms(2-5) open_row
    by (simp add: missed_def missing_step_def ApplyMissing_def)
  note two = reconcile_effect [OF reconcile_effect(1) [OF assms(1) first(1)] second]
  have "open_alert db2 f = None" if "found f findings' = []"
    using two(4) [OF that] one assms(3,4) open_row by (simp add: missed_def missing_step_def ApplyMissing_def)
  moreover have "map_option as_MissingWindows (open_state db2 f) = Some 0 \<and>
      map_option as_FirstSeenAt (open_state db2 f) = Some (as_FirstSeenAt (al_state row))" if "found f findings' \<noteq> []"
    using two(3) [of f] one that seen_steps_open [of "al_state ?row" "found f findings'" now'] open_row by (auto simp: window_step_def)
  ultimately show ?thesis using one by blast
qed

theorem alert_debounced_witness:
  "open_alert (fst (Reconcile (\<lambda>op. False) (\<lambda>e. []) (sample_rule ''r'') ''n'' [] 9
     (fst (Reconcile (\<lambda>op. False) (\<lambda>e. []) (sample_rule ''r'') ''n'' [] 8 sample_db)))) (fd_Fingerprint (sample_finding ''r'' ''n'' [])) = None"
proof -
  let ?f = "fd_Fingerprint (sample_finding ''r'' ''n'' [])"
  let ?step = "Reconcile (\<lambda>op. False) (\<lambda>e. []) (sample_rule ''r'') ''n'' []"
  have row: "open_alert sample_db ?f = Some (hd (alerts sample_db))" "al_rule (hd (alerts sample_db)) = ru_ID (sample_rule ''r'')"
    "al_node (hd (alerts sample_db)) = ''n''" "as_MissingWindows (al_state (hd (alerts sample_db))) = 0" by code_simp+
  have "snd (?step 8 sample_db) = None" "snd (?step 9 (fst (?step 8 sample_db))) = None" by code_simp+
  then have "?step 8 sample_db = (fst (?step 8 sample_db), None)"
    "?step 9 (fst (?step 8 sample_db)) = (fst (?step 9 (fst (?step 8 sample_db))), None)" by (metis prod.collapse)+
  from alert_debounced [OF sample_db_inv(1) row this(1) _ this(2)] show ?thesis by simp
qed

text \<open>The evaluator and the store agree: a run over any rules and nodes is never refused because of a finding's rule, node or
  evidence keys. When the sources answer for the node they are asked about, the evidence fits in 16 KiB and no statement fails,
  the run succeeds, and it keeps the invariant of the alerts.\<close>

theorem run_alerts_accepted:
  assumes "alerts_inv db" "\<forall>n. all_succeed (fails n)" "\<forall>e. length (encode e) \<le> 16384"
    "rules db = Inr rs" "nodes db = Inr ns"
    "\<forall>db rule node. \<exists>obs. observations db rule node now = Inr obs \<and> (\<forall>ob \<in> set obs. ob_NodeID ob = node)"
  shows "\<exists>db'. Run_alerts fails encode sha mul rules nodes observations now db = (db', None) \<and> alerts_inv db'"
  unfolding Run_alerts_def using assms(4,5) run_pairs_accepted [where observations = observations, OF assms(1-3,6)] by simp

theorem run_alerts_accepted_witness:
  "\<exists>db'. Run_alerts (\<lambda>n op. False) (\<lambda>e. []) id (\<lambda>x y. x) (\<lambda>db. Inr [sample_rule ''r'', sample_rule ''s'']) (\<lambda>db. Inr [''n''])
     (\<lambda>db rule node t. (Inr [sample_ob node []] :: unit + RuleObservation list)) 8 sample_db = (db', None) \<and> alerts_inv db'"
  by (rule run_alerts_accepted [OF sample_db_inv(1)]) (simp_all add: sample_ob_def all_succeed_def)

end
