(* ===== verification/Leases.thy ===== *)
theory Leases
  imports Model
begin

text \<open>
  The interface the workers of the server rely on when they share a row of the database: a lease that is granted when the row is free
  or the lease of another worker has expired, renewed and released by its holder only, and withdrawn by an administrator. The
  exclusion lemmas are proved here once, for the deliveries of the webhook and for the jobs of the scheduler.
\<close>

fun runs :: "('s \<Rightarrow> 'e \<Rightarrow> 's \<Rightarrow> bool) \<Rightarrow> 's \<Rightarrow> 'e list \<Rightarrow> 's \<Rightarrow> bool" where
  "runs step s [] s' = (s' = s)"
| "runs step s (e # es) s' = (\<exists>m. step s e m \<and> runs step m es s')"

lemma runs_append: "runs step s (es @ fs) s' \<longleftrightarrow> (\<exists>m. runs step s es m \<and> runs step m fs s')"
  by (induction es arbitrary: s) auto

lemma runs_invariant:
  assumes "runs step s es s'" "I s" "\<And>s e s'. step s e s' \<Longrightarrow> I s \<Longrightarrow> I s'"
  shows "I s'"
  using assms(1,2) by (induction es arbitrary: s) (auto dest: assms(3))

datatype 'o lease_event =
    Grant 'o go_time go_time
  | Renew 'o go_time
  | Release 'o
  | Withdraw
  | Elsewhere

fun lease_spec :: "('o \<times> go_time) option \<Rightarrow> 'o lease_event \<Rightarrow> ('o \<times> go_time) option \<Rightarrow> bool" where
  "lease_spec l (Grant p now until) l' = ((case l of Some (q, x) \<Rightarrow> x \<le> now | None \<Rightarrow> True) \<and> l' = Some (p, until))"
| "lease_spec l (Renew p until) l' = (l' = (case l of Some (q, x) \<Rightarrow> if q = p then Some (p, until) else l | None \<Rightarrow> None))"
| "lease_spec l (Release p) l' = (l' = l \<or> (\<exists>x. l = Some (p, x)) \<and> l' = None)"
| "lease_spec l Withdraw l' = (l' = l \<or> l' = None)"
| "lease_spec l Elsewhere l' = (l' = l)"

text \<open>The events that leave the lease of \<open>p\<close> until \<open>x\<close> alone: grants asked for before it expires, renewals to no earlier time, and
  what other workers release.\<close>

fun undisturbed :: "'o \<Rightarrow> go_time \<Rightarrow> 'o lease_event \<Rightarrow> bool" where
  "undisturbed p x (Grant q now until) = (now < x)"
| "undisturbed p x (Renew q until) = (q = p \<longrightarrow> x \<le> until)"
| "undisturbed p x (Release q) = (q \<noteq> p)"
| "undisturbed p x Withdraw = False"
| "undisturbed p x Elsewhere = True"

fun is_grant :: "'o lease_event \<Rightarrow> bool" where
  "is_grant (Grant p now until) = True"
| "is_grant _ = False"

locale lease_object =
  fixes lease :: "'s \<Rightarrow> ('o \<times> go_time) option"
    and step :: "'s \<Rightarrow> 'e \<Rightarrow> 's \<Rightarrow> bool"
    and event :: "'e \<Rightarrow> 'o lease_event"
  assumes step_spec: "step s e s' \<Longrightarrow> lease_spec (lease s) (event e) (lease s')"
begin

lemma step_kept:
  assumes "step s e s'" "lease s = Some (p, x)" "undisturbed p y (event e)" "y \<le> x"
  shows "\<not> is_grant (event e) \<and> (\<exists>x'. y \<le> x' \<and> lease s' = Some (p, x'))"
  using step_spec [OF assms(1)] assms(2-4) by (cases "event e") (auto split: if_splits)

lemma exclusive:
  assumes "runs step s es s'" "lease s = Some (p, x)" "y \<le> x" "\<forall>e \<in> set es. undisturbed p y (event e)"
  shows "(\<forall>e \<in> set es. \<not> is_grant (event e)) \<and> (\<exists>x'. y \<le> x' \<and> lease s' = Some (p, x'))"
  using assms
proof (induction es arbitrary: s x)
  case (Cons e es)
  then obtain m where m: "step s e m" "runs step m es s'" by auto
  from step_kept [OF m(1) Cons.prems(2) _ Cons.prems(3)] Cons.prems(4)
  obtain x' where "\<not> is_grant (event e)" "y \<le> x'" "lease m = Some (p, x')" by auto
  with Cons.IH [OF m(2)] Cons.prems(4) show ?case by auto
qed auto

text \<open>A lease that is granted a second time was disturbed first, or the second worker asked after the lease had run out.\<close>

lemma second_grant:
  assumes "runs step s (e # es @ [f]) s'" "event e = Grant p now until" "event f = Grant q now' until'"
    "\<forall>e \<in> set es. undisturbed p until (event e)"
  shows "until \<le> now'"
proof (rule ccontr)
  assume late: "\<not> until \<le> now'"
  obtain m n where m: "step s e m" "runs step m es n" "step n f s'"
    using assms(1) by (auto simp: runs_append)
  have "lease m = Some (p, until)" using step_spec [OF m(1)] assms(2) by simp
  from exclusive [OF m(2) this order.refl assms(4)] obtain x' where "until \<le> x'" "lease n = Some (p, x')" by auto
  with step_kept [OF m(3) this(2) _ this(1)] assms(3) late show False by auto
qed

end

end
