(* ===== verification/Webhook.thy ===== *)
theory Webhook
  imports Alerts Leases Pg_Text
begin

text \<open>
  The delivery of alerts to a webhook, \<^verbatim>\<open>internal/server/webhook\<close>: the queue of deliveries with its leases (\<^verbatim>\<open>repository.go\<close>), the
  signed payload (\<^verbatim>\<open>sign.go\<close>) and the worker (\<^verbatim>\<open>worker.go\<close>). The state is the table \<^const>\<open>deliveries\<close> the alerts are queued in, with
  the settings row beside it. Statements may fail; PostgreSQL also refuses a text with a zero byte. JSON, HMAC, HTTP and the parser
  of HTTP dates are parameters.
\<close>

subsection \<open>Text for the database\<close>

definition cleanExcerpt :: "string \<Rightarrow> string" where
  "cleanExcerpt value =
     (let value = ToValidUTF8 value in
      if 64 * 2 ^ 10 < length value then ToValidUTF8 (take (64 * 2 ^ 10) value) else value)"

subsection \<open>The queue\<close>

record Delivery =
  wd_ID :: nat
  wd_PublicID :: string
  wd_AlertID :: nat
  wd_EventType :: string
  wd_Severity :: string
  wd_Title :: string
  wd_Evidence :: evidence
  wd_OccurredAt :: go_time
  wd_Attempt :: nat

record WebhookSettings =
  ws_Enabled :: bool
  ws_Endpoint :: string
  ws_EncryptedSecret :: string
  ws_UpdatedAt :: go_time

record hook_db = ops_db +
  webhook_settings :: WebhookSettings

datatype claim_op = ClaimBegin | ClaimSelect | ClaimLease | ClaimCommit

datatype hook_error =
    ClaimFailed claim_op
  | NoAlert
  | TestPayload
  | UpdateFailed
  | ErrLeaseLost

abbreviation leaseTime :: go_time where "leaseTime \<equiv> 2 * 60 * 1000000000"

definition claimable :: "go_time \<Rightarrow> delivery_row \<Rightarrow> bool" where
  "claimable now row \<longleftrightarrow> dv_status row = Pending \<and> dv_next row \<le> now \<or>
     dv_status row = Leased \<and> (case dv_expires row of Some t \<Rightarrow> t < now | None \<Rightarrow> False)"

definition before :: "delivery_row \<Rightarrow> delivery_row \<Rightarrow> bool" where
  "before a b \<longleftrightarrow> dv_next a < dv_next b \<or> dv_next a = dv_next b \<and> dv_id a < dv_id b"

text \<open>\<^verbatim>\<open>ORDER BY next_attempt_at, id LIMIT 1\<close>.\<close>

fun first_due :: "delivery_row list \<Rightarrow> delivery_row option" where
  "first_due [] = None"
| "first_due (row # rows) = (case first_due rows of None \<Rightarrow> Some row | Some r \<Rightarrow> Some (if before r row then r else row))"

definition update_delivery :: "(delivery_row \<Rightarrow> bool) \<Rightarrow> (delivery_row \<Rightarrow> delivery_row) \<Rightarrow> delivery_row list \<Rightarrow> delivery_row list" where
  "update_delivery p f rows = map (\<lambda>row. if p row then f row else row) rows"

text \<open>The delivery a row stands for: of its alert, or of the payload of a test message.\<close>

definition scan_delivery :: "(string \<Rightarrow> Delivery \<Rightarrow> Delivery option) \<Rightarrow> hook_db \<Rightarrow> delivery_row \<Rightarrow> hook_error + Delivery" where
  "scan_delivery decode db row =
     (let d = \<lparr>wd_ID = dv_id row, wd_PublicID = [], wd_AlertID = 0, wd_EventType = dv_event row, wd_Severity = [], wd_Title = [],
               wd_Evidence = [], wd_OccurredAt = 0, wd_Attempt = dv_attempt row\<rparr> in
      andThen
        (case dv_alert row of
           Some alertID \<Rightarrow>
             (case find (\<lambda>a. al_id a = alertID) (alerts db) of
                Some a \<Rightarrow> Inr (d\<lparr>wd_AlertID := alertID, wd_Severity := as_Severity (al_state a), wd_Title := al_title a,
                  wd_OccurredAt := as_FirstSeenAt (al_state a), wd_Evidence := al_evidence a\<rparr>)
              | None \<Rightarrow> Inl NoAlert)
         | None \<Rightarrow>
             (case dv_payload row of
                Some payload \<Rightarrow> (case decode payload d of Some d' \<Rightarrow> Inr d' | None \<Rightarrow> Inl TestPayload)
              | None \<Rightarrow> Inl TestPayload))
        (\<lambda>d. Inr (d\<lparr>wd_PublicID := ''delivery-'' @ itoa (wd_ID d)\<rparr>)))"

text \<open>\<open>locked\<close> are the rows another transaction has locked, which the query skips.\<close>

definition Claim :: "(claim_op \<Rightarrow> bool) \<Rightarrow> (nat \<Rightarrow> bool) \<Rightarrow> (string \<Rightarrow> Delivery \<Rightarrow> Delivery option) \<Rightarrow> string \<Rightarrow> go_time \<Rightarrow> hook_db \<Rightarrow>
    hook_db \<times> (hook_error + Delivery option)" where
  "Claim fails locked decode owner now db =
     (if fails ClaimBegin then (db, Inl (ClaimFailed ClaimBegin))
      else if fails ClaimSelect then (db, Inl (ClaimFailed ClaimSelect))
      else case first_due (filter (\<lambda>row. claimable now row \<and> \<not> locked (dv_id row)) (deliveries db)) of
        None \<Rightarrow> (db, Inr None)
      | Some row \<Rightarrow>
          (case scan_delivery decode db row of
             Inl e \<Rightarrow> (db, Inl e)
           | Inr d \<Rightarrow>
               (if fails ClaimLease then (db, Inl (ClaimFailed ClaimLease))
                else if fails ClaimCommit then (db, Inl (ClaimFailed ClaimCommit))
                else (db\<lparr>deliveries := update_delivery (\<lambda>r. dv_id r = wd_ID d)
                       (\<lambda>r. r\<lparr>dv_status := Leased, dv_owner := Some owner, dv_expires := Some (now + leaseTime)\<rparr>) (deliveries db)\<rparr>,
                      Inr (Some d)))))"

definition held_by :: "nat \<Rightarrow> string \<Rightarrow> delivery_row \<Rightarrow> bool" where
  "held_by i owner row \<longleftrightarrow> dv_id row = i \<and> dv_status row = Leased \<and> dv_owner row = Some owner"

text \<open>An update of the leased row of a worker; \<open>ok\<close> when the statement succeeds.\<close>

definition update_held :: "bool \<Rightarrow> nat \<Rightarrow> string \<Rightarrow> (delivery_row \<Rightarrow> delivery_row) \<Rightarrow> hook_db \<Rightarrow> hook_db \<times> hook_error option" where
  "update_held ok i owner f db =
     (if \<not> ok then (db, Some UpdateFailed)
      else (db\<lparr>deliveries := update_delivery (held_by i owner) f (deliveries db)\<rparr>,
            if list_ex (held_by i owner) (deliveries db) then None else Some ErrLeaseLost))"

definition complete_row :: "int \<Rightarrow> string \<Rightarrow> go_time \<Rightarrow> delivery_row \<Rightarrow> delivery_row" where
  "complete_row status excerpt now r =
     r\<lparr>dv_status := Delivered, dv_response := Some status, dv_excerpt := cleanExcerpt excerpt, dv_error := [],
       dv_delivered := Some now, dv_owner := None, dv_expires := None\<rparr>"

definition fail_row :: "int \<Rightarrow> string \<Rightarrow> string \<Rightarrow> go_time \<Rightarrow> bool \<Rightarrow> delivery_row \<Rightarrow> delivery_row" where
  "fail_row status message excerpt next_at terminal r =
     r\<lparr>dv_status := if terminal then Terminal else Pending, dv_attempt := dv_attempt r + 1,
       dv_response := if status = 0 then None else Some status, dv_error := cleanExcerpt message, dv_excerpt := cleanExcerpt excerpt,
       dv_next := if terminal then dv_next r else next_at, dv_owner := None, dv_expires := None\<rparr>"

definition Complete :: "bool \<Rightarrow> nat \<Rightarrow> string \<Rightarrow> int \<Rightarrow> string \<Rightarrow> go_time \<Rightarrow> hook_db \<Rightarrow> hook_db \<times> hook_error option" where
  "Complete ok i owner status excerpt now db =
     update_held (ok \<and> pg_text (cleanExcerpt excerpt)) i owner (complete_row status excerpt now) db"

definition Fail :: "bool \<Rightarrow> nat \<Rightarrow> string \<Rightarrow> int \<Rightarrow> string \<Rightarrow> string \<Rightarrow> go_time \<Rightarrow> bool \<Rightarrow> hook_db \<Rightarrow> hook_db \<times> hook_error option" where
  "Fail ok i owner status message excerpt next_at terminal db =
     update_held (ok \<and> pg_text (cleanExcerpt message) \<and> pg_text (cleanExcerpt excerpt)) i owner
       (fail_row status message excerpt next_at terminal) db"

definition GetSettings :: "bool \<Rightarrow> hook_db \<Rightarrow> hook_error + WebhookSettings" where
  "GetSettings ok db = (if ok then Inr (webhook_settings db) else Inl UpdateFailed)"

definition SaveSettings :: "bool \<Rightarrow> WebhookSettings \<Rightarrow> hook_db \<Rightarrow> hook_db \<times> hook_error option" where
  "SaveSettings ok settings db =
     (if \<not> ok \<or> \<not> pg_text (ws_Endpoint settings) then (db, Some UpdateFailed)
      else (db\<lparr>webhook_settings := settings,
        deliveries := update_delivery (\<lambda>r. dv_event r = ''test'' \<and> dv_status r \<in> {Pending, Leased})
          (\<lambda>r. r\<lparr>dv_status := Cancelled, dv_owner := None, dv_expires := None\<rparr>) (deliveries db)\<rparr>, None))"

text \<open>The delivery of a test message; its title ends in two Chinese characters.\<close>

definition test_delivery :: "go_time \<Rightarrow> Delivery" where
  "test_delivery now = \<lparr>wd_ID = 0, wd_PublicID = [], wd_AlertID = 0, wd_EventType = ''test'', wd_Severity = SeverityInfo,
     wd_Title = ''Webhook '' @ map char_of [230, 181, 139, 232, 175, 149 :: nat], wd_Evidence = [(''source'', ''settings'')],
     wd_OccurredAt = now, wd_Attempt = 0\<rparr>"

definition QueueTest :: "bool \<Rightarrow> (Delivery \<Rightarrow> string) \<Rightarrow> go_time \<Rightarrow> hook_db \<Rightarrow> hook_db \<times> (hook_error + nat)" where
  "QueueTest ok encode now db =
     (if \<not> ok then (db, Inl UpdateFailed)
      else (db\<lparr>deliveries := deliveries db @ [\<lparr>dv_id = next_delivery db, dv_alert = None, dv_event = ''test'',
              dv_payload = Some (encode (test_delivery now)), dv_status = Pending, dv_attempt = 0, dv_next = now, dv_owner = None, dv_expires = None, dv_response = None, dv_excerpt = [],
              dv_error = [], dv_created = now, dv_delivered = None\<rparr>], next_delivery := Suc (next_delivery db)\<rparr>,
            Inr (next_delivery db)))"

subsection \<open>The signed payload\<close>

record WebhookPayload =
  wp_SchemaVersion :: int
  wp_DeliveryID :: string
  wp_AlertID :: nat
  wp_EventType :: string
  wp_Severity :: string
  wp_Title :: string
  wp_Evidence :: evidence
  wp_OccurredAt :: go_time
  wp_DashboardURL :: string

definition hex_byte :: "byte \<Rightarrow> string" where
  "hex_byte b = [hex_digit (unat b div 16), hex_digit (unat b mod 16)]"

definition EncodeAndSign :: "(WebhookPayload \<Rightarrow> string + string) \<Rightarrow> (string \<Rightarrow> string \<Rightarrow> bytes) \<Rightarrow> WebhookPayload \<Rightarrow> string \<Rightarrow>
    string + string \<times> string" where
  "EncodeAndSign marshal hmac payload secret =
     (if wp_SchemaVersion payload \<noteq> 1 \<or> wp_DeliveryID payload = [] then Inl ''webhook payload identity is required''
      else if secret = [] then Inl ''webhook signing secret is required''
      else andThen (marshal payload) (\<lambda>body. Inr (body, ''sha256='' @ concat (map hex_byte (hmac secret body)))))"

subsection \<open>The worker\<close>

record Worker =
  wk_endpoint :: string
  wk_secret :: string
  wk_dashboardURL :: string

record hook_request =
  rq_url :: string
  rq_body :: string
  rq_signature :: string
  rq_key :: string

record hook_response =
  rs_status :: int
  rs_body :: string
  rs_retryAfter :: string

record hook_env =
  he_marshal :: "WebhookPayload \<Rightarrow> string + string"
  he_hmac :: "string \<Rightarrow> string \<Rightarrow> bytes"
  he_newRequest :: "string \<Rightarrow> string option"
  he_parseTime :: "string \<Rightarrow> go_time option"
  he_encode :: "Delivery \<Rightarrow> string"
  he_decode :: "string \<Rightarrow> Delivery \<Rightarrow> Delivery option"

definition NewWorker :: "string \<Rightarrow> string \<Rightarrow> string \<Rightarrow> Worker" where
  "NewWorker endpoint secret dashboardURL =
     \<lparr>wk_endpoint = endpoint, wk_secret = secret,
      wk_dashboardURL = rev (dropWhile (\<lambda>c. c = CHR ''/'') (rev dashboardURL))\<rparr>"

definition retryDelay :: "int \<Rightarrow> go_time" where
  "retryDelay attempt =
     (let delays = [1, 5, 30, 2 * 60, 10 * 60] :: go_time list;
          attempt = (if attempt < 1 then 1 else attempt);
          attempt = (if int (length delays) < attempt then int (length delays) else attempt)
      in delays ! nat (attempt - 1) * (60 * 1000000000))"

definition parseRetryAfter :: "(string \<Rightarrow> go_time option) \<Rightarrow> string \<Rightarrow> go_time \<Rightarrow> go_time" where
  "parseRetryAfter parseTime value now =
     (let later = (case parseTime value of Some t \<Rightarrow> if now < t then min (t - now) (2 ^ 63 - 1) else 0 | None \<Rightarrow> 0) in
      case Atoi (TrimSpace value) of
        Some seconds \<Rightarrow> if 0 < seconds then sint (word_of_int (seconds * 1000000000) :: 64 word) else later
      | None \<Rightarrow> later)"

definition payload_of :: "Worker \<Rightarrow> Delivery \<Rightarrow> WebhookPayload" where
  "payload_of worker d =
     \<lparr>wp_SchemaVersion = 1, wp_DeliveryID = wd_PublicID d, wp_AlertID = wd_AlertID d, wp_EventType = wd_EventType d,
      wp_Severity = wd_Severity d, wp_Title = wd_Title d, wp_Evidence = wd_Evidence d, wp_OccurredAt = wd_OccurredAt d,
      wp_DashboardURL = (if wd_EventType d = ''test'' then wk_dashboardURL worker @ ''/settings''
        else wk_dashboardURL worker @ ''/alerts/'' @ itoa (wd_AlertID d))\<rparr>"

definition build_request :: "hook_env \<Rightarrow> Worker \<Rightarrow> Delivery \<Rightarrow> string + hook_request" where
  "build_request env worker d =
     andThen (EncodeAndSign (he_marshal env) (he_hmac env) (payload_of worker d) (wk_secret worker)) (\<lambda>(body, signature).
       case he_newRequest env (wk_endpoint worker) of
         Some e \<Rightarrow> Inl e
       | None \<Rightarrow> Inr \<lparr>rq_url = wk_endpoint worker, rq_body = body, rq_signature = signature, rq_key = wp_DeliveryID (payload_of worker d)\<rparr>)"

definition gives_up :: "nat \<Rightarrow> int \<Rightarrow> bool" where
  "gives_up attempt status \<longleftrightarrow> 6 \<le> attempt \<or> (400 \<le> status \<and> status < 500 \<and> status \<noteq> 408 \<and> status \<noteq> 429)"

text \<open>What the worker does with an answer, or with the error of the request.\<close>

definition settle :: "bool \<Rightarrow> hook_env \<Rightarrow> string \<Rightarrow> go_time \<Rightarrow> Delivery \<Rightarrow> hook_response option \<times> string option \<Rightarrow> hook_db \<Rightarrow>
    hook_db \<times> hook_error option" where
  "settle ok env owner now d answer db =
     (case answer of (response, requestErr) \<Rightarrow>
        (let status = (case response of Some r \<Rightarrow> rs_status r | None \<Rightarrow> 0);
             excerpt = (case response of Some r \<Rightarrow> take (64 * 2 ^ 10) (rs_body r) | None \<Rightarrow> []);
             attempt = wd_Attempt d + 1;
             terminal = gives_up attempt status;
             message = (case requestErr of Some e \<Rightarrow> e
               | None \<Rightarrow> if status \<noteq> 0 then ''webhook returned HTTP '' @ format_int status else ''webhook request failed'');
             delay = retryDelay (int attempt);
             server = (if status = 429 then parseRetryAfter (he_parseTime env) (case response of Some r \<Rightarrow> rs_retryAfter r | None \<Rightarrow> []) now
               else 0);
             next_at = (if terminal then 0 else now + (if delay < server then server else delay))
         in if requestErr = None \<and> 200 \<le> status \<and> status < 300 then Complete ok (wd_ID d) owner status excerpt now db
            else Fail ok (wd_ID d) owner status message excerpt next_at terminal db))"

definition RunOne :: "(claim_op \<Rightarrow> bool) \<Rightarrow> bool \<Rightarrow> (nat \<Rightarrow> bool) \<Rightarrow> hook_env \<Rightarrow> (hook_request \<Rightarrow> hook_response option \<times> string option) \<Rightarrow>
    Worker \<Rightarrow> string \<Rightarrow> go_time \<Rightarrow> hook_db \<Rightarrow> hook_db \<times> bool \<times> hook_error option" where
  "RunOne fails ok locked env do worker owner now db =
     (case Claim fails locked (he_decode env) owner now db of
        (db', Inl e) \<Rightarrow> (db', False, Some e)
      | (db', Inr None) \<Rightarrow> (db', False, None)
      | (db', Inr (Some d)) \<Rightarrow>
          (case build_request env worker d of
             Inl message \<Rightarrow> (case Fail ok (wd_ID d) owner 0 message [] 0 True db' of (db'', e) \<Rightarrow> (db'', True, e))
           | Inr rq \<Rightarrow> (case settle ok env owner now d (do rq) db' of (db'', e) \<Rightarrow> (db'', True, e))))"

subsection \<open>Workers at work\<close>

text \<open>Every server process runs one worker under its own name, one delivery at a time. The steps of all of them, of the alert
  runner and of the settings handlers interleave; a process may end at any moment and leave its lease behind.\<close>

record hook_state =
  hs_db :: hook_db
  hs_jobs :: "string \<Rightarrow> (Delivery \<times> go_time) option"

datatype hook_event =
    Claimed string go_time nat
  | Settled string nat
  | Crashed string
  | Alerted
  | SettingsSaved
  | TestQueued

definition settles :: "hook_env \<Rightarrow> string \<Rightarrow> Delivery \<times> go_time \<Rightarrow> hook_db \<Rightarrow> hook_db \<Rightarrow> bool" where
  "settles env owner job db db' \<longleftrightarrow>
     (\<exists>ok worker message. build_request env worker (fst job) = Inl message \<and> db' = fst (Fail ok (wd_ID (fst job)) owner 0 message [] 0 True db)) \<or>
     (\<exists>ok answer. db' = fst (settle ok env owner (snd job) (fst job) answer db))"

definition on_alerts :: "(ops_db \<Rightarrow> ops_db) \<Rightarrow> hook_db \<Rightarrow> hook_db" where
  "on_alerts f db = ops_db.extend (f (ops_db.truncate db)) (ops_db.more db)"

inductive hook_step :: "hook_env \<Rightarrow> hook_state \<Rightarrow> hook_event \<Rightarrow> hook_state \<Rightarrow> bool" for env where
  claim: "hs_jobs s owner = None \<Longrightarrow> Claim fails locked (he_decode env) owner now (hs_db s) = (db', Inr (Some d)) \<Longrightarrow>
    hook_step env s (Claimed owner now (wd_ID d)) \<lparr>hs_db = db', hs_jobs = (hs_jobs s)(owner := Some (d, now))\<rparr>"
| settle: "hs_jobs s owner = Some job \<Longrightarrow> settles env owner job (hs_db s) db' \<Longrightarrow>
    hook_step env s (Settled owner (wd_ID (fst job))) \<lparr>hs_db = db', hs_jobs = (hs_jobs s)(owner := None)\<rparr>"
| crash: "hook_step env s (Crashed owner) (s\<lparr>hs_jobs := (hs_jobs s)(owner := None)\<rparr>)"
| alert: "hook_step env s Alerted (s\<lparr>hs_db := on_alerts (\<lambda>db. fst (Reconcile fails encode rule node findings now db)) (hs_db s)\<rparr>)"
| save: "hook_step env s SettingsSaved (s\<lparr>hs_db := fst (SaveSettings ok settings (hs_db s))\<rparr>)"
| test: "hook_step env s TestQueued (s\<lparr>hs_db := fst (QueueTest ok (he_encode env) now (hs_db s))\<rparr>)"

inductive_cases hook_stepE: "hook_step env s e s'"

text \<open>What JSON promises of the payload of a test: the fields that are zero are left out when it is written and kept when it is read.\<close>

definition json_ok :: "hook_env \<Rightarrow> bool" where
  "json_ok env \<longleftrightarrow> (\<forall>t d. he_decode env (he_encode env (test_delivery t)) d =
     Some (d\<lparr>wd_EventType := wd_EventType (test_delivery t), wd_Severity := wd_Severity (test_delivery t),
       wd_Title := wd_Title (test_delivery t), wd_Evidence := wd_Evidence (test_delivery t), wd_OccurredAt := t\<rparr>))"

subsection \<open>The invariant of the queue\<close>

definition row_life :: "delivery_row \<Rightarrow> bool" where
  "row_life row \<longleftrightarrow> (dv_owner row \<noteq> None) = (dv_status row = Leased) \<and> (dv_expires row \<noteq> None) = (dv_status row = Leased) \<and>
     (dv_delivered row \<noteq> None) = (dv_status row = Delivered) \<and>
     (if dv_status row = Terminal then 1 \<le> dv_attempt row \<and> dv_attempt row \<le> 6 else dv_attempt row \<le> 5)"

definition source_ok :: "hook_env \<Rightarrow> nat set \<Rightarrow> delivery_row \<Rightarrow> bool" where
  "source_ok env ids row \<longleftrightarrow> (case dv_alert row of
     Some a \<Rightarrow> a \<in> ids
   | None \<Rightarrow> dv_event row = ''test'' \<and> (\<exists>t. dv_payload row = Some (he_encode env (test_delivery t))))"

definition queue_inv :: "hook_env \<Rightarrow> 'a ops_db_scheme \<Rightarrow> bool" where
  "queue_inv env db \<longleftrightarrow> distinct (map dv_id (deliveries db)) \<and>
     (\<forall>row \<in> set (deliveries db). dv_id row < next_delivery db \<and> row_life row \<and> source_ok env (al_id ` set (alerts db)) row)"

definition jobs_inv :: "delivery_row list \<Rightarrow> (string \<Rightarrow> (Delivery \<times> go_time) option) \<Rightarrow> bool" where
  "jobs_inv rows jobs \<longleftrightarrow> (\<forall>owner d t row. jobs owner = Some (d, t) \<longrightarrow> row \<in> set rows \<longrightarrow> held_by (wd_ID d) owner row \<longrightarrow>
     wd_Attempt d = dv_attempt row)"

definition hook_inv :: "hook_env \<Rightarrow> hook_state \<Rightarrow> bool" where
  "hook_inv env s \<longleftrightarrow> alerts_inv (ops_db.truncate (hs_db s)) \<and> queue_inv env (hs_db s) \<and> jobs_inv (deliveries (hs_db s)) (hs_jobs s)"

lemma first_due_SomeD: "first_due rows = Some row \<Longrightarrow> row \<in> set rows"
  by (induction rows arbitrary: row) (auto split: option.splits if_splits)

lemma first_due_None: "first_due rows = None \<longleftrightarrow> rows = []"
  by (cases rows) (auto split: option.splits)

lemma update_delivery_ids: "(\<And>r. dv_id (f r) = dv_id r) \<Longrightarrow> map dv_id (update_delivery p f rows) = map dv_id rows"
  by (simp add: update_delivery_def)

lemma in_update_delivery: "r \<in> set (update_delivery p f rows) \<longleftrightarrow> (\<exists>x \<in> set rows. r = (if p x then f x else x))"
  by (auto simp: update_delivery_def)

text \<open>A change of rows that keeps their identity, source and life keeps the invariant.\<close>

lemma update_delivery_inv:
  assumes "queue_inv env db" "\<And>r. dv_id (f r) = dv_id r \<and> dv_alert (f r) = dv_alert r \<and> dv_event (f r) = dv_event r \<and> dv_payload (f r) = dv_payload r"
    "\<And>r. r \<in> set (deliveries db) \<Longrightarrow> p r \<Longrightarrow> row_life r \<Longrightarrow> row_life (f r)"
  shows "queue_inv env (db\<lparr>deliveries := update_delivery p f (deliveries db)\<rparr>)"
proof -
  have "source_ok env ids (f r) = source_ok env ids r" for ids r using assms(2) by (simp add: source_ok_def split: option.split)
  then show ?thesis using assms by (auto simp: queue_inv_def update_delivery_ids in_update_delivery)
qed

lemma unique_delivery:
  "queue_inv env db \<Longrightarrow> r \<in> set (deliveries db) \<Longrightarrow> r' \<in> set (deliveries db) \<Longrightarrow> dv_id r = dv_id r' \<Longrightarrow> r = r'"
  by (auto simp: queue_inv_def distinct_map inj_on_def)

subsection \<open>Claiming\<close>

lemma scan_delivery_Inr:
  assumes "scan_delivery (he_decode env) db row = Inr d" "source_ok env ids row" "json_ok env"
  shows "wd_ID d = dv_id row" "wd_Attempt d = dv_attempt row" "wd_EventType d = dv_event row \<or> dv_alert row = None"
    "wd_PublicID d = ''delivery-'' @ itoa (dv_id row)"
  using assms by (auto simp: scan_delivery_def andThen_Inr source_ok_def json_ok_def split: option.splits)

lemma scan_delivery_total:
  assumes "source_ok env (al_id ` set (alerts db)) row" "json_ok env"
  shows "\<exists>d. scan_delivery (he_decode env) db row = Inr d"
  using assms by (auto simp: scan_delivery_def source_ok_def json_ok_def find_None_iff split: option.splits)

lemma Claim_Some:
  assumes "Claim fails locked (he_decode env) owner now db = (db', Inr (Some d))" "queue_inv env db" "json_ok env"
  obtains row where "row \<in> set (deliveries db)" "claimable now row" "wd_ID d = dv_id row" "wd_Attempt d = dv_attempt row"
    "db' = db\<lparr>deliveries := update_delivery (\<lambda>r. dv_id r = dv_id row)
       (\<lambda>r. r\<lparr>dv_status := Leased, dv_owner := Some owner, dv_expires := Some (now + leaseTime)\<rparr>) (deliveries db)\<rparr>"
proof -
  obtain row where row: "first_due (filter (\<lambda>row. claimable now row \<and> \<not> locked (dv_id row)) (deliveries db)) = Some row"
    "scan_delivery (he_decode env) db row = Inr d"
    "db' = db\<lparr>deliveries := update_delivery (\<lambda>r. dv_id r = wd_ID d)
       (\<lambda>r. r\<lparr>dv_status := Leased, dv_owner := Some owner, dv_expires := Some (now + leaseTime)\<rparr>) (deliveries db)\<rparr>"
    using assms(1) by (auto simp: Claim_def split: if_splits option.splits sum.splits)
  then have mem: "row \<in> set (deliveries db)" "claimable now row" using first_due_SomeD [OF row(1)] by auto
  then have "source_ok env (al_id ` set (alerts db)) row" using assms(2) by (simp add: queue_inv_def)
  from that [OF mem] scan_delivery_Inr [OF row(2) this assms(3)] row(3) show thesis by simp
qed

lemma claimable_life: "claimable now row \<Longrightarrow> row_life row \<Longrightarrow>
    row_life (row\<lparr>dv_status := Leased, dv_owner := Some owner, dv_expires := Some x\<rparr>)"
  by (auto simp: claimable_def row_life_def)

lemma truncate_simps: "alerts (ops_db.truncate db) = alerts db" "next_alert (ops_db.truncate db) = next_alert db"
  "deliveries (ops_db.truncate db) = deliveries db" "next_delivery (ops_db.truncate db) = next_delivery db"
  by (simp_all add: ops_db.truncate_def)

lemma alerts_inv_untouched [simp]:
  "alerts_inv (ops_db.truncate (db\<lparr>deliveries := x\<rparr>)) = alerts_inv (ops_db.truncate db)"
  "alerts_inv (ops_db.truncate (db\<lparr>next_delivery := n\<rparr>)) = alerts_inv (ops_db.truncate db)"
  "alerts_inv (ops_db.truncate (d\<lparr>webhook_settings := w\<rparr>)) = alerts_inv (ops_db.truncate d)"
  by (simp_all add: alerts_inv_def truncate_simps)

lemma Claim_inv:
  assumes "Claim fails locked (he_decode env) owner now (hs_db s) = (db', Inr (Some d))" "hook_inv env s" "json_ok env"
  shows "hook_inv env \<lparr>hs_db = db', hs_jobs = (hs_jobs s)(owner := Some (d, now))\<rparr>"
proof -
  have queue: "queue_inv env (hs_db s)" using assms(2) by (simp add: hook_inv_def)
  from Claim_Some [OF assms(1) queue assms(3)] obtain row where row: "row \<in> set (deliveries (hs_db s))" "claimable now row"
    "wd_ID d = dv_id row" "wd_Attempt d = dv_attempt row"
    "db' = (hs_db s)\<lparr>deliveries := update_delivery (\<lambda>r. dv_id r = dv_id row)
       (\<lambda>r. r\<lparr>dv_status := Leased, dv_owner := Some owner, dv_expires := Some (now + leaseTime)\<rparr>) (deliveries (hs_db s))\<rparr>" .
  have only: "r = row" if "r \<in> set (deliveries (hs_db s))" "dv_id r = dv_id row" for r using unique_delivery [OF queue that(1) row(1) that(2)] .
  have "queue_inv env db'" unfolding row(5)
    by (rule update_delivery_inv [OF queue]) (auto dest!: only intro: claimable_life [OF row(2)])
  moreover have "jobs_inv (deliveries db') ((hs_jobs s)(owner := Some (d, now)))"
    using assms(2) row(3,4) only unfolding jobs_inv_def hook_inv_def row(5)
    by (auto simp: in_update_delivery held_by_def) metis+
  ultimately show ?thesis using assms(2) by (simp add: hook_inv_def row(5))
qed

subsection \<open>Settling\<close>

lemma update_held_inv:
  assumes "hook_inv env s"
    "\<And>r. dv_id (f r) = dv_id r \<and> dv_alert (f r) = dv_alert r \<and> dv_event (f r) = dv_event r \<and> dv_payload (f r) = dv_payload r \<and> dv_status (f r) \<noteq> Leased"
    "\<And>r. r \<in> set (deliveries (hs_db s)) \<Longrightarrow> held_by i owner r \<Longrightarrow> row_life r \<Longrightarrow> row_life (f r)"
  shows "hook_inv env \<lparr>hs_db = fst (update_held ok i owner f (hs_db s)), hs_jobs = (hs_jobs s)(owner := None)\<rparr>"
proof -
  have "queue_inv env ((hs_db s)\<lparr>deliveries := update_delivery (held_by i owner) f (deliveries (hs_db s))\<rparr>)"
    by (rule update_delivery_inv) (use assms in \<open>auto simp: hook_inv_def\<close>)
  moreover have "jobs_inv (update_delivery (held_by i owner) f (deliveries (hs_db s))) ((hs_jobs s)(owner := None))"
    using assms(1,2) unfolding hook_inv_def jobs_inv_def in_update_delivery held_by_def by (auto split: if_splits)
  moreover have "jobs_inv (deliveries (hs_db s)) ((hs_jobs s)(owner := None))" using assms(1) by (auto simp: hook_inv_def jobs_inv_def)
  ultimately show ?thesis using assms(1) by (auto simp: hook_inv_def update_held_def)
qed

lemma Fail_inv:
  assumes "hook_inv env s" "\<And>r. r \<in> set (deliveries (hs_db s)) \<Longrightarrow> held_by i owner r \<Longrightarrow> terminal \<or> dv_attempt r < 5"
  shows "hook_inv env \<lparr>hs_db = fst (Fail ok i owner status message excerpt next_at terminal (hs_db s)), hs_jobs = (hs_jobs s)(owner := None)\<rparr>"
proof -
  have "row_life (fail_row status message excerpt next_at terminal r)"
    if "r \<in> set (deliveries (hs_db s))" "held_by i owner r" "row_life r" for r
    using assms(2) [OF that(1,2)] that(2,3) by (auto simp: row_life_def held_by_def fail_row_def)
  then show ?thesis unfolding Fail_def using assms(1) by (intro update_held_inv) (auto simp: fail_row_def)
qed

lemma Complete_inv:
  assumes "hook_inv env s"
  shows "hook_inv env \<lparr>hs_db = fst (Complete ok i owner status excerpt now (hs_db s)), hs_jobs = (hs_jobs s)(owner := None)\<rparr>"
  unfolding Complete_def using assms by (intro update_held_inv) (auto simp: row_life_def held_by_def complete_row_def)

lemma settles_inv:
  assumes "hook_inv env s" "hs_jobs s owner = Some job" "settles env owner job (hs_db s) db'"
  shows "hook_inv env \<lparr>hs_db = db', hs_jobs = (hs_jobs s)(owner := None)\<rparr>"
proof -
  obtain d t where job: "job = (d, t)" by (cases job)
  have attempt: "wd_Attempt d = dv_attempt r" if "r \<in> set (deliveries (hs_db s))" "held_by (wd_ID d) owner r" for r
    using assms(1,2) that job by (auto simp: hook_inv_def jobs_inv_def)
  show ?thesis
    using assms(3) unfolding settles_def job fst_conv snd_conv
  proof (elim disjE exE conjE)
    fix ok worker message
    assume "db' = fst (Fail ok (wd_ID d) owner 0 message [] 0 True (hs_db s))"
    then show ?thesis using Fail_inv [OF assms(1)] by simp
  next
    fix ok answer
    assume db': "db' = fst (settle ok env owner t d answer (hs_db s))"
    show ?thesis
      unfolding db' settle_def Let_def split_beta
      by (auto intro!: Complete_inv Fail_inv assms(1) dest: attempt simp: gives_up_def)
  qed
qed

subsection \<open>New deliveries\<close>

lemma queue_inv_cong: "queue_inv env (db\<lparr>next_alert := n\<rparr>) = queue_inv env db" "queue_inv env (db\<lparr>alert_rules := rs\<rparr>) = queue_inv env db"
  by (simp_all add: queue_inv_def)

lemma queue_inv_alerts:
  assumes "queue_inv env db" "al_id ` set (alerts db) \<subseteq> al_id ` set rows"
  shows "queue_inv env (db\<lparr>alerts := rows\<rparr>)"
  using assms unfolding queue_inv_def source_ok_def by (auto split: option.splits)

lemma queue_inv_append:
  assumes "queue_inv env db" "dv_id row = next_delivery db" "row_life row" "source_ok env (al_id ` set (alerts db)) row"
  shows "queue_inv env (db\<lparr>deliveries := deliveries db @ [row], next_delivery := Suc (next_delivery db)\<rparr>)"
  using assms by (auto simp: queue_inv_def less_Suc_eq)

lemma insertDelivery_queue:
  assumes "insertDelivery fails a event now db = Inr db'" "queue_inv env db" "a \<in> al_id ` set (alerts db)"
  shows "queue_inv env db'"
  using assms by (auto simp: insertDelivery_def statement_Inr row_life_def source_ok_def intro!: queue_inv_append)

lemma update_row_ids: "(\<And>r. al_id (f r) = al_id r) \<Longrightarrow> al_id ` set (update_row i f rows) = al_id ` set rows"
proof -
  assume "\<And>r. al_id (f r) = al_id r"
  then have "map al_id (update_row i f rows) = map al_id rows" by (simp add: update_row_def)
  then show ?thesis by (metis list.set_map)
qed

lemma apply_finding_row_queue:
  assumes "apply_finding_row fails fd now db = Inr db'" "queue_inv env db"
  shows "queue_inv env db'"
proof (cases "open_alert db (fd_Fingerprint fd)")
  case None
  then have "insertDelivery fails (next_alert db) ''opened'' now (db\<lparr>alerts := alerts db @ [new_alert db fd now], next_alert := Suc (next_alert db)\<rparr>) = Inr db'"
    using assms(1) by (auto simp: apply_finding_row_def andThen_Inr statement_Inr)
  then show ?thesis
    by (rule insertDelivery_queue) (auto simp: queue_inv_cong new_alert_def intro: queue_inv_alerts assms(2))
next
  case (Some row)
  obtain st notify where app: "ApplyFinding (Some (al_state row)) fd now = (st, notify)" by fastforce
  let ?db = "db\<lparr>alerts := update_row (al_id row) (refresh_alert fd st) (alerts db)\<rparr>"
  have ids: "al_id ` set (update_row (al_id row) (refresh_alert fd st) (alerts db)) = al_id ` set (alerts db)"
    by (rule update_row_ids) (simp add: refresh_alert_def)
  have q: "queue_inv env ?db" by (rule queue_inv_alerts [OF assms(2)]) (simp add: ids)
  have "row \<in> set (alerts db)" using Some by (auto simp: open_alert_def find_Some_iff)
  then have "al_id row \<in> al_id ` set (alerts ?db)" using ids by simp
  moreover have "if notify then insertDelivery fails (al_id row) ''severity_increased'' now ?db = Inr db' else db' = ?db"
    using assms(1) Some app by (auto simp: apply_finding_row_def andThen_Inr statement_Inr split: if_splits)
  ultimately show ?thesis using q insertDelivery_queue by (auto split: if_splits)
qed

lemma apply_findings_queue:
  "apply_findings fails encode rule node now fds db = Inr db' \<Longrightarrow> queue_inv env db \<Longrightarrow> queue_inv env db'"
  by (induction fds arbitrary: db) (auto simp: andThen_Inr apply_finding_row_queue split: if_splits option.splits)

lemma mark_missing_queue: "mark_missing fails now row db = Inr db' \<Longrightarrow> queue_inv env db \<Longrightarrow> queue_inv env db'"
  by (auto simp: mark_missing_def statement_Inr split: if_splits prod.splits intro!: queue_inv_alerts equalityD2 update_row_ids)

lemma mark_all_queue: "mark_all fails now rows db = Inr db' \<Longrightarrow> queue_inv env db \<Longrightarrow> queue_inv env db'"
  by (induction rows arbitrary: db) (auto simp: andThen_Inr intro: mark_missing_queue)

lemma Reconcile_queue:
  assumes "queue_inv env db"
  shows "queue_inv env (fst (Reconcile fails encode rule node findings now db))"
proof (cases "reconcile_tx fails encode rule node findings now db")
  case (Inr db')
  then obtain db1 where db1: "apply_findings fails encode rule node now findings (db\<lparr>alert_rules := AList.update (ru_ID rule) rule (alert_rules db)\<rparr>) = Inr db1"
    "applyMissing fails (ru_ID rule) node (map fd_Fingerprint findings) now db1 = Inr db'"
    by (auto simp: reconcile_tx_def andThen_Inr statement_Inr)
  then have "queue_inv env db1" using apply_findings_queue assms by (metis queue_inv_cong(2))
  then show ?thesis using Inr db1(2) mark_all_queue by (auto simp: Reconcile_def applyMissing_def andThen_Inr statement_Inr)
qed (simp add: Reconcile_def assms)

lemma Reconcile_appends: "alerts_inv db \<Longrightarrow> \<exists>new. deliveries (fst (Reconcile fails encode rule node findings now db)) = deliveries db @ new \<and>
    list_all (\<lambda>d. dv_status d = Pending) new"
proof (cases "Reconcile fails encode rule node findings now db")
  case (Pair db' e)
  assume inv: "alerts_inv db"
  show ?thesis
  proof (cases e)
    case None
    obtain new lg where "deliveries db' = deliveries db @ new" "list_all2 (tells db') new lg"
      using reconcile_effect(5) [OF inv Pair [unfolded None]] by blast
    then show ?thesis using Pair by (auto simp: list_all_iff tells_def list_all2_conv_all_nth in_set_conv_nth)
  next
    case (Some err)
    then show ?thesis using Pair by (auto simp: Reconcile_def split: sum.splits)
  qed
qed

lemma on_alerts_simps: "deliveries (on_alerts f db) = deliveries (f (ops_db.truncate db))"
  "ops_db.truncate (on_alerts f db) = f (ops_db.truncate db)"
  "next_delivery (on_alerts f db) = next_delivery (f (ops_db.truncate db))" "alerts (on_alerts f db) = alerts (f (ops_db.truncate db))"
  by (simp_all add: on_alerts_def ops_db.extend_def ops_db.truncate_def)

lemma queue_inv_truncate: "queue_inv env (ops_db.truncate db) = queue_inv env db"
  by (simp add: queue_inv_def truncate_simps)

lemma alert_inv:
  assumes "hook_inv env s"
  shows "hook_inv env (s\<lparr>hs_db := on_alerts (\<lambda>db. fst (Reconcile fails encode rule node findings now db)) (hs_db s)\<rparr>)"
proof -
  let ?db = "ops_db.truncate (hs_db s)" let ?db' = "fst (Reconcile fails encode rule node findings now ?db)"
  have inv: "alerts_inv ?db" "queue_inv env ?db" "jobs_inv (deliveries ?db) (hs_jobs s)"
    using assms by (simp_all add: hook_inv_def queue_inv_truncate truncate_simps)
  obtain new where new: "deliveries ?db' = deliveries ?db @ new" "list_all (\<lambda>d. dv_status d = Pending) new"
    using Reconcile_appends [OF inv(1)] by blast
  have "jobs_inv (deliveries ?db') (hs_jobs s)"
    using inv(3) new by (auto simp: jobs_inv_def held_by_def list_all_iff)
  moreover have "alerts_inv ?db'"
    using inv(1) reconcile_effect(1) [OF inv(1), of fails encode rule node findings now] by (auto simp: Reconcile_def split: sum.splits)
  moreover have "queue_inv env ?db'" by (rule Reconcile_queue [OF inv(2)])
  ultimately show ?thesis by (simp add: hook_inv_def on_alerts_simps queue_inv_def)
qed

lemma save_inv:
  assumes "hook_inv env s"
  shows "hook_inv env (s\<lparr>hs_db := fst (SaveSettings ok settings (hs_db s))\<rparr>)"
proof -
  let ?rows = "update_delivery (\<lambda>r. dv_event r = ''test'' \<and> dv_status r \<in> {Pending, Leased})
    (\<lambda>r. r\<lparr>dv_status := Cancelled, dv_owner := None, dv_expires := None\<rparr>) (deliveries (hs_db s))"
  have "queue_inv env ((hs_db s)\<lparr>deliveries := ?rows\<rparr>)"
    by (rule update_delivery_inv) (use assms in \<open>auto simp: hook_inv_def row_life_def\<close>)
  moreover have "r \<in> set (deliveries (hs_db s))" if "r \<in> set ?rows" "dv_status r = Leased" for r
    using that unfolding in_update_delivery by (auto split: if_splits)
  then have "jobs_inv ?rows (hs_jobs s)" using assms unfolding hook_inv_def jobs_inv_def held_by_def by blast
  ultimately show ?thesis using assms by (auto simp: hook_inv_def SaveSettings_def queue_inv_def)
qed

lemma test_inv: "hook_inv env s \<Longrightarrow> hook_inv env (s\<lparr>hs_db := fst (QueueTest ok (he_encode env) now (hs_db s))\<rparr>)"
  by (auto simp: hook_inv_def QueueTest_def row_life_def source_ok_def jobs_inv_def held_by_def intro!: queue_inv_append)

subsection \<open>All steps\<close>

lemma hook_step_inv: "hook_step env s e s' \<Longrightarrow> json_ok env \<Longrightarrow> hook_inv env s \<Longrightarrow> hook_inv env s'"
proof (induction rule: hook_step.induct)
  case (crash s owner)
  then show ?case by (auto simp: hook_inv_def jobs_inv_def)
qed (simp_all add: Claim_inv settles_inv alert_inv save_inv test_inv)

text \<open>The life of one delivery, as the steps of all workers move it.\<close>

definition row_moves :: "hook_event \<Rightarrow> delivery_row \<Rightarrow> delivery_row \<Rightarrow> bool" where
  "row_moves e row row' \<longleftrightarrow>
     (case e of
        Claimed owner now i \<Rightarrow>
          (if i = dv_id row then claimable now row \<and>
             row' = row\<lparr>dv_status := Leased, dv_owner := Some owner, dv_expires := Some (now + leaseTime)\<rparr>
           else row' = row)
      | Settled owner i \<Rightarrow> row' = row \<or> held_by i owner row \<and> dv_owner row' = None \<and>
          (dv_status row' = Delivered \<and> dv_attempt row' = dv_attempt row \<or>
           dv_status row' \<in> {Pending, Terminal} \<and> dv_attempt row' = dv_attempt row + 1)
      | SettingsSaved \<Rightarrow> row' = row \<or>
          dv_event row = ''test'' \<and> dv_status row \<in> {Pending, Leased} \<and> dv_status row' = Cancelled \<and> dv_owner row' = None
      | _ \<Rightarrow> row' = row)"

fun claimed_id :: "hook_event \<Rightarrow> nat option" where
  "claimed_id (Claimed owner now i) = Some i"
| "claimed_id _ = None"

lemma row_moves_refl: "claimed_id e = None \<Longrightarrow> row_moves e row row"
  by (cases e) (simp_all add: row_moves_def)

definition rows_move :: "hook_event \<Rightarrow> delivery_row list \<Rightarrow> delivery_row list \<Rightarrow> bool" where
  "rows_move e rows rows' \<longleftrightarrow> set_option (claimed_id e) \<subseteq> dv_id ` set rows \<and>
     (\<exists>g new. rows' = map g rows @ new \<and> list_all (\<lambda>d. dv_status d = Pending) new \<and>
       (\<forall>row \<in> set rows. dv_id (g row) = dv_id row \<and> row_moves e row (g row)))"

lemma rows_move_append: "claimed_id e = None \<Longrightarrow> list_all (\<lambda>d. dv_status d = Pending) new \<Longrightarrow> rows_move e rows (rows @ new)"
  unfolding rows_move_def by (intro conjI exI [of _ id] exI [of _ new]) (simp_all add: row_moves_refl)

lemma rows_move_same: "claimed_id e = None \<Longrightarrow> rows_move e rows rows"
  using rows_move_append [of e "[]"] by simp

lemma rows_move_update:
  assumes "\<And>row. row \<in> set rows \<Longrightarrow> p row \<Longrightarrow> dv_id (f row) = dv_id row \<and> row_moves e row (f row)"
    "\<And>row. row \<in> set rows \<Longrightarrow> \<not> p row \<Longrightarrow> row_moves e row row" "set_option (claimed_id e) \<subseteq> dv_id ` set rows"
  shows "rows_move e rows (update_delivery p f rows)"
  unfolding rows_move_def update_delivery_def
  by (intro conjI exI [of _ "\<lambda>row. if p row then f row else row"] exI [of _ "[]"]) (use assms in auto)

lemma update_held_moves:
  assumes "claimed_id e = None" "\<And>row. row \<in> set (deliveries db) \<Longrightarrow> held_by i owner row \<Longrightarrow> dv_id (f row) = dv_id row \<and> row_moves e row (f row)"
  shows "rows_move e (deliveries db) (deliveries (fst (update_held ok i owner f db)))"
  using rows_move_update [of "deliveries db" "held_by i owner" f e] rows_move_same assms row_moves_refl by (auto simp: update_held_def)

lemma Fail_moves: "rows_move (Settled owner i) (deliveries db) (deliveries (fst (Fail ok i owner status message excerpt next_at terminal db)))"
  unfolding Fail_def by (rule update_held_moves) (simp_all add: row_moves_def fail_row_def)

lemma Complete_moves: "rows_move (Settled owner i) (deliveries db) (deliveries (fst (Complete ok i owner status excerpt now db)))"
  unfolding Complete_def by (rule update_held_moves) (simp_all add: row_moves_def complete_row_def)

lemma settles_moves: "settles env owner job db db' \<Longrightarrow> rows_move (Settled owner (wd_ID (fst job))) (deliveries db) (deliveries db')"
  by (auto simp: settles_def settle_def Let_def split_beta Fail_moves Complete_moves)

lemma hook_step_moves:
  assumes "hook_step env s e s'" "json_ok env" "hook_inv env s"
  shows "rows_move e (deliveries (hs_db s)) (deliveries (hs_db s'))"
  using assms
proof (induction rule: hook_step.induct)
  case (claim s owner fails locked now db' d)
  have queue: "queue_inv env (hs_db s)" using claim by (simp add: hook_inv_def)
  from Claim_Some [OF claim(2) queue claim(3)] obtain row where row: "row \<in> set (deliveries (hs_db s))" "claimable now row"
    "wd_ID d = dv_id row" "wd_Attempt d = dv_attempt row"
    "db' = (hs_db s)\<lparr>deliveries := update_delivery (\<lambda>r. dv_id r = dv_id row)
       (\<lambda>r. r\<lparr>dv_status := Leased, dv_owner := Some owner, dv_expires := Some (now + leaseTime)\<rparr>) (deliveries (hs_db s))\<rparr>" .
  have "rows_move (Claimed owner now (wd_ID d)) (deliveries (hs_db s)) (deliveries db')"
    unfolding row(5) by simp (rule rows_move_update, auto dest!: unique_delivery [OF queue _ row(1)] simp: row_moves_def row(1-3))
  then show ?case by simp
next
  case (settle s owner job db')
  then show ?case by (simp add: settles_moves)
next
  case (alert s fails encode rule node findings now)
  then have "alerts_inv (ops_db.truncate (hs_db s))" by (simp add: hook_inv_def)
  from Reconcile_appends [OF this, of fails encode rule node findings now] show ?case
    by (auto simp: on_alerts_simps truncate_simps intro!: rows_move_append)
next
  case (save s ok settings)
  then show ?case by (auto simp: SaveSettings_def rows_move_same row_moves_def intro!: rows_move_update)
next
  case (test s ok now)
  then show ?case by (auto simp: QueueTest_def rows_move_same intro!: rows_move_append)
qed (simp add: rows_move_same)

abbreviation settled_row :: "delivery_row \<Rightarrow> bool" where
  "settled_row row \<equiv> dv_status row \<in> {Delivered, Terminal, Cancelled}"

lemma rows_move_final:
  assumes "rows_move e rows rows'" "row \<in> set rows" "settled_row row"
  shows "row \<in> set rows'"
proof -
  obtain g new where g: "rows' = map g rows @ new" "\<forall>row \<in> set rows. row_moves e row (g row)" using assms(1) by (auto simp: rows_move_def)
  then have "row_moves e row (g row)" using assms(2) by blast
  then have "g row = row" using assms(3) by (auto simp: row_moves_def claimable_def held_by_def split: hook_event.splits if_splits)
  then show ?thesis using g(1) assms(2) by force
qed

lemma runs_hook_inv: "runs (hook_step env) s es s' \<Longrightarrow> json_ok env \<Longrightarrow> hook_inv env s \<Longrightarrow> hook_inv env s'"
  using runs_invariant [of "hook_step env" s es s' "hook_inv env"] hook_step_inv by blast

lemma runs_final:
  assumes "runs (hook_step env) s es s'" "json_ok env" "hook_inv env s" "row \<in> set (deliveries (hs_db s))" "settled_row row"
  shows "row \<in> set (deliveries (hs_db s'))"
  using assms
proof (induction es arbitrary: s)
  case (Cons e es)
  then obtain m where m: "hook_step env s e m" "runs (hook_step env) m es s'" by auto
  show ?case
    using Cons.IH [OF m(2) Cons.prems(2) hook_step_inv [OF m(1) Cons.prems(2,3)]]
      rows_move_final [OF hook_step_moves [OF m(1) Cons.prems(2,3)] Cons.prems(4,5)] Cons.prems(5) by blast
qed simp

subsection \<open>The lease of a delivery\<close>

definition row_lease :: "delivery_row \<Rightarrow> (string \<times> go_time) option" where
  "row_lease row = (case (dv_owner row, dv_expires row) of (Some p, Some x) \<Rightarrow> Some (p, x) | _ \<Rightarrow> None)"

definition delivery_lease :: "nat \<Rightarrow> hook_state \<Rightarrow> (string \<times> go_time) option" where
  "delivery_lease i s = (case find (\<lambda>row. dv_id row = i) (deliveries (hs_db s)) of Some row \<Rightarrow> row_lease row | None \<Rightarrow> None)"

fun lease_view :: "nat \<Rightarrow> hook_event \<Rightarrow> string lease_event" where
  "lease_view i (Claimed p now j) = (if j = i then Grant p now (now + leaseTime) else Elsewhere)"
| "lease_view i (Settled p j) = (if j = i then Release p else Elsewhere)"
| "lease_view i SettingsSaved = Withdraw"
| "lease_view i _ = Elsewhere"

definition sound_step :: "hook_env \<Rightarrow> hook_state \<Rightarrow> hook_event \<Rightarrow> hook_state \<Rightarrow> bool" where
  "sound_step env s e s' \<longleftrightarrow> hook_step env s e s' \<and> json_ok env \<and> hook_inv env s"

lemma runs_sound:
  "runs (hook_step env) s es s' \<Longrightarrow> json_ok env \<Longrightarrow> hook_inv env s \<Longrightarrow> runs (sound_step env) s es s'"
  by (induction es arbitrary: s) (auto simp: sound_step_def intro: hook_step_inv)

lemma find_map_ids: "(\<And>row. row \<in> set rows \<Longrightarrow> dv_id (g row) = dv_id row) \<Longrightarrow>
    find (\<lambda>row. dv_id row = i) (map g rows @ new) =
      (case find (\<lambda>row. dv_id row = i) rows of Some row \<Rightarrow> Some (g row) | None \<Rightarrow> find (\<lambda>row. dv_id row = i) new)"
  by (induction rows) auto

lemma row_lease_free: "row_life row \<Longrightarrow> dv_status row \<noteq> Leased \<Longrightarrow> row_lease row = None"
  by (simp add: row_life_def row_lease_def split: option.split)

lemma lease_spec_same: "claimed_id e = None \<Longrightarrow> lease_spec l (lease_view i e) l"
  by (cases e) simp_all

lemma row_moves_lease:
  assumes "row_moves e row row'" "row_life row" "row_life row'" "dv_id row = i"
  shows "lease_spec (row_lease row) (lease_view i e) (row_lease row')"
proof (cases e)
  case (Claimed p now j)
  then show ?thesis using assms
    by (auto simp: row_moves_def claimable_def row_lease_def row_life_def split: option.splits if_splits)
next
  case (Settled p j)
  then show ?thesis using assms by (auto simp: row_moves_def held_by_def row_lease_def row_life_def split: option.splits)
next
  case SettingsSaved
  then show ?thesis using assms row_lease_free [of row'] by (auto simp: row_moves_def)
qed (use assms in \<open>auto simp: row_moves_def\<close>)

interpretation delivery: lease_object "delivery_lease i" "sound_step env" "lease_view i" for env i
proof
  fix s e s'
  assume sound: "sound_step env s e s'"
  let ?rows = "deliveries (hs_db s)" let ?rows' = "deliveries (hs_db s')"
  have inv: "hook_inv env s" "hook_inv env s'" "rows_move e ?rows ?rows'"
    using sound hook_step_inv hook_step_moves by (auto simp: sound_step_def)
  then obtain g new where g: "?rows' = map g ?rows @ new" "list_all (\<lambda>d. dv_status d = Pending) new"
    "\<And>row. row \<in> set ?rows \<Longrightarrow> dv_id (g row) = dv_id row" "\<And>row. row \<in> set ?rows \<Longrightarrow> row_moves e row (g row)"
    by (auto simp: rows_move_def)
  have life: "row \<in> set ?rows \<Longrightarrow> row_life row" "row \<in> set ?rows' \<Longrightarrow> row_life row" for row
    using inv(1,2) by (simp_all add: hook_inv_def queue_inv_def)
  show "lease_spec (delivery_lease i s) (lease_view i e) (delivery_lease i s')"
  proof (cases "find (\<lambda>row. dv_id row = i) ?rows")
    case (Some row)
    then have row: "row \<in> set ?rows" "dv_id row = i" by (auto simp: find_Some_iff)
    have "g row \<in> set ?rows'" using g(1) row(1) by simp
    from row_moves_lease [OF g(4) [OF row(1)] life(1) [OF row(1)] life(2) [OF this] row(2)] Some g(1) find_map_ids [OF g(3)]
    show ?thesis by (simp add: delivery_lease_def)
  next
    case None
    have "row_lease row = None" if "row \<in> set new" for row
      using that g(1,2) life(2) [of row] row_lease_free [of row] by (auto simp: list_all_iff)
    moreover have "delivery_lease i s' = (case find (\<lambda>row. dv_id row = i) new of Some row \<Rightarrow> row_lease row | None \<Rightarrow> None)"
      using None g(1) find_map_ids [OF g(3)] by (simp add: delivery_lease_def)
    ultimately have "delivery_lease i s' = None" by (auto simp: find_Some_iff split: option.splits)
    moreover have "claimed_id e \<noteq> Some i" using inv(3) None by (auto simp: rows_move_def find_None_iff)
    then have "lease_spec None (lease_view i e) None" by (cases e) auto
    ultimately show ?thesis using None by (simp add: delivery_lease_def)
  qed
qed

subsection \<open>One round of a worker\<close>

lemma update_held_on:
  assumes "queue_inv env db" "row \<in> set (deliveries db)" "held_by (dv_id row) owner row" "ok"
  shows "update_held ok (dv_id row) owner f db = (db\<lparr>deliveries := update_delivery (\<lambda>r. r = row) f (deliveries db)\<rparr>, None)"
proof -
  have "held_by (dv_id row) owner r \<longleftrightarrow> r = row" if "r \<in> set (deliveries db)" for r
    using that unique_delivery [OF assms(1) that assms(2)] assms(3) by (auto simp: held_by_def)
  then have "update_delivery (held_by (dv_id row) owner) f (deliveries db) = update_delivery (\<lambda>r. r = row) f (deliveries db)"
    by (simp add: update_delivery_def)
  then show ?thesis using assms(2-4) by (auto simp: update_held_def list_ex_iff)
qed

abbreviation leased_row :: "string \<Rightarrow> go_time \<Rightarrow> delivery_row \<Rightarrow> delivery_row" where
  "leased_row owner now row \<equiv> row\<lparr>dv_status := Leased, dv_owner := Some owner, dv_expires := Some (now + leaseTime)\<rparr>"

lemma Claim_first:
  assumes "queue_inv env db" "json_ok env" "\<forall>op. \<not> fails op"
    "first_due (filter (\<lambda>row. claimable now row \<and> \<not> locked (dv_id row)) (deliveries db)) = Some row"
  obtains d where "Claim fails locked (he_decode env) owner now db =
      (db\<lparr>deliveries := update_delivery (\<lambda>r. r = row) (leased_row owner now) (deliveries db)\<rparr>, Inr (Some d))"
    "wd_ID d = dv_id row" "wd_Attempt d = dv_attempt row" "wd_PublicID d \<noteq> []"
    "queue_inv env (db\<lparr>deliveries := update_delivery (\<lambda>r. r = row) (leased_row owner now) (deliveries db)\<rparr>)"
proof -
  have row: "row \<in> set (deliveries db)" "claimable now row" using first_due_SomeD [OF assms(4)] by auto
  then have src: "source_ok env (al_id ` set (alerts db)) row" using assms(1) by (simp add: queue_inv_def)
  obtain d where d: "scan_delivery (he_decode env) db row = Inr d" using scan_delivery_total [OF src assms(2)] by blast
  note scan = scan_delivery_Inr [OF d src assms(2)]
  have "update_delivery (\<lambda>r. dv_id r = dv_id row) f (deliveries db) = update_delivery (\<lambda>r. r = row) f (deliveries db)" for f
    using unique_delivery [OF assms(1) _ row(1)] by (auto simp: update_delivery_def)
  moreover have "queue_inv env (db\<lparr>deliveries := update_delivery (\<lambda>r. r = row) (leased_row owner now) (deliveries db)\<rparr>)"
    by (rule update_delivery_inv [OF assms(1)]) (auto intro: claimable_life [OF row(2)])
  ultimately show thesis using that [of d] scan assms(3,4) d by (auto simp: Claim_def)
qed

lemma update_delivery_twice:
  assumes "row \<in> set rows" "\<And>r. r \<in> set rows \<Longrightarrow> r = f row \<Longrightarrow> r = row"
  shows "update_delivery (\<lambda>r. r = f row) g (update_delivery (\<lambda>r. r = row) f rows) = update_delivery (\<lambda>r. r = row) (\<lambda>r. g (f r)) rows"
  using assms by (auto simp: update_delivery_def)

lemma settle_claimed:
  assumes "queue_inv env db" "row \<in> set (deliveries db)"
    "queue_inv env (db\<lparr>deliveries := update_delivery (\<lambda>r. r = row) (leased_row owner now) (deliveries db)\<rparr>)"
  shows "update_held True (dv_id row) owner f (db\<lparr>deliveries := update_delivery (\<lambda>r. r = row) (leased_row owner now) (deliveries db)\<rparr>) =
    (db\<lparr>deliveries := update_delivery (\<lambda>r. r = row) (\<lambda>r. f (leased_row owner now r)) (deliveries db)\<rparr>, None)"
proof -
  have mem: "leased_row owner now row \<in> set (update_delivery (\<lambda>r. r = row) (leased_row owner now) (deliveries db))"
    using assms(2) by (auto simp: in_update_delivery)
  have "update_delivery (\<lambda>r. r = leased_row owner now row) f (update_delivery (\<lambda>r. r = row) (leased_row owner now) (deliveries db)) =
    update_delivery (\<lambda>r. r = row) (\<lambda>r. f (leased_row owner now r)) (deliveries db)"
    by (rule update_delivery_twice [OF assms(2)]) (use unique_delivery [OF assms(1) _ assms(2)] in auto)
  with update_held_on [OF assms(3), of "leased_row owner now row" owner True f] mem show ?thesis by (simp add: held_by_def)
qed

subsection \<open>Zero bytes\<close>

lemma zero_not_stored:
  assumes "CHR 0x00 \<in> set s" "length s \<le> 21845"
  shows "\<not> pg_text (cleanExcerpt s)"
  using to_valid_keeps_zero [OF assms(1), of False] to_valid_length [of False s] assms(2)
  by (simp add: pg_text_def cleanExcerpt_def ToValidUTF8_def)

subsection \<open>Properties\<close>

definition hook_start :: "hook_state \<Rightarrow> bool" where
  "hook_start s \<longleftrightarrow> alerts (hs_db s) = [] \<and> deliveries (hs_db s) = [] \<and> hs_jobs s = (\<lambda>owner. None)"

lemma hook_start_inv: "hook_start s \<Longrightarrow> hook_inv env s"
  by (simp add: hook_start_def hook_inv_def queue_inv_def jobs_inv_def alerts_inv_def truncate_simps)

text \<open>C29. However the steps of any number of workers, of the alert runner and of the settings interleave, and whatever crashes, starting from tables
  without alerts and deliveries: the attempts recorded for a delivery are at most six, a delivery is leased exactly while it has an owner and an
  expiry, belongs to an alert that exists or is a test, and once it is delivered, given up or cancelled it never changes again. Only a recorded
  result counts: a request whose result is not written (the worker crashes, or PostgreSQL refuses the answer) is repeated without being
  counted, so that the number of requests is not bounded. The text of a test message is assumed to decode to what was encoded.\<close>

theorem delivery_life:
  assumes "json_ok env" "hook_start s" "runs (hook_step env) s es s1" "runs (hook_step env) s1 fs s2" "row \<in> set (deliveries (hs_db s1))"
  shows "row_life row \<and> dv_attempt row \<le> 6 \<and> source_ok env (al_id ` set (alerts (hs_db s1))) row \<and>
    (settled_row row \<longrightarrow> row \<in> set (deliveries (hs_db s2)))"
proof -
  have inv: "hook_inv env s1" using runs_hook_inv [OF assms(3,1) hook_start_inv [OF assms(2)]] .
  then have "row_life row" "source_ok env (al_id ` set (alerts (hs_db s1))) row" using assms(5) by (auto simp: hook_inv_def queue_inv_def)
  moreover from this(1) have "dv_attempt row \<le> 6" by (auto simp: row_life_def split: if_splits)
  ultimately show ?thesis using runs_final [OF assms(4,1) inv assms(5)] by blast
qed

text \<open>An environment that writes the time of a test message as a number.\<close>

definition plain_env :: hook_env where
  "plain_env = \<lparr>he_marshal = (\<lambda>p. Inr ''{}''), he_hmac = (\<lambda>k m. [1]), he_newRequest = (\<lambda>u. None), he_parseTime = (\<lambda>v. None),
     he_encode = (\<lambda>x. format_int (wd_OccurredAt x)),
     he_decode = (\<lambda>p d. Some (d\<lparr>wd_EventType := wd_EventType (test_delivery 0), wd_Severity := wd_Severity (test_delivery 0),
       wd_Title := wd_Title (test_delivery 0), wd_Evidence := wd_Evidence (test_delivery 0),
       wd_OccurredAt := if take 1 p = ''-'' then - int (decimal_value (drop 1 p)) else int (decimal_value p)\<rparr>))\<rparr>"

lemma plain_json: "json_ok plain_env"
proof -
  have "take 1 (itoa n) \<noteq> ''-''" for n
    using itoa_digits [of "CHR ''-''" n] itoa_nonempty [of n] by (cases "itoa n") (auto simp: is_digit_def)
  then show ?thesis by (simp add: json_ok_def plain_env_def format_int_def test_delivery_def decimal_itoa)
qed

definition idle_state :: hook_state where
  "idle_state = \<lparr>hs_db = \<lparr>alert_rules = [], alerts = [], next_alert = 1, deliveries = [], next_delivery = 1,
     webhook_settings = \<lparr>ws_Enabled = True, ws_Endpoint = ''https://example.com/'', ws_EncryptedSecret = ''s'', ws_UpdatedAt = 0\<rparr>\<rparr>,
   hs_jobs = (\<lambda>owner. None)\<rparr>"

definition tested_state :: hook_state where
  "tested_state = idle_state\<lparr>hs_db := fst (QueueTest True (he_encode plain_env) 5 (hs_db idle_state))\<rparr>"

definition claim_by :: "string \<Rightarrow> go_time \<Rightarrow> hook_state \<Rightarrow> hook_state" where
  "claim_by owner now s = (case Claim (\<lambda>op. False) (\<lambda>i. False) (he_decode plain_env) owner now (hs_db s) of
     (db, Inr (Some d)) \<Rightarrow> \<lparr>hs_db = db, hs_jobs = (hs_jobs s)(owner := Some (d, now))\<rparr>
   | _ \<Rightarrow> s)"

definition answer_by :: "string \<Rightarrow> int \<Rightarrow> hook_state \<Rightarrow> hook_state" where
  "answer_by owner status s = (case hs_jobs s owner of
     Some (d, now) \<Rightarrow> \<lparr>hs_db = fst (settle True plain_env owner now d (Some \<lparr>rs_status = status, rs_body = ''ok'', rs_retryAfter = []\<rparr>, None) (hs_db s)),
       hs_jobs = (hs_jobs s)(owner := None)\<rparr>
   | None \<Rightarrow> s)"

lemma tested_step: "hook_step plain_env idle_state TestQueued tested_state"
  unfolding tested_state_def by (rule hook_step.test)

lemma claim_by_step:
  assumes "hs_jobs s owner = None" "map_option wd_ID (case Claim (\<lambda>op. False) (\<lambda>i. False) (he_decode plain_env) owner now (hs_db s) of
    (db, Inr d) \<Rightarrow> d | _ \<Rightarrow> None) = Some i"
  shows "hook_step plain_env s (Claimed owner now i) (claim_by owner now s)"
  using assms hook_step.claim [of s owner "\<lambda>op. False" "\<lambda>i. False" plain_env now]
  by (auto simp: claim_by_def split: prod.splits sum.splits option.splits)

lemma answer_by_step:
  assumes "hs_jobs s owner = Some (d, now)"
  shows "hook_step plain_env s (Settled owner (wd_ID d)) (answer_by owner status s)"
proof -
  have "settles plain_env owner (d, now) (hs_db s) (hs_db (answer_by owner status s))"
    using assms unfolding settles_def answer_by_def by (intro disjI2 exI) simp
  from hook_step.settle [OF assms this] show ?thesis using assms by (simp add: answer_by_def)
qed

lemmas sample_defs = claim_by_def answer_by_def tested_state_def idle_state_def QueueTest_def Claim_def scan_delivery_def claimable_def
  update_delivery_def plain_env_def test_delivery_def

lemma sample_claims:
  "hook_step plain_env tested_state (Claimed ''a'' 6 1) (claim_by ''a'' 6 tested_state)"
  "hook_step plain_env (claim_by ''a'' 6 tested_state) (Settled ''a'' 1) (answer_by ''a'' 200 (claim_by ''a'' 6 tested_state))"
  "hs_jobs s ''b'' = None \<Longrightarrow> hs_db s = hs_db (claim_by ''a'' 6 tested_state) \<Longrightarrow>
     hook_step plain_env s (Claimed ''b'' (7 + leaseTime) 1) (claim_by ''b'' (7 + leaseTime) s)"
proof -
  show "hook_step plain_env tested_state (Claimed ''a'' 6 1) (claim_by ''a'' 6 tested_state)"
    by (rule claim_by_step) (simp_all add: sample_defs)
  obtain d where d: "hs_jobs (claim_by ''a'' 6 tested_state) ''a'' = Some (d, 6)" "wd_ID d = 1" by (simp add: sample_defs)
  from answer_by_step [OF d(1)] d(2)
  show "hook_step plain_env (claim_by ''a'' 6 tested_state) (Settled ''a'' 1) (answer_by ''a'' 200 (claim_by ''a'' 6 tested_state))" by simp
  show "hook_step plain_env s (Claimed ''b'' (7 + leaseTime) 1) (claim_by ''b'' (7 + leaseTime) s)"
    if "hs_jobs s ''b'' = None" "hs_db s = hs_db (claim_by ''a'' 6 tested_state)"
    by (rule claim_by_step) (simp_all add: that sample_defs)
qed

lemma sample_delivered: "map dv_status (deliveries (hs_db (answer_by ''a'' 200 (claim_by ''a'' 6 tested_state)))) = [Delivered]"
  by (simp add: sample_defs settle_def Complete_def complete_row_def update_held_def held_by_def pg_text_def cleanExcerpt_def ToValidUTF8_def)

lemma sample_start: "hook_start idle_state"
  by (simp add: hook_start_def idle_state_def)

theorem delivery_life_witness:
  "\<exists>row. deliveries (hs_db (answer_by ''a'' 200 (claim_by ''a'' 6 tested_state))) = [row] \<and>
     dv_status row = Delivered \<and> row_life row \<and> dv_attempt row \<le> 6 \<and>
     row \<in> set (deliveries (fst (SaveSettings True (webhook_settings (hs_db idle_state)) (hs_db (answer_by ''a'' 200 (claim_by ''a'' 6 tested_state))))))"
proof -
  let ?s = "answer_by ''a'' 200 (claim_by ''a'' 6 tested_state)"
  let ?t = "?s\<lparr>hs_db := fst (SaveSettings True (webhook_settings (hs_db idle_state)) (hs_db ?s))\<rparr>"
  have first: "runs (hook_step plain_env) idle_state [TestQueued, Claimed ''a'' 6 1, Settled ''a'' 1] ?s"
    using tested_step sample_claims(1,2) unfolding runs.simps by blast
  have second: "runs (hook_step plain_env) ?s [SettingsSaved] ?t" using hook_step.save unfolding runs.simps by blast
  obtain row where row: "deliveries (hs_db ?s) = [row]" "dv_status row = Delivered" using sample_delivered by auto
  with delivery_life [OF plain_json sample_start first second, of row] show ?thesis by auto
qed

text \<open>C30. While a worker holds a delivery no other worker gets it: between two claims of the same delivery lie the two minutes of the
  first lease, unless the first worker settled it or the settings were saved in between. Crashes of other workers, new alerts and
  claims of other deliveries do not matter.\<close>

theorem delivery_exclusive:
  assumes "json_ok env" "hook_start s" "runs (hook_step env) s es s1"
    "runs (hook_step env) s1 (Claimed p now i # fs @ [Claimed q now' i]) s2"
    "\<forall>e \<in> set fs. e \<noteq> Settled p i \<and> e \<noteq> SettingsSaved \<and> (\<forall>o' t. e \<noteq> Claimed o' t i)"
  shows "now + leaseTime \<le> now'"
proof -
  have inv: "hook_inv env s1" using runs_hook_inv [OF assms(3,1) hook_start_inv [OF assms(2)]] .
  have "undisturbed p (now + leaseTime) (lease_view i e)" if "e \<in> set fs" for e
    using assms(5) that by (cases e) auto
  then have calm: "\<forall>e \<in> set fs. undisturbed p (now + leaseTime) (lease_view i e)" by blast
  show ?thesis
    by (rule delivery.second_grant [OF runs_sound [OF assms(4,1) inv] _ _ calm]) simp_all
qed

theorem delivery_exclusive_witness:
  "\<exists>s2. runs (hook_step plain_env) idle_state [TestQueued] tested_state \<and>
     runs (hook_step plain_env) tested_state [Claimed ''a'' 6 1, Crashed ''a'', Claimed ''b'' (7 + leaseTime) 1] s2 \<and> 6 + leaseTime \<le> 7 + leaseTime"
proof -
  let ?s = "claim_by ''a'' 6 tested_state" let ?c = "?s\<lparr>hs_jobs := (hs_jobs ?s)(''a'' := None)\<rparr>"
  have crash: "hook_step plain_env ?s (Crashed ''a'') ?c" by (rule hook_step.crash)
  have "hook_step plain_env ?c (Claimed ''b'' (7 + leaseTime) 1) (claim_by ''b'' (7 + leaseTime) ?c)"
    by (rule sample_claims(3)) (simp_all add: sample_defs)
  then have run: "runs (hook_step plain_env) tested_state (Claimed ''a'' 6 1 # [Crashed ''a''] @ [Claimed ''b'' (7 + leaseTime) 1])
      (claim_by ''b'' (7 + leaseTime) ?c)"
    using sample_claims(1) crash unfolding append.simps runs.simps by blast
  have start: "runs (hook_step plain_env) idle_state [TestQueued] tested_state" using tested_step by simp
  have "6 + leaseTime \<le> 7 + leaseTime" by (rule delivery_exclusive [OF plain_json sample_start start run]) simp
  then show ?thesis using run start unfolding append.simps by blast
qed

text \<open>The row after an answer with a status: delivered, given up, or waiting for another try.\<close>

definition answered_row :: "hook_env \<Rightarrow> go_time \<Rightarrow> hook_response \<Rightarrow> delivery_row \<Rightarrow> delivery_row" where
  "answered_row env now rs row =
     (let row = row\<lparr>dv_owner := None, dv_expires := None, dv_excerpt := cleanExcerpt (take (64 * 2 ^ 10) (rs_body rs))\<rparr>;
          failed = row\<lparr>dv_attempt := dv_attempt row + 1, dv_response := if rs_status rs = 0 then None else Some (rs_status rs),
            dv_error := cleanExcerpt (if rs_status rs \<noteq> 0 then ''webhook returned HTTP '' @ format_int (rs_status rs) else ''webhook request failed'')\<rparr>;
          delay = retryDelay (int (dv_attempt row) + 1);
          server = parseRetryAfter (he_parseTime env) (rs_retryAfter rs) now in
      if 200 \<le> rs_status rs \<and> rs_status rs < 300
      then row\<lparr>dv_status := Delivered, dv_response := Some (rs_status rs), dv_error := [], dv_delivered := Some now\<rparr>
      else if gives_up (dv_attempt row + 1) (rs_status rs) then failed\<lparr>dv_status := Terminal\<rparr>
      else failed\<lparr>dv_status := Pending, dv_next := now + (if rs_status rs = 429 then max delay server else delay)\<rparr>)"

abbreviation due_first :: "go_time \<Rightarrow> (nat \<Rightarrow> bool) \<Rightarrow> hook_db \<Rightarrow> delivery_row option" where
  "due_first now locked db \<equiv> first_due (filter (\<lambda>row. claimable now row \<and> \<not> locked (dv_id row)) (deliveries db))"

definition sendable :: "hook_env \<Rightarrow> Worker \<Rightarrow> bool" where
  "sendable env worker \<longleftrightarrow> wk_secret worker \<noteq> [] \<and> he_newRequest env (wk_endpoint worker) = None \<and> (\<forall>p. \<exists>body. he_marshal env p = Inr body)"

lemma build_request_ok:
  assumes "sendable env worker" "wd_PublicID d \<noteq> []"
  shows "\<exists>rq. build_request env worker d = Inr rq"
proof -
  obtain body where "he_marshal env (payload_of worker d) = Inr body" using assms(1) by (auto simp: sendable_def)
  moreover have "wp_SchemaVersion (payload_of worker d) = 1" "wp_DeliveryID (payload_of worker d) \<noteq> []"
    using assms(2) by (simp_all add: payload_of_def)
  ultimately show ?thesis using assms(1) by (simp add: sendable_def build_request_def EncodeAndSign_def)
qed

lemma plain_stored: "plain s \<Longrightarrow> pg_text (cleanExcerpt s)"
  by (auto simp: cleanExcerpt_def ToValidUTF8_def to_valid_plain plain_take pg_text_def) (auto simp: plain_def list_all_iff dest: in_set_takeD)

lemma plain_status: "plain (''webhook returned HTTP '' @ format_int n)" "plain ''webhook request failed''"
  using itoa_digits by (fastforce simp: plain_def format_int_def list_all_iff is_digit_def)+

lemma retryDelay_pos: "0 < retryDelay attempt"
proof -
  have "nat (min (max attempt 1) 5 - 1) \<in> {0, 1, 2, 3, 4}" by auto
  then show ?thesis by (auto simp: retryDelay_def Let_def nth_Cons' split: if_splits)
qed

lemma settle_answer:
  assumes "pg_text (cleanExcerpt (take (64 * 2 ^ 10) (rs_body rs)))" "wd_Attempt d = dv_attempt row" "wd_ID d = dv_id row"
    "queue_inv env db" "row \<in> set (deliveries db)"
    "queue_inv env (db\<lparr>deliveries := update_delivery (\<lambda>r. r = row) (leased_row owner now) (deliveries db)\<rparr>)"
  shows "settle True env owner now d (Some rs, None) (db\<lparr>deliveries := update_delivery (\<lambda>r. r = row) (leased_row owner now) (deliveries db)\<rparr>) =
    (db\<lparr>deliveries := update_delivery (\<lambda>r. r = row) (answered_row env now rs) (deliveries db)\<rparr>, None)"
proof -
  let ?db = "db\<lparr>deliveries := update_delivery (\<lambda>r. r = row) (leased_row owner now) (deliveries db)\<rparr>"
  have stored: "pg_text (cleanExcerpt (if rs_status rs \<noteq> 0 then ''webhook returned HTTP '' @ format_int (rs_status rs) else ''webhook request failed''))"
    using plain_stored plain_status by presburger
  have "\<exists>h. settle True env owner now d (Some rs, None) ?db = update_held True (dv_id row) owner h ?db \<and>
      h (leased_row owner now row) = answered_row env now rs row"
  proof (cases "200 \<le> rs_status rs \<and> rs_status rs < 300")
    case True
    then show ?thesis using assms(1)
      by (intro exI [of _ "complete_row (rs_status rs) (take (64 * 2 ^ 10) (rs_body rs)) now"])
        (simp add: settle_def Complete_def complete_row_def answered_row_def Let_def assms(2,3))
  next
    case False
    let ?message = "if rs_status rs \<noteq> 0 then ''webhook returned HTTP '' @ format_int (rs_status rs) else ''webhook request failed''"
    let ?delay = "retryDelay (int (dv_attempt row) + 1)" let ?over = "gives_up (dv_attempt row + 1) (rs_status rs)"
    let ?next = "if ?over then 0 else now + (if rs_status rs = 429 then max ?delay (parseRetryAfter (he_parseTime env) (rs_retryAfter rs) now) else ?delay)"
    have int: "int (dv_attempt row + 1) = int (dv_attempt row) + 1" by simp
    have "settle True env owner now d (Some rs, None) ?db =
        Fail True (dv_id row) owner (rs_status rs) ?message (take (64 * 2 ^ 10) (rs_body rs)) ?next ?over ?db"
      unfolding settle_def prod.case option.case Let_def assms(2,3) int using False retryDelay_pos [of "int (dv_attempt row) + 1"]
      by (simp add: max_def) (smt (verit))
    then show ?thesis using assms(1) stored False
      by (intro exI [of _ "fail_row (rs_status rs) ?message (take (64 * 2 ^ 10) (rs_body rs)) ?next ?over"])
        (auto simp: Fail_def fail_row_def answered_row_def Let_def)
  qed
  then obtain h where h: "settle True env owner now d (Some rs, None) ?db = update_held True (dv_id row) owner h ?db"
    "h (leased_row owner now row) = answered_row env now rs row" by blast
  have "update_delivery (\<lambda>r. r = row) (\<lambda>r. h (leased_row owner now r)) (deliveries db) =
      update_delivery (\<lambda>r. r = row) (answered_row env now rs) (deliveries db)"
    using h(2) by (simp add: update_delivery_def)
  then show ?thesis using settle_claimed [OF assms(4-6), of h] h(1) by simp
qed

text \<open>One round of a worker against a receiver that answers: the earliest due delivery is marked delivered on a 2xx status, given up
  on the sixth failure and on a 4xx status other than 408 and 429, and otherwise due again after the delay of the schedule (or the
  longer one the receiver asked for with 429), with one more attempt counted; no other row changes and no lease is left.\<close>

theorem runone_outcome:
  assumes "queue_inv env db" "json_ok env" "\<forall>op. \<not> fails op" "due_first now locked db = Some row" "sendable env worker"
    "\<forall>rq. do rq = (Some rs, None)" "pg_text (cleanExcerpt (take (64 * 2 ^ 10) (rs_body rs)))"
  shows "RunOne fails True locked env do worker owner now db =
    (db\<lparr>deliveries := update_delivery (\<lambda>r. r = row) (answered_row env now rs) (deliveries db)\<rparr>, True, None)"
proof -
  have row: "row \<in> set (deliveries db)" using first_due_SomeD [OF assms(4)] by simp
  from Claim_first [OF assms(1-4), of owner] obtain d where d:
    "Claim fails locked (he_decode env) owner now db =
      (db\<lparr>deliveries := update_delivery (\<lambda>r. r = row) (leased_row owner now) (deliveries db)\<rparr>, Inr (Some d))"
    "wd_ID d = dv_id row" "wd_Attempt d = dv_attempt row" "wd_PublicID d \<noteq> []"
    "queue_inv env (db\<lparr>deliveries := update_delivery (\<lambda>r. r = row) (leased_row owner now) (deliveries db)\<rparr>)" .
  obtain rq where "build_request env worker d = Inr rq" using build_request_ok [OF assms(5) d(4)] by blast
  then show ?thesis using settle_answer [OF assms(7) d(3,2) assms(1) row d(5)] assms(6) by (simp add: RunOne_def d(1))
qed

definition sample_worker :: Worker where
  "sample_worker = NewWorker ''https://example.com/'' ''key'' ''https://dash/''"

lemma sample_sendable: "sendable plain_env sample_worker"
  by (simp add: sendable_def plain_env_def sample_worker_def NewWorker_def)

lemma sample_queue: "queue_inv plain_env (hs_db tested_state)"
  using runs_hook_inv [of plain_env idle_state "[TestQueued]" tested_state] tested_step plain_json hook_start_inv [OF sample_start]
  by (simp add: hook_inv_def)

lemma sample_due: "due_first 6 (\<lambda>i. False) (hs_db tested_state) = Some (hd (deliveries (hs_db tested_state)))"
  by (simp add: sample_defs)

definition server_error :: "string \<Rightarrow> hook_response" where
  "server_error body = \<lparr>rs_status = 500, rs_body = body, rs_retryAfter = []\<rparr>"

theorem runone_outcome_witness:
  "map (\<lambda>r. (dv_status r, dv_attempt r, dv_next r))
     (deliveries (fst (RunOne (\<lambda>op. False) True (\<lambda>i. False) plain_env (\<lambda>rq. (Some (server_error ''no''), None)) sample_worker ''a'' 6 (hs_db tested_state)))) =
   [(Pending, 1, 6 + 60 * 1000000000)]"
proof -
  have "pg_text (cleanExcerpt (take (64 * 2 ^ 10) (rs_body (server_error ''no''))))"
    by (rule plain_stored) (simp add: server_error_def plain_def)
  note round = runone_outcome [OF sample_queue plain_json _ sample_due sample_sendable _ this,
    where fails = "\<lambda>op. False" and do = "\<lambda>rq. (Some (server_error ''no''), None)" and owner = "''a''"]
  obtain row where row: "deliveries (hs_db tested_state) = [row]" "dv_attempt row = 0" by (simp add: sample_defs)
  have "(dv_status r, dv_attempt r, dv_next r) = (Pending, 1, 6 + 60 * 1000000000)" if "r = answered_row plain_env 6 (server_error ''no'') row" for r
    unfolding that by (simp add: answered_row_def server_error_def gives_up_def retryDelay_def Let_def row(2))
  then show ?thesis using round by (simp add: update_delivery_def row(1))
qed

text \<open>A receiver whose answer contains a zero byte is never done: PostgreSQL does not store it, so the worker can neither complete
  nor fail the delivery. Whatever the status, the delivery stays leased with no attempt counted, and after two minutes the
  next worker sends it again.\<close>

theorem zero_byte_resends:
  assumes "queue_inv env db" "json_ok env" "\<forall>op. \<not> fails op" "due_first now locked db = Some row" "sendable env worker"
    "\<forall>rq. do rq = (Some rs, None)" "CHR 0x00 \<in> set (rs_body rs)" "length (rs_body rs) \<le> 21845"
  shows "RunOne fails True locked env do worker owner now db =
      (db\<lparr>deliveries := update_delivery (\<lambda>r. r = row) (leased_row owner now) (deliveries db)\<rparr>, True, Some UpdateFailed) \<and>
    dv_attempt (leased_row owner now row) = dv_attempt row \<and> claimable (now + leaseTime + 1) (leased_row owner now row)"
proof -
  from Claim_first [OF assms(1-4), of owner] obtain d where d:
    "Claim fails locked (he_decode env) owner now db =
      (db\<lparr>deliveries := update_delivery (\<lambda>r. r = row) (leased_row owner now) (deliveries db)\<rparr>, Inr (Some d))"
    "wd_PublicID d \<noteq> []" .
  obtain rq where rq: "build_request env worker d = Inr rq" using build_request_ok [OF assms(5) d(2)] by blast
  have "take (64 * 2 ^ 10) (rs_body rs) = rs_body rs" using assms(8) by simp
  then have "settle True env owner now d (Some rs, None) db' = (db', Some UpdateFailed)" for db'
    using zero_not_stored [OF assms(7,8)]
    by (simp add: settle_def Let_def Complete_def Fail_def update_held_def del: take_all take_all_iff)
  then show ?thesis using rq assms(6) by (simp add: RunOne_def d(1) claimable_def)
qed

theorem zero_byte_resends_witness:
  "RunOne (\<lambda>op. False) True (\<lambda>i. False) plain_env (\<lambda>rq. (Some (server_error (''ok'' @ [CHR 0x00])), None)) sample_worker ''a'' 6 (hs_db tested_state) =
     (hs_db (claim_by ''a'' 6 tested_state), True, Some UpdateFailed)"
proof -
  have "hs_db (claim_by ''a'' 6 tested_state) = (hs_db tested_state)\<lparr>deliveries :=
      update_delivery (\<lambda>r. r = hd (deliveries (hs_db tested_state))) (leased_row ''a'' 6) (deliveries (hs_db tested_state))\<rparr>"
    by (simp add: sample_defs)
  then show ?thesis
    using zero_byte_resends [OF sample_queue plain_json _ sample_due sample_sendable,
      of "\<lambda>op. False" "\<lambda>rq. (Some (server_error (''ok'' @ [CHR 0x00])), None)" "server_error (''ok'' @ [CHR 0x00])" "''a''"]
    by (simp add: server_error_def)
qed

end
