(* ===== verification/Webhook_Endpoint.thy ===== *)
theory Webhook_Endpoint
  imports Webhook
begin

unbundle bit_operations_syntax

text \<open>
  Where a webhook may go, \<^verbatim>\<open>internal/server/webhook\<close>: the check of an endpoint and the dialer that refuses addresses inside the network
  (\<^verbatim>\<open>endpoint.go\<close>), the cipher of the signing secret (\<^verbatim>\<open>crypto.go\<close>), the settings handlers (\<^verbatim>\<open>handler.go\<close>) and the dispatcher that
  puts settings and worker together (\<^verbatim>\<open>dispatcher.go\<close>). The resolver, the URL parser, the JSON decoder, the TCP dialer and AES-GCM
  are parameters; the classification of addresses is that of Go's \<^verbatim>\<open>net.IP\<close>.
\<close>

subsection \<open>Addresses of package net\<close>

text \<open>\<^verbatim>\<open>net.IP\<close>: 4 or 16 bytes; an IPv4 address may have either form.\<close>

definition mapped4 :: "bytes \<Rightarrow> bytes" where
  "mapped4 bs = replicate 10 0 @ [255, 255] @ bs"

definition To4 :: "bytes \<Rightarrow> bytes option" where
  "To4 ip =
     (if length ip = 4 then Some ip
      else if length ip = 16 \<and> take 12 ip = mapped4 [] then Some (drop 12 ip)
      else None)"

definition ip_equal :: "bytes \<Rightarrow> bytes \<Rightarrow> bool" where
  "ip_equal ip x =
     (if length ip = length x then ip = x
      else if length ip = 4 \<and> length x = 16 then x = mapped4 ip
      else if length ip = 16 \<and> length x = 4 then ip = mapped4 x
      else False)"

definition IsUnspecified :: "bytes \<Rightarrow> bool" where
  "IsUnspecified ip \<longleftrightarrow> ip_equal ip (mapped4 [0, 0, 0, 0]) \<or> ip_equal ip (replicate 16 0)"

definition IsLoopback :: "bytes \<Rightarrow> bool" where
  "IsLoopback ip = (case To4 ip of Some ip4 \<Rightarrow> ip4 ! 0 = 127 | None \<Rightarrow> ip_equal ip (replicate 15 0 @ [1]))"

definition IsPrivate :: "bytes \<Rightarrow> bool" where
  "IsPrivate ip =
     (case To4 ip of
        Some ip4 \<Rightarrow> ip4 ! 0 = 10 \<or> (ip4 ! 0 = 172 \<and> ip4 ! 1 AND 240 = 16) \<or> (ip4 ! 0 = 192 \<and> ip4 ! 1 = 168)
      | None \<Rightarrow> length ip = 16 \<and> ip ! 0 AND 254 = 252)"

definition IsMulticast :: "bytes \<Rightarrow> bool" where
  "IsMulticast ip = (case To4 ip of Some ip4 \<Rightarrow> ip4 ! 0 AND 240 = 224 | None \<Rightarrow> length ip = 16 \<and> ip ! 0 = 255)"

definition IsLinkLocalMulticast :: "bytes \<Rightarrow> bool" where
  "IsLinkLocalMulticast ip =
     (case To4 ip of
        Some ip4 \<Rightarrow> ip4 ! 0 = 224 \<and> ip4 ! 1 = 0 \<and> ip4 ! 2 = 0
      | None \<Rightarrow> length ip = 16 \<and> ip ! 0 = 255 \<and> ip ! 1 AND 15 = 2)"

definition IsLinkLocalUnicast :: "bytes \<Rightarrow> bool" where
  "IsLinkLocalUnicast ip =
     (case To4 ip of
        Some ip4 \<Rightarrow> ip4 ! 0 = 169 \<and> ip4 ! 1 = 254
      | None \<Rightarrow> length ip = 16 \<and> ip ! 0 = 254 \<and> ip ! 1 AND 192 = 128)"

definition IsGlobalUnicast :: "bytes \<Rightarrow> bool" where
  "IsGlobalUnicast ip \<longleftrightarrow> (length ip = 4 \<or> length ip = 16) \<and> \<not> ip_equal ip (mapped4 [255, 255, 255, 255]) \<and>
     \<not> IsUnspecified ip \<and> \<not> IsLoopback ip \<and> \<not> IsMulticast ip \<and> \<not> IsLinkLocalUnicast ip"

definition ParseIP :: "string \<Rightarrow> bytes option" where
  "ParseIP s = (case ParseAddr s of Some (Addr4 bs) \<Rightarrow> Some (mapped4 bs) | Some (Addr16 bs) \<Rightarrow> Some bs | _ \<Rightarrow> None)"

definition ip_string :: "bytes \<Rightarrow> string" where
  "ip_string ip =
     (if ip = [] then ''<nil>''
      else case To4 ip of
        Some ip4 \<Rightarrow> addr_string (Addr4 ip4)
      | None \<Rightarrow> if length ip = 16 then addr_string (Addr16 ip) else CHR ''?'' # concat (map hex_byte ip))"

subsection \<open>Endpoints\<close>

datatype endpoint_error = EndpointInvalid | EndpointScheme | HostUnresolved | HostNotPublic | AddressInvalid

record url_parts =
  ur_Scheme :: string
  ur_Hostname :: string
  ur_User :: bool
  ur_Fragment :: string
  ur_String :: string

definition isPublicIP :: "bytes \<Rightarrow> bool" where
  "isPublicIP ip \<longleftrightarrow> ip \<noteq> [] \<and> IsGlobalUnicast ip \<and> \<not> IsPrivate ip \<and> \<not> IsLoopback ip \<and> \<not> IsLinkLocalUnicast ip \<and>
     \<not> IsLinkLocalMulticast ip \<and> \<not> IsMulticast ip \<and> \<not> IsUnspecified ip"

definition trim_brackets :: "string \<Rightarrow> string" where
  "trim_brackets s = (let cut = dropWhile (\<lambda>c. c \<in> {CHR ''['', CHR '']''}) in rev (cut (rev (cut s))))"

definition resolveHost :: "(string \<Rightarrow> bytes list option) \<Rightarrow> string \<Rightarrow> endpoint_error + bytes list" where
  "resolveHost lookup host =
     (case ParseIP (trim_brackets host) of
        Some ip \<Rightarrow> Inr [ip]
      | None \<Rightarrow> (case lookup host of Some (a # as) \<Rightarrow> Inr (a # as) | _ \<Rightarrow> Inl HostUnresolved))"

definition requirePublicHost :: "(string \<Rightarrow> bytes list option) \<Rightarrow> string \<Rightarrow> endpoint_error option" where
  "requirePublicHost lookup host =
     (case resolveHost lookup host of
        Inl e \<Rightarrow> Some e
      | Inr addresses \<Rightarrow> if list_all isPublicIP addresses then None else Some HostNotPublic)"

definition ValidateEndpoint :: "(string \<Rightarrow> url_parts option) \<Rightarrow> (string \<Rightarrow> bytes list option) \<Rightarrow> bool \<Rightarrow> string \<Rightarrow> endpoint_error + url_parts" where
  "ValidateEndpoint parse lookup allowHTTP raw =
     (case parse raw of
        None \<Rightarrow> Inl EndpointInvalid
      | Some u \<Rightarrow>
          (if ur_Hostname u = [] \<or> ur_User u \<or> ur_Fragment u \<noteq> [] then Inl EndpointInvalid
           else if ur_Scheme u \<noteq> ''https'' \<and> \<not> (allowHTTP \<and> ur_Scheme u = ''http'') then Inl EndpointScheme
           else case requirePublicHost lookup (ur_Hostname u) of Some e \<Rightarrow> Inl e | None \<Rightarrow> Inr u))"

text \<open>The address the dialer hands to the operating system.\<close>

definition DialContext :: "(string \<Rightarrow> bytes list option) \<Rightarrow> string \<Rightarrow> endpoint_error + string" where
  "DialContext lookup address =
     (case SplitHostPort address of
        None \<Rightarrow> Inl AddressInvalid
      | Some (host, port) \<Rightarrow>
          andThen (resolveHost lookup host) (\<lambda>addresses.
            if list_all isPublicIP addresses then Inr (JoinHostPort (ip_string (hd addresses)) port) else Inl HostNotPublic))"

subsection \<open>The signing secret\<close>

record cipher_env =
  ae_seal :: "string \<Rightarrow> string \<Rightarrow> string \<Rightarrow> string \<Rightarrow> string"
  ae_open :: "string \<Rightarrow> string \<Rightarrow> string \<Rightarrow> string \<Rightarrow> string option"

definition NewSecretCipher :: "string \<Rightarrow> string option" where
  "NewSecretCipher key = (if length key \<noteq> 32 then None else Some key)"

abbreviation nonceSize :: nat where "nonceSize \<equiv> 12"

definition Encrypt :: "cipher_env \<Rightarrow> string \<Rightarrow> string option \<Rightarrow> string \<Rightarrow> string option" where
  "Encrypt env key nonce plaintext =
     (case nonce of None \<Rightarrow> None | Some n \<Rightarrow> Some (n @ ae_seal env key n plaintext ''flowlens-webhook-secret-v1''))"

definition Decrypt :: "cipher_env \<Rightarrow> string \<Rightarrow> string \<Rightarrow> string option" where
  "Decrypt env key value =
     (if length value < nonceSize then None
      else ae_open env key (take nonceSize value) (drop nonceSize value) ''flowlens-webhook-secret-v1'')"

subsection \<open>Settings\<close>

datatype settings_error =
    BadRequest | BadEndpoint endpoint_error | ReadFailed | EncryptFailed | SecretMissing | SaveFailed | NotEnabled | QueueFailed

record SettingsResponse =
  sr_Enabled :: bool
  sr_Endpoint :: string
  sr_Configured :: bool

datatype settings_reply = SettingsError int settings_error | SettingsOK int SettingsResponse | TestAccepted int nat

record settings_input =
  si_enabled :: bool
  si_endpoint :: string
  si_secret :: string

record site =
  st_parse :: "string \<Rightarrow> url_parts option"
  st_lookup :: "string \<Rightarrow> bytes list option"
  st_allowHTTP :: bool
  st_cipher :: cipher_env
  st_key :: string

definition settingsResponse :: "WebhookSettings \<Rightarrow> SettingsResponse" where
  "settingsResponse s = \<lparr>sr_Enabled = ws_Enabled s, sr_Endpoint = ws_Endpoint s, sr_Configured = (ws_EncryptedSecret s \<noteq> [])\<rparr>"

definition Get_settings :: "bool \<Rightarrow> hook_db \<Rightarrow> settings_reply" where
  "Get_settings ok db = (case GetSettings ok db of Inl e \<Rightarrow> SettingsError 500 ReadFailed | Inr s \<Rightarrow> SettingsOK 200 (settingsResponse s))"

text \<open>\<open>reads\<close> and \<open>saves\<close>: whether the query and the transaction succeed; \<open>nonce\<close>: the random bytes, if they could be read.\<close>

definition Put_settings :: "site \<Rightarrow> bool \<Rightarrow> bool \<Rightarrow> string option \<Rightarrow> go_time \<Rightarrow> settings_input option \<Rightarrow> hook_db \<Rightarrow> hook_db \<times> settings_reply" where
  "Put_settings site reads saves nonce now input db =
     (case input of
        None \<Rightarrow> (db, SettingsError 400 BadRequest)
      | Some inp \<Rightarrow>
          (case (if si_enabled inp \<or> si_endpoint inp \<noteq> []
                 then (case ValidateEndpoint (st_parse site) (st_lookup site) (st_allowHTTP site) (si_endpoint inp) of Inl e \<Rightarrow> Some e | Inr u \<Rightarrow> None)
                 else None) of
             Some e \<Rightarrow> (db, SettingsError 400 (BadEndpoint e))
           | None \<Rightarrow>
               (case GetSettings reads db of
                  Inl e \<Rightarrow> (db, SettingsError 500 ReadFailed)
                | Inr current \<Rightarrow>
                    (case (if si_secret inp \<noteq> [] then Encrypt (st_cipher site) (st_key site) nonce (si_secret inp)
                           else Some (ws_EncryptedSecret current)) of
                       None \<Rightarrow> (db, SettingsError 500 EncryptFailed)
                     | Some encrypted \<Rightarrow>
                         (if si_enabled inp \<and> encrypted = [] then (db, SettingsError 400 SecretMissing)
                          else
                            (let settings = \<lparr>ws_Enabled = si_enabled inp, ws_Endpoint = si_endpoint inp,
                               ws_EncryptedSecret = encrypted, ws_UpdatedAt = now\<rparr> in
                             case SaveSettings saves settings db of
                               (db', Some e) \<Rightarrow> (db', SettingsError 500 SaveFailed)
                             | (db', None) \<Rightarrow> (db', SettingsOK 200 (settingsResponse settings))))))))"

definition Test_settings :: "bool \<Rightarrow> bool \<Rightarrow> (Delivery \<Rightarrow> string) \<Rightarrow> go_time \<Rightarrow> hook_db \<Rightarrow> hook_db \<times> settings_reply" where
  "Test_settings reads queues encode now db =
     (case GetSettings reads db of
        Inl e \<Rightarrow> (db, SettingsError 409 NotEnabled)
      | Inr s \<Rightarrow>
          (if \<not> ws_Enabled s \<or> ws_Endpoint s = [] \<or> ws_EncryptedSecret s = [] then (db, SettingsError 409 NotEnabled)
           else case QueueTest queues encode now db of
             (db', Inl e) \<Rightarrow> (db', SettingsError 500 QueueFailed)
           | (db', Inr i) \<Rightarrow> (db', TestAccepted 202 i)))"

subsection \<open>The dispatcher\<close>

datatype dispatch_error = DispatchRead | DispatchEndpoint endpoint_error | DispatchSecret | DispatchWorker hook_error

definition Dispatch :: "site \<Rightarrow> bool \<Rightarrow> (claim_op \<Rightarrow> bool) \<Rightarrow> bool \<Rightarrow> (nat \<Rightarrow> bool) \<Rightarrow> hook_env \<Rightarrow>
    (hook_request \<Rightarrow> hook_response option \<times> string option) \<Rightarrow> string \<Rightarrow> string \<Rightarrow> go_time \<Rightarrow> hook_db \<Rightarrow>
    hook_db \<times> bool \<times> dispatch_error option" where
  "Dispatch site reads fails ok locked env do dashboardURL owner now db =
     (case GetSettings reads db of
        Inl e \<Rightarrow> (db, False, Some DispatchRead)
      | Inr settings \<Rightarrow>
          (if \<not> ws_Enabled settings then (db, False, None)
           else case ValidateEndpoint (st_parse site) (st_lookup site) (st_allowHTTP site) (ws_Endpoint settings) of
             Inl e \<Rightarrow> (db, False, Some (DispatchEndpoint e))
           | Inr u \<Rightarrow>
               (case Decrypt (st_cipher site) (st_key site) (ws_EncryptedSecret settings) of
                  None \<Rightarrow> (db, False, Some DispatchSecret)
                | Some secret \<Rightarrow>
                    (case RunOne fails ok locked env do (NewWorker (ur_String u) secret dashboardURL) owner now db of
                       (db', worked, e) \<Rightarrow> (db', worked, map_option DispatchWorker e)))))"

subsection \<open>Lemmas on addresses\<close>

lemma unat_octet: "unat (b :: byte) < 256"
  using unsigned_less [of b] by simp

lemma high_bits:
  fixes b :: byte
  shows "unat (b AND NOT (mask k)) = unat b div 2 ^ k * 2 ^ k"
proof -
  have "b AND NOT (mask k) = push_bit k (drop_bit k b)"
    by (rule bit_word_eqI) (auto simp: bit_simps)
  moreover have "unat b div 2 ^ k * 2 ^ k < 256" using unat_octet [of b] div_times_less_eq_dividend [of "unat b" "2 ^ k"] by linarith
  then have "take_bit 8 (push_bit k (drop_bit k (take_bit 8 (unat b)))) = unat b div 2 ^ k * 2 ^ k"
    using unat_octet [of b] by (simp only: push_bit_eq_mult drop_bit_eq_div take_bit_eq_mod) simp
  ultimately show ?thesis by (simp only: unsigned_push_bit_eq unsigned_drop_bit_eq) simp
qed

lemma byte_masks:
  fixes b :: byte
  shows "b AND 240 = 16 \<longleftrightarrow> 16 \<le> b \<and> b < 32" "b AND 240 = 224 \<longleftrightarrow> 224 \<le> b \<and> b < 240"
    "b AND 254 = 252 \<longleftrightarrow> b = 252 \<or> b = 253" "b AND 192 = 128 \<longleftrightarrow> 128 \<le> b \<and> b < 192"
proof -
  have "NOT (mask 4) = (240 :: byte)" "NOT (mask 1) = (254 :: byte)" "NOT (mask 6) = (192 :: byte)" by (simp_all add: mask_eq_exp_minus_1)
  then have masks: "unat (b AND 240) = unat b div 16 * 16" "unat (b AND 254) = unat b div 2 * 2" "unat (b AND 192) = unat b div 64 * 64"
    using high_bits [of b 4] high_bits [of b 1] high_bits [of b 6] unfolding power_one_right by (simp_all only:) simp_all
  show "b AND 240 = 16 \<longleftrightarrow> 16 \<le> b \<and> b < 32" "b AND 240 = 224 \<longleftrightarrow> 224 \<le> b \<and> b < 240"
    "b AND 254 = 252 \<longleftrightarrow> b = 252 \<or> b = 253" "b AND 192 = 128 \<longleftrightarrow> 128 \<le> b \<and> b < 192"
    unfolding word_unat_eq_iff word_le_nat_alt word_less_nat_alt masks by auto
qed

lemma To4_mapped: "length bs = 4 \<Longrightarrow> To4 (mapped4 bs) = Some bs" "length bs = 4 \<Longrightarrow> To4 bs = Some bs"
  by (simp_all add: To4_def mapped4_def)

lemma four_bytes: "length bs = 4 \<Longrightarrow> \<exists>a b c d. bs = [a, b, c, d]"
  by (auto simp: length_Suc_conv numeral_eq_Suc)

lemma isPublicIP_mapped:
  assumes "length bs = 4"
  shows "isPublicIP (mapped4 bs) = isPublicIP bs"
proof -
  have len: "length (mapped4 bs) = 16" "mapped4 bs \<noteq> []" "bs \<noteq> []" using assms by (auto simp: mapped4_def)
  have "mapped4 bs ! 10 \<noteq> replicate 16 0 ! 10" by (simp add: mapped4_def nth_append)
  then have "mapped4 bs \<noteq> replicate 16 0" by auto
  then show ?thesis
    using assms len by (simp add: isPublicIP_def IsGlobalUnicast_def IsUnspecified_def IsLoopback_def IsPrivate_def IsMulticast_def
      IsLinkLocalMulticast_def IsLinkLocalUnicast_def To4_mapped ip_equal_def) (auto simp: mapped4_def)
qed

lemma equal4: "length bs = 4 \<Longrightarrow> ip_equal [a, b, c, d] (mapped4 bs) \<longleftrightarrow> [a, b, c, d] = bs"
  by (auto simp: ip_equal_def mapped4_def)

lemma not_zero16: "\<not> ip_equal [a, b, c, d] (replicate 16 0)"
proof -
  have "mapped4 [a, b, c, d] ! 10 \<noteq> replicate 16 0 ! 10" by (simp add: mapped4_def nth_append)
  then have "mapped4 [a, b, c, d] \<noteq> replicate 16 0" by auto
  then show ?thesis by (auto simp: ip_equal_def)
qed

lemma kinds4:
  "IsUnspecified [a, b, c, d] \<longleftrightarrow> [a, b, c, d] = [0, 0, 0, 0]" "IsLoopback [a, b, c, d] \<longleftrightarrow> a = 127"
  "IsPrivate [a, b, c, d] \<longleftrightarrow> a = 10 \<or> (a = 172 \<and> 16 \<le> b \<and> b < 32) \<or> (a = 192 \<and> b = 168)"
  "IsMulticast [a, b, c, d] \<longleftrightarrow> 224 \<le> a \<and> a < 240" "IsLinkLocalUnicast [a, b, c, d] \<longleftrightarrow> a = 169 \<and> b = 254"
  "IsLinkLocalMulticast [a, b, c, d] \<longleftrightarrow> a = 224 \<and> b = 0 \<and> c = 0"
  unfolding IsUnspecified_def IsLoopback_def IsPrivate_def IsMulticast_def IsLinkLocalMulticast_def IsLinkLocalUnicast_def
  by (simp_all add: To4_mapped(2) equal4 not_zero16 byte_masks)

lemma public4:
  "isPublicIP [a, b, c, d] \<longleftrightarrow>
     [a, b, c, d] \<noteq> [0, 0, 0, 0] \<and> [a, b, c, d] \<noteq> [255, 255, 255, 255] \<and> a \<noteq> 10 \<and> a \<noteq> 127 \<and> \<not> (a = 172 \<and> 16 \<le> b \<and> b < 32) \<and>
     \<not> (a = 192 \<and> b = 168) \<and> \<not> (a = 169 \<and> b = 254) \<and> \<not> (224 \<le> a \<and> a < 240)"
proof -
  have "ip_equal [a, b, c, d] (mapped4 [255, 255, 255, 255]) \<longleftrightarrow> [a, b, c, d] = [255, 255, 255, 255]" by (rule equal4) simp
  moreover have "length [a, b, c, d] = 4" "[a, b, c, d] \<noteq> []" "a = 224 \<longrightarrow> 224 \<le> a \<and> a < 240" by simp_all
  ultimately show ?thesis unfolding isPublicIP_def IsGlobalUnicast_def kinds4 by blast
qed

lemma public6:
  assumes "length ip = 16" "To4 ip = None"
  shows "isPublicIP ip \<longleftrightarrow> ip \<noteq> replicate 16 0 \<and> ip \<noteq> replicate 15 0 @ [1] \<and> hd ip \<notin> {252, 253, 255} \<and> \<not> (hd ip = 254 \<and> 128 \<le> ip ! 1 \<and> ip ! 1 < 192)"
proof -
  have "ip \<noteq> mapped4 bs" if "length bs = 4" for bs using assms(2) To4_mapped(1) [OF that] by auto
  moreover have "hd ip = ip ! 0" "ip \<noteq> []" using assms(1) by (cases ip; simp)+
  ultimately show ?thesis
    using assms by (auto simp: isPublicIP_def IsGlobalUnicast_def IsUnspecified_def IsLoopback_def IsPrivate_def IsMulticast_def
      IsLinkLocalMulticast_def IsLinkLocalUnicast_def ip_equal_def byte_masks mapped4_def)
qed

subsection \<open>Properties\<close>

text \<open>The addresses a webhook must not reach: of the IPv4 addresses, in either form, 10/8, 127/8, 172.16/12, 192.168/16, 169.254/16,
  224/4, 0.0.0.0 and 255.255.255.255; of the others fc00::/7, fe80::/10, ff00::/8, \<open>::\<close> and \<open>::1\<close>.\<close>

definition internal_ip :: "bytes \<Rightarrow> bool" where
  "internal_ip ip =
     (case To4 ip of
        Some v \<Rightarrow> v \<in> {[0, 0, 0, 0], [255, 255, 255, 255]} \<or> v ! 0 \<in> {10, 127} \<or> (v ! 0 = 172 \<and> 16 \<le> v ! 1 \<and> v ! 1 < 32) \<or>
          (v ! 0 = 192 \<and> v ! 1 = 168) \<or> (v ! 0 = 169 \<and> v ! 1 = 254) \<or> (224 \<le> v ! 0 \<and> v ! 0 < 240)
      | None \<Rightarrow> ip \<in> {replicate 16 0, replicate 15 0 @ [1]} \<or> ip ! 0 \<in> {252, 253, 255} \<or> (ip ! 0 = 254 \<and> 128 \<le> ip ! 1 \<and> ip ! 1 < 192))"

lemma isPublicIP_4: "length v = 4 \<Longrightarrow> isPublicIP v \<longleftrightarrow> \<not> internal_ip v"
  using four_bytes [of v] by (auto simp: public4 internal_ip_def To4_mapped)

text \<open>The test of the source is exactly that.\<close>

theorem public_ranges: "isPublicIP ip \<longleftrightarrow> (length ip = 4 \<or> length ip = 16) \<and> \<not> internal_ip ip"
proof (cases "To4 ip")
  case None
  then show ?thesis
    using public6 [of ip] by (cases ip) (auto simp: internal_ip_def isPublicIP_def IsGlobalUnicast_def To4_def split: if_splits)
next
  case (Some v)
  have split: "ip = mapped4 [] @ drop 12 ip" if "take 12 ip = mapped4 []" using append_take_drop_id [of 12 ip] that by simp
  have v: "length v = 4" "ip = v \<or> ip = mapped4 v" using Some split by (auto simp: To4_def mapped4_def split: if_splits)
  then have "internal_ip ip = internal_ip v" by (auto simp: internal_ip_def To4_mapped)
  then show ?thesis using v isPublicIP_4 [OF v(1)] isPublicIP_mapped [OF v(1)] by (auto simp: mapped4_def)
qed

text \<open>C32. The webhook client never dials an internal address: the dialer passes an address on exactly when it has a host and a port, the host
  resolves, and every one of its addresses at that moment lies outside the private, loopback, link-local and multicast ranges (of the IPv4
  addresses, also in their IPv6 form, 10/8, 127/8, 172.16/12, 192.168/16, 169.254/16, 224/4, 0.0.0.0 and 255.255.255.255; of the others fc00::/7,
  fe80::/10, ff00::/8, \<open>::\<close> and \<open>::1\<close>), whatever the host resolved to when the endpoint was checked; it then dials the first of
  them, as a literal address. Other ranges that are not public, as 100.64/10, 198.18/15 and 240/4, are dialled.\<close>

theorem dial_never_internal:
  "DialContext lookup address = Inr target \<longleftrightarrow>
    (\<exists>host port ips. SplitHostPort address = Some (host, port) \<and> resolveHost lookup host = Inr ips \<and> ips \<noteq> [] \<and>
      (\<forall>ip \<in> set ips. (length ip = 4 \<or> length ip = 16) \<and> \<not> internal_ip ip) \<and> target = JoinHostPort (ip_string (hd ips)) port)"
proof -
  have "ips \<noteq> []" if "resolveHost lookup host = Inr ips" for host ips using that by (auto simp: resolveHost_def split: option.splits list.splits)
  then show ?thesis by (auto simp: DialContext_def andThen_Inr list_all_iff public_ranges split: option.splits prod.splits if_splits)
qed

theorem dial_never_internal_witness:
  "\<not> internal_ip [203, 0, 113, 10] \<and> internal_ip (mapped4 [169, 254, 169, 254]) \<and> \<not> internal_ip [100, 100, 100, 200] \<and>
   DialContext (\<lambda>host. if host = ''hooks.example'' then Some [[203, 0, 113, 10]] else None) ''hooks.example:443'' = Inr ''203.0.113.10:443'' \<and>
   DialContext (\<lambda>host. Some [[203, 0, 113, 10], [169, 254, 169, 254]]) ''hooks.example:443'' \<noteq> Inr ''203.0.113.10:443''"
proof -
  have addresses: "\<not> internal_ip [203, 0, 113, 10]" "internal_ip (mapped4 [169, 254, 169, 254])" "internal_ip [169, 254, 169, 254]"
    "\<not> internal_ip [100, 100, 100, 200]" "ip_string [203, 0, 113, 10] = ''203.0.113.10''" by code_simp+
  have split: "SplitHostPort ''hooks.example:443'' = Some (''hooks.example'', ''443'')" "ParseIP (trim_brackets ''hooks.example'') = None" by code_simp+
  then show ?thesis using addresses by (simp add: dial_never_internal resolveHost_def JoinHostPort_def)
qed

definition cipher_ok :: "cipher_env \<Rightarrow> bool" where
  "cipher_ok env \<longleftrightarrow> (\<forall>key nonce text ad. ae_open env key nonce (ae_seal env key nonce text ad) ad = Some text)"

text \<open>Settings that were accepted are the ones that are used: after an enabling request with a secret that was answered 200, the
  endpoint is a valid one, and the dispatcher, as long as its host still resolves outside the internal ranges, signs with exactly that secret
  and sends to exactly that endpoint.\<close>

theorem settings_effective:
  assumes "cipher_ok (st_cipher site)" "length nonce = nonceSize" "Put_settings site reads saves (Some nonce) now (Some inp) db = (db', SettingsOK 200 reply)"
    "si_enabled inp" "si_secret inp \<noteq> []"
  shows "\<exists>u. ValidateEndpoint (st_parse site) (st_lookup site) (st_allowHTTP site) (si_endpoint inp) = Inr u \<and>
    reply = \<lparr>sr_Enabled = True, sr_Endpoint = si_endpoint inp, sr_Configured = True\<rparr> \<and>
    Dispatch site True fails ok locked env do dashboard owner later db' =
      (case RunOne fails ok locked env do (NewWorker (ur_String u) (si_secret inp) dashboard) owner later db' of
         (db'', worked, e) \<Rightarrow> (db'', worked, map_option DispatchWorker e))"
proof -
  obtain u where u: "ValidateEndpoint (st_parse site) (st_lookup site) (st_allowHTTP site) (si_endpoint inp) = Inr u"
    using assms(3,4) by (auto simp: Put_settings_def split: sum.splits)
  let ?secret = "nonce @ ae_seal (st_cipher site) (st_key site) nonce (si_secret inp) ''flowlens-webhook-secret-v1''"
  have save: "webhook_settings db' = \<lparr>ws_Enabled = True, ws_Endpoint = si_endpoint inp, ws_EncryptedSecret = ?secret, ws_UpdatedAt = now\<rparr>"
    "reply = \<lparr>sr_Enabled = True, sr_Endpoint = si_endpoint inp, sr_Configured = True\<rparr>"
    using assms(2-5) u by (auto simp: Put_settings_def Encrypt_def SaveSettings_def settingsResponse_def Let_def split: sum.splits if_splits)
  have "Decrypt (st_cipher site) (st_key site) ?secret = Some (si_secret inp)"
    using assms(1,2) by (simp add: Decrypt_def cipher_ok_def)
  then show ?thesis using u save by (simp add: Dispatch_def GetSettings_def)
qed

definition sample_site :: site where
  "sample_site = \<lparr>st_parse = (\<lambda>raw. Some \<lparr>ur_Scheme = ''https'', ur_Hostname = ''203.0.113.10'', ur_User = False, ur_Fragment = [], ur_String = raw\<rparr>),
     st_lookup = (\<lambda>host. None), st_allowHTTP = False,
     st_cipher = \<lparr>ae_seal = (\<lambda>key nonce text ad. rev text), ae_open = (\<lambda>key nonce text ad. Some (rev text))\<rparr>, st_key = replicate 32 CHR ''k''\<rparr>"

theorem settings_effective_witness:
  "\<exists>db' (u :: url_parts). Put_settings sample_site True True (Some ''0123456789ab'') 3
       (Some \<lparr>si_enabled = True, si_endpoint = ''https://203.0.113.10/h'', si_secret = ''key''\<rparr>) (hs_db tested_state) =
         (db', SettingsOK 200 \<lparr>sr_Enabled = True, sr_Endpoint = ''https://203.0.113.10/h'', sr_Configured = True\<rparr>) \<and>
     Dispatch sample_site True (\<lambda>op. False) True (\<lambda>i. False) plain_env (\<lambda>rq. (None, Some ''down'')) ''d'' ''a'' 9 db' =
      (case RunOne (\<lambda>op. False) True (\<lambda>i. False) plain_env (\<lambda>rq. (None, Some ''down'')) (NewWorker (ur_String u) ''key'' ''d'') ''a'' 9 db' of
         (db'', worked, e) \<Rightarrow> (db'', worked, map_option DispatchWorker e))"
proof -
  let ?inp = "\<lparr>si_enabled = True, si_endpoint = ''https://203.0.113.10/h'', si_secret = ''key''\<rparr>"
  let ?reply = "\<lparr>sr_Enabled = True, sr_Endpoint = ''https://203.0.113.10/h'', sr_Configured = True\<rparr>"
  have "snd (Put_settings sample_site True True (Some ''0123456789ab'') 3 (Some ?inp) (hs_db tested_state)) = SettingsOK 200 ?reply" by code_simp
  then obtain db' where put: "Put_settings sample_site True True (Some ''0123456789ab'') 3 (Some ?inp) (hs_db tested_state) = (db', SettingsOK 200 ?reply)"
    by (metis prod.collapse)
  have facts: "cipher_ok (st_cipher sample_site)" "length ''0123456789ab'' = nonceSize" by (simp_all add: cipher_ok_def sample_site_def)
  have enabled: "si_enabled ?inp" "si_secret ?inp \<noteq> []" by simp_all
  obtain u :: url_parts where "Dispatch sample_site True (\<lambda>op. False) True (\<lambda>i. False) plain_env (\<lambda>rq. (None, Some ''down'')) ''d'' ''a'' 9 db' =
      (case RunOne (\<lambda>op. False) True (\<lambda>i. False) plain_env (\<lambda>rq. (None, Some ''down'')) (NewWorker (ur_String u) (si_secret ?inp) ''d'') ''a'' 9 db' of
         (db'', worked, e) \<Rightarrow> (db'', worked, map_option DispatchWorker e))"
    using settings_effective [OF facts put enabled, where fails = "\<lambda>op. False" and ok = True and locked = "\<lambda>i. False"
      and env = plain_env and do = "\<lambda>rq. (None, Some ''down'')" and dashboard = "''d''" and owner = "''a''" and later = 9] by blast
  then show ?thesis unfolding settings_input.simps using put by blast
qed

end
