(* ===== verification/Interface_Counter.thy ===== *)
theory Interface_Counter
  imports Model Go_Text "HOL-Library.List_Lexorder" "HOL-Library.Char_ord" "HOL-Library.Multiset"
begin

text \<open>
  The interface counters, \<^verbatim>\<open>internal/agent/interfacecounter\<close>: parsing \<^verbatim>\<open>/proc/net/dev\<close>, the events for the
  differences of two snapshots (\<^verbatim>\<open>collector.go\<close>), and the checkpoint file that carries counters and an
  unqueued batch over a restart (\<^verbatim>\<open>state.go\<close>). A Go map from names to counters is an association list with
  distinct keys. The checkpoint's JSON codec is a parameter; the file system is a pair of the published and the
  temporary file, with the step that fails as an argument.
\<close>

subsection \<open>Counters\<close>

record Counter =
  RXBytes :: u64
  RXPackets :: u64
  TXBytes :: u64
  TXPackets :: u64

type_synonym counters = "(string \<times> Counter) list"

datatype parse_error =
    MissingSeparator nat
  | CountersExpected string
  | CounterInvalid string string
  | ScanFailed string

definition parseCounter :: "string \<Rightarrow> string \<Rightarrow> string \<Rightarrow> parse_error + u64" where
  "parseCounter iface field text =
     (case ParseUint text of None \<Rightarrow> Inl (CounterInvalid iface field) | Some v \<Rightarrow> Inr v)"

text \<open>The four fields read from a line, and the loop over the lines the scanner delivers; \<open>n\<close> counts the lines
  before.\<close>

definition parse_fields :: "string \<Rightarrow> string list \<Rightarrow> parse_error + Counter" where
  "parse_fields name vals =
     (if name = [] \<or> length vals < 16 then Inl (CountersExpected name)
      else andThen (parseCounter name ''rx_bytes'' (vals ! 0)) (\<lambda>rxb.
           andThen (parseCounter name ''rx_packets'' (vals ! 1)) (\<lambda>rxp.
           andThen (parseCounter name ''tx_bytes'' (vals ! 8)) (\<lambda>txb.
           andThen (parseCounter name ''tx_packets'' (vals ! 9)) (\<lambda>txp.
             Inr \<lparr>RXBytes = rxb, RXPackets = rxp, TXBytes = txb, TXPackets = txp\<rparr>)))))"

fun parse_lines :: "nat \<Rightarrow> string list \<Rightarrow> counters \<Rightarrow> parse_error + counters" where
  "parse_lines n [] acc = Inr acc"
| "parse_lines n (text # rest) acc =
     (case cut_at (CHR '':'') (TrimSpace text) of
        None \<Rightarrow> (if Suc n \<le> 2 then parse_lines (Suc n) rest acc else Inl (MissingSeparator (Suc n)))
      | Some (left, values) \<Rightarrow>
          (let name = TrimSpace left in
           andThen (parse_fields name (Fields values)) (\<lambda>c. parse_lines (Suc n) rest (AList.update name c acc))))"

text \<open>\<^verbatim>\<open>Parse\<close>, of the lines the scanner delivers and the error it ends with, if any.\<close>

definition Parse :: "string list \<Rightarrow> string option \<Rightarrow> parse_error + counters" where
  "Parse text scan_error =
     andThen (parse_lines 0 text []) (\<lambda>c. case scan_error of Some e \<Rightarrow> Inl (ScanFailed e) | None \<Rightarrow> Inr c)"

subsection \<open>Differences\<close>

definition directionDelta :: "string \<Rightarrow> string \<Rightarrow> u64 \<Rightarrow> u64 \<Rightarrow> u64 \<Rightarrow> u64 \<Rightarrow> go_time \<Rightarrow> Event option" where
  "directionDelta iface direction beforeBytes afterBytes beforePackets afterPackets observedAt =
     (if afterBytes < beforeBytes \<or> afterPackets < beforePackets then None
      else
        (let bytesDelta = afterBytes - beforeBytes; packetsDelta = afterPackets - beforePackets in
         if (bytesDelta = 0 \<and> packetsDelta = 0) \<or> MaxInt64 < bytesDelta \<or> MaxInt64 < packetsDelta then None
         else Some (zero_Event\<lparr>
           ev_ID := ''interface:'' @ iface @ '':'' @ direction @ '':'' @ format_int (UnixNano observedAt),
           ev_ObservedAt := observedAt, ev_Kind := EventInterfaceDelta, ev_Direction := direction,
           ev_Bytes := bytesDelta, ev_Packets := packetsDelta, ev_Interface := iface\<rparr>)))"

definition interface_events :: "counters \<Rightarrow> counters \<Rightarrow> go_time \<Rightarrow> string \<Rightarrow> Event list" where
  "interface_events previous current observedAt name =
     (case (map_of previous name, map_of current name) of
        (Some before, Some after) \<Rightarrow>
          (case directionDelta name DirectionInbound (RXBytes before) (RXBytes after) (RXPackets before) (RXPackets after)
             observedAt of Some ev \<Rightarrow> [ev] | None \<Rightarrow> []) @
          (case directionDelta name DirectionOutbound (TXBytes before) (TXBytes after) (TXPackets before) (TXPackets after)
             observedAt of Some ev \<Rightarrow> [ev] | None \<Rightarrow> [])
      | _ \<Rightarrow> [])"

definition delta_names :: "counters \<Rightarrow> counters \<Rightarrow> (string \<Rightarrow> bool) \<Rightarrow> string list" where
  "delta_names previous current allowed =
     sort (filter (\<lambda>name. map_of previous name \<noteq> None \<and> allowed name) (map fst current))"

definition Delta :: "counters \<Rightarrow> counters \<Rightarrow> (string \<Rightarrow> bool) \<Rightarrow> go_time \<Rightarrow> Event list" where
  "Delta previous current allowed observedAt =
     concat (map (interface_events previous current observedAt) (delta_names previous current allowed))"

definition DefaultAllowed :: "string \<Rightarrow> bool" where
  "DefaultAllowed name \<longleftrightarrow> name \<noteq> ''lo'' \<and> name \<noteq> ''docker0'' \<and> \<not> prefix ''br-'' name \<and> \<not> prefix ''veth'' name"

subsection \<open>The checkpoint file\<close>

definition checkpointVersion :: int where "checkpointVersion = 1"

record Checkpoint =
  ck_SchemaVersion :: int
  ck_NodeID :: string
  ck_Counters :: "counters option"
  ck_PendingBatch :: "Batch option"

definition NewCheckpoint :: "string \<Rightarrow> counters option \<Rightarrow> Batch option \<Rightarrow> Checkpoint" where
  "NewCheckpoint nodeID counters pending =
     \<lparr>ck_SchemaVersion = checkpointVersion, ck_NodeID = nodeID, ck_Counters = counters, ck_PendingBatch = pending\<rparr>"

datatype save_stage =
    MakeDirectory | CreateTemporary | SecureTemporary | EncodeTemporary | SyncTemporary | CloseTemporary
  | PublishRename | OpenDirectory | SyncDirectory

datatype checkpoint_error =
    CheckpointInvalid
  | PendingInvalid batch_error
  | PendingForeign
  | OpenCheckpoint string
  | DecodeCheckpoint
  | SaveFailed save_stage

definition validateCheckpoint :: "Checkpoint \<Rightarrow> checkpoint_error option" where
  "validateCheckpoint c =
     (if ck_SchemaVersion c \<noteq> checkpointVersion \<or> ck_NodeID c = [] \<or> ck_Counters c = None then Some CheckpointInvalid
      else case ck_PendingBatch c of
        None \<Rightarrow> None
      | Some b \<Rightarrow>
          (case Validate b of
             Some e \<Rightarrow> Some (PendingInvalid e)
           | None \<Rightarrow> if ba_NodeID b \<noteq> ck_NodeID c then Some PendingForeign else None))"

record disk =
  state_file :: "bytes option"
  temporary_file :: "bytes option"

definition checkpointLimit :: nat where "checkpointLimit = 2 ^ 20"

text \<open>\<^verbatim>\<open>StateFile.Load\<close>: the codec decodes at most the first mebibyte.\<close>

definition Load :: "(bytes \<Rightarrow> Checkpoint option) \<Rightarrow> string option \<Rightarrow> disk \<Rightarrow> checkpoint_error + Checkpoint option" where
  "Load decode open_error d =
     (case state_file d of
        None \<Rightarrow> Inr None
      | Some contents \<Rightarrow>
          (case open_error of
             Some e \<Rightarrow> Inl (OpenCheckpoint e)
           | None \<Rightarrow>
               (case decode (take checkpointLimit contents) of
                  None \<Rightarrow> Inl DecodeCheckpoint
                | Some c \<Rightarrow> (case validateCheckpoint c of Some e \<Rightarrow> Inl e | None \<Rightarrow> Inr (Some c)))))"

text \<open>The steps of \<^verbatim>\<open>StateFile.Save\<close> up to the one that fails, if any; leaving the function removes the temporary
  file unless it has been renamed.\<close>

fun save_step :: "(Checkpoint \<Rightarrow> bytes) \<Rightarrow> Checkpoint \<Rightarrow> save_stage \<Rightarrow> disk \<Rightarrow> disk" where
  "save_step encode c CreateTemporary d = d\<lparr>temporary_file := Some []\<rparr>"
| "save_step encode c EncodeTemporary d = d\<lparr>temporary_file := Some (encode c)\<rparr>"
| "save_step encode c PublishRename d = d\<lparr>state_file := temporary_file d, temporary_file := None\<rparr>"
| "save_step encode c _ d = d"

definition save_stages :: "save_stage list" where
  "save_stages = [MakeDirectory, CreateTemporary, SecureTemporary, EncodeTemporary, SyncTemporary, CloseTemporary,
     PublishRename, OpenDirectory, SyncDirectory]"

fun save_steps :: "(Checkpoint \<Rightarrow> bytes) \<Rightarrow> Checkpoint \<Rightarrow> save_stage option \<Rightarrow> save_stage list \<Rightarrow> disk \<Rightarrow>
    disk \<times> checkpoint_error option" where
  "save_steps encode c fault [] d = (d, None)"
| "save_steps encode c fault (stage # stages) d =
     (if fault = Some stage then (d\<lparr>temporary_file := None\<rparr>, Some (SaveFailed stage))
      else save_steps encode c fault stages (save_step encode c stage d))"

definition Save :: "(Checkpoint \<Rightarrow> bytes) \<Rightarrow> save_stage option \<Rightarrow> Checkpoint \<Rightarrow> disk \<Rightarrow> disk \<times> checkpoint_error option" where
  "Save encode fault c d =
     (case validateCheckpoint c of
        Some e \<Rightarrow> (d, Some e)
      | None \<Rightarrow> save_steps encode c fault save_stages d)"

subsection \<open>Parsing what the kernel prints\<close>

text \<open>A row of the table: an interface name behind blanks, a colon, and the counters behind blanks.\<close>

type_synonym dev_row = "nat \<times> string \<times> (nat \<times> u64) list"

fun dev_line :: "dev_row \<Rightarrow> string" where
  "dev_line (n, name, vals) =
     replicate n (CHR '' '') @ name @ CHR '':'' # padded (map (\<lambda>(k, v). (k, itoa (unat v))) vals)"

fun row_ok :: "dev_row \<Rightarrow> bool" where
  "row_ok (n, name, vals) \<longleftrightarrow> name \<noteq> [] \<and> list_all visible name \<and> CHR '':'' \<notin> set name \<and> 16 \<le> length vals"

fun row_counter :: "dev_row \<Rightarrow> string \<times> Counter" where
  "row_counter (n, name, vals) = (name,
     \<lparr>RXBytes = snd (vals ! 0), RXPackets = snd (vals ! 1), TXBytes = snd (vals ! 8), TXPackets = snd (vals ! 9)\<rparr>)"

lemma padded_last_visible:
  "ws \<noteq> [] \<Longrightarrow> \<forall>(n, w) \<in> set ws. w \<noteq> [] \<and> list_all visible w \<Longrightarrow> padded ws \<noteq> [] \<and> visible (last (padded ws))"
proof (induction ws rule: padded.induct)
  case (2 n w ws)
  then show ?case by (cases ws) (auto simp: list_all_iff)
qed simp

lemma dev_line_parts:
  assumes "row_ok (n, name, vals)"
  shows "cut_at (CHR '':'') (TrimSpace (dev_line (n, name, vals))) =
      Some (name, padded (map (\<lambda>(k, v). (k, itoa (unat v))) vals))"
    and "TrimSpace name = name"
    and "Fields (padded (map (\<lambda>(k, v). (k, itoa (unat v))) vals)) = map (\<lambda>(k, v). itoa (unat v)) vals"
proof -
  let ?ws = "map (\<lambda>(k, v). (k, itoa (unat v))) vals"
  have ws: "\<forall>(n, w) \<in> set ?ws. w \<noteq> [] \<and> list_all visible w"
    by (auto simp: itoa_nonempty itoa_visible)
  have "?ws \<noteq> []" using assms by auto
  from padded_last_visible [OF this ws]
  have "visible (last (name @ CHR '':'' # padded ?ws))" by simp
  moreover have "visible (hd (name @ CHR '':'' # padded ?ws))"
    using assms by (cases name) auto
  ultimately have "TrimSpace (dev_line (n, name, vals)) = name @ CHR '':'' # padded ?ws"
    by (simp add: TrimSpace_padded)
  then show "cut_at (CHR '':'') (TrimSpace (dev_line (n, name, vals))) = Some (name, padded ?ws)"
    using assms by (simp add: cut_at_append)
  show "TrimSpace name = name"
    using assms TrimSpace_padded [of name 0] by (auto simp: list_all_iff)
  show "Fields (padded ?ws) = map (\<lambda>(k, v). itoa (unat v)) vals"
    using Fields_padded [OF ws] by (simp add: comp_def case_prod_unfold)
qed

lemma parse_row:
  assumes "row_ok (n, name, vals)"
  shows "parse_fields name (map (\<lambda>(k, v). itoa (unat v)) vals) = Inr (snd (row_counter (n, name, vals)))"
proof -
  have "vals \<noteq> []" using assms by auto
  then show ?thesis
    using assms by (auto simp: parse_fields_def parseCounter_def case_prod_unfold ParseUint_itoa nth_map)
qed

lemma parse_rows:
  assumes "list_all row_ok rows"
  shows "parse_lines k (map dev_line rows) acc =
    Inr (fold (\<lambda>row. AList.update (fst (row_counter row)) (snd (row_counter row))) rows acc)"
  using assms
proof (induction rows arbitrary: k acc)
  case (Cons row rows)
  obtain n name vals where row: "row = (n, name, vals)" by (cases row)
  then have ok: "row_ok (n, name, vals)" using Cons.prems by simp
  show ?case
    using Cons parse_row [OF ok] by (simp add: row dev_line_parts [OF ok] del: dev_line.simps)
qed simp

lemma fold_update_distinct:
  "distinct (map fst (acc @ kvs)) \<Longrightarrow> fold (\<lambda>(k, v). AList.update k v) kvs acc = acc @ kvs"
  by (induction kvs arbitrary: acc) (auto simp: update_fresh)

subsection \<open>What a difference reports\<close>

text \<open>How far a pair of counters moved, as far as the code counts it: nothing when one went back, or when one
  moved by more than a signed number holds.\<close>

definition advance :: "u64 \<times> u64 \<Rightarrow> u64 \<times> u64 \<Rightarrow> int \<times> int" where
  "advance before after =
     (let b = uint (fst after) - uint (fst before); p = uint (snd after) - uint (snd before) in
      if b < 0 \<or> p < 0 \<or> max_int < b \<or> max_int < p then (0, 0) else (b, p))"

fun direction_counters :: "string \<Rightarrow> Counter \<Rightarrow> u64 \<times> u64" where
  "direction_counters d c = (if d = DirectionInbound then (RXBytes c, RXPackets c) else (TXBytes c, TXPackets c))"

text \<open>The bytes or packets a list of events reports for an interface in a direction.\<close>

definition reported :: "(Event \<Rightarrow> int64) \<Rightarrow> string \<Rightarrow> string \<Rightarrow> Event list \<Rightarrow> int" where
  "reported amount name d evs =
     sum_list (map (\<lambda>ev. sint (amount ev)) (filter (\<lambda>ev. ev_Interface ev = name \<and> ev_Direction ev = d) evs))"

lemma reported_simps [simp]:
  "reported amount name d [] = 0"
  "reported amount name d (ev # evs) =
     (if ev_Interface ev = name \<and> ev_Direction ev = d then sint (amount ev) else 0) + reported amount name d evs"
  "reported amount name d (xs @ ys) = reported amount name d xs + reported amount name d ys"
  by (simp_all add: reported_def)

lemma reported_other: "\<forall>ev \<in> set evs. ev_Interface ev \<noteq> name \<or> ev_Direction ev \<noteq> d \<Longrightarrow> reported amount name d evs = 0"
  by (induction evs) auto

lemma u64_diff: "\<not> a < b \<Longrightarrow> uint (a - b) = uint a - uint b" for a b :: u64
  by (simp add: uint_minus_simple_alt not_less word_le_def)

lemma delta_too_large: "MaxInt64 < w \<longleftrightarrow> max_int < uint w" for w :: u64
  by (simp add: word_less_def MaxInt64_def)

text \<open>One direction of one interface: an event exactly when a counter advanced, with the two advances.\<close>

lemma advance_words:
  assumes "advance (bb, bp) (ab, ap) \<noteq> (0, 0)"
  shows "advance (bb, bp) (ab, ap) = (sint (ab - bb), sint (ap - bp))"
proof -
  have b: "\<not> ab < bb" "\<not> ap < bp" "uint ab - uint bb \<le> max_int" "uint ap - uint bp \<le> max_int"
    using assms by (auto simp: advance_def word_less_def Let_def split: if_splits)
  then have "sint (ab - bb) = uint ab - uint bb" "sint (ap - bp) = uint ap - uint bp"
    by (simp_all add: sint_small u64_diff)
  with b show ?thesis by (simp add: advance_def word_less_def)
qed

lemma advance_zero_iff:
  "advance (bb, bp) (ab, ap) = (0, 0) \<longleftrightarrow> ab < bb \<or> ap < bp \<or> (ab - bb = 0 \<and> ap - bp = 0) \<or>
     MaxInt64 < ab - bb \<or> MaxInt64 < ap - bp"
proof (cases "ab < bb \<or> ap < bp")
  case False
  then have "uint (ab - bb) = uint ab - uint bb" "uint (ap - bp) = uint ap - uint bp" "uint bb \<le> uint ab" "uint bp \<le> uint ap"
    by (simp_all add: u64_diff word_less_def)
  with False show ?thesis by (auto simp: advance_def delta_too_large word_uint_eq_iff Let_def)
qed (auto simp: advance_def word_less_def)

lemma directionDelta_Some:
  "directionDelta iface d bb ab bp ap t = Some ev \<Longrightarrow>
   ev_Interface ev = iface \<and> ev_Direction ev = d \<and> (sint (ev_Bytes ev), sint (ev_Packets ev)) = advance (bb, bp) (ab, ap)"
  using advance_words [of bb bp ab ap] advance_zero_iff [of bb bp ab ap]
  by (auto simp: directionDelta_def Let_def split: if_splits)

lemma directionDelta_None: "directionDelta iface d bb ab bp ap t = None \<longleftrightarrow> advance (bb, bp) (ab, ap) = (0, 0)"
  by (auto simp: directionDelta_def advance_zero_iff Let_def)

lemma interface_events_name: "ev \<in> set (interface_events p c t name) \<Longrightarrow> ev_Interface ev = name"
  by (auto simp: interface_events_def dest: sym dest!: directionDelta_Some split: option.splits)

lemma direction_distinct: "DirectionInbound \<noteq> DirectionOutbound" "DirectionOutbound \<noteq> DirectionInbound"
  by (simp_all add: DirectionInbound_def DirectionOutbound_def)

lemma interface_events_reported:
  assumes "map_of p name = Some before" "map_of c name = Some after" "d \<in> {DirectionInbound, DirectionOutbound}"
  shows "(reported ev_Bytes name d (interface_events p c t name), reported ev_Packets name d (interface_events p c t name)) =
    advance (direction_counters d before) (direction_counters d after)"
  using assms direction_distinct
  by (auto simp: interface_events_def directionDelta_None split: option.splits dest!: directionDelta_Some)

lemma reported_concat:
  "distinct names \<Longrightarrow> (\<And>n ev. ev \<in> set (f n) \<Longrightarrow> ev_Interface ev = n) \<Longrightarrow>
   reported amount name d (concat (map f names)) = (if name \<in> set names then reported amount name d (f name) else 0)"
  by (induction names) (auto intro: reported_other)

lemma delta_names_set: "set (delta_names p c allowed) = {n. map_of p n \<noteq> None \<and> map_of c n \<noteq> None \<and> allowed n}"
  by (auto simp: delta_names_def map_of_eq_None_iff)

lemma Delta_reported:
  assumes "distinct (map fst c)"
  shows "reported amount name d (Delta p c allowed t) =
    (if map_of p name \<noteq> None \<and> map_of c name \<noteq> None \<and> allowed name
     then reported amount name d (interface_events p c t name) else 0)"
proof -
  have "distinct (delta_names p c allowed)"
    using assms by (simp add: delta_names_def)
  then show ?thesis
    using reported_concat [OF _ interface_events_name] by (auto simp: Delta_def delta_names_set)
qed

text \<open>The snapshots of a run, each compared with the one before.\<close>

fun delta_run :: "counters \<Rightarrow> (string \<Rightarrow> bool) \<Rightarrow> (counters \<times> go_time) list \<Rightarrow> Event list" where
  "delta_run previous allowed [] = []"
| "delta_run previous allowed ((current, t) # samples) = Delta previous current allowed t @ delta_run current allowed samples"

text \<open>An interface that never disappears and whose counters of a direction never go back or jump too far.\<close>

fun monotone_for :: "string \<Rightarrow> string \<Rightarrow> Counter \<Rightarrow> (counters \<times> go_time) list \<Rightarrow> Counter \<Rightarrow> bool" where
  "monotone_for name d before [] final \<longleftrightarrow> before = final"
| "monotone_for name d before ((current, t) # samples) final \<longleftrightarrow>
     distinct (map fst current) \<and>
     (case map_of current name of
        None \<Rightarrow> False
      | Some after \<Rightarrow>
          (let (b, p) = direction_counters d before; (b', p') = direction_counters d after in
           b \<le> b' \<and> p \<le> p' \<and> uint b' - uint b \<le> max_int \<and> uint p' - uint p \<le> max_int) \<and>
          monotone_for name d after samples final)"

lemma advance_monotone:
  "b \<le> b' \<Longrightarrow> p \<le> p' \<Longrightarrow> uint b' - uint b \<le> max_int \<Longrightarrow> uint p' - uint p \<le> max_int \<Longrightarrow>
   advance (b, p) (b', p') = (uint b' - uint b, uint p' - uint p)"
  by (simp add: advance_def word_le_def)

lemma delta_run_telescopes:
  assumes "map_of previous name = Some before" "monotone_for name d before samples final"
    "allowed name" "d \<in> {DirectionInbound, DirectionOutbound}"
  shows "reported ev_Bytes name d (delta_run previous allowed samples) =
      uint (fst (direction_counters d final)) - uint (fst (direction_counters d before)) \<and>
    reported ev_Packets name d (delta_run previous allowed samples) =
      uint (snd (direction_counters d final)) - uint (snd (direction_counters d before))"
  using assms
proof (induction previous allowed samples arbitrary: before rule: delta_run.induct)
  case (2 previous allowed current t samples)
  then obtain after where after: "map_of current name = Some after" "monotone_for name d after samples final"
    "distinct (map fst current)"
    "advance (direction_counters d before) (direction_counters d after) =
       (uint (fst (direction_counters d after)) - uint (fst (direction_counters d before)),
        uint (snd (direction_counters d after)) - uint (snd (direction_counters d before)))"
    by (auto simp: advance_monotone split: option.splits simp del: direction_counters.simps)
  with interface_events_reported [OF 2(2) after(1) 2(5), of t] 2 show ?case
    by (simp add: Delta_reported del: direction_counters.simps)
qed simp

subsection \<open>Validity of the events\<close>

lemma directionDelta_valid:
  assumes "directionDelta iface d bb ab bp ap t = Some ev" "iface \<noteq> []" "length iface \<le> 88" "t \<noteq> 0"
    "d \<in> {DirectionInbound, DirectionOutbound}"
  shows "valid_event ev"
proof -
  have "0 \<le> sint (ab - bb)" "0 \<le> sint (ap - bp)"
    using assms(1) u64_diff [of ab bb] u64_diff [of ap bp]
    by (auto simp: directionDelta_def Let_def delta_too_large not_less sint_small word_le_def split: if_splits)
  moreover have "length d \<le> 8"
    using assms(5) by (auto simp: DirectionInbound_def DirectionOutbound_def)
  with assms(3) length_format_UnixNano [of t]
  have "id_ok (''interface:'' @ iface @ '':'' @ d @ '':'' @ format_int (UnixNano t))"
    by (simp add: id_ok_def)
  moreover have "ev = zero_Event\<lparr>
      ev_ID := ''interface:'' @ iface @ '':'' @ d @ '':'' @ format_int (UnixNano t),
      ev_ObservedAt := t, ev_Kind := EventInterfaceDelta, ev_Direction := d,
      ev_Bytes := ab - bb, ev_Packets := ap - bp, ev_Interface := iface\<rparr>"
    using assms(1) unfolding directionDelta_def Let_def by (metis option.distinct(1) option.inject)
  ultimately show ?thesis
    using assms(2,4,5) by (elim insertE) (simp_all add: valid_event_def valid_payload_def payload_kinds_def zero_Event_def)
qed

lemma interface_events_valid:
  assumes "name \<noteq> []" "length name \<le> 88" "t \<noteq> 0"
  shows "list_all valid_event (interface_events p c t name)"
  using assms by (auto simp: interface_events_def split: option.split intro: directionDelta_valid)

lemma interface_events_length: "length (interface_events p c t name) \<le> 2"
  by (auto simp: interface_events_def split: option.split)

lemma Delta_length: "length (Delta p c allowed t) \<le> 2 * length c"
proof -
  have "length (concat (map (interface_events p c t) ns)) \<le> 2 * length ns" for ns
  proof (induction ns)
    case (Cons n ns)
    then show ?case using interface_events_length [of p c t n] by simp
  qed simp
  moreover have "length (delta_names p c allowed) \<le> length c"
    unfolding delta_names_def length_sort by (metis length_filter_le length_map)
  ultimately show ?thesis unfolding Delta_def by (meson le_trans mult_le_mono2)
qed

subsection \<open>Atomic publication\<close>

text \<open>The published file after any number of completed steps, and after a return with or without an error.\<close>

lemma save_crash_atomic:
  "state_file (fold (save_step encode c) (take k save_stages) d) \<in> {state_file d, Some (encode c)}"
proof -
  have "k = 0 \<or> k = 1 \<or> k = 2 \<or> k = 3 \<or> k = 4 \<or> k = 5 \<or> k = 6 \<or> k = 7 \<or> k = 8 \<or> 9 \<le> k" by linarith
  then show ?thesis by (elim disjE) (simp_all add: save_stages_def)
qed

lemma save_steps_outcome:
  "save_steps encode c fault save_stages d =
     (case fault of
        None \<Rightarrow> (\<lparr>state_file = Some (encode c), temporary_file = None\<rparr>, None)
      | Some stage \<Rightarrow> (\<lparr>state_file = if stage \<in> {OpenDirectory, SyncDirectory} then Some (encode c) else state_file d,
           temporary_file = None\<rparr>, Some (SaveFailed stage)))"
  by (cases d; cases fault; cases "the fault") (auto simp: save_stages_def)

subsection \<open>Properties\<close>

definition demo_row :: "u64 \<Rightarrow> dev_row" where
  "demo_row v = (2, ''eth0'', (3, v) # (0, 7) # replicate 14 (1, 9))"

definition demo_counters :: "u64 \<Rightarrow> u64 \<Rightarrow> counters" where
  "demo_counters b p = [(''eth0'', \<lparr>RXBytes = b, RXPackets = p, TXBytes = 5, TXPackets = 1\<rparr>)]"

text \<open>Round trip with the kernel's table: whatever blanks pad the columns, parsing the two heading lines and
  one row for each interface gives exactly the received and transmitted bytes and packets of every row, for
  all values of 64 bits.\<close>

theorem proc_net_dev_roundtrip:
  assumes "list_all row_ok rows" "distinct (map (fst \<circ> row_counter) rows)"
    "cut_at (CHR '':'') (TrimSpace h1) = None" "cut_at (CHR '':'') (TrimSpace h2) = None"
  shows "Parse (h1 # h2 # map dev_line rows) None = Inr (map row_counter rows)"
proof -
  have "fold (\<lambda>row. AList.update (fst (row_counter row)) (snd (row_counter row))) rows [] =
      fold (\<lambda>(k, v). AList.update k v) (map row_counter rows) []"
    by (simp add: fold_map comp_def case_prod_unfold)
  then show ?thesis
    using assms fold_update_distinct [of "[]" "map row_counter rows"]
    by (simp add: Parse_def parse_rows comp_def)
qed

theorem proc_net_dev_roundtrip_witness:
  "Parse [''Inter-|   Receive'', '' face |bytes'', dev_line (demo_row 1500)] None =
     Inr [(''eth0'', \<lparr>RXBytes = 1500, RXPackets = 7, TXBytes = 9, TXPackets = 9\<rparr>)]"
  using proc_net_dev_roundtrip [of "[demo_row 1500]" "''Inter-|   Receive''" "'' face |bytes''"]
    TrimSpace_padded [of "''Inter-|   Receive''" 0] TrimSpace_padded [of "''face |bytes''" 1]
  by (simp add: demo_row_def visible_def)

text \<open>Interface traffic is accounted exactly: over a run of snapshots in which an allowed interface stays
  present and its counters of a direction do not go back, the bytes and the packets of its events add up to
  the difference between the last and the first counter values.\<close>

theorem interface_totals:
  assumes "map_of previous name = Some before" "monotone_for name d before samples final" "allowed name"
    "d \<in> {DirectionInbound, DirectionOutbound}"
  shows "reported ev_Bytes name d (delta_run previous allowed samples) =
      uint (fst (direction_counters d final)) - uint (fst (direction_counters d before)) \<and>
    reported ev_Packets name d (delta_run previous allowed samples) =
      uint (snd (direction_counters d final)) - uint (snd (direction_counters d before))"
  using assms by (rule delta_run_telescopes)

theorem interface_totals_witness:
  "reported ev_Bytes ''eth0'' DirectionInbound
     (delta_run (demo_counters 100 1) DefaultAllowed [(demo_counters 250 2, 3), (demo_counters 900 9, 4)]) = 800"
  using interface_totals [of "demo_counters 100 1" "''eth0''" "snd (hd (demo_counters 100 1))" DirectionInbound
    "[(demo_counters 250 2, 3), (demo_counters 900 9, 4)]" "snd (hd (demo_counters 900 9))" DefaultAllowed]
  by (simp add: demo_counters_def DefaultAllowed_def)

text \<open>One difference, exactly: for each interface and direction it reports the advance of the two counters if
  the interface is allowed and in both snapshots, and nothing otherwise; a counter that went back or jumped
  by more than a signed number holds is not reported. With interface names of at most 88 bytes
  every event passes validation, and there are at most two for each interface.\<close>

theorem delta_exact:
  assumes "distinct (map fst current)" "d \<in> {DirectionInbound, DirectionOutbound}" "t \<noteq> 0"
    "\<forall>name \<in> fst ` set current. name \<noteq> [] \<and> length name \<le> 88"
  shows "(reported ev_Bytes name d (Delta previous current allowed t),
      reported ev_Packets name d (Delta previous current allowed t)) =
    (case (map_of previous name, map_of current name) of
       (Some before, Some after) \<Rightarrow>
         (if allowed name then advance (direction_counters d before) (direction_counters d after) else (0, 0))
     | _ \<Rightarrow> (0, 0)) \<and>
    list_all valid_event (Delta previous current allowed t) \<and> length (Delta previous current allowed t) \<le> 2 * length current"
proof (intro conjI)
  show "(reported ev_Bytes name d (Delta previous current allowed t),
      reported ev_Packets name d (Delta previous current allowed t)) =
    (case (map_of previous name, map_of current name) of
       (Some before, Some after) \<Rightarrow>
         (if allowed name then advance (direction_counters d before) (direction_counters d after) else (0, 0))
     | _ \<Rightarrow> (0, 0))"
    using interface_events_reported [OF _ _ assms(2)] by (auto simp: Delta_reported [OF assms(1)] split: option.split)
  show "list_all valid_event (Delta previous current allowed t)"
    using assms(3,4) interface_events_valid by (fastforce simp: Delta_def delta_names_def list_all_iff)
qed (rule Delta_length)

theorem delta_exact_witness:
  "reported ev_Bytes ''eth0'' DirectionInbound (Delta (demo_counters 900 9) (demo_counters 100 1) DefaultAllowed 5) = 0 \<and>
   reported ev_Bytes ''eth0'' DirectionInbound (Delta (demo_counters 100 1) (demo_counters 900 9) DefaultAllowed 5) = 800"
  using delta_exact [of "demo_counters 100 1" DirectionInbound 5 "''eth0''" "demo_counters 900 9" DefaultAllowed]
    delta_exact [of "demo_counters 900 9" DirectionInbound 5 "''eth0''" "demo_counters 100 1" DefaultAllowed]
  by (simp add: demo_counters_def DefaultAllowed_def advance_def)

text \<open>The checkpoint file is replaced atomically: whatever step of saving fails, the published file holds the old
  or the complete new checkpoint and no temporary file is left, and the same holds of the published
  file if the process dies between two steps. What was saved without error, and is not longer than the mebibyte
  the reader takes, is what loading returns.\<close>

theorem checkpoint_atomic:
  assumes "Save encode fault c d = (d', r)" "temporary_file d = None"
  shows "state_file d' \<in> {state_file d, Some (encode c)} \<and> temporary_file d' = None \<and>
    state_file (fold (save_step encode c) (take k save_stages) d) \<in> {state_file d, Some (encode c)} \<and>
    (r = None \<and> decode (encode c) = Some c \<and> length (encode c) \<le> checkpointLimit \<longrightarrow>
       Load decode None d' = Inr (Some c))"
proof (intro conjI impI)
  show "state_file (fold (save_step encode c) (take k save_stages) d) \<in> {state_file d, Some (encode c)}"
    by (rule save_crash_atomic)
qed (use assms in \<open>auto simp: Save_def save_steps_outcome Load_def split: option.splits if_splits\<close>)

definition demo_checkpoint :: Checkpoint where
  "demo_checkpoint = NewCheckpoint ''n'' (Some (demo_counters 5 5)) None"

theorem checkpoint_atomic_witness:
  "Load (\<lambda>_. Some demo_checkpoint) None (fst (Save (\<lambda>_. [1, 2]) None demo_checkpoint \<lparr>state_file = None, temporary_file = None\<rparr>))
     = Inr (Some demo_checkpoint)"
  using checkpoint_atomic [of "\<lambda>_. [1, 2]" None demo_checkpoint "\<lparr>state_file = None, temporary_file = None\<rparr>"
    "\<lparr>state_file = Some [1, 2], temporary_file = None\<rparr>" None 0 "\<lambda>_. Some demo_checkpoint"]
  by (simp add: Save_def save_steps_outcome validateCheckpoint_def demo_checkpoint_def NewCheckpoint_def
      checkpointVersion_def checkpointLimit_def)

end
