(* ===== verification/Sender.thy ===== *)
theory Sender
  imports Model
begin

text \<open>
  The delivery of batches over HTTP, \<^verbatim>\<open>internal/agent/sender/sender.go\<close>: the classification of the server's answer
  and the retry loop with its backoff. The HTTP client, the sleep and the encoding of the body (JSON and
  gzip) are parameters: what the \<open>n\<close>-th attempt and the \<open>n\<close>-th sleep return.
  \<open>send_exact\<close> describes every run of the loop.
\<close>

record Sender =
  sn_endpoint :: string
  sn_token :: string
  sn_backoff :: "go_time list"

definition default_backoff :: "go_time list" where
  "default_backoff = [1 * 1000000000, 5 * 1000000000, 30 * 1000000000]"

text \<open>The scheme and host of a parsed URL, if it parses; \<^verbatim>\<open>New\<close> with the backoff option applied.\<close>

datatype new_error = EndpointInvalid | TokenRequired

definition NewSender :: "(string \<Rightarrow> (string \<times> string) option) \<Rightarrow> string \<Rightarrow> string \<Rightarrow> go_time list option \<Rightarrow> new_error + Sender" where
  "NewSender parse_url endpoint token backoff =
     (case parse_url endpoint of
        None \<Rightarrow> Inl EndpointInvalid
      | Some (scheme, host) \<Rightarrow>
          (if (scheme \<noteq> ''http'' \<and> scheme \<noteq> ''https'') \<or> host = [] then Inl EndpointInvalid
           else if token = [] then Inl TokenRequired
           else Inr \<lparr>sn_endpoint = endpoint, sn_token = token,
             sn_backoff = (case backoff of None \<Rightarrow> default_backoff | Some b \<Rightarrow> b)\<rparr>))"

subsection \<open>One attempt\<close>

datatype http_outcome = RequestInvalid string | TransportError string | Response int

datatype attempt_error =
    CreateRequest string
  | Deliver string
  | ErrPermanent int
  | RetryableStatus int

definition attempt :: "http_outcome \<Rightarrow> attempt_error option" where
  "attempt outcome =
     (case outcome of
        RequestInvalid e \<Rightarrow> Some (CreateRequest e)
      | TransportError e \<Rightarrow> Some (Deliver e)
      | Response status \<Rightarrow>
          (if status = 200 \<or> status = 202 then None
           else if 400 \<le> status \<and> status < 500 then Some (ErrPermanent status)
           else Some (RetryableStatus status)))"

fun is_permanent :: "attempt_error \<Rightarrow> bool" where
  "is_permanent (ErrPermanent status) = True"
| "is_permanent _ = False"

subsection \<open>The retry loop\<close>

datatype send_error =
    InvalidBatch batch_error
  | EncodeFailed string
  | PermanentFailure attempt_error
  | SleepFailed string
  | RetriesExhausted attempt_error

text \<open>The loop from attempt \<open>n\<close> on, with the delays still to come; besides the error it returns how many attempts
  were made and the delays slept.\<close>

fun send_loop :: "(nat \<Rightarrow> http_outcome) \<Rightarrow> (nat \<Rightarrow> go_time \<Rightarrow> string option) \<Rightarrow> nat \<Rightarrow> go_time list \<Rightarrow>
    send_error option \<times> nat \<times> go_time list" where
  "send_loop http sleep n [] =
     (case attempt (http n) of
        None \<Rightarrow> (None, 1, [])
      | Some e \<Rightarrow> (if is_permanent e then (Some (PermanentFailure e), 1, []) else (Some (RetriesExhausted e), 1, [])))"
| "send_loop http sleep n (delay # delays) =
     (case attempt (http n) of
        None \<Rightarrow> (None, 1, [])
      | Some e \<Rightarrow>
          (if is_permanent e then (Some (PermanentFailure e), 1, [])
           else (case sleep n delay of
                   Some err \<Rightarrow> (Some (SleepFailed err), 1, [delay])
                 | None \<Rightarrow> (case send_loop http sleep (Suc n) delays of (r, k, ds) \<Rightarrow> (r, Suc k, delay # ds)))))"

definition Send :: "(Batch \<Rightarrow> string + bytes) \<Rightarrow> (bytes \<Rightarrow> nat \<Rightarrow> http_outcome) \<Rightarrow> (nat \<Rightarrow> go_time \<Rightarrow> string option) \<Rightarrow>
    Sender \<Rightarrow> Batch \<Rightarrow> send_error option \<times> nat \<times> go_time list" where
  "Send encodeBatch http sleep s batch =
     (case Validate batch of
        Some e \<Rightarrow> (Some (InvalidBatch e), 0, [])
      | None \<Rightarrow>
          (case encodeBatch batch of
             Inl e \<Rightarrow> (Some (EncodeFailed e), 0, [])
           | Inr body \<Rightarrow> send_loop (http body) sleep 0 (sn_backoff s)))"

subsection \<open>Every run of the loop\<close>

definition retryable :: "http_outcome \<Rightarrow> bool" where
  "retryable outcome \<longleftrightarrow> (\<exists>e. attempt outcome = Some e \<and> \<not> is_permanent e)"

text \<open>A run of \<open>k\<close> attempts: all but the last are retryable and followed by a sleep that succeeds, and the last
  decides the result.\<close>

definition send_run :: "(nat \<Rightarrow> http_outcome) \<Rightarrow> (nat \<Rightarrow> go_time \<Rightarrow> string option) \<Rightarrow> nat \<Rightarrow> go_time list \<Rightarrow>
    send_error option \<Rightarrow> nat \<Rightarrow> go_time list \<Rightarrow> bool" where
  "send_run http sleep n delays r k ds \<longleftrightarrow>
     0 < k \<and> k \<le> Suc (length delays) \<and>
     (\<forall>i < k - 1. retryable (http (n + i)) \<and> sleep (n + i) (delays ! i) = None) \<and>
     (let last_error = attempt (http (n + k - 1)) in
      case r of
        None \<Rightarrow> last_error = None \<and> ds = take (k - 1) delays
      | Some (PermanentFailure e) \<Rightarrow> last_error = Some e \<and> is_permanent e \<and> ds = take (k - 1) delays
      | Some (RetriesExhausted e) \<Rightarrow> last_error = Some e \<and> \<not> is_permanent e \<and> k = Suc (length delays) \<and> ds = delays
      | Some (SleepFailed err) \<Rightarrow> retryable (http (n + k - 1)) \<and> k \<le> length delays \<and>
          sleep (n + k - 1) (delays ! (k - 1)) = Some err \<and> ds = take k delays
      | _ \<Rightarrow> False)"

lemma send_run_step:
  assumes "send_run http sleep (Suc n) delays r k ds" "retryable (http n)" "sleep n delay = None"
  shows "send_run http sleep n (delay # delays) r (Suc k) (delay # ds)"
proof -
  obtain k' where k: "k = Suc k'" using assms(1) by (cases k) (auto simp: send_run_def)
  have "retryable (http (n + i)) \<and> sleep (n + i) ((delay # delays) ! i) = None" if "i < k" for i
    using assms that by (cases i) (auto simp: send_run_def k)
  with assms(1) show ?thesis
    by (auto simp: send_run_def k Let_def split: option.splits send_error.splits)
qed

lemma send_loop_run: "send_loop http sleep n delays = (r, k, ds) \<Longrightarrow> send_run http sleep n delays r k ds"
proof (induction http sleep n delays arbitrary: r k ds rule: send_loop.induct)
  case (1 http sleep n)
  then show ?case by (auto simp: send_run_def Let_def split: option.splits if_splits)
next
  case (2 http sleep n delay delays)
  show ?case
  proof (cases "retryable (http n) \<and> sleep n delay = None")
    case True
    then obtain e where e: "attempt (http n) = Some e" "\<not> is_permanent e" by (auto simp: retryable_def)
    with True 2 obtain k' ds' where "send_loop http sleep (Suc n) delays = (r, k', ds')" "k = Suc k'" "ds = delay # ds'"
      by (auto split: prod.splits)
    with 2(1) [OF e(1) e(2)] True show ?thesis by (auto intro: send_run_step)
  next
    case False
    with 2(2) show ?thesis by (auto simp: send_run_def retryable_def Let_def split: option.splits if_splits)
  qed
qed

lemma send_loop_delivers:
  "i \<le> length delays \<Longrightarrow> attempt (http (n + i)) = None \<Longrightarrow>
   \<forall>j < i. retryable (http (n + j)) \<and> sleep (n + j) (delays ! j) = None \<Longrightarrow>
   send_loop http sleep n delays = (None, Suc i, take i delays)"
proof (induction i arbitrary: n delays)
  case 0
  then show ?case by (cases delays) auto
next
  case (Suc i)
  then obtain delay rest where d: "delays = delay # rest" by (cases delays) auto
  have first: "retryable (http n)" "sleep n delay = None"
    using Suc.prems(3) [rule_format, of 0] by (simp_all add: d)
  have "\<forall>j < i. retryable (http (Suc n + j)) \<and> sleep (Suc n + j) (rest ! j) = None"
    using Suc.prems(3) by (force simp: d)
  with Suc.IH [of rest "Suc n"] Suc.prems(1,2) have "send_loop http sleep (Suc n) rest = (None, Suc i, take i rest)"
    by (simp add: d)
  with first show ?case by (auto simp: d retryable_def)
qed

subsection \<open>Properties\<close>

definition demo_health :: Event where
  "demo_health = zero_Event\<lparr>ev_ID := ''e'', ev_ObservedAt := 5, ev_Kind := EventInterfaceDelta,
     ev_Direction := DirectionInbound, ev_Bytes := 1, ev_Interface := ''eth0''\<rparr>"

definition demo_send_batch :: Batch where
  "demo_send_batch = \<lparr>ba_SchemaVersion = 1, ba_BatchID = ''b'', ba_NodeID = ''n'', ba_SentAt = 7, ba_Events = [demo_health],
     ba_CompactedBatchIDs = []\<rparr>"

definition demo_sender :: Sender where
  "demo_sender = \<lparr>sn_endpoint = ''http://h'', sn_token = ''t'', sn_backoff = default_backoff\<rparr>"

lemma demo_send_valid: "Validate demo_send_batch = None"
  by (simp add: Validate_def demo_send_batch_def demo_health_def zero_Event_def id_ok_def IsZero_def event_validate_def
      kind_validate_def nonHealthPayloadCount_def trafficPayloadCount_def direction_valid_def word_sless_alt)

text \<open>Retries are exact: sending a valid batch makes at least one and at most one more attempt than the backoff has
  delays; all attempts before the last got no answer or a retryable status and were followed by a completed
  sleep of the configured delay; and the last decides the result: delivered on 200 or 202, failed for good on a
  4xx status, given up when the delays are used up, or interrupted while sleeping.\<close>

theorem send_exact:
  assumes "Validate batch = None" "encodeBatch batch = Inr body"
  shows "\<exists>r k ds. Send encodeBatch http sleep s batch = (r, k, ds) \<and> send_run (http body) sleep 0 (sn_backoff s) r k ds"
proof -
  obtain r k ds where "send_loop (http body) sleep 0 (sn_backoff s) = (r, k, ds)"
    by (metis prod.exhaust)
  with assms send_loop_run [OF this] show ?thesis by (simp add: Send_def)
qed

theorem send_exact_witness:
  "send_run (\<lambda>_. Response 503) (\<lambda>_ _. None) 0 default_backoff (Some (RetriesExhausted (RetryableStatus 503))) 4 default_backoff"
  using send_exact [OF demo_send_valid, of "\<lambda>_. Inr []" "[]" "\<lambda>_ _. Response 503" "\<lambda>_ _. None" demo_sender]
  by (simp add: Send_def demo_send_valid demo_sender_def default_backoff_def attempt_def flip: numeral_2_eq_2)

text \<open>Liveness of delivery: if the server accepts one of the attempts the backoff allows, and the attempts before it
  fail in a retryable way with their sleeps completed, then the batch is delivered, by exactly that attempt and
  after exactly the delays before it.\<close>

theorem send_delivers:
  assumes "Validate batch = None" "encodeBatch batch = Inr body" "i \<le> length (sn_backoff s)"
    "attempt (http body i) = None" "\<forall>j < i. retryable (http body j) \<and> sleep j (sn_backoff s ! j) = None"
  shows "Send encodeBatch http sleep s batch = (None, Suc i, take i (sn_backoff s))"
  using send_loop_delivers [of i "sn_backoff s" "http body" 0 sleep] assms by (simp add: Send_def)

theorem send_delivers_witness:
  "Send (\<lambda>_. Inr []) (\<lambda>_ n. if n < 2 then TransportError ''refused'' else Response 202) (\<lambda>_ _. None) demo_sender demo_send_batch
     = (None, 3, [1000000000, 5000000000])"
  using send_delivers [OF demo_send_valid, of "\<lambda>_. Inr []" "[]" 2 demo_sender
    "\<lambda>_ n. if n < 2 then TransportError ''refused'' else Response 202" "\<lambda>_ _. None"]
  by (simp add: demo_sender_def default_backoff_def attempt_def retryable_def eval_nat_numeral)

end
