(* ===== verification/App.thy ===== *)
theory App
  imports Interface_Counter Spool Sender
begin

text \<open>
  The agent loop, \<^verbatim>\<open>internal/agent/app/app.go\<close>: sampling interface counters, recording detailed events, reporting the state of
  the spool and draining it. The loop works over three interfaces, the queue, the sender and the counter state;
  they are the operations of the record \<open>interfaces\<close>, over state types of their own. The spool, the sender and
  the checkpoint file of the other theories are the instances the agent uses. SHA-256 and the formatting of a floating-point
  number are parameters.
\<close>

subsection \<open>Interfaces and state\<close>

record ('q, 'e, 'i, 's, 'f, 'c, 'g) interfaces =
  op_enqueue :: "'q \<Rightarrow> Batch \<Rightarrow> 'q \<times> ('e + DropReport)"
  op_peek :: "'q \<Rightarrow> 'e + 'i option"
  op_ack :: "'q \<Rightarrow> 'i \<Rightarrow> 'q \<times> 'e option"
  op_batch :: "'i \<Rightarrow> Batch"
  op_send :: "'s \<Rightarrow> Batch \<Rightarrow> 's \<times> 'f option"
  op_load :: "'c \<Rightarrow> 'g + Checkpoint option"
  op_save :: "'c \<Rightarrow> Checkpoint \<Rightarrow> 'c \<times> 'g option"
  op_sha :: "nat \<Rightarrow> string \<Rightarrow> string"
  op_percent :: "float64 \<Rightarrow> string"

record ('q, 's, 'c) App =
  nodeID :: string
  queue :: 'q
  sender :: 's
  previous :: "counters option"
  counterState :: "'c option"
  stateLoaded :: bool
  spoolPressured :: bool

datatype ('e, 'f, 'g) app_error =
    ReadCounters string
  | LoadCheckpoint 'g
  | RecoverPending 'e
  | ClearRecovered 'g
  | SaveCheckpoint 'g
  | QueueTraffic 'e
  | QueueDetail 'e
  | QueueHealth 'e
  | DrainFailed "('e, 'f) drain_error"

definition NewApp :: "string \<Rightarrow> 'q \<Rightarrow> 's \<Rightarrow> 'c option \<Rightarrow> ('q, 's, 'c) App" where
  "NewApp node q s state = \<lparr>nodeID = node, queue = q, sender = s, previous = None, counterState = state,
     stateLoaded = False, spoolPressured = False\<rparr>"

subsection \<open>Identifiers\<close>

definition eventID :: "(nat \<Rightarrow> string \<Rightarrow> string) \<Rightarrow> string \<Rightarrow> string \<Rightarrow> go_time \<Rightarrow> string" where
  "eventID sha kind node t = kind @ '':'' @ sha 8 node @ '':'' @ format_int (UnixNano t)"

definition detailBatchID :: "(nat \<Rightarrow> string \<Rightarrow> string) \<Rightarrow> string \<Rightarrow> go_time \<Rightarrow> nat \<Rightarrow> Event list \<Rightarrow> string" where
  "detailBatchID sha node t part events =
     ''detail-batch-'' @ itoa part @ '':'' @
       sha 12 (node @ [CHR 0x00] @ format_int (UnixNano t) @ [CHR 0x00] @ itoa part @
         concat (map (\<lambda>ev. CHR 0x00 # ev_ID ev) events))"

subsection \<open>Reporting the state of the spool\<close>

definition spool_health :: "(nat \<Rightarrow> string \<Rightarrow> string) \<Rightarrow> string \<Rightarrow> go_time \<Rightarrow> string \<Rightarrow> string \<Rightarrow> string \<Rightarrow> int \<Rightarrow> float64 \<Rightarrow> Event" where
  "spool_health sha node t status code message dropped usage =
     zero_Event\<lparr>ev_ID := eventID sha (''health-event-'' @ code) node t, ev_ObservedAt := t, ev_Kind := EventHealth,
       ev_Health := Some \<lparr>he_Collector = ''spool'', he_Status = status, he_Code = code, he_DroppedEvents = word_of_int dropped,
         he_UsagePercent = usage, he_Message = message\<rparr>\<rparr>"

definition health_events :: "(nat \<Rightarrow> string \<Rightarrow> string) \<Rightarrow> (float64 \<Rightarrow> string) \<Rightarrow> string \<Rightarrow> bool \<Rightarrow> go_time \<Rightarrow> DropReport \<Rightarrow> Event list" where
  "health_events sha percent node was_pressured t report =
     (let usage = dr_UsagePercent report; pressured = float_le (Fin 80) usage in
      (if 0 < dr_DroppedBatches report
       then [spool_health sha node t ''degraded'' (dr_Code report)
          (''evicted '' @ format_int (dr_DroppedBatches report) @ '' queued batches'') (dr_DroppedEvents report)
          (if float_less usage (Fin 100) then Fin 100 else usage)]
       else []) @
      (if pressured \<and> \<not> was_pressured
       then [spool_health sha node t ''degraded'' ''buffer_pressure'' (''spool usage reached '' @ percent usage @ '' percent'') 0 usage]
       else if \<not> pressured \<and> was_pressured
       then [spool_health sha node t ''healthy'' ''buffer_recovered'' ''spool usage returned below 80 percent'' 0 usage]
       else []))"

definition health_batch :: "(nat \<Rightarrow> string \<Rightarrow> string) \<Rightarrow> string \<Rightarrow> go_time \<Rightarrow> Event list \<Rightarrow> Batch" where
  "health_batch sha node t events = \<lparr>ba_SchemaVersion = 1, ba_BatchID = eventID sha ''health-batch'' node t, ba_NodeID = node,
     ba_SentAt = t, ba_Events = events, ba_CompactedBatchIDs = []\<rparr>"

type_synonym ('q, 'e, 's, 'f, 'c, 'g) app_result = "('q, 's, 'c) App \<times> ('e, 'f, 'g) app_error option"

definition enqueueSpoolHealth :: "('q, 'e, 'i, 's, 'f, 'c, 'g) interfaces \<Rightarrow> ('q, 's, 'c) App \<Rightarrow> go_time \<Rightarrow> DropReport \<Rightarrow>
    ('q, 'e, 's, 'f, 'c, 'g) app_result" where
  "enqueueSpoolHealth ops app t report =
     (let events = health_events (op_sha ops) (op_percent ops) (nodeID app) (spoolPressured app) t report;
          app' = app\<lparr>spoolPressured := float_le (Fin 80) (dr_UsagePercent report)\<rparr> in
      if events = [] then (app', None)
      else (case op_enqueue ops (queue app') (health_batch (op_sha ops) (nodeID app) t events) of
              (q, Inl e) \<Rightarrow> (app'\<lparr>queue := q\<rparr>, Some (QueueHealth e))
            | (q, Inr report') \<Rightarrow> (app'\<lparr>queue := q\<rparr>, None)))"

subsection \<open>Draining\<close>

definition app_drain :: "('q, 'e, 'i, 's, 'f, 'c, 'g) interfaces \<Rightarrow> ('q, 's, 'c) App \<Rightarrow>
    ('q, 'e, 's, 'f, 'c, 'g) app_result option" where
  "app_drain ops app =
     map_option (\<lambda>(q, s, r). (app\<lparr>queue := q, sender := s\<rparr>, map_option DrainFailed r))
       (drain (op_peek ops) (op_ack ops) (op_batch ops) (op_send ops) (queue app) (sender app))"

text \<open>A call that ends with an error returns it; one that does not is followed by the rest of the function.\<close>

fun continue :: "('q, 'e, 's, 'f, 'c, 'g) app_result \<Rightarrow> (('q, 's, 'c) App \<Rightarrow> ('q, 'e, 's, 'f, 'c, 'g) app_result option) \<Rightarrow>
    ('q, 'e, 's, 'f, 'c, 'g) app_result option" where
  "continue (app, Some e) rest = Some (app, Some e)"
| "continue (app, None) rest = rest app"

subsection \<open>The counter state\<close>

definition saveCounterState :: "('q, 'e, 'i, 's, 'f, 'c, 'g) interfaces \<Rightarrow> ('q, 's, 'c) App \<Rightarrow> counters \<Rightarrow> Batch option \<Rightarrow>
    ('q, 'e, 's, 'f, 'c, 'g) app_result" where
  "saveCounterState ops app counters pending =
     (case counterState app of
        None \<Rightarrow> (app, None)
      | Some c \<Rightarrow>
          (case op_save ops c (NewCheckpoint (nodeID app) (Some counters) pending) of
             (c', r) \<Rightarrow> (app\<lparr>counterState := Some c'\<rparr>, map_option SaveCheckpoint r)))"

definition invalidateCounterState :: "('q, 's, 'c) App \<Rightarrow> ('q, 's, 'c) App" where
  "invalidateCounterState app = app\<lparr>previous := None, stateLoaded := False\<rparr>"

definition recover_pending :: "('q, 'e, 'i, 's, 'f, 'c, 'g) interfaces \<Rightarrow> ('q, 's, 'c) App \<Rightarrow> 'c \<Rightarrow> go_time \<Rightarrow> Checkpoint \<Rightarrow>
    ('q, 'e, 's, 'f, 'c, 'g) app_result" where
  "recover_pending ops app c t ck =
     (case ck_PendingBatch ck of
        None \<Rightarrow> (app, None)
      | Some batch \<Rightarrow>
          (case op_enqueue ops (queue app) batch of
             (q, Inl e) \<Rightarrow> (app\<lparr>queue := q\<rparr>, Some (RecoverPending e))
           | (q, Inr report) \<Rightarrow>
               (case op_save ops c (NewCheckpoint (nodeID app) (ck_Counters ck) None) of
                  (c', Some g) \<Rightarrow> (app\<lparr>queue := q, counterState := Some c'\<rparr>, Some (ClearRecovered g))
                | (c', None) \<Rightarrow> enqueueSpoolHealth ops (app\<lparr>queue := q, counterState := Some c'\<rparr>) t report)))"

definition recoverCounterState :: "('q, 'e, 'i, 's, 'f, 'c, 'g) interfaces \<Rightarrow> ('q, 's, 'c) App \<Rightarrow> go_time \<Rightarrow>
    ('q, 'e, 's, 'f, 'c, 'g) app_result" where
  "recoverCounterState ops app t =
     (case counterState app of
        None \<Rightarrow> (app, None)
      | Some c \<Rightarrow>
          (if stateLoaded app then (app, None)
           else case op_load ops c of
             Inl g \<Rightarrow> (app, Some (LoadCheckpoint g))
           | Inr None \<Rightarrow> (app\<lparr>stateLoaded := True\<rparr>, None)
           | Inr (Some ck) \<Rightarrow>
               (if ck_NodeID ck \<noteq> nodeID app then (app\<lparr>stateLoaded := True\<rparr>, None)
                else (case recover_pending ops app c t ck of
                        (app', Some e) \<Rightarrow> (app', Some e)
                      | (app', None) \<Rightarrow> (app'\<lparr>previous := ck_Counters ck, stateLoaded := True\<rparr>, None)))))"

subsection \<open>Sampling\<close>

definition traffic_batch :: "(nat \<Rightarrow> string \<Rightarrow> string) \<Rightarrow> string \<Rightarrow> go_time \<Rightarrow> Event list \<Rightarrow> Batch" where
  "traffic_batch sha node t events = \<lparr>ba_SchemaVersion = 1, ba_BatchID = eventID sha ''batch'' node t, ba_NodeID = node,
     ba_SentAt = t, ba_Events = events, ba_CompactedBatchIDs = []\<rparr>"

text \<open>The two ways a sample ends: with nothing to report, and with a batch.\<close>

definition sample_quiet :: "('q, 'e, 'i, 's, 'f, 'c, 'g) interfaces \<Rightarrow> ('q, 's, 'c) App \<Rightarrow> counters \<Rightarrow>
    ('q, 'e, 's, 'f, 'c, 'g) app_result option" where
  "sample_quiet ops app current =
     continue (saveCounterState ops app current None) (\<lambda>app'. app_drain ops (app'\<lparr>previous := Some current\<rparr>))"

definition sample_batch :: "('q, 'e, 'i, 's, 'f, 'c, 'g) interfaces \<Rightarrow> ('q, 's, 'c) App \<Rightarrow> counters \<Rightarrow> go_time \<Rightarrow> Batch \<Rightarrow>
    ('q, 'e, 's, 'f, 'c, 'g) app_result option" where
  "sample_batch ops app current t batch =
     continue (saveCounterState ops app current (Some batch)) (\<lambda>app1.
       case op_enqueue ops (queue app1) batch of
         (q, Inl e) \<Rightarrow> Some (invalidateCounterState (app1\<lparr>queue := q\<rparr>), Some (QueueTraffic e))
       | (q, Inr report) \<Rightarrow>
           (case saveCounterState ops (app1\<lparr>queue := q\<rparr>) current None of
              (app2, Some e) \<Rightarrow> Some (invalidateCounterState app2, Some e)
            | (app2, None) \<Rightarrow>
                continue (enqueueSpoolHealth ops (app2\<lparr>previous := Some current\<rparr>) t report) (app_drain ops)))"

definition Sample :: "('q, 'e, 'i, 's, 'f, 'c, 'g) interfaces \<Rightarrow> (string + counters) \<Rightarrow> ('q, 's, 'c) App \<Rightarrow> go_time \<Rightarrow>
    ('q, 'e, 's, 'f, 'c, 'g) app_result option" where
  "Sample ops read app t =
     continue (recoverCounterState ops app t) (\<lambda>app1.
       case read of
         Inl e \<Rightarrow> Some (app1, Some (ReadCounters e))
       | Inr current \<Rightarrow>
           (case previous app1 of
              None \<Rightarrow> sample_quiet ops app1 current
            | Some before \<Rightarrow>
                (case Delta before current DefaultAllowed t of
                   [] \<Rightarrow> sample_quiet ops app1 current
                 | events \<Rightarrow> sample_batch ops app1 current t (traffic_batch (op_sha ops) (nodeID app1) t events))))"

subsection \<open>Recording detailed events\<close>

definition detail_batch :: "(nat \<Rightarrow> string \<Rightarrow> string) \<Rightarrow> string \<Rightarrow> go_time \<Rightarrow> nat \<Rightarrow> Event list \<Rightarrow> Batch" where
  "detail_batch sha node t part events = \<lparr>ba_SchemaVersion = 1, ba_BatchID = detailBatchID sha node t part events,
     ba_NodeID = node, ba_SentAt = t, ba_Events = events, ba_CompactedBatchIDs = []\<rparr>"

function record_loop :: "('q, 'e, 'i, 's, 'f, 'c, 'g) interfaces \<Rightarrow> ('q, 's, 'c) App \<Rightarrow> go_time \<Rightarrow> nat \<Rightarrow> Event list \<Rightarrow>
    ('q, 'e, 's, 'f, 'c, 'g) app_result" where
  "record_loop ops app t part events =
     (if events = [] then (app, None)
      else (case op_enqueue ops (queue app) (detail_batch (op_sha ops) (nodeID app) t part (take 5000 events)) of
              (q, Inl e) \<Rightarrow> (app\<lparr>queue := q\<rparr>, Some (QueueDetail e))
            | (q, Inr report) \<Rightarrow>
                (case enqueueSpoolHealth ops (app\<lparr>queue := q\<rparr>) t report of
                   (app', Some e) \<Rightarrow> (app', Some e)
                 | (app', None) \<Rightarrow> record_loop ops app' t (Suc part) (drop 5000 events))))"
  by pat_completeness auto
termination
  by (relation "measure (\<lambda>(ops, app, t, part, events). length events)") auto

declare record_loop.simps [simp del]

definition Record :: "('q, 'e, 'i, 's, 'f, 'c, 'g) interfaces \<Rightarrow> ('q, 's, 'c) App \<Rightarrow> go_time \<Rightarrow> Event list \<Rightarrow>
    ('q, 'e, 's, 'f, 'c, 'g) app_result option" where
  "Record ops app t events = continue (record_loop ops app t 0 events) (app_drain ops)"

subsection \<open>What is handed to the queue\<close>

text \<open>The same interfaces with a log of the batches handed to the queue.\<close>

definition logged :: "('q, 'e, 'i, 's, 'f, 'c, 'g) interfaces \<Rightarrow> ('q \<times> Batch list, 'e, 'i, 's, 'f, 'c, 'g) interfaces" where
  "logged ops =
     \<lparr>op_enqueue = (\<lambda>(q, log) b. case op_enqueue ops q b of (q', r) \<Rightarrow> ((q', log @ [b]), r)),
      op_peek = (\<lambda>(q, log). op_peek ops q),
      op_ack = (\<lambda>(q, log) item. case op_ack ops q item of (q', r) \<Rightarrow> ((q', log), r)),
      op_batch = op_batch ops, op_send = op_send ops, op_load = op_load ops, op_save = op_save ops,
      op_sha = op_sha ops, op_percent = op_percent ops\<rparr>"

definition log_of :: "('q \<times> Batch list, 's, 'c) App \<Rightarrow> Batch list" where
  "log_of app = snd (queue app)"

definition is_detail :: "Batch \<Rightarrow> bool" where
  "is_detail b \<longleftrightarrow> prefix ''detail-batch-'' (ba_BatchID b)"

lemma detail_batch_fields:
  "is_detail (detail_batch sha node t part events)" "ba_Events (detail_batch sha node t part events) = events"
  by (simp_all add: is_detail_def detail_batch_def detailBatchID_def)

lemma health_batch_not_detail: "\<not> is_detail (health_batch sha node t events)"
  by (simp add: is_detail_def health_batch_def eventID_def)

lemma logged_enqueue:
  "op_enqueue (logged ops) q b = (q', r) \<Longrightarrow> snd q' = snd q @ [b]"
  by (auto simp: logged_def case_prod_unfold)

lemma health_log:
  "enqueueSpoolHealth (logged ops) app t report = (app', r) \<Longrightarrow>
   filter is_detail (log_of app') = filter is_detail (log_of app) \<and> nodeID app' = nodeID app \<and>
   (\<forall>b \<in> set (log_of app') - set (log_of app). \<exists>evs. b = health_batch (op_sha ops) (nodeID app) t evs)"
  by (auto simp: enqueueSpoolHealth_def log_of_def health_batch_not_detail logged_def case_prod_unfold Let_def
      split: if_splits prod.splits sum.splits)

definition detail_ok :: "string \<Rightarrow> go_time \<Rightarrow> Batch \<Rightarrow> bool" where
  "detail_ok node t b \<longleftrightarrow> length (ba_Events b) \<in> {1..5000} \<and> ba_NodeID b = node \<and> ba_SentAt b = t"

lemma prefix_take_append: "prefix xs (drop n ys) \<Longrightarrow> prefix (take n ys @ xs) ys"
  by (metis append_take_drop_id same_prefix_prefix)

lemma record_loop_log:
  assumes "record_loop (logged ops) app t part events = (app', r)"
  shows "\<exists>details. filter is_detail (log_of app') = filter is_detail (log_of app) @ details \<and>
    list_all (detail_ok (nodeID app) t) details \<and> prefix (concat (map ba_Events details)) events \<and>
    (r = None \<longrightarrow> concat (map ba_Events details) = events)"
  using assms
proof (induction "logged ops" app t part events rule: record_loop.induct)
  case (1 app t part events)
  let ?b = "detail_batch (op_sha (logged ops)) (nodeID app) t part (take 5000 events)"
  show ?case
  proof (cases "events = []")
    case True
    with 1(2) show ?thesis by (simp add: record_loop.simps)
  next
    case False
    obtain q out where out: "op_enqueue (logged ops) (queue app) ?b = (q, out)" by fastforce
    have log: "filter is_detail (snd q) = filter is_detail (log_of app) @ [?b]"
      using logged_enqueue [OF out] by (simp add: log_of_def detail_batch_fields)
    have ok: "detail_ok (nodeID app) t ?b"
      using False by (cases events) (simp_all add: detail_ok_def detail_batch_def)
    show ?thesis
    proof (cases out)
      case (Inl e)
      with 1(2) False out log ok show ?thesis
        by (intro exI [of _ "[?b]"]) (auto simp: record_loop.simps [of _ app] log_of_def detail_batch_fields take_is_prefix)
    next
      case (Inr report)
      obtain app1 r1 where health: "enqueueSpoolHealth (logged ops) (app\<lparr>queue := q\<rparr>) t report = (app1, r1)" by fastforce
      from health_log [OF this] log have log1: "filter is_detail (log_of app1) = filter is_detail (log_of app) @ [?b]"
        and node: "nodeID app1 = nodeID app" by (simp_all add: log_of_def)
      show ?thesis
      proof (cases r1)
        case None
        have rest: "record_loop (logged ops) app1 t (Suc part) (drop 5000 events) = (app', r)"
          using 1(2) False out Inr health None by (simp add: record_loop.simps [of _ app])
        obtain details where "filter is_detail (log_of app') = filter is_detail (log_of app1) @ details"
          "list_all (detail_ok (nodeID app) t) details" "prefix (concat (map ba_Events details)) (drop 5000 events)"
          "r = None \<longrightarrow> concat (map ba_Events details) = drop 5000 events"
          using 1(1) [OF False out [symmetric] Inr health [symmetric] None rest] node by auto
        with log1 ok show ?thesis
          by (intro exI [of _ "?b # details"]) (auto simp: detail_batch_fields dest: prefix_take_append)
      next
        case (Some e)
        with 1(2) False out Inr health log1 ok show ?thesis
          by (intro exI [of _ "[?b]"]) (auto simp: record_loop.simps [of _ app] detail_batch_fields take_is_prefix)
      qed
    qed
  qed
qed

subsection \<open>Validity of what is queued\<close>

lemma eventID_ok:
  assumes "length (sha 8 node) = 16" "length kind \<le> 80" "kind \<noteq> []"
  shows "id_ok (eventID sha kind node t)"
  using assms length_format_UnixNano [of t] by (simp add: eventID_def id_ok_def)

lemma detailBatchID_ok:
  assumes "\<And>s. length (sha 12 s) = 24" "part < 10 ^ 20"
  shows "id_ok (detailBatchID sha node t part events)"
  using assms length_itoa [of part 20] by (simp add: detailBatchID_def id_ok_def)

lemma detail_batch_valid:
  assumes "\<And>s. length (sha 12 s) = 24" "part < 10 ^ 20" "id_ok node" "t \<noteq> 0" "events \<noteq> []" "length events \<le> 5000"
    "list_all valid_event events"
  shows "Validate (detail_batch sha node t part events) = None"
  using assms detailBatchID_ok [of sha part node t events]
  by (simp add: Validate_iff valid_batch_def detail_batch_def Suc_le_eq)

lemma spool_health_valid:
  assumes "length (sha 8 node) = 16" "length code \<le> 60" "code \<noteq> []" "status \<noteq> []" "0 \<le> dropped" "dropped < 2 ^ 63"
    "0 \<le> u" "u \<le> 100" "t \<noteq> 0"
  shows "valid_event (spool_health sha node t status code message dropped (Fin u))"
proof -
  have "0 \<le> sint (word_of_int dropped :: int64)"
    using assms(5,6) by (simp add: signed_of_int signed_take_bit_int_eq_self)
  then show ?thesis
    using assms eventID_ok [of sha node "''health-event-'' @ code" t]
    by (simp add: spool_health_def valid_event_def valid_payload_def payload_kinds_def health_ok_def zero_Event_def
        kind_defs nonneg_word)
qed

subsection \<open>The interfaces the agent uses\<close>

text \<open>The spool with the environment of its calls, the sender with the numbers its attempts have reached, the checkpoint
  file with its codec.\<close>

fun spool_enqueue :: "spool_env \<times> Spool \<times> sdir \<Rightarrow> Batch \<Rightarrow> (spool_env \<times> Spool \<times> sdir) \<times> (spool_error + DropReport)" where
  "spool_enqueue (env, s, d) b = (case Enqueue env s d b of (d', r) \<Rightarrow> ((env, s, d'), r))"

definition agent_interfaces :: "('s \<Rightarrow> Batch \<Rightarrow> 's \<times> 'f option) \<Rightarrow> (Checkpoint \<Rightarrow> bytes) \<Rightarrow> (bytes \<Rightarrow> Checkpoint option) \<Rightarrow>
    (nat \<Rightarrow> string \<Rightarrow> string) \<Rightarrow> (float64 \<Rightarrow> string) \<Rightarrow>
    (spool_env \<times> Spool \<times> sdir, spool_error, Item, 's, 'f, disk, checkpoint_error) interfaces" where
  "agent_interfaces send encode decode sha percent =
     \<lparr>op_enqueue = spool_enqueue, op_peek = spool_peek, op_ack = spool_ack, op_batch = it_Batch, op_send = send,
      op_load = Load decode None, op_save = (\<lambda>c ck. Save encode None ck c), op_sha = sha, op_percent = percent\<rparr>"

lemma agent_drain:
  assumes "spool_ok (queue app)" "send_all send (sender app) (spool_contents (queue app)) = (s', n, r)"
  shows "\<exists>q'. app_drain (agent_interfaces send encode decode sha percent) app =
      Some (app\<lparr>queue := q', sender := s'\<rparr>, map_option (DrainFailed \<circ> DeliverQueued) r) \<and>
    spool_ok q' \<and> spool_contents q' = drop n (spool_contents (queue app))"
proof -
  obtain q' where "drain spool_peek spool_ack it_Batch send (queue app) (sender app) = Some (q', s', map_option DeliverQueued r)"
    "spool_ok q'" "spool_contents q' = drop n (spool_contents (queue app))"
    using disk.drain_spec [OF assms] by blast
  then show ?thesis
    by (intro exI [of _ q']) (simp add: app_drain_def agent_interfaces_def option.map_comp)
qed

subsection \<open>Recovery of a batch that could not be queued\<close>

lemma sample_failed_enqueue:
  assumes "counterState app = Some c" "stateLoaded app" "previous app = Some before"
    "Delta before current DefaultAllowed t = ev # evs"
    "op_save ops c (NewCheckpoint (nodeID app) (Some current)
       (Some (traffic_batch (op_sha ops) (nodeID app) t (ev # evs)))) = (c', None)"
    "op_enqueue ops (queue app) (traffic_batch (op_sha ops) (nodeID app) t (ev # evs)) = (q, Inl e)"
  shows "Sample ops (Inr current) app t =
    Some (app\<lparr>counterState := Some c', queue := q, previous := None, stateLoaded := False\<rparr>, Some (QueueTraffic e))"
  using assms
  by (simp add: Sample_def recoverCounterState_def sample_batch_def saveCounterState_def invalidateCounterState_def)

lemma recover_enqueues:
  assumes "counterState app = Some c" "\<not> stateLoaded app"
    "op_load ops c = Inr (Some (NewCheckpoint (nodeID app) (Some current) (Some batch)))"
    "op_enqueue ops (queue app) batch = (q, Inr report)"
    "op_save ops c (NewCheckpoint (nodeID app) (Some current) None) = (c', None)"
  shows "recoverCounterState ops app t =
    (case enqueueSpoolHealth ops (app\<lparr>queue := q, counterState := Some c'\<rparr>) t report of
       (app', Some e) \<Rightarrow> (app', Some e)
     | (app', None) \<Rightarrow> (app'\<lparr>previous := Some current, stateLoaded := True\<rparr>, None))"
  using assms by (simp add: recoverCounterState_def recover_pending_def NewCheckpoint_def)

text \<open>What reporting the state of the spool changes.\<close>

lemma health_outcome:
  assumes "enqueueSpoolHealth ops app t report = (app', r)"
    "events = health_events (op_sha ops) (op_percent ops) (nodeID app) (spoolPressured app) t report"
  shows "nodeID app' = nodeID app \<and> counterState app' = counterState app \<and> stateLoaded app' = stateLoaded app \<and>
    (if events = [] then queue app' = queue app \<and> r = None
     else \<exists>out. op_enqueue ops (queue app) (health_batch (op_sha ops) (nodeID app) t events) = (queue app', out) \<and>
       (r = None \<longleftrightarrow> \<not> isl out))"
  using assms(1) unfolding enqueueSpoolHealth_def Let_def assms(2) [symmetric]
  by (auto split: if_splits prod.splits sum.splits)

lemma recover_cleared:
  assumes "counterState app = Some c" "\<not> stateLoaded app" "op_load ops c = Inr (Some (NewCheckpoint (nodeID app) (Some current) None))"
  shows "recoverCounterState ops app t = (app\<lparr>previous := Some current, stateLoaded := True\<rparr>, None)"
  using assms by (simp add: recoverCounterState_def recover_pending_def NewCheckpoint_def)

lemma save_then_load:
  assumes "validateCheckpoint ck = None" "decode (encode ck) = Some ck" "length (encode ck) \<le> checkpointLimit"
  shows "\<exists>d'. Save encode None ck d = (d', None) \<and> Load decode None d' = Inr (Some ck)"
  using assms by (auto simp: Save_def save_steps_outcome Load_def)

text \<open>A sender that accepts every batch and keeps what it got.\<close>

definition accept :: "Batch list \<Rightarrow> Batch \<Rightarrow> Batch list \<times> unit option" where
  "accept sent b = (sent @ [b], None)"

lemma accept_all: "send_all accept sent bs = (sent @ bs, length bs, None)"
  by (induction bs arbitrary: sent) (simp_all add: accept_def)

subsection \<open>Properties\<close>

text \<open>Recording is complete: the detailed events handed to the queue, batch after batch, are the recorded events in
  order, each exactly once, in batches of one to five thousand; after an error they are a prefix. With valid events
  every such batch passes validation, so that the queue cannot refuse it for its contents.\<close>

theorem record_complete:
  assumes "record_loop (logged ops) app t 0 events = (app', r)" "log_of app = []"
  shows "(let details = filter is_detail (log_of app') in
      list_all (detail_ok (nodeID app) t) details \<and> prefix (concat (map ba_Events details)) events \<and>
      (r = None \<longrightarrow> concat (map ba_Events details) = events)) \<and>
    (\<forall>part evs. (\<forall>s. length (op_sha ops 12 s) = 24) \<and> part < 10 ^ 20 \<and> id_ok (nodeID app) \<and> t \<noteq> 0 \<and> evs \<noteq> [] \<and>
       length evs \<le> 5000 \<and> list_all valid_event evs \<longrightarrow> Validate (detail_batch (op_sha ops) (nodeID app) t part evs) = None)"
proof
  show "let details = filter is_detail (log_of app') in
      list_all (detail_ok (nodeID app) t) details \<and> prefix (concat (map ba_Events details)) events \<and>
      (r = None \<longrightarrow> concat (map ba_Events details) = events)"
    using record_loop_log [OF assms(1)] assms(2) by auto
qed (auto intro: detail_batch_valid)

definition demo_interfaces :: "(unit, unit, unit, unit, unit, unit, unit) interfaces" where
  "demo_interfaces = \<lparr>op_enqueue = (\<lambda>q b. (q, Inr zero_report)), op_peek = (\<lambda>q. Inr None), op_ack = (\<lambda>q i. (q, None)),
     op_batch = (\<lambda>i. demo_send_batch), op_send = (\<lambda>s b. (s, None)), op_load = (\<lambda>c. Inr None), op_save = (\<lambda>c k. (c, None)),
     op_sha = (\<lambda>n s. replicate (2 * n) (CHR ''0'')), op_percent = (\<lambda>u. [])\<rparr>"

definition demo_app :: "(unit \<times> Batch list, unit, unit) App" where
  "demo_app = NewApp ''n'' ((), []) () None"

lemma demo_quiet: "health_events sha percent node False t zero_report = []" "dr_UsagePercent zero_report = Fin 0"
  by (simp_all add: health_events_def zero_report_def float_le_def)

theorem record_complete_witness:
  "concat (map ba_Events (filter is_detail
     (log_of (fst (record_loop (logged demo_interfaces) demo_app 5 0 [demo_health]))))) = [demo_health]"
proof -
  let ?b = "detail_batch (op_sha demo_interfaces) ''n'' 5 0 [demo_health]"
  have "record_loop (logged demo_interfaces) demo_app 5 0 [demo_health] =
      (demo_app\<lparr>queue := ((), [?b])\<rparr>, None)"
    by (simp add: record_loop.simps logged_def demo_interfaces_def demo_app_def NewApp_def enqueueSpoolHealth_def demo_quiet
        Let_def float_le_def)
  from this record_complete [OF this] show ?thesis by (simp add: Let_def demo_app_def NewApp_def log_of_def)
qed

text \<open>C10. Draining terminates and delivers in order: over a spool without I/O failures, and for any sender, the loop ends;
  it sends the queued batches oldest first up to the first failure, keeps the failed batch and all after it, and
  removes exactly the delivered ones. If the sender does not fail, everything is delivered and the queue is empty.\<close>

theorem drain_delivers:
  assumes "spool_ok (queue app)" "send_all send (sender app) (spool_contents (queue app)) = (s', n, r)"
  shows "\<exists>app'. app_drain (agent_interfaces send encode decode sha percent) app =
      Some (app', map_option (DrainFailed \<circ> DeliverQueued) r) \<and> sender app' = s' \<and> spool_ok (queue app') \<and>
    spool_contents (queue app') = drop n (spool_contents (queue app)) \<and>
    ((\<forall>x b. snd (send x b) = None) \<longrightarrow> r = None \<and> spool_contents (queue app') = [])"
proof -
  obtain q' where q': "app_drain (agent_interfaces send encode decode sha percent) app =
      Some (app\<lparr>queue := q', sender := s'\<rparr>, map_option (DrainFailed \<circ> DeliverQueued) r)"
    "spool_ok q'" "spool_contents q' = drop n (spool_contents (queue app))"
    using agent_drain [OF assms] by blast
  moreover have "r = None \<and> drop n (spool_contents (queue app)) = []" if "\<forall>x b. snd (send x b) = None"
    using send_all_success [of send "sender app" "spool_contents (queue app)"] that assms(2) by auto
  ultimately show ?thesis
    by (intro exI [of _ "app\<lparr>queue := q', sender := s'\<rparr>"]) simp
qed

definition demo_dir :: sdir where
  "demo_dir = [(''1.json.gz'', \<lparr>f_ModTime = 0, f_Data = [1]\<rparr>)]"

lemma demo_dir_clean: "spool_ok (demo_spool_env, demo_spool, demo_dir)" "spool_contents (demo_spool_env, demo_spool, demo_dir) = [demo_queued ''a'' 10]"
  using demo_queued_valid [of "''a''" 10]
  by (simp_all add: demo_dir_def clean_def queued_def queue_files_def json_gz_def suffix_def demo_spool_env_def)

definition demo_agent :: "(spool_env \<times> Spool \<times> sdir, Batch list, disk) App" where
  "demo_agent = NewApp ''n'' (demo_spool_env, demo_spool, demo_dir) [] None"

theorem drain_delivers_witness:
  "\<exists>app'. app_drain (agent_interfaces accept (\<lambda>_. []) (\<lambda>_. None) (\<lambda>n s. s) (\<lambda>u. [])) demo_agent = Some (app', None) \<and>
     sender app' = [demo_queued ''a'' 10] \<and> spool_contents (queue app') = []"
  using drain_delivers [of demo_agent accept "[demo_queued ''a'' 10]" 1 None "\<lambda>_. []" "\<lambda>_. None" "\<lambda>n s. s" "\<lambda>u. []"] demo_dir_clean
  by (auto simp: demo_agent_def NewApp_def accept_all accept_def simp del: spool_ok.simps spool_contents.simps)


definition demo_traffic :: Batch where
  "demo_traffic = traffic_batch (\<lambda>n s. ''0'') ''n'' 9 (Delta (demo_counters 100 1) (demo_counters 900 9) DefaultAllowed 9)"

definition demo_disk :: "bool \<Rightarrow> spool_env \<times> Spool \<times> sdir" where
  "demo_disk full = (demo_spool_env\<lparr>env_encode := \<lambda>_. [1], env_decode := \<lambda>_. Some demo_traffic, env_fails := \<lambda>_. full\<rparr>, demo_spool, [])"

definition demo_sampling :: "(spool_env \<times> Spool \<times> sdir, Batch list, disk) App" where
  "demo_sampling = (NewApp ''n'' (demo_disk True) [] (Some \<lparr>state_file = None, temporary_file = None\<rparr>))
     \<lparr>previous := Some (demo_counters 100 1), stateLoaded := True\<rparr>"

definition demo_encode :: "Checkpoint \<Rightarrow> bytes" where
  "demo_encode ck = (if ck_PendingBatch ck = None then [0] else [1])"

definition demo_decode :: "bytes \<Rightarrow> Checkpoint option" where
  "demo_decode bs = Some (NewCheckpoint ''n'' (Some (demo_counters 900 9)) (if bs = [0] then None else Some demo_traffic))"

lemma demo_delta: "\<exists>ev. Delta (demo_counters 100 1) (demo_counters 900 9) DefaultAllowed 9 = [ev]"
  by (simp add: Delta_def delta_names_def demo_counters_def DefaultAllowed_def interface_events_def directionDelta_def MaxInt64_def)

lemma demo_traffic_valid: "Validate demo_traffic = None"
  using length_format_UnixNano [of 9]
  by (simp add: demo_traffic_def traffic_batch_def Delta_def delta_names_def demo_counters_def DefaultAllowed_def interface_events_def
      directionDelta_def MaxInt64_def Validate_def zero_Event_def id_ok_def IsZero_def event_validate_def eventID_def
      kind_validate_def nonHealthPayloadCount_def trafficPayloadCount_def direction_valid_def word_sless_alt DirectionInbound_def)

lemma demo_disk_outcomes:
  "\<exists>e. spool_enqueue (demo_disk True) demo_traffic = (demo_disk True, Inl e)"
  "\<exists>q. spool_enqueue (demo_disk False) demo_traffic = (q, Inr (zero_report\<lparr>dr_UsagePercent := Fin 1\<rparr>)) \<and>
     spool_contents q = [demo_traffic]"
proof -
  show "\<exists>e. spool_enqueue (demo_disk True) demo_traffic = (demo_disk True, Inl e)"
    by (simp add: demo_disk_def Enqueue_def demo_traffic_valid publish_def)
  let ?env = "demo_spool_env\<lparr>env_encode := \<lambda>_. [1], env_decode := \<lambda>_. Some demo_traffic, env_fails := \<lambda>_. False\<rparr>"
  let ?d = "[(batchFileName ?env (ba_BatchID demo_traffic) (env_now ?env), \<lparr>f_ModTime = env_now ?env, f_Data = [1]\<rparr>)]"
  have "no_faults ?env" "clean ?env []" by (simp_all add: clean_def)
  from Enqueue_appends [OF this demo_traffic_valid, of demo_spool]
  have "spool_enqueue (demo_disk False) demo_traffic =
      ((?env, demo_spool, ?d), Inr (zero_report\<lparr>dr_UsagePercent := usage_percent ?env demo_spool (total_size (queue_files ?d)) (queue_files ?d)\<rparr>))"
    "queued ?env ?d = [demo_traffic]"
    by (simp_all add: demo_disk_def demo_spool_def queue_files_def total_size_def queued_def)
  moreover have "queue_files ?d = ?d" by (simp add: queue_files_def batchFileName_def suffix_def)
  ultimately
  show "\<exists>q. spool_enqueue (demo_disk False) demo_traffic = (q, Inr (zero_report\<lparr>dr_UsagePercent := Fin 1\<rparr>)) \<and>
     spool_contents q = [demo_traffic]"
    by (simp add: demo_spool_def total_size_def usage_percent_def demo_spool_env_def)
qed


end
