(* ===== verification/Ingest.thy ===== *)
theory Ingest
  imports App
begin

text \<open>
  The server's side of a delivery: the HTTP handler \<^verbatim>\<open>internal/server/ingest/handler.go\<close>, the transaction that stores a
  batch, \<^verbatim>\<open>internal/server/store/postgres.go\<close>, and of \<^verbatim>\<open>internal/server/store/event.go\<close> the rows of interface counters and
  health reports. The tables of the other kinds of events are one value \<open>other_tables\<close> with the functions that store
  into them as arguments. A statement of the database either fails, which ends the transaction without effect, or has the
  effect of the SQL it executes; a failed commit may or may not have taken effect. Decompression and JSON are parameters.
\<close>

subsection \<open>The database\<close>

record delta_row =
  dl_event :: string
  dl_node :: string
  dl_at :: go_time
  dl_interface :: string
  dl_direction :: string
  dl_bytes :: int
  dl_packets :: int

record health_row =
  hr_event :: string
  hr_node :: string
  hr_at :: go_time
  hr_health :: HealthEvent

record 'x tables =
  interface_deltas :: "delta_row list"
  traffic_minute :: "string \<times> go_time \<times> string \<rightharpoonup> int \<times> int"
  collector_health :: "health_row list"
  other_tables :: 'x

record 'x database =
  nodes :: "string \<rightharpoonup> go_time"
  ingest_batches :: "(string \<times> string) list"
  tables :: "'x tables"

datatype db_op =
    BeginTx | UpsertNode | InsertGuard | CommitDuplicate | StopContainers
  | InsertRow string | AggregateRow string | StopDisabled string | CommitBatch

datatype 'e store_error =
    InvalidStored batch_error
  | DbFailed db_op
  | ConstraintViolated string
  | BigintRange string
  | NilPayload string
  | UnsupportedKind string
  | OtherFailed 'e

text \<open>What a transaction runs against: which statements fail, whether a failed commit took effect, the precision of a
  \<^verbatim>\<open>timestamptz\<close>, and the statements on the other tables.\<close>

record ('x, 'e) store_env =
  db_fails :: "db_op \<Rightarrow> bool"
  commit_applied :: bool
  pg_time :: "go_time \<Rightarrow> go_time"
  stop_containers :: "string \<Rightarrow> 'x \<Rightarrow> 'x"
  insert_other :: "string \<Rightarrow> Event \<Rightarrow> 'x \<Rightarrow> 'e + 'x"

definition guarded_op :: "('x, 'e) store_env \<Rightarrow> db_op \<Rightarrow> 'a \<Rightarrow> 'e store_error + 'a" where
  "guarded_op env op x = (if db_fails env op then Inl (DbFailed op) else Inr x)"

subsection \<open>Rows\<close>

definition bigint_max :: int where "bigint_max = 2 ^ 63 - 1"

definition bigint_add :: "string \<Rightarrow> int \<Rightarrow> int \<Rightarrow> 'e store_error + int" where
  "bigint_add i x y = (if bigint_max < x + y then Inl (BigintRange i) else Inr (x + y))"

definition delta_row_of :: "('x, 'e) store_env \<Rightarrow> string \<Rightarrow> Event \<Rightarrow> delta_row" where
  "delta_row_of env node ev = \<lparr>dl_event = ev_ID ev, dl_node = node, dl_at = pg_time env (ev_ObservedAt ev), dl_interface = ev_Interface ev,
     dl_direction = ev_Direction ev, dl_bytes = sint (ev_Bytes ev), dl_packets = sint (ev_Packets ev)\<rparr>"

definition row_checks :: "delta_row \<Rightarrow> bool" where
  "row_checks row \<longleftrightarrow> direction_valid (dl_direction row) \<and> 0 \<le> dl_bytes row \<and> 0 \<le> dl_packets row"

text \<open>The primary key of \<^verbatim>\<open>interface_deltas\<close> and that of \<^verbatim>\<open>traffic_minute\<close>.\<close>

definition row_key :: "delta_row \<Rightarrow> string \<times> go_time" where
  "row_key row = (dl_event row, dl_at row)"

definition bucket_of :: "delta_row \<Rightarrow> string \<times> go_time \<times> string" where
  "bucket_of row = (dl_node row, truncate_minute (dl_at row), dl_direction row)"

definition add_to_minute :: "delta_row \<Rightarrow> 'x tables \<Rightarrow> 'e store_error + 'x tables" where
  "add_to_minute row T =
     (case traffic_minute T (bucket_of row) of
        None \<Rightarrow> Inr (T\<lparr>traffic_minute := (traffic_minute T)(bucket_of row \<mapsto> (dl_bytes row, dl_packets row))\<rparr>)
      | Some (bs, ps) \<Rightarrow>
          andThen (bigint_add (dl_event row) bs (dl_bytes row)) (\<lambda>bs'.
          andThen (bigint_add (dl_event row) ps (dl_packets row)) (\<lambda>ps'.
            Inr (T\<lparr>traffic_minute := (traffic_minute T)(bucket_of row \<mapsto> (bs', ps'))\<rparr>))))"

definition insertInterfaceDelta :: "('x, 'e) store_env \<Rightarrow> string \<Rightarrow> Event \<Rightarrow> 'x tables \<Rightarrow> 'e store_error + 'x tables" where
  "insertInterfaceDelta env node ev T =
     (let row = delta_row_of env node ev in
      andThen (guarded_op env (InsertRow (ev_ID ev)) T) (\<lambda>T.
        if \<not> row_checks row then Inl (ConstraintViolated (ev_ID ev))
        else if row_key row \<in> row_key ` set (interface_deltas T) then Inr T
        else andThen (guarded_op env (AggregateRow (ev_ID ev)) (T\<lparr>interface_deltas := interface_deltas T @ [row]\<rparr>))
               (add_to_minute row)))"

definition insertHealth :: "('x, 'e) store_env \<Rightarrow> string \<Rightarrow> Event \<Rightarrow> 'x tables \<Rightarrow> 'e store_error + 'x tables" where
  "insertHealth env node ev T =
     (case ev_Health ev of
        None \<Rightarrow> Inl (NilPayload (ev_ID ev))
      | Some h \<Rightarrow>
          andThen (guarded_op env (InsertRow (ev_ID ev)) T) (\<lambda>T.
            if sint (he_DroppedEvents h) < 0 then Inl (ConstraintViolated (ev_ID ev))
            else
              (let T' = (if ev_ID ev \<in> hr_event ` set (collector_health T) then T
                         else T\<lparr>collector_health := collector_health T @
                           [\<lparr>hr_event = ev_ID ev, hr_node = node, hr_at = pg_time env (ev_ObservedAt ev), hr_health = h\<rparr>]\<rparr>) in
               if he_Collector h = ''docker'' \<and> he_Code h = ''collector_disabled''
               then guarded_op env (StopDisabled (ev_ID ev)) (T'\<lparr>other_tables := stop_containers env node (other_tables T')\<rparr>)
               else Inr T')))"

definition insertOther :: "('x, 'e) store_env \<Rightarrow> string \<Rightarrow> Event \<Rightarrow> 'x tables \<Rightarrow> 'e store_error + 'x tables" where
  "insertOther env node ev T =
     andThen (guarded_op env (InsertRow (ev_ID ev)) T) (\<lambda>T.
       case insert_other env node ev (other_tables T) of
         Inl e \<Rightarrow> Inl (OtherFailed e)
       | Inr x \<Rightarrow> Inr (T\<lparr>other_tables := x\<rparr>))"

definition insertEvent :: "('x, 'e) store_env \<Rightarrow> string \<Rightarrow> Event \<Rightarrow> 'x tables \<Rightarrow> 'e store_error + 'x tables" where
  "insertEvent env node ev T =
     (if ev_Kind ev = EventInterfaceDelta then insertInterfaceDelta env node ev T
      else if ev_Kind ev = EventHealth then insertHealth env node ev T
      else if ev_Kind ev \<in> {EventOwnerInventory, EventNameEvidence, EventConnection, EventProxyRequest} then insertOther env node ev T
      else Inl (UnsupportedKind (ev_ID ev)))"

subsection \<open>The transaction\<close>

definition kind_order :: "string list" where
  "kind_order = [EventOwnerInventory, EventNameEvidence, EventConnection, EventProxyRequest, EventInterfaceDelta, EventHealth]"

definition in_kind_order :: "Event list \<Rightarrow> Event list" where
  "in_kind_order events = concat (map (\<lambda>kind. filter (\<lambda>ev. ev_Kind ev = kind) events) kind_order)"

fun insert_events :: "('x, 'e) store_env \<Rightarrow> string \<Rightarrow> Event list \<Rightarrow> 'x tables \<Rightarrow> 'e store_error + 'x tables" where
  "insert_events env node [] T = Inr T"
| "insert_events env node (ev # evs) T = andThen (insertEvent env node ev T) (insert_events env node evs)"

definition store_batch :: "('x, 'e) store_env \<Rightarrow> Batch \<Rightarrow> 'x tables \<Rightarrow> 'e store_error + 'x tables" where
  "store_batch env b T =
     andThen (if \<exists>ev \<in> set (ba_Events b). ev_Kind ev = EventOwnerInventory
              then guarded_op env StopContainers (T\<lparr>other_tables := stop_containers env (ba_NodeID b) (other_tables T)\<rparr>)
              else Inr T)
       (insert_events env (ba_NodeID b) (in_kind_order (ba_Events b)))"

definition upsert_node :: "('x, 'e) store_env \<Rightarrow> string \<Rightarrow> go_time \<Rightarrow> 'x database \<Rightarrow> 'x database" where
  "upsert_node env node t db =
     (let seen = (case nodes db node of None \<Rightarrow> pg_time env t | Some s \<Rightarrow> max s (pg_time env t)) in
      db\<lparr>nodes := (nodes db)(node \<mapsto> seen)\<rparr>)"

abbreviation guard_key :: "Batch \<Rightarrow> string \<times> string" where
  "guard_key b \<equiv> (ba_NodeID b, ba_BatchID b)"

definition insert_guarded :: "('x, 'e) store_env \<Rightarrow> 'x database \<Rightarrow> Batch \<Rightarrow> 'e store_error + 'x database \<times> bool" where
  "insert_guarded env db b =
     andThen (guarded_op env UpsertNode (upsert_node env (ba_NodeID b) (ba_SentAt b) db)) (\<lambda>db.
     andThen (guarded_op env InsertGuard db) (\<lambda>db.
       if guard_key b \<in> set (ingest_batches db) then Inr (db, False)
       else andThen (store_batch env b (tables db)) (\<lambda>T.
              Inr (db\<lparr>ingest_batches := ingest_batches db @ [guard_key b], tables := T\<rparr>, True))))"

definition InsertBatch :: "('x, 'e) store_env \<Rightarrow> 'x database \<Rightarrow> Batch \<Rightarrow> 'x database \<times> ('e store_error + bool)" where
  "InsertBatch env db b =
     (case Validate b of
        Some e \<Rightarrow> (db, Inl (InvalidStored e))
      | None \<Rightarrow>
          (if db_fails env BeginTx then (db, Inl (DbFailed BeginTx))
           else case insert_guarded env db b of
             Inl e \<Rightarrow> (db, Inl e)
           | Inr (db', inserted) \<Rightarrow>
               (let commit = (if inserted then CommitBatch else CommitDuplicate) in
                if db_fails env commit then (if commit_applied env then db' else db, Inl (DbFailed commit))
                else (db', Inr inserted))))"

subsection \<open>The HTTP handler\<close>

definition maxCompressedBytes :: nat where "maxCompressedBytes = 2 * 2 ^ 20"
definition maxDecompressedBytes :: nat where "maxDecompressedBytes = 16 * 2 ^ 20"

text \<open>How reading a stream ends; the streams of the request: the body, cut where \<^verbatim>\<open>http.MaxBytesReader\<close> refuses
  to read on, and the same decompressed.\<close>

datatype read_end = CleanEnd | LimitReached | Broken

datatype body_error = RequestTooLarge | UnsupportedEncoding | InvalidBody

record request =
  rq_Method :: string
  rq_Authorization :: string
  rq_Encoding :: string
  rq_Body :: bytes

record codec =
  gunzip :: "bytes \<Rightarrow> read_end \<Rightarrow> (bytes \<times> read_end) option"
  json_batch :: "bytes \<Rightarrow> (Batch \<times> bytes) option"

definition limited_body :: "bytes \<Rightarrow> bytes \<times> read_end" where
  "limited_body body = (take maxCompressedBytes body, if maxCompressedBytes < length body then LimitReached else CleanEnd)"

text \<open>\<^verbatim>\<open>io.ReadAll(io.LimitReader(reader, limit))\<close>.\<close>

fun read_all :: "nat \<Rightarrow> bytes \<times> read_end \<Rightarrow> body_error + bytes" where
  "read_all limit (data, e) =
     (if limit \<le> length data then Inr (take limit data)
      else case e of CleanEnd \<Rightarrow> Inr data | LimitReached \<Rightarrow> Inl RequestTooLarge | Broken \<Rightarrow> Inl InvalidBody)"

text \<open>\<^verbatim>\<open>strings.ToLower\<close>, exact for a comparison with words of the letters of \<^verbatim>\<open>identity\<close> and \<^verbatim>\<open>gzip\<close>: besides the upper-case
  letters of ASCII only the dotted capital I, C4 B0 in UTF-8, has one of them as its lower case.\<close>

definition lower_char :: "char \<Rightarrow> char" where
  "lower_char c = (if CHR ''A'' \<le> c \<and> c \<le> CHR ''Z'' then char_of (of_char c + 32 :: nat) else c)"

fun ToLower :: "string \<Rightarrow> string" where
  "ToLower (c # d # cs) = (if c = CHR 0xC4 \<and> d = CHR 0xB0 then CHR ''i'' # ToLower cs else lower_char c # ToLower (d # cs))"
| "ToLower [c] = [lower_char c]"
| "ToLower [] = []"

definition request_stream :: "codec \<Rightarrow> request \<Rightarrow> body_error + bytes \<times> read_end" where
  "request_stream c r =
     (let encoding = ToLower (TrimSpace (rq_Encoding r)); body = limited_body (rq_Body r) in
      if encoding = [] \<or> encoding = ''identity'' then Inr body
      else if encoding = ''gzip'' then (case gunzip c (fst body) (snd body) of None \<Rightarrow> Inl InvalidBody | Some s \<Rightarrow> Inr s)
      else Inl UnsupportedEncoding)"

definition json_space :: "8 word \<Rightarrow> bool" where
  "json_space x \<longleftrightarrow> x \<in> {0x20, 0x09, 0x0A, 0x0D}"

definition decodeBatch :: "codec \<Rightarrow> request \<Rightarrow> body_error + Batch" where
  "decodeBatch c r =
     andThen (request_stream c r) (\<lambda>stream.
     andThen (read_all (Suc maxDecompressedBytes) stream) (\<lambda>body.
       if maxDecompressedBytes < length body then Inl RequestTooLarge
       else case json_batch c body of
         None \<Rightarrow> Inl InvalidBody
       | Some (b, rest) \<Rightarrow> if list_all json_space rest then Inr b else Inl InvalidBody))"

definition authorized :: "string \<Rightarrow> string \<Rightarrow> bool" where
  "authorized token header \<longleftrightarrow> prefix ''Bearer '' header \<and> drop 7 header = token"

fun decode_status :: "body_error \<Rightarrow> int" where
  "decode_status RequestTooLarge = 413"
| "decode_status UnsupportedEncoding = 415"
| "decode_status InvalidBody = 400"

definition ServeHTTP :: "codec \<Rightarrow> ('x, 'e) store_env \<Rightarrow> string \<Rightarrow> 'x database \<Rightarrow> request \<Rightarrow> 'x database \<times> int" where
  "ServeHTTP c env token db r =
     (if rq_Method r \<noteq> ''POST'' then (db, 405)
      else if \<not> authorized token (rq_Authorization r) then (db, 401)
      else case decodeBatch c r of
        Inl e \<Rightarrow> (db, decode_status e)
      | Inr b \<Rightarrow>
          (case Validate b of
             Some e \<Rightarrow> (db, 400)
           | None \<Rightarrow>
               (case InsertBatch env db b of
                  (db', Inl e) \<Rightarrow> (db', 500)
                | (db', Inr False) \<Rightarrow> (db', 200)
                | (db', Inr True) \<Rightarrow> (db', 202))))"


subsection \<open>Transactions\<close>

text \<open>The same environment with no statement failing: what the statements do when they succeed.\<close>

abbreviation reliable :: "('x, 'e) store_env \<Rightarrow> ('x, 'e) store_env" where
  "reliable env \<equiv> env\<lparr>db_fails := \<lambda>_. False\<rparr>"

lemma guarded_op_Inr: "guarded_op env op x = Inr y \<longleftrightarrow> \<not> db_fails env op \<and> y = x"
  by (auto simp: guarded_op_def)

lemma reliable_fields [simp]:
  "delta_row_of (reliable env) = delta_row_of env" "guarded_op (reliable env) op x = Inr x"
  by (simp_all add: delta_row_of_def guarded_op_def fun_eq_iff)

lemma insert_rows_reliable:
  "insertInterfaceDelta env node ev T = Inr T' \<Longrightarrow> insertInterfaceDelta (reliable env) node ev T = Inr T'"
  "insertHealth env node ev T = Inr T' \<Longrightarrow> insertHealth (reliable env) node ev T = Inr T'"
  "insertOther env node ev T = Inr T' \<Longrightarrow> insertOther (reliable env) node ev T = Inr T'"
proof -
  show "insertInterfaceDelta env node ev T = Inr T' \<Longrightarrow> insertInterfaceDelta (reliable env) node ev T = Inr T'"
    unfolding insertInterfaceDelta_def Let_def andThen_Inr guarded_op_Inr
    by (auto simp: andThen_Inr guarded_op_Inr split: if_splits)
  show "insertHealth env node ev T = Inr T' \<Longrightarrow> insertHealth (reliable env) node ev T = Inr T'"
    unfolding insertHealth_def Let_def by (cases "ev_Health ev") (auto simp: andThen_Inr guarded_op_Inr split: if_splits)
  show "insertOther env node ev T = Inr T' \<Longrightarrow> insertOther (reliable env) node ev T = Inr T'"
    unfolding insertOther_def by (auto simp: andThen_Inr guarded_op_Inr)
qed

lemma insertEvent_reliable:
  "insertEvent env node ev T = Inr T' \<Longrightarrow> insertEvent (reliable env) node ev T = Inr T'"
  unfolding insertEvent_def by (metis insert_rows_reliable Inl_Inr_False)

lemma insert_events_reliable:
  "insert_events env node evs T = Inr T' \<Longrightarrow> insert_events (reliable env) node evs T = Inr T'"
  by (induction evs arbitrary: T) (auto simp: andThen_Inr dest: insertEvent_reliable)

lemma store_batch_reliable: "store_batch env b T = Inr T' \<Longrightarrow> store_batch (reliable env) b T = Inr T'"
  by (auto simp: store_batch_def andThen_Inr guarded_op_Inr split: if_splits dest: insert_events_reliable)

text \<open>What the delivery of a batch does to the database: nothing, or only note when the node was seen, or store the batch
  together with its guard.\<close>

lemma InsertBatch_effect:
  assumes "InsertBatch env db b = (db', r)"
  shows "(ingest_batches db' = ingest_batches db \<and> tables db' = tables db \<and>
      (\<forall>i. r = Inr i \<longrightarrow> \<not> i \<and> guard_key b \<in> set (ingest_batches db))) \<or>
    (guard_key b \<notin> set (ingest_batches db) \<and> Validate b = None \<and> r \<noteq> Inr False \<and>
      ingest_batches db' = ingest_batches db @ [guard_key b] \<and> store_batch env b (tables db) = Inr (tables db'))"
  using assms
  by (auto simp: InsertBatch_def insert_guarded_def upsert_node_def andThen_Inr guarded_op_Inr Let_def
      split: option.splits if_splits sum.splits prod.splits)

lemma InsertBatch_answered: "InsertBatch env db b = (db', Inr i) \<Longrightarrow> guard_key b \<in> set (ingest_batches db')"
  by (drule InsertBatch_effect, elim disjE conjE) simp_all

subsection \<open>Sequences of deliveries\<close>

text \<open>Each delivery meets its own faults.\<close>

type_synonym delivery = "(db_op \<Rightarrow> bool) \<times> bool \<times> Batch"

fun meeting :: "('x, 'e) store_env \<Rightarrow> (db_op \<Rightarrow> bool) \<times> bool \<Rightarrow> ('x, 'e) store_env" where
  "meeting env (faults, applied) = env\<lparr>db_fails := faults, commit_applied := applied\<rparr>"

fun deliver :: "('x, 'e) store_env \<Rightarrow> delivery list \<Rightarrow> 'x database \<Rightarrow> 'x database \<times> ('e store_error + bool) list" where
  "deliver env [] db = (db, [])"
| "deliver env ((faults, applied, b) # ds) db =
     (case InsertBatch (meeting env (faults, applied)) db b of
        (db1, r) \<Rightarrow> (case deliver env ds db1 of (db2, rs) \<Rightarrow> (db2, r # rs)))"

text \<open>The specification: batches stored one after another, each once, without faults.\<close>

fun store_seq :: "('x, 'e) store_env \<Rightarrow> Batch list \<Rightarrow> 'x tables \<Rightarrow> 'e store_error + 'x tables" where
  "store_seq env [] T = Inr T"
| "store_seq env (b # bs) T = andThen (store_batch (reliable env) b T) (store_seq env bs)"

lemma insert_rows_commit:
  "insertInterfaceDelta (env\<lparr>commit_applied := a\<rparr>) = insertInterfaceDelta env"
  "insertHealth (env\<lparr>commit_applied := a\<rparr>) = insertHealth env"
  "insertOther (env\<lparr>commit_applied := a\<rparr>) = insertOther env"
  by (intro ext; simp add: insertInterfaceDelta_def insertHealth_def insertOther_def guarded_op_def delta_row_of_def
      cong: if_cong option.case_cong)+

lemma insertEvent_commit: "insertEvent (env\<lparr>commit_applied := a\<rparr>) = insertEvent env"
  by (intro ext) (simp add: insertEvent_def insert_rows_commit)

lemma store_batch_commit: "store_batch (env\<lparr>commit_applied := a\<rparr>) b T = store_batch env b T"
proof -
  have "insert_events (env\<lparr>commit_applied := a\<rparr>) node evs = insert_events env node evs" for node evs
    by (induction evs) (rule ext, simp add: insertEvent_commit)+
  then have "insert_events (env\<lparr>commit_applied := a\<rparr>) = insert_events env" by (intro ext) simp
  then show ?thesis by (simp add: store_batch_def guarded_op_def)
qed

lemma store_batch_meeting:
  "store_batch (meeting env m) b T = Inr T' \<Longrightarrow> store_batch (reliable env) b T = Inr T'"
proof (cases m)
  case (Pair faults applied)
  assume "store_batch (meeting env m) b T = Inr T'"
  then have "store_batch (env\<lparr>db_fails := faults\<rparr>) b T = Inr T'"
    using store_batch_commit [of applied "env\<lparr>db_fails := faults\<rparr>" b T] Pair by simp
  from store_batch_reliable [OF this] show ?thesis by simp
qed

lemma deliver_accepted:
  assumes "deliver env ds db = (db', rs)" "distinct (ingest_batches db)"
  shows "length rs = length ds \<and> (\<exists>accepted. subseq accepted (map (\<lambda>d. snd (snd d)) ds) \<and>
    ingest_batches db' = ingest_batches db @ map guard_key accepted \<and> distinct (ingest_batches db') \<and>
    store_seq env accepted (tables db) = Inr (tables db') \<and> list_all (\<lambda>b. Validate b = None) accepted \<and>
    (\<forall>i < length ds. (\<exists>inserted. rs ! i = Inr inserted) \<longrightarrow> guard_key (snd (snd (ds ! i))) \<in> set (ingest_batches db')))"
  using assms
proof (induction env ds db arbitrary: db' rs rule: deliver.induct)
  case (2 env faults applied b ds db)
  obtain db1 r where step: "InsertBatch (meeting env (faults, applied)) db b = (db1, r)" by fastforce
  obtain rs' where rest: "deliver env ds db1 = (db', rs')" "rs = r # rs'"
    using 2(2) step by (auto split: prod.splits)
  let ?goal = "\<lambda>accepted. subseq accepted (b # map (\<lambda>d. snd (snd d)) ds) \<and>
    ingest_batches db' = ingest_batches db @ map guard_key accepted \<and> distinct (ingest_batches db') \<and>
    store_seq env accepted (tables db) = Inr (tables db') \<and> list_all (\<lambda>b. Validate b = None) accepted"
  have later: "(\<forall>i < length ((faults, applied, b) # ds). (\<exists>inserted. rs ! i = Inr inserted) \<longrightarrow>
      guard_key (snd (snd (((faults, applied, b) # ds) ! i))) \<in> set (ingest_batches db'))"
    if "\<exists>i. r = Inr i \<Longrightarrow> guard_key b \<in> set (ingest_batches db')"
      "\<forall>i < length ds. (\<exists>inserted. rs' ! i = Inr inserted) \<longrightarrow> guard_key (snd (snd (ds ! i))) \<in> set (ingest_batches db')"
    using that by (auto simp: rest(2) nth_Cons split: nat.splits)
  from InsertBatch_effect [OF step] show ?case
  proof
    assume none: "ingest_batches db1 = ingest_batches db \<and> tables db1 = tables db \<and>
      (\<forall>i. r = Inr i \<longrightarrow> \<not> i \<and> guard_key b \<in> set (ingest_batches db))"
    with 2(1) [OF step [symmetric] rest(1)] 2(3) obtain accepted where acc: "length rs' = length ds"
      "subseq accepted (map (\<lambda>d. snd (snd d)) ds)" "ingest_batches db' = ingest_batches db @ map guard_key accepted"
      "distinct (ingest_batches db')" "store_seq env accepted (tables db) = Inr (tables db')" "list_all (\<lambda>b. Validate b = None) accepted"
      "\<forall>i < length ds. (\<exists>inserted. rs' ! i = Inr inserted) \<longrightarrow> guard_key (snd (snd (ds ! i))) \<in> set (ingest_batches db')"
      by auto
    then have "?goal accepted" by auto
    with later acc none show ?thesis by (auto simp: rest(2))
  next
    assume stored: "guard_key b \<notin> set (ingest_batches db) \<and> Validate b = None \<and> r \<noteq> Inr False \<and>
      ingest_batches db1 = ingest_batches db @ [guard_key b] \<and>
      store_batch (meeting env (faults, applied)) b (tables db) = Inr (tables db1)"
    with 2(1) [OF step [symmetric] rest(1)] 2(3) obtain accepted where acc: "length rs' = length ds"
      "subseq accepted (map (\<lambda>d. snd (snd d)) ds)" "ingest_batches db' = ingest_batches db1 @ map guard_key accepted"
      "distinct (ingest_batches db')" "store_seq env accepted (tables db1) = Inr (tables db')" "list_all (\<lambda>b. Validate b = None) accepted"
      "\<forall>i < length ds. (\<exists>inserted. rs' ! i = Inr inserted) \<longrightarrow> guard_key (snd (snd (ds ! i))) \<in> set (ingest_batches db')"
      by auto
    have "?goal (b # accepted)"
      using acc stored store_batch_meeting [of env "(faults, applied)" b "tables db"] by auto
    with later acc stored show ?thesis by (auto simp: rest(2))
  qed
qed simp

subsection \<open>The totals of a minute\<close>

definition minute_total :: "delta_row list \<Rightarrow> string \<times> go_time \<times> string \<Rightarrow> (int \<times> int) option" where
  "minute_total rows k =
     (case filter (\<lambda>row. bucket_of row = k) rows of
        [] \<Rightarrow> None
      | rs \<Rightarrow> Some (sum_list (map dl_bytes rs), sum_list (map dl_packets rs)))"

definition aggregated :: "'x tables \<Rightarrow> bool" where
  "aggregated T \<longleftrightarrow> traffic_minute T = minute_total (interface_deltas T) \<and> distinct (map row_key (interface_deltas T)) \<and>
     list_all row_checks (interface_deltas T) \<and>
     (\<forall>k bs ps. traffic_minute T k = Some (bs, ps) \<longrightarrow> 0 \<le> bs \<and> bs \<le> bigint_max \<and> 0 \<le> ps \<and> ps \<le> bigint_max)"

lemma minute_total_snoc:
  "minute_total (rows @ [row]) = (minute_total rows)(bucket_of row \<mapsto>
     (case minute_total rows (bucket_of row) of None \<Rightarrow> (dl_bytes row, dl_packets row)
      | Some (bs, ps) \<Rightarrow> (bs + dl_bytes row, ps + dl_packets row)))"
  by (rule ext) (auto simp: minute_total_def split: list.splits)

lemma sint_bigint: "sint (w :: int64) \<le> bigint_max"
  using sint_lt [of w] by (simp add: bigint_max_def)

lemma insertInterfaceDelta_aggregated:
  fixes env :: "('x, 'e) store_env"
  assumes "aggregated T" "insertInterfaceDelta env node ev T = Inr T'"
  shows "aggregated T'"
proof -
  let ?row = "delta_row_of env node ev"
  consider "T' = T"
    | "row_checks ?row" "row_key ?row \<notin> row_key ` set (interface_deltas T)"
      "add_to_minute ?row (T\<lparr>interface_deltas := interface_deltas T @ [?row]\<rparr>) = (Inr T' :: 'e store_error + 'x tables)"
    using assms(2) that unfolding insertInterfaceDelta_def Let_def andThen_Inr guarded_op_Inr
    by (auto simp: andThen_Inr guarded_op_Inr simp del: image_iff split: if_splits)
  then show ?thesis
  proof cases
    case 2
    have range: "dl_bytes ?row \<le> bigint_max" "dl_packets ?row \<le> bigint_max" "0 \<le> dl_bytes ?row" "0 \<le> dl_packets ?row"
      using 2(1) by (simp_all add: delta_row_of_def sint_bigint row_checks_def)
    have "0 \<le> bs \<and> 0 \<le> ps" if "traffic_minute T (bucket_of ?row) = Some (bs, ps)" for bs ps
      using that assms(1) by (cases "bucket_of ?row") (auto simp: aggregated_def)
    with 2 assms(1) range show ?thesis
      by (cases "traffic_minute T (bucket_of ?row)")
        (auto simp: aggregated_def add_to_minute_def minute_total_snoc andThen_Inr bigint_add_def split: if_splits)
  qed (use assms(1) in simp)
qed

lemma insertEvent_aggregated:
  assumes "aggregated T" "insertEvent env node ev T = Inr T'"
  shows "aggregated T'"
proof -
  have other: "aggregated T'" if "traffic_minute T' = traffic_minute T" "interface_deltas T' = interface_deltas T"
    using that assms(1) by (simp add: aggregated_def)
  consider "insertInterfaceDelta env node ev T = Inr T'" | "insertHealth env node ev T = Inr T'" | "insertOther env node ev T = Inr T'"
    using assms(2) by (auto simp: insertEvent_def split: if_splits)
  then show ?thesis
  proof cases
    case 1
    then show ?thesis using insertInterfaceDelta_aggregated assms(1) by blast
  next
    case 2
    then show ?thesis
      by (intro other) (auto simp: insertHealth_def andThen_Inr guarded_op_Inr Let_def split: option.splits if_splits)
  next
    case 3
    then show ?thesis by (intro other) (auto simp: insertOther_def andThen_Inr guarded_op_Inr split: sum.splits)
  qed
qed

lemma insert_events_aggregated:
  "aggregated T \<Longrightarrow> insert_events env node evs T = Inr T' \<Longrightarrow> aggregated T'"
  by (induction evs arbitrary: T) (auto simp: andThen_Inr dest: insertEvent_aggregated)

lemma store_batch_aggregated:
  assumes "aggregated T" "store_batch env b T = Inr T'"
  shows "aggregated T'"
proof -
  have "aggregated (T\<lparr>other_tables := x\<rparr>)" for x using assms(1) by (simp add: aggregated_def)
  then show ?thesis
    using assms by (auto simp: store_batch_def andThen_Inr guarded_op_Inr intro: insert_events_aggregated split: if_splits)
qed

subsection \<open>The server as the receiver of the agent's queue\<close>

text \<open>The sender of the agent loop with the server behind it: delivery number \<open>k\<close> meets the faults \<open>schedule k\<close>.\<close>

definition server_send :: "('x, 'e) store_env \<Rightarrow> (nat \<Rightarrow> (db_op \<Rightarrow> bool) \<times> bool) \<Rightarrow> nat \<times> 'x database \<Rightarrow> Batch \<Rightarrow>
    (nat \<times> 'x database) \<times> 'e store_error option" where
  "server_send env schedule = (\<lambda>(k, db) b.
     case InsertBatch (meeting env (schedule k)) db b of
       (db', Inl e) \<Rightarrow> ((Suc k, db'), Some e)
     | (db', Inr inserted) \<Rightarrow> ((Suc k, db'), None))"

lemma send_all_deliver:
  assumes "send_all (server_send env schedule) (k, db) bs = ((k', db'), n, r)"
  shows "\<exists>ds rs. deliver env ds db = (db', rs) \<and> map (\<lambda>d. snd (snd d)) ds = take (length ds) bs \<and> n \<le> length ds \<and>
    length ds \<le> length bs \<and> (\<forall>i < n. \<exists>inserted. rs ! i = Inr inserted)"
  using assms
proof (induction bs arbitrary: k db n)
  case Nil
  then show ?case by (intro exI [of _ "[]"]) auto
next
  case (Cons b bs)
  obtain db1 out where step: "InsertBatch (meeting env (schedule k)) db b = (db1, out)" by fastforce
  obtain faults applied where sched: "schedule k = (faults, applied)" by fastforce
  show ?case
  proof (cases out)
    case (Inl e)
    with Cons.prems step sched show ?thesis
      by (intro exI [of _ "[(faults, applied, b)]"]) (auto simp: server_send_def)
  next
    case (Inr inserted)
    obtain s2 m r' where rest: "send_all (server_send env schedule) (Suc k, db1) bs = (s2, m, r')" by (metis prod_cases3)
    with Cons.prems step Inr have "n = Suc m" "s2 = (k', db')" "r' = r" by (auto simp: server_send_def)
    with Cons.IH [of "Suc k" db1 m] rest obtain ds rs where ds: "deliver env ds db1 = (db', rs)"
      "map (\<lambda>d. snd (snd d)) ds = take (length ds) bs" "m \<le> length ds" "length ds \<le> length bs"
      "\<forall>i < m. \<exists>inserted. rs ! i = Inr inserted" by blast
    with step sched Inr \<open>n = Suc m\<close> show ?thesis
      by (intro exI [of _ "(faults, applied, b) # ds"] exI [of _ "out # rs"]) (auto simp: nth_Cons split: nat.splits)
  qed
qed

subsection \<open>Summaries at the server\<close>

lemma summary_identity:
  "guard_key (summary_of env (fold (compact_batch env) bs []) node m) = (node, minuteSummaryBatchID env node m)"
proof -
  have "guard_key (fold (absorb env m) bs summary) = guard_key summary" for bs summary
    by (induction bs arbitrary: summary) (auto simp: absorb_def)
  from this [of "filter (concerns node m) bs" "summary_of env [] node m"] show ?thesis
    by (simp add: summary_of_batches) (simp add: summary_of_def new_summary_def)
qed

text \<open>The summary of a single event, and what storing a batch of one such event leaves in the table.\<close>

definition minute_event :: "spool_env \<Rightarrow> Event \<Rightarrow> go_time \<Rightarrow> Event" where
  "minute_event env ev m = hd (mergeInterfaceEvent env [] ev m)"

lemma single_summary:
  assumes "ba_Events b = [ev]" "truncate_minute (ev_ObservedAt ev) = m"
  shows "ba_Events (summary_of env (fold (compact_batch env) [b] []) (ba_NodeID b) m) = [minute_event env ev m]"
  using assms
  by (simp only: summary_of_batches)
    (simp add: concerns_def batch_minutes_def absorb_def summary_of_def new_summary_def events_at_def minute_event_def)

lemma in_kind_order_delta: "ev_Kind ev = EventInterfaceDelta \<Longrightarrow> in_kind_order [ev] = [ev]"
  by (simp add: in_kind_order_def kind_order_def kind_defs)

lemma store_single_delta:
  assumes "ba_Events b = [ev]" "ev_Kind ev = EventInterfaceDelta"
  shows "store_batch env b T = insertInterfaceDelta env (ba_NodeID b) ev T"
proof -
  have "EventInterfaceDelta \<noteq> EventOwnerInventory" by (simp add: kind_defs)
  then have "store_batch env b T = andThen (insertInterfaceDelta env (ba_NodeID b) ev T) (insert_events env (ba_NodeID b) [])"
    using assms by (simp add: store_batch_def in_kind_order_delta insertEvent_def)
  then show ?thesis by (cases "insertInterfaceDelta env (ba_NodeID b) ev T") simp_all
qed

lemma insertInterfaceDelta_key:
  assumes "insertInterfaceDelta env node ev T = Inr T'"
  shows "(ev_ID ev, pg_time env (ev_ObservedAt ev)) \<in> row_key ` set (interface_deltas T')"
  using assms
  by (auto simp: insertInterfaceDelta_def Let_def andThen_Inr guarded_op_Inr add_to_minute_def delta_row_of_def row_key_def image_iff
      split: if_splits option.splits)

lemma insertInterfaceDelta_present:
  assumes "(ev_ID ev, pg_time env (ev_ObservedAt ev)) \<in> row_key ` set (interface_deltas T)" "row_checks (delta_row_of env node ev)"
  shows "insertInterfaceDelta (reliable env) node ev T = Inr T"
proof -
  have "row_key (delta_row_of env node ev) = (ev_ID ev, pg_time env (ev_ObservedAt ev))" by (simp add: row_key_def delta_row_of_def)
  with assms show ?thesis by (simp add: insertInterfaceDelta_def Let_def)
qed

lemma InsertBatch_reliable:
  assumes "Validate b = None"
  shows "guard_key b \<in> set (ingest_batches db) \<Longrightarrow> \<exists>db'. InsertBatch (reliable env) db b = (db', Inr False) \<and> tables db' = tables db"
    and "guard_key b \<notin> set (ingest_batches db) \<Longrightarrow> store_batch (reliable env) b (tables db) = Inr T \<Longrightarrow>
      \<exists>db'. InsertBatch (reliable env) db b = (db', Inr True) \<and> tables db' = T"
  using assms by (simp_all add: InsertBatch_def insert_guarded_def upsert_node_def Let_def)

lemma decoded_size: "decodeBatch c r = Inr b \<Longrightarrow> \<exists>body rest. json_batch c body = Some (b, rest) \<and> length body \<le> 16 * 2 ^ 20"
  by (fastforce simp: decodeBatch_def andThen_Inr maxDecompressedBytes_def not_less split: if_splits option.splits)

subsection \<open>Properties\<close>

definition demo_store :: "(unit, unit) store_env" where
  "demo_store = \<lparr>db_fails = \<lambda>_. False, commit_applied = True, pg_time = \<lambda>t. t, stop_containers = \<lambda>_ x. x,
     insert_other = \<lambda>_ _ x. Inr x\<rparr>"

definition demo_db :: "unit database" where
  "demo_db = \<lparr>nodes = Map.empty, ingest_batches = [],
     tables = \<lparr>interface_deltas = [], traffic_minute = Map.empty, collector_health = [], other_tables = ()\<rparr>\<rparr>"

definition demo_one :: "string \<Rightarrow> Batch" where
  "demo_one node = (demo_queued ''a'' 10)\<lparr>ba_NodeID := node, ba_Events := [demo_event_at (minute + 5) 10]\<rparr>"

lemma demo_one_valid: "node \<noteq> [] \<Longrightarrow> length node \<le> 128 \<Longrightarrow> Validate (demo_one node) = None"
  by (simp add: demo_one_def Validate_def demo_queued_def demo_event_at_def zero_Event_def id_ok_def IsZero_def event_validate_def
      kind_validate_def nonHealthPayloadCount_def trafficPayloadCount_def direction_valid_def word_sless_alt)

text \<open>A commit whose answer is lost, and the delivery repeated.\<close>

definition demo_lost :: "delivery list" where
  "demo_lost = [(\<lambda>op. op = CommitBatch, True, demo_one ''n''), (\<lambda>_. False, True, demo_one ''n'')]"

lemma demo_one_event [simp]:
  "ba_Events (demo_one node) = [demo_event_at (minute + 5) 10]" "ba_NodeID (demo_one node) = node" "ba_BatchID (demo_one node) = ''a''"
  "ev_ID (demo_event_at t n) = ''e''" "ev_Kind (demo_event_at t n) = EventInterfaceDelta" "direction_valid DirectionInbound"
  "ev_Bytes (demo_event_at t n) = n" "ev_Packets (demo_event_at t n) = 0" "ev_ObservedAt (demo_event_at t n) = t"
  "ev_Interface (demo_event_at t n) = ''eth0''" "ev_Direction (demo_event_at t n) = DirectionInbound"
  by (simp_all add: demo_one_def demo_queued_def demo_event_at_def zero_Event_def direction_valid_def)

definition demo_tables :: "string \<Rightarrow> Event \<Rightarrow> unit tables" where
  "demo_tables node ev = \<lparr>interface_deltas = [delta_row_of demo_store node ev],
     traffic_minute = [(node, truncate_minute (ev_ObservedAt ev), ev_Direction ev) \<mapsto> (sint (ev_Bytes ev), sint (ev_Packets ev))],
     collector_health = [], other_tables = ()\<rparr>"

lemma demo_insert:
  assumes "ba_Events b = [ev]" "ev_Kind ev = EventInterfaceDelta" "direction_valid (ev_Direction ev)"
    "0 \<le> sint (ev_Bytes ev)" "0 \<le> sint (ev_Packets ev)" "\<And>i. \<not> faults (InsertRow i)" "\<And>i. \<not> faults (AggregateRow i)"
  shows "store_batch (demo_store\<lparr>db_fails := faults\<rparr>) b (tables demo_db) = Inr (demo_tables (ba_NodeID b) ev)"
  using assms
  by (simp add: store_single_delta insertInterfaceDelta_def Let_def guarded_op_def row_checks_def delta_row_of_def demo_db_def
      add_to_minute_def demo_tables_def bucket_of_def demo_store_def)

lemma demo_lost_run:
  "\<exists>db'. deliver demo_store demo_lost demo_db = (db', [Inl (DbFailed CommitBatch), Inr False]) \<and> ingest_batches db' = [(''n'', ''a'')]"
  using demo_insert [of "demo_one ''n''" "demo_event_at (minute + 5) 10" "\<lambda>op. op = CommitBatch"]
  by (simp add: demo_lost_def InsertBatch_def insert_guarded_def upsert_node_def guarded_op_def Let_def store_batch_commit
      demo_one_valid demo_db_def)

text \<open>C5. Every batch is stored exactly once: over any sequence of deliveries, repeated ones included, each with statements
  failing anywhere and commits whose answer is lost, the tables are those of storing a subsequence of
  valid batches once each, in order; each of them has its guard in the database, no guard appears twice,
  and every delivery that was answered without an error has its guard there.\<close>

theorem ingest_exactly_once:
  assumes "deliver env ds db = (db', rs)" "distinct (ingest_batches db)"
  shows "\<exists>accepted. subseq accepted (map (\<lambda>d. snd (snd d)) ds) \<and> list_all (\<lambda>b. Validate b = None) accepted \<and>
    ingest_batches db' = ingest_batches db @ map guard_key accepted \<and> distinct (ingest_batches db') \<and>
    store_seq env accepted (tables db) = Inr (tables db') \<and>
    (\<forall>i < length ds. (\<exists>inserted. rs ! i = Inr inserted) \<longrightarrow> guard_key (snd (snd (ds ! i))) \<in> set (ingest_batches db'))"
  using deliver_accepted [OF assms] by blast

theorem ingest_exactly_once_witness:
  "\<exists>db'. deliver demo_store demo_lost demo_db = (db', [Inl (DbFailed CommitBatch), Inr False]) \<and>
     ingest_batches db' = [(''n'', ''a'')] \<and> store_seq demo_store [demo_one ''n''] (tables demo_db) = Inr (tables db')"
proof -
  obtain db' where run: "deliver demo_store demo_lost demo_db = (db', [Inl (DbFailed CommitBatch), Inr False])"
    "ingest_batches db' = [(''n'', ''a'')]" using demo_lost_run by blast
  have new: "distinct (ingest_batches demo_db)" "ingest_batches demo_db = []" by (simp_all add: demo_db_def)
  from ingest_exactly_once [OF run(1) new(1)] obtain accepted where "subseq accepted (map (\<lambda>d. snd (snd d)) demo_lost)"
    "ingest_batches db' = ingest_batches demo_db @ map guard_key accepted" "store_seq demo_store accepted (tables demo_db) = Inr (tables db')"
    by blast
  note acc = this [unfolded run(2) new(2) append_Nil]
  have "set accepted \<subseteq> {demo_one ''n''}" using list_emb_set [OF acc(1)] by (auto simp: demo_lost_def)
  with acc(2) have "accepted = [demo_one ''n'']" by (cases accepted) auto
  with run acc(3) show ?thesis by blast
qed

text \<open>C4. From the agent's queue to the server's tables: whatever statements fail and whichever commits are lost on the way,
  draining the spool ends; the batches that left the spool are a prefix of it, each is committed at the server, the rest is
  still queued, and the tables are those of storing each accepted batch once.\<close>

theorem agent_to_server:
  assumes "spool_ok (queue app)" "sender app = (k, db)" "distinct (ingest_batches db)"
  shows "\<exists>app' r k' db' n accepted.
    app_drain (agent_interfaces (server_send env schedule) encode decode sha percent) app = Some (app', r) \<and>
    sender app' = (k', db') \<and> spool_contents (queue app') = drop n (spool_contents (queue app)) \<and>
    (r = None \<longleftrightarrow> spool_contents (queue app') = []) \<and>
    (\<forall>b \<in> set (take n (spool_contents (queue app))). guard_key b \<in> set (ingest_batches db')) \<and>
    subseq accepted (spool_contents (queue app)) \<and> distinct (ingest_batches db') \<and>
    ingest_batches db' = ingest_batches db @ map guard_key accepted \<and> store_seq env accepted (tables db) = Inr (tables db')"
proof -
  let ?bs = "spool_contents (queue app)"
  obtain k' db' n f where sent: "send_all (server_send env schedule) (sender app) ?bs = ((k', db'), n, f)"
    by (metis prod.collapse)
  then obtain q' where drained: "app_drain (agent_interfaces (server_send env schedule) encode decode sha percent) app =
      Some (app\<lparr>queue := q', sender := (k', db')\<rparr>, map_option (DrainFailed \<circ> DeliverQueued) f)"
    "spool_contents q' = drop n ?bs"
    using agent_drain [OF assms(1)] by blast
  have count: "n \<le> length ?bs" "f = None \<longleftrightarrow> n = length ?bs" using send_all_count [OF sent] by simp_all
  obtain ds rs where ds: "deliver env ds db = (db', rs)" "map (\<lambda>d. snd (snd d)) ds = take (length ds) ?bs" "n \<le> length ds"
    "length ds \<le> length ?bs" "\<forall>i < n. \<exists>inserted. rs ! i = Inr inserted"
    using send_all_deliver sent assms(2) by metis
  from deliver_accepted [OF ds(1) assms(3)] obtain accepted where acc: "subseq accepted (take (length ds) ?bs)"
    "ingest_batches db' = ingest_batches db @ map guard_key accepted" "distinct (ingest_batches db')"
    "store_seq env accepted (tables db) = Inr (tables db')"
    "\<forall>i < length ds. (\<exists>inserted. rs ! i = Inr inserted) \<longrightarrow> guard_key (snd (snd (ds ! i))) \<in> set (ingest_batches db')"
    by (auto simp: ds(2))
  have "guard_key (?bs ! i) \<in> set (ingest_batches db')" if "i < n" for i
  proof -
    from that ds(3) have i: "i < length ds" by simp
    then have "snd (snd (ds ! i)) = ?bs ! i" using arg_cong [OF ds(2), of "\<lambda>xs. xs ! i"] by simp
    with acc(5) i that ds(5) show ?thesis by metis
  qed
  then have "\<forall>b \<in> set (take n ?bs). guard_key b \<in> set (ingest_batches db')"
    by (auto simp: in_set_conv_nth)
  moreover have "subseq accepted ?bs"
    using acc(1) by (metis subseq_order.order_trans prefix_imp_subseq take_is_prefix)
  ultimately show ?thesis
    using drained count acc(2-4)
    by (intro exI [of _ "app\<lparr>queue := q', sender := (k', db')\<rparr>"] exI [of _ "map_option (DrainFailed \<circ> DeliverQueued) f"]
        exI [of _ k'] exI [of _ db'] exI [of _ n] exI [of _ accepted]) auto
qed

definition demo_connected :: "(spool_env \<times> Spool \<times> sdir, nat \<times> unit database, disk) App" where
  "demo_connected = NewApp ''n'' (demo_spool_env, demo_spool, demo_dir) (0, demo_db) None"

theorem agent_to_server_witness:
  "\<exists>app' r k' db' n.
     app_drain (agent_interfaces (server_send demo_store (\<lambda>k. (\<lambda>op. k = 0 \<and> op = CommitBatch, True))) demo_encode demo_decode
       (\<lambda>n s. s) (\<lambda>u. [])) demo_connected = Some (app', r) \<and>
     sender app' = (k', db') \<and> spool_contents (queue app') = drop n [demo_queued ''a'' 10] \<and> distinct (ingest_batches db') \<and>
     (\<forall>b \<in> set (take n [demo_queued ''a'' 10]). guard_key b \<in> set (ingest_batches db'))"
  using agent_to_server [of demo_connected 0 demo_db demo_store "\<lambda>k. (\<lambda>op. k = 0 \<and> op = CommitBatch, True)" demo_encode demo_decode
      "\<lambda>n s. s" "\<lambda>u. []"] demo_dir_clean
  by (simp add: demo_connected_def NewApp_def demo_db_def del: spool_ok.simps spool_contents.simps) blast

text \<open>C14. The totals by minute are always those of the detail rows: whatever a delivery does, succeed, fail anywhere or lose
  its commit, every entry of the minute table is the sum of bytes and of packets of the rows of its node, minute and
  direction, without wrap-around, and there is an entry exactly where there is a row; no two rows have the same key.\<close>

theorem traffic_aggregated:
  assumes "aggregated (tables db)" "InsertBatch env db b = (db', r)"
  shows "aggregated (tables db')"
  using InsertBatch_effect [OF assms(2)] assms(1) store_batch_aggregated by fastforce

theorem traffic_aggregated_witness:
  "\<exists>db'. InsertBatch (reliable demo_store) demo_db (demo_one ''n'') = (db', Inr True) \<and>
     traffic_minute (tables db') (''n'', minute, DirectionInbound) = Some (10, 0) \<and> aggregated (tables db')"
proof -
  have "aggregated (tables demo_db)" by (simp add: demo_db_def aggregated_def minute_total_def fun_eq_iff)
  moreover obtain T where "store_batch (reliable demo_store) (demo_one ''n'') (tables demo_db) = Inr T"
    "traffic_minute T (''n'', minute, DirectionInbound) = Some (10, 0)"
    using demo_insert [of "demo_one ''n''" "demo_event_at (minute + 5) 10" "\<lambda>_. False"]
    by (simp add: demo_tables_def truncate_minute_def)
  ultimately show ?thesis
    using InsertBatch_reliable(2) [of "demo_one ''n''" demo_db demo_store T] demo_one_valid [of "''n''"]
      traffic_aggregated [of demo_db "reliable demo_store" "demo_one ''n''"]
    by (fastforce simp: demo_db_def)
qed

text \<open>The answer means what the agent takes it to mean: the sender counts an answer as a success exactly when the store
  accepted the batch or had it already, and then its guard is committed; an answer the sender takes as permanent
  left the database as it was; only a failure of the store is retried. Without the token nothing is changed, and what is
  stored was decoded from a body of at most 16 MiB.\<close>

theorem answers_classified:
  assumes "ServeHTTP c env token db r = (db', status)"
  shows "(attempt (Response status) = None \<longleftrightarrow> rq_Method r = ''POST'' \<and> rq_Authorization r = ''Bearer '' @ token \<and>
      (\<exists>b inserted. decodeBatch c r = Inr b \<and> InsertBatch env db b = (db', Inr inserted) \<and>
         guard_key b \<in> set (ingest_batches db'))) \<and>
    (attempt (Response status) = Some (ErrPermanent status) \<longrightarrow> db' = db) \<and>
    (attempt (Response status) = Some (RetryableStatus status) \<longrightarrow> status = 500) \<and>
    (db' \<noteq> db \<longrightarrow> rq_Authorization r = ''Bearer '' @ token \<and>
      (\<exists>b body rest. decodeBatch c r = Inr b \<and> Validate b = None \<and> json_batch c body = Some (b, rest) \<and>
         length body \<le> 16 * 2 ^ 20))"
proof (cases "rq_Method r = ''POST'' \<and> authorized token (rq_Authorization r)")
  case False
  then have "db' = db" "status \<in> {405, 401}" using assms by (auto simp: ServeHTTP_def split: if_splits)
  moreover have "\<not> (rq_Method r = ''POST'' \<and> rq_Authorization r = ''Bearer '' @ token)" using False by (auto simp: authorized_def)
  ultimately show ?thesis by (auto simp: attempt_def)
next
  case True
  then have auth: "rq_Method r = ''POST''" "rq_Authorization r = ''Bearer '' @ token" by (auto simp: authorized_def prefix_def)
  show ?thesis
  proof (cases "decodeBatch c r")
    case (Inl e)
    with assms True show ?thesis by (cases e) (auto simp: ServeHTTP_def attempt_def)
  next
    case (Inr b)
    obtain db1 out where stored: "InsertBatch env db b = (db1, out)" by fastforce
    show ?thesis
    proof (cases "Validate b")
      case (Some e)
      with assms True Inr stored show ?thesis
        by (auto simp: ServeHTTP_def attempt_def InsertBatch_def)
    next
      case None
      then have result: "db1 = db'" "status = (case out of Inl _ \<Rightarrow> 500 | Inr False \<Rightarrow> 200 | Inr True \<Rightarrow> 202)"
        using assms True Inr stored by (cases out; simp add: ServeHTTP_def split: bool.splits)+
      have "\<exists>i. out = Inr i \<Longrightarrow> guard_key b \<in> set (ingest_batches db')"
        using InsertBatch_answered stored result(1) by metis
      moreover have "attempt (Response status) = (case out of Inl _ \<Rightarrow> Some (RetryableStatus 500) | Inr _ \<Rightarrow> None)"
        using result(2) by (cases out) (simp_all add: attempt_def split: bool.splits)
      moreover have "status = 500" if "out = Inl e" for e using that result(2) by simp
      ultimately show ?thesis
        using stored auth Inr None decoded_size [OF Inr] result(1) by (cases out; intro conjI; simp)
    qed
  qed
qed

definition demo_codec :: codec where
  "demo_codec = \<lparr>gunzip = \<lambda>_ _. None, json_batch = \<lambda>_. Some (demo_one ''n'', [0x0A])\<rparr>"

definition demo_request :: "string \<Rightarrow> request" where
  "demo_request header = \<lparr>rq_Method = ''POST'', rq_Authorization = header, rq_Encoding = [], rq_Body = [0x7B]\<rparr>"

theorem answers_classified_witness:
  "\<exists>db'. ServeHTTP demo_codec (reliable demo_store) ''t'' demo_db (demo_request ''Bearer t'') = (db', 202) \<and>
     (''n'', ''a'') \<in> set (ingest_batches db') \<and>
   ServeHTTP demo_codec (reliable demo_store) ''t'' demo_db (demo_request ''Bearer x'') = (demo_db, 401)"
proof -
  have trim: "TrimSpace [] = []" by code_simp
  have decoded: "decodeBatch demo_codec (demo_request h) = Inr (demo_one ''n'')" for h
    by (simp add: decodeBatch_def request_stream_def demo_request_def demo_codec_def limited_body_def maxCompressedBytes_def
        maxDecompressedBytes_def json_space_def trim Let_def)
  obtain T where "store_batch (reliable demo_store) (demo_one ''n'') (tables demo_db) = Inr T"
    using demo_insert [of "demo_one ''n''" "demo_event_at (minute + 5) 10" "\<lambda>_. False"] by simp
  then obtain db' where stored: "InsertBatch (reliable demo_store) demo_db (demo_one ''n'') = (db', Inr True)"
    using InsertBatch_reliable(2) [of "demo_one ''n''" demo_db demo_store T] demo_one_valid [of "''n''"] by (auto simp: demo_db_def)
  have served: "ServeHTTP demo_codec (reliable demo_store) ''t'' demo_db (demo_request ''Bearer t'') = (db', 202)"
    using decoded stored demo_one_valid [of "''n''"] by (simp add: ServeHTTP_def demo_request_def authorized_def prefix_def)
  have "attempt (Response 202) = None" by (simp add: attempt_def)
  with answers_classified [OF served] have "(''n'', ''a'') \<in> set (ingest_batches db')"
    by (auto simp: decoded demo_one_event)
  with served show ?thesis by (simp add: ServeHTTP_def demo_request_def authorized_def prefix_def)
qed

text \<open>The identifiers of minute summaries are shared: the identifier of a summary names only its node and minute, and
  those of its events only interface, direction and minute. So a second summary of the same node and minute, as one that compacts
  batches left after the first was delivered, is answered as a duplicate and none of it is stored; and the summary
  of another node for the same minute, interface and direction is answered as accepted, while its event is
  ignored as a row already present.\<close>

theorem summaries_collide:
  assumes "Validate s2 = None" "InsertBatch (reliable env) db s1 = (db1, Inr True)"
  shows "(\<forall>bs1 bs2. s1 = summary_of senv (fold (compact_batch senv) bs1 []) node m \<and>
        s2 = summary_of senv (fold (compact_batch senv) bs2 []) node m \<longrightarrow>
      (\<exists>db2. InsertBatch (reliable env) db1 s2 = (db2, Inr False) \<and> tables db2 = tables db1)) \<and>
    (\<forall>b1 b2 ev1 ev2. s1 = summary_of senv (fold (compact_batch senv) [b1] []) (ba_NodeID b1) m \<and>
        s2 = summary_of senv (fold (compact_batch senv) [b2] []) (ba_NodeID b2) m \<and>
        guard_key s2 \<notin> set (ingest_batches db1) \<and> ba_Events b1 = [ev1] \<and> ba_Events b2 = [ev2] \<and>
        truncate_minute (ev_ObservedAt ev1) = m \<and> truncate_minute (ev_ObservedAt ev2) = m \<and>
        ev_Kind ev1 = EventInterfaceDelta \<and> ev_Kind ev2 = EventInterfaceDelta \<and>
        ev_Interface ev1 = ev_Interface ev2 \<and> ev_Direction ev1 = ev_Direction ev2 \<longrightarrow>
      (\<exists>db2. InsertBatch (reliable env) db1 s2 = (db2, Inr True) \<and> tables db2 = tables db1))"
proof (intro conjI allI impI; elim conjE)
  fix bs1 bs2
  assume "s1 = summary_of senv (fold (compact_batch senv) bs1 []) node m" "s2 = summary_of senv (fold (compact_batch senv) bs2 []) node m"
  then have "guard_key s2 = guard_key s1" by (simp only: summary_identity)
  with InsertBatch_answered [OF assms(2)] InsertBatch_reliable(1) [OF assms(1), of db1 env]
  show "\<exists>db2. InsertBatch (reliable env) db1 s2 = (db2, Inr False) \<and> tables db2 = tables db1" by simp
next
  fix b1 b2 ev1 ev2
  assume s: "s1 = summary_of senv (fold (compact_batch senv) [b1] []) (ba_NodeID b1) m"
      "s2 = summary_of senv (fold (compact_batch senv) [b2] []) (ba_NodeID b2) m"
    and new: "guard_key s2 \<notin> set (ingest_batches db1)"
    and evs: "ba_Events b1 = [ev1]" "ba_Events b2 = [ev2]" "truncate_minute (ev_ObservedAt ev1) = m" "truncate_minute (ev_ObservedAt ev2) = m"
      "ev_Kind ev1 = EventInterfaceDelta" "ev_Kind ev2 = EventInterfaceDelta"
    and same: "ev_Interface ev1 = ev_Interface ev2" "ev_Direction ev1 = ev_Direction ev2"
  let ?e1 = "minute_event senv ev1 m" let ?e2 = "minute_event senv ev2 m"
  have events: "ba_Events s1 = [?e1]" "ba_Events s2 = [?e2]" using single_summary s evs by blast+
  have kinds: "ev_Kind ?e1 = EventInterfaceDelta" "ev_Kind ?e2 = EventInterfaceDelta" "ev_ID ?e1 = ev_ID ?e2"
    "ev_ObservedAt ?e1 = ev_ObservedAt ?e2" using evs same by (simp_all add: minute_event_def)
  have "store_batch (reliable env) s1 (tables db) = Inr (tables db1)" using InsertBatch_effect [OF assms(2)] by auto
  then have "insertInterfaceDelta (reliable env) (ba_NodeID s1) ?e1 (tables db) = Inr (tables db1)"
    by (simp add: store_single_delta [OF events(1) kinds(1)])
  from insertInterfaceDelta_key [OF this] have "(ev_ID ?e2, pg_time env (ev_ObservedAt ?e2)) \<in> row_key ` set (interface_deltas (tables db1))"
    by (simp add: kinds)
  moreover have "row_checks (delta_row_of env (ba_NodeID s2) ?e2)"
    using assms(1) events(2) kinds(2)
    by (auto simp: Validate_iff valid_batch_def valid_event_def row_checks_def delta_row_of_def direction_valid_def)
  ultimately have "store_batch (reliable env) s2 (tables db1) = Inr (tables db1)"
    by (simp add: store_single_delta [OF events(2) kinds(2)] insertInterfaceDelta_present)
  with InsertBatch_reliable(2) [OF assms(1) new] show "\<exists>db2. InsertBatch (reliable env) db1 s2 = (db2, Inr True) \<and> tables db2 = tables db1"
    by blast
qed

definition demo_summary :: "string \<Rightarrow> Batch" where
  "demo_summary node = summary_of demo_spool_env (fold (compact_batch demo_spool_env) [demo_one node] []) node minute"

theorem summaries_collide_witness:
  "\<exists>db1 db2. InsertBatch (reliable demo_store) demo_db (demo_summary ''n'') = (db1, Inr True) \<and>
     InsertBatch (reliable demo_store) db1 (demo_summary ''o'') = (db2, Inr True) \<and> tables db2 = tables db1"
proof -
  let ?ev = "demo_event_at (minute + 5) 10" let ?e = "minute_event demo_spool_env ?ev minute"
  have keys: "guard_key (demo_summary node) = (node, minuteSummaryBatchID demo_spool_env node minute)" for node
    unfolding demo_summary_def by (rule summary_identity)
  have events: "ba_Events (demo_summary node) = [?e]" for node
    using single_summary [of "demo_one node" ?ev minute demo_spool_env] by (simp add: demo_summary_def truncate_minute_def)
  have valid: "Validate (demo_summary node) = None" if "node \<in> {''n'', ''o''}" for node
  proof -
    have "length (format_int (Unix minute)) \<le> 12" using length_itoa [of 62135596740 11] by (simp add: format_int_def Unix_def)
    moreover have "demo_summary node = \<lparr>ba_SchemaVersion = 1, ba_BatchID = minuteSummaryBatchID demo_spool_env node minute, ba_NodeID = node,
        ba_SentAt = minute, ba_Events = [?e], ba_CompactedBatchIDs = [''a'']\<rparr>"
      unfolding demo_summary_def summary_of_batches
      by (simp add: concerns_def batch_minutes_def absorb_def summary_of_def new_summary_def events_at_def minute_event_def truncate_minute_def)
    ultimately show ?thesis
      using that
      by (auto simp: minute_event_def Validate_def id_ok_def IsZero_def event_validate_def minuteSummaryBatchID_def demo_spool_env_def
          kind_validate_def nonHealthPayloadCount_def trafficPayloadCount_def direction_valid_def word_sless_alt demo_event_at_def zero_Event_def
          DirectionInbound_def)
  qed
  have "store_batch (reliable demo_store) (demo_summary ''n'') (tables demo_db) = Inr (demo_tables ''n'' ?e)"
    using demo_insert [of "demo_summary ''n''" ?e "\<lambda>_. False"] keys [of "''n''"] events
    by (simp add: minute_event_def)
  then obtain db1 where db1: "InsertBatch (reliable demo_store) demo_db (demo_summary ''n'') = (db1, Inr True)"
    using InsertBatch_reliable(2) [of "demo_summary ''n''" demo_db demo_store] valid [of "''n''"] by (auto simp: demo_db_def)
  have "guard_key (demo_summary ''o'') \<notin> set (ingest_batches db1)"
    using InsertBatch_effect [OF db1] keys by (elim disjE) (simp_all add: demo_db_def)
  then have "\<exists>db2. InsertBatch (reliable demo_store) db1 (demo_summary ''o'') = (db2, Inr True) \<and> tables db2 = tables db1"
    by (intro summaries_collide [where senv = demo_spool_env and m = minute and node = "[]", THEN conjunct2, rule_format, OF valid db1,
          of _ "demo_one ''n''" "demo_one ''o''" ?ev ?ev])
      (simp_all add: demo_summary_def truncate_minute_def)
  with db1 show ?thesis by blast
qed

text \<open>The health reports of one call share an identifier as well: a call that evicts batches twice, as recording more than one
  part, queues two reports with the node and time of the call; the server keeps the first.\<close>

theorem health_reports_collide:
  assumes "Validate (health_batch sha node t evs2) = None" "InsertBatch (reliable env) db (health_batch sha node t evs1) = (db1, Inr True)"
  shows "\<exists>db2. InsertBatch (reliable env) db1 (health_batch sha node t evs2) = (db2, Inr False) \<and> tables db2 = tables db1"
  using InsertBatch_answered [OF assms(2)] by (intro InsertBatch_reliable(1) [OF assms(1)]) (simp add: health_batch_def)

end
