(* ===== verification/Attribution.thy ===== *)
theory Attribution
  imports Model "HOL-Library.List_Lexorder" "HOL-Library.Char_ord" "HOL-Library.Multiset"
begin

text \<open>
  The attribution engine of the server, \<^verbatim>\<open>internal/server/attribution/engine.go\<close>: which name a connection is
  shown under, given the evidence that was valid when it was observed, and which direction it has. Go's
  \<^verbatim>\<open>sort.Slice\<close> is a parameter: it promises a permutation that is sorted, and is not stable;
  \<open>decision_exact\<close> shows that the decision does not depend on the choice it leaves. The prefixes treated as local are those of
  \<^verbatim>\<open>internal/server/store/event.go\<close>.
\<close>

subsection \<open>Address predicates and prefixes\<close>

text \<open>What the engine uses of \<^verbatim>\<open>net/netip\<close>. The loopback and link-local tests look through IPv4-mapped
  addresses, containment in a prefix does not.\<close>

definition Is4In6 :: "bytes \<Rightarrow> bool" where
  "Is4In6 bs \<longleftrightarrow> length bs = 16 \<and> take 12 bs = replicate 10 0 @ [255, 255]"

fun unmapped :: "addr \<Rightarrow> addr" where
  "unmapped (Addr16 bs) = (if Is4In6 bs then Addr4 (drop 12 bs) else Addr16 bs)"
| "unmapped (AddrZone bs zone) = (if Is4In6 bs then Addr4 (drop 12 bs) else AddrZone bs zone)"
| "unmapped a = a"

definition IsLoopback :: "addr \<Rightarrow> bool" where
  "IsLoopback a =
     (case unmapped a of
        Addr4 bs \<Rightarrow> bs ! 0 = 127
      | Addr16 bs \<Rightarrow> bs = replicate 15 0 @ [1]
      | AddrZone bs zone \<Rightarrow> bs = replicate 15 0 @ [1]
      | NoAddr \<Rightarrow> False)"

definition IsLinkLocalUnicast :: "addr \<Rightarrow> bool" where
  "IsLinkLocalUnicast a =
     (case unmapped a of
        Addr4 bs \<Rightarrow> bs ! 0 = 169 \<and> bs ! 1 = 254
      | Addr16 bs \<Rightarrow> bs ! 0 = 0xfe \<and> unat (bs ! 1) div 64 = 2
      | AddrZone bs zone \<Rightarrow> bs ! 0 = 0xfe \<and> unat (bs ! 1) div 64 = 2
      | NoAddr \<Rightarrow> False)"

record netip_Prefix =
  prefix_Addr :: addr
  prefix_Bits :: nat

text \<open>The number of an address, most significant byte first; two numbers agree on the first bits of a prefix
  if they have the same quotient.\<close>

definition be_number :: "bytes \<Rightarrow> nat" where
  "be_number bs = foldl (\<lambda>n b. 256 * n + unat b) 0 bs"

fun Contains :: "netip_Prefix \<Rightarrow> addr \<Rightarrow> bool" where
  "Contains p (Addr4 bs) =
     (case prefix_Addr p of Addr4 ps \<Rightarrow> be_number bs div 2 ^ (32 - prefix_Bits p) = be_number ps div 2 ^ (32 - prefix_Bits p)
      | _ \<Rightarrow> False)"
| "Contains p (Addr16 bs) =
     (case prefix_Addr p of Addr16 ps \<Rightarrow> be_number bs div 2 ^ (128 - prefix_Bits p) = be_number ps div 2 ^ (128 - prefix_Bits p)
      | _ \<Rightarrow> False)"
| "Contains p _ = False"

definition defaultLocalPrefixes :: "netip_Prefix list" where
  "defaultLocalPrefixes =
     [\<lparr>prefix_Addr = Addr4 [10, 0, 0, 0], prefix_Bits = 8\<rparr>,
      \<lparr>prefix_Addr = Addr4 [172, 16, 0, 0], prefix_Bits = 12\<rparr>,
      \<lparr>prefix_Addr = Addr4 [192, 168, 0, 0], prefix_Bits = 16\<rparr>,
      \<lparr>prefix_Addr = Addr16 (0xfc # replicate 15 0), prefix_Bits = 7\<rparr>]"

subsection \<open>Which name\<close>

record Decision =
  DisplayName :: string
  Confidence :: string
  EvidenceSource :: string
  EvidenceObservedAt :: "go_time option"

definition evidenceStrength :: "string \<Rightarrow> nat" where
  "evidenceStrength source = (if source = ''tls_sni'' then 2 else if source = ''dns'' then 1 else 0)"

text \<open>The comparison handed to the sort: stronger evidence first, then the later, then by name.\<close>

definition evidence_less :: "NameEvidence \<Rightarrow> NameEvidence \<Rightarrow> bool" where
  "evidence_less a b =
     (let l = evidenceStrength (ne_Source a); r = evidenceStrength (ne_Source b) in
      if l \<noteq> r then l > r
      else if ne_ValidFrom a \<noteq> ne_ValidFrom b then ne_ValidFrom a > ne_ValidFrom b
      else ne_Name a < ne_Name b)"

definition applies :: "ConnectionDelta \<Rightarrow> go_time \<Rightarrow> NameEvidence \<Rightarrow> bool" where
  "applies connection observedAt item \<longleftrightarrow> ne_IP item = ep_IP (cd_Remote connection) \<and>
     \<not> observedAt < ne_ValidFrom item \<and> observedAt < ne_ValidUntil item"

definition DecideAt :: "((NameEvidence \<Rightarrow> NameEvidence \<Rightarrow> bool) \<Rightarrow> NameEvidence list \<Rightarrow> NameEvidence list) \<Rightarrow>
    ConnectionDelta \<Rightarrow> NameEvidence list \<Rightarrow> go_time \<Rightarrow> Decision" where
  "DecideAt sort_slice connection evidence observedAt =
     (let remote = cd_Remote connection in
      if ep_Domain remote \<noteq> [] \<and> ep_Confidence remote = ConfidenceConfirmed then
        \<lparr>DisplayName = ep_Domain remote, Confidence = ConfidenceConfirmed, EvidenceSource = ''connection'',
         EvidenceObservedAt = None\<rparr>
      else
        (case sort_slice evidence_less (filter (applies connection observedAt) evidence) of
           [] \<Rightarrow> \<lparr>DisplayName = ep_IP remote, Confidence = ConfidenceIPOnly, EvidenceSource = [], EvidenceObservedAt = None\<rparr>
         | chosen # _ \<Rightarrow>
             \<lparr>DisplayName = ne_Name chosen,
              Confidence = (if ne_Source chosen = ''tls_sni'' then ConfidenceConfirmed else ConfidenceInferred),
              EvidenceSource = ne_Source chosen, EvidenceObservedAt = Some (ne_ValidFrom chosen)\<rparr>))"

subsection \<open>Which direction\<close>

definition isLocal :: "addr \<Rightarrow> netip_Prefix list \<Rightarrow> bool" where
  "isLocal address ps \<longleftrightarrow> IsLoopback address \<or> IsLinkLocalUnicast address \<or> list_ex (\<lambda>p. Contains p address) ps"

definition ClassifyDirection :: "ConnectionDelta \<Rightarrow> netip_Prefix list \<Rightarrow> string" where
  "ClassifyDirection connection localPrefixes =
     (case (ParseAddr (ep_IP (cd_Local connection)), ParseAddr (ep_IP (cd_Remote connection))) of
        (Some localAddress, Some remoteAddress) \<Rightarrow>
          (let localIsLocal = isLocal localAddress localPrefixes; remoteIsLocal = isLocal remoteAddress localPrefixes in
           if localIsLocal \<and> remoteIsLocal then
             (if own_Kind (cd_Owner connection) = OwnerContainer then DirectionContainer else DirectionInternal)
           else if localIsLocal \<and> \<not> remoteIsLocal then
             (if ep_Port (cd_Local connection) \<le> 32767 \<and> ep_Port (cd_Remote connection) > 32767
              then DirectionInbound else DirectionOutbound)
           else if \<not> localIsLocal \<and> remoteIsLocal then DirectionInbound
           else DirectionOutbound)
      | _ \<Rightarrow> DirectionInternal)"

subsection \<open>The decision does not depend on the sort\<close>

text \<open>The contract of \<^verbatim>\<open>sort.Slice\<close>: a permutation in which no later element is less than an earlier one.\<close>

definition sorts :: "(('a \<Rightarrow> 'a \<Rightarrow> bool) \<Rightarrow> 'a list \<Rightarrow> 'a list) \<Rightarrow> ('a \<Rightarrow> 'a \<Rightarrow> bool) \<Rightarrow> bool" where
  "sorts f lt \<longleftrightarrow> (\<forall>xs. mset (f lt xs) = mset xs \<and> sorted_wrt (\<lambda>a b. \<not> lt b a) (f lt xs))"

text \<open>Two pieces of evidence neither of which is less than the other show the same name with the same confidence
  from the same time on.\<close>

definition same_rank :: "NameEvidence \<Rightarrow> NameEvidence \<Rightarrow> bool" where
  "same_rank a b \<longleftrightarrow> ne_Name a = ne_Name b \<and> ne_ValidFrom a = ne_ValidFrom b \<and>
     evidenceStrength (ne_Source a) = evidenceStrength (ne_Source b)"

lemma incomparable_same_rank: "\<not> evidence_less a b \<Longrightarrow> \<not> evidence_less b a \<Longrightarrow> same_rank a b"
  by (auto simp: evidence_less_def same_rank_def Let_def split: if_splits)

lemma evidence_less_asym: "evidence_less a b \<Longrightarrow> \<not> evidence_less b a"
  by (auto simp: evidence_less_def Let_def split: if_splits)

lemma same_rank_sni: "same_rank a b \<Longrightarrow> ne_Source a = ''tls_sni'' \<longleftrightarrow> ne_Source b = ''tls_sni''"
  by (auto simp: same_rank_def evidenceStrength_def split: if_splits)

lemma sorted_head_best:
  assumes "sorts f evidence_less" "f evidence_less xs = chosen # rest"
  shows "chosen \<in> set xs \<and> (\<forall>e \<in> set xs. \<not> evidence_less e chosen)"
proof -
  have "set xs = set (chosen # rest)" "sorted_wrt (\<lambda>a b. \<not> evidence_less b a) (chosen # rest)"
    using assms unfolding sorts_def by (metis set_mset_mset)+
  then show ?thesis
    using evidence_less_asym by auto
qed

lemma sorted_empty: "sorts f lt \<Longrightarrow> f lt xs = [] \<longleftrightarrow> xs = []"
  unfolding sorts_def by (metis mset_zero_iff)

text \<open>An insertion sort keeps the contract, so that it can be met.\<close>

fun insert_by :: "('a \<Rightarrow> 'a \<Rightarrow> bool) \<Rightarrow> 'a \<Rightarrow> 'a list \<Rightarrow> 'a list" where
  "insert_by lt x [] = [x]"
| "insert_by lt x (y # ys) = (if lt y x then y # insert_by lt x ys else x # y # ys)"

definition insertion_sort :: "('a \<Rightarrow> 'a \<Rightarrow> bool) \<Rightarrow> 'a list \<Rightarrow> 'a list" where
  "insertion_sort lt xs = foldr (insert_by lt) xs []"

lemma mset_insert_by: "mset (insert_by lt x ys) = add_mset x (mset ys)"
  by (induction ys) auto

lemma set_insert_by: "set (insert_by lt x ys) = insert x (set ys)"
  using arg_cong [OF mset_insert_by, of set_mset] by simp

lemma insert_by_sorted:
  "sorted_wrt (\<lambda>a b. \<not> evidence_less b a) ys \<Longrightarrow> sorted_wrt (\<lambda>a b. \<not> evidence_less b a) (insert_by evidence_less x ys)"
proof (induction ys)
  case (Cons y ys)
  show ?case
  proof (cases "evidence_less y x")
    case True
    with Cons evidence_less_asym show ?thesis by (auto simp: set_insert_by)
  next
    case False
    have trans: "\<not> evidence_less z x" if "\<not> evidence_less z y" for z
      using that False by (auto simp: evidence_less_def Let_def split: if_splits)
    with False Cons.prems show ?thesis by auto
  qed
qed simp

lemma insertion_sorts: "sorts insertion_sort evidence_less"
  unfolding sorts_def
proof (intro allI conjI)
  fix xs
  show "mset (insertion_sort evidence_less xs) = mset xs"
    by (induction xs) (simp_all add: insertion_sort_def mset_insert_by)
  show "sorted_wrt (\<lambda>a b. \<not> evidence_less b a) (insertion_sort evidence_less xs)"
    by (induction xs) (simp_all add: insertion_sort_def insert_by_sorted)
qed

subsection \<open>Local addresses\<close>

text \<open>The dotted bytes of an IPv4 address that lie in the private ranges, and the IPv4-mapped form of an address.\<close>

definition private4 :: "byte \<Rightarrow> byte \<Rightarrow> byte \<Rightarrow> byte \<Rightarrow> bool" where
  "private4 a b c d \<longleftrightarrow> a = 10 \<or> (a = 172 \<and> unat b div 16 = 1) \<or> (a = 192 \<and> b = 168)"

definition mapped :: "bytes \<Rightarrow> addr" where
  "mapped bs = Addr16 (replicate 10 0 @ [255, 255] @ bs)"

lemma be_number4: "be_number [a, b, c, d] = 16777216 * unat a + 65536 * unat b + 256 * unat c + unat d"
  by (simp add: be_number_def)

lemma byte_bound: "unat (b :: byte) < 256"
  using unsigned_less [of b, where ?'a = nat] by simp

lemma second_nibble: "q < 16 \<Longrightarrow> 16 * a + q = 2753 \<longleftrightarrow> a = 172 \<and> q = 1" for a q :: nat
  by presburger

lemma Contains_private4:
  "list_ex (\<lambda>p. Contains p (Addr4 [a, b, c, d])) defaultLocalPrefixes \<longleftrightarrow> private4 a b c d"
proof -
  have bounds: "unat a < 256" "unat b < 256" "unat c < 256" "unat d < 256" by (simp_all add: byte_bound)
  have "be_number [a, b, c, d] div 16777216 = unat a"
    using bounds by (simp add: be_number4)
  moreover have "be_number [a, b, c, d] div 1048576 = 16 * unat a + unat b div 16"
    using bounds by (simp add: be_number4)
  moreover have "be_number [a, b, c, d] div 65536 = 256 * unat a + unat b"
    using bounds by (simp add: be_number4)
  moreover have "16 * unat a + unat b div 16 = 2753 \<longleftrightarrow> unat a = 172 \<and> unat b div 16 = 1"
    using bounds(2) by (intro second_nibble) simp
  moreover have "256 * unat a + unat b = 49320 \<longleftrightarrow> unat a = 192 \<and> unat b = 168"
    using bounds(2) by presburger
  ultimately show ?thesis
    by (simp add: defaultLocalPrefixes_def private4_def be_number4 word_unat_eq_iff)
qed

lemma be_number_append: "be_number (xs @ ys) = be_number xs * 256 ^ length ys + be_number ys"
  by (induction ys rule: rev_induct) (simp_all add: be_number_def algebra_simps)

lemma be_number_zeros: "be_number (replicate n 0) = 0"
  by (induction n) (simp_all add: be_number_def)

lemma mapped_not_contained:
  assumes "length bs = 4"
  shows "\<not> list_ex (\<lambda>p. Contains p (mapped bs)) defaultLocalPrefixes"
proof -
  from assms obtain a b c d where "bs = [a, b, c, d]" by (auto simp: length_Suc_conv eval_nat_numeral)
  then have "be_number bs < 2 ^ 32"
    using byte_bound [of a] byte_bound [of b] byte_bound [of c] byte_bound [of d] by (simp add: be_number4)
  moreover have "be_number (replicate 10 0 @ [255, 255] @ bs) = 65535 * 2 ^ 32 + be_number bs"
    using assms be_number_append [of "replicate 10 0" "[255, 255] @ bs"] be_number_append [of "[255, 255]" bs]
    by (simp add: be_number_zeros) (simp add: be_number_def)
  moreover have "be_number (0xfc # replicate 15 0) = 0xfc * 256 ^ 15"
    using be_number_append [of "[0xfc]" "replicate 15 0"] by (simp add: be_number_zeros) (simp add: be_number_def)
  ultimately show ?thesis
    by (simp add: mapped_def defaultLocalPrefixes_def)
qed

subsection \<open>Properties\<close>

definition demo_remote :: Endpoint where
  "demo_remote = \<lparr>ep_IP = ''1.2.3.4'', ep_Port = 443, ep_Domain = [], ep_Confidence = ConfidenceIPOnly\<rparr>"

definition demo_connection :: ConnectionDelta where
  "demo_connection = \<lparr>cd_Protocol = ''tcp'', cd_Local = demo_remote, cd_Remote = demo_remote,
     cd_Owner = \<lparr>own_Kind = OwnerHost, own_PID = 0, own_Process = [], own_ContainerID = [], own_ContainerName = []\<rparr>,
     cd_BytesSent = 1, cd_BytesReceived = 1, cd_State = []\<rparr>"

definition demo_evidence :: "string \<Rightarrow> string \<Rightarrow> go_time \<Rightarrow> NameEvidence" where
  "demo_evidence name source t = \<lparr>ne_IP = ''1.2.3.4'', ne_Name = name, ne_Source = source, ne_ValidFrom = t, ne_ValidUntil = 100\<rparr>"

text \<open>Which of two pieces of evidence is to be preferred: a TLS server name to anything else, a DNS answer to what is neither;
  of the same kind, the one seen later; at the same time, the name that comes first in the alphabet.\<close>

definition preferred :: "NameEvidence \<Rightarrow> NameEvidence \<Rightarrow> bool" where
  "preferred a b \<longleftrightarrow>
     ne_Source a = ''tls_sni'' \<and> ne_Source b \<noteq> ''tls_sni'' \<or>
     ne_Source a = ''dns'' \<and> ne_Source b \<noteq> ''tls_sni'' \<and> ne_Source b \<noteq> ''dns'' \<or>
     (ne_Source a = ''tls_sni'' \<longleftrightarrow> ne_Source b = ''tls_sni'') \<and> (ne_Source a = ''dns'' \<longleftrightarrow> ne_Source b = ''dns'') \<and>
       (ne_ValidFrom b < ne_ValidFrom a \<or> ne_ValidFrom a = ne_ValidFrom b \<and> ne_Name a < ne_Name b)"

definition in_force :: "ConnectionDelta \<Rightarrow> go_time \<Rightarrow> NameEvidence list \<Rightarrow> NameEvidence list" where
  "in_force connection t evidence =
     [e \<leftarrow> evidence. ne_IP e = ep_IP (cd_Remote connection) \<and> ne_ValidFrom e \<le> t \<and> t < ne_ValidUntil e]"

lemma evidence_less_preferred: "evidence_less a b = preferred a b"
  by (auto simp: evidence_less_def preferred_def evidenceStrength_def Let_def split: if_splits)

lemma applies_in_force: "filter (applies connection t) evidence = in_force connection t evidence"
  by (auto simp: in_force_def applies_def not_less intro!: filter_cong)

lemma best_decision:
  assumes "sorts f evidence_less" "sorts g evidence_less"
  shows "let valid = filter (applies connection t) evidence; remote = cd_Remote connection;
      result = DecideAt f connection evidence t; other = DecideAt g connection evidence t in
    if ep_Domain remote \<noteq> [] \<and> ep_Confidence remote = ConfidenceConfirmed
    then result = \<lparr>DisplayName = ep_Domain remote, Confidence = ConfidenceConfirmed, EvidenceSource = ''connection'',
      EvidenceObservedAt = None\<rparr>
    else if valid = []
    then result = \<lparr>DisplayName = ep_IP remote, Confidence = ConfidenceIPOnly, EvidenceSource = [], EvidenceObservedAt = None\<rparr>
    else (\<exists>e \<in> set valid. (\<forall>e' \<in> set valid. \<not> evidence_less e' e) \<and>
        result = \<lparr>DisplayName = ne_Name e, Confidence = if ne_Source e = ''tls_sni'' then ConfidenceConfirmed else ConfidenceInferred,
          EvidenceSource = ne_Source e, EvidenceObservedAt = Some (ne_ValidFrom e)\<rparr>) \<and>
      DisplayName result = DisplayName other \<and> Confidence result = Confidence other \<and>
      EvidenceObservedAt result = EvidenceObservedAt other"
proof (cases "ep_Domain (cd_Remote connection) \<noteq> [] \<and> ep_Confidence (cd_Remote connection) = ConfidenceConfirmed")
  case True
  then show ?thesis by (simp add: DecideAt_def)
next
  case unconfirmed: False
  let ?valid = "filter (applies connection t) evidence"
  show ?thesis
  proof (cases "?valid = []")
    case True
    then show ?thesis
      using unconfirmed sorted_empty [OF assms(1), of "[]"] by (simp add: DecideAt_def Let_def)
  next
    case False
    obtain e es e' es' where fg: "f evidence_less ?valid = e # es" "g evidence_less ?valid = e' # es'"
      using False sorted_empty [OF assms(1)] sorted_empty [OF assms(2)] by (meson neq_Nil_conv)
    note best = sorted_head_best [OF assms(1) fg(1)] sorted_head_best [OF assms(2) fg(2)]
    then have rank: "same_rank e e'"
      by (intro incomparable_same_rank) auto
    have decided: "DecideAt h connection evidence t =
        \<lparr>DisplayName = ne_Name c, Confidence = if ne_Source c = ''tls_sni'' then ConfidenceConfirmed else ConfidenceInferred,
         EvidenceSource = ne_Source c, EvidenceObservedAt = Some (ne_ValidFrom c)\<rparr>"
      if "h evidence_less ?valid = c # cs" for h c cs
      using unconfirmed that by (auto simp: DecideAt_def)
    note chosen = decided [of f e es, OF fg(1)] decided [of g e' es', OF fg(2)]
    show ?thesis
      using False unconfirmed best(1) rank same_rank_sni [OF rank] chosen
      by (auto simp: same_rank_def Let_def simp del: filter_False)
  qed
qed

text \<open>C24. The name shown for a connection is the best the evidence gives, whatever sorting routine is used: a name
  the agent confirmed wins; otherwise, if evidence for the remote address is valid at the time of observation, the
  name, the confidence and the time come from a piece of it to which no other valid piece is preferred (a TLS server name is
  preferred to a DNS answer and both to other sources, of the same kind the later one, at the same time the smaller
  name), confirmed exactly for TLS; with no valid evidence the address is shown. Name, confidence and time are the
  same for any two routines that sort by the comparison of the code.\<close>

theorem decision_exact:
  assumes "sorts f evidence_less" "sorts g evidence_less"
  shows "let valid = in_force connection t evidence; remote = cd_Remote connection;
      result = DecideAt f connection evidence t; other = DecideAt g connection evidence t in
    if ep_Domain remote \<noteq> [] \<and> ep_Confidence remote = ConfidenceConfirmed
    then result = \<lparr>DisplayName = ep_Domain remote, Confidence = ConfidenceConfirmed, EvidenceSource = ''connection'',
      EvidenceObservedAt = None\<rparr>
    else if valid = []
    then result = \<lparr>DisplayName = ep_IP remote, Confidence = ConfidenceIPOnly, EvidenceSource = [], EvidenceObservedAt = None\<rparr>
    else (\<exists>e \<in> set valid. (\<forall>e' \<in> set valid. \<not> preferred e' e) \<and>
        result = \<lparr>DisplayName = ne_Name e, Confidence = if ne_Source e = ''tls_sni'' then ConfidenceConfirmed else ConfidenceInferred,
          EvidenceSource = ne_Source e, EvidenceObservedAt = Some (ne_ValidFrom e)\<rparr>) \<and>
      DisplayName result = DisplayName other \<and> Confidence result = Confidence other \<and>
      EvidenceObservedAt result = EvidenceObservedAt other"
  using best_decision [OF assms] by (simp only: applies_in_force evidence_less_preferred)

theorem decision_exact_witness:
  "DisplayName (DecideAt insertion_sort demo_connection
     [demo_evidence ''a.example'' ''dns'' 50, demo_evidence ''b.example'' ''tls_sni'' 10, demo_evidence ''c.example'' ''tls_sni'' 20] 60) = ''c.example''"
  using decision_exact [OF insertion_sorts insertion_sorts, of demo_connection 60
    "[demo_evidence ''a.example'' ''dns'' 50, demo_evidence ''b.example'' ''tls_sni'' 10, demo_evidence ''c.example'' ''tls_sni'' 20]"]
  by (auto simp: demo_connection_def demo_remote_def demo_evidence_def in_force_def preferred_def Let_def)

text \<open>IPv4 traffic over a dual-stack socket is misclassified: the agent reports such addresses in IPv4-mapped form,
  which no local prefix contains. Two private IPv4 addresses are local, and a connection between them is
  internal; in mapped form neither counts as local and the same connection is classified as outbound.\<close>

theorem mapped_private_outbound:
  assumes "private4 a b c d" "private4 a' b' c' d'" "own_Kind (cd_Owner connection) \<noteq> OwnerContainer"
  shows "ClassifyDirection (connection\<lparr>cd_Local := (cd_Local connection)\<lparr>ep_IP := addr_string (Addr4 [a, b, c, d])\<rparr>,
        cd_Remote := (cd_Remote connection)\<lparr>ep_IP := addr_string (Addr4 [a', b', c', d'])\<rparr>\<rparr>) defaultLocalPrefixes
      = DirectionInternal \<and>
    ClassifyDirection (connection\<lparr>cd_Local := (cd_Local connection)\<lparr>ep_IP := addr_string (mapped [a, b, c, d])\<rparr>,
        cd_Remote := (cd_Remote connection)\<lparr>ep_IP := addr_string (mapped [a', b', c', d'])\<rparr>\<rparr>) defaultLocalPrefixes
      = DirectionOutbound"
proof -
  have plain: "ParseAddr (addr_string (Addr4 [p, q, r, s])) = Some (Addr4 [p, q, r, s])" for p q r s
    by (rule parse_addr_string) simp
  have mapped_parse: "ParseAddr (addr_string (mapped [p, q, r, s])) = Some (mapped [p, q, r, s])" for p q r s
    unfolding mapped_def by (rule parse_addr_string) simp
  have loop: "\<not> isLocal (mapped [p, q, r, s]) defaultLocalPrefixes" if "private4 p q r s" for p q r s
    using that mapped_not_contained [of "[p, q, r, s]"]
    by (auto simp: isLocal_def IsLoopback_def IsLinkLocalUnicast_def mapped_def Is4In6_def private4_def)
  have priv: "isLocal (Addr4 [p, q, r, s]) defaultLocalPrefixes" if "private4 p q r s" for p q r s
    using that by (simp add: isLocal_def Contains_private4 del: Contains.simps)
  show ?thesis
    using assms loop priv by (simp add: ClassifyDirection_def plain mapped_parse del: addr_string.simps)
qed

theorem mapped_private_outbound_witness:
  "ClassifyDirection (demo_connection\<lparr>cd_Local := demo_remote\<lparr>ep_IP := addr_string (mapped [10, 0, 0, 1])\<rparr>,
     cd_Remote := demo_remote\<lparr>ep_IP := addr_string (mapped [10, 0, 0, 2])\<rparr>\<rparr>) defaultLocalPrefixes = DirectionOutbound"
  using mapped_private_outbound [of 10 0 0 1 10 0 0 2 demo_connection]
  by (simp add: private4_def demo_connection_def owner_kind_defs)

end
