(* ===== verification/Flow_Rows.thy ===== *)
theory Flow_Rows
  imports Ingest Attribution Pg_Text "HOL-Library.Code_Target_Nat"
begin

text \<open>
  The rest of \<^verbatim>\<open>internal/server/store/event.go\<close>: the rows of owners, names, connections and proxy requests and the totals kept for each
  minute. Together with \<open>Ingest\<close>, whose transaction takes them as an argument, this is all of the storage of batches.

  A table is a list of rows or a map from its primary key; an \<open>inet\<close> column holds an address. Parameters are what PostgreSQL makes of the
  text of an address, in both directions, which of several equal rows comes first, the precision of its times, the database of
  networks, the sort of the attribution, and for every statement whether it fails for a reason of its own.
\<close>

subsection \<open>The tables\<close>

record owner_row =
  ow_node :: string
  ow_id :: string
  ow_kind :: string
  ow_name :: string
  ow_pid :: "int option"
  ow_container :: "string option"
  ow_cgroup :: "int option"
  ow_addresses :: "string list"
  ow_ports :: "u16 list"
  ow_running :: bool
  ow_first :: go_time
  ow_last :: go_time

record evidence_row =
  er_event :: string
  er_node :: string
  er_at :: go_time
  er_ip :: addr
  er_name :: string
  er_source :: string
  er_from :: go_time
  er_until :: go_time

record NetworkInfo =
  ni_CountryCode :: string
  ni_CountryName :: string
  ni_ASN :: u32
  ni_Organization :: string
  ni_Classification :: string

record connection_row =
  cr_event :: string
  cr_node :: string
  cr_at :: go_time
  cr_direction :: string
  cr_protocol :: string
  cr_local :: addr
  cr_lport :: u16
  cr_remote :: addr
  cr_rport :: u16
  cr_owner :: string
  cr_kind :: string
  cr_name :: string
  cr_decision :: Decision
  cr_sent :: int64
  cr_received :: int64
  cr_state :: string
  cr_network :: NetworkInfo

record proxy_row =
  px_event :: string
  px_node :: string
  px_at :: go_time
  px_request :: ProxyRequest
  px_source :: addr
  px_owner :: string

text \<open>The minutes: bytes, connections and requests for each key, and the columns that are not part of it.\<close>

type_synonym counts = "int \<times> int \<times> int"
type_synonym ('k, 'l) minutes = "'k \<rightharpoonup> 'l \<times> counts"
type_synonym owner_key = "string \<times> go_time \<times> string \<times> string"
type_synonym domain_key = "string \<times> go_time \<times> string \<times> string \<times> string"
type_synonym status_key = "string \<times> go_time \<times> string \<times> int"

record flow_key =
  fk_node :: string
  fk_bucket :: go_time
  fk_direction :: string
  fk_owner :: string
  fk_source :: string
  fk_destination :: string
  fk_domain :: string
  fk_confidence :: string
  fk_protocol :: string
  fk_port :: int

record flow_tables =
  owners :: "owner_row list"
  domain_evidence :: "evidence_row list"
  connection_details :: "connection_row list"
  proxy_request_details :: "proxy_row list"
  owner_minute :: "(owner_key, string \<times> string) minutes"
  domain_minute :: "(domain_key, unit) minutes"
  flow_minute :: "(flow_key, string \<times> NetworkInfo) minutes"
  proxy_status_minute :: "(status_key, unit) minutes"

datatype row_op =
    UpsertOwner | InsertEvidence | EnsureOwner | QueryEvidence | InsertConnection | AddOwnerMinute | AddDomainMinute | AddFlowMinute
  | ResolveByName | ResolveByCompose | ResolveByAddress | ResolveProcess | InsertProxy | AddStatusMinute | LoadOwner

datatype row_error =
    RowFailed row_op string
  | RowRefused row_op string
  | RowRange string
  | RowPayload string
  | OwnerNotFound string

record rows_env =
  re_fails :: "row_op \<Rightarrow> string \<Rightarrow> bool"
  re_time :: "go_time \<Rightarrow> go_time"
  re_inet :: "string \<Rightarrow> addr option"
  re_host :: "addr \<Rightarrow> string"
  re_latest :: "owner_row list \<Rightarrow> owner_row option"
  re_nearest :: "go_time \<Rightarrow> connection_row list \<Rightarrow> connection_row option"
  re_sort :: "(NameEvidence \<Rightarrow> NameEvidence \<Rightarrow> bool) \<Rightarrow> NameEvidence list \<Rightarrow> NameEvidence list"
  re_geo :: "(addr \<Rightarrow> NetworkInfo) option"

text \<open>A statement: refused when \<open>ok\<close>, the checks and types of its columns, does not hold.\<close>

definition sql :: "rows_env \<Rightarrow> row_op \<Rightarrow> string \<Rightarrow> bool \<Rightarrow> 'a \<Rightarrow> row_error + 'a" where
  "sql env op i ok x = (if re_fails env op i then Inl (RowFailed op i) else if ok then Inr x else Inl (RowRefused op i))"

fun add_counts :: "counts \<Rightarrow> counts \<Rightarrow> counts" where
  "add_counts (a, b, c) (a', b', c') = (a + a', b + b', c + c')"

fun in_range :: "counts \<Rightarrow> bool" where
  "in_range (a, b, c) \<longleftrightarrow> a \<le> bigint_max \<and> b \<le> bigint_max \<and> c \<le> bigint_max"

text \<open>\<^verbatim>\<open>INSERT ... ON CONFLICT (k) DO UPDATE SET bytes = bytes + EXCLUDED.bytes, ...\<close>.\<close>

definition add_minute :: "string \<Rightarrow> 'k \<Rightarrow> 'l \<Rightarrow> counts \<Rightarrow> ('k, 'l) minutes \<Rightarrow> row_error + ('k, 'l) minutes" where
  "add_minute i k label c m =
     (case m k of
        None \<Rightarrow> Inr (m(k \<mapsto> (label, c)))
      | Some (l, c0) \<Rightarrow> if in_range (add_counts c0 c) then Inr (m(k \<mapsto> (l, add_counts c0 c))) else Inl (RowRange i))"

subsection \<open>Owners and names\<close>

definition nullablePID :: "OwnerRef \<Rightarrow> int option" where
  "nullablePID owner = (if own_PID owner \<le> 0 then None else Some (own_PID owner))"

definition nullableString :: "string \<Rightarrow> string option" where
  "nullableString s = (if s = [] then None else Some s)"

definition nullableUint64 :: "u64 \<Rightarrow> int option" where
  "nullableUint64 v = (if v = 0 \<or> uint v > bigint_max then None else Some (uint v))"

definition ownerIdentity :: "OwnerRef \<Rightarrow> string \<times> string" where
  "ownerIdentity owner =
     (if own_Kind owner = OwnerContainer then
        (''container:'' @ own_ContainerID owner, if own_ContainerName owner = [] then own_ContainerID owner else own_ContainerName owner)
      else if own_Kind owner = OwnerProcess then
        (let name = (if own_Process owner = [] then ''process'' else own_Process owner) in
         (''process:'' @ format_int (own_PID owner) @ '':'' @ name, name))
      else (''host'', ''Host''))"

text \<open>The checks of a row of \<^verbatim>\<open>owners\<close>: the kind, the range of \<^verbatim>\<open>integer\<close>, and texts.\<close>

definition owner_checks :: "owner_row \<Rightarrow> bool" where
  "owner_checks row \<longleftrightarrow> ow_kind row \<in> {OwnerHost, OwnerProcess, OwnerContainer} \<and> (case ow_pid row of Some p \<Rightarrow> p < 2 ^ 31 | None \<Rightarrow> True) \<and>
     pg_string (ow_id row) \<and> pg_string (ow_name row) \<and> (case ow_container row of Some c \<Rightarrow> pg_string c | None \<Rightarrow> True) \<and>
     list_all pg_string (ow_addresses row)"

definition owner_is :: "string \<Rightarrow> string \<Rightarrow> owner_row \<Rightarrow> bool" where
  "owner_is node i row \<longleftrightarrow> ow_node row = node \<and> ow_id row = i"

definition upsert_owner :: "owner_row \<Rightarrow> (owner_row \<Rightarrow> owner_row) \<Rightarrow> owner_row list \<Rightarrow> owner_row list" where
  "upsert_owner new f os =
     (if list_ex (owner_is (ow_node new) (ow_id new)) os then map (\<lambda>row. if owner_is (ow_node new) (ow_id new) row then f row else row) os
      else os @ [new])"

definition insertOwnerInventory :: "rows_env \<Rightarrow> string \<Rightarrow> Event \<Rightarrow> flow_tables \<Rightarrow> row_error + flow_tables" where
  "insertOwnerInventory env node ev T =
     (case ev_OwnerInventory ev of
        None \<Rightarrow> Inl (RowPayload (ev_ID ev))
      | Some inventory \<Rightarrow>
          (let owner = oi_Owner inventory; t = re_time env (ev_ObservedAt ev);
               new = \<lparr>ow_node = node, ow_id = fst (ownerIdentity owner), ow_kind = own_Kind owner, ow_name = snd (ownerIdentity owner),
                 ow_pid = nullablePID owner, ow_container = nullableString (own_ContainerID owner), ow_cgroup = nullableUint64 (oi_CgroupID inventory),
                 ow_addresses = oi_Addresses inventory, ow_ports = oi_Ports inventory, ow_running = oi_Running inventory, ow_first = t, ow_last = t\<rparr> in
           sql env UpsertOwner (ev_ID ev) (owner_checks new)
             (T\<lparr>owners := upsert_owner new (\<lambda>row. row\<lparr>ow_name := ow_name new, ow_pid := ow_pid new, ow_container := ow_container new,
                ow_cgroup := ow_cgroup new, ow_addresses := ow_addresses new, ow_ports := ow_ports new, ow_running := ow_running new,
                ow_last := max (ow_last row) t\<rparr>) (owners T)\<rparr>)))"

definition ensureObservedOwner :: "rows_env \<Rightarrow> string \<Rightarrow> string \<Rightarrow> OwnerRef \<Rightarrow> go_time \<Rightarrow> flow_tables \<Rightarrow> row_error + flow_tables" where
  "ensureObservedOwner env i node owner observedAt T =
     (let t = re_time env observedAt;
          new = \<lparr>ow_node = node, ow_id = fst (ownerIdentity owner), ow_kind = own_Kind owner, ow_name = snd (ownerIdentity owner),
            ow_pid = nullablePID owner, ow_container = nullableString (own_ContainerID owner), ow_cgroup = None, ow_addresses = [], ow_ports = [],
            ow_running = True, ow_first = t, ow_last = t\<rparr> in
      sql env EnsureOwner i (owner_checks new)
        (T\<lparr>owners := upsert_owner new (\<lambda>row. row\<lparr>ow_name := ow_name new, ow_last := max (ow_last row) t\<rparr>) (owners T)\<rparr>))"

text \<open>\<^verbatim>\<open>UPDATE owners SET running=false WHERE node_id=$1 AND kind='container'\<close>.\<close>

definition stop_node :: "string \<Rightarrow> flow_tables \<Rightarrow> flow_tables" where
  "stop_node node T =
     T\<lparr>owners := map (\<lambda>row. if ow_node row = node \<and> ow_kind row = OwnerContainer then row\<lparr>ow_running := False\<rparr> else row) (owners T)\<rparr>"

definition insertNameEvidence :: "rows_env \<Rightarrow> string \<Rightarrow> Event \<Rightarrow> flow_tables \<Rightarrow> row_error + flow_tables" where
  "insertNameEvidence env node ev T =
     (case ev_NameEvidence ev of
        None \<Rightarrow> Inl (RowPayload (ev_ID ev))
      | Some e \<Rightarrow>
          (case re_inet env (ne_IP e) of
             None \<Rightarrow> Inl (RowRefused InsertEvidence (ev_ID ev))
           | Some ip \<Rightarrow>
               (let row = \<lparr>er_event = ev_ID ev, er_node = node, er_at = re_time env (ev_ObservedAt ev), er_ip = ip, er_name = ne_Name e,
                      er_source = ne_Source e, er_from = re_time env (ne_ValidFrom e), er_until = re_time env (ne_ValidUntil e)\<rparr> in
                sql env InsertEvidence (ev_ID ev)
                  (ne_Source e \<in> {''dns'', ''tls_sni''} \<and> er_from row < er_until row \<and> pg_string (ev_ID ev) \<and> pg_string (ne_Name e))
                  (if ev_ID ev \<in> er_event ` set (domain_evidence T) then T
                   else T\<lparr>domain_evidence := domain_evidence T @ [row]\<rparr>))))"

subsection \<open>Connections\<close>

text \<open>The names PostgreSQL has for an address at a time.\<close>

definition validEvidence :: "rows_env \<Rightarrow> string \<Rightarrow> string \<Rightarrow> string \<Rightarrow> go_time \<Rightarrow> flow_tables \<Rightarrow> row_error + NameEvidence list" where
  "validEvidence env i node ip observedAt T =
     (let t = re_time env observedAt in
      case re_inet env ip of
        None \<Rightarrow> Inl (RowRefused QueryEvidence i)
      | Some a \<Rightarrow> sql env QueryEvidence i True
          (map (\<lambda>row. \<lparr>ne_IP = re_host env (er_ip row), ne_Name = er_name row, ne_Source = er_source row,
                  ne_ValidFrom = er_from row, ne_ValidUntil = er_until row\<rparr>)
             (filter (\<lambda>row. er_node row = node \<and> er_ip row = a \<and> er_from row \<le> t \<and> t < er_until row) (domain_evidence T))))"

definition saturatingBytes :: "int64 \<Rightarrow> int64 \<Rightarrow> int64" where
  "saturatingBytes left right = (if MaxInt64 - left <s right then MaxInt64 else left + right)"

definition unknown_network :: NetworkInfo where
  "unknown_network = \<lparr>ni_CountryCode = [], ni_CountryName = [], ni_ASN = 0, ni_Organization = [], ni_Classification = ''unknown''\<rparr>"

definition networkInfo :: "(addr \<Rightarrow> NetworkInfo) option \<Rightarrow> string \<Rightarrow> NetworkInfo" where
  "networkInfo resolver rawAddress =
     (case (resolver, ParseAddr rawAddress) of (Some lookup, Some a) \<Rightarrow> lookup a | _ \<Rightarrow> unknown_network)"

definition network_texts :: "NetworkInfo \<Rightarrow> bool" where
  "network_texts n \<longleftrightarrow> pg_string (ni_CountryCode n) \<and> pg_string (ni_CountryName n) \<and> pg_string (ni_Organization n) \<and> pg_string (ni_Classification n)"

definition connection_checks :: "connection_row \<Rightarrow> bool" where
  "connection_checks row \<longleftrightarrow>
     direction_valid (cr_direction row) \<and> cr_lport row \<noteq> 0 \<and> cr_rport row \<noteq> 0 \<and> cr_kind row \<in> {OwnerHost, OwnerProcess, OwnerContainer} \<and>
     Confidence (cr_decision row) \<in> {ConfidenceConfirmed, ConfidenceInferred, ConfidenceIPOnly} \<and>
     0 \<le> sint (cr_sent row) \<and> 0 \<le> sint (cr_received row) \<and>
     list_all pg_string [cr_event row, cr_protocol row, cr_owner row, cr_name row, DisplayName (cr_decision row), EvidenceSource (cr_decision row), cr_state row] \<and>
     network_texts (cr_network row)"

definition detail_key :: "connection_row \<Rightarrow> string \<times> go_time" where
  "detail_key row = (cr_event row, cr_at row)"

definition connection_bytes :: "connection_row \<Rightarrow> int" where
  "connection_bytes row = sint (saturatingBytes (cr_sent row) (cr_received row))"

definition owner_bucket :: "connection_row \<Rightarrow> owner_key" where
  "owner_bucket row = (cr_node row, truncate_minute (cr_at row), cr_owner row, cr_direction row)"

definition domain_bucket :: "connection_row \<Rightarrow> domain_key" where
  "domain_bucket row = (cr_node row, truncate_minute (cr_at row), cr_direction row, DisplayName (cr_decision row), Confidence (cr_decision row))"

definition flow_bucket :: "string \<Rightarrow> string \<Rightarrow> connection_row \<Rightarrow> flow_key" where
  "flow_bucket source destination row =
     \<lparr>fk_node = cr_node row, fk_bucket = truncate_minute (cr_at row), fk_direction = cr_direction row, fk_owner = cr_owner row, fk_source = source,
      fk_destination = destination, fk_domain = DisplayName (cr_decision row), fk_confidence = Confidence (cr_decision row),
      fk_protocol = cr_protocol row, fk_port = uint (cr_rport row)\<rparr>"

text \<open>The row of an event, once its names are known.\<close>

definition connection_row_of :: "rows_env \<Rightarrow> string \<Rightarrow> Event \<Rightarrow> ConnectionDelta \<Rightarrow> addr \<Rightarrow> addr \<Rightarrow> NameEvidence list \<Rightarrow> connection_row" where
  "connection_row_of env node ev connection lip rip evidence =
     \<lparr>cr_event = ev_ID ev, cr_node = node, cr_at = re_time env (ev_ObservedAt ev), cr_direction = ClassifyDirection connection defaultLocalPrefixes,
      cr_protocol = cd_Protocol connection, cr_local = lip, cr_lport = ep_Port (cd_Local connection), cr_remote = rip,
      cr_rport = ep_Port (cd_Remote connection), cr_owner = fst (ownerIdentity (cd_Owner connection)), cr_kind = own_Kind (cd_Owner connection),
      cr_name = snd (ownerIdentity (cd_Owner connection)), cr_decision = DecideAt (re_sort env) connection evidence (ev_ObservedAt ev),
      cr_sent = cd_BytesSent connection, cr_received = cd_BytesReceived connection, cr_state = cd_State connection,
      cr_network = networkInfo (re_geo env) (ep_IP (cd_Remote connection))\<rparr>"

definition aggregate_connection :: "rows_env \<Rightarrow> ConnectionDelta \<Rightarrow> connection_row \<Rightarrow> flow_tables \<Rightarrow> row_error + flow_tables" where
  "aggregate_connection env connection row T =
     (let i = cr_event row; c = (connection_bytes row, 1, 0) in
      andThen (andThen (sql env AddOwnerMinute i True (owner_minute T)) (add_minute i (owner_bucket row) (cr_kind row, cr_name row) c)) (\<lambda>om.
      andThen (andThen (sql env AddDomainMinute i True (domain_minute T)) (add_minute i (domain_bucket row) () c)) (\<lambda>dm.
      andThen (andThen (sql env AddFlowMinute i True (flow_minute T))
          (add_minute i (flow_bucket (ep_IP (cd_Local connection)) (ep_IP (cd_Remote connection)) row) (cr_name row, cr_network row) c)) (\<lambda>fm.
        Inr (T\<lparr>owner_minute := om, domain_minute := dm, flow_minute := fm\<rparr>)))))"

definition insertConnection :: "rows_env \<Rightarrow> string \<Rightarrow> Event \<Rightarrow> flow_tables \<Rightarrow> row_error + flow_tables" where
  "insertConnection env node ev T =
     (case ev_Connection ev of
        None \<Rightarrow> Inl (RowPayload (ev_ID ev))
      | Some connection \<Rightarrow>
          andThen (ensureObservedOwner env (ev_ID ev) node (cd_Owner connection) (ev_ObservedAt ev) T) (\<lambda>T.
          andThen (validEvidence env (ev_ID ev) node (ep_IP (cd_Remote connection)) (ev_ObservedAt ev) T) (\<lambda>evidence.
            case (re_inet env (ep_IP (cd_Local connection)), re_inet env (ep_IP (cd_Remote connection))) of
              (Some lip, Some rip) \<Rightarrow>
                (let row = connection_row_of env node ev connection lip rip evidence in
                 andThen (sql env InsertConnection (ev_ID ev) (connection_checks row) T) (\<lambda>T.
                   if detail_key row \<in> detail_key ` set (connection_details T) then Inr T
                   else aggregate_connection env connection row (T\<lparr>connection_details := connection_details T @ [row]\<rparr>)))
            | _ \<Rightarrow> Inl (RowRefused InsertConnection (ev_ID ev)))))"

subsection \<open>Proxy requests\<close>

text \<open>\<^verbatim>\<open>regexp_replace(display_name, '-[0-9]+$', '')\<close>: the name of a container without the number of its replica.\<close>

definition service_name :: "string \<Rightarrow> string" where
  "service_name name =
     (let digits = takeWhile is_digit (rev name); front = rev (drop (length digits) (rev name)) in
      if digits \<noteq> [] \<and> front \<noteq> [] \<and> last front = CHR ''-'' then butlast front else name)"

definition running_container :: "string \<Rightarrow> owner_row \<Rightarrow> bool" where
  "running_container node row \<longleftrightarrow> ow_node row = node \<and> ow_kind row = OwnerContainer \<and> ow_running row"

definition process_on :: "string \<Rightarrow> addr \<Rightarrow> go_time \<Rightarrow> go_time \<Rightarrow> connection_row \<Rightarrow> bool" where
  "process_on node a t margin row \<longleftrightarrow> cr_node row = node \<and> cr_kind row = OwnerProcess \<and> cr_local row = a \<and>
     t - margin \<le> cr_at row \<and> cr_at row \<le> t + margin"

abbreviation second_ns :: go_time where "second_ns \<equiv> 1000000000"

text \<open>The port of \<^verbatim>\<open>strconv.Atoi\<close> when it is one.\<close>

definition port_of :: "string \<Rightarrow> int option" where
  "port_of text = (case Atoi text of Some p \<Rightarrow> if p < 1 \<or> 65535 < p then None else Some p | None \<Rightarrow> None)"

text \<open>An address without a port: the only process, on the only port, seen on it within two minutes.\<close>

definition resolve_address :: "rows_env \<Rightarrow> string \<Rightarrow> string \<Rightarrow> string \<Rightarrow> go_time \<Rightarrow> flow_tables \<Rightarrow> row_error + string \<times> int" where
  "resolve_address env i node upstream t T =
     (case re_inet env upstream of
        None \<Rightarrow> Inl (RowRefused ResolveProcess i)
      | Some a \<Rightarrow>
          (let candidates = filter (\<lambda>row. process_on node a t (120 * second_ns) row \<and> cr_lport row \<noteq> 0) (connection_details T) in
           sql env ResolveProcess i True
             (case (remdups (map cr_owner candidates), remdups (map cr_lport candidates)) of
                ([owner], [port]) \<Rightarrow> (owner, uint port)
              | _ \<Rightarrow> ([], 0))))"

text \<open>A host with a port: the container that has them, or the process seen there nearest in time within half a minute.\<close>

definition resolve_host_port :: "rows_env \<Rightarrow> string \<Rightarrow> string \<Rightarrow> string \<Rightarrow> int \<Rightarrow> go_time \<Rightarrow> flow_tables \<Rightarrow> row_error + string \<times> int" where
  "resolve_host_port env i node host port t T =
     andThen (sql env ResolveByAddress i (pg_string host)
         (re_latest env (filter (\<lambda>row. running_container node row \<and> host \<in> set (ow_addresses row) \<and> port \<in> uint ` set (ow_ports row)) (owners T))))
       (\<lambda>found. case found of
          Some row \<Rightarrow> Inr (ow_id row, port)
        | None \<Rightarrow>
            (case re_inet env host of
               None \<Rightarrow> Inl (RowRefused ResolveProcess i)
             | Some a \<Rightarrow> sql env ResolveProcess i True
                 (case re_nearest env t (filter (\<lambda>row. process_on node a t (30 * second_ns) row \<and> uint (cr_lport row) = port) (connection_details T)) of
                    Some row \<Rightarrow> (cr_owner row, port)
                  | None \<Rightarrow> ([], 0))))"

definition resolveUpstreamOwner :: "rows_env \<Rightarrow> string \<Rightarrow> string \<Rightarrow> string \<Rightarrow> go_time \<Rightarrow> flow_tables \<Rightarrow> row_error + string \<times> int" where
  "resolveUpstreamOwner env i node upstream observedAt T =
     (let upstream = TrimSpace upstream; t = re_time env observedAt in
      if upstream = [] then Inr ([], 0)
      else andThen (sql env ResolveByName i (pg_string upstream)
          (re_latest env (filter (\<lambda>row. running_container node row \<and> (ow_name row = upstream \<or> ow_container row = Some upstream)) (owners T))))
        (\<lambda>found. case found of
           Some row \<Rightarrow> Inr (ow_id row, 0)
         | None \<Rightarrow>
             andThen (sql env ResolveByCompose i True (filter (\<lambda>row. running_container node row \<and> service_name (ow_name row) = upstream) (owners T)))
               (\<lambda>services. case services of
                  [row] \<Rightarrow> Inr (ow_id row, 0)
                | _ \<Rightarrow>
                    (case SplitHostPort upstream of
                       None \<Rightarrow> (if ParseAddr upstream = None then Inr ([], 0) else resolve_address env i node upstream t T)
                     | Some (host, portText) \<Rightarrow>
                         (case port_of portText of None \<Rightarrow> Inr ([], 0) | Some port \<Rightarrow> resolve_host_port env i node host port t T)))))"

definition proxyDestination :: "string \<Rightarrow> string \<times> int" where
  "proxyDestination upstream =
     (case SplitHostPort (TrimSpace upstream) of
        None \<Rightarrow> (TrimSpace upstream, 0)
      | Some (host, portText) \<Rightarrow> (host, case port_of portText of Some port \<Rightarrow> port | None \<Rightarrow> 0))"

definition proxy_checks :: "proxy_row \<Rightarrow> bool" where
  "proxy_checks row \<longleftrightarrow> (let r = px_request row in
     100 \<le> pr_Status r \<and> pr_Status r \<le> 599 \<and> 0 \<le> sint (pr_BytesSent r) \<and> 0 \<le> sint (pr_DurationMS r) \<and>
     list_all pg_string [px_event row, pr_Host r, pr_Method r, pr_Upstream r, px_owner row])"

definition proxy_key :: "proxy_row \<Rightarrow> string \<times> go_time" where
  "proxy_key row = (px_event row, px_at row)"

definition proxy_domain_bucket :: "proxy_row \<Rightarrow> domain_key" where
  "proxy_domain_bucket row = (px_node row, truncate_minute (px_at row), ''inbound'', pr_Host (px_request row), ''confirmed'')"

definition proxy_status_bucket :: "proxy_row \<Rightarrow> status_key" where
  "proxy_status_bucket row = (px_node row, truncate_minute (px_at row), pr_Host (px_request row), pr_Status (px_request row))"

definition proxy_flow_bucket :: "proxy_row \<Rightarrow> string \<Rightarrow> string \<Rightarrow> int \<Rightarrow> flow_key" where
  "proxy_flow_bucket row owner destination port =
     \<lparr>fk_node = px_node row, fk_bucket = truncate_minute (px_at row), fk_direction = ''inbound'', fk_owner = owner,
      fk_source = pr_SourceIP (px_request row), fk_destination = destination, fk_domain = pr_Host (px_request row),
      fk_confidence = ''confirmed'', fk_protocol = ''tcp'', fk_port = port\<rparr>"

definition unattributed_name :: string where
  "unattributed_name = map char_of [230, 156, 170, 229, 189, 146, 229, 177, 158 :: nat]"

text \<open>The owner a request is counted for, with its name and the port: the owner found, a name made from the upstream, or nobody.\<close>

definition proxy_owner :: "rows_env \<Rightarrow> string \<Rightarrow> string \<Rightarrow> string \<Rightarrow> string \<Rightarrow> int \<Rightarrow> flow_tables \<Rightarrow> row_error + string \<times> string \<times> int" where
  "proxy_owner env i node upstream owner port T =
     (if owner \<noteq> [] then
        andThen (sql env LoadOwner i True (find (owner_is node owner) (owners T))) (\<lambda>found.
          case found of
            None \<Rightarrow> Inl (OwnerNotFound owner)
          | Some row \<Rightarrow> Inr (owner, ow_name row,
              if port = 0 then (case ow_ports row of [p] \<Rightarrow> uint p | _ \<Rightarrow> 0) else port))
      else if upstream \<noteq> [] then Inr (''upstream:'' @ upstream, upstream, port)
      else Inr (''unattributed'', unattributed_name, port))"

definition aggregate_proxy :: "rows_env \<Rightarrow> int \<Rightarrow> proxy_row \<Rightarrow> flow_tables \<Rightarrow> row_error + flow_tables" where
  "aggregate_proxy env observedPort row T =
     (let i = px_event row; r = px_request row; c = (sint (pr_BytesSent r), 0, 1); (destination, remotePort) = proxyDestination (pr_Upstream r) in
      andThen (andThen (sql env AddDomainMinute i True (domain_minute T)) (add_minute i (proxy_domain_bucket row) () c)) (\<lambda>dm.
      andThen (andThen (sql env AddStatusMinute i True (proxy_status_minute T)) (add_minute i (proxy_status_bucket row) () c)) (\<lambda>sm.
      andThen (proxy_owner env i (px_node row) (pr_Upstream r) (px_owner row) (if remotePort = 0 then observedPort else remotePort) T)
        (\<lambda>(owner, name, port).
          let key = proxy_flow_bucket row owner (if destination = [] then ''unattributed'' else destination) port in
          andThen (andThen (sql env AddFlowMinute i (pg_string owner \<and> network_texts (networkInfo (re_geo env) (pr_SourceIP r))) (flow_minute T))
              (add_minute i key (name, networkInfo (re_geo env) (pr_SourceIP r)) c)) (\<lambda>fm.
            Inr (T\<lparr>domain_minute := dm, proxy_status_minute := sm, flow_minute := fm\<rparr>))))))"

definition insertProxyRequest :: "rows_env \<Rightarrow> string \<Rightarrow> Event \<Rightarrow> flow_tables \<Rightarrow> row_error + flow_tables" where
  "insertProxyRequest env node ev T =
     (case ev_ProxyRequest ev of
        None \<Rightarrow> Inl (RowPayload (ev_ID ev))
      | Some request \<Rightarrow>
          andThen (resolveUpstreamOwner env (ev_ID ev) node (pr_Upstream request) (ev_ObservedAt ev) T) (\<lambda>(owner, observedPort).
            case re_inet env (pr_SourceIP request) of
              None \<Rightarrow> Inl (RowRefused InsertProxy (ev_ID ev))
            | Some source \<Rightarrow>
                (let row = \<lparr>px_event = ev_ID ev, px_node = node, px_at = re_time env (ev_ObservedAt ev), px_request = request, px_source = source,
                       px_owner = owner\<rparr> in
                 andThen (sql env InsertProxy (ev_ID ev) (proxy_checks row) T) (\<lambda>T.
                   if proxy_key row \<in> proxy_key ` set (proxy_request_details T) then Inr T
                   else aggregate_proxy env observedPort row (T\<lparr>proxy_request_details := proxy_request_details T @ [row]\<rparr>)))))"

subsection \<open>The storage\<close>

definition insert_flow_row :: "rows_env \<Rightarrow> string \<Rightarrow> Event \<Rightarrow> flow_tables \<Rightarrow> row_error + flow_tables" where
  "insert_flow_row env node ev =
     (if ev_Kind ev = EventOwnerInventory then insertOwnerInventory env node ev
      else if ev_Kind ev = EventNameEvidence then insertNameEvidence env node ev
      else if ev_Kind ev = EventConnection then insertConnection env node ev
      else insertProxyRequest env node ev)"

definition flow_store :: "rows_env \<Rightarrow> (flow_tables, row_error) store_env" where
  "flow_store env = \<lparr>db_fails = \<lambda>_. False, commit_applied = True, pg_time = re_time env, stop_containers = stop_node,
     insert_other = insert_flow_row env\<rparr>"

subsection \<open>Totals\<close>

text \<open>What the minutes must be: for each key the sums over the contributions to it.\<close>

definition tally :: "('k \<times> counts) list \<Rightarrow> 'k \<Rightarrow> counts option" where
  "tally xs k = (case filter (\<lambda>x. fst x = k) xs of [] \<Rightarrow> None | ys \<Rightarrow> Some (foldr add_counts (map snd ys) (0, 0, 0)))"

abbreviation totals :: "('k, 'l) minutes \<Rightarrow> 'k \<Rightarrow> counts option" where
  "totals m k \<equiv> map_option snd (m k)"

definition kept :: "('k, 'l) minutes \<Rightarrow> ('k \<times> counts) list \<Rightarrow> bool" where
  "kept m xs \<longleftrightarrow> totals m = tally xs"

lemma add_counts_commute: "add_counts a (add_counts b c) = add_counts b (add_counts a c)"
  by (cases a; cases b; cases c) simp

lemma add_counts_zero: "add_counts c (0, 0, 0) = c"
  by (cases c) simp

lemma foldr_counts: "foldr add_counts (xs @ c # ys) z = add_counts c (foldr add_counts (xs @ ys) z)"
  by (induction xs) (simp_all add: add_counts_commute)

lemma tally_insert:
  fixes xs :: "('k \<times> counts) list"
  shows "tally (xs @ (k, c) # ys) =
     (tally (xs @ ys))(k \<mapsto> (case tally (xs @ ys) k of None \<Rightarrow> c | Some c0 \<Rightarrow> add_counts c0 c))"
proof
  fix k' :: 'k
  let ?f = "filter (\<lambda>x. fst x = k')"
  have swap: "add_counts c0 c = add_counts c c0" for c0 by (cases c0; cases c) simp
  show "tally (xs @ (k, c) # ys) k' =
      ((tally (xs @ ys))(k \<mapsto> (case tally (xs @ ys) k of None \<Rightarrow> c | Some c0 \<Rightarrow> add_counts c0 c))) k'"
    using foldr_counts [of "map snd (?f xs)" c "map snd (?f ys)" "(0, 0, 0)"]
    by (cases "?f xs"; cases "?f ys") (auto simp: tally_def add_counts_zero swap split: list.splits)
qed

lemma add_minute_kept:
  assumes "add_minute i k label c m = Inr m'" "kept m (xs @ ys)"
  shows "kept m' (xs @ (k, c) # ys)"
proof -
  have t: "tally (xs @ ys) k' = map_option snd (m k')" for k' using assms(2) by (simp add: kept_def fun_eq_iff)
  obtain l where "m' = m(k \<mapsto> (l, case totals m k of None \<Rightarrow> c | Some c0 \<Rightarrow> add_counts c0 c))"
    using assms(1) by (auto simp: add_minute_def split: option.splits if_splits)
  then show ?thesis unfolding kept_def tally_insert by (simp add: t fun_eq_iff)
qed

lemma sql_Inr: "sql env op i ok x = Inr y \<longleftrightarrow> \<not> re_fails env op i \<and> ok \<and> y = x"
  by (auto simp: sql_def)

subsection \<open>The invariant\<close>

definition owner_share :: "connection_row \<Rightarrow> owner_key \<times> counts" where
  "owner_share row = (owner_bucket row, connection_bytes row, 1, 0)"

definition domain_share :: "connection_row \<Rightarrow> domain_key \<times> counts" where
  "domain_share row = (domain_bucket row, connection_bytes row, 1, 0)"

definition proxy_domain_share :: "proxy_row \<Rightarrow> domain_key \<times> counts" where
  "proxy_domain_share row = (proxy_domain_bucket row, sint (pr_BytesSent (px_request row)), 0, 1)"

definition proxy_status_share :: "proxy_row \<Rightarrow> status_key \<times> counts" where
  "proxy_status_share row = (proxy_status_bucket row, sint (pr_BytesSent (px_request row)), 0, 1)"

text \<open>The flow a row was counted for: its own columns, with texts for the addresses of a connection, and for a request an owner, a destination
  and a port.\<close>

definition connection_flow :: "rows_env \<Rightarrow> connection_row \<Rightarrow> flow_key \<times> counts \<Rightarrow> bool" where
  "connection_flow env row x \<longleftrightarrow> (\<exists>source destination. re_inet env source = Some (cr_local row) \<and> re_inet env destination = Some (cr_remote row) \<and>
     x = (flow_bucket source destination row, connection_bytes row, 1, 0))"

definition proxy_flow :: "proxy_row \<Rightarrow> flow_key \<times> counts \<Rightarrow> bool" where
  "proxy_flow row x \<longleftrightarrow> (\<exists>owner destination port. (px_owner row \<noteq> [] \<longrightarrow> owner = px_owner row) \<and>
     x = (proxy_flow_bucket row owner destination port, sint (pr_BytesSent (px_request row)), 0, 1))"

definition owner_keys :: "flow_tables \<Rightarrow> (string \<times> string) list" where
  "owner_keys T = map (\<lambda>row. (ow_node row, ow_id row)) (owners T)"

definition rows_inv :: "rows_env \<Rightarrow> flow_tables \<Rightarrow> bool" where
  "rows_inv env T \<longleftrightarrow>
     distinct (owner_keys T) \<and> distinct (map er_event (domain_evidence T)) \<and>
     distinct (map detail_key (connection_details T)) \<and> distinct (map proxy_key (proxy_request_details T)) \<and>
     list_all connection_checks (connection_details T) \<and> list_all proxy_checks (proxy_request_details T) \<and>
     list_all (\<lambda>row. (cr_node row, cr_owner row) \<in> set (owner_keys T)) (connection_details T) \<and>
     list_all (\<lambda>row. px_owner row = [] \<or> (px_node row, px_owner row) \<in> set (owner_keys T)) (proxy_request_details T) \<and>
     kept (owner_minute T) (map owner_share (connection_details T)) \<and>
     kept (domain_minute T) (map domain_share (connection_details T) @ map proxy_domain_share (proxy_request_details T)) \<and>
     kept (proxy_status_minute T) (map proxy_status_share (proxy_request_details T)) \<and>
     (\<exists>cs ps. list_all2 (connection_flow env) (connection_details T) cs \<and> list_all2 proxy_flow (proxy_request_details T) ps \<and>
        kept (flow_minute T) (cs @ ps))"

text \<open>Which of several rows PostgreSQL takes with \<^verbatim>\<open>ORDER BY ... LIMIT 1\<close>: one of the first.\<close>

definition picks :: "rows_env \<Rightarrow> bool" where
  "picks env \<longleftrightarrow>
     (\<forall>rows. case re_latest env rows of None \<Rightarrow> rows = [] | Some r \<Rightarrow> r \<in> set rows \<and> (\<forall>x \<in> set rows. ow_last x \<le> ow_last r)) \<and>
     (\<forall>t rows. case re_nearest env t rows of None \<Rightarrow> rows = []
        | Some r \<Rightarrow> r \<in> set rows \<and> (\<forall>x \<in> set rows. abs (cr_at r - t) \<le> abs (cr_at x - t)))"

lemma picks_member:
  "picks env \<Longrightarrow> re_latest env rows = Some r \<Longrightarrow> r \<in> set rows"
  "picks env \<Longrightarrow> re_nearest env t crs = Some cr \<Longrightarrow> cr \<in> set crs"
  unfolding picks_def by (metis (mono_tags, lifting) option.simps(5))+

subsection \<open>Every statement keeps the invariant\<close>

lemma rows_inv_owners:
  assumes "rows_inv env T" "distinct (owner_keys (T\<lparr>owners := os\<rparr>))" "set (owner_keys T) \<subseteq> set (owner_keys (T\<lparr>owners := os\<rparr>))"
  shows "rows_inv env (T\<lparr>owners := os\<rparr>)"
  using assms unfolding rows_inv_def list_all_iff by auto

lemma upsert_owner_keys:
  assumes "\<And>row. ow_node (f row) = ow_node row \<and> ow_id (f row) = ow_id row"
  shows "owner_keys (T\<lparr>owners := upsert_owner new f (owners T)\<rparr>) =
    (if (ow_node new, ow_id new) \<in> set (owner_keys T) then owner_keys T else owner_keys T @ [(ow_node new, ow_id new)])"
  using assms by (auto simp: owner_keys_def upsert_owner_def owner_is_def list_ex_iff image_iff) metis

lemma upsert_owner_inv:
  assumes "rows_inv env T" "\<And>row. ow_node (f row) = ow_node row \<and> ow_id (f row) = ow_id row"
  shows "rows_inv env (T\<lparr>owners := upsert_owner new f (owners T)\<rparr>)"
    "(ow_node new, ow_id new) \<in> set (owner_keys (T\<lparr>owners := upsert_owner new f (owners T)\<rparr>))"
proof -
  have "distinct (owner_keys T)" using assms(1) by (simp add: rows_inv_def)
  then show "rows_inv env (T\<lparr>owners := upsert_owner new f (owners T)\<rparr>)"
    using upsert_owner_keys [OF assms(2), where T = T and new = new] by (intro rows_inv_owners [OF assms(1)]) auto
  show "(ow_node new, ow_id new) \<in> set (owner_keys (T\<lparr>owners := upsert_owner new f (owners T)\<rparr>))"
    using upsert_owner_keys [OF assms(2), where T = T and new = new] by auto
qed

lemma insertOwnerInventory_inv: "insertOwnerInventory env node ev T = Inr T' \<Longrightarrow> rows_inv env T \<Longrightarrow> rows_inv env T'"
  by (auto simp: insertOwnerInventory_def Let_def sql_Inr split: option.splits intro!: upsert_owner_inv)

lemma ensureObservedOwner_inv:
  assumes "ensureObservedOwner env i node owner t T = Inr T'" "rows_inv env T"
  shows "rows_inv env T'" "(node, fst (ownerIdentity owner)) \<in> set (owner_keys T')" "\<exists>os. T' = T\<lparr>owners := os\<rparr>"
proof -
  obtain new f where T': "T' = T\<lparr>owners := upsert_owner new f (owners T)\<rparr>" "ow_node new = node" "ow_id new = fst (ownerIdentity owner)"
    "\<And>row. ow_node (f row) = ow_node row \<and> ow_id (f row) = ow_id row"
    using assms(1) that by (simp add: ensureObservedOwner_def Let_def sql_Inr)
  from upsert_owner_inv [OF assms(2) T'(4), where new = new] T' show "rows_inv env T'" "(node, fst (ownerIdentity owner)) \<in> set (owner_keys T')"
    "\<exists>os. T' = T\<lparr>owners := os\<rparr>" by auto
qed

lemma stop_node_inv: "rows_inv env T \<Longrightarrow> rows_inv env (stop_node node T)"
proof -
  assume inv: "rows_inv env T"
  let ?os = "map (\<lambda>row. if ow_node row = node \<and> ow_kind row = OwnerContainer then row\<lparr>ow_running := False\<rparr> else row) (owners T)"
  have "owner_keys (T\<lparr>owners := ?os\<rparr>) = owner_keys T" by (simp add: owner_keys_def)
  moreover have "distinct (owner_keys T)" using inv by (simp add: rows_inv_def)
  ultimately show ?thesis unfolding stop_node_def by (intro rows_inv_owners [OF inv]) simp_all
qed

lemma insertNameEvidence_inv: "insertNameEvidence env node ev T = Inr T' \<Longrightarrow> rows_inv env T \<Longrightarrow> rows_inv env T'"
  by (auto simp: insertNameEvidence_def Let_def sql_Inr rows_inv_def owner_keys_def split: option.splits if_splits)

lemma aggregate_connection_inv:
  assumes "aggregate_connection env connection row (T\<lparr>connection_details := connection_details T @ [row]\<rparr>) = Inr T'" "rows_inv env T"
    "detail_key row \<notin> detail_key ` set (connection_details T)" "connection_checks row" "(cr_node row, cr_owner row) \<in> set (owner_keys T)"
    "re_inet env (ep_IP (cd_Local connection)) = Some (cr_local row)" "re_inet env (ep_IP (cd_Remote connection)) = Some (cr_remote row)"
  shows "rows_inv env T'"
proof -
  let ?c = "(connection_bytes row, 1, 0) :: counts"
  let ?k = "flow_bucket (ep_IP (cd_Local connection)) (ep_IP (cd_Remote connection)) row"
  obtain om dm fm where added: "add_minute (cr_event row) (owner_bucket row) (cr_kind row, cr_name row) ?c (owner_minute T) = Inr om"
    "add_minute (cr_event row) (domain_bucket row) () ?c (domain_minute T) = Inr dm"
    "add_minute (cr_event row) ?k (cr_name row, cr_network row) ?c (flow_minute T) = Inr fm"
    "T' = T\<lparr>connection_details := connection_details T @ [row], owner_minute := om, domain_minute := dm, flow_minute := fm\<rparr>"
    using assms(1) by (auto simp: aggregate_connection_def Let_def andThen_Inr sql_Inr)
  obtain cs ps where flows: "list_all2 (connection_flow env) (connection_details T) cs" "list_all2 proxy_flow (proxy_request_details T) ps"
    "kept (flow_minute T) (cs @ ps)" using assms(2) by (auto simp: rows_inv_def)
  have share: "connection_flow env row (?k, ?c)" using assms(6,7) by (auto simp: connection_flow_def)
  have "kept om (map owner_share (connection_details T) @ [owner_share row])"
    using add_minute_kept [OF added(1), of "map owner_share (connection_details T)" "[]"] assms(2) by (simp add: rows_inv_def owner_share_def)
  moreover have "kept dm (map domain_share (connection_details T) @ domain_share row # map proxy_domain_share (proxy_request_details T))"
    using add_minute_kept [OF added(2)] assms(2) by (simp add: rows_inv_def domain_share_def)
  moreover have "\<exists>cs ps. list_all2 (connection_flow env) (connection_details T @ [row]) cs \<and> list_all2 proxy_flow (proxy_request_details T) ps \<and>
      kept fm (cs @ ps)"
    using add_minute_kept [OF added(3) flows(3)] list_all2_appendI [OF flows(1), of "[row]" "[(?k, ?c)]"] share flows(2)
    by (intro exI [of _ "cs @ [(?k, ?c)]"] exI [of _ ps]) simp
  moreover have "owner_keys T' = owner_keys T" by (simp add: added(4) owner_keys_def)
  ultimately show ?thesis
    using assms(2-5) unfolding rows_inv_def by (simp add: added(4))
qed

lemma insertConnection_parts:
  assumes "insertConnection env node ev T = Inr T'"
  shows "\<exists>connection T1 evidence lip rip. ev_Connection ev = Some connection \<and>
    ensureObservedOwner env (ev_ID ev) node (cd_Owner connection) (ev_ObservedAt ev) T = Inr T1 \<and>
    validEvidence env (ev_ID ev) node (ep_IP (cd_Remote connection)) (ev_ObservedAt ev) T1 = Inr evidence \<and>
    re_inet env (ep_IP (cd_Local connection)) = Some lip \<and> re_inet env (ep_IP (cd_Remote connection)) = Some rip \<and>
    (let row = connection_row_of env node ev connection lip rip evidence in connection_checks row \<and>
       (if detail_key row \<in> detail_key ` set (connection_details T1) then T' = T1
        else aggregate_connection env connection row (T1\<lparr>connection_details := connection_details T1 @ [row]\<rparr>) = Inr T'))"
proof -
  obtain connection where c: "ev_Connection ev = Some connection" using assms by (cases "ev_Connection ev") (simp_all add: insertConnection_def)
  obtain T1 evidence where te: "ensureObservedOwner env (ev_ID ev) node (cd_Owner connection) (ev_ObservedAt ev) T = Inr T1"
    "validEvidence env (ev_ID ev) node (ep_IP (cd_Remote connection)) (ev_ObservedAt ev) T1 = Inr evidence"
    using assms c by (auto simp: insertConnection_def andThen_Inr)
  obtain lip rip where ip: "re_inet env (ep_IP (cd_Local connection)) = Some lip" "re_inet env (ep_IP (cd_Remote connection)) = Some rip"
    using assms c te by (cases "re_inet env (ep_IP (cd_Local connection))"; cases "re_inet env (ep_IP (cd_Remote connection))")
      (simp_all add: insertConnection_def)
  have "let row = connection_row_of env node ev connection lip rip evidence in connection_checks row \<and>
       (if detail_key row \<in> detail_key ` set (connection_details T1) then T' = T1
        else aggregate_connection env connection row (T1\<lparr>connection_details := connection_details T1 @ [row]\<rparr>) = Inr T')"
    using assms c te ip by (simp add: insertConnection_def Let_def andThen_Inr sql_Inr split: if_splits)
  with c te ip show ?thesis by blast
qed

lemma insertConnection_inv:
  assumes "insertConnection env node ev T = Inr T'" "rows_inv env T"
  shows "rows_inv env T'"
proof -
  obtain connection T1 evidence lip rip where step: "ev_Connection ev = Some connection"
    "ensureObservedOwner env (ev_ID ev) node (cd_Owner connection) (ev_ObservedAt ev) T = Inr T1"
    "re_inet env (ep_IP (cd_Local connection)) = Some lip" "re_inet env (ep_IP (cd_Remote connection)) = Some rip"
    "let row = connection_row_of env node ev connection lip rip evidence in connection_checks row \<and>
       (if detail_key row \<in> detail_key ` set (connection_details T1) then T' = T1
        else aggregate_connection env connection row (T1\<lparr>connection_details := connection_details T1 @ [row]\<rparr>) = Inr T')"
    using insertConnection_parts [OF assms(1)] by metis
  note owner = ensureObservedOwner_inv [OF step(2) assms(2)]
  let ?row = "connection_row_of env node ev connection lip rip evidence"
  have row: "cr_node ?row = node" "cr_owner ?row = fst (ownerIdentity (cd_Owner connection))" "cr_local ?row = lip" "cr_remote ?row = rip"
    by (simp_all add: connection_row_of_def)
  show ?thesis
  proof (cases "detail_key ?row \<in> detail_key ` set (connection_details T1)")
    case True
    then show ?thesis using step(5) owner(1) by (simp add: Let_def)
  next
    case False
    then show ?thesis
      using step(3-5) owner(1,2) row by (intro aggregate_connection_inv [of env connection ?row T1 T']) (simp_all add: Let_def)
  qed
qed

subsection \<open>The owner of an upstream\<close>

lemma container_known: "row \<in> set (owners T) \<Longrightarrow> running_container node row \<Longrightarrow> (node, ow_id row) \<in> set (owner_keys T)"
  by (auto simp: owner_keys_def running_container_def)

lemma process_known:
  "rows_inv env T \<Longrightarrow> row \<in> set (connection_details T) \<Longrightarrow> process_on node a t m row \<Longrightarrow> (node, cr_owner row) \<in> set (owner_keys T)"
  by (auto simp: rows_inv_def process_on_def list_all_iff)

lemma picked_container:
  assumes "picks env" "re_latest env (filter (\<lambda>row. running_container node row \<and> P row) (owners T)) = Some row"
  shows "(node, ow_id row) \<in> set (owner_keys T)"
  using picks_member(1) [OF assms] container_known by auto

lemma single_container:
  assumes "filter (\<lambda>row. running_container node row \<and> P row) (owners T) = [row]"
  shows "(node, ow_id row) \<in> set (owner_keys T)"
proof -
  have "row \<in> set (filter (\<lambda>row. running_container node row \<and> P row) (owners T))" by (simp only: assms list.set_intros)
  then show ?thesis using container_known by auto
qed

lemma picked_process:
  assumes "rows_inv env T" "picks env"
    "re_nearest env t (filter (\<lambda>row. process_on node a t' m row \<and> P row) (connection_details T)) = Some row"
  shows "(node, cr_owner row) \<in> set (owner_keys T)"
  using picks_member(2) [OF assms(2,3)] process_known [OF assms(1)] by auto

lemma resolve_address_known:
  assumes "resolve_address env i node upstream t T = Inr (owner, port)" "rows_inv env T" "owner \<noteq> []"
  shows "(node, owner) \<in> set (owner_keys T)"
proof -
  obtain a p where "let candidates = filter (\<lambda>row. process_on node a t (120 * second_ns) row \<and> cr_lport row \<noteq> 0) (connection_details T) in
      remdups (map cr_owner candidates) = [owner] \<and> remdups (map cr_lport candidates) = [p]"
    using assms(1,3) by (auto simp: resolve_address_def Let_def sql_Inr split: option.splits list.splits)
  then have "owner \<in> cr_owner ` set (filter (\<lambda>row. process_on node a t (120 * second_ns) row \<and> cr_lport row \<noteq> 0) (connection_details T))"
    by (metis (no_types, lifting) list.set_intros(1) list.set_map set_remdups)
  then show ?thesis using process_known [OF assms(2)] by auto
qed

lemma resolve_host_port_known:
  assumes "resolve_host_port env i node host port t T = Inr (owner, p)" "rows_inv env T" "picks env" "owner \<noteq> []"
  shows "(node, owner) \<in> set (owner_keys T)"
  using assms(1,4)
  by (auto simp: resolve_host_port_def andThen_Inr sql_Inr split: option.splits
      dest: picked_container [OF assms(3)] picked_process [OF assms(2,3)])

lemma resolveUpstreamOwner_known:
  assumes "resolveUpstreamOwner env i node upstream t T = Inr (owner, p)" "rows_inv env T" "picks env" "owner \<noteq> []"
  shows "(node, owner) \<in> set (owner_keys T)"
  using assms(1,4)
  by (auto simp: resolveUpstreamOwner_def Let_def andThen_Inr sql_Inr split: option.splits list.splits if_splits
      dest: picked_container [OF assms(3)] single_container resolve_address_known [OF _ assms(2)] resolve_host_port_known [OF _ assms(2,3)])

subsection \<open>Proxy requests and whole batches\<close>

lemma proxy_owner_found:
  assumes "owner \<noteq> [] \<Longrightarrow> (node, owner) \<in> set (owner_keys T)"
  shows "proxy_owner env i node upstream owner port T \<noteq> Inl (OwnerNotFound x)"
    "proxy_owner env i node upstream owner port T = Inr (owner', name, port') \<Longrightarrow> owner \<noteq> [] \<longrightarrow> owner' = owner"
proof -
  have "find (owner_is node owner) (owners T) \<noteq> None" if "owner \<noteq> []"
    using assms [OF that] by (auto simp: owner_keys_def owner_is_def find_None_iff)
  then show "proxy_owner env i node upstream owner port T \<noteq> Inl (OwnerNotFound x)"
    by (auto simp: proxy_owner_def andThen_Inl sql_def split: option.splits if_splits)
  show "proxy_owner env i node upstream owner port T = Inr (owner', name, port') \<Longrightarrow> owner \<noteq> [] \<longrightarrow> owner' = owner"
    by (auto simp: proxy_owner_def andThen_Inr split: option.splits)
qed

lemma aggregate_proxy_inv:
  assumes "aggregate_proxy env observedPort row (T\<lparr>proxy_request_details := proxy_request_details T @ [row]\<rparr>) = Inr T'" "rows_inv env T"
    "proxy_key row \<notin> proxy_key ` set (proxy_request_details T)" "proxy_checks row"
    "px_owner row \<noteq> [] \<Longrightarrow> (px_node row, px_owner row) \<in> set (owner_keys T)"
  shows "rows_inv env T'"
proof -
  let ?c = "(sint (pr_BytesSent (px_request row)), 0, 1) :: counts" let ?T = "T\<lparr>proxy_request_details := proxy_request_details T @ [row]\<rparr>"
  have keys: "owner_keys ?T = owner_keys T" by (simp add: owner_keys_def)
  obtain dm sm fm owner name port port' destination label where added: "add_minute (px_event row) (proxy_domain_bucket row) () ?c (domain_minute T) = Inr dm"
    "add_minute (px_event row) (proxy_status_bucket row) () ?c (proxy_status_minute T) = Inr sm"
    "proxy_owner env (px_event row) (px_node row) (pr_Upstream (px_request row)) (px_owner row) port ?T = Inr (owner, name, port')"
    "add_minute (px_event row) (proxy_flow_bucket row owner destination port') label ?c (flow_minute T) = Inr fm"
    "T' = ?T\<lparr>domain_minute := dm, proxy_status_minute := sm, flow_minute := fm\<rparr>"
    using assms(1) by (auto simp: aggregate_proxy_def Let_def andThen_Inr sql_Inr split: prod.splits)
  let ?k = "proxy_flow_bucket row owner destination port'"
  have share: "proxy_flow row (?k, ?c)"
    using proxy_owner_found(2) [OF _ added(3)] assms(5) unfolding proxy_flow_def keys by blast
  obtain cs ps where flows: "list_all2 (connection_flow env) (connection_details T) cs" "list_all2 proxy_flow (proxy_request_details T) ps"
    "kept (flow_minute T) (cs @ ps)" using assms(2) by (auto simp: rows_inv_def)
  have "kept dm (map domain_share (connection_details T) @ map proxy_domain_share (proxy_request_details T) @ [proxy_domain_share row])"
    using add_minute_kept [OF added(1), of "map domain_share (connection_details T) @ map proxy_domain_share (proxy_request_details T)" "[]"] assms(2)
    by (simp add: rows_inv_def proxy_domain_share_def)
  moreover have "kept sm (map proxy_status_share (proxy_request_details T) @ [proxy_status_share row])"
    using add_minute_kept [OF added(2), of "map proxy_status_share (proxy_request_details T)" "[]"] assms(2)
    by (simp add: rows_inv_def proxy_status_share_def)
  moreover have "\<exists>cs ps. list_all2 (connection_flow env) (connection_details T) cs \<and> list_all2 proxy_flow (proxy_request_details T @ [row]) ps \<and>
      kept fm (cs @ ps)"
    using add_minute_kept [OF added(4), of "cs @ ps" "[]"] list_all2_appendI [OF flows(2), of "[row]" "[(?k, ?c)]"] share flows(1,3)
    by (intro exI [of _ cs] exI [of _ "ps @ [(?k, ?c)]"]) simp
  moreover have "owner_keys T' = owner_keys T" by (simp add: added(5) owner_keys_def)
  ultimately show ?thesis using assms(2-5) unfolding rows_inv_def by (auto simp: added(5))
qed

lemma insertProxyRequest_parts:
  assumes "insertProxyRequest env node ev T = Inr T'"
  shows "\<exists>request owner port row. ev_ProxyRequest ev = Some request \<and>
    resolveUpstreamOwner env (ev_ID ev) node (pr_Upstream request) (ev_ObservedAt ev) T = Inr (owner, port) \<and>
    px_event row = ev_ID ev \<and> px_node row = node \<and> px_owner row = owner \<and> px_request row = request \<and> proxy_checks row \<and>
    (proxy_key row \<in> proxy_key ` set (proxy_request_details T) \<and> T' = T \<or> proxy_key row \<notin> proxy_key ` set (proxy_request_details T) \<and>
      aggregate_proxy env port row (T\<lparr>proxy_request_details := proxy_request_details T @ [row]\<rparr>) = Inr T')"
proof -
  obtain request where r: "ev_ProxyRequest ev = Some request" using assms by (cases "ev_ProxyRequest ev") (simp_all add: insertProxyRequest_def)
  obtain owner port where found: "resolveUpstreamOwner env (ev_ID ev) node (pr_Upstream request) (ev_ObservedAt ev) T = Inr (owner, port)"
    using assms r by (auto simp: insertProxyRequest_def andThen_Inr)
  obtain source where s: "re_inet env (pr_SourceIP request) = Some source"
    using assms r found by (cases "re_inet env (pr_SourceIP request)") (simp_all add: insertProxyRequest_def)
  let ?row = "\<lparr>px_event = ev_ID ev, px_node = node, px_at = re_time env (ev_ObservedAt ev), px_request = request, px_source = source, px_owner = owner\<rparr>"
  have "proxy_checks ?row \<and> (if proxy_key ?row \<in> proxy_key ` set (proxy_request_details T) then T' = T
     else aggregate_proxy env port ?row (T\<lparr>proxy_request_details := proxy_request_details T @ [?row]\<rparr>) = Inr T')"
    using assms r found s by (simp add: insertProxyRequest_def Let_def andThen_Inr sql_Inr split: if_splits)
  then show ?thesis using r found by (intro exI [of _ request] exI [of _ owner] exI [of _ port] exI [of _ ?row]) (simp split: if_splits)
qed

lemma insertProxyRequest_inv:
  assumes "insertProxyRequest env node ev T = Inr T'" "rows_inv env T" "picks env"
  shows "rows_inv env T'"
proof -
  from insertProxyRequest_parts [OF assms(1)] obtain request owner port row where p: "ev_ProxyRequest ev = Some request"
    "resolveUpstreamOwner env (ev_ID ev) node (pr_Upstream request) (ev_ObservedAt ev) T = Inr (owner, port)"
    "px_node row = node" "px_owner row = owner" "proxy_checks row"
    "proxy_key row \<in> proxy_key ` set (proxy_request_details T) \<and> T' = T \<or> proxy_key row \<notin> proxy_key ` set (proxy_request_details T) \<and>
      aggregate_proxy env port row (T\<lparr>proxy_request_details := proxy_request_details T @ [row]\<rparr>) = Inr T'" by blast
  then show ?thesis
    using aggregate_proxy_inv [of env port row T T'] resolveUpstreamOwner_known [OF p(2) assms(2,3)] assms(2)
    by blast
qed

lemma insert_flow_row_inv: "insert_flow_row env node ev T = Inr T' \<Longrightarrow> rows_inv env T \<Longrightarrow> picks env \<Longrightarrow> rows_inv env T'"
  by (auto simp: insert_flow_row_def split: if_splits
      intro: insertOwnerInventory_inv insertNameEvidence_inv insertConnection_inv insertProxyRequest_inv)

text \<open>From the rows to the transaction: an event changes these tables through its own rows or by stopping containers.\<close>

lemma meeting_fields [simp]:
  "insert_other (meeting env m) = insert_other env" "stop_containers (meeting env m) = stop_containers env" "pg_time (meeting env m) = pg_time env"
  by (cases m; simp)+

lemma flow_store_fields [simp]:
  "insert_other (flow_store env) = insert_flow_row env" "stop_containers (flow_store env) = stop_node" "pg_time (flow_store env) = re_time env"
  by (simp_all add: flow_store_def)

abbreviation flow_kinds :: "string set" where
  "flow_kinds \<equiv> {EventOwnerInventory, EventNameEvidence, EventConnection, EventProxyRequest}"

lemma insertEvent_flow:
  assumes "insertEvent (meeting (flow_store env) m) node ev T = Inr T'"
  shows "if ev_Kind ev \<in> flow_kinds then insert_flow_row env node ev (other_tables T) = Inr (other_tables T')
    else other_tables T' = other_tables T \<or> other_tables T' = stop_node node (other_tables T)"
proof -
  have "EventInterfaceDelta \<notin> flow_kinds" "EventHealth \<notin> flow_kinds" by (simp_all add: kind_defs)
  moreover have "other_tables T' = other_tables T" if "insertInterfaceDelta (meeting (flow_store env) m) node ev T = Inr T'"
    using that by (auto simp: insertInterfaceDelta_def add_to_minute_def Let_def andThen_Inr guarded_op_Inr split: if_splits option.splits)
  moreover have "other_tables T' = other_tables T \<or> other_tables T' = stop_node node (other_tables T)"
    if "insertHealth (meeting (flow_store env) m) node ev T = Inr T'"
    using that by (auto simp: insertHealth_def Let_def andThen_Inr guarded_op_Inr split: if_splits option.splits)
  moreover have "insert_flow_row env node ev (other_tables T) = Inr (other_tables T')" if "insertOther (meeting (flow_store env) m) node ev T = Inr T'"
    using that by (auto simp: insertOther_def andThen_Inr guarded_op_Inr split: sum.splits)
  ultimately show ?thesis using assms by (auto simp: insertEvent_def split: if_splits)
qed

lemma insert_events_inv:
  assumes "insert_events (meeting (flow_store env) m) node evs T = Inr T'" "rows_inv env (other_tables T)" "picks env"
  shows "rows_inv env (other_tables T')"
  using assms(1,2)
proof (induction evs arbitrary: T)
  case (Cons ev evs)
  then obtain T1 where "insertEvent (meeting (flow_store env) m) node ev T = Inr T1"
    "insert_events (meeting (flow_store env) m) node evs T1 = Inr T'" by (auto simp: andThen_Inr)
  with Cons insertEvent_flow [OF this(1)] show ?case
    using insert_flow_row_inv [OF _ _ assms(3)] stop_node_inv by (metis (no_types, lifting))
qed simp

lemma store_batch_rows_inv:
  assumes "store_batch (meeting (flow_store env) m) b T = Inr T'" "rows_inv env (other_tables T)" "picks env"
  shows "rows_inv env (other_tables T')"
  using assms by (auto simp: store_batch_def andThen_Inr guarded_op_Inr stop_node_inv split: if_splits intro: insert_events_inv)

lemma deliver_rows_inv:
  assumes "deliver (flow_store env) ds db = (db', rs)" "rows_inv env (other_tables (tables db))" "picks env"
  shows "rows_inv env (other_tables (tables db'))"
  using assms(1,2)
proof (induction ds arbitrary: db rs)
  case (Cons d ds)
  obtain faults applied b where d: "d = (faults, applied, b)" by (cases d)
  obtain db1 r rs' where step: "InsertBatch (meeting (flow_store env) (faults, applied)) db b = (db1, r)" "deliver (flow_store env) ds db1 = (db', rs')"
    using Cons.prems(1) by (auto simp: d split: prod.splits)
  have "rows_inv env (other_tables (tables db1))"
    using InsertBatch_effect [OF step(1)] Cons.prems(2) store_batch_rows_inv [OF _ _ assms(3)] by fastforce
  then show ?case using Cons.IH step(2) by blast
qed simp

subsection \<open>What a batch sees of itself\<close>

lemma insert_events_append:
  "insert_events env node (xs @ ys) T = andThen (insert_events env node xs T) (insert_events env node ys)"
proof (induction xs arbitrary: T)
  case (Cons x xs)
  then show ?case by (cases "insertEvent env node x T") simp_all
qed simp

lemma validEvidence_cong:
  "domain_evidence T = domain_evidence T' \<Longrightarrow> validEvidence env i node ip t T = validEvidence env i node ip t T'"
  by (cases "re_inet env ip") (simp_all add: validEvidence_def Let_def)

lemma aggregate_tables:
  "aggregate_connection env connection row T = Inr T' \<Longrightarrow> connection_details T' = connection_details T \<and> domain_evidence T' = domain_evidence T"
  "aggregate_proxy env port prow T = Inr T' \<Longrightarrow> connection_details T' = connection_details T \<and> domain_evidence T' = domain_evidence T"
  by (auto simp: aggregate_connection_def aggregate_proxy_def Let_def andThen_Inr sql_Inr split: prod.splits)

lemma ensureObservedOwner_tables:
  "ensureObservedOwner env i node owner t T = Inr T' \<Longrightarrow> connection_details T' = connection_details T \<and> domain_evidence T' = domain_evidence T"
  by (auto simp: ensureObservedOwner_def Let_def sql_Inr)

text \<open>The row an event of a connection leaves, decided by the evidence in a table.\<close>

definition row_for :: "rows_env \<Rightarrow> string \<Rightarrow> flow_tables \<Rightarrow> Event \<Rightarrow> connection_row \<Rightarrow> bool" where
  "row_for env node T ev row \<longleftrightarrow> (\<exists>connection evidence lip rip. ev_Connection ev = Some connection \<and>
     validEvidence env (ev_ID ev) node (ep_IP (cd_Remote connection)) (ev_ObservedAt ev) T = Inr evidence \<and>
     re_inet env (ep_IP (cd_Local connection)) = Some lip \<and> re_inet env (ep_IP (cd_Remote connection)) = Some rip \<and>
     row = connection_row_of env node ev connection lip rip evidence)"

abbreviation event_key :: "rows_env \<Rightarrow> Event \<Rightarrow> string \<times> go_time" where
  "event_key env ev \<equiv> (ev_ID ev, re_time env (ev_ObservedAt ev))"

lemma insertConnection_row:
  assumes "insertConnection env node ev T = Inr T'"
  shows "domain_evidence T' = domain_evidence T"
    "(event_key env ev \<in> detail_key ` set (connection_details T) \<and> connection_details T' = connection_details T) \<or>
     (\<exists>row. row_for env node T ev row \<and> detail_key row = event_key env ev \<and> connection_details T' = connection_details T @ [row])"
proof -
  obtain connection T1 evidence lip rip where step: "ev_Connection ev = Some connection"
    "ensureObservedOwner env (ev_ID ev) node (cd_Owner connection) (ev_ObservedAt ev) T = Inr T1"
    "validEvidence env (ev_ID ev) node (ep_IP (cd_Remote connection)) (ev_ObservedAt ev) T1 = Inr evidence"
    "re_inet env (ep_IP (cd_Local connection)) = Some lip" "re_inet env (ep_IP (cd_Remote connection)) = Some rip"
    "let row = connection_row_of env node ev connection lip rip evidence in connection_checks row \<and>
       (if detail_key row \<in> detail_key ` set (connection_details T1) then T' = T1
        else aggregate_connection env connection row (T1\<lparr>connection_details := connection_details T1 @ [row]\<rparr>) = Inr T')"
    using insertConnection_parts [OF assms] by metis
  note same = ensureObservedOwner_tables [OF step(2)]
  let ?row = "connection_row_of env node ev connection lip rip evidence"
  have key: "detail_key ?row = event_key env ev" by (simp add: detail_key_def connection_row_of_def)
  have "row_for env node T ev ?row" unfolding row_for_def using step(1,3-5) same validEvidence_cong [of T1 T] by metis
  then show "domain_evidence T' = domain_evidence T"
    "(event_key env ev \<in> detail_key ` set (connection_details T) \<and> connection_details T' = connection_details T) \<or>
     (\<exists>row. row_for env node T ev row \<and> detail_key row = event_key env ev \<and> connection_details T' = connection_details T @ [row])"
    using step(6) same key aggregate_tables(1) [of env connection ?row _ T'] by (auto simp: Let_def split: if_splits)
qed

lemma insert_flow_row_tables:
  assumes "insert_flow_row env node ev T = Inr T'" "ev_Kind ev \<in> flow_kinds"
  shows "ev_Kind ev \<noteq> EventNameEvidence \<Longrightarrow> domain_evidence T' = domain_evidence T"
    "ev_Kind ev \<noteq> EventConnection \<Longrightarrow> connection_details T' = connection_details T"
    "ev_Kind ev = EventNameEvidence \<Longrightarrow> ev_ID ev \<in> er_event ` set (domain_evidence T')"
    "er_event ` set (domain_evidence T) \<subseteq> er_event ` set (domain_evidence T')"
proof -
  have inventory: "domain_evidence T' = domain_evidence T \<and> connection_details T' = connection_details T" if "insertOwnerInventory env node ev T = Inr T'"
    using that by (auto simp: insertOwnerInventory_def Let_def sql_Inr split: option.splits)
  have evidence: "connection_details T' = connection_details T \<and> ev_ID ev \<in> er_event ` set (domain_evidence T') \<and>
      er_event ` set (domain_evidence T) \<subseteq> er_event ` set (domain_evidence T')" if "insertNameEvidence env node ev T = Inr T'"
    using that by (auto simp: insertNameEvidence_def Let_def sql_Inr split: option.splits if_splits)
  have proxy: "domain_evidence T' = domain_evidence T \<and> connection_details T' = connection_details T" if "insertProxyRequest env node ev T = Inr T'"
    using insertProxyRequest_parts [OF that] by (auto dest: aggregate_tables(2))
  have distinct_kinds: "EventOwnerInventory \<noteq> EventNameEvidence" "EventConnection \<noteq> EventNameEvidence" "EventProxyRequest \<noteq> EventNameEvidence"
    "EventOwnerInventory \<noteq> EventConnection" by (simp_all add: kind_defs)
  show "ev_Kind ev \<noteq> EventNameEvidence \<Longrightarrow> domain_evidence T' = domain_evidence T"
    "ev_Kind ev \<noteq> EventConnection \<Longrightarrow> connection_details T' = connection_details T"
    "ev_Kind ev = EventNameEvidence \<Longrightarrow> ev_ID ev \<in> er_event ` set (domain_evidence T')"
    "er_event ` set (domain_evidence T) \<subseteq> er_event ` set (domain_evidence T')"
    using assms(1) inventory evidence proxy insertConnection_row(1) [of env node ev T T'] distinct_kinds
    by (auto simp: insert_flow_row_def split: if_splits)
qed

lemma stop_node_tables [simp]:
  "domain_evidence (stop_node node T) = domain_evidence T" "connection_details (stop_node node T) = connection_details T"
  by (simp_all add: stop_node_def)

lemma insertEvent_tables:
  assumes "insertEvent (meeting (flow_store env) m) node ev T = Inr T'"
  shows "ev_Kind ev \<noteq> EventNameEvidence \<Longrightarrow> domain_evidence (other_tables T') = domain_evidence (other_tables T)"
    "ev_Kind ev \<noteq> EventConnection \<Longrightarrow> connection_details (other_tables T') = connection_details (other_tables T)"
    "ev_Kind ev = EventNameEvidence \<Longrightarrow> ev_ID ev \<in> er_event ` set (domain_evidence (other_tables T'))"
    "er_event ` set (domain_evidence (other_tables T)) \<subseteq> er_event ` set (domain_evidence (other_tables T'))"
proof -
  note flow = insertEvent_flow [OF assms]
  have "(ev_Kind ev \<noteq> EventNameEvidence \<longrightarrow> domain_evidence (other_tables T') = domain_evidence (other_tables T)) \<and>
    (ev_Kind ev \<noteq> EventConnection \<longrightarrow> connection_details (other_tables T') = connection_details (other_tables T)) \<and>
    (ev_Kind ev = EventNameEvidence \<longrightarrow> ev_ID ev \<in> er_event ` set (domain_evidence (other_tables T'))) \<and>
    er_event ` set (domain_evidence (other_tables T)) \<subseteq> er_event ` set (domain_evidence (other_tables T'))"
  proof (cases "ev_Kind ev \<in> flow_kinds")
    case True
    then have "insert_flow_row env node ev (other_tables T) = Inr (other_tables T')" using flow by (simp only: if_True)
    from insert_flow_row_tables [OF this True] show ?thesis by blast
  next
    case False
    then have "other_tables T' = other_tables T \<or> other_tables T' = stop_node node (other_tables T)" using flow by (simp only: if_False)
    then show ?thesis using False by auto
  qed
  then show "ev_Kind ev \<noteq> EventNameEvidence \<Longrightarrow> domain_evidence (other_tables T') = domain_evidence (other_tables T)"
    "ev_Kind ev \<noteq> EventConnection \<Longrightarrow> connection_details (other_tables T') = connection_details (other_tables T)"
    "ev_Kind ev = EventNameEvidence \<Longrightarrow> ev_ID ev \<in> er_event ` set (domain_evidence (other_tables T'))"
    "er_event ` set (domain_evidence (other_tables T)) \<subseteq> er_event ` set (domain_evidence (other_tables T'))" by blast+
qed

lemma insert_events_tables:
  assumes "insert_events (meeting (flow_store env) m) node evs T = Inr T'"
  shows "\<forall>ev \<in> set evs. ev_Kind ev \<noteq> EventNameEvidence \<Longrightarrow> domain_evidence (other_tables T') = domain_evidence (other_tables T)"
    "\<forall>ev \<in> set evs. ev_Kind ev \<noteq> EventConnection \<Longrightarrow> connection_details (other_tables T') = connection_details (other_tables T)"
    "er_event ` set (domain_evidence (other_tables T)) \<subseteq> er_event ` set (domain_evidence (other_tables T'))"
    "ev \<in> set evs \<Longrightarrow> ev_Kind ev = EventNameEvidence \<Longrightarrow> ev_ID ev \<in> er_event ` set (domain_evidence (other_tables T'))"
  using assms
proof (induction evs arbitrary: T)
  case (Cons x xs)
  have step: "\<exists>T1. insertEvent (meeting (flow_store env) m) node x T = Inr T1 \<and> insert_events (meeting (flow_store env) m) node xs T1 = Inr T'"
    if "insert_events (meeting (flow_store env) m) node (x # xs) T = Inr T'" for T using that by (simp add: andThen_Inr)
  {
    case 1
    then show ?case using step [OF 1(2)] Cons.IH(1) insertEvent_tables(1) by (metis list.set_intros)
  next
    case 2
    then show ?case using step [OF 2(2)] Cons.IH(2) insertEvent_tables(2) by (metis list.set_intros)
  next
    case 3
    then show ?case using step [OF 3] Cons.IH(3) insertEvent_tables(4) by (meson order_trans)
  next
    case 4
    then obtain T1 where T1: "insertEvent (meeting (flow_store env) m) node x T = Inr T1" "insert_events (meeting (flow_store env) m) node xs T1 = Inr T'"
      using step by blast
    show ?case
    proof (cases "ev = x")
      case True
      then show ?thesis using insertEvent_tables(3) [OF T1(1)] 4(2) Cons.IH(3) [OF T1(2)] by auto
    next
      case False
      then show ?thesis using Cons.IH(4) [OF _ 4(2) T1(2)] 4(1) by auto
    qed
  }
qed simp_all

lemma connection_phase:
  assumes "insert_events (meeting (flow_store env) m) node evs T = Inr T'" "\<forall>ev \<in> set evs. ev_Kind ev = EventConnection"
  shows "\<exists>rows. connection_details (other_tables T') = connection_details (other_tables T) @ rows \<and>
    (\<forall>row \<in> set rows. \<exists>ev \<in> set evs. row_for env node (other_tables T) ev row) \<and>
    (\<forall>ev \<in> set evs. event_key env ev \<in> detail_key ` set (connection_details (other_tables T')))"
  using assms
proof (induction evs arbitrary: T)
  case (Cons x xs)
  obtain T1 where T1: "insertEvent (meeting (flow_store env) m) node x T = Inr T1" "insert_events (meeting (flow_store env) m) node xs T1 = Inr T'"
    using Cons.prems(1) by (auto simp: andThen_Inr)
  have "insertConnection env node x (other_tables T) = Inr (other_tables T1)"
    using insertEvent_flow [OF T1(1)] Cons.prems(2) by (simp add: insert_flow_row_def kind_defs)
  note row = insertConnection_row [OF this]
  obtain rows where rows: "connection_details (other_tables T') = connection_details (other_tables T1) @ rows"
    "\<forall>row \<in> set rows. \<exists>ev \<in> set xs. row_for env node (other_tables T1) ev row"
    "\<forall>ev \<in> set xs. event_key env ev \<in> detail_key ` set (connection_details (other_tables T'))"
    using Cons.IH [OF T1(2)] Cons.prems(2) by auto
  have same: "row_for env node (other_tables T1) ev r = row_for env node (other_tables T) ev r" for ev r
    unfolding row_for_def using validEvidence_cong [OF row(1)] by simp
  from row(2) show ?case
  proof
    assume "event_key env x \<in> detail_key ` set (connection_details (other_tables T)) \<and> connection_details (other_tables T1) = connection_details (other_tables T)"
    then show ?thesis using rows same by (intro exI [of _ rows]) auto
  next
    assume "\<exists>r. row_for env node (other_tables T) x r \<and> detail_key r = event_key env x \<and>
      connection_details (other_tables T1) = connection_details (other_tables T) @ [r]"
    then obtain r where "row_for env node (other_tables T) x r" "detail_key r = event_key env x"
      "connection_details (other_tables T1) = connection_details (other_tables T) @ [r]" by blast
    then show ?thesis using rows same by (intro exI [of _ "r # rows"]) (auto simp flip: \<open>detail_key r = event_key env x\<close>)
  qed
qed simp

subsection \<open>Batches that can never be stored\<close>

text \<open>The agent sends its batches in order and drops none, so a batch the server can never store stays at the head of its queue.\<close>

lemma unstorable_blocks:
  assumes "spool_ok (queue app)" "spool_contents (queue app) = b # bs" "sender app = (k, db)" "guard_key b \<notin> set (ingest_batches db)"
    "\<And>m. \<exists>e. store_batch (meeting env m) b (tables db) = Inl e"
  shows "\<exists>app' db' e. app_drain (agent_interfaces (server_send env schedule) encode decode sha percent) app = Some (app', Some e) \<and>
    spool_ok (queue app') \<and> spool_contents (queue app') = b # bs \<and> sender app' = (Suc k, db') \<and> tables db' = tables db \<and>
    ingest_batches db' = ingest_batches db"
proof -
  obtain db' r where step: "InsertBatch (meeting env (schedule k)) db b = (db', r)" by fastforce
  from InsertBatch_effect [OF step] assms(4,5) have same: "ingest_batches db' = ingest_batches db" "tables db' = tables db"
    by (metis Inl_Inr_False)+
  obtain f where r: "r = Inl f" using InsertBatch_effect [OF step] assms(4,5) by (metis Inl_Inr_False sum.exhaust)
  have "send_all (server_send env schedule) (sender app) (spool_contents (queue app)) = ((Suc k, db'), 0, Some f)"
    using step by (simp add: assms(2,3) server_send_def r)
  from agent_drain [OF assms(1) this, of encode decode sha percent] show ?thesis using same assms(2) by auto
qed

lemma insert_events_fails:
  assumes "ev \<in> set evs" "\<And>T. \<exists>e. insertEvent env node ev T = Inl e"
  shows "\<exists>e. insert_events env node evs T = Inl e"
  using assms(1)
proof (induction evs arbitrary: T)
  case (Cons x xs)
  show ?case
  proof (cases "insertEvent env node x T")
    case (Inr T1)
    then have "ev \<in> set xs" using assms(2) Cons.prems by (metis Inl_Inr_False set_ConsD)
    then show ?thesis using Cons.IH Inr by simp
  qed simp
qed simp

lemma kind_order_set: "ev \<in> set (ba_Events b) \<Longrightarrow> ev_Kind ev \<in> set kind_order \<Longrightarrow> ev \<in> set (in_kind_order (ba_Events b))"
  by (auto simp: in_kind_order_def)

lemma zero_name_refused:
  assumes "ev \<in> set (ba_Events b)" "ev_Kind ev = EventNameEvidence" "ev_NameEvidence ev = Some e" "CHR 0x00 \<in> set (ne_Name e)"
  shows "\<exists>f. store_batch (meeting (flow_store env) m) b T = Inl f"
proof -
  have "\<exists>f. insertEvent (meeting (flow_store env) m) (ba_NodeID b) ev T = Inl f" for T
  proof (cases "insertEvent (meeting (flow_store env) m) (ba_NodeID b) ev T")
    case (Inr T')
    then have "insertNameEvidence env (ba_NodeID b) ev (other_tables T) = Inr (other_tables T')"
      using insertEvent_flow [OF Inr] by (simp add: insert_flow_row_def assms(2) kind_defs)
    then show ?thesis using assms(3,4) by (auto simp: insertNameEvidence_def Let_def sql_Inr pg_string_def pg_text_def split: option.splits)
  qed simp
  moreover have "ev \<in> set (in_kind_order (ba_Events b))" using assms(1,2) by (intro kind_order_set) (simp_all add: kind_order_def)
  ultimately have "\<exists>f. insert_events (meeting (flow_store env) m) (ba_NodeID b) (in_kind_order (ba_Events b)) T = Inl f" for T
    using insert_events_fails by blast
  then show ?thesis by (cases m) (force simp: store_batch_def guarded_op_def)
qed

subsection \<open>Properties\<close>

definition empty_flow :: flow_tables where
  "empty_flow = \<lparr>owners = [], domain_evidence = [], connection_details = [], proxy_request_details = [], owner_minute = Map.empty,
     domain_minute = Map.empty, flow_minute = Map.empty, proxy_status_minute = Map.empty\<rparr>"

lemma empty_rows_inv: "rows_inv env empty_flow"
  by (simp add: rows_inv_def empty_flow_def owner_keys_def kept_def tally_def fun_eq_iff)

text \<open>A database that takes any of the latest rows, reads and writes addresses as Go does and keeps nanoseconds; a batch with a connection
  before the evidence that names it.\<close>

definition plain_rows :: rows_env where
  "plain_rows = \<lparr>re_fails = (\<lambda>op i. False), re_time = id, re_inet = ParseAddr, re_host = addr_string,
     re_latest = (\<lambda>rows. if rows = [] then None else Some (arg_min_list (\<lambda>row. - ow_last row) rows)),
     re_nearest = (\<lambda>t rows. if rows = [] then None else Some (arg_min_list (\<lambda>row. abs (cr_at row - t)) rows)),
     re_sort = insertion_sort, re_geo = None\<rparr>"

lemma arg_min_list_least: "rows \<noteq> [] \<Longrightarrow> x \<in> set rows \<Longrightarrow> f (arg_min_list f rows) \<le> f x" for f :: "'a \<Rightarrow> int"
  by (simp add: f_arg_min_list_f)

lemma plain_picks: "picks plain_rows"
proof -
  have "ow_last x \<le> ow_last (arg_min_list (\<lambda>row. - ow_last row) rows)" if "x \<in> set rows" for x rows
    using arg_min_list_least [of rows x "\<lambda>row. - ow_last row"] that by (cases "rows = []") simp_all
  moreover have "abs (cr_at (arg_min_list (\<lambda>row. abs (cr_at row - t)) rows) - t) \<le> abs (cr_at x - t)" if "x \<in> set rows" for x rows t
    using arg_min_list_least [of rows x "\<lambda>row. abs (cr_at row - t)"] that by (cases "rows = []") simp_all
  ultimately show ?thesis unfolding picks_def plain_rows_def by (auto intro: arg_min_list_in)
qed

definition sample_connection :: Event where
  "sample_connection = zero_Event\<lparr>ev_ID := ''c'', ev_ObservedAt := 60, ev_Kind := EventConnection, ev_Connection := Some demo_connection\<rparr>"

definition sample_name :: Event where
  "sample_name = zero_Event\<lparr>ev_ID := ''e'', ev_ObservedAt := 50, ev_Kind := EventNameEvidence,
     ev_NameEvidence := Some (demo_evidence ''a.example'' ''tls_sni'' 50)\<rparr>"

definition sample_batch :: Batch where
  "sample_batch = \<lparr>ba_SchemaVersion = 1, ba_BatchID = ''b'', ba_NodeID = ''n'', ba_SentAt = 70, ba_Events = [sample_connection, sample_name],
     ba_CompactedBatchIDs = []\<rparr>"

definition empty_store :: "flow_tables database" where
  "empty_store = \<lparr>nodes = Map.empty, ingest_batches = [],
     tables = \<lparr>interface_deltas = [], traffic_minute = Map.empty, collector_health = [], other_tables = empty_flow\<rparr>\<rparr>"

text \<open>C26. The minutes of owners, domains, flows and proxy statuses are always those of the detail rows: over any sequence of deliveries
  that starts with empty tables, repeated and failing ones included, each entry is the sum of the bytes, connections and requests of the
  rows counted for it, every connection and every proxy request once in each table that counts it, and there is no entry
  without a row. Rows have distinct keys, and every owner a row names is in the table of owners.\<close>

theorem flow_totals:
  assumes "deliver (flow_store env) ds db = (db', rs)" "other_tables (tables db) = empty_flow" "picks env"
  shows "let F = other_tables (tables db'); cs = connection_details F; ps = proxy_request_details F in
    totals (owner_minute F) = tally (map owner_share cs) \<and>
    totals (domain_minute F) = tally (map domain_share cs @ map proxy_domain_share ps) \<and>
    totals (proxy_status_minute F) = tally (map proxy_status_share ps) \<and>
    (\<exists>fs gs. list_all2 (connection_flow env) cs fs \<and> list_all2 proxy_flow ps gs \<and> totals (flow_minute F) = tally (fs @ gs)) \<and>
    distinct (map detail_key cs) \<and> distinct (map proxy_key ps) \<and> list_all connection_checks cs \<and> list_all proxy_checks ps \<and>
    list_all (\<lambda>row. (cr_node row, cr_owner row) \<in> set (owner_keys F)) cs \<and>
    list_all (\<lambda>row. px_owner row = [] \<or> (px_node row, px_owner row) \<in> set (owner_keys F)) ps"
proof -
  have "rows_inv env (other_tables (tables db'))" using deliver_rows_inv [OF assms(1) _ assms(3)] empty_rows_inv assms(2) by simp
  then show ?thesis unfolding rows_inv_def kept_def Let_def by blast
qed

theorem flow_totals_witness:
  "\<exists>db'. deliver (flow_store plain_rows) [(\<lambda>op. False, True, sample_batch), (\<lambda>op. False, True, sample_batch)] empty_store = (db', [Inr True, Inr False]) \<and>
     map cr_event (connection_details (other_tables (tables db'))) = [''c''] \<and>
     totals (owner_minute (other_tables (tables db'))) = tally (map owner_share (connection_details (other_tables (tables db'))))"
proof -
  obtain db' rs where run: "deliver (flow_store plain_rows) [(\<lambda>op. False, True, sample_batch), (\<lambda>op. False, True, sample_batch)] empty_store = (db', rs)"
    by fastforce
  have "(case deliver (flow_store plain_rows) [(\<lambda>op. False, True, sample_batch), (\<lambda>op. False, True, sample_batch)] empty_store of
      (db', rs) \<Rightarrow> rs = [Inr True, Inr False] \<and> map cr_event (connection_details (other_tables (tables db'))) = [''c''])" by code_simp
  moreover have "other_tables (tables empty_store) = empty_flow" by (simp add: empty_store_def)
  ultimately show ?thesis using flow_totals [OF run _ plain_picks] run by (simp add: Let_def)
qed

text \<open>C27. A batch names its own connections: whatever the order of its events, when it is stored every connection in it has its row, every
  piece of evidence in it is visible, and each new row is decided by all the evidence of its node and address that is in the
  table when the batch is stored, that of the same batch included.\<close>

theorem connections_named:
  assumes "store_batch (meeting (flow_store env) m) b T = Inr T'"
  shows "(\<exists>rows. connection_details (other_tables T') = connection_details (other_tables T) @ rows \<and>
      (\<forall>row \<in> set rows. \<exists>ev \<in> set (ba_Events b). ev_Kind ev = EventConnection \<and> row_for env (ba_NodeID b) (other_tables T') ev row)) \<and>
    (\<forall>ev \<in> set (ba_Events b). (ev_Kind ev = EventConnection \<longrightarrow> event_key env ev \<in> detail_key ` set (connection_details (other_tables T'))) \<and>
      (ev_Kind ev = EventNameEvidence \<longrightarrow> ev_ID ev \<in> er_event ` set (domain_evidence (other_tables T'))))"
proof -
  let ?ins = "insert_events (meeting (flow_store env) m) (ba_NodeID b)" let ?of = "\<lambda>kind. filter (\<lambda>ev. ev_Kind ev = kind) (ba_Events b)"
  let ?later = "?of EventProxyRequest @ ?of EventInterfaceDelta @ ?of EventHealth"
  obtain T0 where T0: "?ins (in_kind_order (ba_Events b)) T0 = Inr T'" "connection_details (other_tables T0) = connection_details (other_tables T)"
    using assms by (cases m) (auto simp: store_batch_def andThen_Inr guarded_op_Inr flow_store_def split: if_splits)
  then obtain T1 T2 where phases: "?ins (?of EventOwnerInventory @ ?of EventNameEvidence) T0 = Inr T1" "?ins (?of EventConnection) T1 = Inr T2"
    "?ins ?later T2 = Inr T'" by (auto simp: in_kind_order_def kind_order_def insert_events_append andThen_Inr)
  have names: "domain_evidence (other_tables T') = domain_evidence (other_tables T1)"
    using insert_events_tables(1) [OF phases(2)] insert_events_tables(1) [OF phases(3)] by (simp add: ball_Un kind_defs)
  have rows: "connection_details (other_tables T1) = connection_details (other_tables T)" "connection_details (other_tables T') = connection_details (other_tables T2)"
    using insert_events_tables(2) [OF phases(1)] insert_events_tables(2) [OF phases(3)] T0(2) by (simp_all add: ball_Un kind_defs)
  have same: "row_for env (ba_NodeID b) (other_tables T1) ev r = row_for env (ba_NodeID b) (other_tables T') ev r" for ev r
    unfolding row_for_def using validEvidence_cong [OF names] by simp
  from connection_phase [OF phases(2)] obtain new where new: "connection_details (other_tables T2) = connection_details (other_tables T1) @ new"
    "\<forall>row \<in> set new. \<exists>ev \<in> set (?of EventConnection). row_for env (ba_NodeID b) (other_tables T1) ev row"
    "\<forall>ev \<in> set (?of EventConnection). event_key env ev \<in> detail_key ` set (connection_details (other_tables T2))" by auto
  have "ev_ID ev \<in> er_event ` set (domain_evidence (other_tables T'))" if "ev \<in> set (ba_Events b)" "ev_Kind ev = EventNameEvidence" for ev
    using insert_events_tables(4) [OF phases(1), of ev] that names by simp
  then show ?thesis using new rows same by (intro conjI exI [of _ new]) auto
qed

theorem connections_named_witness:
  "\<exists>T'. store_batch (meeting (flow_store plain_rows) (\<lambda>op. False, True)) sample_batch (tables empty_store) = Inr T' \<and>
     map (DisplayName \<circ> cr_decision) (connection_details (other_tables T')) = [''a.example''] \<and>
     (\<exists>row. connection_details (other_tables T') = [row] \<and> row_for plain_rows ''n'' (other_tables T') sample_connection row)"
proof -
  have "(case store_batch (meeting (flow_store plain_rows) (\<lambda>op. False, True)) sample_batch (tables empty_store) of
      Inl e \<Rightarrow> False | Inr T' \<Rightarrow> map (DisplayName \<circ> cr_decision) (connection_details (other_tables T')) = [''a.example''])" by code_simp
  then obtain T' where T': "store_batch (meeting (flow_store plain_rows) (\<lambda>op. False, True)) sample_batch (tables empty_store) = Inr T'"
    "map (DisplayName \<circ> cr_decision) (connection_details (other_tables T')) = [''a.example'']" by (auto split: sum.splits)
  from T'(2) obtain row where row: "connection_details (other_tables T') = [row]" by auto
  have start: "connection_details (other_tables (tables empty_store)) = []" by (simp add: empty_store_def empty_flow_def)
  obtain rows where rows: "connection_details (other_tables T') = connection_details (other_tables (tables empty_store)) @ rows"
    "\<forall>row \<in> set rows. \<exists>ev \<in> set (ba_Events sample_batch). ev_Kind ev = EventConnection \<and> row_for plain_rows (ba_NodeID sample_batch) (other_tables T') ev row"
    using connections_named [OF T'(1)] by (elim conjE exE)
  from rows(1) have "rows = [row]" unfolding row start by simp
  then have "row \<in> set rows" by simp
  from bspec [OF rows(2) this] obtain ev where "ev \<in> set (ba_Events sample_batch)" "ev_Kind ev = EventConnection"
    "row_for plain_rows (ba_NodeID sample_batch) (other_tables T') ev row" by (elim bexE conjE)
  moreover from this(1,2) have "ev = sample_connection" by (auto simp: sample_batch_def sample_name_def kind_defs)
  moreover have "ba_NodeID sample_batch = ''n''" by (simp add: sample_batch_def)
  ultimately have "row_for plain_rows ''n'' (other_tables T') sample_connection row" by simp
  then show ?thesis by (intro exI [of _ T'] conjI T' exI [of _ row] row)
qed

text \<open>A proxy request whose upstream is the name of a host with a port is refused unless a container answers to it: the name is compared with a
  column of addresses, which PostgreSQL cannot do. As with a zero byte the whole batch is then refused, now and later.\<close>

theorem named_upstream_refused:
  assumes "picks env" "ev_ProxyRequest ev = Some request" "SplitHostPort (TrimSpace (pr_Upstream request)) = Some (host, portText)"
    "port_of portText = Some port" "re_inet env host = None" "\<forall>row \<in> set (owners T). \<not> running_container node row"
  shows "\<exists>e. insertProxyRequest env node ev T = Inl e"
proof -
  have empty: "filter (\<lambda>row. running_container node row \<and> P row) (owners T) = []" for P using assms(6) by (simp add: filter_empty_conv)
  have none: "re_latest env [] = None" using assms(1) picks_member(1) [of env "[]"] by (cases "re_latest env []") auto
  have "TrimSpace (pr_Upstream request) \<noteq> []" using assms(3) by (auto simp: SplitHostPort_def)
  then have "\<exists>e. resolveUpstreamOwner env (ev_ID ev) node (pr_Upstream request) (ev_ObservedAt ev) T = Inl e"
    using assms(3-5) none by (simp add: resolveUpstreamOwner_def resolve_host_port_def Let_def empty sql_def)
  then show ?thesis using assms(2) by (auto simp: insertProxyRequest_def)
qed

definition named_request :: Event where
  "named_request = zero_Event\<lparr>ev_ID := ''p'', ev_ObservedAt := 60, ev_Kind := EventProxyRequest,
     ev_ProxyRequest := Some \<lparr>pr_Host = ''a.example'', pr_SourceIP = ''1.2.3.4'', pr_Method = ''GET'', pr_Status = 200, pr_BytesSent = 1,
       pr_Upstream = ''app:8080'', pr_DurationMS = 0\<rparr>\<rparr>"

theorem named_upstream_refused_witness:
  "event_validate named_request = None \<and> (\<exists>e. insertProxyRequest plain_rows ''n'' named_request empty_flow = Inl e)"
proof -
  have valid: "event_validate named_request = None" by code_simp
  have "SplitHostPort (TrimSpace ''app:8080'') = Some (''app'', ''8080'')" "port_of ''8080'' = Some 8080" "ParseAddr ''app'' = None" by code_simp+
  then show ?thesis
    using named_upstream_refused [OF plain_picks, of named_request _ "''app''" "''8080''" 8080 empty_flow "''n''"] valid
    by (simp add: named_request_def plain_rows_def empty_flow_def)
qed

end
