(* ===== verification/Scheduler.thy ===== *)
theory Scheduler
  imports Leases Pg_Text
begin

text \<open>
  The jobs of the server, \<^verbatim>\<open>internal/server/scheduler\<close>: leases on named jobs that several server processes share (\<^verbatim>\<open>repository.go\<close>),
  one round of a job (\<^verbatim>\<open>scheduler.go\<close>), and the times at which the rollups of \<^verbatim>\<open>cmd/flowlens-server/main.go\<close> run. Statements may fail
  one by one; the work of a job is a parameter that returns its error.
\<close>

subsection \<open>The table of leases\<close>

abbreviation minute_ns :: go_time where "minute_ns \<equiv> 60 * 1000000000"

abbreviation leaseDuration :: go_time where "leaseDuration \<equiv> 2 * minute_ns"

record job_lease =
  jl_owner :: "string option"
  jl_expires :: "go_time option"
  jl_success :: "go_time option"
  jl_error :: string
  jl_next :: go_time

type_synonym job_leases = "string \<Rightarrow> job_lease option"

datatype job_error = InsertLease | UpdateLease | FinishLease

definition available :: "go_time \<Rightarrow> job_lease \<Rightarrow> bool" where
  "available now l \<longleftrightarrow> jl_next l \<le> now \<and> (jl_owner l = None \<or> (case jl_expires l of Some x \<Rightarrow> x \<le> now | None \<Rightarrow> False))"

text \<open>\<open>insert_ok\<close> and \<open>update_ok\<close>: whether the two statements succeed.\<close>

definition Claim_job :: "bool \<Rightarrow> bool \<Rightarrow> string \<Rightarrow> string \<Rightarrow> go_time \<Rightarrow> go_time \<Rightarrow> job_leases \<Rightarrow> job_leases \<times> bool \<times> job_error option" where
  "Claim_job insert_ok update_ok name owner now duration leases =
     (if \<not> insert_ok then (leases, False, Some InsertLease)
      else
        (let leases = (case leases name of
               None \<Rightarrow> leases(name \<mapsto> \<lparr>jl_owner = None, jl_expires = None, jl_success = None, jl_error = [], jl_next = now\<rparr>)
             | Some l \<Rightarrow> leases) in
         if \<not> update_ok then (leases, False, Some UpdateLease)
         else case leases name of
           Some l \<Rightarrow>
             (if available now l then (leases(name \<mapsto> l\<lparr>jl_owner := Some owner, jl_expires := Some (now + duration)\<rparr>), True, None)
              else (leases, False, None))
         | None \<Rightarrow> (leases, False, None)))"

definition update_own :: "string \<Rightarrow> string \<Rightarrow> (job_lease \<Rightarrow> job_lease) \<Rightarrow> job_leases \<Rightarrow> job_leases" where
  "update_own name owner f leases =
     (case leases name of Some l \<Rightarrow> if jl_owner l = Some owner then leases(name \<mapsto> f l) else leases | None \<Rightarrow> leases)"

definition Heartbeat :: "bool \<Rightarrow> string \<Rightarrow> string \<Rightarrow> go_time \<Rightarrow> job_leases \<Rightarrow> job_leases" where
  "Heartbeat ok name owner expires leases =
     (if ok then update_own name owner (\<lambda>l. l\<lparr>jl_expires := Some expires\<rparr>) leases else leases)"

definition Finish :: "bool \<Rightarrow> string \<Rightarrow> string \<Rightarrow> bool \<Rightarrow> go_time \<Rightarrow> go_time \<Rightarrow> string \<Rightarrow> job_leases \<Rightarrow> job_leases \<times> job_error option" where
  "Finish ok name owner success at_time next_at message leases =
     (let message = take 4096 message in
      if \<not> ok \<or> \<not> pg_string message then (leases, Some FinishLease)
      else (update_own name owner (\<lambda>l. l\<lparr>jl_owner := None, jl_expires := None, jl_next := next_at,
              jl_success := if success then Some at_time else jl_success l, jl_error := message\<rparr>) leases, None))"

subsection \<open>One round of a job\<close>

record Job =
  jb_Name :: string
  jb_Interval :: go_time
  jb_NextRun :: "(go_time \<Rightarrow> go_time) option"

datatype run_failure = RunCanceled string | RunFailed string

fun failure_text :: "run_failure \<Rightarrow> string" where
  "failure_text (RunCanceled s) = s"
| "failure_text (RunFailed s) = s"

definition next_run :: "Job \<Rightarrow> go_time \<Rightarrow> run_failure option \<Rightarrow> go_time" where
  "next_run job finished runErr =
     (let next_at = (case jb_NextRun job of Some f \<Rightarrow> f finished | None \<Rightarrow> finished + jb_Interval job) in
      case runErr of
        None \<Rightarrow> next_at
      | Some (RunCanceled m) \<Rightarrow> finished
      | Some (RunFailed m) \<Rightarrow>
          finished + (if jb_Interval job \<le> 0 \<or> minute_ns < jb_Interval job then minute_ns else jb_Interval job))"

datatype due_error = StoreError job_error | RunError run_failure

text \<open>\<open>meanwhile\<close>: what heartbeats and other schedulers do to the table while the job runs.\<close>

definition RunDue :: "bool \<Rightarrow> bool \<Rightarrow> bool \<Rightarrow> Job \<Rightarrow> run_failure option \<Rightarrow> (job_leases \<Rightarrow> job_leases) \<Rightarrow> string \<Rightarrow> go_time \<Rightarrow> go_time \<Rightarrow>
    job_leases \<Rightarrow> job_leases \<times> bool \<times> due_error option" where
  "RunDue insert_ok update_ok finish_ok job runErr meanwhile owner started finished leases =
     (case Claim_job insert_ok update_ok (jb_Name job) owner started leaseDuration leases of
        (leases', claimed, Some e) \<Rightarrow> (leases', claimed, Some (StoreError e))
      | (leases', False, None) \<Rightarrow> (leases', False, None)
      | (leases', True, None) \<Rightarrow>
          (case Finish finish_ok (jb_Name job) owner (runErr = None) finished (next_run job finished runErr)
              (case runErr of Some e \<Rightarrow> failure_text e | None \<Rightarrow> []) (meanwhile leases') of
             (leases'', e) \<Rightarrow>
               (leases'', True, case runErr of Some r \<Rightarrow> Some (RunError r) | None \<Rightarrow> map_option StoreError e)))"

subsection \<open>The times of the rollups\<close>

definition truncate_time :: "go_time \<Rightarrow> go_time \<Rightarrow> go_time" where
  "truncate_time t d = t - t mod d"

definition nextHourRollup :: "go_time \<Rightarrow> go_time" where
  "nextHourRollup t =
     (let next_at = truncate_time t (60 * minute_ns) + 10 * minute_ns in if \<not> t < next_at then next_at + 60 * minute_ns else next_at)"

definition nextDayRollup :: "go_time \<Rightarrow> go_time" where
  "nextDayRollup t =
     (let next_at = truncate_time t (24 * 60 * minute_ns) + 20 * minute_ns in if \<not> t < next_at then next_at + 24 * 60 * minute_ns else next_at)"

subsection \<open>Schedulers side by side\<close>

datatype job_event =
    JobClaimed string string go_time
  | JobRefused string
  | JobBeat string string go_time
  | JobFinished string string

inductive job_step :: "job_leases \<Rightarrow> job_event \<Rightarrow> job_leases \<Rightarrow> bool" where
  claim: "Claim_job i u name owner now leaseDuration leases = (leases', True, e) \<Longrightarrow> job_step leases (JobClaimed name owner now) leases'"
| refuse: "Claim_job i u name owner now leaseDuration leases = (leases', False, e) \<Longrightarrow> job_step leases (JobRefused name) leases'"
| beat: "job_step leases (JobBeat name owner expires) (Heartbeat True name owner expires leases)"
| finish: "job_step leases (JobFinished name owner) (fst (Finish ok name owner success at_time next_at message leases))"

inductive_cases job_stepE: "job_step leases e leases'"

definition job_holder :: "string \<Rightarrow> job_leases \<Rightarrow> (string \<times> go_time) option" where
  "job_holder name leases = (case leases name of
     Some l \<Rightarrow> (case (jl_owner l, jl_expires l) of (Some p, Some x) \<Rightarrow> Some (p, x) | _ \<Rightarrow> None)
   | None \<Rightarrow> None)"

fun job_view :: "string \<Rightarrow> job_event \<Rightarrow> string lease_event" where
  "job_view name (JobClaimed n p now) = (if n = name then Grant p now (now + leaseDuration) else Elsewhere)"
| "job_view name (JobRefused n) = Elsewhere"
| "job_view name (JobBeat n p expires) = (if n = name then Renew p expires else Elsewhere)"
| "job_view name (JobFinished n p) = (if n = name then Release p else Elsewhere)"

text \<open>A job has an owner exactly while it has an expiry.\<close>

definition job_inv :: "job_leases \<Rightarrow> bool" where
  "job_inv leases \<longleftrightarrow> (\<forall>name l. leases name = Some l \<longrightarrow> (jl_owner l = None \<longleftrightarrow> jl_expires l = None))"

abbreviation new_job :: "go_time \<Rightarrow> job_lease" where
  "new_job now \<equiv> \<lparr>jl_owner = None, jl_expires = None, jl_success = None, jl_error = [], jl_next = now\<rparr>"

lemma Claim_job_cases:
  assumes "Claim_job i u name owner now duration leases = (leases', claimed, e)"
  obtains (same) "\<not> claimed" "leases' = leases"
  | (entered) "\<not> claimed" "leases name = None" "leases' = leases(name \<mapsto> new_job now)"
  | (leased) l where "claimed" "leases name = Some l \<or> leases name = None \<and> l = new_job now" "available now l"
      "leases' = leases(name \<mapsto> l\<lparr>jl_owner := Some owner, jl_expires := Some (now + duration)\<rparr>)"
proof (cases "leases name")
  case None
  show thesis
  proof (cases "i \<and> u")
    case True
    have "available now (new_job now)" by (simp add: available_def)
    then show thesis using leased [of "new_job now"] None True assms by (simp add: Claim_job_def Let_def)
  next
    case False
    then show thesis using same entered None assms by (auto simp: Claim_job_def Let_def split: if_splits)
  qed
next
  case (Some l)
  show thesis
  proof (cases "i \<and> u \<and> available now l")
    case True
    then show thesis using leased [of l] Some assms by (simp add: Claim_job_def Let_def)
  next
    case False
    then show thesis using same Some assms by (auto simp: Claim_job_def Let_def split: if_splits)
  qed
qed

lemma job_step_inv: "job_step leases e leases' \<Longrightarrow> job_inv leases \<Longrightarrow> job_inv leases'"
proof (induction rule: job_step.induct)
  case (claim i u name owner now leases leases' e)
  then show ?case by (elim Claim_job_cases) (auto simp: job_inv_def)
next
  case (refuse i u name owner now leases leases' e)
  then show ?case by (elim Claim_job_cases) (auto simp: job_inv_def)
qed (auto simp: job_inv_def Heartbeat_def Finish_def update_own_def Let_def split: option.splits if_splits)

definition sound_job_step :: "job_leases \<Rightarrow> job_event \<Rightarrow> job_leases \<Rightarrow> bool" where
  "sound_job_step leases e leases' \<longleftrightarrow> job_step leases e leases' \<and> job_inv leases"

lemma runs_sound_job: "runs job_step s es s' \<Longrightarrow> job_inv s \<Longrightarrow> runs sound_job_step s es s'"
  by (induction es arbitrary: s) (auto simp: sound_job_step_def intro: job_step_inv)

lemma job_step_spec:
  assumes "job_step leases e leases'" "job_inv leases"
  shows "lease_spec (job_holder name leases) (job_view name e) (job_holder name leases')"
  using assms
proof (induction rule: job_step.induct)
  case (claim i u n owner now leases leases' e)
  then show ?case
    by (elim Claim_job_cases) (auto simp: job_holder_def available_def job_inv_def split: option.splits)
next
  case (refuse i u n owner now leases leases' e)
  then show ?case by (elim Claim_job_cases) (auto simp: job_holder_def)
next
  case (beat leases n owner expires)
  then have "\<And>l. leases name = Some l \<Longrightarrow> jl_owner l = None \<longleftrightarrow> jl_expires l = None" by (simp add: job_inv_def)
  then show ?case by (auto simp: job_holder_def Heartbeat_def update_own_def split: option.splits)
next
  case (finish leases n owner ok success at_time next_at message)
  then have "\<And>l. leases name = Some l \<Longrightarrow> jl_owner l = None \<longleftrightarrow> jl_expires l = None" by (simp add: job_inv_def)
  then show ?case by (auto simp: job_holder_def Finish_def update_own_def Let_def split: option.splits)
qed

interpretation job: lease_object "job_holder name" sound_job_step "job_view name" for name
  by unfold_locales (auto simp: sound_job_step_def intro: job_step_spec)

subsection \<open>Properties\<close>

text \<open>A job runs in one process at a time: while a process holds a job until some time \<open>y\<close> and neither finishes nor lets a heartbeat
  set an earlier time, no process that asks before \<open>y\<close> gets the job, whatever the processes do with this and other jobs, and the
  lease stays with its holder.\<close>

theorem job_exclusive:
  assumes "job_inv leases" "runs job_step leases es leases'" "job_holder name leases = Some (p, x)" "y \<le> x"
    "\<forall>e \<in> set es. case e of
       JobClaimed n q now \<Rightarrow> n = name \<longrightarrow> now < y
     | JobBeat n q expires \<Rightarrow> n = name \<and> q = p \<longrightarrow> y \<le> expires
     | JobFinished n q \<Rightarrow> n \<noteq> name \<or> q \<noteq> p
     | JobRefused n \<Rightarrow> True"
  shows "(\<forall>q now. JobClaimed name q now \<notin> set es) \<and> (\<exists>x'. y \<le> x' \<and> job_holder name leases' = Some (p, x'))"
proof -
  have "\<forall>e \<in> set es. undisturbed p y (job_view name e)"
  proof
    fix e
    assume "e \<in> set es"
    note bspec [OF assms(5) this]
    then show "undisturbed p y (job_view name e)" by (cases e) auto
  qed
  note kept = job.exclusive [OF runs_sound_job [OF assms(2,1)] assms(3,4) this]
  then have "\<not> is_grant (job_view name (JobClaimed name q now))" if "JobClaimed name q now \<in> set es" for q now using that by blast
  then show ?thesis using kept by auto
qed

definition sample_leases :: job_leases where
  "sample_leases = fst (Claim_job True True ''rollup'' ''a'' 5 leaseDuration (\<lambda>name. None))"

theorem job_exclusive_witness:
  "\<exists>x'. 5 + leaseDuration \<le> x' \<and> job_holder ''rollup'' (Heartbeat True ''rollup'' ''a'' (9 + leaseDuration) sample_leases) = Some (''a'', x')"
proof -
  have "job_inv sample_leases" "job_holder ''rollup'' sample_leases = Some (''a'', 5 + leaseDuration)"
    by (simp_all add: job_inv_def job_holder_def sample_leases_def Claim_job_def available_def)
  moreover have "runs job_step sample_leases [JobBeat ''rollup'' ''a'' (9 + leaseDuration)] (Heartbeat True ''rollup'' ''a'' (9 + leaseDuration) sample_leases)"
    by (simp add: job_step.beat)
  ultimately show ?thesis
    using job_exclusive [of sample_leases "[JobBeat ''rollup'' ''a'' (9 + leaseDuration)]" "Heartbeat True ''rollup'' ''a'' (9 + leaseDuration) sample_leases"
      "''rollup''" "''a''" "5 + leaseDuration" "5 + leaseDuration"] by simp
qed

text \<open>A job is claimed exactly when it is due and nobody holds an unexpired lease on it, so a process that died with a lease delays its
  jobs by at most the two minutes it runs; a job that is not in the table yet is due at once.\<close>

theorem claim_job_exact:
  "fst (snd (Claim_job True True name owner now leaseDuration leases)) \<longleftrightarrow>
     (case leases name of
        None \<Rightarrow> True
      | Some l \<Rightarrow> jl_next l \<le> now \<and> (\<forall>p x. jl_owner l = Some p \<and> jl_expires l = Some x \<longrightarrow> x \<le> now) \<and>
          (jl_owner l \<noteq> None \<longrightarrow> jl_expires l \<noteq> None))"
  by (auto simp: Claim_job_def available_def Let_def split: option.splits)

theorem claim_job_exact_witness:
  "\<not> fst (snd (Claim_job True True ''rollup'' ''b'' 6 leaseDuration sample_leases)) \<and>
   fst (snd (Claim_job True True ''rollup'' ''b'' (5 + leaseDuration) leaseDuration sample_leases))"
  unfolding claim_job_exact by (simp add: sample_leases_def Claim_job_def available_def)

text \<open>What a round of a due job leaves behind when its statements succeed and nobody else touched its lease: the lease is free, the
  outcome is recorded, and the next run is at the time the job asked for after a success, after at most a minute after a failure, and
  at once after a cancellation.\<close>

theorem run_due_outcome:
  assumes "case leases (jb_Name job) of None \<Rightarrow> True | Some l \<Rightarrow> available started l"
    "meanwhile = (\<lambda>ls. Heartbeat hb (jb_Name job) owner expires ls)"
    "\<forall>r. runErr = Some r \<longrightarrow> pg_string (take 4096 (failure_text r))"
  shows "case RunDue True True True job runErr meanwhile owner started finished leases of (leases', worked, e) \<Rightarrow>
      worked \<and> e = map_option RunError runErr \<and> job_holder (jb_Name job) leases' = None \<and>
      (\<exists>l. leases' (jb_Name job) = Some l \<and> jl_owner l = None \<and>
        jl_error l = (case runErr of None \<Rightarrow> [] | Some r \<Rightarrow> take 4096 (failure_text r)) \<and>
        (runErr = None \<longrightarrow> jl_success l = Some finished) \<and>
        jl_next l = (case runErr of
            None \<Rightarrow> (case jb_NextRun job of Some f \<Rightarrow> f finished | None \<Rightarrow> finished + jb_Interval job)
          | Some (RunCanceled m) \<Rightarrow> finished
          | Some (RunFailed m) \<Rightarrow> finished + (if 0 < jb_Interval job then min (jb_Interval job) minute_ns else minute_ns)))"
proof -
  have empty: "pg_string []" by (rule plain_pg_string) (simp add: plain_def)
  then have "pg_string (take 4096 (case runErr of Some e \<Rightarrow> failure_text e | None \<Rightarrow> []))" using assms(3) by (cases runErr) auto
  then show ?thesis
    using assms(1,2)
    by (auto simp: RunDue_def Claim_job_def Finish_def Heartbeat_def update_own_def job_holder_def next_run_def available_def Let_def min_def
      split: option.splits run_failure.splits if_splits)
qed

theorem run_due_outcome_witness:
  "case RunDue True True True \<lparr>jb_Name = ''rollup'', jb_Interval = 60 * minute_ns, jb_NextRun = None\<rparr> (Some (RunFailed ''down'')) (Heartbeat True ''rollup'' ''a'' 9)
       ''a'' 5 7 (\<lambda>name. None) of
     (leases', worked, e) \<Rightarrow> worked \<and> map_option jl_next (leases' ''rollup'') = Some (7 + minute_ns)"
proof -
  let ?job = "\<lparr>jb_Name = ''rollup'', jb_Interval = 60 * minute_ns, jb_NextRun = None\<rparr>"
  have "pg_string (take 4096 ''down'')" by (rule plain_pg_string) (simp add: plain_def)
  then show ?thesis
    using run_due_outcome [where leases = "\<lambda>name. None" and job = ?job and started = 5 and meanwhile = "Heartbeat True ''rollup'' ''a'' 9"
      and hb = True and owner = "''a''" and expires = 9 and runErr = "Some (RunFailed ''down'')" and finished = 7]
    by (auto split: prod.splits)
qed

text \<open>The rollups run ten minutes past every hour and twenty minutes past midnight.\<close>

lemma next_slot:
  fixes t :: int
  assumes "0 < d" "0 \<le> m" "m < d" "n = (if \<not> t < t - t mod d + m then t - t mod d + m + d else t - t mod d + m)"
  shows "t < n \<and> n \<le> t + d \<and> n mod d = m"
proof -
  have "(t - t mod d + m) mod d = m" using assms(1-3) by (simp add: minus_mod_eq_mult_div)
  moreover have "0 \<le> t mod d" "t mod d < d" using assms(1) by auto
  ultimately show ?thesis using assms(2,3) unfolding assms(4) by (auto simp del: pos_mod_sign pos_mod_bound)
qed

text \<open>The next rollup is strictly later than now, at most one period later, and on the slot of the schedule.\<close>

theorem rollup_slots:
  "t < nextHourRollup t \<and> nextHourRollup t \<le> t + 60 * minute_ns \<and> nextHourRollup t mod (60 * minute_ns) = 10 * minute_ns \<and>
   t < nextDayRollup t \<and> nextDayRollup t \<le> t + 24 * 60 * minute_ns \<and> nextDayRollup t mod (24 * 60 * minute_ns) = 20 * minute_ns"
proof -
  have "t < nextHourRollup t \<and> nextHourRollup t \<le> t + 60 * minute_ns \<and> nextHourRollup t mod (60 * minute_ns) = 10 * minute_ns"
    by (rule next_slot) (simp, simp, simp, unfold nextHourRollup_def truncate_time_def Let_def, rule refl)
  moreover have "t < nextDayRollup t \<and> nextDayRollup t \<le> t + 24 * 60 * minute_ns \<and> nextDayRollup t mod (24 * 60 * minute_ns) = 20 * minute_ns"
    by (rule next_slot) (simp, simp, simp, unfold nextDayRollup_def truncate_time_def Let_def, rule refl)
  ultimately show ?thesis by blast
qed

text \<open>The error message is cut to 4096 bytes, not characters: when the cut falls inside a character PostgreSQL refuses the statement, the
  lease is not released and the time of the next run is not set.\<close>

theorem finish_cut_refused:
  assumes "take 4096 message = front @ [c]" "plain front" "128 \<le> (of_char c :: nat)"
  shows "Finish True name owner success at_time next_at message leases = (leases, Some FinishLease)"
proof -
  have "rune_width [c] = 0" using assms(3) by (simp add: Let_def)
  then have "to_valid inv (front @ [c]) = front @ (if inv \<and> front = [] then [] else replacement)" for inv
    using assms(2)
  proof (induction front arbitrary: inv)
    case (Cons d ds)
    have "rune_width (d # (ds @ [c])) = 1" using Cons.prems(2) by (simp add: plain_def)
    then show ?case using Cons by (simp add: plain_def del: rune_width.simps)
  qed (simp del: rune_width.simps)
  then have "ToValidUTF8 (front @ [c]) \<noteq> front @ [c]" by (simp add: ToValidUTF8_def replacement_def)
  then show ?thesis by (simp add: Finish_def pg_string_def assms(1))
qed

theorem finish_cut_refused_witness:
  "Finish True ''rollup'' ''a'' False 7 8 (replicate 4095 CHR ''x'' @ map char_of [233 :: nat, 233]) sample_leases = (sample_leases, Some FinishLease)"
proof (rule finish_cut_refused)
  show "take 4096 (replicate 4095 CHR ''x'' @ map char_of [233 :: nat, 233]) = replicate 4095 CHR ''x'' @ [char_of (233 :: nat)]" by simp
  show "plain (replicate 4095 CHR ''x'')" by (simp add: plain_def list_all_iff)
qed simp

end
