(* ===== verification/Calendar.thy ===== *)
theory Calendar
  imports Scheduler
begin

text \<open>
  What the maintenance of the server uses of Go's calendar: the date of a time, \<^verbatim>\<open>time.Date\<close> with its normalisation of months and days,
  \<^verbatim>\<open>AddDate\<close> and the format of a month. A time is the number of nanoseconds since the first day of the year 1, and all dates are UTC.
\<close>

subsection \<open>Dates\<close>

definition hour_ns :: int where "hour_ns = 60 * minute_ns"
definition day_ns :: int where "day_ns = 24 * hour_ns"

text \<open>The days before the first day of a year.\<close>

definition days_before_year :: "int \<Rightarrow> int" where
  "days_before_year y = 365 * (y - 1) + (y - 1) div 4 - (y - 1) div 100 + (y - 1) div 400"

definition is_leap :: "int \<Rightarrow> bool" where
  "is_leap y \<longleftrightarrow> y mod 4 = 0 \<and> (y mod 100 \<noteq> 0 \<or> y mod 400 = 0)"

definition days_before_month :: "int \<Rightarrow> int \<Rightarrow> int" where
  "days_before_month y m =
     [0, 31, 59, 90, 120, 151, 181, 212, 243, 273, 304, 334] ! nat (m - 1) + (if 2 < m \<and> is_leap y then 1 else 0)"

text \<open>The year of a day: the quotient by the mean length is off by at most one.\<close>

definition year_of_day :: "int \<Rightarrow> int" where
  "year_of_day n =
     (let e = 1 + 400 * n div 146097 in
      if days_before_year (e + 1) \<le> n then e + 1 else if days_before_year e \<le> n then e else e - 1)"

definition month_of_day :: "int \<Rightarrow> int" where
  "month_of_day n =
     (let y = year_of_day n in
      int (length (filter (\<lambda>m. days_before_year y + days_before_month y m \<le> n) [1, 2, 3, 4, 5, 6, 7, 8, 9, 10, 11, 12])))"

text \<open>The day of \<^verbatim>\<open>time.Date(y, m, d, 0, 0, 0, 0, time.UTC)\<close>: months outside 1 to 12 change the year, days outside the month run on.\<close>

definition date_days :: "int \<Rightarrow> int \<Rightarrow> int \<Rightarrow> int" where
  "date_days y m d =
     (let y' = y + (m - 1) div 12; m' = (m - 1) mod 12 + 1 in days_before_year y' + days_before_month y' m' + (d - 1))"

definition day_of_month :: "int \<Rightarrow> int" where
  "day_of_month n = n - date_days (year_of_day n) (month_of_day n) 1 + 1"

definition AddDate :: "go_time \<Rightarrow> int \<Rightarrow> int \<Rightarrow> int \<Rightarrow> go_time" where
  "AddDate t years months days =
     (let n = t div day_ns in
      date_days (year_of_day n + years) (month_of_day n + months) (day_of_month n + days) * day_ns + t mod day_ns)"

definition month_begin :: "go_time \<Rightarrow> go_time" where
  "month_begin t = (let n = t div day_ns in date_days (year_of_day n) (month_of_day n) 1 * day_ns)"

text \<open>A number in a field of a width.\<close>

definition padded_int :: "nat \<Rightarrow> int \<Rightarrow> string" where
  "padded_int w n = (let s = itoa (nat n) in replicate (w - length s) CHR ''0'' @ s)"

text \<open>\<^verbatim>\<open>Format("200601")\<close>.\<close>

definition format_month :: "go_time \<Rightarrow> string" where
  "format_month t = (let n = t div day_ns in padded_int 4 (year_of_day n) @ padded_int 2 (month_of_day n))"

subsection \<open>Lemmas\<close>

lemma day_positive [simp]: "0 < day_ns" "0 < hour_ns"
  by (simp_all add: day_ns_def hour_ns_def)

lemma day_nonzero [simp]: "day_ns \<noteq> 0" "hour_ns \<noteq> 0"
  using day_positive by linarith+

lemma div_pred: "0 < k \<Longrightarrow> (y :: int) div k = (y - 1) div k + (if y mod k = 0 then 1 else 0)"
proof -
  assume k: "0 < k"
  have y: "y = k * (y div k) + y mod k" "0 \<le> y mod k" "y mod k < k" using k by simp_all
  show ?thesis
  proof (cases "y mod k = 0")
    case True
    with y(1) have "y - 1 = k * (y div k - 1) + (k - 1)" by (simp add: right_diff_distrib)
    then have "(y - 1) div k = y div k - 1" using k by (intro int_div_pos_eq [where r = "k - 1"]) auto
    then show ?thesis using True by simp
  next
    case False
    from y have "y - 1 = k * (y div k) + (y mod k - 1)" by linarith
    then have "(y - 1) div k = y div k" using y(2,3) False by (intro int_div_pos_eq [where r = "y mod k - 1"]) auto
    then show ?thesis using False by simp
  qed
qed

lemma year_length: "days_before_year (y + 1) = days_before_year y + (if is_leap y then 366 else 365)"
proof -
  define p q z where "p k = y div k" and "q k = (y - 1) div k" and "z k \<longleftrightarrow> k dvd y" for k
  have d: "p k = q k + (if z k then 1 else 0)" if "0 < k" for k using div_pred [OF that, of y] by (simp only: p_def q_def z_def dvd_eq_mod_eq_0)
  have "days_before_year (y + 1) = 365 * y + p 4 - p 100 + p 400" by (simp add: days_before_year_def p_def)
  moreover have "days_before_year y = 365 * (y - 1) + q 4 - q 100 + q 400" by (simp add: days_before_year_def q_def)
  moreover have "is_leap y \<longleftrightarrow> z 4 \<and> (\<not> z 100 \<or> z 400)" unfolding is_leap_def z_def dvd_eq_mod_eq_0 by blast
  moreover have "z 400 \<Longrightarrow> z 100" "z 100 \<Longrightarrow> z 4" unfolding z_def by (rule dvd_trans [rotated], assumption, simp)+
  moreover have "p 4 = q 4 + (if z 4 then 1 else 0)" "p 100 = q 100 + (if z 100 then 1 else 0)" "p 400 = q 400 + (if z 400 then 1 else 0)"
    by (rule d, simp)+
  ultimately show ?thesis by (cases "z 4"; cases "z 100"; cases "z 400") simp_all
qed

lemma div_range: "0 < k \<Longrightarrow> k * (z div k) \<le> (z :: int) \<and> z < k * (z div k) + k"
proof -
  assume k: "0 < k"
  have "z = k * (z div k) + z mod k" "0 \<le> z mod k" "z mod k < k" using k by simp_all
  then show ?thesis by linarith
qed

lemma days_mean:
  "400 * days_before_year y < 146097 * (y - 1) + 400" "146097 * (y - 1) \<le> 400 * days_before_year y + 700"
  using div_range [of 4 "y - 1"] div_range [of 100 "y - 1"] div_range [of 400 "y - 1"]
  unfolding days_before_year_def by simp_all

lemma year_bounds: "days_before_year (year_of_day n) \<le> n" "n < days_before_year (year_of_day n + 1)"
proof -
  define e where "e = 400 * n div 146097"
  have e: "146097 * e \<le> 400 * n" "400 * n < 146097 * e + 146097" using div_range [of 146097 "400 * n"] unfolding e_def by auto
  have low: "days_before_year e \<le> n" using e(1) days_mean(1) [of e] by (simp add: right_diff_distrib)
  have high: "n < days_before_year (e + 3)" using e(2) days_mean(2) [of "e + 3"] by (simp add: distrib_left)
  have eq: "1 + e + 1 + 1 = e + 3" "1 + e - 1 = e" by simp_all
  show "days_before_year (year_of_day n) \<le> n" "n < days_before_year (year_of_day n + 1)"
    using low high unfolding year_of_day_def Let_def e_def [symmetric]
    by (auto simp: eq algebra_simps)
qed

lemma days_strict: "y < y' \<Longrightarrow> days_before_year y < days_before_year y'"
proof -
  have "days_before_year y < days_before_year (y + 1 + int k)" for k
  proof (induction k)
    case (Suc k)
    then show ?case using year_length [of "y + 1 + int k"] by (simp add: algebra_simps split: if_splits)
  qed (simp add: year_length)
  then show "y < y' \<Longrightarrow> days_before_year y < days_before_year y'"
    by (metis zle_iff_zadd zless_imp_add1_zle)
qed

lemma year_unique:
  assumes "days_before_year y \<le> n" "n < days_before_year (y + 1)"
  shows "year_of_day n = y"
proof (rule ccontr)
  assume "year_of_day n \<noteq> y"
  then have "y + 1 \<le> year_of_day n \<or> year_of_day n + 1 \<le> y" by linarith
  then show False
  proof
    assume "y + 1 \<le> year_of_day n"
    then show False using days_strict [of "y + 1" "year_of_day n"] year_bounds(1) [of n] assms(2)
      by (cases "y + 1 = year_of_day n") auto
  next
    assume "year_of_day n + 1 \<le> y"
    then show False using days_strict [of "year_of_day n + 1" y] year_bounds(2) [of n] assms(1)
      by (cases "year_of_day n + 1 = y") auto
  qed
qed

text \<open>The first days of the months, counted through: month \<open>i\<close> is month \<open>i mod 12 + 1\<close> of year \<open>i div 12\<close>.\<close>

definition month_first :: "int \<Rightarrow> int" where
  "month_first i = date_days (i div 12) (i mod 12 + 1) 1"

lemma date_days_first: "date_days y m d = month_first (12 * y + m - 1) + d - 1"
proof -
  have "(12 * y + m - 1) div 12 = y + (m - 1) div 12" "(12 * y + m - 1) mod 12 = (m - 1) mod 12"
    using div_mult_self2 [of 12 "m - 1" y] mod_mult_self2 [of "m - 1" 12 y] by (simp_all add: algebra_simps)
  then show ?thesis by (simp add: month_first_def date_days_def Let_def)
qed

lemma month_in_year: "0 \<le> k \<Longrightarrow> k < 12 \<Longrightarrow> month_first (12 * y + k) = days_before_year y + days_before_month y (k + 1)"
  by (simp add: month_first_def date_days_def)

lemma month_next_year: "month_first (12 * y + 12) = days_before_year (y + 1)"
  by (simp add: month_first_def date_days_def days_before_month_def)

lemma month_cases:
  assumes "(0 :: int) \<le> k" "k < 12"
  obtains "k = 0" | "k = 1" | "k = 2" | "k = 3" | "k = 4" | "k = 5" | "k = 6" | "k = 7" | "k = 8" | "k = 9" | "k = 10" | "k = 11"
proof -
  have "k = 0 \<or> k = 1 \<or> k = 2 \<or> k = 3 \<or> k = 4 \<or> k = 5 \<or> k = 6 \<or> k = 7 \<or> k = 8 \<or> k = 9 \<or> k = 10 \<or> k = 11"
    using assms by presburger
  then show thesis using that by blast
qed

lemma month_length: "28 \<le> month_first (i + 1) - month_first i" "month_first (i + 1) - month_first i \<le> 31"
proof -
  define y m g where "y = i div 12" and "m = i mod 12" and "g k = month_first (12 * y + k)" for k
  have m: "0 \<le> m" "m < 12" by (simp_all add: m_def)
  have "i = 12 * y + m" by (simp add: y_def m_def)
  then have i: "month_first i = g m" "month_first (i + 1) = g (m + 1)" by (simp_all add: g_def add.assoc)
  have first: "g k = days_before_year y + days_before_month y (k + 1)" if "0 \<le> k" "k < 12" for k
    using month_in_year [OF that] by (simp add: g_def)
  have last: "g 12 = days_before_year y + (if is_leap y then 366 else 365)"
    using year_length [of y] by (simp add: g_def month_next_year)
  show "28 \<le> month_first (i + 1) - month_first i" "month_first (i + 1) - month_first i \<le> 31"
    unfolding i using m by (cases m rule: month_cases; simp add: first last days_before_month_def)+
qed

text \<open>Every day is in the month it is given.\<close>

lemma count_reached:
  fixes f :: "nat \<Rightarrow> int"
  assumes "\<And>i j. i \<le> j \<Longrightarrow> f i \<le> f j" "f 1 \<le> r" "0 < N"
  defines "c \<equiv> \<lambda>N. length (filter (\<lambda>m. f m \<le> r) [1..<N + 1])"
  shows "1 \<le> c N \<and> c N \<le> N \<and> f (c N) \<le> r \<and> (c N < N \<longrightarrow> r < f (c N + 1))"
  using assms(3)
proof (induction N)
  case (Suc N)
  show ?case
  proof (cases "N = 0")
    case True
    then show ?thesis using assms(2) by (simp add: c_def)
  next
    case False
    with Suc have IH: "1 \<le> c N" "c N \<le> N" "f (c N) \<le> r" "c N < N \<longrightarrow> r < f (c N + 1)" by auto
    have step: "c (Suc N) = c N + (if f (Suc N) \<le> r then 1 else 0)" by (simp add: c_def)
    show ?thesis
    proof (cases "f (Suc N) \<le> r")
      case True
      then have "c N = N" using IH(2,4) assms(1) [of "c N + 1" "Suc N"] by (cases "c N < N") auto
      then show ?thesis using True step by simp
    next
      case False
      then show ?thesis using IH step by (cases "c N < N") auto
    qed
  qed
qed simp

lemma month_first_le: "i \<le> j \<Longrightarrow> month_first i \<le> month_first j"
proof -
  have "month_first i \<le> month_first (i + int k)" for k
  proof (induction k)
    case (Suc k)
    then show ?case using month_length(1) [of "i + int k"] by (simp add: algebra_simps)
  qed simp
  from this [of "nat (j - i)"] show "i \<le> j \<Longrightarrow> month_first i \<le> month_first j" by simp
qed

lemma month_of_day_correct:
  "1 \<le> month_of_day n" "month_of_day n \<le> 12"
  "month_first (12 * year_of_day n + month_of_day n - 1) \<le> n" "n < month_first (12 * year_of_day n + month_of_day n)"
proof -
  define y f where "y = year_of_day n" and "f m = month_first (12 * y + int m - 1)" for m
  define c where "c = length (filter (\<lambda>m. f m \<le> n) [1..<12 + 1])"
  have f: "f m = days_before_year y + days_before_month y (int m)" if "1 \<le> m" "m \<le> 12" for m
    using that month_in_year [of "int m - 1" y] by (simp add: f_def algebra_simps)
  have n: "f 1 \<le> n" "n < f 13"
    using year_bounds [of n] month_next_year [of y] f [of 1] by (simp_all add: f_def y_def days_before_month_def add.commute)
  have twelve: "map int [1..<12 + 1] = [1, 2, 3, 4, 5, 6, 7, 8, 9, 10, 11, 12]" by (simp add: upt_rec)
  have "month_of_day n = int (length (filter (\<lambda>m. days_before_year y + days_before_month y m \<le> n) (map int [1..<12 + 1])))"
    unfolding month_of_day_def Let_def twelve y_def ..
  also have "\<dots> = int c"
    unfolding c_def filter_map by (auto simp: comp_def f intro!: arg_cong [where f = length] filter_cong)
  finally have month: "month_of_day n = int c" .
  have "1 \<le> c \<and> c \<le> 12 \<and> f c \<le> n \<and> (c < 12 \<longrightarrow> n < f (c + 1))"
    unfolding c_def using n(1) by (intro count_reached) (auto simp: f_def intro: month_first_le)
  moreover have "n < month_first (12 * y + 12)" using n(2) by (simp add: f_def add.commute)
  ultimately show "1 \<le> month_of_day n" "month_of_day n \<le> 12"
    "month_first (12 * year_of_day n + month_of_day n - 1) \<le> n" "n < month_first (12 * year_of_day n + month_of_day n)"
    using n(2) by (auto simp: month f_def y_def [symmetric] le_less)
qed

text \<open>The number of the month a day is in.\<close>

definition month_index :: "int \<Rightarrow> int" where
  "month_index n = 12 * year_of_day n + month_of_day n - 1"

lemma month_index_bounds: "month_first (month_index n) \<le> n" "n < month_first (month_index n + 1)"
  using month_of_day_correct(3,4) [of n] by (simp_all add: month_index_def)

lemma month_first_mono: "i \<le> j \<Longrightarrow> month_first i + 28 * (j - i) \<le> month_first j \<and> month_first j \<le> month_first i + 31 * (j - i)"
proof -
  have "month_first i + 28 * int k \<le> month_first (i + int k) \<and> month_first (i + int k) \<le> month_first i + 31 * int k" for k
  proof (induction k)
    case (Suc k)
    then show ?case using month_length [of "i + int k"] by (simp add: algebra_simps)
  qed simp
  from this [of "nat (j - i)"] show "i \<le> j \<Longrightarrow> month_first i + 28 * (j - i) \<le> month_first j \<and> month_first j \<le> month_first i + 31 * (j - i)" by simp
qed

lemma month_index_unique:
  assumes "month_first i \<le> n" "n < month_first (i + 1)"
  shows "month_index n = i"
  using assms month_index_bounds [of n] month_first_mono [of "i + 1" "month_index n"] month_first_mono [of "month_index n + 1" i]
  by (cases "i + 1 \<le> month_index n"; cases "month_index n + 1 \<le> i") auto

lemma AddDate_days: "AddDate t 0 0 k = t + k * day_ns"
proof -
  have "date_days (year_of_day n) (month_of_day n) (day_of_month n + k) = n + k" for n
    by (simp add: date_days_first day_of_month_def)
  then show ?thesis by (simp add: AddDate_def Let_def distrib_right)
qed

lemma AddDate_months:
  "AddDate t 0 k 0 = t + (month_first (month_index (t div day_ns) + k) - month_first (month_index (t div day_ns))) * day_ns"
proof -
  have "date_days (year_of_day n) (month_of_day n + k) (day_of_month n) = n + (month_first (month_index n + k) - month_first (month_index n))" for n
    by (simp add: date_days_first day_of_month_def month_index_def algebra_simps)
  then have "AddDate t 0 k 0 = (t div day_ns + (month_first (month_index (t div day_ns) + k) - month_first (month_index (t div day_ns)))) * day_ns + t mod day_ns"
    by (simp add: AddDate_def Let_def)
  then show ?thesis by (simp add: distrib_right)
qed

text \<open>Months back are between 28 and 31 days each.\<close>

lemma AddDate_months_back:
  assumes "0 \<le> k"
  shows "t - 31 * k * day_ns \<le> AddDate t 0 (- k) 0" "AddDate t 0 (- k) 0 \<le> t - 28 * k * day_ns"
proof -
  let ?d = "month_first (month_index (t div day_ns) + - k) - month_first (month_index (t div day_ns))"
  have "- (31 * k) \<le> ?d" "?d \<le> - (28 * k)"
    using assms month_first_mono [of "month_index (t div day_ns) + - k" "month_index (t div day_ns)"] by auto
  then have "- (31 * k) * day_ns \<le> ?d * day_ns" "?d * day_ns \<le> - (28 * k) * day_ns" by (intro mult_right_mono order.strict_implies_order [OF day_positive(1)]; simp)+
  then show "t - 31 * k * day_ns \<le> AddDate t 0 (- k) 0" "AddDate t 0 (- k) 0 \<le> t - 28 * k * day_ns"
    unfolding AddDate_months by linarith+
qed

lemma month_begin_first: "month_begin t = month_first (month_index (t div day_ns)) * day_ns"
  by (simp add: month_begin_def Let_def date_days_first month_index_def)

lemma AddDate_month_begin: "AddDate (month_first i * day_ns) 0 k 0 = month_first (i + k) * day_ns"
proof -
  have "month_index (month_first i) = i" using month_length [of i] by (intro month_index_unique) auto
  then show ?thesis by (simp add: AddDate_months left_diff_distrib)
qed

end
