(* ===== verification/Rollup.thy ===== *)
theory Rollup
  imports Flow_Rows Calendar
begin

text \<open>
  The rollups by hour and day, \<^verbatim>\<open>internal/server/rollup/service.go\<close>: one transaction deletes the rollups of a window and computes them
  again from the totals by minute, with one statement for each of the five tables of \<^verbatim>\<open>event.go\<close>. A table of minutes is the list of its rows, in the
  keys and counts of \<open>Ingest\<close> and \<open>Flow_Rows\<close>; the text of a \<^verbatim>\<open>jsonb\<close> object is a parameter, and any statement may fail.
\<close>

subsection \<open>The tables\<close>

type_synonym ('k, 'l) minute_rows = "('k \<times> 'l \<times> counts) list"

record minute_tables =
  mt_traffic :: "((string \<times> go_time \<times> string) \<times> int \<times> int) list"
  mt_owner :: "(owner_key, string \<times> string) minute_rows"
  mt_domain :: "(domain_key, unit) minute_rows"
  mt_flow :: "(flow_key, string \<times> NetworkInfo) minute_rows"
  mt_status :: "(status_key, unit) minute_rows"

record rollup_row =
  ru_resolution :: string
  ru_node :: string
  ru_bucket :: go_time
  ru_kind :: string
  ru_key :: string
  ru_direction :: string
  ru_status :: int
  ru_bytes :: int
  ru_packets :: int
  ru_connections :: int
  ru_requests :: int
  ru_min :: go_time
  ru_max :: go_time

type_synonym rollup_pk = "string \<times> string \<times> go_time \<times> string \<times> string \<times> string \<times> int"

definition ru_pk :: "rollup_row \<Rightarrow> rollup_pk" where
  "ru_pk r = (ru_resolution r, ru_node r, ru_bucket r, ru_kind r, ru_key r, ru_direction r, ru_status r)"

definition ResolutionHour :: string where "ResolutionHour = ''hour''"
definition ResolutionDay :: string where "ResolutionDay = ''day''"

text \<open>\<^verbatim>\<open>date_trunc(resolution, t, 'UTC')\<close>.\<close>

definition resolution_ns :: "string \<Rightarrow> int" where
  "resolution_ns res = (if res = ResolutionHour then hour_ns else day_ns)"

definition date_trunc :: "string \<Rightarrow> go_time \<Rightarrow> go_time" where
  "date_trunc res t = truncate_time t (resolution_ns res)"

subsection \<open>The statements\<close>

text \<open>The columns a statement groups by besides node, bucket and direction, from which it makes the key of the dimension.\<close>

datatype dimension =
    TotalDim
  | OwnerDim (dim_owner: string) (dim_owner_kind: string) (dim_owner_name: string)
  | DomainDim (dim_domain: string) (dim_confidence: string)
  | FlowDim (flow_columns: "string list") (flow_remote: int)
  | HostDim (dim_host: string)

datatype json_value = JText string | JNumber int

type_synonym json_text = "(string \<times> json_value) list \<Rightarrow> string"

fun dimension_kind :: "dimension \<Rightarrow> string" where
  "dimension_kind TotalDim = ''traffic''"
| "dimension_kind (OwnerDim i k n) = ''owner''"
| "dimension_kind (DomainDim d c) = ''domain''"
| "dimension_kind (FlowDim cs p) = ''flow''"
| "dimension_kind (HostDim h) = ''proxy_status''"

fun dimension_key :: "json_text \<Rightarrow> dimension \<Rightarrow> string" where
  "dimension_key json TotalDim = ''total''"
| "dimension_key json (OwnerDim i k n) = json [(''id'', JText i), (''kind'', JText k), (''name'', JText n)]"
| "dimension_key json (DomainDim d c) = json [(''domain'', JText d), (''confidence'', JText c)]"
| "dimension_key json (FlowDim cs p) =
     json (zip [''owner_id'', ''owner_name'', ''source'', ''destination'', ''domain'', ''confidence'', ''protocol''] (map JText cs) @
       [(''port'', JNumber p)])"
| "dimension_key json (HostDim h) = h"

text \<open>A row of a table of minutes, in the columns its statement reads.\<close>

record source_row =
  sr_node :: string
  sr_bucket :: go_time
  sr_dim :: dimension
  sr_direction :: string
  sr_status :: int
  sr_bytes :: int
  sr_packets :: int
  sr_connections :: int
  sr_requests :: int

fun traffic_source :: "(string \<times> go_time \<times> string) \<times> int \<times> int \<Rightarrow> source_row" where
  "traffic_source ((node, bucket, direction), bs, ps) =
     \<lparr>sr_node = node, sr_bucket = bucket, sr_dim = TotalDim, sr_direction = direction, sr_status = 0, sr_bytes = bs, sr_packets = ps,
      sr_connections = 0, sr_requests = 0\<rparr>"

fun owner_source :: "owner_key \<times> (string \<times> string) \<times> counts \<Rightarrow> source_row" where
  "owner_source ((node, bucket, owner, direction), (kind, name), (bs, cs, rs)) =
     \<lparr>sr_node = node, sr_bucket = bucket, sr_dim = OwnerDim owner kind name, sr_direction = direction, sr_status = 0, sr_bytes = bs, sr_packets = 0,
      sr_connections = cs, sr_requests = 0\<rparr>"

fun domain_source :: "domain_key \<times> unit \<times> counts \<Rightarrow> source_row" where
  "domain_source ((node, bucket, direction, domain, confidence), u, (bs, cs, rs)) =
     \<lparr>sr_node = node, sr_bucket = bucket, sr_dim = DomainDim domain confidence, sr_direction = direction, sr_status = 0, sr_bytes = bs, sr_packets = 0,
      sr_connections = cs, sr_requests = rs\<rparr>"

fun flow_source :: "flow_key \<times> (string \<times> NetworkInfo) \<times> counts \<Rightarrow> source_row" where
  "flow_source (k, (name, network), (bs, cs, rs)) =
     \<lparr>sr_node = fk_node k, sr_bucket = fk_bucket k,
      sr_dim = FlowDim [fk_owner k, name, fk_source k, fk_destination k, fk_domain k, fk_confidence k, fk_protocol k] (fk_port k),
      sr_direction = fk_direction k, sr_status = 0, sr_bytes = bs, sr_packets = 0, sr_connections = cs, sr_requests = rs\<rparr>"

fun status_source :: "status_key \<times> unit \<times> counts \<Rightarrow> source_row" where
  "status_source ((node, bucket, host, status), u, (bs, cs, rs)) =
     \<lparr>sr_node = node, sr_bucket = bucket, sr_dim = HostDim host, sr_direction = ''inbound'', sr_status = status, sr_bytes = bs, sr_packets = 0,
      sr_connections = 0, sr_requests = rs\<rparr>"

definition statements :: "minute_tables \<Rightarrow> source_row list list" where
  "statements M = [map traffic_source (mt_traffic M), map owner_source (mt_owner M), map domain_source (mt_domain M), map flow_source (mt_flow M),
     map status_source (mt_status M)]"

type_synonym group = "string \<times> go_time \<times> dimension \<times> string \<times> int"

definition group_of :: "string \<Rightarrow> source_row \<Rightarrow> group" where
  "group_of res s = (sr_node s, date_trunc res (sr_bucket s), sr_dim s, sr_direction s, sr_status s)"

definition in_window :: "go_time \<Rightarrow> go_time \<Rightarrow> go_time \<Rightarrow> bool" where
  "in_window start stop t \<longleftrightarrow> start \<le> t \<and> t < stop"

fun rollup_of :: "json_text \<Rightarrow> string \<Rightarrow> source_row list \<Rightarrow> group \<Rightarrow> rollup_row" where
  "rollup_of json res ss (node, bucket, d, direction, status) =
     (let rs = filter (\<lambda>s. group_of res s = (node, bucket, d, direction, status)) ss in
      \<lparr>ru_resolution = res, ru_node = node, ru_bucket = bucket, ru_kind = dimension_kind d, ru_key = dimension_key json d,
       ru_direction = direction, ru_status = status, ru_bytes = sum_list (map sr_bytes rs), ru_packets = sum_list (map sr_packets rs),
       ru_connections = sum_list (map sr_connections rs), ru_requests = sum_list (map sr_requests rs),
       ru_min = Min (set (map sr_bucket rs)), ru_max = Max (set (map sr_bucket rs))\<rparr>)"

definition statement_rows :: "json_text \<Rightarrow> string \<Rightarrow> go_time \<Rightarrow> go_time \<Rightarrow> source_row list \<Rightarrow> rollup_row list" where
  "statement_rows json res start stop ss =
     (let rs = filter (\<lambda>s. in_window start stop (sr_bucket s)) ss in map (rollup_of json res rs) (remdups (map (group_of res) rs)))"

subsection \<open>The transaction\<close>

datatype rollup_op = RollupBegin | RollupDelete | RollupInsert nat | RollupCommit

datatype rollup_error =
    BadResolution
  | EmptyWindow
  | RollupFailed rollup_op
  | RollupOutOfRange
  | RollupDuplicate

text \<open>The checks of \<^verbatim>\<open>traffic_rollups\<close> and the range of \<^verbatim>\<open>bigint\<close>.\<close>

definition rollup_checks :: "rollup_row \<Rightarrow> bool" where
  "rollup_checks r \<longleftrightarrow> list_all (\<lambda>n. 0 \<le> n \<and> n \<le> bigint_max) [ru_bytes r, ru_packets r, ru_connections r, ru_requests r]"

definition insert_rollups :: "rollup_row list \<Rightarrow> rollup_row list \<Rightarrow> rollup_error + rollup_row list" where
  "insert_rollups new R =
     (if \<not> list_all rollup_checks new then Inl RollupOutOfRange
      else if \<not> distinct (map ru_pk new) \<or> set (map ru_pk new) \<inter> set (map ru_pk R) \<noteq> {} then Inl RollupDuplicate
      else Inr (R @ new))"

fun run_statements :: "(rollup_op \<Rightarrow> bool) \<Rightarrow> json_text \<Rightarrow> string \<Rightarrow> go_time \<Rightarrow> go_time \<Rightarrow> nat \<Rightarrow> source_row list list \<Rightarrow> rollup_row list \<Rightarrow>
    rollup_error + rollup_row list" where
  "run_statements fails json res start stop i [] R = Inr R"
| "run_statements fails json res start stop i (ss # rest) R =
     (if fails (RollupInsert i) then Inl (RollupFailed (RollupInsert i))
      else andThen (insert_rollups (statement_rows json res start stop ss) R) (run_statements fails json res start stop (Suc i) rest))"

definition rolled :: "string \<Rightarrow> go_time \<Rightarrow> go_time \<Rightarrow> rollup_row \<Rightarrow> bool" where
  "rolled res start stop r \<longleftrightarrow> ru_resolution r = res \<and> in_window start stop (ru_bucket r)"

text \<open>A failed commit may have taken effect.\<close>

definition RollupRange :: "(rollup_op \<Rightarrow> bool) \<Rightarrow> bool \<Rightarrow> json_text \<Rightarrow> string \<Rightarrow> go_time \<Rightarrow> go_time \<Rightarrow> minute_tables \<Rightarrow> rollup_row list \<Rightarrow>
    rollup_row list \<times> rollup_error option" where
  "RollupRange fails applied json res start stop M R =
     (if res \<noteq> ResolutionHour \<and> res \<noteq> ResolutionDay then (R, Some BadResolution)
      else if \<not> start < stop then (R, Some EmptyWindow)
      else if fails RollupBegin then (R, Some (RollupFailed RollupBegin))
      else if fails RollupDelete then (R, Some (RollupFailed RollupDelete))
      else
        (case run_statements fails json res start stop 0 (statements M) (filter (\<lambda>r. \<not> rolled res start stop r) R) of
           Inl e \<Rightarrow> (R, Some e)
         | Inr R' \<Rightarrow> if fails RollupCommit then (if applied then R' else R, Some (RollupFailed RollupCommit)) else (R', None)))"

text \<open>The jobs of \<^verbatim>\<open>cmd/flowlens-server/main.go\<close>: the last two hours and the last two days that are over.\<close>

definition hour_job :: "(rollup_op \<Rightarrow> bool) \<Rightarrow> bool \<Rightarrow> json_text \<Rightarrow> go_time \<Rightarrow> minute_tables \<Rightarrow> rollup_row list \<Rightarrow> rollup_row list \<times> rollup_error option" where
  "hour_job fails applied json now M R =
     (let stop = truncate_time now hour_ns in RollupRange fails applied json ResolutionHour (stop - 2 * hour_ns) stop M R)"

definition day_job :: "(rollup_op \<Rightarrow> bool) \<Rightarrow> bool \<Rightarrow> json_text \<Rightarrow> go_time \<Rightarrow> minute_tables \<Rightarrow> rollup_row list \<Rightarrow> rollup_row list \<times> rollup_error option" where
  "day_job fails applied json now M R =
     (let stop = truncate_time now day_ns in RollupRange fails applied json ResolutionDay (stop - 48 * hour_ns) stop M R)"

subsection \<open>Sums by group\<close>

lemma sum_one: "distinct gs \<Longrightarrow> (\<Sum>g\<leftarrow>gs. if g = x then c g else 0) = (if x \<in> set gs then c x else (0 :: int))"
  by (induction gs) auto

text \<open>The sums of the groups add up to the sum of the whole.\<close>

lemma sum_by_group:
  assumes "distinct gs" "h ` set rs \<subseteq> set gs"
  shows "(\<Sum>g\<leftarrow>filter P gs. \<Sum>r\<leftarrow>filter (\<lambda>r. h r = g) rs. f r) = (\<Sum>r\<leftarrow>filter (\<lambda>r. P (h r)) rs. (f r :: int))"
  using assms(2)
proof (induction rs)
  case Nil
  show ?case by (induction gs) auto
next
  case (Cons r rs)
  have "(\<Sum>g\<leftarrow>filter P gs. \<Sum>r\<leftarrow>filter (\<lambda>r. h r = g) (r # rs). f r) =
      (\<Sum>g\<leftarrow>filter P gs. (if g = h r then f r else 0) + (\<Sum>r\<leftarrow>filter (\<lambda>r. h r = g) rs. f r))"
    by (intro arg_cong [where f = sum_list] map_cong) auto
  also have "\<dots> = (if P (h r) then f r else 0) + (\<Sum>g\<leftarrow>filter P gs. \<Sum>r\<leftarrow>filter (\<lambda>r. h r = g) rs. f r)"
    using assms(1) Cons.prems sum_one [of "filter P gs" "h r" "\<lambda>_. f r"] by (simp add: sum_list_addf)
  finally show ?case using Cons by simp
qed

text \<open>A table of totals by key, listed row by row, adds up to what it was made from.\<close>

definition enumerates :: "('k \<times> 'v) list \<Rightarrow> ('k \<rightharpoonup> 'v) \<Rightarrow> bool" where
  "enumerates rows m \<longleftrightarrow> distinct (map fst rows) \<and> map_of rows = m"

lemma enumerated_sum:
  assumes rows: "enumerates rows m"
    and some: "\<And>k. (m k = None) = (filter (\<lambda>x. h x = k) xs = [])"
    and adds: "\<And>k v. m k = Some v \<Longrightarrow> \<phi> v = (\<Sum>x\<leftarrow>filter (\<lambda>x. h x = k) xs. f x)"
  shows "(\<Sum>row\<leftarrow>filter (\<lambda>row. P (fst row)) rows. \<phi> (snd row)) = (\<Sum>x\<leftarrow>filter (\<lambda>x. P (h x)) xs. (f x :: int))"
proof -
  have d: "distinct (map fst rows)" and m: "map_of rows = m" using rows by (simp_all add: enumerates_def)
  have keys: "h ` set xs \<subseteq> set (map fst rows)"
  proof
    fix k assume "k \<in> h ` set xs"
    then have "m k \<noteq> None" by (auto simp: some filter_empty_conv)
    then show "k \<in> set (map fst rows)" using m map_of_eq_None_iff [of rows k] by auto
  qed
  have "\<phi> (snd row) = (\<Sum>x\<leftarrow>filter (\<lambda>x. h x = fst row) xs. f x)" if "row \<in> set rows" for row
    using that d m by (intro adds) (auto simp: map_of_is_SomeI)
  then have "(\<Sum>row\<leftarrow>filter (\<lambda>row. P (fst row)) rows. \<phi> (snd row)) =
      (\<Sum>row\<leftarrow>filter (\<lambda>row. P (fst row)) rows. \<Sum>x\<leftarrow>filter (\<lambda>x. h x = fst row) xs. f x)"
    by (intro arg_cong [where f = sum_list] map_cong) auto
  also have "\<dots> = (\<Sum>k\<leftarrow>filter P (map fst rows). \<Sum>x\<leftarrow>filter (\<lambda>x. h x = k) xs. f x)"
    by (simp add: filter_map comp_def)
  also have "\<dots> = (\<Sum>x\<leftarrow>filter (\<lambda>x. P (h x)) xs. f x)" using d keys by (rule sum_by_group)
  finally show ?thesis .
qed

subsection \<open>Buckets\<close>

lemma resolution_positive [simp]: "0 < resolution_ns res"
  by (simp add: resolution_ns_def)

lemma truncate_bounds: "0 < d \<Longrightarrow> truncate_time t d \<le> t \<and> t < truncate_time t d + d \<and> truncate_time t d mod d = 0"
  using div_range [of d t] by (simp add: truncate_time_def minus_mod_eq_mult_div)

lemma truncate_aligned:
  assumes "0 < d" "a mod d = 0"
  shows "a \<le> truncate_time t d \<longleftrightarrow> a \<le> t"
proof -
  obtain i where i: "a = d * i" using assms(2) by (metis mod_eq_0_iff_dvd dvd_def)
  have "i \<le> t div d" if "d * i \<le> t"
  proof -
    have "d * i < d * (t div d + 1)" using that div_range [OF assms(1), of t] by (simp add: distrib_left)
    then show ?thesis using assms(1) by (simp add: mult_less_cancel_left_pos)
  qed
  moreover have "d * i \<le> t" if "i \<le> t div d"
    using mult_left_mono [OF that, of d] div_range [OF assms(1), of t] assms(1) by linarith
  ultimately show ?thesis
    using assms(1) by (auto simp: i truncate_time_def minus_mod_eq_mult_div mult_le_cancel_left_pos)
qed

lemma truncate_unique:
  assumes "0 < d" "b mod d = 0" "b \<le> t" "t < b + d"
  shows "truncate_time t d = b"
proof -
  obtain i where i: "b = d * i" using assms(2) by (metis mod_eq_0_iff_dvd dvd_def)
  have "t div d = i" using assms by (intro int_div_pos_eq [where r = "t - b"]) (auto simp: i)
  then show ?thesis by (simp add: truncate_time_def minus_mod_eq_mult_div i)
qed

lemma truncate_twice: "0 < m \<Longrightarrow> m dvd d \<Longrightarrow> 0 < d \<Longrightarrow> truncate_time (truncate_time t m) d = truncate_time t d"
proof (rule truncate_unique)
  assume m: "0 < m" "m dvd d" "0 < d"
  have t: "truncate_time t d \<le> t" "t < truncate_time t d + d" "truncate_time t d mod d = 0" using truncate_bounds [OF m(3), of t] by auto
  show "truncate_time t d mod d = 0" by (rule t)
  have "truncate_time t d mod m = 0" using t(3) m(2) by (meson dvd_trans mod_eq_0_iff_dvd)
  then show "truncate_time t d \<le> truncate_time t m" using truncate_aligned [OF m(1), of "truncate_time t d" t] t(1) by simp
  show "truncate_time t m < truncate_time t d + d" using truncate_bounds [OF m(1), of t] t(2) by linarith
qed

lemma date_trunc_minute: "date_trunc res (truncate_minute t) = date_trunc res t"
proof -
  have "truncate_minute t = truncate_time t minute" by (simp add: truncate_minute_def truncate_time_def)
  moreover have "minute dvd resolution_ns res"
    by (auto simp: resolution_ns_def day_ns_def hour_ns_def)
  ultimately show ?thesis unfolding date_trunc_def by (simp add: truncate_twice)
qed

lemma date_trunc_window:
  assumes "start mod resolution_ns res = 0" "stop mod resolution_ns res = 0"
  shows "in_window start stop (date_trunc res t) \<longleftrightarrow> in_window start stop t"
  using truncate_aligned [OF resolution_positive assms(1), of t] truncate_aligned [OF resolution_positive assms(2), of t]
  by (auto simp: in_window_def date_trunc_def not_le [symmetric])

subsection \<open>The result of a transaction\<close>

abbreviation new_rollups :: "json_text \<Rightarrow> string \<Rightarrow> go_time \<Rightarrow> go_time \<Rightarrow> minute_tables \<Rightarrow> rollup_row list" where
  "new_rollups json res start stop M \<equiv> concat (map (statement_rows json res start stop) (statements M))"

abbreviation keep_rollups :: "string \<Rightarrow> go_time \<Rightarrow> go_time \<Rightarrow> rollup_row list \<Rightarrow> rollup_row list" where
  "keep_rollups res start stop R \<equiv> filter (\<lambda>r. \<not> rolled res start stop r) R"

lemma insert_rollups_Inr:
  "insert_rollups new R = Inr R' \<longleftrightarrow>
     list_all rollup_checks new \<and> distinct (map ru_pk new) \<and> set (map ru_pk new) \<inter> set (map ru_pk R) = {} \<and> R' = R @ new"
  by (auto simp: insert_rollups_def)

lemma run_statements_Inr:
  assumes "run_statements fails json res start stop i sss R = Inr R'"
  shows "R' = R @ concat (map (statement_rows json res start stop) sss)"
    "list_all rollup_checks (concat (map (statement_rows json res start stop) sss))"
    "distinct (map ru_pk R) \<Longrightarrow> distinct (map ru_pk R')"
proof -
  have "R' = R @ concat (map (statement_rows json res start stop) sss) \<and> list_all rollup_checks (concat (map (statement_rows json res start stop) sss)) \<and>
      (distinct (map ru_pk R) \<longrightarrow> distinct (map ru_pk R'))"
    using assms
  proof (induction sss arbitrary: i R)
    case (Cons ss sss)
    let ?new = "statement_rows json res start stop ss"
    have new: "list_all rollup_checks ?new" "distinct (map ru_pk ?new)" "set (map ru_pk ?new) \<inter> set (map ru_pk R) = {}"
      and run: "run_statements fails json res start stop (Suc i) sss (R @ ?new) = Inr R'"
      using Cons.prems by (auto simp: andThen_Inr insert_rollups_Inr split: if_splits)
    have "distinct (map ru_pk R) \<longrightarrow> distinct (map ru_pk (R @ ?new))" using new by auto
    with Cons.IH [OF run] have R': "R' = (R @ ?new) @ concat (map (statement_rows json res start stop) sss)"
      "list_all rollup_checks (concat (map (statement_rows json res start stop) sss))" "distinct (map ru_pk R) \<longrightarrow> distinct (map ru_pk R')"
      by blast+
    show ?case using R'(1) new(1) R'(2) by (intro conjI R'(3)) simp_all
  qed simp
  then show "R' = R @ concat (map (statement_rows json res start stop) sss)"
    "list_all rollup_checks (concat (map (statement_rows json res start stop) sss))"
    "distinct (map ru_pk R) \<Longrightarrow> distinct (map ru_pk R')"
    by blast+
qed

lemma RollupRange_success:
  assumes "RollupRange fails applied json res start stop M R = (R', None)"
  shows "R' = keep_rollups res start stop R @ new_rollups json res start stop M"
    "list_all rollup_checks (new_rollups json res start stop M)" "distinct (map ru_pk R) \<Longrightarrow> distinct (map ru_pk R')"
    "res = ResolutionHour \<or> res = ResolutionDay"
proof -
  have run: "run_statements fails json res start stop 0 (statements M) (keep_rollups res start stop R) = Inr R'"
    and "res = ResolutionHour \<or> res = ResolutionDay"
    using assms by (auto simp: RollupRange_def split: if_splits sum.splits)
  then show "R' = keep_rollups res start stop R @ new_rollups json res start stop M"
    "list_all rollup_checks (new_rollups json res start stop M)" "distinct (map ru_pk R) \<Longrightarrow> distinct (map ru_pk R')"
    "res = ResolutionHour \<or> res = ResolutionDay"
    using run_statements_Inr [OF run] by (simp_all add: distinct_map_filter)
qed

text \<open>Without success the table is as before, unless the commit took effect unnoticed.\<close>

lemma RollupRange_failure:
  assumes "RollupRange fails applied json res start stop M R = (R', Some e)"
  shows "R' = R \<or> e = RollupFailed RollupCommit \<and> applied \<and>
    RollupRange (fails(RollupCommit := False)) applied json res start stop M R = (R', None)"
proof -
  have "run_statements (fails(RollupCommit := False)) json res start stop i sss R = run_statements fails json res start stop i sss R" for i sss R
    by (induction sss arbitrary: i R) (auto intro: arg_cong [where f = "andThen _"])
  then show ?thesis using assms by (auto simp: RollupRange_def split: if_splits sum.splits)
qed

subsection \<open>What is rolled up\<close>

text \<open>A column of the rollups and the column of the minutes it adds up.\<close>

definition measures :: "((rollup_row \<Rightarrow> int) \<times> (source_row \<Rightarrow> int)) list" where
  "measures = [(ru_bytes, sr_bytes), (ru_packets, sr_packets), (ru_connections, sr_connections), (ru_requests, sr_requests)]"

definition rollup_total :: "(rollup_row \<Rightarrow> int) \<Rightarrow> string \<Rightarrow> string \<Rightarrow> string \<Rightarrow> string \<Rightarrow> go_time \<Rightarrow> rollup_row list \<Rightarrow> int" where
  "rollup_total f res node kind direction b R =
     (\<Sum>r\<leftarrow>filter (\<lambda>r. ru_resolution r = res \<and> ru_node r = node \<and> ru_kind r = kind \<and> ru_direction r = direction \<and> ru_bucket r = b) R. f r)"

definition minutes_total :: "(source_row \<Rightarrow> int) \<Rightarrow> string \<Rightarrow> string \<Rightarrow> string \<Rightarrow> string \<Rightarrow> go_time \<Rightarrow> minute_tables \<Rightarrow> int" where
  "minutes_total g res node kind direction b M =
     (\<Sum>s\<leftarrow>filter (\<lambda>s. sr_node s = node \<and> dimension_kind (sr_dim s) = kind \<and> sr_direction s = direction \<and> date_trunc res (sr_bucket s) = b)
       (concat (statements M)). g s)"

declare rollup_of.simps [simp del]

lemma rollup_of_fields [simp]:
  "ru_resolution (rollup_of json res ss g) = res" "ru_node (rollup_of json res ss g) = fst g" "ru_bucket (rollup_of json res ss g) = fst (snd g)"
  "ru_kind (rollup_of json res ss g) = dimension_kind (fst (snd (snd g)))" "ru_direction (rollup_of json res ss g) = fst (snd (snd (snd g)))"
  "(f, h) \<in> set measures \<Longrightarrow> f (rollup_of json res ss g) = (\<Sum>s\<leftarrow>filter (\<lambda>s. group_of res s = g) ss. h s)"
  by (cases g; auto simp: rollup_of.simps Let_def measures_def)+

lemma statement_total:
  assumes "(f, h) \<in> set measures"
  shows "rollup_total f res node kind direction b (statement_rows json res start stop ss) =
    (\<Sum>s\<leftarrow>filter (\<lambda>s. sr_node s = node \<and> dimension_kind (sr_dim s) = kind \<and> sr_direction s = direction \<and> date_trunc res (sr_bucket s) = b)
       (filter (\<lambda>s. in_window start stop (sr_bucket s)) ss). h s)"
proof -
  define rs where "rs = filter (\<lambda>s. in_window start stop (sr_bucket s)) ss"
  define P where "P = (\<lambda>g :: group. fst g = node \<and> dimension_kind (fst (snd (snd g))) = kind \<and> fst (snd (snd (snd g))) = direction \<and> fst (snd g) = b)"
  have "rollup_total f res node kind direction b (statement_rows json res start stop ss) =
      (\<Sum>g\<leftarrow>filter P (remdups (map (group_of res) rs)). \<Sum>s\<leftarrow>filter (\<lambda>s. group_of res s = g) rs. h s)"
    using assms
    by (simp add: rollup_total_def statement_rows_def rs_def [symmetric] Let_def filter_map comp_def P_def conj_commute)
  also have "\<dots> = (\<Sum>s\<leftarrow>filter (\<lambda>s. P (group_of res s)) rs. h s)" by (rule sum_by_group) auto
  finally show ?thesis by (simp add: P_def group_of_def rs_def)
qed

lemma rollup_total_append: "rollup_total f res node kind direction b (R @ S) =
    rollup_total f res node kind direction b R + rollup_total f res node kind direction b S"
  by (simp add: rollup_total_def)

lemma rollup_total_concat:
  "rollup_total f res node kind direction b (concat Rs) = (\<Sum>R\<leftarrow>Rs. rollup_total f res node kind direction b R)"
  by (induction Rs) (simp_all add: rollup_total_append rollup_total_def)

lemma new_total:
  assumes "(f, h) \<in> set measures" "start mod resolution_ns res = 0" "stop mod resolution_ns res = 0" "in_window start stop b"
  shows "rollup_total f res node kind direction b (new_rollups json res start stop M) = minutes_total h res node kind direction b M"
proof -
  let ?Q = "\<lambda>s. sr_node s = node \<and> dimension_kind (sr_dim s) = kind \<and> sr_direction s = direction \<and> date_trunc res (sr_bucket s) = b"
  have drop: "filter ?Q (filter (\<lambda>s. in_window start stop (sr_bucket s)) ss) = filter ?Q ss" for ss
    using date_trunc_window [OF assms(2,3)] assms(4) by (auto intro!: filter_cong)
  have "rollup_total f res node kind direction b (statement_rows json res start stop ss) = (\<Sum>s\<leftarrow>filter ?Q ss. h s)" for ss
    unfolding statement_total [OF assms(1)] drop ..
  then have "rollup_total f res node kind direction b (concat (map (statement_rows json res start stop) sss)) = (\<Sum>s\<leftarrow>filter ?Q (concat sss). h s)" for sss
    by (induction sss) (simp_all add: rollup_total_append rollup_total_def)
  then show ?thesis by (simp add: minutes_total_def)
qed

lemma kept_total: "in_window start stop b \<Longrightarrow> rollup_total f res node kind direction b (keep_rollups res start stop R) = 0"
proof -
  assume "in_window start stop b"
  then have "filter (\<lambda>r. ru_resolution r = res \<and> ru_node r = node \<and> ru_kind r = kind \<and> ru_direction r = direction \<and> ru_bucket r = b)
      (keep_rollups res start stop R) = []"
    by (auto simp: rolled_def filter_empty_conv)
  then show ?thesis by (simp only: rollup_total_def list.map sum_list.Nil)
qed

lemma statement_row_bucket:
  assumes "r \<in> set (new_rollups json res start stop M)" "start mod resolution_ns res = 0" "stop mod resolution_ns res = 0"
  shows "rolled res start stop r"
proof -
  obtain ss s where "r = rollup_of json res ss (group_of res s)" "in_window start stop (sr_bucket s)"
    using assms(1) by (auto simp: statement_rows_def Let_def)
  then show ?thesis using date_trunc_window [OF assms(2,3)] by (simp add: rolled_def group_of_def)
qed

lemma RollupRange_total:
  assumes "RollupRange fails applied json res start stop M R = (R', None)" "(f, h) \<in> set measures"
    "start mod resolution_ns res = 0" "stop mod resolution_ns res = 0" "in_window start stop b"
  shows "rollup_total f res node kind direction b R' = minutes_total h res node kind direction b M \<and>
    keep_rollups res start stop R' = keep_rollups res start stop R"
proof -
  note R' = RollupRange_success(1) [OF assms(1)]
  have "keep_rollups res start stop (new_rollups json res start stop M) = []"
    using statement_row_bucket [OF _ assms(3,4)] by (auto simp: filter_empty_conv)
  then show ?thesis
    unfolding R' rollup_total_append by (simp add: kept_total [OF assms(5)] new_total [OF assms(2-5)] del: filter_concat)
qed

subsection \<open>Column by column\<close>

text \<open>What the rollups are to hold, said of the tables of minutes: each row of a table, with the kind of total, the key text and the bucket it counts
  for, and its value in a column, 0 where the table has no such column.\<close>

datatype measure = BytesOf | PacketsOf | ConnectionsOf | RequestsOf

fun rollup_column :: "measure \<Rightarrow> rollup_row \<Rightarrow> int" where
  "rollup_column BytesOf = ru_bytes"
| "rollup_column PacketsOf = ru_packets"
| "rollup_column ConnectionsOf = ru_connections"
| "rollup_column RequestsOf = ru_requests"

type_synonym cell = "string \<times> string \<times> string \<times> string \<times> int \<times> go_time"

definition traffic_cells :: "string \<Rightarrow> measure \<Rightarrow> minute_tables \<Rightarrow> (cell \<times> int) list" where
  "traffic_cells res m M = map (\<lambda>((node, t, direction), bs, ps). ((''traffic'', node, direction, ''total'', 0, date_trunc res t),
     case m of BytesOf \<Rightarrow> bs | PacketsOf \<Rightarrow> ps | _ \<Rightarrow> 0)) (mt_traffic M)"

definition owner_cells :: "json_text \<Rightarrow> string \<Rightarrow> measure \<Rightarrow> minute_tables \<Rightarrow> (cell \<times> int) list" where
  "owner_cells json res m M = map (\<lambda>((node, t, owner, direction), (kind, name), (bs, cs, rs)).
     ((''owner'', node, direction, json [(''id'', JText owner), (''kind'', JText kind), (''name'', JText name)], 0, date_trunc res t),
      case m of BytesOf \<Rightarrow> bs | ConnectionsOf \<Rightarrow> cs | _ \<Rightarrow> 0)) (mt_owner M)"

definition domain_cells :: "json_text \<Rightarrow> string \<Rightarrow> measure \<Rightarrow> minute_tables \<Rightarrow> (cell \<times> int) list" where
  "domain_cells json res m M = map (\<lambda>((node, t, direction, domain, confidence), u, (bs, cs, rs)).
     ((''domain'', node, direction, json [(''domain'', JText domain), (''confidence'', JText confidence)], 0, date_trunc res t),
      case m of BytesOf \<Rightarrow> bs | ConnectionsOf \<Rightarrow> cs | RequestsOf \<Rightarrow> rs | PacketsOf \<Rightarrow> 0)) (mt_domain M)"

definition flow_cells :: "json_text \<Rightarrow> string \<Rightarrow> measure \<Rightarrow> minute_tables \<Rightarrow> (cell \<times> int) list" where
  "flow_cells json res m M = map (\<lambda>(k, (name, network), (bs, cs, rs)).
     ((''flow'', fk_node k, fk_direction k,
       json [(''owner_id'', JText (fk_owner k)), (''owner_name'', JText name), (''source'', JText (fk_source k)),
         (''destination'', JText (fk_destination k)), (''domain'', JText (fk_domain k)), (''confidence'', JText (fk_confidence k)),
         (''protocol'', JText (fk_protocol k)), (''port'', JNumber (fk_port k))], 0, date_trunc res (fk_bucket k)),
      case m of BytesOf \<Rightarrow> bs | ConnectionsOf \<Rightarrow> cs | RequestsOf \<Rightarrow> rs | PacketsOf \<Rightarrow> 0)) (mt_flow M)"

definition status_cells :: "string \<Rightarrow> measure \<Rightarrow> minute_tables \<Rightarrow> (cell \<times> int) list" where
  "status_cells res m M = map (\<lambda>((node, t, host, status), u, (bs, cs, rs)). ((''proxy_status'', node, ''inbound'', host, status, date_trunc res t),
     case m of BytesOf \<Rightarrow> bs | RequestsOf \<Rightarrow> rs | _ \<Rightarrow> 0)) (mt_status M)"

definition minute_cells :: "json_text \<Rightarrow> string \<Rightarrow> measure \<Rightarrow> minute_tables \<Rightarrow> (cell \<times> int) list" where
  "minute_cells json res m M = traffic_cells res m M @ owner_cells json res m M @ domain_cells json res m M @ flow_cells json res m M @ status_cells res m M"

definition cell_sum :: "cell \<Rightarrow> (cell \<times> int) list \<Rightarrow> int" where
  "cell_sum c xs = sum_list (map snd (filter (\<lambda>x. fst x = c) xs))"

definition ru_cell :: "rollup_row \<Rightarrow> cell" where
  "ru_cell r = (ru_kind r, ru_node r, ru_direction r, ru_key r, ru_status r, ru_bucket r)"

definition rollup_cells :: "string \<Rightarrow> measure \<Rightarrow> rollup_row list \<Rightarrow> (cell \<times> int) list" where
  "rollup_cells res m R = [(ru_cell r, rollup_column m r). r \<leftarrow> R, ru_resolution r = res]"

fun source_column :: "measure \<Rightarrow> source_row \<Rightarrow> int" where
  "source_column BytesOf = sr_bytes"
| "source_column PacketsOf = sr_packets"
| "source_column ConnectionsOf = sr_connections"
| "source_column RequestsOf = sr_requests"

definition source_cell :: "json_text \<Rightarrow> string \<Rightarrow> source_row \<Rightarrow> cell" where
  "source_cell json res s = (dimension_kind (sr_dim s), sr_node s, sr_direction s, dimension_key json (sr_dim s), sr_status s, date_trunc res (sr_bucket s))"

lemma traffic_source_cells: "map (\<lambda>s. (source_cell json res s, source_column m s)) (map traffic_source (mt_traffic M)) = traffic_cells res m M"
  unfolding traffic_cells_def map_map
  by (cases m) (auto simp: source_cell_def)

lemma owner_source_cells: "map (\<lambda>s. (source_cell json res s, source_column m s)) (map owner_source (mt_owner M)) = owner_cells json res m M"
  unfolding owner_cells_def map_map
  by (cases m) (auto simp: source_cell_def)

lemma domain_source_cells: "map (\<lambda>s. (source_cell json res s, source_column m s)) (map domain_source (mt_domain M)) = domain_cells json res m M"
  unfolding domain_cells_def map_map
  by (cases m) (auto simp: source_cell_def)

lemma flow_source_cells: "map (\<lambda>s. (source_cell json res s, source_column m s)) (map flow_source (mt_flow M)) = flow_cells json res m M"
  unfolding flow_cells_def map_map
  by (cases m) (auto simp: source_cell_def)

lemma status_source_cells: "map (\<lambda>s. (source_cell json res s, source_column m s)) (map status_source (mt_status M)) = status_cells res m M"
  unfolding status_cells_def map_map
  by (cases m) (auto simp: source_cell_def)

lemma statements_cells: "map (\<lambda>s. (source_cell json res s, source_column m s)) (concat (statements M)) = minute_cells json res m M"
  unfolding statements_def minute_cells_def concat.simps map_append append_Nil2
    traffic_source_cells owner_source_cells domain_source_cells flow_source_cells status_source_cells ..

lemma cell_sum_append: "cell_sum c (xs @ ys) = cell_sum c xs + cell_sum c ys"
  by (simp add: cell_sum_def)

lemma rollup_cells_append: "rollup_cells res m (R @ S) = rollup_cells res m R @ rollup_cells res m S"
  by (simp add: rollup_cells_def)

text \<open>The cell of a group.\<close>

definition group_cell :: "json_text \<Rightarrow> group \<Rightarrow> cell" where
  "group_cell json g = (case g of (node, b, d, direction, status) \<Rightarrow> (dimension_kind d, node, direction, dimension_key json d, status, b))"

lemma rollup_of_cell:
  "ru_cell (rollup_of json res ss g) = group_cell json g" "group_cell json (group_of res s) = source_cell json res s"
  "rollup_column m (rollup_of json res ss g) = (\<Sum>s\<leftarrow>filter (\<lambda>s. group_of res s = g) ss. source_column m s)"
  by (cases g; cases m; simp add: rollup_of.simps Let_def ru_cell_def group_cell_def group_of_def source_cell_def)+

lemma statement_cells:
  assumes "start mod resolution_ns res = 0" "stop mod resolution_ns res = 0" "in_window start stop (snd (snd (snd (snd (snd c)))))"
  shows "cell_sum c (rollup_cells res m (statement_rows json res start stop ss)) =
    cell_sum c (map (\<lambda>s. (source_cell json res s, source_column m s)) ss)"
proof -
  define rs where "rs = filter (\<lambda>s. in_window start stop (sr_bucket s)) ss"
  have "cell_sum c (rollup_cells res m (statement_rows json res start stop ss)) =
      (\<Sum>g\<leftarrow>filter (\<lambda>g. group_cell json g = c) (remdups (map (group_of res) rs)). \<Sum>s\<leftarrow>filter (\<lambda>s. group_of res s = g) rs. source_column m s)"
    by (simp add: cell_sum_def rollup_cells_def statement_rows_def rs_def [symmetric] Let_def filter_map comp_def rollup_of_cell)
  also have "\<dots> = (\<Sum>s\<leftarrow>filter (\<lambda>s. source_cell json res s = c) rs. source_column m s)"
    by (subst sum_by_group) (auto simp: rollup_of_cell)
  also have "filter (\<lambda>s. source_cell json res s = c) rs = filter (\<lambda>s. source_cell json res s = c) ss"
  proof -
    have "in_window start stop (sr_bucket s)" if "source_cell json res s = c" for s
      using date_trunc_window [OF assms(1,2), of "sr_bucket s"] assms(3) unfolding that [symmetric] source_cell_def by simp
    then show ?thesis unfolding rs_def filter_filter by (intro filter_cong refl) blast
  qed
  finally show ?thesis by (simp add: cell_sum_def filter_map comp_def)
qed

lemma new_cells:
  assumes "start mod resolution_ns res = 0" "stop mod resolution_ns res = 0" "in_window start stop (snd (snd (snd (snd (snd c)))))"
  shows "cell_sum c (rollup_cells res m (new_rollups json res start stop M)) = cell_sum c (minute_cells json res m M)"
proof -
  have "cell_sum c (rollup_cells res m (concat (map (statement_rows json res start stop) sss))) =
      cell_sum c (map (\<lambda>s. (source_cell json res s, source_column m s)) (concat sss))" for sss
  proof (induction sss)
    case (Cons ss sss)
    then show ?case by (simp add: rollup_cells_append cell_sum_append statement_cells [OF assms])
  qed (simp add: rollup_cells_def)
  then show ?thesis by (simp only: statements_cells)
qed

subsection \<open>The rollups stay sound\<close>

definition rollup_sound :: "rollup_row \<Rightarrow> bool" where
  "rollup_sound r \<longleftrightarrow> ru_resolution r \<in> {ResolutionHour, ResolutionDay} \<and> ru_bucket r = date_trunc (ru_resolution r) (ru_bucket r) \<and>
     ru_bucket r \<le> ru_min r \<and> ru_min r \<le> ru_max r \<and> ru_max r < ru_bucket r + resolution_ns (ru_resolution r) \<and> rollup_checks r"

definition rollups_inv :: "rollup_row list \<Rightarrow> bool" where
  "rollups_inv R \<longleftrightarrow> distinct (map ru_pk R) \<and> list_all rollup_sound R"

lemma date_trunc_bounds:
  "date_trunc res t \<le> t" "t < date_trunc res t + resolution_ns res" "date_trunc res (date_trunc res t) = date_trunc res t"
  using truncate_bounds [of "resolution_ns res" t] by (simp_all add: date_trunc_def truncate_twice)

lemma Min_Max_in: "finite T \<Longrightarrow> x \<in> T \<Longrightarrow> Min T \<in> T \<and> Max T \<in> T \<and> Min T \<le> (Max T :: int)"
proof -
  assume T: "finite T" "x \<in> T"
  then have "T \<noteq> {}" by blast
  with T show ?thesis using Min_in [of T] Max_in [of T] Min_le [of T x] Max_ge [of T x] by auto
qed

lemma new_rollup_sound:
  assumes "r \<in> set (new_rollups json res start stop M)" "rollup_checks r" "res \<in> {ResolutionHour, ResolutionDay}"
  shows "rollup_sound r"
proof -
  obtain ss s where r: "r = rollup_of json res ss (group_of res s)" and s: "s \<in> set ss"
    using assms(1) by (auto simp: statement_rows_def Let_def)
  let ?T = "set (map sr_bucket (filter (\<lambda>x. group_of res x = group_of res s) ss))"
  have T: "finite ?T" "sr_bucket s \<in> ?T" using s by auto
  have in_bucket: "date_trunc res (sr_bucket s) \<le> t \<and> t < date_trunc res (sr_bucket s) + resolution_ns res" if "t \<in> ?T" for t
    using that date_trunc_bounds(1) [of res t] date_trunc_bounds(2) [of t res] by (auto simp: group_of_def)
  have "Min ?T \<in> ?T" "Max ?T \<in> ?T" "Min ?T \<le> Max ?T" using Min_Max_in [OF T] by blast+
  moreover have "ru_min r = Min ?T" "ru_max r = Max ?T" by (simp_all add: r rollup_of.simps group_of_def Let_def)
  ultimately show ?thesis
    using in_bucket [of "Min ?T"] in_bucket [of "Max ?T"] assms(2,3) date_trunc_bounds(3)
    by (auto simp: rollup_sound_def r group_of_def)
qed

text \<open>The table of rollups keeps its primary key, its buckets are those of their resolution and hold the times they were made from, whatever fails.\<close>

theorem rollups_stay_sound:
  assumes "rollups_inv R"
  shows "rollups_inv (fst (RollupRange fails applied json res start stop M R))"
proof -
  have ok: "rollups_inv R'" if "RollupRange fails' applied json res start stop M R = (R', None)" for fails' R'
  proof -
    note R' = RollupRange_success [OF that]
    have "rollup_sound r" if "r \<in> set (new_rollups json res start stop M)" for r
      using that R'(2,4) by (intro new_rollup_sound [of r json res start stop M]) (auto simp: list_all_iff)
    then show ?thesis using assms R'(1,3) by (auto simp: rollups_inv_def list_all_iff)
  qed
  obtain R' e where run: "RollupRange fails applied json res start stop M R = (R', e)" by fastforce
  then show ?thesis using assms ok RollupRange_failure [of fails applied json res start stop M R R'] by (cases e) auto
qed

text \<open>Rolling up the same window again changes nothing.\<close>

lemma rollup_again:
  assumes "RollupRange fails applied json res start stop M R = (R', None)" "start mod resolution_ns res = 0" "stop mod resolution_ns res = 0"
    "RollupRange fails' applied' json res start stop M R' = (R'', None)"
  shows "R'' = R'"
proof -
  have "keep_rollups res start stop (new_rollups json res start stop M) = []"
    using statement_row_bucket [OF _ assms(2,3)] by (auto simp: filter_empty_conv)
  then show ?thesis
    using RollupRange_success(1) [OF assms(1)] RollupRange_success(1) [OF assms(4)] by (simp del: filter_concat)
qed

subsection \<open>From the details to the rollups\<close>

text \<open>The tables of minutes list the totals the storage of batches keeps.\<close>

definition lists_minutes :: "minute_tables \<Rightarrow> flow_tables tables \<Rightarrow> bool" where
  "lists_minutes M T \<longleftrightarrow> enumerates (mt_traffic M) (traffic_minute T) \<and> enumerates (mt_owner M) (owner_minute (other_tables T)) \<and>
     enumerates (mt_domain M) (domain_minute (other_tables T)) \<and> enumerates (mt_flow M) (flow_minute (other_tables T)) \<and>
     enumerates (mt_status M) (proxy_status_minute (other_tables T))"

lemma kinds_of_sources:
  "dimension_kind (sr_dim (traffic_source x)) = ''traffic''" "dimension_kind (sr_dim (owner_source y)) = ''owner''"
  "dimension_kind (sr_dim (domain_source z)) = ''domain''" "dimension_kind (sr_dim (flow_source v)) = ''flow''"
  "dimension_kind (sr_dim (status_source w)) = ''proxy_status''"
  by (cases x rule: traffic_source.cases, simp, cases y rule: owner_source.cases, simp, cases z rule: domain_source.cases, simp,
      cases v rule: flow_source.cases, simp, cases w rule: status_source.cases, simp)

lemma traffic_minutes_total:
  "minutes_total g res node ''traffic'' direction b M =
    (\<Sum>row\<leftarrow>filter (\<lambda>row. case fst row of (n, t, d) \<Rightarrow> n = node \<and> d = direction \<and> date_trunc res t = b) (mt_traffic M). g (traffic_source row))"
proof -
  have "sr_node (traffic_source row) = fst (fst row)" "sr_direction (traffic_source row) = snd (snd (fst row))"
    "sr_bucket (traffic_source row) = fst (snd (fst row))" for row
    by (cases row rule: traffic_source.cases; simp)+
  then show ?thesis
    by (simp add: minutes_total_def statements_def filter_map comp_def kinds_of_sources case_prod_unfold)
qed

lemma owner_minutes_total:
  "minutes_total g res node ''owner'' direction b M =
    (\<Sum>row\<leftarrow>filter (\<lambda>row. case fst row of (n, t, ow, d) \<Rightarrow> n = node \<and> d = direction \<and> date_trunc res t = b) (mt_owner M). g (owner_source row))"
proof -
  have "sr_node (owner_source row) = fst (fst row)" "sr_direction (owner_source row) = snd (snd (snd (fst row)))"
    "sr_bucket (owner_source row) = fst (snd (fst row))" for row
    by (cases row rule: owner_source.cases; simp)+
  then show ?thesis
    by (simp add: minutes_total_def statements_def filter_map comp_def kinds_of_sources case_prod_unfold)
qed

lemma traffic_minutes_details:
  assumes "aggregated T" "enumerates (mt_traffic M) (traffic_minute T)"
  shows "minutes_total sr_bytes res node ''traffic'' direction b M =
    (\<Sum>row\<leftarrow>filter (\<lambda>row. dl_node row = node \<and> dl_direction row = direction \<and> date_trunc res (dl_at row) = b) (interface_deltas T). dl_bytes row)"
proof -
  let ?P = "\<lambda>(n, t, d). n = node \<and> d = direction \<and> date_trunc res t = b"
  have bytes: "sr_bytes (traffic_source row) = fst (snd row)" for row by (cases row rule: traffic_source.cases) simp
  have "(\<Sum>row\<leftarrow>filter (\<lambda>row. ?P (fst row)) (mt_traffic M). fst (snd row)) = (\<Sum>row\<leftarrow>filter (\<lambda>row. ?P (bucket_of row)) (interface_deltas T). dl_bytes row)"
    using assms by (intro enumerated_sum) (auto simp: aggregated_def minute_total_def split: list.splits)
  then show ?thesis
    by (simp add: traffic_minutes_total bytes case_prod_unfold bucket_of_def date_trunc_minute)
qed

lemma foldr_counts_fst: "fst (foldr add_counts cs (0, 0, 0)) = (\<Sum>c\<leftarrow>cs. fst c)"
proof (induction cs)
  case (Cons c cs)
  then show ?case by (cases c; cases "foldr add_counts cs (0, 0, 0)") simp
qed simp

lemma owner_minutes_details:
  assumes "kept m (map owner_share rows)" "enumerates (mt_owner M) m"
  shows "minutes_total sr_bytes res node ''owner'' direction b M =
    (\<Sum>row\<leftarrow>filter (\<lambda>row. cr_node row = node \<and> cr_direction row = direction \<and> date_trunc res (cr_at row) = b) rows. connection_bytes row)"
proof -
  let ?P = "\<lambda>(n, t, ow, d). n = node \<and> d = direction \<and> date_trunc res t = b"
  have bytes: "sr_bytes (owner_source row) = fst (snd (snd row))" for row by (cases row rule: owner_source.cases) simp
  have tally: "map_option snd (m k) = tally (map owner_share rows) k" for k using fun_cong [OF assms(1) [unfolded kept_def], of k] .
  have t: "tally (map owner_share rows) k = (case filter (\<lambda>row. owner_bucket row = k) rows of [] \<Rightarrow> None
      | ys \<Rightarrow> Some (foldr add_counts (map (\<lambda>row. (connection_bytes row, 1, 0)) ys) (0, 0, 0)))" for k
    by (auto simp: tally_def owner_share_def filter_map comp_def split: list.splits)
  have "(\<Sum>row\<leftarrow>filter (\<lambda>row. ?P (fst row)) (mt_owner M). fst (snd (snd row))) = (\<Sum>row\<leftarrow>filter (\<lambda>row. ?P (owner_bucket row)) rows. connection_bytes row)"
  proof (rule enumerated_sum [OF assms(2)])
    show "(m k = None) = (filter (\<lambda>x. owner_bucket x = k) rows = [])" for k
    proof -
      have "(m k = None) = (tally (map owner_share rows) k = None)" by (simp only: tally [symmetric] map_option_is_None)
      then show ?thesis by (simp add: t split: list.splits)
    qed
    show "fst (snd v) = (\<Sum>x\<leftarrow>filter (\<lambda>x. owner_bucket x = k) rows. connection_bytes x)" if "m k = Some v" for k v
    proof -
      have "tally (map owner_share rows) k = Some (snd v)" using tally [of k] that by simp
      then have "snd v = foldr add_counts (map (\<lambda>row. (connection_bytes row, 1, 0)) (filter (\<lambda>row. owner_bucket row = k) rows)) (0, 0, 0)"
        by (auto simp: t split: list.splits)
      then show ?thesis by (simp add: foldr_counts_fst comp_def)
    qed
  qed
  then show ?thesis
    by (simp add: owner_minutes_total bytes case_prod_unfold owner_bucket_def date_trunc_minute)
qed

subsection \<open>Success\<close>

text \<open>Keys of the rollups differ when the texts of the objects do.\<close>

definition texts_differ :: "json_text \<Rightarrow> minute_tables \<Rightarrow> bool" where
  "texts_differ json M \<longleftrightarrow> inj_on (\<lambda>d. (dimension_kind d, dimension_key json d)) (sr_dim ` set (concat (statements M)))"

lemma group_pk:
  assumes "ru_pk (rollup_of json res ss g) = ru_pk (rollup_of json res ss' g')"
  shows "fst g = fst g' \<and> fst (snd g) = fst (snd g') \<and> dimension_kind (fst (snd (snd g))) = dimension_kind (fst (snd (snd g'))) \<and>
    dimension_key json (fst (snd (snd g))) = dimension_key json (fst (snd (snd g'))) \<and> snd (snd (snd g)) = snd (snd (snd g'))"
  using assms by (cases g; cases g') (auto simp: ru_pk_def rollup_of.simps Let_def)

lemma statement_pks:
  assumes "texts_differ json M" "ss \<in> set (statements M)"
  shows "distinct (map ru_pk (statement_rows json res start stop ss))"
proof -
  define rs where "rs = filter (\<lambda>s. in_window start stop (sr_bucket s)) ss"
  have "inj_on (\<lambda>g. ru_pk (rollup_of json res rs g)) (group_of res ` set rs)"
  proof (rule inj_onI)
    fix g g' assume g: "g \<in> group_of res ` set rs" "g' \<in> group_of res ` set rs" and eq: "ru_pk (rollup_of json res rs g) = ru_pk (rollup_of json res rs g')"
    have "fst (snd (snd g)) \<in> sr_dim ` set (concat (statements M))" "fst (snd (snd g')) \<in> sr_dim ` set (concat (statements M))"
      using g assms(2) by (auto simp: rs_def group_of_def)
    then have "fst (snd (snd g)) = fst (snd (snd g'))"
      using assms(1) group_pk [OF eq] by (auto simp: texts_differ_def inj_on_def)
    then show "g = g'" using group_pk [OF eq] by (cases g; cases g') auto
  qed
  then show ?thesis
    by (simp add: statement_rows_def Let_def rs_def [symmetric] comp_def distinct_map)
qed

lemma statement_kind:
  assumes "r \<in> set (statement_rows json res start stop ss)" "\<And>s. s \<in> set ss \<Longrightarrow> dimension_kind (sr_dim s) = kind"
  shows "ru_kind r = kind"
  using assms by (auto simp: statement_rows_def Let_def group_of_def)

lemma distinct_by_kind:
  assumes "list_all2 (\<lambda>k rows. distinct (map ru_pk rows) \<and> (\<forall>r \<in> set rows. ru_kind r = k)) ks rowss" "distinct ks"
  shows "distinct (map ru_pk (concat rowss)) \<and> ru_kind ` set (concat rowss) \<subseteq> set ks"
  using assms
proof (induction rule: list_all2_induct)
  case (Cons k ks rows rowss)
  then have IH: "distinct (map ru_pk (concat rowss))" "ru_kind ` set (concat rowss) \<subseteq> set ks" by auto
  have "ru_pk r \<noteq> ru_pk r'" if "r \<in> set rows" "r' \<in> set (concat rowss)" for r r'
  proof -
    have "ru_kind r = k" "ru_kind r' \<in> set ks" using that Cons.hyps(1) IH(2) by blast+
    then show ?thesis using Cons.prems by (auto simp: ru_pk_def)
  qed
  then have "set (map ru_pk rows) \<inter> set (map ru_pk (concat rowss)) = {}" unfolding set_map by blast
  then have "distinct (map ru_pk (concat (rows # rowss)))" using Cons.hyps(1) IH(1) unfolding concat.simps map_append distinct_append by blast
  moreover have "ru_kind ` set (concat (rows # rowss)) \<subseteq> set (k # ks)" using Cons.hyps(1) IH(2) by auto
  ultimately show ?case ..
qed simp

lemma new_pks:
  assumes "texts_differ json M"
  shows "distinct (map ru_pk (new_rollups json res start stop M))"
proof -
  let ?rows = "statement_rows json res start stop"
  have "\<forall>r \<in> set (?rows (map traffic_source (mt_traffic M))). ru_kind r = ''traffic''"
    "\<forall>r \<in> set (?rows (map owner_source (mt_owner M))). ru_kind r = ''owner''"
    "\<forall>r \<in> set (?rows (map domain_source (mt_domain M))). ru_kind r = ''domain''"
    "\<forall>r \<in> set (?rows (map flow_source (mt_flow M))). ru_kind r = ''flow''"
    "\<forall>r \<in> set (?rows (map status_source (mt_status M))). ru_kind r = ''proxy_status''"
    by (auto elim!: statement_kind simp: kinds_of_sources)
  moreover have "\<forall>ss \<in> set (statements M). distinct (map ru_pk (?rows ss))" using statement_pks [OF assms] by blast
  ultimately have "list_all2 (\<lambda>k rows. distinct (map ru_pk rows) \<and> (\<forall>r \<in> set rows. ru_kind r = k))
      [''traffic'', ''owner'', ''domain'', ''flow'', ''proxy_status''] (map ?rows (statements M))"
    by (simp add: statements_def)
  then show ?thesis by (rule conjunct1 [OF distinct_by_kind]) simp
qed

lemma run_statements_ok:
  assumes "\<And>i. \<not> fails (RollupInsert i)" "list_all rollup_checks (concat (map (statement_rows json res start stop) sss))"
    "distinct (map ru_pk (concat (map (statement_rows json res start stop) sss)))"
    "set (map ru_pk (concat (map (statement_rows json res start stop) sss))) \<inter> set (map ru_pk R) = {}"
  shows "run_statements fails json res start stop i sss R = Inr (R @ concat (map (statement_rows json res start stop) sss))"
  using assms(2-)
proof (induction sss arbitrary: i R)
  case (Cons ss sss)
  let ?new = "statement_rows json res start stop ss"
  have "insert_rollups ?new R = Inr (R @ ?new)" using Cons.prems by (auto simp: insert_rollups_Inr)
  moreover have "run_statements fails json res start stop (Suc i) sss (R @ ?new) = Inr ((R @ ?new) @ concat (map (statement_rows json res start stop) sss))"
  proof (rule Cons.IH)
    let ?rest = "concat (map (statement_rows json res start stop) sss)"
    show "list_all rollup_checks ?rest" "distinct (map ru_pk ?rest)" using Cons.prems(1,2) by simp_all
    have "set (map ru_pk ?new) \<inter> set (map ru_pk ?rest) = {}" "(set (map ru_pk ?new) \<union> set (map ru_pk ?rest)) \<inter> set (map ru_pk R) = {}"
      using Cons.prems(2,3) by simp_all
    then show "set (map ru_pk ?rest) \<inter> set (map ru_pk (R @ ?new)) = {}" unfolding map_append set_append by blast
  qed
  ultimately show ?case using assms(1) by simp
qed simp

text \<open>A rollup over whole buckets succeeds when the database does and the sums fit.\<close>

lemma RollupRange_succeeds:
  assumes "\<And>op. \<not> fails op" "res = ResolutionHour \<or> res = ResolutionDay" "start < stop" "start mod resolution_ns res = 0" "stop mod resolution_ns res = 0"
    "list_all rollup_checks (new_rollups json res start stop M)" "texts_differ json M"
  shows "RollupRange fails applied json res start stop M R = (keep_rollups res start stop R @ new_rollups json res start stop M, None)"
proof -
  have "ru_pk r \<noteq> ru_pk r'" if "r \<in> set (new_rollups json res start stop M)" "r' \<in> set (keep_rollups res start stop R)" for r r'
    using that(2) statement_row_bucket [OF that(1) assms(4,5)] by (auto simp: rolled_def ru_pk_def)
  then have "run_statements fails json res start stop 0 (statements M) (keep_rollups res start stop R) =
      Inr (keep_rollups res start stop R @ new_rollups json res start stop M)"
    using assms(1,6) new_pks [OF assms(7)] by (intro run_statements_ok) (fastforce simp del: set_concat)+
  then show ?thesis using assms(1-3) by (auto simp: RollupRange_def)
qed

subsection \<open>Properties\<close>

text \<open>Minutes of two hours of a day, of one node, and the rollups of the hours.\<close>

definition sample_minutes :: minute_tables where
  "sample_minutes =
     \<lparr>mt_traffic = [((''n'', 10 * minute_ns, ''inbound''), 100, 1), ((''n'', 50 * minute_ns, ''inbound''), 200, 2), ((''n'', 70 * minute_ns, ''inbound''), 300, 3)],
      mt_owner = [((''n'', 10 * minute_ns, ''host'', ''inbound''), (''host'', ''Host''), (75, 2, 0))], mt_domain = [], mt_flow = [], mt_status = []\<rparr>"

definition sample_json :: json_text where
  "sample_json xs = concat (map fst xs)"

lemma sample_texts: "texts_differ sample_json sample_minutes"
  by (auto simp: texts_differ_def sample_minutes_def statements_def sample_json_def)

definition sample_rollups :: "rollup_row list" where
  "sample_rollups = new_rollups sample_json ResolutionHour 0 (2 * hour_ns) sample_minutes"

lemma sample_rollup_runs:
  "RollupRange (\<lambda>op. False) False sample_json ResolutionHour 0 (2 * hour_ns) sample_minutes [] = (sample_rollups, None)"
  unfolding sample_rollups_def
  by (subst RollupRange_succeeds) (auto simp: sample_texts resolution_ns_def, code_simp)

text \<open>C33. A rollup conserves the traffic: after a rollup of a window of whole hours or days that reports success, for every bucket of the window and every
  node, kind of total, key text, direction and status, the bytes, packets, connections and requests of the rollups are the sums of these
  columns over the rows of the five tables of minutes that belong there (0 where a table lacks the column), whatever rollups were there before; the
  rollups outside the window are untouched. The start and the end of the window are multiples of the resolution, as in both jobs.\<close>

theorem rollup_conserves:
  assumes "RollupRange fails applied json res start stop M R = (R', None)"
    "start mod resolution_ns res = 0" "stop mod resolution_ns res = 0" "in_window start stop b"
  shows "cell_sum (kind, node, direction, key, status, b) (rollup_cells res m R') =
      cell_sum (kind, node, direction, key, status, b) (minute_cells json res m M) \<and>
    filter (\<lambda>r. \<not> rolled res start stop r) R' = filter (\<lambda>r. \<not> rolled res start stop r) R"
proof -
  let ?c = "(kind, node, direction, key, status, b)"
  have "filter (\<lambda>x. fst x = ?c) (rollup_cells res m (keep_rollups res start stop R)) = []"
    using assms(4) by (auto simp: rollup_cells_def rolled_def ru_cell_def filter_empty_conv)
  then have "cell_sum ?c (rollup_cells res m (keep_rollups res start stop R)) = 0" by (simp add: cell_sum_def)
  moreover have "keep_rollups res start stop (new_rollups json res start stop M) = []"
    using statement_row_bucket [OF _ assms(2,3)] by (auto simp: filter_empty_conv)
  ultimately show ?thesis
    using new_cells [OF assms(2,3), of ?c m json M] assms(4)
    unfolding RollupRange_success(1) [OF assms(1)] rollup_cells_append cell_sum_append by (simp del: filter_concat)
qed

theorem rollup_conserves_witness:
  "cell_sum (''traffic'', ''n'', ''inbound'', ''total'', 0, 0) (rollup_cells ResolutionHour BytesOf sample_rollups) = 300 \<and>
   cell_sum (''owner'', ''n'', ''inbound'', ''idkindname'', 0, 0) (rollup_cells ResolutionHour ConnectionsOf sample_rollups) = 2"
proof -
  have "in_window 0 (2 * hour_ns) 0" by (simp add: in_window_def)
  then show ?thesis
    using rollup_conserves [OF sample_rollup_runs, of 0 "''traffic''" "''n''" "''inbound''" "''total''" 0 BytesOf]
      rollup_conserves [OF sample_rollup_runs, of 0 "''owner''" "''n''" "''inbound''" "''idkindname''" 0 ConnectionsOf]
    by (simp add: resolution_ns_def cell_sum_def minute_cells_def traffic_cells_def owner_cells_def domain_cells_def flow_cells_def
        status_cells_def sample_minutes_def sample_json_def date_trunc_def truncate_time_def hour_ns_def)
qed

text \<open>From the details to the rollups: when the minutes are those of the stored rows, the bytes of a bucket of the rollups are the bytes of the interface
  counters of that hour or day, and for the owners those of its connections.\<close>

theorem rollup_counts_details:
  assumes "aggregated T" "rows_inv env (other_tables T)" "lists_minutes M T" "RollupRange fails applied json res start stop M R = (R', None)"
    "start mod resolution_ns res = 0" "stop mod resolution_ns res = 0" "in_window start stop b"
  shows "rollup_total ru_bytes res node ''traffic'' direction b R' =
      (\<Sum>row\<leftarrow>filter (\<lambda>row. dl_node row = node \<and> dl_direction row = direction \<and> date_trunc res (dl_at row) = b) (interface_deltas T). dl_bytes row) \<and>
    rollup_total ru_bytes res node ''owner'' direction b R' =
      (\<Sum>row\<leftarrow>filter (\<lambda>row. cr_node row = node \<and> cr_direction row = direction \<and> date_trunc res (cr_at row) = b)
        (connection_details (other_tables T)). connection_bytes row)"
proof -
  have "rollup_total ru_bytes res node kind direction b R' = minutes_total sr_bytes res node kind direction b M" for kind
    by (rule conjunct1 [OF RollupRange_total [OF assms(4)]]) (use assms(5-7) in \<open>simp_all add: measures_def\<close>)
  moreover have "kept (owner_minute (other_tables T)) (map owner_share (connection_details (other_tables T)))" using assms(2) by (simp add: rows_inv_def)
  ultimately show ?thesis
    using traffic_minutes_details [OF assms(1)] owner_minutes_details assms(3) unfolding lists_minutes_def by simp
qed

definition rolled_tables :: "flow_tables tables" where
  "rolled_tables = \<lparr>interface_deltas = [\<lparr>dl_event = ''e'', dl_node = ''n'', dl_at = 10 * minute_ns + 7, dl_interface = ''eth0'', dl_direction = ''inbound'',
      dl_bytes = 5, dl_packets = 1\<rparr>],
     traffic_minute = [(''n'', 10 * minute_ns, ''inbound'') \<mapsto> (5, 1)], collector_health = [], other_tables = empty_flow\<rparr>"

theorem rollup_counts_details_witness:
  "rollup_total ru_bytes ResolutionDay ''n'' ''traffic'' ''inbound'' 0
     (fst (RollupRange (\<lambda>op. False) False sample_json ResolutionDay 0 day_ns (sample_minutes
       \<lparr>mt_traffic := [((''n'', 10 * minute_ns, ''inbound''), 5, 1)], mt_owner := []\<rparr>) [])) = 5"
proof -
  let ?M = "sample_minutes\<lparr>mt_traffic := [((''n'', 10 * minute_ns, ''inbound''), 5, 1)], mt_owner := []\<rparr>"
  have "aggregated rolled_tables"
    by (auto simp: aggregated_def rolled_tables_def minute_total_def bucket_of_def truncate_minute_def fun_eq_iff row_checks_def direction_valid_def DirectionInbound_def bigint_max_def)
  moreover have "lists_minutes ?M rolled_tables"
    by (simp add: lists_minutes_def enumerates_def sample_minutes_def rolled_tables_def empty_flow_def)
  moreover have run: "RollupRange (\<lambda>op. False) False sample_json ResolutionDay 0 day_ns ?M [] =
      (keep_rollups ResolutionDay 0 day_ns [] @ new_rollups sample_json ResolutionDay 0 day_ns ?M, None)"
    by (rule RollupRange_succeeds) (auto simp: resolution_ns_def ResolutionDay_def ResolutionHour_def texts_differ_def statements_def sample_minutes_def, code_simp+)
  moreover have "in_window 0 day_ns 0" by (simp add: in_window_def)
  moreover have "rows_inv plain_rows (other_tables rolled_tables)" by (simp add: rolled_tables_def empty_rows_inv)
  ultimately show ?thesis
    using rollup_counts_details [of rolled_tables plain_rows ?M "\<lambda>op. False" False sample_json ResolutionDay 0 day_ns "[]" _ 0 "''n''" "''inbound''"]
    unfolding run by (simp add: rolled_tables_def resolution_ns_def ResolutionDay_def ResolutionHour_def date_trunc_def truncate_time_def day_ns_def hour_ns_def)
qed

end
