(* ===== verification/Retention.thy ===== *)
theory Retention
  imports Rollup Alerts
begin

text \<open>
  The deletion of old rows, \<^verbatim>\<open>internal/server/retention/service.go\<close>, together with the daily rollup of \<open>Rollup\<close>: rows by minute and details go when
  they are old and the day they belong to has a rollup, rollups when they are older still. Rows are deleted in batches of ten
  thousand; which of the candidates a batch takes, which statements fail and whether the pause between batches is cancelled are parameters.
\<close>

subsection \<open>The tables\<close>

record history =
  hi_connections :: "connection_row list"
  hi_proxies :: "proxy_row list"
  hi_deltas :: "delta_row list"
  hi_evidence :: "evidence_row list"
  hi_minutes :: minute_tables
  hi_rollups :: "rollup_row list"
  hi_alerts :: "alert_row list"
  hi_deliveries :: "delivery_row list"
  hi_health :: "health_row list"

record retention_settings =
  DetailDays :: int
  AggregateMonths :: int

datatype clean_op =
    CleanConnections | CleanProxies | CleanDeltas | CleanEvidence
  | CleanTrafficMinute | CleanOwnerMinute | CleanDomainMinute | CleanFlowMinute | CleanStatusMinute
  | CleanHours | CleanDays | CleanAlerts | CleanDeliveries | CleanHealth

datatype clean_error = RetentionBounds | CleanFailed clean_op | CleanCancelled clean_op

record clean_env =
  ce_fails :: "clean_op \<Rightarrow> nat \<Rightarrow> bool"
  ce_cancelled :: "clean_op \<Rightarrow> nat \<Rightarrow> bool"
  ce_rank :: "clean_op \<Rightarrow> nat \<Rightarrow> nat \<Rightarrow> nat"

subsection \<open>Deleting in batches\<close>

abbreviation batch_limit :: nat where "batch_limit \<equiv> 10000"

text \<open>The places of the rows a statement deletes, and the table without them.\<close>

definition batch_of :: "(nat \<Rightarrow> nat) \<Rightarrow> ('a \<Rightarrow> bool) \<Rightarrow> 'a list \<Rightarrow> nat list" where
  "batch_of rank old rows = take batch_limit (sort_key rank (filter (\<lambda>i. old (rows ! i)) [0..<length rows]))"

definition without :: "nat list \<Rightarrow> 'a list \<Rightarrow> 'a list" where
  "without places rows = map snd (filter (\<lambda>(i, row). i \<notin> set places) (zip [0..<length rows] rows))"

lemma without_nths: "without places rows = nths rows (- set places)"
proof -
  have "nths rows (- set places) = map fst (filter (\<lambda>p. snd p \<in> - set places) (zip rows [0..<length rows]))" by (simp add: nths_def)
  also have "zip rows [0..<length rows] = map (\<lambda>(i, row). (row, i)) (zip [0..<length rows] rows)" by (rule zip_commute)
  finally show ?thesis by (simp add: without_def filter_map comp_def case_prod_unfold)
qed

lemma batch_places: "set (batch_of rank old rows) \<subseteq> {i. i < length rows \<and> old (rows ! i)}" "distinct (batch_of rank old rows)"
  using set_take_subset [of batch_limit "sort_key rank (filter (\<lambda>i. old (rows ! i)) [0..<length rows])"] by (auto simp: batch_of_def)

lemma without_length: "length (without (batch_of rank old rows) rows) = length rows - length (batch_of rank old rows)"
proof -
  let ?b = "batch_of rank old rows"
  have sub: "set ?b \<subseteq> {..<length rows}" using batch_places(1) [of rank old rows] by auto
  have "length (without ?b rows) = card {i. i < length rows \<and> i \<in> - set ?b}" by (simp add: without_nths length_nths)
  also have "{i. i < length rows \<and> i \<in> - set ?b} = {..<length rows} - set ?b" by auto
  also have "card \<dots> = length rows - length ?b" using sub batch_places(2) [of rank old rows] by (simp add: card_Diff_subset distinct_card)
  finally show ?thesis .
qed

function delete_batched :: "clean_env \<Rightarrow> clean_op \<Rightarrow> ('a \<Rightarrow> bool) \<Rightarrow> nat \<Rightarrow> int \<Rightarrow> 'a list \<Rightarrow> 'a list \<times> int \<times> clean_error option" where
  "delete_batched env op old n acc rows =
     (if ce_fails env op n then (rows, acc, Some (CleanFailed op))
      else
        (let b = batch_of (ce_rank env op n) old rows; rows' = without b rows; acc' = acc + int (length b) in
         if length b < batch_limit then (rows', acc', None)
         else if ce_cancelled env op n then (rows', acc', Some (CleanCancelled op))
         else delete_batched env op old (Suc n) acc' rows'))"
  by pat_completeness auto
termination
proof (relation "measure (\<lambda>(env, op, old, n, acc, rows). length rows)")
  fix env :: clean_env and op and old :: "'a \<Rightarrow> bool" and n acc and rows :: "'a list" and b rows' acc'
  assume "b = batch_of (ce_rank env op n) old rows" "rows' = without b rows" "\<not> length b < batch_limit"
  moreover have "length b \<le> length rows" if "b = batch_of (ce_rank env op n) old rows"
    using batch_places [of "ce_rank env op n" old rows] card_mono [of "{..<length rows}" "set b"] that by (auto simp: distinct_card subset_iff)
  ultimately show "((env, op, old, Suc n, acc', rows'), env, op, old, n, acc, rows) \<in> measure (\<lambda>(env, op, old, n, acc, rows). length rows)"
    using without_length [of "ce_rank env op n" old rows] by simp
qed simp

declare delete_batched.simps [simp del]

subsection \<open>Cleanup\<close>

definition day_covered :: "rollup_row list \<Rightarrow> string \<Rightarrow> go_time \<Rightarrow> bool" where
  "day_covered R node t \<longleftrightarrow> list_ex (\<lambda>r. ru_resolution r = ResolutionDay \<and> ru_node r = node \<and> ru_bucket r = date_trunc ResolutionDay t) R"

definition old_detail :: "go_time \<Rightarrow> rollup_row list \<Rightarrow> ('a \<Rightarrow> string) \<Rightarrow> ('a \<Rightarrow> go_time) \<Rightarrow> 'a \<Rightarrow> bool" where
  "old_detail cutoff R node time row \<longleftrightarrow> time row < cutoff \<and> day_covered R (node row) (time row)"

type_synonym clean_step = "history \<Rightarrow> history \<times> int \<times> clean_error option"

definition clean_table :: "clean_env \<Rightarrow> clean_op \<Rightarrow> (history \<Rightarrow> 'a list) \<Rightarrow> ('a list \<Rightarrow> history \<Rightarrow> history) \<Rightarrow> (history \<Rightarrow> 'a \<Rightarrow> bool) \<Rightarrow> clean_step" where
  "clean_table env op get put old H = (case delete_batched env op (old H) 0 0 (get H) of (rows, deleted, e) \<Rightarrow> (put rows H, deleted, e))"

definition set_minutes :: "(minute_tables \<Rightarrow> minute_tables) \<Rightarrow> history \<Rightarrow> history" where
  "set_minutes f H = H\<lparr>hi_minutes := f (hi_minutes H)\<rparr>"

text \<open>Deliveries refer to their alert with \<^verbatim>\<open>ON DELETE CASCADE\<close>.\<close>

definition alert_stays :: "alert_row list \<Rightarrow> alert_row list \<Rightarrow> delivery_row \<Rightarrow> bool" where
  "alert_stays left before d \<longleftrightarrow>
     (case dv_alert d of None \<Rightarrow> True | Some a \<Rightarrow> a \<in> set (map al_id left) \<or> a \<notin> set (map al_id before))"

definition put_alerts :: "alert_row list \<Rightarrow> history \<Rightarrow> history" where
  "put_alerts rows H = H\<lparr>hi_alerts := rows, hi_deliveries := filter (alert_stays rows (hi_alerts H)) (hi_deliveries H)\<rparr>"

definition clean_steps :: "clean_env \<Rightarrow> go_time \<Rightarrow> go_time \<Rightarrow> clean_step list" where
  "clean_steps env detail day =
     [clean_table env CleanConnections hi_connections (\<lambda>rows H. H\<lparr>hi_connections := rows\<rparr>) (\<lambda>H. old_detail detail (hi_rollups H) cr_node cr_at),
      clean_table env CleanProxies hi_proxies (\<lambda>rows H. H\<lparr>hi_proxies := rows\<rparr>) (\<lambda>H. old_detail detail (hi_rollups H) px_node px_at),
      clean_table env CleanDeltas hi_deltas (\<lambda>rows H. H\<lparr>hi_deltas := rows\<rparr>) (\<lambda>H. old_detail detail (hi_rollups H) dl_node dl_at),
      clean_table env CleanEvidence hi_evidence (\<lambda>rows H. H\<lparr>hi_evidence := rows\<rparr>) (\<lambda>H. old_detail detail (hi_rollups H) er_node er_at),
      clean_table env CleanTrafficMinute (\<lambda>H. mt_traffic (hi_minutes H)) (\<lambda>rows. set_minutes (mt_traffic_update (\<lambda>_. rows)))
        (\<lambda>H. old_detail detail (hi_rollups H) (\<lambda>row. sr_node (traffic_source row)) (\<lambda>row. sr_bucket (traffic_source row))),
      clean_table env CleanOwnerMinute (\<lambda>H. mt_owner (hi_minutes H)) (\<lambda>rows. set_minutes (mt_owner_update (\<lambda>_. rows)))
        (\<lambda>H. old_detail detail (hi_rollups H) (\<lambda>row. sr_node (owner_source row)) (\<lambda>row. sr_bucket (owner_source row))),
      clean_table env CleanDomainMinute (\<lambda>H. mt_domain (hi_minutes H)) (\<lambda>rows. set_minutes (mt_domain_update (\<lambda>_. rows)))
        (\<lambda>H. old_detail detail (hi_rollups H) (\<lambda>row. sr_node (domain_source row)) (\<lambda>row. sr_bucket (domain_source row))),
      clean_table env CleanFlowMinute (\<lambda>H. mt_flow (hi_minutes H)) (\<lambda>rows. set_minutes (mt_flow_update (\<lambda>_. rows)))
        (\<lambda>H. old_detail detail (hi_rollups H) (\<lambda>row. sr_node (flow_source row)) (\<lambda>row. sr_bucket (flow_source row))),
      clean_table env CleanStatusMinute (\<lambda>H. mt_status (hi_minutes H)) (\<lambda>rows. set_minutes (mt_status_update (\<lambda>_. rows)))
        (\<lambda>H. old_detail detail (hi_rollups H) (\<lambda>row. sr_node (status_source row)) (\<lambda>row. sr_bucket (status_source row))),
      clean_table env CleanHours hi_rollups (\<lambda>rows H. H\<lparr>hi_rollups := rows\<rparr>)
        (\<lambda>H r. ru_resolution r = ResolutionHour \<and> old_detail detail (hi_rollups H) ru_node ru_bucket r),
      clean_table env CleanDays hi_rollups (\<lambda>rows H. H\<lparr>hi_rollups := rows\<rparr>) (\<lambda>H r. ru_resolution r = ResolutionDay \<and> ru_bucket r < day),
      clean_table env CleanAlerts hi_alerts put_alerts (\<lambda>H a. as_Status (al_state a) = StatusResolved \<and> as_LastSeenAt (al_state a) < day),
      clean_table env CleanDeliveries hi_deliveries (\<lambda>rows H. H\<lparr>hi_deliveries := rows\<rparr>)
        (\<lambda>H d. dv_created d < day \<and> dv_status d \<in> {Delivered, Terminal, Cancelled}),
      clean_table env CleanHealth hi_health (\<lambda>rows H. H\<lparr>hi_health := rows\<rparr>) (\<lambda>H h. hr_at h < detail)]"

fun run_steps :: "clean_step list \<Rightarrow> history \<Rightarrow> int \<Rightarrow> history \<times> int \<times> clean_error option" where
  "run_steps [] H acc = (H, acc, None)"
| "run_steps (step # steps) H acc =
     (case step H of
        (H', deleted, None) \<Rightarrow> run_steps steps H' (acc + deleted)
      | (H', deleted, Some e) \<Rightarrow> (H', acc + deleted, Some e))"

definition detail_cutoff :: "go_time \<Rightarrow> retention_settings \<Rightarrow> go_time" where
  "detail_cutoff now settings = AddDate now 0 0 (- DetailDays settings)"

definition day_cutoff :: "go_time \<Rightarrow> retention_settings \<Rightarrow> go_time" where
  "day_cutoff now settings = AddDate now 0 (- AggregateMonths settings) 0"

definition Cleanup :: "clean_env \<Rightarrow> go_time \<Rightarrow> retention_settings \<Rightarrow> history \<Rightarrow> history \<times> int \<times> clean_error option" where
  "Cleanup env now settings H =
     (if DetailDays settings < 1 \<or> 30 < DetailDays settings \<or> AggregateMonths settings < 1 \<or> 12 < AggregateMonths settings
      then (H, 0, Some RetentionBounds)
      else run_steps (clean_steps env (detail_cutoff now settings) (day_cutoff now settings)) H 0)"

subsection \<open>What a batch leaves\<close>

lemma filter_nths: "filter P (nths xs A) = map ((!) xs) (filter (\<lambda>i. i \<in> A \<and> P (xs ! i)) [0..<length xs])"
proof -
  have "zip xs [0..<length xs] = map (\<lambda>i. (xs ! i, i)) [0..<length xs]"
    by (rule nth_equalityI) auto
  then show ?thesis by (simp add: nths_def filter_map comp_def conj_commute)
qed

text \<open>A batch takes only candidates, and all of them when it is not full.\<close>

lemma without_kept: "filter (\<lambda>row. \<not> old row) (without (batch_of rank old rows) rows) = filter (\<lambda>row. \<not> old row) rows"
proof -
  have "filter (\<lambda>i. i \<in> - set (batch_of rank old rows) \<and> \<not> old (rows ! i)) [0..<length rows] = filter (\<lambda>i. i \<in> UNIV \<and> \<not> old (rows ! i)) [0..<length rows]"
    using batch_places(1) [of rank old rows] by (intro filter_cong) auto
  then have "filter (\<lambda>row. \<not> old row) (nths rows (- set (batch_of rank old rows))) = filter (\<lambda>row. \<not> old row) (nths rows UNIV)"
    unfolding filter_nths by (simp only:)
  then show ?thesis by (simp add: without_nths nths_all)
qed

lemma without_last:
  assumes "length (batch_of rank old rows) < batch_limit"
  shows "without (batch_of rank old rows) rows = filter (\<lambda>row. \<not> old row) rows"
    "length (batch_of rank old rows) = length (filter old rows)"
proof -
  let ?c = "filter (\<lambda>i. old (rows ! i)) [0..<length rows]"
  have all: "batch_of rank old rows = sort_key rank ?c" using assms by (simp add: batch_of_def)
  then have "filter old (without (batch_of rank old rows) rows) = []"
    by (auto simp: without_nths filter_nths filter_empty_conv)
  then have "filter (\<lambda>row. \<not> old row) (without (batch_of rank old rows) rows) = without (batch_of rank old rows) rows"
    by (simp add: filter_id_conv filter_empty_conv)
  then show "without (batch_of rank old rows) rows = filter (\<lambda>row. \<not> old row) rows" using without_kept [of old rank rows] by simp
  have "length ?c = length (map ((!) rows) ?c)" by simp
  also have "map ((!) rows) ?c = filter old (nths rows UNIV)" unfolding filter_nths by simp
  finally show "length (batch_of rank old rows) = length (filter old rows)" by (simp add: all nths_all)
qed

lemma without_subseq: "subseq (without places rows) rows"
  by (auto simp: without_nths subseq_conv_nths)

text \<open>The loop, whatever fails: it deletes only candidates, keeps the order of the others and counts what it deletes; without failures it
  deletes them all.\<close>

lemma delete_batched_safe:
  "delete_batched env op old n acc rows = (rows', acc', e) \<Longrightarrow>
     filter (\<lambda>row. \<not> old row) rows' = filter (\<lambda>row. \<not> old row) rows \<and> subseq rows' rows \<and> acc' = acc + int (length rows) - int (length rows') \<and>
     (e = None \<longrightarrow> rows' = filter (\<lambda>row. \<not> old row) rows)"
proof (induction env op old n acc rows arbitrary: rows' acc' e rule: delete_batched.induct)
  case (1 env op old n acc rows)
  define b where "b = batch_of (ce_rank env op n) old rows"
  have step: "filter (\<lambda>row. \<not> old row) (without b rows) = filter (\<lambda>row. \<not> old row) rows" "subseq (without b rows) rows"
    "int (length (without b rows)) = int (length rows) - int (length b)"
    using without_kept [of old "ce_rank env op n" rows] without_subseq [of b rows] without_length [of "ce_rank env op n" old rows]
      batch_places [of "ce_rank env op n" old rows] card_mono [of "{..<length rows}" "set b"]
    by (auto simp: b_def distinct_card subset_iff)
  note run = 1(2) [unfolded delete_batched.simps [of env op old n acc rows] b_def [symmetric] Let_def]
  consider "ce_fails env op n" | "\<not> ce_fails env op n" "length b < batch_limit"
    | "\<not> ce_fails env op n" "\<not> length b < batch_limit" "ce_cancelled env op n"
    | "\<not> ce_fails env op n" "\<not> length b < batch_limit" "\<not> ce_cancelled env op n" by blast
  then show ?case
  proof cases
    case 2
    then show ?thesis using run step without_last(1) [of "ce_rank env op n" old rows] by (auto simp: b_def [symmetric])
  next
    case 4
    then have rec: "delete_batched env op old (Suc n) (acc + int (length b)) (without b rows) = (rows', acc', e)" using run by simp
    note IH = 1(1) [OF 4(1) b_def refl refl 4(2,3) rec]
    show ?thesis using IH step subseq_order.order_trans [of rows' "without b rows" rows] by auto
  qed (use run step in auto)
qed

lemma delete_batched_none:
  "\<forall>n. \<not> ce_fails env op n \<and> \<not> ce_cancelled env op n \<Longrightarrow> snd (snd (delete_batched env op old n acc rows)) = None"
proof (induction env op old n acc rows rule: delete_batched.induct)
  case (1 env op old n acc rows)
  then show ?case by (simp add: delete_batched.simps [of env op old n acc rows] Let_def)
qed

subsection \<open>What a cleanup leaves\<close>

definition clean_reliable :: "clean_env \<Rightarrow> bool" where
  "clean_reliable env \<longleftrightarrow> (\<forall>op n. \<not> ce_fails env op n \<and> \<not> ce_cancelled env op n)"

lemma clean_table_any:
  assumes "clean_table env op get put old H = (H', k, e)"
  obtains rows where "H' = put rows H" "filter (\<lambda>row. \<not> old H row) rows = filter (\<lambda>row. \<not> old H row) (get H)"
    "e = None \<Longrightarrow> rows = filter (\<lambda>row. \<not> old H row) (get H)" "set rows \<subseteq> set (get H)"
proof -
  obtain rows where run: "delete_batched env op (old H) 0 0 (get H) = (rows, k, e)" "H' = put rows H"
    using assms by (auto simp: clean_table_def split: prod.splits)
  moreover have "set rows \<subseteq> set (get H)"
    using delete_batched_safe [OF run(1)] by (auto simp: subseq_conv_nths dest: in_set_nthsD)
  ultimately show thesis using that [of rows] delete_batched_safe [OF run(1)] by blast
qed

text \<open>The tables after a cleanup without failures.\<close>

definition spare_minutes :: "go_time \<Rightarrow> rollup_row list \<Rightarrow> minute_tables \<Rightarrow> minute_tables" where
  "spare_minutes detail R M =
     (let keep = (\<lambda>s. \<not> old_detail detail R sr_node sr_bucket s) in
      \<lparr>mt_traffic = filter (\<lambda>row. keep (traffic_source row)) (mt_traffic M), mt_owner = filter (\<lambda>row. keep (owner_source row)) (mt_owner M),
       mt_domain = filter (\<lambda>row. keep (domain_source row)) (mt_domain M), mt_flow = filter (\<lambda>row. keep (flow_source row)) (mt_flow M),
       mt_status = filter (\<lambda>row. keep (status_source row)) (mt_status M)\<rparr>)"

definition expired_alert :: "go_time \<Rightarrow> alert_row \<Rightarrow> bool" where
  "expired_alert day a \<longleftrightarrow> as_Status (al_state a) = StatusResolved \<and> as_LastSeenAt (al_state a) < day"

definition expired_rollup :: "go_time \<Rightarrow> go_time \<Rightarrow> history \<Rightarrow> rollup_row \<Rightarrow> bool" where
  "expired_rollup detail day H r \<longleftrightarrow>
     ru_resolution r = ResolutionHour \<and> old_detail detail (hi_rollups H) ru_node ru_bucket r \<or> ru_resolution r = ResolutionDay \<and> ru_bucket r < day"

definition cleaned :: "go_time \<Rightarrow> go_time \<Rightarrow> history \<Rightarrow> history" where
  "cleaned detail day H =
     \<lparr>hi_connections = filter (\<lambda>row. \<not> old_detail detail (hi_rollups H) cr_node cr_at row) (hi_connections H),
      hi_proxies = filter (\<lambda>row. \<not> old_detail detail (hi_rollups H) px_node px_at row) (hi_proxies H),
      hi_deltas = filter (\<lambda>row. \<not> old_detail detail (hi_rollups H) dl_node dl_at row) (hi_deltas H),
      hi_evidence = filter (\<lambda>row. \<not> old_detail detail (hi_rollups H) er_node er_at row) (hi_evidence H),
      hi_minutes = spare_minutes detail (hi_rollups H) (hi_minutes H),
      hi_rollups = filter (\<lambda>r. \<not> expired_rollup detail day H r) (hi_rollups H),
      hi_alerts = filter (\<lambda>a. \<not> expired_alert day a) (hi_alerts H),
      hi_deliveries = filter (\<lambda>d. \<not> (dv_created d < day \<and> dv_status d \<in> {Delivered, Terminal, Cancelled}) \<and>
        alert_stays (filter (\<lambda>a. \<not> expired_alert day a) (hi_alerts H)) (hi_alerts H) d) (hi_deliveries H),
      hi_health = filter (\<lambda>h. \<not> hr_at h < detail) (hi_health H)\<rparr>"

text \<open>The effect of each statement.\<close>

fun clean_effect :: "go_time \<Rightarrow> go_time \<Rightarrow> clean_op \<Rightarrow> history \<Rightarrow> history" where
  "clean_effect detail day CleanConnections H = H\<lparr>hi_connections := filter (\<lambda>row. \<not> old_detail detail (hi_rollups H) cr_node cr_at row) (hi_connections H)\<rparr>"
| "clean_effect detail day CleanProxies H = H\<lparr>hi_proxies := filter (\<lambda>row. \<not> old_detail detail (hi_rollups H) px_node px_at row) (hi_proxies H)\<rparr>"
| "clean_effect detail day CleanDeltas H = H\<lparr>hi_deltas := filter (\<lambda>row. \<not> old_detail detail (hi_rollups H) dl_node dl_at row) (hi_deltas H)\<rparr>"
| "clean_effect detail day CleanEvidence H = H\<lparr>hi_evidence := filter (\<lambda>row. \<not> old_detail detail (hi_rollups H) er_node er_at row) (hi_evidence H)\<rparr>"
| "clean_effect detail day CleanTrafficMinute H = H\<lparr>hi_minutes := (hi_minutes H)\<lparr>mt_traffic := mt_traffic (spare_minutes detail (hi_rollups H) (hi_minutes H))\<rparr>\<rparr>"
| "clean_effect detail day CleanOwnerMinute H = H\<lparr>hi_minutes := (hi_minutes H)\<lparr>mt_owner := mt_owner (spare_minutes detail (hi_rollups H) (hi_minutes H))\<rparr>\<rparr>"
| "clean_effect detail day CleanDomainMinute H = H\<lparr>hi_minutes := (hi_minutes H)\<lparr>mt_domain := mt_domain (spare_minutes detail (hi_rollups H) (hi_minutes H))\<rparr>\<rparr>"
| "clean_effect detail day CleanFlowMinute H = H\<lparr>hi_minutes := (hi_minutes H)\<lparr>mt_flow := mt_flow (spare_minutes detail (hi_rollups H) (hi_minutes H))\<rparr>\<rparr>"
| "clean_effect detail day CleanStatusMinute H = H\<lparr>hi_minutes := (hi_minutes H)\<lparr>mt_status := mt_status (spare_minutes detail (hi_rollups H) (hi_minutes H))\<rparr>\<rparr>"
| "clean_effect detail day CleanHours H =
     H\<lparr>hi_rollups := filter (\<lambda>r. \<not> (ru_resolution r = ResolutionHour \<and> old_detail detail (hi_rollups H) ru_node ru_bucket r)) (hi_rollups H)\<rparr>"
| "clean_effect detail day CleanDays H = H\<lparr>hi_rollups := filter (\<lambda>r. \<not> (ru_resolution r = ResolutionDay \<and> ru_bucket r < day)) (hi_rollups H)\<rparr>"
| "clean_effect detail day CleanAlerts H = put_alerts (filter (\<lambda>a. \<not> expired_alert day a) (hi_alerts H)) H"
| "clean_effect detail day CleanDeliveries H =
     H\<lparr>hi_deliveries := filter (\<lambda>d. \<not> (dv_created d < day \<and> dv_status d \<in> {Delivered, Terminal, Cancelled})) (hi_deliveries H)\<rparr>"
| "clean_effect detail day CleanHealth H = H\<lparr>hi_health := filter (\<lambda>h. \<not> hr_at h < detail) (hi_health H)\<rparr>"

definition clean_order :: "clean_op list" where
  "clean_order = [CleanConnections, CleanProxies, CleanDeltas, CleanEvidence, CleanTrafficMinute, CleanOwnerMinute, CleanDomainMinute, CleanFlowMinute,
     CleanStatusMinute, CleanHours, CleanDays, CleanAlerts, CleanDeliveries, CleanHealth]"

text \<open>A step that deletes as an effect says: it keeps what the effect keeps, and without failures it is the effect.\<close>

definition performs :: "clean_env \<Rightarrow> clean_step \<Rightarrow> (history \<Rightarrow> history) \<Rightarrow> bool" where
  "performs env step effect \<longleftrightarrow> (\<forall>H H' k e. step H = (H', k, e) \<longrightarrow> effect H' = effect H \<and> (e = None \<longrightarrow> H' = effect H) \<and> (clean_reliable env \<longrightarrow> e = None) \<and>
     set (hi_rollups H') \<subseteq> set (hi_rollups H))"

lemma history_eqI:
  fixes H H' :: history
  assumes "hi_connections H = hi_connections H'" "hi_proxies H = hi_proxies H'" "hi_deltas H = hi_deltas H'" "hi_evidence H = hi_evidence H'"
    "hi_minutes H = hi_minutes H'" "hi_rollups H = hi_rollups H'" "hi_alerts H = hi_alerts H'" "hi_deliveries H = hi_deliveries H'" "hi_health H = hi_health H'"
  shows "H = H'"
  using assms by simp

lemma clean_table_performs_if:
  assumes "\<And>H. effect H = put (filter (\<lambda>row. \<not> old H row) (get H)) H"
    "\<And>rows H. filter (\<lambda>row. \<not> old H row) rows = filter (\<lambda>row. \<not> old H row) (get H) \<Longrightarrow> set rows \<subseteq> set (get H) \<Longrightarrow> effect (put rows H) = effect H"
    "\<And>rows H. set rows \<subseteq> set (get H) \<Longrightarrow> set (hi_rollups (put rows H)) \<subseteq> set (hi_rollups H)"
  shows "performs env (clean_table env op get put old) effect"
  unfolding performs_def
proof (intro allI impI)
  fix H H' k e assume run: "clean_table env op get put old H = (H', k, e)"
  obtain rows where rows: "H' = put rows H" "filter (\<lambda>row. \<not> old H row) rows = filter (\<lambda>row. \<not> old H row) (get H)"
    "e = None \<Longrightarrow> rows = filter (\<lambda>row. \<not> old H row) (get H)" "set rows \<subseteq> set (get H)"
    using clean_table_any [OF run] by blast
  have "snd (snd (delete_batched env op (old H) 0 0 (get H))) = None" if "clean_reliable env"
    using that by (intro delete_batched_none) (simp add: clean_reliable_def)
  then have "clean_reliable env \<longrightarrow> e = None" using run by (auto simp: clean_table_def split: prod.splits)
  then show "effect H' = effect H \<and> (e = None \<longrightarrow> H' = effect H) \<and> (clean_reliable env \<longrightarrow> e = None) \<and> set (hi_rollups H') \<subseteq> set (hi_rollups H)"
    using rows(1,3) assms(1) [of H] assms(2) [OF rows(2,4)] assms(3) [OF rows(4)] by auto
qed

lemma clean_table_performs:
  assumes "\<And>rows H. get (put rows H) = rows" "\<And>rows rows' H. put rows (put rows' H) = put rows H" "\<And>rows H. old (put rows H) = old H"
    "\<And>H. effect H = put (filter (\<lambda>row. \<not> old H row) (get H)) H"
    "\<And>rows H. set rows \<subseteq> set (get H) \<Longrightarrow> set (hi_rollups (put rows H)) \<subseteq> set (hi_rollups H)"
  shows "performs env (clean_table env op get put old) effect"
  using assms by (intro clean_table_performs_if) simp_all

lemma clean_hours_performs:
  "performs env (clean_table env op hi_rollups (\<lambda>rows H. H\<lparr>hi_rollups := rows\<rparr>)
     (\<lambda>H r. ru_resolution r = ResolutionHour \<and> old_detail detail (hi_rollups H) ru_node ru_bucket r)) (clean_effect detail day CleanHours)"
proof (rule clean_table_performs_if)
  fix rows and H :: history
  let ?old = "\<lambda>r. ru_resolution r = ResolutionHour \<and> old_detail detail (hi_rollups H) ru_node ru_bucket r"
  assume rows: "filter (\<lambda>r. \<not> ?old r) rows = filter (\<lambda>r. \<not> ?old r) (hi_rollups H)"
  have "r \<in> set rows \<longleftrightarrow> r \<in> set (hi_rollups H)" if "ru_resolution r = ResolutionDay" for r
  proof -
    have "\<not> ?old r" using that by (simp add: ResolutionDay_def ResolutionHour_def)
    moreover have "r \<in> set (filter (\<lambda>r. \<not> ?old r) rows) \<longleftrightarrow> r \<in> set (filter (\<lambda>r. \<not> ?old r) (hi_rollups H))" by (simp only: rows)
    ultimately show ?thesis unfolding set_filter by blast
  qed
  then have "day_covered rows = day_covered (hi_rollups H)" by (auto simp: day_covered_def list_ex_iff fun_eq_iff)
  then have old: "old_detail detail rows ru_node ru_bucket r = old_detail detail (hi_rollups H) ru_node ru_bucket r" for r
    by (simp add: old_detail_def)
  show "clean_effect detail day CleanHours (H\<lparr>hi_rollups := rows\<rparr>) = clean_effect detail day CleanHours H"
    using rows by (intro history_eqI) (simp_all add: old)
qed simp_all

lemma clean_alerts_performs:
  "performs env (clean_table env op hi_alerts put_alerts (\<lambda>H a. as_Status (al_state a) = StatusResolved \<and> as_LastSeenAt (al_state a) < day))
     (clean_effect detail day CleanAlerts)"
proof (rule clean_table_performs_if)
  fix rows and H :: history
  assume "filter (\<lambda>a. \<not> (as_Status (al_state a) = StatusResolved \<and> as_LastSeenAt (al_state a) < day)) rows =
      filter (\<lambda>a. \<not> (as_Status (al_state a) = StatusResolved \<and> as_LastSeenAt (al_state a) < day)) (hi_alerts H)" and sub: "set rows \<subseteq> set (hi_alerts H)"
  then have rows: "filter (\<lambda>a. \<not> expired_alert day a) rows = filter (\<lambda>a. \<not> expired_alert day a) (hi_alerts H)" by (simp add: expired_alert_def)
  define kept where "kept = filter (\<lambda>a. \<not> expired_alert day a) (hi_alerts H)"
  have "set kept \<subseteq> set rows" unfolding kept_def rows [symmetric] by auto
  then have "al_id ` set kept \<subseteq> al_id ` set rows" "al_id ` set rows \<subseteq> al_id ` set (hi_alerts H)" using sub by blast+
  then have "(a \<in> al_id ` set rows \<or> a \<notin> al_id ` set (hi_alerts H)) \<and> (a \<in> al_id ` set kept \<or> a \<notin> al_id ` set rows) \<longleftrightarrow>
      a \<in> al_id ` set kept \<or> a \<notin> al_id ` set (hi_alerts H)" for a by blast
  then have "alert_stays rows (hi_alerts H) d \<and> alert_stays kept rows d \<longleftrightarrow> alert_stays kept (hi_alerts H) d" for d
    by (simp add: alert_stays_def split: option.splits)
  then have "put_alerts kept (put_alerts rows H) = put_alerts kept H"
    by (intro history_eqI) (simp_all add: put_alerts_def)
  then show "clean_effect detail day CleanAlerts (put_alerts rows H) = clean_effect detail day CleanAlerts H"
    using rows by (simp add: kept_def put_alerts_def)
qed (simp_all add: expired_alert_def put_alerts_def)

lemma clean_steps_perform: "list_all2 (\<lambda>step op. performs env step (clean_effect detail day op)) (clean_steps env detail day) clean_order"
  unfolding clean_steps_def clean_order_def
  by (intro list_all2_Cons [THEN iffD2] conjI clean_hours_performs clean_alerts_performs; (rule clean_table_performs)?)
    (simp_all add: fun_eq_iff old_detail_def set_minutes_def spare_minutes_def Let_def)

lemma history_eq_iff:
  fixes H H' :: history
  shows "H = H' \<longleftrightarrow> hi_connections H = hi_connections H' \<and> hi_proxies H = hi_proxies H' \<and> hi_deltas H = hi_deltas H' \<and> hi_evidence H = hi_evidence H' \<and>
    hi_minutes H = hi_minutes H' \<and> hi_rollups H = hi_rollups H' \<and> hi_alerts H = hi_alerts H' \<and> hi_deliveries H = hi_deliveries H' \<and> hi_health H = hi_health H'"
  using history_eqI [of H H'] by blast

lemma minute_tables_eq_iff:
  fixes M M' :: minute_tables
  shows "M = M' \<longleftrightarrow> mt_traffic M = mt_traffic M' \<and> mt_owner M = mt_owner M' \<and> mt_domain M = mt_domain M' \<and> mt_flow M = mt_flow M' \<and> mt_status M = mt_status M'"
  by auto

text \<open>What every cleanup keeps, whatever fails: details and minutes that are young or of a day without a rollup \<open>R\<close>, and young daily rollups.\<close>

definition spares :: "go_time \<Rightarrow> go_time \<Rightarrow> rollup_row list \<Rightarrow> history \<Rightarrow> history \<Rightarrow> bool" where
  "spares detail day R H H' \<longleftrightarrow>
     filter (\<lambda>row. \<not> old_detail detail R cr_node cr_at row) (hi_connections H') = filter (\<lambda>row. \<not> old_detail detail R cr_node cr_at row) (hi_connections H) \<and>
     filter (\<lambda>row. \<not> old_detail detail R px_node px_at row) (hi_proxies H') = filter (\<lambda>row. \<not> old_detail detail R px_node px_at row) (hi_proxies H) \<and>
     filter (\<lambda>row. \<not> old_detail detail R dl_node dl_at row) (hi_deltas H') = filter (\<lambda>row. \<not> old_detail detail R dl_node dl_at row) (hi_deltas H) \<and>
     filter (\<lambda>row. \<not> old_detail detail R er_node er_at row) (hi_evidence H') = filter (\<lambda>row. \<not> old_detail detail R er_node er_at row) (hi_evidence H) \<and>
     spare_minutes detail R (hi_minutes H') = spare_minutes detail R (hi_minutes H) \<and>
     filter (\<lambda>r. ru_resolution r = ResolutionDay \<and> day \<le> ru_bucket r) (hi_rollups H') =
       filter (\<lambda>r. ru_resolution r = ResolutionDay \<and> day \<le> ru_bucket r) (hi_rollups H)"

lemma spares_refl: "spares detail day R H H" and spares_trans: "spares detail day R H H' \<Longrightarrow> spares detail day R H' H'' \<Longrightarrow> spares detail day R H H''"
  by (simp_all add: spares_def)

definition detail_ops :: "clean_op list" where
  "detail_ops = [CleanConnections, CleanProxies, CleanDeltas, CleanEvidence, CleanTrafficMinute, CleanOwnerMinute, CleanDomainMinute, CleanFlowMinute,
     CleanStatusMinute]"

lemma spare_twice: "spare_minutes detail R (spare_minutes detail R M) = spare_minutes detail R M"
  by (simp add: spare_minutes_def Let_def)

lemma partial_detail_spares:
  assumes "op \<in> set detail_ops" "clean_effect detail day op H' = clean_effect detail day op H" 
  shows "hi_rollups H' = hi_rollups H \<and> spares detail day (hi_rollups H) H H'"
proof -
  have R: "hi_rollups H' = hi_rollups H"
    using assms by (cases op rule: clean_op.exhaust) (simp_all add: detail_ops_def history_eq_iff)
  have "spares detail day (hi_rollups H) H H'"
    using assms
    by (cases op rule: clean_op.exhaust)
      (simp_all add: R detail_ops_def history_eq_iff minute_tables_eq_iff spares_def spare_minutes_def Let_def)
  with R show ?thesis ..
qed

lemma filter_through:
  assumes "filter P xs = filter P' ys" "\<And>x. Q x \<Longrightarrow> P x" "\<And>x. Q x \<Longrightarrow> P' x"
  shows "filter Q xs = filter Q ys"
proof -
  have "filter Q xs = filter Q (filter P xs)" using assms(2) by (auto intro: filter_cong)
  also have "\<dots> = filter Q (filter P' ys)" by (simp only: assms(1))
  also have "\<dots> = filter Q ys" using assms(3) by (auto intro: filter_cong)
  finally show ?thesis .
qed

lemma partial_rest_spares:
  assumes "op \<notin> set detail_ops" "clean_effect detail day op H' = clean_effect detail day op H"
  shows "spares detail day R H H'"
proof -
  let ?young = "\<lambda>rs. filter (\<lambda>r. ru_resolution r = ResolutionDay \<and> day \<le> ru_bucket r) rs"
  have "?young (hi_rollups H') = ?young (hi_rollups H)"
  proof (cases op rule: clean_op.exhaust)
    case CleanHours
    let ?P = "\<lambda>H r. \<not> (ru_resolution r = ResolutionHour \<and> old_detail detail (hi_rollups H) ru_node ru_bucket r)"
    have "filter (?P H') (hi_rollups H') = filter (?P H) (hi_rollups H)" using assms(2) CleanHours by (simp add: history_eq_iff)
    then show ?thesis by (rule filter_through) (auto simp: ResolutionDay_def ResolutionHour_def)
  next
    case CleanDays
    let ?P = "\<lambda>r. \<not> (ru_resolution r = ResolutionDay \<and> ru_bucket r < day)"
    have "filter ?P (hi_rollups H') = filter ?P (hi_rollups H)" using assms(2) CleanDays by (simp add: history_eq_iff)
    then show ?thesis by (rule filter_through) auto
  qed (use assms in \<open>simp_all add: detail_ops_def history_eq_iff put_alerts_def\<close>)
  then show ?thesis
    using assms by (cases op rule: clean_op.exhaust) (simp_all add: detail_ops_def history_eq_iff spares_def put_alerts_def)
qed

subsection \<open>Running the statements\<close>

lemma run_steps_reliable:
  assumes "list_all2 (\<lambda>step op. performs env step (clean_effect detail day op)) steps ops" "clean_reliable env"
  shows "\<exists>k. run_steps steps H acc = (fold (clean_effect detail day) ops H, k, None)"
  using assms(1)
proof (induction arbitrary: H acc rule: list_all2_induct)
  case (Cons step steps op ops)
  obtain H' k e where run: "step H = (H', k, e)" by (metis prod_cases3)
  then have "e = None" "H' = clean_effect detail day op H" using Cons.hyps(1) assms(2) by (auto simp: performs_def)
  then show ?case using run Cons.IH [of "clean_effect detail day op H" "acc + k"] by simp
qed simp

lemma run_steps_success:
  assumes "list_all2 (\<lambda>step op. performs env step (clean_effect detail day op)) steps ops" "run_steps steps H acc = (H', k, None)"
  shows "H' = fold (clean_effect detail day) ops H"
  using assms
proof (induction arbitrary: H acc rule: list_all2_induct)
  case (Cons step steps op ops)
  obtain H1 k1 e where run: "step H = (H1, k1, e)" by (metis prod_cases3)
  then have "e = None" "run_steps steps H1 (acc + k1) = (H', k, None)" using Cons.prems by (auto split: option.splits)
  moreover from this(1) have "H1 = clean_effect detail day op H" using Cons.hyps(1) run by (auto simp: performs_def)
  ultimately show ?case using Cons.IH [of H1 "acc + k1"] by simp
qed simp

lemma run_steps_rest_spares:
  assumes "list_all2 (\<lambda>step op. performs env step (clean_effect detail day op)) steps ops" "\<forall>op \<in> set ops. op \<notin> set detail_ops"
  shows "spares detail day R H (fst (run_steps steps H acc))"
  using assms
proof (induction arbitrary: H acc rule: list_all2_induct)
  case (Cons step steps op ops)
  obtain H1 k1 e where run: "step H = (H1, k1, e)" by (metis prod_cases3)
  then have "clean_effect detail day op H1 = clean_effect detail day op H" using Cons.hyps(1) by (auto simp: performs_def)
  then have "spares detail day R H H1" using Cons.prems by (intro partial_rest_spares) auto
  then show ?case using run Cons.IH [of H1 "acc + k1"] Cons.prems spares_trans [of detail day R H H1] by (cases e) auto
qed (simp add: spares_refl)

lemma run_steps_append: "run_steps (ss @ ts) H acc = (case run_steps ss H acc of (H', k, None) \<Rightarrow> run_steps ts H' k | r \<Rightarrow> r)"
  by (induction ss arbitrary: H acc) (auto split: prod.splits option.splits)

lemma run_steps_detail_spares:
  assumes "list_all2 (\<lambda>step op. performs env step (clean_effect detail day op)) steps ops" "set ops \<subseteq> set detail_ops"
  shows "hi_rollups (fst (run_steps steps H acc)) = hi_rollups H \<and> spares detail day (hi_rollups H) H (fst (run_steps steps H acc))"
  using assms
proof (induction arbitrary: H acc rule: list_all2_induct)
  case (Cons step steps op ops)
  obtain H1 k1 e where run: "step H = (H1, k1, e)" by (metis prod_cases3)
  then have "clean_effect detail day op H1 = clean_effect detail day op H" using Cons.hyps(1) by (auto simp: performs_def)
  then have "hi_rollups H1 = hi_rollups H" "spares detail day (hi_rollups H) H H1" using Cons.prems partial_detail_spares [of op detail day H1 H] by auto
  then show ?case
    using run Cons.IH [of H1 "acc + k1"] Cons.prems spares_trans [of detail day "hi_rollups H" H H1] by (cases e) auto
qed (simp add: spares_refl)

lemma run_steps_rollups:
  assumes "list_all2 (\<lambda>step op. performs env step (clean_effect detail day op)) steps ops"
  shows "set (hi_rollups (fst (run_steps steps H acc))) \<subseteq> set (hi_rollups H)"
  using assms
proof (induction arbitrary: H acc rule: list_all2_induct)
  case (Cons step steps op ops)
  obtain H1 k1 e where run: "step H = (H1, k1, e)" by (metis prod_cases3)
  then have "set (hi_rollups H1) \<subseteq> set (hi_rollups H)" using Cons.hyps(1) by (auto simp: performs_def)
  then show ?case using run Cons.IH [of H1 "acc + k1"] by (cases e) auto
qed simp

lemma Cleanup_rollups: "set (hi_rollups (fst (Cleanup env now settings H))) \<subseteq> set (hi_rollups H)"
  using run_steps_rollups [OF clean_steps_perform, of env "detail_cutoff now settings" "day_cutoff now settings" H 0] by (simp add: Cleanup_def)

lemma Cleanup_spares: "spares (detail_cutoff now settings) (day_cutoff now settings) (hi_rollups H) H (fst (Cleanup env now settings H))"
proof -
  define detail day where "detail = detail_cutoff now settings" and "day = day_cutoff now settings"
  let ?R = "hi_rollups H"
  obtain ss ts where split: "clean_steps env detail day = ss @ ts"
    and ss: "list_all2 (\<lambda>step op. performs env step (clean_effect detail day op)) ss detail_ops"
    and ts: "list_all2 (\<lambda>step op. performs env step (clean_effect detail day op)) ts (drop 9 clean_order)"
  proof -
    have order: "clean_order = detail_ops @ drop 9 clean_order" by (simp add: clean_order_def detail_ops_def)
    have "list_all2 (\<lambda>step op. performs env step (clean_effect detail day op)) (clean_steps env detail day) (detail_ops @ drop 9 clean_order)"
      using clean_steps_perform [of env detail day] order by argo
    then show thesis unfolding list_all2_append2 using that by blast
  qed
  obtain H1 k1 e1 where first: "run_steps ss H 0 = (H1, k1, e1)" by (metis prod_cases3)
  have "spares detail day ?R H H1" using run_steps_detail_spares [OF ss, of H 0] first by simp
  moreover have "spares detail day ?R H1 (fst (run_steps ts H1 k1))"
    using ts by (rule run_steps_rest_spares) (simp add: clean_order_def detail_ops_def)
  ultimately have "spares detail day ?R H (fst (run_steps (clean_steps env detail day) H 0))"
    using spares_trans [of detail day ?R H H1] by (cases e1) (simp_all add: split run_steps_append first)
  then show ?thesis by (simp add: Cleanup_def detail_def day_def spares_refl)
qed

lemma fold_clean_effects: "fold (clean_effect detail day) clean_order H = cleaned detail day H"
  by (rule history_eqI) (simp_all add: clean_order_def cleaned_def put_alerts_def expired_rollup_def spare_minutes_def Let_def conj_commute)

lemma Cleanup_reliable:
  assumes "clean_reliable env" "1 \<le> DetailDays settings" "DetailDays settings \<le> 30" "1 \<le> AggregateMonths settings" "AggregateMonths settings \<le> 12"
  shows "\<exists>k. Cleanup env now settings H = (cleaned (detail_cutoff now settings) (day_cutoff now settings) H, k, None)"
  using run_steps_reliable [OF clean_steps_perform assms(1), of "detail_cutoff now settings" "day_cutoff now settings" H 0] assms(2-)
  by (simp add: Cleanup_def fold_clean_effects)

lemma Cleanup_success:
  assumes "Cleanup env now settings H = (H', k, None)"
  shows "H' = cleaned (detail_cutoff now settings) (day_cutoff now settings) H"
  using assms run_steps_success [OF clean_steps_perform]
  by (auto simp: Cleanup_def fold_clean_effects split: if_splits)

subsection \<open>Cleanup and rollups\<close>

text \<open>A rollup reads only the minutes of its window.\<close>

lemma statement_rows_window:
  assumes "filter (\<lambda>s. in_window start stop (sr_bucket s)) ss = filter (\<lambda>s. in_window start stop (sr_bucket s)) ss'"
  shows "statement_rows json res start stop ss = statement_rows json res start stop ss'"
  using assms by (simp add: statement_rows_def)

lemma statement_rows_spared:
  assumes "filter (\<lambda>row. \<not> old_detail detail R sr_node sr_bucket (f row)) xs = filter (\<lambda>row. \<not> old_detail detail R sr_node sr_bucket (f row)) xs'"
    "detail \<le> start"
  shows "statement_rows json res start stop (map f xs) = statement_rows json res start stop (map f xs')"
proof -
  have "filter (\<lambda>row. in_window start stop (sr_bucket (f row))) xs = filter (\<lambda>row. in_window start stop (sr_bucket (f row))) xs'"
    by (rule filter_through [OF assms(1)]) (use assms(2) in \<open>auto simp: old_detail_def in_window_def\<close>)
  then show ?thesis by (intro statement_rows_window) (simp add: filter_map comp_def)
qed

lemma spare_window:
  assumes "detail \<le> start" "spare_minutes detail R M = spare_minutes detail R M'"
  shows "map (statement_rows json res start stop) (statements M) = map (statement_rows json res start stop) (statements M')"
proof -
  let ?keep = "\<lambda>f row. \<not> old_detail detail R sr_node sr_bucket (f row)"
  have "filter (?keep traffic_source) (mt_traffic M) = filter (?keep traffic_source) (mt_traffic M')"
    "filter (?keep owner_source) (mt_owner M) = filter (?keep owner_source) (mt_owner M')"
    "filter (?keep domain_source) (mt_domain M) = filter (?keep domain_source) (mt_domain M')"
    "filter (?keep flow_source) (mt_flow M) = filter (?keep flow_source) (mt_flow M')"
    "filter (?keep status_source) (mt_status M) = filter (?keep status_source) (mt_status M')"
    using assms(2) by (simp_all add: spare_minutes_def Let_def)
  note this [THEN statement_rows_spared, OF assms(1), of json res stop]
  then show ?thesis unfolding statements_def list.map by (simp only:)
qed

lemma run_statements_window:
  "map (statement_rows json res start stop) sss = map (statement_rows json res start stop) sss' \<Longrightarrow>
     run_statements fails json res start stop i sss R = run_statements fails json res start stop i sss' R"
proof (induction sss arbitrary: i R sss')
  case (Cons ss sss)
  then obtain ss' rest where "sss' = ss' # rest" "statement_rows json res start stop ss = statement_rows json res start stop ss'"
    "map (statement_rows json res start stop) sss = map (statement_rows json res start stop) rest" by (cases sss') auto
  then show ?case using Cons.IH [of rest] by (auto intro: arg_cong [where f = "andThen _"])
qed simp

lemma RollupRange_spared:
  assumes "detail \<le> start" "spare_minutes detail R0 M = spare_minutes detail R0 M'"
  shows "RollupRange fails applied json res start stop M R = RollupRange fails applied json res start stop M' R"
proof -
  have "run_statements fails json res start stop 0 (statements M) R = run_statements fails json res start stop 0 (statements M') R" for R
    by (rule run_statements_window, rule spare_window [OF assms])
  then show ?thesis by (simp only: RollupRange_def)
qed

lemma window_young:
  assumes "1 \<le> DetailDays settings" "t1 \<le> t2"
  shows "detail_cutoff t1 settings \<le> truncate_time t2 hour_ns - 2 * hour_ns"
    "3 \<le> DetailDays settings \<Longrightarrow> detail_cutoff t1 settings \<le> truncate_time t2 day_ns - 48 * hour_ns"
proof -
  have d: "detail_cutoff t1 settings = t1 - DetailDays settings * day_ns" by (simp add: detail_cutoff_def AddDate_days)
  have "1 * day_ns \<le> DetailDays settings * day_ns" using assms(1) by (intro mult_right_mono) (simp_all add: day_ns_def hour_ns_def)
  then show "detail_cutoff t1 settings \<le> truncate_time t2 hour_ns - 2 * hour_ns"
    using assms(2) truncate_bounds [of hour_ns t2] unfolding d by (simp add: day_ns_def hour_ns_def)
  assume "3 \<le> DetailDays settings"
  then have "3 * day_ns \<le> DetailDays settings * day_ns" by (intro mult_right_mono) (simp_all add: day_ns_def hour_ns_def)
  then show "detail_cutoff t1 settings \<le> truncate_time t2 day_ns - 48 * hour_ns"
    using assms(2) truncate_bounds [of day_ns t2] unfolding d by (simp add: day_ns_def hour_ns_def)
qed

lemma statements_spare: "concat (statements (spare_minutes detail R M)) = filter (\<lambda>s. \<not> old_detail detail R sr_node sr_bucket s) (concat (statements M))"
  by (simp add: statements_def spare_minutes_def Let_def filter_map comp_def)

text \<open>Of a day that has a rollup, a cleanup leaves the minutes after its cutoff.\<close>

lemma spare_day_total:
  assumes "day_covered R node d" "d mod day_ns = 0"
  shows "minutes_total g ResolutionDay node kind direction d (spare_minutes detail R M) =
    (\<Sum>s\<leftarrow>filter (\<lambda>s. sr_node s = node \<and> dimension_kind (sr_dim s) = kind \<and> sr_direction s = direction \<and> date_trunc ResolutionDay (sr_bucket s) = d \<and>
       detail \<le> sr_bucket s) (concat (statements M)). g s)"
proof -
  have "date_trunc ResolutionDay d = d" using assms(2) by (simp add: date_trunc_def truncate_time_def resolution_ns_def ResolutionDay_def ResolutionHour_def)
  then have "day_covered R node t" if "date_trunc ResolutionDay t = d" for t using assms(1) that by (simp add: day_covered_def)
  then have left: "filter (\<lambda>s. sr_node s = node \<and> dimension_kind (sr_dim s) = kind \<and> sr_direction s = direction \<and> date_trunc ResolutionDay (sr_bucket s) = d)
      (filter (\<lambda>s. \<not> old_detail detail R sr_node sr_bucket s) ss) =
    filter (\<lambda>s. sr_node s = node \<and> dimension_kind (sr_dim s) = kind \<and> sr_direction s = direction \<and> date_trunc ResolutionDay (sr_bucket s) = d \<and>
       detail \<le> sr_bucket s) ss" for ss
    by (auto simp: old_detail_def intro!: filter_cong)
  show ?thesis unfolding minutes_total_def statements_spare left ..
qed

subsection \<open>Properties\<close>

text \<open>Without failures a cleanup ends, however many batches it takes and whichever rows they choose, and leaves exactly the rows it should: of the details
  and the minutes those that are younger than the cutoff or of a day without a rollup, of the rollups by hour those that are younger or not
  yet covered by a day, of the daily rollups, resolved alerts and finished deliveries the younger ones, and no delivery of a deleted alert.\<close>

theorem cleanup_exact:
  assumes "clean_reliable env" "1 \<le> DetailDays settings" "DetailDays settings \<le> 30" "1 \<le> AggregateMonths settings" "AggregateMonths settings \<le> 12"
  shows "\<exists>k. Cleanup env now settings H = (cleaned (detail_cutoff now settings) (day_cutoff now settings) H, k, None)"
  using assms by (rule Cleanup_reliable)

definition steady :: clean_env where
  "steady = \<lparr>ce_fails = \<lambda>op n. False, ce_cancelled = \<lambda>op n. False, ce_rank = \<lambda>op n i. i\<rparr>"

definition sample_day :: rollup_row where
  "sample_day = \<lparr>ru_resolution = ResolutionDay, ru_node = ''n'', ru_bucket = 700000 * day_ns, ru_kind = ''traffic'', ru_key = ''total'', ru_direction = ''inbound'',
     ru_status = 0, ru_bytes = 100, ru_packets = 1, ru_connections = 0, ru_requests = 0, ru_min = 700000 * day_ns, ru_max = 700000 * day_ns\<rparr>"

text \<open>A day with a minute of traffic, rolled up.\<close>

definition sample_history :: history where
  "sample_history = \<lparr>hi_connections = [], hi_proxies = [],
     hi_deltas = [\<lparr>dl_event = ''e'', dl_node = ''n'', dl_at = 700000 * day_ns + 5, dl_interface = ''eth0'', dl_direction = ''inbound'', dl_bytes = 100, dl_packets = 1\<rparr>],
     hi_evidence = [],
     hi_minutes = \<lparr>mt_traffic = [((''n'', 700000 * day_ns, ''inbound''), 100, 1)], mt_owner = [], mt_domain = [], mt_flow = [], mt_status = []\<rparr>,
     hi_rollups = [sample_day], hi_alerts = [], hi_deliveries = [], hi_health = []\<rparr>"

abbreviation keep_days :: "int \<Rightarrow> retention_settings" where
  "keep_days n \<equiv> \<lparr>DetailDays = n, AggregateMonths = 1\<rparr>"

lemma steady_reliable: "clean_reliable steady"
  by (simp add: clean_reliable_def steady_def)

theorem cleanup_exact_witness:
  "\<exists>k. Cleanup steady (700002 * day_ns) (keep_days 1) sample_history =
     (sample_history\<lparr>hi_deltas := [], hi_minutes := (hi_minutes sample_history)\<lparr>mt_traffic := []\<rparr>\<rparr>, k, None)"
proof -
  have "cleaned (detail_cutoff (700002 * day_ns) (keep_days 1)) (day_cutoff (700002 * day_ns) (keep_days 1)) sample_history =
      sample_history\<lparr>hi_deltas := [], hi_minutes := (hi_minutes sample_history)\<lparr>mt_traffic := []\<rparr>\<rparr>"
    unfolding history_eq_iff minute_tables_eq_iff by code_simp
  then show ?thesis using cleanup_exact [OF steady_reliable, of "keep_days 1" "700002 * day_ns" sample_history] by simp
qed

text \<open>A time of a node that is young, or of a day without a rollup.\<close>

definition kept_at :: "go_time \<Rightarrow> rollup_row list \<Rightarrow> string \<Rightarrow> go_time \<Rightarrow> bool" where
  "kept_at detail R node t \<longleftrightarrow>
     detail \<le> t \<or> (node, date_trunc ResolutionDay t) \<notin> (\<lambda>r. (ru_node r, ru_bucket r)) ` {r \<in> set R. ru_resolution r = ResolutionDay}"

lemma kept_old: "kept_at detail R (node row) (time row) \<longleftrightarrow> \<not> old_detail detail R node time row"
  by (force simp: kept_at_def old_detail_def day_covered_def list_ex_iff image_iff)

text \<open>C35. A cleanup never takes what is not covered, whichever of its statements fail: details and minutes that are younger than the cutoff, or of a
  day for which the node has no rollup, stay in their order, and so do the daily rollups younger than theirs.\<close>

theorem cleanup_spares_uncovered:
  "let H' = fst (Cleanup env now settings H); kept = kept_at (detail_cutoff now settings) (hi_rollups H);
       young = (\<lambda>r. ru_resolution r = ResolutionDay \<and> day_cutoff now settings \<le> ru_bucket r) in
   filter (\<lambda>r. kept (cr_node r) (cr_at r)) (hi_connections H') = filter (\<lambda>r. kept (cr_node r) (cr_at r)) (hi_connections H) \<and>
   filter (\<lambda>r. kept (px_node r) (px_at r)) (hi_proxies H') = filter (\<lambda>r. kept (px_node r) (px_at r)) (hi_proxies H) \<and>
   filter (\<lambda>r. kept (dl_node r) (dl_at r)) (hi_deltas H') = filter (\<lambda>r. kept (dl_node r) (dl_at r)) (hi_deltas H) \<and>
   filter (\<lambda>r. kept (er_node r) (er_at r)) (hi_evidence H') = filter (\<lambda>r. kept (er_node r) (er_at r)) (hi_evidence H) \<and>
   filter (\<lambda>s. kept (sr_node s) (sr_bucket s)) (concat (statements (hi_minutes H'))) = filter (\<lambda>s. kept (sr_node s) (sr_bucket s)) (concat (statements (hi_minutes H))) \<and>
   filter young (hi_rollups H') = filter young (hi_rollups H)"
  using Cleanup_spares [of now settings H env] statements_spare [of "detail_cutoff now settings" "hi_rollups H"]
  unfolding spares_def kept_old Let_def by metis

text \<open>C34. With details kept for at least three days, a cleanup does not disturb the rollups: whatever it deleted and whatever failed in it, the daily and
  hourly jobs that run after it compute the same as without it.\<close>

theorem rollups_survive_cleanup:
  assumes "3 \<le> DetailDays settings" "t1 \<le> t2"
  shows "day_job fails applied json t2 (hi_minutes (fst (Cleanup env t1 settings H))) R = day_job fails applied json t2 (hi_minutes H) R \<and>
    hour_job fails applied json t2 (hi_minutes (fst (Cleanup env t1 settings H))) R = hour_job fails applied json t2 (hi_minutes H) R"
proof -
  have "spare_minutes (detail_cutoff t1 settings) (hi_rollups H) (hi_minutes (fst (Cleanup env t1 settings H))) =
      spare_minutes (detail_cutoff t1 settings) (hi_rollups H) (hi_minutes H)"
    using Cleanup_spares [of t1 settings H env] by (simp add: spares_def)
  note same = RollupRange_spared [OF _ this]
  show ?thesis unfolding day_job_def hour_job_def Let_def using assms window_young [of settings t1 t2] by (intro conjI same) auto
qed

theorem rollups_survive_cleanup_witness:
  "case Cleanup steady (700010 * day_ns) (keep_days 3) sample_history of (H', k, e) \<Rightarrow>
     mt_traffic (hi_minutes sample_history) \<noteq> [] \<and> mt_traffic (hi_minutes H') = [] \<and>
     day_job (\<lambda>op. False) False sample_json (700010 * day_ns + 5) (hi_minutes H') [] =
       day_job (\<lambda>op. False) False sample_json (700010 * day_ns + 5) (hi_minutes sample_history) []"
proof -
  let ?H = "sample_history\<lparr>hi_deltas := [], hi_minutes := (hi_minutes sample_history)\<lparr>mt_traffic := []\<rparr>\<rparr>"
  have "cleaned (detail_cutoff (700010 * day_ns) (keep_days 3)) (day_cutoff (700010 * day_ns) (keep_days 3)) sample_history = ?H"
    unfolding history_eq_iff minute_tables_eq_iff by code_simp
  then obtain k where clean: "Cleanup steady (700010 * day_ns) (keep_days 3) sample_history = (?H, k, None)"
    using Cleanup_reliable [OF steady_reliable, of "keep_days 3" "700010 * day_ns" sample_history] by auto
  then show ?thesis
    using rollups_survive_cleanup [of "keep_days 3" "700010 * day_ns" "700010 * day_ns + 5" "\<lambda>op. False" False sample_json steady sample_history "[]"]
    by (simp add: sample_history_def)
qed

text \<open>C36. With details kept for one or two days, the jobs erase history: the daily job rolls up the last two days again, but the cleanup has already
  deleted the minutes of the first of them, so that the new rollup of that day has only what is younger than the cutoff.\<close>

theorem rollup_after_cleanup_shrinks:
  assumes "Cleanup env t1 settings H = (H', k, None)" "day_job fails applied json t2 (hi_minutes H') (hi_rollups H') = (R', None)"
    "(f, g) \<in> set measures" "d = truncate_time t2 day_ns - 48 * hour_ns" "day_covered (hi_rollups H) node d"
  shows "rollup_total f ResolutionDay node kind direction d R' =
    (\<Sum>s\<leftarrow>filter (\<lambda>s. sr_node s = node \<and> dimension_kind (sr_dim s) = kind \<and> sr_direction s = direction \<and> date_trunc ResolutionDay (sr_bucket s) = d \<and>
       detail_cutoff t1 settings \<le> sr_bucket s) (concat (statements (hi_minutes H))). g s)"
proof -
  let ?stop = "truncate_time t2 day_ns"
  have res: "resolution_ns ResolutionDay = day_ns" by (simp add: resolution_ns_def ResolutionDay_def ResolutionHour_def)
  have stop: "?stop mod day_ns = 0" using truncate_bounds [of day_ns t2] by simp
  have "d = ?stop - 2 * day_ns" by (simp add: assms(4) day_ns_def)
  then have d: "d mod day_ns = 0" using stop by (simp add: mod_eq_0_iff_dvd)
  have "in_window d ?stop d" by (simp add: in_window_def assms(4))
  then have "rollup_total f ResolutionDay node kind direction d R' = minutes_total g ResolutionDay node kind direction d (hi_minutes H')"
    using assms(2,3) stop d RollupRange_total [of fails applied json ResolutionDay d ?stop "hi_minutes H'" "hi_rollups H'" R' f g d]
    by (simp add: day_job_def Let_def assms(4) [symmetric] res)
  also have "hi_minutes H' = spare_minutes (detail_cutoff t1 settings) (hi_rollups H) (hi_minutes H)"
    using Cleanup_success [OF assms(1)] by (simp add: cleaned_def)
  finally show ?thesis using spare_day_total [OF assms(5) d] by simp
qed

theorem rollup_after_cleanup_shrinks_witness:
  "case Cleanup steady (700002 * day_ns) (keep_days 1) sample_history of (H', k, e) \<Rightarrow>
     rollup_total ru_bytes ResolutionDay ''n'' ''traffic'' ''inbound'' (700000 * day_ns) (hi_rollups H') = 100 \<and>
     rollup_total ru_bytes ResolutionDay ''n'' ''traffic'' ''inbound'' (700000 * day_ns)
       (fst (day_job (\<lambda>op. False) False sample_json (700002 * day_ns + 20 * minute_ns) (hi_minutes H') (hi_rollups H'))) = 0"
proof -
  let ?H = "sample_history\<lparr>hi_deltas := [], hi_minutes := (hi_minutes sample_history)\<lparr>mt_traffic := []\<rparr>\<rparr>"
  have "cleaned (detail_cutoff (700002 * day_ns) (keep_days 1)) (day_cutoff (700002 * day_ns) (keep_days 1)) sample_history = ?H"
    unfolding history_eq_iff minute_tables_eq_iff by code_simp
  then obtain k where clean: "Cleanup steady (700002 * day_ns) (keep_days 1) sample_history = (?H, k, None)"
    using Cleanup_reliable [OF steady_reliable, of "keep_days 1" "700002 * day_ns" sample_history] by auto
  have job: "day_job (\<lambda>op. False) False sample_json (700002 * day_ns + 20 * minute_ns) (hi_minutes ?H) (hi_rollups ?H) = ([], None)" by code_simp
  have "rollup_total ru_bytes ResolutionDay ''n'' ''traffic'' ''inbound'' (700000 * day_ns) (hi_rollups ?H) = 100" by code_simp
  moreover have "rollup_total ru_bytes ResolutionDay ''n'' ''traffic'' ''inbound'' (700000 * day_ns) [] = 0"
    using rollup_after_cleanup_shrinks [OF clean job, of ru_bytes sr_bytes "700000 * day_ns" "''n''" "''traffic''" "''inbound''"]
    by (simp add: measures_def sample_history_def statements_def day_covered_def sample_day_def truncate_time_def day_ns_def hour_ns_def date_trunc_def
        resolution_ns_def ResolutionDay_def ResolutionHour_def detail_cutoff_def AddDate_days)
  ultimately show ?thesis unfolding clean prod.case job fst_conv by (rule conjI)
qed

lemma uncovered_stays:
  assumes "row \<in> set (hi_deltas H)" "\<not> day_covered (hi_rollups H) (dl_node row) (dl_at row)"
  shows "row \<in> set (hi_deltas (fst (Cleanup env now settings H)))" "\<not> day_covered (hi_rollups (fst (Cleanup env now settings H))) (dl_node row) (dl_at row)"
proof -
  let ?H = "fst (Cleanup env now settings H)"
  let ?old = "old_detail (detail_cutoff now settings) (hi_rollups H) dl_node dl_at"
  have "filter (\<lambda>row. \<not> ?old row) (hi_deltas ?H) = filter (\<lambda>row. \<not> ?old row) (hi_deltas H)"
    using Cleanup_spares [of now settings H env] by (simp add: spares_def)
  moreover have "row \<in> set (filter (\<lambda>row. \<not> ?old row) (hi_deltas H))" using assms by (simp add: old_detail_def)
  ultimately have "row \<in> set (filter (\<lambda>row. \<not> ?old row) (hi_deltas ?H))" by simp
  then show "row \<in> set (hi_deltas ?H)" by simp
  show "\<not> day_covered (hi_rollups ?H) (dl_node row) (dl_at row)"
    using assms(2) Cleanup_rollups [of env now settings H] by (auto simp: day_covered_def list_ex_iff)
qed

text \<open>Details can outlive their retention for good: when the daily rollups expire before the details, as with thirty days and one month in March, a
  cleanup deletes the rollup of a day whose details are still young, and without it no later cleanup ever deletes them.\<close>

theorem details_outlive_retention:
  assumes "Cleanup env now settings H = (H', k, None)" "row \<in> set (hi_deltas H)"
    "detail_cutoff now settings \<le> dl_at row" "date_trunc ResolutionDay (dl_at row) < day_cutoff now settings"
  shows "row \<in> set (hi_deltas (fold (\<lambda>(env, now, settings) H. fst (Cleanup env now settings H)) later H'))"
proof -
  note H' = Cleanup_success [OF assms(1)]
  have "row \<in> set (hi_deltas H')" using assms(2,3) by (simp add: H' cleaned_def old_detail_def)
  moreover have "\<not> day_covered (hi_rollups H') (dl_node row) (dl_at row)"
    using assms(4) by (auto simp: H' cleaned_def day_covered_def list_ex_iff expired_rollup_def)
  ultimately show ?thesis
  proof (induction later arbitrary: H')
    case (Cons run later)
    obtain env now settings where "run = (env, now, settings)" by (metis prod_cases3)
    then show ?case using Cons.IH [OF uncovered_stays [OF Cons.prems]] by simp
  qed simp
qed

definition march :: go_time where
  "march = date_days 2026 3 15 * day_ns"

definition march_history :: history where
  "march_history = sample_history\<lparr>hi_deltas := [\<lparr>dl_event = ''e'', dl_node = ''n'', dl_at = march - 30 * day_ns + 5, dl_interface = ''eth0'',
     dl_direction = ''inbound'', dl_bytes = 100, dl_packets = 1\<rparr>], hi_rollups := [sample_day\<lparr>ru_bucket := march - 30 * day_ns\<rparr>]\<rparr>"

theorem details_outlive_retention_witness:
  "hi_deltas march_history \<noteq> [] \<and>
   hd (hi_deltas march_history) \<in> set (hi_deltas (fst (Cleanup steady (march + 365 * day_ns) (keep_days 30) (fst (Cleanup steady march (keep_days 30) march_history)))))"
proof -
  let ?row = "hd (hi_deltas march_history)"
  obtain H' k where run: "Cleanup steady march (keep_days 30) march_history = (H', k, None)"
    using Cleanup_reliable [OF steady_reliable, of "keep_days 30" march march_history] by auto
  have "?row \<in> set (hi_deltas march_history)" by (simp add: march_history_def)
  moreover have "detail_cutoff march (keep_days 30) \<le> dl_at ?row" by code_simp
  moreover have "date_trunc ResolutionDay (dl_at ?row) < day_cutoff march (keep_days 30)" by code_simp
  ultimately show ?thesis
    using details_outlive_retention [OF run, of ?row "[(steady, march + 365 * day_ns, keep_days 30)]"] by (auto simp: run)
qed

end
