(* ===== verification/Partition.thy ===== *)
theory Partition
  imports Calendar
begin

text \<open>
  The monthly partitions of the tables of details, \<^verbatim>\<open>internal/server/partition/service.go\<close>: \<^verbatim>\<open>Ensure\<close> creates those of the current month and
  of the two after it, at the start of the server and once a day. The catalog of PostgreSQL is a list of partitions with their ranges and the
  rows that no partition takes, which are in the default partition; a new partition is refused when its range overlaps another or
  when the default partition has rows of it. Statements are committed one by one, and any may fail.
\<close>

subsection \<open>The catalog\<close>

record part =
  pt_name :: string
  pt_parent :: string
  pt_from :: go_time
  pt_to :: go_time

record catalog =
  parts :: "part list"
  default_rows :: "(string \<times> go_time) list"

datatype ensure_error = EnsureFailed string | RangesOverlap string | DefaultHasRows string

definition in_part :: "string \<Rightarrow> go_time \<Rightarrow> part \<Rightarrow> bool" where
  "in_part parent t p \<longleftrightarrow> pt_parent p = parent \<and> pt_from p \<le> t \<and> t < pt_to p"

text \<open>A stored row of a table: into its partition or the default one.\<close>

definition store_row :: "string \<Rightarrow> go_time \<Rightarrow> catalog \<Rightarrow> catalog" where
  "store_row parent t C = (if list_ex (in_part parent t) (parts C) then C else C\<lparr>default_rows := default_rows C @ [(parent, t)]\<rparr>)"

text \<open>\<^verbatim>\<open>CREATE TABLE IF NOT EXISTS name PARTITION OF parent FOR VALUES FROM ... TO ...\<close>.\<close>

definition create_part :: "(string \<Rightarrow> bool) \<Rightarrow> part \<Rightarrow> catalog \<Rightarrow> ensure_error + catalog" where
  "create_part fails p C =
     (if fails (pt_name p) then Inl (EnsureFailed (pt_name p))
      else if pt_name p \<in> pt_name ` set (parts C) then Inr C
      else if list_ex (\<lambda>q. pt_parent q = pt_parent p \<and> pt_from q < pt_to p \<and> pt_from p < pt_to q) (parts C) then Inl (RangesOverlap (pt_name p))
      else if list_ex (\<lambda>(parent, t). in_part parent t p) (default_rows C) then Inl (DefaultHasRows (pt_name p))
      else Inr (C\<lparr>parts := parts C @ [p]\<rparr>))"

subsection \<open>Ensure\<close>

definition detail_parents :: "string list" where
  "detail_parents = [''interface_deltas'', ''connection_details'', ''proxy_request_details'']"

definition month_part :: "string \<Rightarrow> go_time \<Rightarrow> part" where
  "month_part parent start = \<lparr>pt_name = parent @ ''_'' @ format_month start, pt_parent = parent, pt_from = start, pt_to = AddDate start 0 1 0\<rparr>"

definition wanted_parts :: "go_time \<Rightarrow> part list" where
  "wanted_parts now = concat (map (\<lambda>parent. map (\<lambda>offset. month_part parent (AddDate (month_begin now) 0 offset 0)) [0, 1, 2]) detail_parents)"

fun create_parts :: "(string \<Rightarrow> bool) \<Rightarrow> part list \<Rightarrow> catalog \<Rightarrow> catalog \<times> ensure_error option" where
  "create_parts fails [] C = (C, None)"
| "create_parts fails (p # ps) C = (case create_part fails p C of Inl e \<Rightarrow> (C, Some e) | Inr C' \<Rightarrow> create_parts fails ps C')"

definition Ensure :: "(string \<Rightarrow> bool) \<Rightarrow> go_time \<Rightarrow> catalog \<Rightarrow> catalog \<times> ensure_error option" where
  "Ensure fails now C = create_parts fails (wanted_parts now) C"

subsection \<open>Names of months\<close>

lemma decimal_value_zeros: "decimal_value (replicate k CHR ''0'' @ s) = decimal_value s"
proof -
  have "foldl (\<lambda>v c. 10 * v + digit_value c) 0 (replicate k CHR ''0'') = 0" by (induction k) (simp_all add: digit_value_def)
  then show ?thesis by (simp add: decimal_value_def)
qed

lemma padded_int_value: "0 \<le> n \<Longrightarrow> int (decimal_value (padded_int w n)) = n"
  by (simp add: padded_int_def Let_def decimal_value_zeros decimal_itoa)

lemma padded_int_length: "0 \<le> n \<Longrightarrow> n < 10 ^ w \<Longrightarrow> 0 < w \<Longrightarrow> length (padded_int w n) = w"
  using length_itoa [of "nat n" w] by (simp add: padded_int_def Let_def nat_less_iff)

lemma padded_int_inj: "0 \<le> a \<Longrightarrow> 0 \<le> b \<Longrightarrow> padded_int w a = padded_int w b \<Longrightarrow> a = b"
  by (metis padded_int_value)

text \<open>Months are numbered through as in \<open>Calendar\<close>; the names have four digits for the year.\<close>

definition named_month :: "int \<Rightarrow> bool" where
  "named_month i \<longleftrightarrow> 0 \<le> i \<and> i < 120000"

lemma month_first_date: "year_of_day (month_first i) = i div 12" "month_of_day (month_first i) = i mod 12 + 1"
proof -
  let ?n = "month_first i"
  have "month_index ?n = i" using month_length [of i] by (intro month_index_unique) auto
  then have i: "i = 12 * year_of_day ?n + (month_of_day ?n - 1)" by (simp add: month_index_def)
  have m: "0 \<le> month_of_day ?n - 1" "month_of_day ?n - 1 < 12" using month_of_day_correct(1,2) [of ?n] by simp_all
  show "year_of_day ?n = i div 12" using int_div_pos_eq [OF i m] ..
  show "month_of_day ?n = i mod 12 + 1" using int_mod_pos_eq [OF i m] by simp
qed

lemma format_month_first:
  assumes "named_month i"
  shows "format_month (month_first i * day_ns) = padded_int 4 (i div 12) @ padded_int 2 (i mod 12 + 1)"
    "length (format_month (month_first i * day_ns)) = 6"
proof -
  show f: "format_month (month_first i * day_ns) = padded_int 4 (i div 12) @ padded_int 2 (i mod 12 + 1)"
    by (simp add: format_month_def Let_def month_first_date)
  have "0 \<le> i div 12" "i div 12 < 10 ^ 4" "0 \<le> i mod 12" "i mod 12 < 12" using assms by (auto simp: named_month_def)
  then show "length (format_month (month_first i * day_ns)) = 6"
    using padded_int_length [of "i div 12" 4] padded_int_length [of "i mod 12 + 1" 2] by (simp add: f)
qed

lemma format_month_inj:
  assumes "named_month i" "named_month j" "format_month (month_first i * day_ns) = format_month (month_first j * day_ns)"
  shows "i = j"
proof -
  have "0 \<le> k div 12 \<and> k div 12 < 10 ^ 4" if "named_month k" for k using that by (auto simp: named_month_def)
  then have "length (padded_int 4 (k div 12)) = 4" if "named_month k" for k using that padded_int_length [of "k div 12" 4] by simp
  then have "padded_int 4 (i div 12) = padded_int 4 (j div 12) \<and> padded_int 2 (i mod 12 + 1) = padded_int 2 (j mod 12 + 1)"
    using assms by (simp add: format_month_first(1))
  moreover have "0 \<le> i div 12" "0 \<le> j div 12" using assms(1,2) by (simp_all add: named_month_def pos_imp_zdiv_nonneg_iff)
  moreover have "0 \<le> i mod 12 + 1" "0 \<le> j mod 12 + 1" by simp_all
  ultimately have "i div 12 = j div 12" "i mod 12 + 1 = j mod 12 + 1"
    by (blast intro: padded_int_inj)+
  then show ?thesis by (metis add_right_cancel div_mult_mod_eq)
qed

abbreviation part_of :: "string \<Rightarrow> int \<Rightarrow> part" where
  "part_of parent i \<equiv> month_part parent (month_first i * day_ns)"

lemma part_of_range [simp]: "pt_parent (part_of parent i) = parent" "pt_from (part_of parent i) = month_first i * day_ns"
  "pt_to (part_of parent i) = month_first (i + 1) * day_ns"
  by (simp_all add: month_part_def AddDate_month_begin)

lemma part_names_inj:
  assumes "named_month i" "named_month j" "pt_name (part_of parent i) = pt_name (part_of parent' j)"
  shows "part_of parent i = part_of parent' j"
proof -
  have "parent @ ''_'' = parent' @ ''_'' \<and> format_month (month_first i * day_ns) = format_month (month_first j * day_ns)"
    using assms(3) format_month_first(2) [OF assms(1)] format_month_first(2) [OF assms(2)]
    by (simp add: month_part_def append_eq_append_conv flip: append.assoc)
  then show ?thesis using format_month_inj [OF assms(1,2)] by simp
qed

subsection \<open>The catalog stays monthly\<close>

definition monthly :: "catalog \<Rightarrow> bool" where
  "monthly C \<longleftrightarrow> (\<forall>p \<in> set (parts C). \<exists>parent i. named_month i \<and> p = part_of parent i)"

lemma months_apart:
  assumes "month_first i * day_ns < month_first (j + 1) * day_ns" "month_first j * day_ns < month_first (i + 1) * day_ns"
  shows "i = j"
proof -
  have "month_first i < month_first (j + 1)" "month_first j < month_first (i + 1)" using assms by (simp_all add: mult_less_cancel_right_pos)
  then have "i \<le> j" "j \<le> i" using month_first_le [of "j + 1" i] month_first_le [of "i + 1" j] by linarith+
  then show ?thesis by simp
qed

lemma three_months:
  assumes "month_first i * day_ns \<le> t" "t < month_first (i + 3) * day_ns"
  shows "\<exists>k \<in> {0, 1, 2}. month_first (i + k) * day_ns \<le> t \<and> t < month_first (i + k + 1) * day_ns"
proof -
  consider "t < month_first (i + 1) * day_ns" | "month_first (i + 1) * day_ns \<le> t" "t < month_first (i + 2) * day_ns" | "month_first (i + 2) * day_ns \<le> t"
    by linarith
  then show ?thesis
  proof cases
    case 1
    then show ?thesis using assms(1) by (intro bexI [of _ 0]) simp_all
  next
    case 2
    then show ?thesis by (intro bexI [of _ 1]) (simp_all add: add.commute)
  next
    case 3
    then show ?thesis using assms(2) by (intro bexI [of _ 2]) (simp_all add: add.commute)
  qed
qed

lemma create_part_month:
  assumes "monthly C" "named_month i" "\<not> fails (pt_name (part_of parent i))"
    "\<not> list_ex (\<lambda>(q, t). in_part q t (part_of parent i)) (default_rows C)"
  shows "\<exists>C'. create_part fails (part_of parent i) C = Inr C' \<and> monthly C' \<and> default_rows C' = default_rows C \<and> part_of parent i \<in> set (parts C') \<and>
    set (parts C) \<subseteq> set (parts C')"
proof (cases "pt_name (part_of parent i) \<in> pt_name ` set (parts C)")
  case True
  then obtain parent' j where "named_month j" "part_of parent' j \<in> set (parts C)" "pt_name (part_of parent i) = pt_name (part_of parent' j)"
    using assms(1) by (auto simp: monthly_def)
  then have "part_of parent i \<in> set (parts C)" using part_names_inj [OF assms(2)] by metis
  then show ?thesis using assms(1,3) True by (auto simp: create_part_def)
next
  case False
  have "\<not> (pt_parent q = parent \<and> pt_from q < month_first (i + 1) * day_ns \<and> month_first i * day_ns < pt_to q)" if mem: "q \<in> set (parts C)" for q
  proof
    assume q: "pt_parent q = parent \<and> pt_from q < month_first (i + 1) * day_ns \<and> month_first i * day_ns < pt_to q"
    obtain parent' j where "q = part_of parent' j" using assms(1) mem unfolding monthly_def by blast
    then have "q = part_of parent i" using q months_apart [of j i] by simp
    then show False using False mem by blast
  qed
  then have "create_part fails (part_of parent i) C = Inr (C\<lparr>parts := parts C @ [part_of parent i]\<rparr>)"
    using assms(3,4) False by (auto simp: create_part_def list_ex_iff)
  moreover have "monthly (C\<lparr>parts := parts C @ [part_of parent i]\<rparr>)" using assms(1,2) by (auto simp: monthly_def)
  ultimately show ?thesis by auto
qed

lemma create_parts_months:
  assumes "monthly C" "\<And>p. p \<in> set ps \<Longrightarrow> \<exists>parent i. named_month i \<and> p = part_of parent i"
    "\<And>p. p \<in> set ps \<Longrightarrow> \<not> fails (pt_name p) \<and> \<not> list_ex (\<lambda>(q, t). in_part q t p) (default_rows C)"
  shows "\<exists>C'. create_parts fails ps C = (C', None) \<and> monthly C' \<and> default_rows C' = default_rows C \<and> set ps \<union> set (parts C) \<subseteq> set (parts C')"
  using assms
proof (induction ps arbitrary: C)
  case (Cons p ps)
  obtain parent i where p: "named_month i" "p = part_of parent i" using Cons.prems(2) [of p] by auto
  obtain C1 where C1: "create_part fails p C = Inr C1" "monthly C1" "default_rows C1 = default_rows C" "p \<in> set (parts C1)" "set (parts C) \<subseteq> set (parts C1)"
    using create_part_month [OF Cons.prems(1) p(1), of fails parent] Cons.prems(3) [of p] p(2) by auto
  obtain C2 where "create_parts fails ps C1 = (C2, None)" "monthly C2" "default_rows C2 = default_rows C1" "set ps \<union> set (parts C1) \<subseteq> set (parts C2)"
    using Cons.IH [OF C1(2)] Cons.prems(2,3) C1(3) by auto
  then show ?case using C1 by auto
qed simp

lemma wanted_parts_months:
  "p \<in> set (wanted_parts now) \<longleftrightarrow> (\<exists>parent \<in> set detail_parents. \<exists>k \<in> {0, 1, 2}. p = part_of parent (month_index (now div day_ns) + k))"
  by (auto simp: wanted_parts_def month_begin_first AddDate_month_begin)

subsection \<open>Properties\<close>

text \<open>C37. \<^verbatim>\<open>Ensure\<close> makes room for three months: when the catalog has monthly partitions and the default one no rows of these months, it succeeds and afterwards
  every time from the beginning of the month to the end of the month after the next has its partition in each of the three tables, so that no row of
  these months goes to the default partition.\<close>

theorem partitions_ready:
  assumes "monthly C" "\<And>name. \<not> fails name" "named_month (month_index (now div day_ns))" "named_month (month_index (now div day_ns) + 2)"
    "\<And>parent t. (parent, t) \<in> set (default_rows C) \<Longrightarrow> t < month_begin now \<or> AddDate (month_begin now) 0 3 0 \<le> t"
    "parent \<in> set detail_parents" "month_begin now \<le> t" "t < AddDate (month_begin now) 0 3 0"
  shows "snd (Ensure fails now C) = None \<and> monthly (fst (Ensure fails now C)) \<and> store_row parent t (fst (Ensure fails now C)) = fst (Ensure fails now C)"
proof -
  define i where "i = month_index (now div day_ns)"
  have first: "month_begin now = month_first i * day_ns" "AddDate (month_begin now) 0 3 0 = month_first (i + 3) * day_ns"
    by (simp_all add: month_begin_first i_def AddDate_month_begin)
  have order: "month_first i \<le> month_first (i + k)" "month_first (i + k + 1) \<le> month_first (i + 3)" if "k \<in> {0, 1, 2}" for k
    using that by (auto intro: month_first_le)
  have named: "named_month (i + k)" if "k \<in> {0, 1, 2}" for k using assms(3,4) that by (auto simp: named_month_def i_def)
  have "\<exists>C'. create_parts fails (wanted_parts now) C = (C', None) \<and> monthly C' \<and> default_rows C' = default_rows C \<and>
      set (wanted_parts now) \<union> set (parts C) \<subseteq> set (parts C')"
  proof (rule create_parts_months [OF assms(1)])
    fix p assume "p \<in> set (wanted_parts now)"
    then obtain q k where p: "k \<in> {0, 1, 2}" "p = part_of q (i + k)" unfolding wanted_parts_months i_def by blast
    then show "\<exists>parent i. named_month i \<and> p = part_of parent i" using named by blast
    have "month_begin now \<le> pt_from p" "pt_to p \<le> AddDate (month_begin now) 0 3 0"
      using order [OF p(1)] by (simp_all add: first AddDate_month_begin p(2) mult_right_mono add.assoc)
    then have "\<not> in_part q t p" if "(q, t) \<in> set (default_rows C)" for q t using assms(5) [OF that] by (auto simp: in_part_def)
    then show "\<not> fails (pt_name p) \<and> \<not> list_ex (\<lambda>(q, t). in_part q t p) (default_rows C)" using assms(2) by (auto simp: list_ex_iff)
  qed
  then obtain C' where C': "Ensure fails now C = (C', None)" "monthly C'" "set (wanted_parts now) \<subseteq> set (parts C')" by (auto simp: Ensure_def)
  obtain k where k: "k \<in> {0, 1, 2}" "month_first (i + k) * day_ns \<le> t" "t < month_first (i + k + 1) * day_ns"
    using three_months [OF assms(7) [unfolded first(1)] assms(8) [unfolded first(2)]] by (elim bexE conjE)
  then have "part_of parent (i + k) \<in> set (parts C')" using C'(3) assms(6) wanted_parts_months [of "part_of parent (i + k)" now] unfolding i_def by blast
  then have "list_ex (in_part parent t) (parts C')" using k(2,3) unfolding list_ex_iff by (intro bexI [of _ "part_of parent (i + k)"]) (simp_all add: in_part_def)
  then show ?thesis using C' by (simp add: store_row_def)
qed

definition early_2026 :: go_time where
  "early_2026 = date_days 2026 1 15 * day_ns"

theorem partitions_ready_witness:
  "store_row ''interface_deltas'' early_2026 (fst (Ensure (\<lambda>name. False) early_2026 \<lparr>parts = [], default_rows = []\<rparr>)) =
   fst (Ensure (\<lambda>name. False) early_2026 \<lparr>parts = [], default_rows = []\<rparr>)"
proof -
  have "monthly \<lparr>parts = [], default_rows = []\<rparr>" by (simp add: monthly_def)
  moreover have "named_month (month_index (early_2026 div day_ns))" "named_month (month_index (early_2026 div day_ns) + 2)" by code_simp+
  moreover have "''interface_deltas'' \<in> set detail_parents" "month_begin early_2026 \<le> early_2026" "early_2026 < AddDate (month_begin early_2026) 0 3 0" by code_simp+
  ultimately show ?thesis
    using partitions_ready [of "\<lparr>parts = [], default_rows = []\<rparr>" "\<lambda>name. False" early_2026 "''interface_deltas''" early_2026] by simp
qed

lemma create_parts_blocked:
  assumes "p \<in> set ps" "list_ex (\<lambda>(q, t). in_part q t p) (default_rows C)" "pt_name p \<notin> pt_name ` set (parts C)"
    "\<And>q. q \<in> set ps \<Longrightarrow> pt_name q = pt_name p \<Longrightarrow> q = p"
  shows "snd (create_parts fails ps C) \<noteq> None"
  using assms
proof (induction ps arbitrary: C)
  case (Cons q ps)
  show ?case
  proof (cases "create_part fails q C")
    case (Inr C')
    then have "q \<noteq> p" using Cons.prems(2,3) by (auto simp: create_part_def split: if_splits)
    then have q: "pt_name q \<noteq> pt_name p" "p \<in> set ps" using Cons.prems(1,4) by auto
    have C': "default_rows C' = default_rows C" "pt_name ` set (parts C') \<subseteq> insert (pt_name q) (pt_name ` set (parts C))"
      using Inr by (auto simp: create_part_def split: if_splits)
    have "pt_name p \<notin> pt_name ` set (parts C')" using q(1) C'(2) Cons.prems(3) by auto
    then show ?thesis using q(2) C'(1) Cons.IH [of C'] Cons.prems(2,4) Inr by auto
  qed simp
qed simp

text \<open>A row of the future stops the server: stored before its month has a partition it is in the default one, and from two months before its month on
  \<^verbatim>\<open>Ensure\<close> fails, every day and at every start.\<close>

theorem future_row_blocks:
  assumes "list_ex (in_part parent t) (parts C) = False" "parent \<in> set detail_parents" "monthly C" "named_month (month_index (now div day_ns))"
    "named_month (month_index (now div day_ns) + 2)" "month_begin now \<le> t" "t < AddDate (month_begin now) 0 3 0"
  shows "snd (Ensure fails now (store_row parent t C)) \<noteq> None"
proof -
  define i where "i = month_index (now div day_ns)"
  have first: "month_begin now = month_first i * day_ns" "AddDate (month_begin now) 0 3 0 = month_first (i + 3) * day_ns"
    by (simp_all add: month_begin_first i_def AddDate_month_begin)
  have named: "named_month (i + k)" if "k \<in> {0, 1, 2}" for k using assms(4,5) that by (auto simp: named_month_def i_def)
  obtain k where k: "k \<in> {0, 1, 2}" "month_first (i + k) * day_ns \<le> t" "t < month_first (i + k + 1) * day_ns"
    using three_months [OF assms(6) [unfolded first(1)] assms(7) [unfolded first(2)]] by (elim bexE conjE)
  let ?p = "part_of parent (i + k)"
  have row: "store_row parent t C = C\<lparr>default_rows := default_rows C @ [(parent, t)]\<rparr>" using assms(1) by (simp add: store_row_def)
  have "snd (create_parts fails (wanted_parts now) (store_row parent t C)) \<noteq> None"
  proof (rule create_parts_blocked)
    show "?p \<in> set (wanted_parts now)" using k(1) assms(2) unfolding wanted_parts_months i_def by blast
    show "list_ex (\<lambda>(q, t). in_part q t ?p) (default_rows (store_row parent t C))" using k by (simp add: row in_part_def)
    show "pt_name ?p \<notin> pt_name ` set (parts (store_row parent t C))"
    proof
      assume "pt_name ?p \<in> pt_name ` set (parts (store_row parent t C))"
      then obtain parent' j where j: "named_month j" "part_of parent' j \<in> set (parts C)" "pt_name ?p = pt_name (part_of parent' j)"
        using assms(3) by (auto simp: monthly_def row)
      then have "?p \<in> set (parts C)" using part_names_inj [OF named [OF k(1)] j(1,3)] by simp
      then show False using assms(1) k by (auto simp: list_ex_iff in_part_def)
    qed
    show "q = ?p" if q: "q \<in> set (wanted_parts now)" and name: "pt_name q = pt_name ?p" for q
    proof -
      obtain q' k' where "k' \<in> {0, 1, 2}" "q = part_of q' (i + k')" using q unfolding wanted_parts_months i_def by blast
      then show ?thesis using name part_names_inj [OF named [of k'] named [OF k(1)], of q' parent] by simp
    qed
  qed
  then show ?thesis by (simp add: Ensure_def)
qed

theorem future_row_blocks_witness:
  "snd (Ensure (\<lambda>name. False) early_2026 (store_row ''interface_deltas'' (early_2026 + 40 * day_ns) \<lparr>parts = [], default_rows = []\<rparr>)) \<noteq> None"
proof -
  have "monthly \<lparr>parts = [], default_rows = []\<rparr>" by (simp add: monthly_def)
  moreover have "named_month (month_index (early_2026 div day_ns))" "named_month (month_index (early_2026 div day_ns) + 2)" by code_simp+
  moreover have "''interface_deltas'' \<in> set detail_parents" "month_begin early_2026 \<le> early_2026 + 40 * day_ns"
    "early_2026 + 40 * day_ns < AddDate (month_begin early_2026) 0 3 0" by code_simp+
  ultimately show ?thesis
    by (intro future_row_blocks) simp_all
qed

end
