(* ===== verification/Auth.thy ===== *)
theory Auth
  imports Passwords Model
begin

text \<open>
  The administrator of the server, \<^verbatim>\<open>internal/server/auth\<close>: the store (\<^verbatim>\<open>store.go\<close>), sessions and the limit on failed logins (\<^verbatim>\<open>session.go\<close>),
  the handlers (\<^verbatim>\<open>handler.go\<close>) and the middleware that admits requests (\<^verbatim>\<open>middleware.go\<close>), and the tickets by which agents are enrolled,
  \<^verbatim>\<open>internal/server/enrollment/handler.go\<close>. A handler of the administrator reads its clock once; a login also appears as its parts, between which those of others run, each at a time of its own. Parameters are SHA-256, the derivation of keys, random bytes or their
  failure, lower-casing, the precision of times in the database, and which statements fail; the decoded body of a request is an argument.
\<close>

subsection \<open>The store\<close>

record Admin =
  ad_ID :: int
  ad_Username :: string
  ad_PasswordHash :: string

record session_row =
  se_TokenHash :: string
  se_AdminID :: int
  se_CSRFToken :: string
  se_CreatedAt :: go_time
  se_LastSeenAt :: go_time
  se_IdleExpiresAt :: go_time
  se_ExpiresAt :: go_time

record auth_db =
  administrators :: "Admin list"
  browser_sessions :: "session_row list"

datatype auth_op =
    OpAdminCount | OpCreateAdmin | OpFindAdmin | OpUpdatePassword | OpCreateSession | OpFindSession | OpTouchSession | OpDeleteSession
  | OpDeleteAdminSessions

record auth_env =
  ae_fails :: "auth_op \<Rightarrow> bool"
  ae_sha256 :: "string \<Rightarrow> string"
  ae_IDKey :: argon2
  ae_salt :: "nat \<Rightarrow> string option"
  ae_token :: "string option"
  ae_csrf :: "string option"
  ae_lower :: "string \<Rightarrow> string"
  ae_time :: "go_time \<Rightarrow> go_time"
  ae_bootstrap :: string
  ae_dummy :: string

datatype lookup_error = AuthNotFound | AuthFailed

definition AdminCount :: "auth_env \<Rightarrow> auth_db \<Rightarrow> nat option" where
  "AdminCount env db = (if ae_fails env OpAdminCount then None else Some (length (administrators db)))"

text \<open>The characters of a text, which PostgreSQL counts in the check of the name.\<close>

definition char_length :: "string \<Rightarrow> nat" where
  "char_length s = length (filter (\<lambda>c. (of_char c :: nat) div 64 \<noteq> 2) s)"

definition CreateAdmin :: "auth_env \<Rightarrow> string \<Rightarrow> string \<Rightarrow> auth_db \<Rightarrow> (Admin \<times> auth_db) option" where
  "CreateAdmin env username hash db =
     (let admin = \<lparr>ad_ID = 1, ad_Username = username, ad_PasswordHash = hash\<rparr> in
      if ae_fails env OpCreateAdmin \<or> \<not> pg_string username \<or> \<not> pg_string hash \<or> char_length username < 1 \<or> 128 < char_length username \<or>
        1 \<in> ad_ID ` set (administrators db) \<or> username \<in> ad_Username ` set (administrators db)
      then None else Some (admin, db\<lparr>administrators := administrators db @ [admin]\<rparr>))"

definition FindAdmin :: "auth_env \<Rightarrow> string \<Rightarrow> auth_db \<Rightarrow> lookup_error + Admin" where
  "FindAdmin env username db =
     (if ae_fails env OpFindAdmin \<or> \<not> pg_string username then Inl AuthFailed
      else case find (\<lambda>a. ad_Username a = username) (administrators db) of None \<Rightarrow> Inl AuthNotFound | Some a \<Rightarrow> Inr a)"

definition UpdatePassword :: "auth_env \<Rightarrow> int \<Rightarrow> string \<Rightarrow> auth_db \<Rightarrow> auth_db option" where
  "UpdatePassword env i hash db =
     (if ae_fails env OpUpdatePassword \<or> \<not> pg_string hash \<or> i \<notin> ad_ID ` set (administrators db) then None
      else Some (db\<lparr>administrators := map (\<lambda>a. if ad_ID a = i then a\<lparr>ad_PasswordHash := hash\<rparr> else a) (administrators db)\<rparr>))"

definition session_checks :: "auth_db \<Rightarrow> session_row \<Rightarrow> bool" where
  "session_checks db s \<longleftrightarrow> length (se_TokenHash s) = 32 \<and> se_TokenHash s \<notin> se_TokenHash ` set (browser_sessions db) \<and>
     se_AdminID s \<in> ad_ID ` set (administrators db) \<and> pg_string (se_CSRFToken s) \<and> 32 \<le> char_length (se_CSRFToken s) \<and>
     se_CreatedAt s < se_IdleExpiresAt s \<and> se_CreatedAt s < se_ExpiresAt s"

definition CreateSession :: "auth_env \<Rightarrow> session_row \<Rightarrow> auth_db \<Rightarrow> auth_db option" where
  "CreateSession env s db =
     (let row = s\<lparr>se_CreatedAt := ae_time env (se_CreatedAt s), se_LastSeenAt := ae_time env (se_LastSeenAt s),
            se_IdleExpiresAt := ae_time env (se_IdleExpiresAt s), se_ExpiresAt := ae_time env (se_ExpiresAt s)\<rparr> in
      if ae_fails env OpCreateSession \<or> \<not> session_checks db row then None else Some (db\<lparr>browser_sessions := browser_sessions db @ [row]\<rparr>))"

text \<open>A session with the name of its administrator.\<close>

definition FindSession :: "auth_env \<Rightarrow> string \<Rightarrow> auth_db \<Rightarrow> lookup_error + session_row \<times> string" where
  "FindSession env hash db =
     (if ae_fails env OpFindSession then Inl AuthFailed
      else case find (\<lambda>s. se_TokenHash s = hash) (browser_sessions db) of
          None \<Rightarrow> Inl AuthNotFound
        | Some s \<Rightarrow> (case find (\<lambda>a. ad_ID a = se_AdminID s) (administrators db) of None \<Rightarrow> Inl AuthNotFound | Some a \<Rightarrow> Inr (s, ad_Username a)))"

definition TouchSession :: "auth_env \<Rightarrow> string \<Rightarrow> go_time \<Rightarrow> go_time \<Rightarrow> auth_db \<Rightarrow> auth_db option" where
  "TouchSession env hash lastSeen idleExpires db =
     (let touch = (\<lambda>s. s\<lparr>se_LastSeenAt := ae_time env lastSeen, se_IdleExpiresAt := min (ae_time env idleExpires) (se_ExpiresAt s)\<rparr>) in
      if ae_fails env OpTouchSession \<or> hash \<notin> se_TokenHash ` set (browser_sessions db) \<or>
        list_ex (\<lambda>s. se_TokenHash s = hash \<and> \<not> se_CreatedAt s < se_IdleExpiresAt (touch s)) (browser_sessions db)
      then None
      else Some (db\<lparr>browser_sessions := map (\<lambda>s. if se_TokenHash s = hash then touch s else s) (browser_sessions db)\<rparr>))"

text \<open>The error of a deletion is ignored by its callers.\<close>

definition DeleteSession :: "auth_env \<Rightarrow> string \<Rightarrow> auth_db \<Rightarrow> auth_db" where
  "DeleteSession env hash db =
     (if ae_fails env OpDeleteSession then db else db\<lparr>browser_sessions := filter (\<lambda>s. se_TokenHash s \<noteq> hash) (browser_sessions db)\<rparr>)"

definition DeleteAdminSessions :: "auth_env \<Rightarrow> int \<Rightarrow> auth_db \<Rightarrow> auth_db option" where
  "DeleteAdminSessions env i db =
     (if ae_fails env OpDeleteAdminSessions then None
      else Some (db\<lparr>browser_sessions := filter (\<lambda>s. se_AdminID s \<noteq> i) (browser_sessions db)\<rparr>))"

subsection \<open>Sessions\<close>

abbreviation second_ns :: go_time where "second_ns \<equiv> 1000000000"
abbreviation idleLifetime :: go_time where "idleLifetime \<equiv> 30 * 60 * second_ns"
abbreviation absoluteLifetime :: go_time where "absoluteLifetime \<equiv> 24 * 60 * 60 * second_ns"
abbreviation loginWindow :: go_time where "loginWindow \<equiv> 15 * 60 * second_ns"
abbreviation maxLoginFailures :: nat where "maxLoginFailures \<equiv> 5"

text \<open>The token, its hash, the token against forged requests and the times.\<close>

definition newSessionMaterial :: "auth_env \<Rightarrow> go_time \<Rightarrow> (string \<times> string \<times> string \<times> go_time \<times> go_time) option" where
  "newSessionMaterial env now =
     Option.bind (ae_token env) (\<lambda>t. Option.bind (ae_csrf env) (\<lambda>c.
       let token = EncodeToString url_alphabet t in
       Some (token, ae_sha256 env token, EncodeToString url_alphabet c, now + absoluteLifetime, now + idleLifetime)))"

definition normalizeUsername :: "auth_env \<Rightarrow> string \<Rightarrow> string" where
  "normalizeUsername env s = ae_lower env (TrimSpace s)"

subsection \<open>The limit on failed logins\<close>

type_synonym limiter = "string \<rightharpoonup> go_time list"

definition current :: "go_time \<Rightarrow> string \<Rightarrow> limiter \<Rightarrow> go_time list \<times> limiter" where
  "current now key F =
     (let attempts = dropWhile (\<lambda>t. \<not> now - loginWindow < t) (case F key of Some ts \<Rightarrow> ts | None \<Rightarrow> []) in
      (attempts, if attempts = [] then F(key := None) else F(key \<mapsto> attempts)))"

definition ip_key :: "string \<Rightarrow> string" where "ip_key ip = ''ip:'' @ ip"
definition user_key :: "auth_env \<Rightarrow> string \<Rightarrow> string" where "user_key env username = ''user:'' @ normalizeUsername env username"

definition Blocked :: "auth_env \<Rightarrow> go_time \<Rightarrow> string \<Rightarrow> string \<Rightarrow> limiter \<Rightarrow> bool \<times> limiter" where
  "Blocked env now ip username F =
     (case current now (ip_key ip) F of (attempts, F) \<Rightarrow>
        if maxLoginFailures \<le> length attempts then (True, F)
        else (case current now (user_key env username) F of (attempts, F) \<Rightarrow> (maxLoginFailures \<le> length attempts, F)))"

definition fail_key :: "go_time \<Rightarrow> string \<Rightarrow> limiter \<Rightarrow> limiter" where
  "fail_key now key F = (case current now key F of (attempts, F) \<Rightarrow> F(key \<mapsto> attempts @ [now]))"

definition Failed :: "auth_env \<Rightarrow> go_time \<Rightarrow> string \<Rightarrow> string \<Rightarrow> limiter \<Rightarrow> limiter" where
  "Failed env now ip username F = fail_key now (user_key env username) (fail_key now (ip_key ip) F)"

definition Succeeded :: "auth_env \<Rightarrow> string \<Rightarrow> string \<Rightarrow> limiter \<Rightarrow> limiter" where
  "Succeeded env ip username F = F(ip_key ip := None, user_key env username := None)"

definition RetryAfter :: "auth_env \<Rightarrow> go_time \<Rightarrow> string \<Rightarrow> string \<Rightarrow> limiter \<Rightarrow> go_time" where
  "RetryAfter env now ip username F =
     (let earlier = (\<lambda>oldest attempts. if maxLoginFailures \<le> length attempts \<and> (IsZero oldest \<or> hd attempts < oldest) then hd attempts else oldest);
          oldest = earlier (earlier 0 (fst (current now (ip_key ip) F))) (fst (current now (user_key env username) F)) in
      if IsZero oldest then 0 else max second_ns (loginWindow - (now - oldest)))"

subsection \<open>The handlers\<close>

record credentials =
  cr_Username :: string
  cr_Password :: string

datatype auth_reply =
    AuthError nat string
  | RateLimited int
  | Started nat string string string
  | LoggedOut
  | SessionIs string string

definition startSession :: "auth_env \<Rightarrow> go_time \<Rightarrow> Admin \<Rightarrow> nat \<Rightarrow> auth_db \<Rightarrow> auth_db \<times> auth_reply" where
  "startSession env now admin status db =
     (case newSessionMaterial env now of
        None \<Rightarrow> (db, AuthError 500 ''internal_error'')
      | Some (token, hash, csrf, expires, idle) \<Rightarrow>
          (case CreateSession env \<lparr>se_TokenHash = hash, se_AdminID = ad_ID admin, se_CSRFToken = csrf, se_CreatedAt = now, se_LastSeenAt = now,
               se_IdleExpiresAt = idle, se_ExpiresAt = expires\<rparr> db of
             None \<Rightarrow> (db, AuthError 500 ''internal_error'')
           | Some db' \<Rightarrow> (db', Started status (ad_Username admin) csrf token)))"

definition bearerMatches :: "string \<Rightarrow> string \<Rightarrow> bool" where
  "bearerMatches header expected \<longleftrightarrow>
     (let provided = (if take 7 header = ''Bearer '' then drop 7 header else header) in expected \<noteq> [] \<and> provided = expected)"

definition Bootstrap :: "auth_env \<Rightarrow> go_time \<Rightarrow> string \<Rightarrow> credentials option \<Rightarrow> auth_db \<Rightarrow> auth_db \<times> auth_reply" where
  "Bootstrap env now authorization body db =
     (if \<not> bearerMatches authorization (ae_bootstrap env) then (db, AuthError 401 ''unauthorized'')
      else case AdminCount env db of
          None \<Rightarrow> (db, AuthError 500 ''internal_error'')
        | Some n \<Rightarrow>
            if n \<noteq> 0 then (db, AuthError 409 ''already_initialized'')
            else (case body of
                None \<Rightarrow> (db, AuthError 400 ''invalid_request'')
              | Some input \<Rightarrow>
                  (let username = normalizeUsername env (cr_Username input) in
                   if username = [] \<or> 128 < length username then (db, AuthError 400 ''invalid_username'')
                   else (case Hash (ae_IDKey env) (ae_salt env) (cr_Password input) DefaultParams of
                       Inl e \<Rightarrow> (db, AuthError 400 ''invalid_password'')
                     | Inr hash \<Rightarrow>
                         (case CreateAdmin env username hash db of
                            None \<Rightarrow> (db, AuthError 409 ''already_initialized'')
                          | Some (admin, db') \<Rightarrow> startSession env now admin 201 db')))))"

definition clientIP :: "string \<Rightarrow> string" where
  "clientIP remoteAddr = (case SplitHostPort remoteAddr of None \<Rightarrow> remoteAddr | Some (host, port) \<Rightarrow> host)"

text \<open>The seconds of \<^verbatim>\<open>Retry-After\<close>, rounded.\<close>

definition writeRateLimit :: "auth_env \<Rightarrow> go_time \<Rightarrow> string \<Rightarrow> string \<Rightarrow> limiter \<Rightarrow> auth_reply" where
  "writeRateLimit env now ip username F = RateLimited ((RetryAfter env now ip username F + second_ns div 2) div second_ns)"

definition rehash :: "auth_env \<Rightarrow> string \<Rightarrow> Admin \<Rightarrow> auth_db \<Rightarrow> auth_db" where
  "rehash env password admin db =
     (case Hash (ae_IDKey env) (ae_salt env) password DefaultParams of
        Inl e \<Rightarrow> db
      | Inr hash \<Rightarrow> (case UpdatePassword env (ad_ID admin) hash db of None \<Rightarrow> db | Some db' \<Rightarrow> db'))"

text \<open>A login in its parts, between which other requests run: the limiter is asked (\<open>Blocked\<close>), the password is compared, the outcome is
  recorded in the limiter, the answer is given. The limiter is locked in each part of its own only.\<close>

type_synonym verdict = "(lookup_error + Admin) \<times> bool \<times> bool"

definition login_compare :: "auth_env \<Rightarrow> string \<Rightarrow> string \<Rightarrow> auth_db \<Rightarrow> verdict" where
  "login_compare env username password db =
     (let found = FindAdmin env username db;
          encoded = (case found of Inl e \<Rightarrow> ae_dummy env | Inr admin \<Rightarrow> ad_PasswordHash admin) in
      (found, Verify (ae_IDKey env) password encoded DefaultParams))"

definition login_right :: "verdict \<Rightarrow> bool" where
  "login_right v = (case v of (Inr admin, match, needsRehash) \<Rightarrow> match | (Inl e, match, needsRehash) \<Rightarrow> False)"

definition login_record :: "auth_env \<Rightarrow> go_time \<Rightarrow> string \<Rightarrow> string \<Rightarrow> string \<Rightarrow> verdict \<Rightarrow> limiter \<times> auth_db \<Rightarrow> limiter \<times> auth_db" where
  "login_record env now ip username password v st =
     (case st of (F, db) \<Rightarrow>
      case v of
        (Inr admin, True, needsRehash) \<Rightarrow> (Succeeded env ip username F, if needsRehash then rehash env password admin db else db)
      | _ \<Rightarrow> (Failed env now ip username F, db))"

definition login_answer :: "auth_env \<Rightarrow> go_time \<Rightarrow> string \<Rightarrow> string \<Rightarrow> verdict \<Rightarrow> limiter \<times> auth_db \<Rightarrow> (limiter \<times> auth_db) \<times> auth_reply" where
  "login_answer env now ip username v st =
     (case st of (F, db) \<Rightarrow>
      case v of
        (Inr admin, True, needsRehash) \<Rightarrow> (case startSession env now admin 200 db of (db, reply) \<Rightarrow> ((F, db), reply))
      | _ \<Rightarrow>
          (case Blocked env now ip username F of
             (True, F) \<Rightarrow> ((F, db), writeRateLimit env now ip username F)
           | (False, F) \<Rightarrow> ((F, db), AuthError 401 ''invalid_credentials'')))"

text \<open>A login that nothing else comes in between of.\<close>

definition Login :: "auth_env \<Rightarrow> go_time \<Rightarrow> string \<Rightarrow> credentials option \<Rightarrow> limiter \<times> auth_db \<Rightarrow> (limiter \<times> auth_db) \<times> auth_reply" where
  "Login env now remoteAddr body st =
     (case st of (F, db) \<Rightarrow>
      case body of
        None \<Rightarrow> ((F, db), AuthError 400 ''invalid_request'')
      | Some input \<Rightarrow>
          (let username = normalizeUsername env (cr_Username input); ip = clientIP remoteAddr in
           case Blocked env now ip username F of
             (True, F) \<Rightarrow> ((F, db), writeRateLimit env now ip username F)
           | (False, F) \<Rightarrow>
               (let v = login_compare env username (cr_Password input) db in
                login_answer env now ip username v (login_record env now ip username (cr_Password input) v (F, db)))))"

text \<open>The session of a request, which the middleware has found.\<close>

definition Logout :: "auth_env \<Rightarrow> session_row option \<Rightarrow> auth_db \<Rightarrow> auth_db \<times> auth_reply" where
  "Logout env session db = (case session of None \<Rightarrow> db | Some s \<Rightarrow> DeleteSession env (se_TokenHash s) db, LoggedOut)"

definition Password :: "auth_env \<Rightarrow> go_time \<Rightarrow> (session_row \<times> string) option \<Rightarrow> (string \<times> string) option \<Rightarrow> auth_db \<Rightarrow> auth_db \<times> auth_reply" where
  "Password env now session body db =
     (case session of
        None \<Rightarrow> (db, AuthError 401 ''unauthorized'')
      | Some (s, username) \<Rightarrow>
          (case body of
             None \<Rightarrow> (db, AuthError 400 ''invalid_request'')
           | Some (old, new) \<Rightarrow>
               (case FindAdmin env username db of
                  Inl e \<Rightarrow> (db, AuthError 401 ''unauthorized'')
                | Inr admin \<Rightarrow>
                    if \<not> fst (Verify (ae_IDKey env) old (ad_PasswordHash admin) DefaultParams) then (db, AuthError 401 ''invalid_credentials'')
                    else (case Hash (ae_IDKey env) (ae_salt env) new DefaultParams of
                        Inl e \<Rightarrow> (db, AuthError 400 ''invalid_password'')
                      | Inr hash \<Rightarrow>
                          (case UpdatePassword env (ad_ID admin) hash db of
                             None \<Rightarrow> (db, AuthError 500 ''internal_error'')
                           | Some db \<Rightarrow>
                               (case DeleteAdminSessions env (ad_ID admin) db of
                                  None \<Rightarrow> (db, AuthError 500 ''internal_error'')
                                | Some db \<Rightarrow> startSession env now admin 200 db))))))"

definition SessionInfo :: "(session_row \<times> string) option \<Rightarrow> auth_reply" where
  "SessionInfo session = (case session of None \<Rightarrow> AuthError 401 ''unauthorized'' | Some (s, username) \<Rightarrow> SessionIs username (se_CSRFToken s))"

subsection \<open>The middleware\<close>

record web_request =
  wr_method :: string
  wr_cookie :: "string option"
  wr_csrf :: string

datatype admission =
    Refused nat string bool
  | Admitted session_row string

definition unsafeMethod :: "string \<Rightarrow> bool" where
  "unsafeMethod m \<longleftrightarrow> m \<noteq> ''GET'' \<and> m \<noteq> ''HEAD'' \<and> m \<noteq> ''OPTIONS''"

text \<open>Refused with a status and a code, and whether the cookie is cleared, or admitted with the session.\<close>

definition RequireSession :: "auth_env \<Rightarrow> go_time \<Rightarrow> web_request \<Rightarrow> auth_db \<Rightarrow> auth_db \<times> admission" where
  "RequireSession env now request db =
     (case wr_cookie request of
        None \<Rightarrow> (db, Refused 401 ''unauthorized'' False)
      | Some token \<Rightarrow>
          if token = [] then (db, Refused 401 ''unauthorized'' False)
          else
            (let hash = ae_sha256 env token in
             case FindSession env hash db of
               Inl AuthNotFound \<Rightarrow> (db, Refused 401 ''session_expired'' True)
             | Inl AuthFailed \<Rightarrow> (DeleteSession env hash db, Refused 401 ''session_expired'' True)
             | Inr (s, username) \<Rightarrow>
                 if \<not> now < se_ExpiresAt s \<or> \<not> now < se_IdleExpiresAt s then (DeleteSession env hash db, Refused 401 ''session_expired'' True)
                 else if unsafeMethod (wr_method request) \<and> wr_csrf request \<noteq> se_CSRFToken s then (db, Refused 403 ''csrf_rejected'' False)
                 else (case TouchSession env hash now (now + idleLifetime) db of
                     None \<Rightarrow> (db, Refused 401 ''session_expired'' False)
                   | Some db' \<Rightarrow> (db', Admitted (s\<lparr>se_LastSeenAt := now, se_IdleExpiresAt := now + idleLifetime\<rparr>) username))))"

subsection \<open>The invariant\<close>

definition session_times :: "(go_time \<Rightarrow> go_time) \<Rightarrow> session_row \<Rightarrow> bool" where
  "session_times T s \<longleftrightarrow> (\<exists>t. se_CreatedAt s = T t \<and> se_ExpiresAt s = T (t + absoluteLifetime)) \<and>
     (\<exists>t. se_LastSeenAt s = T t \<and> se_IdleExpiresAt s \<le> T (t + idleLifetime))"

text \<open>At most one administrator; sessions have tokens of their own, belong to the administrator and end in time.\<close>

definition auth_inv :: "(go_time \<Rightarrow> go_time) \<Rightarrow> auth_db \<Rightarrow> bool" where
  "auth_inv T db \<longleftrightarrow> (administrators db = [] \<or> (\<exists>a. administrators db = [a] \<and> ad_ID a = 1)) \<and> distinct (map se_TokenHash (browser_sessions db)) \<and>
     (\<forall>s \<in> set (browser_sessions db). se_AdminID s = 1 \<and> administrators db \<noteq> [] \<and> session_times T s)"

text \<open>What the handlers do to the administrator: nothing but a new hash.\<close>

definition same_admin :: "auth_db \<Rightarrow> auth_db \<Rightarrow> bool" where
  "same_admin db db' \<longleftrightarrow> map (\<lambda>a. (ad_ID a, ad_Username a)) (administrators db') = map (\<lambda>a. (ad_ID a, ad_Username a)) (administrators db)"

definition keeps :: "(go_time \<Rightarrow> go_time) \<Rightarrow> auth_db \<Rightarrow> auth_db \<Rightarrow> bool" where
  "keeps T db db' \<longleftrightarrow> same_admin db db' \<and> (auth_inv T db \<longrightarrow> auth_inv T db')"

lemma keeps_refl [simp]: "keeps T db db" and keeps_trans: "keeps T db db' \<Longrightarrow> keeps T db' db'' \<Longrightarrow> keeps T db db''"
  by (auto simp: keeps_def same_admin_def)

lemma UpdatePassword_keeps: "UpdatePassword env i hash db = Some db' \<Longrightarrow> keeps T db db'"
  by (auto simp: UpdatePassword_def keeps_def same_admin_def auth_inv_def split: if_splits)

lemma DeleteSession_keeps: "keeps T db (DeleteSession env hash db)"
  by (auto simp: DeleteSession_def keeps_def same_admin_def auth_inv_def distinct_map_filter)

lemma DeleteAdminSessions_keeps: "DeleteAdminSessions env i db = Some db' \<Longrightarrow> keeps T db db'"
  by (auto simp: DeleteAdminSessions_def keeps_def same_admin_def auth_inv_def distinct_map_filter split: if_splits)

lemma TouchSession_keeps:
  assumes "TouchSession env hash now idle db = Some db'" "idle = now + idleLifetime"
  shows "keeps (ae_time env) db db'"
proof -
  define touch :: "session_row \<Rightarrow> session_row" where "touch = (\<lambda>s. if se_TokenHash s = hash
      then s\<lparr>se_LastSeenAt := ae_time env now, se_IdleExpiresAt := min (ae_time env idle) (se_ExpiresAt s)\<rparr> else s)"
  have db': "db' = db\<lparr>browser_sessions := map touch (browser_sessions db)\<rparr>"
    using assms(1) by (auto simp: TouchSession_def Let_def touch_def split: if_splits)
  have "se_TokenHash (touch s) = se_TokenHash s" "se_AdminID (touch s) = se_AdminID s" for s by (simp_all add: touch_def)
  moreover have "session_times (ae_time env) (touch s)" if "session_times (ae_time env) s" for s
    using that by (auto simp: touch_def session_times_def assms(2) intro: min.coboundedI1)
  ultimately show ?thesis by (auto simp: db' keeps_def same_admin_def auth_inv_def comp_def)
qed

lemma startSession_keeps:
  assumes "startSession env now admin status db = (db', reply)"
  shows "keeps (ae_time env) db db'"
proof (cases "db' = db")
  case False
  obtain hash csrf where row: "CreateSession env \<lparr>se_TokenHash = hash, se_AdminID = ad_ID admin, se_CSRFToken = csrf, se_CreatedAt = now, se_LastSeenAt = now,
      se_IdleExpiresAt = now + idleLifetime, se_ExpiresAt = now + absoluteLifetime\<rparr> db = Some db'"
    using assms False
    by (auto simp: startSession_def newSessionMaterial_def Let_def bind_eq_Some_conv split: option.splits)
  define s where "s = \<lparr>se_TokenHash = hash, se_AdminID = ad_ID admin, se_CSRFToken = csrf, se_CreatedAt = ae_time env now, se_LastSeenAt = ae_time env now,
      se_IdleExpiresAt = ae_time env (now + idleLifetime), se_ExpiresAt = ae_time env (now + absoluteLifetime)\<rparr>"
  have "session_checks db s" "db' = db\<lparr>browser_sessions := browser_sessions db @ [s]\<rparr>"
    using row by (auto simp: CreateSession_def Let_def s_def split: if_splits)
  moreover have "session_times (ae_time env) s" by (auto simp: session_times_def s_def)
  ultimately show ?thesis by (auto simp: keeps_def same_admin_def auth_inv_def session_checks_def)
qed simp

lemma rehash_keeps: "keeps T db (rehash env password admin db)"
  by (auto simp: rehash_def split: sum.splits option.splits intro: UpdatePassword_keeps)

lemma login_parts_keep:
  "keeps T db (snd (login_record env now ip username password v (F, db)))"
  "keeps (ae_time env) db (snd (fst (login_answer env now ip username v (F, db))))"
proof -
  have "keeps (ae_time env) db (fst (startSession env now admin 200 db))" for admin
    using startSession_keeps [of env now admin 200 db] by (metis prod.collapse)
  then show "keeps (ae_time env) db (snd (fst (login_answer env now ip username v (F, db))))"
    by (auto simp: login_answer_def split: prod.splits sum.splits bool.splits) (metis fst_conv)+
  show "keeps T db (snd (login_record env now ip username password v (F, db)))"
    by (auto simp: login_record_def rehash_keeps split: prod.splits sum.splits bool.splits)
qed

lemma Login_keeps: "keeps (ae_time env) db (snd (fst (Login env now addr body (F, db))))"
proof -
  have "keeps (ae_time env) db (snd (fst (login_answer env now ip username v (login_record env now ip username password v (F, db)))))" for ip username password v F
    using keeps_trans [OF login_parts_keep(1)] login_parts_keep(2) by (metis prod.collapse)
  then show ?thesis by (auto simp: Login_def Let_def split: option.splits prod.splits bool.splits)
qed

lemma Logout_keeps: "keeps T db (fst (Logout env session db))"
  by (simp add: Logout_def DeleteSession_keeps split: option.splits)

lemma Password_keeps: "keeps (ae_time env) db (fst (Password env now session body db))"
proof -
  have "keeps (ae_time env) db (fst (startSession env now admin 200 db2))" if "UpdatePassword env i hash db = Some db1" "DeleteAdminSessions env j db1 = Some db2" for i hash j db1 db2 admin
    using keeps_trans [OF keeps_trans [OF UpdatePassword_keeps [OF that(1)] DeleteAdminSessions_keeps [OF that(2)]]] startSession_keeps [of env now admin 200 db2]
    by (metis prod.collapse)
  then show ?thesis
    by (auto simp: Password_def intro: UpdatePassword_keeps split: option.splits prod.splits sum.splits)
qed

lemma RequireSession_keeps: "keeps (ae_time env) db (fst (RequireSession env now request db))"
  by (auto simp: RequireSession_def Let_def DeleteSession_keeps intro: TouchSession_keeps split: option.splits sum.splits lookup_error.splits prod.splits)

lemma Bootstrap_inv:
  assumes "auth_inv (ae_time env) db"
  shows "auth_inv (ae_time env) (fst (Bootstrap env now authorization body db))" "administrators db \<noteq> [] \<Longrightarrow> fst (Bootstrap env now authorization body db) = db"
proof -
  have start: "auth_inv (ae_time env) (fst (startSession env now admin 201 db1))" if "CreateAdmin env username hash db = Some (admin, db1)" for admin username hash db1
  proof -
    have "auth_inv (ae_time env) db1" using that assms by (auto simp: CreateAdmin_def auth_inv_def Let_def split: if_splits)
    then show ?thesis using startSession_keeps [of env now admin 201 db1] by (metis keeps_def prod.collapse)
  qed
  then show "auth_inv (ae_time env) (fst (Bootstrap env now authorization body db))"
    using assms by (auto simp: Bootstrap_def Let_def split: option.splits sum.splits prod.splits)
  show "administrators db \<noteq> [] \<Longrightarrow> fst (Bootstrap env now authorization body db) = db"
    by (auto simp: Bootstrap_def AdminCount_def split: option.splits)
qed

subsection \<open>Any sequence of requests\<close>

inductive auth_step :: "(go_time \<Rightarrow> go_time) \<Rightarrow> auth_db \<Rightarrow> auth_db \<Rightarrow> bool" for T where
  bootstrap: "ae_time env = T \<Longrightarrow> auth_step T db (fst (Bootstrap env now authorization body db))"
| login: "ae_time env = T \<Longrightarrow> auth_step T db (snd (fst (Login env now addr body (F, db))))"
| logout: "ae_time env = T \<Longrightarrow> auth_step T db (fst (Logout env session db))"
| password: "ae_time env = T \<Longrightarrow> auth_step T db (fst (Password env now found change db))"
| admit: "ae_time env = T \<Longrightarrow> auth_step T db (fst (RequireSession env now request db))"

lemma auth_step_keeps:
  assumes "auth_step T db db'" "auth_inv T db"
  shows "auth_inv T db'" "administrators db \<noteq> [] \<Longrightarrow> same_admin db db'"
proof -
  have "auth_inv T db' \<and> (administrators db \<noteq> [] \<longrightarrow> same_admin db db')"
    using assms
  proof cases
    case (bootstrap env now authorization body)
    then show ?thesis using assms(2) Bootstrap_inv [of env db now authorization body] by (auto simp: same_admin_def)
  next
    case (login env now addr body F)
    then show ?thesis using assms(2) Login_keeps [of env db now addr body F] by (auto simp: keeps_def)
  next
    case (logout env session)
    then show ?thesis using assms(2) Logout_keeps [of T db env session] by (auto simp: keeps_def)
  next
    case (password env now found change)
    then show ?thesis using assms(2) Password_keeps [of env db now found change] by (auto simp: keeps_def)
  next
    case (admit env now request)
    then show ?thesis using assms(2) RequireSession_keeps [of env db now request] by (auto simp: keeps_def)
  qed
  then show "auth_inv T db'" "administrators db \<noteq> [] \<Longrightarrow> same_admin db db'" by blast+
qed

lemma auth_steps_inv: "(auth_step T)\<^sup>*\<^sup>* db db' \<Longrightarrow> auth_inv T db \<Longrightarrow> auth_inv T db' \<and> (administrators db \<noteq> [] \<longrightarrow> same_admin db db')"
proof (induction rule: rtranclp_induct)
  case (step db1 db2)
  then have "auth_inv T db1" "administrators db \<noteq> [] \<longrightarrow> same_admin db db1" by auto
  moreover from this(2) have "administrators db \<noteq> [] \<longrightarrow> administrators db1 \<noteq> []" by (auto simp: same_admin_def)
  ultimately show ?case using auth_step_keeps [OF step(2)] by (auto simp: same_admin_def)
qed (simp add: same_admin_def)

lemma find_SomeD: "find P xs = Some x \<Longrightarrow> x \<in> set xs \<and> P x"
  by (auto simp: find_Some_iff)

lemma Admitted_parts:
  assumes "RequireSession env now request db = (db', Admitted s' username)"
  obtains token s a where "wr_cookie request = Some token" "token \<noteq> []" "s \<in> set (browser_sessions db)" "se_TokenHash s = ae_sha256 env token"
    "a \<in> set (administrators db)" "ad_ID a = se_AdminID s" "username = ad_Username a" "now < se_ExpiresAt s" "now < se_IdleExpiresAt s"
    "unsafeMethod (wr_method request) \<Longrightarrow> wr_csrf request = se_CSRFToken s" "s' = s\<lparr>se_LastSeenAt := now, se_IdleExpiresAt := now + idleLifetime\<rparr>"
    "TouchSession env (ae_sha256 env token) now (now + idleLifetime) db = Some db'"
proof -
  obtain token s where t: "wr_cookie request = Some token" "token \<noteq> []" "FindSession env (ae_sha256 env token) db = Inr (s, username)"
    "now < se_ExpiresAt s" "now < se_IdleExpiresAt s" "\<not> (unsafeMethod (wr_method request) \<and> wr_csrf request \<noteq> se_CSRFToken s)"
    "s' = s\<lparr>se_LastSeenAt := now, se_IdleExpiresAt := now + idleLifetime\<rparr>"
    "TouchSession env (ae_sha256 env token) now (now + idleLifetime) db = Some db'"
    using assms by (auto simp: RequireSession_def Let_def split: option.splits sum.splits lookup_error.splits prod.splits if_splits)
  obtain a where "s \<in> set (browser_sessions db)" "se_TokenHash s = ae_sha256 env token" "a \<in> set (administrators db)" "ad_ID a = se_AdminID s" "username = ad_Username a"
    using t(3) by (auto simp: FindSession_def split: if_splits option.splits dest!: find_SomeD)
  with t show thesis using that [of token s a] by blast
qed

subsection \<open>Logins at the same time\<close>

text \<open>A login between its parts, and the steps of any number of logins in any order. Each step is one part of \<open>Login\<close>, at a time of its own.\<close>

datatype login_phase = Checked | Compared verdict | Recorded verdict

record login_job =
  lj_env :: auth_env
  lj_ip :: string
  lj_username :: string
  lj_password :: string
  lj_phase :: login_phase

type_synonym login_state = "(limiter \<times> auth_db) \<times> (nat \<times> login_job) list"

datatype login_event =
    CheckLogin nat auth_env go_time string "credentials option"
  | CompareLogin nat
  | RecordLogin nat go_time
  | AnswerLogin nat go_time

fun login_step :: "login_event \<Rightarrow> login_state \<Rightarrow> login_state" where
  "login_step (CheckLogin i env now addr body) ((F, db), jobs) =
     (case (map_of jobs i, body) of
        (None, Some input) \<Rightarrow>
          (let username = normalizeUsername env (cr_Username input); ip = clientIP addr in
           case Blocked env now ip username F of
             (True, F) \<Rightarrow> ((F, db), jobs)
           | (False, F) \<Rightarrow> ((F, db), (i, \<lparr>lj_env = env, lj_ip = ip, lj_username = username, lj_password = cr_Password input, lj_phase = Checked\<rparr>) # jobs))
      | _ \<Rightarrow> ((F, db), jobs))"
| "login_step (CompareLogin i) ((F, db), jobs) =
     (case map_of jobs i of
        Some j \<Rightarrow>
          (case lj_phase j of
             Checked \<Rightarrow> ((F, db), (i, j\<lparr>lj_phase := Compared (login_compare (lj_env j) (lj_username j) (lj_password j) db)\<rparr>) # AList.delete i jobs)
           | _ \<Rightarrow> ((F, db), jobs))
      | None \<Rightarrow> ((F, db), jobs))"
| "login_step (RecordLogin i now) ((F, db), jobs) =
     (case map_of jobs i of
        Some j \<Rightarrow>
          (case lj_phase j of
             Compared v \<Rightarrow> (login_record (lj_env j) now (lj_ip j) (lj_username j) (lj_password j) v (F, db), (i, j\<lparr>lj_phase := Recorded v\<rparr>) # AList.delete i jobs)
           | _ \<Rightarrow> ((F, db), jobs))
      | None \<Rightarrow> ((F, db), jobs))"
| "login_step (AnswerLogin i now) ((F, db), jobs) =
     (case map_of jobs i of
        Some j \<Rightarrow>
          (case lj_phase j of
             Recorded v \<Rightarrow> (fst (login_answer (lj_env j) now (lj_ip j) (lj_username j) v (F, db)), AList.delete i jobs)
           | _ \<Rightarrow> ((F, db), jobs))
      | None \<Rightarrow> ((F, db), jobs))"

text \<open>Run one after the other, the parts are the handler.\<close>

lemma Login_parts:
  "fst (fold login_step [CheckLogin 0 env now addr body, CompareLogin 0, RecordLogin 0 now, AnswerLogin 0 now] ((F, db), [])) =
   fst (Login env now addr body (F, db))"
proof (cases body)
  case (Some input)
  define username ip where "username = normalizeUsername env (cr_Username input)" and "ip = clientIP addr"
  obtain b F1 where B: "Blocked env now ip username F = (b, F1)" by fastforce
  obtain F2 db2 where R: "login_record env now ip username (cr_Password input) (login_compare env username (cr_Password input) db) (F1, db) = (F2, db2)"
    by fastforce
  show ?thesis
    using B R by (cases b) (simp_all add: Some Login_def Let_def username_def [symmetric] ip_def [symmetric])
qed (simp add: Login_def)

text \<open>The times of the mismatches charged to a key since its last match, newest first.\<close>

definition charge :: "go_time \<Rightarrow> (string \<times> string \<times> bool) option \<Rightarrow> (string \<Rightarrow> go_time list) \<Rightarrow> string \<Rightarrow> go_time list" where
  "charge now a C key =
     (case a of
        None \<Rightarrow> C key
      | Some (ip, user, ok) \<Rightarrow> if key = ip \<or> key = user then (if ok then [] else now # C key) else C key)"

text \<open>What a step charges: a comparison is charged when its outcome is recorded.\<close>

fun step_charge :: "login_event \<Rightarrow> login_state \<Rightarrow> (string \<Rightarrow> go_time list) \<Rightarrow> string \<Rightarrow> go_time list" where
  "step_charge (RecordLogin i now) (st, jobs) C =
     (case map_of jobs i of
        Some j \<Rightarrow> (case lj_phase j of Compared v \<Rightarrow> charge now (Some (ip_key (lj_ip j), user_key (lj_env j) (lj_username j), login_right v)) C | _ \<Rightarrow> C)
      | None \<Rightarrow> C)"
| "step_charge _ s C = C"

fun run_logins :: "login_event list \<Rightarrow> login_state \<times> (string \<Rightarrow> go_time list) \<Rightarrow> login_state \<times> (string \<Rightarrow> go_time list)" where
  "run_logins [] st = st"
| "run_logins (e # es) (s, C) = run_logins es (login_step e s, step_charge e s C)"

text \<open>The logins for a key that have passed the limiter and are not yet recorded, and the most there are of them at any time.\<close>

definition in_flight :: "string \<Rightarrow> login_job \<Rightarrow> bool" where
  "in_flight key j \<longleftrightarrow> (key = ip_key (lj_ip j) \<or> key = user_key (lj_env j) (lj_username j)) \<and>
     (case lj_phase j of Recorded v \<Rightarrow> False | _ \<Rightarrow> True)"

definition flying :: "string \<Rightarrow> login_state \<Rightarrow> nat" where
  "flying key s = length (filter (in_flight key) (map snd (snd s)))"

fun peak :: "string \<Rightarrow> login_event list \<Rightarrow> login_state \<Rightarrow> nat" where
  "peak key [] s = flying key s"
| "peak key (e # es) s = max (flying key s) (peak key es (login_step e s))"

fun event_time :: "login_event \<Rightarrow> go_time option" where
  "event_time (CheckLogin i env now addr body) = Some now"
| "event_time (CompareLogin i) = None"
| "event_time (RecordLogin i now) = Some now"
| "event_time (AnswerLogin i now) = Some now"

definition held :: "limiter \<Rightarrow> string \<Rightarrow> go_time list" where
  "held F key = (case F key of Some ts \<Rightarrow> ts | None \<Rightarrow> [])"

fun spaced :: "nat \<Rightarrow> go_time list \<Rightarrow> bool" where
  "spaced k [] = True"
| "spaced k (x # xs) \<longleftrightarrow> length (filter (\<lambda>t. x - loginWindow < t) xs) < k \<and> spaced k xs"

lemma spaced_window: "spaced k C \<Longrightarrow> length (filter (\<lambda>s. t - loginWindow < s \<and> s \<le> t) C) \<le> k"
proof (induction C)
  case (Cons x C)
  show ?case
  proof (cases "t - loginWindow < x \<and> x \<le> t")
    case True
    have "length (filter (\<lambda>s. t - loginWindow < s \<and> s \<le> t) C) = length (filter (\<lambda>s. t - loginWindow < s \<and> s \<le> t) (filter (\<lambda>s. x - loginWindow < s) C))"
      using True by (intro arg_cong [where f = length]) (auto intro!: filter_cong)
    also have "\<dots> \<le> length (filter (\<lambda>s. x - loginWindow < s) C)" by (rule length_filter_le)
    finally show ?thesis using Cons.prems True by simp
  next
    case False
    then show ?thesis using Cons by auto
  qed
qed simp

lemma current_held: "fst (current now key F) = dropWhile (\<lambda>t. \<not> now - loginWindow < t) (held F key)"
  "held (snd (current now key F)) = (held F)(key := dropWhile (\<lambda>t. \<not> now - loginWindow < t) (held F key))"
  by (auto simp: current_def held_def Let_def fun_eq_iff simp del: dropWhile_eq_Nil_conv split: option.splits)

lemma Blocked_pruned:
  "held (snd (Blocked env now ip username F)) k = held F k \<or> held (snd (Blocked env now ip username F)) k = dropWhile (\<lambda>t. \<not> now - loginWindow < t) (held F k)"
proof -
  have "ip_key ip \<noteq> user_key env username" by (simp add: ip_key_def user_key_def)
  then show ?thesis
    using current_held(2) [of now "ip_key ip" F] current_held(2) [of now "user_key env username" "snd (current now (ip_key ip) F)"]
    by (auto simp: Blocked_def split: prod.splits if_splits)
qed

lemma not_Blocked:
  assumes "\<not> fst (Blocked env now ip username F)" "k = ip_key ip \<or> k = user_key env username"
  shows "length (held (snd (Blocked env now ip username F)) k) < maxLoginFailures"
    "held (snd (Blocked env now ip username F)) k = dropWhile (\<lambda>t. \<not> now - loginWindow < t) (held F k)"
proof -
  have "ip_key ip \<noteq> user_key env username" by (simp add: ip_key_def user_key_def)
  then show "length (held (snd (Blocked env now ip username F)) k) < maxLoginFailures"
    "held (snd (Blocked env now ip username F)) k = dropWhile (\<lambda>t. \<not> now - loginWindow < t) (held F k)"
    using assms current_held [of now "ip_key ip" F] current_held [of now "user_key env username" "snd (current now (ip_key ip) F)"]
    by (auto simp: Blocked_def split: prod.splits if_splits)
qed

lemma fail_key_held:
  "held (fail_key now key F) = (held F)(key := dropWhile (\<lambda>t. \<not> now - loginWindow < t) (held F key) @ [now])"
proof -
  obtain attempts F1 where c: "current now key F = (attempts, F1)" by fastforce
  have "held (F1(key \<mapsto> attempts @ [now])) = (held F1)(key := attempts @ [now])" by (auto simp: held_def fun_eq_iff)
  then show ?thesis using current_held [of now key F] by (simp add: fail_key_def c)
qed

text \<open>What is charged to a key within the window.\<close>

definition recent :: "go_time \<Rightarrow> (string \<Rightarrow> go_time list) \<Rightarrow> string \<Rightarrow> nat" where
  "recent now C key = length (filter (\<lambda>t. now - loginWindow < t) (C key))"

lemma recent_later: "now \<le> now' \<Longrightarrow> recent now' C key \<le> recent now C key"
proof -
  assume "now \<le> now'"
  then have "filter (\<lambda>t. now' - loginWindow < t) (C key) = filter (\<lambda>t. now' - loginWindow < t) (filter (\<lambda>t. now - loginWindow < t) (C key))"
    by (auto intro!: filter_cong)
  then show ?thesis unfolding recent_def by (metis length_filter_le)
qed

text \<open>What the limiter holds of a key is all that is charged to it, but for what is older than the window; with the logins that are under way it stays
  within the bound of the key.\<close>

definition holds_recent :: "go_time \<Rightarrow> go_time list \<Rightarrow> go_time list \<Rightarrow> bool" where
  "holds_recent now charged kept \<longleftrightarrow> (\<exists>old. rev charged = old @ kept \<and> (\<forall>t \<in> set old. t \<le> now - loginWindow))"

definition tracks :: "go_time \<Rightarrow> (string \<Rightarrow> nat) \<Rightarrow> login_state \<Rightarrow> (string \<Rightarrow> go_time list) \<Rightarrow> bool" where
  "tracks now n s C \<longleftrightarrow> distinct (map fst (snd s)) \<and>
     (\<forall>key. spaced (n key) (C key) \<and> holds_recent now (C key) (held (fst (fst s)) key) \<and> recent now C key + flying key s \<le> n key)"

lemma tracks_later: "tracks now n s C \<Longrightarrow> now \<le> now' \<Longrightarrow> tracks now' n s C"
proof -
  assume a: "tracks now n s C" "now \<le> now'"
  have "holds_recent now' (C key) (held (fst (fst s)) key)" for key
    using a unfolding tracks_def holds_recent_def by (meson diff_right_mono order_trans)
  then show ?thesis using a recent_later [OF a(2), of C] unfolding tracks_def by (meson add_le_mono1 le_trans)
qed

lemma holds_pruned: "holds_recent now charged kept \<Longrightarrow> holds_recent now charged (dropWhile (\<lambda>t. \<not> now - loginWindow < t) kept)"
proof -
  let ?P = "\<lambda>t. \<not> now - loginWindow < t"
  assume "holds_recent now charged kept"
  then obtain old where "rev charged = old @ kept" "\<forall>t \<in> set old. t \<le> now - loginWindow" unfolding holds_recent_def by blast
  then show ?thesis
    unfolding holds_recent_def by (intro exI [of _ "old @ takeWhile ?P kept"]) (auto dest: set_takeWhileD)
qed

lemma recent_held: "holds_recent now (C key) kept \<Longrightarrow> recent now C key \<le> length kept"
proof -
  assume "holds_recent now (C key) kept"
  then obtain old where old: "rev (C key) = old @ kept" "\<forall>t \<in> set old. t \<le> now - loginWindow" unfolding holds_recent_def by blast
  then have "filter (\<lambda>t. now - loginWindow < t) (rev (C key)) = filter (\<lambda>t. now - loginWindow < t) kept" by (auto simp: filter_empty_conv)
  then show ?thesis unfolding recent_def by (metis length_filter_le length_rev rev_filter)
qed

lemma tracks_pruned:
  assumes "tracks now n ((F, db), jobs) C" "\<And>k. held F' k = held F k \<or> held F' k = dropWhile (\<lambda>t. \<not> now - loginWindow < t) (held F k)"
  shows "tracks now n ((F', db'), jobs) C"
proof -
  have "holds_recent now (C key) (held F' key)" for key
    using assms(1) assms(2) [of key] holds_pruned [of now "C key" "held F key"] by (auto simp: tracks_def)
  then show ?thesis using assms(1) by (simp add: tracks_def flying_def)
qed

lemma flying_delete:
  "distinct (map fst jobs) \<Longrightarrow> map_of jobs i = Some j \<Longrightarrow>
   length (filter P (map snd jobs)) = length (filter P (map snd (AList.delete i jobs))) + (if P j then 1 else 0)"
proof (induction jobs)
  case (Cons x jobs)
  show ?case
  proof (cases "fst x = i")
    case True
    then have "AList.delete i (x # jobs) = jobs" "j = snd x"
      using Cons.prems by (auto simp: AList.delete_eq filter_id_conv) force
    then show ?thesis by simp
  next
    case False
    then show ?thesis using Cons by (cases x) (auto simp: AList.delete_eq)
  qed
qed simp

lemma tracks_check:
  assumes "tracks now n s C" "\<And>key. maxLoginFailures - 1 + flying key (login_step (CheckLogin i env now addr body) s) \<le> n key"
  shows "tracks now n (login_step (CheckLogin i env now addr body) s) C"
proof -
  obtain F db jobs where s: "s = ((F, db), jobs)" by (metis prod.collapse)
  show ?thesis
  proof (cases "map_of jobs i = None \<and> body \<noteq> None")
    case False
    then show ?thesis using assms(1) by (auto simp: s split: option.splits)
  next
    case True
    then obtain input where input: "body = Some input" by blast
    define username ip where "username = normalizeUsername env (cr_Username input)" and "ip = clientIP addr"
    let ?j = "\<lparr>lj_env = env, lj_ip = ip, lj_username = username, lj_password = cr_Password input, lj_phase = Checked\<rparr>"
    obtain b F1 where B: "Blocked env now ip username F = (b, F1)" by fastforce
    have F1: "tracks now n ((F1, db), jobs) C"
      using B Blocked_pruned [of env now ip username F] by (intro tracks_pruned [OF assms(1) [unfolded s]]) auto
    have step: "login_step (CheckLogin i env now addr body) s = ((F1, db), if b then jobs else (i, ?j) # jobs)"
      using True B by (simp add: s input Let_def username_def [symmetric] ip_def [symmetric])
    show ?thesis
    proof (cases b)
      case True
      then show ?thesis using F1 step by simp
    next
      case False
      have "recent now C key + flying key ((F1, db), (i, ?j) # jobs) \<le> n key" for key
      proof (cases "key = ip_key ip \<or> key = user_key env username")
        case True
        have "length (held F1 key) < maxLoginFailures" using not_Blocked(1) [of env now ip username F key] B False True by simp
        then have "recent now C key \<le> maxLoginFailures - 1" using recent_held [of now C key "held F1 key"] F1 by (auto simp: tracks_def)
        then show ?thesis using assms(2) [of key] step False by simp
      next
        case False
        then show ?thesis using F1 by (simp add: tracks_def flying_def in_flight_def)
      qed
      moreover have "i \<notin> fst ` set jobs" using \<open>map_of jobs i = None \<and> body \<noteq> None\<close> by (simp add: map_of_eq_None_iff)
      ultimately show ?thesis using F1 step False by (simp add: tracks_def)
    qed
  qed
qed

lemma job_keys: "distinct (map fst jobs) \<Longrightarrow> distinct (map fst ((i, j) # AList.delete i jobs)) \<and> distinct (map fst (AList.delete i jobs))"
  using distinct_delete [of jobs i] by (simp add: delete_keys)

lemma tracks_compare:
  assumes "tracks now n s C"
  shows "tracks now n (login_step (CompareLogin i) s) C"
proof -
  obtain F db jobs where s: "s = ((F, db), jobs)" by (metis prod.collapse)
  show ?thesis
  proof (cases "\<exists>j. map_of jobs i = Some j \<and> lj_phase j = Checked")
    case True
    then obtain j where j: "map_of jobs i = Some j" "lj_phase j = Checked" by blast
    let ?j = "j\<lparr>lj_phase := Compared (login_compare (lj_env j) (lj_username j) (lj_password j) db)\<rparr>"
    have d: "distinct (map fst jobs)" using assms by (simp add: tracks_def s)
    have "flying key ((F, db), (i, ?j) # AList.delete i jobs) = flying key ((F, db), jobs)" for key
      using flying_delete [OF d j(1), of "in_flight key"] j(2) by (simp add: flying_def in_flight_def)
    then show ?thesis using assms j job_keys [OF d, of i ?j] by (simp add: s tracks_def)
  next
    case False
    then show ?thesis using assms by (auto simp: s split: option.splits login_phase.splits)
  qed
qed

lemma tracks_answer:
  assumes "tracks now n s C"
  shows "tracks now n (login_step (AnswerLogin i now) s) C"
proof -
  obtain F db jobs where s: "s = ((F, db), jobs)" by (metis prod.collapse)
  show ?thesis
  proof (cases "\<exists>j v. map_of jobs i = Some j \<and> lj_phase j = Recorded v")
    case True
    then obtain j v where j: "map_of jobs i = Some j" "lj_phase j = Recorded v" by blast
    have d: "distinct (map fst jobs)" using assms by (simp add: tracks_def s)
    obtain F' db' where a: "fst (login_answer (lj_env j) now (lj_ip j) (lj_username j) v (F, db)) = (F', db')" by fastforce
    have "held F' k = held F k \<or> held F' k = dropWhile (\<lambda>t. \<not> now - loginWindow < t) (held F k)" for k
      using a Blocked_pruned [of "lj_env j" now "lj_ip j" "lj_username j" F k]
      by (auto simp: login_answer_def split: prod.splits sum.splits bool.splits)
    then have "tracks now n ((F', db'), jobs) C" by (rule tracks_pruned [OF assms [unfolded s]])
    moreover have "flying key ((F', db'), AList.delete i jobs) = flying key ((F', db'), jobs)" for key
      using flying_delete [OF d j(1), of "in_flight key"] j(2) by (simp add: flying_def in_flight_def)
    ultimately show ?thesis using j a job_keys [OF d, of i] by (simp add: s tracks_def)
  next
    case False
    then show ?thesis using assms by (auto simp: s split: option.splits login_phase.splits)
  qed
qed

lemma record_limiter:
  "fst (login_record env now ip username password v (F, db)) = (if login_right v then Succeeded env ip username F else Failed env now ip username F)"
  by (auto simp: login_record_def login_right_def split: prod.splits sum.splits bool.splits)

lemma tracks_record:
  assumes "tracks now n s C"
  shows "tracks now n (login_step (RecordLogin i now) s) (step_charge (RecordLogin i now) s C)"
proof -
  obtain F db jobs where s: "s = ((F, db), jobs)" by (metis prod.collapse)
  show ?thesis
  proof (cases "\<exists>j v. map_of jobs i = Some j \<and> lj_phase j = Compared v")
    case False
    then show ?thesis using assms by (auto simp: s split: option.splits login_phase.splits)
  next
    case True
    then obtain j v where j: "map_of jobs i = Some j" "lj_phase j = Compared v" by blast
    let ?j = "j\<lparr>lj_phase := Recorded v\<rparr>" let ?ip = "ip_key (lj_ip j)" let ?user = "user_key (lj_env j) (lj_username j)"
    let ?C = "charge now (Some (?ip, ?user, login_right v)) C" let ?jobs = "(i, ?j) # AList.delete i jobs"
    obtain F' db' where r: "login_record (lj_env j) now (lj_ip j) (lj_username j) (lj_password j) v (F, db) = (F', db')" by fastforce
    have F': "F' = (if login_right v then Succeeded (lj_env j) (lj_ip j) (lj_username j) F else Failed (lj_env j) now (lj_ip j) (lj_username j) F)"
      using record_limiter [of "lj_env j" now "lj_ip j" "lj_username j" "lj_password j" v F db] r by simp
    have d: "distinct (map fst jobs)" using assms by (simp add: tracks_def s)
    have keys: "?ip \<noteq> ?user" by (simp add: ip_key_def user_key_def)
    have "spaced (n key) (?C key) \<and> holds_recent now (?C key) (held F' key) \<and> recent now ?C key + flying key ((F', db'), ?jobs) \<le> n key" for key
    proof -
      have before: "spaced (n key) (C key)" "holds_recent now (C key) (held F key)" "recent now C key + flying key ((F, db), jobs) \<le> n key"
        using assms by (auto simp: tracks_def s)
      have fly: "flying key ((F, db), jobs) = flying key ((F', db'), ?jobs) + (if key = ?ip \<or> key = ?user then 1 else 0)"
        using flying_delete [OF d j(1), of "in_flight key"] j(2) by (simp add: flying_def in_flight_def)
      show ?thesis
      proof (cases "key = ?ip \<or> key = ?user")
        case False
        then have "held F' key = held F key"
          by (cases "login_right v") (simp_all add: F' Failed_def fail_key_held, simp add: Succeeded_def held_def)
        then show ?thesis using False before fly by (simp add: charge_def recent_def)
      next
        case mine: True
        show ?thesis
        proof (cases "login_right v")
          case True
          then have "held F' key = []" using mine by (auto simp: F' Succeeded_def held_def)
          then show ?thesis using True mine before(3) fly by (auto simp: charge_def recent_def holds_recent_def)
        next
          case False
          have held: "held F' key = dropWhile (\<lambda>t. \<not> now - loginWindow < t) (held F key) @ [now]"
            using False mine keys by (auto simp: F' Failed_def fail_key_held)
          have C: "?C key = now # C key" using False mine by (auto simp: charge_def)
          have "holds_recent now (now # C key) (held F' key)"
            using holds_pruned [OF before(2)] by (auto simp: holds_recent_def held)
          moreover have "recent now C key < n key" using before(3) fly mine by simp
          ultimately show ?thesis using before(1,3) fly mine by (simp add: recent_def C)
        qed
      qed
    qed
    then show ?thesis using j r job_keys [OF d, of i ?j] by (simp add: s tracks_def)
  qed
qed

lemma run_logins_tracks:
  assumes "tracks t0 n s C" "sorted (t0 # List.map_filter event_time es)" "\<And>key. maxLoginFailures - 1 + peak key es s \<le> n key"
  shows "\<exists>t1. tracks t1 n (fst (run_logins es (s, C))) (snd (run_logins es (s, C)))"
  using assms
proof (induction es arbitrary: t0 s C)
  case (Cons e es)
  have peak: "maxLoginFailures - 1 + peak key es (login_step e s) \<le> n key" for key using Cons.prems(3) [of key] by simp
  have start: "flying key s' \<le> peak key es s'" for key s' by (cases es) auto
  define t where "t = (case event_time e of Some now \<Rightarrow> now | None \<Rightarrow> t0)"
  have t: "tracks t n s C" "sorted (t # List.map_filter event_time es)"
    using Cons.prems(1,2) tracks_later [OF Cons.prems(1)] by (auto simp: t_def map_filter_simps split: option.splits)
  have fly: "maxLoginFailures - 1 + flying key (login_step e s) \<le> n key" for key using peak [of key] start [of key "login_step e s"] by simp
  have "tracks t n (login_step e s) (step_charge e s C)"
  proof (cases e)
    case (CheckLogin i env now addr body)
    then show ?thesis using tracks_check [of now n s C i env addr body] t(1) fly by (simp add: t_def)
  next
    case (CompareLogin i)
    then show ?thesis using tracks_compare [OF t(1)] by simp
  next
    case (RecordLogin i now)
    then show ?thesis using tracks_record [of now n s C i] t(1) by (simp add: t_def)
  next
    case (AnswerLogin i now)
    then show ?thesis using tracks_answer [of now n s C i] t(1) by (simp add: t_def)
  qed
  then show ?case using Cons.IH [OF _ t(2) peak] by simp
qed auto

lemma run_logins_window:
  assumes "sorted (List.map_filter event_time es)"
  shows "length (filter (\<lambda>s. t - loginWindow < s \<and> s \<le> t) (snd (run_logins es (((Map.empty, db), []), \<lambda>_. [])) key)) \<le>
    maxLoginFailures - 1 + peak key es ((Map.empty, db), [])"
proof -
  let ?s = "((Map.empty, db), []) :: login_state" let ?n = "\<lambda>key. maxLoginFailures - 1 + peak key es ?s"
  define t0 where "t0 = (case List.map_filter event_time es of [] \<Rightarrow> 0 | x # _ \<Rightarrow> x)"
  have "sorted (t0 # List.map_filter event_time es)" using assms by (auto simp: t0_def split: list.splits)
  moreover have "tracks t0 ?n ?s (\<lambda>_. [])" by (simp add: tracks_def held_def holds_recent_def recent_def flying_def)
  ultimately obtain t1 where "tracks t1 ?n (fst (run_logins es (?s, \<lambda>_. []))) (snd (run_logins es (?s, \<lambda>_. [])))"
    using run_logins_tracks by blast
  then show ?thesis by (intro spaced_window) (simp add: tracks_def)
qed

text \<open>Logins that are all asked for before the first is recorded.\<close>

lemma run_logins_append: "run_logins (es @ fs) st = run_logins fs (run_logins es st)"
  by (induction es st rule: run_logins.induct) simp_all

lemma Blocked_empty: "Blocked env now ip username Map.empty = (False, Map.empty)"
  by (simp add: Blocked_def current_def)

lemma checks_together:
  assumes "input' = \<lparr>lj_env = env, lj_ip = clientIP addr, lj_username = normalizeUsername env (cr_Username input), lj_password = cr_Password input, lj_phase = Checked\<rparr>"
  shows "distinct is \<Longrightarrow> (\<And>i. i \<in> set is \<Longrightarrow> map_of jobs i = None) \<Longrightarrow>
    \<exists>jobs'. run_logins (map (\<lambda>i. CheckLogin i env now addr (Some input)) is) (((Map.empty, db), jobs), C) = (((Map.empty, db), jobs'), C) \<and>
      (\<forall>i \<in> set is. map_of jobs' i = Some input') \<and> (\<forall>i. i \<notin> set is \<longrightarrow> map_of jobs' i = map_of jobs i)"
proof (induction "is" arbitrary: jobs)
  case (Cons i "is")
  have step: "login_step (CheckLogin i env now addr (Some input)) ((Map.empty, db), jobs) = ((Map.empty, db), (i, input') # jobs)"
    using Cons.prems(2) [of i] by (simp add: Blocked_empty assms)
  have "map_of ((i, input') # jobs) k = None" if "k \<in> set is" for k using that Cons.prems by auto
  then show ?case using Cons.IH [of "(i, input') # jobs"] Cons.prems(1) step by auto
qed simp

lemma compares_together:
  assumes "lj_phase j = Checked"
  shows "distinct is \<Longrightarrow> (\<And>i. i \<in> set is \<Longrightarrow> map_of jobs i = Some j) \<Longrightarrow>
    \<exists>jobs'. run_logins (map CompareLogin is) (((F, db), jobs), C) = (((F, db), jobs'), C) \<and>
      (\<forall>i \<in> set is. map_of jobs' i = Some (j\<lparr>lj_phase := Compared (login_compare (lj_env j) (lj_username j) (lj_password j) db)\<rparr>)) \<and>
      (\<forall>i. i \<notin> set is \<longrightarrow> map_of jobs' i = map_of jobs i)"
proof (induction "is" arbitrary: jobs)
  case (Cons i "is")
  let ?j = "j\<lparr>lj_phase := Compared (login_compare (lj_env j) (lj_username j) (lj_password j) db)\<rparr>"
  have step: "login_step (CompareLogin i) ((F, db), jobs) = ((F, db), (i, ?j) # AList.delete i jobs)"
    using Cons.prems(2) [of i] assms by simp
  have new: "map_of ((i, ?j) # AList.delete i jobs) k = (if k = i then Some ?j else map_of jobs k)" for k by (simp add: delete_conv')
  have "map_of ((i, ?j) # AList.delete i jobs) k = Some j" if "k \<in> set is" for k using that Cons.prems by (auto simp: new simp del: map_of.simps)
  then obtain jobs' where jobs': "run_logins (map CompareLogin is) (((F, db), (i, ?j) # AList.delete i jobs), C) = (((F, db), jobs'), C)"
    "\<forall>i \<in> set is. map_of jobs' i = Some ?j" "\<forall>k. k \<notin> set is \<longrightarrow> map_of jobs' k = (if k = i then Some ?j else map_of jobs k)"
    using Cons.IH [of "(i, ?j) # AList.delete i jobs"] Cons.prems(1) unfolding new by auto
  then show ?case using step Cons.prems(1) by (intro exI [of _ jobs']) auto
qed simp

lemma records_together:
  assumes "lj_phase j = Compared v" "\<not> login_right v" "key = ip_key (lj_ip j)"
  shows "distinct is \<Longrightarrow> (\<And>i. i \<in> set is \<Longrightarrow> map_of jobs i = Some j) \<Longrightarrow>
    snd (run_logins (map (\<lambda>i. RecordLogin i now) is) ((st, jobs), C)) key = replicate (length is) now @ C key"
proof (induction "is" arbitrary: jobs st C)
  case (Cons i "is")
  obtain F db where st: "st = (F, db)" by fastforce
  let ?j = "j\<lparr>lj_phase := Recorded v\<rparr>"
  let ?st = "login_record (lj_env j) now (lj_ip j) (lj_username j) (lj_password j) v (F, db)"
  have step: "login_step (RecordLogin i now) (st, jobs) = (?st, (i, ?j) # AList.delete i jobs)"
    using Cons.prems(2) [of i] assms by (simp add: st)
  have charge: "step_charge (RecordLogin i now) (st, jobs) C key = now # C key"
    using Cons.prems(2) [of i] assms by (simp add: charge_def)
  have "map_of ((i, ?j) # AList.delete i jobs) k = Some j" if "k \<in> set is" for k
    using that Cons.prems by (auto simp: delete_conv')
  then show ?case
    using Cons.IH [of "(i, ?j) # AList.delete i jobs" ?st "step_charge (RecordLogin i now) (st, jobs) C"] Cons.prems(1) step charge
    by (simp add: replicate_append_same [symmetric] del: map_of.simps step_charge.simps login_step.simps)
qed simp

subsection \<open>A changed password\<close>

lemma startSession_Started:
  assumes "startSession env now admin status db = (db', Started code username csrf token)"
  shows "code = status \<and> username = ad_Username admin \<and> administrators db' = administrators db \<and>
    (\<exists>s. browser_sessions db' = browser_sessions db @ [s] \<and> se_TokenHash s = ae_sha256 env token \<and> se_CSRFToken s = csrf)"
  using assms
  by (auto simp: startSession_def newSessionMaterial_def CreateSession_def Let_def bind_eq_Some_conv split: option.splits if_splits)

lemma Password_Started:
  assumes "Password env now found (Some (old, new)) db = (db', Started code username csrf token)"
  obtains admin hash db1 db2 where "admin \<in> set (administrators db)"
    "fst (Verify (ae_IDKey env) old (ad_PasswordHash admin) DefaultParams)" "Hash (ae_IDKey env) (ae_salt env) new DefaultParams = Inr hash"
    "UpdatePassword env (ad_ID admin) hash db = Some db1" "DeleteAdminSessions env (ad_ID admin) db1 = Some db2"
    "startSession env now admin 200 db2 = (db', Started code username csrf token)"
  using assms
  by (auto simp: Password_def FindAdmin_def split: option.splits prod.splits sum.splits if_splits dest!: find_SomeD)

subsection \<open>Enrollment tickets\<close>

type_synonym tickets = "string \<rightharpoonup> go_time"

datatype enroll_reply =
    EnrollError nat
  | Ticket string go_time
  | AgentToken string

abbreviation enroll_lifetime :: go_time where "enroll_lifetime \<equiv> 10 * 60 * second_ns"

text \<open>\<^verbatim>\<open>Create\<close> reads the clock for the new ticket and again for every ticket that it looks at.\<close>

definition enroll_Create :: "(string \<Rightarrow> string) \<Rightarrow> go_time \<Rightarrow> (string \<Rightarrow> go_time) \<Rightarrow> string option \<Rightarrow> tickets \<Rightarrow> tickets \<times> enroll_reply" where
  "enroll_Create sha now later random M =
     (case random of
        None \<Rightarrow> (M, EnrollError 500)
      | Some bytes \<Rightarrow>
          (let token = EncodeToString url_alphabet bytes; expiresAt = now + enroll_lifetime;
               M = (\<lambda>h. case M h of None \<Rightarrow> None | Some e \<Rightarrow> if \<not> later h < e then None else Some e) in
           (M(sha token \<mapsto> expiresAt), Ticket token expiresAt)))"

definition Redeem :: "(string \<Rightarrow> string) \<Rightarrow> string \<Rightarrow> go_time \<Rightarrow> string \<Rightarrow> tickets \<Rightarrow> tickets \<times> enroll_reply" where
  "Redeem sha agentToken now header M =
     (if take 7 header \<noteq> ''Bearer '' \<or> drop 7 header = [] then (M, EnrollError 401)
      else
        (let hash = sha (drop 7 header) in
         case M hash of
           None \<Rightarrow> (M, EnrollError 401)
         | Some expiresAt \<Rightarrow> (M(hash := None), if \<not> now < expiresAt then EnrollError 401 else AgentToken agentToken)))"

datatype enroll_call =
    CallCreate go_time "string \<Rightarrow> go_time" "string option"
  | CallRedeem go_time string

fun run_enroll :: "(string \<Rightarrow> string) \<Rightarrow> string \<Rightarrow> enroll_call \<Rightarrow> tickets \<Rightarrow> tickets \<times> enroll_reply" where
  "run_enroll sha agentToken (CallCreate now later random) M = enroll_Create sha now later random M"
| "run_enroll sha agentToken (CallRedeem now header) M = Redeem sha agentToken now header M"

fun enroll_run :: "(string \<Rightarrow> string) \<Rightarrow> string \<Rightarrow> enroll_call list \<Rightarrow> tickets \<Rightarrow> (enroll_call \<times> enroll_reply) list" where
  "enroll_run sha agentToken [] M = []"
| "enroll_run sha agentToken (c # cs) M =
     (case run_enroll sha agentToken c M of (M', r) \<Rightarrow> (c, r) # enroll_run sha agentToken cs M')"

text \<open>The calls of a run that issue a ticket, and those that redeem one.\<close>

fun issues :: "(string \<Rightarrow> string) \<Rightarrow> string \<Rightarrow> enroll_call \<times> enroll_reply \<Rightarrow> bool" where
  "issues sha h (CallCreate now later random, Ticket token e) \<longleftrightarrow> sha token = h"
| "issues sha h (c, r) \<longleftrightarrow> False"

fun redeems :: "(string \<Rightarrow> string) \<Rightarrow> string \<Rightarrow> enroll_call \<times> enroll_reply \<Rightarrow> bool" where
  "redeems sha h (CallRedeem now header, AgentToken t) \<longleftrightarrow> sha (drop 7 header) = h"
| "redeems sha h (c, r) \<longleftrightarrow> False"

definition open_ticket :: "tickets \<Rightarrow> string \<Rightarrow> nat" where
  "open_ticket M h = (if M h = None then 0 else 1)"

lemma enroll_call_balance:
  assumes "run_enroll sha agentToken c M = (M', r)"
  shows "of_bool (redeems sha h (c, r)) + open_ticket M' h \<le> of_bool (issues sha h (c, r)) + open_ticket M h"
proof (cases c)
  case (CallCreate now later random)
  then show ?thesis using assms
    by (cases random) (auto simp: enroll_Create_def open_ticket_def Let_def split: option.splits)
next
  case (CallRedeem now header)
  then show ?thesis using assms
    by (auto simp: Redeem_def open_ticket_def Let_def split: option.splits if_splits)
qed

lemma enroll_run_balance:
  "length (filter (redeems sha h) (enroll_run sha agentToken cs M)) \<le> length (filter (issues sha h) (enroll_run sha agentToken cs M)) + open_ticket M h"
proof (induction cs arbitrary: M)
  case (Cons c cs)
  obtain M' r where c: "run_enroll sha agentToken c M = (M', r)" by fastforce
  show ?case using Cons.IH [of M'] enroll_call_balance [OF c, of h] by (auto simp: c)
qed simp

text \<open>Every ticket that is held was issued, its lifetime before it expires.\<close>

definition issued_at :: "(string \<Rightarrow> string) \<Rightarrow> (enroll_call \<times> enroll_reply) list \<Rightarrow> string \<Rightarrow> go_time \<Rightarrow> bool" where
  "issued_at sha calls h t \<longleftrightarrow> (\<exists>later random token. (CallCreate t later random, Ticket token (t + enroll_lifetime)) \<in> set calls \<and> sha token = h)"

lemma enroll_run_fresh:
  assumes "enroll_run sha agentToken cs M = pre @ (CallRedeem now header, AgentToken t) # post"
  shows "take 7 header = ''Bearer '' \<and> (\<exists>e. now < e \<and> (M (sha (drop 7 header)) = Some e \<or> issued_at sha pre (sha (drop 7 header)) (e - enroll_lifetime)))"
  using assms
proof (induction cs arbitrary: M pre)
  case (Cons c cs)
  obtain M' r where c: "run_enroll sha agentToken c M = (M', r)" by fastforce
  show ?case
  proof (cases pre)
    case Nil
    then show ?thesis using Cons.prems c by (auto simp: Redeem_def Let_def split: if_splits option.splits)
  next
    case (Cons p pre')
    let ?h = "sha (drop 7 header)"
    have p: "p = (c, r)" and tail: "enroll_run sha agentToken cs M' = pre' @ (CallRedeem now header, AgentToken t) # post"
      using Cons.prems c by (auto simp: Cons)
    then obtain e where e: "now < e" "M' ?h = Some e \<or> issued_at sha pre' ?h (e - enroll_lifetime)" "take 7 header = ''Bearer ''"
      using Cons.IH by blast
    have "M ?h = Some e \<or> issued_at sha [p] ?h (e - enroll_lifetime)" if "M' ?h = Some e"
      using c that by (cases c) (auto simp: p enroll_Create_def Redeem_def Let_def issued_at_def split: option.splits if_splits)
    then show ?thesis using e by (auto simp: Cons issued_at_def)
  qed
qed simp

subsection \<open>Properties\<close>

definition no_admin :: auth_db where
  "no_admin = \<lparr>administrators = [], browser_sessions = []\<rparr>"

lemma no_admin_inv: "auth_inv T no_admin"
  by (simp add: auth_inv_def no_admin_def)

definition sample_env :: auth_env where
  "sample_env = \<lparr>ae_fails = \<lambda>_. False, ae_sha256 = \<lambda>s. take 32 (s @ replicate 32 CHR ''x''), ae_IDKey = plain_key, ae_salt = zero_salt,
     ae_token = Some (replicate 32 CHR ''t''), ae_csrf = Some (replicate 32 CHR ''c''), ae_lower = id, ae_time = id,
     ae_bootstrap = ''first'', ae_dummy = sample_hash\<rparr>"

definition first_db :: auth_db where
  "first_db = fst (Bootstrap sample_env 0 ''Bearer first'' (Some \<lparr>cr_Username = '' admin'', cr_Password = ''correct horse''\<rparr>) no_admin)"

definition sample_token :: string where "sample_token = EncodeToString url_alphabet (replicate 32 CHR ''t'')"
definition sample_csrf :: string where "sample_csrf = EncodeToString url_alphabet (replicate 32 CHR ''c'')"

definition sample_request :: web_request where
  "sample_request = \<lparr>wr_method = ''POST'', wr_cookie = Some sample_token, wr_csrf = sample_csrf\<rparr>"

definition sample_found :: session_row where
  "sample_found = \<lparr>se_TokenHash = take 32 sample_token, se_AdminID = 1, se_CSRFToken = sample_csrf, se_CreatedAt = 0, se_LastSeenAt = 20 * 60 * second_ns,
     se_IdleExpiresAt = 50 * 60 * second_ns, se_ExpiresAt = absoluteLifetime\<rparr>"

definition sample_session :: session_row where
  "sample_session = \<lparr>se_TokenHash = take 32 sample_token, se_AdminID = 1, se_CSRFToken = sample_csrf, se_CreatedAt = 0, se_LastSeenAt = 0,
     se_IdleExpiresAt = idleLifetime, se_ExpiresAt = absoluteLifetime\<rparr>"

lemma sample_parts:
  "ae_IDKey sample_env = plain_key" "ae_salt sample_env = zero_salt" "ae_time sample_env = id" "\<not> ae_fails sample_env f" "ae_bootstrap sample_env = ''first''"
  by (simp_all add: sample_env_def)

lemma plain_char_length: "plain s \<Longrightarrow> char_length s = length s"
  by (induction s) (auto simp: plain_def char_length_def)

lemma sample_username: "normalizeUsername sample_env '' admin'' = ''admin''"
  using TrimSpace_padded [of "''admin''" 1] by (simp add: normalizeUsername_def sample_env_def visible_def)

lemma sample_tokens: "plain sample_token" "length sample_token = 43" "plain sample_csrf" "length sample_csrf = 43"
  by (simp_all add: sample_token_def sample_csrf_def EncodeToString_plain alphabets plain_alphabets EncodeToString_length)

lemma sample_material: "newSessionMaterial sample_env t = Some (sample_token, take 32 sample_token, sample_csrf, t + absoluteLifetime, t + idleLifetime)"
  using sample_tokens by (simp add: newSessionMaterial_def sample_env_def sample_token_def sample_csrf_def Let_def)

lemma first_texts: "pg_string ''admin''" "pg_string sample_hash" "char_length ''admin'' = 5" "pg_string sample_csrf" "char_length sample_csrf = 43"
proof -
  have "plain ''admin''" "plain sample_hash" by (simp_all add: plain_def [of "''admin''"] sample_hash_def hash_text_plain)
  then show "pg_string ''admin''" "pg_string sample_hash" "char_length ''admin'' = 5" "pg_string sample_csrf" "char_length sample_csrf = 43"
    using sample_tokens by (simp_all add: plain_pg_string plain_char_length)
qed

lemma first_start:
  "startSession sample_env 0 \<lparr>ad_ID = 1, ad_Username = ''admin'', ad_PasswordHash = h\<rparr> status \<lparr>administrators = [\<lparr>ad_ID = 1, ad_Username = ''admin'', ad_PasswordHash = h'\<rparr>], browser_sessions = []\<rparr> =
   (\<lparr>administrators = [\<lparr>ad_ID = 1, ad_Username = ''admin'', ad_PasswordHash = h'\<rparr>], browser_sessions = [sample_session]\<rparr>, Started status ''admin'' sample_csrf sample_token)"
  using first_texts sample_tokens
  by (simp add: startSession_def sample_material CreateSession_def session_checks_def sample_session_def Let_def) (simp add: sample_env_def)

lemma first_db_eq: "first_db = \<lparr>administrators = [\<lparr>ad_ID = 1, ad_Username = ''admin'', ad_PasswordHash = sample_hash\<rparr>], browser_sessions = [sample_session]\<rparr>"
  using first_texts sample_username sample_Hash
  by (simp add: first_db_def Bootstrap_def bearerMatches_def AdminCount_def CreateAdmin_def no_admin_def first_start sample_parts Let_def)

lemma sample_reached: "(auth_step id)\<^sup>*\<^sup>* no_admin first_db"
proof -
  from sample_parts(3) show ?thesis unfolding first_db_def by (intro r_into_rtranclp auth_step.bootstrap)
qed

text \<open>C38. No request passes without a session in force: after any sequence of requests, whatever fails, a request is admitted only with the cookie of a stored
  session of the one administrator, less than a day after the session was opened and less than half an hour after it was last used, up to the
  precision of times in the database; a request that changes something also carries the session's token against forgery.\<close>

theorem session_required:
  assumes "(auth_step T)\<^sup>*\<^sup>* no_admin db" "ae_time env = T" "RequireSession env now request db = (db', Admitted found username)"
  shows "\<exists>token s a. wr_cookie request = Some token \<and> token \<noteq> [] \<and> s \<in> set (browser_sessions db) \<and> se_TokenHash s = ae_sha256 env token \<and>
    administrators db = [a] \<and> username = ad_Username a \<and>
    (\<exists>t. se_CreatedAt s = T t \<and> now < T (t + absoluteLifetime)) \<and> (\<exists>t. se_LastSeenAt s = T t \<and> now < T (t + idleLifetime)) \<and>
    (wr_method request \<in> {''GET'', ''HEAD'', ''OPTIONS''} \<or> wr_csrf request = se_CSRFToken s)"
proof -
  obtain token s a where p: "wr_cookie request = Some token" "token \<noteq> []" "s \<in> set (browser_sessions db)" "se_TokenHash s = ae_sha256 env token"
    "a \<in> set (administrators db)" "ad_ID a = se_AdminID s" "username = ad_Username a" "now < se_ExpiresAt s" "now < se_IdleExpiresAt s"
    "unsafeMethod (wr_method request) \<Longrightarrow> wr_csrf request = se_CSRFToken s"
    using Admitted_parts [OF assms(3)] by metis
  have inv: "auth_inv T db" using auth_steps_inv [OF assms(1) no_admin_inv] by simp
  then have one: "administrators db = [a]" and s: "session_times T s" using p(3,5) by (auto simp: auth_inv_def)
  obtain t1 t2 where t: "se_CreatedAt s = T t1" "se_ExpiresAt s = T (t1 + absoluteLifetime)" "se_LastSeenAt s = T t2" "se_IdleExpiresAt s \<le> T (t2 + idleLifetime)"
    using s unfolding session_times_def by blast
  have "now < T (t1 + absoluteLifetime)" "now < T (t2 + idleLifetime)" using p(8,9) t(2,4) by simp_all
  moreover have "wr_method request \<in> {''GET'', ''HEAD'', ''OPTIONS''} \<or> wr_csrf request = se_CSRFToken s"
    using p(10) unfolding unsafeMethod_def by blast
  ultimately show ?thesis using p(1,2,3,4,7) one t(1,3) by blast
qed

theorem session_required_witness:
  "snd (RequireSession sample_env (20 * 60 * second_ns) sample_request first_db) = Admitted sample_found ''admin'' \<and>
   (\<exists>s a. s \<in> set (browser_sessions first_db) \<and> se_TokenHash s = ae_sha256 sample_env sample_token \<and> administrators first_db = [a] \<and> ''admin'' = ad_Username a \<and>
     se_CSRFToken s = sample_csrf)"
proof -
  have adm: "snd (RequireSession sample_env (20 * 60 * second_ns) sample_request first_db) = Admitted sample_found ''admin''"
    using sample_tokens(2)
    by (simp add: first_db_eq RequireSession_def FindSession_def TouchSession_def sample_request_def sample_env_def sample_session_def sample_found_def Let_def) auto
  have "ae_time sample_env = id" by (simp add: sample_env_def)
  from session_required [OF sample_reached this, of "20 * 60 * second_ns" sample_request "fst (RequireSession sample_env (20 * 60 * second_ns) sample_request first_db)" sample_found "''admin''"]
  show ?thesis using adm by (auto simp: prod_eq_iff sample_request_def)
qed

text \<open>One login after the other.\<close>

definition whole_login :: "auth_env \<times> go_time \<times> string \<times> credentials option \<Rightarrow> login_event list" where
  "whole_login r = (case r of (env, now, addr, body) \<Rightarrow> [CheckLogin 0 env now addr body, CompareLogin 0, RecordLogin 0 now, AnswerLogin 0 now])"

lemma peak_append: "peak key (es @ fs) s = max (peak key es s) (peak key fs (fold login_step es s))"
proof (induction es arbitrary: s)
  case Nil
  have "flying key s \<le> peak key fs s" by (cases fs) simp_all
  then show ?case by simp
qed (simp add: max.assoc)

lemma whole_login_peak: "snd (fold login_step (whole_login r) (st, [])) = [] \<and> peak key (whole_login r) (st, []) \<le> 1"
proof (cases r)
  case (fields env now addr body)
  obtain F db where st: "st = (F, db)" by fastforce
  show ?thesis
  proof (cases body)
    case None
    then show ?thesis by (simp add: whole_login_def fields st flying_def)
  next
    case (Some input)
    obtain b F1 where B: "Blocked env now (clientIP addr) (normalizeUsername env (cr_Username input)) F = (b, F1)" by fastforce
    obtain F2 db2 where R: "login_record env now (clientIP addr) (normalizeUsername env (cr_Username input)) (cr_Password input)
        (login_compare env (normalizeUsername env (cr_Username input)) (cr_Password input) db) (F1, db) = (F2, db2)" by fastforce
    show ?thesis by (cases b) (simp_all add: whole_login_def fields st flying_def in_flight_def Some B R Let_def)
  qed
qed

lemma serial_peak: "peak key (concat (map whole_login rs)) (st, []) \<le> 1"
proof (induction rs arbitrary: st)
  case Nil
  show ?case by (simp add: flying_def)
next
  case (Cons r rs)
  obtain st' where "fold login_step (whole_login r) (st, []) = (st', [])" using whole_login_peak [of r st key] by (metis prod.collapse)
  then show ?case using whole_login_peak [of r st key] Cons.IH [of st'] by (simp add: peak_append)
qed

text \<open>C39. How many passwords can be guessed: the limiter is asked before a password is compared and told after it, so that logins at the same time do not
  see each other. However the parts of any number of logins interleave, in the order of the clock, an address or a user name has in any quarter
  of an hour at most four more wrong passwords recorded than logins of it were at any moment between the question and the
  record (not counting those before its last right one). With one login at a time that is the limit of five.\<close>

theorem logins_bounded:
  assumes "sorted (List.map_filter event_time es)"
  shows "length (filter (\<lambda>s. t - loginWindow < s \<and> s \<le> t) (snd (run_logins es (((Map.empty, db), []), \<lambda>_. [])) key)) \<le>
    maxLoginFailures - 1 + peak key es ((Map.empty, db), [])"
  using assms by (rule run_logins_window)

text \<open>Nine logins, one after the other, within nine seconds.\<close>

theorem logins_bounded_witness:
  "length (filter (\<lambda>s. 0 < s \<and> s \<le> loginWindow)
     (snd (run_logins (concat (map (\<lambda>i. whole_login (sample_env, int i * second_ns, ''192.0.2.7:4000'', Some \<lparr>cr_Username = ''admin'', cr_Password = ''guess''\<rparr>)) [0..<9]))
       (((Map.empty, first_db), []), \<lambda>_. [])) (ip_key ''192.0.2.7''))) \<le> 5"
proof -
  let ?r = "\<lambda>i. (sample_env, int i * second_ns, ''192.0.2.7:4000'', Some \<lparr>cr_Username = ''admin'', cr_Password = ''guess''\<rparr>)"
  have "sorted (List.map_filter event_time (concat (map (\<lambda>i. whole_login (?r i)) [0..<9])))"
    by (simp add: whole_login_def map_filter_simps upt_conv_Cons)
  from logins_bounded [OF this, of loginWindow first_db "ip_key ''192.0.2.7''"] serial_peak [of "ip_key ''192.0.2.7''" "map ?r [0..<9]" "(Map.empty, first_db)"]
  show ?thesis by (simp add: comp_def)
qed

text \<open>The limit does not hold for logins at the same time: any number of them, from one address and for one name, that are all asked for before the
  first is recorded have their passwords compared, so that as many wrong guesses as requests fit into one moment.\<close>

theorem parallel_guesses:
  assumes "\<not> login_right (login_compare env (normalizeUsername env (cr_Username input)) (cr_Password input) db)"
  shows "snd (run_logins (map (\<lambda>i. CheckLogin i env now addr (Some input)) [0..<n] @ map CompareLogin [0..<n] @ map (\<lambda>i. RecordLogin i now) [0..<n])
    (((Map.empty, db), []), \<lambda>_. [])) (ip_key (clientIP addr)) = replicate n now"
proof -
  let ?j = "\<lparr>lj_env = env, lj_ip = clientIP addr, lj_username = normalizeUsername env (cr_Username input), lj_password = cr_Password input, lj_phase = Checked\<rparr>"
  let ?v = "login_compare env (normalizeUsername env (cr_Username input)) (cr_Password input) db"
  obtain jobs1 where checked: "run_logins (map (\<lambda>i. CheckLogin i env now addr (Some input)) [0..<n]) (((Map.empty, db), []), \<lambda>_. []) =
      (((Map.empty, db), jobs1), \<lambda>_. [])" "\<forall>i \<in> set [0..<n]. map_of jobs1 i = Some ?j"
    using checks_together [OF refl distinct_upt, of 0 n "[]" env now addr input db "\<lambda>_. []"] by auto
  obtain jobs2 where compared: "run_logins (map CompareLogin [0..<n]) (((Map.empty, db), jobs1), \<lambda>_. []) = (((Map.empty, db), jobs2), \<lambda>_. [])"
      "\<forall>i \<in> set [0..<n]. map_of jobs2 i = Some (?j\<lparr>lj_phase := Compared ?v\<rparr>)"
    using compares_together [of ?j "[0..<n]" jobs1 Map.empty db "\<lambda>_. []"] checked(2) by auto
  show ?thesis
    using records_together [of "?j\<lparr>lj_phase := Compared ?v\<rparr>" ?v "ip_key (clientIP addr)" "[0..<n]" jobs2 now "(Map.empty, db)" "\<lambda>_. []"] compared(2) assms
    by (simp add: run_logins_append checked(1) compared(1))
qed

theorem parallel_guesses_witness:
  "snd (run_logins (map (\<lambda>i. CheckLogin i sample_env 7 ''192.0.2.7:4000'' (Some \<lparr>cr_Username = '' admin'', cr_Password = ''battery staple''\<rparr>)) [0..<100] @
     map CompareLogin [0..<100] @ map (\<lambda>i. RecordLogin i 7) [0..<100]) (((Map.empty, first_db), []), \<lambda>_. [])) (ip_key (clientIP ''192.0.2.7:4000'')) =
   replicate 100 7"
proof (rule parallel_guesses)
  have len: "length (plain_key pw s t m par n) = unat n" for pw s t m par n by (simp add: plain_key_def)
  have salt: "zero_salt n = Some s \<Longrightarrow> length s = n" for n s by (auto simp: zero_salt_def)
  have "plain_key ''battery staple'' (replicate 16 CHR ''s'') 3 65536 2 32 \<noteq> plain_key ''correct horse'' (replicate 16 CHR ''s'') 3 65536 2 32"
    by (simp add: plain_key_def)
  then have "Verify plain_key ''battery staple'' sample_hash DefaultParams = (False, False)"
    using Hash_Verify_other [OF sample_Hash len salt] by (auto simp: zero_salt_def Let_def DefaultParams_def)
  then show "\<not> login_right (login_compare sample_env (normalizeUsername sample_env (cr_Username \<lparr>cr_Username = '' admin'', cr_Password = ''battery staple''\<rparr>))
      (cr_Password \<lparr>cr_Username = '' admin'', cr_Password = ''battery staple''\<rparr>) first_db)"
    using first_texts(1) sample_username
    by (simp add: login_compare_def FindAdmin_def login_right_def sample_parts first_db_eq)
qed

text \<open>A changed password counts and ends the other sessions: when the change succeeds, the old password was compared and right, the only session left is the
  one that the reply opens, and the administrator's hash matches the new password, for keys and salts of the length asked for.\<close>

theorem password_change_revokes:
  assumes "(auth_step T)\<^sup>*\<^sup>* no_admin db" "ae_time env = T" "Password env now found (Some (old, new)) db = (db', Started code username csrf token)"
    "\<And>pw s t m par n. length (ae_IDKey env pw s t m par n) = unat n" "\<And>n s. ae_salt env n = Some s \<Longrightarrow> length s = n"
  shows "\<exists>a hash s. administrators db = [a] \<and> fst (Verify (ae_IDKey env) old (ad_PasswordHash a) DefaultParams) \<and>
    administrators db' = [a\<lparr>ad_PasswordHash := hash\<rparr>] \<and> Verify (ae_IDKey env) new hash DefaultParams = (True, False) \<and>
    browser_sessions db' = [s] \<and> se_TokenHash s = ae_sha256 env token"
proof -
  obtain admin hash db1 db2 where p: "admin \<in> set (administrators db)" "fst (Verify (ae_IDKey env) old (ad_PasswordHash admin) DefaultParams)"
    "Hash (ae_IDKey env) (ae_salt env) new DefaultParams = Inr hash" "UpdatePassword env (ad_ID admin) hash db = Some db1"
    "DeleteAdminSessions env (ad_ID admin) db1 = Some db2" "startSession env now admin 200 db2 = (db', Started code username csrf token)"
    by (rule Password_Started [OF assms(3)])
  have inv: "auth_inv T db" using auth_steps_inv [OF assms(1) no_admin_inv] by simp
  then have one: "administrators db = [admin]" "ad_ID admin = 1" using p(1) by (auto simp: auth_inv_def)
  have db1: "administrators db1 = [admin\<lparr>ad_PasswordHash := hash\<rparr>]" "browser_sessions db1 = browser_sessions db"
    using p(4) one by (auto simp: UpdatePassword_def split: if_splits)
  have "administrators db2 = administrators db1" "browser_sessions db2 = []"
    using p(5) db1 one inv by (auto simp: DeleteAdminSessions_def auth_inv_def filter_empty_conv split: if_splits)
  then show ?thesis using startSession_Started [OF p(6)] Hash_Verify [OF p(3) assms(4,5)] p(2) one(1) db1 by auto
qed

theorem password_change_revokes_witness:
  "\<exists>hash. fst (Password sample_env 0 (Some (sample_found, ''admin'')) (Some (''correct horse'', ''battery staple'')) first_db) =
     \<lparr>administrators = [\<lparr>ad_ID = 1, ad_Username = ''admin'', ad_PasswordHash = hash\<rparr>], browser_sessions = [sample_session]\<rparr> \<and>
   Verify plain_key ''battery staple'' hash DefaultParams = (True, False)"
proof -
  let ?change = "Password sample_env 0 (Some (sample_found, ''admin'')) (Some (''correct horse'', ''battery staple'')) first_db"
  define hash where "hash = hash_text DefaultParams (replicate 16 CHR ''s'') (plain_key ''battery staple'' (replicate 16 CHR ''s'') 3 65536 2 32)"
  have len: "length (plain_key pw s t m par n) = unat n" for pw s t m par n by (simp add: plain_key_def)
  have salt: "zero_salt n = Some s \<Longrightarrow> length s = n" for n s by (auto simp: zero_salt_def)
  have new: "Hash plain_key zero_salt ''battery staple'' DefaultParams = Inr hash"
    by (simp add: Hash_def hash_def zero_salt_def validateParams_def DefaultParams_def)
  have texts: "pg_string ''admin''" "pg_string hash" using first_texts(1) by (simp_all add: hash_def plain_pg_string hash_text_plain)
  have run: "?change = (\<lparr>administrators = [\<lparr>ad_ID = 1, ad_Username = ''admin'', ad_PasswordHash = hash\<rparr>], browser_sessions = [sample_session]\<rparr>,
      Started 200 ''admin'' sample_csrf sample_token)"
    using Hash_Verify [OF sample_Hash len salt] new texts
    by (simp add: first_db_eq Password_def FindAdmin_def sample_parts UpdatePassword_def DeleteAdminSessions_def first_start) (simp add: sample_session_def first_start)
  have "\<exists>a hash. administrators (fst ?change) = [a\<lparr>ad_PasswordHash := hash\<rparr>] \<and> Verify plain_key ''battery staple'' hash DefaultParams = (True, False)"
    using password_change_revokes [OF sample_reached sample_parts(3) run] len salt by (auto simp: run sample_parts)
  then obtain a h where "\<lparr>ad_ID = 1, ad_Username = ''admin'', ad_PasswordHash = hash\<rparr> = a\<lparr>ad_PasswordHash := h\<rparr>" "Verify plain_key ''battery staple'' h DefaultParams = (True, False)"
    unfolding run by auto
  then have "Verify plain_key ''battery staple'' hash DefaultParams = (True, False)" by (cases a) simp
  then show ?thesis unfolding run by auto
qed

text \<open>A failing lookup ends a session: when the database cannot answer for a moment, the middleware takes the error for an expired session, deletes
  the row, clears the cookie and answers 401, so that the session, however fresh, is gone when the database is back.\<close>

theorem failed_lookup_logs_out:
  assumes "wr_cookie request = Some token" "token \<noteq> []" "ae_fails env OpFindSession" "\<not> ae_fails env OpDeleteSession"
  shows "\<exists>db'. RequireSession env now request db = (db', Refused 401 ''session_expired'' True) \<and>
    FindSession (env\<lparr>ae_fails := \<lambda>_. False\<rparr>) (ae_sha256 env token) db' = Inl AuthNotFound"
proof -
  have "find (\<lambda>s. se_TokenHash s = h) (filter (\<lambda>s. se_TokenHash s \<noteq> h) ss) = None" for h and ss :: "session_row list"
    by (simp add: find_None_iff)
  then show ?thesis using assms by (simp add: RequireSession_def FindSession_def DeleteSession_def Let_def)
qed

theorem failed_lookup_logs_out_witness:
  "\<exists>db'. RequireSession (sample_env\<lparr>ae_fails := \<lambda>f. f = OpFindSession\<rparr>) second_ns sample_request first_db = (db', Refused 401 ''session_expired'' True) \<and>
    FindSession sample_env (ae_sha256 sample_env sample_token) db' = Inl AuthNotFound"
proof -
  have "sample_token \<noteq> []" using sample_tokens(2) by auto
  then show ?thesis
    using failed_lookup_logs_out [of sample_request sample_token "sample_env\<lparr>ae_fails := \<lambda>f. f = OpFindSession\<rparr>" second_ns first_db]
    by (auto simp: sample_request_def sample_env_def)
qed

text \<open>A ticket enrolls one agent: in any run of calls, a ticket is redeemed at most as often as it was issued, and only with the bearer header and less than
  ten minutes after it was issued.\<close>

theorem enrollment_once:
  "length (filter (redeems sha h) (enroll_run sha agentToken cs Map.empty)) \<le> length (filter (issues sha h) (enroll_run sha agentToken cs Map.empty)) \<and>
   \<not> (\<exists>pre now header t post. enroll_run sha agentToken cs Map.empty = pre @ (CallRedeem now header, AgentToken t) # post \<and>
     \<not> (take 7 header = ''Bearer '' \<and> (\<exists>c. issued_at sha pre (sha (drop 7 header)) c \<and> now < c + enroll_lifetime)))"
proof -
  have "take 7 header = ''Bearer '' \<and> (\<exists>c. issued_at sha pre (sha (drop 7 header)) c \<and> now < c + enroll_lifetime)"
    if run: "enroll_run sha agentToken cs Map.empty = pre @ (CallRedeem now header, AgentToken t) # post" for pre now header t post
    using enroll_run_fresh [OF run] by (metis diff_add_cancel option.distinct(1))
  then show ?thesis using enroll_run_balance [of sha h agentToken cs Map.empty] by (simp add: open_ticket_def) blast
qed

end
