(* ===== verification/Spec2Isabelle.thy ===== *)
theory Spec2Isabelle
  imports Kernel_Access Tracer Compaction Inventory Capture_Filter Npm Webhook_Endpoint Retention Partition Auth
begin

text \<open>
  FlowLens measures the network traffic of hosts by owner. An agent on each host runs an eBPF program on the
  socket calls of the kernel, aggregates what it reports by connection and process or container, watches
  DNS answers and TLS handshakes for the names of remote addresses, tails the logs of a reverse proxy, samples the counters of the
  interfaces, and queues everything as batches in a spool on disk; a sender delivers them to a server, which stores each
  batch once, attributes names and directions, adds minutes up to hours and days, deletes what has expired, raises
  alerts and delivers them to a webhook, for one administrator who logs in. This development models that path from a socket
  call to the rows of the server and what the server does with them.

  \<^bold>\<open>Theories and sources\<close> (paths under \<^verbatim>\<open>src/\<close>).

  \<^item> \<open>Prelude\<close>, \<open>Bytes\<close>, \<open>Netip\<close>, \<open>Go_Text\<close>, \<open>Pg_Text\<close>, \<open>Calendar\<close>: machine integers, byte strings, and what the sources use of Go's standard
    library on addresses, text and dates and of PostgreSQL on text.
  \<^item> \<open>C_Layout\<close>: the layout rules of C types on 64-bit systems; \<open>Kernel_Sock\<close>, \<open>Kernel_Inet\<close>, \<open>Kernel_Task\<close>, \<open>Kernel_Bpf\<close>, \<open>Kernel_Net\<close>:
    the declarations of \<^verbatim>\<open>internal/agent/ebpf/vmlinux.h\<close> that describe sockets, tasks, BPF objects and network
    namespaces, one definition for each type, with its size and alignment; \<open>Kernel_Access\<close>: that every member lies inside
    its object, and that the program's reads are inside \<^verbatim>\<open>struct sock\<close>.
  \<^item> \<open>Socket_Flow\<close>: every helper and probe of \<^verbatim>\<open>internal/agent/ebpf/socket_flow.bpf.c\<close>, over kernel maps and a ring buffer given by their
    operations. \<open>Flow_Trace\<close>: the contract of those operations as the locale \<open>bpf_kernel\<close>, interpreted on a hash map and a
    bounded ring, the invariant of the reachable states and what a run of probes delivers.
  \<^item> \<open>Decode\<close>, \<open>Tracer\<close>: \<^verbatim>\<open>decode_linux.go\<close> and \<^verbatim>\<open>tracer_linux.go\<close>, the decoding of records and the life of the tracer.
  \<^item> \<open>Model\<close>: \<^verbatim>\<open>internal/model\<close>, events and batches with their validation.
  \<^item> \<open>Ownership\<close>: \<^verbatim>\<open>internal/agent/ownership/collector.go\<close>, the table of connections; \<open>Inventory\<close>: \<^verbatim>\<open>internal/agent/process/lookup.go\<close> and
    \<^verbatim>\<open>internal/agent/docker/inventory.go\<close>, processes and containers, with the interface \<^verbatim>\<open>ProcessLookup\<close> as the locale \<open>process_lookup\<close>, in which
    the collector is shown correct over any lookup, and which the cache of processes interprets.
  \<^item> \<open>Tls\<close>, \<open>Name_Capture\<close>, \<open>Capture_Filter\<close>: \<^verbatim>\<open>internal/agent/namecapture\<close>, the ClientHello parser, reassembly and DNS evidence, and
    the packet source with its filter on a model of the classic BPF machine.
  \<^item> \<open>Npm\<close>: \<^verbatim>\<open>internal/agent/npm\<close>, the parser of access lines and the tailer of log files with its cursors and rotation.
  \<^item> \<open>Interface_Counter\<close>: \<^verbatim>\<open>internal/agent/interfacecounter\<close>, counters, differences and the checkpoint file.
  \<^item> \<open>Batch_Queue\<close>: the interface \<^verbatim>\<open>Queue\<close> of \<^verbatim>\<open>internal/agent/app/app.go\<close> as the locale \<open>batch_queue\<close> and the loop \<^verbatim>\<open>drain\<close>, specified in
    it; \<open>Spool\<close>: \<^verbatim>\<open>internal/agent/spool/spool.go\<close>, which interprets the locale; \<open>Compaction\<close>: its passes of compaction over the files
    on disk, to their end or cut off, and the traffic they keep; \<open>Sender\<close>: \<^verbatim>\<open>internal/agent/sender/sender.go\<close>; \<open>App\<close>: the
    rest of \<^verbatim>\<open>app.go\<close>.
  \<^item> \<open>Ingest\<close>: \<^verbatim>\<open>internal/server/ingest/handler.go\<close>, \<^verbatim>\<open>internal/server/store/postgres.go\<close> and the rows of interface counters and
    health reports of \<^verbatim>\<open>event.go\<close>; \<open>Flow_Rows\<close>: the rows of owners, names, connections and proxy requests with their minute totals;
    \<open>Attribution\<close>: \<^verbatim>\<open>internal/server/attribution/engine.go\<close>.
  \<^item> \<open>Rollup\<close>, \<open>Retention\<close>, \<open>Partition\<close>: \<^verbatim>\<open>internal/server/rollup\<close>, \<^verbatim>\<open>retention\<close> and \<^verbatim>\<open>partition\<close>, the sums by hour and day, the deletion of
    what has expired and the monthly partitions.
  \<^item> \<open>Alerts\<close>: \<^verbatim>\<open>internal/server/alerts\<close>, the evaluation of rules and the life of an alert. \<open>Leases\<close>: work that processes take over from each
    other, as the locale \<open>lease_object\<close>, interpreted for the deliveries of \<open>Webhook\<close> (\<^verbatim>\<open>internal/server/webhook\<close>, the queue, the worker and
    the signature) and the jobs of \<open>Scheduler\<close> (\<^verbatim>\<open>internal/server/scheduler\<close>); \<open>Webhook_Endpoint\<close>: endpoints, the dialer, the sealed
    secret, the settings and the dispatcher.
  \<^item> \<open>Passwords\<close>, \<open>Auth\<close>: \<^verbatim>\<open>internal/server/auth\<close> and \<^verbatim>\<open>internal/server/enrollment\<close>, password hashes, sessions, the limit on failed logins,
    the handlers, the middleware and the tickets of agents.
  \<^item> This theory: the eBPF program, the tracer and the collector composed, and names on their way from the wire to the database.

  State is passed explicitly: a record for each struct, a directory or database as lists and maps. Errors are values of a
  sum or option type, one constructor for each error of the source. Integers keep their width as words where the source
  computes with them; times are nanoseconds as integers, \<^verbatim>\<open>float64\<close> is a rational number or one of the special values. A
  transaction is a function from the database to an error or a new database; concurrent workers, requests and processes are
  steps in any order.

  \<^bold>\<open>What is shown.\<close> For the program: what it delivers is a subsequence of what the socket calls did, in order
  (\<open>delivered_is_subsequence\<close>), its maps and events keep their invariant, with room it is exact
  (\<open>ideal_run_expected\<close>, \<open>send_accounted_once\<close>), and its reads are inside the kernel's objects. For the agent: what
  arrives in the collector is what the program saw (\<open>pipeline_exact\<close>), totals are conserved and, without nested calls, never exceed the
  traffic, the table is bounded, a process is never taken for
  another that had its identifier (\<open>process_fresh\<close>) and every reported event is valid (\<open>live_events_valid\<close>), decoding is the inverse of the program's memory image with exact errors, the
  tracer releases what it opened, the TLS parser never reads out of range and finds the name of every well-formed
  hello, reassembly is bounded and exact, the capture filter comes to a verdict on every frame and accepts exactly those it should, and the lines of one
  log that grows are reported once, over restarts of the agent, unless a poll fails after it has moved the cursor (\<open>tail_exactly_once\<close>). For the delivery: the spool is a queue with exact eviction; a
  compaction keeps the traffic of every interface and minute in the summaries it writes, with those already there, wherever it is cut off, as long as no two minutes share a
  summary's name (\<open>compaction_exact\<close>),
  the checkpoint is atomic and a failed sample is recovered, recording is complete, draining ends
  (\<open>drain_delivers\<close>), the sender's retries are exact, and together with the server every batch is stored exactly once, whatever
  statements fail and whichever answers are lost (\<open>agent_to_server\<close>, \<open>ingest_exactly_once\<close>). For the server: minute totals are always those
  of the rows (\<open>traffic_aggregated\<close>, \<open>flow_totals\<close>), connections are named by the evidence of their batch, rollups of whole hours and days are the sums of the
  minutes, column by column (\<open>rollup_conserves\<close>), retention deletes only what a day covers and leaves the days (\<open>cleanup_spares_uncovered\<close>,
  \<open>rollups_survive_cleanup\<close>), partitions are ready for the months ahead, alerts follow their specification, deliveries and jobs have one
  holder and a bounded number of recorded attempts, webhooks never dial loopback, private, link-local, multicast or unspecified addresses (\<open>dial_never_internal\<close>; other ranges that are not public are dialled), no request passes without a session in force
  (\<open>session_required\<close>), wrong passwords in a window are bounded by the limit and the number of logins at the same time (\<open>logins_bounded\<close>) and a ticket enrolls once (\<open>enrollment_once\<close>).

  Theorems that show a fault of the code are \<open>summaries_collide\<close>, \<open>health_reports_collide\<close>,
  \<open>mapped_private_outbound\<close>, \<open>big_endian_counters_reversed\<close>, \<open>dns_odd_address_invalid\<close>, \<open>nested_send_loses_outer\<close>, \<open>zero_name_blocks\<close>,
  \<open>zero_byte_resends\<close>, \<open>failed_poll_loses\<close>, \<open>invalid_request_poisons\<close>, \<open>named_upstream_refused\<close>, \<open>finish_cut_refused\<close>, \<open>public_ranges\<close>,
  \<open>rollup_after_cleanup_shrinks\<close>, \<open>details_outlive_retention\<close>, \<open>future_row_blocks\<close>, \<open>parallel_guesses\<close> and \<open>failed_lookup_logs_out\<close>.

  \<^bold>\<open>Parameters.\<close> Code outside the repository enters as arguments: BPF helpers and kernel memory, the cilium/ebpf and gopacket
  packages, AF_PACKET, JSON and gzip, SHA-256, HMAC, AES-GCM and Argon2, random bytes, the rounding of floating point, the unstable sort, the
  HTTP client, DNS, the network database, the Docker service, log files and \<^verbatim>\<open>/proc\<close>, the text PostgreSQL gives to \<^verbatim>\<open>inet\<close> and \<^verbatim>\<open>jsonb\<close>, its choice among equal rows and the precision of its
  times, the failure of any system call or SQL statement. Hypotheses on them are stated where they are used: a codec decodes what it
  encoded, hash prefixes and keys have their length, kernel maps keep what is put into them until it is deleted or evicted. The spool and
  the handlers of the administrator read their clock once for each
  call. Loops that may not end are \<open>partial_function (option)\<close> (\<open>drain\<close>), and their end is proved; runs of the filter have
  fuel, and the length of the program is shown to suffice; goroutines of the packet source appear as the order in which their
  packets arrive.

  \<^bold>\<open>Not modelled\<close>: the rest of \<^verbatim>\<open>vmlinux.h\<close>, which declares kernel types the program does not reach; generated
  bindings of the BPF object; most of \<^verbatim>\<open>cmd/\<close>, wiring of goroutines, tickers and signals; the Docker client, whose answers are
  arguments of the refresh; the observations of alerts, the overview and the traffic queries, which are SQL
  that only reads; configuration, routing, health checks and the network database of the server; the web interface and the deployment.
\<close>

section \<open>From a socket to an observation\<close>

text \<open>The content of the fields of a kernel socket the program reads: family, state, local port (a
  host-order number in the kernel), remote port (stored in network order) and addresses.\<close>

record inet_socket =
  so_family :: u16
  so_state :: u8
  so_num :: u16
  so_dport :: u16
  so_laddr :: bytes
  so_raddr :: bytes

definition holds_socket :: "kernel_view \<Rightarrow> u64 \<Rightarrow> inet_socket \<Rightarrow> bool" where
  "holds_socket M sk so \<longleftrightarrow>
     probe_read_kernel M (sk + 16) 2 = mem_bytes (target_endian M) 2 (so_family so) \<and>
     probe_read_kernel M (sk + 18) 1 = [so_state so] \<and>
     probe_read_kernel M (sk + 14) 2 = mem_bytes (target_endian M) 2 (so_num so) \<and>
     probe_read_kernel M (sk + 12) 2 = mem_bytes BigEndian 2 (so_dport so) \<and>
     (if so_family so = 2
      then probe_read_kernel M (sk + 4) 4 = so_laddr so \<and> probe_read_kernel M sk 4 = so_raddr so \<and>
        length (so_laddr so) = 4 \<and> length (so_raddr so) = 4
      else so_family so = 10 \<and> probe_read_kernel M (sk + 72) 16 = so_laddr so \<and>
        probe_read_kernel M (sk + 56) 16 = so_raddr so \<and>
        length (so_laddr so) = 16 \<and> length (so_raddr so) = 16)"

definition socket_addr :: "inet_socket \<Rightarrow> bytes \<Rightarrow> addr" where
  "socket_addr so a = (if so_family so = 2 then Addr4 a else Addr16 a)"

definition socket_observation :: "bpf_ctx \<Rightarrow> inet_socket \<Rightarrow> u8 \<Rightarrow> u64 \<Rightarrow> u64 \<Rightarrow> Observation" where
  "socket_observation c so proto snt rcvd =
     \<lparr>MonotonicNS = ktime_ns c, CgroupID = current_cgroup_id c, PID = ucast (drop_bit 32 (current_pid_tgid c)),
      Protocol = proto, LocalIP = socket_addr so (so_laddr so), RemoteIP = socket_addr so (so_raddr so),
      LocalPort = so_num so, RemotePort = so_dport so, Sent = snt, Received = rcvd, State = so_state so\<rparr>"

lemma net_order_be: "net_order LittleEndian (of_mem LittleEndian (mem_bytes BigEndian 2 p)) = p"
  using net_order_htons [of LittleEndian p] by (simp add: bpf_htons_def)

lemma of_mem_1: "of_mem LittleEndian [b] = b" for b :: u8
  by simp

lemma socket_fields:
  assumes "header_offsets M" "target_endian M = LittleEndian" "holds_socket M sk so"
  shows "core_read_int M sk [''__sk_common'', ''skc_family''] 2 = so_family so"
    "core_read_int M sk [''__sk_common'', ''skc_state''] 1 = so_state so"
    "core_read_int M sk [''__sk_common'', ''skc_num''] 2 = so_num so"
    "core_read_int M sk [''__sk_common'', ''skc_dport''] 2 = (of_mem LittleEndian (mem_bytes BigEndian 2 (so_dport so)) :: u16)"
    "so_family so = 2 \<Longrightarrow> mem_bytes LittleEndian 4 (core_read_int M sk [''__sk_common'', ''skc_rcv_saddr''] 4 :: u32) = so_laddr so"
    "so_family so = 2 \<Longrightarrow> mem_bytes LittleEndian 4 (core_read_int M sk [''__sk_common'', ''skc_daddr''] 4 :: u32) = so_raddr so"
    "so_family so = 10 \<Longrightarrow> core_read M sk [''__sk_common'', ''skc_v6_rcv_saddr'', ''in6_u'', ''u6_addr8''] 16 = so_laddr so"
    "so_family so = 10 \<Longrightarrow> core_read M sk [''__sk_common'', ''skc_v6_daddr'', ''in6_u'', ''u6_addr8''] 16 = so_raddr so"
  using assms(2,3) le_bytes_of_le [of "so_laddr so", where 'a = 32] le_bytes_of_le [of "so_raddr so", where 'a = 32]
  by (simp_all add: core_read_int_def core_read_def header_offsets_common [OF assms(1)] holds_socket_def of_le_bytes)

lemma well_formed_counts [simp]: "well_formed (e\<lparr>sent := snt, received := rcvd\<rparr>) = well_formed e"
  by (simp add: well_formed_def)

lemma socket_fill:
  assumes "header_offsets M" "target_endian M = LittleEndian" "holds_socket M sk so"
    "proto \<in> {IPPROTO_TCP, IPPROTO_UDP}"
  shows "\<exists>e. fill_event M c sk proto = (1, e) \<and> well_formed e \<and>
    observation_of (e\<lparr>sent := snt, received := rcvd\<rparr>) = socket_observation c so proto snt rcvd"
proof -
  note f = socket_fields [OF assms(1-3)]
  have fam: "so_family so = 2 \<or> so_family so = 10" using assms(3) by (auto simp: holds_socket_def split: if_splits)
  have len: "so_family so = 2 \<Longrightarrow> length (so_laddr so) = 4 \<and> length (so_raddr so) = 4"
    "so_family so = 10 \<Longrightarrow> length (so_laddr so) = 16 \<and> length (so_raddr so) = 16"
    using assms(3) by (auto simp: holds_socket_def)
  from fam show ?thesis
  proof
    assume 4: "so_family so = 2"
    show ?thesis
      using assms(2,4) f(5,6) [OF 4] len(1) [OF 4] net_order_htons [of LittleEndian "so_num so"] net_order_be [of "so_dport so"]
      by (auto simp: fill_event_def f(1-4) 4 zero_event_def memcpy_def well_formed_def observation_of_def
          socket_observation_def socket_addr_def event_addr_def AF_INET_def Let_def simp del: One_nat_def)
  next
    assume 6: "so_family so = 10"
    show ?thesis
      using assms(2,4) f(7,8) [OF 6] len(2) [OF 6] net_order_htons [of LittleEndian "so_num so"] net_order_be [of "so_dport so"]
      by (auto simp: fill_event_def f(1-4) 6 zero_event_def well_formed_def observation_of_def
          socket_observation_def socket_addr_def event_addr_def AF_INET_def AF_INET6_def Let_def simp del: One_nat_def)
  qed
qed

section \<open>Sums over parts of a trace\<close>

lemma sum_list_subseq:
  assumes "subseq xs ys" "\<And>y. 0 \<le> f y"
  shows "(\<Sum>x\<leftarrow>filter P xs. f x) \<le> (\<Sum>y\<leftarrow>filter P ys. (f y :: int))"
  using assms by (induction rule: list_emb.induct) (auto intro!: add_increasing sum_list_nonneg)

lemma total_subseq:
  assumes "subseq os os'"
  shows "total_sent a k os \<le> total_sent a k os'" "total_received a k os \<le> total_received a k os'"
  using assms by (auto simp: total_sent_def total_received_def matching_def intro!: sum_list_subseq)

text \<open>The samples the reader returns during a run of the loop.\<close>

definition samples :: "iteration list \<Rightarrow> bytes list" where
  "samples its = List.map_filter (\<lambda>it. case read_result it of Tracer.Sample raw \<Rightarrow> Some raw | _ \<Rightarrow> None) its"

lemma decoded_images:
  "samples its = map (event_bytes LittleEndian) es \<Longrightarrow> \<forall>e \<in> set es. well_formed e \<Longrightarrow>
     decoded_samples its = map observation_of es"
proof (induction its arbitrary: es)
  case (Cons it its)
  show ?case
  proof (cases "read_result it")
    case (Sample raw)
    with Cons.prems obtain e es' where es: "es = e # es'" "raw = event_bytes LittleEndian e"
      "samples its = map (event_bytes LittleEndian) es'"
      by (cases es) (auto simp: samples_def)
    then show ?thesis
      using Cons.IH [of es'] Cons.prems(2) Sample by (simp add: sample_of_def decode_image)
  qed (use Cons in \<open>auto simp: samples_def sample_of_def\<close>)
qed (simp add: samples_def)

text \<open>A turn of the read loop in which the agent is not being stopped and the ring works.\<close>

definition quiet :: "iteration \<Rightarrow> bool" where
  "quiet it \<longleftrightarrow> \<not> ctx_done it \<and> \<not> ctx_done_on_send it \<and>
     (case read_result it of Tracer.Sample _ \<Rightarrow> True | DeadlineExceeded \<Rightarrow> True | _ \<Rightarrow> False)"

lemma quiet_goes_on:
  "list_all quiet its \<Longrightarrow> samples its = map (event_bytes LittleEndian) es \<Longrightarrow> \<forall>e \<in> set es. well_formed e \<Longrightarrow>
     list_all goes_on its"
proof (induction its arbitrary: es)
  case (Cons it its)
  show ?case
  proof (cases "read_result it")
    case (Sample raw)
    with Cons.prems obtain e es' where es: "es = e # es'" "raw = event_bytes LittleEndian e"
      "samples its = map (event_bytes LittleEndian) es'"
      by (cases es) (auto simp: samples_def)
    then show ?thesis
      using Cons.IH [of es'] Cons.prems Sample by (simp add: sample_of_def decode_image goes_on_def quiet_def)
  qed (use Cons in \<open>auto simp: samples_def goes_on_def quiet_def\<close>)
qed simp

text \<open>The events of a connection.\<close>

definition events_of :: "Attributor \<Rightarrow> connectionKey \<Rightarrow> flow_event list \<Rightarrow> flow_event list" where
  "events_of a k es = filter (\<lambda>e. usable (observation_of e) \<and> obs_key a (observation_of e) = k) es"

lemma total_events:
  assumes "\<forall>e \<in> set es. submitted_event e"
  shows "total_sent a k (map observation_of es) = (\<Sum>e\<leftarrow>events_of a k es. uint (sent e))"
    "total_received a k (map observation_of es) = (\<Sum>e\<leftarrow>events_of a k es. uint (received e))"
proof -
  have "min max_int (uint (sent e)) = uint (sent e) \<and> min max_int (uint (received e)) = uint (received e)"
    if "e \<in> set es" for e
    using that assms by (auto simp: submitted_event_def one_direction_def min_def)
  then show "total_sent a k (map observation_of es) = (\<Sum>e\<leftarrow>events_of a k es. uint (sent e))"
    "total_received a k (map observation_of es) = (\<Sum>e\<leftarrow>events_of a k es. uint (received e))"
    by (auto simp: total_sent_def total_received_def matching_def events_of_def filter_map observation_of_def comp_def
        intro!: arg_cong [where f = sum_list] map_cong)
qed

lemma ideal_submitted:
  assumes "\<forall>f \<in> set fs. good_view (fst (snd f))"
  shows "\<forall>e \<in> set (expected_events (rev fs)). submitted_event e"
proof -
  have "flow_inv (\<lambda>m. m) (\<lambda>r. r) ideal_init" by (simp add: flow_inv_def ideal_init_def)
  from ideal.inv_run [OF this assms] show ?thesis by (simp add: flow_inv_def ideal_run)
qed

section \<open>Properties of the whole agent\<close>

definition demo_socket :: inet_socket where
  "demo_socket = \<lparr>so_family = 2, so_state = 1, so_num = 8080, so_dport = 443, so_laddr = [10, 0, 0, 1],
     so_raddr = [93, 184, 216, 34]\<rparr>"

text \<open>The memory of a kernel that holds \<open>demo_socket\<close> at address 0.\<close>

definition demo_memory :: bytes where
  "demo_memory = [93, 184, 216, 34, 10, 0, 0, 1, 0, 0, 0, 0, 1, 187, 144, 31, 2, 0, 1] @ replicate 117 0"

definition socket_view :: kernel_view where
  "socket_view = header_view\<lparr>probe_read_kernel := \<lambda>a n. take n (drop (unat a) demo_memory @ replicate n 0)\<rparr>"

lemma socket_view_holds:
  "header_offsets socket_view" "target_endian socket_view = LittleEndian" "holds_socket socket_view 0 demo_socket"
  using header_view_offsets
  by (simp_all add: socket_view_def header_offsets_def header_view_def holds_socket_def demo_socket_def demo_memory_def
      byte_eval)

lemma socket_view_good: "good_view socket_view"
  by (auto simp: good_view_def socket_view_def min_def)

text \<open>C8. End to end, for one call: on a little-endian kernel that lays sockets out as the header says, the record
  a probe writes for an IPv4 or IPv6 socket decodes to the true endpoints of that socket:
  both addresses, both ports in host order, the state, the calling process and cgroup, and the
  byte counts written.\<close>

theorem socket_observed:
  assumes "header_offsets M" "target_endian M = LittleEndian" "holds_socket M sk so"
    "proto \<in> {IPPROTO_TCP, IPPROTO_UDP}"
  shows "fst (fill_event M c sk proto) = 1 \<and>
    decodeRecord (event_bytes (target_endian M) ((snd (fill_event M c sk proto))\<lparr>sent := snt, received := rcvd\<rparr>)) =
      Inr (socket_observation c so proto snt rcvd)"
proof -
  obtain e where e: "fill_event M c sk proto = (1, e)" "well_formed e"
    "observation_of (e\<lparr>sent := snt, received := rcvd\<rparr>) = socket_observation c so proto snt rcvd"
    using socket_fill [OF assms] by blast
  from e(2) have "well_formed (e\<lparr>sent := snt, received := rcvd\<rparr>)" by simp
  from decode_image [OF this] e assms(2) show ?thesis by simp
qed

theorem socket_observed_witness:
  "decodeRecord (event_bytes LittleEndian ((snd (fill_event socket_view (demo_ctx 7) 0 IPPROTO_TCP))\<lparr>sent := 1500, received := 0\<rparr>)) =
     Inr \<lparr>MonotonicNS = 5, CgroupID = 9, PID = 0, Protocol = 6, LocalIP = Addr4 [10, 0, 0, 1],
       RemoteIP = Addr4 [93, 184, 216, 34], LocalPort = 8080, RemotePort = 443, Sent = 1500, Received = 0, State = 1\<rparr>"
  using socket_observed [OF socket_view_holds(1-3), of IPPROTO_TCP "demo_ctx 7" 0 1500] socket_view_holds(2)
  by (simp add: socket_observation_def demo_socket_def socket_addr_def demo_ctx_def IPPROTO_TCP_def)

text \<open>A trace for the witnesses: one send of 1500 bytes on that socket, read in one turn.\<close>

definition demo_trace :: "firing list" where
  "demo_trace = [(demo_ctx 7, socket_view, Tcp_sendmsg 0), (demo_ctx 7, socket_view, Tcp_sendmsg_return 1500)]"

definition demo_sent :: flow_event where
  "demo_sent = (snd (fill_event socket_view (demo_ctx 7) 0 IPPROTO_TCP))\<lparr>sent := 1500\<rparr>"

definition demo_turns :: "iteration list" where
  "demo_turns = [\<lparr>ctx_done = False, read_result = Tracer.Sample (event_bytes LittleEndian demo_sent),
     ctx_done_after_read = False, ctx_done_on_send = False\<rparr>]"

lemma demo_socket_fill:
  "\<exists>e. fill_event socket_view (demo_ctx 7) 0 IPPROTO_TCP = (1, e) \<and> well_formed e \<and>
     observation_of (e\<lparr>sent := 1500, received := 0\<rparr>) = socket_observation (demo_ctx 7) demo_socket IPPROTO_TCP 1500 0 \<and>
     received e = 0"
proof -
  obtain e where e: "fill_event socket_view (demo_ctx 7) 0 IPPROTO_TCP = (1, e)" "well_formed e"
    "observation_of (e\<lparr>sent := 1500, received := 0\<rparr>) = socket_observation (demo_ctx 7) demo_socket IPPROTO_TCP 1500 0"
    using socket_fill [OF socket_view_holds, where proto = IPPROTO_TCP and c = "demo_ctx 7" and snt = 1500 and rcvd = 0]
    by blast
  moreover have "received e = 0"
    using fill_event_saved(1) [OF e(1) _ socket_view_good] unfolding saved_event_def by blast
  ultimately show ?thesis by blast
qed

lemma demo_trace_facts:
  "expected_events (rev demo_trace) = [demo_sent]" "unnested (rev demo_trace)"
  "observation_of demo_sent = socket_observation (demo_ctx 7) demo_socket IPPROTO_TCP 1500 0"
  "\<forall>f \<in> set demo_trace. good_view (fst (snd f))" "samples demo_turns = map (event_bytes LittleEndian) [demo_sent]"
  "list_all quiet demo_turns" "well_formed demo_sent"
proof -
  obtain e where e: "fill_event socket_view (demo_ctx 7) 0 IPPROTO_TCP = (1, e)" "well_formed e" "received e = 0"
    "observation_of (e\<lparr>sent := 1500, received := 0\<rparr>) = socket_observation (demo_ctx 7) demo_socket IPPROTO_TCP 1500 0"
    using demo_socket_fill by blast
  have d: "demo_sent = e\<lparr>sent := 1500, received := 0\<rparr>" using e by (simp add: demo_sent_def)
  show "observation_of demo_sent = socket_observation (demo_ctx 7) demo_socket IPPROTO_TCP 1500 0" "well_formed demo_sent"
    unfolding d using e(2,4) by (simp_all only: well_formed_counts)
  show "expected_events (rev demo_trace) = [demo_sent]" "unnested (rev demo_trace)"
    using e by (simp_all add: demo_trace_def entry_event_def demo_ctx_key demo_sent_def word_sless_alt)
qed (simp_all add: demo_trace_def socket_view_good demo_turns_def samples_def quiet_def)

lemma demo_observation_usable: "usable (observation_of demo_sent)"
  by (simp add: demo_trace_facts usable_def socket_observation_def socket_addr_def demo_socket_def)

abbreviation demo_key :: connectionKey where
  "demo_key \<equiv> obs_key demo_attributor (observation_of demo_sent)"

lemma demo_run: "Run demo_turns = ([observation_of demo_sent], Running)"
  using demo_trace_facts(7) by (simp add: demo_turns_def decode_image)

lemma demo_active: "active_keys demo_attributor [observation_of demo_sent] = {demo_key}"
  by (auto simp: active_keys_def demo_observation_usable)

text \<open>C3. End to end, for a whole trace between two drains of the table: with a little-endian kernel that loses nothing, whose reads of memory give
  as many bytes as asked for, a reader that gets every record and is neither stopped nor fails, and at most 4096 connections in the
  trace (\<open>maxActiveConnections\<close>; observations of further ones are dropped), the table of
  the agent holds, for every connection of the trace that has ports and addresses on both sides, the exact sum of the bytes of all its
  calls, as the stateless specification of the probes defines them (saturated at the largest
  signed 64-bit number), and the tracer keeps running.\<close>

theorem pipeline_exact:
  assumes views: "\<forall>f \<in> set fs. good_view (fst (snd f))"
    and read: "samples its = map (event_bytes LittleEndian) (events (run_probes ideal_helpers fs ideal_init))"
    and turns: "list_all quiet its"
    and room: "card (active_keys a (map observation_of (expected_events (rev fs)))) \<le> maxActiveConnections"
    and k: "k \<in> active_keys a (map observation_of (expected_events (rev fs)))"
  shows "snd (Run its) = Running \<and>
    (\<exists>cd. map_of (vals (foldl Observe (NewCollector a) (fst (Run its)))) k = Some cd \<and>
      sint (cd_BytesSent cd) = min max_int (\<Sum>e\<leftarrow>events_of a k (expected_events (rev fs)). uint (sent e)) \<and>
      sint (cd_BytesReceived cd) = min max_int (\<Sum>e\<leftarrow>events_of a k (expected_events (rev fs)). uint (received e)))"
proof -
  let ?es = "expected_events (rev fs)"
  have sub: "\<forall>e \<in> set ?es. submitted_event e" using views by (rule ideal_submitted)
  then have wf: "\<forall>e \<in> set ?es. well_formed e" by (simp add: submitted_event_def)
  have s: "samples its = map (event_bytes LittleEndian) ?es" using read by (simp add: ideal_run)
  have run: "Run its = (map observation_of ?es, Running)"
    using Run_goes_on [OF quiet_goes_on [OF turns s wf]] decoded_images [OF s wf] by simp
  have t: "tallies a (map observation_of ?es) (foldl Observe (NewCollector a) (map observation_of ?es))"
    using room by (rule tallies_run)
  then obtain cd where "map_of (vals (foldl Observe (NewCollector a) (map observation_of ?es))) k = Some cd"
    using k by (metis tallies_def map_of_eq_None_iff not_None_eq)
  with t show ?thesis unfolding run by (auto simp: tallies_def total_events [OF sub])
qed

theorem pipeline_exact_witness:
  "\<exists>cd. map_of (vals (foldl Observe (NewCollector demo_attributor) (fst (Run demo_turns)))) demo_key = Some cd \<and>
     sint (cd_BytesSent cd) = 1500"
proof -
  have "samples demo_turns = map (event_bytes LittleEndian) (events (run_probes ideal_helpers demo_trace ideal_init))"
    by (simp add: ideal_run demo_trace_facts)
  moreover have "uint (sent demo_sent) = 1500" by (simp add: demo_sent_def)
  ultimately show ?thesis
    using pipeline_exact [OF demo_trace_facts(4) _ demo_trace_facts(6), of demo_attributor demo_key]
    by (auto simp: demo_trace_facts(1) demo_active maxActiveConnections_def events_of_def demo_observation_usable)
qed

text \<open>A socket without a remote port, such as an unconnected UDP socket, is observed by the probes but never
  reported: the collector drops the observation and counts it as dropped.\<close>

theorem unconnected_socket_dropped:
  assumes "header_offsets M" "target_endian M = LittleEndian" "holds_socket M sk so" "so_dport so = 0"
    "decodeRecord (event_bytes LittleEndian ((snd (fill_event M c sk IPPROTO_UDP))\<lparr>sent := snt, received := rcvd\<rparr>)) = Inr obs"
  shows "Observe col obs = col\<lparr>dropped := dropped col + 1\<rparr>"
proof -
  obtain e where e: "fill_event M c sk IPPROTO_UDP = (1, e)" "well_formed e"
    "observation_of (e\<lparr>sent := snt, received := rcvd\<rparr>) = socket_observation c so IPPROTO_UDP snt rcvd"
    using socket_fill [OF assms(1-3)] by blast
  from e(2) have "well_formed (e\<lparr>sent := snt, received := rcvd\<rparr>)" by simp
  from decode_image [OF this] e(1) assms(5) have "obs = socket_observation c so IPPROTO_UDP snt rcvd"
    unfolding e(3) by simp
  then have "RemotePort obs = 0" using assms(4) by (simp add: socket_observation_def)
  then show ?thesis by (simp add: Observe_cases usable_def)
qed

theorem unconnected_socket_dropped_witness:
  "Observe (NewCollector demo_attributor) (socket_observation (demo_ctx 7) (demo_socket\<lparr>so_dport := 0\<rparr>) IPPROTO_UDP 10 0) =
     (NewCollector demo_attributor)\<lparr>dropped := 1\<rparr>"
proof -
  let ?M = "socket_view\<lparr>probe_read_kernel := \<lambda>a n. if a = 12 then [0, 0] else probe_read_kernel socket_view a n\<rparr>"
  let ?so = "demo_socket\<lparr>so_dport := 0\<rparr>"
  have h: "header_offsets ?M" "target_endian ?M = LittleEndian" "holds_socket ?M 0 ?so"
    using socket_view_holds(1,2)
    by (simp_all add: header_offsets_def socket_view_def holds_socket_def demo_socket_def demo_memory_def header_view_def
        byte_eval)
  obtain e where e: "fill_event ?M (demo_ctx 7) 0 IPPROTO_UDP = (1, e)" "well_formed e"
    "observation_of (e\<lparr>sent := 10, received := 0\<rparr>) = socket_observation (demo_ctx 7) ?so IPPROTO_UDP 10 0"
    using socket_fill [OF h, where proto = IPPROTO_UDP and c = "demo_ctx 7" and snt = 10 and rcvd = 0] by blast
  from e(2) have "well_formed (e\<lparr>sent := 10, received := 0\<rparr>)" by simp
  from decode_image [OF this] e
  have "decodeRecord (event_bytes LittleEndian ((snd (fill_event ?M (demo_ctx 7) 0 IPPROTO_UDP))\<lparr>sent := 10, received := 0\<rparr>)) =
      Inr (socket_observation (demo_ctx 7) ?so IPPROTO_UDP 10 0)" by simp
  from unconnected_socket_dropped [OF h _ this] show ?thesis by (simp add: NewCollector_def)
qed

text \<open>C6. The agent never reports more traffic than there was, as long as no thread enters a send (a UDP receive) while its previous one has not returned: whatever
  updates of maps and records of the ring a kernel that keeps the contract \<open>bpf_kernel\<close> loses, whatever part of the ring
  the reader gets to and however full the table is, the bytes of every entry of the connection
  table are at most the bytes of the calls the probes saw on that connection. Maps and ring are empty at the start and reads of kernel memory give as many bytes as asked for.
  Of nested sends, for which this is not claimed, the inner one would be charged to the socket of the outer one if its entry were lost.\<close>

theorem reports_never_exceed_traffic:
  assumes kernel: "bpf_kernel H contents records"
    and empty: "\<forall>k. contents (pending_sends s) k = None" "\<forall>k. contents (udp_receives s) k = None"
      "records (events s) = []"
    and views: "\<forall>f \<in> set fs. good_view (fst (snd f))" and nesting: "unnested (rev fs)"
    and read: "prefix es (records (events (run_probes H fs s)))"
      "samples its = map (event_bytes LittleEndian) es"
    and entry: "map_of (vals (foldl Observe (NewCollector a) (fst (Run its)))) k = Some cd"
  shows "sint (cd_BytesSent cd) \<le> total_sent a k (map observation_of (expected_events (rev fs))) \<and>
    sint (cd_BytesReceived cd) \<le> total_received a k (map observation_of (expected_events (rev fs)))"
proof -
  have "flow_inv contents records s" using empty by (simp add: flow_inv_def)
  from bpf_kernel.inv_run [OF kernel this views]
  have "\<forall>e \<in> set es. well_formed e"
    using set_mono_prefix [OF read(1)] by (auto simp: flow_inv_def submitted_event_def)
  then have "decoded_samples its = map observation_of es" by (rule decoded_images [OF read(2)])
  moreover have "subseq es (expected_events (rev fs))"
    using bpf_kernel.delivered_subseq [OF kernel] empty nesting read(1)
    by (meson prefix_imp_subseq subseq_order.order_trans)
  ultimately have "subseq (fst (Run its)) (map observation_of (expected_events (rev fs)))"
    using Run_prefix [of its] by (metis prefix_imp_subseq subseq_map subseq_order.order_trans)
  from total_subseq [OF this, of a k] entry_le_total [OF entry] show ?thesis by linarith
qed

theorem reports_never_exceed_traffic_witness:
  "\<exists>cd. map_of (vals (foldl Observe (NewCollector demo_attributor) (fst (Run demo_turns)))) demo_key = Some cd \<and>
     sint (cd_BytesSent cd) \<le> total_sent demo_attributor demo_key [observation_of demo_sent]"
proof -
  let ?vs = "vals (foldl Observe (NewCollector demo_attributor) (fst (Run demo_turns)))"
  have "tallies demo_attributor [observation_of demo_sent] (foldl Observe (NewCollector demo_attributor) [observation_of demo_sent])"
    by (rule tallies_run) (simp add: demo_active maxActiveConnections_def)
  then have "fst ` set ?vs = {demo_key}" by (simp add: tallies_def demo_active demo_run)
  then have "demo_key \<in> fst ` set ?vs" by simp
  then obtain cd where cd: "map_of ?vs demo_key = Some cd"
    by (metis map_of_eq_None_iff not_None_eq)
  have r: "records_prefix = [demo_sent] \<Longrightarrow> prefix records_prefix (events (run_probes ideal_helpers demo_trace ideal_init))"
    for records_prefix by (simp add: ideal_run demo_trace_facts)
  from reports_never_exceed_traffic [OF ideal.bpf_kernel_axioms _ _ _ demo_trace_facts(4,2) r [OF refl] demo_trace_facts(5) cd]
  show ?thesis using cd by (auto simp: demo_trace_facts(1) ideal_init_def)
qed

section \<open>From a DNS answer to the queue of the agent\<close>

text \<open>C28. One DNS answer can stop an agent: the name of an answer may contain a zero byte, which the agent reports as valid evidence and
  PostgreSQL refuses in every statement. The batch with it is answered with an error whatever else happens, so that draining the
  spool ends there with the spool as it was, the tables of the server as they were and the batch not accepted, and so it does
  the next time: nothing the agent measures afterwards is delivered until the batch is evicted.\<close>

theorem zero_name_blocks:
  assumes answer: "answer_evidence lu t answer = Some e" "da_IP answer = Some ip" "length ip = 4 \<or> length ip = 16" "t \<noteq> 0"
    and name: "CHR 0x00 \<in> set (trimDot (da_Name answer))" "list_all (\<lambda>c. (of_char c :: nat) < 128) (trimDot (da_Name answer))"
    and queued: "EvidenceEvent digest e \<in> set (ba_Events b)" "spool_ok (queue app)" "spool_contents (queue app) = b # bs"
    and server: "sender app = (k, db)" "guard_key b \<notin> set (ingest_batches db)"
  shows "evidence_validate e = None \<and>
    (\<exists>app' db' err. app_drain (agent_interfaces (server_send (flow_store env) schedule) encode decode sha percent) app = Some (app', Some err) \<and>
      spool_ok (queue app') \<and> spool_contents (queue app') = b # bs \<and> sender app' = (Suc k, db') \<and> tables db' = tables db \<and>
      guard_key b \<notin> set (ingest_batches db'))"
proof -
  have "fresh_evidence t e" using answer_evidence_fresh [OF answer(1) _ answer(4)] answer(2,3) by simp
  then have "evidence_validate e = None" by (simp add: evidence_validate_iff fresh_evidence_def)
  moreover have "ne_Name e = map ascii_lower (trimDot (da_Name answer))"
    using answer(1) name(2) by (auto simp: answer_evidence_def toLower_def Let_def split: if_splits option.splits)
  then have zero: "CHR 0x00 \<in> set (ne_Name e)" using name(1) by (force simp: ascii_lower_def)
  have event: "ev_Kind (EvidenceEvent digest e) = EventNameEvidence" "ev_NameEvidence (EvidenceEvent digest e) = Some e"
    by (simp_all add: EvidenceEvent_def)
  note refused = zero_name_refused [OF queued(1) event zero, where env = env and T = "tables db"]
  ultimately show ?thesis using unstorable_blocks [OF queued(2,3) server refused, of schedule encode decode sha percent] server(2) by force
qed

definition zero_answer :: dns_answer where
  "zero_answer = \<lparr>da_Class = 1, da_Type = 1, da_IP = Some [1, 2, 3, 4], da_Name = [CHR ''a'', CHR 0x00, CHR ''.''], da_TTL = 5\<rparr>"

definition zero_evidence :: NameEvidence where
  "zero_evidence = \<lparr>ne_IP = ''1.2.3.4'', ne_Name = [CHR ''a'', CHR 0x00], ne_Source = ''dns'', ne_ValidFrom = 7, ne_ValidUntil = 30000000007\<rparr>"

definition zero_batch :: Batch where
  "zero_batch = (demo_queued ''a'' 10)\<lparr>ba_Events := [EvidenceEvent (\<lambda>e. replicate 24 CHR ''0'') zero_evidence]\<rparr>"

definition zero_agent :: "(spool_env \<times> Spool \<times> sdir, nat \<times> flow_tables database, disk) App" where
  "zero_agent = NewApp ''n'' (demo_spool_env\<lparr>env_decode := \<lambda>bs. Some zero_batch\<rparr>, demo_spool, demo_dir) (0, empty_store) None"

theorem zero_name_blocks_witness:
  "Validate zero_batch = None \<and>
   (\<exists>app' err. app_drain (agent_interfaces (server_send (flow_store plain_rows) (\<lambda>k. (\<lambda>op. False, True))) demo_encode demo_decode (\<lambda>n s. s) (\<lambda>u. []))
      zero_agent = Some (app', Some err) \<and> spool_contents (queue app') = [zero_batch])"
proof -
  have "dotted [1, 2, 3, 4] = ''1.2.3.4''" by code_simp
  then have answer: "answer_evidence id 7 zero_answer = Some zero_evidence"
    by (simp add: answer_evidence_def zero_answer_def zero_evidence_def toLower_def trimDot_def ascii_lower_def clamp_ttl_def net_ip_string_def
        char_of_eq_iff Let_def)
  have "fresh_evidence 7 zero_evidence" using answer_evidence_fresh [OF answer] by (simp add: zero_answer_def)
  then have "valid_event (EvidenceEvent (\<lambda>e. replicate 24 CHR ''0'') zero_evidence)"
    by (intro EvidenceEvent_valid) (simp_all add: fresh_evidence_def)
  then have valid: "Validate zero_batch = None" by (simp add: Validate_iff valid_batch_def zero_batch_def demo_queued_def id_ok_def)
  have "spool_ok (queue zero_agent)" "spool_contents (queue zero_agent) = [zero_batch]"
    using valid by (simp_all add: zero_agent_def NewApp_def demo_dir_def clean_def queued_def queue_files_def json_gz_def suffix_def demo_spool_env_def)
  moreover have "sender zero_agent = (0, empty_store)" "ingest_batches empty_store = []" by (simp_all add: zero_agent_def NewApp_def empty_store_def)
  moreover have "EvidenceEvent (\<lambda>e. replicate 24 CHR ''0'') zero_evidence \<in> set (ba_Events zero_batch)" by (simp add: zero_batch_def)
  ultimately show ?thesis
    using zero_name_blocks [OF answer, of "[1, 2, 3, 4]" "\<lambda>e. replicate 24 CHR ''0''" zero_batch zero_agent "[]" 0 empty_store plain_rows
        "\<lambda>k. (\<lambda>op. False, True)" demo_encode demo_decode "\<lambda>n s. s" "\<lambda>u. []"] valid
    by (auto simp: zero_answer_def trimDot_def)
qed

end
